(* ===== verification/Prelude.thy ===== *)
theory Prelude
  imports Main "HOL-Library.Multiset"
begin

text \<open>
  Shared vocabulary of the development: the errors the code throws, the shape of a method of a
  stateful class, the JavaScript numbers a caller may pass, the stable \<open>Array.prototype.sort\<close>,
  and the generic list lemmas the components share.

  A method of a class is modelled as a function from the state of the object to the result and
  the new state. The new state is returned for a throwing call as well, because a JavaScript
  method that throws keeps every write it made before the throw.
\<close>

section \<open>Errors and methods\<close>

text \<open>
  \<^verbatim>\<open>P1DomainError\<close> carries one of eight codes; a plain \<^verbatim>\<open>Error\<close> only a message. The subclass
  \<^verbatim>\<open>DeferredCreditPaymentEvent\<close> of \<^verbatim>\<open>Error\<close> is the one the code tells apart from the others.
\<close>

datatype p1_code =
    NOT_FOUND
  | FORBIDDEN
  | INSUFFICIENT_ENTITLEMENT
  | IDEMPOTENCY_CONFLICT
  | INVALID_STATE
  | COMMANDS_FROZEN
  | P1_WRITE_DISABLED
  | WRITE_OWNERSHIP_MISSING

datatype js_error =
    P1DomainError p1_code string
  | DeferredCreditPaymentEvent string
  | JsError string

type_synonym 'a result = "js_error + 'a"
type_synonym ('s, 'a) op = "'s \<Rightarrow> 'a result \<times> 's"

named_theorems ledger_simps \<open>unfolding rules of the operations of a ledger\<close>
named_theorems wf_intros \<open>the well-formedness facts an operation keeps\<close>

definition check :: "bool \<Rightarrow> js_error \<Rightarrow> unit result" where
  "check b e = (if b then Inr () else Inl e)"

definition r_bind :: "'a result \<Rightarrow> ('a \<Rightarrow> 'b result) \<Rightarrow> 'b result" where
  "r_bind r f = (case r of Inl e \<Rightarrow> Inl e | Inr a \<Rightarrow> f a)"

definition guarded :: "'a result \<Rightarrow> ('a \<Rightarrow> ('s, 'b) op) \<Rightarrow> ('s, 'b) op" where
  "guarded r f s = (case r of Inl e \<Rightarrow> (Inl e, s) | Inr a \<Rightarrow> f a s)"

definition op_bind :: "('s, 'a) op \<Rightarrow> ('a \<Rightarrow> ('s, 'b) op) \<Rightarrow> ('s, 'b) op" where
  "op_bind m f s = (case m s of (Inl e, s') \<Rightarrow> (Inl e, s') | (Inr a, s') \<Rightarrow> f a s')"

text \<open>
  \<^verbatim>\<open>runAtomically\<close> of the in-memory stores: the promise chain serialises the calls, and a
  throwing call puts the saved copy of the state back.
\<close>

definition atomically :: "('s, 'a) op \<Rightarrow> ('s, 'a) op" where
  "atomically work s = (case work s of (Inl e, _) \<Rightarrow> (Inl e, s) | (Inr a, s') \<Rightarrow> (Inr a, s'))"

text \<open>Evaluation reads the sequencing as a case distinction, so that a continuation runs only on a value.\<close>

declare r_bind_def [code_unfold]

lemma check_Inr_iff [simp]: "check b e = Inr u \<longleftrightarrow> b"
  by (simp add: check_def)

lemma check_Inl_iff [simp]: "check b e = Inl e' \<longleftrightarrow> \<not> b \<and> e' = e"
  by (auto simp: check_def)

lemma r_bind_simps [simp]:
  "r_bind (Inl e) f = Inl e"
  "r_bind (Inr a) f = f a"
  by (simp_all add: r_bind_def)

lemma r_bind_check [simp]: "r_bind (check b e) f = (if b then f () else Inl e)"
  by (simp add: check_def)

lemma r_bind_Inr_iff: "r_bind r f = Inr b \<longleftrightarrow> (\<exists>a. r = Inr a \<and> f a = Inr b)"
  by (cases r) auto

lemma guarded_simps [simp]:
  "guarded (Inl e) f s = (Inl e, s)"
  "guarded (Inr a) f s = f a s"
  by (simp_all add: guarded_def)

lemma guarded_check [simp]: "guarded (check b e) f s = (if b then f () s else (Inl e, s))"
  by (simp add: check_def)

lemma guarded_cases:
  "guarded r f s = (x, s') \<Longrightarrow>
    (\<exists>e. r = Inl e \<and> x = Inl e \<and> s' = s) \<or> (\<exists>a. r = Inr a \<and> f a s = (x, s'))"
  by (cases r) auto

lemma r_bind_unit_Inr: "r_bind r (\<lambda>_. f) = Inr b \<longleftrightarrow> r = Inr () \<and> f = Inr b"
  by (cases r) auto

lemma guarded_Inr: "guarded r f s = (Inr b, s') \<longleftrightarrow> (\<exists>a. r = Inr a \<and> f a s = (Inr b, s'))"
  by (cases r) auto

lemma guarded_unit_Inr: "guarded r (\<lambda>_. f) s = (Inr b, s') \<longleftrightarrow> r = Inr () \<and> f s = (Inr b, s')"
  by (cases r) auto

lemma op_bind_Inr: "op_bind m f s = (Inr b, s') \<longleftrightarrow> (\<exists>a s1. m s = (Inr a, s1) \<and> f a s1 = (Inr b, s'))"
  by (cases "m s"; cases "fst (m s)") (auto simp: op_bind_def split: sum.splits)

lemma atomically_Inl: "atomically work s = (Inl e, s') \<Longrightarrow> s' = s"
  by (auto simp: atomically_def split: prod.splits sum.splits)

lemma atomically_Inr:
  "atomically work s = (Inr a, s') \<longleftrightarrow> work s = (Inr a, s')"
  by (auto simp: atomically_def split: prod.splits sum.splits)

section \<open>Numbers\<close>

text \<open>
  A TypeScript \<^verbatim>\<open>number\<close> is a double. The code only computes with values that passed
  \<^verbatim>\<open>Number.isInteger\<close> or \<^verbatim>\<open>Number.isSafeInteger\<close>; an argument that has not passed yet is a
  \<open>js_number\<close>: an integral double or any other one (a fraction, an infinity, \<^verbatim>\<open>NaN\<close>). Sums of
  safe integers are taken as exact, which they are while the totals stay below \<open>2 ^ 53\<close>.
\<close>

datatype js_number = JInt int | JNonInt

definition MAX_SAFE_INTEGER :: int where
  "MAX_SAFE_INTEGER = 9007199254740991"

definition is_safe :: "int \<Rightarrow> bool" where
  "is_safe n \<longleftrightarrow> - MAX_SAFE_INTEGER \<le> n \<and> n \<le> MAX_SAFE_INTEGER"

fun number_isInteger :: "js_number \<Rightarrow> bool" where
  "number_isInteger (JInt _) = True"
| "number_isInteger JNonInt = False"

fun number_isSafeInteger :: "js_number \<Rightarrow> bool" where
  "number_isSafeInteger (JInt n) = is_safe n"
| "number_isSafeInteger JNonInt = False"

text \<open>The value of a number the code has checked to be integral.\<close>

fun int_of :: "js_number \<Rightarrow> int" where
  "int_of (JInt n) = n"
| "int_of JNonInt = 0"

lemma number_isInteger_iff: "number_isInteger x \<longleftrightarrow> x = JInt (int_of x)"
  by (cases x) auto

lemma number_isSafeInteger_iff:
  "number_isSafeInteger x \<longleftrightarrow> x = JInt (int_of x) \<and> is_safe (int_of x)"
  by (cases x) auto

text \<open>
  Comparison and subtraction of numbers that may be \<^verbatim>\<open>NaN\<close> (here \<open>None\<close>): every comparison with
  \<^verbatim>\<open>NaN\<close> is false, every difference with it is \<^verbatim>\<open>NaN\<close>.
\<close>

fun num_le :: "int option \<Rightarrow> int option \<Rightarrow> bool" where
  "num_le (Some a) (Some b) = (a \<le> b)"
| "num_le _ _ = False"

fun num_lt :: "int option \<Rightarrow> int option \<Rightarrow> bool" where
  "num_lt (Some a) (Some b) = (a < b)"
| "num_lt _ _ = False"

fun num_sub :: "int option \<Rightarrow> int option \<Rightarrow> int option" where
  "num_sub (Some a) (Some b) = Some (a - b)"
| "num_sub _ _ = None"

text \<open>\<^verbatim>\<open>a === b\<close> on numbers: \<^verbatim>\<open>NaN\<close> equals nothing, itself included.\<close>

fun num_eq :: "int option \<Rightarrow> int option \<Rightarrow> bool" where
  "num_eq (Some a) (Some b) = (a = b)"
| "num_eq _ _ = False"

lemma num_le_iff: "num_le x y \<longleftrightarrow> (\<exists>a b. x = Some a \<and> y = Some b \<and> a \<le> b)"
  by (cases x; cases y) auto

lemma num_lt_iff: "num_lt x y \<longleftrightarrow> (\<exists>a b. x = Some a \<and> y = Some b \<and> a < b)"
  by (cases x; cases y) auto

lemma num_not_lt: "x \<noteq> None \<Longrightarrow> y \<noteq> None \<Longrightarrow> \<not> num_lt x y \<longleftrightarrow> num_le y x"
  by (cases x; cases y) auto

section \<open>Sorting with a comparator\<close>

text \<open>
  \<^verbatim>\<open>Array.prototype.sort\<close> is stable, and reads a comparator result of \<^verbatim>\<open>NaN\<close> as \<open>0\<close>. A comparator
  returns an \<open>int option\<close>, \<open>None\<close> for \<^verbatim>\<open>NaN\<close>.
\<close>

type_synonym 'a comparator = "'a \<Rightarrow> 'a \<Rightarrow> int option"

definition cmp_le :: "'a comparator \<Rightarrow> 'a \<Rightarrow> 'a \<Rightarrow> bool" where
  "cmp_le cmp x y = (case cmp x y of None \<Rightarrow> True | Some d \<Rightarrow> d \<le> 0)"

fun js_insert :: "'a comparator \<Rightarrow> 'a \<Rightarrow> 'a list \<Rightarrow> 'a list" where
  "js_insert cmp x [] = [x]"
| "js_insert cmp x (y # ys) =
     (if cmp_le cmp x y then x # y # ys else y # js_insert cmp x ys)"

fun js_sort :: "'a comparator \<Rightarrow> 'a list \<Rightarrow> 'a list" where
  "js_sort cmp [] = []"
| "js_sort cmp (x # xs) = js_insert cmp x (js_sort cmp xs)"

lemma mset_js_insert [simp]: "mset (js_insert cmp x xs) = add_mset x (mset xs)"
  by (induction xs) auto

lemma mset_js_sort [simp]: "mset (js_sort cmp xs) = mset xs"
  by (induction xs) auto

lemma set_js_sort [simp]: "set (js_sort cmp xs) = set xs"
  by (metis mset_js_sort set_mset_mset)

lemma length_js_sort [simp]: "length (js_sort cmp xs) = length xs"
  by (metis mset_js_sort size_mset)

lemma distinct_js_sort [simp]: "distinct (js_sort cmp xs) = distinct xs"
  by (metis mset_js_sort mset_eq_imp_distinct_iff)

lemma sum_list_js_sort [simp]:
  fixes f :: "'a \<Rightarrow> 'b::comm_monoid_add"
  shows "sum_list (map f (js_sort cmp xs)) = sum_list (map f xs)"
  by (metis mset_js_sort mset_map sum_mset_sum_list)

text \<open>The laws a comparator has to obey, on the values that occur, for the sort to sort.\<close>

locale js_comparator =
  fixes cmp :: "'a comparator"
    and ok :: "'a \<Rightarrow> bool"
  assumes cmp_total: "ok x \<Longrightarrow> ok y \<Longrightarrow> cmp_le cmp x y \<or> cmp_le cmp y x"
    and cmp_trans:
      "ok x \<Longrightarrow> ok y \<Longrightarrow> ok z \<Longrightarrow> cmp_le cmp x y \<Longrightarrow> cmp_le cmp y z \<Longrightarrow> cmp_le cmp x z"
begin

lemma insert_sorted:
  assumes "ok x" and "\<forall>y \<in> set xs. ok y" and "sorted_wrt (cmp_le cmp) xs"
  shows "sorted_wrt (cmp_le cmp) (js_insert cmp x xs)"
  using assms
proof (induction xs)
  case Nil
  then show ?case by simp
next
  case (Cons y ys)
  have set_ins: "set (js_insert cmp x ys) = insert x (set ys)"
    by (metis mset_js_insert set_mset_add_mset_insert set_mset_mset)
  show ?case
  proof (cases "cmp_le cmp x y")
    case True
    with Cons.prems show ?thesis by (auto intro: cmp_trans)
  next
    case False
    with Cons.prems cmp_total have "cmp_le cmp y x" by auto
    with False Cons show ?thesis by (auto simp: set_ins)
  qed
qed

lemma sort_sorted:
  "\<forall>x \<in> set xs. ok x \<Longrightarrow> sorted_wrt (cmp_le cmp) (js_sort cmp xs)"
  by (induction xs) (auto intro!: insert_sorted)

end

section \<open>Lists\<close>

text \<open>
  An array of objects is a list; a reference to one of them is its index, so that a loop over a
  filtered and sorted copy of the array still updates the objects of the array itself.
\<close>

definition indices_where :: "('a \<Rightarrow> bool) \<Rightarrow> 'a list \<Rightarrow> nat list" where
  "indices_where P xs = filter (\<lambda>i. P (xs ! i)) [0..<length xs]"

text \<open>\<^verbatim>\<open>Array.prototype.find\<close> with its position: the reference to the found object.\<close>

fun find_index :: "('a \<Rightarrow> bool) \<Rightarrow> 'a list \<Rightarrow> nat option" where
  "find_index P [] = None"
| "find_index P (x # xs) = (if P x then Some 0 else map_option Suc (find_index P xs))"

lemma find_index_SomeD:
  "find_index P xs = Some i \<Longrightarrow> i < length xs \<and> P (xs ! i) \<and> (\<forall>j < i. \<not> P (xs ! j))"
proof (induction xs arbitrary: i)
  case Nil
  then show ?case by simp
next
  case (Cons x xs)
  show ?case
  proof (cases "P x")
    case True
    with Cons.prems show ?thesis by simp
  next
    case False
    with Cons.prems obtain k where k: "find_index P xs = Some k" "i = Suc k" by auto
    from Cons.IH [OF k(1)] False k(2) show ?thesis
      by (auto simp: nth_Cons split: nat.splits)
  qed
qed

lemma find_index_None: "find_index P xs = None \<longleftrightarrow> (\<forall>x \<in> set xs. \<not> P x)"
  by (induction xs) auto

lemma find_append:
  "find P (xs @ ys) = (case find P xs of None \<Rightarrow> find P ys | Some x \<Rightarrow> Some x)"
  by (induction xs) auto

lemma set_indices_where: "set (indices_where P xs) = {i. i < length xs \<and> P (xs ! i)}"
  by (auto simp: indices_where_def)

lemma distinct_indices_where [simp]: "distinct (indices_where P xs)"
  by (simp add: indices_where_def)

lemma map_nth_indices_where: "map (\<lambda>i. xs ! i) (indices_where P xs) = filter P xs"
proof -
  have "filter P xs = filter P (map ((!) xs) [0..<length xs])"
    by (simp add: map_nth)
  also have "\<dots> = map (\<lambda>i. xs ! i) (indices_where P xs)"
    by (simp add: filter_map o_def indices_where_def)
  finally show ?thesis ..
qed

lemma sum_list_indices:
  fixes f :: "'a \<Rightarrow> 'b::comm_monoid_add"
  shows "sum_list (map (\<lambda>i. f (xs ! i)) (indices_where P xs)) = sum_list (map f (filter P xs))"
  by (simp add: map_nth_indices_where [symmetric] o_def)

lemma sum_list_update:
  fixes f :: "'a \<Rightarrow> 'b::ab_group_add"
  assumes "i < length xs"
  shows "sum_list (map f (xs[i := v])) = sum_list (map f xs) - f (xs ! i) + f v"
  using assms
proof (induction xs arbitrary: i)
  case Nil
  then show ?case by simp
next
  case (Cons x xs)
  then show ?case by (cases i) (auto simp: algebra_simps)
qed

lemma sum_list_nonneg_elem:
  fixes f :: "'a \<Rightarrow> int"
  assumes "x \<in> set xs" and "\<And>y. y \<in> set xs \<Longrightarrow> 0 \<le> f y"
  shows "f x \<le> sum_list (map f xs)"
  using assms
proof (induction xs)
  case Nil
  then show ?case by simp
next
  case (Cons y ys)
  have tl: "0 \<le> sum_list (map f ys)" using Cons.prems(2) by (intro sum_list_nonneg) auto
  have hd: "0 \<le> f y" using Cons.prems(2) by simp
  show ?case
  proof (cases "x = y")
    case True
    with tl show ?thesis by simp
  next
    case False
    with Cons.prems have "f x \<le> sum_list (map f ys)" by (intro Cons.IH) auto
    with hd show ?thesis by simp
  qed
qed

lemma sum_list_filter_add:
  fixes f :: "'a \<Rightarrow> 'b::comm_monoid_add"
  shows "sum_list (map f xs) = sum_list (map f (filter P xs)) + sum_list (map f (filter (\<lambda>x. \<not> P x) xs))"
  by (induction xs) (simp_all add: add.assoc add.left_commute)

lemma sum_list_single:
  fixes v :: "'b::comm_monoid_add"
  assumes "distinct (map k ls)" and "x \<in> k ` set ls"
  shows "sum_list (map (\<lambda>l. if k l = x then v else 0) ls) = v"
  using assms
proof (induction ls)
  case Nil
  then show ?case by simp
next
  case (Cons l ls)
  show ?case
  proof (cases "k l = x")
    case True
    then have "\<forall>m \<in> set ls. k m \<noteq> x" using Cons.prems by (auto simp: image_iff)
    then have "sum_list (map (\<lambda>l. if k l = x then v else 0) ls) = 0" by (induction ls) auto
    with True show ?thesis by simp
  next
    case False
    with Cons show ?thesis by auto
  qed
qed

text \<open>Entries grouped by owners that cover them all add up to the same total.\<close>

lemma sum_list_grouped:
  fixes f :: "'a \<Rightarrow> 'b::comm_monoid_add"
  assumes "distinct (map k ls)" and "\<forall>t \<in> set ts. key t \<in> k ` set ls"
  shows "sum_list (map (\<lambda>l. sum_list (map f (filter (\<lambda>t. key t = k l) ts))) ls) = sum_list (map f ts)"
  using assms(2)
proof (induction ts)
  case Nil
  then show ?case by simp
next
  case (Cons t ts)
  have "sum_list (map (\<lambda>l. sum_list (map f (filter (\<lambda>t. key t = k l) (t # ts)))) ls) =
      sum_list (map (\<lambda>l. (if k l = key t then f t else 0) +
        sum_list (map f (filter (\<lambda>t. key t = k l) ts))) ls)"
    by (rule arg_cong [where f = sum_list]) auto
  also have "\<dots> = f t + sum_list (map f ts)"
    using Cons assms(1) by (simp add: sum_list_addf sum_list_single)
  finally show ?case by simp
qed

lemma filter_eq_pointwise:
  assumes "length xs = length ys"
    and "\<And>j. j < length xs \<Longrightarrow> xs ! j = ys ! j \<or> \<not> P (xs ! j) \<and> \<not> P (ys ! j)"
  shows "filter P xs = filter P ys"
  using assms
proof (induction xs ys rule: list_induct2)
  case Nil
  then show ?case by simp
next
  case (Cons x xs y ys)
  have "filter P xs = filter P ys" using Cons.prems [of "Suc _"] Cons.IH by auto
  with Cons.prems [of 0] show ?case by auto
qed

lemma map_update_same: "f v = f (xs ! i) \<Longrightarrow> map f (xs[i := v]) = map f xs"
  by (metis list_update_id map_update)

lemma js_insert_cong:
  "(\<And>y. y \<in> set ys \<Longrightarrow> cmp x y = cmp' x y) \<Longrightarrow> js_insert cmp x ys = js_insert cmp' x ys"
  by (induction ys) (auto simp: cmp_le_def)

lemma js_sort_cong:
  "(\<And>x y. x \<in> set xs \<Longrightarrow> y \<in> set xs \<Longrightarrow> cmp x y = cmp' x y) \<Longrightarrow> js_sort cmp xs = js_sort cmp' xs"
proof (induction xs)
  case (Cons x xs)
  then have "js_sort cmp xs = js_sort cmp' xs" by simp
  with Cons.prems show ?case by (auto intro: js_insert_cong)
qed simp

end
