(* ===== verification/JsText.thy ===== *)
theory JsText
  imports Prelude "HOL-Library.List_Lexorder" "HOL-Library.Product_Lexorder"
begin

text \<open>
  The string operations of the JavaScript library the code uses: \<^verbatim>\<open>trim\<close>, \<^verbatim>\<open>startsWith\<close>,
  \<^verbatim>\<open>toUpperCase\<close>, the decimal rendering of an integer in a template literal, and \<^verbatim>\<open>localeCompare\<close>.
  Strings are lists of characters and cover the ASCII range the identifiers of the code live in.
  \<^verbatim>\<open>localeCompare\<close> follows the CLDR root collation: primary weights first (white space,
  punctuation, symbols, digits, letters without case), then case, lower before upper; control
  characters are ignored.
\<close>

section \<open>Blank strings, prefixes, case\<close>

definition char_code :: "char \<Rightarrow> nat" where
  "char_code c = of_char c"

definition is_ws :: "char \<Rightarrow> bool" where
  "is_ws c = (let n = char_code c in (9 \<le> n \<and> n \<le> 13) \<or> n = 32)"

definition trim :: "string \<Rightarrow> string" where
  "trim s = rev (dropWhile is_ws (rev (dropWhile is_ws s)))"

text \<open>\<^verbatim>\<open>!s.trim()\<close>: the empty string is the only falsy one.\<close>

definition blank :: "string \<Rightarrow> bool" where
  "blank s = (trim s = [])"

definition starts_with :: "string \<Rightarrow> string \<Rightarrow> bool" where
  "starts_with p s = (take (length p) s = p)"

text \<open>An optional text that is absent or empty is falsy, and read as absent.\<close>

definition truthy :: "string option \<Rightarrow> string option" where
  "truthy v = (case v of None \<Rightarrow> None | Some x \<Rightarrow> if x = [] then None else Some x)"

text \<open>The operators \<^verbatim>\<open><\<close> and \<^verbatim>\<open>>\<close> on strings compare code units.\<close>

definition str_less :: "string \<Rightarrow> string \<Rightarrow> bool" where
  "str_less a b \<longleftrightarrow> map char_code a < map char_code b"

definition str_compare :: "string comparator" where
  "str_compare a b = Some (if str_less a b then - 1 else if a = b then 0 else 1)"

definition upper_char :: "char \<Rightarrow> char" where
  "upper_char c = (let n = char_code c in if 97 \<le> n \<and> n \<le> 122 then char_of (n - 32) else c)"

definition to_upper :: "string \<Rightarrow> string" where
  "to_upper s = map upper_char s"

lemma dropWhile_rev_Nil: "dropWhile P (rev (dropWhile P xs)) = [] \<longleftrightarrow> (\<forall>x \<in> set xs. P x)"
proof -
  have "(\<forall>x \<in> set (dropWhile P xs). P x) \<longleftrightarrow> (\<forall>x \<in> set xs. P x)"
    by (induction xs) auto
  then show ?thesis by (simp only: dropWhile_eq_Nil_conv set_rev)
qed

lemma blank_iff: "blank s \<longleftrightarrow> (\<forall>c \<in> set s. is_ws c)"
  by (simp only: blank_def trim_def rev_is_Nil_conv dropWhile_rev_Nil)

lemma starts_with_append [simp]: "starts_with p (p @ s)"
  by (simp add: starts_with_def)

lemma starts_with_iff: "starts_with p s \<longleftrightarrow> (\<exists>t. s = p @ t)"
  by (metis append_take_drop_id starts_with_append starts_with_def)

text \<open>Code equations that compare characters instead of counting their codes in unary.\<close>

lemma char_code_eq_iff: "char_code c = char_code d \<longleftrightarrow> c = d"
  by (simp add: char_code_def)

lemma is_ws_code [code]:
  "is_ws c \<longleftrightarrow> c = CHR 0x09 \<or> c = CHR 0x0A \<or> c = CHR 0x0B \<or> c = CHR 0x0C \<or> c = CHR 0x0D \<or> c = CHR '' ''"
  unfolding is_ws_def Let_def char_code_eq_iff [symmetric] by (simp add: char_code_def) linarith

section \<open>Decimal numerals\<close>

definition digit_char :: "nat \<Rightarrow> char" where
  "digit_char d = char_of (48 + d)"

definition digit_value :: "char \<Rightarrow> nat option" where
  "digit_value c = (let n = char_code c in if 48 \<le> n \<and> n \<le> 57 then Some (n - 48) else None)"

fun show_nat :: "nat \<Rightarrow> string" where
  "show_nat n = (if n < 10 then [digit_char n] else show_nat (n div 10) @ [digit_char (n mod 10)])"

declare show_nat.simps [simp del]

definition show_int :: "int \<Rightarrow> string" where
  "show_int n = (if n < 0 then ''-'' @ show_nat (nat (- n)) else show_nat (nat n))"

text \<open>The same digits computed on integers, whose arithmetic evaluates in binary.\<close>

function show_digits :: "int \<Rightarrow> string" where
  "show_digits n =
     (if n < 10 then [digit_char (nat n)]
      else show_digits (n div 10) @ [digit_char (nat (n mod 10))])"
  by pat_completeness auto
termination by (relation "measure nat") auto

declare show_digits.simps [simp del]

lemma show_nat_code [code]: "show_nat n = show_digits (int n)"
proof (induction n rule: show_nat.induct)
  case (1 n)
  have "show_digits (int n) = (if n < 10 then [digit_char n]
      else show_digits (int (n div 10)) @ [digit_char (n mod 10)])"
    by (subst show_digits.simps) (simp add: zdiv_int zmod_int nat_mod_distrib)
  with 1 show ?case by (subst show_nat.simps) simp
qed

lemma show_int_code [code]: "show_int n = (if n < 0 then ''-'' @ show_digits (- n) else show_digits n)"
  by (simp add: show_int_def show_nat_code)

lemma digit_value_code [code]: "digit_value c = find_index (\<lambda>x. x = c) ''0123456789''"
proof -
  have eq: "x = c \<longleftrightarrow> char_code c = char_code x" for x by (auto simp: char_code_def)
  show ?thesis
    unfolding digit_value_def Let_def find_index.simps eq by (simp add: char_code_def) presburger
qed

text \<open>A digit is looked up, so that evaluation needs no arithmetic of characters.\<close>

lemma digit_char_code [code]: "digit_char d = (if d < 10 then ''0123456789'' ! d else digit_char d)"
proof -
  have "d \<in> {0, 1, 2, 3, 4, 5, 6, 7, 8, 9}" if "d < 10" using that by auto
  then show ?thesis by (auto simp: digit_char_def char_of_def bit_Suc_0_iff)
qed

lemma char_code_digit: "d < 10 \<Longrightarrow> char_code (digit_char d) = 48 + d"
  by (simp add: char_code_def digit_char_def of_char_of)

lemma digit_value_char [simp]: "d < 10 \<Longrightarrow> digit_value (digit_char d) = Some d"
  by (simp add: digit_value_def char_code_digit)

lemma digit_char_inj: "d < 10 \<Longrightarrow> e < 10 \<Longrightarrow> digit_char d = digit_char e \<Longrightarrow> d = e"
  by (metis digit_value_char option.inject)

lemma show_nat_digits: "\<forall>c \<in> set (show_nat n). \<exists>d < 10. c = digit_char d"
proof (induction n rule: show_nat.induct)
  case (1 n)
  show ?case
  proof (cases "n < 10")
    case True
    then show ?thesis by (subst show_nat.simps) auto
  next
    case False
    with "1.IH" have ih: "\<forall>c \<in> set (show_nat (n div 10)). \<exists>d < 10. c = digit_char d" by simp
    have "n mod 10 < 10" by simp
    then have "\<exists>d < 10. digit_char (n mod 10) = digit_char d" by blast
    with False ih show ?thesis by (subst show_nat.simps) auto
  qed
qed

lemma colon_no_digit: "d < 10 \<Longrightarrow> digit_char d \<noteq> CHR '':''"
  using char_code_digit [of d] by (auto simp: char_code_def)

lemma colon_notin_show_nat: "CHR '':'' \<notin> set (show_nat n)"
  using show_nat_digits [of n] colon_no_digit by metis

fun digits_value :: "string \<Rightarrow> nat" where
  "digits_value s = foldl (\<lambda>a c. 10 * a + the (digit_value c)) 0 s"

lemma digits_value_show_nat: "digits_value (show_nat n) = n"
proof (induction n rule: show_nat.induct)
  case (1 n)
  show ?case
  proof (cases "n < 10")
    case True
    then show ?thesis by (subst show_nat.simps) simp
  next
    case False
    with "1.IH" have "digits_value (show_nat (n div 10)) = n div 10" by simp
    with False show ?thesis by (subst show_nat.simps) simp
  qed
qed

lemma show_nat_inj: "show_nat m = show_nat n \<Longrightarrow> m = n"
  by (metis digits_value_show_nat)

lemma split_last_sep:
  assumes "c \<notin> set b" and "c \<notin> set b'" and "a @ c # b = a' @ c # b'"
  shows "a = a' \<and> b = b'"
proof -
  have tw: "takeWhile (\<lambda>x. x \<noteq> c) (rev (u @ c # v)) = rev v" if "c \<notin> set v" for u v
    using that by (auto simp: takeWhile_append)
  have "rev b = rev b'" using tw [OF assms(1)] tw [OF assms(2)] assms(3) by metis
  then show ?thesis using assms(3) by simp
qed

text \<open>The row identifiers \<^verbatim>\<open>operation:index\<close> of one ledger never collide.\<close>

lemma indexed_id_inj:
  assumes "a @ '':'' @ show_nat i = b @ '':'' @ show_nat j"
  shows "a = b \<and> i = j"
proof -
  have "a = b \<and> show_nat i = show_nat j"
    using split_last_sep [of "CHR '':''" "show_nat i" "show_nat j" a b] assms colon_notin_show_nat
    by simp
  then show ?thesis using show_nat_inj by blast
qed

section \<open>Collation\<close>

definition ignorable :: "char \<Rightarrow> bool" where
  "ignorable c = (let n = char_code c in n < 9 \<or> (13 < n \<and> n < 32) \<or> n = 127)"

text \<open>Root collation order of white space, punctuation and symbols, as character codes.\<close>

definition punctuation_order :: "nat list" where
  "punctuation_order =
     [9, 10, 11, 12, 13, 32, 95, 45, 44, 59, 58, 33, 63, 46, 39, 34, 40, 41, 91, 93, 123, 125,
      64, 42, 47, 92, 38, 35, 37, 96, 94, 43, 60, 61, 62, 124, 126, 36]"

definition primary_weight :: "char \<Rightarrow> nat" where
  "primary_weight c =
     (let n = char_code c in
      if 48 \<le> n \<and> n \<le> 57 then 100 + n
      else if 97 \<le> n \<and> n \<le> 122 then 200 + n
      else if 65 \<le> n \<and> n \<le> 90 then 232 + n
      else case find_index (\<lambda>m. m = n) punctuation_order of Some i \<Rightarrow> i | None \<Rightarrow> 1000 + n)"

definition case_weight :: "char \<Rightarrow> nat" where
  "case_weight c = (let n = char_code c in if 65 \<le> n \<and> n \<le> 90 then 1 else 0)"

definition collation_key :: "string \<Rightarrow> nat list \<times> nat list" where
  "collation_key s =
     (let t = filter (\<lambda>c. \<not> ignorable c) s in (map primary_weight t, map case_weight t))"

definition locale_compare :: "string \<Rightarrow> string \<Rightarrow> int" where
  "locale_compare a b =
     (let ka = collation_key a; kb = collation_key b
      in if ka < kb then - 1 else if ka = kb then 0 else 1)"

lemma locale_compare_le_iff: "locale_compare a b \<le> 0 \<longleftrightarrow> collation_key a \<le> collation_key b"
  by (auto simp: locale_compare_def Let_def)

lemma locale_compare_ge_iff: "0 \<le> locale_compare a b \<longleftrightarrow> collation_key b \<le> collation_key a"
  by (auto simp: locale_compare_def Let_def)

lemma locale_compare_refl [simp]: "locale_compare a a = 0"
  by (simp add: locale_compare_def)

lemma locale_compare_antisym: "locale_compare b a = - locale_compare a b"
  by (auto simp: locale_compare_def Let_def)

end
