(* ===== verification/JsDate.thy ===== *)
theory JsDate
  imports JsText
begin

text \<open>
  The \<^verbatim>\<open>Date\<close> functions the billing code relies on, over milliseconds since 1970-01-01 UTC: the
  proleptic Gregorian calendar of ECMAScript (\<open>day_from_year\<close>, \<open>make_day\<close> and the UTC getters),
  \<^verbatim>\<open>Date.UTC\<close>, \<^verbatim>\<open>toISOString\<close> and \<^verbatim>\<open>Date.parse\<close>. \<^verbatim>\<open>Date.parse\<close> accepts the ECMAScript date-time
  format as V8 does (a day of month up to 31 in every month, \<open>24:00\<close> as the end of a day, a missing
  zone read in the zone of the process, which is UTC here) and is \<^verbatim>\<open>NaN\<close>, modelled as \<open>None\<close>, on
  every other string. The calendar functions are inverse to each other, and parsing inverts
  printing.
\<close>

section \<open>Calendar\<close>

definition ms_per_day :: int where
  "ms_per_day = 86400000"

definition is_leap :: "int \<Rightarrow> bool" where
  "is_leap y \<longleftrightarrow> y mod 4 = 0 \<and> (y mod 100 \<noteq> 0 \<or> y mod 400 = 0)"

definition day_from_year :: "int \<Rightarrow> int" where
  "day_from_year y =
     365 * (y - 1970) + (y - 1969) div 4 - (y - 1901) div 100 + (y - 1601) div 400"

text \<open>Days of the year before month \<open>m\<close> (0 is January, 12 the whole year).\<close>

definition month_offset :: "bool \<Rightarrow> int \<Rightarrow> int" where
  "month_offset leap m =
     (let l = (if leap then 1 else 0) in
      if m \<le> 0 then 0 else if m = 1 then 31 else if m = 2 then 59 + l
      else if m = 3 then 90 + l else if m = 4 then 120 + l else if m = 5 then 151 + l
      else if m = 6 then 181 + l else if m = 7 then 212 + l else if m = 8 then 243 + l
      else if m = 9 then 273 + l else if m = 10 then 304 + l else if m = 11 then 334 + l
      else 365 + l)"

definition days_in_month :: "int \<Rightarrow> int \<Rightarrow> int" where
  "days_in_month y m = month_offset (is_leap y) (m + 1) - month_offset (is_leap y) m"

text \<open>\<^verbatim>\<open>MakeDay\<close>: month and day may be out of range and carry over.\<close>

definition make_day :: "int \<Rightarrow> int \<Rightarrow> int \<Rightarrow> int" where
  "make_day y m d =
     (let ym = y + m div 12 in day_from_year ym + month_offset (is_leap ym) (m mod 12) + (d - 1))"

definition make_time :: "int \<Rightarrow> int \<Rightarrow> int \<Rightarrow> int \<Rightarrow> int" where
  "make_time h mi s ms = h * 3600000 + mi * 60000 + s * 1000 + ms"

definition year_from_day :: "int \<Rightarrow> int" where
  "year_from_day d =
     (let y = 1970 + (400 * d) div 146097 in
      if d < day_from_year y then y - 1 else if day_from_year (y + 1) \<le> d then y + 1 else y)"

definition month_of_offset :: "bool \<Rightarrow> int \<Rightarrow> int" where
  "month_of_offset leap n =
     (if n < month_offset leap 1 then 0 else if n < month_offset leap 2 then 1
      else if n < month_offset leap 3 then 2 else if n < month_offset leap 4 then 3
      else if n < month_offset leap 5 then 4 else if n < month_offset leap 6 then 5
      else if n < month_offset leap 7 then 6 else if n < month_offset leap 8 then 7
      else if n < month_offset leap 9 then 8 else if n < month_offset leap 10 then 9
      else if n < month_offset leap 11 then 10 else 11)"

definition utc_year :: "int \<Rightarrow> int" where
  "utc_year t = year_from_day (t div ms_per_day)"

definition utc_month :: "int \<Rightarrow> int" where
  "utc_month t =
     (let d = t div ms_per_day; y = year_from_day d in month_of_offset (is_leap y) (d - day_from_year y))"

definition utc_date :: "int \<Rightarrow> int" where
  "utc_date t =
     (let d = t div ms_per_day; y = year_from_day d; n = d - day_from_year y
      in n - month_offset (is_leap y) (month_of_offset (is_leap y) n) + 1)"

definition utc_hours :: "int \<Rightarrow> int" where
  "utc_hours t = (t mod ms_per_day) div 3600000"

definition utc_minutes :: "int \<Rightarrow> int" where
  "utc_minutes t = (t mod 3600000) div 60000"

definition utc_seconds :: "int \<Rightarrow> int" where
  "utc_seconds t = (t mod 60000) div 1000"

definition utc_ms :: "int \<Rightarrow> int" where
  "utc_ms t = t mod 1000"

text \<open>\<^verbatim>\<open>TimeClip\<close>: instants more than 100 million days from the epoch are invalid.\<close>

definition MAX_TIME :: int where
  "MAX_TIME = 8640000000000000"

definition time_clip :: "int \<Rightarrow> int option" where
  "time_clip t = (if - MAX_TIME \<le> t \<and> t \<le> MAX_TIME then Some t else None)"

text \<open>\<^verbatim>\<open>Date.UTC\<close>: a year between 0 and 99 means the twentieth century.\<close>

definition date_utc :: "int \<Rightarrow> int \<Rightarrow> int \<Rightarrow> int \<Rightarrow> int \<Rightarrow> int \<Rightarrow> int \<Rightarrow> int option" where
  "date_utc y m d h mi s ms =
     time_clip (make_day (if 0 \<le> y \<and> y \<le> 99 then 1900 + y else y) m d * ms_per_day +
                make_time h mi s ms)"

section \<open>Printing and parsing\<close>

fun pad_digits :: "nat \<Rightarrow> nat \<Rightarrow> string" where
  "pad_digits 0 n = []"
| "pad_digits (Suc k) n = pad_digits k (n div 10) @ [digit_char (n mod 10)]"

text \<open>The same on integers, whose arithmetic evaluates in binary.\<close>

fun pad_digits_int :: "nat \<Rightarrow> int \<Rightarrow> string" where
  "pad_digits_int 0 n = []"
| "pad_digits_int (Suc k) n = pad_digits_int k (n div 10) @ [digit_char (nat (n mod 10))]"

lemma pad_digits_int: "0 \<le> n \<Longrightarrow> pad_digits k (nat n) = pad_digits_int k n"
proof (induction k arbitrary: n)
  case 0
  then show ?case by simp
next
  case (Suc k)
  have "nat n div 10 = nat (n div 10)" "nat n mod 10 = nat (n mod 10)"
    using Suc.prems by (simp_all add: nat_div_distrib nat_mod_distrib)
  with Suc.IH [of "n div 10"] Suc.prems show ?case by simp
qed

definition show_year :: "int \<Rightarrow> string" where
  "show_year y =
     (if 0 \<le> y \<and> y \<le> 9999 then pad_digits 4 (nat y)
      else if y < 0 then ''-'' @ pad_digits 6 (nat (- y)) else ''+'' @ pad_digits 6 (nat y))"

definition to_iso_string :: "int \<Rightarrow> string" where
  "to_iso_string t =
     show_year (utc_year t) @ ''-'' @ pad_digits 2 (nat (utc_month t + 1)) @ ''-'' @
     pad_digits 2 (nat (utc_date t)) @ ''T'' @ pad_digits 2 (nat (utc_hours t)) @ '':'' @
     pad_digits 2 (nat (utc_minutes t)) @ '':'' @ pad_digits 2 (nat (utc_seconds t)) @ ''.'' @
     pad_digits 3 (nat (utc_ms t)) @ ''Z''"

lemma show_year_code [code]:
  "show_year y =
     (if 0 \<le> y \<and> y \<le> 9999 then pad_digits_int 4 y
      else if y < 0 then ''-'' @ pad_digits_int 6 (- y) else ''+'' @ pad_digits_int 6 y)"
  by (simp add: show_year_def pad_digits_int)

text \<open>Exactly \<open>k\<close> decimal digits.\<close>

fun parse_digits :: "nat \<Rightarrow> int \<Rightarrow> string \<Rightarrow> (int \<times> string) option" where
  "parse_digits 0 acc s = Some (acc, s)"
| "parse_digits (Suc k) acc [] = None"
| "parse_digits (Suc k) acc (c # s) =
     (case digit_value c of None \<Rightarrow> None | Some d \<Rightarrow> parse_digits k (10 * acc + int d) s)"

fun parse_char :: "char \<Rightarrow> string \<Rightarrow> string option" where
  "parse_char c [] = None"
| "parse_char c (x # s) = (if x = c then Some s else None)"

definition parse_year :: "string \<Rightarrow> (int \<times> string) option" where
  "parse_year s =
     (case s of
        [] \<Rightarrow> None
      | c # s' \<Rightarrow>
          if c = CHR ''+'' then parse_digits 6 0 s'
          else if c = CHR ''-'' then
            (case parse_digits 6 0 s' of
               None \<Rightarrow> None
             | Some (y, r) \<Rightarrow> if y = 0 then None else Some (- y, r))
          else parse_digits 4 0 s)"

text \<open>A separator followed by exactly two digits; the rest is left as it is without the separator.\<close>

definition parse_sep2 :: "char \<Rightarrow> string \<Rightarrow> (int \<times> string) option" where
  "parse_sep2 c s = (case parse_char c s of None \<Rightarrow> None | Some r \<Rightarrow> parse_digits 2 0 r)"

text \<open>Fraction digits after the point, the first three of which count.\<close>

definition parse_fraction :: "string \<Rightarrow> (int \<times> string) option" where
  "parse_fraction s =
     (let ds = takeWhile (\<lambda>c. digit_value c \<noteq> None) s; r = dropWhile (\<lambda>c. digit_value c \<noteq> None) s
      in if ds = [] then None
         else Some (int (digits_value (take 3 (ds @ ''00''))), r))"

definition parse_zone :: "string \<Rightarrow> int option" where
  "parse_zone s =
     (case s of
        [] \<Rightarrow> Some 0
      | c # r \<Rightarrow>
          if c = CHR ''Z'' then (if r = [] then Some 0 else None)
          else if c = CHR ''+'' \<or> c = CHR ''-'' then
            (case parse_digits 2 0 r of
               None \<Rightarrow> None
             | Some (h, r1) \<Rightarrow>
                 (case parse_sep2 (CHR '':'') r1 of
                    None \<Rightarrow> None
                  | Some (m, r2) \<Rightarrow>
                      if r2 = [] \<and> h < 24 \<and> m < 60
                      then Some ((if c = CHR ''+'' then 1 else - 1) * (h * 3600000 + m * 60000))
                      else None))
          else None)"

definition time_value :: "int \<Rightarrow> int \<Rightarrow> int \<Rightarrow> int \<Rightarrow> string \<Rightarrow> int option" where
  "time_value h mi s ms z =
     (if (h < 24 \<or> h = 24 \<and> mi = 0 \<and> s = 0 \<and> ms = 0) \<and> mi < 60 \<and> s < 60
      then (case parse_zone z of None \<Rightarrow> None | Some off \<Rightarrow> Some (make_time h mi s ms - off))
      else None)"

definition parse_time :: "string \<Rightarrow> int option" where
  "parse_time r =
     (case parse_digits 2 0 r of
        None \<Rightarrow> None
      | Some (h, r1) \<Rightarrow>
          (case parse_sep2 (CHR '':'') r1 of
             None \<Rightarrow> None
           | Some (mi, r2) \<Rightarrow>
               (case parse_sep2 (CHR '':'') r2 of
                  None \<Rightarrow> time_value h mi 0 0 r2
                | Some (s, r3) \<Rightarrow>
                    (case parse_char (CHR ''.'') r3 of
                       None \<Rightarrow> time_value h mi s 0 r3
                     | Some r4 \<Rightarrow>
                         (case parse_fraction r4 of
                            None \<Rightarrow> None
                          | Some (ms, r5) \<Rightarrow> time_value h mi s ms r5)))))"

definition day_value :: "int \<Rightarrow> int \<Rightarrow> int \<Rightarrow> int option" where
  "day_value y m d =
     (if 1 \<le> m \<and> m \<le> 12 \<and> 1 \<le> d \<and> d \<le> 31 then Some (make_day y (m - 1) d) else None)"

definition parse_date_time :: "string \<Rightarrow> int option" where
  "parse_date_time s =
     (case parse_year s of
        None \<Rightarrow> None
      | Some (y, r) \<Rightarrow>
          if r = [] then map_option (\<lambda>d. d * ms_per_day) (day_value y 1 1)
          else
          (case parse_sep2 (CHR ''-'') r of
             None \<Rightarrow> None
           | Some (m, r1) \<Rightarrow>
               if r1 = [] then map_option (\<lambda>d. d * ms_per_day) (day_value y m 1)
               else
               (case parse_sep2 (CHR ''-'') r1 of
                  None \<Rightarrow> None
                | Some (d, r2) \<Rightarrow>
                    (case day_value y m d of
                       None \<Rightarrow> None
                     | Some day \<Rightarrow>
                         if r2 = [] then Some (day * ms_per_day)
                         else
                         (case parse_char (CHR ''T'') r2 of
                            None \<Rightarrow> None
                          | Some r3 \<Rightarrow>
                              map_option (\<lambda>t. day * ms_per_day + t) (parse_time r3))))))"

definition date_parse :: "string \<Rightarrow> int option" where
  "date_parse s = (case parse_date_time s of None \<Rightarrow> None | Some t \<Rightarrow> time_clip t)"

section \<open>Calendar lemmas\<close>

lemma int_div_step:
  fixes a k :: int
  assumes "0 < k"
  shows "(a + 1) div k = a div k + (if k dvd a + 1 then 1 else 0)"
proof -
  define q r where "q = a div k" and "r = a mod k"
  have a: "a = k * q + r" "0 \<le> r" "r < k" using assms by (simp_all add: q_def r_def)
  show ?thesis
  proof (cases "r + 1 = k")
    case True
    then have "a + 1 = k * (q + 1)" using a(1) by (simp add: algebra_simps)
    then show ?thesis using assms by (simp add: q_def)
  next
    case False
    then have "(a + 1) div k = q" "(a + 1) mod k = r + 1"
      using a by (auto intro!: int_div_pos_eq int_mod_pos_eq simp: algebra_simps)
    moreover have "r + 1 \<noteq> 0" using a by simp
    ultimately show ?thesis by (simp add: q_def dvd_eq_mod_eq_0)
  qed
qed

lemma dvd_shift:
  "(100::int) dvd y - 1900 \<longleftrightarrow> 100 dvd y"
  "(400::int) dvd y - 1600 \<longleftrightarrow> 400 dvd y"
  "(4::int) dvd y - 1968 \<longleftrightarrow> 4 dvd y"
  using dvd_add_times_triv_left_iff [of 100 "- 19" y] dvd_add_times_triv_left_iff [of 400 "- 4" y]
    dvd_add_times_triv_left_iff [of 4 "- 492" y] by simp_all

lemma day_from_year_step:
  "day_from_year (y + 1) = day_from_year y + (if is_leap y then 366 else 365)"
proof -
  have steps:
    "(y - 1968) div 4 = (y - 1969) div 4 + (if 4 dvd y then 1 else 0)"
    "(y - 1900) div 100 = (y - 1901) div 100 + (if 100 dvd y then 1 else 0)"
    "(y - 1600) div 400 = (y - 1601) div 400 + (if 400 dvd y then 1 else 0)"
    using int_div_step [of 4 "y - 1969"] int_div_step [of 100 "y - 1901"]
      int_div_step [of 400 "y - 1601"] by (simp_all add: dvd_shift)
  have sub: "400 dvd y \<Longrightarrow> 100 dvd y" "100 dvd y \<Longrightarrow> 4 dvd y"
    using dvd_trans [of 100 400 y] dvd_trans [of 4 100 y] by simp_all
  have leap: "is_leap y \<longleftrightarrow> 4 dvd y \<and> (\<not> 100 dvd y \<or> 400 dvd y)"
    by (simp add: is_leap_def dvd_eq_mod_eq_0)
  have args: "y + 1 - 1969 = y - 1968" "y + 1 - 1901 = y - 1900" "y + 1 - 1601 = y - 1600"
    "y + 1 - 1970 = y - 1970 + 1" by simp_all
  define a b c where "a = (y - 1969) div 4" and "b = (y - 1901) div 100" and "c = (y - 1601) div 400"
  have "365 * (y - 1970 + 1) + (a + (if 4 dvd y then 1 else 0)) - (b + (if 100 dvd y then 1 else 0))
      + (c + (if 400 dvd y then 1 else 0))
    = 365 * (y - 1970) + a - b + c + (if 4 dvd y \<and> (\<not> 100 dvd y \<or> 400 dvd y) then 366 else 365)"
    by (cases "400 dvd y"; cases "100 dvd y"; cases "4 dvd y") (use sub in simp_all)
  then show ?thesis
    by (simp only: day_from_year_def leap args steps a_def b_def c_def)
qed

lemma day_from_year_mono_step: "day_from_year y < day_from_year (y + 1)"
  by (simp add: day_from_year_step)

lemma day_from_year_add: "day_from_year y + 365 * int n \<le> day_from_year (y + int n)"
proof (induction n)
  case 0
  then show ?case by simp
next
  case (Suc n)
  have "day_from_year (y + int (Suc n)) = day_from_year (y + int n + 1)" by (simp add: algebra_simps)
  with Suc day_from_year_step [of "y + int n"] show ?case by (simp split: if_splits)
qed

lemma day_from_year_less: "y < z \<Longrightarrow> day_from_year y < day_from_year z"
  using day_from_year_add [of y "nat (z - y)"] by simp

lemma day_from_year_le_iff: "day_from_year y \<le> day_from_year z \<longleftrightarrow> y \<le> z"
  using day_from_year_less by (metis linorder_not_le order_le_less)

lemma div_bounds:
  fixes a k :: int
  assumes "0 < k"
  shows "k * (a div k) \<le> a" and "a < k * (a div k) + k"
proof -
  have "a = k * (a div k) + a mod k" by simp
  then show "k * (a div k) \<le> a" and "a < k * (a div k) + k"
    using pos_mod_bound [OF assms, of a] pos_mod_sign [OF assms, of a] by linarith+
qed

lemma day_from_year_bounds:
  "146097 * (y - 1970) - 1500 \<le> 400 * day_from_year y"
  "400 * day_from_year y \<le> 146097 * (y - 1970) + 1500"
  using div_bounds [of 4 "y - 1969"] div_bounds [of 100 "y - 1901"] div_bounds [of 400 "y - 1601"]
  by (simp_all add: day_from_year_def)

lemma year_from_day_bounds:
  "day_from_year (year_from_day d) \<le> d \<and> d < day_from_year (year_from_day d + 1)"
proof -
  define y where "y = 1970 + (400 * d) div 146097"
  have 1: "146097 * (y - 1970) \<le> 400 * d" "400 * d < 146097 * (y - 1969)"
    using div_bounds [of 146097 "400 * d"] by (simp_all add: y_def)
  have lo: "day_from_year (y - 1) \<le> d"
    using day_from_year_bounds(2) [of "y - 1"] 1 by simp
  have hi: "d < day_from_year (y + 2)"
    using day_from_year_bounds(1) [of "y + 2"] 1 by simp
  have yfd: "year_from_day d =
      (if d < day_from_year y then y - 1 else if day_from_year (y + 1) \<le> d then y + 1 else y)"
    by (simp only: year_from_day_def y_def [symmetric] Let_def)
  show ?thesis
    unfolding yfd using lo hi by (simp add: add.assoc)
qed

lemma year_from_day_unique:
  assumes "day_from_year y \<le> d" and "d < day_from_year (y + 1)"
  shows "year_from_day d = y"
proof (rule ccontr)
  assume "year_from_day d \<noteq> y"
  then consider "year_from_day d + 1 \<le> y" | "y + 1 \<le> year_from_day d" by linarith
  then show False
    using assms year_from_day_bounds [of d] day_from_year_le_iff by cases (meson leD le_less_trans order_trans)+
qed

lemma month_of_offset_bounds:
  assumes "0 \<le> n" and "n < month_offset leap 12"
  shows "0 \<le> month_of_offset leap n" "month_of_offset leap n \<le> 11"
    and "month_offset leap (month_of_offset leap n) \<le> n"
    and "n < month_offset leap (month_of_offset leap n + 1)"
  using assms by (cases leap; simp add: month_of_offset_def month_offset_def)+

lemma month_offset_ends [simp]:
  "month_offset leap 0 = 0"
  "month_offset leap 12 = (if leap then 366 else 365)"
  by (simp_all add: month_offset_def)

lemma int_le_11_cases:
  assumes "0 \<le> (m::int)" and "m \<le> 11"
  shows "m \<in> {0, 1, 2, 3, 4, 5, 6, 7, 8, 9, 10, 11}"
proof -
  have "m \<in> {0..11}" using assms by simp
  moreover have "{0..11} = {0, 1, 2, 3, 4, 5, 6, 7, 8, 9, 10, 11::int}" by code_simp
  ultimately show ?thesis by (simp only:)
qed

lemma month_of_offset_unique:
  assumes "0 \<le> m" "m \<le> 11" "month_offset leap m \<le> n" "n < month_offset leap (m + 1)"
  shows "month_of_offset leap n = m"
  using int_le_11_cases [OF assms(1,2)] assms(3,4)
  by (cases leap; auto simp: month_of_offset_def month_offset_def)

lemma month_offset_range:
  assumes "0 \<le> m" "m \<le> 11"
  shows "0 \<le> month_offset leap m" "month_offset leap m + 28 \<le> month_offset leap (m + 1)"
    and "month_offset leap (m + 1) \<le> month_offset leap 12"
    and "month_offset leap (m + 1) \<le> month_offset leap m + 31"
  using int_le_11_cases [OF assms] by (cases leap; auto simp: month_offset_def)+

lemma make_day_in_range:
  "0 \<le> m \<Longrightarrow> m \<le> 11 \<Longrightarrow> make_day y m d = day_from_year y + month_offset (is_leap y) m + (d - 1)"
  by (simp add: make_day_def)

lemma year_of_make_day:
  assumes "0 \<le> m" "m \<le> 11" "1 \<le> d" "d \<le> days_in_month y m"
  shows "year_from_day (make_day y m d) = y"
proof (rule year_from_day_unique)
  show "day_from_year y \<le> make_day y m d"
    using assms month_offset_range(1) [OF assms(1,2)] by (simp add: make_day_in_range)
  have "month_offset (is_leap y) (m + 1) \<le> (if is_leap y then 366 else 365)"
    using month_offset_range(3) [OF assms(1,2)] by (metis month_offset_ends(2))
  then show "make_day y m d < day_from_year (y + 1)"
    using assms by (simp add: make_day_in_range days_in_month_def day_from_year_step)
qed

text \<open>The UTC getters read back what \<^verbatim>\<open>Date.UTC\<close> put in.\<close>

lemma utc_getters_of_make:
  assumes "0 \<le> m" "m \<le> 11" "1 \<le> d" "d \<le> days_in_month y m" "0 \<le> tod" "tod < ms_per_day"
  shows "utc_year (make_day y m d * ms_per_day + tod) = y"
    and "utc_month (make_day y m d * ms_per_day + tod) = m"
    and "utc_date (make_day y m d * ms_per_day + tod) = d"
proof -
  have day: "(make_day y m d * ms_per_day + tod) div ms_per_day = make_day y m d"
    using assms(5,6) by (simp add: ms_per_day_def)
  have y: "year_from_day (make_day y m d) = y" by (rule year_of_make_day) fact+
  have mo: "month_of_offset (is_leap y) (make_day y m d - day_from_year y) = m"
    using assms by (intro month_of_offset_unique) (simp_all add: make_day_in_range days_in_month_def)
  have da: "make_day y m d - day_from_year y - month_offset (is_leap y) m + 1 = d"
    using assms(1,2) by (simp add: make_day_in_range)
  show "utc_year (make_day y m d * ms_per_day + tod) = y"
    and "utc_month (make_day y m d * ms_per_day + tod) = m"
    and "utc_date (make_day y m d * ms_per_day + tod) = d"
    by (simp_all add: utc_year_def utc_month_def utc_date_def day y Let_def mo da)
qed

lemma utc_day_decompose:
  shows "0 \<le> utc_month t" "utc_month t \<le> 11" "1 \<le> utc_date t"
    and "utc_date t \<le> days_in_month (utc_year t) (utc_month t)"
    and "make_day (utc_year t) (utc_month t) (utc_date t) = t div ms_per_day"
proof -
  define d where "d = t div ms_per_day"
  define n where "n = d - day_from_year (year_from_day d)"
  have n: "0 \<le> n" "n < month_offset (is_leap (year_from_day d)) 12"
    using year_from_day_bounds [of d] by (simp_all add: n_def day_from_year_step)
  note b = month_of_offset_bounds [OF n]
  show "0 \<le> utc_month t" "utc_month t \<le> 11" "1 \<le> utc_date t"
    and "utc_date t \<le> days_in_month (utc_year t) (utc_month t)"
    using b by (simp_all add: utc_month_def utc_date_def utc_year_def days_in_month_def Let_def
        d_def [symmetric] n_def [symmetric])
  show "make_day (utc_year t) (utc_month t) (utc_date t) = t div ms_per_day"
    using b by (simp add: utc_month_def utc_date_def utc_year_def Let_def d_def [symmetric]
        n_def [symmetric] make_day_in_range) (simp add: n_def)
qed

lemma utc_time_decompose:
  shows "0 \<le> utc_hours t" "utc_hours t < 24" "0 \<le> utc_minutes t" "utc_minutes t < 60"
    and "0 \<le> utc_seconds t" "utc_seconds t < 60" "0 \<le> utc_ms t" "utc_ms t < 1000"
    and "make_time (utc_hours t) (utc_minutes t) (utc_seconds t) (utc_ms t) = t mod ms_per_day"
proof -
  have m: "t mod 3600000 = (t mod ms_per_day) mod 3600000" "t mod 60000 = (t mod 3600000) mod 60000"
    "t mod 1000 = (t mod 60000) mod 1000"
    by (simp_all add: ms_per_day_def mod_mod_cancel)
  have r: "0 \<le> t mod ms_per_day" "t mod ms_per_day < 86400000"
    "0 \<le> t mod 3600000" "t mod 3600000 < 3600000" "0 \<le> t mod 60000" "t mod 60000 < 60000"
    "0 \<le> t mod 1000" "t mod 1000 < 1000"
    by (simp_all add: ms_per_day_def)
  have h: "3600000 * ((t mod ms_per_day) div 3600000) + t mod 3600000 = t mod ms_per_day"
    unfolding m(1) by (rule mult_div_mod_eq)
  have mi: "60000 * ((t mod 3600000) div 60000) + t mod 60000 = t mod 3600000"
    unfolding m(2) by (rule mult_div_mod_eq)
  have s: "1000 * ((t mod 60000) div 1000) + t mod 1000 = t mod 60000"
    unfolding m(3) by (rule mult_div_mod_eq)
  show "0 \<le> utc_hours t" "0 \<le> utc_minutes t" "0 \<le> utc_seconds t" "0 \<le> utc_ms t"
    using r by (simp_all add: utc_hours_def utc_minutes_def utc_seconds_def utc_ms_def
        pos_imp_zdiv_nonneg_iff)
  show "utc_hours t < 24" "utc_minutes t < 60" "utc_seconds t < 60" "utc_ms t < 1000"
    unfolding utc_hours_def utc_minutes_def utc_seconds_def utc_ms_def using r h mi s by linarith+
  show "make_time (utc_hours t) (utc_minutes t) (utc_seconds t) (utc_ms t) = t mod ms_per_day"
    using h mi s by (simp add: make_time_def utc_hours_def utc_minutes_def utc_seconds_def utc_ms_def)
qed

lemma to_iso_string_code [code]:
  "to_iso_string t =
     show_year (utc_year t) @ ''-'' @ pad_digits_int 2 (utc_month t + 1) @ ''-'' @
     pad_digits_int 2 (utc_date t) @ ''T'' @ pad_digits_int 2 (utc_hours t) @ '':'' @
     pad_digits_int 2 (utc_minutes t) @ '':'' @ pad_digits_int 2 (utc_seconds t) @ ''.'' @
     pad_digits_int 3 (utc_ms t) @ ''Z''"
  using utc_day_decompose(1,3) [of t] utc_time_decompose(1,3,5,7) [of t]
  by (simp only: to_iso_string_def pad_digits_int [symmetric])

section \<open>Parsing inverts printing\<close>

lemma length_pad_digits [simp]: "length (pad_digits k n) = k"
  by (induction k arbitrary: n) simp_all

lemma parse_digits_pad_append:
  "n < 10 ^ k \<Longrightarrow>
    parse_digits (k + j) acc (pad_digits k n @ r) = parse_digits j (acc * 10 ^ k + int n) r"
proof (induction k arbitrary: j n r)
  case 0
  then show ?case by simp
next
  case (Suc k)
  have lt: "n div 10 < 10 ^ k" using Suc.prems by (simp add: less_mult_imp_div_less)
  have "parse_digits (Suc k + j) acc (pad_digits (Suc k) n @ r)
      = parse_digits (k + Suc j) acc (pad_digits k (n div 10) @ digit_char (n mod 10) # r)" by simp
  also have "\<dots> = parse_digits (Suc j) (acc * 10 ^ k + int (n div 10)) (digit_char (n mod 10) # r)"
    by (rule Suc.IH [OF lt])
  also have "\<dots> = parse_digits j (10 * (acc * 10 ^ k + int (n div 10)) + int (n mod 10)) r"
    by simp
  also have "10 * (acc * 10 ^ k + int (n div 10)) + int (n mod 10) = acc * 10 ^ Suc k + int n"
    by (simp add: algebra_simps of_nat_div of_nat_mod)
  finally show ?case .
qed

lemma parse_digits_pad:
  "n < 10 ^ k \<Longrightarrow> parse_digits k 0 (pad_digits k n @ r) = Some (int n, r)"
  using parse_digits_pad_append [of n k 0 0 r] by simp

lemma pad_digits_all: "\<forall>c \<in> set (pad_digits k n). \<exists>d < 10. c = digit_char d"
proof (induction k arbitrary: n)
  case 0
  then show ?case by simp
next
  case (Suc k)
  show ?case using Suc by (auto intro: exI [of _ "n mod 10"])
qed

lemma digits_value_pad: "n < 10 ^ k \<Longrightarrow> digits_value (pad_digits k n) = n"
proof (induction k arbitrary: n)
  case 0
  then show ?case by simp
next
  case (Suc k)
  have "n div 10 < 10 ^ k" using Suc.prems by (simp add: less_mult_imp_div_less)
  from Suc.IH [OF this] show ?case by simp
qed

lemma digit_char_neq:
  assumes "d < 10"
  shows "digit_char d \<noteq> CHR ''+''" "digit_char d \<noteq> CHR ''-''" "digit_char d \<noteq> CHR ''Z''"
  using char_code_digit [OF assms] assms by (auto simp: char_code_def)

lemma digit_value_Z [simp]: "digit_value (CHR ''Z'') = None"
  by (simp add: digit_value_def char_code_def)

lemma parse_sep2_pad:
  "n < 100 \<Longrightarrow> parse_sep2 c (c # pad_digits 2 n @ r) = Some (int n, r)"
  using parse_digits_pad [of n 2 r] by (simp add: parse_sep2_def)

lemma parse_year_pad4:
  assumes "n < 10000"
  shows "parse_year (pad_digits 4 n @ r) = Some (int n, r)"
proof -
  obtain c cs where c: "pad_digits 4 n = c # cs"
    by (metis length_pad_digits length_Suc_conv numeral_eq_Suc)
  then obtain d where "d < 10" "c = digit_char d"
    using pad_digits_all [of 4 n] by auto
  then have "parse_year (pad_digits 4 n @ r) = parse_digits 4 0 (pad_digits 4 n @ r)"
    using digit_char_neq by (simp add: parse_year_def c)
  then show ?thesis using parse_digits_pad [of n 4 r] assms by simp
qed

lemma parse_show_year:
  assumes "- 999999 \<le> y" "y \<le> 999999"
  shows "parse_year (show_year y @ r) = Some (y, r)"
proof -
  have 6: "parse_digits 6 0 (pad_digits 6 n @ r) = Some (int n, r)" if "n \<le> 999999" for n
    using that parse_digits_pad [of n 6 r] by simp
  consider "0 \<le> y" "y \<le> 9999" | "y < 0" | "9999 < y" by linarith
  then show ?thesis
  proof cases
    case 1
    then show ?thesis using parse_year_pad4 [of "nat y" r] by (simp add: show_year_def)
  next
    case 2
    then show ?thesis using 6 [of "nat (- y)"] assms by (simp add: show_year_def parse_year_def)
  next
    case 3
    then show ?thesis using 6 [of "nat y"] assms by (simp add: show_year_def parse_year_def)
  qed
qed

lemma parse_fraction_pad3:
  assumes "n < 1000"
  shows "parse_fraction (pad_digits 3 n @ ''Z'') = Some (int n, ''Z'')"
proof -
  have all: "digit_value c \<noteq> None" if "c \<in> set (pad_digits 3 n)" for c
    using pad_digits_all [of 3 n] that digit_value_char by fastforce
  have tw: "takeWhile (\<lambda>c. digit_value c \<noteq> None) (pad_digits 3 n @ ''Z'') = pad_digits 3 n"
    "dropWhile (\<lambda>c. digit_value c \<noteq> None) (pad_digits 3 n @ ''Z'') = ''Z''"
    using all by (simp_all add: takeWhile_append2 dropWhile_append2)
  have "pad_digits 3 n \<noteq> []" by (metis length_pad_digits list.size(3) zero_neq_numeral)
  moreover have "take 3 (pad_digits 3 n @ ''00'') = pad_digits 3 n" by simp
  ultimately show ?thesis
    using digits_value_pad [of n 3] assms by (simp only: parse_fraction_def Let_def tw) simp
qed

lemma parse_time_iso:
  assumes "h < 24" "mi < 60" "s < 60" "ms < 1000"
  shows "parse_time (pad_digits 2 h @ '':'' @ pad_digits 2 mi @ '':'' @ pad_digits 2 s @ ''.'' @
      pad_digits 3 ms @ ''Z'') = Some (make_time (int h) (int mi) (int s) (int ms))"
proof -
  have d: "parse_digits 2 0 (pad_digits 2 h @ r) = Some (int h, r)" for r
    using parse_digits_pad [of h 2 r] assms by simp
  have sep: "parse_sep2 (CHR '':'') (CHR '':'' # pad_digits 2 mi @ r) = Some (int mi, r)"
    "parse_sep2 (CHR '':'') (CHR '':'' # pad_digits 2 s @ r) = Some (int s, r)" for r
    using assms by (simp_all add: parse_sep2_pad)
  show ?thesis
    using assms parse_fraction_pad3 [of ms]
    by (simp add: parse_time_def d sep time_value_def parse_zone_def)
qed

lemma utc_year_range:
  assumes "time_clip t = Some t'"
  shows "- 999999 \<le> utc_year t" "utc_year t \<le> 999999"
proof -
  define d where "d = t div ms_per_day"
  have d: "- 100000000 \<le> d" "d \<le> 100000000"
    using assms div_bounds [of ms_per_day t]
    by (simp_all add: d_def time_clip_def MAX_TIME_def ms_per_day_def split: if_splits)
  have y: "day_from_year (utc_year t) \<le> d" "d < day_from_year (utc_year t + 1)"
    using year_from_day_bounds [of d] by (simp_all add: utc_year_def d_def)
  have "400 * day_from_year (utc_year t) \<le> 40000000000" using d y by simp
  then have "146097 * (utc_year t - 1970) - 1500 \<le> 40000000000"
    using day_from_year_bounds(1) [of "utc_year t"] by (rule order_trans [rotated])
  then show "utc_year t \<le> 999999" by simp
  have "- 40000000000 \<le> 400 * day_from_year (utc_year t + 1)" using d y by simp
  then have "- 40000000000 \<le> 146097 * (utc_year t + 1 - 1970) + 1500"
    using day_from_year_bounds(2) [of "utc_year t + 1"] by (rule order_trans)
  then show "- 999999 \<le> utc_year t" by simp
qed

lemma date_parse_clip: "date_parse s = Some t \<Longrightarrow> time_clip t = Some t"
  by (auto simp: date_parse_def time_clip_def split: option.splits if_splits)

lemma date_parse_to_iso:
  assumes clip: "time_clip t = Some t"
  shows "date_parse (to_iso_string t) = Some t"
proof -
  note assms = utc_year_range [OF clip]
  note day = utc_day_decompose [of t] and time = utc_time_decompose [of t]
  have d31: "utc_date t \<le> 31"
    using day month_offset_range(4) [OF day(1,2)] unfolding days_in_month_def
    by (metis add.commute diff_le_eq order_trans)
  have y: "parse_year (show_year (utc_year t) @ r) = Some (utc_year t, r)" for r
    by (rule parse_show_year [OF assms])
  have m: "parse_sep2 (CHR ''-'') (CHR ''-'' # pad_digits 2 (nat (utc_month t + 1)) @ r)
      = Some (utc_month t + 1, r)" for r
    using parse_sep2_pad [of "nat (utc_month t + 1)" "CHR ''-''" r] day by simp
  have d: "parse_sep2 (CHR ''-'') (CHR ''-'' # pad_digits 2 (nat (utc_date t)) @ r)
      = Some (utc_date t, r)" for r
    using parse_sep2_pad [of "nat (utc_date t)" "CHR ''-''" r] day d31 by simp
  have dv: "day_value (utc_year t) (utc_month t + 1) (utc_date t) = Some (t div ms_per_day)"
    using day d31 by (simp add: day_value_def)
  have "parse_time (pad_digits 2 (nat (utc_hours t)) @ '':'' @ pad_digits 2 (nat (utc_minutes t)) @
      '':'' @ pad_digits 2 (nat (utc_seconds t)) @ ''.'' @ pad_digits 3 (nat (utc_ms t)) @ ''Z'')
    = Some (t mod ms_per_day)"
    using parse_time_iso [of "nat (utc_hours t)" "nat (utc_minutes t)" "nat (utc_seconds t)"
        "nat (utc_ms t)"] time by simp
  then show ?thesis
    by (simp add: date_parse_def parse_date_time_def to_iso_string_def y m d dv clip)
qed

end
