(* ===== verification/Domain.thy ===== *)
theory Domain
  imports JsDate
begin

text \<open>
  Vocabulary of \<^verbatim>\<open>foundation/domain.ts\<close> and of the two lot ledgers: the metered resources, the
  transaction types of a lot, and the timestamp checks every write shares. A transaction of a lot
  is a grant of one of four origins, or one of the three movements that follow it.
\<close>

datatype usage_resource = Copy | Image | Video | Audio

definition USAGE_RESOURCES :: "usage_resource list" where
  "USAGE_RESOURCES = [Copy, Image, Video, Audio]"

fun resource_name :: "usage_resource \<Rightarrow> string" where
  "resource_name Copy = ''copy''"
| "resource_name Image = ''image''"
| "resource_name Video = ''video''"
| "resource_name Audio = ''audio''"

datatype grant_type = REGISTER_GIFT | SUBSCRIPTION_RENEWAL | PURCHASE_PACKAGE | REDEMPTION_CODE

datatype lot_tx_type = GRANT grant_type | USAGE | REFUND | EXPIRE

fun is_grant :: "lot_tx_type \<Rightarrow> bool" where
  "is_grant (GRANT _) = True"
| "is_grant _ = False"

definition grant_prefix :: string where "grant_prefix = ''grant:''"
definition consume_prefix :: string where "consume_prefix = ''consume:''"

definition date_le :: "string \<Rightarrow> string \<Rightarrow> bool" where
  "date_le a b = num_le (date_parse a) (date_parse b)"

definition date_lt :: "string \<Rightarrow> string \<Rightarrow> bool" where
  "date_lt a b = num_lt (date_parse a) (date_parse b)"

text \<open>\<^verbatim>\<open>!value.trim() || !Number.isFinite(Date.parse(value))\<close>, negated.\<close>

definition valid_timestamp :: "string \<Rightarrow> bool" where
  "valid_timestamp v \<longleftrightarrow> \<not> blank v \<and> date_parse v \<noteq> None"

definition assert_timestamp :: "string \<Rightarrow> string \<Rightarrow> unit result" where
  "assert_timestamp v field =
     check (valid_timestamp v) (P1DomainError INVALID_STATE (field @ '' must be an ISO timestamp.''))"

lemma date_parse_blank: "blank v \<Longrightarrow> date_parse v = None"
proof (cases v)
  case Nil
  then show ?thesis by (simp add: date_parse_def parse_date_time_def parse_year_def)
next
  case (Cons c cs)
  assume "blank v"
  with Cons have ws: "is_ws c" by (simp add: blank_iff)
  then have "digit_value c = None" "c \<noteq> CHR ''+''" "c \<noteq> CHR ''-''"
    by (auto simp: is_ws_def digit_value_def char_code_def Let_def)
  with Cons show ?thesis by (simp add: date_parse_def parse_date_time_def parse_year_def numeral_eq_Suc)
qed

lemma valid_timestamp_iff: "valid_timestamp v \<longleftrightarrow> date_parse v \<noteq> None"
  using date_parse_blank by (auto simp: valid_timestamp_def)

lemma date_lt_iff: "date_lt a b \<longleftrightarrow> (\<exists>x y. date_parse a = Some x \<and> date_parse b = Some y \<and> x < y)"
  by (simp add: date_lt_def num_lt_iff)

lemma date_le_iff: "date_le a b \<longleftrightarrow> (\<exists>x y. date_parse a = Some x \<and> date_parse b = Some y \<and> x \<le> y)"
  by (simp add: date_le_def num_le_iff)

lemma date_not_lt:
  "date_parse a \<noteq> None \<Longrightarrow> date_parse b \<noteq> None \<Longrightarrow> \<not> date_lt a b \<longleftrightarrow> date_le b a"
  by (simp add: date_lt_def date_le_def num_not_lt)

text \<open>Parsed instants the examples of the development use.\<close>

lemma date_parse_samples:
  "date_parse ''2026-01-01T00:00:00.000Z'' = Some 1767225600000"
  "date_parse ''2026-02-01T00:00:00.000Z'' = Some 1769904000000"
  "date_parse ''2026-03-01T00:00:00.000Z'' = Some 1772323200000"
  by code_simp+

section \<open>First expiring, first out\<close>

text \<open>
  Both ledgers order their lots by expiry, lots without one last, then by creation time, then by
  identifier. On lots whose timestamps parse, the comparator is the lexicographic order of the key
  below, so the library's linear order gives the laws of \<open>js_comparator\<close>.
\<close>

definition fefo_key ::
    "string option \<Rightarrow> string \<Rightarrow> string \<Rightarrow> (int \<times> int) \<times> int \<times> (nat list \<times> nat list)" where
  "fefo_key expiry created ident =
     ((case expiry of None \<Rightarrow> (1, 0) | Some e \<Rightarrow> (0, the (date_parse e))),
      the (date_parse created), collation_key ident)"

definition fefo_compare ::
    "string option \<Rightarrow> string \<Rightarrow> string \<Rightarrow> string option \<Rightarrow> string \<Rightarrow> string \<Rightarrow> int option" where
  "fefo_compare e c i e' c' i' =
     (let later = (case num_sub (date_parse c) (date_parse c') of
                     None \<Rightarrow> None
                   | Some d \<Rightarrow> Some (if d = 0 then locale_compare i i' else d))
      in case (e, e') of
           (None, None) \<Rightarrow> later
         | (None, Some _) \<Rightarrow> Some 1
         | (Some _, None) \<Rightarrow> Some (- 1)
         | (Some a, Some b) \<Rightarrow>
             (case num_sub (date_parse a) (date_parse b) of
                None \<Rightarrow> None
              | Some d \<Rightarrow> if d = 0 then later else Some d))"

definition dates_ok :: "string option \<Rightarrow> string \<Rightarrow> bool" where
  "dates_ok expiry created \<longleftrightarrow>
     date_parse created \<noteq> None \<and> (\<forall>e. expiry = Some e \<longrightarrow> date_parse e \<noteq> None)"

lemma fefo_compare_le_iff:
  assumes "dates_ok e c" and "dates_ok e' c'"
  shows "(case fefo_compare e c i e' c' i' of None \<Rightarrow> True | Some d \<Rightarrow> d \<le> 0)
    \<longleftrightarrow> fefo_key e c i \<le> fefo_key e' c' i'"
proof -
  obtain x x' where x: "date_parse c = Some x" "date_parse c' = Some x'"
    using assms by (auto simp: dates_ok_def)
  show ?thesis
  proof (cases e; cases e')
    fix a b assume ab: "e = Some a" "e' = Some b"
    then obtain u v where "date_parse a = Some u" "date_parse b = Some v"
      using assms by (auto simp: dates_ok_def)
    with ab x show ?thesis
      by (auto simp: fefo_compare_def fefo_key_def less_eq_prod_def locale_compare_le_iff Let_def)
  qed (use x in \<open>auto simp: fefo_compare_def fefo_key_def less_eq_prod_def locale_compare_le_iff Let_def\<close>)
qed

section \<open>Draining lots in order\<close>

text \<open>
  What the two allocation loops of the repository have in common. A loop that obeys these two
  equations drains the lots it is given in order, one after the other.
\<close>

locale lot_allocation =
  fixes ident :: "'l \<Rightarrow> string"
    and left :: "'l \<Rightarrow> int"
    and alloc :: "int \<Rightarrow> 'l list \<Rightarrow> (string \<times> int) list"
  assumes alloc_Nil: "alloc c [] = []"
    and alloc_Cons: "0 \<le> c \<Longrightarrow> 0 < left l \<Longrightarrow>
      alloc c (l # ls) =
        (if c = 0 then [] else (ident l, min (left l) c) # alloc (c - min (left l) c) ls)"
begin

lemma alloc_zero: "alloc 0 ls = []" if "\<forall>l \<in> set ls. 0 < left l"
  using that by (cases ls) (simp_all add: alloc_Nil alloc_Cons)

lemma alloc_sum:
  assumes "0 \<le> c" and "\<forall>l \<in> set ls. 0 < left l"
  shows "sum_list (map snd (alloc c ls)) = min c (sum_list (map left ls))"
  using assms
proof (induction ls arbitrary: c)
  case Nil
  then show ?case by (simp add: alloc_Nil)
next
  case (Cons l ls)
  have nonneg: "0 \<le> sum_list (map left ls)" using Cons.prems by (intro sum_list_nonneg) auto
  show ?case
  proof (cases "c = 0")
    case True
    with Cons.prems nonneg show ?thesis by (simp add: alloc_zero)
  next
    case False
    with Cons.prems Cons.IH [of "c - min (left l) c"] nonneg show ?thesis
      by (auto simp: alloc_Cons min_def)
  qed
qed

lemma alloc_bounds:
  assumes "0 \<le> c" and "\<forall>l \<in> set ls. 0 < left l" and "(i, a) \<in> set (alloc c ls)"
  shows "0 < a \<and> (\<exists>l \<in> set ls. ident l = i \<and> a \<le> left l)"
  using assms
proof (induction ls arbitrary: c)
  case Nil
  then show ?case by (simp add: alloc_Nil)
next
  case (Cons l ls)
  from Cons.prems consider "i = ident l" "a = min (left l) c" "c \<noteq> 0"
    | "(i, a) \<in> set (alloc (c - min (left l) c) ls)" "c \<noteq> 0"
    by (auto simp: alloc_Cons split: if_splits)
  then show ?case
  proof cases
    case 1
    with Cons.prems show ?thesis by auto
  next
    case 2
    with Cons.prems Cons.IH [of "c - min (left l) c"] show ?thesis by auto
  qed
qed

lemma alloc_idents:
  assumes "0 \<le> c" and "\<forall>l \<in> set ls. 0 < left l"
  shows "map fst (alloc c ls) = map ident (take (length (alloc c ls)) ls)"
  using assms
proof (induction ls arbitrary: c)
  case Nil
  then show ?case by (simp add: alloc_Nil)
next
  case (Cons l ls)
  then show ?case using Cons.IH [of "c - min (left l) c"] by (simp add: alloc_Cons)
qed

text \<open>A lot is only touched when every lot before it is drained.\<close>

lemma alloc_drains:
  assumes "0 \<le> c" and "\<forall>l \<in> set ls. 0 < left l" and "Suc i < length (alloc c ls)"
  shows "alloc c ls ! i = (ident (ls ! i), left (ls ! i))"
  using assms
proof (induction ls arbitrary: c i)
  case Nil
  then show ?case by (simp add: alloc_Nil)
next
  case (Cons l ls)
  show ?case
  proof (cases "c = 0")
    case True
    with Cons.prems show ?thesis by (simp add: alloc_Cons)
  next
    case False
    let ?c = "c - min (left l) c"
    have IH: "\<And>j. Suc j < length (alloc ?c ls) \<Longrightarrow> alloc ?c ls ! j = (ident (ls ! j), left (ls ! j))"
      using Cons by simp
    show ?thesis
    proof (cases i)
      case 0
      with Cons.prems False have "alloc ?c ls \<noteq> []" by (auto simp: alloc_Cons)
      then have "?c \<noteq> 0" using Cons.prems alloc_zero by auto
      with 0 False Cons.prems show ?thesis by (auto simp: alloc_Cons min_def split: if_splits)
    next
      case (Suc j)
      with Cons.prems False IH [of j] show ?thesis by (simp add: alloc_Cons)
    qed
  qed
qed

end

end
