(* ===== verification/CreditLedger.thy ===== *)
theory CreditLedger
  imports Domain
begin

text \<open>
  The credit ledger of \<^verbatim>\<open>credit-billing/credit-ledger.ts\<close>: merchant credits granted in lots, drained
  first-expiring-first-out, refunded to the lot they came from and expired. The class
  \<^verbatim>\<open>MemoryCreditLedger\<close> keeps an array of lots and an array of transactions; a reference to a lot is
  its index. Every method returns the new state beside its result, also when it throws.
\<close>

section \<open>Data\<close>

record credit_lot =
  cl_id :: string
  cl_workspaceId :: string
  cl_originalCredits :: int
  cl_remainingCredits :: int
  cl_expirationDate :: "string option"
  cl_transactionType :: grant_type
  cl_sourceRef :: "string option"
  cl_grantIdempotencyKey :: string
  cl_revision :: int
  cl_createdAt :: string

record credit_tx =
  ct_id :: string
  ct_workspaceId :: string
  ct_transactionType :: lot_tx_type
  ct_credits :: int
  ct_lotId :: string
  ct_relatedTransactionId :: "string option"
  ct_operationId :: string
  ct_actorId :: string
  ct_correlationId :: string
  ct_createdAt :: string
  ct_credited :: bool

record credit_balance =
  cb_grantedCredits :: int
  cb_usedCredits :: int
  cb_refundedCredits :: int
  cb_expiredCredits :: int
  cb_availableCredits :: int

record grant_credits_input =
  gc_id :: string
  gc_workspaceId :: string
  gc_credits :: js_number
  gc_expirationDate :: "string option"
  gc_transactionType :: grant_type
  gc_sourceRef :: "string option"
  gc_createdAt :: string
  gc_actorId :: "string option"
  gc_correlationId :: "string option"
  gc_grantIdempotencyKey :: "string option"

record consume_credits_input =
  cc_workspaceId :: string
  cc_credits :: js_number
  cc_transactionId :: string
  cc_actorId :: string
  cc_correlationId :: string
  cc_createdAt :: string

record refund_credits_input =
  rc_workspaceId :: string
  rc_usageOperationId :: string
  rc_refundOperationId :: string
  rc_credits :: "js_number option"
  rc_actorId :: string
  rc_correlationId :: string
  rc_createdAt :: string

record expire_lots_input =
  xl_workspaceId :: string
  xl_now :: string
  xl_actorId :: string
  xl_correlationId :: string

record expire_subscription_input =
  xs_workspaceId :: string
  xs_subscriptionId :: string
  xs_actorId :: string
  xs_correlationId :: string
  xs_createdAt :: string

record credit_ledger =
  cs_lots :: "credit_lot list"
  cs_transactions :: "credit_tx list"

definition empty_credit_ledger :: credit_ledger where
  "empty_credit_ledger = \<lparr>cs_lots = [], cs_transactions = []\<rparr>"

section \<open>Balance projection\<close>

definition lot_expired_at :: "string \<Rightarrow> credit_lot \<Rightarrow> bool" where
  "lot_expired_at now l =
     (case cl_expirationDate l of None \<Rightarrow> False | Some e \<Rightarrow> date_le e now)"

definition lot_active_at :: "string \<Rightarrow> credit_lot \<Rightarrow> bool" where
  "lot_active_at now l =
     (case cl_expirationDate l of None \<Rightarrow> True | Some e \<Rightarrow> date_lt now e)"

definition total_credits :: "(lot_tx_type \<Rightarrow> bool) \<Rightarrow> credit_tx list \<Rightarrow> int" where
  "total_credits P txs = sum_list (map ct_credits (filter (\<lambda>t. P (ct_transactionType t)) txs))"

definition projectCreditBalance :: "credit_lot list \<Rightarrow> credit_tx list \<Rightarrow> string \<Rightarrow> credit_balance" where
  "projectCreditBalance lots txs asOf =
     (let pendingExpiredCredits =
            sum_list (map cl_remainingCredits
              (filter (\<lambda>l. cl_remainingCredits l > 0 \<and> lot_expired_at asOf l) lots))
      in \<lparr> cb_grantedCredits = total_credits is_grant txs,
           cb_usedCredits = total_credits (\<lambda>t. t = USAGE) txs,
           cb_refundedCredits =
             sum_list (map ct_credits
               (filter (\<lambda>t. ct_transactionType t = REFUND \<and> ct_credited t) txs)),
           cb_expiredCredits = total_credits (\<lambda>t. t = EXPIRE) txs + pendingExpiredCredits,
           cb_availableCredits =
             sum_list (map cl_remainingCredits (filter (lot_active_at asOf) lots)) \<rparr>)"

section \<open>First expiring, first out\<close>

definition compareCreatedAtAndId :: "credit_lot comparator" where
  "compareCreatedAtAndId l r =
     (case num_sub (date_parse (cl_createdAt l)) (date_parse (cl_createdAt r)) of
        None \<Rightarrow> None
      | Some byCreatedAt \<Rightarrow>
          Some (if byCreatedAt = 0 then locale_compare (cl_id l) (cl_id r) else byCreatedAt))"

fun compareCreditLotsForFefo :: "credit_lot comparator" where
  "compareCreditLotsForFefo l r =
     (case (cl_expirationDate l, cl_expirationDate r) of
        (None, None) \<Rightarrow> compareCreatedAtAndId l r
      | (None, Some _) \<Rightarrow> Some 1
      | (Some _, None) \<Rightarrow> Some (- 1)
      | (Some a, Some b) \<Rightarrow>
          (case num_sub (date_parse a) (date_parse b) of
             None \<Rightarrow> None
           | Some byExpiry \<Rightarrow>
               if byExpiry = 0 then compareCreatedAtAndId l r else Some byExpiry))"

declare compareCreditLotsForFefo.simps [simp del]

fun allocate_credit_loop :: "int \<Rightarrow> credit_lot list \<Rightarrow> (string \<times> int) list" where
  "allocate_credit_loop remaining [] = []"
| "allocate_credit_loop remaining (lot # lots) =
     (if remaining = 0 then []
      else let amount = min (cl_remainingCredits lot) remaining
           in (cl_id lot, amount) # allocate_credit_loop (remaining - amount) lots)"

definition allocateCreditConsumption :: "credit_lot list \<Rightarrow> js_number \<Rightarrow> (string \<times> int) list" where
  "allocateCreditConsumption lots credits =
     (if \<not> number_isSafeInteger credits \<or> int_of credits \<le> 0 then []
      else allocate_credit_loop (int_of credits)
             (js_sort compareCreditLotsForFefo (filter (\<lambda>l. cl_remainingCredits l > 0) lots)))"

section \<open>Idempotency keys\<close>

definition normalizeCreditGrantIdempotencyKey :: "string \<Rightarrow> string option \<Rightarrow> string result" where
  "normalizeCreditGrantIdempotencyKey lotId explicit =
     (let trimmed = (case explicit of None \<Rightarrow> [] | Some e \<Rightarrow> trim e);
          value = (if trimmed = [] then grant_prefix @ lotId else trimmed)
      in if starts_with consume_prefix value
         then Inl (P1DomainError INVALID_STATE
                ''Credit grant idempotency key must not use the consume: namespace.'')
         else Inr (if starts_with grant_prefix value then value else grant_prefix @ value))"

definition normalizeCreditConsumeIdempotencyKey :: "string \<Rightarrow> string result" where
  "normalizeCreditConsumeIdempotencyKey value =
     (if blank value
      then Inl (P1DomainError INVALID_STATE ''Credit consume idempotency key is required.'')
      else if starts_with grant_prefix value
      then Inl (P1DomainError INVALID_STATE
             ''Credit consume idempotency key must not use the grant: namespace.'')
      else Inr (if starts_with consume_prefix value then value else consume_prefix @ value))"

definition creditUsageOperationId :: "string \<Rightarrow> string result" where
  "creditUsageOperationId taskId = normalizeCreditConsumeIdempotencyKey (''task:'' @ taskId)"

definition sameGrantExpiry :: "credit_lot \<Rightarrow> grant_credits_input \<Rightarrow> bool" where
  "sameGrantExpiry lot inp =
     (case (cl_expirationDate lot, gc_expirationDate inp) of
        (Some a, Some b) \<Rightarrow>
          a = b \<or>
          num_eq (num_sub (date_parse a) (date_parse (cl_createdAt lot)))
                 (num_sub (date_parse b) (date_parse (gc_createdAt inp)))
      | (a, b) \<Rightarrow> a = b)"

definition sameCreditGrantFacts :: "credit_lot \<Rightarrow> grant_credits_input \<Rightarrow> string \<Rightarrow> bool" where
  "sameCreditGrantFacts lot inp key =
     (JInt (cl_originalCredits lot) = gc_credits inp \<and>
      sameGrantExpiry lot inp \<and>
      cl_transactionType lot = gc_transactionType inp \<and>
      cl_sourceRef lot = gc_sourceRef inp \<and>
      cl_grantIdempotencyKey lot = key)"

section \<open>Argument checks\<close>

definition assertCredits :: "js_number \<Rightarrow> string \<Rightarrow> unit result" where
  "assertCredits value field =
     check (number_isSafeInteger value \<and> int_of value > 0)
       (P1DomainError INVALID_STATE (field @ '' must be a positive integer credit amount.''))"

definition assertGrantInput :: "grant_credits_input \<Rightarrow> unit result" where
  "assertGrantInput inp =
     r_bind (check (\<not> blank (gc_id inp) \<and> \<not> blank (gc_workspaceId inp))
               (P1DomainError INVALID_STATE ''Credit grant identity and workspace are required.''))
       (\<lambda>_. r_bind (assertCredits (gc_credits inp) ''credits'')
       (\<lambda>_. r_bind (assert_timestamp (gc_createdAt inp) ''createdAt'')
       (\<lambda>_. case gc_expirationDate inp of
              None \<Rightarrow> Inr ()
            | Some e \<Rightarrow>
                r_bind (assert_timestamp e ''expirationDate'')
                  (\<lambda>_. check (\<not> date_le e (gc_createdAt inp))
                     (P1DomainError INVALID_STATE
                        ''Credit grant expiration must be after its creation time.'')))))"

section \<open>The ledger\<close>

definition listLots :: "credit_ledger \<Rightarrow> string \<Rightarrow> credit_lot list" where
  "listLots s ws = filter (\<lambda>l. cl_workspaceId l = ws) (cs_lots s)"

definition listTransactions :: "credit_ledger \<Rightarrow> string \<Rightarrow> credit_tx list" where
  "listTransactions s ws = filter (\<lambda>t. ct_workspaceId t = ws) (cs_transactions s)"

definition readBalanceSnapshot ::
    "credit_ledger \<Rightarrow> string \<Rightarrow> string \<Rightarrow> credit_lot list \<times> credit_balance" where
  "readBalanceSnapshot s ws asOf =
     (let lots = listLots s ws; txs = listTransactions s ws
      in (lots, projectCreditBalance lots txs asOf))"

definition project :: "credit_ledger \<Rightarrow> string \<Rightarrow> string \<Rightarrow> credit_balance" where
  "project s ws asOf = snd (readBalanceSnapshot s ws asOf)"

definition update_lot :: "nat \<Rightarrow> credit_lot \<Rightarrow> credit_ledger \<Rightarrow> credit_ledger" where
  "update_lot i l s = s\<lparr>cs_lots := (cs_lots s)[i := l]\<rparr>"

definition push_tx :: "credit_tx \<Rightarrow> credit_ledger \<Rightarrow> credit_ledger" where
  "push_tx t s = s\<lparr>cs_transactions := cs_transactions s @ [t]\<rparr>"

definition new_credit_lot :: "grant_credits_input \<Rightarrow> string \<Rightarrow> credit_lot" where
  "new_credit_lot inp key =
     \<lparr> cl_id = gc_id inp, cl_workspaceId = gc_workspaceId inp,
       cl_originalCredits = int_of (gc_credits inp), cl_remainingCredits = int_of (gc_credits inp),
       cl_expirationDate = gc_expirationDate inp, cl_transactionType = gc_transactionType inp,
       cl_sourceRef = truthy (gc_sourceRef inp), cl_grantIdempotencyKey = key, cl_revision = 1,
       cl_createdAt = gc_createdAt inp \<rparr>"

definition grant_credit_tx :: "grant_credits_input \<Rightarrow> string \<Rightarrow> credit_tx" where
  "grant_credit_tx inp key =
     \<lparr> ct_id = ''credit-grant:'' @ gc_id inp, ct_workspaceId = gc_workspaceId inp,
       ct_transactionType = GRANT (gc_transactionType inp), ct_credits = int_of (gc_credits inp),
       ct_lotId = gc_id inp, ct_relatedTransactionId = None, ct_operationId = key,
       ct_actorId = (case gc_actorId inp of None \<Rightarrow> ''system'' | Some a \<Rightarrow> a),
       ct_correlationId = (case gc_correlationId inp of None \<Rightarrow> ''credit-grant'' | Some c \<Rightarrow> c),
       ct_createdAt = gc_createdAt inp, ct_credited = True \<rparr>"

definition grant :: "grant_credits_input \<Rightarrow> (credit_ledger, credit_lot) op" where
  "grant inp =
     guarded (assertGrantInput inp) (\<lambda>_.
     guarded (normalizeCreditGrantIdempotencyKey (gc_id inp) (gc_grantIdempotencyKey inp)) (\<lambda>key s.
       case find (\<lambda>l. cl_workspaceId l = gc_workspaceId inp \<and>
                      (cl_id l = gc_id inp \<or> cl_grantIdempotencyKey l = key)) (cs_lots s) of
         Some existing \<Rightarrow>
           if sameCreditGrantFacts existing inp key then (Inr existing, s)
           else (Inl (P1DomainError IDEMPOTENCY_CONFLICT
                   (''Credit grant '' @ gc_id inp @ '' already exists with different facts.'')), s)
       | None \<Rightarrow>
           (let lot = new_credit_lot inp key
            in (Inr lot,
                push_tx (grant_credit_tx inp key) (s\<lparr>cs_lots := cs_lots s @ [lot]\<rparr>)))))"

subsection \<open>Expiry\<close>

definition expire_credit_tx ::
    "string \<Rightarrow> string \<Rightarrow> string \<Rightarrow> string \<Rightarrow> string \<Rightarrow> string \<Rightarrow> credit_lot \<Rightarrow> credit_tx" where
  "expire_credit_tx idPrefix opPrefix ws actor corr at lot =
     \<lparr> ct_id = idPrefix @ cl_id lot @ '':'' @ show_int (cl_revision lot + 1),
       ct_workspaceId = ws, ct_transactionType = EXPIRE, ct_credits = cl_remainingCredits lot,
       ct_lotId = cl_id lot, ct_relatedTransactionId = None,
       ct_operationId = opPrefix @ cl_id lot @ '':'' @ show_int (cl_revision lot + 1),
       ct_actorId = actor, ct_correlationId = corr, ct_createdAt = at, ct_credited = False \<rparr>"

definition zero_lot :: "credit_lot \<Rightarrow> credit_lot" where
  "zero_lot lot = lot\<lparr>cl_remainingCredits := 0, cl_revision := cl_revision lot + 1\<rparr>"

text \<open>The loop of both expiry methods: empty each referenced lot and record what it held.\<close>

fun expire_refs ::
    "(credit_lot \<Rightarrow> credit_tx) \<Rightarrow> nat list \<Rightarrow> credit_ledger \<Rightarrow> credit_tx list \<times> credit_ledger" where
  "expire_refs mk [] s = ([], s)"
| "expire_refs mk (i # is) s =
     (let lot = cs_lots s ! i; t = mk lot;
          (rest, s') = expire_refs mk is (push_tx t (update_lot i (zero_lot lot) s))
      in (t # rest, s'))"

definition expire_refs_of :: "expire_lots_input \<Rightarrow> credit_ledger \<Rightarrow> nat list" where
  "expire_refs_of inp s =
     js_sort (\<lambda>i j. compareCreditLotsForFefo (cs_lots s ! i) (cs_lots s ! j))
       (indices_where (\<lambda>l. cl_workspaceId l = xl_workspaceId inp \<and> lot_expired_at (xl_now inp) l \<and>
                           cl_remainingCredits l > 0) (cs_lots s))"

definition expireLots :: "expire_lots_input \<Rightarrow> (credit_ledger, credit_tx list) op" where
  "expireLots inp =
     guarded (assert_timestamp (xl_now inp) ''now'') (\<lambda>_ s.
       let (txs, s') =
             expire_refs (expire_credit_tx ''credit-expire:'' ''expire:'' (xl_workspaceId inp)
                            (xl_actorId inp) (xl_correlationId inp) (xl_now inp))
               (expire_refs_of inp s) s
       in (Inr txs, s'))"

definition expireSubscriptionLots ::
    "expire_subscription_input \<Rightarrow> (credit_ledger, credit_tx list) op" where
  "expireSubscriptionLots inp s =
     (let (txs, s') =
            expire_refs
              (expire_credit_tx ''credit-expire-subscription:'' ''expire-subscription:''
                 (xs_workspaceId inp) (xs_actorId inp) (xs_correlationId inp) (xs_createdAt inp))
              (indices_where (\<lambda>l. cl_workspaceId l = xs_workspaceId inp \<and>
                                  cl_transactionType l = SUBSCRIPTION_RENEWAL \<and>
                                  cl_sourceRef l = Some (xs_subscriptionId inp) \<and>
                                  cl_remainingCredits l > 0) (cs_lots s)) s
      in (Inr txs, s'))"

subsection \<open>Consumption\<close>

definition usage_credit_tx ::
    "consume_credits_input \<Rightarrow> string \<Rightarrow> nat \<Rightarrow> string \<Rightarrow> int \<Rightarrow> credit_tx" where
  "usage_credit_tx inp operationId index lotId credits =
     \<lparr> ct_id = operationId @ '':'' @ show_nat index, ct_workspaceId = cc_workspaceId inp,
       ct_transactionType = USAGE, ct_credits = credits, ct_lotId = lotId,
       ct_relatedTransactionId = None, ct_operationId = operationId, ct_actorId = cc_actorId inp,
       ct_correlationId = cc_correlationId inp, ct_createdAt = cc_createdAt inp,
       ct_credited = False \<rparr>"

definition debit_lot :: "int \<Rightarrow> credit_lot \<Rightarrow> credit_lot" where
  "debit_lot c lot =
     lot\<lparr>cl_remainingCredits := cl_remainingCredits lot - c, cl_revision := cl_revision lot + 1\<rparr>"

fun apply_allocations ::
    "consume_credits_input \<Rightarrow> string \<Rightarrow> nat \<Rightarrow> (string \<times> int) list \<Rightarrow>
       (credit_ledger, credit_tx list) op" where
  "apply_allocations inp operationId index [] s = (Inr [], s)"
| "apply_allocations inp operationId index ((lotId, credits) # rest) s =
     (case find_index (\<lambda>l. cl_workspaceId l = cc_workspaceId inp \<and> cl_id l = lotId) (cs_lots s) of
        None \<Rightarrow> (Inl (JsError ''Credit lot allocation disappeared.''), s)
      | Some i \<Rightarrow>
          (let lot = cs_lots s ! i;
               t = usage_credit_tx inp operationId index (cl_id lot) credits
           in case apply_allocations inp operationId (Suc index) rest
                     (push_tx t (update_lot i (debit_lot credits lot) s)) of
                (Inl e, s') \<Rightarrow> (Inl e, s')
              | (Inr ts, s') \<Rightarrow> (Inr (t # ts), s')))"

definition is_usage_of :: "string \<Rightarrow> string \<Rightarrow> credit_tx \<Rightarrow> bool" where
  "is_usage_of ws operationId t \<longleftrightarrow>
     ct_workspaceId t = ws \<and> ct_transactionType t = USAGE \<and> ct_operationId t = operationId"

definition consume_expire_input :: "consume_credits_input \<Rightarrow> expire_lots_input" where
  "consume_expire_input inp =
     \<lparr> xl_workspaceId = cc_workspaceId inp, xl_now = cc_createdAt inp, xl_actorId = cc_actorId inp,
       xl_correlationId = cc_correlationId inp \<rparr>"

definition consume_fresh :: "consume_credits_input \<Rightarrow> string \<Rightarrow> (credit_ledger, credit_tx list) op" where
  "consume_fresh inp operationId s =
     (let allocations =
            allocateCreditConsumption
              (filter (\<lambda>l. cl_workspaceId l = cc_workspaceId inp \<and>
                           lot_active_at (cc_createdAt inp) l) (cs_lots s))
              (cc_credits inp)
      in if sum_list (map snd allocations) \<noteq> int_of (cc_credits inp)
         then (Inl (P1DomainError INSUFFICIENT_ENTITLEMENT ''Insufficient credits.''), s)
         else apply_allocations inp operationId 0 allocations s)"

definition consume :: "consume_credits_input \<Rightarrow> (credit_ledger, credit_tx list) op" where
  "consume inp =
     guarded (assertCredits (cc_credits inp) ''credits'') (\<lambda>_.
     guarded (assert_timestamp (cc_createdAt inp) ''createdAt'') (\<lambda>_.
     guarded (normalizeCreditConsumeIdempotencyKey (cc_transactionId inp)) (\<lambda>operationId s.
       let replay = filter (is_usage_of (cc_workspaceId inp) operationId) (cs_transactions s)
       in if replay \<noteq> []
          then (if sum_list (map ct_credits replay) \<noteq> int_of (cc_credits inp)
                then (Inl (P1DomainError IDEMPOTENCY_CONFLICT
                        ''Credit usage operation was replayed with different facts.''), s)
                else (Inr replay, s))
          else op_bind (expireLots (consume_expire_input inp))
                 (\<lambda>_. consume_fresh inp operationId) s)))"

subsection \<open>Refund\<close>

definition is_refund_of :: "string \<Rightarrow> string \<Rightarrow> credit_tx \<Rightarrow> bool" where
  "is_refund_of ws usageId t \<longleftrightarrow>
     ct_workspaceId t = ws \<and> ct_transactionType t = REFUND \<and>
     ct_relatedTransactionId t = Some usageId"

definition credit_lot_back :: "int \<Rightarrow> credit_lot \<Rightarrow> credit_lot" where
  "credit_lot_back c lot =
     lot\<lparr>cl_remainingCredits := min (cl_originalCredits lot) (cl_remainingCredits lot + c),
         cl_revision := cl_revision lot + 1\<rparr>"

definition refund_credit_tx ::
    "refund_credits_input \<Rightarrow> nat \<Rightarrow> credit_tx \<Rightarrow> string \<Rightarrow> int \<Rightarrow> bool \<Rightarrow> credit_tx" where
  "refund_credit_tx inp index usage lotId credits active =
     \<lparr> ct_id = rc_refundOperationId inp @ '':'' @ show_nat index,
       ct_workspaceId = rc_workspaceId inp, ct_transactionType = REFUND, ct_credits = credits,
       ct_lotId = lotId, ct_relatedTransactionId = Some (ct_id usage),
       ct_operationId = rc_refundOperationId inp, ct_actorId = rc_actorId inp,
       ct_correlationId = rc_correlationId inp, ct_createdAt = rc_createdAt inp,
       ct_credited = active \<rparr>"

definition lot_explicitly_expired :: "string \<Rightarrow> string \<Rightarrow> credit_ledger \<Rightarrow> bool" where
  "lot_explicitly_expired ws lotId s =
     list_ex (\<lambda>t. ct_workspaceId t = ws \<and> ct_transactionType t = EXPIRE \<and> ct_lotId t = lotId)
       (cs_transactions s)"

text \<open>
  One round of the refund loop on a usage without a refund: the credits that go back, the lot they
  came from, and whether it still takes them.
\<close>

definition refund_one ::
    "refund_credits_input \<Rightarrow> nat \<Rightarrow> credit_tx \<Rightarrow> int \<Rightarrow> (credit_ledger, credit_tx) op" where
  "refund_one inp index usage credits s =
     (case find_index (\<lambda>l. cl_workspaceId l = rc_workspaceId inp \<and> cl_id l = ct_lotId usage)
             (cs_lots s) of
        None \<Rightarrow> (Inl (JsError ''Credit lot for usage transaction is missing.''), s)
      | Some i \<Rightarrow>
          (let lot = cs_lots s ! i;
               active = (\<not> lot_explicitly_expired (rc_workspaceId inp) (cl_id lot) s \<and>
                         lot_active_at (rc_createdAt inp) lot);
               s1 = (if active then update_lot i (credit_lot_back credits lot) s else s);
               t = refund_credit_tx inp index usage (cl_id lot) credits active
           in (Inr t, push_tx t s1)))"

fun refund_loop ::
    "refund_credits_input \<Rightarrow> nat \<Rightarrow> int option \<Rightarrow> credit_tx list \<Rightarrow>
       (credit_ledger, credit_tx list \<times> int option) op" where
  "refund_loop inp index remaining [] s = (Inr ([], remaining), s)"
| "refund_loop inp index remaining (usage # usages) s =
     (if remaining = Some 0 then (Inr ([], remaining), s)
      else
        case find (is_refund_of (rc_workspaceId inp) (ct_id usage)) (cs_transactions s) of
          Some existing \<Rightarrow>
            (case refund_loop inp (Suc index)
                    (map_option (\<lambda>r. r - ct_credits existing) remaining) usages s of
               (Inl e, s') \<Rightarrow> (Inl e, s')
             | (Inr (ts, rem), s') \<Rightarrow> (Inr (existing # ts, rem), s'))
        | None \<Rightarrow>
            (let credits = (case remaining of None \<Rightarrow> ct_credits usage
                                            | Some r \<Rightarrow> min (ct_credits usage) r)
             in case refund_one inp index usage credits s of
                  (Inl e, s') \<Rightarrow> (Inl e, s')
                | (Inr t, s') \<Rightarrow>
                    (case refund_loop inp (Suc index)
                            (map_option (\<lambda>r. r - credits) remaining) usages s' of
                       (Inl e, s'') \<Rightarrow> (Inl e, s'')
                     | (Inr (ts, rem), s'') \<Rightarrow> (Inr (t # ts, rem), s''))))"

definition assert_optional_credits :: "js_number option \<Rightarrow> unit result" where
  "assert_optional_credits c =
     (case c of None \<Rightarrow> Inr () | Some v \<Rightarrow> assertCredits v ''credits'')"

definition refundUsageOperation :: "refund_credits_input \<Rightarrow> (credit_ledger, credit_tx list) op" where
  "refundUsageOperation inp =
     guarded (assert_timestamp (rc_createdAt inp) ''createdAt'') (\<lambda>_.
     guarded (assert_optional_credits (rc_credits inp)) (\<lambda>_.
     guarded (normalizeCreditConsumeIdempotencyKey (rc_usageOperationId inp)) (\<lambda>usageOperationId s.
       let usages = filter (is_usage_of (rc_workspaceId inp) usageOperationId) (cs_transactions s)
       in case refund_loop inp 0 (map_option int_of (rc_credits inp)) usages s of
            (Inl e, s') \<Rightarrow> (Inl e, s')
          | (Inr (refunds, remaining), s') \<Rightarrow>
              if remaining \<noteq> None \<and> remaining \<noteq> Some 0
              then (Inl (P1DomainError INVALID_STATE
                      ''Credit refund exceeds the original usage operation.''), s')
              else (Inr refunds, s'))))"

subsection \<open>Serialisation\<close>

definition runAtomically :: "(credit_ledger, 'a) op \<Rightarrow> (credit_ledger, 'a) op" where
  "runAtomically work = atomically work"

definition withWorkspaceCreditLock :: "string \<Rightarrow> (credit_ledger, 'a) op \<Rightarrow> (credit_ledger, 'a) op" where
  "withWorkspaceCreditLock ws work = runAtomically work"

end
