(* ===== verification/CreditLedgerCorrect.thy ===== *)
theory CreditLedgerCorrect
  imports CreditLedger
begin

text \<open>
  Correctness of the credit ledger: the drain order and the allocation loop, the invariant that
  ties every lot to its transactions, that each method keeps it, and the properties of whole runs:
  conservation of credits, exactly-once consumption, refund and grant, expiry.
\<close>

section \<open>Order and allocation\<close>

definition lot_dates_ok :: "credit_lot \<Rightarrow> bool" where
  "lot_dates_ok l \<longleftrightarrow> dates_ok (cl_expirationDate l) (cl_createdAt l)"

definition lot_key :: "credit_lot \<Rightarrow> (int \<times> int) \<times> int \<times> (nat list \<times> nat list)" where
  "lot_key l = fefo_key (cl_expirationDate l) (cl_createdAt l) (cl_id l)"

lemma compareCreditLotsForFefo_eq:
  "compareCreditLotsForFefo l r =
     fefo_compare (cl_expirationDate l) (cl_createdAt l) (cl_id l)
       (cl_expirationDate r) (cl_createdAt r) (cl_id r)"
  by (simp add: compareCreditLotsForFefo.simps compareCreatedAtAndId_def fefo_compare_def
      split: option.splits)

lemma cmp_le_lots:
  "lot_dates_ok l \<Longrightarrow> lot_dates_ok r \<Longrightarrow>
    cmp_le compareCreditLotsForFefo l r \<longleftrightarrow> lot_key l \<le> lot_key r"
  unfolding cmp_le_def compareCreditLotsForFefo_eq lot_key_def
  by (rule fefo_compare_le_iff) (simp_all add: lot_dates_ok_def)

interpretation fefo: js_comparator compareCreditLotsForFefo lot_dates_ok
  by unfold_locales (auto simp: cmp_le_lots)

interpretation credit_alloc: lot_allocation cl_id cl_remainingCredits allocate_credit_loop
  by unfold_locales (simp_all add: Let_def)

section \<open>The invariant\<close>

text \<open>The signed effect of a transaction on the balance of its lot.\<close>

fun net_credits :: "credit_tx \<Rightarrow> int" where
  "net_credits t =
     (case ct_transactionType t of
        GRANT _ \<Rightarrow> ct_credits t
      | USAGE \<Rightarrow> - ct_credits t
      | REFUND \<Rightarrow> (if ct_credited t then ct_credits t else 0)
      | EXPIRE \<Rightarrow> - ct_credits t)"

declare net_credits.simps [simp del]

definition of_lot :: "string \<Rightarrow> string \<Rightarrow> credit_tx \<Rightarrow> bool" where
  "of_lot ws lotId t \<longleftrightarrow> ct_workspaceId t = ws \<and> ct_lotId t = lotId"

definition lot_net :: "credit_tx list \<Rightarrow> string \<Rightarrow> string \<Rightarrow> int" where
  "lot_net txs ws lotId = sum_list (map net_credits (filter (of_lot ws lotId) txs))"

definition lot_granted :: "credit_tx list \<Rightarrow> string \<Rightarrow> string \<Rightarrow> int" where
  "lot_granted txs ws lotId = total_credits is_grant (filter (of_lot ws lotId) txs)"

definition lot_ident :: "credit_lot \<Rightarrow> string \<times> string" where
  "lot_ident l = (cl_workspaceId l, cl_id l)"

text \<open>Every lot holds what its transactions say, and its identity is unique in its workspace.\<close>

definition lot_consistent :: "credit_tx list \<Rightarrow> credit_lot \<Rightarrow> bool" where
  "lot_consistent txs l \<longleftrightarrow>
     lot_dates_ok l \<and> 0 < cl_originalCredits l \<and>
     cl_remainingCredits l = lot_net txs (cl_workspaceId l) (cl_id l) \<and>
     cl_originalCredits l = lot_granted txs (cl_workspaceId l) (cl_id l)"

definition lots_ok :: "credit_ledger \<Rightarrow> bool" where
  "lots_ok s \<longleftrightarrow>
     distinct (map lot_ident (cs_lots s)) \<and>
     (\<forall>l \<in> set (cs_lots s). lot_consistent (cs_transactions s) l) \<and>
     (\<forall>t \<in> set (cs_transactions s). (ct_workspaceId t, ct_lotId t) \<in> lot_ident ` set (cs_lots s))"

definition usage_key :: "credit_tx \<Rightarrow> string \<times> string" where
  "usage_key t = (ct_workspaceId t, ct_id t)"

definition refund_key :: "credit_tx \<Rightarrow> string \<times> string option" where
  "refund_key t = (ct_workspaceId t, ct_relatedTransactionId t)"

definition usages :: "credit_tx list \<Rightarrow> credit_tx list" where
  "usages txs = filter (\<lambda>t. ct_transactionType t = USAGE) txs"

definition refunds :: "credit_tx list \<Rightarrow> credit_tx list" where
  "refunds txs = filter (\<lambda>t. ct_transactionType t = REFUND) txs"

text \<open>Usages are named by their operation and position; a usage is refunded at most once.\<close>

definition txs_ok :: "credit_tx list \<Rightarrow> bool" where
  "txs_ok txs \<longleftrightarrow>
     distinct (map usage_key (usages txs)) \<and>
     distinct (map refund_key (refunds txs)) \<and>
     (\<forall>t \<in> set (usages txs). 0 < ct_credits t \<and> (\<exists>i. ct_id t = ct_operationId t @ '':'' @ show_nat i)) \<and>
     (\<forall>r \<in> set (refunds txs). \<exists>u \<in> set (usages txs).
        ct_workspaceId u = ct_workspaceId r \<and> ct_relatedTransactionId r = Some (ct_id u) \<and>
        ct_lotId u = ct_lotId r \<and> ct_credits r \<le> ct_credits u) \<and>
     (\<forall>t \<in> set txs. ct_transactionType t = EXPIRE \<longrightarrow> 0 < ct_credits t)"

definition credit_inv :: "credit_ledger \<Rightarrow> bool" where
  "credit_inv s \<longleftrightarrow> lots_ok s \<and> txs_ok (cs_transactions s)"

text \<open>No lot is overdrawn and no refund is negative.\<close>

definition credit_nonneg :: "credit_ledger \<Rightarrow> bool" where
  "credit_nonneg s \<longleftrightarrow>
     (\<forall>l \<in> set (cs_lots s). 0 \<le> cl_remainingCredits l) \<and>
     (\<forall>r \<in> set (refunds (cs_transactions s)). 0 \<le> ct_credits r)"

lemma lot_net_snoc [simp]:
  "lot_net (txs @ [t]) ws i = lot_net txs ws i + (if of_lot ws i t then net_credits t else 0)"
  by (simp add: lot_net_def)

lemma lot_granted_snoc [simp]:
  "lot_granted (txs @ [t]) ws i =
    lot_granted txs ws i + (if of_lot ws i t \<and> is_grant (ct_transactionType t) then ct_credits t else 0)"
  by (simp add: lot_granted_def total_credits_def)

lemma ledger_field_simps [simp]:
  "cs_transactions (push_tx t s) = cs_transactions s @ [t]"
  "cs_lots (push_tx t s) = cs_lots s"
  "cs_lots (update_lot i l s) = (cs_lots s)[i := l]"
  "cs_transactions (update_lot i l s) = cs_transactions s"
  by (simp_all add: push_tx_def update_lot_def)

lemma lots_ok_nth:
  assumes "lots_ok s" and "i < length (cs_lots s)"
  shows "lot_dates_ok (cs_lots s ! i)"
    and "cl_remainingCredits (cs_lots s ! i) =
      lot_net (cs_transactions s) (cl_workspaceId (cs_lots s ! i)) (cl_id (cs_lots s ! i))"
    and "cl_originalCredits (cs_lots s ! i) =
      lot_granted (cs_transactions s) (cl_workspaceId (cs_lots s ! i)) (cl_id (cs_lots s ! i))"
    and "0 < cl_originalCredits (cs_lots s ! i)"
  using assms nth_mem [OF assms(2)] unfolding lots_ok_def lot_consistent_def by blast+

text \<open>
  The step every movement makes: one lot changes its remaining credits (and its revision) and one
  transaction with the same effect is appended.
\<close>

lemma lots_ok_move:
  assumes ok: "lots_ok s" and i: "i < length (cs_lots s)"
    and same: "lot_ident l = lot_ident (cs_lots s ! i)"
      "cl_expirationDate l = cl_expirationDate (cs_lots s ! i)"
      "cl_createdAt l = cl_createdAt (cs_lots s ! i)"
      "cl_originalCredits l = cl_originalCredits (cs_lots s ! i)"
    and t: "of_lot (cl_workspaceId l) (cl_id l) t" "\<not> is_grant (ct_transactionType t)"
    and rem: "cl_remainingCredits l = cl_remainingCredits (cs_lots s ! i) + net_credits t"
  shows "lots_ok (push_tx t (update_lot i l s))"
proof -
  let ?ls = "cs_lots s"
  have keys: "map lot_ident (?ls[i := l]) = map lot_ident ?ls"
    using same(1) i by (metis list_update_id map_update)
  have idents: "lot_ident ` set (?ls[i := l]) = lot_ident ` set ?ls"
    by (metis keys list.set_map)
  have other: "\<not> of_lot (cl_workspaceId (?ls ! j)) (cl_id (?ls ! j)) t"
    if "j < length ?ls" "j \<noteq> i" for j
  proof
    assume "of_lot (cl_workspaceId (?ls ! j)) (cl_id (?ls ! j)) t"
    with t(1) same(1) have "lot_ident (?ls ! j) = lot_ident (?ls ! i)"
      by (auto simp: of_lot_def lot_ident_def)
    with that i ok show False
      by (auto simp: lots_ok_def distinct_conv_nth)
  qed
  have each: "lot_consistent (cs_transactions s @ [t]) k"
    if mem: "k \<in> set (?ls[i := l])" for k
  proof -
    obtain j where j: "j < length ?ls" "k = ?ls[i := l] ! j"
      using mem by (auto simp: in_set_conv_nth)
    show ?thesis
    proof (cases "j = i")
      case True
      then have k: "k = l" using j by simp
      show ?thesis
        using k same t rem lots_ok_nth [OF ok i]
        by (auto simp: lot_consistent_def lot_dates_ok_def lot_ident_def)
    next
      case False
      then have k: "k = ?ls ! j" using j by simp
      show ?thesis
        using k other [OF j(1) False] lots_ok_nth [OF ok j(1)] by (auto simp: lot_consistent_def)
    qed
  qed
  have "(ct_workspaceId t, ct_lotId t) \<in> lot_ident ` set ?ls"
    using t(1) same(1) i by (auto simp: of_lot_def lot_ident_def intro!: image_eqI [of _ _ "?ls ! i"])
  then show ?thesis
    using ok each by (simp add: lots_ok_def keys idents)
qed

section \<open>Movements keep the invariant\<close>

text \<open>
  A family of entries, each bounded by an entry of a second family with the same key, adds up to
  no more than the second family without any entry whose key is not used.
\<close>

lemma matched_sum_le:
  fixes f :: "'a \<Rightarrow> int" and g :: "'b \<Rightarrow> int"
  assumes R: "distinct (map kr R)" and U: "distinct U"
    and match: "\<And>r. r \<in> set R \<Longrightarrow> \<exists>u \<in> set U. ku u = kr r \<and> f r \<le> g u"
    and nonneg: "\<And>u. u \<in> set U \<Longrightarrow> 0 \<le> g u"
  shows "sum_list (map f R) \<le> sum_list (map g U)"
proof -
  define owner where "owner v = (THE r. r \<in> set R \<and> kr r = ku v)" for v
  have owner: "owner v = r" if "r \<in> set R" "kr r = ku v" for r v
    unfolding owner_def using that R
    by (intro the_equality) (auto simp: distinct_map inj_on_def)
  have "sum f (set R) \<le> sum g (set U)"
  proof (rule sum_le_included [where i = owner])
    show "\<forall>r \<in> set R. \<exists>v \<in> set U. owner v = r \<and> f r \<le> g v"
      using match owner by metis
  qed (use nonneg in auto)
  then show ?thesis
    using R U by (simp add: distinct_map sum_list_distinct_conv_sum_set)
qed

definition lot_used :: "credit_tx list \<Rightarrow> string \<Rightarrow> string \<Rightarrow> int" where
  "lot_used txs ws lotId = sum_list (map ct_credits (filter (of_lot ws lotId) (usages txs)))"

definition lot_refunded :: "credit_tx list \<Rightarrow> string \<Rightarrow> string \<Rightarrow> int" where
  "lot_refunded txs ws lotId =
     sum_list (map ct_credits (filter ct_credited (filter (of_lot ws lotId) (refunds txs))))"

definition lot_expiries :: "credit_tx list \<Rightarrow> string \<Rightarrow> string \<Rightarrow> int" where
  "lot_expiries txs ws lotId = total_credits (\<lambda>t. t = EXPIRE) (filter (of_lot ws lotId) txs)"

lemma lot_net_split:
  "lot_net txs ws i = lot_granted txs ws i - lot_used txs ws i + lot_refunded txs ws i
     - lot_expiries txs ws i"
  unfolding lot_net_def lot_granted_def lot_used_def lot_refunded_def lot_expiries_def
    total_credits_def usages_def refunds_def
  by (induction txs) (auto simp: net_credits.simps split: lot_tx_type.splits)

lemma lot_expiries_nonneg: "txs_ok txs \<Longrightarrow> 0 \<le> lot_expiries txs ws i"
  unfolding lot_expiries_def total_credits_def txs_ok_def
  by (intro sum_list_nonneg) (auto simp: less_imp_le)

definition unrefunded :: "credit_tx list \<Rightarrow> credit_tx \<Rightarrow> bool" where
  "unrefunded txs u \<longleftrightarrow> (ct_workspaceId u, Some (ct_id u)) \<notin> refund_key ` set (refunds txs)"

definition usage_refund_key :: "credit_tx \<Rightarrow> string \<times> string option" where
  "usage_refund_key u = (ct_workspaceId u, Some (ct_id u))"

lemma txs_ok_refund_match:
  assumes "txs_ok txs" and "r \<in> set (refunds txs)"
  shows "\<exists>u \<in> set (usages txs). usage_refund_key u = refund_key r \<and> ct_lotId u = ct_lotId r \<and>
    ct_credits r \<le> ct_credits u"
  using assms unfolding txs_ok_def usage_refund_key_def refund_key_def by fastforce

lemma distinct_usage_refund_key:
  "txs_ok txs \<Longrightarrow> distinct (map usage_refund_key (usages txs))"
  unfolding txs_ok_def usage_refund_key_def usage_key_def distinct_map inj_on_def by auto

lemma lot_refunded_le_used:
  assumes ok: "txs_ok txs" and P: "\<And>u. u \<in> set (usages txs) \<Longrightarrow> \<not> P u \<Longrightarrow> unrefunded txs u"
  shows "lot_refunded txs ws i \<le> sum_list (map ct_credits (filter P (filter (of_lot ws i) (usages txs))))"
  unfolding lot_refunded_def
proof (rule matched_sum_le [where kr = refund_key and ku = usage_refund_key])
  have "distinct (map refund_key (refunds txs))" using ok by (simp add: txs_ok_def)
  then show "distinct (map refund_key (filter ct_credited (filter (of_lot ws i) (refunds txs))))"
    by (simp add: distinct_map inj_on_def)
  show "distinct (filter P (filter (of_lot ws i) (usages txs)))"
    using distinct_usage_refund_key [OF ok] by (simp add: distinct_map)
  show "\<exists>u \<in> set (filter P (filter (of_lot ws i) (usages txs))).
      usage_refund_key u = refund_key r \<and> ct_credits r \<le> ct_credits u"
    if r: "r \<in> set (filter ct_credited (filter (of_lot ws i) (refunds txs)))" for r
  proof -
    obtain v where v: "v \<in> set (usages txs)" "usage_refund_key v = refund_key r"
      "ct_lotId v = ct_lotId r" "ct_credits r \<le> ct_credits v"
      using txs_ok_refund_match [OF ok, of r] r by auto
    moreover have "of_lot ws i v"
      using v r by (auto simp: of_lot_def usage_refund_key_def refund_key_def)
    moreover have "P v"
      using P [OF v(1)] v(2) r by (auto simp: unrefunded_def usage_refund_key_def)
    ultimately show ?thesis by auto
  qed
  show "0 \<le> ct_credits v" if "v \<in> set (filter P (filter (of_lot ws i) (usages txs)))" for v
    using ok that unfolding txs_ok_def by (auto simp: less_imp_le)
qed

text \<open>The credits of an unrefunded usage still fit into the lot they came from.\<close>

lemma lot_refunded_le:
  assumes ok: "txs_ok txs" and u: "u \<in> set (usages txs)" "unrefunded txs u"
    and lot: "of_lot ws i u"
  shows "lot_refunded txs ws i + ct_credits u \<le> lot_used txs ws i"
proof -
  have d: "distinct (usages txs)" using distinct_usage_refund_key [OF ok] by (simp add: distinct_map)
  have "sum_list (map ct_credits (filter (of_lot ws i) (usages txs))) = ct_credits u +
      sum_list (map ct_credits (filter (\<lambda>v. v \<noteq> u) (filter (of_lot ws i) (usages txs))))"
    using d u(1) lot
    by (simp add: sum_list_distinct_conv_sum_set sum.remove [of _ u] set_diff_eq
        Collect_conj_eq Int_commute Int_assoc Compl_eq)
  with lot_refunded_le_used [OF ok, of "\<lambda>v. v \<noteq> u"] u show ?thesis
    by (simp add: lot_used_def)
qed

lemma refund_fits:
  assumes inv: "credit_inv s" and i: "i < length (cs_lots s)"
    and u: "u \<in> set (usages (cs_transactions s))" "unrefunded (cs_transactions s) u"
    and lot: "of_lot (cl_workspaceId (cs_lots s ! i)) (cl_id (cs_lots s ! i)) u"
    and c: "c \<le> ct_credits u"
  shows "cl_remainingCredits (cs_lots s ! i) + c \<le> cl_originalCredits (cs_lots s ! i)"
proof -
  have ok: "lots_ok s" "txs_ok (cs_transactions s)" using inv by (simp_all add: credit_inv_def)
  show ?thesis
    using lots_ok_nth(2,3) [OF ok(1) i] lot_refunded_le [OF ok(2) u lot]
      lot_expiries_nonneg [OF ok(2)] c
    by (simp add: lot_net_split) (smt (verit))
qed

text \<open>What each kind of transaction needs to be appended.\<close>

lemma usages_refunds_snoc [simp]:
  "usages (txs @ [t]) = usages txs @ (if ct_transactionType t = USAGE then [t] else [])"
  "refunds (txs @ [t]) = refunds txs @ (if ct_transactionType t = REFUND then [t] else [])"
  by (simp_all add: usages_def refunds_def)

lemma txs_ok_expire:
  "txs_ok txs \<Longrightarrow> ct_transactionType t = EXPIRE \<Longrightarrow> 0 < ct_credits t \<Longrightarrow> txs_ok (txs @ [t])"
  by (auto simp: txs_ok_def)

lemma txs_ok_grant:
  "txs_ok txs \<Longrightarrow> ct_transactionType t = GRANT g \<Longrightarrow> txs_ok (txs @ [t])"
  by (auto simp: txs_ok_def)

lemma txs_ok_usage:
  assumes "txs_ok txs" and "ct_transactionType t = USAGE" and "0 < ct_credits t"
    and "ct_id t = ct_operationId t @ '':'' @ show_nat i"
    and "usage_key t \<notin> usage_key ` set (usages txs)"
  shows "txs_ok (txs @ [t])"
  using assms unfolding txs_ok_def by (simp add: Ball_def) blast

lemma txs_ok_refund:
  assumes "txs_ok txs" and "ct_transactionType t = REFUND"
    and "refund_key t \<notin> refund_key ` set (refunds txs)"
    and "u \<in> set (usages txs)" "ct_workspaceId u = ct_workspaceId t"
      "ct_relatedTransactionId t = Some (ct_id u)" "ct_lotId u = ct_lotId t"
      "ct_credits t \<le> ct_credits u"
  shows "txs_ok (txs @ [t])"
  using assms unfolding txs_ok_def by (simp add: Ball_def) blast

section \<open>Operations keep the invariant\<close>

lemma lots_ok_push_silent:
  assumes ok: "lots_ok s" and t: "net_credits t = 0" "\<not> is_grant (ct_transactionType t)"
    and known: "(ct_workspaceId t, ct_lotId t) \<in> lot_ident ` set (cs_lots s)"
  shows "lots_ok (push_tx t s)"
  using ok t known by (auto simp: lots_ok_def lot_consistent_def)

lemma credit_inv_empty: "credit_inv empty_credit_ledger"
  by (simp add: credit_inv_def lots_ok_def txs_ok_def empty_credit_ledger_def usages_def refunds_def)

lemma credit_nonneg_empty: "credit_nonneg empty_credit_ledger"
  by (simp add: credit_nonneg_def empty_credit_ledger_def refunds_def)

lemma assertGrantInput_ok:
  assumes "assertGrantInput inp = Inr ()"
  shows "0 < int_of (gc_credits inp)" and "dates_ok (gc_expirationDate inp) (gc_createdAt inp)"
    and "gc_credits inp = JInt (int_of (gc_credits inp))"
  using assms
  by (auto simp: assertGrantInput_def assertCredits_def assert_timestamp_def valid_timestamp_iff
      dates_ok_def number_isSafeInteger_iff split: if_splits option.splits)

lemma lot_sums_unknown:
  assumes "lots_ok s" and "(ws, i) \<notin> lot_ident ` set (cs_lots s)"
  shows "lot_net (cs_transactions s) ws i = 0" and "lot_granted (cs_transactions s) ws i = 0"
proof -
  have "filter (of_lot ws i) (cs_transactions s) = []"
    using assms by (auto simp: lots_ok_def of_lot_def filter_empty_conv)
  then show "lot_net (cs_transactions s) ws i = 0" "lot_granted (cs_transactions s) ws i = 0"
    by (simp_all add: lot_net_def lot_granted_def total_credits_def)
qed

lemma grant_result:
  assumes "grant inp s = (r, s')"
  obtains (error) e where "r = Inl e" "s' = s"
  | (replay) lot where "r = Inr lot" "s' = s" "lot \<in> set (cs_lots s)"
      "cl_workspaceId lot = gc_workspaceId inp"
  | (fresh) key where "assertGrantInput inp = Inr ()"
      "normalizeCreditGrantIdempotencyKey (gc_id inp) (gc_grantIdempotencyKey inp) = Inr key"
      "\<forall>l \<in> set (cs_lots s). cl_workspaceId l = gc_workspaceId inp \<longrightarrow>
         cl_id l \<noteq> gc_id inp \<and> cl_grantIdempotencyKey l \<noteq> key"
      "r = Inr (new_credit_lot inp key)"
      "s' = push_tx (grant_credit_tx inp key) (s\<lparr>cs_lots := cs_lots s @ [new_credit_lot inp key]\<rparr>)"
proof -
  consider e where "assertGrantInput inp = Inl e"
    | e where "assertGrantInput inp = Inr ()"
        "normalizeCreditGrantIdempotencyKey (gc_id inp) (gc_grantIdempotencyKey inp) = Inl e"
    | key where "assertGrantInput inp = Inr ()"
        "normalizeCreditGrantIdempotencyKey (gc_id inp) (gc_grantIdempotencyKey inp) = Inr key"
    by (cases "assertGrantInput inp";
        cases "normalizeCreditGrantIdempotencyKey (gc_id inp) (gc_grantIdempotencyKey inp)") auto
  then show thesis
  proof cases
    case (3 key)
    let ?P = "\<lambda>l. cl_workspaceId l = gc_workspaceId inp \<and>
                  (cl_id l = gc_id inp \<or> cl_grantIdempotencyKey l = key)"
    show thesis
    proof (cases "find ?P (cs_lots s)")
      case None
      then have "\<forall>l \<in> set (cs_lots s). \<not> ?P l" by (auto simp: find_None_iff)
      with 3 None assms show thesis by (intro fresh) (auto simp: grant_def Let_def)
    next
      case (Some lot)
      then have "lot \<in> set (cs_lots s)" "?P lot" by (auto simp: find_Some_iff)
      with 3 Some assms error replay show thesis by (auto simp: grant_def split: if_splits)
    qed
  qed (use assms error in \<open>auto simp: grant_def\<close>)
qed

lemma grant_keeps_inv:
  assumes inv: "credit_inv s" and run: "grant inp s = (r, s')"
  shows "credit_inv s'"
  using run
proof (cases rule: grant_result)
  case (fresh key)
  have ok: "lots_ok s" "txs_ok (cs_transactions s)" using inv by (simp_all add: credit_inv_def)
  let ?l = "new_credit_lot inp key" and ?t = "grant_credit_tx inp key"
  have new: "lot_ident ?l \<notin> lot_ident ` set (cs_lots s)"
    using fresh(3) by (auto simp: lot_ident_def new_credit_lot_def)
  have tx: "ct_workspaceId ?t = cl_workspaceId ?l" "ct_lotId ?t = cl_id ?l"
    "ct_transactionType ?t = GRANT (gc_transactionType inp)"
    "ct_credits ?t = cl_originalCredits ?l" "net_credits ?t = cl_remainingCredits ?l"
    by (simp_all add: grant_credit_tx_def new_credit_lot_def net_credits.simps)
  have "lot_consistent (cs_transactions s @ [?t]) ?l"
    using tx assertGrantInput_ok [OF fresh(1)]
      lot_sums_unknown [OF ok(1), of "cl_workspaceId ?l" "cl_id ?l"] new
    by (simp add: lot_consistent_def of_lot_def lot_ident_def)
      (simp add: new_credit_lot_def lot_dates_ok_def)
  moreover have "lot_consistent (cs_transactions s @ [?t]) k" if k: "k \<in> set (cs_lots s)" for k
  proof -
    have "\<not> of_lot (cl_workspaceId k) (cl_id k) ?t"
      using new k tx(1,2) by (auto simp: of_lot_def lot_ident_def rev_image_eqI)
    with ok(1) k show ?thesis by (auto simp: lots_ok_def lot_consistent_def)
  qed
  ultimately have "lots_ok s'"
    using ok(1) new tx fresh(5) by (auto simp: lots_ok_def lot_ident_def)
  then show ?thesis
    using txs_ok_grant [OF ok(2) tx(3)] fresh(5) by (simp add: credit_inv_def)
qed (use inv in simp_all)

lemma grant_keeps_nonneg:
  assumes nn: "credit_nonneg s" and run: "grant inp s = (r, s')"
  shows "credit_nonneg s'"
  using run
proof (cases rule: grant_result)
  case (fresh key)
  then show ?thesis
    using nn assertGrantInput_ok(1) [OF fresh(1)]
    by (auto simp: credit_nonneg_def grant_credit_tx_def new_credit_lot_def)
qed (use nn in simp_all)

subsection \<open>Expiry\<close>

lemma expire_refs_Cons:
  "expire_refs mk (i # is) s =
    (let s1 = push_tx (mk (cs_lots s ! i)) (update_lot i (zero_lot (cs_lots s ! i)) s)
     in (mk (cs_lots s ! i) # fst (expire_refs mk is s1), snd (expire_refs mk is s1)))"
  by (simp add: Let_def split: prod.split)

text \<open>The loop in closed form: the referenced lots are emptied, one transaction each.\<close>

lemma expire_refs_closed:
  assumes "distinct is" and "\<forall>i \<in> set is. i < length (cs_lots s)"
  shows "fst (expire_refs mk is s) = map (\<lambda>i. mk (cs_lots s ! i)) is \<and>
    cs_transactions (snd (expire_refs mk is s)) =
      cs_transactions s @ map (\<lambda>i. mk (cs_lots s ! i)) is \<and>
    length (cs_lots (snd (expire_refs mk is s))) = length (cs_lots s) \<and>
    (\<forall>j < length (cs_lots s). cs_lots (snd (expire_refs mk is s)) ! j =
      (if j \<in> set is then zero_lot (cs_lots s ! j) else cs_lots s ! j))"
  using assms
proof (induction "is" arbitrary: s)
  case Nil
  then show ?case by simp
next
  case (Cons i "is")
  let ?s = "push_tx (mk (cs_lots s ! i)) (update_lot i (zero_lot (cs_lots s ! i)) s)"
  have same: "map (\<lambda>j. mk (cs_lots ?s ! j)) is = map (\<lambda>j. mk (cs_lots s ! j)) is"
    using Cons.prems(1) by (auto intro!: arg_cong [where f = mk] nth_list_update_neq)
  have IH: "fst (expire_refs mk is ?s) = map (\<lambda>j. mk (cs_lots s ! j)) is"
    "cs_transactions (snd (expire_refs mk is ?s)) =
       cs_transactions ?s @ map (\<lambda>j. mk (cs_lots s ! j)) is"
    "length (cs_lots (snd (expire_refs mk is ?s))) = length (cs_lots s)"
    "\<forall>j < length (cs_lots s). cs_lots (snd (expire_refs mk is ?s)) ! j =
       (if j \<in> set is then zero_lot (cs_lots ?s ! j) else cs_lots ?s ! j)"
    using Cons.IH [of ?s] Cons.prems unfolding same by simp_all
  show ?case
    using IH Cons.prems by (simp add: expire_refs_Cons Let_def nth_list_update del: expire_refs.simps)
qed

text \<open>A transaction that empties the lot it is made for.\<close>

definition empties :: "(credit_lot \<Rightarrow> credit_tx) \<Rightarrow> credit_lot \<Rightarrow> bool" where
  "empties mk l \<longleftrightarrow> ct_transactionType (mk l) = EXPIRE \<and> ct_credits (mk l) = cl_remainingCredits l \<and>
     of_lot (cl_workspaceId l) (cl_id l) (mk l) \<and> 0 < cl_remainingCredits l"

lemma expire_refs_keeps_inv:
  assumes "credit_inv s" and "distinct is"
    and "\<forall>i \<in> set is. i < length (cs_lots s) \<and> empties mk (cs_lots s ! i)"
  shows "credit_inv (snd (expire_refs mk is s))"
  using assms
proof (induction "is" arbitrary: s)
  case Nil
  then show ?case by simp
next
  case (Cons i "is")
  let ?l = "cs_lots s ! i"
  let ?s = "push_tx (mk ?l) (update_lot i (zero_lot ?l) s)"
  have em: "empties mk ?l" and i: "i < length (cs_lots s)" using Cons.prems by auto
  have "lots_ok ?s"
    using Cons.prems(1) i em
    by (intro lots_ok_move) (auto simp: credit_inv_def empties_def zero_lot_def lot_ident_def
        net_credits.simps)
  moreover have "txs_ok (cs_transactions ?s)"
    using Cons.prems(1) em by (simp add: credit_inv_def empties_def txs_ok_expire)
  moreover have "cs_lots ?s ! j = cs_lots s ! j" if "j \<in> set is" for j
    using that Cons.prems(2) by (auto intro: nth_list_update_neq)
  ultimately have "credit_inv (snd (expire_refs mk is ?s))"
    using Cons.prems by (intro Cons.IH) (auto simp: credit_inv_def)
  then show ?case by (simp add: expire_refs_Cons Let_def del: expire_refs.simps)
qed

lemma expire_refs_keeps_nonneg:
  assumes nn: "credit_nonneg s" and "is": "distinct is"
    and em: "\<forall>i \<in> set is. i < length (cs_lots s) \<and> empties mk (cs_lots s ! i)"
  shows "credit_nonneg (snd (expire_refs mk is s))"
proof -
  have "\<forall>i \<in> set is. i < length (cs_lots s)" using em by blast
  note closed = expire_refs_closed [OF "is" this, of mk]
  have "refunds (cs_transactions (snd (expire_refs mk is s))) = refunds (cs_transactions s)"
    using closed em by (auto simp: refunds_def filter_empty_conv empties_def)
  moreover have "0 \<le> cl_remainingCredits l" if l: "l \<in> set (cs_lots (snd (expire_refs mk is s)))" for l
  proof -
    obtain j where "j < length (cs_lots s)" "l = cs_lots (snd (expire_refs mk is s)) ! j"
      using l closed by (auto simp: in_set_conv_nth)
    with closed nn show ?thesis
      by (auto simp: credit_nonneg_def zero_lot_def)
  qed
  ultimately show ?thesis using nn by (simp add: credit_nonneg_def)
qed

lemma expire_refs_of_props:
  "distinct (expire_refs_of inp s)"
  "set (expire_refs_of inp s) =
     {i. i < length (cs_lots s) \<and> cl_workspaceId (cs_lots s ! i) = xl_workspaceId inp \<and>
         lot_expired_at (xl_now inp) (cs_lots s ! i) \<and> 0 < cl_remainingCredits (cs_lots s ! i)}"
  by (auto simp: expire_refs_of_def set_indices_where)

lemma empties_expire_credit_tx:
  "cl_workspaceId l = ws \<Longrightarrow> 0 < cl_remainingCredits l \<Longrightarrow>
    empties (expire_credit_tx p q ws a c n) l"
  by (simp add: empties_def expire_credit_tx_def of_lot_def)

lemma expireLots_run:
  "expireLots inp s =
    (if valid_timestamp (xl_now inp)
     then (Inr (fst (expire_refs (expire_credit_tx ''credit-expire:'' ''expire:'' (xl_workspaceId inp)
                  (xl_actorId inp) (xl_correlationId inp) (xl_now inp)) (expire_refs_of inp s) s)),
           snd (expire_refs (expire_credit_tx ''credit-expire:'' ''expire:'' (xl_workspaceId inp)
                  (xl_actorId inp) (xl_correlationId inp) (xl_now inp)) (expire_refs_of inp s) s))
     else (Inl (P1DomainError INVALID_STATE ''now must be an ISO timestamp.''), s))"
  by (simp add: expireLots_def assert_timestamp_def split: prod.split)

lemma expireLots_keeps:
  shows "credit_inv s \<Longrightarrow> credit_inv (snd (expireLots inp s))"
    and "credit_nonneg s \<Longrightarrow> credit_nonneg (snd (expireLots inp s))"
  by (auto simp: expireLots_run expire_refs_of_props empties_expire_credit_tx
      intro!: expire_refs_keeps_inv expire_refs_keeps_nonneg)

lemma expireSubscriptionLots_keeps:
  shows "credit_inv s \<Longrightarrow> credit_inv (snd (expireSubscriptionLots inp s))"
    and "credit_nonneg s \<Longrightarrow> credit_nonneg (snd (expireSubscriptionLots inp s))"
  unfolding expireSubscriptionLots_def Let_def split_def snd_conv
  by (auto simp: set_indices_where empties_expire_credit_tx
      intro!: expire_refs_keeps_inv expire_refs_keeps_nonneg)

subsection \<open>Consumption\<close>

text \<open>The transactions an allocation writes, and the lot each share is taken from.\<close>

fun usage_txs :: "consume_credits_input \<Rightarrow> string \<Rightarrow> nat \<Rightarrow> (string \<times> int) list \<Rightarrow> credit_tx list" where
  "usage_txs inp op_id index [] = []"
| "usage_txs inp op_id index ((lotId, c) # rest) =
     usage_credit_tx inp op_id index lotId c # usage_txs inp op_id (Suc index) rest"

definition debited :: "string \<Rightarrow> (string \<times> int) list \<Rightarrow> credit_lot \<Rightarrow> credit_lot" where
  "debited ws allocs l =
     (if cl_workspaceId l = ws
      then (case map_of allocs (cl_id l) of None \<Rightarrow> l | Some c \<Rightarrow> debit_lot c l) else l)"

definition covered :: "string \<Rightarrow> credit_ledger \<Rightarrow> (string \<times> int) list \<Rightarrow> bool" where
  "covered ws s allocs \<longleftrightarrow> distinct (map fst allocs) \<and>
     (\<forall>(i, c) \<in> set allocs. 0 < c \<and>
        (\<exists>l \<in> set (cs_lots s). cl_workspaceId l = ws \<and> cl_id l = i \<and> c \<le> cl_remainingCredits l))"

definition op_fresh_from :: "string \<Rightarrow> string \<Rightarrow> nat \<Rightarrow> credit_tx list \<Rightarrow> bool" where
  "op_fresh_from ws op_id index txs \<longleftrightarrow>
     (\<forall>t \<in> set (usages txs). ct_workspaceId t = ws \<and> ct_operationId t = op_id \<longrightarrow>
        (\<exists>i < index. ct_id t = op_id @ '':'' @ show_nat i))"

lemma usage_key_fresh:
  assumes "txs_ok txs" and "op_fresh_from (cc_workspaceId inp) op_id index txs"
  shows "usage_key (usage_credit_tx inp op_id index l c) \<notin> usage_key ` set (usages txs)"
proof
  assume "usage_key (usage_credit_tx inp op_id index l c) \<in> usage_key ` set (usages txs)"
  then obtain t where t: "t \<in> set (usages txs)" "ct_workspaceId t = cc_workspaceId inp"
    "ct_id t = op_id @ '':'' @ show_nat index"
    by (auto simp: usage_key_def usage_credit_tx_def)
  then obtain i where "ct_id t = ct_operationId t @ '':'' @ show_nat i"
    using assms(1) t(1) unfolding txs_ok_def by blast
  with t(3) have "ct_operationId t = op_id" using indexed_id_inj by metis
  with t assms(2) obtain j where "j < index" "ct_id t = op_id @ '':'' @ show_nat j"
    by (auto simp: op_fresh_from_def)
  with t(3) indexed_id_inj show False by (metis less_irrefl)
qed

text \<open>One debit of the loop.\<close>

lemma debit_step:
  assumes inv: "credit_inv s" and i: "i < length (cs_lots s)"
    and lot: "cl_workspaceId (cs_lots s ! i) = cc_workspaceId inp" "cl_id (cs_lots s ! i) = l"
    and c: "0 < c" and fresh: "op_fresh_from (cc_workspaceId inp) op_id index (cs_transactions s)"
  defines "s1 \<equiv> push_tx (usage_credit_tx inp op_id index l c)
                  (update_lot i (debit_lot c (cs_lots s ! i)) s)"
  shows "credit_inv s1" and "op_fresh_from (cc_workspaceId inp) op_id (Suc index) (cs_transactions s1)"
proof -
  have ok: "lots_ok s" "txs_ok (cs_transactions s)" using inv by (simp_all add: credit_inv_def)
  have "lots_ok s1"
    unfolding s1_def using lot
    by (intro lots_ok_move ok i)
      (auto simp: debit_lot_def lot_ident_def usage_credit_tx_def of_lot_def net_credits.simps)
  moreover have "txs_ok (cs_transactions s1)"
    using txs_ok_usage [OF ok(2) _ _ _ usage_key_fresh [OF ok(2) fresh]] c
    by (simp add: s1_def usage_credit_tx_def)
  ultimately show "credit_inv s1" by (simp add: credit_inv_def)
  show "op_fresh_from (cc_workspaceId inp) op_id (Suc index) (cs_transactions s1)"
    using fresh by (auto simp: op_fresh_from_def s1_def usage_credit_tx_def less_Suc_eq)
qed

lemma covered_step:
  assumes cov: "covered ws s ((l, c) # rest)" and i: "i < length (cs_lots s)"
    and lot: "cl_workspaceId (cs_lots s ! i) = ws" "cl_id (cs_lots s ! i) = l"
  shows "covered ws (push_tx t (update_lot i (debit_lot c (cs_lots s ! i)) s)) rest"
proof -
  have "\<exists>k \<in> set ((cs_lots s)[i := v]). cl_workspaceId k = ws \<and> cl_id k = l' \<and> c' \<le> cl_remainingCredits k"
    if mem: "(l', c') \<in> set rest" for l' c' v
  proof -
    have "\<exists>k \<in> set (cs_lots s). cl_workspaceId k = ws \<and> cl_id k = l' \<and> c' \<le> cl_remainingCredits k"
      using cov mem unfolding covered_def by auto
    then obtain j where j: "j < length (cs_lots s)" "cl_workspaceId (cs_lots s ! j) = ws"
      "cl_id (cs_lots s ! j) = l'" "c' \<le> cl_remainingCredits (cs_lots s ! j)"
      by (metis in_set_conv_nth)
    have "l' \<noteq> l" using cov mem by (force simp: covered_def)
    with j(3) lot(2) have "(cs_lots s)[i := v] ! j = cs_lots s ! j" by (metis nth_list_update_neq)
    with j show ?thesis by (metis length_list_update nth_mem)
  qed
  then show ?thesis using cov by (auto simp: covered_def)
qed

lemma debited_step:
  assumes cov: "covered ws s ((l, c) # rest)" and ok: "lots_ok s" and i: "i < length (cs_lots s)"
    and lot: "cl_workspaceId (cs_lots s ! i) = ws" "cl_id (cs_lots s ! i) = l"
  shows "map (debited ws rest) ((cs_lots s)[i := debit_lot c (cs_lots s ! i)]) =
    map (debited ws ((l, c) # rest)) (cs_lots s)"
proof (rule nth_equalityI)
  fix j assume "j < length (map (debited ws rest) ((cs_lots s)[i := debit_lot c (cs_lots s ! i)]))"
  then have j: "j < length (cs_lots s)" by simp
  have none: "map_of rest l = None" using cov by (auto simp: covered_def map_of_eq_None_iff)
  have uniq: "j = i" if "cl_workspaceId (cs_lots s ! j) = ws" "cl_id (cs_lots s ! j) = l"
    using ok i j lot that by (auto simp: lots_ok_def distinct_conv_nth lot_ident_def)
  show "map (debited ws rest) ((cs_lots s)[i := debit_lot c (cs_lots s ! i)]) ! j =
    map (debited ws ((l, c) # rest)) (cs_lots s) ! j"
  proof (cases "j = i")
    case True
    with i lot none show ?thesis by (simp add: debited_def debit_lot_def)
  next
    case False
    with j uniq show ?thesis by (auto simp: debited_def)
  qed
qed simp

lemma apply_allocations_run:
  assumes "credit_inv s" and "covered (cc_workspaceId inp) s allocs"
    and "op_fresh_from (cc_workspaceId inp) op_id index (cs_transactions s)"
  shows "\<exists>s'. apply_allocations inp op_id index allocs s = (Inr (usage_txs inp op_id index allocs), s') \<and>
    credit_inv s' \<and> cs_lots s' = map (debited (cc_workspaceId inp) allocs) (cs_lots s) \<and>
    cs_transactions s' = cs_transactions s @ usage_txs inp op_id index allocs"
  using assms
proof (induction allocs arbitrary: index s)
  case Nil
  moreover have "debited (cc_workspaceId inp) [] = (\<lambda>l. l)" by (simp add: debited_def fun_eq_iff)
  ultimately show ?case by simp
next
  case (Cons a rest)
  obtain l c where a: "a = (l, c)" by (cases a)
  let ?ws = "cc_workspaceId inp"
  let ?P = "\<lambda>k. cl_workspaceId k = ?ws \<and> cl_id k = l"
  have cov: "covered ?ws s ((l, c) # rest)" using Cons.prems(2) a by simp
  then have "find_index ?P (cs_lots s) \<noteq> None"
    by (auto simp: covered_def find_index_None)
  then obtain i where found: "find_index ?P (cs_lots s) = Some i" by auto
  then have i: "i < length (cs_lots s)" "cl_workspaceId (cs_lots s ! i) = ?ws"
    "cl_id (cs_lots s ! i) = l" using find_index_SomeD by fastforce+
  let ?t = "usage_credit_tx inp op_id index l c"
  let ?s1 = "push_tx ?t (update_lot i (debit_lot c (cs_lots s ! i)) s)"
  have "0 < c" using cov by (simp add: covered_def)
  then have "credit_inv ?s1" "op_fresh_from ?ws op_id (Suc index) (cs_transactions ?s1)"
    using debit_step [OF Cons.prems(1) i _ Cons.prems(3)] by blast+
  from Cons.IH [OF this(1) covered_step [OF cov i] this(2)]
  obtain s' where s': "apply_allocations inp op_id (Suc index) rest ?s1 =
      (Inr (usage_txs inp op_id (Suc index) rest), s')" "credit_inv s'"
    "cs_lots s' = map (debited ?ws rest) (cs_lots ?s1)"
    "cs_transactions s' = cs_transactions ?s1 @ usage_txs inp op_id (Suc index) rest"
    by blast
  have "lots_ok s" using Cons.prems(1) by (simp add: credit_inv_def)
  from debited_step [OF cov this i]
  have "cs_lots s' = map (debited ?ws (a # rest)) (cs_lots s)" using s'(3) a by simp
  with s' found a i(3) show ?case by (simp add: Let_def)
qed

text \<open>The allocation of a consumption is covered by the lots it was computed from.\<close>

definition active_lots :: "string \<Rightarrow> string \<Rightarrow> credit_ledger \<Rightarrow> credit_lot list" where
  "active_lots ws now s =
     filter (\<lambda>l. cl_workspaceId l = ws \<and> lot_active_at now l) (cs_lots s)"

definition drain_order :: "credit_lot list \<Rightarrow> credit_lot list" where
  "drain_order lots =
     js_sort compareCreditLotsForFefo (filter (\<lambda>l. cl_remainingCredits l > 0) lots)"

lemma drain_order_pos: "\<forall>l \<in> set (drain_order lots). 0 < cl_remainingCredits l"
  by (simp add: drain_order_def)

lemma allocate_eq:
  "number_isSafeInteger n \<Longrightarrow> 0 < int_of n \<Longrightarrow>
    allocateCreditConsumption lots n = allocate_credit_loop (int_of n) (drain_order lots)"
  by (simp add: allocateCreditConsumption_def drain_order_def)

lemma distinct_ids_active:
  "lots_ok s \<Longrightarrow> distinct (map cl_id (drain_order (active_lots ws now s)))"
  unfolding drain_order_def active_lots_def lots_ok_def distinct_map inj_on_def lot_ident_def by auto

lemma allocation_covered:
  assumes ok: "lots_ok s" and n: "0 \<le> n"
  shows "covered ws s (allocate_credit_loop n (drain_order (active_lots ws now s)))"
proof -
  let ?ls = "drain_order (active_lots ws now s)"
  have "distinct (map fst (allocate_credit_loop n ?ls))"
    using distinct_ids_active [OF ok, of ws now]
    by (simp add: credit_alloc.alloc_idents [OF n drain_order_pos] distinct_map distinct_take
        inj_on_subset [OF _ set_take_subset])
  moreover have "0 < c \<and> (\<exists>l \<in> set (cs_lots s). cl_workspaceId l = ws \<and> cl_id l = i \<and>
      c \<le> cl_remainingCredits l)"
    if "(i, c) \<in> set (allocate_credit_loop n ?ls)" for i c
    using credit_alloc.alloc_bounds [OF n drain_order_pos that]
    by (auto simp: drain_order_def active_lots_def)
  ultimately show ?thesis by (auto simp: covered_def)
qed

definition active_credits :: "string \<Rightarrow> string \<Rightarrow> credit_ledger \<Rightarrow> int" where
  "active_credits ws now s =
     sum_list (map cl_remainingCredits
       (filter (\<lambda>l. cl_remainingCredits l > 0) (active_lots ws now s)))"

lemma allocation_total:
  "0 \<le> n \<Longrightarrow> sum_list (map snd (allocate_credit_loop n (drain_order (active_lots ws now s)))) =
    min n (active_credits ws now s)"
  by (simp add: credit_alloc.alloc_sum drain_order_pos) (simp add: drain_order_def active_credits_def)

lemma consume_fresh_run:
  assumes inv: "credit_inv s" and n: "number_isSafeInteger (cc_credits inp)" "0 < int_of (cc_credits inp)"
    and fresh: "filter (is_usage_of (cc_workspaceId inp) op_id) (cs_transactions s) = []"
  defines "allocs \<equiv> allocate_credit_loop (int_of (cc_credits inp))
                      (drain_order (active_lots (cc_workspaceId inp) (cc_createdAt inp) s))"
  shows "active_credits (cc_workspaceId inp) (cc_createdAt inp) s < int_of (cc_credits inp) \<Longrightarrow>
      consume_fresh inp op_id s =
        (Inl (P1DomainError INSUFFICIENT_ENTITLEMENT ''Insufficient credits.''), s)"
    and "int_of (cc_credits inp) \<le> active_credits (cc_workspaceId inp) (cc_createdAt inp) s \<Longrightarrow>
      \<exists>s'. consume_fresh inp op_id s = (Inr (usage_txs inp op_id 0 allocs), s') \<and> credit_inv s' \<and>
        cs_lots s' = map (debited (cc_workspaceId inp) allocs) (cs_lots s) \<and>
        cs_transactions s' = cs_transactions s @ usage_txs inp op_id 0 allocs"
proof -
  have ok: "lots_ok s" using inv by (simp add: credit_inv_def)
  have n': "0 \<le> int_of (cc_credits inp)" using n(2) by simp
  have "op_fresh_from (cc_workspaceId inp) op_id 0 (cs_transactions s)"
    using fresh by (auto simp: op_fresh_from_def usages_def is_usage_of_def filter_empty_conv)
  from apply_allocations_run [OF inv allocation_covered [OF ok n'] this]
  obtain s' where s': "apply_allocations inp op_id 0 allocs s = (Inr (usage_txs inp op_id 0 allocs), s')"
    "credit_inv s'" "cs_lots s' = map (debited (cc_workspaceId inp) allocs) (cs_lots s)"
    "cs_transactions s' = cs_transactions s @ usage_txs inp op_id 0 allocs"
    unfolding allocs_def by blast
  have run: "consume_fresh inp op_id s =
      (if active_credits (cc_workspaceId inp) (cc_createdAt inp) s < int_of (cc_credits inp)
       then (Inl (P1DomainError INSUFFICIENT_ENTITLEMENT ''Insufficient credits.''), s)
       else (Inr (usage_txs inp op_id 0 allocs), s'))"
    using s'(1) allocation_total [OF n', of "cc_workspaceId inp" "cc_createdAt inp" s]
    by (auto simp: consume_fresh_def allocate_eq [OF n] active_lots_def [symmetric] allocs_def
        [symmetric] min_def)
  show "consume_fresh inp op_id s =
        (Inl (P1DomainError INSUFFICIENT_ENTITLEMENT ''Insufficient credits.''), s)"
    if "active_credits (cc_workspaceId inp) (cc_createdAt inp) s < int_of (cc_credits inp)"
    using that by (simp add: run)
  show "\<exists>s'. consume_fresh inp op_id s = (Inr (usage_txs inp op_id 0 allocs), s') \<and> credit_inv s' \<and>
        cs_lots s' = map (debited (cc_workspaceId inp) allocs) (cs_lots s) \<and>
        cs_transactions s' = cs_transactions s @ usage_txs inp op_id 0 allocs"
    if "int_of (cc_credits inp) \<le> active_credits (cc_workspaceId inp) (cc_createdAt inp) s"
    using that s'(2-4) by (simp add: run)
qed

lemma usage_txs_types: "t \<in> set (usage_txs inp op_id i allocs) \<Longrightarrow> ct_transactionType t = USAGE"
  by (induction inp op_id i allocs rule: usage_txs.induct) (auto simp: usage_credit_tx_def)

lemma refunds_append_usage_txs [simp]:
  "refunds (txs @ usage_txs inp op_id i allocs) = refunds txs"
  using usage_txs_types by (fastforce simp: refunds_def filter_empty_conv)

lemma debited_nonneg:
  assumes ok: "lots_ok s" and nn: "credit_nonneg s" and cov: "covered ws s allocs"
    and l: "l \<in> set (cs_lots s)"
  shows "0 \<le> cl_remainingCredits (debited ws allocs l)"
proof (cases "cl_workspaceId l = ws \<and> map_of allocs (cl_id l) \<noteq> None")
  case True
  then obtain c where c: "map_of allocs (cl_id l) = Some c" by auto
  then have "(cl_id l, c) \<in> set allocs" by (rule map_of_SomeD)
  then obtain k where k: "k \<in> set (cs_lots s)" "cl_workspaceId k = ws" "cl_id k = cl_id l"
    "c \<le> cl_remainingCredits k"
    using cov unfolding covered_def by auto
  with True l ok have "k = l" by (auto simp: lots_ok_def distinct_map inj_on_def lot_ident_def)
  with True c k show ?thesis by (simp add: debited_def debit_lot_def)
next
  case False
  with nn l show ?thesis by (auto simp: debited_def credit_nonneg_def)
qed

lemma expireLots_usages [simp]:
  "filter (is_usage_of ws op_id) (cs_transactions (snd (expireLots inp s))) =
    filter (is_usage_of ws op_id) (cs_transactions s)"
proof -
  have "distinct (expire_refs_of inp s)" "\<forall>i \<in> set (expire_refs_of inp s). i < length (cs_lots s)"
    by (auto simp: expire_refs_of_props)
  from expire_refs_closed [OF this] show ?thesis
    by (auto simp: expireLots_run filter_empty_conv is_usage_of_def expire_credit_tx_def)
qed

text \<open>All outcomes of a consumption.\<close>

lemma consume_result:
  assumes inv: "credit_inv s" and run: "consume inp s = (r, s')"
  obtains (error) e where "r = Inl e" "s' = s"
  | (replay) op_id where "normalizeCreditConsumeIdempotencyKey (cc_transactionId inp) = Inr op_id"
      "r = Inr (filter (is_usage_of (cc_workspaceId inp) op_id) (cs_transactions s))" "s' = s"
      "sum_list (map ct_credits (filter (is_usage_of (cc_workspaceId inp) op_id) (cs_transactions s))) =
         int_of (cc_credits inp)"
  | (insufficient) "r = Inl (P1DomainError INSUFFICIENT_ENTITLEMENT ''Insufficient credits.'')"
      "s' = snd (expireLots (consume_expire_input inp) s)"
      "active_credits (cc_workspaceId inp) (cc_createdAt inp) s' < int_of (cc_credits inp)"
  | (fresh) op_id s1 allocs where
      "normalizeCreditConsumeIdempotencyKey (cc_transactionId inp) = Inr op_id"
      "filter (is_usage_of (cc_workspaceId inp) op_id) (cs_transactions s) = []"
      "0 < int_of (cc_credits inp)"
      "s1 = snd (expireLots (consume_expire_input inp) s)"
      "allocs = allocate_credit_loop (int_of (cc_credits inp))
                  (drain_order (active_lots (cc_workspaceId inp) (cc_createdAt inp) s1))"
      "int_of (cc_credits inp) \<le> active_credits (cc_workspaceId inp) (cc_createdAt inp) s1"
      "covered (cc_workspaceId inp) s1 allocs"
      "r = Inr (usage_txs inp op_id 0 allocs)"
      "credit_inv s'"
      "cs_lots s' = map (debited (cc_workspaceId inp) allocs) (cs_lots s1)"
      "cs_transactions s' = cs_transactions s1 @ usage_txs inp op_id 0 allocs"
proof -
  let ?ok = "number_isSafeInteger (cc_credits inp) \<and> 0 < int_of (cc_credits inp)"
  let ?ts = "valid_timestamp (cc_createdAt inp)"
  let ?key = "normalizeCreditConsumeIdempotencyKey (cc_transactionId inp)"
  consider "\<not> (?ok \<and> ?ts)" | e where "?key = Inl e" | op_id where "?ok" "?ts" "?key = Inr op_id"
    by (cases ?key) auto
  then show thesis
  proof cases
    case 1
    with run error show thesis
      by (auto simp: consume_def assertCredits_def assert_timestamp_def split: if_splits)
  next
    case 2
    with run error show thesis
      by (auto simp: consume_def assertCredits_def assert_timestamp_def split: if_splits)
  next
    case (3 op_id)
    let ?replay = "filter (is_usage_of (cc_workspaceId inp) op_id) (cs_transactions s)"
    let ?s1 = "snd (expireLots (consume_expire_input inp) s)"
    show thesis
    proof (cases "?replay = []")
      case False
      have "(r, s') = (if sum_list (map ct_credits ?replay) = int_of (cc_credits inp) then (Inr ?replay, s)
          else (Inl (P1DomainError IDEMPOTENCY_CONFLICT
                  ''Credit usage operation was replayed with different facts.''), s))"
        using 3 False unfolding run [symmetric]
        by (simp add: consume_def assertCredits_def assert_timestamp_def Let_def)
      with error replay [OF 3(3)] show thesis by (metis prod.inject)
    next
      case True
      have "\<exists>ts s1. expireLots (consume_expire_input inp) s = (Inr ts, s1)"
        using 3(2) by (simp add: expireLots_run consume_expire_input_def)
      then have r: "(r, s') = consume_fresh inp op_id ?s1"
        using 3 True unfolding run [symmetric]
        by (auto simp: consume_def assertCredits_def assert_timestamp_def Let_def op_bind_def)
      have inv1: "credit_inv ?s1" using expireLots_keeps(1) [OF inv] .
      have fresh1: "filter (is_usage_of (cc_workspaceId inp) op_id) (cs_transactions ?s1) = []"
        using True by simp
      note cf = consume_fresh_run [OF inv1 conjunct1 [OF 3(1)] conjunct2 [OF 3(1)] fresh1]
      show thesis
      proof (cases "active_credits (cc_workspaceId inp) (cc_createdAt inp) ?s1 < int_of (cc_credits inp)")
        case True
        with cf(1) [OF True] r have "r = Inl (P1DomainError INSUFFICIENT_ENTITLEMENT ''Insufficient credits.'')"
          "s' = ?s1" by auto
        with True show thesis by (intro insufficient) auto
      next
        case False
        then have n: "int_of (cc_credits inp) \<le> active_credits (cc_workspaceId inp) (cc_createdAt inp) ?s1"
          by simp
        have cov: "covered (cc_workspaceId inp) ?s1 (allocate_credit_loop (int_of (cc_credits inp))
            (drain_order (active_lots (cc_workspaceId inp) (cc_createdAt inp) ?s1)))"
          using 3(1) inv1 by (intro allocation_covered) (auto simp: credit_inv_def)
        show thesis
          using cf(2) [OF n] r 3(1) n cov by (intro fresh [OF 3(3) True _ refl refl]) auto
      qed
    qed
  qed
qed

lemma consume_keeps:
  shows "credit_inv s \<Longrightarrow> credit_inv (snd (consume inp s))"
    and "credit_inv s \<Longrightarrow> credit_nonneg s \<Longrightarrow> credit_nonneg (snd (consume inp s))"
proof -
  obtain r s' where run: "consume inp s = (r, s')" by (cases "consume inp s")
  show "credit_inv (snd (consume inp s))" if "credit_inv s"
    using that run by (cases rule: consume_result) (auto simp: run that intro: expireLots_keeps)
  show "credit_nonneg (snd (consume inp s))" if inv: "credit_inv s" and nn: "credit_nonneg s"
    using inv run
  proof (cases rule: consume_result)
    case (fresh op_id s1 allocs)
    have s1: "lots_ok s1" "credit_nonneg s1"
      using expireLots_keeps inv nn fresh(4) by (simp_all add: credit_inv_def)
    have "0 \<le> cl_remainingCredits l" if "l \<in> set (cs_lots s')" for l
      using that debited_nonneg [OF s1 fresh(7)] by (auto simp: fresh(10))
    then show ?thesis using s1(2) run by (simp add: credit_nonneg_def fresh(11))
  qed (use nn in \<open>auto simp: run intro: expireLots_keeps\<close>)
qed

subsection \<open>Refund\<close>

text \<open>
  A request that cannot drive the loop below zero: a full refund, or the first refund of its
  operation. The loop trusts the caller for the rest (\<open>refund_below_zero\<close> below).
\<close>

definition first_refund :: "refund_credits_input \<Rightarrow> credit_ledger \<Rightarrow> bool" where
  "first_refund inp s \<longleftrightarrow> rc_credits inp = None \<or>
     (\<forall>u \<in> set (usages (cs_transactions s)).
        ct_workspaceId u = rc_workspaceId inp \<and>
        normalizeCreditConsumeIdempotencyKey (rc_usageOperationId inp) = Inr (ct_operationId u) \<longrightarrow>
        unrefunded (cs_transactions s) u)"

lemma find_refund_None_iff:
  "find (is_refund_of ws (ct_id u)) txs = None \<longleftrightarrow> unrefunded txs u" if "ct_workspaceId u = ws"
  using that
  by (auto simp: find_None_iff is_refund_of_def unrefunded_def refunds_def refund_key_def image_iff)
    metis

lemma refund_one_run:
  assumes inv: "credit_inv s" and u: "u \<in> set (usages (cs_transactions s))"
      "unrefunded (cs_transactions s) u" "ct_workspaceId u = rc_workspaceId inp"
    and c: "c \<le> ct_credits u"
  shows "\<exists>active s'. refund_one inp index u c s =
      (Inr (refund_credit_tx inp index u (ct_lotId u) c active), s') \<and> credit_inv s' \<and>
      cs_transactions s' = cs_transactions s @ [refund_credit_tx inp index u (ct_lotId u) c active] \<and>
      (credit_nonneg s \<and> 0 \<le> c \<longrightarrow> credit_nonneg s')"
proof -
  have ok: "lots_ok s" "txs_ok (cs_transactions s)" using inv by (simp_all add: credit_inv_def)
  let ?ws = "rc_workspaceId inp"
  let ?P = "\<lambda>l. cl_workspaceId l = ?ws \<and> cl_id l = ct_lotId u"
  have "(?ws, ct_lotId u) \<in> lot_ident ` set (cs_lots s)"
    using ok(1) u(1,3) by (auto simp: lots_ok_def usages_def)
  then have "find_index ?P (cs_lots s) \<noteq> None"
    by (auto simp: find_index_None lot_ident_def)
  then obtain i where found: "find_index ?P (cs_lots s) = Some i" by auto
  then have i: "i < length (cs_lots s)" "cl_workspaceId (cs_lots s ! i) = ?ws"
    "cl_id (cs_lots s ! i) = ct_lotId u" using find_index_SomeD by fastforce+
  let ?l = "cs_lots s ! i"
  define active where "active = (\<not> lot_explicitly_expired ?ws (cl_id ?l) s \<and>
                         lot_active_at (rc_createdAt inp) ?l)"
  let ?t = "refund_credit_tx inp index u (ct_lotId u) c active"
  define s1 where "s1 = (if active then update_lot i (credit_lot_back c ?l) s else s)"
  have s1_txs: "cs_transactions s1 = cs_transactions s" by (simp add: s1_def)
  have fits: "cl_remainingCredits ?l + c \<le> cl_originalCredits ?l"
    using refund_fits [OF inv i(1) u(1,2) _ c] i u(3) by (simp add: of_lot_def)
  have tx: "net_credits ?t = (if active then c else 0)" "ct_transactionType ?t = REFUND"
    by (simp_all add: refund_credit_tx_def net_credits.simps)
  have lots: "lots_ok (push_tx ?t s1)"
  proof (cases active)
    case True
    have "lots_ok (push_tx ?t (update_lot i (credit_lot_back c ?l) s))"
      using i tx True fits
      by (intro lots_ok_move ok(1)) (auto simp: credit_lot_back_def lot_ident_def of_lot_def
          refund_credit_tx_def net_credits.simps)
    with True show ?thesis by (simp add: s1_def)
  next
    case False
    have "lots_ok (push_tx ?t s)"
      using tx False ok(1) u(1,3)
      by (intro lots_ok_push_silent) (auto simp: lots_ok_def refund_credit_tx_def usages_def)
    with False show ?thesis by (simp add: s1_def)
  qed
  have "refund_key ?t \<notin> refund_key ` set (refunds (cs_transactions s))"
    using u(2,3) by (simp add: unrefunded_def refund_key_def refund_credit_tx_def)
  then have txs: "txs_ok (cs_transactions s @ [?t])"
    using u(1,3) c by (intro txs_ok_refund [OF ok(2)]) (auto simp: refund_credit_tx_def)
  have "credit_nonneg (push_tx ?t s1)" if "credit_nonneg s" "0 \<le> c"
    using that i(1) fits set_update_subset_insert [of "cs_lots s" i] nth_mem [OF i(1)]
    by (fastforce simp: s1_def credit_nonneg_def refund_credit_tx_def credit_lot_back_def)
  moreover have "refund_one inp index u c s = (Inr ?t, push_tx ?t s1)"
    using found i(3) by (simp add: refund_one_def Let_def active_def s1_def)
  ultimately show ?thesis
    using lots txs by (intro exI [of _ active] exI [of _ "push_tx ?t s1"]) (simp add: credit_inv_def s1_txs)
qed

text \<open>The usages the loop may still visit.\<close>

definition refundable :: "string \<Rightarrow> credit_tx list \<Rightarrow> credit_tx list \<Rightarrow> bool" where
  "refundable ws us txs \<longleftrightarrow> distinct (map usage_key us) \<and>
     (\<forall>u \<in> set us. u \<in> set (usages txs) \<and> ct_workspaceId u = ws)"

lemma refundable_ConsD:
  "refundable ws (u # us) txs \<Longrightarrow>
     u \<in> set (usages txs) \<and> ct_workspaceId u = ws \<and> refundable ws us txs"
  by (simp add: refundable_def)

lemma refundable_snoc_refund:
  "refundable ws us txs \<Longrightarrow> ct_transactionType t = REFUND \<Longrightarrow> refundable ws us (txs @ [t])"
  by (simp add: refundable_def)

lemma unrefunded_snoc:
  "unrefunded (txs @ [refund_credit_tx inp i u l c a]) v \<longleftrightarrow>
    unrefunded txs v \<and> (ct_workspaceId v, ct_id v) \<noteq> (rc_workspaceId inp, ct_id u)"
  by (auto simp: unrefunded_def refund_key_def refund_credit_tx_def)

lemma refund_loop_run:
  assumes "credit_inv s" and "refundable (rc_workspaceId inp) us (cs_transactions s)"
  shows "\<exists>ts rem s'. refund_loop inp index remaining us s = (Inr (ts, rem), s') \<and> credit_inv s' \<and>
     usages (cs_transactions s') = usages (cs_transactions s) \<and>
     ((remaining = None \<or> (\<exists>r \<ge> 0. remaining = Some r) \<and>
         (\<forall>u \<in> set us. unrefunded (cs_transactions s) u)) \<longrightarrow>
      credit_nonneg s \<longrightarrow> credit_nonneg s') \<and>
     ((\<forall>u \<in> set us. unrefunded (cs_transactions s) u) \<longrightarrow> (\<forall>r. remaining = Some r \<longrightarrow> 0 \<le> r) \<longrightarrow>
        sum_list (map ct_credits ts) = (case remaining of None \<Rightarrow> sum_list (map ct_credits us)
                                          | Some r \<Rightarrow> min r (sum_list (map ct_credits us))) \<and>
        rem = map_option (\<lambda>r. r - min r (sum_list (map ct_credits us))) remaining)"
  using assms
proof (induction us arbitrary: index remaining s)
  case Nil
  then show ?case by (cases remaining) auto
next
  case (Cons u us)
  let ?ws = "rc_workspaceId inp"
  have u: "u \<in> set (usages (cs_transactions s))" "ct_workspaceId u = ?ws"
    and us: "refundable ?ws us (cs_transactions s)"
    using refundable_ConsD [OF Cons.prems(2)] by auto
  have "\<forall>v \<in> set (u # us). 0 < ct_credits v"
    using Cons.prems by (auto simp: refundable_def credit_inv_def txs_ok_def)
  then have pos: "0 < ct_credits u" "0 \<le> sum_list (map ct_credits us)"
    by (auto intro!: sum_list_nonneg simp: less_imp_le)
  consider (stop) "remaining = Some 0"
    | (old) t where "remaining \<noteq> Some 0" "find (is_refund_of ?ws (ct_id u)) (cs_transactions s) = Some t"
    | (new) "remaining \<noteq> Some 0" "find (is_refund_of ?ws (ct_id u)) (cs_transactions s) = None"
    by fastforce
  then show ?case
  proof cases
    case stop
    with Cons.prems(1) pos show ?thesis by simp
  next
    case old
    then have seen: "\<not> unrefunded (cs_transactions s) u"
      using find_refund_None_iff [OF u(2)] by (metis option.distinct(1))
    from Cons.IH [OF Cons.prems(1) us, of "Suc index" "map_option (\<lambda>r. r - ct_credits t) remaining"]
    obtain ts rem s' where "refund_loop inp (Suc index)
        (map_option (\<lambda>r. r - ct_credits t) remaining) us s = (Inr (ts, rem), s')" "credit_inv s'"
      "usages (cs_transactions s') = usages (cs_transactions s)"
      "remaining = None \<Longrightarrow> credit_nonneg s \<Longrightarrow> credit_nonneg s'"
      by auto
    with old seen show ?thesis by auto
  next
    case new
    define c where "c = (case remaining of None \<Rightarrow> ct_credits u | Some r \<Rightarrow> min (ct_credits u) r)"
    have un: "unrefunded (cs_transactions s) u" using new find_refund_None_iff [OF u(2)] by simp
    have "c \<le> ct_credits u" by (simp add: c_def split: option.split)
    from refund_one_run [OF Cons.prems(1) u(1) un u(2) this]
    obtain a s1 where s1: "refund_one inp index u c s =
        (Inr (refund_credit_tx inp index u (ct_lotId u) c a), s1)" "credit_inv s1"
      "cs_transactions s1 = cs_transactions s @ [refund_credit_tx inp index u (ct_lotId u) c a]"
      "credit_nonneg s \<Longrightarrow> 0 \<le> c \<Longrightarrow> credit_nonneg s1" by blast
    let ?t = "refund_credit_tx inp index u (ct_lotId u) c a"
    have t: "ct_transactionType ?t = REFUND" "ct_credits ?t = c" by (simp_all add: refund_credit_tx_def)
    have us1: "refundable ?ws us (cs_transactions s1)"
      using us t by (simp add: s1(3) refundable_snoc_refund)
    have keep: "unrefunded (cs_transactions s1) v" if "v \<in> set us" "unrefunded (cs_transactions s) v" for v
      using that Cons.prems(2) by (auto simp: s1(3) unrefunded_snoc refundable_def usage_key_def rev_image_eqI)
    from Cons.IH [OF s1(2) us1, of "Suc index" "map_option (\<lambda>r. r - c) remaining"]
    obtain ts rem s' where s': "refund_loop inp (Suc index) (map_option (\<lambda>r. r - c) remaining) us s1 =
        (Inr (ts, rem), s')" "credit_inv s'" "usages (cs_transactions s') = usages (cs_transactions s1)"
      "map_option (\<lambda>r. r - c) remaining = None \<or>
         (\<exists>r \<ge> 0. map_option (\<lambda>r. r - c) remaining = Some r) \<and>
         (\<forall>u \<in> set us. unrefunded (cs_transactions s1) u) \<longrightarrow>
       credit_nonneg s1 \<longrightarrow> credit_nonneg s'"
      "(\<forall>u \<in> set us. unrefunded (cs_transactions s1) u) \<longrightarrow>
       (\<forall>r. map_option (\<lambda>r. r - c) remaining = Some r \<longrightarrow> 0 \<le> r) \<longrightarrow>
        sum_list (map ct_credits ts) =
          (case map_option (\<lambda>r. r - c) remaining of None \<Rightarrow> sum_list (map ct_credits us)
             | Some r \<Rightarrow> min r (sum_list (map ct_credits us))) \<and>
        rem = map_option (\<lambda>r. r - min r (sum_list (map ct_credits us)))
                (map_option (\<lambda>r. r - c) remaining)"
      by (elim exE conjE)
    have run: "refund_loop inp index remaining (u # us) s = (Inr (?t # ts, rem), s')"
      using new s1(1) s'(1) by (simp add: c_def)
    have "usages (cs_transactions s') = usages (cs_transactions s)"
      using s'(3) t by (simp add: s1(3))
    moreover have "credit_nonneg s'" if "remaining = None \<or> (\<exists>r \<ge> 0. remaining = Some r) \<and>
        (\<forall>u \<in> set (u # us). unrefunded (cs_transactions s) u)" "credit_nonneg s"
      using that pos keep by (intro s'(4) [rule_format] s1(4)) (auto simp: c_def)
    moreover have "sum_list (map ct_credits (?t # ts)) =
          (case remaining of None \<Rightarrow> sum_list (map ct_credits (u # us))
             | Some r \<Rightarrow> min r (sum_list (map ct_credits (u # us)))) \<and>
        rem = map_option (\<lambda>r. r - min r (sum_list (map ct_credits (u # us)))) remaining"
      if "\<forall>u \<in> set (u # us). unrefunded (cs_transactions s) u" "\<forall>r. remaining = Some r \<longrightarrow> 0 \<le> r"
    proof -
      have "\<forall>u \<in> set us. unrefunded (cs_transactions s1) u" using that keep by auto
      moreover have "\<forall>r. map_option (\<lambda>r. r - c) remaining = Some r \<longrightarrow> 0 \<le> r"
        by (auto simp: c_def)
      ultimately show ?thesis
        using s'(5) pos t by (cases remaining) (auto simp: c_def min_def)
    qed
    ultimately show ?thesis using run s'(2) by blast
  qed
qed

lemma usages_filter_usage_of:
  "filter (is_usage_of ws op_id) txs = filter (is_usage_of ws op_id) (usages txs)"
  by (auto simp: usages_def is_usage_of_def intro: filter_cong)

lemma refundable_usages:
  assumes "credit_inv s"
  shows "refundable ws (filter (is_usage_of ws op_id) (cs_transactions s)) (cs_transactions s)"
proof -
  have "distinct (map usage_key (usages (cs_transactions s)))"
    using assms by (simp add: credit_inv_def txs_ok_def)
  then show ?thesis
    unfolding usages_filter_usage_of [of ws op_id "cs_transactions s"]
    by (auto simp: refundable_def distinct_map is_usage_of_def intro: inj_on_subset)
qed

lemma refundUsageOperation_run:
  assumes inv: "credit_inv s"
  shows "credit_inv (snd (refundUsageOperation inp s))"
    and "credit_nonneg s \<Longrightarrow> first_refund inp s \<Longrightarrow> credit_nonneg (snd (refundUsageOperation inp s))"
    and "usages (cs_transactions (snd (refundUsageOperation inp s))) = usages (cs_transactions s)"
proof -
  let ?run = "refundUsageOperation inp s"
  let ?key = "normalizeCreditConsumeIdempotencyKey (rc_usageOperationId inp)"
  let ?goal = "credit_inv (snd ?run) \<and> (credit_nonneg s \<longrightarrow> first_refund inp s \<longrightarrow> credit_nonneg (snd ?run)) \<and>
    usages (cs_transactions (snd ?run)) = usages (cs_transactions s)"
  consider "snd ?run = s"
    | op_id where "?key = Inr op_id" "valid_timestamp (rc_createdAt inp)"
        "assert_optional_credits (rc_credits inp) = Inr ()"
    by (cases "assert_optional_credits (rc_credits inp)"; cases ?key;
        cases "valid_timestamp (rc_createdAt inp)")
      (auto simp: refundUsageOperation_def assert_timestamp_def)
  then have ?goal
  proof cases
    case 1
    with inv show ?thesis by simp
  next
    case (2 op_id)
    let ?us = "filter (is_usage_of (rc_workspaceId inp) op_id) (cs_transactions s)"
    have us: "refundable (rc_workspaceId inp) ?us (cs_transactions s)"
      by (rule refundable_usages [OF inv])
    have rem: "\<exists>r \<ge> 0. map_option int_of (rc_credits inp) = Some r" if "rc_credits inp \<noteq> None"
      using 2(3) that by (auto simp: assert_optional_credits_def assertCredits_def)
    have un: "rc_credits inp = None \<or> (\<forall>u \<in> set ?us. unrefunded (cs_transactions s) u)"
      if "first_refund inp s"
      using that 2(1) by (auto simp: first_refund_def is_usage_of_def usages_def)
    from refund_loop_run [OF inv us, of 0 "map_option int_of (rc_credits inp)"]
    obtain ts rem s' where s': "refund_loop inp 0 (map_option int_of (rc_credits inp)) ?us s =
        (Inr (ts, rem), s')" "credit_inv s'" "usages (cs_transactions s') = usages (cs_transactions s)"
      "(map_option int_of (rc_credits inp) = None \<or>
         (\<exists>r \<ge> 0. map_option int_of (rc_credits inp) = Some r) \<and>
         (\<forall>u \<in> set ?us. unrefunded (cs_transactions s) u)) \<longrightarrow> credit_nonneg s \<longrightarrow> credit_nonneg s'"
      by (elim exE conjE)
    have "snd ?run = s'"
      using 2 s'(1) by (simp add: refundUsageOperation_def assert_timestamp_def Let_def)
    then show ?thesis using s'(2-4) rem un by auto
  qed
  then show "credit_inv (snd ?run)"
    and "credit_nonneg s \<Longrightarrow> first_refund inp s \<Longrightarrow> credit_nonneg (snd ?run)"
    and "usages (cs_transactions (snd ?run)) = usages (cs_transactions s)"
    by blast+
qed

section \<open>Runs of the ledger\<close>

text \<open>
  One call of a method of the ledger, whatever it returns; \<open>allowed\<close> restricts the refunds the
  callers ask for.
\<close>

inductive credit_step ::
    "(refund_credits_input \<Rightarrow> credit_ledger \<Rightarrow> bool) \<Rightarrow> credit_ledger \<Rightarrow> credit_ledger \<Rightarrow> bool"
  for allowed where
  step_grant: "grant inp s = (r, s') \<Longrightarrow> credit_step allowed s s'"
| step_consume: "consume inp s = (r, s') \<Longrightarrow> credit_step allowed s s'"
| step_refund: "refundUsageOperation inp s = (r, s') \<Longrightarrow> allowed inp s \<Longrightarrow> credit_step allowed s s'"
| step_expire: "expireLots inp s = (r, s') \<Longrightarrow> credit_step allowed s s'"
| step_expire_subscription: "expireSubscriptionLots inp s = (r, s') \<Longrightarrow> credit_step allowed s s'"

inductive_cases credit_stepE: "credit_step allowed s s'"

inductive credit_run ::
    "(refund_credits_input \<Rightarrow> credit_ledger \<Rightarrow> bool) \<Rightarrow> credit_ledger \<Rightarrow> credit_ledger \<Rightarrow> bool"
  for allowed where
  run_refl: "credit_run allowed s s"
| run_step: "credit_run allowed s s1 \<Longrightarrow> credit_step allowed s1 s2 \<Longrightarrow> credit_run allowed s s2"

definition any_refund :: "refund_credits_input \<Rightarrow> credit_ledger \<Rightarrow> bool" where
  "any_refund inp s = True"

lemma credit_step_keeps_inv: "credit_step allowed s s' \<Longrightarrow> credit_inv s \<Longrightarrow> credit_inv s'"
  by (elim credit_stepE)
    (metis grant_keeps_inv consume_keeps(1) refundUsageOperation_run(1) expireLots_keeps(1)
      expireSubscriptionLots_keeps(1) snd_conv)+

lemma credit_step_keeps_nonneg:
  "credit_step first_refund s s' \<Longrightarrow> credit_inv s \<Longrightarrow> credit_nonneg s \<Longrightarrow> credit_nonneg s'"
  by (elim credit_stepE)
    (metis grant_keeps_nonneg consume_keeps(2) refundUsageOperation_run(2) expireLots_keeps(2)
      expireSubscriptionLots_keeps(2) snd_conv)+

lemma credit_run_keeps_inv: "credit_run allowed s s' \<Longrightarrow> credit_inv s \<Longrightarrow> credit_inv s'"
  by (induction rule: credit_run.induct) (auto intro: credit_step_keeps_inv)

lemma credit_run_inv: "credit_run allowed empty_credit_ledger s \<Longrightarrow> credit_inv s"
  using credit_run_keeps_inv credit_inv_empty by blast

lemma credit_run_nonneg:
  assumes "credit_run first_refund empty_credit_ledger s"
  shows "credit_nonneg s"
proof -
  have "credit_inv s' \<longrightarrow> credit_nonneg s' \<longrightarrow> credit_nonneg s" if "credit_run first_refund s' s" for s'
    using that
    by (induction rule: credit_run.induct) (auto intro: credit_step_keeps_nonneg credit_run_keeps_inv)
  with assms credit_inv_empty credit_nonneg_empty show ?thesis by blast
qed

section \<open>Conservation\<close>

definition ws_total :: "credit_tx list \<Rightarrow> string \<Rightarrow> int" where
  "ws_total txs ws = sum_list (map net_credits (filter (\<lambda>t. ct_workspaceId t = ws) txs))"

lemma remaining_total:
  assumes ok: "lots_ok s"
  shows "sum_list (map cl_remainingCredits (listLots s ws)) = ws_total (cs_transactions s) ws"
proof -
  let ?ls = "listLots s ws" and ?ts = "filter (\<lambda>t. ct_workspaceId t = ws) (cs_transactions s)"
  have "map cl_remainingCredits ?ls =
      map (\<lambda>l. sum_list (map net_credits (filter (\<lambda>t. (ct_workspaceId t, ct_lotId t) = lot_ident l) ?ts))) ?ls"
  proof (rule map_cong [OF refl])
    fix l assume l: "l \<in> set ?ls"
    then have "filter (of_lot (cl_workspaceId l) (cl_id l)) (cs_transactions s) =
        filter (\<lambda>t. (ct_workspaceId t, ct_lotId t) = lot_ident l) ?ts"
      by (auto simp: of_lot_def lot_ident_def listLots_def intro!: filter_cong)
    with ok l show "cl_remainingCredits l = sum_list (map net_credits
        (filter (\<lambda>t. (ct_workspaceId t, ct_lotId t) = lot_ident l) ?ts))"
      by (auto simp: lots_ok_def lot_consistent_def lot_net_def listLots_def)
  qed
  then have "sum_list (map cl_remainingCredits ?ls) = sum_list (map (\<lambda>l. sum_list (map net_credits
      (filter (\<lambda>t. (ct_workspaceId t, ct_lotId t) = lot_ident l) ?ts))) ?ls)"
    by (rule arg_cong)
  moreover have "distinct (map lot_ident ?ls)"
    using ok by (auto simp: lots_ok_def listLots_def distinct_map intro: inj_on_subset)
  moreover have "\<forall>t \<in> set ?ts. (ct_workspaceId t, ct_lotId t) \<in> lot_ident ` set ?ls"
    using ok by (fastforce simp: lots_ok_def listLots_def lot_ident_def)
  ultimately show ?thesis
    unfolding ws_total_def by (simp only: sum_list_grouped)
qed

lemma ws_total_split:
  "ws_total txs ws =
    (let ts = filter (\<lambda>t. ct_workspaceId t = ws) txs in
     total_credits is_grant ts - total_credits (\<lambda>t. t = USAGE) ts +
     sum_list (map ct_credits (filter (\<lambda>t. ct_transactionType t = REFUND \<and> ct_credited t) ts)) -
     total_credits (\<lambda>t. t = EXPIRE) ts)"
  unfolding ws_total_def total_credits_def Let_def
  by (induction txs) (auto simp: net_credits.simps split: lot_tx_type.splits)

lemma active_iff_not_expired:
  "lot_dates_ok l \<Longrightarrow> date_parse asOf \<noteq> None \<Longrightarrow> lot_active_at asOf l \<longleftrightarrow> \<not> lot_expired_at asOf l"
  by (auto simp: lot_active_at_def lot_expired_at_def lot_dates_ok_def dates_ok_def date_le_iff
      date_lt_iff split: option.splits)

text \<open>What the overdrawn lots of a workspace lack; only a later partial refund leaves such a lot.\<close>

definition overdraft :: "(credit_lot \<Rightarrow> bool) \<Rightarrow> string \<Rightarrow> credit_ledger \<Rightarrow> int" where
  "overdraft P ws s =
     sum_list (map (\<lambda>l. - cl_remainingCredits l)
       (filter (\<lambda>l. cl_remainingCredits l < 0 \<and> P l) (listLots s ws)))"

lemma overdraft_nonneg: "0 \<le> overdraft P ws s"
  unfolding overdraft_def by (rule sum_list_nonneg) auto

lemma overdraft_none: "credit_nonneg s \<Longrightarrow> overdraft P ws s = 0"
proof -
  assume "credit_nonneg s"
  then have "filter (\<lambda>l. cl_remainingCredits l < 0 \<and> P l) (listLots s ws) = []"
    by (fastforce simp: credit_nonneg_def listLots_def filter_empty_conv)
  then show ?thesis by (simp only: overdraft_def list.map sum_list.Nil)
qed

lemma remaining_by_expiry:
  assumes dates: "\<forall>l \<in> set ls. lot_dates_ok l" and asOf: "date_parse asOf \<noteq> None"
  shows "sum_list (map cl_remainingCredits ls) =
    sum_list (map cl_remainingCredits (filter (lot_active_at asOf) ls)) +
    sum_list (map cl_remainingCredits
      (filter (\<lambda>l. 0 < cl_remainingCredits l \<and> lot_expired_at asOf l) ls)) -
    sum_list (map (\<lambda>l. - cl_remainingCredits l)
      (filter (\<lambda>l. cl_remainingCredits l < 0 \<and> lot_expired_at asOf l) ls))"
  using dates
proof (induction ls)
  case Nil
  then show ?case by simp
next
  case (Cons l ls)
  then have "lot_active_at asOf l \<longleftrightarrow> \<not> lot_expired_at asOf l"
    using active_iff_not_expired [OF _ asOf] by simp
  with Cons show ?case by auto
qed

lemma balance_conserved:
  fixes ws :: string
  assumes inv: "credit_inv s" and asOf: "date_parse asOf \<noteq> None"
  defines "b \<equiv> project s ws asOf"
  shows "cb_availableCredits b =
      cb_grantedCredits b - cb_usedCredits b + cb_refundedCredits b - cb_expiredCredits b +
      overdraft (lot_expired_at asOf) ws s"
proof -
  have ok: "lots_ok s" using inv by (simp add: credit_inv_def)
  have dates: "\<forall>l \<in> set (listLots s ws). lot_dates_ok l"
    using ok by (auto simp: listLots_def lots_ok_def lot_consistent_def)
  show ?thesis
    using remaining_total [OF ok, of ws] remaining_by_expiry [OF dates asOf]
    by (simp add: b_def project_def readBalanceSnapshot_def projectCreditBalance_def Let_def
        ws_total_split listTransactions_def overdraft_def)
qed

lemma remaining_le_original:
  assumes inv: "credit_inv s" and l: "l \<in> set (cs_lots s)"
  shows "cl_remainingCredits l \<le> cl_originalCredits l"
proof -
  have ok: "lots_ok s" "txs_ok (cs_transactions s)" using inv by (simp_all add: credit_inv_def)
  let ?ws = "cl_workspaceId l" and ?i = "cl_id l" and ?txs = "cs_transactions s"
  have "lot_refunded ?txs ?ws ?i \<le> lot_used ?txs ?ws ?i"
    using lot_refunded_le_used [OF ok(2), of "\<lambda>_. True"] by (simp add: lot_used_def)
  then show ?thesis
    using ok(1) l lot_expiries_nonneg [OF ok(2), of ?ws ?i]
    by (auto simp: lots_ok_def lot_consistent_def lot_net_split)
qed

section \<open>Exactly once\<close>

lemma filter_usage_txs:
  "filter (is_usage_of ws op) (usage_txs inp op_id i allocs) =
    (if ws = cc_workspaceId inp \<and> op = op_id then usage_txs inp op_id i allocs else [])"
  by (induction inp op_id i allocs rule: usage_txs.induct)
    (auto simp: usage_credit_tx_def is_usage_of_def)

lemma sum_usage_txs: "sum_list (map ct_credits (usage_txs inp op_id i allocs)) = sum_list (map snd allocs)"
  by (induction inp op_id i allocs rule: usage_txs.induct) (auto simp: usage_credit_tx_def)

lemma lots_usage_txs: "map ct_lotId (usage_txs inp op_id i allocs) = map fst allocs"
  by (induction inp op_id i allocs rule: usage_txs.induct) (auto simp: usage_credit_tx_def)

lemma length_usage_txs [simp]: "length (usage_txs inp op_id i allocs) = length allocs"
  by (induction inp op_id i allocs rule: usage_txs.induct) auto

text \<open>A method that records no usage of the operation.\<close>

lemma expire_refs_usages:
  assumes "distinct is" "\<forall>i \<in> set is. i < length (cs_lots s)"
    and "\<And>l. ct_transactionType (mk l) = EXPIRE"
  shows "usages (cs_transactions (snd (expire_refs mk is s))) = usages (cs_transactions s)"
  using expire_refs_closed [OF assms(1,2), of mk] assms(3)
  by (simp add: usages_def filter_empty_conv)

lemma credit_step_usages:
  assumes step: "credit_step allowed s s'" and inv: "credit_inv s"
    and some: "filter (is_usage_of ws op) (cs_transactions s) \<noteq> []"
  shows "filter (is_usage_of ws op) (cs_transactions s') = filter (is_usage_of ws op) (cs_transactions s)"
  using step
proof (cases rule: credit_step.cases)
  case (step_grant inp r)
  then show ?thesis
    by (cases rule: grant_result) (auto simp: is_usage_of_def grant_credit_tx_def)
next
  case (step_consume inp r)
  show ?thesis
    using inv step_consume
  proof (cases rule: consume_result)
    case (fresh op_id s1 allocs)
    then show ?thesis using some by (auto simp: filter_usage_txs)
  qed auto
next
  case (step_refund inp r)
  then show ?thesis
    using refundUsageOperation_run(3) [OF inv, of inp] by (metis snd_conv usages_filter_usage_of)
next
  case (step_expire inp r)
  then show ?thesis using expireLots_usages [of ws op inp s] by simp
next
  case (step_expire_subscription inp r)
  then have "s' = snd (expireSubscriptionLots inp s)" by simp
  then have "usages (cs_transactions s') = usages (cs_transactions s)"
    unfolding expireSubscriptionLots_def Let_def split_def snd_conv
    by (simp add: expire_refs_usages set_indices_where expire_credit_tx_def)
  then show ?thesis by (metis usages_filter_usage_of)
qed

lemma consume_recorded:
  assumes inv: "credit_inv s" and run: "consume inp s = (Inr ts, s')"
  shows "\<exists>op_id. normalizeCreditConsumeIdempotencyKey (cc_transactionId inp) = Inr op_id \<and>
    ts = filter (is_usage_of (cc_workspaceId inp) op_id) (cs_transactions s') \<and>
    sum_list (map ct_credits ts) = int_of (cc_credits inp)"
  using inv run
proof (cases rule: consume_result)
  case (fresh op_id s1 allocs)
  have "sum_list (map snd allocs) = int_of (cc_credits inp)"
    using fresh(3,6) allocation_total by (simp add: fresh(5) min_def)
  with fresh show ?thesis by (auto simp: filter_usage_txs sum_usage_txs)
qed auto

lemma consume_guards:
  assumes "consume inp s = (Inr ts, s')"
  shows "number_isSafeInteger (cc_credits inp)" "0 < int_of (cc_credits inp)"
    "valid_timestamp (cc_createdAt inp)"
  using assms by (auto simp: consume_def assertCredits_def assert_timestamp_def split: if_splits)

lemma consume_replay:
  assumes "number_isSafeInteger (cc_credits inp)" "0 < int_of (cc_credits inp)"
    "valid_timestamp (cc_createdAt inp)"
    "normalizeCreditConsumeIdempotencyKey (cc_transactionId inp) = Inr op_id"
    "ts = filter (is_usage_of (cc_workspaceId inp) op_id) (cs_transactions s)"
    "ts \<noteq> []" "sum_list (map ct_credits ts) = int_of (cc_credits inp)"
  shows "consume inp s = (Inr ts, s)"
  using assms by (simp add: consume_def assertCredits_def assert_timestamp_def Let_def)

lemma credit_run_usages:
  "credit_run allowed s s' \<Longrightarrow> credit_inv s \<Longrightarrow>
    filter (is_usage_of ws op) (cs_transactions s) \<noteq> [] \<Longrightarrow>
    filter (is_usage_of ws op) (cs_transactions s') = filter (is_usage_of ws op) (cs_transactions s)"
proof (induction rule: credit_run.induct)
  case (run_step s s1 s2)
  then show ?case using credit_step_usages credit_run_keeps_inv by metis
qed simp

text \<open>The refund loop only appends, and finds its own refunds again.\<close>

lemma refund_one_appends:
  assumes "refund_one inp index u c s = (Inr t, s1)"
  shows "cs_transactions s1 = cs_transactions s @ [t] \<and> is_refund_of (rc_workspaceId inp) (ct_id u) t \<and>
    ct_credits t = c"
  using assms
  by (auto simp: refund_one_def Let_def is_refund_of_def refund_credit_tx_def split: option.splits)

lemma refund_one_Inl: "refund_one inp index u c s = (Inl e, s1) \<Longrightarrow> s1 = s"
  by (auto simp: refund_one_def Let_def split: option.splits)

lemma refund_loop_appends:
  "refund_loop inp index remaining us s = (r, s') \<Longrightarrow>
    \<exists>more. cs_transactions s' = cs_transactions s @ more"
proof (induction us arbitrary: index remaining s r)
  case Nil
  then show ?case by simp
next
  case (Cons u us)
  show ?case
  proof (cases "remaining = Some 0")
    case True
    with Cons.prems show ?thesis by simp
  next
    case False
    then show ?thesis
      using Cons.prems
      by (fastforce simp: Let_def dest: Cons.IH refund_one_appends refund_one_Inl
          split: option.splits prod.splits sum.splits)
  qed
qed

lemma refund_loop_replay:
  "refund_loop inp index remaining us s = (Inr (ts, rem), s') \<Longrightarrow>
    refund_loop inp index remaining us s' = (Inr (ts, rem), s')"
proof (induction us arbitrary: index remaining s ts)
  case Nil
  then show ?case by simp
next
  case (Cons u us)
  let ?P = "is_refund_of (rc_workspaceId inp) (ct_id u)"
  consider (stop) "remaining = Some 0"
    | (old) t where "remaining \<noteq> Some 0" "find ?P (cs_transactions s) = Some t"
    | (new) "remaining \<noteq> Some 0" "find ?P (cs_transactions s) = None"
    by fastforce
  then show ?case
  proof cases
    case stop
    with Cons.prems show ?thesis by simp
  next
    case (old t)
    then obtain ts' where ts: "ts = t # ts'"
      "refund_loop inp (Suc index) (map_option (\<lambda>r. r - ct_credits t) remaining) us s = (Inr (ts', rem), s')"
      using Cons.prems by (auto split: prod.splits sum.splits)
    from refund_loop_appends [OF ts(2)] old(2) have "find ?P (cs_transactions s') = Some t"
      by (auto simp: find_append)
    with old(1) Cons.IH [OF ts(2)] ts(1) show ?thesis by simp
  next
    case new
    define c where "c = (case remaining of None \<Rightarrow> ct_credits u | Some r \<Rightarrow> min (ct_credits u) r)"
    obtain t s1 ts' where ts: "refund_one inp index u c s = (Inr t, s1)" "ts = t # ts'"
      "refund_loop inp (Suc index) (map_option (\<lambda>r. r - c) remaining) us s1 = (Inr (ts', rem), s')"
      using Cons.prems new by (auto simp: Let_def c_def split: prod.splits sum.splits)
    from refund_loop_appends [OF ts(3)] refund_one_appends [OF ts(1)] new(2)
    have "find ?P (cs_transactions s') = Some t" "ct_credits t = c"
      by (auto simp: find_append)
    with new(1) Cons.IH [OF ts(3)] ts(2) show ?thesis by simp
  qed
qed

lemma refund_loop_usages:
  "refund_loop inp index remaining us s = (r, s') \<Longrightarrow>
    usages (cs_transactions s') = usages (cs_transactions s)"
proof (induction us arbitrary: index remaining s r)
  case Nil
  then show ?case by simp
next
  case (Cons u us)
  have one: "usages (cs_transactions s1) = usages (cs_transactions s)"
    if "refund_one inp index u c s = (Inr t, s1)" for c t s1
    using refund_one_appends [OF that] by (simp add: is_refund_of_def)
  show ?case
    using Cons.prems
    by (auto simp: Let_def dest!: Cons.IH one refund_one_Inl
        split: if_splits option.splits prod.splits sum.splits)
qed

text \<open>A lot is dead to a refund when it has expired by then or has its expiry posted.\<close>

definition lot_dead :: "refund_credits_input \<Rightarrow> credit_ledger \<Rightarrow> credit_lot \<Rightarrow> bool" where
  "lot_dead inp s l \<longleftrightarrow>
     lot_expired_at (rc_createdAt inp) l \<or> lot_explicitly_expired (rc_workspaceId inp) (cl_id l) s"

lemma not_active_expired: "lot_expired_at now l \<Longrightarrow> \<not> lot_active_at now l"
  by (auto simp: lot_expired_at_def lot_active_at_def date_le_iff date_lt_iff split: option.splits)

lemma refund_one_dead:
  assumes "\<forall>l \<in> set (cs_lots s). cl_workspaceId l = rc_workspaceId inp \<longrightarrow> lot_dead inp s l"
    and run: "refund_one inp index u c s = (r, s')"
  shows "cs_lots s' = cs_lots s \<and>
    (\<forall>l \<in> set (cs_lots s'). cl_workspaceId l = rc_workspaceId inp \<longrightarrow> lot_dead inp s' l)"
proof (cases "find_index (\<lambda>l. cl_workspaceId l = rc_workspaceId inp \<and> cl_id l = ct_lotId u) (cs_lots s)")
  case None
  with assms show ?thesis by (simp add: refund_one_def)
next
  case (Some i)
  then have "lot_dead inp s (cs_lots s ! i)"
    using find_index_SomeD [OF Some] assms(1) by auto
  then have "\<not> (\<not> lot_explicitly_expired (rc_workspaceId inp) (cl_id (cs_lots s ! i)) s \<and>
      lot_active_at (rc_createdAt inp) (cs_lots s ! i))"
    by (auto simp: lot_dead_def dest: not_active_expired)
  with Some run have "s' = push_tx (refund_credit_tx inp index u (cl_id (cs_lots s ! i)) c False) s"
    by (auto simp: refund_one_def Let_def)
  with assms(1) show ?thesis by (auto simp: lot_dead_def lot_explicitly_expired_def)
qed

lemma refund_loop_dead:
  assumes "\<forall>l \<in> set (cs_lots s). cl_workspaceId l = rc_workspaceId inp \<longrightarrow> lot_dead inp s l"
    and "refund_loop inp index remaining us s = (r, s')"
  shows "cs_lots s' = cs_lots s"
  using assms
proof (induction us arbitrary: index remaining s r)
  case Nil
  then show ?case by simp
next
  case (Cons u us)
  show ?case
  proof (cases "remaining = Some 0 \<or> find (is_refund_of (rc_workspaceId inp) (ct_id u)) (cs_transactions s) \<noteq> None")
    case True
    with Cons.prems show ?thesis
      by (auto dest: Cons.IH [OF Cons.prems(1)] split: if_splits prod.splits sum.splits)
  next
    case False
    define c where "c = (case remaining of None \<Rightarrow> ct_credits u | Some r \<Rightarrow> min (ct_credits u) r)"
    obtain q s1 where one: "refund_one inp index u c s = (q, s1)" by (cases "refund_one inp index u c s")
    note dead = refund_one_dead [OF Cons.prems(1) one]
    show ?thesis
    proof (cases q)
      case (Inl e)
      with False one dead Cons.prems(2) show ?thesis by (auto simp: c_def Let_def)
    next
      case (Inr t)
      obtain r' s'' where "refund_loop inp (Suc index) (map_option (\<lambda>r. r - c) remaining) us s1 = (r', s'')"
        by (cases "refund_loop inp (Suc index) (map_option (\<lambda>r. r - c) remaining) us s1")
      with Cons.IH [OF conjunct2 [OF dead]] dead False one Inr Cons.prems(2) show ?thesis
        by (auto simp: c_def Let_def split: sum.splits prod.splits)
    qed
  qed
qed

lemma refund_loop_expired:
  assumes "\<forall>l \<in> set (cs_lots s). cl_workspaceId l = rc_workspaceId inp \<longrightarrow>
      lot_expired_at (rc_createdAt inp) l \<or> lot_explicitly_expired (rc_workspaceId inp) (cl_id l) s"
    and "refund_loop inp index remaining us s = (r, s')"
  shows "cs_lots s' = cs_lots s"
  using refund_loop_dead [OF _ assms(2)] assms(1) by (simp add: lot_dead_def)

section \<open>Lots are permanent\<close>

text \<open>The facts of a lot that no method changes.\<close>

definition lot_facts where
  "lot_facts l = (cl_workspaceId l, cl_id l, cl_originalCredits l, cl_expirationDate l,
     cl_transactionType l, cl_sourceRef l, cl_grantIdempotencyKey l, cl_createdAt l)"

lemma lot_facts_simps [simp]:
  "lot_facts (zero_lot l) = lot_facts l"
  "lot_facts (credit_lot_back c l) = lot_facts l"
  "lot_facts (debit_lot c l) = lot_facts l"
  "lot_facts (debited ws allocs l) = lot_facts l"
  by (simp_all add: lot_facts_def zero_lot_def credit_lot_back_def debit_lot_def debited_def
      split: option.splits)

lemma expire_refs_facts:
  assumes "distinct is" "\<forall>i \<in> set is. i < length (cs_lots s)"
  shows "map lot_facts (cs_lots (snd (expire_refs mk is s))) = map lot_facts (cs_lots s)"
  using expire_refs_closed [OF assms, of mk] by (intro nth_equalityI) auto

lemma refund_one_facts:
  "refund_one inp index u c s = (r, s') \<Longrightarrow> map lot_facts (cs_lots s') = map lot_facts (cs_lots s)"
  by (auto simp: refund_one_def Let_def map_update_same dest!: find_index_SomeD split: option.splits if_splits)

lemma refund_loop_facts:
  "refund_loop inp index remaining us s = (r, s') \<Longrightarrow>
    map lot_facts (cs_lots s') = map lot_facts (cs_lots s)"
proof (induction us arbitrary: index remaining s r)
  case Nil
  then show ?case by simp
next
  case (Cons u us)
  show ?case
    using Cons.prems
    by (auto simp: Let_def dest!: Cons.IH refund_one_facts
        split: if_splits option.splits prod.splits sum.splits)
qed

text \<open>Only a grant adds a lot; every other method keeps the facts of all of them.\<close>

inductive credit_movement :: "credit_ledger \<Rightarrow> credit_ledger \<Rightarrow> bool" where
  move_consume: "consume inp s = (r, s') \<Longrightarrow> credit_movement s s'"
| move_refund: "refundUsageOperation inp s = (r, s') \<Longrightarrow> credit_movement s s'"
| move_expire: "expireLots inp s = (r, s') \<Longrightarrow> credit_movement s s'"
| move_expire_subscription: "expireSubscriptionLots inp s = (r, s') \<Longrightarrow> credit_movement s s'"

lemma credit_movement_facts:
  assumes step: "credit_movement s s'" and inv: "credit_inv s"
  shows "map lot_facts (cs_lots s') = map lot_facts (cs_lots s)"
  using step
proof (cases rule: credit_movement.cases)
  case (move_consume inp r)
  have exp: "map lot_facts (cs_lots (snd (expireLots i s))) = map lot_facts (cs_lots s)" for i
    by (simp add: expireLots_run expire_refs_facts expire_refs_of_props)
  show ?thesis
    using inv move_consume
  proof (cases rule: consume_result)
    case (fresh op_id s1 allocs)
    then have "map lot_facts (cs_lots s') = map lot_facts (cs_lots s1)" by simp
    with fresh(4) exp show ?thesis by simp
  qed (use exp in auto)
next
  case (move_refund inp r)
  then show ?thesis
    by (cases "assert_optional_credits (rc_credits inp)";
        cases "normalizeCreditConsumeIdempotencyKey (rc_usageOperationId inp)")
      (auto simp: refundUsageOperation_def assert_timestamp_def Let_def dest!: refund_loop_facts
        split: if_splits prod.splits sum.splits)
next
  case (move_expire inp r)
  then have "s' = snd (expireLots inp s)" by simp
  then show ?thesis by (simp add: expireLots_run expire_refs_facts expire_refs_of_props)
next
  case (move_expire_subscription inp r)
  then have "s' = snd (expireSubscriptionLots inp s)" by simp
  then show ?thesis
    unfolding expireSubscriptionLots_def Let_def split_def snd_conv
    by (simp add: expire_refs_facts set_indices_where)
qed

lemma credit_movement_keeps_inv: "credit_movement s s' \<Longrightarrow> credit_inv s \<Longrightarrow> credit_inv s'"
  by (elim credit_movement.cases)
    (metis consume_keeps(1) refundUsageOperation_run(1) expireLots_keeps(1)
      expireSubscriptionLots_keeps(1) snd_conv)+

lemma credit_step_facts:
  assumes step: "credit_step allowed s s'" and inv: "credit_inv s"
  shows "\<exists>more. map lot_facts (cs_lots s') = map lot_facts (cs_lots s) @ more"
  using step
proof (cases rule: credit_step.cases)
  case (step_grant inp r)
  then show ?thesis by (cases rule: grant_result) auto
qed (metis credit_movement.intros credit_movement_facts [OF _ inv] append_Nil2)+

lemma credit_run_facts:
  "credit_run allowed s s' \<Longrightarrow> credit_inv s \<Longrightarrow>
    \<exists>more. map lot_facts (cs_lots s') = map lot_facts (cs_lots s) @ more"
proof (induction rule: credit_run.induct)
  case (run_step s s1 s2)
  then show ?case using credit_step_facts [OF run_step.hyps(2)] credit_run_keeps_inv by fastforce
qed simp

text \<open>A search that only reads permanent facts finds the same lot again.\<close>

lemma find_same_facts:
  assumes facts: "map f ys = map f xs @ zs" and P: "\<And>x y. f x = f y \<Longrightarrow> P x = P y"
    and found: "find P xs = Some x"
  shows "\<exists>y. find P ys = Some y \<and> f y = f x"
  using facts found
proof (induction xs arbitrary: ys)
  case Nil
  then show ?case by simp
next
  case (Cons z xs)
  then obtain w ws where ys: "ys = w # ws" "f w = f z" "map f ws = map f xs @ zs"
    by (cases ys) auto
  then show ?case using Cons P [OF ys(2)] by (auto split: if_splits)
qed

definition grant_match :: "grant_credits_input \<Rightarrow> string \<Rightarrow> credit_lot \<Rightarrow> bool" where
  "grant_match inp key l \<longleftrightarrow> cl_workspaceId l = gc_workspaceId inp \<and>
     (cl_id l = gc_id inp \<or> cl_grantIdempotencyKey l = key)"

lemma grant_found:
  assumes "grant inp s = (Inr lot, s')" and "gc_sourceRef inp \<noteq> Some []"
  shows "\<exists>key. assertGrantInput inp = Inr () \<and>
    normalizeCreditGrantIdempotencyKey (gc_id inp) (gc_grantIdempotencyKey inp) = Inr key \<and>
    find (grant_match inp key) (cs_lots s') = Some lot \<and> sameCreditGrantFacts lot inp key"
proof -
  obtain key where guards: "assertGrantInput inp = Inr ()"
    "normalizeCreditGrantIdempotencyKey (gc_id inp) (gc_grantIdempotencyKey inp) = Inr key"
    using assms(1) by (cases "assertGrantInput inp";
      cases "normalizeCreditGrantIdempotencyKey (gc_id inp) (gc_grantIdempotencyKey inp)")
      (auto simp: grant_def)
  have new: "sameCreditGrantFacts (new_credit_lot inp key) inp key" "grant_match inp key (new_credit_lot inp key)"
    using assms(2) assertGrantInput_ok(3) [OF guards(1)]
    by (auto simp: sameCreditGrantFacts_def sameGrantExpiry_def new_credit_lot_def truthy_def
        grant_match_def split: option.splits)
  show ?thesis
  proof (cases "find (grant_match inp key) (cs_lots s)")
    case None
    with assms(1) guards new show ?thesis
      by (auto simp: grant_def grant_match_def [abs_def] Let_def find_append)
  next
    case (Some x)
    with assms(1) guards show ?thesis
      by (auto simp: grant_def grant_match_def [abs_def] split: if_splits)
  qed
qed

lemma grant_replay:
  assumes "assertGrantInput inp = Inr ()"
    and "normalizeCreditGrantIdempotencyKey (gc_id inp) (gc_grantIdempotencyKey inp) = Inr key"
    and "find (grant_match inp key) (cs_lots s) = Some lot" "sameCreditGrantFacts lot inp key"
  shows "grant inp s = (Inr lot, s)"
  using assms by (simp add: grant_def grant_match_def [abs_def])

text \<open>
  A request that only differs from a granted one in who asks returns the granted lot again,
  whatever the ledger did in between.
\<close>

definition same_grant_request :: "grant_credits_input \<Rightarrow> grant_credits_input \<Rightarrow> bool" where
  "same_grant_request i j \<longleftrightarrow>
     j = i\<lparr>gc_actorId := gc_actorId j, gc_correlationId := gc_correlationId j\<rparr>"

lemma same_grant_requestD:
  assumes "same_grant_request i j"
  shows "gc_id j = gc_id i" "gc_workspaceId j = gc_workspaceId i" "gc_credits j = gc_credits i"
    "gc_expirationDate j = gc_expirationDate i" "gc_transactionType j = gc_transactionType i"
    "gc_sourceRef j = gc_sourceRef i" "gc_createdAt j = gc_createdAt i"
    "gc_grantIdempotencyKey j = gc_grantIdempotencyKey i"
  by (subst assms [unfolded same_grant_request_def], simp)+

lemma grant_again:
  assumes inv: "credit_inv s" and ok: "grant inp s = (Inr lot, s1)" and src: "gc_sourceRef inp \<noteq> Some []"
    and run: "credit_run allowed s1 s2" and same: "same_grant_request inp inp'"
  shows "\<exists>lot'. grant inp' s2 = (Inr lot', s2) \<and> lot_facts lot' = lot_facts lot"
proof -
  obtain key where k: "assertGrantInput inp = Inr ()"
    "normalizeCreditGrantIdempotencyKey (gc_id inp) (gc_grantIdempotencyKey inp) = Inr key"
    "find (grant_match inp key) (cs_lots s1) = Some lot" "sameCreditGrantFacts lot inp key"
    using grant_found [OF ok src] by blast
  have inv1: "credit_inv s1" by (rule grant_keeps_inv [OF inv ok])
  obtain rest where "map lot_facts (cs_lots s2) = map lot_facts (cs_lots s1) @ rest"
    using credit_run_facts [OF run inv1] by blast
  moreover have "grant_match inp key x = grant_match inp key y" if "lot_facts x = lot_facts y" for x y
    using that by (simp add: grant_match_def lot_facts_def)
  ultimately obtain lot' where lot': "find (grant_match inp key) (cs_lots s2) = Some lot'"
    "lot_facts lot' = lot_facts lot"
    using find_same_facts [OF _ _ k(3)] by blast
  have "sameCreditGrantFacts lot' inp key"
    using k(4) lot'(2) unfolding sameCreditGrantFacts_def sameGrantExpiry_def lot_facts_def by simp_all metis
  moreover have "assertGrantInput inp' = assertGrantInput inp"
    "grant_match inp' key = grant_match inp key"
    "sameCreditGrantFacts lot' inp' key = sameCreditGrantFacts lot' inp key"
    unfolding assertGrantInput_def grant_match_def fun_eq_iff sameCreditGrantFacts_def
      sameGrantExpiry_def same_grant_requestD [OF same] by simp_all
  ultimately have "grant inp' s2 = (Inr lot', s2)"
    using k(1,2) lot'(1) same_grant_requestD [OF same] by (intro grant_replay) simp_all
  with lot'(2) show ?thesis by blast
qed

lemma credit_run_trans: "credit_run allowed s2 s3 \<Longrightarrow> credit_run allowed s1 s2 \<Longrightarrow> credit_run allowed s1 s3"
  by (induction rule: credit_run.induct) (auto intro: credit_run.intros)

lemma lots_after_expireLots:
  "length (cs_lots (snd (expireLots inp s))) = length (cs_lots s) \<and>
   (\<forall>j < length (cs_lots s). cs_lots (snd (expireLots inp s)) ! j =
      (if valid_timestamp (xl_now inp) \<and> j \<in> set (expire_refs_of inp s)
       then zero_lot (cs_lots s ! j) else cs_lots s ! j))"
proof -
  have "distinct (expire_refs_of inp s)" "\<forall>i \<in> set (expire_refs_of inp s). i < length (cs_lots s)"
    by (auto simp: expire_refs_of_props)
  from expire_refs_closed [OF this] show ?thesis by (simp add: expireLots_run)
qed

lemma zero_lot_expiry [simp]:
  "lot_expired_at now (zero_lot l) = lot_expired_at now l"
  "lot_active_at now (zero_lot l) = lot_active_at now l"
  "cl_workspaceId (zero_lot l) = cl_workspaceId l"
  "cl_remainingCredits (zero_lot l) = 0"
  by (simp_all add: lot_expired_at_def lot_active_at_def zero_lot_def)

lemma active_lots_expireLots:
  "active_lots ws (xl_now inp) (snd (expireLots inp s)) = active_lots ws (xl_now inp) s"
  unfolding active_lots_def
  by (rule filter_eq_pointwise)
    (auto simp: lots_after_expireLots expire_refs_of_props dest: not_active_expired)

lemma active_credits_expire_input:
  "active_lots ws (cc_createdAt inp) (snd (expireLots (consume_expire_input inp) s)) =
     active_lots ws (cc_createdAt inp) s"
  using active_lots_expireLots [of ws "consume_expire_input inp" s]
  by (simp add: consume_expire_input_def)

lemma available_active:
  "cb_availableCredits (project s ws asOf) =
    active_credits ws asOf s - overdraft (lot_active_at asOf) ws s"
proof -
  have "sum_list (map cl_remainingCredits ls) =
      sum_list (map cl_remainingCredits (filter (\<lambda>l. 0 < cl_remainingCredits l) ls)) -
      sum_list (map (\<lambda>l. - cl_remainingCredits l) (filter (\<lambda>l. cl_remainingCredits l < 0) ls))"
    for ls
    by (induction ls) auto
  from this [of "active_lots ws asOf s"] show ?thesis
    by (simp add: project_def readBalanceSnapshot_def projectCreditBalance_def Let_def listLots_def
        active_credits_def active_lots_def overdraft_def conj_commute conj_left_commute)
qed

lemma active_credits_nonneg: "0 \<le> active_credits ws asOf s"
  unfolding active_credits_def by (rule sum_list_nonneg) auto

lemma drain_order_sorted:
  assumes "lots_ok s"
  shows "sorted_wrt (\<lambda>a b. lot_key a \<le> lot_key b) (drain_order (active_lots ws now s))"
proof -
  have ok: "\<forall>l \<in> set (active_lots ws now s). lot_dates_ok l"
    using assms by (auto simp: active_lots_def lots_ok_def lot_consistent_def)
  then have "sorted_wrt (cmp_le compareCreditLotsForFefo) (drain_order (active_lots ws now s))"
    unfolding drain_order_def by (intro fefo.sort_sorted) auto
  then show ?thesis
    by (rule sorted_wrt_mono_rel [rotated])
      (use ok in \<open>auto simp: drain_order_def cmp_le_lots\<close>)
qed

lemma expireLots_empties:
  "valid_timestamp (xl_now inp) \<Longrightarrow>
    \<forall>l \<in> set (cs_lots (snd (expireLots inp s))).
      cl_workspaceId l = xl_workspaceId inp \<and> lot_expired_at (xl_now inp) l \<longrightarrow> cl_remainingCredits l \<le> 0"
proof
  fix l assume ts: "valid_timestamp (xl_now inp)" and l: "l \<in> set (cs_lots (snd (expireLots inp s)))"
  obtain j where "j < length (cs_lots s)" "l = cs_lots (snd (expireLots inp s)) ! j"
    using l lots_after_expireLots [of inp s] by (auto simp: in_set_conv_nth)
  with ts lots_after_expireLots [of inp s]
  show "cl_workspaceId l = xl_workspaceId inp \<and> lot_expired_at (xl_now inp) l \<longrightarrow> cl_remainingCredits l \<le> 0"
    by (auto simp: expire_refs_of_props)
qed

lemma sum_list_filter_map: "sum_list (map f (filter P xs)) = sum_list (map (\<lambda>x. if P x then f x else 0) xs)"
  for f :: "'a \<Rightarrow> 'b::comm_monoid_add"
  by (induction xs) auto

definition pending_credits :: "string \<Rightarrow> string \<Rightarrow> credit_ledger \<Rightarrow> int" where
  "pending_credits ws now s =
     sum_list (map cl_remainingCredits (filter (\<lambda>l. cl_remainingCredits l > 0 \<and> lot_expired_at now l)
       (listLots s ws)))"

lemma pending_empty:
  assumes "valid_timestamp (xl_now inp)"
  shows "pending_credits (xl_workspaceId inp) (xl_now inp) (snd (expireLots inp s)) = 0"
proof -
  have "filter (\<lambda>l. cl_remainingCredits l > 0 \<and> lot_expired_at (xl_now inp) l)
      (listLots (snd (expireLots inp s)) (xl_workspaceId inp)) = []"
    using expireLots_empties [OF assms, of s] by (fastforce simp: filter_empty_conv listLots_def)
  then show ?thesis unfolding pending_credits_def by simp
qed

lemma pending_posted:
  "sum_list (map (\<lambda>i. cl_remainingCredits (cs_lots s ! i)) (expire_refs_of inp s)) =
    pending_credits (xl_workspaceId inp) (xl_now inp) s"
proof -
  let ?P = "\<lambda>l. cl_workspaceId l = xl_workspaceId inp \<and> lot_expired_at (xl_now inp) l \<and>
                cl_remainingCredits l > 0"
  have "filter ?P (cs_lots s) = filter (\<lambda>l. cl_remainingCredits l > 0 \<and> lot_expired_at (xl_now inp) l)
      (listLots s (xl_workspaceId inp))"
    by (auto simp: listLots_def intro: filter_cong)
  then show ?thesis
    unfolding expire_refs_of_def pending_credits_def sum_list_js_sort sum_list_indices by simp
qed

lemma expireLots_transactions:
  assumes "valid_timestamp (xl_now inp)"
  shows "cs_transactions (snd (expireLots inp s)) = cs_transactions s @
    map (\<lambda>i. expire_credit_tx ''credit-expire:'' ''expire:'' (xl_workspaceId inp) (xl_actorId inp)
               (xl_correlationId inp) (xl_now inp) (cs_lots s ! i)) (expire_refs_of inp s)"
proof -
  have "distinct (expire_refs_of inp s)" "\<forall>i \<in> set (expire_refs_of inp s). i < length (cs_lots s)"
    by (auto simp: expire_refs_of_props)
  from expire_refs_closed [OF this] assms show ?thesis by (simp add: expireLots_run)
qed

lemma listLots_other:
  "ws \<noteq> xl_workspaceId inp \<Longrightarrow> listLots (snd (expireLots inp s)) ws = listLots s ws"
  unfolding listLots_def
  by (rule filter_eq_pointwise) (auto simp: lots_after_expireLots expire_refs_of_props)

lemma project_parts:
  "project s ws now = project s' ws' now \<longleftrightarrow>
     total_credits is_grant (listTransactions s ws) = total_credits is_grant (listTransactions s' ws') \<and>
     total_credits (\<lambda>t. t = USAGE) (listTransactions s ws) =
       total_credits (\<lambda>t. t = USAGE) (listTransactions s' ws') \<and>
     sum_list (map ct_credits (filter (\<lambda>t. ct_transactionType t = REFUND \<and> ct_credited t)
         (listTransactions s ws))) =
       sum_list (map ct_credits (filter (\<lambda>t. ct_transactionType t = REFUND \<and> ct_credited t)
         (listTransactions s' ws'))) \<and>
     total_credits (\<lambda>t. t = EXPIRE) (listTransactions s ws) + pending_credits ws now s =
       total_credits (\<lambda>t. t = EXPIRE) (listTransactions s' ws') + pending_credits ws' now s' \<and>
     sum_list (map cl_remainingCredits (active_lots ws now s)) =
       sum_list (map cl_remainingCredits (active_lots ws' now s'))"
  by (simp add: project_def readBalanceSnapshot_def projectCreditBalance_def Let_def
      pending_credits_def active_lots_def listLots_def conj_commute)

lemma expireLots_projection:
  assumes ts: "valid_timestamp (xl_now inp)"
  shows "project (snd (expireLots inp s)) ws (xl_now inp) = project s ws (xl_now inp)"
proof -
  let ?s = "snd (expireLots inp s)" and ?mk = "\<lambda>i. expire_credit_tx ''credit-expire:'' ''expire:''
    (xl_workspaceId inp) (xl_actorId inp) (xl_correlationId inp) (xl_now inp) (cs_lots s ! i)"
  let ?new = "map ?mk (expire_refs_of inp s)"
  have txs: "listTransactions ?s ws =
      listTransactions s ws @ (if ws = xl_workspaceId inp then ?new else [])"
    by (auto simp: listTransactions_def expireLots_transactions [OF ts] filter_empty_conv
        expire_credit_tx_def intro!: filter_True)
  have new: "total_credits is_grant ?new = 0" "total_credits (\<lambda>t. t = USAGE) ?new = 0"
    "filter (\<lambda>t. ct_transactionType t = REFUND \<and> ct_credited t) ?new = []"
    by (simp_all add: total_credits_def filter_empty_conv expire_credit_tx_def o_def)
  have exp: "total_credits (\<lambda>t. t = EXPIRE) ?new = pending_credits (xl_workspaceId inp) (xl_now inp) s"
    unfolding pending_posted [symmetric]
    by (simp add: total_credits_def expire_credit_tx_def o_def)
  have app: "total_credits P (xs @ ys) = total_credits P xs + total_credits P ys" for P xs ys
    by (simp add: total_credits_def)
  show ?thesis
  proof (cases "ws = xl_workspaceId inp")
    case True
    with txs new exp app pending_empty [OF ts] active_lots_expireLots show ?thesis
      by (simp add: project_parts)
  next
    case False
    with txs listLots_other active_lots_expireLots show ?thesis
      by (simp add: project_parts pending_credits_def)
  qed
qed

end
