(* ===== verification/CreditLedgerProps.thy ===== *)
theory CreditLedgerProps
  imports CreditLedgerCorrect
begin

text \<open>
  The properties of the credit ledger, each over the methods of \<^verbatim>\<open>MemoryCreditLedger\<close> and runs of
  them from the empty ledger, with a concrete instance of every property that has hypotheses.
\<close>

section \<open>Examples\<close>

definition t_jan :: string where "t_jan = ''2026-01-01T00:00:00.000Z''"
definition t_feb :: string where "t_feb = ''2026-02-01T00:00:00.000Z''"
definition t_mar :: string where "t_mar = ''2026-03-01T00:00:00.000Z''"

lemma sample_instants [simp]:
  "date_parse t_jan = Some 1767225600000"
  "date_parse t_feb = Some 1769904000000"
  "date_parse t_mar = Some 1772323200000"
  by (simp_all add: t_jan_def t_feb_def t_mar_def date_parse_samples)

definition sample_grant :: "string \<Rightarrow> int \<Rightarrow> string option \<Rightarrow> grant_credits_input" where
  "sample_grant i n expiry =
     \<lparr> gc_id = i, gc_workspaceId = ''w'', gc_credits = JInt n, gc_expirationDate = expiry,
       gc_transactionType = REGISTER_GIFT, gc_sourceRef = None, gc_createdAt = t_jan,
       gc_actorId = None, gc_correlationId = None, gc_grantIdempotencyKey = None \<rparr>"

definition sample_consume :: "string \<Rightarrow> int \<Rightarrow> string \<Rightarrow> consume_credits_input" where
  "sample_consume i n at =
     \<lparr> cc_workspaceId = ''w'', cc_credits = JInt n, cc_transactionId = i, cc_actorId = ''a'',
       cc_correlationId = ''c'', cc_createdAt = at \<rparr>"

definition sample_refund :: "string \<Rightarrow> string \<Rightarrow> int option \<Rightarrow> string \<Rightarrow> refund_credits_input" where
  "sample_refund u i n at =
     \<lparr> rc_workspaceId = ''w'', rc_usageOperationId = u, rc_refundOperationId = i,
       rc_credits = map_option JInt n, rc_actorId = ''a'', rc_correlationId = ''c'',
       rc_createdAt = at \<rparr>"

text \<open>Two lots of ten credits, the first one expiring in March; then a usage of fifteen.\<close>

definition sample_granted :: credit_ledger where
  "sample_granted =
     snd (grant (sample_grant ''m'' 10 (Some t_mar)) (snd (grant (sample_grant ''n'' 10 None) empty_credit_ledger)))"

definition sample_used :: credit_ledger where
  "sample_used = snd (consume (sample_consume ''op'' 15 t_jan) sample_granted)"

definition sample_used_all :: credit_ledger where
  "sample_used_all = snd (consume (sample_consume ''op'' 20 t_jan) sample_granted)"

definition sample_expiring :: credit_ledger where
  "sample_expiring = snd (consume (sample_consume ''op'' 4 t_jan)
     (snd (grant (sample_grant ''m'' 10 (Some t_mar)) empty_credit_ledger)))"

definition sample_expire :: "string \<Rightarrow> expire_lots_input" where
  "sample_expire now =
     \<lparr> xl_workspaceId = ''w'', xl_now = now, xl_actorId = ''a'', xl_correlationId = ''c'' \<rparr>"

lemma sample_granted_run: "credit_run allowed empty_credit_ledger sample_granted"
  unfolding sample_granted_def
  by (rule run_step [OF run_step [OF run_refl]]; rule step_grant [OF prod.collapse [symmetric]])

lemma sample_used_run: "credit_run allowed empty_credit_ledger sample_used"
  unfolding sample_used_def
  by (rule run_step [OF sample_granted_run]) (rule step_consume [OF prod.collapse [symmetric]])

section \<open>Properties\<close>



text \<open>
  C20. Lots and transactions agree. In every reachable state, whatever refunds were asked for, each
  lot holds exactly what its own transactions add up to, never more than it was granted, and no two
  lots of a workspace share an identifier.
\<close>

theorem credit_lots_match_transactions:
  assumes "credit_run any_refund empty_credit_ledger s" and "l \<in> set (cs_lots s)"
  shows "cl_remainingCredits l = lot_net (cs_transactions s) (cl_workspaceId l) (cl_id l) \<and>
    cl_originalCredits l = lot_granted (cs_transactions s) (cl_workspaceId l) (cl_id l) \<and>
    cl_remainingCredits l \<le> cl_originalCredits l \<and>
    distinct (map lot_ident (cs_lots s))"
  using credit_run_inv [OF assms(1)] remaining_le_original [OF credit_run_inv [OF assms(1)] assms(2)]
    assms(2)
  by (auto simp: credit_inv_def lots_ok_def lot_consistent_def)

theorem credit_lots_match_transactions_witness:
  "hd (cs_lots sample_used) \<in> set (cs_lots sample_used) \<and>
   cl_remainingCredits (hd (cs_lots sample_used)) =
     lot_net (cs_transactions sample_used) (cl_workspaceId (hd (cs_lots sample_used)))
       (cl_id (hd (cs_lots sample_used)))"
proof
  show mem: "hd (cs_lots sample_used) \<in> set (cs_lots sample_used)" by code_simp
  show "cl_remainingCredits (hd (cs_lots sample_used)) =
     lot_net (cs_transactions sample_used) (cl_workspaceId (hd (cs_lots sample_used)))
       (cl_id (hd (cs_lots sample_used)))"
    using credit_lots_match_transactions [OF sample_used_run mem] by blast
qed

text \<open>
  C21. A consumption happens exactly once. After a successful consumption, and after any further
  calls of the ledger, the same request returns the same transactions, worth the requested credits,
  and changes nothing.
\<close>

theorem consume_exactly_once:
  assumes "credit_run any_refund empty_credit_ledger s"
    and "consume inp s = (Inr ts, s1)" and "credit_run any_refund s1 s2"
  shows "consume inp s2 = (Inr ts, s2) \<and> sum_list (map ct_credits ts) = int_of (cc_credits inp)"
proof -
  have inv: "credit_inv s" by (rule credit_run_inv [OF assms(1)])
  have inv1: "credit_inv s1" using consume_keeps(1) [OF inv, of inp] assms(2) by simp
  note g = consume_guards [OF assms(2)]
  obtain op_id where op: "normalizeCreditConsumeIdempotencyKey (cc_transactionId inp) = Inr op_id"
    "ts = filter (is_usage_of (cc_workspaceId inp) op_id) (cs_transactions s1)"
    "sum_list (map ct_credits ts) = int_of (cc_credits inp)"
    using consume_recorded [OF inv assms(2)] by blast
  have "ts \<noteq> []" using op(3) g(2) by auto
  moreover have "ts = filter (is_usage_of (cc_workspaceId inp) op_id) (cs_transactions s2)"
    using credit_run_usages [OF assms(3) inv1] op(2) \<open>ts \<noteq> []\<close> by metis
  ultimately show ?thesis using consume_replay [OF g op(1)] op(3) by blast
qed

theorem consume_exactly_once_witness:
  "consume (sample_consume ''op'' 15 t_jan) sample_used =
     (Inr (cs_transactions sample_used ! 2 # [cs_transactions sample_used ! 3]), sample_used)"
proof -
  have "consume (sample_consume ''op'' 15 t_jan) sample_granted =
      (Inr (cs_transactions sample_used ! 2 # [cs_transactions sample_used ! 3]), sample_used)"
    by code_simp
  from consume_exactly_once [OF sample_granted_run this run_refl] show ?thesis by blast
qed

text \<open>
  C22. First expiring, first out. The usages a fresh consumption writes add up to the request and
  take from the workspace's live lots in the order expiry (lots without one last), creation time,
  identifier; every lot but the last one touched is drained completely.
\<close>

theorem consume_first_expiring_first:
  assumes "credit_run any_refund empty_credit_ledger s"
    and "normalizeCreditConsumeIdempotencyKey (cc_transactionId inp) = Inr op_id"
    and "filter (is_usage_of (cc_workspaceId inp) op_id) (cs_transactions s) = []"
    and "consume inp s = (Inr ts, s')"
  defines "ls \<equiv> drain_order (active_lots (cc_workspaceId inp) (cc_createdAt inp) s)"
  shows "sorted_wrt (\<lambda>a b. lot_key a \<le> lot_key b) ls \<and>
    sum_list (map ct_credits ts) = int_of (cc_credits inp) \<and>
    map ct_lotId ts = map cl_id (take (length ts) ls) \<and>
    (\<forall>i. Suc i < length ts \<longrightarrow> ct_credits (ts ! i) = cl_remainingCredits (ls ! i))"
proof -
  have inv: "credit_inv s" by (rule credit_run_inv [OF assms(1)])
  have sorted: "sorted_wrt (\<lambda>a b. lot_key a \<le> lot_key b) ls"
    unfolding ls_def using inv by (intro drain_order_sorted) (simp add: credit_inv_def)
  have total: "sum_list (map ct_credits ts) = int_of (cc_credits inp)"
    using consume_recorded [OF inv assms(4)] by blast
  show ?thesis
    using inv assms(4)
  proof (cases rule: consume_result)
    case (replay op)
    with assms(2,3) total consume_guards(2) [OF assms(4)] show ?thesis by auto
  next
    case (fresh op s1 allocs)
    let ?n = "int_of (cc_credits inp)"
    have al: "allocs = allocate_credit_loop ?n ls"
      using fresh(4,5) by (simp add: active_credits_expire_input ls_def)
    have n: "0 \<le> ?n" using fresh(3) by simp
    have pos: "\<forall>l \<in> set ls. 0 < cl_remainingCredits l" unfolding ls_def by (rule drain_order_pos)
    have ts: "ts = usage_txs inp op 0 allocs" using fresh(8) by simp
    have "map snd allocs ! i = cl_remainingCredits (ls ! i)" if i: "Suc i < length allocs" for i
      using credit_alloc.alloc_drains [OF n pos, of i] i by (simp add: al)
    moreover have "map ct_credits (usage_txs inp op k as) = map snd as" for k as
      by (induction inp op k as rule: usage_txs.induct) (auto simp: usage_credit_tx_def)
    ultimately have "ct_credits (ts ! i) = cl_remainingCredits (ls ! i)" if "Suc i < length ts" for i
      using that ts by (metis Suc_lessD length_usage_txs nth_map)
    moreover have "map ct_lotId ts = map cl_id (take (length ts) ls)"
      using credit_alloc.alloc_idents [OF n pos] by (simp add: ts lots_usage_txs al)
    ultimately show ?thesis using sorted total by blast
  qed auto
qed

theorem consume_first_expiring_first_witness:
  "map ct_lotId (drop 2 (cs_transactions sample_used)) = [''m'', ''n''] \<and>
   sum_list (map ct_credits (drop 2 (cs_transactions sample_used))) = 15"
proof -
  have run: "consume (sample_consume ''op'' 15 t_jan) sample_granted =
      (Inr (drop 2 (cs_transactions sample_used)), sample_used)" by code_simp
  have key: "normalizeCreditConsumeIdempotencyKey
      (cc_transactionId (sample_consume ''op'' 15 t_jan)) = Inr ''consume:op''" by code_simp
  have fresh: "filter (is_usage_of (cc_workspaceId (sample_consume ''op'' 15 t_jan)) ''consume:op'')
      (cs_transactions sample_granted) = []" by code_simp
  have order: "map cl_id (take 2 (drain_order (active_lots ''w'' t_jan sample_granted))) = [''m'', ''n'']"
    by code_simp
  have len: "length (drop 2 (cs_transactions sample_used)) = 2" by code_simp
  from consume_first_expiring_first [OF sample_granted_run key fresh run] order
  show ?thesis unfolding len by (simp add: sample_consume_def)
qed

text \<open>
  C23. A consumption is refused exactly when the credits are not there. In every state reached by
  any calls and for a well-formed request of a new operation, the consumption succeeds if and only
  if the requested credits are at most what the live lots with credits hold at that instant, and
  otherwise fails with \<^verbatim>\<open>INSUFFICIENT_ENTITLEMENT\<close> and debits no lot. A request covered by the
  available credits of the balance is therefore never refused; the balance is that sum itself while
  every refund was a full one or the first one of its operation, and less when a later partial
  refund left a live lot overdrawn.
\<close>

theorem consume_sufficient_iff:
  assumes "credit_run any_refund empty_credit_ledger s"
    and "number_isSafeInteger (cc_credits inp)" "0 < int_of (cc_credits inp)"
    and "valid_timestamp (cc_createdAt inp)"
    and "normalizeCreditConsumeIdempotencyKey (cc_transactionId inp) = Inr op_id"
    and "filter (is_usage_of (cc_workspaceId inp) op_id) (cs_transactions s) = []"
  shows "(if int_of (cc_credits inp) \<le> active_credits (cc_workspaceId inp) (cc_createdAt inp) s
          then \<exists>ts. fst (consume inp s) = Inr ts
          else consume inp s =
            (Inl (P1DomainError INSUFFICIENT_ENTITLEMENT ''Insufficient credits.''),
             snd (expireLots (consume_expire_input inp) s))) \<and>
    cb_availableCredits (project s (cc_workspaceId inp) (cc_createdAt inp))
      \<le> active_credits (cc_workspaceId inp) (cc_createdAt inp) s \<and>
    (credit_run first_refund empty_credit_ledger s \<longrightarrow>
      cb_availableCredits (project s (cc_workspaceId inp) (cc_createdAt inp)) =
        active_credits (cc_workspaceId inp) (cc_createdAt inp) s)"
proof -
  have inv: "credit_inv s" by (rule credit_run_inv [OF assms(1)])
  let ?s1 = "snd (expireLots (consume_expire_input inp) s)"
  have same: "active_credits (cc_workspaceId inp) (cc_createdAt inp) ?s1 =
      active_credits (cc_workspaceId inp) (cc_createdAt inp) s"
    by (simp add: active_credits_def active_credits_expire_input)
  have "\<exists>ts s1. expireLots (consume_expire_input inp) s = (Inr ts, s1)"
    using assms(4) by (simp add: expireLots_run consume_expire_input_def)
  then have run: "consume inp s = consume_fresh inp op_id ?s1"
    using assms(2-6)
    by (auto simp: consume_def assertCredits_def assert_timestamp_def Let_def op_bind_def)
  have "filter (is_usage_of (cc_workspaceId inp) op_id) (cs_transactions ?s1) = []"
    using assms(6) by simp
  note cf = consume_fresh_run [OF expireLots_keeps(1) [OF inv] assms(2,3) this, unfolded same]
  have "if int_of (cc_credits inp) \<le> active_credits (cc_workspaceId inp) (cc_createdAt inp) s
      then \<exists>ts. fst (consume inp s) = Inr ts
      else consume inp s =
        (Inl (P1DomainError INSUFFICIENT_ENTITLEMENT ''Insufficient credits.''), ?s1)"
    unfolding run using cf by force
  then show ?thesis
    using available_active overdraft_nonneg overdraft_none [OF credit_run_nonneg] by simp
qed

theorem consume_sufficient_iff_witness:
  "fst (consume (sample_consume ''big'' 21 t_jan) sample_granted) =
     Inl (P1DomainError INSUFFICIENT_ENTITLEMENT ''Insufficient credits.'')"
proof -
  let ?c = "sample_consume ''big'' 21 t_jan"
  have g: "number_isSafeInteger (cc_credits ?c)" "0 < int_of (cc_credits ?c)"
    "valid_timestamp (cc_createdAt ?c)"
    "normalizeCreditConsumeIdempotencyKey (cc_transactionId ?c) = Inr ''consume:big''"
    "filter (is_usage_of (cc_workspaceId ?c) ''consume:big'') (cs_transactions sample_granted) = []"
    by code_simp+
  have "\<not> int_of (cc_credits ?c) \<le>
      active_credits (cc_workspaceId ?c) (cc_createdAt ?c) sample_granted"
    by code_simp
  with consume_sufficient_iff [OF sample_granted_run g] show ?thesis by simp
qed

text \<open>
  A refund happens at most once. Whatever the state, a refund that succeeded and is asked for
  again returns the very same transactions and changes nothing.
\<close>

theorem refund_replay:
  assumes "refundUsageOperation inp s = (Inr ts, s')"
  shows "refundUsageOperation inp s' = (Inr ts, s')"
proof -
  obtain op_id rem where run: "valid_timestamp (rc_createdAt inp)"
      "assert_optional_credits (rc_credits inp) = Inr ()"
      "normalizeCreditConsumeIdempotencyKey (rc_usageOperationId inp) = Inr op_id"
      "refund_loop inp 0 (map_option int_of (rc_credits inp))
         (filter (is_usage_of (rc_workspaceId inp) op_id) (cs_transactions s)) s = (Inr (ts, rem), s')"
      "rem = None \<or> rem = Some 0"
    using assms
    by (cases "assert_optional_credits (rc_credits inp)";
        cases "normalizeCreditConsumeIdempotencyKey (rc_usageOperationId inp)")
      (auto simp: refundUsageOperation_def assert_timestamp_def Let_def
        split: if_splits prod.splits sum.splits)
  have "filter (is_usage_of (rc_workspaceId inp) op_id) (cs_transactions s') =
      filter (is_usage_of (rc_workspaceId inp) op_id) (cs_transactions s)"
    using refund_loop_usages [OF run(4)] by (metis usages_filter_usage_of)
  with run refund_loop_replay [OF run(4)] show ?thesis
    by (auto simp: refundUsageOperation_def assert_timestamp_def Let_def)
qed

theorem refund_replay_witness:
  "refundUsageOperation (sample_refund ''op'' ''r'' (Some 12) t_feb)
     (snd (refundUsageOperation (sample_refund ''op'' ''r'' (Some 12) t_feb) sample_used)) =
   refundUsageOperation (sample_refund ''op'' ''r'' (Some 12) t_feb) sample_used"
proof -
  let ?run = "refundUsageOperation (sample_refund ''op'' ''r'' (Some 12) t_feb) sample_used"
  have "(case fst ?run of Inl _ \<Rightarrow> False | Inr ts \<Rightarrow> map ct_credits ts = [10, 2])" by code_simp
  then obtain ts where run: "?run = (Inr ts, snd ?run)"
    by (cases ?run; cases "fst ?run") auto
  show ?thesis using refund_replay [OF run] run by simp
qed

text \<open>
  The first refund of an operation. In a reachable state, refunding an operation none of whose
  usages was refunded gives back exactly the credits asked for when they were used, all of them when
  no amount is named, and is refused when more is asked for than was used.
\<close>

theorem first_refund_amount:
  assumes "credit_run any_refund empty_credit_ledger s"
    and "valid_timestamp (rc_createdAt inp)" "assert_optional_credits (rc_credits inp) = Inr ()"
    and "normalizeCreditConsumeIdempotencyKey (rc_usageOperationId inp) = Inr op_id"
    and "us = filter (is_usage_of (rc_workspaceId inp) op_id) (cs_transactions s)"
    and "\<forall>u \<in> set us. unrefunded (cs_transactions s) u"
  shows "case rc_credits inp of
      None \<Rightarrow> \<exists>ts. fst (refundUsageOperation inp s) = Inr ts \<and>
                  sum_list (map ct_credits ts) = sum_list (map ct_credits us)
    | Some n \<Rightarrow>
        if int_of n \<le> sum_list (map ct_credits us)
        then \<exists>ts. fst (refundUsageOperation inp s) = Inr ts \<and> sum_list (map ct_credits ts) = int_of n
        else fst (refundUsageOperation inp s) = Inl (P1DomainError INVALID_STATE
               ''Credit refund exceeds the original usage operation.'')"
proof -
  have inv: "credit_inv s" by (rule credit_run_inv [OF assms(1)])
  have us: "refundable (rc_workspaceId inp) us (cs_transactions s)"
    unfolding assms(5) by (rule refundable_usages [OF inv])
  have pos: "\<forall>r. map_option int_of (rc_credits inp) = Some r \<longrightarrow> 0 \<le> r"
    using assms(3) by (auto simp: assert_optional_credits_def assertCredits_def split: if_splits)
  from refund_loop_run [OF inv us, of 0 "map_option int_of (rc_credits inp)"] assms(6) pos
  obtain ts rem s' where s': "refund_loop inp 0 (map_option int_of (rc_credits inp)) us s = (Inr (ts, rem), s')"
    "sum_list (map ct_credits ts) = (case map_option int_of (rc_credits inp) of
        None \<Rightarrow> sum_list (map ct_credits us) | Some r \<Rightarrow> min r (sum_list (map ct_credits us)))"
    "rem = map_option (\<lambda>r. r - min r (sum_list (map ct_credits us))) (map_option int_of (rc_credits inp))"
    by blast
  have "refundUsageOperation inp s = (if rem \<noteq> None \<and> rem \<noteq> Some 0
      then (Inl (P1DomainError INVALID_STATE ''Credit refund exceeds the original usage operation.''), s')
      else (Inr ts, s'))"
    using assms(2-5) s'(1) by (simp add: refundUsageOperation_def assert_timestamp_def Let_def)
  with s'(2,3) show ?thesis by (cases "rc_credits inp") (auto simp: min_def)
qed

theorem first_refund_amount_witness:
  "\<exists>ts. fst (refundUsageOperation (sample_refund ''op'' ''r'' (Some 12) t_feb) sample_used) = Inr ts \<and>
     sum_list (map ct_credits ts) = 12"
proof -
  let ?r = "sample_refund ''op'' ''r'' (Some 12) t_feb"
  let ?us = "filter (is_usage_of (rc_workspaceId ?r) ''consume:op'') (cs_transactions sample_used)"
  have g: "valid_timestamp (rc_createdAt ?r)" "assert_optional_credits (rc_credits ?r) = Inr ()"
    "normalizeCreditConsumeIdempotencyKey (rc_usageOperationId ?r) = Inr ''consume:op''"
    by code_simp+
  have "refunds (cs_transactions sample_used) = []" by code_simp
  then have un: "\<forall>u \<in> set ?us. unrefunded (cs_transactions sample_used) u" by (simp add: unrefunded_def)
  have "sum_list (map ct_credits ?us) = 15" by code_simp
  with first_refund_amount [OF sample_used_run g refl un] show ?thesis by (simp add: sample_refund_def)
qed

text \<open>
  Late refunds do not revive credits. A refund at an instant at which every lot of the workspace
  has expired, or whose lots have an expiry posted, leaves all lots as they are.
\<close>

theorem refund_after_expiry:
  assumes "\<forall>l \<in> set (cs_lots s). cl_workspaceId l = rc_workspaceId inp \<longrightarrow>
      lot_expired_at (rc_createdAt inp) l \<or> lot_explicitly_expired (rc_workspaceId inp) (cl_id l) s"
  shows "cs_lots (snd (refundUsageOperation inp s)) = cs_lots s"
  using refund_loop_expired [OF assms]
  by (cases "assert_optional_credits (rc_credits inp)";
      cases "normalizeCreditConsumeIdempotencyKey (rc_usageOperationId inp)")
    (auto simp: refundUsageOperation_def assert_timestamp_def Let_def split: prod.splits sum.splits)

theorem refund_after_expiry_witness:
  "cs_lots (snd (refundUsageOperation (sample_refund ''op'' ''r'' None t_mar) sample_expiring)) =
     cs_lots sample_expiring"
proof -
  have "\<forall>l \<in> set (cs_lots sample_expiring). lot_expired_at t_mar l" by code_simp
  then show ?thesis by (intro refund_after_expiry) (simp add: sample_refund_def)
qed

text \<open>
  Sweeping expired lots is bookkeeping. At the instant of the sweep no expired lot of the
  workspace keeps credits, and the balance of every workspace at that instant is the same before
  and after: the sweep only turns pending expiry into posted expiry.
\<close>

theorem expireLots_keeps_balance:
  assumes "valid_timestamp (xl_now inp)"
  shows "project (snd (expireLots inp s)) ws (xl_now inp) = project s ws (xl_now inp) \<and>
    (\<forall>l \<in> set (cs_lots (snd (expireLots inp s))).
       cl_workspaceId l = xl_workspaceId inp \<and> lot_expired_at (xl_now inp) l \<longrightarrow> cl_remainingCredits l \<le> 0)"
  using expireLots_projection [OF assms] expireLots_empties [OF assms] by blast

theorem expireLots_keeps_balance_witness:
  "project (snd (expireLots (sample_expire t_mar) sample_granted)) ''w'' t_mar =
     project sample_granted ''w'' t_mar \<and>
   cb_expiredCredits (project sample_granted ''w'' t_mar) = 10"
proof
  have "valid_timestamp (xl_now (sample_expire t_mar))" by (simp add: valid_timestamp_iff sample_expire_def)
  from expireLots_keeps_balance [OF this, of sample_granted "''w''"]
  show "project (snd (expireLots (sample_expire t_mar) sample_granted)) ''w'' t_mar =
     project sample_granted ''w'' t_mar" by (simp add: sample_expire_def)
  show "cb_expiredCredits (project sample_granted ''w'' t_mar) = 10" by code_simp
qed

text \<open>
  A grant happens exactly once. After a successful grant (with a source reference that is
  absent or not empty), and after any further calls of the ledger, the same request returns the
  granted lot with all its permanent facts and changes nothing.
\<close>

theorem grant_exactly_once:
  assumes "credit_run any_refund empty_credit_ledger s"
    and "grant inp s = (Inr lot, s1)" and "gc_sourceRef inp \<noteq> Some []"
    and "credit_run any_refund s1 s2"
  shows "\<exists>lot'. grant inp s2 = (Inr lot', s2) \<and> lot_facts lot' = lot_facts lot"
  by (rule grant_again [OF credit_run_inv [OF assms(1)] assms(2,3,4)]) (simp add: same_grant_request_def)

theorem grant_exactly_once_witness:
  "\<exists>lot'. grant (sample_grant ''m'' 10 (Some t_mar)) sample_used = (Inr lot', sample_used) \<and>
     cl_originalCredits lot' = 10"
proof -
  let ?s = "snd (grant (sample_grant ''n'' 10 None) empty_credit_ledger)"
  let ?g = "sample_grant ''m'' 10 (Some t_mar)"
  have run: "credit_run any_refund empty_credit_ledger ?s"
    by (rule run_step [OF run_refl]) (rule step_grant [OF prod.collapse [symmetric]])
  have ok: "grant ?g ?s = (Inr (new_credit_lot ?g ''grant:m''), sample_granted)" by code_simp
  have src: "gc_sourceRef ?g \<noteq> Some []" by (simp add: sample_grant_def)
  have later: "credit_run any_refund sample_granted sample_used"
    unfolding sample_used_def
    by (rule run_step [OF run_refl]) (rule step_consume [OF prod.collapse [symmetric]])
  from grant_exactly_once [OF run ok src later] show ?thesis
    by (auto simp: lot_facts_def new_credit_lot_def sample_grant_def)
qed

text \<open>
  The two key namespaces never meet: the key of a grant and the key of a consumption are
  different whatever the callers pass, so a grant can never be mistaken for a replayed usage.
\<close>

theorem idempotency_namespaces_disjoint:
  assumes "normalizeCreditGrantIdempotencyKey lotId explicit = Inr g"
    and "normalizeCreditConsumeIdempotencyKey value = Inr c"
  shows "g \<noteq> c"
  using assms
  by (auto simp: normalizeCreditGrantIdempotencyKey_def normalizeCreditConsumeIdempotencyKey_def Let_def
      starts_with_def grant_prefix_def consume_prefix_def split: if_splits)

theorem idempotency_namespaces_disjoint_witness:
  "normalizeCreditGrantIdempotencyKey ''m'' None = Inr ''grant:m'' \<and> ''grant:m'' \<noteq> ''consume:m''"
proof
  show g: "normalizeCreditGrantIdempotencyKey ''m'' None = Inr ''grant:m''" by code_simp
  have "normalizeCreditConsumeIdempotencyKey ''m'' = Inr ''consume:m''" by code_simp
  with g show "''grant:m'' \<noteq> ''consume:m''" by (rule idempotency_namespaces_disjoint)
qed

text \<open>
  A later, smaller refund can take credits away. Two lots give ten and five credits to one
  operation; after a refund of ten (which fully refunds the first usage), a refund of four for the same operation
  succeeds, although more than four was refunded already: it writes a refund of minus six credits
  and takes six credits out of the second lot, which is left overdrawn. The loop does not stop once the
  remaining amount is negative.
\<close>

theorem refund_below_zero:
  "let s1 = snd (refundUsageOperation (sample_refund ''op'' ''r1'' (Some 10) t_jan) sample_used_all);
       (r, s2) = refundUsageOperation (sample_refund ''op'' ''r2'' (Some 4) t_jan) s1
   in map cl_remainingCredits (cs_lots s1) = [0, 10] \<and>
      (case r of Inl _ \<Rightarrow> False | Inr ts \<Rightarrow> map ct_credits ts = [10, - 6]) \<and>
      map cl_remainingCredits (cs_lots s2) = [- 6, 10]"
  by code_simp

end
