(* ===== verification/GrantLot.thy ===== *)
theory GrantLot
  imports Domain
begin

text \<open>
  The grant-lot ledger of \<^verbatim>\<open>foundation/grant-lot.ts\<close>: counted allowance per resource, granted in lots
  with an entitlement ceiling that plan changes may lower, consumed first-expiring-first-out,
  refunded, reconciled, expired and repaired. The state of \<^verbatim>\<open>MemoryGrantLotLedger\<close> is its lots, its
  transactions and the set of finished legacy migrations; a reference to a lot is its index.
\<close>

section \<open>Data\<close>

datatype grant_source =
    Plan | Campaign | Purchase | Redemption | Register_gift | Pool_allocation | Support_compensation

record grant_lot =
  gl_id :: string
  gl_workspaceId :: string
  gl_resource :: usage_resource
  gl_originalAmount :: int
  gl_entitlementAmount :: "int option"
  gl_remainingAmount :: int
  gl_expirationDate :: "string option"
  gl_transactionType :: lot_tx_type
  gl_sourceRef :: "string option"
  gl_supplyPoolId :: "string option"
  gl_grantSource :: "grant_source option"
  gl_grantIdempotencyKey :: "string option"
  gl_revision :: "int option"
  gl_createdAt :: string

record grant_lot_tx =
  gt_id :: string
  gt_workspaceId :: string
  gt_resource :: usage_resource
  gt_transactionType :: lot_tx_type
  gt_amount :: int
  gt_lotId :: string
  gt_relatedTransactionId :: "string option"
  gt_operationId :: "string option"
  gt_actorId :: string
  gt_correlationId :: string
  gt_createdAt :: string

record grant_lot_projection =
  gp_resource :: usage_resource
  gp_grantedAmount :: int
  gp_usedAmount :: int
  gp_refundedAmount :: int
  gp_expiredAmount :: int
  gp_remainingAmount :: int

record grant_lot_input =
  gi_id :: string
  gi_workspaceId :: string
  gi_resource :: usage_resource
  gi_amount :: js_number
  gi_expirationDate :: "string option"
  gi_transactionType :: lot_tx_type
  gi_sourceRef :: "string option"
  gi_supplyPoolId :: "string option"
  gi_grantSource :: "grant_source option"
  gi_grantIdempotencyKey :: "string option"
  gi_actorId :: "string option"
  gi_correlationId :: "string option"
  gi_createdAt :: string

record lot_consume_input =
  gu_workspaceId :: string
  gu_resource :: usage_resource
  gu_amount :: js_number
  gu_transactionId :: string
  gu_actorId :: string
  gu_correlationId :: string
  gu_createdAt :: string

record lot_refund_input =
  gr_workspaceId :: string
  gr_usageTransactionId :: string
  gr_refundTransactionId :: string
  gr_amount :: "js_number option"
  gr_actorId :: string
  gr_correlationId :: string
  gr_createdAt :: string

record lot_refund_op_input =
  go_workspaceId :: string
  go_usageOperationId :: string
  go_refundOperationId :: string
  go_amount :: "js_number option"
  go_actorId :: string
  go_correlationId :: string
  go_createdAt :: string

record reconcile_input =
  re_workspaceId :: string
  re_resource :: usage_resource
  re_lotIds :: "string list"
  re_targetAmount :: js_number
  re_expirationDate :: string
  re_operationId :: string
  re_actorId :: string
  re_correlationId :: string
  re_asOf :: string

record migration_input =
  mi_workspaceId :: string
  mi_resource :: usage_resource
  mi_legacyAvailable :: js_number
  mi_legacySnapshotId :: string
  mi_balanceLotId :: string
  mi_createdAt :: string
  mi_asOf :: string

record lot_expire_input =
  ge_workspaceId :: string
  ge_now :: string
  ge_actorId :: string
  ge_correlationId :: string

record grant_lot_ledger =
  gs_lots :: "grant_lot list"
  gs_transactions :: "grant_lot_tx list"
  gs_migrations :: "string set"

definition empty_grant_lot_ledger :: grant_lot_ledger where
  "empty_grant_lot_ledger = \<lparr>gs_lots = [], gs_transactions = [], gs_migrations = {}\<rparr>"

section \<open>Order and allocation\<close>

definition compareCreatedAtAndId :: "grant_lot comparator" where
  "compareCreatedAtAndId l r =
     (case num_sub (date_parse (gl_createdAt l)) (date_parse (gl_createdAt r)) of
        None \<Rightarrow> None
      | Some byCreatedAt \<Rightarrow>
          Some (if byCreatedAt \<noteq> 0 then byCreatedAt else locale_compare (gl_id l) (gl_id r)))"

definition compareGrantLotsForFifo :: "grant_lot comparator" where
  "compareGrantLotsForFifo l r =
     (case (gl_expirationDate l, gl_expirationDate r) of
        (None, None) \<Rightarrow> compareCreatedAtAndId l r
      | (None, Some _) \<Rightarrow> Some 1
      | (Some _, None) \<Rightarrow> Some (- 1)
      | (Some a, Some b) \<Rightarrow>
          (case num_sub (date_parse a) (date_parse b) of
             None \<Rightarrow> None
           | Some byExpiry \<Rightarrow>
               if byExpiry \<noteq> 0 then Some byExpiry else compareCreatedAtAndId l r))"

fun allocate_fifo_loop :: "int \<Rightarrow> grant_lot list \<Rightarrow> (string \<times> int) list" where
  "allocate_fifo_loop remaining [] = []"
| "allocate_fifo_loop remaining (lot # lots) =
     (if remaining \<le> 0 then []
      else let take = min (gl_remainingAmount lot) remaining
           in if take > 0 then (gl_id lot, take) # allocate_fifo_loop (remaining - take) lots
              else allocate_fifo_loop remaining lots)"

definition allocateFifoConsumption :: "grant_lot list \<Rightarrow> js_number \<Rightarrow> (string \<times> int) list" where
  "allocateFifoConsumption lots amount =
     (if \<not> number_isInteger amount \<or> int_of amount \<le> 0 then []
      else allocate_fifo_loop (int_of amount)
             (js_sort compareGrantLotsForFifo (filter (\<lambda>l. gl_remainingAmount l > 0) lots)))"

section \<open>Idempotency keys\<close>

definition normalizeGrantIdempotencyKey :: "string \<Rightarrow> string option \<Rightarrow> string result" where
  "normalizeGrantIdempotencyKey lotId explicit =
     (case explicit of
        Some e \<Rightarrow>
          if \<not> blank e
          then (if starts_with consume_prefix e
                then Inl (P1DomainError INVALID_STATE
                       ''Grant idempotency key must not use the consume: namespace.'')
                else Inr (if starts_with grant_prefix e then e else grant_prefix @ e))
          else Inr (grant_prefix @ lotId)
      | None \<Rightarrow> Inr (grant_prefix @ lotId))"

definition normalizeConsumeIdempotencyKey :: "string \<Rightarrow> string result" where
  "normalizeConsumeIdempotencyKey explicit =
     (if blank explicit
      then Inl (P1DomainError INVALID_STATE ''Consume idempotency key is required.'')
      else if starts_with grant_prefix explicit
      then Inl (P1DomainError INVALID_STATE
             ''Consume idempotency key must not use the grant: namespace.'')
      else Inr explicit)"

definition buildConsumeIdempotencyKey :: "string \<Rightarrow> string result" where
  "buildConsumeIdempotencyKey operationId =
     r_bind (normalizeConsumeIdempotencyKey operationId)
       (\<lambda>normalized. Inr (if starts_with consume_prefix normalized then normalized
                          else consume_prefix @ normalized))"

definition assertIndependentGrantConsumeIdempotencyKeys :: "string \<Rightarrow> string \<Rightarrow> unit result" where
  "assertIndependentGrantConsumeIdempotencyKeys grantKey consumeKey =
     (if blank grantKey \<or> blank consumeKey
      then Inl (P1DomainError INVALID_STATE ''Grant and consume idempotency keys are both required.'')
      else if grantKey = consumeKey
      then Inl (P1DomainError INVALID_STATE ''Grant and consume must use independent idempotency keys.'')
      else if starts_with grant_prefix consumeKey
      then Inl (P1DomainError INVALID_STATE
             ''Consume idempotency key must not use the grant: namespace.'')
      else if starts_with consume_prefix grantKey
      then Inl (P1DomainError INVALID_STATE
             ''Grant idempotency key must not use the consume: namespace.'')
      else Inr ())"

section \<open>Argument checks\<close>

definition assertGrantLotGrantInput :: "grant_lot_input \<Rightarrow> unit result" where
  "assertGrantLotGrantInput inp =
     r_bind (check (\<not> blank (gi_id inp) \<and> \<not> blank (gi_workspaceId inp))
               (P1DomainError INVALID_STATE ''Grant lot identity and workspace are required.''))
       (\<lambda>_. r_bind (check (number_isInteger (gi_amount inp) \<and> int_of (gi_amount inp) > 0)
                     (P1DomainError INVALID_STATE ''Grant lot amount must be a positive integer.''))
       (\<lambda>_. r_bind (check (is_grant (gi_transactionType inp))
                     (P1DomainError INVALID_STATE ''Grant transaction type is invalid.''))
       (\<lambda>_. r_bind (assert_timestamp (gi_createdAt inp) ''createdAt'')
       (\<lambda>_. case gi_expirationDate inp of
              None \<Rightarrow> Inr ()
            | Some e \<Rightarrow>
                r_bind (assert_timestamp e ''expirationDate'')
                  (\<lambda>_. check (\<not> date_le e (gi_createdAt inp))
                     (P1DomainError INVALID_STATE
                        ''Grant expiration must be after its creation time.''))))))"

definition assertGrantLotEntitlementReconciliationInput :: "reconcile_input \<Rightarrow> unit result" where
  "assertGrantLotEntitlementReconciliationInput inp =
     r_bind (check (number_isInteger (re_targetAmount inp) \<and> int_of (re_targetAmount inp) \<ge> 0)
               (P1DomainError INVALID_STATE
                  ''Entitlement target amount must be a non-negative integer.''))
       (\<lambda>_. r_bind (assert_timestamp (re_expirationDate inp) ''expirationDate'')
       (\<lambda>_. r_bind (assert_timestamp (re_asOf inp) ''asOf'')
       (\<lambda>_. check (\<not> blank (re_operationId inp))
              (P1DomainError INVALID_STATE ''Entitlement reconciliation operation is required.''))))"

definition expirationIsSameOrShorter :: "string option \<Rightarrow> string option \<Rightarrow> bool" where
  "expirationIsSameOrShorter current original =
     (if current = original then True
      else case (current, original) of
             (Some c, Some d) \<Rightarrow> date_le c d
           | (_, d) \<Rightarrow> d = None)"

section \<open>The ledger\<close>

definition set_lot :: "nat \<Rightarrow> grant_lot \<Rightarrow> grant_lot_ledger \<Rightarrow> grant_lot_ledger" where
  "set_lot i l s = s\<lparr>gs_lots := (gs_lots s)[i := l]\<rparr>"

definition add_tx :: "grant_lot_tx \<Rightarrow> grant_lot_ledger \<Rightarrow> grant_lot_ledger" where
  "add_tx t s = s\<lparr>gs_transactions := gs_transactions s @ [t]\<rparr>"

text \<open>\<^verbatim>\<open>lot.revision = (lot.revision ?? 1) + 1\<close>, and the ceiling a lot is read with.\<close>

definition bump :: "grant_lot \<Rightarrow> grant_lot" where
  "bump l = l\<lparr>gl_revision := Some ((case gl_revision l of None \<Rightarrow> 1 | Some r \<Rightarrow> r) + 1)\<rparr>"

definition entitlement :: "grant_lot \<Rightarrow> int" where
  "entitlement l = (case gl_entitlementAmount l of None \<Rightarrow> gl_originalAmount l | Some a \<Rightarrow> a)"

definition lot_ref :: "string \<Rightarrow> string \<Rightarrow> grant_lot_ledger \<Rightarrow> nat option" where
  "lot_ref ws lotId s = find_index (\<lambda>l. gl_workspaceId l = ws \<and> gl_id l = lotId) (gs_lots s)"

definition listLots :: "grant_lot_ledger \<Rightarrow> string \<Rightarrow> usage_resource option \<Rightarrow> grant_lot list" where
  "listLots s ws resource =
     filter (\<lambda>l. gl_workspaceId l = ws \<and> (resource = None \<or> resource = Some (gl_resource l))) (gs_lots s)"

definition listTransactions :: "grant_lot_ledger \<Rightarrow> string \<Rightarrow> grant_lot_tx list" where
  "listTransactions s ws = filter (\<lambda>t. gt_workspaceId t = ws) (gs_transactions s)"

definition migration_key :: "string \<Rightarrow> usage_resource \<Rightarrow> string" where
  "migration_key ws resource = ws @ '':'' @ resource_name resource @ '':v1''"

definition isLegacyBalanceMigrated :: "grant_lot_ledger \<Rightarrow> string \<Rightarrow> usage_resource \<Rightarrow> bool" where
  "isLegacyBalanceMigrated s ws resource = (migration_key ws resource \<in> gs_migrations s)"

definition markLegacyBalanceMigrated ::
    "string \<Rightarrow> usage_resource \<Rightarrow> string \<Rightarrow> (grant_lot_ledger, unit) op" where
  "markLegacyBalanceMigrated ws resource completedAt =
     guarded (assert_timestamp completedAt ''completedAt'') (\<lambda>_ s.
       (Inr (), s\<lparr>gs_migrations := insert (migration_key ws resource) (gs_migrations s)\<rparr>))"

text \<open>An absent or empty text is not stored.\<close>

definition present :: "string option \<Rightarrow> string option" where
  "present v = (case v of None \<Rightarrow> None | Some x \<Rightarrow> if x = [] then None else Some x)"

definition new_grant_lot :: "grant_lot_input \<Rightarrow> string \<Rightarrow> grant_lot" where
  "new_grant_lot inp key =
     \<lparr> gl_id = gi_id inp, gl_workspaceId = gi_workspaceId inp, gl_resource = gi_resource inp,
       gl_originalAmount = int_of (gi_amount inp), gl_entitlementAmount = Some (int_of (gi_amount inp)),
       gl_remainingAmount = int_of (gi_amount inp), gl_expirationDate = gi_expirationDate inp,
       gl_transactionType = gi_transactionType inp, gl_sourceRef = present (gi_sourceRef inp),
       gl_supplyPoolId = present (gi_supplyPoolId inp), gl_grantSource = gi_grantSource inp,
       gl_grantIdempotencyKey = Some key, gl_revision = Some 1, gl_createdAt = gi_createdAt inp \<rparr>"

definition grant_lot_grant_tx :: "grant_lot_input \<Rightarrow> string \<Rightarrow> grant_lot_tx" where
  "grant_lot_grant_tx inp key =
     \<lparr> gt_id = ''tx-grant-'' @ gi_id inp, gt_workspaceId = gi_workspaceId inp,
       gt_resource = gi_resource inp, gt_transactionType = gi_transactionType inp,
       gt_amount = int_of (gi_amount inp), gt_lotId = gi_id inp, gt_relatedTransactionId = None,
       gt_operationId = Some key,
       gt_actorId = (case gi_actorId inp of None \<Rightarrow> ''system'' | Some a \<Rightarrow> a),
       gt_correlationId = (case gi_correlationId inp of None \<Rightarrow> ''grant'' | Some c \<Rightarrow> c),
       gt_createdAt = gi_createdAt inp \<rparr>"

definition same_grant :: "grant_lot \<Rightarrow> grant_lot_input \<Rightarrow> string \<Rightarrow> bool" where
  "same_grant existing inp key =
     (gl_resource existing = gi_resource inp \<and>
      JInt (gl_originalAmount existing) = gi_amount inp \<and>
      expirationIsSameOrShorter (gl_expirationDate existing) (gi_expirationDate inp) \<and>
      gl_transactionType existing = gi_transactionType inp \<and>
      gl_sourceRef existing = gi_sourceRef inp \<and>
      gl_createdAt existing = gi_createdAt inp \<and>
      gl_supplyPoolId existing = gi_supplyPoolId inp \<and>
      gl_grantSource existing = gi_grantSource inp \<and>
      (gl_grantIdempotencyKey existing = None \<or> gl_grantIdempotencyKey existing = Some key))"

definition grant :: "grant_lot_input \<Rightarrow> (grant_lot_ledger, grant_lot) op" where
  "grant inp =
     guarded (assertGrantLotGrantInput inp) (\<lambda>_.
     guarded (normalizeGrantIdempotencyKey (gi_id inp) (gi_grantIdempotencyKey inp)) (\<lambda>grantKey s.
       let existingByKey = find (\<lambda>l. gl_workspaceId l = gi_workspaceId inp \<and>
                                     gl_grantIdempotencyKey l = Some grantKey) (gs_lots s);
           existing = (case existingByKey of
                         Some l \<Rightarrow> Some l
                       | None \<Rightarrow> find (\<lambda>l. gl_workspaceId l = gi_workspaceId inp \<and>
                                          gl_id l = gi_id inp) (gs_lots s))
       in case existing of
            Some l \<Rightarrow>
              if same_grant l inp grantKey then (Inr l, s)
              else (Inl (P1DomainError IDEMPOTENCY_CONFLICT
                      (''Grant lot '' @ gi_id inp @ '' already exists with different facts.'')), s)
          | None \<Rightarrow>
              (let lot = new_grant_lot inp grantKey
               in (Inr lot, add_tx (grant_lot_grant_tx inp grantKey)
                              (s\<lparr>gs_lots := gs_lots s @ [lot]\<rparr>)))))"

subsection \<open>Expiry and repair\<close>

definition lot_lapsed :: "string \<Rightarrow> grant_lot \<Rightarrow> bool" where
  "lot_lapsed now l = (case gl_expirationDate l of None \<Rightarrow> False | Some e \<Rightarrow> date_le e now)"

definition lot_live :: "string \<Rightarrow> grant_lot \<Rightarrow> bool" where
  "lot_live now l = (case gl_expirationDate l of None \<Rightarrow> True | Some e \<Rightarrow> date_lt now e)"

definition lot_expire_tx :: "lot_expire_input \<Rightarrow> grant_lot \<Rightarrow> int \<Rightarrow> grant_lot_tx" where
  "lot_expire_tx inp lot amount =
     (let rev = show_int (case gl_revision lot of None \<Rightarrow> 1 | Some r \<Rightarrow> r)
      in \<lparr> gt_id = ''tx-expire-'' @ gl_id lot @ ''-'' @ rev, gt_workspaceId = ge_workspaceId inp,
           gt_resource = gl_resource lot, gt_transactionType = EXPIRE, gt_amount = amount,
           gt_lotId = gl_id lot, gt_relatedTransactionId = None,
           gt_operationId = Some (''expire:'' @ gl_id lot @ '':'' @ rev),
           gt_actorId = ge_actorId inp, gt_correlationId = ge_correlationId inp,
           gt_createdAt = ge_now inp \<rparr>)"

definition void_lot :: "grant_lot \<Rightarrow> grant_lot" where
  "void_lot l = bump (l\<lparr>gl_remainingAmount := 0, gl_entitlementAmount := Some 0\<rparr>)"

fun expire_loop ::
    "lot_expire_input \<Rightarrow> nat list \<Rightarrow> grant_lot_ledger \<Rightarrow> grant_lot_tx list \<times> grant_lot_ledger" where
  "expire_loop inp [] s = ([], s)"
| "expire_loop inp (i # is) s =
     (let amount = gl_remainingAmount (gs_lots s ! i); lot = void_lot (gs_lots s ! i);
          s1 = set_lot i lot s
      in if amount = 0 then expire_loop inp is s1
         else let t = lot_expire_tx inp lot amount;
                  (rest, s') = expire_loop inp is (add_tx t s1)
              in (t # rest, s'))"

definition lapsed_refs :: "lot_expire_input \<Rightarrow> grant_lot_ledger \<Rightarrow> nat list" where
  "lapsed_refs inp s =
     js_sort (\<lambda>i j. compareGrantLotsForFifo (gs_lots s ! i) (gs_lots s ! j))
       (indices_where (\<lambda>l. gl_workspaceId l = ge_workspaceId inp \<and> lot_lapsed (ge_now inp) l \<and>
                           entitlement l > 0) (gs_lots s))"

definition expireLots :: "lot_expire_input \<Rightarrow> (grant_lot_ledger, grant_lot_tx list) op" where
  "expireLots inp =
     guarded (assert_timestamp (ge_now inp) ''now'') (\<lambda>_ s.
       let (ts, s') = expire_loop inp (lapsed_refs inp s) s in (Inr ts, s'))"

text \<open>
  Lots that share a billing period are repaired together, every other lot on its own. The groups
  keep the order in which their keys first occur, like the entries of a \<^verbatim>\<open>Map\<close>.
\<close>

definition cohort_key :: "grant_lot \<Rightarrow> string" where
  "cohort_key l =
     (case gl_expirationDate l of
        Some e \<Rightarrow>
          if gl_transactionType l = GRANT REGISTER_GIFT \<or> gl_transactionType l = GRANT SUBSCRIPTION_RENEWAL
          then ''period:'' @ resource_name (gl_resource l) @ '':'' @
                 (case date_parse e of None \<Rightarrow> ''NaN'' | Some t \<Rightarrow> show_int t)
          else ''lot:'' @ gl_id l
      | None \<Rightarrow> ''lot:'' @ gl_id l)"

fun group_add :: "string \<Rightarrow> nat \<Rightarrow> (string \<times> nat list) list \<Rightarrow> (string \<times> nat list) list" where
  "group_add k i [] = [(k, [i])]"
| "group_add k i ((k', is) # gs) = (if k = k' then (k', is @ [i]) # gs else (k', is) # group_add k i gs)"

fun group_cohorts :: "grant_lot list \<Rightarrow> nat list \<Rightarrow> (string \<times> nat list) list \<Rightarrow> nat list list" where
  "group_cohorts lots [] gs = map snd gs"
| "group_cohorts lots (i # is) gs = group_cohorts lots is (group_add (cohort_key (lots ! i)) i gs)"

definition groupGrantLotCohorts :: "grant_lot list \<Rightarrow> nat list \<Rightarrow> nat list list" where
  "groupGrantLotCohorts lots refs = group_cohorts lots refs []"

definition net_usage :: "string \<Rightarrow> string list \<Rightarrow> grant_lot_tx list \<Rightarrow> int" where
  "net_usage ws lotIds txs =
     sum_list (map (\<lambda>t. case gt_transactionType t of
                          USAGE \<Rightarrow> gt_amount t | REFUND \<Rightarrow> - gt_amount t | _ \<Rightarrow> 0)
       (filter (\<lambda>t. gt_workspaceId t = ws \<and> gt_lotId t \<in> set lotIds) txs))"

fun repair_loop :: "int \<Rightarrow> nat list \<Rightarrow> grant_lot list \<Rightarrow> grant_lot list" where
  "repair_loop usageDebt [] lots = lots"
| "repair_loop usageDebt (i # is) lots =
     (let lot = lots ! i;
          repaired = max 0 (entitlement lot - usageDebt);
          usageDebt' = max 0 (usageDebt - entitlement lot)
      in repair_loop usageDebt' is
           (if gl_remainingAmount lot \<noteq> repaired
            then lots[i := bump (lot\<lparr>gl_remainingAmount := repaired\<rparr>)] else lots))"

definition repair_cohort :: "string \<Rightarrow> grant_lot_tx list \<Rightarrow> nat list \<Rightarrow> grant_lot list \<Rightarrow> grant_lot list" where
  "repair_cohort ws txs cohort lots =
     repair_loop (max 0 (net_usage ws (map (\<lambda>i. gl_id (lots ! i)) cohort) txs))
       (js_sort (\<lambda>i j. compareGrantLotsForFifo (lots ! i) (lots ! j)) cohort) lots"

definition rebuildWorkspaceRemaining :: "string \<Rightarrow> grant_lot_ledger \<Rightarrow> grant_lot_ledger" where
  "rebuildWorkspaceRemaining ws s =
     s\<lparr>gs_lots := fold (repair_cohort ws (gs_transactions s))
         (groupGrantLotCohorts (gs_lots s) (indices_where (\<lambda>l. gl_workspaceId l = ws) (gs_lots s)))
         (gs_lots s)\<rparr>"

definition amount_for :: "(lot_tx_type \<Rightarrow> bool) \<Rightarrow> grant_lot_tx list \<Rightarrow> int" where
  "amount_for P txs = sum_list (map gt_amount (filter (\<lambda>t. P (gt_transactionType t)) txs))"

definition lot_projection :: "grant_lot_ledger \<Rightarrow> string \<Rightarrow> usage_resource \<Rightarrow> grant_lot_projection" where
  "lot_projection s ws resource =
     (let txs = filter (\<lambda>t. gt_workspaceId t = ws \<and> gt_resource t = resource) (gs_transactions s)
      in \<lparr> gp_resource = resource, gp_grantedAmount = amount_for is_grant txs,
           gp_usedAmount = amount_for (\<lambda>t. t = USAGE) txs,
           gp_refundedAmount = amount_for (\<lambda>t. t = REFUND) txs,
           gp_expiredAmount = amount_for (\<lambda>t. t = EXPIRE) txs,
           gp_remainingAmount =
             sum_list (map gl_remainingAmount
               (filter (\<lambda>l. gl_workspaceId l = ws \<and> gl_resource l = resource) (gs_lots s))) \<rparr>)"

text \<open>The resources of a workspace in the code-unit order of their names.\<close>

definition sorted_resources :: "usage_resource list" where
  "sorted_resources = [Audio, Copy, Image, Video]"

definition rebuildProjection :: "lot_expire_input \<Rightarrow> (grant_lot_ledger, grant_lot_projection list) op" where
  "rebuildProjection inp =
     guarded (assert_timestamp (ge_now inp) ''asOf'') (\<lambda>_ s.
       op_bind (expireLots inp)
         (\<lambda>_ s'. (Inr (map (lot_projection s' (ge_workspaceId inp))
                     (filter (\<lambda>r. \<exists>l \<in> set (gs_lots s'). gl_workspaceId l = ge_workspaceId inp \<and>
                                     gl_resource l = r) sorted_resources)), s'))
         (rebuildWorkspaceRemaining (ge_workspaceId inp) s))"

subsection \<open>Consumption\<close>

definition take_from :: "int \<Rightarrow> grant_lot \<Rightarrow> grant_lot" where
  "take_from a l = bump (l\<lparr>gl_remainingAmount := gl_remainingAmount l - a\<rparr>)"

text \<open>
  The loop of \<^verbatim>\<open>consume\<close> and of the legacy migration: take each share from the lot it names and
  write the usage row \<open>mk index lotId amount\<close>. A share whose lot is gone is skipped.
\<close>

fun take_loop ::
    "(nat \<Rightarrow> string \<Rightarrow> int \<Rightarrow> grant_lot_tx) \<Rightarrow> string \<Rightarrow> nat \<Rightarrow> (string \<times> int) list \<Rightarrow>
       grant_lot_ledger \<Rightarrow> grant_lot_tx list \<times> grant_lot_ledger" where
  "take_loop mk ws index [] s = ([], s)"
| "take_loop mk ws index ((lotId, amount) # rest) s =
     (case lot_ref ws lotId s of
        None \<Rightarrow> take_loop mk ws (Suc index) rest s
      | Some i \<Rightarrow>
          (let t = mk index lotId amount;
               (ts, s') = take_loop mk ws (Suc index) rest
                            (add_tx t (set_lot i (take_from amount (gs_lots s ! i)) s))
           in (t # ts, s')))"

definition lot_usage_tx :: "lot_consume_input \<Rightarrow> string \<Rightarrow> nat \<Rightarrow> string \<Rightarrow> int \<Rightarrow> grant_lot_tx" where
  "lot_usage_tx inp consumeKey index lotId amount =
     \<lparr> gt_id = consumeKey @ '':'' @ show_nat index, gt_workspaceId = gu_workspaceId inp,
       gt_resource = gu_resource inp, gt_transactionType = USAGE, gt_amount = amount,
       gt_lotId = lotId, gt_relatedTransactionId = None, gt_operationId = Some consumeKey,
       gt_actorId = gu_actorId inp, gt_correlationId = gu_correlationId inp,
       gt_createdAt = gu_createdAt inp \<rparr>"

definition is_lot_usage_of :: "string \<Rightarrow> string \<Rightarrow> grant_lot_tx \<Rightarrow> bool" where
  "is_lot_usage_of ws operationId t \<longleftrightarrow>
     gt_workspaceId t = ws \<and> gt_transactionType t = USAGE \<and> gt_operationId t = Some operationId"

fun assert_independent_of_lots :: "string \<Rightarrow> string \<Rightarrow> grant_lot list \<Rightarrow> unit result" where
  "assert_independent_of_lots ws consumeKey [] = Inr ()"
| "assert_independent_of_lots ws consumeKey (l # ls) =
     (case gl_grantIdempotencyKey l of
        Some k \<Rightarrow>
          if gl_workspaceId l = ws
          then r_bind (assertIndependentGrantConsumeIdempotencyKeys k consumeKey)
                 (\<lambda>_. assert_independent_of_lots ws consumeKey ls)
          else assert_independent_of_lots ws consumeKey ls
      | None \<Rightarrow> assert_independent_of_lots ws consumeKey ls)"

definition consume_expire :: "lot_consume_input \<Rightarrow> lot_expire_input" where
  "consume_expire inp =
     \<lparr> ge_workspaceId = gu_workspaceId inp, ge_now = gu_createdAt inp, ge_actorId = gu_actorId inp,
       ge_correlationId = gu_correlationId inp \<rparr>"

definition consumable_refs :: "lot_consume_input \<Rightarrow> grant_lot_ledger \<Rightarrow> nat list" where
  "consumable_refs inp s =
     indices_where (\<lambda>l. gl_workspaceId l = gu_workspaceId inp \<and> gl_resource l = gu_resource inp \<and>
                        gl_remainingAmount l > 0 \<and> lot_live (gu_createdAt inp) l) (gs_lots s)"

definition consume :: "lot_consume_input \<Rightarrow> (grant_lot_ledger, grant_lot_tx list) op" where
  "consume inp =
     guarded (check (number_isInteger (gu_amount inp) \<and> int_of (gu_amount inp) > 0)
                (P1DomainError INVALID_STATE ''Usage amount must be a positive integer.'')) (\<lambda>_.
     guarded (assert_timestamp (gu_createdAt inp) ''createdAt'') (\<lambda>_.
     guarded (normalizeConsumeIdempotencyKey (gu_transactionId inp)) (\<lambda>consumeKey s.
     guarded (assert_independent_of_lots (gu_workspaceId inp) consumeKey (gs_lots s)) (\<lambda>_ s.
       let replay = filter (is_lot_usage_of (gu_workspaceId inp) consumeKey) (gs_transactions s)
       in if replay \<noteq> []
          then (if sum_list (map gt_amount replay) \<noteq> int_of (gu_amount inp) \<or>
                   (\<exists>t \<in> set replay. gt_resource t \<noteq> gu_resource inp)
                then (Inl (P1DomainError IDEMPOTENCY_CONFLICT
                        ''Usage operation was replayed with different facts.''), s)
                else (Inr replay, s))
          else
            let refs = consumable_refs inp s
            in op_bind (expireLots (consume_expire inp)) (\<lambda>_ s1.
                 let allocations =
                       allocateFifoConsumption
                         (filter (\<lambda>l. gl_remainingAmount l > 0) (map (\<lambda>i. gs_lots s1 ! i) refs))
                         (gu_amount inp)
                 in if sum_list (map snd allocations) \<noteq> int_of (gu_amount inp)
                    then (Inl (P1DomainError INSUFFICIENT_ENTITLEMENT
                            (''Insufficient '' @ resource_name (gu_resource inp) @ '' allowance.'')), s1)
                    else let (ts, s2) = take_loop (lot_usage_tx inp consumeKey) (gu_workspaceId inp) 0
                                          allocations s1
                         in (Inr ts, s2)) s) s)))"

subsection \<open>Legacy migration\<close>

definition migration_tx :: "migration_input \<Rightarrow> string \<Rightarrow> nat \<Rightarrow> string \<Rightarrow> int \<Rightarrow> grant_lot_tx" where
  "migration_tx inp operationId index lotId amount =
     \<lparr> gt_id = operationId @ '':'' @ show_nat index, gt_workspaceId = mi_workspaceId inp,
       gt_resource = mi_resource inp, gt_transactionType = USAGE, gt_amount = amount,
       gt_lotId = lotId, gt_relatedTransactionId = None, gt_operationId = Some operationId,
       gt_actorId = ''system-legacy-grant-migration'',
       gt_correlationId = ''legacy-grant-migration:'' @ mi_workspaceId inp,
       gt_createdAt = mi_asOf inp \<rparr>"

definition mirrored :: "migration_input \<Rightarrow> grant_lot \<Rightarrow> bool" where
  "mirrored inp l \<longleftrightarrow>
     gl_workspaceId l = mi_workspaceId inp \<and> gl_resource l = mi_resource inp \<and>
     gl_transactionType l \<noteq> GRANT REDEMPTION_CODE"

definition balance_grant :: "migration_input \<Rightarrow> int \<Rightarrow> grant_lot_input" where
  "balance_grant inp missingBalance =
     \<lparr> gi_id = mi_balanceLotId inp, gi_workspaceId = mi_workspaceId inp, gi_resource = mi_resource inp,
       gi_amount = JInt missingBalance, gi_expirationDate = None,
       gi_transactionType = GRANT PURCHASE_PACKAGE,
       gi_sourceRef = Some (''legacy-usage-balance:'' @ resource_name (mi_resource inp) @ '':v1''),
       gi_supplyPoolId = None, gi_grantSource = None, gi_grantIdempotencyKey = None,
       gi_actorId = Some ''system-legacy-grant-migration'',
       gi_correlationId = Some (''legacy-grant-migration:'' @ mi_workspaceId inp),
       gi_createdAt = mi_createdAt inp \<rparr>"

definition migrate_body :: "migration_input \<Rightarrow> (grant_lot_ledger, unit) op" where
  "migrate_body inp s =
     (let mirroredLots = filter (mirrored inp) (gs_lots s);
          mirroredRemaining = sum_list (map gl_remainingAmount mirroredLots);
          historicalUsage = max 0 (mirroredRemaining - int_of (mi_legacyAvailable inp));
          missingBalance = max 0 (int_of (mi_legacyAvailable inp) - mirroredRemaining);
          operationId = ''legacy-usage-migration:'' @ resource_name (mi_resource inp) @ '':'' @
                          mi_legacySnapshotId inp;
          mark = markLegacyBalanceMigrated (mi_workspaceId inp) (mi_resource inp) (mi_asOf inp)
      in if historicalUsage > 0
         then mark (snd (take_loop (migration_tx inp operationId) (mi_workspaceId inp) 0
                           (allocateFifoConsumption mirroredLots (JInt historicalUsage)) s))
         else if missingBalance > 0
         then op_bind (grant (balance_grant inp missingBalance)) (\<lambda>_. mark) s
         else mark s)"

definition migrateLegacyBalance :: "migration_input \<Rightarrow> (grant_lot_ledger, unit) op" where
  "migrateLegacyBalance inp s =
     (if isLegacyBalanceMigrated s (mi_workspaceId inp) (mi_resource inp) then (Inr (), s)
      else
        guarded (check (number_isInteger (mi_legacyAvailable inp) \<and> int_of (mi_legacyAvailable inp) \<ge> 0)
                   (P1DomainError INVALID_STATE
                      ''Legacy available balance must be a non-negative integer.'')) (\<lambda>_.
        guarded (assert_timestamp (mi_createdAt inp) ''createdAt'') (\<lambda>_.
        guarded (assert_timestamp (mi_asOf inp) ''asOf'') (\<lambda>_.
          atomically (migrate_body inp)))) s)"

subsection \<open>Refund\<close>

definition is_lot_refund_of :: "string \<Rightarrow> string \<Rightarrow> grant_lot_tx \<Rightarrow> bool" where
  "is_lot_refund_of ws usageId t \<longleftrightarrow>
     gt_workspaceId t = ws \<and> gt_transactionType t = REFUND \<and> gt_relatedTransactionId t = Some usageId"

definition lot_refund_tx :: "lot_refund_input \<Rightarrow> grant_lot_tx \<Rightarrow> int \<Rightarrow> grant_lot_tx" where
  "lot_refund_tx inp usage amount =
     \<lparr> gt_id = gr_refundTransactionId inp, gt_workspaceId = gr_workspaceId inp,
       gt_resource = gt_resource usage, gt_transactionType = REFUND, gt_amount = amount,
       gt_lotId = gt_lotId usage, gt_relatedTransactionId = Some (gt_id usage),
       gt_operationId = Some (gr_refundTransactionId inp), gt_actorId = gr_actorId inp,
       gt_correlationId = gr_correlationId inp, gt_createdAt = gr_createdAt inp \<rparr>"

definition refund_expire :: "lot_refund_input \<Rightarrow> lot_expire_input" where
  "refund_expire inp =
     \<lparr> ge_workspaceId = gr_workspaceId inp, ge_now = gr_createdAt inp, ge_actorId = gr_actorId inp,
       ge_correlationId = gr_correlationId inp \<rparr>"

definition refund_amount :: "lot_refund_input \<Rightarrow> grant_lot_tx \<Rightarrow> js_number" where
  "refund_amount inp usage = (case gr_amount inp of None \<Rightarrow> JInt (gt_amount usage) | Some a \<Rightarrow> a)"

definition refundUsage :: "lot_refund_input \<Rightarrow> (grant_lot_ledger, grant_lot_tx option) op" where
  "refundUsage inp =
     guarded (assert_timestamp (gr_createdAt inp) ''createdAt'') (\<lambda>_ s.
       case find (is_lot_refund_of (gr_workspaceId inp) (gr_usageTransactionId inp)) (gs_transactions s) of
         Some already \<Rightarrow> (Inr (Some already), s)
       | None \<Rightarrow>
           (case find (\<lambda>t. gt_id t = gr_usageTransactionId inp \<and> gt_workspaceId t = gr_workspaceId inp \<and>
                           gt_transactionType t = USAGE) (gs_transactions s) of
              None \<Rightarrow> (Inr None, s)
            | Some usage \<Rightarrow>
                (case lot_ref (gr_workspaceId inp) (gt_lotId usage) s of
                   None \<Rightarrow> (Inr None, s)
                 | Some _ \<Rightarrow>
                     (let amount = refund_amount inp usage
                      in if \<not> (number_isInteger amount \<and> int_of amount > 0 \<and> int_of amount \<le> gt_amount usage)
                         then (Inl (P1DomainError INVALID_STATE
                                 ''Grant lot refund amount must be within the usage transaction.''), s)
                         else if \<exists>t \<in> set (gs_transactions s). gt_workspaceId t = gr_workspaceId inp \<and>
                                   gt_id t = gr_refundTransactionId inp
                         then (Inl (P1DomainError IDEMPOTENCY_CONFLICT
                                 (''Grant transaction '' @ gr_refundTransactionId inp @ '' already exists.'')), s)
                         else let t = lot_refund_tx inp usage (int_of amount)
                              in op_bind (expireLots (refund_expire inp)) (\<lambda>_ s'. (Inr (Some t), s'))
                                   (rebuildWorkspaceRemaining (gr_workspaceId inp) (add_tx t s))))))"

definition refund_step_input :: "lot_refund_op_input \<Rightarrow> nat \<Rightarrow> grant_lot_tx \<Rightarrow> int \<Rightarrow> lot_refund_input" where
  "refund_step_input inp index usage amount =
     \<lparr> gr_workspaceId = go_workspaceId inp, gr_usageTransactionId = gt_id usage,
       gr_refundTransactionId = go_refundOperationId inp @ '':'' @ show_nat index,
       gr_amount = Some (JInt amount), gr_actorId = go_actorId inp,
       gr_correlationId = go_correlationId inp, gr_createdAt = go_createdAt inp \<rparr>"

fun lot_refund_loop ::
    "lot_refund_op_input \<Rightarrow> nat \<Rightarrow> int option \<Rightarrow> grant_lot_tx list \<Rightarrow>
       (grant_lot_ledger, grant_lot_tx list \<times> int option) op" where
  "lot_refund_loop inp index remaining [] s = (Inr ([], remaining), s)"
| "lot_refund_loop inp index remaining (usage # usages) s =
     (if remaining = Some 0 then (Inr ([], remaining), s)
      else
        let amount = (case remaining of None \<Rightarrow> gt_amount usage | Some r \<Rightarrow> min (gt_amount usage) r)
        in case refundUsage (refund_step_input inp index usage amount) s of
             (Inl e, s') \<Rightarrow> (Inl e, s')
           | (Inr None, s') \<Rightarrow> lot_refund_loop inp (Suc index) remaining usages s'
           | (Inr (Some refund), s') \<Rightarrow>
               (case lot_refund_loop inp (Suc index)
                       (map_option (\<lambda>r. r - gt_amount refund) remaining) usages s' of
                  (Inl e, s'') \<Rightarrow> (Inl e, s'')
                | (Inr (ts, rem), s'') \<Rightarrow> (Inr (refund # ts, rem), s'')))"

definition refundUsageOperation :: "lot_refund_op_input \<Rightarrow> (grant_lot_ledger, grant_lot_tx list) op" where
  "refundUsageOperation inp =
     guarded (check (case go_amount inp of None \<Rightarrow> True
                     | Some a \<Rightarrow> number_isInteger a \<and> int_of a > 0)
                (P1DomainError INVALID_STATE ''Refund amount must be a positive integer.'')) (\<lambda>_ s.
       let usages = filter (is_lot_usage_of (go_workspaceId inp) (go_usageOperationId inp)) (gs_transactions s)
       in case lot_refund_loop inp 0 (map_option int_of (go_amount inp)) usages s of
            (Inl e, s') \<Rightarrow> (Inl e, s')
          | (Inr (refunds, remaining), s') \<Rightarrow>
              if remaining \<noteq> None \<and> remaining \<noteq> Some 0
              then (Inl (P1DomainError INVALID_STATE ''Refund amount exceeds the usage operation.''), s')
              else (Inr refunds, s'))"

subsection \<open>Entitlement reconciliation\<close>

definition selected_refs :: "reconcile_input \<Rightarrow> grant_lot_ledger \<Rightarrow> nat list" where
  "selected_refs inp s =
     List.map_filter (\<lambda>lotId. find_index (\<lambda>l. gl_workspaceId l = re_workspaceId inp \<and>
                                gl_resource l = re_resource inp \<and> gl_id l = lotId) (gs_lots s))
       (re_lotIds inp)"

definition shorten_lot :: "string \<Rightarrow> grant_lot \<Rightarrow> grant_lot" where
  "shorten_lot e l =
     (if (case gl_expirationDate l of None \<Rightarrow> True | Some d \<Rightarrow> date_lt e d)
      then bump (l\<lparr>gl_expirationDate := Some e\<rparr>) else l)"

fun shorten_loop :: "string \<Rightarrow> nat list \<Rightarrow> grant_lot_ledger \<Rightarrow> grant_lot_ledger" where
  "shorten_loop e [] s = s"
| "shorten_loop e (i # is) s = shorten_loop e is (set_lot i (shorten_lot e (gs_lots s ! i)) s)"

definition newest_first :: "grant_lot comparator" where
  "newest_first l r =
     (case num_sub (date_parse (gl_createdAt r)) (date_parse (gl_createdAt l)) of
        None \<Rightarrow> None
      | Some created \<Rightarrow> Some (if created \<noteq> 0 then created else locale_compare (gl_id r) (gl_id l)))"

definition reconcile_tx :: "reconcile_input \<Rightarrow> nat \<Rightarrow> string \<Rightarrow> int \<Rightarrow> grant_lot_tx" where
  "reconcile_tx inp index lotId amount =
     \<lparr> gt_id = re_operationId inp @ '':'' @ show_nat index, gt_workspaceId = re_workspaceId inp,
       gt_resource = re_resource inp, gt_transactionType = EXPIRE, gt_amount = amount,
       gt_lotId = lotId, gt_relatedTransactionId = None, gt_operationId = Some (re_operationId inp),
       gt_actorId = re_actorId inp, gt_correlationId = re_correlationId inp, gt_createdAt = re_asOf inp \<rparr>"

text \<open>One lot of the reduction loop: its lowered ceiling, and what of the reduction was unused.\<close>

definition cut_lot :: "int \<Rightarrow> int \<Rightarrow> grant_lot \<Rightarrow> grant_lot" where
  "cut_lot capReduction amount l =
     bump (l\<lparr>gl_entitlementAmount := Some (entitlement l - capReduction),
             gl_remainingAmount := gl_remainingAmount l - amount\<rparr>)"

fun reduce_loop ::
    "reconcile_input \<Rightarrow> int \<Rightarrow> grant_lot_tx list \<Rightarrow> nat list \<Rightarrow> grant_lot_ledger \<Rightarrow>
       grant_lot_tx list \<times> grant_lot_ledger" where
  "reduce_loop inp amountToReduce written [] s = (written, s)"
| "reduce_loop inp amountToReduce written (i # is) s =
     (if amountToReduce = 0 then (written, s)
      else
        let lot = gs_lots s ! i;
            capReduction = min amountToReduce (entitlement lot);
            amount = min (gl_remainingAmount lot) capReduction;
            s1 = set_lot i (cut_lot capReduction amount lot) s
        in if amount = 0
           then reduce_loop inp (amountToReduce - capReduction) written is s1
           else let t = reconcile_tx inp (length written) (gl_id lot) amount
                in reduce_loop inp (amountToReduce - capReduction) (written @ [t]) is (add_tx t s1))"

definition reconcileEntitlementLots :: "reconcile_input \<Rightarrow> (grant_lot_ledger, grant_lot_tx list) op" where
  "reconcileEntitlementLots inp =
     guarded (assertGrantLotEntitlementReconciliationInput inp) (\<lambda>_ s.
       let selected = selected_refs inp s;
           s1 = shorten_loop (re_expirationDate inp) selected s;
           replay = filter (\<lambda>t. gt_workspaceId t = re_workspaceId inp \<and> gt_transactionType t = EXPIRE \<and>
                                gt_operationId t = Some (re_operationId inp)) (gs_transactions s1)
       in if replay \<noteq> []
          then (Inr replay, rebuildWorkspaceRemaining (re_workspaceId inp) s1)
          else
            let currentEntitlement = sum_list (map (\<lambda>i. entitlement (gs_lots s1 ! i)) selected);
                effectiveTarget = (if date_le (re_expirationDate inp) (re_asOf inp) then 0
                                   else int_of (re_targetAmount inp));
                newestFirst = js_sort (\<lambda>i j. newest_first (gs_lots s1 ! i) (gs_lots s1 ! j)) selected;
                (written, s2) = reduce_loop inp (max 0 (currentEntitlement - effectiveTarget)) []
                                  newestFirst s1
            in (Inr written, rebuildWorkspaceRemaining (re_workspaceId inp) s2))"

subsection \<open>Serialisation\<close>

definition lot_runAtomically :: "(grant_lot_ledger, 'a) op \<Rightarrow> (grant_lot_ledger, 'a) op" where
  "lot_runAtomically work = atomically work"

definition withResourceLocks ::
    "string \<Rightarrow> usage_resource list \<Rightarrow> (grant_lot_ledger, 'a) op \<Rightarrow> (grant_lot_ledger, 'a) op" where
  "withResourceLocks ws resources work = lot_runAtomically work"

end
