(* ===== verification/GrantLotCorrect.thy ===== *)
theory GrantLotCorrect
  imports GrantLot
begin

text \<open>
  Correctness of the grant-lot ledger: every operation lets lots evolve only downwards in their
  entitlement and expiry while the remaining amount stays between zero and the entitlement; the
  repair of a cohort is the first-in-first-out allocation of its usage; consumption, legacy
  migration, refund and reconciliation do what they promise.
\<close>

section \<open>Order\<close>

definition glot_dates_ok :: "grant_lot \<Rightarrow> bool" where
  "glot_dates_ok l \<longleftrightarrow> dates_ok (gl_expirationDate l) (gl_createdAt l)"

definition glot_key :: "grant_lot \<Rightarrow> (int \<times> int) \<times> int \<times> (nat list \<times> nat list)" where
  "glot_key l = fefo_key (gl_expirationDate l) (gl_createdAt l) (gl_id l)"

lemma compareGrantLotsForFifo_eq:
  "compareGrantLotsForFifo l r =
     fefo_compare (gl_expirationDate l) (gl_createdAt l) (gl_id l)
       (gl_expirationDate r) (gl_createdAt r) (gl_id r)"
  by (auto simp: compareGrantLotsForFifo_def compareCreatedAtAndId_def fefo_compare_def Let_def
      split: option.splits)

lemma cmp_le_grant_lots:
  "glot_dates_ok l \<Longrightarrow> glot_dates_ok r \<Longrightarrow>
    cmp_le compareGrantLotsForFifo l r \<longleftrightarrow> glot_key l \<le> glot_key r"
  unfolding cmp_le_def compareGrantLotsForFifo_eq glot_key_def
  by (rule fefo_compare_le_iff) (simp_all add: glot_dates_ok_def)

interpretation fifo: js_comparator compareGrantLotsForFifo glot_dates_ok
  by unfold_locales (auto simp: cmp_le_grant_lots)

interpretation fifo_alloc: lot_allocation gl_id gl_remainingAmount allocate_fifo_loop
  by unfold_locales (auto simp: Let_def)

section \<open>Evolution of lots\<close>

definition glot_ident :: "grant_lot \<Rightarrow> string \<times> string" where
  "glot_ident l = (gl_workspaceId l, gl_id l)"

definition glot_fixed where
  "glot_fixed l = (glot_ident l, gl_resource l, gl_originalAmount l, gl_transactionType l,
     gl_sourceRef l, gl_supplyPoolId l, gl_grantSource l, gl_grantIdempotencyKey l, gl_createdAt l)"

definition lot_bounds :: "grant_lot \<Rightarrow> bool" where
  "lot_bounds l \<longleftrightarrow> 0 \<le> gl_remainingAmount l \<and> gl_remainingAmount l \<le> entitlement l \<and>
     entitlement l \<le> gl_originalAmount l \<and> glot_dates_ok l"

text \<open>
  A later state of a lot: its permanent facts, and if it was within bounds then it still is, with
  a ceiling and an expiry that did not grow.
\<close>

definition lot_evolves :: "grant_lot \<Rightarrow> grant_lot \<Rightarrow> bool" where
  "lot_evolves l l' \<longleftrightarrow> glot_fixed l' = glot_fixed l \<and>
     (lot_bounds l \<longrightarrow> lot_bounds l' \<and> entitlement l' \<le> entitlement l \<and>
        expirationIsSameOrShorter (gl_expirationDate l') (gl_expirationDate l))"

lemma same_or_shorter_refl [simp]: "expirationIsSameOrShorter e e"
  by (simp add: expirationIsSameOrShorter_def)

lemma same_or_shorter_trans:
  "expirationIsSameOrShorter a b \<Longrightarrow> expirationIsSameOrShorter b c \<Longrightarrow> expirationIsSameOrShorter a c"
  by (auto simp: expirationIsSameOrShorter_def date_le_iff split: if_splits option.splits)

lemma lot_evolves_refl [simp]: "lot_evolves l l"
  by (simp add: lot_evolves_def)

lemma lot_evolves_trans: "lot_evolves a b \<Longrightarrow> lot_evolves b c \<Longrightarrow> lot_evolves a c"
  by (auto simp: lot_evolves_def intro: same_or_shorter_trans)

definition lots_evolve :: "grant_lot list \<Rightarrow> grant_lot list \<Rightarrow> bool" where
  "lots_evolve = list_all2 lot_evolves"

lemma lots_evolve_refl [simp]: "lots_evolve ls ls"
  by (simp add: lots_evolve_def list_all2_refl)

lemma lots_evolve_trans [trans]: "lots_evolve a b \<Longrightarrow> lots_evolve b c \<Longrightarrow> lots_evolve a c"
  unfolding lots_evolve_def using list_all2_trans lot_evolves_trans by blast

lemma lots_evolve_update:
  "(i < length ls \<Longrightarrow> lot_evolves (ls ! i) l) \<Longrightarrow> lots_evolve ls (ls[i := l])"
  by (cases "i < length ls") (auto simp: lots_evolve_def list_all2_conv_all_nth nth_list_update)

lemma lots_evolve_length: "lots_evolve a b \<Longrightarrow> length b = length a"
  by (simp add: lots_evolve_def list_all2_lengthD)

lemma lots_evolve_nth: "lots_evolve a b \<Longrightarrow> i < length a \<Longrightarrow> lot_evolves (a ! i) (b ! i)"
  by (simp add: lots_evolve_def list_all2_nthD)

lemma lots_evolve_fixed: "lots_evolve a b \<Longrightarrow> map glot_fixed b = map glot_fixed a"
  unfolding lots_evolve_def by (induction rule: list_all2_induct) (auto simp: lot_evolves_def)

lemma lots_evolve_bounds: "lots_evolve a b \<Longrightarrow> \<forall>l \<in> set a. lot_bounds l \<Longrightarrow> \<forall>l \<in> set b. lot_bounds l"
  unfolding lots_evolve_def by (induction rule: list_all2_induct) (auto simp: lot_evolves_def)

lemma bump_simps [simp]:
  "gl_remainingAmount (bump l) = gl_remainingAmount l"
  "gl_entitlementAmount (bump l) = gl_entitlementAmount l"
  "gl_expirationDate (bump l) = gl_expirationDate l"
  "gl_originalAmount (bump l) = gl_originalAmount l"
  "gl_createdAt (bump l) = gl_createdAt l"
  "gl_id (bump l) = gl_id l"
  "gl_workspaceId (bump l) = gl_workspaceId l"
  "gl_resource (bump l) = gl_resource l"
  "gl_transactionType (bump l) = gl_transactionType l"
  "glot_fixed (bump l) = glot_fixed l"
  "entitlement (bump l) = entitlement l"
  "glot_dates_ok (bump l) = glot_dates_ok l"
  by (simp_all add: bump_def glot_fixed_def glot_ident_def entitlement_def glot_dates_ok_def
      split: option.splits)

lemma lot_update_simps [simp]:
  "entitlement (l\<lparr>gl_remainingAmount := x\<rparr>) = entitlement l"
  "entitlement (l\<lparr>gl_expirationDate := e\<rparr>) = entitlement l"
  "entitlement (l\<lparr>gl_entitlementAmount := Some c\<rparr>) = c"
  "glot_fixed (l\<lparr>gl_remainingAmount := x\<rparr>) = glot_fixed l"
  "glot_fixed (l\<lparr>gl_expirationDate := e\<rparr>) = glot_fixed l"
  "glot_fixed (l\<lparr>gl_entitlementAmount := a\<rparr>) = glot_fixed l"
  "glot_dates_ok (l\<lparr>gl_remainingAmount := x\<rparr>) = glot_dates_ok l"
  "glot_dates_ok (l\<lparr>gl_entitlementAmount := a\<rparr>) = glot_dates_ok l"
  "glot_dates_ok (l\<lparr>gl_expirationDate := e\<rparr>) = dates_ok e (gl_createdAt l)"
  by (simp_all add: glot_fixed_def glot_ident_def entitlement_def glot_dates_ok_def
      split: option.splits)

lemma ledger_lot_simps [simp]:
  "gs_lots (set_lot i l s) = (gs_lots s)[i := l]"
  "gs_transactions (set_lot i l s) = gs_transactions s"
  "gs_migrations (set_lot i l s) = gs_migrations s"
  "gs_lots (add_tx t s) = gs_lots s"
  "gs_transactions (add_tx t s) = gs_transactions s @ [t]"
  "gs_migrations (add_tx t s) = gs_migrations s"
  by (simp_all add: set_lot_def add_tx_def)

lemma lot_update_swap [simp]:
  "entitlement (l\<lparr>gl_remainingAmount := x, gl_entitlementAmount := Some c\<rparr>) = c"
  "entitlement (l\<lparr>gl_entitlementAmount := Some c, gl_remainingAmount := x\<rparr>) = c"
  by (simp_all add: entitlement_def)

lemmas evolve_defs = lot_evolves_def lot_bounds_def

lemma void_lot_evolves: "lot_evolves l (void_lot l)"
  by (auto simp: evolve_defs void_lot_def)

lemma repaired_evolves:
  "0 \<le> debt \<Longrightarrow> lot_evolves l (bump (l\<lparr>gl_remainingAmount := max 0 (entitlement l - debt)\<rparr>))"
  by (auto simp: evolve_defs)

lemma take_from_evolves:
  "0 \<le> a \<Longrightarrow> a \<le> gl_remainingAmount l \<Longrightarrow> lot_evolves l (take_from a l)"
  by (auto simp: evolve_defs take_from_def)

lemma shorten_lot_evolves: "date_parse e \<noteq> None \<Longrightarrow> lot_evolves l (shorten_lot e l)"
  by (auto simp: evolve_defs shorten_lot_def glot_dates_ok_def dates_ok_def
      expirationIsSameOrShorter_def date_lt_iff date_le_iff split: option.splits)

lemma cut_lot_evolves:
  "0 \<le> n \<Longrightarrow> lot_evolves l (cut_lot (min n (entitlement l))
     (min (gl_remainingAmount l) (min n (entitlement l))) l)"
  by (auto simp: evolve_defs cut_lot_def min_def)

section \<open>The loops\<close>

lemma expire_loop_evolves: "lots_evolve (gs_lots s) (gs_lots (snd (expire_loop inp is s)))"
proof (induction "is" arbitrary: s)
  case Nil
  then show ?case by simp
next
  case (Cons i "is")
  let ?s = "set_lot i (void_lot (gs_lots s ! i)) s"
  have step: "lots_evolve (gs_lots s) (gs_lots ?s)"
    by (simp add: lots_evolve_update void_lot_evolves)
  show ?case
    using Cons.IH [of ?s] Cons.IH [of "add_tx _ ?s"] lots_evolve_trans [OF step]
    by (simp add: Let_def split_def)
qed

lemma expireLots_evolves: "lots_evolve (gs_lots s) (gs_lots (snd (expireLots inp s)))"
  using expire_loop_evolves [of s inp "lapsed_refs inp s"]
  by (auto simp: expireLots_def assert_timestamp_def split_def Let_def)

lemma repair_loop_evolves: "0 \<le> debt \<Longrightarrow> lots_evolve ls (repair_loop debt is ls)"
proof (induction "is" arbitrary: debt ls)
  case Nil
  then show ?case by simp
next
  case (Cons i "is")
  let ?l = "bump ((ls ! i)\<lparr>gl_remainingAmount := max 0 (entitlement (ls ! i) - debt)\<rparr>)"
  have step: "lots_evolve ls (ls[i := ?l])"
    using Cons.prems by (simp add: lots_evolve_update repaired_evolves)
  have IH: "lots_evolve ls' (repair_loop (max 0 (debt - entitlement (ls ! i))) is ls')" for ls'
    by (rule Cons.IH) simp
  show ?case
    using IH [of ls] lots_evolve_trans [OF step IH] by (simp add: Let_def)
qed

lemma fold_evolves:
  "(\<And>c ls. lots_evolve ls (f c ls)) \<Longrightarrow> lots_evolve ls (fold f cs ls)"
  by (induction cs arbitrary: ls) (auto intro: lots_evolve_trans)

lemma rebuild_evolves: "lots_evolve (gs_lots s) (gs_lots (rebuildWorkspaceRemaining ws s))"
  unfolding rebuildWorkspaceRemaining_def
  by (auto simp: repair_cohort_def intro!: fold_evolves repair_loop_evolves)

lemma shorten_loop_evolves:
  "date_parse e \<noteq> None \<Longrightarrow> lots_evolve (gs_lots s) (gs_lots (shorten_loop e is s))"
proof (induction "is" arbitrary: s)
  case Nil
  then show ?case by simp
next
  case (Cons i "is")
  have "lots_evolve (gs_lots s) (gs_lots (set_lot i (shorten_lot e (gs_lots s ! i)) s))"
    using Cons.prems by (simp add: lots_evolve_update shorten_lot_evolves)
  also have "lots_evolve \<dots> (gs_lots (shorten_loop e (i # is) s))"
    using Cons.IH [OF Cons.prems, of "set_lot i (shorten_lot e (gs_lots s ! i)) s"] by simp
  finally show ?case .
qed

lemma reduce_loop_evolves:
  "0 \<le> n \<Longrightarrow> lots_evolve (gs_lots s) (gs_lots (snd (reduce_loop inp n written is s)))"
proof (induction "is" arbitrary: n written s)
  case Nil
  then show ?case by simp
next
  case (Cons i "is")
  let ?lot = "gs_lots s ! i"
  let ?cap = "min n (entitlement ?lot)"
  define amt where "amt = min (gl_remainingAmount ?lot) ?cap"
  let ?s1 = "set_lot i (cut_lot ?cap amt ?lot) s"
  have step: "lots_evolve (gs_lots s) (gs_lots ?s1)"
    using Cons.prems by (simp add: lots_evolve_update cut_lot_evolves amt_def)
  have rest: "0 \<le> n - ?cap" by simp
  have "lots_evolve (gs_lots s) (gs_lots (snd (reduce_loop inp (n - ?cap) w is ?s1)))" for w
    by (rule lots_evolve_trans [OF step]) (rule Cons.IH [OF rest])
  moreover have "lots_evolve (gs_lots s) (gs_lots (add_tx t ?s1))" for t
    using step by (simp only: ledger_lot_simps)
  then have "lots_evolve (gs_lots s) (gs_lots (snd (reduce_loop inp (n - ?cap) w is (add_tx t ?s1))))" for w t
    by (rule lots_evolve_trans) (rule Cons.IH [OF rest])
  ultimately show ?case by (auto simp: Let_def amt_def [symmetric])
qed

lemma reconcile_evolves: "lots_evolve (gs_lots s) (gs_lots (snd (reconcileEntitlementLots inp s)))"
proof (cases "assertGrantLotEntitlementReconciliationInput inp")
  case (Inl e)
  then show ?thesis by (simp add: reconcileEntitlementLots_def)
next
  case (Inr u)
  then have "date_parse (re_expirationDate inp) \<noteq> None"
    by (auto simp: assertGrantLotEntitlementReconciliationInput_def assert_timestamp_def
        valid_timestamp_iff split: if_splits)
  note shorten = shorten_loop_evolves [OF this]
  let ?s1 = "shorten_loop (re_expirationDate inp) (selected_refs inp s) s"
  have "lots_evolve (gs_lots s) (gs_lots (rebuildWorkspaceRemaining ws ?s1))" for ws
    using shorten rebuild_evolves lots_evolve_trans by blast
  moreover have "lots_evolve (gs_lots s) (gs_lots (rebuildWorkspaceRemaining ws
      (snd (reduce_loop inp (max 0 n) [] is ?s1))))" for ws n "is"
    using shorten reduce_loop_evolves [of "max 0 n" ?s1] rebuild_evolves lots_evolve_trans
    by (meson max.cobounded1)
  ultimately show ?thesis
    using Inr by (simp add: reconcileEntitlementLots_def Let_def split_def)
qed

lemma refundUsage_evolves: "lots_evolve (gs_lots s) (gs_lots (snd (refundUsage inp s)))"
proof -
  have "lots_evolve (gs_lots s) (gs_lots (snd (op_bind (expireLots (refund_expire inp))
      (\<lambda>_ s'. (Inr (Some t), s')) (rebuildWorkspaceRemaining ws (add_tx t s)))))" for t ws
  proof -
    have "lots_evolve (gs_lots s) (gs_lots (rebuildWorkspaceRemaining ws (add_tx t s)))"
      using rebuild_evolves [of "add_tx t s" ws] by simp
    also have "lots_evolve \<dots> (gs_lots (snd (expireLots (refund_expire inp)
        (rebuildWorkspaceRemaining ws (add_tx t s)))))" by (rule expireLots_evolves)
    finally show ?thesis by (simp add: op_bind_def split_def split: sum.splits)
  qed
  then show ?thesis
    by (auto simp: refundUsage_def assert_timestamp_def Let_def split: option.splits)
qed

lemma lot_refund_loop_evolves:
  "lots_evolve (gs_lots s) (gs_lots (snd (lot_refund_loop inp index remaining us s)))"
proof (induction us arbitrary: index remaining s)
  case Nil
  then show ?case by simp
next
  case (Cons u us)
  define a where "a = (case remaining of None \<Rightarrow> gt_amount u | Some r \<Rightarrow> min (gt_amount u) r)"
  obtain q s1 where one: "refundUsage (refund_step_input inp index u a) s = (q, s1)"
    by (cases "refundUsage (refund_step_input inp index u a) s")
  have step: "lots_evolve (gs_lots s) (gs_lots s1)"
    using refundUsage_evolves [of s "refund_step_input inp index u a"] one by simp
  have rest: "lots_evolve (gs_lots s) (gs_lots (snd (lot_refund_loop inp j rem us s1)))" for j rem
    using lots_evolve_trans [OF step Cons.IH] .
  show ?case
    using step rest [of "Suc index"] one
    by (auto simp: Let_def a_def [symmetric] split: sum.splits option.splits prod.splits)
      (metis snd_conv)+
qed

section \<open>Taking shares from lots\<close>

definition glot_inv :: "grant_lot_ledger \<Rightarrow> bool" where
  "glot_inv s \<longleftrightarrow> distinct (map glot_ident (gs_lots s)) \<and> (\<forall>l \<in> set (gs_lots s). lot_bounds l)"

lemma glot_inv_evolve:
  assumes "glot_inv s" and "lots_evolve (gs_lots s) (gs_lots s')"
  shows "glot_inv s'"
proof -
  have "map fst (map glot_fixed (gs_lots s')) = map fst (map glot_fixed (gs_lots s))"
    by (simp only: lots_evolve_fixed [OF assms(2)])
  then have "map glot_ident (gs_lots s') = map glot_ident (gs_lots s)"
    by (simp add: glot_fixed_def o_def)
  then show ?thesis
    using assms lots_evolve_bounds [OF assms(2)] by (simp add: glot_inv_def)
qed

text \<open>Every share names a different lot that holds it.\<close>

definition shares_ok :: "string \<Rightarrow> (string \<times> int) list \<Rightarrow> grant_lot list \<Rightarrow> bool" where
  "shares_ok ws shares lots \<longleftrightarrow> distinct (map fst shares) \<and>
     (\<forall>(i, a) \<in> set shares. 0 < a \<and>
        (\<exists>l \<in> set lots. gl_workspaceId l = ws \<and> gl_id l = i \<and> a \<le> gl_remainingAmount l))"

fun share_txs where
  "share_txs mk index [] = []"
| "share_txs mk index ((lotId, amount) # rest) = mk index lotId amount # share_txs mk (Suc index) rest"

lemma share_lot:
  assumes "shares_ok ws ((k, a) # rest) (gs_lots s)" and "distinct (map glot_ident (gs_lots s))"
  shows "\<exists>i. lot_ref ws k s = Some i \<and> i < length (gs_lots s) \<and> gl_workspaceId (gs_lots s ! i) = ws \<and>
    gl_id (gs_lots s ! i) = k \<and> a \<le> gl_remainingAmount (gs_lots s ! i) \<and> 0 < a"
proof -
  obtain l where l: "l \<in> set (gs_lots s)" "gl_workspaceId l = ws" "gl_id l = k"
    "a \<le> gl_remainingAmount l" "0 < a"
    using assms(1) by (auto simp: shares_ok_def)
  then have "lot_ref ws k s \<noteq> None" by (auto simp: lot_ref_def find_index_None)
  then obtain i where ref: "lot_ref ws k s = Some i" by auto
  then have i: "i < length (gs_lots s)" "gl_workspaceId (gs_lots s ! i) = ws" "gl_id (gs_lots s ! i) = k"
    by (auto simp: lot_ref_def dest: find_index_SomeD)
  have "gs_lots s ! i = l"
    using assms(2) i l by (auto simp: distinct_map inj_on_def glot_ident_def)
  with ref i l show ?thesis by auto
qed

lemma shares_ok_step:
  assumes ok: "shares_ok ws ((k, a) # rest) lots" and k: "i < length lots" "gl_id (lots ! i) = k"
  shows "shares_ok ws rest (lots[i := v])"
proof -
  have "\<exists>l \<in> set (lots[i := v]). gl_workspaceId l = ws \<and> gl_id l = k' \<and> a' \<le> gl_remainingAmount l"
    if mem: "(k', a') \<in> set rest" for k' a'
  proof -
    have "\<exists>l \<in> set lots. gl_workspaceId l = ws \<and> gl_id l = k' \<and> a' \<le> gl_remainingAmount l"
      using ok mem by (auto simp: shares_ok_def)
    then obtain j where j: "j < length lots" "gl_workspaceId (lots ! j) = ws" "gl_id (lots ! j) = k'"
      "a' \<le> gl_remainingAmount (lots ! j)" by (metis in_set_conv_nth)
    have "k' \<noteq> k" using ok mem by (force simp: shares_ok_def)
    with j(3) k(2) have "lots[i := v] ! j = lots ! j" by (metis nth_list_update_neq)
    with j show ?thesis by (metis length_list_update nth_mem)
  qed
  then show ?thesis using ok by (auto simp: shares_ok_def)
qed

text \<open>
  The loop takes every share: lots evolve, one row per share is written, and the amounts remaining
  in a group of lots that contains the named ones drop by the total.
\<close>

lemma take_loop_run:
  assumes "glot_inv s" and "shares_ok ws shares (gs_lots s)"
    and resp: "\<And>l l'. glot_fixed l = glot_fixed l' \<Longrightarrow> gl_expirationDate l = gl_expirationDate l' \<Longrightarrow>
      P l = P l'"
    and "\<forall>l \<in> set (gs_lots s). gl_workspaceId l = ws \<and> gl_id l \<in> fst ` set shares \<longrightarrow> P l"
  shows "\<exists>s'. take_loop mk ws index shares s = (share_txs mk index shares, s') \<and>
    lots_evolve (gs_lots s) (gs_lots s') \<and>
    gs_transactions s' = gs_transactions s @ share_txs mk index shares \<and>
    gs_migrations s' = gs_migrations s \<and>
    sum_list (map gl_remainingAmount (filter P (gs_lots s'))) =
      sum_list (map gl_remainingAmount (filter P (gs_lots s))) - sum_list (map snd shares)"
  using assms(1,2,4)
proof (induction shares arbitrary: index s)
  case Nil
  then show ?case by simp
next
  case (Cons sh rest)
  obtain k a where sh: "sh = (k, a)" by (cases sh)
  have d: "distinct (map glot_ident (gs_lots s))" using Cons.prems(1) by (simp add: glot_inv_def)
  obtain i where i: "lot_ref ws k s = Some i" "i < length (gs_lots s)"
    "gl_workspaceId (gs_lots s ! i) = ws" "gl_id (gs_lots s ! i) = k"
    "a \<le> gl_remainingAmount (gs_lots s ! i)" "0 < a"
    using share_lot [OF Cons.prems(2) [unfolded sh] d] by blast
  let ?l = "take_from a (gs_lots s ! i)"
  let ?s1 = "add_tx (mk index k a) (set_lot i ?l s)"
  have ev: "lots_evolve (gs_lots s) (gs_lots ?s1)"
    using i by (simp add: lots_evolve_update take_from_evolves)
  have fixed: "glot_fixed ?l = glot_fixed (gs_lots s ! i)"
    "gl_expirationDate ?l = gl_expirationDate (gs_lots s ! i)" by (simp_all add: take_from_def)
  have Pl: "P (gs_lots s ! i)"
    using bspec [OF Cons.prems(3) nth_mem [OF i(2)]] i(3,4) by (simp add: sh)
  then have Pi: "P (gs_lots s ! i)" "P ?l" using resp [OF fixed] by simp_all
  have sum: "sum_list (map gl_remainingAmount (filter P (gs_lots ?s1))) =
      sum_list (map gl_remainingAmount (filter P (gs_lots s))) - a"
    using Pi sum_list_update [OF i(2), of "\<lambda>l. if P l then gl_remainingAmount l else 0" ?l]
    by (simp add: sum_list_map_filter' take_from_def)
  have "glot_inv ?s1" by (rule glot_inv_evolve [OF Cons.prems(1) ev])
  moreover have "shares_ok ws rest (gs_lots ?s1)"
    using shares_ok_step [OF Cons.prems(2) [unfolded sh] i(2,4)] by simp
  moreover have "\<forall>l \<in> set (gs_lots ?s1). gl_workspaceId l = ws \<and> gl_id l \<in> fst ` set rest \<longrightarrow> P l"
  proof
    fix l assume "l \<in> set (gs_lots ?s1)"
    then have "l = ?l \<or> l \<in> set (gs_lots s)"
      using set_update_subset_insert [of "gs_lots s" i ?l] by auto
    with Pi Cons.prems(3) show "gl_workspaceId l = ws \<and> gl_id l \<in> fst ` set rest \<longrightarrow> P l" by auto
  qed
  ultimately obtain s' where s': "take_loop mk ws (Suc index) rest ?s1 =
      (share_txs mk (Suc index) rest, s')" "lots_evolve (gs_lots ?s1) (gs_lots s')"
    "gs_transactions s' = gs_transactions ?s1 @ share_txs mk (Suc index) rest"
    "gs_migrations s' = gs_migrations ?s1"
    "sum_list (map gl_remainingAmount (filter P (gs_lots s'))) =
      sum_list (map gl_remainingAmount (filter P (gs_lots ?s1))) - sum_list (map snd rest)"
    using Cons.IH [of ?s1 "Suc index"] by blast
  from s' ev sum i(1) show ?case
    by (auto simp: sh Let_def intro: lots_evolve_trans)
qed

text \<open>What the allocation hands out is covered by the lots it was computed from.\<close>

definition fifo_order :: "grant_lot list \<Rightarrow> grant_lot list" where
  "fifo_order lots = js_sort compareGrantLotsForFifo (filter (\<lambda>l. gl_remainingAmount l > 0) lots)"

lemma fifo_order_pos: "\<forall>l \<in> set (fifo_order lots). 0 < gl_remainingAmount l"
  by (simp add: fifo_order_def)

lemma allocateFifo_eq:
  "0 < n \<Longrightarrow> allocateFifoConsumption lots (JInt n) = allocate_fifo_loop n (fifo_order lots)"
  by (simp add: allocateFifoConsumption_def fifo_order_def)

lemma allocateFifo_total:
  assumes "0 < n" and "\<forall>l \<in> set lots. 0 \<le> gl_remainingAmount l"
  shows "sum_list (map snd (allocateFifoConsumption lots (JInt n))) =
    min n (sum_list (map gl_remainingAmount lots))"
proof -
  have "sum_list (map gl_remainingAmount (filter (\<lambda>l. gl_remainingAmount l > 0) lots)) =
      sum_list (map gl_remainingAmount lots)"
    using assms(2) by (induction lots) auto
  then show ?thesis
    using assms(1) fifo_alloc.alloc_sum [OF _ fifo_order_pos, of n lots]
    by (simp add: allocateFifo_eq) (simp add: fifo_order_def)
qed

lemma allocateFifo_shares:
  assumes n: "0 < n" and sub: "set lots \<subseteq> set all" and d: "distinct (map gl_id lots)"
    and ws: "\<forall>l \<in> set lots. gl_workspaceId l = ws"
  shows "shares_ok ws (allocateFifoConsumption lots (JInt n)) all"
    and "fst ` set (allocateFifoConsumption lots (JInt n)) \<subseteq> gl_id ` set lots"
proof -
  let ?ls = "fifo_order lots"
  have n': "0 \<le> n" using n by simp
  have ids: "map fst (allocate_fifo_loop n ?ls) = map gl_id (take (length (allocate_fifo_loop n ?ls)) ?ls)"
    by (rule fifo_alloc.alloc_idents [OF n' fifo_order_pos])
  have "distinct (map gl_id ?ls)"
    using d unfolding fifo_order_def distinct_map inj_on_def by auto
  then have "distinct (map fst (allocate_fifo_loop n ?ls))"
    unfolding ids by (simp add: distinct_map distinct_take inj_on_subset [OF _ set_take_subset])
  moreover have "0 < a \<and> (\<exists>l \<in> set all. gl_workspaceId l = ws \<and> gl_id l = i \<and> a \<le> gl_remainingAmount l)"
    if "(i, a) \<in> set (allocate_fifo_loop n ?ls)" for i a
    using fifo_alloc.alloc_bounds [OF n' fifo_order_pos that] sub ws by (auto simp: fifo_order_def)
  ultimately show "shares_ok ws (allocateFifoConsumption lots (JInt n)) all"
    by (auto simp: shares_ok_def allocateFifo_eq [OF n])
  show "fst ` set (allocateFifoConsumption lots (JInt n)) \<subseteq> gl_id ` set lots"
  proof
    fix i assume "i \<in> fst ` set (allocateFifoConsumption lots (JInt n))"
    then obtain a where "(i, a) \<in> set (allocate_fifo_loop n ?ls)" by (auto simp: allocateFifo_eq [OF n])
    from fifo_alloc.alloc_bounds [OF n' fifo_order_pos this] show "i \<in> gl_id ` set lots"
      by (auto simp: fifo_order_def)
  qed
qed

section \<open>Repair\<close>

text \<open>What a cohort holds after its usage debt has been charged in order.\<close>

fun repaired :: "int \<Rightarrow> int list \<Rightarrow> int list" where
  "repaired d [] = []"
| "repaired d (e # es) = max 0 (e - d) # repaired (max 0 (d - e)) es"

lemma repaired_sum:
  "0 \<le> d \<Longrightarrow> \<forall>e \<in> set es. 0 \<le> e \<Longrightarrow> sum_list (repaired d es) = max 0 (sum_list es - d)"
proof (induction es arbitrary: d)
  case Nil
  then show ?case by simp
next
  case (Cons e es)
  have "0 \<le> sum_list es" using Cons.prems by (intro sum_list_nonneg) auto
  with Cons.IH [of "max 0 (d - e)"] Cons.prems show ?case by (auto simp: max_def)
qed

definition static :: "grant_lot \<Rightarrow> grant_lot" where
  "static l = l\<lparr>gl_remainingAmount := 0, gl_revision := None\<rparr>"

lemma static_eqD:
  assumes "static l = static l'"
  shows "entitlement l = entitlement l'" "gl_id l = gl_id l'" "cohort_key l = cohort_key l'"
    "gl_workspaceId l = gl_workspaceId l'" "gl_expirationDate l = gl_expirationDate l'"
    "gl_createdAt l = gl_createdAt l'"
proof -
  have ent: "entitlement (static k) = entitlement k" for k
    by (simp add: static_def entitlement_def split: option.splits)
  show "entitlement l = entitlement l'" using ent assms by metis
  show "gl_id l = gl_id l'" using arg_cong [OF assms, of gl_id] by (simp add: static_def)
  have key: "cohort_key (static k) = cohort_key k" for k
    by (simp add: static_def cohort_key_def split: option.splits)
  show "cohort_key l = cohort_key l'" using key assms by metis
  show "gl_workspaceId l = gl_workspaceId l'" using arg_cong [OF assms, of gl_workspaceId] by (simp add: static_def)
  show "gl_expirationDate l = gl_expirationDate l'"
    using arg_cong [OF assms, of gl_expirationDate] by (simp add: static_def)
  show "gl_createdAt l = gl_createdAt l'" using arg_cong [OF assms, of gl_createdAt] by (simp add: static_def)
qed

lemma static_repaired [simp]: "static (bump (l\<lparr>gl_remainingAmount := x\<rparr>)) = static l"
  by (simp add: static_def bump_def)

definition same_static :: "grant_lot list \<Rightarrow> grant_lot list \<Rightarrow> bool" where
  "same_static a b \<longleftrightarrow> map static a = map static b"

lemma same_static_nth: "same_static a b \<Longrightarrow> i < length a \<Longrightarrow> static (a ! i) = static (b ! i)"
  unfolding same_static_def by (metis length_map nth_map)

lemma same_static_length: "same_static a b \<Longrightarrow> length a = length b"
  unfolding same_static_def by (metis length_map)

lemma repair_loop_id:
  "map (\<lambda>i. gl_remainingAmount (ls ! i)) is = repaired d (map (\<lambda>i. entitlement (ls ! i)) is) \<Longrightarrow>
    repair_loop d is ls = ls"
  by (induction "is" arbitrary: d) (auto simp: Let_def)

lemma repair_loop_run:
  assumes "distinct is" and "\<forall>i \<in> set is. i < length ls"
  shows "same_static ls (repair_loop d is ls) \<and>
    (\<forall>j. j \<notin> set is \<longrightarrow> repair_loop d is ls ! j = ls ! j) \<and>
    map (\<lambda>i. gl_remainingAmount (repair_loop d is ls ! i)) is =
      repaired d (map (\<lambda>i. entitlement (ls ! i)) is)"
  using assms
proof (induction "is" arbitrary: d ls)
  case Nil
  then show ?case by (simp add: same_static_def)
next
  case (Cons i "is")
  define v where "v = max 0 (entitlement (ls ! i) - d)"
  define d' where "d' = max 0 (d - entitlement (ls ! i))"
  define ls1 where "ls1 = (if gl_remainingAmount (ls ! i) \<noteq> v
      then ls[i := bump ((ls ! i)\<lparr>gl_remainingAmount := v\<rparr>)] else ls)"
  have i: "i < length ls" "i \<notin> set is" using Cons.prems by auto
  have run: "repair_loop d (i # is) ls = repair_loop d' is ls1"
    by (simp add: Let_def v_def d'_def ls1_def)
  have st1: "same_static ls ls1"
    unfolding same_static_def ls1_def by (auto simp: map_update_same)
  have other: "ls1 ! j = ls ! j" if "j \<noteq> i" for j using that by (simp add: ls1_def)
  have rem_i: "gl_remainingAmount (ls1 ! i) = v" using i(1) by (simp add: ls1_def)
  have IH: "same_static ls1 (repair_loop d' is ls1)"
    "\<forall>j. j \<notin> set is \<longrightarrow> repair_loop d' is ls1 ! j = ls1 ! j"
    "map (\<lambda>j. gl_remainingAmount (repair_loop d' is ls1 ! j)) is =
      repaired d' (map (\<lambda>j. entitlement (ls1 ! j)) is)"
    using Cons.IH [of ls1 d'] Cons.prems by (auto simp: ls1_def)
  have ents: "map (\<lambda>j. entitlement (ls1 ! j)) is = map (\<lambda>j. entitlement (ls ! j)) is"
  proof (rule map_cong [OF refl])
    fix j assume "j \<in> set is"
    with i(2) have "j \<noteq> i" by blast
    then show "entitlement (ls1 ! j) = entitlement (ls ! j)" by (simp add: other)
  qed
  have "same_static ls (repair_loop d' is ls1)"
    using st1 IH(1) by (simp add: same_static_def)
  moreover have "\<forall>j. j \<notin> set (i # is) \<longrightarrow> repair_loop d' is ls1 ! j = ls ! j"
    using IH(2) other by simp
  moreover have "gl_remainingAmount (repair_loop d' is ls1 ! i) = v"
    using IH(2) i(2) rem_i by simp
  then have "map (\<lambda>i. gl_remainingAmount (repair_loop d' is ls1 ! i)) (i # is) =
      repaired d (map (\<lambda>i. entitlement (ls ! i)) (i # is))"
    using IH(3) ents by (simp add: v_def d'_def)
  ultimately show ?case unfolding run by blast
qed

definition cohort_debt :: "string \<Rightarrow> grant_lot_tx list \<Rightarrow> nat list \<Rightarrow> grant_lot list \<Rightarrow> int" where
  "cohort_debt ws txs c ls = max 0 (net_usage ws (map (\<lambda>i. gl_id (ls ! i)) c) txs)"

definition cohort_order :: "nat list \<Rightarrow> grant_lot list \<Rightarrow> nat list" where
  "cohort_order c ls = js_sort (\<lambda>i j. compareGrantLotsForFifo (ls ! i) (ls ! j)) c"

lemma repair_cohort_eq:
  "repair_cohort ws txs c ls = repair_loop (cohort_debt ws txs c ls) (cohort_order c ls) ls"
  by (simp add: repair_cohort_def cohort_debt_def cohort_order_def)

lemma cohort_static:
  assumes st: "same_static ls ls'" and c: "\<forall>i \<in> set c. i < length ls"
  shows "cohort_debt ws txs c ls' = cohort_debt ws txs c ls" and "cohort_order c ls' = cohort_order c ls"
    and "map (\<lambda>i. entitlement (ls' ! i)) c = map (\<lambda>i. entitlement (ls ! i)) c"
proof -
  have nth: "static (ls ! i) = static (ls' ! i)" if "i \<in> set c" for i
    using same_static_nth [OF st] c that by blast
  have "map (\<lambda>i. gl_id (ls' ! i)) c = map (\<lambda>i. gl_id (ls ! i)) c"
    using static_eqD(2) [OF nth] by simp
  then show "cohort_debt ws txs c ls' = cohort_debt ws txs c ls" by (simp only: cohort_debt_def)
  show "cohort_order c ls' = cohort_order c ls"
    unfolding cohort_order_def
    by (rule js_sort_cong) (simp add: compareGrantLotsForFifo_eq static_eqD [OF nth])
  show "map (\<lambda>i. entitlement (ls' ! i)) c = map (\<lambda>i. entitlement (ls ! i)) c"
    using static_eqD(1) [OF nth] by simp
qed

text \<open>A cohort is settled when repairing it would change nothing.\<close>

definition settled :: "string \<Rightarrow> grant_lot_tx list \<Rightarrow> grant_lot list \<Rightarrow> nat list \<Rightarrow> bool" where
  "settled ws txs ls c \<longleftrightarrow>
     map (\<lambda>i. gl_remainingAmount (ls ! i)) (cohort_order c ls) =
       repaired (cohort_debt ws txs c ls) (map (\<lambda>i. entitlement (ls ! i)) (cohort_order c ls))"

definition cohort_ok :: "grant_lot list \<Rightarrow> nat list \<Rightarrow> bool" where
  "cohort_ok ls c \<longleftrightarrow> distinct c \<and> (\<forall>i \<in> set c. i < length ls)"

lemma cohort_order_set [simp]: "set (cohort_order c ls) = set c" "distinct (cohort_order c ls) = distinct c"
  by (simp_all add: cohort_order_def)

lemma repair_settled: "settled ws txs ls c \<Longrightarrow> repair_cohort ws txs c ls = ls"
  unfolding settled_def repair_cohort_eq by (rule repair_loop_id)

lemma repair_cohort_static:
  "cohort_ok ls c \<Longrightarrow> same_static ls (repair_cohort ws txs c ls)"
  using repair_loop_run [of "cohort_order c ls" ls] by (simp add: repair_cohort_eq cohort_ok_def)

lemma repair_settles: "cohort_ok ls c \<Longrightarrow> settled ws txs (repair_cohort ws txs c ls) c"
proof -
  assume ok: "cohort_ok ls c"
  note st = repair_cohort_static [OF ok, of ws txs]
  have c: "\<forall>i \<in> set c. i < length ls" using ok by (simp add: cohort_ok_def)
  note same = cohort_static [OF st c]
  have "\<forall>i \<in> set (cohort_order c ls). i < length ls" using c by simp
  note ents = cohort_static(3) [OF st this]
  show ?thesis
    unfolding settled_def same ents
    using repair_loop_run [of "cohort_order c ls" ls "cohort_debt ws txs c ls"] ok
    by (simp add: repair_cohort_eq cohort_ok_def)
qed

lemma repair_other_settled:
  assumes ok: "cohort_ok ls c" "cohort_ok ls c'" and disj: "set c \<inter> set c' = {}"
    and settled: "settled ws txs ls c"
  shows "settled ws txs (repair_cohort ws txs c' ls) c"
proof -
  note st = repair_cohort_static [OF ok(2), of ws txs]
  have c: "\<forall>i \<in> set c. i < length ls" using ok by (simp add: cohort_ok_def)
  note same = cohort_static [OF st c]
  have "\<forall>i \<in> set (cohort_order c ls). i < length ls" using c by simp
  note ents = cohort_static(3) [OF st this]
  have "map (\<lambda>i. gl_remainingAmount (repair_cohort ws txs c' ls ! i)) (cohort_order c ls) =
      map (\<lambda>i. gl_remainingAmount (ls ! i)) (cohort_order c ls)"
    using repair_loop_run [of "cohort_order c' ls" ls "cohort_debt ws txs c' ls"] ok(2) disj
    by (auto simp: repair_cohort_eq cohort_ok_def)
  then show ?thesis using settled unfolding settled_def same ents by simp
qed

lemma cohort_ok_static: "same_static ls ls' \<Longrightarrow> cohort_ok ls' c = cohort_ok ls c"
  by (simp add: cohort_ok_def same_static_length)

lemma fold_repair:
  assumes "\<forall>c \<in> set cs. cohort_ok ls c" and "distinct (concat cs)"
    and "\<forall>c \<in> set done. cohort_ok ls c \<and> settled ws txs ls c \<and> (\<forall>c' \<in> set cs. set c \<inter> set c' = {})"
  shows "same_static ls (fold (repair_cohort ws txs) cs ls) \<and>
    (\<forall>c \<in> set done \<union> set cs. settled ws txs (fold (repair_cohort ws txs) cs ls) c)"
  using assms
proof (induction cs arbitrary: ls "done")
  case Nil
  then show ?case by (simp add: same_static_def)
next
  case (Cons c cs)
  let ?ls = "repair_cohort ws txs c ls"
  have ok: "cohort_ok ls c" using Cons.prems by simp
  note st = repair_cohort_static [OF ok, of ws txs]
  have disj: "set c \<inter> set c' = {}" if "c' \<in> set cs" for c' using Cons.prems(2) that by auto
  have "same_static ?ls (fold (repair_cohort ws txs) cs ?ls) \<and>
      (\<forall>k \<in> set (c # done) \<union> set cs. settled ws txs (fold (repair_cohort ws txs) cs ?ls) k)"
  proof (rule Cons.IH)
    show "\<forall>c \<in> set cs. cohort_ok ?ls c" using Cons.prems(1) st by (simp add: cohort_ok_static)
    show "distinct (concat cs)" using Cons.prems(2) by simp
    show "\<forall>k \<in> set (c # done). cohort_ok ?ls k \<and> settled ws txs ?ls k \<and> (\<forall>c' \<in> set cs. set k \<inter> set c' = {})"
    proof
      fix k assume k: "k \<in> set (c # done)"
      show "cohort_ok ?ls k \<and> settled ws txs ?ls k \<and> (\<forall>c' \<in> set cs. set k \<inter> set c' = {})"
      proof (cases "k = c")
        case True
        with ok disj repair_settles [OF ok] st show ?thesis by (simp add: cohort_ok_static)
      next
        case False
        then have "cohort_ok ls k" "settled ws txs ls k" "set k \<inter> set c = {}"
          "\<forall>c' \<in> set cs. set k \<inter> set c' = {}"
          using k Cons.prems(3) by auto
        with repair_other_settled [OF _ ok] st show ?thesis by (simp add: cohort_ok_static)
      qed
    qed
  qed
  then show ?case using st by (auto simp: same_static_def)
qed

lemma group_add_mset:
  "mset (concat (map snd (group_add k i gs))) = add_mset i (mset (concat (map snd gs)))"
  by (induction gs) auto

lemma group_cohorts_mset:
  "mset (concat (group_cohorts ls is gs)) = mset is + mset (concat (map snd gs))"
  by (induction "is" arbitrary: gs) (auto simp: group_add_mset)

lemma group_cohorts_cong:
  "(\<And>i. i \<in> set is \<Longrightarrow> cohort_key (ls ! i) = cohort_key (ls' ! i)) \<Longrightarrow>
    group_cohorts ls is gs = group_cohorts ls' is gs"
  by (induction "is" arbitrary: gs) auto

definition ws_cohorts :: "string \<Rightarrow> grant_lot list \<Rightarrow> nat list list" where
  "ws_cohorts ws ls = groupGrantLotCohorts ls (indices_where (\<lambda>l. gl_workspaceId l = ws) ls)"

lemma rebuild_eq:
  "rebuildWorkspaceRemaining ws s =
    s\<lparr>gs_lots := fold (repair_cohort ws (gs_transactions s)) (ws_cohorts ws (gs_lots s)) (gs_lots s)\<rparr>"
  by (simp add: rebuildWorkspaceRemaining_def ws_cohorts_def)

lemma ws_cohorts_ok:
  shows "distinct (concat (ws_cohorts ws ls))"
    and "set (concat (ws_cohorts ws ls)) = {i. i < length ls \<and> gl_workspaceId (ls ! i) = ws}"
    and "c \<in> set (ws_cohorts ws ls) \<Longrightarrow> cohort_ok ls c"
proof -
  have m: "mset (concat (ws_cohorts ws ls)) = mset (indices_where (\<lambda>l. gl_workspaceId l = ws) ls)"
    by (simp add: ws_cohorts_def groupGrantLotCohorts_def group_cohorts_mset)
  show d: "distinct (concat (ws_cohorts ws ls))"
    using mset_eq_imp_distinct_iff [OF m] by simp
  show st: "set (concat (ws_cohorts ws ls)) = {i. i < length ls \<and> gl_workspaceId (ls ! i) = ws}"
    using mset_eq_setD [OF m] by (simp only: set_indices_where)
  show "cohort_ok ls c" if "c \<in> set (ws_cohorts ws ls)"
    using that d st by (force simp: cohort_ok_def distinct_concat_iff)
qed

lemma ws_cohorts_static:
  assumes "same_static ls ls'"
  shows "ws_cohorts ws ls' = ws_cohorts ws ls"
proof -
  have len: "length ls' = length ls" using same_static_length [OF assms] by simp
  have nth: "static (ls ! i) = static (ls' ! i)" if "i < length ls" for i
    using same_static_nth [OF assms that] .
  have "indices_where (\<lambda>l. gl_workspaceId l = ws) ls' = indices_where (\<lambda>l. gl_workspaceId l = ws) ls"
    unfolding indices_where_def len
    by (rule filter_cong [OF refl]) (use static_eqD(4) [OF nth] in auto)
  moreover have "group_cohorts ls' is gs = group_cohorts ls is gs"
    if "\<forall>i \<in> set is. i < length ls" for "is" gs
    using static_eqD(3) [OF nth] that by (intro group_cohorts_cong) auto
  ultimately show ?thesis
    by (simp add: ws_cohorts_def groupGrantLotCohorts_def set_indices_where)
qed

lemma rebuild_settles:
  "same_static (gs_lots s) (gs_lots (rebuildWorkspaceRemaining ws s)) \<and>
    (\<forall>c \<in> set (ws_cohorts ws (gs_lots s)).
       settled ws (gs_transactions s) (gs_lots (rebuildWorkspaceRemaining ws s)) c)"
  using fold_repair [of "ws_cohorts ws (gs_lots s)" "gs_lots s" "[]" ws "gs_transactions s"] ws_cohorts_ok
  by (simp add: rebuild_eq)

lemma fold_settled: "\<forall>c \<in> set cs. settled ws txs ls c \<Longrightarrow> fold (repair_cohort ws txs) cs ls = ls"
  by (induction cs) (auto simp: repair_settled)

lemma rebuild_idem:
  "rebuildWorkspaceRemaining ws (rebuildWorkspaceRemaining ws s) = rebuildWorkspaceRemaining ws s"
proof -
  let ?s = "rebuildWorkspaceRemaining ws s"
  have st: "same_static (gs_lots s) (gs_lots ?s)" using rebuild_settles by blast
  have "gs_transactions ?s = gs_transactions s" by (simp add: rebuild_eq)
  then have "\<forall>c \<in> set (ws_cohorts ws (gs_lots ?s)). settled ws (gs_transactions ?s) (gs_lots ?s) c"
    using rebuild_settles [of s ws] ws_cohorts_static [OF st, of ws] by simp
  from fold_settled [OF this] show ?thesis
    by (subst rebuild_eq) simp
qed

lemma settled_total:
  assumes "settled ws txs ls c" and "\<forall>i \<in> set c. 0 \<le> entitlement (ls ! i)"
  shows "sum_list (map (\<lambda>i. gl_remainingAmount (ls ! i)) c) =
    max 0 (sum_list (map (\<lambda>i. entitlement (ls ! i)) c) - cohort_debt ws txs c ls)"
proof -
  have perm: "sum_list (map f (cohort_order c ls)) = sum_list (map f c)" for f :: "nat \<Rightarrow> int"
    by (simp add: cohort_order_def)
  have "sum_list (map (\<lambda>i. gl_remainingAmount (ls ! i)) (cohort_order c ls)) =
      max 0 (sum_list (map (\<lambda>i. entitlement (ls ! i)) (cohort_order c ls)) - cohort_debt ws txs c ls)"
    using assms by (simp add: settled_def repaired_sum cohort_debt_def)
  then show ?thesis by (simp add: perm)
qed

section \<open>Grant, consumption, migration\<close>

lemma lot_grant_result:
  assumes "grant inp s = (r, s')"
  obtains (unchanged) "s' = s"
  | (fresh) key where "assertGrantLotGrantInput inp = Inr ()"
      "normalizeGrantIdempotencyKey (gi_id inp) (gi_grantIdempotencyKey inp) = Inr key"
      "\<forall>l \<in> set (gs_lots s). gl_workspaceId l = gi_workspaceId inp \<longrightarrow>
         gl_id l \<noteq> gi_id inp \<and> gl_grantIdempotencyKey l \<noteq> Some key"
      "r = Inr (new_grant_lot inp key)"
      "s' = add_tx (grant_lot_grant_tx inp key) (s\<lparr>gs_lots := gs_lots s @ [new_grant_lot inp key]\<rparr>)"
proof (cases "assertGrantLotGrantInput inp")
  case (Inl e)
  with assms unchanged show thesis by (simp add: grant_def)
next
  case (Inr u)
  show thesis
  proof (cases "normalizeGrantIdempotencyKey (gi_id inp) (gi_grantIdempotencyKey inp)")
    case (Inl e)
    with assms Inr unchanged show thesis by (simp add: grant_def)
  next
    case key: (Inr key)
    let ?P = "\<lambda>l. gl_workspaceId l = gi_workspaceId inp \<and> gl_grantIdempotencyKey l = Some key"
    let ?Q = "\<lambda>l. gl_workspaceId l = gi_workspaceId inp \<and> gl_id l = gi_id inp"
    show thesis
    proof (cases "find ?P (gs_lots s) = None \<and> find ?Q (gs_lots s) = None")
      case True
      then have "\<forall>l \<in> set (gs_lots s). \<not> ?P l \<and> \<not> ?Q l" by (auto simp: find_None_iff)
      with True Inr key assms show thesis by (intro fresh [OF _ key]) (auto simp: grant_def Let_def)
    next
      case False
      with Inr key assms have "s' = s" by (auto simp: grant_def Let_def split: option.splits if_splits)
      then show thesis by (rule unchanged)
    qed
  qed
qed

lemma new_lot_bounds:
  assumes "assertGrantLotGrantInput inp = Inr ()"
  shows "lot_bounds (new_grant_lot inp key)"
  using assms
  by (auto simp: assertGrantLotGrantInput_def lot_bounds_def new_grant_lot_def entitlement_def
      glot_dates_ok_def dates_ok_def assert_timestamp_def valid_timestamp_iff
      split: if_splits option.splits)

lemma lot_grant_keeps_inv: "glot_inv s \<Longrightarrow> glot_inv (snd (grant inp s))"
proof -
  assume inv: "glot_inv s"
  obtain r s' where run: "grant inp s = (r, s')" by (cases "grant inp s")
  then have "glot_inv s'"
  proof (cases rule: lot_grant_result)
    case unchanged
    with inv show ?thesis by simp
  next
    case (fresh key)
    then have "glot_ident (new_grant_lot inp key) \<notin> glot_ident ` set (gs_lots s)"
      by (auto simp: glot_ident_def new_grant_lot_def)
    with inv fresh(5) new_lot_bounds [OF fresh(1)] show ?thesis by (auto simp: glot_inv_def)
  qed
  with run show ?thesis by simp
qed

lemma expire_loop_other:
  "j \<notin> set is \<Longrightarrow> gs_lots (snd (expire_loop inp is s)) ! j = gs_lots s ! j"
  by (induction "is" arbitrary: s) (auto simp: Let_def split_def)

lemma expire_loop_expiry:
  "map gl_expirationDate (gs_lots (snd (expire_loop inp is s))) = map gl_expirationDate (gs_lots s)"
proof (induction "is" arbitrary: s)
  case (Cons i "is")
  have "map gl_expirationDate ((gs_lots s)[i := void_lot (gs_lots s ! i)]) = map gl_expirationDate (gs_lots s)"
    by (rule map_update_same) (simp add: void_lot_def)
  with Cons.IH show ?case by (simp add: Let_def split_def)
qed simp

definition live_lot :: "string \<Rightarrow> usage_resource \<Rightarrow> string \<Rightarrow> grant_lot \<Rightarrow> bool" where
  "live_lot ws res now l \<longleftrightarrow> gl_workspaceId l = ws \<and> gl_resource l = res \<and> lot_live now l"

lemma live_lot_resp:
  "glot_fixed l = glot_fixed l' \<Longrightarrow> gl_expirationDate l = gl_expirationDate l' \<Longrightarrow>
    live_lot ws res now l = live_lot ws res now l'"
  by (auto simp: glot_fixed_def glot_ident_def live_lot_def lot_live_def)

lemma lapsed_not_live: "lot_lapsed now l \<Longrightarrow> \<not> lot_live now l"
  by (auto simp: lot_lapsed_def lot_live_def date_le_iff date_lt_iff split: option.splits)

lemma expireLots_live:
  "filter (live_lot ws res (ge_now inp)) (gs_lots (snd (expireLots inp s))) =
    filter (live_lot ws res (ge_now inp)) (gs_lots s)"
proof (cases "valid_timestamp (ge_now inp)")
  case False
  then show ?thesis by (simp add: expireLots_def assert_timestamp_def)
next
  case True
  let ?s = "snd (expire_loop inp (lapsed_refs inp s) s)"
  have ev: "lots_evolve (gs_lots s) (gs_lots ?s)" by (rule expire_loop_evolves)
  have "filter (live_lot ws res (ge_now inp)) (gs_lots ?s) = filter (live_lot ws res (ge_now inp)) (gs_lots s)"
  proof (rule filter_eq_pointwise)
    show len: "length (gs_lots ?s) = length (gs_lots s)" by (rule lots_evolve_length [OF ev])
    fix j assume "j < length (gs_lots ?s)"
    then have j: "j < length (gs_lots s)" using len by simp
    have exp: "gl_expirationDate (gs_lots ?s ! j) = gl_expirationDate (gs_lots s ! j)"
      using expire_loop_expiry [of inp "lapsed_refs inp s" s] j len by (metis nth_map)
    have fixed: "glot_fixed (gs_lots ?s ! j) = glot_fixed (gs_lots s ! j)"
      using lots_evolve_nth [OF ev j] by (simp add: lot_evolves_def)
    show "gs_lots ?s ! j = gs_lots s ! j \<or>
        \<not> live_lot ws res (ge_now inp) (gs_lots ?s ! j) \<and> \<not> live_lot ws res (ge_now inp) (gs_lots s ! j)"
    proof (cases "j \<in> set (lapsed_refs inp s)")
      case True
      then have "\<not> lot_live (ge_now inp) (gs_lots s ! j)"
        by (auto simp: lapsed_refs_def set_indices_where dest: lapsed_not_live)
      then show ?thesis using live_lot_resp [OF fixed exp] by (simp add: live_lot_def)
    qed (simp add: expire_loop_other)
  qed
  with True show ?thesis by (simp add: expireLots_def assert_timestamp_def split_def Let_def)
qed

text \<open>Grant keys carry their prefix, so a normalised consume key is always independent of them.\<close>

definition keys_ok :: "grant_lot_ledger \<Rightarrow> bool" where
  "keys_ok s \<longleftrightarrow> (\<forall>l \<in> set (gs_lots s). \<forall>k. gl_grantIdempotencyKey l = Some k \<longrightarrow> starts_with grant_prefix k)"

lemma keys_ok_evolve:
  assumes "keys_ok s" and "lots_evolve (gs_lots s) (gs_lots s')"
  shows "keys_ok s'"
proof -
  show ?thesis
    unfolding keys_ok_def
  proof (intro ballI allI impI)
    fix l k assume l: "l \<in> set (gs_lots s')" "gl_grantIdempotencyKey l = Some k"
    obtain j where j: "j < length (gs_lots s)" "l = gs_lots s' ! j"
      using l(1) lots_evolve_length [OF assms(2)] by (auto simp: in_set_conv_nth)
    then have "gl_grantIdempotencyKey (gs_lots s ! j) = Some k"
      using lots_evolve_nth [OF assms(2) j(1)] l(2) by (simp add: lot_evolves_def glot_fixed_def)
    with assms(1) nth_mem [OF j(1)] show "starts_with grant_prefix k" unfolding keys_ok_def by blast
  qed
qed

lemma grant_key_prefix:
  "normalizeGrantIdempotencyKey i e = Inr k \<Longrightarrow> starts_with grant_prefix k"
  by (auto simp: normalizeGrantIdempotencyKey_def split: option.splits if_splits)

lemma lot_grant_keeps_keys: "keys_ok s \<Longrightarrow> keys_ok (snd (grant inp s))"
proof -
  assume ok: "keys_ok s"
  obtain r s' where run: "grant inp s = (r, s')" by (cases "grant inp s")
  then have "keys_ok s'"
  proof (cases rule: lot_grant_result)
    case (fresh key)
    with ok grant_key_prefix [OF fresh(2)] show ?thesis by (auto simp: keys_ok_def new_grant_lot_def)
  qed (use ok in simp)
  with run show ?thesis by simp
qed

lemma independent_keys:
  assumes "starts_with grant_prefix k" and "normalizeConsumeIdempotencyKey v = Inr c"
  shows "assertIndependentGrantConsumeIdempotencyKeys k c = Inr ()"
proof -
  obtain t where k: "k = grant_prefix @ t" using assms(1) by (auto simp: starts_with_iff)
  have "\<not> blank k" unfolding k grant_prefix_def by (simp add: blank_iff is_ws_code)
  moreover have "\<not> starts_with consume_prefix k"
    unfolding k by (simp add: starts_with_def grant_prefix_def consume_prefix_def)
  ultimately show ?thesis
    using assms
    by (auto simp: normalizeConsumeIdempotencyKey_def assertIndependentGrantConsumeIdempotencyKeys_def
        split: if_splits)
qed

lemma independent_of_lots:
  "normalizeConsumeIdempotencyKey v = Inr c \<Longrightarrow>
    \<forall>l \<in> set ls. \<forall>k. gl_grantIdempotencyKey l = Some k \<longrightarrow> starts_with grant_prefix k \<Longrightarrow>
    assert_independent_of_lots ws c ls = Inr ()"
  by (induction ls) (auto simp: independent_keys split: option.split)

definition live_amount :: "string \<Rightarrow> usage_resource \<Rightarrow> string \<Rightarrow> grant_lot_ledger \<Rightarrow> int" where
  "live_amount ws res now s =
     sum_list (map gl_remainingAmount (filter (live_lot ws res now) (gs_lots s)))"

lemma consumable_lots:
  fixes s :: grant_lot_ledger
  assumes "valid_timestamp (gu_createdAt inp)"
  defines "s1 \<equiv> snd (expireLots (consume_expire inp) s)"
  shows "map (\<lambda>i. gs_lots s1 ! i) (consumable_refs inp s) =
      filter (\<lambda>l. 0 < gl_remainingAmount l)
        (filter (live_lot (gu_workspaceId inp) (gu_resource inp) (gu_createdAt inp)) (gs_lots s))"
    and "\<forall>i \<in> set (consumable_refs inp s). i < length (gs_lots s1)"
proof -
  have s1: "s1 = snd (expire_loop (consume_expire inp) (lapsed_refs (consume_expire inp) s) s)"
    using assms(1) by (simp add: s1_def expireLots_def assert_timestamp_def consume_expire_def split_def Let_def)
  have len: "length (gs_lots s1) = length (gs_lots s)"
    unfolding s1 by (rule lots_evolve_length [OF expire_loop_evolves])
  have "gs_lots s1 ! i = gs_lots s ! i" if "i \<in> set (consumable_refs inp s)" for i
    unfolding s1 using that
    by (intro expire_loop_other)
      (auto simp: consumable_refs_def lapsed_refs_def set_indices_where consume_expire_def dest: lapsed_not_live)
  then have "map (\<lambda>i. gs_lots s1 ! i) (consumable_refs inp s) = map (\<lambda>i. gs_lots s ! i) (consumable_refs inp s)"
    by simp
  also have "\<dots> = filter (\<lambda>l. gl_workspaceId l = gu_workspaceId inp \<and> gl_resource l = gu_resource inp \<and>
      gl_remainingAmount l > 0 \<and> lot_live (gu_createdAt inp) l) (gs_lots s)"
    by (simp add: consumable_refs_def map_nth_indices_where)
  finally show "map (\<lambda>i. gs_lots s1 ! i) (consumable_refs inp s) =
      filter (\<lambda>l. 0 < gl_remainingAmount l)
        (filter (live_lot (gu_workspaceId inp) (gu_resource inp) (gu_createdAt inp)) (gs_lots s))"
    by (auto simp: live_lot_def intro: filter_cong)
  show "\<forall>i \<in> set (consumable_refs inp s). i < length (gs_lots s1)"
    unfolding len by (simp add: consumable_refs_def set_indices_where)
qed

lemma lot_consume_run:
  assumes inv: "glot_inv s" "keys_ok s"
    and n: "gu_amount inp = JInt n" "0 < n" and ts: "valid_timestamp (gu_createdAt inp)"
    and key: "normalizeConsumeIdempotencyKey (gu_transactionId inp) = Inr key"
    and fresh: "filter (is_lot_usage_of (gu_workspaceId inp) key) (gs_transactions s) = []"
  defines "live \<equiv> live_amount (gu_workspaceId inp) (gu_resource inp) (gu_createdAt inp)"
  shows "live s < n \<Longrightarrow> consume inp s =
      (Inl (P1DomainError INSUFFICIENT_ENTITLEMENT
         (''Insufficient '' @ resource_name (gu_resource inp) @ '' allowance.'')),
       snd (expireLots (consume_expire inp) s))"
    and "n \<le> live s \<Longrightarrow> \<exists>shares s'. consume inp s = (Inr (share_txs (lot_usage_tx inp key) 0 shares), s') \<and>
      lots_evolve (gs_lots s) (gs_lots s') \<and> sum_list (map snd shares) = n \<and> live s' = live s - n"
proof -
  let ?ws = "gu_workspaceId inp" and ?res = "gu_resource inp" and ?now = "gu_createdAt inp"
  have "\<exists>xs y. expireLots (consume_expire inp) s = (Inr xs, y)"
    using ts by (simp add: expireLots_def assert_timestamp_def consume_expire_def split_def Let_def)
  then obtain xs s1 where e: "expireLots (consume_expire inp) s = (Inr xs, s1)" by blast
  let ?L = "filter (live_lot ?ws ?res ?now) (gs_lots s)"
  let ?L' = "filter (\<lambda>l. 0 < gl_remainingAmount l) ?L"
  let ?sh = "allocateFifoConsumption ?L' (JInt n)"
  note lots = consumable_lots [OF ts, of s, unfolded e snd_conv]
  have ev1: "lots_evolve (gs_lots s) (gs_lots s1)" using expireLots_evolves [of s "consume_expire inp"] e by simp
  have inv1: "glot_inv s1" by (rule glot_inv_evolve [OF inv(1) ev1])
  have nn: "\<forall>l \<in> set (gs_lots s). 0 \<le> gl_remainingAmount l" using inv(1) by (auto simp: glot_inv_def lot_bounds_def)
  have sum': "sum_list (map gl_remainingAmount ?L') = live s"
  proof -
    have "sum_list (map gl_remainingAmount (filter (\<lambda>l. 0 < gl_remainingAmount l) ls)) =
        sum_list (map gl_remainingAmount ls)" if "\<forall>l \<in> set ls. 0 \<le> gl_remainingAmount l" for ls
      using that by (induction ls) auto
    from this [of ?L] nn show ?thesis by (simp add: live_def live_amount_def)
  qed
  have total: "sum_list (map snd ?sh) = min n (live s)"
    using allocateFifo_total [OF n(2), of ?L'] nn sum' by simp
  have live1: "live s1 = live s"
    using expireLots_live [of ?ws ?res "consume_expire inp" s, unfolded e snd_conv]
    by (simp add: live_def live_amount_def consume_expire_def)
  have indep: "assert_independent_of_lots ?ws key (gs_lots s) = Inr ()"
    using inv(2) by (intro independent_of_lots [OF key]) (simp add: keys_ok_def)
  have run: "consume inp s =
      (if sum_list (map snd ?sh) \<noteq> n
       then (Inl (P1DomainError INSUFFICIENT_ENTITLEMENT
               (''Insufficient '' @ resource_name ?res @ '' allowance.'')), s1)
       else (Inr (fst (take_loop (lot_usage_tx inp key) ?ws 0 ?sh s1)),
             snd (take_loop (lot_usage_tx inp key) ?ws 0 ?sh s1)))"
    using n ts key indep fresh e
    by (auto simp: consume_def assert_timestamp_def Let_def op_bind_def split_def lots(1))
  show "consume inp s = (Inl (P1DomainError INSUFFICIENT_ENTITLEMENT
         (''Insufficient '' @ resource_name (gu_resource inp) @ '' allowance.'')), snd (expireLots (consume_expire inp) s))" if "live s < n"
    unfolding run total using that by (simp add: e)
  show "\<exists>shares s'. consume inp s = (Inr (share_txs (lot_usage_tx inp key) 0 shares), s') \<and>
      lots_evolve (gs_lots s) (gs_lots s') \<and> sum_list (map snd shares) = n \<and> live s' = live s - n"
    if le: "n \<le> live s"
  proof -
    have sub: "set ?L' \<subseteq> set (gs_lots s1)"
    proof
      fix l assume "l \<in> set ?L'"
      then obtain i where "i \<in> set (consumable_refs inp s)" "l = gs_lots s1 ! i"
        unfolding lots(1) [symmetric] by auto
      with lots(2) show "l \<in> set (gs_lots s1)" by auto
    qed
    have wsL: "\<forall>l \<in> set ?L'. gl_workspaceId l = ?ws" by (simp add: live_lot_def)
    have "distinct (map glot_ident (gs_lots s))" using inv(1) by (simp add: glot_inv_def)
    then have d: "distinct (map gl_id ?L')"
      using wsL unfolding distinct_map inj_on_def glot_ident_def by auto
    note sh = allocateFifo_shares [OF n(2) sub d wsL]
    have owner: "\<forall>l \<in> set (gs_lots s1). gl_workspaceId l = ?ws \<and> gl_id l \<in> fst ` set ?sh \<longrightarrow>
        live_lot ?ws ?res ?now l"
    proof (intro ballI impI)
      fix l assume l: "l \<in> set (gs_lots s1)" "gl_workspaceId l = ?ws \<and> gl_id l \<in> fst ` set ?sh"
      then obtain k where k: "k \<in> set ?L'" "gl_id k = gl_id l" using sh(2) by auto
      then have "k \<in> set (gs_lots s1)" "gl_workspaceId k = ?ws" using sub wsL by auto
      with inv1 k(2) l have "k = l" by (auto simp: glot_inv_def distinct_map inj_on_def glot_ident_def)
      with k(1) show "live_lot ?ws ?res ?now l" by simp
    qed
    obtain s' where s': "take_loop (lot_usage_tx inp key) ?ws 0 ?sh s1 =
        (share_txs (lot_usage_tx inp key) 0 ?sh, s')" "lots_evolve (gs_lots s1) (gs_lots s')"
      "sum_list (map gl_remainingAmount (filter (live_lot ?ws ?res ?now) (gs_lots s'))) =
        sum_list (map gl_remainingAmount (filter (live_lot ?ws ?res ?now) (gs_lots s1))) -
        sum_list (map snd ?sh)"
      using take_loop_run [OF inv1 sh(1) live_lot_resp owner] by blast
    have "live s' = live s - n"
      using s'(3) live1 total le by (simp add: live_def live_amount_def)
    with s'(1,2) run total le ev1 show ?thesis by (auto intro: lots_evolve_trans)
  qed
qed

lemma lot_consume_evolves:
  assumes inv: "glot_inv s" "keys_ok s"
  shows "lots_evolve (gs_lots s) (gs_lots (snd (consume inp s)))"
proof (cases "number_isInteger (gu_amount inp) \<and> 0 < int_of (gu_amount inp) \<and>
    valid_timestamp (gu_createdAt inp) \<and> isl (normalizeConsumeIdempotencyKey (gu_transactionId inp)) = False")
  case False
  then show ?thesis
    by (cases "normalizeConsumeIdempotencyKey (gu_transactionId inp)")
      (auto simp: consume_def assert_timestamp_def)
next
  case True
  then obtain key where key: "normalizeConsumeIdempotencyKey (gu_transactionId inp) = Inr key"
    by (cases "normalizeConsumeIdempotencyKey (gu_transactionId inp)") auto
  define n where "n = int_of (gu_amount inp)"
  have n: "gu_amount inp = JInt n" "0 < n" using True by (auto simp: n_def number_isInteger_iff)
  have ts: "valid_timestamp (gu_createdAt inp)" using True by simp
  show ?thesis
  proof (cases "filter (is_lot_usage_of (gu_workspaceId inp) key) (gs_transactions s) = []")
    case True
    note run = lot_consume_run [OF inv n ts key True]
    show ?thesis
      by (cases "n \<le> live_amount (gu_workspaceId inp) (gu_resource inp) (gu_createdAt inp) s")
        (use run expireLots_evolves [of s "consume_expire inp"] in auto)
  next
    case False
    have "assert_independent_of_lots (gu_workspaceId inp) key (gs_lots s) = Inr ()"
      using inv(2) by (intro independent_of_lots [OF key]) (simp add: keys_ok_def)
    with n ts key False show ?thesis
      by (auto simp: consume_def assert_timestamp_def Let_def)
  qed
qed

definition mirrored_total :: "migration_input \<Rightarrow> grant_lot_ledger \<Rightarrow> int" where
  "mirrored_total inp s = sum_list (map gl_remainingAmount (filter (mirrored inp) (gs_lots s)))"

lemma mirrored_resp:
  "glot_fixed l = glot_fixed l' \<Longrightarrow> gl_expirationDate l = gl_expirationDate l' \<Longrightarrow>
    mirrored inp l = mirrored inp l'"
  by (auto simp: glot_fixed_def glot_ident_def mirrored_def)

lemma migrate_usage_run:
  assumes inv: "glot_inv s" and n: "0 < n" "n \<le> mirrored_total inp s"
  shows "\<exists>ts s'. take_loop mk (mi_workspaceId inp) 0
      (allocateFifoConsumption (filter (mirrored inp) (gs_lots s)) (JInt n)) s = (ts, s') \<and>
    lots_evolve (gs_lots s) (gs_lots s') \<and> mirrored_total inp s' = mirrored_total inp s - n"
proof -
  let ?L = "filter (mirrored inp) (gs_lots s)" and ?ws = "mi_workspaceId inp"
  let ?sh = "allocateFifoConsumption ?L (JInt n)"
  have wsL: "\<forall>l \<in> set ?L. gl_workspaceId l = ?ws" by (simp add: mirrored_def)
  have "distinct (map glot_ident (gs_lots s))" using inv by (simp add: glot_inv_def)
  then have d: "distinct (map gl_id ?L)"
    using wsL unfolding distinct_map inj_on_def glot_ident_def by auto
  have sub: "set ?L \<subseteq> set (gs_lots s)" by auto
  note sh = allocateFifo_shares [OF n(1) sub d wsL]
  have owner: "\<forall>l \<in> set (gs_lots s). gl_workspaceId l = ?ws \<and> gl_id l \<in> fst ` set ?sh \<longrightarrow> mirrored inp l"
  proof (intro ballI impI)
    fix l assume l: "l \<in> set (gs_lots s)" "gl_workspaceId l = ?ws \<and> gl_id l \<in> fst ` set ?sh"
    then obtain k where k: "k \<in> set ?L" "gl_id k = gl_id l" using sh(2) by auto
    with inv l wsL have "k = l" by (auto simp: glot_inv_def distinct_map inj_on_def glot_ident_def)
    with k(1) show "mirrored inp l" by simp
  qed
  have "\<forall>l \<in> set ?L. 0 \<le> gl_remainingAmount l" using inv by (auto simp: glot_inv_def lot_bounds_def)
  then have tot: "sum_list (map snd ?sh) = n"
    using allocateFifo_total [OF n(1), of ?L] n(2) by (simp add: mirrored_total_def)
  show ?thesis
    using take_loop_run [OF inv sh(1) mirrored_resp owner, of mk 0]
    unfolding mirrored_total_def tot by blast
qed

lemma mark_run:
  "valid_timestamp at \<Longrightarrow> markLegacyBalanceMigrated ws res at s =
    (Inr (), s\<lparr>gs_migrations := insert (migration_key ws res) (gs_migrations s)\<rparr>)"
  by (simp add: markLegacyBalanceMigrated_def assert_timestamp_def)

lemma balance_grant_fresh:
  assumes m: "0 < m" and ids: "\<not> blank (mi_balanceLotId inp)" "\<not> blank (mi_workspaceId inp)"
    and ts: "valid_timestamp (mi_createdAt inp)"
    and free: "\<forall>l \<in> set (gs_lots s). gl_workspaceId l = mi_workspaceId inp \<longrightarrow>
      gl_id l \<noteq> mi_balanceLotId inp \<and> gl_grantIdempotencyKey l \<noteq> Some (grant_prefix @ mi_balanceLotId inp)"
  shows "\<exists>l s'. grant (balance_grant inp m) s = (Inr l, s') \<and> gs_lots s' = gs_lots s @ [l] \<and>
    mirrored inp l \<and> gl_remainingAmount l = m"
proof -
  let ?g = "balance_grant inp m" and ?key = "grant_prefix @ mi_balanceLotId inp"
  have "assertGrantLotGrantInput ?g = Inr ()"
    using m ids ts by (simp add: assertGrantLotGrantInput_def balance_grant_def assert_timestamp_def)
  moreover have "normalizeGrantIdempotencyKey (gi_id ?g) (gi_grantIdempotencyKey ?g) = Inr ?key"
    by (simp add: normalizeGrantIdempotencyKey_def balance_grant_def)
  moreover have "find (\<lambda>l. gl_workspaceId l = gi_workspaceId ?g \<and> gl_grantIdempotencyKey l = Some ?key)
      (gs_lots s) = None"
    "find (\<lambda>l. gl_workspaceId l = gi_workspaceId ?g \<and> gl_id l = gi_id ?g) (gs_lots s) = None"
    using free by (auto simp: find_None_iff balance_grant_def)
  ultimately have "grant ?g s = (Inr (new_grant_lot ?g ?key), add_tx (grant_lot_grant_tx ?g ?key)
      (s\<lparr>gs_lots := gs_lots s @ [new_grant_lot ?g ?key]\<rparr>))"
    by (simp add: grant_def Let_def)
  then show ?thesis by (simp add: mirrored_def new_grant_lot_def balance_grant_def)
qed

lemma migrate_run:
  assumes inv: "glot_inv s" and new: "\<not> isLegacyBalanceMigrated s (mi_workspaceId inp) (mi_resource inp)"
    and n: "mi_legacyAvailable inp = JInt n" "0 \<le> n"
    and ts: "valid_timestamp (mi_createdAt inp)" "valid_timestamp (mi_asOf inp)"
    and ids: "\<not> blank (mi_balanceLotId inp)" "\<not> blank (mi_workspaceId inp)"
    and free: "\<forall>l \<in> set (gs_lots s). gl_workspaceId l = mi_workspaceId inp \<longrightarrow>
      gl_id l \<noteq> mi_balanceLotId inp \<and> gl_grantIdempotencyKey l \<noteq> Some (grant_prefix @ mi_balanceLotId inp)"
  shows "\<exists>s'. migrateLegacyBalance inp s = (Inr (), s') \<and> mirrored_total inp s' = n \<and>
    isLegacyBalanceMigrated s' (mi_workspaceId inp) (mi_resource inp)"
proof -
  let ?t = "mirrored_total inp s"
  let ?op = "''legacy-usage-migration:'' @ resource_name (mi_resource inp) @ '':'' @ mi_legacySnapshotId inp"
  let ?mark = "\<lambda>s. s\<lparr>gs_migrations := insert (migration_key (mi_workspaceId inp) (mi_resource inp)) (gs_migrations s)\<rparr>"
  have body: "migrateLegacyBalance inp s = atomically (migrate_body inp) s"
    using new n ts by (simp add: migrateLegacyBalance_def assert_timestamp_def)
  have total_mark: "mirrored_total inp (?mark x) = mirrored_total inp x"
    "isLegacyBalanceMigrated (?mark x) (mi_workspaceId inp) (mi_resource inp)" for x
    by (simp_all add: mirrored_total_def isLegacyBalanceMigrated_def)
  consider (used) "n < ?t" | (missing) "?t < n" | (even) "?t = n" by linarith
  then have "\<exists>s1. migrate_body inp s = (Inr (), ?mark s1) \<and> mirrored_total inp s1 = n"
  proof cases
    case used
    then obtain tx s1 where s1: "take_loop (migration_tx inp ?op) (mi_workspaceId inp) 0
        (allocateFifoConsumption (filter (mirrored inp) (gs_lots s)) (JInt (?t - n))) s = (tx, s1)"
      "mirrored_total inp s1 = ?t - (?t - n)"
      using migrate_usage_run [OF inv, of "?t - n" inp "migration_tx inp ?op"] n(2) by auto
    have "migrate_body inp s = (Inr (), ?mark s1)"
      unfolding migrate_body_def Let_def mark_run [OF ts(2)]
      using used n s1(1) by (simp add: mirrored_total_def)
    with s1(2) show ?thesis by auto
  next
    case missing
    then obtain l s1 where s1: "grant (balance_grant inp (n - ?t)) s = (Inr l, s1)"
      "gs_lots s1 = gs_lots s @ [l]" "mirrored inp l" "gl_remainingAmount l = n - ?t"
      using balance_grant_fresh [OF _ ids ts(1) free, of "n - ?t"] by auto
    have "migrate_body inp s = (Inr (), ?mark s1)"
      unfolding migrate_body_def Let_def mark_run [OF ts(2)]
      using missing n s1(1) by (simp add: mirrored_total_def op_bind_def)
    moreover have "mirrored_total inp s1 = n" using s1(2-4) by (simp add: mirrored_total_def)
    ultimately show ?thesis by blast
  next
    case even
    then have "migrate_body inp s = (Inr (), ?mark s)"
      unfolding migrate_body_def Let_def mark_run [OF ts(2)]
      using n by (simp add: mirrored_total_def)
    with even show ?thesis by auto
  qed
  then show ?thesis using body total_mark by (auto simp: atomically_def)
qed

lemma migrate_keeps:
  assumes "glot_inv s" "keys_ok s"
  shows "glot_inv (snd (migrateLegacyBalance inp s)) \<and> keys_ok (snd (migrateLegacyBalance inp s))"
proof -
  let ?ok = "\<lambda>x. glot_inv x \<and> keys_ok x"
  have mark: "?ok (snd (markLegacyBalanceMigrated ws res at x))" if "?ok x" for ws res at x
    using that by (auto simp: markLegacyBalanceMigrated_def assert_timestamp_def glot_inv_def keys_ok_def)
  have body: "?ok (snd (migrate_body inp s))" if avail: "0 \<le> int_of (mi_legacyAvailable inp)"
  proof -
    let ?n = "mirrored_total inp s - int_of (mi_legacyAvailable inp)"
    show ?thesis
    proof (cases "0 < ?n")
      case True
      have tk: "?ok (snd (take_loop mk (mi_workspaceId inp) 0
          (allocateFifoConsumption (filter (mirrored inp) (gs_lots s)) (JInt ?n)) s))" for mk
        using migrate_usage_run [OF assms(1), of ?n inp mk] True avail assms
        by (auto intro: glot_inv_evolve keys_ok_evolve)
      show ?thesis
        unfolding migrate_body_def Let_def mirrored_total_def [symmetric]
        using True mark [OF tk] by (simp only: if_P max_absorb2 less_imp_le)
    next
      case False
      have "?ok (snd (op_bind (grant g) (\<lambda>_. markLegacyBalanceMigrated ws res at) s))" for g ws res at
        using assms lot_grant_keeps_inv [of s g] lot_grant_keeps_keys [of s g] mark
        by (auto simp: op_bind_def split: prod.splits sum.splits)
      with False mark [of s] assms show ?thesis
        unfolding migrate_body_def Let_def mirrored_total_def [symmetric] by (auto simp: max_def)
    qed
  qed
  show ?thesis
    using assms body
    by (auto simp: migrateLegacyBalance_def assert_timestamp_def atomically_def split: prod.splits sum.splits)
qed

section \<open>Reconciliation\<close>

lemma shorten_loop_entitlement:
  "entitlement (gs_lots (shorten_loop e is s) ! j) = entitlement (gs_lots s ! j)"
proof (induction "is" arbitrary: s)
  case (Cons i "is")
  have "entitlement (shorten_lot e l) = entitlement l" for l by (simp add: shorten_lot_def)
  with Cons.IH show ?case
    by (cases "i < length (gs_lots s)") (auto simp: nth_list_update list_update_beyond)
qed simp

lemma shorten_loop_length [simp]: "length (gs_lots (shorten_loop e is s)) = length (gs_lots s)"
  by (induction "is" arbitrary: s) auto

lemma reduce_loop_entitlement:
  assumes "distinct is" "\<forall>i \<in> set is. i < length (gs_lots s) \<and> 0 \<le> entitlement (gs_lots s ! i)"
    and "0 \<le> n" "n \<le> sum_list (map (\<lambda>i. entitlement (gs_lots s ! i)) is)"
  shows "sum_list (map (\<lambda>i. entitlement (gs_lots (snd (reduce_loop inp n w is s)) ! i)) is) =
      sum_list (map (\<lambda>i. entitlement (gs_lots s ! i)) is) - n \<and>
    (\<forall>j. j \<notin> set is \<longrightarrow> gs_lots (snd (reduce_loop inp n w is s)) ! j = gs_lots s ! j)"
  using assms
proof (induction "is" arbitrary: n w s)
  case Nil
  then show ?case by simp
next
  case (Cons i "is")
  show ?case
  proof (cases "n = 0")
    case True
    then show ?thesis by simp
  next
    case False
    define cap where "cap = min n (entitlement (gs_lots s ! i))"
    define amt where "amt = min (gl_remainingAmount (gs_lots s ! i)) cap"
    define s1 where "s1 = set_lot i (cut_lot cap amt (gs_lots s ! i)) s"
    define s2 where "s2 = (if amt = 0 then s1
      else add_tx (reconcile_tx inp (length w) (gl_id (gs_lots s ! i)) amt) s1)"
    define w2 where "w2 = (if amt = 0 then w
      else w @ [reconcile_tx inp (length w) (gl_id (gs_lots s ! i)) amt])"
    have run: "reduce_loop inp n w (i # is) s = reduce_loop inp (n - cap) w2 is s2"
      using False by (simp add: Let_def cap_def amt_def s1_def s2_def w2_def)
    have i: "i < length (gs_lots s)" "i \<notin> set is" using Cons.prems by auto
    have lots: "gs_lots s2 = (gs_lots s)[i := cut_lot cap amt (gs_lots s ! i)]"
      by (simp add: s2_def s1_def)
    have oth: "gs_lots s2 ! j = gs_lots s ! j" if "j \<noteq> i" for j using that lots by simp
    have ents: "map (\<lambda>j. entitlement (gs_lots s2 ! j)) is = map (\<lambda>j. entitlement (gs_lots s ! j)) is"
      using oth i(2) by (intro map_cong refl) (metis oth)
    have ent_i: "entitlement (gs_lots s2 ! i) = entitlement (gs_lots s ! i) - cap"
      using i(1) lots by (simp add: cut_lot_def)
    have nn: "0 \<le> sum_list (map (\<lambda>j. entitlement (gs_lots s ! j)) is)"
      using Cons.prems(2) by (intro sum_list_nonneg) auto
    have "sum_list (map (\<lambda>j. entitlement (gs_lots (snd (reduce_loop inp (n - cap) w2 is s2)) ! j)) is) =
        sum_list (map (\<lambda>j. entitlement (gs_lots s2 ! j)) is) - (n - cap) \<and>
        (\<forall>j. j \<notin> set is \<longrightarrow> gs_lots (snd (reduce_loop inp (n - cap) w2 is s2)) ! j = gs_lots s2 ! j)"
    proof (rule Cons.IH)
      show "distinct is" using Cons.prems(1) by simp
      show "\<forall>j \<in> set is. j < length (gs_lots s2) \<and> 0 \<le> entitlement (gs_lots s2 ! j)"
        using Cons.prems(2) lots oth i(2) by (metis length_list_update list.set_intros(2))
      show "0 \<le> n - cap" by (simp add: cap_def)
      show "n - cap \<le> sum_list (map (\<lambda>i. entitlement (gs_lots s2 ! i)) is)"
        unfolding ents using Cons.prems(4) nn by (simp add: cap_def min_def)
    qed
    then show ?thesis
      unfolding run ents using ent_i i(2) oth by auto
  qed
qed

lemma shorten_loop_transactions: "gs_transactions (shorten_loop e is s) = gs_transactions s"
  by (induction "is" arbitrary: s) auto

lemma selected_refs_range: "\<forall>i \<in> set (selected_refs inp s). i < length (gs_lots s)"
  unfolding selected_refs_def by (auto simp: List.map_filter_def dest: find_index_SomeD)

lemma selected_refs_distinct:
  assumes "distinct (re_lotIds inp)"
  shows "distinct (selected_refs inp s)"
proof -
  let ?ref = "\<lambda>k. find_index (\<lambda>l. gl_workspaceId l = re_workspaceId inp \<and>
                     gl_resource l = re_resource inp \<and> gl_id l = k) (gs_lots s)"
  have id: "gl_id (gs_lots s ! i) = k" if "?ref k = Some i" for k i using find_index_SomeD [OF that] by simp
  have "distinct (List.map_filter ?ref ks)" if "distinct ks" for ks
    using that
  proof (induction ks)
    case Nil
    then show ?case by (simp add: List.map_filter_simps)
  next
    case (Cons k ks)
    have "i \<notin> set (List.map_filter ?ref ks)" if i: "?ref k = Some i" for i
    proof
      assume "i \<in> set (List.map_filter ?ref ks)"
      then obtain k' where "k' \<in> set ks" "?ref k' = Some i" by (auto simp: List.map_filter_def)
      with id i Cons.prems show False by auto
    qed
    with Cons show ?case by (auto simp: List.map_filter_simps split: option.split)
  qed
  with assms show ?thesis by (simp add: selected_refs_def)
qed

section \<open>Refunds\<close>

lemma expire_loop_transactions:
  "\<exists>new. gs_transactions (snd (expire_loop inp is s)) = gs_transactions s @ new \<and>
    (\<forall>t \<in> set new. gt_transactionType t = EXPIRE)"
proof (induction "is" arbitrary: s)
  case Nil
  then show ?case by simp
next
  case (Cons i "is")
  let ?s1 = "set_lot i (void_lot (gs_lots s ! i)) s"
  let ?t = "lot_expire_tx inp (void_lot (gs_lots s ! i)) (gl_remainingAmount (gs_lots s ! i))"
  have "gt_transactionType ?t = EXPIRE" by (simp add: lot_expire_tx_def Let_def)
  with Cons.IH [of ?s1] Cons.IH [of "add_tx ?t ?s1"] show ?case
    by (auto simp: Let_def split_def)
qed

lemma refundUsage_appends:
  assumes "refundUsage inp s = (Inr (Some t), s')"
    and "find (is_lot_refund_of (gr_workspaceId inp) (gr_usageTransactionId inp)) (gs_transactions s) = None"
  shows "is_lot_refund_of (gr_workspaceId inp) (gr_usageTransactionId inp) t \<and>
    (\<exists>new. gs_transactions s' = gs_transactions s @ t # new)"
proof -
  obtain usage a where t: "t = lot_refund_tx inp usage a" "gt_id usage = gr_usageTransactionId inp"
    and s': "s' = snd (expireLots (refund_expire inp)
      (rebuildWorkspaceRemaining (gr_workspaceId inp) (add_tx t s)))"
    using assms
    by (auto simp: refundUsage_def assert_timestamp_def Let_def op_bind_def find_Some_iff
        split: if_splits option.splits prod.splits sum.splits)
  have "\<exists>new. gs_transactions s' = gs_transactions (rebuildWorkspaceRemaining (gr_workspaceId inp) (add_tx t s)) @ new"
    unfolding s'
    using expire_loop_transactions [of "refund_expire inp" "lapsed_refs (refund_expire inp)
        (rebuildWorkspaceRemaining (gr_workspaceId inp) (add_tx t s))"
        "rebuildWorkspaceRemaining (gr_workspaceId inp) (add_tx t s)"]
    by (auto simp: expireLots_def assert_timestamp_def split_def Let_def)
  then show ?thesis
    using t by (auto simp: rebuild_eq is_lot_refund_of_def lot_refund_tx_def)
qed

section \<open>Runs of the ledger\<close>

inductive lot_step :: "grant_lot_ledger \<Rightarrow> grant_lot_ledger \<Rightarrow> bool" where
  lot_grant: "grant inp s = (r, s') \<Longrightarrow> lot_step s s'"
| lot_consume: "consume inp s = (r, s') \<Longrightarrow> lot_step s s'"
| lot_refund: "refundUsage inp s = (r, s') \<Longrightarrow> lot_step s s'"
| lot_refund_operation: "refundUsageOperation inp s = (r, s') \<Longrightarrow> lot_step s s'"
| lot_reconcile: "reconcileEntitlementLots inp s = (r, s') \<Longrightarrow> lot_step s s'"
| lot_expire: "expireLots inp s = (r, s') \<Longrightarrow> lot_step s s'"
| lot_rebuild: "rebuildProjection inp s = (r, s') \<Longrightarrow> lot_step s s'"
| lot_migrate: "migrateLegacyBalance inp s = (r, s') \<Longrightarrow> lot_step s s'"
| lot_mark: "markLegacyBalanceMigrated ws res at s = (r, s') \<Longrightarrow> lot_step s s'"

inductive lot_run :: "grant_lot_ledger \<Rightarrow> grant_lot_ledger \<Rightarrow> bool" where
  lot_run_refl: "lot_run s s"
| lot_run_step: "lot_run s s1 \<Longrightarrow> lot_step s1 s2 \<Longrightarrow> lot_run s s2"

lemma rebuildProjection_evolves: "lots_evolve (gs_lots s) (gs_lots (snd (rebuildProjection inp s)))"
proof -
  have "lots_evolve (gs_lots s) (gs_lots (snd (expireLots inp (rebuildWorkspaceRemaining (ge_workspaceId inp) s))))"
    using lots_evolve_trans [OF rebuild_evolves expireLots_evolves] .
  then show ?thesis
    by (auto simp: rebuildProjection_def assert_timestamp_def op_bind_def split: prod.splits sum.splits)
qed

lemma refundUsageOperation_evolves:
  "lots_evolve (gs_lots s) (gs_lots (snd (refundUsageOperation inp s)))"
  using lot_refund_loop_evolves [of s inp 0]
  by (auto simp: refundUsageOperation_def Let_def split: prod.splits sum.splits) (metis snd_conv)+

text \<open>Every call keeps the lots it finds, in order, and may append one.\<close>

definition lots_grow :: "grant_lot_ledger \<Rightarrow> grant_lot_ledger \<Rightarrow> bool" where
  "lots_grow s s' \<longleftrightarrow> (\<exists>ls new. gs_lots s' = ls @ new \<and> lots_evolve (gs_lots s) ls)"

lemma lots_grow_evolve: "lots_evolve (gs_lots s) (gs_lots s') \<Longrightarrow> lots_grow s s'"
  unfolding lots_grow_def by (intro exI [of _ "gs_lots s'"] exI [of _ "[]"]) simp

lemma lots_grow_grant: "lots_grow s (snd (grant inp s))"
proof -
  obtain r s' where run: "grant inp s = (r, s')" by (cases "grant inp s")
  then have "lots_grow s s'"
  proof (cases rule: lot_grant_result)
    case (fresh key)
    then show ?thesis
      unfolding lots_grow_def by (intro exI [of _ "gs_lots s"] exI [of _ "[new_grant_lot inp key]"]) simp
  qed (simp add: lots_grow_evolve)
  with run show ?thesis by simp
qed

lemma lots_grow_mark:
  "lots_grow s x \<Longrightarrow> lots_grow s (snd (markLegacyBalanceMigrated ws res at x))"
  by (auto simp: markLegacyBalanceMigrated_def assert_timestamp_def lots_grow_def)

lemma lots_grow_migrate:
  assumes "glot_inv s"
  shows "lots_grow s (snd (migrateLegacyBalance inp s))"
proof -
  let ?n = "mirrored_total inp s - int_of (mi_legacyAvailable inp)"
  have refl: "lots_grow s s" by (simp add: lots_grow_evolve)
  have body: "lots_grow s (snd (migrate_body inp s))" if avail: "0 \<le> int_of (mi_legacyAvailable inp)"
  proof (cases "0 < ?n")
    case True
    have tk: "lots_grow s (snd (take_loop mk (mi_workspaceId inp) 0
        (allocateFifoConsumption (filter (mirrored inp) (gs_lots s)) (JInt ?n)) s))" for mk
      using migrate_usage_run [OF assms, of ?n inp mk] True avail by (auto intro: lots_grow_evolve)
    show ?thesis
      unfolding migrate_body_def Let_def mirrored_total_def [symmetric]
      using True lots_grow_mark [OF tk] by (simp only: if_P max_absorb2 less_imp_le)
  next
    case False
    have "lots_grow s (snd (op_bind (grant g) (\<lambda>_. markLegacyBalanceMigrated ws res at) s))" for g ws res at
      using lots_grow_grant [of s g] lots_grow_mark
      by (auto simp: op_bind_def split: prod.splits sum.splits)
    with False lots_grow_mark [OF refl] show ?thesis
      unfolding migrate_body_def Let_def mirrored_total_def [symmetric] by (auto simp: max_def)
  qed
  show ?thesis
    using refl body
    by (auto simp: migrateLegacyBalance_def assert_timestamp_def atomically_def split: prod.splits sum.splits)
qed

lemma lot_step_keeps:
  assumes step: "lot_step s s'" and inv: "glot_inv s \<and> keys_ok s"
  shows "(glot_inv s' \<and> keys_ok s') \<and> lots_grow s s'"
proof -
  have ev: ?thesis if "lots_evolve (gs_lots s) (gs_lots s')"
    using that inv by (auto intro: glot_inv_evolve keys_ok_evolve lots_grow_evolve)
  from step show ?thesis
  proof (cases rule: lot_step.cases)
    case (lot_grant inp r)
    then show ?thesis
      using inv lot_grant_keeps_inv [of s inp] lot_grant_keeps_keys [of s inp] lots_grow_grant [of s inp]
      by simp
  next
    case (lot_consume inp r)
    then show ?thesis using lot_consume_evolves [of s inp] inv by (intro ev) simp
  next
    case (lot_refund inp r)
    then show ?thesis using refundUsage_evolves [of s inp] by (intro ev) simp
  next
    case (lot_refund_operation inp r)
    then show ?thesis using refundUsageOperation_evolves [of s inp] by (intro ev) simp
  next
    case (lot_reconcile inp r)
    then show ?thesis using reconcile_evolves [of s inp] by (intro ev) simp
  next
    case (lot_expire inp r)
    then show ?thesis using expireLots_evolves [of s inp] by (intro ev) simp
  next
    case (lot_rebuild inp r)
    then show ?thesis using rebuildProjection_evolves [of s inp] by (intro ev) simp
  next
    case (lot_migrate inp r)
    then show ?thesis using migrate_keeps [of s inp] lots_grow_migrate [of s inp] inv by simp
  next
    case (lot_mark ws res at r)
    then have "gs_lots s' = gs_lots s"
      by (auto simp: markLegacyBalanceMigrated_def assert_timestamp_def split: if_splits)
    then show ?thesis by (intro ev) simp
  qed
qed

lemma lot_run_keeps: "lot_run s s' \<Longrightarrow> glot_inv s \<and> keys_ok s \<Longrightarrow> glot_inv s' \<and> keys_ok s'"
  by (induction rule: lot_run.induct) (use lot_step_keeps in blast)+

lemma lot_run_inv:
  assumes "lot_run empty_grant_lot_ledger s"
  shows "glot_inv s" "keys_ok s"
  using lot_run_keeps [OF assms] by (simp_all add: glot_inv_def keys_ok_def empty_grant_lot_ledger_def)

section \<open>Examples\<close>

definition at_jan :: string where "at_jan = ''2026-01-01T00:00:00.000Z''"
definition at_feb :: string where "at_feb = ''2026-02-01T00:00:00.000Z''"
definition at_mar :: string where "at_mar = ''2026-03-01T00:00:00.000Z''"

definition sample_lot :: "string \<Rightarrow> int \<Rightarrow> string option \<Rightarrow> grant_lot_input" where
  "sample_lot i n expiry =
     \<lparr> gi_id = i, gi_workspaceId = ''w'', gi_resource = Image, gi_amount = JInt n,
       gi_expirationDate = expiry, gi_transactionType = GRANT SUBSCRIPTION_RENEWAL, gi_sourceRef = None,
       gi_supplyPoolId = None, gi_grantSource = None, gi_grantIdempotencyKey = None, gi_actorId = None,
       gi_correlationId = None, gi_createdAt = at_jan \<rparr>"

definition sample_use :: "string \<Rightarrow> int \<Rightarrow> lot_consume_input" where
  "sample_use i n =
     \<lparr> gu_workspaceId = ''w'', gu_resource = Image, gu_amount = JInt n, gu_transactionId = i,
       gu_actorId = ''a'', gu_correlationId = ''c'', gu_createdAt = at_feb \<rparr>"

definition sample_lots :: grant_lot_ledger where
  "sample_lots =
     snd (grant (sample_lot ''m'' 10 (Some at_mar)) (snd (grant (sample_lot ''n'' 5 None) empty_grant_lot_ledger)))"

definition sample_lots_used :: grant_lot_ledger where
  "sample_lots_used = snd (consume (sample_use ''op'' 12) sample_lots)"

lemma sample_lots_run: "lot_run empty_grant_lot_ledger sample_lots"
  unfolding sample_lots_def
  by (rule lot_run_step [OF lot_run_step [OF lot_run_refl]]; rule lot_grant [OF prod.collapse [symmetric]])

lemma sample_lots_used_step: "lot_step sample_lots sample_lots_used"
  unfolding sample_lots_used_def by (rule lot_consume [OF prod.collapse [symmetric]])

lemma sample_lots_used_run: "lot_run empty_grant_lot_ledger sample_lots_used"
  by (rule lot_run_step [OF sample_lots_run sample_lots_used_step])

section \<open>Properties\<close>

text \<open>
  C24. The grant-lot ledger stays within bounds: in every reachable state each lot's remaining
  amount lies between zero and its entitlement, the entitlement never exceeds the granted amount,
  and lot identifiers are unique per workspace.
\<close>

theorem grant_lot_bounds:
  assumes "lot_run empty_grant_lot_ledger s" and "l \<in> set (gs_lots s)"
  shows "0 \<le> gl_remainingAmount l \<and> gl_remainingAmount l \<le> entitlement l \<and>
    entitlement l \<le> gl_originalAmount l \<and> distinct (map glot_ident (gs_lots s))"
  using lot_run_inv(1) [OF assms(1)] assms(2) by (auto simp: glot_inv_def lot_bounds_def)

theorem grant_lot_bounds_witness:
  "gl_remainingAmount (gs_lots sample_lots_used ! 0) \<le> entitlement (gs_lots sample_lots_used ! 0) \<and>
   gl_remainingAmount (gs_lots sample_lots_used ! 0) = 3"
proof
  have "gs_lots sample_lots_used ! 0 \<in> set (gs_lots sample_lots_used)" by code_simp
  from grant_lot_bounds [OF sample_lots_used_run this]
  show "gl_remainingAmount (gs_lots sample_lots_used ! 0) \<le> entitlement (gs_lots sample_lots_used ! 0)" by blast
  show "gl_remainingAmount (gs_lots sample_lots_used ! 0) = 3" by code_simp
qed

text \<open>
  Allowance never grows after it was granted: whatever is called on a reachable ledger, every
  lot is still there with its permanent facts, its entitlement is at most what it was, and its
  expiry is the same or earlier.
\<close>

theorem grant_lots_never_grow:
  assumes "lot_run empty_grant_lot_ledger s" and "lot_step s s'" and "i < length (gs_lots s)"
  shows "i < length (gs_lots s') \<and> glot_fixed (gs_lots s' ! i) = glot_fixed (gs_lots s ! i) \<and>
    entitlement (gs_lots s' ! i) \<le> entitlement (gs_lots s ! i) \<and>
    expirationIsSameOrShorter (gl_expirationDate (gs_lots s' ! i)) (gl_expirationDate (gs_lots s ! i))"
proof -
  have inv: "glot_inv s" "keys_ok s" by (rule lot_run_inv [OF assms(1)])+
  obtain ls new where grow: "gs_lots s' = ls @ new" "lots_evolve (gs_lots s) ls"
    using lot_step_keeps [OF assms(2)] inv by (auto simp: lots_grow_def)
  have len: "i < length ls" using lots_evolve_length [OF grow(2)] assms(3) by simp
  have "lot_bounds (gs_lots s ! i)" using inv(1) nth_mem [OF assms(3)] by (simp add: glot_inv_def)
  with lots_evolve_nth [OF grow(2) assms(3)] len show ?thesis
    by (simp add: grow(1) nth_append lot_evolves_def)
qed

theorem grant_lots_never_grow_witness:
  "entitlement (gs_lots sample_lots_used ! 1) \<le> entitlement (gs_lots sample_lots ! 1)"
proof -
  have "1 < length (gs_lots sample_lots)" by code_simp
  from grant_lots_never_grow [OF sample_lots_run sample_lots_used_step this] show ?thesis by blast
qed

text \<open>
  Consumption of counted allowance: for a well-formed request of a new operation in a reachable
  state, if the live lots of the resource hold less than the amount the call fails with
  \<^verbatim>\<open>INSUFFICIENT_ENTITLEMENT\<close> after the expiry sweep; otherwise it writes usages of exactly the
  amount and the live lots hold exactly that much less.
\<close>

theorem grant_lot_consume:
  assumes "lot_run empty_grant_lot_ledger s"
    and "gu_amount inp = JInt n" "0 < n" and "valid_timestamp (gu_createdAt inp)"
    and "normalizeConsumeIdempotencyKey (gu_transactionId inp) = Inr key"
    and "filter (is_lot_usage_of (gu_workspaceId inp) key) (gs_transactions s) = []"
  defines "live \<equiv> live_amount (gu_workspaceId inp) (gu_resource inp) (gu_createdAt inp)"
  shows "if live s < n
    then consume inp s = (Inl (P1DomainError INSUFFICIENT_ENTITLEMENT
           (''Insufficient '' @ resource_name (gu_resource inp) @ '' allowance.'')),
         snd (expireLots (consume_expire inp) s))
    else \<exists>ts s'. consume inp s = (Inr ts, s') \<and> sum_list (map gt_amount ts) = n \<and> live s' = live s - n"
proof -
  have amt: "sum_list (map gt_amount (share_txs (lot_usage_tx inp key) k shares)) = sum_list (map snd shares)"
    for k shares
    by (induction "lot_usage_tx inp key" k shares rule: share_txs.induct) (auto simp: lot_usage_tx_def)
  note run = lot_consume_run [OF lot_run_inv [OF assms(1)] assms(2-6)]
  show ?thesis
  proof (cases "live s < n")
    case True
    with run(1) show ?thesis by (simp add: live_def)
  next
    case False
    then have "n \<le> live_amount (gu_workspaceId inp) (gu_resource inp) (gu_createdAt inp) s"
      by (simp add: live_def)
    from run(2) [OF this] False amt show ?thesis by (auto simp: live_def)
  qed
qed

theorem grant_lot_consume_witness:
  "\<exists>ts s'. consume (sample_use ''op'' 12) sample_lots = (Inr ts, s') \<and> sum_list (map gt_amount ts) = 12"
proof -
  let ?u = "sample_use ''op'' 12"
  have "gu_amount ?u = JInt 12" "0 < (12::int)" by (simp_all add: sample_use_def)
  moreover have "valid_timestamp (gu_createdAt ?u)" by code_simp
  moreover have "normalizeConsumeIdempotencyKey (gu_transactionId ?u) = Inr ''op''" by code_simp
  moreover have "filter (is_lot_usage_of (gu_workspaceId ?u) ''op'') (gs_transactions sample_lots) = []" by code_simp
  moreover have "\<not> live_amount (gu_workspaceId ?u) (gu_resource ?u) (gu_createdAt ?u) sample_lots < 12" by code_simp
  ultimately show ?thesis using grant_lot_consume [OF sample_lots_run, of ?u 12 "''op''"] by auto
qed

text \<open>
  C25. Repair of the remaining amounts is a function of the entitlements and the transactions: after
  it every cohort of a workspace holds its entitlements less its net usage, never below zero, and
  repairing again changes nothing, not even a revision.
\<close>

theorem rebuild_settles_and_is_idempotent:
  assumes "lot_run empty_grant_lot_ledger s"
    and "c \<in> set (groupGrantLotCohorts (gs_lots s) (indices_where (\<lambda>l. gl_workspaceId l = ws) (gs_lots s)))"
  defines "s' \<equiv> rebuildWorkspaceRemaining ws s"
  shows "rebuildWorkspaceRemaining ws s' = s' \<and>
    sum_list (map (\<lambda>i. gl_remainingAmount (gs_lots s' ! i)) c) =
      max 0 (sum_list (map (\<lambda>i. entitlement (gs_lots s ! i)) c) -
             max 0 (net_usage ws (map (\<lambda>i. gl_id (gs_lots s ! i)) c) (gs_transactions s)))"
proof -
  have c: "c \<in> set (ws_cohorts ws (gs_lots s))" using assms(2) by (simp add: ws_cohorts_def)
  have range: "\<forall>i \<in> set c. i < length (gs_lots s)" using ws_cohorts_ok(3) [OF c] by (simp add: cohort_ok_def)
  have st: "same_static (gs_lots s) (gs_lots s')" "settled ws (gs_transactions s) (gs_lots s') c"
    using rebuild_settles [of s ws] c by (simp_all add: s'_def)
  note same = cohort_static [OF st(1) range]
  have "0 \<le> entitlement (gs_lots s' ! i)" if "i \<in> set c" for i
  proof -
    have i: "i < length (gs_lots s)" using range that by blast
    then have "lot_bounds (gs_lots s ! i)" using lot_run_inv(1) [OF assms(1)] by (simp add: glot_inv_def)
    then show ?thesis
      using static_eqD(1) [OF same_static_nth [OF st(1) i]] by (simp add: lot_bounds_def)
  qed
  then have "sum_list (map (\<lambda>i. gl_remainingAmount (gs_lots s' ! i)) c) =
      max 0 (sum_list (map (\<lambda>i. entitlement (gs_lots s' ! i)) c) -
        cohort_debt ws (gs_transactions s) c (gs_lots s'))"
    by (intro settled_total [OF st(2)]) blast
  then show ?thesis
    using rebuild_idem [of ws s] unfolding same by (simp add: s'_def cohort_debt_def)
qed

theorem rebuild_settles_and_is_idempotent_witness:
  "rebuildWorkspaceRemaining ''w'' (rebuildWorkspaceRemaining ''w'' sample_lots_used) =
     rebuildWorkspaceRemaining ''w'' sample_lots_used"
proof -
  have "[0] \<in> set (groupGrantLotCohorts (gs_lots sample_lots_used)
      (indices_where (\<lambda>l. gl_workspaceId l = ''w'') (gs_lots sample_lots_used)))" by code_simp
  from rebuild_settles_and_is_idempotent [OF sample_lots_used_run this] show ?thesis by blast
qed

text \<open>
  Reconciliation lowers the plan allowance to its target and never raises it: the first time an
  operation reconciles distinct lots of a reachable ledger, their entitlements add up to the smaller
  of what they were and the target (zero when the boundary has passed).
\<close>

theorem reconcile_reaches_target:
  assumes "lot_run empty_grant_lot_ledger s"
    and "assertGrantLotEntitlementReconciliationInput inp = Inr ()" and "distinct (re_lotIds inp)"
    and "\<forall>t \<in> set (gs_transactions s). gt_workspaceId t = re_workspaceId inp \<and>
      gt_transactionType t = EXPIRE \<longrightarrow> gt_operationId t \<noteq> Some (re_operationId inp)"
  defines "s' \<equiv> snd (reconcileEntitlementLots inp s)"
  shows "sum_list (map (\<lambda>i. entitlement (gs_lots s' ! i)) (selected_refs inp s)) =
    min (sum_list (map (\<lambda>i. entitlement (gs_lots s ! i)) (selected_refs inp s)))
      (if date_le (re_expirationDate inp) (re_asOf inp) then 0 else int_of (re_targetAmount inp))"
proof -
  let ?sel = "selected_refs inp s"
  let ?s1 = "shorten_loop (re_expirationDate inp) ?sel s"
  let ?target = "if date_le (re_expirationDate inp) (re_asOf inp) then 0 else int_of (re_targetAmount inp)"
  let ?cur = "sum_list (map (\<lambda>i. entitlement (gs_lots s ! i)) ?sel)"
  let ?order = "js_sort (\<lambda>i j. newest_first (gs_lots ?s1 ! i) (gs_lots ?s1 ! j)) ?sel"
  let ?s2 = "snd (reduce_loop inp (max 0 (?cur - ?target)) [] ?order ?s1)"
  have sel: "distinct ?sel" "\<forall>i \<in> set ?sel. i < length (gs_lots s)"
    by (rule selected_refs_distinct [OF assms(3)], rule selected_refs_range)
  have nn: "\<forall>i \<in> set ?sel. 0 \<le> entitlement (gs_lots s ! i)"
  proof
    fix i assume "i \<in> set ?sel"
    then have "lot_bounds (gs_lots s ! i)"
      using lot_run_inv(1) [OF assms(1)] sel(2) by (simp add: glot_inv_def)
    then show "0 \<le> entitlement (gs_lots s ! i)" by (simp add: lot_bounds_def)
  qed
  have "gs_transactions ?s1 = gs_transactions s" by (rule shorten_loop_transactions)
  then have "s' = rebuildWorkspaceRemaining (re_workspaceId inp) ?s2"
    using assms(2,4)
    by (auto simp: s'_def reconcileEntitlementLots_def Let_def split_def shorten_loop_entitlement
        filter_empty_conv)
  moreover have range2: "\<forall>i \<in> set ?sel. i < length (gs_lots ?s2)"
  proof -
    have "length (gs_lots ?s2) = length (gs_lots ?s1)"
      by (rule lots_evolve_length, rule reduce_loop_evolves) simp
    with sel(2) show ?thesis by simp
  qed
  ultimately have same: "map (\<lambda>i. entitlement (gs_lots s' ! i)) ?sel = map (\<lambda>i. entitlement (gs_lots ?s2 ! i)) ?sel"
    using cohort_static(3) [of "gs_lots ?s2" "gs_lots s'" ?sel] rebuild_settles by blast
  have "sum_list (map (\<lambda>i. entitlement (gs_lots ?s2 ! i)) ?order) =
      sum_list (map (\<lambda>i. entitlement (gs_lots ?s1 ! i)) ?order) - max 0 (?cur - ?target)"
  proof -
    have "0 \<le> ?cur" using nn by (intro sum_list_nonneg) auto
    moreover have "0 \<le> ?target"
      using assms(2) by (auto simp: assertGrantLotEntitlementReconciliationInput_def split: if_splits)
    ultimately have "max 0 (?cur - ?target) \<le> sum_list (map (\<lambda>i. entitlement (gs_lots ?s1 ! i)) ?order)"
      by (simp add: shorten_loop_entitlement)
    then show ?thesis
      using sel nn by (intro conjunct1 [OF reduce_loop_entitlement]) (simp_all add: shorten_loop_entitlement)
  qed
  then have "sum_list (map (\<lambda>i. entitlement (gs_lots s' ! i)) ?sel) = ?cur - max 0 (?cur - ?target)"
    unfolding same sum_list_js_sort shorten_loop_entitlement .
  also have "\<dots> = min ?cur ?target" by (simp only: min_def max_def) simp
  finally show ?thesis .
qed

definition sample_reconcile :: reconcile_input where
  "sample_reconcile =
     \<lparr> re_workspaceId = ''w'', re_resource = Image, re_lotIds = [''m'', ''n''], re_targetAmount = JInt 6,
       re_expirationDate = at_mar, re_operationId = ''plan'', re_actorId = ''a'', re_correlationId = ''c'',
       re_asOf = at_feb \<rparr>"

theorem reconcile_reaches_target_witness:
  "sum_list (map (\<lambda>i. entitlement (gs_lots (snd (reconcileEntitlementLots sample_reconcile sample_lots)) ! i))
     (selected_refs sample_reconcile sample_lots)) = 6"
proof -
  have ok: "assertGrantLotEntitlementReconciliationInput sample_reconcile = Inr ()" by code_simp
  have d: "distinct (re_lotIds sample_reconcile)" by code_simp
  have new: "\<forall>t \<in> set (gs_transactions sample_lots). gt_workspaceId t = re_workspaceId sample_reconcile \<and>
      gt_transactionType t = EXPIRE \<longrightarrow> gt_operationId t \<noteq> Some (re_operationId sample_reconcile)" by code_simp
  have "min (sum_list (map (\<lambda>i. entitlement (gs_lots sample_lots ! i)) (selected_refs sample_reconcile sample_lots)))
      (if date_le (re_expirationDate sample_reconcile) (re_asOf sample_reconcile) then 0
       else int_of (re_targetAmount sample_reconcile)) = 6" by code_simp
  with reconcile_reaches_target [OF sample_lots_run ok d new] show ?thesis by simp
qed

text \<open>
  The legacy migration carries the old balance over exactly: on a resource not migrated yet,
  with a fresh balance lot identifier, it succeeds, afterwards the lots that mirror the legacy
  balance hold exactly the legacy amount, and the resource is marked as migrated, after which the
  call does nothing.
\<close>

theorem migration_carries_balance:
  assumes "lot_run empty_grant_lot_ledger s"
    and "\<not> isLegacyBalanceMigrated s (mi_workspaceId inp) (mi_resource inp)"
    and "mi_legacyAvailable inp = JInt n" "0 \<le> n"
    and "valid_timestamp (mi_createdAt inp)" "valid_timestamp (mi_asOf inp)"
    and "\<not> blank (mi_balanceLotId inp)" "\<not> blank (mi_workspaceId inp)"
    and "\<forall>l \<in> set (gs_lots s). gl_workspaceId l = mi_workspaceId inp \<longrightarrow>
      gl_id l \<noteq> mi_balanceLotId inp \<and> gl_grantIdempotencyKey l \<noteq> Some (grant_prefix @ mi_balanceLotId inp)"
  shows "\<exists>s'. migrateLegacyBalance inp s = (Inr (), s') \<and>
    sum_list (map gl_remainingAmount (filter (mirrored inp) (gs_lots s'))) = n \<and>
    migrateLegacyBalance inp s' = (Inr (), s')"
proof -
  obtain s' where "migrateLegacyBalance inp s = (Inr (), s')" "mirrored_total inp s' = n"
    "isLegacyBalanceMigrated s' (mi_workspaceId inp) (mi_resource inp)"
    using migrate_run [OF lot_run_inv(1) [OF assms(1)] assms(2-9)] by blast
  then show ?thesis by (auto simp: mirrored_total_def migrateLegacyBalance_def)
qed

definition sample_migration :: migration_input where
  "sample_migration =
     \<lparr> mi_workspaceId = ''w'', mi_resource = Image, mi_legacyAvailable = JInt 4, mi_legacySnapshotId = ''snap'',
       mi_balanceLotId = ''balance'', mi_createdAt = at_jan, mi_asOf = at_feb \<rparr>"

theorem migration_carries_balance_witness:
  "\<exists>s'. migrateLegacyBalance sample_migration sample_lots = (Inr (), s') \<and>
     sum_list (map gl_remainingAmount (filter (mirrored sample_migration) (gs_lots s'))) = 4"
proof -
  have g: "\<not> isLegacyBalanceMigrated sample_lots (mi_workspaceId sample_migration) (mi_resource sample_migration)"
    "mi_legacyAvailable sample_migration = JInt 4" "(0::int) \<le> 4"
    "valid_timestamp (mi_createdAt sample_migration)" "valid_timestamp (mi_asOf sample_migration)"
    "\<not> blank (mi_balanceLotId sample_migration)" "\<not> blank (mi_workspaceId sample_migration)"
    by code_simp+
  have free: "\<forall>l \<in> set (gs_lots sample_lots). gl_workspaceId l = mi_workspaceId sample_migration \<longrightarrow>
      gl_id l \<noteq> mi_balanceLotId sample_migration \<and>
      gl_grantIdempotencyKey l \<noteq> Some (grant_prefix @ mi_balanceLotId sample_migration)" by code_simp
  from migration_carries_balance [OF sample_lots_run g free] show ?thesis by blast
qed

text \<open>
  A usage of counted allowance is refunded at most once: whatever the state, refunding it again
  returns the refund written first and changes nothing, even with another amount or refund identifier.
\<close>

theorem lot_refund_at_most_once:
  assumes "refundUsage inp s = (Inr (Some t), s')"
    and "gr_workspaceId inp' = gr_workspaceId inp"
    and "gr_usageTransactionId inp' = gr_usageTransactionId inp" and "valid_timestamp (gr_createdAt inp')"
  shows "refundUsage inp' s' = (Inr (Some t), s')"
proof -
  let ?P = "is_lot_refund_of (gr_workspaceId inp) (gr_usageTransactionId inp)"
  have "find ?P (gs_transactions s') = Some t"
  proof (cases "find ?P (gs_transactions s)")
    case (Some x)
    with assms(1) show ?thesis by (auto simp: refundUsage_def assert_timestamp_def split: if_splits)
  next
    case None
    with refundUsage_appends [OF assms(1)] show ?thesis by (auto simp: find_append)
  qed
  with assms(2-4) show ?thesis by (simp add: refundUsage_def assert_timestamp_def)
qed

definition sample_lot_refund :: "string \<Rightarrow> lot_refund_input" where
  "sample_lot_refund r =
     \<lparr> gr_workspaceId = ''w'', gr_usageTransactionId = ''op:0'', gr_refundTransactionId = r, gr_amount = None,
       gr_actorId = ''a'', gr_correlationId = ''c'', gr_createdAt = at_feb \<rparr>"

theorem lot_refund_at_most_once_witness:
  "\<exists>t s'. refundUsage (sample_lot_refund ''r1'') sample_lots_used = (Inr (Some t), s') \<and>
     refundUsage (sample_lot_refund ''r2'') s' = (Inr (Some t), s')"
proof -
  let ?run = "refundUsage (sample_lot_refund ''r1'') sample_lots_used"
  have "(case fst ?run of Inr (Some _) \<Rightarrow> True | _ \<Rightarrow> False)" by code_simp
  then obtain t where run: "?run = (Inr (Some t), snd ?run)"
    by (cases ?run) (auto split: sum.splits option.splits)
  have "gr_workspaceId (sample_lot_refund ''r2'') = gr_workspaceId (sample_lot_refund ''r1'')"
    "gr_usageTransactionId (sample_lot_refund ''r2'') = gr_usageTransactionId (sample_lot_refund ''r1'')"
    by (simp_all add: sample_lot_refund_def)
  moreover have "valid_timestamp (gr_createdAt (sample_lot_refund ''r2''))" by code_simp
  ultimately have "refundUsage (sample_lot_refund ''r2'') (snd ?run) = (Inr (Some t), snd ?run)"
    by (rule lot_refund_at_most_once [OF run])
  with run show ?thesis by blast
qed

end
