(* ===== verification/BillingCycle.thy ===== *)
theory BillingCycle
  imports Domain
begin

text \<open>
  The monthly billing cycles of a credit subscription, from
  \<^verbatim>\<open>credit-billing/credit-subscription-scheduler.ts\<close>: calendar month arithmetic from an anchor
  instant, the cycle a given index stands for and the index of the cycle an instant falls into.
  A \<^verbatim>\<open>Date\<close> is its time value, an invalid one \<open>None\<close>. The lemmas show that the cycles of an anchor
  tile the time after it.
\<close>

section \<open>Dates\<close>

definition date :: "string \<Rightarrow> string \<Rightarrow> int result" where
  "date value field =
     (case (if blank value then None else date_parse value) of
        None \<Rightarrow> Inl (JsError (field @ '' must be an ISO timestamp.''))
      | Some t \<Rightarrow> Inr t)"

definition iso :: "string \<Rightarrow> string result" where
  "iso value = r_bind (date value ''timestamp'') (\<lambda>t. Inr (to_iso_string t))"

text \<open>\<^verbatim>\<open>toISOString\<close> of a \<^verbatim>\<open>Date\<close> that may be invalid.\<close>

definition toISOString :: "int option \<Rightarrow> string result" where
  "toISOString d = (case d of None \<Rightarrow> Inl (JsError ''Invalid time value'') | Some t \<Rightarrow> Inr (to_iso_string t))"

text \<open>The remainder operator takes the sign of its left operand.\<close>

definition js_rem :: "int \<Rightarrow> int \<Rightarrow> int" where
  "js_rem a b = (if a < 0 then - ((- a) mod b) else a mod b)"

definition addUtcMonths :: "int \<Rightarrow> int \<Rightarrow> int option" where
  "addUtcMonths anchor offset =
     (let targetMonth = utc_month anchor + offset;
          targetYear = utc_year anchor + targetMonth div 12;
          normalizedMonth = js_rem (js_rem targetMonth 12 + 12) 12
      in case date_utc targetYear (normalizedMonth + 1) 0 0 0 0 0 of
           None \<Rightarrow> None
         | Some l \<Rightarrow>
             date_utc targetYear normalizedMonth (min (utc_date anchor) (utc_date l))
               (utc_hours anchor) (utc_minutes anchor) (utc_seconds anchor) (utc_ms anchor))"

section \<open>Cycles\<close>

record subscription_cycle =
  cy_cycleIndex :: int
  cy_startsAt :: string
  cy_endsAt :: string

definition creditSubscriptionCycle :: "string \<Rightarrow> js_number \<Rightarrow> subscription_cycle result" where
  "creditSubscriptionCycle anchorAt cycleIndex =
     r_bind (check (number_isInteger cycleIndex \<and> int_of cycleIndex \<ge> 0)
               (JsError ''cycleIndex must be a non-negative integer.'')) (\<lambda>_.
     r_bind (date anchorAt ''anchorAt'') (\<lambda>anchor.
       let startsAt = addUtcMonths anchor (int_of cycleIndex);
           endsAt = addUtcMonths anchor (int_of cycleIndex + 1)
       in r_bind (toISOString startsAt) (\<lambda>s.
          r_bind (toISOString endsAt) (\<lambda>e.
            Inr \<lparr> cy_cycleIndex = int_of cycleIndex, cy_startsAt = s, cy_endsAt = e \<rparr>))))"

text \<open>The loop of the due cycles, over the cycles that are still paid for.\<close>

fun due_loop :: "string \<Rightarrow> int \<Rightarrow> int \<Rightarrow> nat \<Rightarrow> subscription_cycle list result" where
  "due_loop anchorAt now cycleIndex 0 = Inr []"
| "due_loop anchorAt now cycleIndex (Suc n) =
     r_bind (creditSubscriptionCycle anchorAt (JInt cycleIndex)) (\<lambda>cycle.
       if num_lt (Some now) (date_parse (cy_startsAt cycle)) then Inr []
       else r_bind (due_loop anchorAt now (cycleIndex + 1) n) (\<lambda>cycles. Inr (cycle # cycles)))"

definition due_cycles :: "string \<Rightarrow> int \<Rightarrow> string \<Rightarrow> subscription_cycle list result" where
  "due_cycles anchorAt paidThroughCycle asOf =
     r_bind (date asOf ''asOf'') (\<lambda>now. due_loop anchorAt now 0 (nat paidThroughCycle))"

definition current_cycle :: "string \<Rightarrow> int \<Rightarrow> string \<Rightarrow> subscription_cycle option result" where
  "current_cycle anchorAt paidThroughCycle asOf =
     r_bind (date asOf ''asOf'') (\<lambda>now.
     r_bind (due_cycles anchorAt paidThroughCycle asOf) (\<lambda>cycles.
       Inr (if cycles \<noteq> [] \<and> num_lt (Some now) (date_parse (cy_endsAt (last cycles)))
            then Some (last cycles) else None)))"

section \<open>The months of a time value\<close>

definition month_number :: "int \<Rightarrow> int" where
  "month_number t = utc_year t * 12 + utc_month t"

text \<open>Where the cycle of an index begins, without the limits of \<^verbatim>\<open>Date\<close>.\<close>

definition cycle_day :: "int \<Rightarrow> int \<Rightarrow> int" where
  "cycle_day a i =
     (let n = month_number a + i
      in make_day (n div 12) (n mod 12) (min (utc_date a) (days_in_month (n div 12) (n mod 12))))"

definition cycle_start :: "int \<Rightarrow> int \<Rightarrow> int" where
  "cycle_start a i = cycle_day a i * ms_per_day + a mod ms_per_day"

lemma js_rem_twice: "js_rem (js_rem a 12 + 12) 12 = a mod 12"
proof (cases "a < 0")
  case True
  define r where "r = (- a) mod 12"
  have r: "0 \<le> r" "r < 12" by (simp_all add: r_def)
  have "js_rem (js_rem a 12 + 12) 12 = (12 - r) mod 12"
    using True r by (simp add: js_rem_def r_def [symmetric])
  also have "\<dots> = (- r) mod 12" by (metis diff_conv_add_uminus mod_add_self1)
  also have "\<dots> = (- (- a)) mod 12" unfolding r_def by (rule mod_minus_cong) simp
  finally show ?thesis by simp
next
  case False
  have "0 \<le> a mod 12" by simp
  then have "\<not> a mod 12 + 12 < 0" by linarith
  with False show ?thesis by (simp add: js_rem_def)
qed

lemma days_in_month_range:
  assumes "0 \<le> m" "m \<le> 11"
  shows "28 \<le> days_in_month y m" "days_in_month y m \<le> 31"
  using month_offset_range(2,4) [OF assms, of "is_leap y"] by (simp_all add: days_in_month_def)

lemma month_number_split:
  "month_number t div 12 = utc_year t" "month_number t mod 12 = utc_month t"
  using utc_day_decompose(1,2) [of t] by (simp_all add: month_number_def)

lemma month_number_add:
  "utc_year t + (utc_month t + i) div 12 = (month_number t + i) div 12"
  "(utc_month t + i) mod 12 = (month_number t + i) mod 12"
  by (simp_all add: month_number_def add.assoc)

text \<open>The first day of the next month.\<close>

lemma make_day_next_month:
  "make_day ((n + 1) div 12) ((n + 1) mod 12) 1 =
    make_day (n div 12) (n mod 12) 1 + days_in_month (n div 12) (n mod 12)"
proof -
  define y m where "y = n div 12" and "m = n mod 12"
  have n: "n = 12 * y + m" "0 \<le> m" "m < 12" by (simp_all add: y_def m_def)
  have "make_day ((n + 1) div 12) ((n + 1) mod 12) 1 = make_day y m 1 + days_in_month y m"
  proof (cases "m = 11")
    case True
    then have "n + 1 = 12 * (y + 1)" using n by simp
    then have "(n + 1) div 12 = y + 1" "(n + 1) mod 12 = 0" by simp_all
    with True show ?thesis
      by (simp add: make_day_in_range days_in_month_def day_from_year_step)
  next
    case False
    then have "(n + 1) div 12 = y" "(n + 1) mod 12 = m + 1"
      using n by (auto intro!: int_div_pos_eq int_mod_pos_eq)
    with False n show ?thesis by (simp add: make_day_in_range days_in_month_def)
  qed
  then show ?thesis by (simp add: y_def m_def)
qed


definition first_day :: "int \<Rightarrow> int" where
  "first_day n = make_day (n div 12) (n mod 12) 1"

lemma first_day_next: "first_day (n + 1) = first_day n + days_in_month (n div 12) (n mod 12)"
  by (simp only: first_day_def make_day_next_month)

lemma make_day_first: "0 \<le> m \<Longrightarrow> m \<le> 11 \<Longrightarrow> make_day y m d = make_day y m 1 + (d - 1)"
  by (simp add: make_day_in_range)

lemma cycle_day_range:
  shows "first_day (month_number a + i) \<le> cycle_day a i"
    and "cycle_day a i < first_day (month_number a + i + 1)"
proof -
  define n where "n = month_number a + i"
  let ?d = "min (utc_date a) (days_in_month (n div 12) (n mod 12))"
  have m: "0 \<le> n mod 12" "n mod 12 \<le> 11" by simp_all
  have "cycle_day a i = first_day n + (?d - 1)"
    using make_day_first [OF m, of "n div 12" ?d] by (simp add: cycle_day_def n_def [symmetric] first_day_def Let_def)
  moreover have "1 \<le> ?d" "?d \<le> days_in_month (n div 12) (n mod 12)"
    using utc_day_decompose(3) [of a] days_in_month_range(1) [OF m, of "n div 12"] by simp_all
  ultimately show "first_day (month_number a + i) \<le> cycle_day a i"
    and "cycle_day a i < first_day (month_number a + i + 1)"
    unfolding n_def [symmetric] first_day_next by linarith+
qed

lemma cycle_start_month:
  shows "month_number (cycle_start a i) = month_number a + i"
    and "utc_year (cycle_start a i) = (month_number a + i) div 12"
proof -
  define n where "n = month_number a + i"
  let ?d = "min (utc_date a) (days_in_month (n div 12) (n mod 12))"
  have m: "0 \<le> n mod 12" "n mod 12 \<le> 11" by simp_all
  have d: "1 \<le> ?d" "?d \<le> days_in_month (n div 12) (n mod 12)"
    using utc_day_decompose(3) [of a] days_in_month_range(1) [OF m, of "n div 12"] by simp_all
  have tod: "0 \<le> a mod ms_per_day" "a mod ms_per_day < ms_per_day" by (simp_all add: ms_per_day_def)
  note g = utc_getters_of_make [OF m d tod]
  have eq: "cycle_start a i = make_day (n div 12) (n mod 12) ?d * ms_per_day + a mod ms_per_day"
    by (simp add: cycle_start_def cycle_day_def n_def [symmetric] Let_def)
  show "utc_year (cycle_start a i) = (month_number a + i) div 12"
    unfolding eq g(1) by (simp add: n_def)
  show "month_number (cycle_start a i) = month_number a + i"
    unfolding eq n_def [symmetric] month_number_def [of "_ + _"] g by simp
qed

lemma cycle_start_zero [simp]: "cycle_start a 0 = a"
proof -
  have "cycle_day a 0 = a div ms_per_day"
    using utc_day_decompose(4,5) [of a] by (simp add: cycle_day_def month_number_split Let_def)
  then show ?thesis by (simp add: cycle_start_def)
qed

lemma cycle_start_step: "cycle_start a i < cycle_start a (i + 1)"
proof -
  have "cycle_day a i + 1 \<le> cycle_day a (i + 1)"
    using cycle_day_range(2) [of a i] cycle_day_range(1) [of a "i + 1"] by (simp add: add.assoc)
  then show ?thesis by (simp add: cycle_start_def ms_per_day_def)
qed

lemma cycle_start_less: "i < j \<Longrightarrow> cycle_start a i < cycle_start a j"
proof (induction j rule: int_gr_induct)
  case base
  then show ?case by (rule cycle_start_step)
next
  case (step j)
  then show ?case using cycle_start_step [of a j] by simp
qed

lemma cycle_start_le: "i \<le> j \<Longrightarrow> cycle_start a i \<le> cycle_start a j"
  using cycle_start_less [of i j a] by (cases "i = j") simp_all

lemma first_day_mono: "m \<le> n \<Longrightarrow> first_day m \<le> first_day n"
proof (induction n rule: int_ge_induct)
  case base
  then show ?case by simp
next
  case (step n)
  have "0 \<le> n mod 12" "n mod 12 \<le> 11" by simp_all
  then have "28 \<le> days_in_month (n div 12) (n mod 12)" by (rule days_in_month_range(1))
  with step show ?case by (simp add: first_day_next)
qed

text \<open>A time value lies in its own month.\<close>

lemma first_day_of_month:
  "first_day (month_number t) \<le> t div ms_per_day" "t div ms_per_day < first_day (month_number t + 1)"
  using cycle_day_range [of t 0] cycle_start_zero [of t] utc_day_decompose(4,5) [of t]
  by (simp_all add: cycle_day_def month_number_split Let_def)

lemma month_less_imp_less: "month_number s < month_number t \<Longrightarrow> s < t"
proof -
  assume "month_number s < month_number t"
  then have "first_day (month_number s + 1) \<le> first_day (month_number t)"
    by (intro first_day_mono) simp
  then have "s div ms_per_day < t div ms_per_day" using first_day_of_month [of s] first_day_of_month [of t] by simp
  then show "s < t" by (metis linorder_not_less zdiv_mono1 ms_per_day_def zero_less_numeral)
qed

section \<open>Month arithmetic within the limits\<close>

text \<open>
  \<^verbatim>\<open>Date.UTC\<close> reads the years 0 to 99 as 1900 to 1999, and a \<^verbatim>\<open>Date\<close> ends in September 275760. An
  anchor from the year 100 on is free of the first, an instant a month before the end of the second.
\<close>

definition anchor_ok :: "int \<Rightarrow> bool" where
  "anchor_ok a \<longleftrightarrow> 100 \<le> utc_year a"

definition LAST_CYCLE_TIME :: int where
  "LAST_CYCLE_TIME = MAX_TIME - 32 * ms_per_day"

lemma make_time_midnight [simp]: "make_time 0 0 0 0 = 0"
  by (simp add: make_time_def)

lemma make_day_month_end:
  assumes "0 \<le> n mod 12"
  shows "make_day (n div 12) (n mod 12 + 1) 0 = first_day (n + 1) - 1"
proof -
  have "n div 12 + (n mod 12 + 1) div 12 = (n + 1) div 12" "(n mod 12 + 1) mod 12 = (n + 1) mod 12"
    using div_mult_self1 [of 12 "n mod 12 + 1" "n div 12"] by (simp_all add: add.commute add.left_commute mod_simps)
  then show ?thesis
    by (simp add: first_day_def make_day_def Let_def)
qed

lemma utc_date_month_end: "utc_date ((first_day (n + 1) - 1) * ms_per_day) = days_in_month (n div 12) (n mod 12)"
proof -
  have m: "0 \<le> n mod 12" "n mod 12 \<le> 11" by simp_all
  let ?d = "days_in_month (n div 12) (n mod 12)"
  have d: "1 \<le> ?d" "?d \<le> ?d" using days_in_month_range(1) [OF m, of "n div 12"] by simp_all
  have "first_day (n + 1) - 1 = make_day (n div 12) (n mod 12) ?d"
    using make_day_first [OF m, of "n div 12" ?d] by (simp add: first_day_next) (simp add: first_day_def)
  then show ?thesis
    using utc_getters_of_make(3) [OF m d, of 0] by (simp add: ms_per_day_def)
qed

lemma day_from_year_100: "100 \<le> y \<Longrightarrow> - 700000 \<le> day_from_year y"
  using day_from_year_bounds(1) [of y] by simp

lemma first_day_ge: "1200 \<le> n \<Longrightarrow> - 700000 \<le> first_day n"
proof -
  assume "1200 \<le> n"
  then have "100 \<le> n div 12" by simp
  then have "- 700000 \<le> day_from_year (n div 12)" by (rule day_from_year_100)
  moreover have "0 \<le> month_offset (is_leap (n div 12)) (n mod 12)"
    by (rule month_offset_range(1)) simp_all
  ultimately show ?thesis by (simp add: first_day_def make_day_in_range)
qed

lemma addUtcMonths_eq:
  assumes "anchor_ok a" "0 \<le> i" "cycle_start a i \<le> LAST_CYCLE_TIME"
  shows "addUtcMonths a i = Some (cycle_start a i)"
proof -
  define n where "n = month_number a + i"
  have m: "0 \<le> n mod 12" "n mod 12 \<le> 11" by simp_all
  have y: "100 \<le> n div 12"
  proof -
    have "month_number a \<le> n" using assms(2) by (simp add: n_def)
    then have "month_number a div 12 \<le> n div 12" by (rule zdiv_mono1) simp
    with assms(1) show ?thesis by (simp add: month_number_split anchor_ok_def)
  qed
  have n1200: "1200 \<le> n" using y by simp
  have day: "cycle_day a i * ms_per_day \<le> LAST_CYCLE_TIME"
    using assms(3) by (simp add: cycle_start_def) (simp add: ms_per_day_def)
  have hi: "(first_day (n + 1) - 1) * ms_per_day \<le> MAX_TIME"
  proof -
    have "first_day (n + 1) \<le> cycle_day a i + 31"
      using cycle_day_range(1) [of a i] days_in_month_range(2) [OF m, of "n div 12"]
      by (simp add: first_day_next n_def)
    with day show ?thesis by (simp add: LAST_CYCLE_TIME_def ms_per_day_def)
  qed
  have lo: "- MAX_TIME \<le> (first_day (n + 1) - 1) * ms_per_day" "- MAX_TIME \<le> cycle_start a i"
  proof -
    have "- 700000 \<le> first_day (n + 1)" "- 700000 \<le> cycle_day a i"
      using first_day_ge [of "n + 1"] first_day_ge [of n] cycle_day_range(1) [of a i] n1200
      by (simp_all add: n_def)
    moreover have "0 \<le> a mod ms_per_day" by (simp add: ms_per_day_def)
    ultimately show "- MAX_TIME \<le> (first_day (n + 1) - 1) * ms_per_day" "- MAX_TIME \<le> cycle_start a i"
      by (simp_all add: cycle_start_def MAX_TIME_def ms_per_day_def)
  qed
  have top: "cycle_start a i \<le> MAX_TIME" using assms(3) by (simp add: LAST_CYCLE_TIME_def ms_per_day_def)
  have last: "date_utc (n div 12) (n mod 12 + 1) 0 0 0 0 0 = Some ((first_day (n + 1) - 1) * ms_per_day)"
    using y hi lo by (simp add: date_utc_def make_day_month_end [OF m(1)] time_clip_def)
  have args: "utc_year a + (utc_month a + i) div 12 = n div 12"
    "js_rem (js_rem (utc_month a + i) 12 + 12) 12 = n mod 12"
    by (simp_all add: month_number_add n_def js_rem_twice)
  have start: "cycle_start a i =
      make_day (n div 12) (n mod 12) (min (utc_date a) (days_in_month (n div 12) (n mod 12))) * ms_per_day +
      a mod ms_per_day"
    by (simp add: cycle_start_def cycle_day_def n_def Let_def)
  show ?thesis
    unfolding addUtcMonths_def Let_def args last option.case utc_date_month_end
    using y lo(2) top by (simp add: date_utc_def utc_time_decompose(9) start [symmetric] time_clip_def)
qed

text \<open>A month offset that gives a \<^verbatim>\<open>Date\<close> at all is bounded, which bounds the search below.\<close>

lemma addUtcMonths_bounded:
  assumes "time_clip a = Some a'" "addUtcMonths a i = Some t"
  shows "i \<le> 24000000"
proof -
  define n where "n = month_number a + i"
  have m: "0 \<le> n mod 12" "n mod 12 \<le> 11" by simp_all
  have args: "utc_year a + (utc_month a + i) div 12 = n div 12"
    "js_rem (js_rem (utc_month a + i) 12 + 12) 12 = n mod 12"
    by (simp_all add: month_number_add n_def js_rem_twice)
  obtain l where l: "date_utc (n div 12) (n mod 12 + 1) 0 0 0 0 0 = Some l"
    using assms(2) by (auto simp: addUtcMonths_def Let_def args split: option.splits)
  have y: "n div 12 \<le> 999999"
  proof (cases "0 \<le> n div 12 \<and> n div 12 \<le> 99")
    case False
    then have "(first_day (n + 1) - 1) * ms_per_day \<le> MAX_TIME"
      using l by (simp add: date_utc_def make_day_month_end [OF m(1)] time_clip_def split: if_splits)
    then have "first_day (n + 1) \<le> 100000001" by (simp add: MAX_TIME_def ms_per_day_def)
    then have "first_day n \<le> 100000001" using first_day_mono [of n "n + 1"] by simp
    moreover have "day_from_year (n div 12) \<le> first_day n"
      using month_offset_range(1) [OF m, of "is_leap (n div 12)"] m
      by (simp add: first_day_def make_day_in_range)
    ultimately have "400 * day_from_year (n div 12) \<le> 40000000400" by simp
    then have "146097 * (n div 12 - 1970) - 1500 \<le> 40000000400"
      using day_from_year_bounds(1) [of "n div 12"] by (rule order_trans [rotated])
    then show ?thesis by simp
  qed simp
  have "- 999999 \<le> utc_year a" by (rule utc_year_range(1) [OF assms(1)])
  moreover have "0 \<le> utc_month a" by (rule utc_day_decompose(1))
  ultimately have "- 999999 * 12 \<le> month_number a" by (simp add: month_number_def)
  moreover have "n < 12 * (n div 12) + 12" using div_bounds(2) [of 12 n] by simp
  ultimately show ?thesis using y by (simp add: n_def)
qed

section \<open>The cycle of an instant\<close>

lemma r_bind_cong [fundef_cong]:
  "r = r' \<Longrightarrow> (\<And>a. r' = Inr a \<Longrightarrow> f a = g a) \<Longrightarrow> r_bind r f = r_bind r' g"
  by (cases r') auto

function back_loop :: "string \<Rightarrow> int \<Rightarrow> int \<Rightarrow> int result" where
  "back_loop anchorAt target cycleIndex =
     (if cycleIndex > 0
      then r_bind (creditSubscriptionCycle anchorAt (JInt cycleIndex)) (\<lambda>cycle.
             if num_lt (Some target) (date_parse (cy_startsAt cycle))
             then back_loop anchorAt target (cycleIndex - 1) else Inr cycleIndex)
      else Inr cycleIndex)"
  by pat_completeness auto
termination by (relation "measure (\<lambda>(_, _, i). nat i)") auto

lemma creditSubscriptionCycle_bounded:
  assumes "creditSubscriptionCycle anchorAt (JInt i) = Inr c"
  shows "i \<le> 24000000"
proof -
  obtain a where a: "date anchorAt ''anchorAt'' = Inr a"
    using assms by (cases "date anchorAt ''anchorAt''") (auto simp: creditSubscriptionCycle_def split: if_splits)
  then have "date_parse anchorAt = Some a" by (auto simp: date_def split: option.splits if_splits)
  then have clip: "time_clip a = Some a" by (rule date_parse_clip)
  obtain t where "addUtcMonths a i = Some t"
    using assms a by (cases "addUtcMonths a i") (auto simp: creditSubscriptionCycle_def toISOString_def Let_def split: if_splits)
  with clip show ?thesis by (rule addUtcMonths_bounded)
qed

function forward_loop :: "string \<Rightarrow> int \<Rightarrow> int \<Rightarrow> int result" where
  "forward_loop anchorAt target cycleIndex =
     r_bind (creditSubscriptionCycle anchorAt (JInt (cycleIndex + 1))) (\<lambda>cycle.
       if num_le (date_parse (cy_startsAt cycle)) (Some target)
       then forward_loop anchorAt target (cycleIndex + 1) else Inr cycleIndex)"
  by pat_completeness auto
termination
  by (relation "measure (\<lambda>(_, _, i). nat (24000000 - i))") (auto dest!: creditSubscriptionCycle_bounded)

declare back_loop.simps [simp del] forward_loop.simps [simp del]

definition creditSubscriptionCycleIndexAt :: "string \<Rightarrow> string \<Rightarrow> int result" where
  "creditSubscriptionCycleIndexAt anchorAt at =
     r_bind (date anchorAt ''anchorAt'') (\<lambda>anchor.
     r_bind (date at ''periodStartsAt'') (\<lambda>target.
       if target < anchor then Inr (- 1)
       else
         r_bind (back_loop anchorAt target
                   ((utc_year target - utc_year anchor) * 12 + utc_month target - utc_month anchor))
           (forward_loop anchorAt target)))"

lemma date_Inr_iff: "date v f = Inr t \<longleftrightarrow> date_parse v = Some t"
  using date_parse_blank by (auto simp: date_def split: option.splits if_splits)

lemma date_parsed [simp]: "date_parse v = Some t \<Longrightarrow> date v f = Inr t"
  by (simp add: date_Inr_iff)

lemma iso_parsed [simp]: "date_parse v = Some t \<Longrightarrow> iso v = Inr (to_iso_string t)"
  by (simp add: iso_def)

lemma iso_Inr:
  assumes "iso v = Inr w"
  obtains t where "date_parse v = Some t" "w = to_iso_string t" "date_parse w = Some t"
proof -
  obtain t where t: "date_parse v = Some t" "w = to_iso_string t"
    using assms by (auto simp: iso_def r_bind_Inr_iff date_Inr_iff)
  have "date_parse w = Some t" unfolding t(2) by (rule date_parse_to_iso [OF date_parse_clip [OF t(1)]])
  with t show ?thesis by (rule that)
qed

text \<open>Within the limits a cycle is the pair of consecutive starts.\<close>

lemma creditSubscriptionCycle_eq:
  assumes "date_parse anchorAt = Some a" "anchor_ok a" "0 \<le> i" "cycle_start a (i + 1) \<le> LAST_CYCLE_TIME"
  shows "creditSubscriptionCycle anchorAt (JInt i) = Inr \<lparr>cy_cycleIndex = i,
    cy_startsAt = to_iso_string (cycle_start a i), cy_endsAt = to_iso_string (cycle_start a (i + 1))\<rparr>"
proof -
  have "cycle_start a i \<le> LAST_CYCLE_TIME" using assms(4) cycle_start_step [of a i] by simp
  then show ?thesis
    using assms addUtcMonths_eq [OF assms(2,3)] addUtcMonths_eq [OF assms(2), of "i + 1"]
    by (simp add: creditSubscriptionCycle_def toISOString_def)
qed

lemma cycle_start_year_ge: "anchor_ok a \<Longrightarrow> 0 \<le> i \<Longrightarrow> - MAX_TIME \<le> cycle_start a i"
proof -
  assume a: "anchor_ok a" "0 \<le> i"
  have "month_number a \<le> month_number a + i" using a(2) by simp
  moreover have "1200 \<le> month_number a"
    using a(1) utc_day_decompose(1) [of a] by (simp add: anchor_ok_def month_number_def)
  ultimately have "- 700000 \<le> cycle_day a i"
    using first_day_ge [of "month_number a + i"] cycle_day_range(1) [of a i] by simp
  moreover have "0 \<le> a mod ms_per_day" by (simp add: ms_per_day_def)
  ultimately show ?thesis by (simp add: cycle_start_def MAX_TIME_def ms_per_day_def)
qed

lemma cycle_start_parse:
  assumes "anchor_ok a" "0 \<le> i" "cycle_start a i \<le> LAST_CYCLE_TIME"
  shows "date_parse (to_iso_string (cycle_start a i)) = Some (cycle_start a i)"
proof (rule date_parse_to_iso)
  have "cycle_start a i \<le> MAX_TIME" using assms(3) by (simp add: LAST_CYCLE_TIME_def ms_per_day_def)
  then show "time_clip (cycle_start a i) = Some (cycle_start a i)"
    using cycle_start_year_ge [OF assms(1,2)] by (simp add: time_clip_def)
qed

text \<open>
  The months between two instants are the index of the cycle that begins in the month of the later
  one. It is the cycle searched for, or the one after it.
\<close>

lemma month_distance:
  assumes "a \<le> t"
  defines "k \<equiv> month_number t - month_number a"
  shows "0 \<le> k" "cycle_start a (k - 1) < t" "t < cycle_start a (k + 1)"
proof -
  show "0 \<le> k" using assms month_less_imp_less [of t a] by (force simp: k_def)
  show "cycle_start a (k - 1) < t" "t < cycle_start a (k + 1)"
    by (rule month_less_imp_less; simp add: cycle_start_month k_def)+
qed

lemma LAST_CYCLE_room:
  assumes "t + 96 * ms_per_day \<le> LAST_CYCLE_TIME" "month_number (cycle_start a j) \<le> month_number t + 2"
  shows "cycle_start a j \<le> LAST_CYCLE_TIME"
proof -
  define n where "n = month_number t"
  have m: "0 \<le> k mod 12" "k mod 12 \<le> 11" for k :: int by simp_all
  have "first_day (month_number (cycle_start a j) + 1) \<le> first_day (n + 1 + 1 + 1)"
    using assms(2) by (intro first_day_mono) (simp add: n_def)
  also have "\<dots> \<le> first_day n + 93"
    using days_in_month_range(2) [OF m, of "n div 12" n] days_in_month_range(2) [OF m, of "(n + 1) div 12" "n + 1"]
      days_in_month_range(2) [OF m, of "(n + 1 + 1) div 12" "n + 1 + 1"]
    by (simp only: first_day_next)
  finally have "cycle_start a j div ms_per_day \<le> t div ms_per_day + 93"
    using first_day_of_month(2) [of "cycle_start a j"] first_day_of_month(1) [of t] by (simp add: n_def)
  then have "cycle_start a j \<le> t + 96 * ms_per_day"
    using div_bounds [of ms_per_day "cycle_start a j"] div_bounds [of ms_per_day t]
    by (simp add: ms_per_day_def)
  with assms(1) show ?thesis by simp
qed

text \<open>Whatever the limits: a month sum that is a \<^verbatim>\<open>Date\<close> is the start of its cycle.\<close>

lemma addUtcMonths_Some:
  assumes "anchor_ok a" "0 \<le> i" "addUtcMonths a i = Some t"
  shows "t = cycle_start a i" "time_clip t = Some t"
proof -
  define n where "n = month_number a + i"
  have m: "0 \<le> n mod 12" "n mod 12 \<le> 11" by simp_all
  have args: "utc_year a + (utc_month a + i) div 12 = n div 12"
    "js_rem (js_rem (utc_month a + i) 12 + 12) 12 = n mod 12"
    by (simp_all add: month_number_add n_def js_rem_twice)
  have "month_number a div 12 \<le> n div 12" by (rule zdiv_mono1) (use assms(2) in \<open>simp_all add: n_def\<close>)
  with assms(1) have y: "100 \<le> n div 12" by (simp add: month_number_split anchor_ok_def)
  obtain l where l: "date_utc (n div 12) (n mod 12 + 1) 0 0 0 0 0 = Some l"
    using assms(3) by (auto simp: addUtcMonths_def Let_def args split: option.splits)
  then have "l = (first_day (n + 1) - 1) * ms_per_day"
    using y by (simp add: date_utc_def make_day_month_end [OF m(1)] time_clip_def split: if_splits)
  then have last: "utc_date l = days_in_month (n div 12) (n mod 12)" by (simp only: utc_date_month_end)
  have "time_clip (cycle_start a i) = Some t"
    using assms(3) y unfolding addUtcMonths_def Let_def args l option.case last
    by (simp add: date_utc_def utc_time_decompose(9) cycle_start_def cycle_day_def n_def Let_def)
  then show "t = cycle_start a i" "time_clip t = Some t" by (simp_all add: time_clip_def split: if_splits)
qed

lemma creditSubscriptionCycle_Inr:
  assumes "creditSubscriptionCycle anchorAt (JInt i) = Inr c" "date_parse anchorAt = Some a" "anchor_ok a"
  shows "0 \<le> i" "cy_cycleIndex c = i"
    and "cy_startsAt c = to_iso_string (cycle_start a i)" "cy_endsAt c = to_iso_string (cycle_start a (i + 1))"
    and "date_parse (cy_startsAt c) = Some (cycle_start a i)"
    and "date_parse (cy_endsAt c) = Some (cycle_start a (i + 1))"
proof -
  show i: "0 \<le> i" using assms(1) by (simp add: creditSubscriptionCycle_def split: if_splits)
  obtain t t' where t: "addUtcMonths a i = Some t" "addUtcMonths a (i + 1) = Some t'"
    and c: "c = \<lparr>cy_cycleIndex = i, cy_startsAt = to_iso_string t, cy_endsAt = to_iso_string t'\<rparr>"
    using assms(1,2) i
    by (auto simp: creditSubscriptionCycle_def r_bind_Inr_iff toISOString_def split: option.splits)
  note 1 = addUtcMonths_Some [OF assms(3) i t(1)] and 2 = addUtcMonths_Some [OF assms(3) _ t(2)]
  show "cy_cycleIndex c = i" "cy_startsAt c = to_iso_string (cycle_start a i)"
    "cy_endsAt c = to_iso_string (cycle_start a (i + 1))"
    "date_parse (cy_startsAt c) = Some (cycle_start a i)" "date_parse (cy_endsAt c) = Some (cycle_start a (i + 1))"
    using 1 2 i date_parse_to_iso [of t] date_parse_to_iso [of t'] by (simp_all add: c)
qed

lemma due_loop_result:
  assumes "due_loop anchorAt now i n = Inr cs"
  shows "map cy_cycleIndex cs = map (\<lambda>k. i + int k) [0..<length cs] \<and> length cs \<le> n \<and>
    (\<forall>c \<in> set cs. creditSubscriptionCycle anchorAt (JInt (cy_cycleIndex c)) = Inr c \<and>
      \<not> num_lt (Some now) (date_parse (cy_startsAt c))) \<and>
    (length cs < n \<longrightarrow> (\<exists>c. creditSubscriptionCycle anchorAt (JInt (i + int (length cs))) = Inr c \<and>
      num_lt (Some now) (date_parse (cy_startsAt c))))"
  using assms
proof (induction n arbitrary: i cs)
  case 0
  then show ?case by simp
next
  case (Suc n)
  then obtain c where c: "creditSubscriptionCycle anchorAt (JInt i) = Inr c"
    by (cases "creditSubscriptionCycle anchorAt (JInt i)") auto
  have idx: "cy_cycleIndex c = i"
    using c by (auto simp: creditSubscriptionCycle_def r_bind_Inr_iff Let_def split: if_splits)
  show ?case
  proof (cases "num_lt (Some now) (date_parse (cy_startsAt c))")
    case True
    with Suc.prems c show ?thesis by auto
  next
    case False
    with Suc.prems c obtain ds where ds: "due_loop anchorAt now (i + 1) n = Inr ds" "cs = c # ds"
      by (auto simp: r_bind_Inr_iff)
    have "map (\<lambda>k. i + int k) [0..<Suc (length ds)] = i # map (\<lambda>k. i + 1 + int k) [0..<length ds]"
      by (simp add: upt_conv_Cons map_Suc_upt [symmetric] o_def del: upt_Suc)
    with Suc.IH [OF ds(1)] ds(2) c False idx show ?thesis by (auto simp: add.assoc)
  qed
qed

section \<open>Properties\<close>

text \<open>
  The cycles of a subscription tile the time from its anchor on: the first one begins at the
  anchor, every cycle ends after it begins and exactly where the next one begins, whatever the
  lengths of the months between them.
\<close>

theorem billing_cycles_tile:
  assumes "date_parse anchorAt = Some a" and "anchor_ok a"
    and "creditSubscriptionCycle anchorAt (JInt i) = Inr c"
    and "creditSubscriptionCycle anchorAt (JInt (i + 1)) = Inr c'"
  shows "cy_endsAt c = cy_startsAt c' \<and> date_lt (cy_startsAt c) (cy_endsAt c) \<and>
    (i = 0 \<longrightarrow> date_parse (cy_startsAt c) = date_parse anchorAt)"
  using creditSubscriptionCycle_Inr [OF assms(3,1,2)] creditSubscriptionCycle_Inr [OF assms(4,1,2)]
    cycle_start_step [of a i] assms(1)
  by (auto simp: date_lt_def)

text \<open>The thirty-first of January as an anchor, and its February and March.\<close>

lemma billing_cycle_sample:
  "date_parse ''2026-01-31T08:00:00.000Z'' = Some 1769846400000"
  "creditSubscriptionCycle ''2026-01-31T08:00:00.000Z'' (JInt 0) = Inr \<lparr>cy_cycleIndex = 0,
     cy_startsAt = ''2026-01-31T08:00:00.000Z'', cy_endsAt = ''2026-02-28T08:00:00.000Z''\<rparr>"
  "creditSubscriptionCycle ''2026-01-31T08:00:00.000Z'' (JInt 1) = Inr \<lparr>cy_cycleIndex = 1,
     cy_startsAt = ''2026-02-28T08:00:00.000Z'', cy_endsAt = ''2026-03-31T08:00:00.000Z''\<rparr>"
  "anchor_ok 1769846400000"
  "date_parse ''2026-03-01T00:00:00.000Z'' = Some 1772323200000"
  "date_parse ''2026-02-28T08:00:00.000Z'' = Some 1772265600000"
  "date_parse ''2026-03-31T08:00:00.000Z'' = Some 1774944000000"
  by code_simp+

theorem billing_cycles_tile_witness:
  "date_lt ''2026-01-31T08:00:00.000Z'' ''2026-02-28T08:00:00.000Z''"
  using billing_cycles_tile [OF billing_cycle_sample(1,4,2)] billing_cycle_sample(3) by auto

lemma cycle_index_search:
  assumes anchor: "date_parse anchorAt = Some a" "anchor_ok a"
    and at: "date_parse at = Some t" "a \<le> t" and room: "t + 96 * ms_per_day \<le> LAST_CYCLE_TIME"
  shows "\<exists>i. creditSubscriptionCycleIndexAt anchorAt at = Inr i \<and> 0 \<le> i \<and>
    cycle_start a i \<le> t \<and> t < cycle_start a (i + 1) \<and> cycle_start a (i + 1) \<le> LAST_CYCLE_TIME"
proof -
  define k where "k = month_number t - month_number a"
  note k = month_distance [OF at(2), folded k_def]
  have le: "cycle_start a j \<le> LAST_CYCLE_TIME" if "j \<le> k + 2" for j
    using that by (intro LAST_CYCLE_room [OF room]) (simp add: cycle_start_month k_def)
  have start: "date_parse (cy_startsAt c) = Some (cycle_start a j)"
    if "creditSubscriptionCycle anchorAt (JInt j) = Inr c" for j c
    using creditSubscriptionCycle_Inr(5) [OF that anchor] .
  have cyc: "\<exists>c. creditSubscriptionCycle anchorAt (JInt j) = Inr c" if "0 \<le> j" "j \<le> k + 1" for j
    using creditSubscriptionCycle_eq [OF anchor that(1) le] that by auto
  have fwd: "forward_loop anchorAt t j = Inr j" if j: "0 \<le> j + 1" "j \<le> k" "t < cycle_start a (j + 1)" for j
  proof -
    obtain c where "creditSubscriptionCycle anchorAt (JInt (j + 1)) = Inr c" using cyc [of "j + 1"] j by auto
    with j start show ?thesis by (subst forward_loop.simps) simp
  qed
  have kk: "utc_year t * 12 - utc_year a * 12 + utc_month t - utc_month a = k"
    by (simp add: k_def month_number_def)
  have run: "creditSubscriptionCycleIndexAt anchorAt at = r_bind (back_loop anchorAt t k) (forward_loop anchorAt t)"
    using anchor at by (simp add: creditSubscriptionCycleIndexAt_def kk)
  show ?thesis
  proof (cases "cycle_start a k \<le> t")
    case True
    have "back_loop anchorAt t k = Inr k"
    proof (cases "0 < k")
      case pos: True
      then obtain c where "creditSubscriptionCycle anchorAt (JInt k) = Inr c" using cyc [of k] by auto
      with True pos start show ?thesis by (subst back_loop.simps) auto
    qed (simp add: back_loop.simps)
    with run fwd [of k] k True le [of "k + 1"] show ?thesis by auto
  next
    case False
    then have pos: "0 < k" using k(1) at(2) by (cases "k = 0") auto
    then obtain c where c: "creditSubscriptionCycle anchorAt (JInt k) = Inr c" using cyc [of k] by auto
    have step: "back_loop anchorAt t k = back_loop anchorAt t (k - 1)"
      using c pos False start [OF c] by (subst back_loop.simps) simp
    have "back_loop anchorAt t (k - 1) = Inr (k - 1)"
    proof (cases "0 < k - 1")
      case True
      then obtain c' where "creditSubscriptionCycle anchorAt (JInt (k - 1)) = Inr c'" using cyc [of "k - 1"] by auto
      with True k(2) start show ?thesis by (subst back_loop.simps) auto
    qed (simp add: back_loop.simps)
    with run step fwd [of "k - 1"] k False pos le [of k] show ?thesis by auto
  qed
qed

text \<open>
  C26. The search for the cycle of an instant ends with the one cycle that contains it: for every
  instant from the anchor on, up to about four months before the last instant a \<^verbatim>\<open>Date\<close> can hold, the
  two loops return an index, its cycle contains the instant, and no other cycle does.
\<close>

theorem cycle_index_at_correct:
  assumes "date_parse anchorAt = Some a" and "anchor_ok a"
    and "date_parse at = Some t" and "a \<le> t" and "t + 96 * ms_per_day \<le> LAST_CYCLE_TIME"
  shows "\<exists>i c. creditSubscriptionCycleIndexAt anchorAt at = Inr i \<and>
    creditSubscriptionCycle anchorAt (JInt i) = Inr c \<and> date_le (cy_startsAt c) at \<and> date_lt at (cy_endsAt c) \<and>
    (\<forall>j d. creditSubscriptionCycle anchorAt (JInt j) = Inr d \<and> date_le (cy_startsAt d) at \<and>
      date_lt at (cy_endsAt d) \<longrightarrow> j = i)"
proof -
  obtain i where i: "creditSubscriptionCycleIndexAt anchorAt at = Inr i" "0 \<le> i"
    "cycle_start a i \<le> t" "t < cycle_start a (i + 1)" "cycle_start a (i + 1) \<le> LAST_CYCLE_TIME"
    using cycle_index_search [OF assms] by blast
  note c = creditSubscriptionCycle_eq [OF assms(1,2) i(2,5)]
  have unique: "j = i" if "creditSubscriptionCycle anchorAt (JInt j) = Inr d" "date_le (cy_startsAt d) at"
    "date_lt at (cy_endsAt d)" for j d
  proof -
    have "cycle_start a j \<le> t" "t < cycle_start a (j + 1)"
      using that creditSubscriptionCycle_Inr [OF that(1) assms(1,2)] assms(3) by (auto simp: date_le_def date_lt_def)
    then have "cycle_start a j < cycle_start a (i + 1)" "cycle_start a i < cycle_start a (j + 1)"
      using i by linarith+
    then have "j < i + 1" "i < j + 1" using cycle_start_le by (meson leD not_le_imp_less)+
    then show ?thesis by simp
  qed
  show ?thesis
  proof (intro exI conjI allI impI)
    show "creditSubscriptionCycleIndexAt anchorAt at = Inr i" by (rule i(1))
    show "creditSubscriptionCycle anchorAt (JInt i) = Inr \<lparr>cy_cycleIndex = i,
      cy_startsAt = to_iso_string (cycle_start a i), cy_endsAt = to_iso_string (cycle_start a (i + 1))\<rparr>" by (rule c)
  qed (use creditSubscriptionCycle_Inr [OF c assms(1,2)] assms(3) i in
      \<open>auto simp: date_le_def date_lt_def intro: unique\<close>)
qed

theorem cycle_index_at_correct_witness:
  "\<exists>i. creditSubscriptionCycleIndexAt ''2026-01-31T08:00:00.000Z'' ''2026-03-01T00:00:00.000Z'' = Inr i \<and> i = 1"
proof -
  have le: "1769846400000 \<le> (1772323200000 :: int)" "1772323200000 + 96 * ms_per_day \<le> LAST_CYCLE_TIME"
    by (simp_all add: LAST_CYCLE_TIME_def MAX_TIME_def ms_per_day_def)
  have in1: "date_le ''2026-02-28T08:00:00.000Z'' ''2026-03-01T00:00:00.000Z''"
    "date_lt ''2026-03-01T00:00:00.000Z'' ''2026-03-31T08:00:00.000Z''"
    using billing_cycle_sample(5-7) by (simp_all add: date_le_def date_lt_def)
  obtain i where i: "creditSubscriptionCycleIndexAt ''2026-01-31T08:00:00.000Z'' ''2026-03-01T00:00:00.000Z'' = Inr i"
    and unique: "\<And>j d. creditSubscriptionCycle ''2026-01-31T08:00:00.000Z'' (JInt j) = Inr d \<Longrightarrow>
      date_le (cy_startsAt d) ''2026-03-01T00:00:00.000Z'' \<Longrightarrow>
      date_lt ''2026-03-01T00:00:00.000Z'' (cy_endsAt d) \<Longrightarrow> j = i"
    using cycle_index_at_correct [OF billing_cycle_sample(1,4,5) le] by metis
  have "1 = i" by (rule unique [OF billing_cycle_sample(3)]) (simp_all add: in1)
  with i show ?thesis by simp
qed

lemma due_loop_lists:
  assumes "due_loop anchorAt now 0 n = Inr cs" and "creditSubscriptionCycle anchorAt (JInt j) = Inr c"
    and "date_parse anchorAt = Some a" and "anchor_ok a"
  shows "c \<in> set cs \<longleftrightarrow> j < int (length cs)"
proof
  note r = due_loop_result [OF assms(1)] and cj = creditSubscriptionCycle_Inr [OF assms(2-4)]
  show "j < int (length cs)" if "c \<in> set cs"
  proof -
    have "cy_cycleIndex c \<in> set (map cy_cycleIndex cs)" using that by simp
    then show ?thesis using r cj(2) by auto
  qed
  show "c \<in> set cs" if "j < int (length cs)"
  proof -
    have n: "nat j < length cs" using that cj(1) by simp
    have "map cy_cycleIndex cs ! nat j = j" using r n cj(1) by simp
    then have "cy_cycleIndex (cs ! nat j) = j" using n by simp
    moreover have "creditSubscriptionCycle anchorAt (JInt (cy_cycleIndex (cs ! nat j))) = Inr (cs ! nat j)"
      using r n by simp
    ultimately have "cs ! nat j = c" using assms(2) by simp
    with n show ?thesis by (metis nth_mem)
  qed
qed

lemma due_loop_stops:
  assumes "due_loop anchorAt now 0 (nat paid) = Inr cs" and "creditSubscriptionCycle anchorAt (JInt j) = Inr c"
    and "date_parse anchorAt = Some a" and "anchor_ok a" and "date_parse asOf = Some now"
    and "int (length cs) \<le> j" and "j < paid"
  shows "\<not> date_le (cy_startsAt c) asOf"
proof -
  note cj = creditSubscriptionCycle_Inr [OF assms(2-4)]
  have "length cs < nat paid" using assms(6,7) cj(1) by simp
  then obtain d where d: "creditSubscriptionCycle anchorAt (JInt (int (length cs))) = Inr d"
    "num_lt (Some now) (date_parse (cy_startsAt d))" using due_loop_result [OF assms(1)] by auto
  then have "now < cycle_start a (int (length cs))"
    using creditSubscriptionCycle_Inr(5) [OF d(1) assms(3,4)] by simp
  also have "\<dots> \<le> cycle_start a j" using assms(6) by (intro cycle_start_le) simp
  finally show ?thesis using cj(5) assms(5) by (simp add: date_le_def)
qed

text \<open>
  C27. The due cycles are exactly the paid cycles that have begun: when the loop returns, its list
  holds the cycles 0, 1, 2 and so on in order, and a cycle below the paid-through cycle is in the
  list if and only if it starts at or before the given instant.
\<close>

theorem due_cycles_are_the_started_paid_cycles:
  assumes "date_parse anchorAt = Some a" and "anchor_ok a" and "date_parse asOf = Some now"
    and "due_cycles anchorAt paid asOf = Inr cs"
  shows "map cy_cycleIndex cs = map int [0..<length cs] \<and>
    (\<forall>j c. creditSubscriptionCycle anchorAt (JInt j) = Inr c \<longrightarrow>
      (c \<in> set cs \<longleftrightarrow> j < paid \<and> date_le (cy_startsAt c) asOf))"
proof -
  have loop: "due_loop anchorAt now 0 (nat paid) = Inr cs"
    using assms(3,4) by (simp add: due_cycles_def)
  note r = due_loop_result [OF loop]
  have "c \<in> set cs \<longleftrightarrow> j < paid \<and> date_le (cy_startsAt c) asOf"
    if c: "creditSubscriptionCycle anchorAt (JInt j) = Inr c" for j c
  proof (cases "j < int (length cs)")
    case True
    note cj = creditSubscriptionCycle_Inr [OF c assms(1,2)]
    have mem: "c \<in> set cs" using due_loop_lists [OF loop c assms(1,2)] True by simp
    then have "\<not> num_lt (Some now) (date_parse (cy_startsAt c))" using r by blast
    then have "date_le (cy_startsAt c) asOf" using cj(5) assms(3) by (simp add: date_le_def)
    moreover have "length cs \<le> nat paid" using r by blast
    ultimately show ?thesis using mem True cj(1) by (cases "0 \<le> paid") simp_all
  next
    case False
    with due_loop_lists [OF loop c assms(1,2)] due_loop_stops [OF loop c assms(1-3)] show ?thesis by auto
  qed
  with r show ?thesis by simp
qed

theorem due_cycles_are_the_started_paid_cycles_witness:
  "\<exists>cs. due_cycles ''2026-01-31T08:00:00.000Z'' 12 ''2026-03-01T00:00:00.000Z'' = Inr cs \<and>
     map cy_cycleIndex cs = map int [0..<length cs] \<and> length cs = 2"
proof -
  let ?cs = "[\<lparr>cy_cycleIndex = 0, cy_startsAt = ''2026-01-31T08:00:00.000Z'', cy_endsAt = ''2026-02-28T08:00:00.000Z''\<rparr>,
     \<lparr>cy_cycleIndex = 1, cy_startsAt = ''2026-02-28T08:00:00.000Z'', cy_endsAt = ''2026-03-31T08:00:00.000Z''\<rparr>]"
  have run: "due_cycles ''2026-01-31T08:00:00.000Z'' 12 ''2026-03-01T00:00:00.000Z'' = Inr ?cs" by code_simp
  from due_cycles_are_the_started_paid_cycles [OF billing_cycle_sample(1,4,5) run] run show ?thesis by auto
qed

end
