(* ===== verification/CreditSubscription.thy ===== *)
theory CreditSubscription
  imports BillingCycle JsMap
begin

text \<open>
  The credit subscriptions of \<^verbatim>\<open>credit-billing/credit-subscription-scheduler.ts\<close>: the immutable facts
  of paid periods, the scheduled plan changes and the class \<^verbatim>\<open>MemoryCreditSubscriptionStore\<close>. The
  three private maps of the class are association lists in insertion order; their composite keys
  are the strings the code builds, joined by a NUL character. A method that assigns fields of a
  stored object before a later assignment throws leaves those fields assigned, and so does the
  model.
\<close>

section \<open>Data\<close>

datatype paid_tier = Starter | Growth | Pro
datatype plan_interval = Single_month | Monthly | Yearly
datatype subscription_status = Active | Past_due | Cancelled
datatype settlement_status = Applied | Duplicate | Ignored_stale

text \<open>Facts a caller passes carry unchecked numbers, stored ones integers.\<close>

record 'n coverage =
  cov_creditsPerCycle :: 'n
  cov_interval :: plan_interval
  cov_tier :: paid_tier

record paid_period_input =
  pp_subscriptionId :: string
  pp_periodStartsAt :: string
  pp_coverageCycles :: js_number
  pp_coverage :: "js_number coverage option"
  pp_at :: string

record 'n scheduled_change =
  sc_tier :: paid_tier
  sc_interval :: plan_interval
  sc_effectiveCycle :: 'n

record credit_subscription =
  su_id :: string
  su_workspaceId :: string
  su_tier :: paid_tier
  su_interval :: plan_interval
  su_pendingTier :: "paid_tier option"
  su_pendingInterval :: "plan_interval option"
  su_pendingEffectiveCycle :: "int option"
  su_scheduledChanges :: "int scheduled_change list"
  su_grantCycleOffset :: int
  su_grantLineageId :: string
  su_anchorAt :: string
  su_paidThroughCycle :: int
  su_status :: subscription_status
  su_pastDueAt :: "string option"
  su_cancelledAt :: "string option"
  su_createdAt :: string
  su_updatedAt :: string
  su_settlementStatus :: "settlement_status option"

text \<open>The three pending fields of an input tell \<^verbatim>\<open>undefined\<close> (\<open>None\<close>) from \<^verbatim>\<open>null\<close> (\<open>Some None\<close>).\<close>

record subscription_input =
  si_id :: string
  si_workspaceId :: string
  si_tier :: paid_tier
  si_interval :: plan_interval
  si_pendingTier :: "paid_tier option option"
  si_pendingInterval :: "plan_interval option option"
  si_pendingEffectiveCycle :: "js_number option option"
  si_scheduledChanges :: "js_number scheduled_change list option"
  si_grantCycleOffset :: "int option"
  si_grantLineageId :: "string option"
  si_anchorAt :: string
  si_paidThroughCycle :: js_number
  si_status :: "subscription_status option"
  si_pastDueAt :: "string option"
  si_cancelledAt :: "string option"
  si_createdAt :: "string option"
  si_updatedAt :: "string option"

record period_facts =
  pf_coverageCycles :: int
  pf_coverage :: "int coverage option"

record payment_event =
  pe_payloadHash :: string
  pe_result :: "credit_subscription option"

record payment_event_input =
  pi_workspaceId :: string
  pi_paymentEventId :: string
  pi_payloadHash :: string
  pi_compatiblePayloadHashes :: "string list option"
  pi_createdAt :: string

record change_input =
  ch_subscriptionId :: string
  ch_tier :: paid_tier
  ch_interval :: plan_interval
  ch_effectiveCycle :: js_number
  ch_at :: string

record replace_input =
  rs_sourceSubscriptionId :: string
  rs_targetSubscriptionId :: string
  rs_at :: string

record subscription_store =
  ss_subscriptions :: "(string, credit_subscription) js_map"
  ss_paymentEvents :: "(string, payment_event) js_map"
  ss_paidPeriods :: "(string, period_facts) js_map"

definition empty_subscription_store :: subscription_store where
  "empty_subscription_store = \<lparr>ss_subscriptions = [], ss_paymentEvents = [], ss_paidPeriods = []\<rparr>"

section \<open>Argument checks\<close>

definition assertPaidThroughCycle :: "js_number \<Rightarrow> unit result" where
  "assertPaidThroughCycle value =
     check (number_isInteger value \<and> int_of value \<ge> 0)
       (JsError ''paidThroughCycle must be a non-negative integer.'')"

definition assertCoverageCycles :: "js_number \<Rightarrow> unit result" where
  "assertCoverageCycles value =
     check (number_isInteger value \<and> int_of value \<ge> 1)
       (JsError ''coverageCycles must be a positive integer.'')"

text \<open>
  The run-time membership tests of tier and interval pass on every value of the two enumerations
  and are left out here and below.
\<close>

definition assertCoverage :: "js_number coverage \<Rightarrow> unit result" where
  "assertCoverage coverage =
     check (number_isSafeInteger (cov_creditsPerCycle coverage) \<and> int_of (cov_creditsPerCycle coverage) > 0)
       (JsError ''Paid credit coverage must contain a positive integer credit amount.'')"

definition checked_coverage :: "js_number coverage \<Rightarrow> int coverage" where
  "checked_coverage c =
     \<lparr> cov_creditsPerCycle = int_of (cov_creditsPerCycle c), cov_interval = cov_interval c,
       cov_tier = cov_tier c \<rparr>"

definition paidPeriodFacts :: "paid_period_input \<Rightarrow> period_facts result" where
  "paidPeriodFacts inp =
     r_bind (assertCoverageCycles (pp_coverageCycles inp)) (\<lambda>_.
     r_bind (case pp_coverage inp of None \<Rightarrow> Inr () | Some c \<Rightarrow> assertCoverage c) (\<lambda>_.
       Inr \<lparr> pf_coverageCycles = int_of (pp_coverageCycles inp),
             pf_coverage = map_option checked_coverage (pp_coverage inp) \<rparr>))"

definition sameCoverage :: "int coverage option \<Rightarrow> int coverage option \<Rightarrow> bool" where
  "sameCoverage l r \<longleftrightarrow>
     map_option cov_creditsPerCycle l = map_option cov_creditsPerCycle r \<and>
     map_option cov_interval l = map_option cov_interval r \<and>
     map_option cov_tier l = map_option cov_tier r"

definition assertPaidPeriodFacts :: "period_facts \<Rightarrow> paid_period_input \<Rightarrow> unit result" where
  "assertPaidPeriodFacts existing inp =
     r_bind (paidPeriodFacts inp) (\<lambda>incoming.
       check (pf_coverageCycles existing = pf_coverageCycles incoming \<and>
              sameCoverage (pf_coverage existing) (pf_coverage incoming))
         (P1DomainError IDEMPOTENCY_CONFLICT
            ''Credit subscription billing period has different coverage facts.''))"

definition is_payload_hash :: "string \<Rightarrow> bool" where
  "is_payload_hash h \<longleftrightarrow> length h = 64 \<and> (\<forall>c \<in> set h. c \<in> set ''abcdef0123456789'')"

fun assert_compatible_hashes :: "string list \<Rightarrow> unit result" where
  "assert_compatible_hashes [] = Inr ()"
| "assert_compatible_hashes (h # hs) =
     r_bind (check (is_payload_hash h)
               (P1DomainError INVALID_STATE ''Credit payment compatible payload hash is invalid.''))
       (\<lambda>_. assert_compatible_hashes hs)"

definition assertPaymentEventInput :: "payment_event_input \<Rightarrow> unit result" where
  "assertPaymentEventInput inp =
     r_bind (check (\<not> blank (pi_workspaceId inp) \<and> \<not> blank (pi_paymentEventId inp))
               (P1DomainError INVALID_STATE ''Credit payment workspace and event id are required.'')) (\<lambda>_.
     r_bind (check (is_payload_hash (pi_payloadHash inp))
               (P1DomainError INVALID_STATE ''Credit payment payload hash is invalid.'')) (\<lambda>_.
     r_bind (assert_compatible_hashes
               (case pi_compatiblePayloadHashes inp of None \<Rightarrow> [] | Some hs \<Rightarrow> hs)) (\<lambda>_.
     r_bind (date (pi_createdAt inp) ''createdAt'') (\<lambda>_. Inr ()))))"

definition assertPaymentEventFacts :: "string \<Rightarrow> string \<Rightarrow> string list option \<Rightarrow> unit result" where
  "assertPaymentEventFacts existing replayed compatible =
     check (existing = replayed \<or> existing \<in> set (case compatible of None \<Rightarrow> [] | Some hs \<Rightarrow> hs))
       (P1DomainError IDEMPOTENCY_CONFLICT ''Credit payment event was replayed with different facts.'')"

definition withSettlementStatus :: "credit_subscription \<Rightarrow> settlement_status \<Rightarrow> credit_subscription" where
  "withSettlementStatus subscription status = subscription\<lparr>su_settlementStatus := Some status\<rparr>"

section \<open>Scheduled changes\<close>

definition legacyScheduledChanges ::
    "paid_tier option \<Rightarrow> plan_interval option \<Rightarrow> 'n option \<Rightarrow> 'n scheduled_change list" where
  "legacyScheduledChanges pendingTier pendingInterval pendingEffectiveCycle =
     (case (pendingTier, pendingInterval, pendingEffectiveCycle) of
        (Some t, Some i, Some n) \<Rightarrow> [\<lparr>sc_tier = t, sc_interval = i, sc_effectiveCycle = n\<rparr>]
      | _ \<Rightarrow> [])"

definition changesFor :: "credit_subscription \<Rightarrow> int scheduled_change list" where
  "changesFor subscription =
     (if su_scheduledChanges subscription \<noteq> [] then su_scheduledChanges subscription
      else legacyScheduledChanges (su_pendingTier subscription) (su_pendingInterval subscription)
             (su_pendingEffectiveCycle subscription))"

definition checked_change :: "js_number scheduled_change \<Rightarrow> int scheduled_change" where
  "checked_change c =
     \<lparr>sc_tier = sc_tier c, sc_interval = sc_interval c, sc_effectiveCycle = int_of (sc_effectiveCycle c)\<rparr>"

definition as_input_change :: "int scheduled_change \<Rightarrow> js_number scheduled_change" where
  "as_input_change c =
     \<lparr>sc_tier = sc_tier c, sc_interval = sc_interval c, sc_effectiveCycle = JInt (sc_effectiveCycle c)\<rparr>"

fun changes_by_cycle ::
    "js_number scheduled_change list \<Rightarrow> (int, int scheduled_change) js_map \<Rightarrow>
       (int, int scheduled_change) js_map result" where
  "changes_by_cycle [] byCycle = Inr byCycle"
| "changes_by_cycle (change # changes) byCycle =
     r_bind (assertPaidThroughCycle (sc_effectiveCycle change)) (\<lambda>_.
       changes_by_cycle changes
         (map_set (int_of (sc_effectiveCycle change)) (checked_change change) byCycle))"

definition by_effective_cycle :: "int scheduled_change comparator" where
  "by_effective_cycle l r = Some (sc_effectiveCycle l - sc_effectiveCycle r)"

definition normalizeScheduledChanges ::
    "js_number scheduled_change list \<Rightarrow> int scheduled_change list result" where
  "normalizeScheduledChanges changes =
     r_bind (changes_by_cycle changes []) (\<lambda>byCycle. Inr (js_sort by_effective_cycle (map snd byCycle)))"

definition scheduleSubscriptionChange ::
    "credit_subscription \<Rightarrow> change_input \<Rightarrow> int scheduled_change list result" where
  "scheduleSubscriptionChange subscription inp =
     normalizeScheduledChanges
       (filter (\<lambda>c. sc_effectiveCycle c \<noteq> ch_effectiveCycle inp)
          (map as_input_change (changesFor subscription)) @
        [\<lparr>sc_tier = ch_tier inp, sc_interval = ch_interval inp, sc_effectiveCycle = ch_effectiveCycle inp\<rparr>])"

definition scheduledChangeForCycle :: "credit_subscription \<Rightarrow> int \<Rightarrow> int scheduled_change option" where
  "scheduledChangeForCycle subscription cycleIndex =
     (let started = filter (\<lambda>c. sc_effectiveCycle c \<le> cycleIndex) (changesFor subscription)
      in if started = [] then None else Some (last started))"

definition creditSubscriptionTierForCycle :: "credit_subscription \<Rightarrow> int \<Rightarrow> paid_tier" where
  "creditSubscriptionTierForCycle subscription cycleIndex =
     (case scheduledChangeForCycle subscription cycleIndex of
        None \<Rightarrow> su_tier subscription | Some c \<Rightarrow> sc_tier c)"

definition creditSubscriptionIntervalForCycle :: "credit_subscription \<Rightarrow> int \<Rightarrow> plan_interval" where
  "creditSubscriptionIntervalForCycle subscription cycleIndex =
     (case scheduledChangeForCycle subscription cycleIndex of
        None \<Rightarrow> su_interval subscription | Some c \<Rightarrow> sc_interval c)"

definition dueCreditSubscriptionCycles :: "credit_subscription \<Rightarrow> string \<Rightarrow> subscription_cycle list result" where
  "dueCreditSubscriptionCycles subscription asOf =
     due_cycles (su_anchorAt subscription) (su_paidThroughCycle subscription) asOf"

definition currentCreditSubscriptionCycle :: "credit_subscription \<Rightarrow> string \<Rightarrow> subscription_cycle option result" where
  "currentCreditSubscriptionCycle subscription asOf =
     current_cycle (su_anchorAt subscription) (su_paidThroughCycle subscription) asOf"

definition null_or_undefined :: "'a option option \<Rightarrow> 'a option" where
  "null_or_undefined v = (case v of None \<Rightarrow> None | Some x \<Rightarrow> x)"

definition assertSubscriptionInput :: "subscription_input \<Rightarrow> unit result" where
  "assertSubscriptionInput inp =
     r_bind (check (\<not> blank (si_id inp) \<and> \<not> blank (si_workspaceId inp))
               (JsError ''Credit subscription id and workspaceId are required.'')) (\<lambda>_.
     r_bind (date (si_anchorAt inp) ''anchorAt'') (\<lambda>_.
     r_bind (assertPaidThroughCycle (si_paidThroughCycle inp)) (\<lambda>_.
     r_bind (if si_pendingTier inp \<noteq> None \<or> si_pendingInterval inp \<noteq> None \<or> si_pendingEffectiveCycle inp \<noteq> None
             then (case (null_or_undefined (si_pendingTier inp), null_or_undefined (si_pendingInterval inp),
                         null_or_undefined (si_pendingEffectiveCycle inp)) of
                     (Some _, Some _, Some n) \<Rightarrow> assertPaidThroughCycle n
                   | _ \<Rightarrow> Inl (JsError
                            ''Pending subscription changes require tier, interval and effective cycle.''))
             else Inr ()) (\<lambda>_.
     r_bind (case si_scheduledChanges inp of
               None \<Rightarrow> Inr () | Some cs \<Rightarrow> r_bind (normalizeScheduledChanges cs) (\<lambda>_. Inr ())) (\<lambda>_.
     r_bind (check (\<not> (si_status inp = Some Past_due \<and> truthy (si_pastDueAt inp) = None))
               (JsError ''past_due subscriptions require pastDueAt.'')) (\<lambda>_.
     r_bind (check (\<not> (si_status inp \<noteq> Some Past_due \<and> truthy (si_pastDueAt inp) \<noteq> None))
               (JsError ''Only past_due subscriptions may have pastDueAt.'')) (\<lambda>_.
     r_bind (check (\<not> (si_status inp = Some Cancelled \<and> truthy (si_cancelledAt inp) = None))
               (JsError ''cancelled subscriptions require cancelledAt.'')) (\<lambda>_.
     check (\<not> (si_status inp \<noteq> Some Cancelled \<and> truthy (si_cancelledAt inp) \<noteq> None))
       (JsError ''Only cancelled subscriptions may have cancelledAt.'')))))))))"

section \<open>The store\<close>

definition nul :: string where "nul = [CHR 0x00]"

definition require_subscription :: "string \<Rightarrow> subscription_store \<Rightarrow> credit_subscription result" where
  "require_subscription subscriptionId s =
     (case map_of (ss_subscriptions s) subscriptionId of
        None \<Rightarrow> Inl (JsError (''Credit subscription '' @ subscriptionId @ '' was not found.''))
      | Some subscription \<Rightarrow> Inr subscription)"

text \<open>A write to the fields of the stored object.\<close>

definition put_subscription :: "string \<Rightarrow> credit_subscription \<Rightarrow> subscription_store \<Rightarrow> subscription_store" where
  "put_subscription subscriptionId subscription s =
     s\<lparr>ss_subscriptions := map_set subscriptionId subscription (ss_subscriptions s)\<rparr>"

definition get_subscription :: "subscription_store \<Rightarrow> string \<Rightarrow> credit_subscription option" where
  "get_subscription s subscriptionId = map_of (ss_subscriptions s) subscriptionId"

definition listForWorkspace :: "subscription_store \<Rightarrow> string \<Rightarrow> credit_subscription list" where
  "listForWorkspace s ws =
     js_sort (\<lambda>l r. Some (locale_compare (su_updatedAt r) (su_updatedAt l)))
       (filter (\<lambda>x. su_workspaceId x = ws) (map snd (ss_subscriptions s)))"

definition listGrantCandidates :: "subscription_store \<Rightarrow> credit_subscription list" where
  "listGrantCandidates s =
     js_sort (\<lambda>l r. Some (locale_compare (su_id l) (su_id r))) (map snd (ss_subscriptions s))"

definition optional_iso :: "string option \<Rightarrow> string option result" where
  "optional_iso v = (case truthy v of None \<Rightarrow> Inr None | Some x \<Rightarrow> r_bind (iso x) (\<lambda>t. Inr (Some t)))"

definition orElse :: "'a option \<Rightarrow> 'a \<Rightarrow> 'a" where
  "orElse v d = (case v of None \<Rightarrow> d | Some x \<Rightarrow> x)"

definition first_change :: "int scheduled_change list \<Rightarrow> int scheduled_change option" where
  "first_change cs = (case cs of [] \<Rightarrow> None | c # _ \<Rightarrow> Some c)"

definition changes_to_store ::
    "subscription_input \<Rightarrow> credit_subscription option \<Rightarrow> int scheduled_change list result" where
  "changes_to_store inp existing =
     normalizeScheduledChanges
       (case si_scheduledChanges inp of
          Some cs \<Rightarrow> cs
        | None \<Rightarrow>
            (case existing of
               Some x \<Rightarrow> map as_input_change (su_scheduledChanges x)
             | None \<Rightarrow> legacyScheduledChanges (null_or_undefined (si_pendingTier inp))
                         (null_or_undefined (si_pendingInterval inp))
                         (null_or_undefined (si_pendingEffectiveCycle inp))))"

definition built_subscription ::
    "subscription_input \<Rightarrow> credit_subscription option \<Rightarrow> credit_subscription result" where
  "built_subscription inp existing =
     r_bind (changes_to_store inp existing) (\<lambda>changes.
     r_bind (iso (si_anchorAt inp)) (\<lambda>anchorAt.
     r_bind (optional_iso (si_pastDueAt inp)) (\<lambda>pastDueAt.
     r_bind (optional_iso (si_cancelledAt inp)) (\<lambda>cancelledAt.
     r_bind (case existing of
               Some x \<Rightarrow> Inr (su_createdAt x)
             | None \<Rightarrow> iso (orElse (si_createdAt inp) (si_anchorAt inp))) (\<lambda>createdAt.
     r_bind (iso (orElse (si_updatedAt inp) (si_anchorAt inp))) (\<lambda>updatedAt.
       let pending = first_change changes
       in Inr \<lparr> su_id = si_id inp, su_workspaceId = si_workspaceId inp, su_tier = si_tier inp,
            su_interval = si_interval inp, su_pendingTier = map_option sc_tier pending,
            su_pendingInterval = map_option sc_interval pending,
            su_pendingEffectiveCycle = map_option sc_effectiveCycle pending,
            su_scheduledChanges = changes,
            su_grantCycleOffset = orElse (si_grantCycleOffset inp) 0,
            su_grantLineageId =
              orElse (si_grantLineageId inp)
                (case existing of Some x \<Rightarrow> su_grantLineageId x | None \<Rightarrow> si_id inp),
            su_anchorAt = anchorAt, su_paidThroughCycle = int_of (si_paidThroughCycle inp),
            su_status = orElse (si_status inp) Active, su_pastDueAt = pastDueAt,
            su_cancelledAt = cancelledAt, su_createdAt = createdAt, su_updatedAt = updatedAt,
            su_settlementStatus = None \<rparr>))))))"

definition upsert :: "subscription_input \<Rightarrow> (subscription_store, credit_subscription) op" where
  "upsert inp =
     guarded (assertSubscriptionInput inp) (\<lambda>_ s.
       let existing = map_of (ss_subscriptions s) (si_id inp)
       in guarded (check (case existing of None \<Rightarrow> True | Some x \<Rightarrow> su_workspaceId x = si_workspaceId inp)
                     (P1DomainError IDEMPOTENCY_CONFLICT
                        (''Credit subscription '' @ si_id inp @ '' belongs to a different workspace.''))) (\<lambda>_.
          guarded (built_subscription inp existing) (\<lambda>subscription s'.
            (Inr subscription, put_subscription (si_id inp) subscription s'))) s)"

text \<open>The tail of most methods: \<^verbatim>\<open>updatedAt = iso(at)\<close> on an object whose other fields are assigned.\<close>

definition stamp :: "string \<Rightarrow> credit_subscription \<Rightarrow> string \<Rightarrow> (subscription_store, credit_subscription) op" where
  "stamp subscriptionId subscription at s =
     (case iso at of
        Inl e \<Rightarrow> (Inl e, put_subscription subscriptionId subscription s)
      | Inr t \<Rightarrow>
          (let updated = subscription\<lparr>su_updatedAt := t\<rparr>
           in (Inr updated, put_subscription subscriptionId updated s)))"

definition recordPaidCoverage ::
    "string \<Rightarrow> js_number \<Rightarrow> string \<Rightarrow> (subscription_store, credit_subscription) op" where
  "recordPaidCoverage subscriptionId paidThroughCycle at s =
     guarded (require_subscription subscriptionId s) (\<lambda>subscription.
     guarded (assertPaidThroughCycle paidThroughCycle) (\<lambda>_.
     guarded (check (su_status subscription \<noteq> Cancelled)
                (JsError ''Cancelled credit subscriptions cannot receive renewal coverage.'')) (\<lambda>_.
       stamp subscriptionId
         (subscription\<lparr>su_paidThroughCycle := max (su_paidThroughCycle subscription) (int_of paidThroughCycle),
                       su_status := Active, su_pastDueAt := None\<rparr>) at))) s"

definition period_key :: "string \<Rightarrow> string \<Rightarrow> string" where
  "period_key subscriptionId periodStartsAt = subscriptionId @ nul @ periodStartsAt"

text \<open>
  The periods of a subscription: the entries whose key starts with its prefix, the key without it.
\<close>

definition periods_of :: "string \<Rightarrow> subscription_store \<Rightarrow> (string \<times> period_facts) list" where
  "periods_of subscriptionId s =
     map (\<lambda>(key, period). (drop (length (subscriptionId @ nul)) key, period))
       (filter (\<lambda>(key, period). starts_with (subscriptionId @ nul) key) (ss_paidPeriods s))"

text \<open>The cycles the paid periods cover, in the order the loop adds them.\<close>

fun covered_cycles :: "string \<Rightarrow> (string \<times> period_facts) list \<Rightarrow> int list result" where
  "covered_cycles anchorAt [] = Inr []"
| "covered_cycles anchorAt ((startsAt, period) # periods) =
     r_bind (creditSubscriptionCycleIndexAt anchorAt startsAt) (\<lambda>cycleStart.
     r_bind (covered_cycles anchorAt periods) (\<lambda>rest.
       Inr (if cycleStart < 0 then rest
            else [cycleStart..cycleStart + pf_coverageCycles period - 1] @ rest)))"

function contiguous_loop :: "int list \<Rightarrow> int \<Rightarrow> int" where
  "contiguous_loop covered paidThroughCycle =
     (if paidThroughCycle \<in> set covered then contiguous_loop covered (paidThroughCycle + 1)
      else paidThroughCycle)"
  by pat_completeness auto
termination
proof (relation "measure (\<lambda>(covered, p). card {c \<in> set covered. p \<le> c})")
  fix covered :: "int list" and p :: int
  assume "p \<in> set covered"
  then have "p \<in> {c \<in> set covered. p \<le> c}" by simp
  moreover have "p \<notin> {c \<in> set covered. p + 1 \<le> c}" by simp
  moreover have "{c \<in> set covered. p + 1 \<le> c} \<subseteq> {c \<in> set covered. p \<le> c}" by auto
  ultimately have "{c \<in> set covered. p + 1 \<le> c} \<subset> {c \<in> set covered. p \<le> c}" by blast
  then have "card {c \<in> set covered. p + 1 \<le> c} < card {c \<in> set covered. p \<le> c}"
    by (intro psubset_card_mono) auto
  then show "((covered, p + 1), covered, p) \<in> measure (\<lambda>(covered, p). card {c \<in> set covered. p \<le> c})"
    by simp
qed simp

declare contiguous_loop.simps [simp del]

definition contiguousPaidThroughCycle :: "subscription_store \<Rightarrow> credit_subscription \<Rightarrow> int result" where
  "contiguousPaidThroughCycle s subscription =
     r_bind (covered_cycles (su_anchorAt subscription) (periods_of (su_id subscription) s))
       (\<lambda>covered. Inr (contiguous_loop covered 0))"

definition put_period :: "string \<Rightarrow> period_facts \<Rightarrow> subscription_store \<Rightarrow> subscription_store" where
  "put_period key period s = s\<lparr>ss_paidPeriods := map_set key period (ss_paidPeriods s)\<rparr>"

definition recordPaidPeriod :: "paid_period_input \<Rightarrow> (subscription_store, credit_subscription) op" where
  "recordPaidPeriod inp s =
     guarded (require_subscription (pp_subscriptionId inp) s) (\<lambda>subscription.
     guarded (iso (pp_periodStartsAt inp)) (\<lambda>periodStartsAt.
     guarded (iso (pp_at inp)) (\<lambda>at.
     guarded (assertCoverageCycles (pp_coverageCycles inp)) (\<lambda>_.
     guarded (check (su_status subscription \<noteq> Cancelled)
                (JsError ''Cancelled credit subscriptions cannot receive renewal coverage.'')) (\<lambda>_ s.
       if str_less at periodStartsAt then (Inr subscription, s)
       else
         let key = period_key (pp_subscriptionId inp) periodStartsAt
         in case map_of (ss_paidPeriods s) key of
              Some existing \<Rightarrow> guarded (assertPaidPeriodFacts existing inp) (\<lambda>_ s. (Inr subscription, s)) s
            | None \<Rightarrow>
                guarded (paidPeriodFacts inp) (\<lambda>facts s.
                  let s1 = put_period key facts s
                  in guarded (contiguousPaidThroughCycle s1 subscription) (\<lambda>paidThroughCycle s1.
                       if paidThroughCycle \<le> su_paidThroughCycle subscription then (Inr subscription, s1)
                       else recordPaidCoverage (pp_subscriptionId inp) (JInt paidThroughCycle) at s1) s1) s))))) s"

definition recordInitialPaidPeriod :: "paid_period_input \<Rightarrow> (subscription_store, credit_subscription) op" where
  "recordInitialPaidPeriod inp s =
     guarded (require_subscription (pp_subscriptionId inp) s) (\<lambda>subscription.
     guarded (iso (pp_periodStartsAt inp)) (\<lambda>periodStartsAt.
     guarded (assertCoverageCycles (pp_coverageCycles inp)) (\<lambda>_ s.
       let key = period_key (pp_subscriptionId inp) periodStartsAt
       in op_bind
            (case map_of (ss_paidPeriods s) key of
               Some existing \<Rightarrow> guarded (assertPaidPeriodFacts existing inp) (\<lambda>_ s. (Inr (), s))
             | None \<Rightarrow> guarded (paidPeriodFacts inp) (\<lambda>facts s. (Inr (), put_period key facts s)))
            (\<lambda>_ s1.
              guarded (contiguousPaidThroughCycle s1 subscription) (\<lambda>paidThroughCycle s1.
                let updated = subscription\<lparr>su_paidThroughCycle :=
                                max (su_paidThroughCycle subscription) paidThroughCycle\<rparr>
                in (Inr updated, put_subscription (pp_subscriptionId inp) updated s1)) s1) s))) s"

definition latestPaidPeriodStartsAt :: "subscription_store \<Rightarrow> string \<Rightarrow> string option" where
  "latestPaidPeriodStartsAt s subscriptionId =
     (let sorted_starts = js_sort str_compare (map fst (periods_of subscriptionId s))
      in if sorted_starts = [] then None else Some (last sorted_starts))"

fun coverage_loop :: "string \<Rightarrow> int \<Rightarrow> (string \<times> period_facts) list \<Rightarrow> int coverage option result" where
  "coverage_loop anchorAt cycleIndex [] = Inr None"
| "coverage_loop anchorAt cycleIndex ((startsAt, period) # periods) =
     (case pf_coverage period of
        None \<Rightarrow> coverage_loop anchorAt cycleIndex periods
      | Some coverage \<Rightarrow>
          r_bind (creditSubscriptionCycleIndexAt anchorAt startsAt) (\<lambda>startCycle.
            if startCycle \<le> cycleIndex \<and> cycleIndex < startCycle + pf_coverageCycles period
            then Inr (Some coverage) else coverage_loop anchorAt cycleIndex periods))"

definition paidCoverageForCycle ::
    "subscription_store \<Rightarrow> string \<Rightarrow> js_number \<Rightarrow> int coverage option result" where
  "paidCoverageForCycle s subscriptionId cycleIndex =
     r_bind (assertPaidThroughCycle cycleIndex) (\<lambda>_.
     r_bind (require_subscription subscriptionId s) (\<lambda>subscription.
       coverage_loop (su_anchorAt subscription) (int_of cycleIndex) (periods_of subscriptionId s)))"

text \<open>
  The copy of the paid periods to the new identifier. The code iterates the map while it adds to it;
  an entry added under the target's prefix is only visited to be skipped, because it does not start
  with the source's prefix (identifiers hold no NUL character).
\<close>

definition copy_periods :: "string \<Rightarrow> string \<Rightarrow> subscription_store \<Rightarrow> subscription_store" where
  "copy_periods source target s =
     fold (\<lambda>(startsAt, period). put_period (period_key target startsAt) period) (periods_of source s) s"

definition replaceSubscription :: "replace_input \<Rightarrow> (subscription_store, credit_subscription) op" where
  "replaceSubscription inp s =
     guarded (require_subscription (rs_sourceSubscriptionId inp) s) (\<lambda>source.
     guarded (check (map_of (ss_subscriptions s) (rs_targetSubscriptionId inp) = None)
                (P1DomainError IDEMPOTENCY_CONFLICT
                   (''Credit subscription '' @ rs_targetSubscriptionId inp @ '' already exists.''))) (\<lambda>_.
     guarded (iso (rs_at inp)) (\<lambda>at s.
       let cancelled = source\<lparr>su_status := Cancelled, su_pastDueAt := None, su_cancelledAt := Some at,
                              su_updatedAt := at\<rparr>;
           replacement = cancelled\<lparr>su_id := rs_targetSubscriptionId inp, su_status := Active,
                                   su_cancelledAt := None, su_updatedAt := at\<rparr>
       in (Inr replacement,
           copy_periods (rs_sourceSubscriptionId inp) (rs_targetSubscriptionId inp)
             (put_subscription (rs_targetSubscriptionId inp) replacement
               (put_subscription (rs_sourceSubscriptionId inp) cancelled s)))))) s"

definition resume :: "string \<Rightarrow> string \<Rightarrow> (subscription_store, credit_subscription) op" where
  "resume subscriptionId at s =
     guarded (require_subscription subscriptionId s) (\<lambda>subscription.
     guarded (check (su_status subscription \<noteq> Cancelled)
                (JsError ''Cancelled credit subscriptions cannot resume.'')) (\<lambda>_.
       stamp subscriptionId (subscription\<lparr>su_status := Active, su_pastDueAt := None\<rparr>) at)) s"

definition uncancel :: "string \<Rightarrow> string \<Rightarrow> (subscription_store, credit_subscription) op" where
  "uncancel subscriptionId at s =
     guarded (require_subscription subscriptionId s) (\<lambda>subscription.
     guarded (check (su_status subscription \<noteq> Cancelled)
                (JsError ''Cancelled credit subscriptions cannot be uncanceled.'')) (\<lambda>_.
       stamp subscriptionId
         (subscription\<lparr>su_scheduledChanges := [], su_pendingTier := None, su_pendingInterval := None,
                       su_pendingEffectiveCycle := None, su_status := Active, su_pastDueAt := None\<rparr>) at)) s"

text \<open>The first assignment of a timestamp throws after the assignments before it.\<close>

definition markPastDue :: "string \<Rightarrow> string \<Rightarrow> (subscription_store, credit_subscription) op" where
  "markPastDue subscriptionId at s =
     guarded (require_subscription subscriptionId s) (\<lambda>subscription s.
       if su_status subscription = Active
       then (let marked = subscription\<lparr>su_status := Past_due\<rparr>
             in case iso at of
                  Inl e \<Rightarrow> (Inl e, put_subscription subscriptionId marked s)
                | Inr t \<Rightarrow> stamp subscriptionId (marked\<lparr>su_pastDueAt := Some t\<rparr>) at s)
       else (Inr subscription, s)) s"

definition cancel_now :: "string \<Rightarrow> credit_subscription \<Rightarrow> string \<Rightarrow> (subscription_store, credit_subscription) op" where
  "cancel_now subscriptionId subscription at s =
     (let cancelled = subscription\<lparr>su_status := Cancelled, su_pastDueAt := None\<rparr>
      in case iso at of
           Inl e \<Rightarrow> (Inl e, put_subscription subscriptionId cancelled s)
         | Inr t \<Rightarrow> stamp subscriptionId (cancelled\<lparr>su_cancelledAt := Some t\<rparr>) at s)"

definition cancelPastDue :: "string \<Rightarrow> string \<Rightarrow> (subscription_store, credit_subscription) op" where
  "cancelPastDue subscriptionId at s =
     guarded (require_subscription subscriptionId s) (\<lambda>subscription s.
       if su_status subscription = Past_due then cancel_now subscriptionId subscription at s
       else (Inr subscription, s)) s"

definition cancel :: "string \<Rightarrow> string \<Rightarrow> (subscription_store, credit_subscription) op" where
  "cancel subscriptionId at s =
     guarded (require_subscription subscriptionId s) (\<lambda>subscription s.
       if su_status subscription \<noteq> Cancelled then cancel_now subscriptionId subscription at s
       else (Inr subscription, s)) s"

definition scheduleChange :: "change_input \<Rightarrow> (subscription_store, credit_subscription) op" where
  "scheduleChange inp s =
     guarded (assertPaidThroughCycle (ch_effectiveCycle inp)) (\<lambda>_.
     guarded (require_subscription (ch_subscriptionId inp) s) (\<lambda>subscription.
     guarded (check (su_status subscription \<noteq> Cancelled)
                (JsError ''Cancelled credit subscriptions cannot be changed.'')) (\<lambda>_.
     guarded (scheduleSubscriptionChange subscription inp) (\<lambda>changes.
       let pending = first_change changes
       in stamp (ch_subscriptionId inp)
            (subscription\<lparr>su_scheduledChanges := changes, su_pendingTier := map_option sc_tier pending,
                          su_pendingInterval := map_option sc_interval pending,
                          su_pendingEffectiveCycle := map_option sc_effectiveCycle pending\<rparr>)
            (ch_at inp))))) s"

section \<open>Payment events\<close>

definition payment_event_key :: "payment_event_input \<Rightarrow> string" where
  "payment_event_key inp = pi_workspaceId inp @ nul @ pi_paymentEventId inp"

text \<open>What is recorded of the result of the operation.\<close>

definition settled_result :: "credit_subscription option \<Rightarrow> credit_subscription option" where
  "settled_result result =
     map_option (\<lambda>x. withSettlementStatus x
       (if su_settlementStatus x = Some Ignored_stale then Ignored_stale else Applied)) result"

definition put_payment_event :: "string \<Rightarrow> payment_event \<Rightarrow> subscription_store \<Rightarrow> subscription_store" where
  "put_payment_event key event s = s\<lparr>ss_paymentEvents := map_set key event (ss_paymentEvents s)\<rparr>"

text \<open>
  The operation works on the store and on whatever else its caller keeps, of type \<open>'g\<close>: the service
  of \<^verbatim>\<open>credit-billing-service.ts\<close> writes the credit ledger too.
\<close>

definition settle_payment_event ::
    "payment_event_input \<Rightarrow> ('g \<times> subscription_store, credit_subscription option) op \<Rightarrow>
       ('g \<times> subscription_store, credit_subscription option) op" where
  "settle_payment_event inp operation =
     guarded (assertPaymentEventInput inp) (\<lambda>_ st.
       let key = payment_event_key inp
       in case map_of (ss_paymentEvents (snd st)) key of
            Some existing \<Rightarrow>
              guarded (assertPaymentEventFacts (pe_payloadHash existing) (pi_payloadHash inp)
                         (pi_compatiblePayloadHashes inp)) (\<lambda>_ st.
                (Inr (map_option (\<lambda>x. withSettlementStatus x Duplicate) (pe_result existing)), st)) st
          | None \<Rightarrow>
              op_bind operation (\<lambda>result st1.
                let recorded = settled_result result
                in (Inr recorded,
                    (fst st1, put_payment_event key
                       \<lparr>pe_payloadHash = pi_payloadHash inp, pe_result = recorded\<rparr> (snd st1)))) st)"

text \<open>The operation runs on the store itself; a deferred event is answered with \<^verbatim>\<open>null\<close>.\<close>

definition withPaymentEvent ::
    "payment_event_input \<Rightarrow> ('g \<times> subscription_store, credit_subscription option) op \<Rightarrow>
       ('g \<times> subscription_store, credit_subscription option) op" where
  "withPaymentEvent inp operation st =
     (case settle_payment_event inp operation st of
        (Inl (DeferredCreditPaymentEvent _), st') \<Rightarrow> (Inr None, st')
      | (r, st') \<Rightarrow> (r, st'))"

end
