(* ===== verification/CreditSubscriptionCorrect.thy ===== *)
theory CreditSubscriptionCorrect
  imports CreditSubscription
begin

text \<open>
  Correctness of the subscription store: normalised plan changes, the contiguous paid-through cycle,
  the invariant every successful call keeps, the exactly-once settlement of payment events and the
  immutability of paid periods.
\<close>

section \<open>Plan changes\<close>

lemma assertPaidThroughCycle_Inr: "assertPaidThroughCycle v = Inr () \<longleftrightarrow> (\<exists>n \<ge> 0. v = JInt n)"
  by (cases v) (auto simp: assertPaidThroughCycle_def)

lemma assertPaidThroughCycle_JInt [simp]: "0 \<le> n \<Longrightarrow> assertPaidThroughCycle (JInt n) = Inr ()"
  by (simp add: assertPaidThroughCycle_Inr)

interpretation cycle_order: js_comparator by_effective_cycle "\<lambda>_. True"
  by unfold_locales (auto simp: by_effective_cycle_def cmp_le_def)

definition changes_ok :: "int scheduled_change list \<Rightarrow> bool" where
  "changes_ok cs \<longleftrightarrow> sorted_wrt (\<lambda>a b. sc_effectiveCycle a < sc_effectiveCycle b) cs \<and>
     (\<forall>c \<in> set cs. 0 \<le> sc_effectiveCycle c)"

definition keyed_changes :: "(int, int scheduled_change) js_map \<Rightarrow> bool" where
  "keyed_changes m \<longleftrightarrow> distinct (map fst m) \<and> (\<forall>(k, c) \<in> set m. sc_effectiveCycle c = k \<and> 0 \<le> k)"

lemma keyed_changes_set:
  assumes "keyed_changes m" "0 \<le> k" "sc_effectiveCycle c = k"
  shows "keyed_changes (map_set k c m)"
  using assms set_map_set [of k c m] unfolding keyed_changes_def by (auto intro: distinct_map_set)

text \<open>The last change given for a cycle wins.\<close>

fun last_change :: "js_number scheduled_change list \<Rightarrow> int \<Rightarrow> int scheduled_change option" where
  "last_change [] n = None"
| "last_change (c # cs) n =
     (case last_change cs n of
        Some d \<Rightarrow> Some d
      | None \<Rightarrow> if sc_effectiveCycle c = JInt n then Some (checked_change c) else None)"

lemma changes_by_cycle_result:
  assumes "changes_by_cycle cs m = Inr m'" and "keyed_changes m"
  shows "keyed_changes m' \<and>
    (\<forall>n. map_of m' n = (case last_change cs n of Some d \<Rightarrow> Some d | None \<Rightarrow> map_of m n))"
  using assms
proof (induction cs arbitrary: m)
  case Nil
  then show ?case by simp
next
  case (Cons c cs)
  then obtain k where k: "sc_effectiveCycle c = JInt k" "0 \<le> k"
    "changes_by_cycle cs (map_set k (checked_change c) m) = Inr m'"
    by (auto simp: r_bind_unit_Inr assertPaidThroughCycle_Inr)
  have "keyed_changes (map_set k (checked_change c) m)"
    using Cons.prems(2) k by (intro keyed_changes_set) (simp_all add: checked_change_def)
  from Cons.IH [OF k(3) this] k(1) show ?case by (auto split: option.splits)
qed

lemma sorted_strict:
  assumes "sorted_wrt (cmp_le by_effective_cycle) cs" "distinct (map sc_effectiveCycle cs)"
  shows "sorted_wrt (\<lambda>a b. sc_effectiveCycle a < sc_effectiveCycle b) cs"
  using assms
proof (induction cs)
  case Nil
  then show ?case by simp
next
  case (Cons c cs)
  then show ?case
    by (auto simp: cmp_le_def by_effective_cycle_def image_iff) (metis order_le_less)
qed

lemma keyed_changes_values:
  assumes "keyed_changes m"
  shows "map sc_effectiveCycle (map snd m) = map fst m" "distinct (map sc_effectiveCycle (map snd m))"
proof -
  show "map sc_effectiveCycle (map snd m) = map fst m"
    using assms by (auto simp: keyed_changes_def)
  with assms show "distinct (map sc_effectiveCycle (map snd m))" by (simp only: keyed_changes_def)
qed

lemma normalize_result:
  assumes "normalizeScheduledChanges cs = Inr ds"
  shows "changes_ok ds \<and> (\<forall>n. find (\<lambda>d. sc_effectiveCycle d = n) ds = last_change cs n)"
proof -
  obtain m where m: "changes_by_cycle cs [] = Inr m" "ds = js_sort by_effective_cycle (map snd m)"
    using assms by (auto simp: normalizeScheduledChanges_def r_bind_Inr_iff)
  have k: "keyed_changes m" and look: "\<And>n. map_of m n = last_change cs n"
    using changes_by_cycle_result [OF m(1)] by (auto simp: keyed_changes_def split: option.splits)
  have dist: "distinct (map sc_effectiveCycle ds)"
  proof -
    have "mset (map sc_effectiveCycle ds) = mset (map sc_effectiveCycle (map snd m))"
      unfolding m(2) mset_map mset_js_sort ..
    then show ?thesis using keyed_changes_values(2) [OF k] mset_eq_imp_distinct_iff by blast
  qed
  have sorted: "sorted_wrt (cmp_le by_effective_cycle) ds"
    unfolding m(2) by (rule cycle_order.sort_sorted) simp
  have ok: "changes_ok ds"
    using sorted_strict [OF sorted dist] k by (auto simp: changes_ok_def m(2) keyed_changes_def)
  have "find (\<lambda>d. sc_effectiveCycle d = n) ds = map_of m n" for n
  proof (cases "map_of m n")
    case None
    then have "\<forall>d \<in> set ds. sc_effectiveCycle d \<noteq> n"
      using k by (fastforce simp: m(2) keyed_changes_def map_of_eq_None_iff image_iff)
    with None show ?thesis by (simp add: find_None_iff)
  next
    case (Some d)
    then have d: "d \<in> set ds" "sc_effectiveCycle d = n"
      using k map_of_SomeD [OF Some] by (force simp: m(2) keyed_changes_def)+
    then obtain e where e: "find (\<lambda>d. sc_effectiveCycle d = n) ds = Some e"
      by (cases "find (\<lambda>d. sc_effectiveCycle d = n) ds") (auto simp: find_None_iff)
    then have "e \<in> set ds" "sc_effectiveCycle e = n" by (auto simp: find_Some_iff)
    with d dist have "e = d" by (auto simp: distinct_map inj_on_def)
    with e Some show ?thesis by simp
  qed
  with look ok show ?thesis by simp
qed

lemma changes_ok_take:
  assumes "changes_ok cs" "c \<in> set cs" "filter (\<lambda>c. sc_effectiveCycle c \<le> n) cs \<noteq> []"
    "sc_effectiveCycle c \<le> n"
  shows "sc_effectiveCycle c \<le> sc_effectiveCycle (last (filter (\<lambda>c. sc_effectiveCycle c \<le> n) cs))"
proof -
  let ?f = "filter (\<lambda>c. sc_effectiveCycle c \<le> n) cs"
  have s: "sorted_wrt (\<lambda>a b. sc_effectiveCycle a < sc_effectiveCycle b) ?f"
    using assms(1) by (simp add: changes_ok_def sorted_wrt_filter)
  have "c \<in> set ?f" using assms(2,4) by simp
  then obtain i where i: "i < length ?f" "?f ! i = c" unfolding in_set_conv_nth by blast
  show ?thesis
  proof (cases "i = length ?f - 1")
    case True
    with i assms(3) show ?thesis by (simp add: last_conv_nth)
  next
    case False
    then have "i < length ?f - 1" using i by simp
    then have "sc_effectiveCycle (?f ! i) < sc_effectiveCycle (?f ! (length ?f - 1))"
      using s by (intro sorted_wrt_nth_less [where P = "\<lambda>a b. sc_effectiveCycle a < sc_effectiveCycle b"]) auto
    with i assms(3) show ?thesis by (simp add: last_conv_nth)
  qed
qed

section \<open>The contiguous paid-through cycle\<close>

lemma contiguous_loop_result:
  "p \<le> contiguous_loop covered p \<and> contiguous_loop covered p \<notin> set covered \<and>
    (\<forall>c. p \<le> c \<and> c < contiguous_loop covered p \<longrightarrow> c \<in> set covered)"
proof (induction covered p rule: contiguous_loop.induct)
  case (1 covered p)
  show ?case
  proof (cases "p \<in> set covered")
    case True
    have eq: "contiguous_loop covered p = contiguous_loop covered (p + 1)"
      using True by (subst contiguous_loop.simps) simp
    have "c \<in> set covered" if "p \<le> c" "c < contiguous_loop covered (p + 1)" for c
      using 1 [OF True] True that by (cases "c = p") auto
    with 1 [OF True] show ?thesis unfolding eq by simp
  next
    case False
    then show ?thesis by (auto simp: contiguous_loop.simps)
  qed
qed

section \<open>The invariant\<close>

text \<open>
  A stored subscription: the dates of the exceptional states are present exactly in those states,
  plan changes are in order with the first of them mirrored in the pending fields, and the paid
  cycles are counted from zero.
\<close>

definition subscription_ok :: "credit_subscription \<Rightarrow> bool" where
  "subscription_ok x \<longleftrightarrow>
     (su_status x = Past_due \<longleftrightarrow> su_pastDueAt x \<noteq> None) \<and>
     (su_status x = Cancelled \<longleftrightarrow> su_cancelledAt x \<noteq> None) \<and>
     0 \<le> su_paidThroughCycle x \<and> changes_ok (su_scheduledChanges x) \<and>
     su_pendingTier x = map_option sc_tier (first_change (su_scheduledChanges x)) \<and>
     su_pendingInterval x = map_option sc_interval (first_change (su_scheduledChanges x)) \<and>
     su_pendingEffectiveCycle x = map_option sc_effectiveCycle (first_change (su_scheduledChanges x)) \<and>
     date_parse (su_anchorAt x) \<noteq> None \<and> date_parse (su_createdAt x) \<noteq> None \<and>
     date_parse (su_updatedAt x) \<noteq> None"

definition period_ok :: "period_facts \<Rightarrow> bool" where
  "period_ok p \<longleftrightarrow> 1 \<le> pf_coverageCycles p \<and>
     (\<forall>c. pf_coverage p = Some c \<longrightarrow> 0 < cov_creditsPerCycle c \<and> is_safe (cov_creditsPerCycle c))"

definition store_ok :: "subscription_store \<Rightarrow> bool" where
  "store_ok s \<longleftrightarrow> distinct (map fst (ss_subscriptions s)) \<and>
     (\<forall>k x. map_of (ss_subscriptions s) k = Some x \<longrightarrow> su_id x = k \<and> subscription_ok x) \<and>
     (\<forall>(k, p) \<in> set (ss_paidPeriods s). period_ok p)"

text \<open>What no call but \<^verbatim>\<open>upsert\<close> changes of a subscription, and what only moves forward.\<close>

definition subscription_identity where
  "subscription_identity x = (su_id x, su_workspaceId x, su_tier x, su_interval x, su_grantCycleOffset x,
     su_grantLineageId x, su_anchorAt x, su_createdAt x)"

definition evolves :: "credit_subscription \<Rightarrow> credit_subscription \<Rightarrow> bool" where
  "evolves x x' \<longleftrightarrow> subscription_identity x' = subscription_identity x \<and>
     su_paidThroughCycle x \<le> su_paidThroughCycle x' \<and> (su_status x = Cancelled \<longrightarrow> su_status x' = Cancelled)"

text \<open>A successful call rewrites one subscription and may record periods.\<close>

definition updates ::
    "string \<Rightarrow> credit_subscription \<Rightarrow> credit_subscription \<Rightarrow> subscription_store \<Rightarrow> subscription_store \<Rightarrow> bool" where
  "updates k x x' s s' \<longleftrightarrow> map_of (ss_subscriptions s) k = Some x \<and>
     ss_subscriptions s' = map_set k x' (ss_subscriptions s) \<and> ss_paymentEvents s' = ss_paymentEvents s \<and>
     (\<forall>(key, p) \<in> set (ss_paidPeriods s'). (key, p) \<in> set (ss_paidPeriods s) \<or> period_ok p)"

definition sound_update :: "subscription_store \<Rightarrow> subscription_store \<Rightarrow> bool" where
  "sound_update s s' \<longleftrightarrow>
     (\<exists>k x x'. updates k x x' s s' \<and> evolves x x' \<and> (subscription_ok x \<longrightarrow> subscription_ok x'))"

lemma evolves_refl [simp]: "evolves x x"
  by (simp add: evolves_def)

lemma put_subscription_fields [simp]:
  "ss_subscriptions (put_subscription k x s) = map_set k x (ss_subscriptions s)"
  "ss_paymentEvents (put_subscription k x s) = ss_paymentEvents s"
  "ss_paidPeriods (put_subscription k x s) = ss_paidPeriods s"
  by (simp_all add: put_subscription_def)

lemma put_period_fields [simp]:
  "ss_subscriptions (put_period k p s) = ss_subscriptions s"
  "ss_paymentEvents (put_period k p s) = ss_paymentEvents s"
  "ss_paidPeriods (put_period k p s) = map_set k p (ss_paidPeriods s)"
  by (simp_all add: put_period_def)

lemma require_Inr [simp]:
  "require_subscription k s = Inr x \<longleftrightarrow> map_of (ss_subscriptions s) k = Some x"
  by (auto simp: require_subscription_def split: option.splits)

lemma sound_update_same: "map_of (ss_subscriptions s) k = Some x \<Longrightarrow> sound_update s s"
  unfolding sound_update_def updates_def by (intro exI [of _ k] exI [of _ x]) (auto simp: map_set_same)

lemma sound_update_put:
  assumes "map_of (ss_subscriptions s) k = Some x" "evolves x x'" "subscription_ok x \<Longrightarrow> subscription_ok x'"
  shows "sound_update s (put_subscription k x' s)"
  unfolding sound_update_def updates_def using assms by (intro exI [of _ k] exI [of _ x] exI [of _ x']) auto

lemma stamp_sound:
  assumes "stamp k y at s = (Inr r, s')" "map_of (ss_subscriptions s) k = Some x"
    and "\<And>t. evolves x (y\<lparr>su_updatedAt := t\<rparr>)"
    and "\<And>t. subscription_ok x \<Longrightarrow> date_parse t \<noteq> None \<Longrightarrow> subscription_ok (y\<lparr>su_updatedAt := t\<rparr>)"
  shows "sound_update s s' \<and> (\<exists>t. iso at = Inr t \<and> r = y\<lparr>su_updatedAt := t\<rparr>)"
proof -
  obtain t where t: "iso at = Inr t" "r = y\<lparr>su_updatedAt := t\<rparr>" "s' = put_subscription k r s"
    using assms(1) by (auto simp: stamp_def Let_def split: sum.splits)
  have "date_parse t \<noteq> None" using iso_Inr [OF t(1)] by blast
  with t assms sound_update_put show ?thesis by metis
qed

lemma recordPaidCoverage_sound:
  assumes "recordPaidCoverage k n at s = (Inr r, s')"
  shows "sound_update s s' \<and> (\<exists>x m. map_of (ss_subscriptions s) k = Some x \<and> n = JInt m \<and>
    su_paidThroughCycle r = max (su_paidThroughCycle x) m \<and> map_of (ss_subscriptions s') k = Some r \<and>
    ss_paidPeriods s' = ss_paidPeriods s \<and> su_anchorAt r = su_anchorAt x \<and> su_id r = su_id x)"
proof -
  obtain x m where x: "map_of (ss_subscriptions s) k = Some x" "n = JInt m" "0 \<le> m" "su_status x \<noteq> Cancelled"
    and st: "stamp k (x\<lparr>su_paidThroughCycle := max (su_paidThroughCycle x) m, su_status := Active,
      su_pastDueAt := None\<rparr>) at s = (Inr r, s')"
    using assms by (auto simp: recordPaidCoverage_def guarded_Inr guarded_unit_Inr assertPaidThroughCycle_Inr split: if_splits)
  have ok: "subscription_ok x \<Longrightarrow> date_parse t \<noteq> None \<Longrightarrow> subscription_ok (x\<lparr>su_paidThroughCycle := max (su_paidThroughCycle x) m,
      su_status := Active, su_pastDueAt := None, su_updatedAt := t\<rparr>)" for t
    using x(4) by (auto simp: subscription_ok_def)
  have "sound_update s s'"
    using stamp_sound [OF st x(1)] ok x(4) by (simp add: evolves_def subscription_identity_def)
  moreover have "su_paidThroughCycle r = max (su_paidThroughCycle x) m" "map_of (ss_subscriptions s') k = Some r"
    "ss_paidPeriods s' = ss_paidPeriods s" "su_anchorAt r = su_anchorAt x" "su_id r = su_id x"
    using st by (auto simp: stamp_def Let_def split: sum.splits)
  ultimately show ?thesis using x by blast
qed

lemma sound_update_stamp:
  assumes "stamp k y at s = (Inr r, s')" "map_of (ss_subscriptions s) k = Some x"
    and "subscription_identity y = subscription_identity x" "su_paidThroughCycle y = su_paidThroughCycle x"
    and "su_status x \<noteq> Cancelled \<or> su_status y = Cancelled"
    and "subscription_ok x \<Longrightarrow> subscription_ok (y\<lparr>su_updatedAt := su_updatedAt x\<rparr>)"
  shows "sound_update s s'"
proof -
  have "evolves x (y\<lparr>su_updatedAt := t\<rparr>)" for t
    using assms(3-5) by (auto simp: evolves_def subscription_identity_def)
  moreover have "subscription_ok (y\<lparr>su_updatedAt := t\<rparr>)" if "subscription_ok x" "date_parse t \<noteq> None" for t
    using assms(6) [OF that(1)] that(2) by (simp add: subscription_ok_def)
  ultimately show ?thesis using stamp_sound [OF assms(1,2)] by blast
qed

lemma resume_sound: "resume k at s = (Inr r, s') \<Longrightarrow> sound_update s s'"
  by (auto simp: resume_def guarded_Inr split: if_splits intro!: sound_update_stamp)
    (auto simp: subscription_identity_def subscription_ok_def)

lemma uncancel_sound: "uncancel k at s = (Inr r, s') \<Longrightarrow> sound_update s s'"
  by (auto simp: uncancel_def guarded_Inr split: if_splits intro!: sound_update_stamp)
    (auto simp: subscription_identity_def subscription_ok_def changes_ok_def first_change_def)

lemma markPastDue_sound:
  assumes "markPastDue k at s = (Inr r, s')"
  shows "sound_update s s'"
proof -
  obtain x where x: "map_of (ss_subscriptions s) k = Some x"
    using assms by (auto simp: markPastDue_def guarded_Inr)
  show ?thesis
  proof (cases "su_status x = Active")
    case True
    obtain t where t: "iso at = Inr t"
      "stamp k (x\<lparr>su_status := Past_due, su_pastDueAt := Some t\<rparr>) at s = (Inr r, s')"
      using assms x True by (auto simp: markPastDue_def guarded_Inr Let_def split: sum.splits)
    from t(2) x show ?thesis
      by (rule sound_update_stamp) (use True in \<open>auto simp: subscription_identity_def subscription_ok_def\<close>)
  next
    case False
    with assms x sound_update_same show ?thesis by (auto simp: markPastDue_def guarded_Inr)
  qed
qed

lemma cancel_now_sound:
  assumes "cancel_now k x at s = (Inr r, s')" "map_of (ss_subscriptions s) k = Some x"
  shows "sound_update s s'"
proof -
  obtain t where t: "stamp k (x\<lparr>su_status := Cancelled, su_pastDueAt := None, su_cancelledAt := Some t\<rparr>) at s = (Inr r, s')"
    using assms(1) by (auto simp: cancel_now_def Let_def split: sum.splits)
  from t assms(2) show ?thesis
    by (rule sound_update_stamp) (auto simp: subscription_identity_def subscription_ok_def)
qed

lemma cancelPastDue_sound: "cancelPastDue k at s = (Inr r, s') \<Longrightarrow> sound_update s s'"
  by (auto simp: cancelPastDue_def guarded_Inr split: if_splits intro: cancel_now_sound sound_update_same)

lemma cancel_sound: "cancel k at s = (Inr r, s') \<Longrightarrow> sound_update s s'"
  by (auto simp: cancel_def guarded_Inr split: if_splits intro: cancel_now_sound sound_update_same)

lemma scheduleChange_sound:
  assumes "scheduleChange inp s = (Inr r, s')"
  shows "sound_update s s'"
proof -
  obtain x cs where x: "map_of (ss_subscriptions s) (ch_subscriptionId inp) = Some x" "su_status x \<noteq> Cancelled"
    and cs: "scheduleSubscriptionChange x inp = Inr cs"
    and st: "stamp (ch_subscriptionId inp)
      (x\<lparr>su_scheduledChanges := cs, su_pendingTier := map_option sc_tier (first_change cs),
         su_pendingInterval := map_option sc_interval (first_change cs),
         su_pendingEffectiveCycle := map_option sc_effectiveCycle (first_change cs)\<rparr>) (ch_at inp) s = (Inr r, s')"
    using assms by (auto simp: scheduleChange_def guarded_Inr Let_def split: if_splits)
  have "changes_ok cs" using normalize_result cs by (auto simp: scheduleSubscriptionChange_def)
  then show ?thesis
    using sound_update_stamp [OF st x(1)] x(2) by (simp add: subscription_identity_def subscription_ok_def)
qed

lemma assertCoverageCycles_Inr: "assertCoverageCycles v = Inr () \<longleftrightarrow> (\<exists>n \<ge> 1. v = JInt n)"
  by (cases v) (auto simp: assertCoverageCycles_def)

lemma paidPeriodFacts_ok: "paidPeriodFacts inp = Inr p \<Longrightarrow> period_ok p"
  by (auto simp: paidPeriodFacts_def r_bind_unit_Inr assertCoverageCycles_Inr period_ok_def checked_coverage_def
      assertCoverage_def number_isSafeInteger_iff split: option.splits)

lemma sound_update_period:
  assumes "sound_update (put_period key p s) s'" "period_ok p"
  shows "sound_update s s'"
proof -
  obtain k x x' where u: "updates k x x' (put_period key p s) s'" "evolves x x'"
    "subscription_ok x \<longrightarrow> subscription_ok x'"
    using assms(1) by (auto simp: sound_update_def)
  have "updates k x x' s s'"
    using u(1) assms(2) set_map_set [of key p "ss_paidPeriods s"] by (fastforce simp: updates_def)
  with u show ?thesis by (auto simp: sound_update_def)
qed

text \<open>The three ways a paid period is taken: not started yet, known already, or new.\<close>

lemma recordPaidPeriod_cases:
  assumes "recordPaidPeriod inp s = (Inr r, s')"
  obtains x start at where "map_of (ss_subscriptions s) (pp_subscriptionId inp) = Some x"
    "iso (pp_periodStartsAt inp) = Inr start" "iso (pp_at inp) = Inr at" "su_status x \<noteq> Cancelled"
    "assertCoverageCycles (pp_coverageCycles inp) = Inr ()" "str_less at start" "r = x" "s' = s"
  | x start at ex where "map_of (ss_subscriptions s) (pp_subscriptionId inp) = Some x"
    "iso (pp_periodStartsAt inp) = Inr start" "iso (pp_at inp) = Inr at" "su_status x \<noteq> Cancelled"
    "assertCoverageCycles (pp_coverageCycles inp) = Inr ()" "\<not> str_less at start"
    "map_of (ss_paidPeriods s) (period_key (pp_subscriptionId inp) start) = Some ex"
    "assertPaidPeriodFacts ex inp = Inr ()" "r = x" "s' = s"
  | x start at p n s1 where "map_of (ss_subscriptions s) (pp_subscriptionId inp) = Some x"
    "iso (pp_periodStartsAt inp) = Inr start" "iso (pp_at inp) = Inr at" "su_status x \<noteq> Cancelled"
    "assertCoverageCycles (pp_coverageCycles inp) = Inr ()" "\<not> str_less at start"
    "map_of (ss_paidPeriods s) (period_key (pp_subscriptionId inp) start) = None" "paidPeriodFacts inp = Inr p"
    "s1 = put_period (period_key (pp_subscriptionId inp) start) p s" "contiguousPaidThroughCycle s1 x = Inr n"
    "if n \<le> su_paidThroughCycle x then r = x \<and> s' = s1
     else recordPaidCoverage (pp_subscriptionId inp) (JInt n) at s1 = (Inr r, s')"
proof -
  obtain x start at where a: "map_of (ss_subscriptions s) (pp_subscriptionId inp) = Some x"
    "iso (pp_periodStartsAt inp) = Inr start" "iso (pp_at inp) = Inr at" "su_status x \<noteq> Cancelled"
    "assertCoverageCycles (pp_coverageCycles inp) = Inr ()"
    using assms by (auto simp: recordPaidPeriod_def guarded_Inr split: if_splits)
  then have req: "require_subscription (pp_subscriptionId inp) s = Inr x" by simp
  let ?key = "period_key (pp_subscriptionId inp) start"
  consider (future) "str_less at start" | (known) ex where "\<not> str_less at start" "map_of (ss_paidPeriods s) ?key = Some ex"
    | (fresh) "\<not> str_less at start" "map_of (ss_paidPeriods s) ?key = None" by blast
  then show thesis
  proof cases
    case future
    with assms a req have "r = x" "s' = s" by (simp_all add: recordPaidPeriod_def)
    then show thesis by (rule that(1) [OF a future])
  next
    case known
    with assms a req have "guarded (assertPaidPeriodFacts ex inp) (\<lambda>_ s. (Inr x, s)) s = (Inr r, s')"
      by (simp add: recordPaidPeriod_def)
    then have "assertPaidPeriodFacts ex inp = Inr ()" "r = x" "s' = s" by (auto simp: guarded_Inr)
    then show thesis by (rule that(2) [OF a known])
  next
    case fresh
    from assms a req fresh obtain p n where f: "paidPeriodFacts inp = Inr p"
      "contiguousPaidThroughCycle (put_period ?key p s) x = Inr n"
      "(if n \<le> su_paidThroughCycle x then (Inr x, put_period ?key p s)
        else recordPaidCoverage (pp_subscriptionId inp) (JInt n) at (put_period ?key p s)) = (Inr r, s')"
      by (auto simp: recordPaidPeriod_def guarded_Inr Let_def)
    from f(3) have "if n \<le> su_paidThroughCycle x then r = x \<and> s' = put_period ?key p s
      else recordPaidCoverage (pp_subscriptionId inp) (JInt n) at (put_period ?key p s) = (Inr r, s')"
      by (auto split: if_splits)
    with f show thesis by (intro that(3) [OF a fresh f(1) refl])
  qed
qed

lemma recordPaidPeriod_sound:
  assumes "recordPaidPeriod inp s = (Inr r, s')"
  shows "sound_update s s'"
  using assms
proof (cases rule: recordPaidPeriod_cases)
  case (3 x start at p n s1)
  have "map_of (ss_subscriptions s1) (pp_subscriptionId inp) = Some x" using 3 by simp
  then have "sound_update s1 s'"
    using 3 sound_update_same recordPaidCoverage_sound by (auto split: if_splits)
  with 3 sound_update_period paidPeriodFacts_ok show ?thesis by blast
qed (use sound_update_same in auto)

lemma recordInitialPaidPeriod_cases:
  assumes "recordInitialPaidPeriod inp s = (Inr r, s')"
  obtains x s1 n where "map_of (ss_subscriptions s) (pp_subscriptionId inp) = Some x"
    "s1 = s \<or> (\<exists>key p. paidPeriodFacts inp = Inr p \<and> s1 = put_period key p s)"
    "contiguousPaidThroughCycle s1 x = Inr n"
    "r = x\<lparr>su_paidThroughCycle := max (su_paidThroughCycle x) n\<rparr>"
    "s' = put_subscription (pp_subscriptionId inp) r s1"
proof -
  obtain x start where x: "map_of (ss_subscriptions s) (pp_subscriptionId inp) = Some x"
    "iso (pp_periodStartsAt inp) = Inr start" "assertCoverageCycles (pp_coverageCycles inp) = Inr ()"
    using assms by (auto simp: recordInitialPaidPeriod_def guarded_Inr)
  then have req: "require_subscription (pp_subscriptionId inp) s = Inr x" by simp
  let ?key = "period_key (pp_subscriptionId inp) start"
  let ?note = "case map_of (ss_paidPeriods s) ?key of
      Some existing \<Rightarrow> guarded (assertPaidPeriodFacts existing inp) (\<lambda>_ s. (Inr (), s))
    | None \<Rightarrow> guarded (paidPeriodFacts inp) (\<lambda>facts s. (Inr (), put_period ?key facts s))"
  obtain s1 where noted: "?note s = (Inr (), s1)"
    and rest: "guarded (contiguousPaidThroughCycle s1 x) (\<lambda>n s1.
      let updated = x\<lparr>su_paidThroughCycle := max (su_paidThroughCycle x) n\<rparr>
      in (Inr updated, put_subscription (pp_subscriptionId inp) updated s1)) s1 = (Inr r, s')"
    using assms x req by (auto simp: recordInitialPaidPeriod_def op_bind_Inr Let_def)
  have "s1 = s \<or> (\<exists>key p. paidPeriodFacts inp = Inr p \<and> s1 = put_period key p s)"
    using noted by (auto simp: guarded_Inr split: option.splits)
  moreover obtain n where "contiguousPaidThroughCycle s1 x = Inr n"
    "r = x\<lparr>su_paidThroughCycle := max (su_paidThroughCycle x) n\<rparr>"
    "s' = put_subscription (pp_subscriptionId inp) r s1"
    using rest by (auto simp: guarded_Inr Let_def)
  ultimately show thesis by (rule that [OF x(1)])
qed

lemma recordInitialPaidPeriod_sound:
  assumes "recordInitialPaidPeriod inp s = (Inr r, s')"
  shows "sound_update s s'"
proof -
  obtain x s1 n where x: "map_of (ss_subscriptions s) (pp_subscriptionId inp) = Some x"
    and s1: "s1 = s \<or> (\<exists>key p. paidPeriodFacts inp = Inr p \<and> s1 = put_period key p s)"
    and s': "s' = put_subscription (pp_subscriptionId inp) (x\<lparr>su_paidThroughCycle := max (su_paidThroughCycle x) n\<rparr>) s1"
    using assms by (rule recordInitialPaidPeriod_cases) auto
  have x1: "map_of (ss_subscriptions s1) (pp_subscriptionId inp) = Some x" using s1 x by auto
  have "sound_update s1 s'"
    unfolding s' by (rule sound_update_put [OF x1]) (auto simp: evolves_def subscription_identity_def subscription_ok_def)
  with s1 sound_update_period paidPeriodFacts_ok show ?thesis by blast
qed

section \<open>Replacement and upsert\<close>

lemma copy_fold:
  "ss_subscriptions (fold (\<lambda>(st, p). put_period (period_key t st) p) ps s) = ss_subscriptions s \<and>
   ss_paymentEvents (fold (\<lambda>(st, p). put_period (period_key t st) p) ps s) = ss_paymentEvents s \<and>
   (\<forall>(k, p) \<in> set (ss_paidPeriods (fold (\<lambda>(st, p). put_period (period_key t st) p) ps s)).
      (k, p) \<in> set (ss_paidPeriods s) \<or> p \<in> snd ` set ps)"
proof (induction ps arbitrary: s)
  case Nil
  then show ?case by simp
next
  case (Cons e ps)
  obtain st q where e: "e = (st, q)" by (cases e)
  from Cons.IH [of "put_period (period_key t st) q s"] set_map_set [of "period_key t st" q "ss_paidPeriods s"]
  show ?case by (fastforce simp: e)
qed

lemma periods_of_snd: "snd ` set (periods_of k s) \<subseteq> snd ` set (ss_paidPeriods s)"
  by (force simp: periods_of_def)

lemma copy_periods_fields:
  "ss_subscriptions (copy_periods a b s) = ss_subscriptions s"
  "ss_paymentEvents (copy_periods a b s) = ss_paymentEvents s"
  "(k, p) \<in> set (ss_paidPeriods (copy_periods a b s)) \<Longrightarrow> \<exists>k'. (k', p) \<in> set (ss_paidPeriods s)"
  using copy_fold [of b "periods_of a s" s] periods_of_snd [of a s] unfolding copy_periods_def by fastforce+

lemma replaceSubscription_cases:
  assumes "replaceSubscription inp s = (Inr r, s')"
  obtains x at where "map_of (ss_subscriptions s) (rs_sourceSubscriptionId inp) = Some x"
    "map_of (ss_subscriptions s) (rs_targetSubscriptionId inp) = None" "iso (rs_at inp) = Inr at"
    "r = x\<lparr>su_pastDueAt := None, su_id := rs_targetSubscriptionId inp, su_status := Active,
           su_cancelledAt := None, su_updatedAt := at\<rparr>"
    "s' = copy_periods (rs_sourceSubscriptionId inp) (rs_targetSubscriptionId inp)
       (put_subscription (rs_targetSubscriptionId inp) r
         (put_subscription (rs_sourceSubscriptionId inp) (x\<lparr>su_status := Cancelled, su_pastDueAt := None,
            su_cancelledAt := Some at, su_updatedAt := at\<rparr>) s))"
  using assms by (auto simp: replaceSubscription_def guarded_Inr Let_def split: if_splits)

lemma sound_update_store_ok:
  assumes "sound_update s s'" "store_ok s"
  shows "store_ok s'"
proof -
  obtain k x x' where u: "updates k x x' s s'" "evolves x x'" "subscription_ok x \<longrightarrow> subscription_ok x'"
    using assms(1) by (auto simp: sound_update_def)
  have "su_id x' = su_id x" using u(2) by (simp add: evolves_def subscription_identity_def)
  with u assms(2) show ?thesis
    unfolding store_ok_def updates_def by (auto simp: distinct_map_set)
qed

lemma replace_store_ok:
  assumes "replaceSubscription inp s = (Inr r, s')" "store_ok s"
  shows "store_ok s'"
  using assms(1)
proof (cases rule: replaceSubscription_cases)
  case (1 x at)
  have x: "su_id x = rs_sourceSubscriptionId inp" "subscription_ok x" using 1(1) assms(2) by (auto simp: store_ok_def)
  have at: "date_parse at \<noteq> None" using iso_Inr [OF 1(3)] by blast
  have subs: "ss_subscriptions s' = map_set (rs_targetSubscriptionId inp) r (map_set (rs_sourceSubscriptionId inp)
      (x\<lparr>su_status := Cancelled, su_pastDueAt := None, su_cancelledAt := Some at, su_updatedAt := at\<rparr>) (ss_subscriptions s))"
    using 1(5) by (simp add: copy_periods_fields)
  have "subscription_ok r"
    "subscription_ok (x\<lparr>su_status := Cancelled, su_pastDueAt := None, su_cancelledAt := Some at, su_updatedAt := at\<rparr>)"
    using x(2) at by (simp_all add: 1(4) subscription_ok_def)
  moreover have "period_ok p" if "(k, p) \<in> set (ss_paidPeriods s')" for k p
    using that copy_periods_fields(3) assms(2) unfolding 1(5) store_ok_def by fastforce
  ultimately show ?thesis
    using assms(2) x(1) 1(4) unfolding store_ok_def subs by (auto simp: distinct_map_set)
qed

lemma assertSubscriptionInput_Inr:
  assumes "assertSubscriptionInput inp = Inr ()"
  shows "\<exists>n \<ge> 0. si_paidThroughCycle inp = JInt n"
    and "si_status inp = Some Past_due \<longleftrightarrow> truthy (si_pastDueAt inp) \<noteq> None"
    and "si_status inp = Some Cancelled \<longleftrightarrow> truthy (si_cancelledAt inp) \<noteq> None"
  using assms
  by (auto simp: assertSubscriptionInput_def r_bind_Inr_iff assertPaidThroughCycle_Inr split: if_splits)

lemma iso_parses: "iso v = Inr w \<Longrightarrow> date_parse w \<noteq> None"
  by (erule iso_Inr) simp

lemma optional_iso_Inr: "optional_iso v = Inr w \<Longrightarrow> w = None \<longleftrightarrow> truthy v = None"
  by (auto simp: optional_iso_def r_bind_Inr_iff split: option.splits)

lemma built_subscription_ok:
  assumes "built_subscription inp existing = Inr x" "assertSubscriptionInput inp = Inr ()"
    "\<And>y. existing = Some y \<Longrightarrow> subscription_ok y"
  shows "subscription_ok x" "su_id x = si_id inp"
proof -
  obtain cs anchorAt pastDueAt cancelledAt createdAt updatedAt where
    cs: "changes_to_store inp existing = Inr cs" and anchor: "iso (si_anchorAt inp) = Inr anchorAt"
    and due: "optional_iso (si_pastDueAt inp) = Inr pastDueAt" and can: "optional_iso (si_cancelledAt inp) = Inr cancelledAt"
    and cre: "(case existing of Some x \<Rightarrow> Inr (su_createdAt x)
      | None \<Rightarrow> iso (orElse (si_createdAt inp) (si_anchorAt inp))) = Inr createdAt"
    and upd: "iso (orElse (si_updatedAt inp) (si_anchorAt inp)) = Inr updatedAt"
    and x: "x = \<lparr> su_id = si_id inp, su_workspaceId = si_workspaceId inp, su_tier = si_tier inp,
            su_interval = si_interval inp, su_pendingTier = map_option sc_tier (first_change cs),
            su_pendingInterval = map_option sc_interval (first_change cs),
            su_pendingEffectiveCycle = map_option sc_effectiveCycle (first_change cs),
            su_scheduledChanges = cs,
            su_grantCycleOffset = orElse (si_grantCycleOffset inp) 0,
            su_grantLineageId =
              orElse (si_grantLineageId inp)
                (case existing of Some x \<Rightarrow> su_grantLineageId x | None \<Rightarrow> si_id inp),
            su_anchorAt = anchorAt, su_paidThroughCycle = int_of (si_paidThroughCycle inp),
            su_status = orElse (si_status inp) Active, su_pastDueAt = pastDueAt,
            su_cancelledAt = cancelledAt, su_createdAt = createdAt, su_updatedAt = updatedAt,
            su_settlementStatus = None \<rparr>"
    using assms(1) by (auto simp: built_subscription_def r_bind_Inr_iff Let_def)
  have "changes_ok cs" using normalize_result cs by (auto simp: changes_to_store_def)
  moreover have "date_parse anchorAt \<noteq> None" "date_parse updatedAt \<noteq> None"
    using iso_parses [OF anchor] iso_parses [OF upd] by simp_all
  moreover have "date_parse createdAt \<noteq> None"
    using cre assms(3) iso_parses by (auto simp: subscription_ok_def split: option.splits)
  moreover have "orElse (si_status inp) Active = Past_due \<longleftrightarrow> pastDueAt \<noteq> None"
    "orElse (si_status inp) Active = Cancelled \<longleftrightarrow> cancelledAt \<noteq> None"
    using assertSubscriptionInput_Inr(2,3) [OF assms(2)] optional_iso_Inr [OF due] optional_iso_Inr [OF can]
    by (auto simp: orElse_def split: option.splits)
  ultimately show "subscription_ok x"
    using assertSubscriptionInput_Inr(1) [OF assms(2)] by (auto simp: x subscription_ok_def)
  show "su_id x = si_id inp" by (simp add: x)
qed

lemma upsert_store_ok:
  assumes "upsert inp s = (Inr r, s')" "store_ok s"
  shows "store_ok s'"
proof -
  have inp: "assertSubscriptionInput inp = Inr ()"
    and built: "built_subscription inp (map_of (ss_subscriptions s) (si_id inp)) = Inr r"
    and s': "s' = put_subscription (si_id inp) r s"
    using assms(1) by (auto simp: upsert_def guarded_Inr Let_def split: if_splits)
  have "subscription_ok r" "su_id r = si_id inp"
    using built_subscription_ok [OF built inp] assms(2) by (auto simp: store_ok_def)
  with assms(2) show ?thesis unfolding store_ok_def s' by (auto simp: distinct_map_set)
qed

section \<open>Runs\<close>

text \<open>A successful call of a method of the store, \<^verbatim>\<open>upsert\<close> apart.\<close>

inductive sub_call :: "subscription_store \<Rightarrow> subscription_store \<Rightarrow> bool" where
  call_coverage: "recordPaidCoverage k n at s = (Inr r, s') \<Longrightarrow> sub_call s s'"
| call_period: "recordPaidPeriod inp s = (Inr r, s') \<Longrightarrow> sub_call s s'"
| call_initial: "recordInitialPaidPeriod inp s = (Inr r, s') \<Longrightarrow> sub_call s s'"
| call_replace: "replaceSubscription rinp s = (Inr r, s') \<Longrightarrow> sub_call s s'"
| call_resume: "resume k at s = (Inr r, s') \<Longrightarrow> sub_call s s'"
| call_uncancel: "uncancel k at s = (Inr r, s') \<Longrightarrow> sub_call s s'"
| call_past_due: "markPastDue k at s = (Inr r, s') \<Longrightarrow> sub_call s s'"
| call_cancel_past_due: "cancelPastDue k at s = (Inr r, s') \<Longrightarrow> sub_call s s'"
| call_cancel: "cancel k at s = (Inr r, s') \<Longrightarrow> sub_call s s'"
| call_change: "scheduleChange cinp s = (Inr r, s') \<Longrightarrow> sub_call s s'"

inductive sub_run :: "subscription_store \<Rightarrow> subscription_store \<Rightarrow> bool" where
  sub_refl: "sub_run s s"
| sub_step: "sub_run s s1 \<Longrightarrow> sub_call s1 s2 \<Longrightarrow> sub_run s s2"
| sub_upsert: "sub_run s s1 \<Longrightarrow> upsert inp s1 = (Inr r, s2) \<Longrightarrow> sub_run s s2"

lemmas call_sound = recordPaidCoverage_sound recordPaidPeriod_sound recordInitialPaidPeriod_sound resume_sound
  uncancel_sound markPastDue_sound cancelPastDue_sound cancel_sound scheduleChange_sound

lemma sub_call_cases: "sub_call s s' \<Longrightarrow> sound_update s s' \<or> (\<exists>inp r. replaceSubscription inp s = (Inr r, s'))"
  by (erule sub_call.cases) (auto dest: call_sound)

lemma sub_call_store_ok: "sub_call s s' \<Longrightarrow> store_ok s \<Longrightarrow> store_ok s'"
  using sub_call_cases sound_update_store_ok replace_store_ok by blast

lemma store_ok_empty: "store_ok empty_subscription_store"
  by (simp add: store_ok_def empty_subscription_store_def)

lemma sub_run_store_ok: "sub_run s s' \<Longrightarrow> store_ok s \<Longrightarrow> store_ok s'"
  by (induction rule: sub_run.induct) (auto intro: sub_call_store_ok upsert_store_ok)

lemma sub_call_evolves:
  assumes "sub_call s s'" "map_of (ss_subscriptions s) k = Some x"
  shows "\<exists>x'. map_of (ss_subscriptions s') k = Some x' \<and> evolves x x'"
  using sub_call_cases [OF assms(1)]
proof
  assume "sound_update s s'"
  then show ?thesis using assms(2) by (auto simp: sound_update_def updates_def)
next
  assume "\<exists>inp r. replaceSubscription inp s = (Inr r, s')"
  then obtain inp r where "replaceSubscription inp s = (Inr r, s')" by blast
  then show ?thesis
  proof (cases rule: replaceSubscription_cases)
    case (1 y at)
    then show ?thesis using assms(2)
      by (auto simp: copy_periods_fields evolves_def subscription_identity_def)
  qed
qed

section \<open>Which change is in force\<close>

lemma changesFor_ok:
  assumes "subscription_ok x"
  shows "changesFor x = su_scheduledChanges x"
  using assms by (auto simp: changesFor_def subscription_ok_def first_change_def legacyScheduledChanges_def)

lemma changes_ok_distinct: "changes_ok cs \<Longrightarrow> distinct (map sc_effectiveCycle cs)"
proof -
  assume "changes_ok cs"
  then have "sorted_wrt (<) (map sc_effectiveCycle cs)" by (simp add: changes_ok_def sorted_wrt_map)
  then show ?thesis by (simp only: strict_sorted_iff)
qed

lemma scheduledChange_latest:
  assumes "changes_ok (changesFor x)" "c \<in> set (changesFor x)" "sc_effectiveCycle c \<le> n"
    and "\<forall>d \<in> set (changesFor x). sc_effectiveCycle d \<le> n \<longrightarrow> sc_effectiveCycle d \<le> sc_effectiveCycle c"
  shows "scheduledChangeForCycle x n = Some c"
proof -
  let ?f = "filter (\<lambda>c. sc_effectiveCycle c \<le> n) (changesFor x)"
  have ne: "?f \<noteq> []" using assms(2,3) by (auto simp: filter_empty_conv)
  then have l: "last ?f \<in> set ?f" by (rule last_in_set)
  have "sc_effectiveCycle c = sc_effectiveCycle (last ?f)"
  proof (rule order_antisym)
    show "sc_effectiveCycle c \<le> sc_effectiveCycle (last ?f)"
      by (rule changes_ok_take [OF assms(1,2) ne assms(3)])
    show "sc_effectiveCycle (last ?f) \<le> sc_effectiveCycle c" using l assms(4) by auto
  qed
  then have "last ?f = c"
    using l assms(2) changes_ok_distinct [OF assms(1)] by (auto simp: distinct_map inj_on_def)
  with ne show ?thesis by (simp add: scheduledChangeForCycle_def)
qed

lemma scheduledChange_is_latest:
  assumes "changes_ok (changesFor x)" "scheduledChangeForCycle x n = Some c"
  shows "c \<in> set (changesFor x)" "sc_effectiveCycle c \<le> n"
    and "\<forall>d \<in> set (changesFor x). sc_effectiveCycle d \<le> n \<longrightarrow> sc_effectiveCycle d \<le> sc_effectiveCycle c"
proof -
  let ?f = "filter (\<lambda>c. sc_effectiveCycle c \<le> n) (changesFor x)"
  have c: "?f \<noteq> []" "c = last ?f" using assms(2) by (auto simp: scheduledChangeForCycle_def Let_def split: if_splits)
  then have "c \<in> set ?f" using last_in_set by blast
  then show "c \<in> set (changesFor x)" "sc_effectiveCycle c \<le> n" by simp_all
  show "\<forall>d \<in> set (changesFor x). sc_effectiveCycle d \<le> n \<longrightarrow> sc_effectiveCycle d \<le> sc_effectiveCycle c"
    using changes_ok_take [OF assms(1) _ c(1)] c(2) by simp
qed

text \<open>Two subscriptions whose changes agree up to a cycle have the same change in force there.\<close>

lemma scheduledChange_agree:
  assumes "changes_ok (changesFor x)" "changes_ok (changesFor y)"
    and "\<And>d. sc_effectiveCycle d \<le> n \<Longrightarrow> d \<in> set (changesFor x) \<longleftrightarrow> d \<in> set (changesFor y)"
  shows "scheduledChangeForCycle x n = scheduledChangeForCycle y n"
proof (cases "scheduledChangeForCycle x n")
  case None
  then have "\<forall>d \<in> set (changesFor y). \<not> sc_effectiveCycle d \<le> n"
    using assms(3) by (auto simp: scheduledChangeForCycle_def Let_def filter_empty_conv split: if_splits)
  with None show ?thesis by (auto simp: scheduledChangeForCycle_def filter_empty_conv)
next
  case (Some c)
  note c = scheduledChange_is_latest [OF assms(1) Some]
  have "scheduledChangeForCycle y n = Some c"
    by (rule scheduledChange_latest [OF assms(2)]) (use c assms(3) in auto)
  with Some show ?thesis by simp
qed

lemma checked_as_input [simp]: "checked_change (as_input_change c) = c"
  by (simp add: checked_change_def as_input_change_def)

lemma as_input_cycle [simp]: "sc_effectiveCycle (as_input_change c) = JInt (sc_effectiveCycle c)"
  by (simp add: as_input_change_def)

lemma last_change_append:
  "last_change (cs @ [c]) n = (if sc_effectiveCycle c = JInt n then Some (checked_change c) else last_change cs n)"
  by (induction cs) (auto split: option.splits)

lemma last_change_filter:
  "last_change (filter (\<lambda>c. sc_effectiveCycle c \<noteq> JInt m) (map as_input_change cs)) n =
    (if n = m then None else last_change (map as_input_change cs) n)"
  by (induction cs) (auto split: option.splits)

lemma last_change_of_ok:
  assumes "changes_ok cs"
  shows "last_change (map as_input_change cs) n = find (\<lambda>d. sc_effectiveCycle d = n) cs"
  using changes_ok_distinct [OF assms]
proof (induction cs)
  case Nil
  then show ?case by simp
next
  case (Cons c cs)
  show ?case
  proof (cases "sc_effectiveCycle c = n")
    case True
    then have "find (\<lambda>d. sc_effectiveCycle d = n) cs = None"
      using Cons.prems by (auto simp: find_None_iff image_iff)
    with Cons True show ?thesis by simp
  next
    case False
    with Cons show ?thesis by (auto split: option.splits)
  qed
qed

lemma find_mem:
  assumes "changes_ok cs"
  shows "d \<in> set cs \<longleftrightarrow> find (\<lambda>e. sc_effectiveCycle e = sc_effectiveCycle d) cs = Some d"
proof
  assume d: "d \<in> set cs"
  then obtain e where e: "find (\<lambda>e. sc_effectiveCycle e = sc_effectiveCycle d) cs = Some e"
    by (cases "find (\<lambda>e. sc_effectiveCycle e = sc_effectiveCycle d) cs") (auto simp: find_None_iff)
  then have "e \<in> set cs" "sc_effectiveCycle e = sc_effectiveCycle d" by (auto simp: find_Some_iff)
  with d changes_ok_distinct [OF assms] have "e = d" by (auto simp: distinct_map inj_on_def)
  with e show "find (\<lambda>e. sc_effectiveCycle e = sc_effectiveCycle d) cs = Some d" by simp
qed (auto simp: find_Some_iff)

lemma scheduleSubscriptionChange_mem:
  assumes "subscription_ok x" "ch_effectiveCycle inp = JInt n" "scheduleSubscriptionChange x inp = Inr cs"
  shows "changes_ok cs"
    and "d \<in> set cs \<longleftrightarrow> (if sc_effectiveCycle d = n
      then d = \<lparr>sc_tier = ch_tier inp, sc_interval = ch_interval inp, sc_effectiveCycle = n\<rparr>
      else d \<in> set (su_scheduledChanges x))"
proof -
  have ok: "changes_ok (su_scheduledChanges x)" using assms(1) by (simp add: subscription_ok_def)
  note r = normalize_result [OF assms(3) [unfolded scheduleSubscriptionChange_def]]
  then show cs: "changes_ok cs" by simp
  show "d \<in> set cs \<longleftrightarrow> (if sc_effectiveCycle d = n
      then d = \<lparr>sc_tier = ch_tier inp, sc_interval = ch_interval inp, sc_effectiveCycle = n\<rparr>
      else d \<in> set (su_scheduledChanges x))"
    unfolding find_mem [OF cs, of d] find_mem [OF ok, of d] using r
    by (auto simp: last_change_append last_change_filter assms(2) changesFor_ok [OF assms(1)]
        last_change_of_ok [OF ok] checked_change_def)
qed

end
