(* ===== verification/CreditSubscriptionProps.thy ===== *)
theory CreditSubscriptionProps
  imports CreditSubscriptionCorrect
begin

text \<open>The properties of the subscription store, each with an instance on a concrete store.\<close>

section \<open>A sample store\<close>

definition sample_anchor :: string where "sample_anchor = ''2026-01-31T08:00:00.000Z''"
definition sample_march :: string where "sample_march = ''2026-03-01T00:00:00.000Z''"

definition sample_subscription :: "string \<Rightarrow> subscription_input" where
  "sample_subscription k =
     \<lparr> si_id = k, si_workspaceId = ''w'', si_tier = Growth, si_interval = Monthly, si_pendingTier = None,
       si_pendingInterval = None, si_pendingEffectiveCycle = None, si_scheduledChanges = None,
       si_grantCycleOffset = None, si_grantLineageId = None, si_anchorAt = sample_anchor,
       si_paidThroughCycle = JInt 0, si_status = None, si_pastDueAt = None, si_cancelledAt = None,
       si_createdAt = None, si_updatedAt = None \<rparr>"

definition sample_store :: subscription_store where
  "sample_store = snd (upsert (sample_subscription ''sub'') empty_subscription_store)"

definition sample_stored :: credit_subscription where
  "sample_stored =
     \<lparr> su_id = ''sub'', su_workspaceId = ''w'', su_tier = Growth, su_interval = Monthly,
       su_pendingTier = None, su_pendingInterval = None, su_pendingEffectiveCycle = None,
       su_scheduledChanges = [], su_grantCycleOffset = 0, su_grantLineageId = ''sub'',
       su_anchorAt = sample_anchor, su_paidThroughCycle = 0, su_status = Active, su_pastDueAt = None,
       su_cancelledAt = None, su_createdAt = sample_anchor, su_updatedAt = sample_anchor,
       su_settlementStatus = None \<rparr>"

definition sample_period :: "int \<Rightarrow> paid_period_input" where
  "sample_period n =
     \<lparr> pp_subscriptionId = ''sub'', pp_periodStartsAt = sample_anchor, pp_coverageCycles = JInt n,
       pp_coverage = Some \<lparr>cov_creditsPerCycle = JInt 100, cov_interval = Monthly, cov_tier = Growth\<rparr>,
       pp_at = sample_march \<rparr>"

lemma sample_iso: "iso sample_anchor = Inr sample_anchor" "iso sample_march = Inr sample_march"
  by code_simp+

lemma sample_upsert:
  "upsert (sample_subscription ''sub'') empty_subscription_store = (Inr sample_stored, sample_store)"
proof -
  have "upsert (sample_subscription ''sub'') empty_subscription_store =
    (Inr sample_stored, put_subscription ''sub'' sample_stored empty_subscription_store)" by code_simp
  then show ?thesis by (simp add: sample_store_def)
qed

lemma sample_store_eq: "sample_store = \<lparr>ss_subscriptions = [(''sub'', sample_stored)], ss_paymentEvents = [], ss_paidPeriods = []\<rparr>"
  by code_simp

lemma sample_run: "sub_run empty_subscription_store sample_store"
  by (rule sub_upsert [OF sub_refl sample_upsert])

section \<open>Properties\<close>

text \<open>
  Every stored subscription is well formed: after any sequence of successful calls on an empty
  store each subscription is filed under its own identifier, is past due exactly when it has a
  past-due date and cancelled exactly when it has a cancellation date, has paid for a non-negative
  number of cycles, and its plan changes are strictly ordered by their effective cycle with the
  first of them mirrored in the pending fields.
\<close>

theorem subscription_store_invariant:
  assumes "sub_run empty_subscription_store s" and "map_of (ss_subscriptions s) k = Some x"
  shows "su_id x = k \<and> (su_status x = Past_due \<longleftrightarrow> su_pastDueAt x \<noteq> None) \<and>
    (su_status x = Cancelled \<longleftrightarrow> su_cancelledAt x \<noteq> None) \<and> 0 \<le> su_paidThroughCycle x \<and>
    sorted_wrt (\<lambda>a b. sc_effectiveCycle a < sc_effectiveCycle b) (su_scheduledChanges x) \<and>
    su_pendingEffectiveCycle x = map_option sc_effectiveCycle (first_change (su_scheduledChanges x))"
  using sub_run_store_ok [OF assms(1) store_ok_empty] assms(2)
  by (auto simp: store_ok_def subscription_ok_def changes_ok_def)

theorem subscription_store_invariant_witness:
  "\<exists>r s. cancel ''sub'' sample_march sample_store = (Inr r, s) \<and> su_status r = Cancelled \<and> su_cancelledAt r \<noteq> None"
proof -
  let ?x = "sample_stored\<lparr>su_status := Cancelled, su_pastDueAt := None, su_cancelledAt := Some sample_march, su_updatedAt := sample_march\<rparr>"
  have run: "cancel ''sub'' sample_march sample_store = (Inr ?x, put_subscription ''sub'' ?x sample_store)"
    by (simp add: cancel_def require_subscription_def sample_store_eq cancel_now_def sample_iso stamp_def
        put_subscription_def sample_stored_def Let_def)
  have "sub_run empty_subscription_store (put_subscription ''sub'' ?x sample_store)"
    by (rule sub_step [OF sample_run]) (rule call_cancel [OF run])
  from subscription_store_invariant [OF this, of "''sub''" ?x] run show ?thesis by simp
qed

text \<open>
  What any call leaves, whether it returns or throws: the methods assign fields of the stored object
  before the statement that throws, and those assignments stay.
\<close>

inductive sub_attempt :: "subscription_store \<Rightarrow> subscription_store \<Rightarrow> bool" where
  try_coverage: "sub_attempt s (snd (recordPaidCoverage k n at s))"
| try_period: "sub_attempt s (snd (recordPaidPeriod inp s))"
| try_initial: "sub_attempt s (snd (recordInitialPaidPeriod inp s))"
| try_replace: "sub_attempt s (snd (replaceSubscription rinp s))"
| try_resume: "sub_attempt s (snd (resume k at s))"
| try_uncancel: "sub_attempt s (snd (uncancel k at s))"
| try_past_due: "sub_attempt s (snd (markPastDue k at s))"
| try_cancel_past_due: "sub_attempt s (snd (cancelPastDue k at s))"
| try_cancel: "sub_attempt s (snd (cancel k at s))"
| try_change: "sub_attempt s (snd (scheduleChange cinp s))"

definition all_evolve :: "subscription_store \<Rightarrow> subscription_store \<Rightarrow> bool" where
  "all_evolve s s' \<longleftrightarrow>
     (\<forall>k x. map_of (ss_subscriptions s) k = Some x \<longrightarrow>
        (\<exists>x'. map_of (ss_subscriptions s') k = Some x' \<and> evolves x x'))"

lemma evolves_stamped [simp]: "evolves x (y\<lparr>su_updatedAt := t\<rparr>) = evolves x y"
  by (simp add: evolves_def subscription_identity_def)

lemma all_evolve_same: "ss_subscriptions s' = ss_subscriptions s \<Longrightarrow> all_evolve s s'"
  by (auto simp: all_evolve_def)

lemma all_evolve_put:
  "ss_subscriptions s' = ss_subscriptions s \<Longrightarrow> map_of (ss_subscriptions s) k = Some x \<Longrightarrow> evolves x y \<Longrightarrow>
   all_evolve s (put_subscription k y s')"
  by (auto simp: all_evolve_def put_subscription_def)

lemma all_evolve_stamp:
  "ss_subscriptions s' = ss_subscriptions s \<Longrightarrow> map_of (ss_subscriptions s) k = Some x \<Longrightarrow> evolves x y \<Longrightarrow>
   all_evolve s (snd (stamp k y at s'))"
  by (auto simp: stamp_def Let_def all_evolve_put split: sum.splits)

lemma all_evolve_guarded:
  assumes "ss_subscriptions s' = ss_subscriptions s"
    and "\<And>a. r = Inr a \<Longrightarrow> all_evolve s (snd (f a s'))"
  shows "all_evolve s (snd (guarded r f s'))"
  using assms by (cases r) (auto simp: all_evolve_same)

lemma coverage_evolves:
  assumes "ss_subscriptions s' = ss_subscriptions s"
  shows "all_evolve s (snd (recordPaidCoverage k n at s'))"
  unfolding recordPaidCoverage_def using assms
  by (intro all_evolve_guarded all_evolve_stamp) (auto simp: evolves_def subscription_identity_def)

lemma period_evolves: "all_evolve s (snd (recordPaidPeriod inp s))"
  unfolding recordPaidPeriod_def Let_def
  by (intro all_evolve_guarded refl)
    (auto simp: all_evolve_same put_period_def coverage_evolves split: option.splits intro!: all_evolve_guarded)

lemma initial_evolves: "all_evolve s (snd (recordInitialPaidPeriod inp s))"
proof (cases "recordInitialPaidPeriod inp s")
  case (Pair r s')
  show ?thesis
  proof (cases r)
    case (Inl e)
    then have "ss_subscriptions s' = ss_subscriptions s"
      using Pair by (auto simp: recordInitialPaidPeriod_def guarded_def op_bind_def Let_def put_period_def
          split: sum.splits option.splits)
    with Pair show ?thesis by (simp add: all_evolve_same)
  next
    case (Inr x)
    with Pair sub_call_evolves [OF call_initial] show ?thesis by (auto simp: all_evolve_def)
  qed
qed

lemma replace_evolves: "all_evolve s (snd (replaceSubscription inp s))"
proof (cases "replaceSubscription inp s")
  case (Pair r s')
  show ?thesis
  proof (cases r)
    case (Inl e)
    then have "s' = s" using Pair by (auto simp: replaceSubscription_def guarded_def Let_def split: sum.splits)
    with Pair show ?thesis by (simp add: all_evolve_same)
  next
    case (Inr x)
    with Pair sub_call_evolves [OF call_replace] show ?thesis by (auto simp: all_evolve_def)
  qed
qed

lemma cancel_now_evolves:
  "map_of (ss_subscriptions s) k = Some x \<Longrightarrow> all_evolve s (snd (cancel_now k x at s))"
  by (auto simp: cancel_now_def Let_def evolves_def subscription_identity_def split: sum.splits
      intro!: all_evolve_put all_evolve_stamp)

lemma sub_attempt_evolves: "sub_attempt s s' \<Longrightarrow> all_evolve s s'"
proof (induction rule: sub_attempt.induct)
  case (try_coverage s k n at)
  show ?case by (rule coverage_evolves) simp
next
  case (try_resume s k at)
  show ?case unfolding resume_def
    by (intro all_evolve_guarded all_evolve_stamp) (auto simp: evolves_def subscription_identity_def)
next
  case (try_uncancel s k at)
  show ?case unfolding uncancel_def
    by (intro all_evolve_guarded all_evolve_stamp) (auto simp: evolves_def subscription_identity_def)
next
  case (try_past_due s k at)
  show ?case unfolding markPastDue_def Let_def
    by (intro all_evolve_guarded)
      (auto simp: all_evolve_same evolves_def subscription_identity_def split: sum.splits
        intro!: all_evolve_put all_evolve_stamp)
next
  case (try_cancel_past_due s k at)
  show ?case unfolding cancelPastDue_def
    by (intro all_evolve_guarded) (auto simp: all_evolve_same cancel_now_evolves)
next
  case (try_cancel s k at)
  show ?case unfolding cancel_def
    by (intro all_evolve_guarded) (auto simp: all_evolve_same cancel_now_evolves)
next
  case (try_change s cinp)
  show ?case unfolding scheduleChange_def Let_def
    by (intro all_evolve_guarded all_evolve_stamp) (auto simp: evolves_def subscription_identity_def)
qed (rule period_evolves initial_evolves replace_evolves)+

text \<open>
  C28. Subscriptions only move forward: no call of a method other than \<^verbatim>\<open>upsert\<close>, neither one that
  returns nor one that throws after some of its assignments, removes a subscription, changes its
  identity, workspace, plan, anchor or grant lineage, takes a paid cycle back, or revives a cancelled
  one.
\<close>

theorem subscriptions_only_move_forward:
  assumes "sub_attempt s s'" and "map_of (ss_subscriptions s) k = Some x"
  shows "\<exists>x'. map_of (ss_subscriptions s') k = Some x' \<and>
    (su_id x', su_workspaceId x', su_tier x', su_interval x', su_grantCycleOffset x', su_grantLineageId x',
      su_anchorAt x', su_createdAt x') = (su_id x, su_workspaceId x, su_tier x, su_interval x,
      su_grantCycleOffset x, su_grantLineageId x, su_anchorAt x, su_createdAt x) \<and>
    su_paidThroughCycle x \<le> su_paidThroughCycle x' \<and>
    (su_status x = Cancelled \<longrightarrow> su_status x' = Cancelled)"
  using sub_attempt_evolves [OF assms(1)] assms(2)
  by (fastforce simp: all_evolve_def evolves_def subscription_identity_def)

theorem subscriptions_only_move_forward_witness:
  "\<exists>r s x'. recordPaidCoverage ''sub'' (JInt 3) sample_march sample_store = (Inr r, s) \<and>
     map_of (ss_subscriptions s) ''sub'' = Some x' \<and> 0 \<le> su_paidThroughCycle x'"
proof -
  let ?x = "sample_stored\<lparr>su_paidThroughCycle := 3, su_status := Active, su_pastDueAt := None, su_updatedAt := sample_march\<rparr>"
  have run: "recordPaidCoverage ''sub'' (JInt 3) sample_march sample_store = (Inr ?x, put_subscription ''sub'' ?x sample_store)"
    by (simp add: recordPaidCoverage_def require_subscription_def sample_store_eq sample_iso stamp_def
        put_subscription_def sample_stored_def Let_def)
  have "map_of (ss_subscriptions sample_store) ''sub'' = Some sample_stored" by (simp add: sample_store_eq)
  from subscriptions_only_move_forward [OF try_coverage this, of "''sub''" "JInt 3" sample_march] run show ?thesis
    by (auto simp: sample_stored_def)
qed

text \<open>
  The paid-through cycle stops at the first gap: a new billing period of a stored subscription is
  recorded, and the subscription is paid through the larger of what it was and the number of
  cycles, counted from the first, that the recorded periods cover without a gap. Periods paid out of
  order therefore wait for the missing one.
\<close>

theorem paid_through_stops_at_gap:
  assumes "sub_run empty_subscription_store s" and "map_of (ss_subscriptions s) (pp_subscriptionId inp) = Some x"
    and "recordPaidPeriod inp s = (Inr r, s')"
    and "iso (pp_periodStartsAt inp) = Inr start" "iso (pp_at inp) = Inr at" "\<not> str_less at start"
    and "map_of (ss_paidPeriods s) (period_key (pp_subscriptionId inp) start) = None"
  shows "\<exists>covered n. covered_cycles (su_anchorAt x) (periods_of (pp_subscriptionId inp) s') = Inr covered \<and>
    su_paidThroughCycle r = max (su_paidThroughCycle x) n \<and>
    (\<forall>c. 0 \<le> c \<and> c < n \<longrightarrow> c \<in> set covered) \<and> 0 \<le> n \<and> n \<notin> set covered"
  using assms(3)
proof (cases rule: recordPaidPeriod_cases)
  case (3 y start' at' p n s1)
  have x: "y = x" "su_id x = pp_subscriptionId inp"
    using 3(1) assms(2) sub_run_store_ok [OF assms(1) store_ok_empty] by (auto simp: store_ok_def)
  have per: "ss_paidPeriods s' = ss_paidPeriods s1"
    using 3(11) recordPaidCoverage_sound by (fastforce split: if_splits)
  have "map_of (ss_subscriptions s1) (pp_subscriptionId inp) = Some x" using assms(2) 3(9) by simp
  then have paid: "su_paidThroughCycle r = max (su_paidThroughCycle x) n"
    using 3(11) x(1) recordPaidCoverage_sound [of "pp_subscriptionId inp" "JInt n" at' s1 r s']
    by (auto split: if_splits)
  obtain covered where cov: "covered_cycles (su_anchorAt x) (periods_of (pp_subscriptionId inp) s1) = Inr covered"
    "n = contiguous_loop covered 0"
    using 3(10) x by (auto simp: contiguousPaidThroughCycle_def r_bind_Inr_iff)
  have "periods_of (pp_subscriptionId inp) s' = periods_of (pp_subscriptionId inp) s1"
    by (simp add: periods_of_def per)
  with cov paid contiguous_loop_result [of 0 covered] show ?thesis by auto
qed (use assms in auto)

lemma sample_period_run:
  "recordPaidPeriod (sample_period 2) sample_store =
    (Inr (sample_stored\<lparr>su_paidThroughCycle := 2, su_updatedAt := sample_march\<rparr>),
     put_subscription ''sub'' (sample_stored\<lparr>su_paidThroughCycle := 2, su_updatedAt := sample_march\<rparr>)
       (put_period (period_key ''sub'' sample_anchor) \<lparr>pf_coverageCycles = 2,
          pf_coverage = Some \<lparr>cov_creditsPerCycle = 100, cov_interval = Monthly, cov_tier = Growth\<rparr>\<rparr> sample_store))"
  by code_simp

theorem paid_through_stops_at_gap_witness:
  "\<exists>r s'. recordPaidPeriod (sample_period 2) sample_store = (Inr r, s') \<and> su_paidThroughCycle r = 2 \<and>
     (\<exists>covered. covered_cycles sample_anchor (periods_of ''sub'' s') = Inr covered \<and> 2 \<notin> set covered)"
proof -
  have look: "map_of (ss_subscriptions sample_store) (pp_subscriptionId (sample_period 2)) = Some sample_stored"
    by (simp add: sample_store_eq sample_period_def)
  have args: "iso (pp_periodStartsAt (sample_period 2)) = Inr sample_anchor" "iso (pp_at (sample_period 2)) = Inr sample_march"
    by (simp_all add: sample_period_def sample_iso)
  have started: "\<not> str_less sample_march sample_anchor" by code_simp
  have new: "map_of (ss_paidPeriods sample_store) (period_key (pp_subscriptionId (sample_period 2)) sample_anchor) = None"
    by (simp add: sample_store_eq)
  from paid_through_stops_at_gap [OF sample_run look sample_period_run args started new]
  show ?thesis using sample_period_run by (auto simp: sample_stored_def sample_period_def max_def split: if_splits)
qed

text \<open>
  The facts of a paid period never change: once a started period is recorded, recording it
  again with the same facts returns the subscription and changes nothing, and with any other
  coverage fails with \<^verbatim>\<open>IDEMPOTENCY_CONFLICT\<close> and changes nothing.
\<close>

theorem paid_period_facts_immutable:
  assumes "recordPaidPeriod inp s = (Inr r, s')" and "paidPeriodFacts inp = Inr p"
    and "iso (pp_periodStartsAt inp) = Inr start" "iso (pp_at inp) = Inr at" "\<not> str_less at start"
    and "pp_subscriptionId inp' = pp_subscriptionId inp" "iso (pp_periodStartsAt inp') = Inr start"
    and "iso (pp_at inp') = Inr at'" "\<not> str_less at' start" and "paidPeriodFacts inp' = Inr p'"
  shows "recordPaidPeriod inp' s' =
    (if p' = p then Inr r
     else Inl (P1DomainError IDEMPOTENCY_CONFLICT ''Credit subscription billing period has different coverage facts.''), s')"
proof -
  let ?k = "pp_subscriptionId inp"
  have same: "q = q'" if "pf_coverageCycles q = pf_coverageCycles q'" "sameCoverage (pf_coverage q) (pf_coverage q')" for q q' :: period_facts
    using that by (cases "pf_coverage q"; cases "pf_coverage q'")
      (auto simp: sameCoverage_def intro!: period_facts.equality coverage.equality)
  have stored: "map_of (ss_subscriptions s') ?k = Some r \<and> su_status r \<noteq> Cancelled \<and>
      map_of (ss_paidPeriods s') (period_key ?k start) = Some p"
    using assms(1)
  proof (cases rule: recordPaidPeriod_cases)
    case (2 x st a ex)
    then have "ex = p" using assms(2) same by (auto simp: assertPaidPeriodFacts_def)
    with 2 assms(3) show ?thesis by simp
  next
    case (3 x st a q n s1)
    show ?thesis
    proof (cases "n \<le> su_paidThroughCycle x")
      case True
      with 3 assms show ?thesis by simp
    next
      case False
      then have rec: "recordPaidCoverage ?k (JInt n) a s1 = (Inr r, s')" using 3 by simp
      then have "su_status r = Active"
        by (auto simp: recordPaidCoverage_def guarded_Inr stamp_def Let_def split: if_splits sum.splits)
      with recordPaidCoverage_sound [OF rec] 3 assms show ?thesis by auto
    qed
  qed (use assms in auto)
  have cyc: "assertCoverageCycles (pp_coverageCycles inp') = Inr ()"
    using assms(10) by (auto simp: paidPeriodFacts_def r_bind_Inr_iff)
  have "assertPaidPeriodFacts p inp' = (if p' = p then Inr () else
      Inl (P1DomainError IDEMPOTENCY_CONFLICT ''Credit subscription billing period has different coverage facts.''))"
    using same [of p p'] assms(10) by (auto simp: assertPaidPeriodFacts_def check_def sameCoverage_def)
  with stored cyc assms show ?thesis
    by (simp add: recordPaidPeriod_def require_subscription_def)
qed

theorem paid_period_facts_immutable_witness:
  "\<exists>r s'. recordPaidPeriod (sample_period 2) sample_store = (Inr r, s') \<and>
     recordPaidPeriod (sample_period 3) s' =
       (Inl (P1DomainError IDEMPOTENCY_CONFLICT ''Credit subscription billing period has different coverage facts.''), s')"
proof -
  have args: "iso (pp_periodStartsAt (sample_period n)) = Inr sample_anchor" "iso (pp_at (sample_period n)) = Inr sample_march"
    "pp_subscriptionId (sample_period n) = ''sub''" for n
    by (simp_all add: sample_period_def sample_iso)
  have started: "\<not> str_less sample_march sample_anchor" by code_simp
  have facts: "paidPeriodFacts (sample_period 2) = Inr \<lparr>pf_coverageCycles = 2,
      pf_coverage = Some \<lparr>cov_creditsPerCycle = 100, cov_interval = Monthly, cov_tier = Growth\<rparr>\<rparr>"
    "paidPeriodFacts (sample_period 3) = Inr \<lparr>pf_coverageCycles = 3,
      pf_coverage = Some \<lparr>cov_creditsPerCycle = 100, cov_interval = Monthly, cov_tier = Growth\<rparr>\<rparr>"
    by code_simp+
  have same: "pp_subscriptionId (sample_period 3) = pp_subscriptionId (sample_period 2)" by (simp add: sample_period_def)
  from paid_period_facts_immutable [OF sample_period_run facts(1) args(1,2) started same args(1,2) started facts(2)]
  show ?thesis using sample_period_run by simp
qed

text \<open>
  A payment event takes effect once: after it was settled, delivering it again, with any
  operation and in any later state that still knows the event, runs nothing and changes nothing. With
  the recorded payload hash, or one the caller declares compatible, it answers with the recorded
  result marked as a duplicate; with any other hash it fails with \<^verbatim>\<open>IDEMPOTENCY_CONFLICT\<close>.
\<close>

theorem payment_event_settles_once:
  assumes "settle_payment_event inp operation st = (Inr result, st1)"
    and "map_of (ss_paymentEvents (snd st)) (payment_event_key inp) = None"
    and "map_of (ss_paymentEvents (snd st2)) (payment_event_key inp) = map_of (ss_paymentEvents (snd st1)) (payment_event_key inp)"
    and "assertPaymentEventInput inp' = Inr ()"
    and "pi_workspaceId inp' = pi_workspaceId inp" "pi_paymentEventId inp' = pi_paymentEventId inp"
  shows "withPaymentEvent inp' operation' st2 =
    (if pi_payloadHash inp' = pi_payloadHash inp \<or>
        pi_payloadHash inp \<in> set (orElse (pi_compatiblePayloadHashes inp') [])
     then Inr (map_option (\<lambda>x. withSettlementStatus x Duplicate) result)
     else Inl (P1DomainError IDEMPOTENCY_CONFLICT ''Credit payment event was replayed with different facts.''), st2)"
proof -
  have "map_of (ss_paymentEvents (snd st1)) (payment_event_key inp) =
      Some \<lparr>pe_payloadHash = pi_payloadHash inp, pe_result = result\<rparr>"
    using assms(1,2) by (auto simp: settle_payment_event_def guarded_Inr op_bind_Inr put_payment_event_def Let_def)
  moreover have "payment_event_key inp' = payment_event_key inp"
    using assms(5,6) by (simp add: payment_event_key_def)
  ultimately show ?thesis
    using assms(3,4)
    by (auto simp: withPaymentEvent_def settle_payment_event_def assertPaymentEventFacts_def check_def
        orElse_def split: option.splits)
qed

definition sample_event :: payment_event_input where
  "sample_event =
     \<lparr> pi_workspaceId = ''w'', pi_paymentEventId = ''evt'',
       pi_payloadHash = ''0123456789abcdef0123456789abcdef0123456789abcdef0123456789abcdef'',
       pi_compatiblePayloadHashes = None, pi_createdAt = sample_march \<rparr>"

definition some_result ::
    "(subscription_store, credit_subscription) op \<Rightarrow> (unit \<times> subscription_store, credit_subscription option) op" where
  "some_result m st = (let (r, s) = m (snd st) in (map_sum id Some r, ((), s)))"

theorem payment_event_settles_once_witness:
  "\<exists>r s1. withPaymentEvent sample_event (some_result (cancel ''sub'' sample_march)) ((), sample_store) = (Inr (Some r), s1) \<and>
     su_settlementStatus r = Some Applied \<and>
     withPaymentEvent sample_event (some_result (cancel ''sub'' sample_march)) s1 = (Inr (Some (withSettlementStatus r Duplicate)), s1)"
proof -
  let ?x = "sample_stored\<lparr>su_status := Cancelled, su_pastDueAt := None, su_cancelledAt := Some sample_march, su_updatedAt := sample_march\<rparr>"
  let ?r = "withSettlementStatus ?x Applied"
  let ?s1 = "put_payment_event (payment_event_key sample_event)
    \<lparr>pe_payloadHash = pi_payloadHash sample_event, pe_result = Some ?r\<rparr> (put_subscription ''sub'' ?x sample_store)"
  have run: "cancel ''sub'' sample_march sample_store = (Inr ?x, put_subscription ''sub'' ?x sample_store)"
    by (simp add: cancel_def require_subscription_def sample_store_eq cancel_now_def sample_iso stamp_def
        put_subscription_def sample_stored_def Let_def)
  have ok: "assertPaymentEventInput sample_event = Inr ()" by code_simp
  have fresh: "map_of (ss_paymentEvents (snd ((), sample_store))) (payment_event_key sample_event) = None" by (simp add: sample_store_eq)
  have "su_settlementStatus ?x = None" by (simp add: sample_stored_def)
  then have settle: "settle_payment_event sample_event (some_result (cancel ''sub'' sample_march)) ((), sample_store) = (Inr (Some ?r), ((), ?s1))"
    using ok fresh run by (simp add: settle_payment_event_def some_result_def op_bind_def settled_result_def Let_def)
  then have first: "withPaymentEvent sample_event (some_result (cancel ''sub'' sample_march)) ((), sample_store) = (Inr (Some ?r), ((), ?s1))"
    by (simp add: withPaymentEvent_def)
  have again: "withPaymentEvent sample_event (some_result (cancel ''sub'' sample_march)) ((), ?s1) =
      (Inr (Some (withSettlementStatus ?r Duplicate)), ((), ?s1))"
    using payment_event_settles_once [OF settle fresh refl ok refl refl, of "some_result (cancel ''sub'' sample_march)"]
    by (simp only: simp_thms if_True option.map)
  show ?thesis
  proof (intro exI conjI)
    show "su_settlementStatus ?r = Some Applied" by (simp add: withSettlementStatus_def)
  qed (fact first again)+
qed

text \<open>
  A scheduled plan change takes effect with its cycle and leaves the cycles before it alone: from
  a stored subscription, after a successful \<^verbatim>\<open>scheduleChange\<close> the plan of the effective cycle is the one asked for,
  and the plan of every earlier cycle is what it was.
\<close>

theorem scheduled_change_takes_effect:
  assumes "sub_run empty_subscription_store s" and "map_of (ss_subscriptions s) (ch_subscriptionId inp) = Some x"
    and "scheduleChange inp s = (Inr r, s')" and "ch_effectiveCycle inp = JInt n"
  shows "creditSubscriptionTierForCycle r n = ch_tier inp \<and> creditSubscriptionIntervalForCycle r n = ch_interval inp \<and>
    (\<forall>m < n. creditSubscriptionTierForCycle r m = creditSubscriptionTierForCycle x m \<and>
      creditSubscriptionIntervalForCycle r m = creditSubscriptionIntervalForCycle x m)"
proof -
  have x: "subscription_ok x" using sub_run_store_ok [OF assms(1) store_ok_empty] assms(2) by (auto simp: store_ok_def)
  obtain cs where cs: "scheduleSubscriptionChange x inp = Inr cs"
    and r: "su_scheduledChanges r = cs" "su_tier r = su_tier x" "su_interval r = su_interval x"
    using assms(2,3) by (cases "iso (ch_at inp)")
      (auto simp: scheduleChange_def guarded_Inr stamp_def Let_def split: if_splits)
  note mem = scheduleSubscriptionChange_mem [OF x assms(4) cs]
  let ?new = "\<lparr>sc_tier = ch_tier inp, sc_interval = ch_interval inp, sc_effectiveCycle = n\<rparr>"
  have new: "?new \<in> set cs" using mem(2) [of ?new] by simp
  then have chr: "changesFor r = cs" using r(1) by (auto simp: changesFor_def)
  have "scheduledChangeForCycle r n = Some ?new"
    by (rule scheduledChange_latest) (use mem(1) new chr in auto)
  moreover have "scheduledChangeForCycle r m = scheduledChangeForCycle x m" if "m < n" for m
  proof (rule scheduledChange_agree)
    show "changes_ok (changesFor r)" "changes_ok (changesFor x)"
      using mem(1) chr x by (simp_all add: changesFor_ok subscription_ok_def)
    show "d \<in> set (changesFor r) \<longleftrightarrow> d \<in> set (changesFor x)" if "sc_effectiveCycle d \<le> m" for d
      using mem(2) [of d] that \<open>m < n\<close> chr changesFor_ok [OF x] by simp
  qed
  ultimately show ?thesis
    using r by (auto simp: creditSubscriptionTierForCycle_def creditSubscriptionIntervalForCycle_def split: option.splits)
qed

theorem scheduled_change_takes_effect_witness:
  "\<exists>r s'. scheduleChange \<lparr>ch_subscriptionId = ''sub'', ch_tier = Pro, ch_interval = Yearly,
       ch_effectiveCycle = JInt 2, ch_at = sample_march\<rparr> sample_store = (Inr r, s') \<and>
     creditSubscriptionTierForCycle r 2 = Pro \<and> creditSubscriptionTierForCycle r 1 = Growth"
proof -
  let ?inp = "\<lparr>ch_subscriptionId = ''sub'', ch_tier = Pro, ch_interval = Yearly, ch_effectiveCycle = JInt 2, ch_at = sample_march\<rparr>"
  let ?cs = "[\<lparr>sc_tier = Pro, sc_interval = Yearly, sc_effectiveCycle = 2\<rparr>]"
  let ?x = "sample_stored\<lparr>su_pendingTier := Some Pro, su_pendingInterval := Some Yearly,
    su_pendingEffectiveCycle := Some 2, su_scheduledChanges := ?cs, su_updatedAt := sample_march\<rparr>"
  have look: "map_of (ss_subscriptions sample_store) (ch_subscriptionId ?inp) = Some sample_stored" by (simp add: sample_store_eq)
  have "scheduleSubscriptionChange sample_stored ?inp = Inr ?cs" by code_simp
  then have run: "scheduleChange ?inp sample_store = (Inr ?x, put_subscription ''sub'' ?x sample_store)"
    by (simp add: scheduleChange_def require_subscription_def sample_store_eq sample_iso stamp_def first_change_def
        put_subscription_def Let_def) (simp add: sample_stored_def)
  have "creditSubscriptionTierForCycle sample_stored 1 = Growth" by code_simp
  with scheduled_change_takes_effect [OF sample_run look run, of 2] run show ?thesis by auto
qed

text \<open>
  A failing call can leave a subscription past due without a date: \<^verbatim>\<open>markPastDue\<close> assigns the
  status before it parses the timestamp, so with a timestamp that does not parse the call throws and
  the active subscription stays past due with no past-due date. Such a subscription is granted
  nothing, and the grace period that would end it never begins.
\<close>

theorem mark_past_due_half_done:
  "case markPastDue ''sub'' ''yesterday'' sample_store of
     (Inl e, s) \<Rightarrow> e = JsError ''timestamp must be an ISO timestamp.'' \<and>
       map_option (\<lambda>x. (su_status x, su_pastDueAt x)) (map_of (ss_subscriptions s) ''sub'') = Some (Past_due, None)
   | (Inr _, _) \<Rightarrow> False"
proof -
  have "iso ''yesterday'' = Inl (JsError ''timestamp must be an ISO timestamp.'')" by code_simp
  then show ?thesis
    by (simp add: markPastDue_def require_subscription_def sample_store_eq put_subscription_def) (simp add: sample_stored_def)
qed

end
