(* ===== verification/CycleScheduler.thy ===== *)
theory CycleScheduler
  imports CreditSubscriptionCorrect CreditLedgerCorrect
begin

text \<open>
  The scheduler of \<^verbatim>\<open>credit-billing/credit-subscription-scheduler.ts\<close>: it grants the credits of every
  due cycle of the active subscriptions, ends subscriptions whose grace period is over, and reports
  cycles without a grant. It reads and writes the subscription store and talks to a ledger through
  the interface \<^verbatim>\<open>CreditGrantPort\<close>, whose two operations are parameters of the definitions; the
  plan catalogue behind \<^verbatim>\<open>planFor\<close> is a parameter too. The laws the proofs need of a ledger form
  the locale \<open>credit_grant_port\<close>, which the model of the credit ledger interprets.
\<close>

section \<open>Grant keys and jobs\<close>

definition CREDIT_SUBSCRIPTION_GRACE_PERIOD_MS :: int where
  "CREDIT_SUBSCRIPTION_GRACE_PERIOD_MS = 7 * 24 * 60 * 60 * 1000"

fun tier_name :: "paid_tier \<Rightarrow> string" where
  "tier_name Starter = ''starter''"
| "tier_name Growth = ''growth''"
| "tier_name Pro = ''pro''"

definition creditSubscriptionGrantKey :: "string \<Rightarrow> int \<Rightarrow> string" where
  "creditSubscriptionGrantKey subscriptionId cycleIndex =
     ''grant:sub:'' @ subscriptionId @ '':'' @ show_int cycleIndex"

definition cycle_key :: "credit_subscription \<Rightarrow> subscription_cycle \<Rightarrow> string" where
  "cycle_key subscription cycle =
     creditSubscriptionGrantKey (su_grantLineageId subscription)
       (su_grantCycleOffset subscription + cy_cycleIndex cycle)"

definition cycle_grant :: "credit_subscription \<Rightarrow> subscription_cycle \<Rightarrow> js_number \<Rightarrow> grant_credits_input" where
  "cycle_grant subscription cycle credits =
     \<lparr> gc_id = ''subscription:'' @ su_grantLineageId subscription @ '':'' @
                 show_int (su_grantCycleOffset subscription + cy_cycleIndex cycle),
       gc_workspaceId = su_workspaceId subscription, gc_credits = credits,
       gc_expirationDate = Some (cy_endsAt cycle), gc_transactionType = SUBSCRIPTION_RENEWAL,
       gc_sourceRef = Some (su_grantLineageId subscription), gc_createdAt = cy_startsAt cycle,
       gc_actorId = Some ''system-credit-subscription-scheduler'',
       gc_correlationId = Some (''credit-subscription-cycle:'' @ su_id subscription @ '':'' @
                                show_int (cy_cycleIndex cycle)),
       gc_grantIdempotencyKey = Some (cycle_key subscription cycle) \<rparr>"

section \<open>Granting the due cycles\<close>

type_synonym 'l grant_port = "grant_credits_input \<Rightarrow> ('l, credit_lot) op"
type_synonym 'l lots_port = "'l \<Rightarrow> string \<Rightarrow> credit_lot list"
type_synonym plan_port = "paid_tier \<Rightarrow> js_number result"

definition lot_keys :: "'l lots_port \<Rightarrow> 'l \<Rightarrow> string \<Rightarrow> string set" where
  "lot_keys lots l ws = cl_grantIdempotencyKey ` set (lots l ws)"

text \<open>The credits of a cycle: the recorded coverage first, the catalogue for periods without one.\<close>

definition cycle_credits ::
    "plan_port \<Rightarrow> subscription_store \<Rightarrow> credit_subscription \<Rightarrow> subscription_cycle \<Rightarrow> js_number result" where
  "cycle_credits planFor st subscription cycle =
     (let tier = creditSubscriptionTierForCycle subscription (cy_cycleIndex cycle)
      in r_bind (paidCoverageForCycle st (su_id subscription) (JInt (cy_cycleIndex cycle))) (\<lambda>coverage.
         r_bind (case coverage of Some c \<Rightarrow> Inr (JInt (cov_creditsPerCycle c)) | None \<Rightarrow> planFor tier) (\<lambda>credits.
         r_bind (check (number_isSafeInteger credits \<and> int_of credits > 0)
                   (JsError (''Credit plan '' @
                      tier_name (case coverage of Some c \<Rightarrow> cov_tier c | None \<Rightarrow> tier) @
                      '' must provide a positive integer credit amount.''))) (\<lambda>_. Inr credits))))"

fun grant_cycles ::
    "'l grant_port \<Rightarrow> plan_port \<Rightarrow> subscription_store \<Rightarrow> credit_subscription \<Rightarrow> string set \<Rightarrow>
       subscription_cycle list \<Rightarrow> ('l, nat) op" where
  "grant_cycles grant_port planFor st subscription existing [] l = (Inr 0, l)"
| "grant_cycles grant_port planFor st subscription existing (cycle # cycles) l =
     (case cycle_credits planFor st subscription cycle of
        Inl e \<Rightarrow> (Inl e, l)
      | Inr credits \<Rightarrow>
          let key = cycle_key subscription cycle
          in if key \<in> existing
             then grant_cycles grant_port planFor st subscription existing cycles l
             else (case grant_port (cycle_grant subscription cycle credits) l of
                     (Inl e, l') \<Rightarrow> (Inl e, l')
                   | (Inr _, l') \<Rightarrow>
                       (case grant_cycles grant_port planFor st subscription (insert key existing) cycles l' of
                          (Inl e, l'') \<Rightarrow> (Inl e, l'')
                        | (Inr n, l'') \<Rightarrow> (Inr (Suc n), l''))))"

text \<open>Whether the grace period of a past-due subscription is over at \<open>now\<close>.\<close>

definition grace_over :: "credit_subscription \<Rightarrow> int \<Rightarrow> bool result" where
  "grace_over subscription now =
     (case truthy (su_pastDueAt subscription) of
        None \<Rightarrow> Inr False
      | Some d \<Rightarrow> r_bind (date d ''pastDueAt'') (\<lambda>t. Inr (t + CREDIT_SUBSCRIPTION_GRACE_PERIOD_MS \<le> now)))"

record sched_counts =
  sn_cancelledSubscriptions :: nat
  sn_grantedCycles :: nat

definition run_subscription ::
    "'l grant_port \<Rightarrow> 'l lots_port \<Rightarrow> plan_port \<Rightarrow> string \<Rightarrow> int \<Rightarrow> credit_subscription \<Rightarrow>
       (subscription_store \<times> 'l, sched_counts) op" where
  "run_subscription grant_port lots_port planFor asOf now subscription s =
     (let (st, l) = s
      in case su_status subscription of
           Past_due \<Rightarrow>
             (case grace_over subscription now of
                Inl e \<Rightarrow> (Inl e, s)
              | Inr over \<Rightarrow>
                  if over
                  then (case cancelPastDue (su_id subscription) asOf st of
                          (Inl e, st') \<Rightarrow> (Inl e, (st', l))
                        | (Inr _, st') \<Rightarrow> (Inr \<lparr>sn_cancelledSubscriptions = 1, sn_grantedCycles = 0\<rparr>, (st', l)))
                  else (Inr \<lparr>sn_cancelledSubscriptions = 0, sn_grantedCycles = 0\<rparr>, s))
         | Cancelled \<Rightarrow> (Inr \<lparr>sn_cancelledSubscriptions = 0, sn_grantedCycles = 0\<rparr>, s)
         | Active \<Rightarrow>
             (let existing = lot_keys lots_port l (su_workspaceId subscription)
              in case dueCreditSubscriptionCycles subscription asOf of
                   Inl e \<Rightarrow> (Inl e, s)
                 | Inr cycles \<Rightarrow>
                     (case grant_cycles grant_port planFor st subscription existing cycles l of
                        (Inl e, l') \<Rightarrow> (Inl e, (st, l'))
                      | (Inr n, l') \<Rightarrow> (Inr \<lparr>sn_cancelledSubscriptions = 0, sn_grantedCycles = n\<rparr>, (st, l')))))"

fun run_loop ::
    "'l grant_port \<Rightarrow> 'l lots_port \<Rightarrow> plan_port \<Rightarrow> string \<Rightarrow> int \<Rightarrow> credit_subscription list \<Rightarrow>
       (subscription_store \<times> 'l, sched_counts) op" where
  "run_loop grant_port lots_port planFor asOf now [] s =
     (Inr \<lparr>sn_cancelledSubscriptions = 0, sn_grantedCycles = 0\<rparr>, s)"
| "run_loop grant_port lots_port planFor asOf now (x # xs) s =
     (case run_subscription grant_port lots_port planFor asOf now x s of
        (Inl e, s') \<Rightarrow> (Inl e, s')
      | (Inr a, s') \<Rightarrow>
          (case run_loop grant_port lots_port planFor asOf now xs s' of
             (Inl e, s'') \<Rightarrow> (Inl e, s'')
           | (Inr b, s'') \<Rightarrow>
               (Inr \<lparr>sn_cancelledSubscriptions = sn_cancelledSubscriptions a + sn_cancelledSubscriptions b,
                     sn_grantedCycles = sn_grantedCycles a + sn_grantedCycles b\<rparr>, s'')))"

definition run_scheduler ::
    "'l grant_port \<Rightarrow> 'l lots_port \<Rightarrow> plan_port \<Rightarrow> string \<Rightarrow> (subscription_store \<times> 'l, sched_counts) op" where
  "run_scheduler grant_port lots_port planFor asOf s =
     guarded (date asOf ''asOf'') (\<lambda>now s.
       run_loop grant_port lots_port planFor asOf now (listGrantCandidates (fst s)) s) s"

section \<open>Reconciliation\<close>

record missing_grant_alert =
  al_workspaceId :: string
  al_subscriptionId :: string
  al_cycleIndex :: int

record reconcile_counts =
  rn_alertedCycles :: nat
  rn_checkedCycles :: nat

definition missing_alert :: "credit_subscription \<Rightarrow> subscription_cycle \<Rightarrow> missing_grant_alert" where
  "missing_alert subscription cycle =
     \<lparr> al_workspaceId = su_workspaceId subscription, al_subscriptionId = su_id subscription,
       al_cycleIndex = cy_cycleIndex cycle \<rparr>"

text \<open>The inner loop; the state is the list of alerts handed to the alert port so far.\<close>

fun reconcile_cycles ::
    "credit_subscription \<Rightarrow> string set \<Rightarrow> subscription_cycle list \<Rightarrow>
       (missing_grant_alert list, reconcile_counts) op" where
  "reconcile_cycles subscription keys [] alerts =
     (Inr \<lparr>rn_alertedCycles = 0, rn_checkedCycles = 0\<rparr>, alerts)"
| "reconcile_cycles subscription keys (cycle # cycles) alerts =
     (if cycle_key subscription cycle \<in> keys
      then (case reconcile_cycles subscription keys cycles alerts of
              (Inl e, a) \<Rightarrow> (Inl e, a)
            | (Inr n, a) \<Rightarrow> (Inr (n\<lparr>rn_checkedCycles := Suc (rn_checkedCycles n)\<rparr>), a))
      else (case reconcile_cycles subscription keys cycles (alerts @ [missing_alert subscription cycle]) of
              (Inl e, a) \<Rightarrow> (Inl e, a)
            | (Inr n, a) \<Rightarrow>
                (Inr \<lparr>rn_alertedCycles = Suc (rn_alertedCycles n), rn_checkedCycles = Suc (rn_checkedCycles n)\<rparr>, a)))"

fun reconcile_loop ::
    "'l lots_port \<Rightarrow> 'l \<Rightarrow> string \<Rightarrow> credit_subscription list \<Rightarrow> (missing_grant_alert list, reconcile_counts) op" where
  "reconcile_loop lots_port l asOf [] alerts = (Inr \<lparr>rn_alertedCycles = 0, rn_checkedCycles = 0\<rparr>, alerts)"
| "reconcile_loop lots_port l asOf (x # xs) alerts =
     (case dueCreditSubscriptionCycles x asOf of
        Inl e \<Rightarrow> (Inl e, alerts)
      | Inr cycles \<Rightarrow>
          (case reconcile_cycles x (lot_keys lots_port l (su_workspaceId x)) cycles alerts of
             (Inl e, a) \<Rightarrow> (Inl e, a)
           | (Inr m, a) \<Rightarrow>
               (case reconcile_loop lots_port l asOf xs a of
                  (Inl e, b) \<Rightarrow> (Inl e, b)
                | (Inr n, b) \<Rightarrow>
                    (Inr \<lparr>rn_alertedCycles = rn_alertedCycles m + rn_alertedCycles n,
                          rn_checkedCycles = rn_checkedCycles m + rn_checkedCycles n\<rparr>, b))))"

definition reconcile_scheduler ::
    "'l lots_port \<Rightarrow> string \<Rightarrow> subscription_store \<Rightarrow> 'l \<Rightarrow> (missing_grant_alert list, reconcile_counts) op" where
  "reconcile_scheduler lots_port asOf st l alerts = reconcile_loop lots_port l asOf (listGrantCandidates st) alerts"

section \<open>Job handlers\<close>

definition CREDIT_SUBSCRIPTION_CYCLE_JOB_KIND :: string where
  "CREDIT_SUBSCRIPTION_CYCLE_JOB_KIND = ''credit-subscription.grant-cycles''"
definition CREDIT_SUBSCRIPTION_RECONCILIATION_JOB_KIND :: string where
  "CREDIT_SUBSCRIPTION_RECONCILIATION_JOB_KIND = ''credit-subscription.reconcile-grants''"

datatype 'a job_outcome = Dead_letter string | Completed 'a | Retry string string

fun error_message :: "js_error \<Rightarrow> string" where
  "error_message (P1DomainError _ m) = m"
| "error_message (DeferredCreditPaymentEvent m) = m"
| "error_message (JsError m) = m"

text \<open>Both handlers: a foreign job is dead-lettered, a throwing run is retried.\<close>

definition job_handler ::
    "string \<Rightarrow> string \<Rightarrow> (string \<Rightarrow> ('s, 'a) op) \<Rightarrow> string \<Rightarrow> string \<Rightarrow> string \<Rightarrow> 's \<Rightarrow> 'a job_outcome \<times> 's" where
  "job_handler expectedKind failureCode work kind workspaceId claimedAt s =
     (if kind \<noteq> expectedKind \<or> workspaceId \<noteq> ''__system__'' then (Dead_letter ''UNSUPPORTED_JOB_KIND'', s)
      else case work claimedAt s of
             (Inr output, s') \<Rightarrow> (Completed output, s')
           | (Inl e, s') \<Rightarrow> (Retry failureCode (error_message e), s'))"

definition creditSubscriptionCycleJobHandler ::
    "(string \<Rightarrow> ('s, sched_counts) op) \<Rightarrow> string \<Rightarrow> string \<Rightarrow> string \<Rightarrow> 's \<Rightarrow> sched_counts job_outcome \<times> 's" where
  "creditSubscriptionCycleJobHandler run =
     job_handler CREDIT_SUBSCRIPTION_CYCLE_JOB_KIND ''CREDIT_SUBSCRIPTION_CYCLE_GRANT_FAILED'' run"

definition creditSubscriptionReconciliationJobHandler ::
    "(string \<Rightarrow> ('s, reconcile_counts) op) \<Rightarrow> string \<Rightarrow> string \<Rightarrow> string \<Rightarrow> 's \<Rightarrow> reconcile_counts job_outcome \<times> 's" where
  "creditSubscriptionReconciliationJobHandler reconcile =
     job_handler CREDIT_SUBSCRIPTION_RECONCILIATION_JOB_KIND
       ''CREDIT_SUBSCRIPTION_GRANT_RECONCILIATION_FAILED'' reconcile"

record recurring_job =
  rj_cron :: string
  rj_kind :: string
  rj_scheduleId :: string
  rj_timezone :: string
  rj_workspaceId :: string

definition registerCreditSubscriptionSchedules ::
    "(recurring_job \<Rightarrow> ('r, unit) op) \<Rightarrow> string option \<Rightarrow> string option \<Rightarrow> string option \<Rightarrow> ('r, unit) op" where
  "registerCreditSubscriptionSchedules scheduleRecurring cycleCron reconciliationCron timezone =
     (let tz = orElse timezone ''UTC''
      in op_bind (scheduleRecurring
           \<lparr> rj_cron = orElse cycleCron ''*/5 * * * *'', rj_kind = CREDIT_SUBSCRIPTION_CYCLE_JOB_KIND,
             rj_scheduleId = ''credit-subscription.grant-cycles.v1'', rj_timezone = tz,
             rj_workspaceId = ''__system__'' \<rparr>)
         (\<lambda>_. scheduleRecurring
           \<lparr> rj_cron = orElse reconciliationCron ''17 0 * * *'',
             rj_kind = CREDIT_SUBSCRIPTION_RECONCILIATION_JOB_KIND,
             rj_scheduleId = ''credit-subscription.reconcile-grants.v1'', rj_timezone = tz,
             rj_workspaceId = ''__system__'' \<rparr>))"

end
