(* ===== verification/CycleSchedulerProps.thy ===== *)
theory CycleSchedulerProps
  imports CycleScheduler CreditLedgerProps CreditSubscriptionProps
begin

text \<open>
  Correctness of the scheduler, over any ledger that satisfies the laws of \<open>credit_grant_port\<close>, and
  the properties that follow for the credit ledger.
\<close>

section \<open>The ledger as the scheduler sees it\<close>

locale credit_grant_port =
  fixes grant_port :: "'l grant_port"
    and lots_port :: "'l lots_port"
  assumes grant_keeps_keys: "grant_port inp l = (r, l') \<Longrightarrow> lot_keys lots_port l ws \<subseteq> lot_keys lots_port l' ws"
    and grant_adds_key: "grant_port inp l = (Inr lot, l') \<Longrightarrow>
      gc_grantIdempotencyKey inp = Some (creditSubscriptionGrantKey i n) \<Longrightarrow>
      creditSubscriptionGrantKey i n \<in> lot_keys lots_port l' (gc_workspaceId inp)"
begin

lemma cycle_grant_adds:
  "grant_port (cycle_grant x c cr) l = (Inr lot, l') \<Longrightarrow> cycle_key x c \<in> lot_keys lots_port l' (su_workspaceId x)"
  using grant_adds_key [of "cycle_grant x c cr" l lot l'] by (simp add: cycle_grant_def cycle_key_def)

lemma grant_cycles_result:
  assumes "grant_cycles grant_port planFor st x existing cs l = (Inr n, l')"
    and "existing \<subseteq> lot_keys lots_port l (su_workspaceId x)"
  shows "(\<forall>ws. lot_keys lots_port l ws \<subseteq> lot_keys lots_port l' ws) \<and>
    (\<forall>c \<in> set cs. cycle_key x c \<in> lot_keys lots_port l' (su_workspaceId x) \<and>
      (\<exists>cr. cycle_credits planFor st x c = Inr cr))"
  using assms
proof (induction cs arbitrary: existing l n)
  case Nil
  then show ?case by simp
next
  case (Cons c cs)
  obtain cr where cr: "cycle_credits planFor st x c = Inr cr"
    using Cons.prems(1) by (cases "cycle_credits planFor st x c") auto
  show ?case
  proof (cases "cycle_key x c \<in> existing")
    case True
    then have "grant_cycles grant_port planFor st x existing cs l = (Inr n, l')"
      using Cons.prems(1) cr by simp
    from Cons.IH [OF this Cons.prems(2)] True Cons.prems(2) cr show ?thesis by auto
  next
    case False
    then obtain lot l1 m where g: "grant_port (cycle_grant x c cr) l = (Inr lot, l1)"
      and m: "grant_cycles grant_port planFor st x (insert (cycle_key x c) existing) cs l1 = (Inr m, l')"
      using Cons.prems(1) cr by (auto simp: Let_def split: prod.splits sum.splits)
    have "insert (cycle_key x c) existing \<subseteq> lot_keys lots_port l1 (su_workspaceId x)"
      using cycle_grant_adds [OF g] grant_keeps_keys [OF g] Cons.prems(2) by blast
    from Cons.IH [OF m this] grant_keeps_keys [OF g] cycle_grant_adds [OF g] cr show ?thesis by fastforce
  qed
qed

end

lemma grant_cycles_nothing:
  assumes "\<forall>c \<in> set cs. cycle_key x c \<in> existing \<and> (\<exists>cr. cycle_credits planFor st x c = Inr cr)"
  shows "grant_cycles g planFor st x existing cs l = (Inr 0, l)"
  using assms by (induction cs) (auto simp: Let_def)

section \<open>Settled subscriptions\<close>

text \<open>A subscription the scheduler has nothing left to do for.\<close>

definition settled ::
    "'l lots_port \<Rightarrow> plan_port \<Rightarrow> string \<Rightarrow> int \<Rightarrow> subscription_store \<Rightarrow> 'l \<Rightarrow> credit_subscription \<Rightarrow> bool" where
  "settled lots_port planFor asOf now st l x =
     (case su_status x of
        Cancelled \<Rightarrow> True
      | Past_due \<Rightarrow> grace_over x now = Inr False
      | Active \<Rightarrow>
          (\<exists>cs. dueCreditSubscriptionCycles x asOf = Inr cs \<and>
            (\<forall>c \<in> set cs. cycle_key x c \<in> lot_keys lots_port l (su_workspaceId x) \<and>
              (\<exists>cr. cycle_credits planFor st x c = Inr cr))))"

lemma cycle_credits_cong:
  assumes "map_of (ss_subscriptions st) (su_id x) = map_of (ss_subscriptions st') (su_id x)"
    and "ss_paidPeriods st = ss_paidPeriods st'"
  shows "cycle_credits planFor st x c = cycle_credits planFor st' x c"
  using assms by (simp add: cycle_credits_def paidCoverageForCycle_def require_subscription_def periods_of_def)

lemma settled_mono:
  assumes "settled lots planFor asOf now st l x" "\<And>ws. lot_keys lots l ws \<subseteq> lot_keys lots l' ws"
    and "map_of (ss_subscriptions st) (su_id x) = map_of (ss_subscriptions st') (su_id x)"
    and "ss_paidPeriods st = ss_paidPeriods st'"
  shows "settled lots planFor asOf now st' l' x"
  using assms(1,2) cycle_credits_cong [OF assms(3,4)]
  unfolding settled_def by (fastforce split: subscription_status.splits)

lemma run_subscription_settled:
  assumes "settled lots planFor asOf now st l x"
  shows "run_subscription g lots planFor asOf now x (st, l) = (Inr \<lparr>sn_cancelledSubscriptions = 0, sn_grantedCycles = 0\<rparr>, (st, l))"
proof (cases "su_status x")
  case Active
  with assms obtain cs where cs: "dueCreditSubscriptionCycles x asOf = Inr cs"
    "\<forall>c \<in> set cs. cycle_key x c \<in> lot_keys lots l (su_workspaceId x) \<and> (\<exists>cr. cycle_credits planFor st x c = Inr cr)"
    by (auto simp: settled_def)
  from cs(1) Active show ?thesis by (simp add: run_subscription_def grant_cycles_nothing [OF cs(2)])
qed (use assms in \<open>simp_all add: run_subscription_def settled_def\<close>)

lemma run_loop_settled:
  assumes "\<forall>x \<in> set xs. settled lots planFor asOf now st l x"
  shows "run_loop g lots planFor asOf now xs (st, l) = (Inr \<lparr>sn_cancelledSubscriptions = 0, sn_grantedCycles = 0\<rparr>, (st, l))"
  using assms by (induction xs) (simp_all add: run_subscription_settled)

lemma cancelPastDue_result:
  assumes "cancelPastDue k at st = (Inr r, st')" "map_of (ss_subscriptions st) k = Some x" "su_status x = Past_due" "su_id x = k"
  shows "ss_paidPeriods st' = ss_paidPeriods st \<and> (\<forall>k'. k' \<noteq> k \<longrightarrow> map_of (ss_subscriptions st') k' = map_of (ss_subscriptions st) k') \<and>
    (\<exists>y. map_of (ss_subscriptions st') k = Some y \<and> su_status y = Cancelled \<and> su_id y = k)"
proof -
  have "cancel_now k x at st = (Inr r, st')"
    using assms by (simp add: cancelPastDue_def require_subscription_def)
  with assms(4) show ?thesis by (cases "iso at") (auto simp: cancel_now_def stamp_def Let_def)
qed

text \<open>What a run leaves behind, for the subscriptions it went through and for the others.\<close>

definition run_effect ::
    "'l lots_port \<Rightarrow> plan_port \<Rightarrow> string \<Rightarrow> int \<Rightarrow> credit_subscription list \<Rightarrow> subscription_store \<Rightarrow> 'l \<Rightarrow>
       subscription_store \<Rightarrow> 'l \<Rightarrow> bool" where
  "run_effect lots planFor asOf now xs st l st' l' \<longleftrightarrow>
     ss_paidPeriods st' = ss_paidPeriods st \<and> (\<forall>ws. lot_keys lots l ws \<subseteq> lot_keys lots l' ws) \<and>
     (store_ok st \<longrightarrow> store_ok st') \<and>
     (\<forall>k. k \<notin> su_id ` set xs \<longrightarrow> map_of (ss_subscriptions st') k = map_of (ss_subscriptions st) k) \<and>
     (\<forall>x \<in> set xs. \<exists>y. map_of (ss_subscriptions st') (su_id x) = Some y \<and> su_id y = su_id x \<and>
        settled lots planFor asOf now st' l' y \<and> (su_status x = Active \<longrightarrow> y = x))"

context credit_grant_port
begin

lemma run_subscription_effect:
  assumes "run_subscription grant_port lots_port planFor asOf now x (st, l) = (Inr a, (st', l'))"
    and "map_of (ss_subscriptions st) (su_id x) = Some x"
  shows "run_effect lots_port planFor asOf now [x] st l st' l'"
proof (cases "su_status x")
  case Active
  obtain cs where due: "dueCreditSubscriptionCycles x asOf = Inr cs"
    using assms(1) Active by (cases "dueCreditSubscriptionCycles x asOf") (simp_all add: run_subscription_def)
  let ?run = "grant_cycles grant_port planFor st x (lot_keys lots_port l (su_workspaceId x)) cs l"
  obtain n where cs: "?run = (Inr n, l')" "st' = st"
    using assms(1) Active due by (cases ?run; cases "fst ?run") (simp_all add: run_subscription_def)
  from grant_cycles_result [OF cs(1) subset_refl] due cs(2) Active assms(2) show ?thesis
    by (auto simp: run_effect_def settled_def)
next
  case Past_due
  then obtain ov where ov: "grace_over x now = Inr ov"
    using assms(1) by (cases "grace_over x now") (auto simp: run_subscription_def)
  show ?thesis
  proof (cases ov)
    case True
    then obtain r where c: "cancelPastDue (su_id x) asOf st = (Inr r, st')" "l' = l"
      using assms(1) Past_due ov by (auto simp: run_subscription_def split: sum.splits prod.splits)
    from cancelPastDue_result [OF c(1) assms(2) Past_due refl] c(2) Past_due
      sound_update_store_ok [OF cancelPastDue_sound [OF c(1)]]
    show ?thesis by (auto simp: run_effect_def settled_def)
  next
    case False
    with assms ov Past_due show ?thesis by (auto simp: run_subscription_def run_effect_def settled_def)
  qed
next
  case Cancelled
  with assms show ?thesis by (auto simp: run_subscription_def run_effect_def settled_def)
qed

lemma run_loop_effect:
  assumes "run_loop grant_port lots_port planFor asOf now xs (st, l) = (Inr a, (st', l'))"
    and "distinct (map su_id xs)" "\<forall>x \<in> set xs. map_of (ss_subscriptions st) (su_id x) = Some x"
  shows "run_effect lots_port planFor asOf now xs st l st' l'"
  using assms
proof (induction xs arbitrary: st l a)
  case Nil
  then show ?case by (simp add: run_effect_def)
next
  case (Cons x xs)
  obtain b st1 l1 c where one: "run_subscription grant_port lots_port planFor asOf now x (st, l) = (Inr b, (st1, l1))"
    and rest: "run_loop grant_port lots_port planFor asOf now xs (st1, l1) = (Inr c, (st', l'))"
    using Cons.prems(1) by (auto split: sum.splits prod.splits)
  have e1: "run_effect lots_port planFor asOf now [x] st l st1 l1"
    using one Cons.prems(3) by (intro run_subscription_effect) simp_all
  have "\<forall>y \<in> set xs. map_of (ss_subscriptions st1) (su_id y) = Some y"
  proof
    fix y assume y: "y \<in> set xs"
    then have "su_id y \<noteq> su_id x" using Cons.prems(2) by (metis distinct.simps(2) image_eqI list.map(2) set_map)
    then have "map_of (ss_subscriptions st1) (su_id y) = map_of (ss_subscriptions st) (su_id y)"
      using e1 by (simp add: run_effect_def)
    with y Cons.prems(3) show "map_of (ss_subscriptions st1) (su_id y) = Some y" by simp
  qed
  then have e2: "run_effect lots_port planFor asOf now xs st1 l1 st' l'"
    using Cons.prems(2) by (intro Cons.IH [OF rest]) simp_all
  obtain y where y: "map_of (ss_subscriptions st1) (su_id x) = Some y" "su_id y = su_id x"
    "settled lots_port planFor asOf now st1 l1 y" "su_status x = Active \<longrightarrow> y = x"
    using e1 by (auto simp: run_effect_def)
  have "su_id x \<notin> su_id ` set xs" using Cons.prems(2) by simp
  then have y': "map_of (ss_subscriptions st') (su_id x) = Some y" using e2 y(1) by (simp add: run_effect_def)
  have "settled lots_port planFor asOf now st' l' y"
    using e2 y y' by (intro settled_mono [OF y(3)]) (simp_all add: run_effect_def)
  with e1 e2 y y' show ?case unfolding run_effect_def by (auto dest: order_trans)
qed

end

section \<open>The credit ledger is such a ledger\<close>

lemma trim_id: "\<not> is_ws c \<Longrightarrow> \<not> is_ws d \<Longrightarrow> trim (c # s @ [d]) = c # s @ [d]"
  by (simp add: trim_def)

lemma digit_char_not_ws: "d < 10 \<Longrightarrow> \<not> is_ws (digit_char d)"
  using char_code_digit [of d] by (auto simp: is_ws_def Let_def)

lemma show_int_last: "\<exists>s d. show_int n = s @ [d] \<and> \<not> is_ws d"
proof -
  have nat: "\<exists>s d. show_nat m = s @ [d] \<and> \<not> is_ws d" for m
  proof -
    have "show_nat m \<noteq> []" by (subst show_nat.simps) simp
    then obtain s d where "show_nat m = s @ [d]" by (metis append_butlast_last_id)
    with show_nat_digits [of m] digit_char_not_ws show ?thesis by fastforce
  qed
  show ?thesis
  proof (cases "n < 0")
    case True
    with nat [of "nat (- n)"] show ?thesis by (auto simp: show_int_def)
  next
    case False
    with nat [of "nat n"] show ?thesis by (simp add: show_int_def)
  qed
qed

lemma subscription_key_normal:
  "normalizeCreditGrantIdempotencyKey lotId (Some (creditSubscriptionGrantKey i n)) =
    Inr (creditSubscriptionGrantKey i n)"
proof -
  obtain s d where sd: "show_int n = s @ [d]" "\<not> is_ws d" using show_int_last by blast
  have key: "creditSubscriptionGrantKey i n = CHR ''g'' # (''rant:sub:'' @ i @ '':'' @ s) @ [d]"
    by (simp add: creditSubscriptionGrantKey_def sd(1))
  have "\<not> is_ws (CHR ''g'')" by code_simp
  then have "trim (creditSubscriptionGrantKey i n) = creditSubscriptionGrantKey i n"
    unfolding key using sd(2) by (rule trim_id)
  moreover have "starts_with grant_prefix (creditSubscriptionGrantKey i n)"
    "\<not> starts_with consume_prefix (creditSubscriptionGrantKey i n)" "creditSubscriptionGrantKey i n \<noteq> []"
    by (simp_all add: creditSubscriptionGrantKey_def starts_with_def grant_prefix_def consume_prefix_def)
  ultimately show ?thesis by (simp add: normalizeCreditGrantIdempotencyKey_def)
qed

interpretation credit_port: credit_grant_port grant listLots
proof unfold_locales
  fix inp and l l' :: credit_ledger and r ws
  assume "grant inp l = (r, l')"
  then show "lot_keys listLots l ws \<subseteq> lot_keys listLots l' ws"
    by (cases rule: grant_result) (auto simp: lot_keys_def listLots_def)
next
  fix inp and l l' :: credit_ledger and lot i n
  let ?k = "creditSubscriptionGrantKey i n"
  assume g: "grant inp l = (Inr lot, l')" and k: "gc_grantIdempotencyKey inp = Some ?k"
  have norm: "normalizeCreditGrantIdempotencyKey (gc_id inp) (gc_grantIdempotencyKey inp) = Inr ?k"
    unfolding k by (rule subscription_key_normal)
  from g have "\<exists>x \<in> set (cs_lots l'). cl_workspaceId x = gc_workspaceId inp \<and> cl_grantIdempotencyKey x = ?k"
  proof (cases rule: grant_result)
    case (replay x)
    with g norm have "cl_grantIdempotencyKey x = ?k"
      by (auto simp: grant_def guarded_def sameCreditGrantFacts_def new_credit_lot_def Let_def split: sum.splits option.splits if_splits)
    with replay show ?thesis by auto
  next
    case (fresh key)
    with norm show ?thesis by (auto simp: new_credit_lot_def)
  qed simp
  then show "?k \<in> lot_keys listLots l' (gc_workspaceId inp)"
    by (auto simp: lot_keys_def listLots_def intro: rev_image_eqI)
qed

section \<open>Runs of the scheduler\<close>

lemma candidates_of_ok:
  assumes "store_ok st"
  shows "distinct (map su_id (listGrantCandidates st))"
    and "x \<in> set (listGrantCandidates st) \<longleftrightarrow> map_of (ss_subscriptions st) (su_id x) = Some x"
proof -
  have mem: "(k, x) \<in> set (ss_subscriptions st) \<Longrightarrow> su_id x = k" for k x
    using assms by (auto simp: store_ok_def)
  then have ids: "map su_id (map snd (ss_subscriptions st)) = map fst (ss_subscriptions st)" by auto
  have "mset (map su_id (listGrantCandidates st)) = mset (map su_id (map snd (ss_subscriptions st)))"
    unfolding listGrantCandidates_def mset_map mset_js_sort ..
  then show "distinct (map su_id (listGrantCandidates st))"
    using assms ids mset_eq_imp_distinct_iff by (metis store_ok_def)
  show "x \<in> set (listGrantCandidates st) \<longleftrightarrow> map_of (ss_subscriptions st) (su_id x) = Some x"
  proof
    assume "x \<in> set (listGrantCandidates st)"
    then obtain k where k: "(k, x) \<in> set (ss_subscriptions st)" by (auto simp: listGrantCandidates_def)
    with mem assms show "map_of (ss_subscriptions st) (su_id x) = Some x" by (auto simp: store_ok_def)
  next
    assume "map_of (ss_subscriptions st) (su_id x) = Some x"
    then have "x \<in> snd ` set (ss_subscriptions st)" by (metis map_of_SomeD image_eqI snd_conv)
    then show "x \<in> set (listGrantCandidates st)" by (simp add: listGrantCandidates_def)
  qed
qed

context credit_grant_port
begin

lemma run_scheduler_effect:
  assumes "store_ok st" "run_scheduler grant_port lots_port planFor asOf (st, l) = (Inr a, (st', l'))"
  shows "\<exists>now. date asOf ''asOf'' = Inr now \<and>
    run_effect lots_port planFor asOf now (listGrantCandidates st) st l st' l'"
proof -
  obtain now where now: "date asOf ''asOf'' = Inr now"
    "run_loop grant_port lots_port planFor asOf now (listGrantCandidates st) (st, l) = (Inr a, (st', l'))"
    using assms(2) by (auto simp: run_scheduler_def guarded_Inr)
  with run_loop_effect [OF now(2)] candidates_of_ok [OF assms(1)] show ?thesis by blast
qed

lemma run_scheduler_again:
  assumes "store_ok st" "run_scheduler grant_port lots_port planFor asOf (st, l) = (Inr a, (st', l'))"
  shows "run_scheduler grant_port lots_port planFor asOf (st', l') =
    (Inr \<lparr>sn_cancelledSubscriptions = 0, sn_grantedCycles = 0\<rparr>, (st', l'))"
proof -
  obtain now where now: "date asOf ''asOf'' = Inr now"
    and eff: "run_effect lots_port planFor asOf now (listGrantCandidates st) st l st' l'"
    using run_scheduler_effect [OF assms] by blast
  have ok': "store_ok st'" using eff assms(1) by (simp add: run_effect_def)
  have "settled lots_port planFor asOf now st' l' y" if "y \<in> set (listGrantCandidates st')" for y
  proof -
    have y: "map_of (ss_subscriptions st') (su_id y) = Some y" using that candidates_of_ok(2) [OF ok'] by blast
    show ?thesis
    proof (cases "su_id y \<in> su_id ` set (listGrantCandidates st)")
      case True
      with eff y show ?thesis by (auto simp: run_effect_def)
    next
      case False
      then have "map_of (ss_subscriptions st) (su_id y) = Some y" using eff y by (simp add: run_effect_def)
      then have "y \<in> set (listGrantCandidates st)" using candidates_of_ok(2) [OF assms(1)] by blast
      with False show ?thesis by blast
    qed
  qed
  with now show ?thesis by (simp add: run_scheduler_def run_loop_settled)
qed

end

section \<open>Reconciliation\<close>

definition missing_cycles :: "'l lots_port \<Rightarrow> 'l \<Rightarrow> string \<Rightarrow> credit_subscription \<Rightarrow> subscription_cycle list" where
  "missing_cycles lots l asOf x =
     (case dueCreditSubscriptionCycles x asOf of
        Inl _ \<Rightarrow> []
      | Inr cs \<Rightarrow> filter (\<lambda>c. cycle_key x c \<notin> lot_keys lots l (su_workspaceId x)) cs)"

lemma reconcile_cycles_result:
  "reconcile_cycles x keys cs alerts =
    (Inr \<lparr>rn_alertedCycles = length (filter (\<lambda>c. cycle_key x c \<notin> keys) cs), rn_checkedCycles = length cs\<rparr>,
     alerts @ map (missing_alert x) (filter (\<lambda>c. cycle_key x c \<notin> keys) cs))"
  by (induction cs arbitrary: alerts) simp_all

lemma reconcile_loop_result:
  assumes "reconcile_loop lots l asOf xs alerts = (Inr n, alerts')"
  shows "alerts' = alerts @ concat (map (\<lambda>x. map (missing_alert x) (missing_cycles lots l asOf x)) xs) \<and>
    rn_alertedCycles n = length alerts' - length alerts"
  using assms
proof (induction xs arbitrary: alerts n)
  case Nil
  then show ?case by auto
next
  case (Cons x xs)
  obtain cs where cs: "dueCreditSubscriptionCycles x asOf = Inr cs"
    using Cons.prems by (cases "dueCreditSubscriptionCycles x asOf") simp_all
  let ?a = "alerts @ map (missing_alert x) (missing_cycles lots l asOf x)"
  obtain m where m: "reconcile_loop lots l asOf xs ?a = (Inr m, alerts')"
    "rn_alertedCycles n = length (missing_cycles lots l asOf x) + rn_alertedCycles m"
    using Cons.prems cs
    by (cases "reconcile_loop lots l asOf xs ?a"; cases "fst (reconcile_loop lots l asOf xs ?a)")
      (auto simp: reconcile_cycles_result missing_cycles_def)
  from Cons.IH [OF m(1)] m(2) show ?case by simp
qed

section \<open>Properties\<close>

text \<open>
  C29. The scheduler grants every due cycle: after a successful run over a reachable store and the
  credit ledger, every due cycle of every active subscription has a lot with its grant key, and the
  subscription itself is as it was.
\<close>

theorem scheduler_grants_due_cycles:
  assumes "sub_run empty_subscription_store st"
    and "run_scheduler grant listLots planFor asOf (st, l) = (Inr counts, (st', l'))"
    and "map_of (ss_subscriptions st) k = Some x" and "su_status x = Active"
  shows "map_of (ss_subscriptions st') k = Some x \<and>
    (\<exists>cs. dueCreditSubscriptionCycles x asOf = Inr cs \<and>
      (\<forall>c \<in> set cs. \<exists>lot \<in> set (listLots l' (su_workspaceId x)). cl_grantIdempotencyKey lot = cycle_key x c))"
proof -
  have ok: "store_ok st" by (rule sub_run_store_ok [OF assms(1) store_ok_empty])
  then have id: "su_id x = k" using assms(3) by (simp add: store_ok_def)
  then have "x \<in> set (listGrantCandidates st)" using candidates_of_ok(2) [OF ok] assms(3) by simp
  then obtain now where "map_of (ss_subscriptions st') (su_id x) = Some x" "settled listLots planFor asOf now st' l' x"
    using credit_port.run_scheduler_effect [OF ok assms(2)] assms(4) unfolding run_effect_def by blast
  with id assms(4) show ?thesis by (fastforce simp: settled_def lot_keys_def image_iff)
qed

text \<open>A store with two paid cycles, both due on the first of March.\<close>

definition sample_paid_store :: subscription_store where
  "sample_paid_store = snd (recordPaidPeriod (sample_period 2) sample_store)"

definition no_plan :: plan_port where
  "no_plan t = Inl (JsError ''no catalogue'')"

definition sample_scheduled :: "sched_counts result \<times> subscription_store \<times> credit_ledger" where
  "sample_scheduled = run_scheduler grant listLots no_plan sample_march (sample_paid_store, empty_credit_ledger)"

lemma sample_scheduled_ok:
  "fst sample_scheduled = Inr \<lparr>sn_cancelledSubscriptions = 0, sn_grantedCycles = 2\<rparr>"
  "map (\<lambda>l. (cl_grantIdempotencyKey l, cl_originalCredits l)) (cs_lots (snd (snd sample_scheduled))) =
     [(''grant:sub:sub:0'', 100), (''grant:sub:sub:1'', 100)]"
  by code_simp+

lemma sample_scheduled_run:
  "run_scheduler grant listLots no_plan sample_march (sample_paid_store, empty_credit_ledger) =
    (Inr \<lparr>sn_cancelledSubscriptions = 0, sn_grantedCycles = 2\<rparr>, (fst (snd sample_scheduled), snd (snd sample_scheduled)))"
  using sample_scheduled_ok(1) by (simp add: sample_scheduled_def prod_eq_iff)

lemma sample_paid_run: "sub_run empty_subscription_store sample_paid_store"
  using sub_step [OF sample_run call_period [OF sample_period_run]]
  by (simp add: sample_paid_store_def sample_period_run)

lemma sample_paid_stored:
  "map_of (ss_subscriptions sample_paid_store) ''sub'' =
    Some (sample_stored\<lparr>su_paidThroughCycle := 2, su_updatedAt := sample_march\<rparr>)"
  by (simp add: sample_paid_store_def sample_period_run)

theorem scheduler_grants_due_cycles_witness:
  "map_of (ss_subscriptions (fst (snd sample_scheduled))) ''sub'' =
    Some (sample_stored\<lparr>su_paidThroughCycle := 2, su_updatedAt := sample_march\<rparr>)"
  using scheduler_grants_due_cycles [OF sample_paid_run sample_scheduled_run sample_paid_stored]
  by (simp add: sample_stored_def)

text \<open>
  C15. Running the scheduler again does nothing: after a successful run over a reachable store, a
  second run at the same instant succeeds, grants no cycle, cancels no subscription and leaves the
  store and the ledger as they are.
\<close>

theorem scheduler_run_idempotent:
  assumes "sub_run empty_subscription_store st"
    and "run_scheduler grant listLots planFor asOf (st, l) = (Inr counts, (st', l'))"
  shows "run_scheduler grant listLots planFor asOf (st', l') =
    (Inr \<lparr>sn_cancelledSubscriptions = 0, sn_grantedCycles = 0\<rparr>, (st', l'))"
  by (rule credit_port.run_scheduler_again [OF sub_run_store_ok [OF assms(1) store_ok_empty] assms(2)])

theorem scheduler_run_idempotent_witness:
  "run_scheduler grant listLots no_plan sample_march (snd sample_scheduled) =
    (Inr \<lparr>sn_cancelledSubscriptions = 0, sn_grantedCycles = 0\<rparr>, snd sample_scheduled)"
  using scheduler_run_idempotent [OF sample_paid_run sample_scheduled_run] by simp

text \<open>
  Reconciliation reports exactly the missing grants: when it returns, it has raised one alert
  for every due cycle of every subscription that has no lot with its grant key, in order, and no
  other; and right after a successful run of the scheduler no alert concerns an active subscription.
\<close>

theorem reconcile_reports_missing_grants:
  assumes "sub_run empty_subscription_store st"
    and "run_scheduler grant listLots planFor asOf (st, l) = (Inr counts, (st', l'))"
    and "reconcile_scheduler listLots asOf st' l' [] = (Inr n, alerts)"
  shows "alerts = concat (map (\<lambda>x. map (missing_alert x) (missing_cycles listLots l' asOf x)) (listGrantCandidates st')) \<and>
    rn_alertedCycles n = length alerts \<and>
    (\<forall>x \<in> set (listGrantCandidates st'). su_status x = Active \<longrightarrow> missing_cycles listLots l' asOf x = [])"
proof -
  have ok: "store_ok st" by (rule sub_run_store_ok [OF assms(1) store_ok_empty])
  obtain now where eff: "run_effect listLots planFor asOf now (listGrantCandidates st) st l st' l'"
    using credit_port.run_scheduler_effect [OF ok assms(2)] by blast
  have ok': "store_ok st'" using eff ok by (simp add: run_effect_def)
  have "missing_cycles listLots l' asOf x = []" if x: "x \<in> set (listGrantCandidates st')" "su_status x = Active" for x
  proof -
    have here: "map_of (ss_subscriptions st') (su_id x) = Some x" using x(1) candidates_of_ok(2) [OF ok'] by blast
    have "su_id x \<in> su_id ` set (listGrantCandidates st)"
    proof (rule ccontr)
      assume "su_id x \<notin> su_id ` set (listGrantCandidates st)"
      moreover from this have "map_of (ss_subscriptions st) (su_id x) = Some x"
        using eff here by (simp add: run_effect_def)
      ultimately show False using candidates_of_ok(2) [OF ok] by blast
    qed
    then have "settled listLots planFor asOf now st' l' x" using eff here by (auto simp: run_effect_def)
    with x(2) show ?thesis by (auto simp: settled_def missing_cycles_def filter_empty_conv)
  qed
  with reconcile_loop_result [OF assms(3) [unfolded reconcile_scheduler_def]] show ?thesis by simp
qed

theorem reconcile_reports_missing_grants_witness:
  "\<exists>n alerts. reconcile_scheduler listLots sample_march (fst (snd sample_scheduled)) (snd (snd sample_scheduled)) [] =
     (Inr n, alerts) \<and> rn_alertedCycles n = length alerts \<and> rn_checkedCycles n = 2"
proof -
  have run: "reconcile_scheduler listLots sample_march (fst (snd sample_scheduled)) (snd (snd sample_scheduled)) [] =
     (Inr \<lparr>rn_alertedCycles = 0, rn_checkedCycles = 2\<rparr>, [])" by code_simp
  from reconcile_reports_missing_grants [OF sample_paid_run sample_scheduled_run run] run show ?thesis by auto
qed

end
