(* ===== verification/ProductUsage.thy ===== *)
theory ProductUsage
  imports Domain JsMap
begin

text \<open>
  Task-level product charging: the usage ledger of \<^verbatim>\<open>product-billing/product-usage-ledger.ts\<close>
  (\<^verbatim>\<open>MemoryProductUsageLedger\<close>), which reserves, settles and refunds the units and credits of one task, and
  the settlement of partly delivered work of
  \<^verbatim>\<open>product-billing/partial-delivery-settlement.ts\<close>. \<^verbatim>\<open>Math.round\<close> of a quotient of integers is taken
  exactly, which it is while the product in the numerator stays below \<open>2 ^ 52\<close>. The merchant-facing
  sentences of the settlement are a datatype, one constructor per sentence.
\<close>

section \<open>Data\<close>

datatype billing_mode = Per_request | Per_output_second
datatype settlement_kind = Estimated | Reconciled | Unknown
datatype usage_status = Reserved | Committed | Refunded | Partially_refunded

record 'n product_unit =
  pu_resource :: usage_resource
  pu_quantity :: 'n

type_synonym units = "int product_unit list"
type_synonym input_units = "js_number product_unit list"

record product_usage =
  pr_id :: string
  pr_taskId :: string
  pr_workspaceId :: string
  pr_quoteId :: string
  pr_status :: usage_status
  pr_reservedQuantity :: int
  pr_reservedCredits :: "int option"
  pr_reservedUnits :: "units option"
  pr_settledQuantity :: int
  pr_settledCredits :: "int option"
  pr_settledUnits :: "units option"
  pr_refundedQuantity :: int
  pr_refundedCredits :: "int option"
  pr_refundedUnits :: "units option"
  pr_billingMode :: billing_mode
  pr_settlementStatus :: settlement_kind
  pr_resource :: "usage_resource option"
  pr_createdAt :: string
  pr_updatedAt :: string

text \<open>The legacy quantities of the three inputs are integers; the units and credits are checked.\<close>

record reserve_usage_input =
  ri_id :: string
  ri_taskId :: string
  ri_workspaceId :: string
  ri_quoteId :: string
  ri_units :: "input_units option"
  ri_credits :: "js_number option"
  ri_quantity :: "int option"
  ri_billingMode :: billing_mode
  ri_resource :: "usage_resource option"
  ri_createdAt :: string

record replace_usage_input = reserve_usage_input +
  ri_expectedQuoteId :: string

record settle_usage_input =
  se_taskId :: string
  se_settledUnits :: "input_units option"
  se_settledQuantity :: "int option"
  se_refundCredits :: "js_number option"
  se_settlementStatus :: settlement_kind
  se_updatedAt :: string

record refund_usage_input =
  rf_taskId :: string
  rf_remainingUnits :: "input_units option"
  rf_remainingQuantity :: "int option"
  rf_updatedAt :: string

record usage_ledger =
  ul_byTask :: "(string, product_usage) js_map"
  ul_byId :: "(string, product_usage) js_map"

definition empty_usage_ledger :: usage_ledger where
  "empty_usage_ledger = \<lparr>ul_byTask = [], ul_byId = []\<rparr>"

section \<open>Units\<close>

definition assertNonNegativeQuantity :: "js_number \<Rightarrow> string \<Rightarrow> unit result" where
  "assertNonNegativeQuantity quantity field =
     check (number_isSafeInteger quantity \<and> int_of quantity \<ge> 0)
       (P1DomainError INVALID_STATE (field @ '' must be a non-negative integer product usage quantity.''))"

fun checked_units :: "input_units \<Rightarrow> string \<Rightarrow> units result" where
  "checked_units [] field = Inr []"
| "checked_units (u # us) field =
     r_bind (assertNonNegativeQuantity (pu_quantity u) (field @ ''.'' @ resource_name (pu_resource u))) (\<lambda>_.
     r_bind (checked_units us field) (\<lambda>rest.
       Inr (\<lparr>pu_resource = pu_resource u, pu_quantity = int_of (pu_quantity u)\<rparr> # rest)))"

definition by_resource :: "int product_unit comparator" where
  "by_resource l r = Some (locale_compare (resource_name (pu_resource l)) (resource_name (pu_resource r)))"

fun adjacent_same :: "units \<Rightarrow> bool" where
  "adjacent_same (u # v # us) = (pu_resource u = pu_resource v \<or> adjacent_same (v # us))"
| "adjacent_same _ = False"

definition normalizeUnits :: "input_units \<Rightarrow> string \<Rightarrow> units result" where
  "normalizeUnits us field =
     r_bind (checked_units us field) (\<lambda>checked.
       let normalized = js_sort by_resource (filter (\<lambda>u. pu_quantity u > 0) checked)
       in if adjacent_same normalized
          then Inl (P1DomainError INVALID_STATE
                 (field @ '' must contain at most one quantity per product resource.''))
          else Inr normalized)"

definition legacyUnits :: "usage_resource option \<Rightarrow> int \<Rightarrow> units" where
  "legacyUnits resource quantity =
     (case resource of
        Some r \<Rightarrow> if quantity > 0 then [\<lparr>pu_resource = r, pu_quantity = quantity\<rparr>] else []
      | None \<Rightarrow> [])"

definition as_input :: "units \<Rightarrow> input_units" where
  "as_input us = map (\<lambda>u. \<lparr>pu_resource = pu_resource u, pu_quantity = JInt (pu_quantity u)\<rparr>) us"

definition totalUnits :: "units \<Rightarrow> int" where
  "totalUnits us = sum_list (map pu_quantity us)"

text \<open>A \<^verbatim>\<open>Map\<close> from units keeps the last quantity of a resource.\<close>

definition quantity_of :: "units \<Rightarrow> usage_resource \<Rightarrow> int" where
  "quantity_of us r =
     (case map_of (rev (map (\<lambda>u. (pu_resource u, pu_quantity u)) us)) r of None \<Rightarrow> 0 | Some q \<Rightarrow> q)"

definition assertUnitsWithin :: "units \<Rightarrow> units \<Rightarrow> string \<Rightarrow> unit result" where
  "assertUnitsWithin candidate ceiling message =
     check (\<not> (\<exists>u \<in> set candidate. pu_quantity u > quantity_of ceiling (pu_resource u)))
       (P1DomainError INVALID_STATE message)"

definition subtractUnits :: "units \<Rightarrow> units \<Rightarrow> units" where
  "subtractUnits minuend subtrahend =
     filter (\<lambda>u. pu_quantity u > 0)
       (map (\<lambda>u. \<lparr>pu_resource = pu_resource u,
                   pu_quantity = pu_quantity u - quantity_of subtrahend (pu_resource u)\<rparr>) minuend)"

definition stored_units :: "units option \<Rightarrow> string \<Rightarrow> usage_resource option \<Rightarrow> int \<Rightarrow> units result" where
  "stored_units us field resource quantity =
     (case us of Some v \<Rightarrow> normalizeUnits (as_input v) field | None \<Rightarrow> Inr (legacyUnits resource quantity))"

definition reservedProductUsageUnits :: "product_usage \<Rightarrow> units result" where
  "reservedProductUsageUnits r =
     stored_units (pr_reservedUnits r) ''reservedUnits'' (pr_resource r) (pr_reservedQuantity r)"

definition settledProductUsageUnits :: "product_usage \<Rightarrow> units result" where
  "settledProductUsageUnits r =
     stored_units (pr_settledUnits r) ''settledUnits'' (pr_resource r) (pr_settledQuantity r)"

definition refundedProductUsageUnits :: "product_usage \<Rightarrow> units result" where
  "refundedProductUsageUnits r =
     stored_units (pr_refundedUnits r) ''refundedUnits'' (pr_resource r) (pr_refundedQuantity r)"

definition grantLotUsageOperationId :: "string \<Rightarrow> usage_resource \<Rightarrow> int \<Rightarrow> string" where
  "grantLotUsageOperationId taskId resource resourceCount =
     (if resourceCount = 1 then ''product-usage:'' @ taskId
      else ''product-usage:'' @ taskId @ '':'' @ resource_name resource)"

definition input_units_or :: "input_units option \<Rightarrow> usage_resource option \<Rightarrow> int option \<Rightarrow> input_units" where
  "input_units_or us resource quantity =
     (case us of Some v \<Rightarrow> v
      | None \<Rightarrow> as_input (legacyUnits resource (case quantity of None \<Rightarrow> 0 | Some q \<Rightarrow> q)))"

definition assert_usage_credits :: "js_number option \<Rightarrow> unit result" where
  "assert_usage_credits credits =
     check (case credits of None \<Rightarrow> True | Some c \<Rightarrow> number_isSafeInteger c \<and> int_of c \<ge> 1)
       (P1DomainError INVALID_STATE ''Product usage credits must be a positive integer.'')"

section \<open>The ledger\<close>

definition store_usage :: "string \<Rightarrow> product_usage \<Rightarrow> usage_ledger \<Rightarrow> usage_ledger" where
  "store_usage taskId r s =
     s\<lparr>ul_byTask := map_set taskId r (ul_byTask s), ul_byId := map_set (pr_id r) r (ul_byId s)\<rparr>"

definition new_usage :: "('a reserve_usage_input_scheme) \<Rightarrow> units \<Rightarrow> usage_resource option \<Rightarrow> string \<Rightarrow> product_usage" where
  "new_usage inp us resource createdAt =
     \<lparr> pr_id = ri_id inp, pr_taskId = ri_taskId inp, pr_workspaceId = ri_workspaceId inp,
       pr_quoteId = ri_quoteId inp, pr_status = Reserved, pr_reservedQuantity = totalUnits us,
       pr_reservedCredits = map_option int_of (ri_credits inp), pr_reservedUnits = Some us,
       pr_settledQuantity = 0, pr_settledCredits = None, pr_settledUnits = Some [],
       pr_refundedQuantity = 0, pr_refundedCredits = None, pr_refundedUnits = Some [],
       pr_billingMode = ri_billingMode inp, pr_settlementStatus = Estimated, pr_resource = resource,
       pr_createdAt = createdAt, pr_updatedAt = ri_createdAt inp \<rparr>"

definition reserve :: "reserve_usage_input \<Rightarrow> (usage_ledger, product_usage) op" where
  "reserve inp =
     guarded (normalizeUnits (input_units_or (ri_units inp) (ri_resource inp) (ri_quantity inp)) ''units'') (\<lambda>us.
     guarded (assert_usage_credits (ri_credits inp)) (\<lambda>_.
     guarded (check (\<not> blank (ri_taskId inp) \<and> \<not> blank (ri_quoteId inp) \<and> \<not> blank (ri_workspaceId inp))
                (P1DomainError INVALID_STATE
                   ''Product usage reserve requires taskId, quoteId, and workspaceId.'')) (\<lambda>_ s.
       case map_of (ul_byTask s) (ri_taskId inp) of
         Some existing \<Rightarrow>
           guarded (if pr_quoteId existing \<noteq> ri_quoteId inp then Inr False
                    else r_bind (reservedProductUsageUnits existing) (\<lambda>reserved.
                      Inr (reserved = us \<and> pr_workspaceId existing = ri_workspaceId inp \<and>
                           pr_reservedCredits existing = map_option int_of (ri_credits inp)))) (\<lambda>same s.
             if same then (Inr existing, s)
             else (Inl (P1DomainError IDEMPOTENCY_CONFLICT
                     (''Product usage for task '' @ ri_taskId inp @ '' is already reserved with different facts.'')), s)) s
       | None \<Rightarrow>
           (let r = new_usage inp us (case us of [u] \<Rightarrow> Some (pu_resource u) | _ \<Rightarrow> None) (ri_createdAt inp)
            in (Inr r, store_usage (ri_taskId inp) r s)))))"

definition replaceReservation :: "replace_usage_input \<Rightarrow> (usage_ledger, product_usage) op" where
  "replaceReservation inp s =
     (case map_of (ul_byTask s) (ri_taskId inp) of
        Some existing \<Rightarrow>
          guarded (check (pr_status existing = Reserved \<and> pr_quoteId existing = ri_expectedQuoteId inp \<and>
                          pr_id existing = ri_id inp)
                     (P1DomainError IDEMPOTENCY_CONFLICT
                        (''Product usage for task '' @ ri_taskId inp @ '' is not the expected reserved quote.''))) (\<lambda>_.
          guarded (normalizeUnits (case ri_units inp of None \<Rightarrow> [] | Some us \<Rightarrow> us) ''units'') (\<lambda>us.
          guarded (assert_usage_credits (ri_credits inp)) (\<lambda>_ s.
            let r = new_usage inp us None (pr_createdAt existing)
            in (Inr r, store_usage (ri_taskId inp) r s)))) s
      | None \<Rightarrow>
          (Inl (P1DomainError IDEMPOTENCY_CONFLICT
             (''Product usage for task '' @ ri_taskId inp @ '' is not the expected reserved quote.'')), s))"

definition resolvePartialRefundCredits :: "product_usage \<Rightarrow> settle_usage_input \<Rightarrow> int result" where
  "resolvePartialRefundCredits existing inp =
     (case se_refundCredits inp of
        None \<Rightarrow> Inr 0
      | Some c \<Rightarrow>
          r_bind (check (number_isSafeInteger c \<and> int_of c \<ge> 0)
                    (P1DomainError INVALID_STATE ''Partial settle refundCredits must be a non-negative integer.'')) (\<lambda>_.
          (case pr_reservedCredits existing of
             None \<Rightarrow>
               if int_of c = 0 then Inr 0
               else Inl (P1DomainError INVALID_STATE
                      (''Product usage for task '' @ pr_taskId existing @
                       '' reserved no credits; a credit refund cannot settle against it.''))
           | Some reserved \<Rightarrow>
               r_bind (check (int_of c \<le> reserved)
                         (P1DomainError INVALID_STATE
                            ''Partial settle refundCredits cannot exceed the reserved credits.'')) (\<lambda>_.
                 Inr (int_of c)))))"

definition is_settled :: "product_usage \<Rightarrow> bool" where
  "is_settled r \<longleftrightarrow> pr_status r \<in> {Committed, Partially_refunded, Refunded}"

definition settled_status :: "product_usage \<Rightarrow> int \<Rightarrow> int \<Rightarrow> int \<Rightarrow> usage_status" where
  "settled_status existing partialRefundCredits refundedQuantity settledQuantity =
     (if pr_reservedCredits existing = None \<or> partialRefundCredits = 0
      then (if refundedQuantity = 0 then Committed
            else if settledQuantity = 0 then Refunded else Partially_refunded)
      else if pr_reservedCredits existing = Some partialRefundCredits then Refunded
      else Partially_refunded)"

definition no_reservation :: "string \<Rightarrow> js_error" where
  "no_reservation taskId = P1DomainError NOT_FOUND (''No product usage reservation for task '' @ taskId @ ''.'')"

definition settled_record :: "product_usage \<Rightarrow> settle_usage_input \<Rightarrow> units \<Rightarrow> units \<Rightarrow> int \<Rightarrow> product_usage" where
  "settled_record existing inp settledUnits refundedUnits partialRefundCredits =
     existing
       \<lparr> pr_status := settled_status existing partialRefundCredits (totalUnits refundedUnits) (totalUnits settledUnits),
         pr_settledQuantity := totalUnits settledUnits,
         pr_settledCredits :=
           (case pr_reservedCredits existing of
              Some c \<Rightarrow> Some (c - partialRefundCredits) | None \<Rightarrow> pr_settledCredits existing),
         pr_settledUnits := Some settledUnits,
         pr_refundedQuantity := totalUnits refundedUnits,
         pr_refundedCredits :=
           (case pr_reservedCredits existing of
              Some c \<Rightarrow> Some partialRefundCredits | None \<Rightarrow> pr_refundedCredits existing),
         pr_refundedUnits := Some refundedUnits,
         pr_settlementStatus := se_settlementStatus inp, pr_updatedAt := se_updatedAt inp \<rparr>"

definition settle :: "settle_usage_input \<Rightarrow> (usage_ledger, product_usage) op" where
  "settle inp s =
     (case map_of (ul_byTask s) (se_taskId inp) of
        None \<Rightarrow> (Inl (no_reservation (se_taskId inp)), s)
      | Some existing \<Rightarrow>
          guarded (normalizeUnits (input_units_or (se_settledUnits inp) (pr_resource existing)
                     (se_settledQuantity inp)) ''settledUnits'') (\<lambda>settledUnits.
          guarded (resolvePartialRefundCredits existing inp) (\<lambda>partialRefundCredits s.
            if is_settled existing
            then guarded (settledProductUsageUnits existing) (\<lambda>already s.
                   if already = settledUnits \<and> pr_settlementStatus existing = se_settlementStatus inp \<and>
                      (case pr_refundedCredits existing of None \<Rightarrow> 0 | Some c \<Rightarrow> c) = partialRefundCredits
                   then (Inr existing, s)
                   else (Inl (P1DomainError IDEMPOTENCY_CONFLICT
                           (''Product usage for task '' @ se_taskId inp @ '' is already settled.'')), s)) s
            else guarded (reservedProductUsageUnits existing) (\<lambda>reserved.
                 guarded (assertUnitsWithin settledUnits reserved
                            ''Settled product quantity cannot exceed reserved product units.'') (\<lambda>_.
                 guarded (check (totalUnits settledUnits \<le> pr_reservedQuantity existing)
                            (P1DomainError INVALID_STATE
                               ''Settled product quantity cannot exceed reserved authorized ceiling.'')) (\<lambda>_ s.
                   let next_record = settled_record existing inp settledUnits (subtractUnits reserved settledUnits)
                                partialRefundCredits
                   in (Inr next_record, store_usage (se_taskId inp) next_record s)))) s)) s)"

text \<open>\<^verbatim>\<open>Math.round(p / q)\<close> of integers with a positive divisor: halves round up.\<close>

definition round_div :: "int \<Rightarrow> int \<Rightarrow> int" where
  "round_div p q = (2 * p + q) div (2 * q)"

definition refund_credits_split :: "product_usage \<Rightarrow> int \<Rightarrow> (int \<times> int) option" where
  "refund_credits_split existing remaining =
     (case pr_reservedCredits existing of
        None \<Rightarrow> None
      | Some c \<Rightarrow>
          Some (if pr_reservedQuantity existing = 0
                then (if remaining = 0 then (0, c) else (c, 0))
                else (round_div (c * remaining) (pr_reservedQuantity existing),
                      c - round_div (c * remaining) (pr_reservedQuantity existing))))"

definition refunded_record :: "product_usage \<Rightarrow> refund_usage_input \<Rightarrow> units \<Rightarrow> units \<Rightarrow> product_usage" where
  "refunded_record existing inp remainingUnits refundedUnits =
     (let remaining = totalUnits remainingUnits; split = refund_credits_split existing remaining
      in existing
        \<lparr> pr_status := (if remaining = 0 then Refunded
                        else if remaining = pr_reservedQuantity existing then Committed
                        else Partially_refunded),
          pr_settledQuantity := remaining, pr_settledUnits := Some remainingUnits,
          pr_refundedQuantity := totalUnits refundedUnits, pr_refundedUnits := Some refundedUnits,
          pr_settledCredits := (case split of Some (a, b) \<Rightarrow> Some a | None \<Rightarrow> pr_settledCredits existing),
          pr_refundedCredits := (case split of Some (a, b) \<Rightarrow> Some b | None \<Rightarrow> pr_refundedCredits existing),
          pr_settlementStatus := (if remaining = 0 then Reconciled else pr_settlementStatus existing),
          pr_updatedAt := rf_updatedAt inp \<rparr>)"

definition refund :: "refund_usage_input \<Rightarrow> (usage_ledger, product_usage) op" where
  "refund inp s =
     (case map_of (ul_byTask s) (rf_taskId inp) of
        None \<Rightarrow> (Inl (no_reservation (rf_taskId inp)), s)
      | Some existing \<Rightarrow>
          guarded (normalizeUnits (input_units_or (rf_remainingUnits inp) (pr_resource existing)
                     (rf_remainingQuantity inp)) ''remainingUnits'') (\<lambda>remainingUnits.
          let remaining = totalUnits remainingUnits
          in guarded (reservedProductUsageUnits existing) (\<lambda>reserved.
             guarded (assertUnitsWithin remainingUnits reserved
                        ''Refund remaining quantity cannot exceed reserved product units.'') (\<lambda>_.
             guarded (check (remaining \<le> pr_reservedQuantity existing)
                        (P1DomainError INVALID_STATE
                           ''Refund remaining quantity cannot exceed reserved quantity.'')) (\<lambda>_.
             guarded (settledProductUsageUnits existing) (\<lambda>already s.
               if already = remainingUnits \<and>
                  (pr_status existing = Refunded \<or> pr_status existing = Partially_refunded \<or>
                   pr_status existing = Committed \<and> remaining = pr_reservedQuantity existing)
               then (Inr existing, s)
               else
                 guarded (if is_settled existing
                          then assertUnitsWithin remainingUnits already
                                 ''Cannot increase settled product units via refund.''
                          else Inr ()) (\<lambda>_.
                 guarded (check (\<not> (is_settled existing \<and> remaining > pr_settledQuantity existing))
                            (P1DomainError INVALID_STATE
                               ''Cannot increase settled product quantity via refund.'')) (\<lambda>_ s.
                   let next_record = refunded_record existing inp remainingUnits (subtractUnits reserved remainingUnits)
                   in (Inr next_record, store_usage (rf_taskId inp) next_record s))) s))))) s)"

definition getByTask :: "usage_ledger \<Rightarrow> string \<Rightarrow> product_usage option" where
  "getByTask s taskId = map_of (ul_byTask s) taskId"

definition listByWorkspace :: "usage_ledger \<Rightarrow> string \<Rightarrow> product_usage list" where
  "listByWorkspace s ws = filter (\<lambda>r. pr_workspaceId r = ws) (map snd (ul_byTask s))"

definition restore :: "product_usage \<Rightarrow> usage_ledger \<Rightarrow> usage_ledger" where
  "restore r s = store_usage (pr_taskId r) r s"

section \<open>Partial delivery\<close>

text \<open>
  The four sentences of \<^verbatim>\<open>partialDeliveryRefundRule\<close>, in its order: nothing failed, credits are returned,
  the model does not refund failures, nothing was charged.
\<close>

datatype refund_rule = No_failed_units | Credits_returned int | Failures_not_refunded | Nothing_to_return

record partial_settlement =
  ps_totalUnits :: int
  ps_deliveredUnits :: int
  ps_failedUnits :: int
  ps_reservedCredits :: int
  ps_settledCredits :: int
  ps_refundCredits :: int
  ps_failureRefundsCredits :: bool
  ps_refundRule :: refund_rule

definition partialDeliveryRefundRule :: "int \<Rightarrow> int \<Rightarrow> bool \<Rightarrow> refund_rule" where
  "partialDeliveryRefundRule failedUnits refundCredits failureRefundsCredits =
     (if failedUnits = 0 then No_failed_units
      else if refundCredits > 0 then Credits_returned refundCredits
      else if \<not> failureRefundsCredits then Failures_not_refunded
      else Nothing_to_return)"

definition isPartialDeliveryBasis :: "js_number \<Rightarrow> js_number \<Rightarrow> bool" where
  "isPartialDeliveryBasis total_units delivered_units \<longleftrightarrow>
     number_isSafeInteger total_units \<and> number_isSafeInteger delivered_units \<and>
     int_of total_units > 0 \<and> int_of delivered_units \<ge> 0 \<and> int_of delivered_units \<le> int_of total_units"

definition computePartialCreditSettlement ::
    "js_number \<Rightarrow> js_number \<Rightarrow> js_number \<Rightarrow> bool \<Rightarrow> partial_settlement result" where
  "computePartialCreditSettlement total_units delivered_units reservedCredits failureRefundsCredits =
     r_bind (check (isPartialDeliveryBasis total_units delivered_units)
               (P1DomainError INVALID_STATE
                  ''Partial delivery settlement requires 0 <= deliveredUnits <= totalUnits with a positive totalUnits.'')) (\<lambda>_.
     r_bind (check (number_isSafeInteger reservedCredits \<and> int_of reservedCredits \<ge> 0)
               (P1DomainError INVALID_STATE
                  ''Partial delivery settlement requires non-negative integer reserved credits.'')) (\<lambda>_.
       let total = int_of total_units; delivered = int_of delivered_units; reserved = int_of reservedCredits;
           failedUnits = total - delivered;
           refundCredits = (if failedUnits > 0 \<and> failureRefundsCredits
                            then reserved - round_div (reserved * delivered) total else 0)
       in Inr \<lparr> ps_totalUnits = total, ps_deliveredUnits = delivered, ps_failedUnits = failedUnits,
                ps_reservedCredits = reserved, ps_settledCredits = reserved - refundCredits,
                ps_refundCredits = refundCredits, ps_failureRefundsCredits = failureRefundsCredits,
                ps_refundRule = partialDeliveryRefundRule failedUnits refundCredits failureRefundsCredits \<rparr>))"

record package_allocation =
  pk_allocationId :: string
  pk_deliveryUnits :: js_number
  pk_creditCost :: js_number
  pk_failureRefundsCredits :: bool

record delivered_allocation =
  dl_allocationId :: string
  dl_deliveredUnits :: js_number

record package_settlement =
  kt_allocations :: "(string \<times> partial_settlement) list"
  kt_reservedCredits :: int
  kt_settledCredits :: int
  kt_refundCredits :: int

definition isPackagePartialDeliveryBasis :: "delivered_allocation list \<Rightarrow> bool" where
  "isPackagePartialDeliveryBasis ds \<longleftrightarrow> ds \<noteq> [] \<and>
     (\<forall>d \<in> set ds. \<not> blank (dl_allocationId d) \<and> number_isSafeInteger (dl_deliveredUnits d) \<and>
        int_of (dl_deliveredUnits d) \<ge> 0)"

fun freeze_allocations ::
    "package_allocation list \<Rightarrow> (string, package_allocation) js_map \<Rightarrow> (string, package_allocation) js_map result" where
  "freeze_allocations [] frozen = Inr frozen"
| "freeze_allocations (a # as) frozen =
     r_bind (check (\<not> blank (pk_allocationId a) \<and> number_isSafeInteger (pk_deliveryUnits a) \<and>
                    int_of (pk_deliveryUnits a) \<ge> 1 \<and> number_isSafeInteger (pk_creditCost a) \<and>
                    int_of (pk_creditCost a) \<ge> 0)
               (P1DomainError INVALID_STATE ''Package quote contains an invalid credit allocation.'')) (\<lambda>_.
     r_bind (check (map_of frozen (pk_allocationId a) = None)
               (P1DomainError INVALID_STATE
                  (''Package quote contains duplicate allocation '' @ pk_allocationId a @ ''.''))) (\<lambda>_.
       freeze_allocations as (map_set (pk_allocationId a) a frozen)))"

fun collect_delivered ::
    "(string, package_allocation) js_map \<Rightarrow> delivered_allocation list \<Rightarrow> (string, int) js_map \<Rightarrow> (string, int) js_map result" where
  "collect_delivered frozen [] delivered = Inr delivered"
| "collect_delivered frozen (d # ds) delivered =
     r_bind (check (map_of delivered (dl_allocationId d) = None)
               (P1DomainError INVALID_STATE
                  (''Package partial delivery contains duplicate allocation '' @ dl_allocationId d @ ''.''))) (\<lambda>_.
     (case map_of frozen (dl_allocationId d) of
        None \<Rightarrow> Inl (P1DomainError INVALID_STATE
                  (''Package partial delivery contains unknown allocation '' @ dl_allocationId d @ ''.''))
      | Some f \<Rightarrow>
          r_bind (check (int_of (dl_deliveredUnits d) \<le> int_of (pk_deliveryUnits f))
                    (P1DomainError INVALID_STATE
                       (''Package allocation '' @ dl_allocationId d @ '' delivered more than its frozen units.''))) (\<lambda>_.
            collect_delivered frozen ds
              (map_set (dl_allocationId d) (int_of (dl_deliveredUnits d)) delivered))))"

fun settle_allocations ::
    "(string, int) js_map \<Rightarrow> package_allocation list \<Rightarrow> (string \<times> partial_settlement) list result" where
  "settle_allocations delivered [] = Inr []"
| "settle_allocations delivered (a # as) =
     r_bind (computePartialCreditSettlement (pk_deliveryUnits a)
               (case map_of delivered (pk_allocationId a) of Some n \<Rightarrow> JInt n | None \<Rightarrow> JNonInt)
               (pk_creditCost a) (pk_failureRefundsCredits a)) (\<lambda>p.
     r_bind (settle_allocations delivered as) (\<lambda>rest. Inr ((pk_allocationId a, p) # rest)))"

definition computePackagePartialCreditSettlement ::
    "package_allocation list \<Rightarrow> delivered_allocation list \<Rightarrow> package_settlement result" where
  "computePackagePartialCreditSettlement allocations partialDelivery =
     r_bind (check (isPackagePartialDeliveryBasis partialDelivery)
               (P1DomainError INVALID_STATE
                  ''Package partial delivery settlement requires allocation delivery evidence.'')) (\<lambda>_.
     r_bind (check (allocations \<noteq> [])
               (P1DomainError INVALID_STATE
                  ''Package partial delivery settlement requires at least one allocation.'')) (\<lambda>_.
     r_bind (freeze_allocations allocations []) (\<lambda>frozen.
     r_bind (collect_delivered frozen partialDelivery []) (\<lambda>delivered.
     r_bind (check (length delivered = length frozen)
               (P1DomainError INVALID_STATE
                  ''Package partial delivery must include every frozen allocation exactly once.'')) (\<lambda>_.
     r_bind (settle_allocations delivered allocations) (\<lambda>settled.
       Inr \<lparr> kt_allocations = settled,
             kt_reservedCredits = sum_list (map (\<lambda>(_, p). ps_reservedCredits p) settled),
             kt_settledCredits = sum_list (map (\<lambda>(_, p). ps_settledCredits p) settled),
             kt_refundCredits = sum_list (map (\<lambda>(_, p). ps_refundCredits p) settled) \<rparr>))))))"

end
