(* ===== verification/ProductUsageCorrect.thy ===== *)
theory ProductUsageCorrect
  imports ProductUsage
begin

text \<open>
  Lemmas on the product usage ledger: normalised units are a function from resources to quantities,
  what the reads of a stored record return, what the arithmetic of a partial settlement keeps, and the
  invariant of a stored usage record that every operation of the ledger preserves.
\<close>

section \<open>Units\<close>

text \<open>Normalised units: positive safe quantities, one per resource, in the order of the resource names.\<close>

definition units_ok :: "units \<Rightarrow> bool" where
  "units_ok us \<longleftrightarrow> distinct (map pu_resource us) \<and> sorted_wrt (cmp_le by_resource) us \<and>
     (\<forall>u \<in> set us. 0 < pu_quantity u \<and> is_safe (pu_quantity u))"

lemma cmp_le_by_resource:
  "cmp_le by_resource l r \<longleftrightarrow>
     collation_key (resource_name (pu_resource l)) \<le> collation_key (resource_name (pu_resource r))"
  by (simp add: cmp_le_def by_resource_def locale_compare_le_iff)

interpretation units_order: js_comparator by_resource "\<lambda>_. True"
  by unfold_locales (auto simp: cmp_le_by_resource)

lemma resource_key_inj:
  "collation_key (resource_name a) = collation_key (resource_name b) \<longleftrightarrow> a = b"
  by (cases a; cases b) (simp_all, code_simp+)

lemma js_sort_id: "sorted_wrt (cmp_le cmp) xs \<Longrightarrow> js_sort cmp xs = xs"
proof (induction xs)
  case (Cons x xs)
  then show ?case by (cases xs) auto
qed simp

lemma adjacent_same_sorted:
  "sorted_wrt (cmp_le by_resource) us \<Longrightarrow> \<not> adjacent_same us \<longleftrightarrow> distinct (map pu_resource us)"
proof (induction us rule: adjacent_same.induct)
  case (1 u v us)
  have "pu_resource u \<noteq> pu_resource w" if w: "w \<in> set us" and neq: "pu_resource u \<noteq> pu_resource v" for w
  proof
    assume "pu_resource u = pu_resource w"
    with w 1(2) have "cmp_le by_resource u v" "cmp_le by_resource v u"
      by (auto simp: cmp_le_by_resource)
    then have "collation_key (resource_name (pu_resource u)) = collation_key (resource_name (pu_resource v))"
      by (auto simp: cmp_le_by_resource)
    with neq show False by (simp add: resource_key_inj)
  qed
  with 1 show ?case by auto
qed auto

lemma checked_units_Inr:
  "checked_units us field = Inr vs \<longleftrightarrow>
     (\<forall>u \<in> set us. number_isSafeInteger (pu_quantity u) \<and> 0 \<le> int_of (pu_quantity u)) \<and>
     vs = map (\<lambda>u. \<lparr>pu_resource = pu_resource u, pu_quantity = int_of (pu_quantity u)\<rparr>) us"
  by (induction us arbitrary: vs) (auto simp: r_bind_Inr_iff assertNonNegativeQuantity_def)

lemma normalizeUnits_ok: "normalizeUnits us field = Inr vs \<Longrightarrow> units_ok vs"
proof -
  assume a: "normalizeUnits us field = Inr vs"
  then obtain cs where cs: "checked_units us field = Inr cs"
    "vs = js_sort by_resource (filter (\<lambda>u. pu_quantity u > 0) cs)" "\<not> adjacent_same vs"
    by (auto simp: normalizeUnits_def r_bind_Inr_iff Let_def split: if_splits)
  have sorted: "sorted_wrt (cmp_le by_resource) vs"
    unfolding cs(2) by (rule units_order.sort_sorted) simp
  moreover have "\<forall>u \<in> set vs. 0 < pu_quantity u \<and> is_safe (pu_quantity u)"
    using cs(1) unfolding cs(2) by (auto simp: checked_units_Inr number_isSafeInteger_iff)
  ultimately show ?thesis using cs(3) adjacent_same_sorted unfolding units_ok_def by blast
qed

lemma normalizeUnits_as_input: "units_ok us \<Longrightarrow> normalizeUnits (as_input us) field = Inr us"
proof -
  assume ok: "units_ok us"
  have "checked_units (as_input us) field = Inr us"
    using ok unfolding checked_units_Inr as_input_def units_ok_def
    by (auto simp: o_def intro!: map_idI [symmetric])
  moreover have "filter (\<lambda>u. pu_quantity u > 0) us = us"
    using ok by (simp add: units_ok_def filter_id_conv)
  moreover have "js_sort by_resource us = us" "\<not> adjacent_same us"
    using ok by (simp_all add: units_ok_def js_sort_id adjacent_same_sorted)
  ultimately show ?thesis by (simp add: normalizeUnits_def)
qed

lemma units_ok_Nil [simp]: "units_ok []"
  by (simp add: units_ok_def)

lemma units_ok_Cons:
  "units_ok (u # us) \<Longrightarrow> units_ok us \<and> pu_resource u \<notin> pu_resource ` set us \<and> 0 < pu_quantity u"
  by (simp add: units_ok_def)

text \<open>Normalised units are determined by their quantity of each resource.\<close>

lemma map_of_rev_distinct: "distinct (map fst xs) \<Longrightarrow> map_of (rev xs) = map_of xs"
  by (subst map_of_inject_set) (simp_all add: rev_map [symmetric])

lemma quantity_of_map_of:
  "distinct (map pu_resource us) \<Longrightarrow>
   quantity_of us r = (case map_of (map (\<lambda>u. (pu_resource u, pu_quantity u)) us) r of None \<Rightarrow> 0 | Some q \<Rightarrow> q)"
  unfolding quantity_of_def by (subst map_of_rev_distinct) (simp_all add: o_def)

lemma quantity_of_Nil [simp]: "quantity_of [] r = 0"
  by (simp add: quantity_of_def)

lemma quantity_of_Cons:
  "distinct (map pu_resource (u # us)) \<Longrightarrow>
   quantity_of (u # us) r = (if r = pu_resource u then pu_quantity u else quantity_of us r)"
  by (simp add: quantity_of_map_of)

lemma quantity_of_member:
  "distinct (map pu_resource us) \<Longrightarrow> u \<in> set us \<Longrightarrow> quantity_of us (pu_resource u) = pu_quantity u"
  by (induction us) (auto simp: quantity_of_Cons rev_image_eqI)

lemma quantity_of_absent: "distinct (map pu_resource us) \<Longrightarrow> r \<notin> pu_resource ` set us \<Longrightarrow> quantity_of us r = 0"
  by (induction us) (auto simp: quantity_of_Cons)

lemma quantity_of_nonneg: "units_ok us \<Longrightarrow> 0 \<le> quantity_of us r"
proof (induction us)
  case (Cons u us)
  with units_ok_Cons [OF Cons.prems] show ?case by (auto simp: quantity_of_Cons units_ok_def)
qed simp

lemma totalUnits_eq_sum:
  "distinct (map pu_resource us) \<Longrightarrow>
   totalUnits us = quantity_of us Copy + quantity_of us Image + quantity_of us Video + quantity_of us Audio"
proof (induction us)
  case Nil
  then show ?case by (simp add: totalUnits_def)
next
  case (Cons u us)
  then have "quantity_of us (pu_resource u) = 0" by (simp add: quantity_of_absent)
  with Cons show ?case by (cases "pu_resource u") (auto simp: totalUnits_def quantity_of_Cons)
qed

lemma totalUnits_nonneg: "units_ok us \<Longrightarrow> 0 \<le> totalUnits us"
  using quantity_of_nonneg by (simp add: totalUnits_eq_sum units_ok_def)

text \<open>The ceiling check compares resource by resource, and a subtraction within it is exact.\<close>

definition units_within :: "units \<Rightarrow> units \<Rightarrow> bool" where
  "units_within us ceiling \<longleftrightarrow> (\<forall>r. quantity_of us r \<le> quantity_of ceiling r)"

lemma assertUnitsWithin_Inr:
  assumes "units_ok us" and "units_ok ceiling"
  shows "assertUnitsWithin us ceiling m = Inr x \<longleftrightarrow> units_within us ceiling"
proof -
  have "(\<forall>u \<in> set us. pu_quantity u \<le> quantity_of ceiling (pu_resource u)) \<longleftrightarrow> units_within us ceiling"
  proof
    assume le: "\<forall>u \<in> set us. pu_quantity u \<le> quantity_of ceiling (pu_resource u)"
    show "units_within us ceiling" unfolding units_within_def
    proof
      fix r
      show "quantity_of us r \<le> quantity_of ceiling r"
        using le assms quantity_of_nonneg [OF assms(2), of r]
        by (cases "r \<in> pu_resource ` set us") (auto simp: quantity_of_member quantity_of_absent units_ok_def)
    qed
  next
    assume "units_within us ceiling"
    then show "\<forall>u \<in> set us. pu_quantity u \<le> quantity_of ceiling (pu_resource u)"
      using assms(1) by (metis quantity_of_member units_ok_def units_within_def)
  qed
  then show ?thesis unfolding assertUnitsWithin_def check_Inr_iff by (meson not_le)
qed

lemma subtractUnits_ok:
  assumes "units_ok us" and "units_ok vs"
  shows "units_ok (subtractUnits us vs)"
proof -
  define ws where "ws = map (\<lambda>u. \<lparr>pu_resource = pu_resource u,
      pu_quantity = pu_quantity u - quantity_of vs (pu_resource u)\<rparr>) us"
  have "map pu_resource ws = map pu_resource us" by (simp add: ws_def o_def)
  moreover have "sorted_wrt (cmp_le by_resource) ws"
    using assms(1) sorted_wrt_mono_rel [of us "cmp_le by_resource"]
    by (simp add: ws_def sorted_wrt_map units_ok_def cmp_le_by_resource [abs_def])
  moreover have "pu_quantity w \<le> MAX_SAFE_INTEGER" if w: "w \<in> set ws" for w
  proof -
    from w obtain u where u: "u \<in> set us" "pu_quantity w = pu_quantity u - quantity_of vs (pu_resource u)"
      by (auto simp: ws_def)
    moreover have "pu_quantity u \<le> MAX_SAFE_INTEGER" using assms(1) u(1) by (simp add: units_ok_def is_safe_def)
    ultimately show ?thesis using quantity_of_nonneg [OF assms(2), of "pu_resource u"] by simp
  qed
  ultimately show ?thesis using assms(1)
    unfolding subtractUnits_def ws_def [symmetric]
    by (auto simp: units_ok_def sorted_wrt_filter distinct_map_filter is_safe_def MAX_SAFE_INTEGER_def)
qed

lemma quantity_of_subtractUnits:
  assumes "units_ok us" and "units_within vs us" and "units_ok vs"
  shows "quantity_of (subtractUnits us vs) r = quantity_of us r - quantity_of vs r"
proof (cases "r \<in> pu_resource ` set us")
  case True
  then obtain u where u: "u \<in> set us" "r = pu_resource u" by auto
  let ?w = "\<lparr>pu_resource = r, pu_quantity = quantity_of us r - quantity_of vs r\<rparr>"
  have q: "quantity_of us r = pu_quantity u" using u assms(1) by (simp add: quantity_of_member units_ok_def)
  have d: "distinct (map pu_resource (subtractUnits us vs))"
    using subtractUnits_ok [OF assms(1,3)] by (simp add: units_ok_def)
  show ?thesis
  proof (cases "quantity_of us r - quantity_of vs r > 0")
    case True
    have "?w \<in> set (subtractUnits us vs)"
      unfolding subtractUnits_def set_filter set_map
      by (intro CollectI conjI image_eqI [OF _ u(1)]) (use True u(2) q in simp_all)
    from quantity_of_member [OF d this] show ?thesis by simp
  next
    case False
    have "r \<notin> pu_resource ` set (subtractUnits us vs)"
    proof
      assume "r \<in> pu_resource ` set (subtractUnits us vs)"
      then obtain v where v: "v \<in> set us" "pu_resource v = r" "pu_quantity v - quantity_of vs r > 0"
        by (auto simp: subtractUnits_def)
      then have "pu_quantity v = quantity_of us r"
        using assms(1) quantity_of_member [of us v] by (simp add: units_ok_def)
      with v False show False by simp
    qed
    moreover have "quantity_of vs r \<le> quantity_of us r" using assms(2) by (simp add: units_within_def)
    ultimately show ?thesis using False d by (simp add: quantity_of_absent)
  qed
next
  case False
  then have "r \<notin> pu_resource ` set (subtractUnits us vs)" by (auto simp: subtractUnits_def image_iff)
  moreover have "quantity_of us r = 0" using False assms(1) by (simp add: quantity_of_absent units_ok_def)
  moreover have "quantity_of vs r = 0"
    using assms(2) calculation(2) quantity_of_nonneg [OF assms(3), of r] unfolding units_within_def
    by (metis antisym)
  ultimately show ?thesis
    using subtractUnits_ok [OF assms(1,3)] by (simp add: quantity_of_absent units_ok_def)
qed

lemma totalUnits_mono:
  "units_ok us \<Longrightarrow> units_ok vs \<Longrightarrow> units_within us vs \<Longrightarrow> totalUnits us \<le> totalUnits vs"
  by (auto simp: totalUnits_eq_sum units_ok_def units_within_def intro!: add_mono)

lemma totalUnits_subtractUnits:
  assumes "units_ok us" and "units_ok vs" and "units_within vs us"
  shows "totalUnits (subtractUnits us vs) = totalUnits us - totalUnits vs"
  using assms subtractUnits_ok [OF assms(1,2)] quantity_of_subtractUnits [OF assms(1,3,2)]
  by (simp add: totalUnits_eq_sum units_ok_def)

section \<open>Rounding\<close>

lemma round_div_exact: "0 < q \<Longrightarrow> round_div (c * q) q = c"
  unfolding round_div_def by (rule int_div_pos_eq [of _ _ _ q]) auto

lemma round_div_zero: "0 < q \<Longrightarrow> round_div 0 q = 0"
  by (simp add: round_div_def)

lemma round_div_mono: "0 < q \<Longrightarrow> p \<le> p' \<Longrightarrow> round_div p q \<le> round_div p' q"
  by (simp add: round_div_def zdiv_mono1)

lemma round_div_bounds:
  assumes "0 \<le> d" and "d \<le> q" and "0 < q" and "0 \<le> c"
  shows "0 \<le> round_div (c * d) q" and "round_div (c * d) q \<le> c"
  using round_div_mono [of q 0 "c * d"] round_div_mono [of q "c * d" "c * q"] assms
  by (simp_all add: round_div_zero round_div_exact mult_left_mono)

text \<open>The rounded share is the integer nearest to the exact one.\<close>

lemma round_div_nearest: "0 < q \<Longrightarrow> 2 * \<bar>round_div p q * q - p\<bar> \<le> q"
proof -
  assume q: "0 < q"
  have "(2 * p + q) div (2 * q) * (2 * q) + (2 * p + q) mod (2 * q) = 2 * p + q" by (rule div_mult_mod_eq)
  moreover have "0 \<le> (2 * p + q) mod (2 * q)" "(2 * p + q) mod (2 * q) < 2 * q" using q by simp_all
  ultimately show ?thesis by (simp add: round_div_def abs_if)
qed

section \<open>The record invariant\<close>

text \<open>
  A stored usage record balances: a reservation has charged and returned nothing yet, and a settled
  record splits every reserved unit and every reserved credit into a charged and a returned part.
\<close>

definition settled_units_balanced :: "product_usage \<Rightarrow> bool" where
  "settled_units_balanced r \<longleftrightarrow>
     (case (pr_reservedUnits r, pr_settledUnits r, pr_refundedUnits r) of
        (Some us, Some st, Some rf) \<Rightarrow> units_ok st \<and> units_ok rf \<and>
          (\<forall>q. quantity_of st q + quantity_of rf q = quantity_of us q) \<and>
          pr_settledQuantity r = totalUnits st \<and> pr_refundedQuantity r = totalUnits rf
      | _ \<Rightarrow> False)"

definition settled_credits_balanced :: "product_usage \<Rightarrow> bool" where
  "settled_credits_balanced r \<longleftrightarrow>
     (case (pr_reservedCredits r, pr_settledCredits r, pr_refundedCredits r) of
        (None, None, None) \<Rightarrow> True
      | (Some c, Some a, Some b) \<Rightarrow> 0 \<le> a \<and> 0 \<le> b \<and> a + b = c
      | _ \<Rightarrow> False)"

definition nothing_settled :: "product_usage \<Rightarrow> bool" where
  "nothing_settled r \<longleftrightarrow>
     pr_settledUnits r = Some [] \<and> pr_refundedUnits r = Some [] \<and> pr_settledQuantity r = 0 \<and>
     pr_refundedQuantity r = 0 \<and> pr_settledCredits r = None \<and> pr_refundedCredits r = None"

definition reservation_ok :: "product_usage \<Rightarrow> bool" where
  "reservation_ok r \<longleftrightarrow>
     (case pr_reservedUnits r of None \<Rightarrow> False
      | Some us \<Rightarrow> units_ok us \<and> pr_reservedQuantity r = totalUnits us) \<and>
     (case pr_reservedCredits r of None \<Rightarrow> True | Some c \<Rightarrow> 1 \<le> c)"

definition usage_balanced :: "product_usage \<Rightarrow> bool" where
  "usage_balanced r \<longleftrightarrow> reservation_ok r \<and>
     (if pr_status r = Reserved then nothing_settled r
      else settled_units_balanced r \<and> settled_credits_balanced r)"

definition usage_ledger_ok :: "usage_ledger \<Rightarrow> bool" where
  "usage_ledger_ok s \<longleftrightarrow> distinct (map fst (ul_byTask s)) \<and>
     (\<forall>(k, r) \<in> set (ul_byTask s). pr_taskId r = k \<and> usage_balanced r)"

lemma is_settled_iff: "is_settled r \<longleftrightarrow> pr_status r \<noteq> Reserved"
  by (cases "pr_status r") (simp_all add: is_settled_def)

lemma ledger_ok_getD:
  "usage_ledger_ok s \<Longrightarrow> map_of (ul_byTask s) k = Some r \<Longrightarrow> pr_taskId r = k \<and> usage_balanced r"
  by (auto simp: usage_ledger_ok_def dest!: map_of_SomeD)

lemma ledger_ok_store:
  "usage_ledger_ok s \<Longrightarrow> usage_balanced r \<Longrightarrow> usage_ledger_ok (store_usage (pr_taskId r) r s)"
  using set_map_set [of "pr_taskId r" r "ul_byTask s"]
  by (auto simp: usage_ledger_ok_def store_usage_def distinct_map_set)

lemma reserved_units_read:
  "usage_balanced r \<Longrightarrow> \<exists>us. pr_reservedUnits r = Some us \<and> units_ok us \<and>
     pr_reservedQuantity r = totalUnits us \<and> reservedProductUsageUnits r = Inr us"
  by (auto simp: usage_balanced_def reservation_ok_def reservedProductUsageUnits_def stored_units_def
      normalizeUnits_as_input split: option.splits)

lemma settled_units_read:
  "usage_balanced r \<Longrightarrow> \<exists>us. pr_settledUnits r = Some us \<and> units_ok us \<and> settledProductUsageUnits r = Inr us"
  by (auto simp: usage_balanced_def settled_units_balanced_def nothing_settled_def settledProductUsageUnits_def
      stored_units_def normalizeUnits_as_input split: option.splits if_splits)

lemma credits_checked: "assert_usage_credits c = Inr () \<Longrightarrow> \<forall>n. map_option int_of c = Some n \<longrightarrow> 1 \<le> n"
  by (auto simp: assert_usage_credits_def split: option.splits)

lemma new_usage_balanced:
  assumes "units_ok us" and "assert_usage_credits (ri_credits inp) = Inr ()"
  shows "usage_balanced (new_usage inp us res t)"
  using assms credits_checked [OF assms(2)]
  by (auto simp: usage_balanced_def new_usage_def nothing_settled_def reservation_ok_def split: option.splits)

lemma resolved_refund_bounds:
  assumes "resolvePartialRefundCredits r inp = Inr p" and "usage_balanced r"
  shows "0 \<le> p \<and> (case pr_reservedCredits r of None \<Rightarrow> p = 0 | Some c \<Rightarrow> p \<le> c)"
  using assms
  by (auto simp: resolvePartialRefundCredits_def r_bind_Inr_iff usage_balanced_def reservation_ok_def
      split: option.splits if_splits)

lemma settled_record_balanced:
  assumes "usage_balanced r" and "pr_status r = Reserved" and "pr_reservedUnits r = Some us"
    and "units_ok st" and "units_within st us"
    and "0 \<le> p \<and> (case pr_reservedCredits r of None \<Rightarrow> p = 0 | Some c \<Rightarrow> p \<le> c)"
  shows "usage_balanced (settled_record r inp st (subtractUnits us st) p)"
proof -
  have us: "units_ok us" using assms(1,3) by (simp add: usage_balanced_def reservation_ok_def)
  have split: "quantity_of st q + quantity_of (subtractUnits us st) q = quantity_of us q" for q
    by (simp add: quantity_of_subtractUnits [OF us assms(5,4)])
  show ?thesis
    using assms us split subtractUnits_ok [OF us assms(4)]
    by (auto simp: usage_balanced_def settled_record_def settled_status_def reservation_ok_def nothing_settled_def
        settled_units_balanced_def settled_credits_balanced_def split: option.splits)
qed

lemma refund_split_bounds:
  assumes "refund_credits_split r remaining = Some (a, b)" and "0 \<le> remaining"
    and "remaining \<le> pr_reservedQuantity r" and "pr_reservedCredits r = Some c" and "1 \<le> c"
  shows "0 \<le> a \<and> 0 \<le> b \<and> a + b = c"
  using assms round_div_bounds [of remaining "pr_reservedQuantity r" c]
  by (auto simp: refund_credits_split_def split: if_splits)

lemma refunded_record_balanced:
  assumes "usage_balanced r" and "pr_reservedUnits r = Some us"
    and "units_ok st" and "units_within st us"
  shows "usage_balanced (refunded_record r inp st (subtractUnits us st))"
proof -
  have us: "units_ok us" "pr_reservedQuantity r = totalUnits us"
    using assms(1,2) by (simp_all add: usage_balanced_def reservation_ok_def)
  have split: "quantity_of st q + quantity_of (subtractUnits us st) q = quantity_of us q" for q
    by (simp add: quantity_of_subtractUnits [OF us(1) assms(4,3)])
  have le: "0 \<le> totalUnits st" "totalUnits st \<le> pr_reservedQuantity r"
    using assms(3,4) us by (simp_all add: totalUnits_nonneg totalUnits_mono)
  show ?thesis
  proof (cases "pr_reservedCredits r")
    case None
    with assms us split subtractUnits_ok [OF us(1) assms(3)] show ?thesis
      by (auto simp: usage_balanced_def refunded_record_def refund_credits_split_def reservation_ok_def Let_def
          nothing_settled_def settled_units_balanced_def settled_credits_balanced_def
          split: option.splits if_splits)
  next
    case (Some c)
    then obtain a b where ab: "refund_credits_split r (totalUnits st) = Some (a, b)"
      by (cases "refund_credits_split r (totalUnits st)") (auto simp: refund_credits_split_def)
    have "1 \<le> c" using assms(1) Some by (simp add: usage_balanced_def reservation_ok_def)
    from refund_split_bounds [OF ab le Some this] assms us split subtractUnits_ok [OF us(1) assms(3)] ab Some
    show ?thesis
      by (simp add: usage_balanced_def refunded_record_def reservation_ok_def Let_def
          settled_units_balanced_def settled_credits_balanced_def)
  qed
qed

section \<open>What each operation writes\<close>

text \<open>A call changes nothing, or files one balanced record under its task.\<close>

definition usage_write :: "usage_ledger \<Rightarrow> usage_ledger \<Rightarrow> bool" where
  "usage_write s s' \<longleftrightarrow> s' = s \<or> (\<exists>r. usage_balanced r \<and> s' = store_usage (pr_taskId r) r s)"

lemma usage_write_same [simp]: "usage_write s s"
  by (simp add: usage_write_def)

lemma usage_write_store: "usage_balanced r \<Longrightarrow> pr_taskId r = k \<Longrightarrow> usage_write s (store_usage k r s)"
  by (auto simp: usage_write_def)

lemma usage_write_ok: "usage_ledger_ok s \<Longrightarrow> usage_write s s' \<Longrightarrow> usage_ledger_ok s'"
  by (auto simp: usage_write_def ledger_ok_store)

lemma guarded_write: "(\<And>a. r = Inr a \<Longrightarrow> usage_write s (snd (f a s))) \<Longrightarrow> usage_write s (snd (guarded r f s))"
  by (cases r) auto

lemma new_usage_taskId [simp]: "pr_taskId (new_usage inp us res t) = ri_taskId inp"
  by (simp add: new_usage_def)

lemma settled_record_taskId [simp]: "pr_taskId (settled_record r inp st rf p) = pr_taskId r"
  by (simp add: settled_record_def)

lemma refunded_record_taskId [simp]: "pr_taskId (refunded_record r inp st rf) = pr_taskId r"
  by (simp add: refunded_record_def Let_def)

lemma reserve_writes: "usage_write s (snd (reserve inp s))"
  unfolding reserve_def Let_def
  by (intro guarded_write) (auto simp: guarded_def normalizeUnits_ok intro!: usage_write_store new_usage_balanced
      split: option.splits sum.splits if_splits)

lemma replaceReservation_writes: "usage_write s (snd (replaceReservation inp s))"
  unfolding replaceReservation_def Let_def
  by (auto simp: normalizeUnits_ok intro!: guarded_write usage_write_store new_usage_balanced split: option.splits)

lemma settle_writes:
  assumes "usage_ledger_ok s"
  shows "usage_write s (snd (settle inp s))"
proof (cases "map_of (ul_byTask s) (se_taskId inp)")
  case None
  then show ?thesis by (simp add: settle_def)
next
  case (Some r)
  from ledger_ok_getD [OF assms this] have r: "pr_taskId r = se_taskId inp" "usage_balanced r" by auto
  obtain us where us: "pr_reservedUnits r = Some us" "units_ok us" "reservedProductUsageUnits r = Inr us"
    using reserved_units_read [OF r(2)] by blast
  obtain already where already: "settledProductUsageUnits r = Inr already"
    using settled_units_read [OF r(2)] by blast
  show ?thesis unfolding settle_def Some option.case
  proof (intro guarded_write, goal_cases)
    case (1 st p)
    from normalizeUnits_ok [OF 1(1)] have st: "units_ok st" .
    show ?case
      using r(1) 1(2) settled_record_balanced [OF r(2) _ us(1) st _ resolved_refund_bounds [OF 1(2) r(2)]]
      by (auto simp: already us(3) is_settled_iff Let_def assertUnitsWithin_Inr [OF st us(2)]
          intro!: guarded_write usage_write_store)
  qed
qed

lemma refund_writes:
  assumes "usage_ledger_ok s"
  shows "usage_write s (snd (refund inp s))"
proof (cases "map_of (ul_byTask s) (rf_taskId inp)")
  case None
  then show ?thesis by (simp add: refund_def)
next
  case (Some r)
  from ledger_ok_getD [OF assms this] have r: "pr_taskId r = rf_taskId inp" "usage_balanced r" by auto
  obtain us where us: "pr_reservedUnits r = Some us" "units_ok us" "reservedProductUsageUnits r = Inr us"
    using reserved_units_read [OF r(2)] by blast
  show ?thesis unfolding refund_def Some option.case Let_def
  proof (intro guarded_write, goal_cases)
    case (1 st us' u v already)
    from normalizeUnits_ok [OF 1(1)] have st: "units_ok st" .
    from 1(2) us(3) have us': "us' = us" by simp
    from 1(3) have "units_within st us" by (simp add: us' assertUnitsWithin_Inr [OF st us(2)])
    from refunded_record_balanced [OF r(2) us(1) st this] show ?case
      by (auto simp: us' r(1) intro!: guarded_write usage_write_store)
  qed
qed

section \<open>Reachable ledgers\<close>

text \<open>
  Any sequence of calls, failing ones included; a repository may hydrate the ledger with a record such
  a ledger wrote before.
\<close>

inductive usage_step :: "usage_ledger \<Rightarrow> usage_ledger \<Rightarrow> bool" where
  reserve_step: "usage_step s (snd (reserve inp s))"
| replace_step: "usage_step s (snd (replaceReservation inp s))"
| settle_step: "usage_step s (snd (settle inp' s))"
| refund_step: "usage_step s (snd (refund inp'' s))"
| restore_step: "usage_balanced r \<Longrightarrow> usage_step s (restore r s)"

lemma usage_step_ok: "usage_step s s' \<Longrightarrow> usage_ledger_ok s \<Longrightarrow> usage_ledger_ok s'"
  by (induction rule: usage_step.induct)
    (auto intro: usage_write_ok reserve_writes replaceReservation_writes settle_writes refund_writes
      simp: restore_def ledger_ok_store)

lemma usage_reachable_ok: "usage_step\<^sup>*\<^sup>* empty_usage_ledger s \<Longrightarrow> usage_ledger_ok s"
proof (induction rule: rtranclp_induct)
  case base
  then show ?case by (simp add: empty_usage_ledger_def usage_ledger_ok_def)
next
  case (step s s')
  then show ?case by (blast intro: usage_step_ok)
qed

end
