(* ===== verification/ProductUsageProps.thy ===== *)
theory ProductUsageProps
  imports ProductUsageCorrect
begin

text \<open>
  Properties of task-level charging: what every usage record keeps in balance, that a settlement is
  final, and the arithmetic of partly delivered work, for one task and for a package of allocations.
\<close>

section \<open>The usage ledger\<close>

text \<open>
  C18. Usage records balance. In every state the ledger reaches, whatever calls were made and whichever
  of them failed, the record of a task is filed under that task; a reservation has charged and returned
  nothing; a settled record splits the reserved units of each resource, the reserved quantity and the
  reserved credits exactly into a charged and a returned part, neither of them negative.
\<close>

theorem usage_conserved:
  assumes "usage_step\<^sup>*\<^sup>* empty_usage_ledger s" and "getByTask s k = Some r"
  shows "pr_taskId r = k \<and> usage_balanced r \<and>
    (pr_status r \<noteq> Reserved \<longrightarrow>
       pr_settledQuantity r + pr_refundedQuantity r = pr_reservedQuantity r \<and>
       0 \<le> pr_settledQuantity r \<and> 0 \<le> pr_refundedQuantity r)"
proof -
  from ledger_ok_getD [OF usage_reachable_ok [OF assms(1)]] assms(2)
  have r: "pr_taskId r = k" "usage_balanced r" by (auto simp: getByTask_def)
  moreover have "pr_settledQuantity r + pr_refundedQuantity r = pr_reservedQuantity r \<and>
      0 \<le> pr_settledQuantity r \<and> 0 \<le> pr_refundedQuantity r" if "pr_status r \<noteq> Reserved"
  proof -
    from r(2) that obtain us st rf where u: "units_ok us" "units_ok st" "units_ok rf"
      "\<forall>q. quantity_of st q + quantity_of rf q = quantity_of us q" "pr_settledQuantity r = totalUnits st"
      "pr_refundedQuantity r = totalUnits rf" "pr_reservedQuantity r = totalUnits us"
      by (auto simp: usage_balanced_def settled_units_balanced_def reservation_ok_def split: option.splits)
    from u(4) have "quantity_of us q = quantity_of st q + quantity_of rf q" for q by simp
    with u(1-3) have "totalUnits us = totalUnits st + totalUnits rf"
      by (simp add: totalUnits_eq_sum units_ok_def)
    with u show ?thesis by (simp add: totalUnits_nonneg)
  qed
  ultimately show ?thesis by blast
qed

definition sample_reserve :: reserve_usage_input where
  "sample_reserve = \<lparr>ri_id = ''u1'', ri_taskId = ''t1'', ri_workspaceId = ''w1'', ri_quoteId = ''q1'',
     ri_units = Some [\<lparr>pu_resource = Image, pu_quantity = JInt 4\<rparr>, \<lparr>pu_resource = Copy, pu_quantity = JInt 2\<rparr>],
     ri_credits = Some (JInt 60), ri_quantity = None, ri_billingMode = Per_request, ri_resource = None,
     ri_createdAt = ''2026-01-01T00:00:00.000Z''\<rparr>"

definition sample_settle :: settle_usage_input where
  "sample_settle = \<lparr>se_taskId = ''t1'', se_settledUnits = Some [\<lparr>pu_resource = Image, pu_quantity = JInt 3\<rparr>],
     se_settledQuantity = None, se_refundCredits = Some (JInt 10), se_settlementStatus = Reconciled,
     se_updatedAt = ''2026-02-01T00:00:00.000Z''\<rparr>"

definition sample_ledger :: usage_ledger where
  "sample_ledger = snd (settle sample_settle (snd (reserve sample_reserve empty_usage_ledger)))"

lemma sample_reserved_reachable:
  "usage_step\<^sup>*\<^sup>* empty_usage_ledger (snd (reserve sample_reserve empty_usage_ledger))"
  by (blast intro: reserve_step)

lemma sample_ledger_reachable: "usage_step\<^sup>*\<^sup>* empty_usage_ledger sample_ledger"
  unfolding sample_ledger_def using sample_reserved_reachable by (rule rtranclp.rtrancl_into_rtrancl) (rule settle_step)

lemma sample_ledger_record:
  "case getByTask sample_ledger ''t1'' of None \<Rightarrow> False
   | Some r \<Rightarrow> pr_status r = Partially_refunded \<and> pr_reservedQuantity r = 6 \<and>
       pr_settledQuantity r = 3 \<and> pr_settledCredits r = Some 50"
  by code_simp

theorem usage_conserved_witness:
  "\<exists>r. getByTask sample_ledger ''t1'' = Some r \<and> usage_balanced r \<and> pr_refundedQuantity r = 3"
proof -
  obtain r where r: "getByTask sample_ledger ''t1'' = Some r" "pr_status r = Partially_refunded"
    "pr_reservedQuantity r = 6" "pr_settledQuantity r = 3"
    using sample_ledger_record by (auto split: option.splits)
  from usage_conserved [OF sample_ledger_reachable r(1)] r show ?thesis by auto
qed

lemma settle_settled:
  assumes "map_of (ul_byTask s) (se_taskId inp) = Some r" and "is_settled r"
  shows "settle inp s = (Inr r, s) \<or> (\<exists>e. settle inp s = (Inl e, s))"
  using assms by (simp add: settle_def guarded_def split: sum.splits)

lemma settle_stored:
  assumes "usage_ledger_ok s" and "settle inp s = (Inr r, s')"
  shows "map_of (ul_byTask s') (se_taskId inp) = Some r \<and> is_settled r \<and> usage_balanced r \<and>
    (\<exists>st p. normalizeUnits (input_units_or (se_settledUnits inp) (pr_resource r) (se_settledQuantity inp))
        ''settledUnits'' = Inr st \<and> settledProductUsageUnits r = Inr st \<and>
      resolvePartialRefundCredits r inp = Inr p \<and> pr_settlementStatus r = se_settlementStatus inp \<and>
      (case pr_refundedCredits r of None \<Rightarrow> 0 | Some c \<Rightarrow> c) = p)"
proof -
  from assms(2) obtain x where x: "map_of (ul_byTask s) (se_taskId inp) = Some x"
    by (auto simp: settle_def split: option.splits)
  have bx: "usage_balanced x" using ledger_ok_getD [OF assms(1) x] by simp
  from settle_writes [OF assms(1), of inp] assms(2) have ok': "usage_ledger_ok s'"
    using usage_write_ok [OF assms(1)] by simp
  from assms(2) x obtain st p where st: "normalizeUnits (input_units_or (se_settledUnits inp) (pr_resource x)
      (se_settledQuantity inp)) ''settledUnits'' = Inr st" "resolvePartialRefundCredits x inp = Inr p"
    by (auto simp: settle_def guarded_Inr)
  have pc: "0 \<le> p \<and> (case pr_reservedCredits x of None \<Rightarrow> p = 0 | Some c \<Rightarrow> p \<le> c)"
    by (rule resolved_refund_bounds [OF st(2) bx])
  show ?thesis
  proof (cases "is_settled x")
    case True
    with assms(2) x st bx show ?thesis
      by (auto simp: settle_def guarded_Inr split: if_splits)
  next
    case False
    then have res: "pr_status x = Reserved" by (simp add: is_settled_iff)
    from assms(2) x st False obtain us where us: "r = settled_record x inp st (subtractUnits us st) p"
      "s' = store_usage (se_taskId inp) r s"
      by (auto simp: settle_def guarded_Inr guarded_unit_Inr Let_def split: if_splits)
    then have m: "map_of (ul_byTask s') (se_taskId inp) = Some r" by (simp add: store_usage_def)
    have br: "usage_balanced r" using ledger_ok_getD [OF ok' m] by simp
    have "settledProductUsageUnits r = Inr st"
      using normalizeUnits_ok [OF st(1)] us(1)
      by (simp add: settled_record_def settledProductUsageUnits_def stored_units_def normalizeUnits_as_input)
    moreover have "resolvePartialRefundCredits r inp = resolvePartialRefundCredits x inp"
      by (auto simp: us(1) settled_record_def resolvePartialRefundCredits_def split: option.splits)
    moreover have "pr_resource r = pr_resource x" "is_settled r" "pr_settlementStatus r = se_settlementStatus inp"
      by (simp_all add: us(1) settled_record_def is_settled_iff settled_status_def)
    moreover have "(case pr_refundedCredits r of None \<Rightarrow> 0 | Some c \<Rightarrow> c) = p"
      using bx res pc by (auto simp: us(1) settled_record_def usage_balanced_def nothing_settled_def split: option.splits)
    ultimately show ?thesis using m br st by simp
  qed
qed

text \<open>
  A task is settled once. After a successful settlement, repeating it, at whatever time, returns the
  same record and changes nothing; no other settlement of the task changes anything either: it returns
  that record or fails, and it fails with \<^verbatim>\<open>IDEMPOTENCY_CONFLICT\<close> when it is well formed and disagrees
  on the settlement status.
\<close>

theorem settle_exactly_once:
  assumes "usage_step\<^sup>*\<^sup>* empty_usage_ledger s" and "settle inp s = (Inr r, s')"
  shows "settle (inp\<lparr>se_updatedAt := t\<rparr>) s' = (Inr r, s') \<and>
    (\<forall>other. se_taskId other = se_taskId inp \<longrightarrow>
       settle other s' = (Inr r, s') \<or> (\<exists>e. settle other s' = (Inl e, s'))) \<and>
    settle (inp\<lparr>se_settlementStatus := k\<rparr>) s' =
      (if k = se_settlementStatus inp then Inr r
       else Inl (P1DomainError IDEMPOTENCY_CONFLICT
              (''Product usage for task '' @ se_taskId inp @ '' is already settled.'')), s')"
proof -
  from settle_stored [OF usage_reachable_ok [OF assms(1)] assms(2)] obtain st p where
    r: "map_of (ul_byTask s') (se_taskId inp) = Some r" "is_settled r" and
    st: "normalizeUnits (input_units_or (se_settledUnits inp) (pr_resource r) (se_settledQuantity inp))
        ''settledUnits'' = Inr st" "settledProductUsageUnits r = Inr st"
      "resolvePartialRefundCredits r inp = Inr p" "pr_settlementStatus r = se_settlementStatus inp"
      "(case pr_refundedCredits r of None \<Rightarrow> 0 | Some c \<Rightarrow> c) = p" by blast
  have p: "resolvePartialRefundCredits r (inp\<lparr>se_updatedAt := t\<rparr>) = Inr p"
    "resolvePartialRefundCredits r (inp\<lparr>se_settlementStatus := k\<rparr>) = Inr p"
    using st(3) by (simp_all add: resolvePartialRefundCredits_def)
  show ?thesis
    using r st p settle_settled [of s' _ r] by (simp add: settle_def)
qed

theorem settle_exactly_once_witness:
  "\<exists>r. settle sample_settle sample_ledger = (Inr r, sample_ledger)"
proof -
  obtain r where "settle sample_settle (snd (reserve sample_reserve empty_usage_ledger)) = (Inr r, sample_ledger)"
  proof -
    have "isl (fst (settle sample_settle (snd (reserve sample_reserve empty_usage_ledger)))) = False" by code_simp
    then show thesis
      using that unfolding sample_ledger_def
      by (cases "settle sample_settle (snd (reserve sample_reserve empty_usage_ledger))"; cases "fst (settle sample_settle (snd (reserve sample_reserve empty_usage_ledger)))") auto
  qed
  from settle_exactly_once [OF sample_reserved_reachable this, of "se_updatedAt sample_settle"]
  show ?thesis by auto
qed

section \<open>Partly delivered work\<close>

lemma partial_settlement_Inr:
  "computePartialCreditSettlement tu du rc pol = Inr p \<longleftrightarrow>
     isPartialDeliveryBasis tu du \<and> number_isSafeInteger rc \<and> 0 \<le> int_of rc \<and>
     (let refunded = (if int_of du < int_of tu \<and> pol
                      then int_of rc - round_div (int_of rc * int_of du) (int_of tu) else 0)
      in p = \<lparr> ps_totalUnits = int_of tu, ps_deliveredUnits = int_of du, ps_failedUnits = int_of tu - int_of du,
               ps_reservedCredits = int_of rc, ps_settledCredits = int_of rc - refunded,
               ps_refundCredits = refunded, ps_failureRefundsCredits = pol,
               ps_refundRule = partialDeliveryRefundRule (int_of tu - int_of du) refunded pol \<rparr>)"
  by (auto simp: computePartialCreditSettlement_def r_bind_unit_Inr Let_def)

lemma partial_settlement_charge:
  assumes "computePartialCreditSettlement tu du rc True = Inr p"
  shows "ps_settledCredits p = round_div (ps_reservedCredits p * ps_deliveredUnits p) (ps_totalUnits p)"
  using assms by (auto simp: partial_settlement_Inr isPartialDeliveryBasis_def Let_def round_div_exact)

lemma partial_settlement_split:
  assumes "computePartialCreditSettlement tu du rc pol = Inr p"
  shows "ps_settledCredits p + ps_refundCredits p = ps_reservedCredits p \<and>
    0 \<le> ps_settledCredits p \<and> 0 \<le> ps_refundCredits p"
  using assms round_div_bounds [of "int_of du" "int_of tu" "int_of rc"]
  by (auto simp: partial_settlement_Inr isPartialDeliveryBasis_def Let_def)

text \<open>
  The arithmetic of a partial settlement. A computed settlement splits the reserved credits into a
  charged and a returned part, neither negative; nothing is returned when everything was delivered or
  the model does not refund failures, everything when nothing was delivered and it does; under that policy
  the charge is the integer nearest to the delivered share of the credits, and delivering more never
  charges less; the sentence shown to the merchant names a returned amount exactly when that amount is
  returned.
\<close>

theorem partial_settlement_arithmetic:
  assumes "computePartialCreditSettlement tu du rc pol = Inr p"
  shows "ps_settledCredits p + ps_refundCredits p = int_of rc \<and>
    0 \<le> ps_settledCredits p \<and> 0 \<le> ps_refundCredits p \<and>
    (int_of du = int_of tu \<or> \<not> pol \<longrightarrow> ps_refundCredits p = 0) \<and>
    (int_of du = 0 \<and> pol \<longrightarrow> ps_settledCredits p = 0) \<and>
    (pol \<longrightarrow> 2 * \<bar>ps_settledCredits p * int_of tu - int_of rc * int_of du\<bar> \<le> int_of tu) \<and>
    (\<forall>du' p'. computePartialCreditSettlement tu du' rc pol = Inr p' \<and> int_of du \<le> int_of du' \<longrightarrow>
       ps_settledCredits p \<le> ps_settledCredits p') \<and>
    (\<forall>n. ps_refundRule p = Credits_returned n \<longleftrightarrow> 0 < ps_refundCredits p \<and> n = ps_refundCredits p)"
proof -
  have b: "0 < int_of tu" "0 \<le> int_of rc"
    using assms by (auto simp: partial_settlement_Inr isPartialDeliveryBasis_def)
  have f: "ps_totalUnits p = int_of tu" "ps_deliveredUnits p = int_of du" "ps_reservedCredits p = int_of rc"
    using assms by (auto simp: partial_settlement_Inr Let_def)
  have near: "2 * \<bar>ps_settledCredits p * int_of tu - int_of rc * int_of du\<bar> \<le> int_of tu" if pol
    using partial_settlement_charge [of tu du rc p] assms that f round_div_nearest [OF b(1)] by simp
  have mono: "ps_settledCredits p \<le> ps_settledCredits p'"
    if q: "computePartialCreditSettlement tu du' rc pol = Inr p'" "int_of du \<le> int_of du'" for du' p'
  proof (cases pol)
    case True
    have "ps_totalUnits p' = int_of tu" "ps_deliveredUnits p' = int_of du'" "ps_reservedCredits p' = int_of rc"
      using q(1) by (auto simp: partial_settlement_Inr Let_def)
    moreover have "int_of rc * int_of du \<le> int_of rc * int_of du'" using b(2) q(2) by (rule mult_left_mono [rotated])
    ultimately show ?thesis
      using True q(1) assms f partial_settlement_charge [of tu du rc p] partial_settlement_charge [of tu du' rc p']
      by (simp add: round_div_mono [OF b(1)])
  next
    case False
    with q(1) assms show ?thesis by (simp add: partial_settlement_Inr Let_def)
  qed
  have edges: "(int_of du = int_of tu \<or> \<not> pol \<longrightarrow> ps_refundCredits p = 0) \<and>
      (int_of du = 0 \<and> pol \<longrightarrow> ps_settledCredits p = 0)"
    using assms b by (auto simp: partial_settlement_Inr Let_def round_div_zero)
  have rule: "ps_refundRule p = Credits_returned n \<longleftrightarrow> 0 < ps_refundCredits p \<and> n = ps_refundCredits p" for n
    using assms partial_settlement_split [OF assms]
    by (auto simp: partial_settlement_Inr Let_def partialDeliveryRefundRule_def)
  show ?thesis using partial_settlement_split [OF assms] f(3) near mono edges rule by auto
qed

theorem partial_settlement_arithmetic_witness:
  "\<exists>p. computePartialCreditSettlement (JInt 6) (JInt 5) (JInt 100) True = Inr p \<and>
     ps_settledCredits p = 83 \<and> ps_refundCredits p = 17 \<and> ps_refundRule p = Credits_returned 17"
proof -
  obtain p where p: "computePartialCreditSettlement (JInt 6) (JInt 5) (JInt 100) True = Inr p"
    "ps_settledCredits p = 83"
    by (simp add: partial_settlement_Inr isPartialDeliveryBasis_def is_safe_def MAX_SAFE_INTEGER_def round_div_def Let_def)
  from partial_settlement_arithmetic [OF p(1)] p show ?thesis by auto
qed

section \<open>Packages\<close>

text \<open>
  The delivery evidence of a package fits its frozen allocations: both are well formed, name the same
  allocations, each once, and no allocation delivered more than its units.
\<close>

definition allocation_valid :: "package_allocation \<Rightarrow> bool" where
  "allocation_valid a \<longleftrightarrow> \<not> blank (pk_allocationId a) \<and> number_isSafeInteger (pk_deliveryUnits a) \<and>
     int_of (pk_deliveryUnits a) \<ge> 1 \<and> number_isSafeInteger (pk_creditCost a) \<and> int_of (pk_creditCost a) \<ge> 0"

definition package_evidence_fits :: "package_allocation list \<Rightarrow> delivered_allocation list \<Rightarrow> bool" where
  "package_evidence_fits as ds \<longleftrightarrow> as \<noteq> [] \<and> isPackagePartialDeliveryBasis ds \<and>
     (\<forall>a \<in> set as. allocation_valid a) \<and> distinct (map pk_allocationId as) \<and>
     distinct (map dl_allocationId ds) \<and> dl_allocationId ` set ds = pk_allocationId ` set as \<and>
     (\<forall>a \<in> set as. \<forall>d \<in> set ds. dl_allocationId d = pk_allocationId a \<longrightarrow>
        int_of (dl_deliveredUnits d) \<le> int_of (pk_deliveryUnits a))"

lemma freeze_allocations_Inr:
  "freeze_allocations as frozen = Inr m \<longleftrightarrow>
     (\<forall>a \<in> set as. allocation_valid a) \<and> distinct (map pk_allocationId as) \<and>
     pk_allocationId ` set as \<inter> fst ` set frozen = {} \<and> m = frozen @ map (\<lambda>a. (pk_allocationId a, a)) as"
  by (induction as arbitrary: frozen)
    (auto simp: r_bind_unit_Inr allocation_valid_def map_of_eq_None_iff map_set_fresh image_iff)

lemma collect_delivered_Inr:
  "collect_delivered frozen ds delivered = Inr m \<longleftrightarrow>
     distinct (map dl_allocationId ds) \<and> dl_allocationId ` set ds \<inter> fst ` set delivered = {} \<and>
     (\<forall>d \<in> set ds. \<exists>a. map_of frozen (dl_allocationId d) = Some a \<and>
        int_of (dl_deliveredUnits d) \<le> int_of (pk_deliveryUnits a)) \<and>
     m = delivered @ map (\<lambda>d. (dl_allocationId d, int_of (dl_deliveredUnits d))) ds"
proof (induction ds arbitrary: delivered)
  case (Cons d ds)
  then show ?case
    by (cases "map_of frozen (dl_allocationId d)")
      (auto simp: r_bind_unit_Inr map_of_eq_None_iff [of delivered] map_set_fresh image_iff)
qed auto

text \<open>Every allocation of fitting evidence is settled by itself.\<close>

definition settles_alone :: "delivered_allocation list \<Rightarrow> package_allocation \<Rightarrow> string \<times> partial_settlement \<Rightarrow> bool" where
  "settles_alone ds a ip \<longleftrightarrow> fst ip = pk_allocationId a \<and>
     (\<forall>d \<in> set ds. dl_allocationId d = pk_allocationId a \<longrightarrow>
        computePartialCreditSettlement (pk_deliveryUnits a) (dl_deliveredUnits d) (pk_creditCost a)
          (pk_failureRefundsCredits a) = Inr (snd ip))"

lemma settle_allocations_Inr:
  "settle_allocations delivered as = Inr ps \<longleftrightarrow>
     list_all2 (\<lambda>a ip. fst ip = pk_allocationId a \<and>
       computePartialCreditSettlement (pk_deliveryUnits a)
         (case map_of delivered (pk_allocationId a) of Some n \<Rightarrow> JInt n | None \<Rightarrow> JNonInt)
         (pk_creditCost a) (pk_failureRefundsCredits a) = Inr (snd ip)) as ps"
  by (induction as arbitrary: ps) (auto simp: r_bind_Inr_iff list_all2_Cons1)

lemma settle_allocations_total:
  assumes "\<And>a. a \<in> set as \<Longrightarrow> allocation_valid a"
    and "\<And>a. a \<in> set as \<Longrightarrow> \<exists>n. map_of delivered (pk_allocationId a) = Some n \<and> 0 \<le> n \<and> n \<le> int_of (pk_deliveryUnits a)"
  shows "\<exists>ps. settle_allocations delivered as = Inr ps"
  using assms
proof (induction as)
  case (Cons a as)
  obtain n where n: "map_of delivered (pk_allocationId a) = Some n" "0 \<le> n" "n \<le> int_of (pk_deliveryUnits a)"
    using Cons.prems(2) [of a] by auto
  have "allocation_valid a" using Cons.prems(1) by simp
  with n have "isPartialDeliveryBasis (pk_deliveryUnits a) (JInt n)"
    by (auto simp: isPartialDeliveryBasis_def allocation_valid_def number_isSafeInteger_iff is_safe_def)
  with \<open>allocation_valid a\<close> obtain p where
    "computePartialCreditSettlement (pk_deliveryUnits a) (JInt n) (pk_creditCost a) (pk_failureRefundsCredits a) = Inr p"
    by (auto simp: computePartialCreditSettlement_def allocation_valid_def Let_def)
  moreover obtain ps where "settle_allocations delivered as = Inr ps"
    using Cons.IH Cons.prems by auto
  ultimately show ?case using n by simp
qed simp

lemma evidence_fits_iff:
  "package_evidence_fits as ds \<longleftrightarrow> isPackagePartialDeliveryBasis ds \<and> as \<noteq> [] \<and>
     (\<exists>frozen delivered. freeze_allocations as [] = Inr frozen \<and> collect_delivered frozen ds [] = Inr delivered \<and>
        length delivered = length frozen)"
proof -
  let ?frozen = "map (\<lambda>a. (pk_allocationId a, a)) as"
  have get: "map_of ?frozen k = Some a \<longleftrightarrow> a \<in> set as \<and> pk_allocationId a = k"
    if "distinct (map pk_allocationId as)" for k a
    using that by (auto simp: map_of_eq_Some_iff o_def)
  have sets: "dl_allocationId ` set ds = pk_allocationId ` set as"
    if "distinct (map dl_allocationId ds)" "distinct (map pk_allocationId as)" "length ds = length as"
      "dl_allocationId ` set ds \<subseteq> pk_allocationId ` set as"
    using that card_subset_eq [of "pk_allocationId ` set as" "dl_allocationId ` set ds"]
    by (metis distinct_card finite_imageI finite_set length_map set_map)
  have lens: "length ds = length as"
    if "distinct (map dl_allocationId ds)" "distinct (map pk_allocationId as)"
      "dl_allocationId ` set ds = pk_allocationId ` set as"
    using that by (metis distinct_card length_map set_map)
  show ?thesis (is "?L \<longleftrightarrow> ?R")
  proof
    assume fits: ?L
    then have d: "distinct (map pk_allocationId as)" by (simp add: package_evidence_fits_def)
    have "\<exists>a. map_of ?frozen (dl_allocationId x) = Some a \<and> int_of (dl_deliveredUnits x) \<le> int_of (pk_deliveryUnits a)"
      if x: "x \<in> set ds" for x
    proof -
      from fits x have "dl_allocationId x \<in> pk_allocationId ` set as"
        unfolding package_evidence_fits_def by blast
      then obtain a where a: "a \<in> set as" "dl_allocationId x = pk_allocationId a" by auto
      moreover from fits x a have "int_of (dl_deliveredUnits x) \<le> int_of (pk_deliveryUnits a)"
        by (simp add: package_evidence_fits_def)
      ultimately show ?thesis using get [OF d, of "dl_allocationId x" a] by auto
    qed
    with fits lens show ?R
      by (auto simp: package_evidence_fits_def freeze_allocations_Inr collect_delivered_Inr)
  next
    assume ?R
    then have r: "isPackagePartialDeliveryBasis ds" "as \<noteq> []" "\<forall>a \<in> set as. allocation_valid a"
      "distinct (map pk_allocationId as)" "distinct (map dl_allocationId ds)" "length ds = length as"
      "\<forall>x \<in> set ds. \<exists>a. map_of ?frozen (dl_allocationId x) = Some a \<and>
         int_of (dl_deliveredUnits x) \<le> int_of (pk_deliveryUnits a)"
      by (auto simp: freeze_allocations_Inr collect_delivered_Inr)
    have "dl_allocationId ` set ds \<subseteq> pk_allocationId ` set as"
    proof
      fix k
      assume "k \<in> dl_allocationId ` set ds"
      then obtain x where x: "x \<in> set ds" "k = dl_allocationId x" by blast
      from bspec [OF r(7) x(1)] obtain a where "map_of ?frozen k = Some a" unfolding x(2) by blast
      then show "k \<in> pk_allocationId ` set as" unfolding get [OF r(4)] by blast
    qed
    moreover have "int_of (dl_deliveredUnits x) \<le> int_of (pk_deliveryUnits a)"
      if ax: "a \<in> set as" "x \<in> set ds" "dl_allocationId x = pk_allocationId a" for a x
    proof -
      from get [OF r(4), of "dl_allocationId x" a] ax have "map_of ?frozen (dl_allocationId x) = Some a" by simp
      with bspec [OF r(7) ax(2)] show ?thesis by simp
    qed
    ultimately show ?L using r sets by (simp add: package_evidence_fits_def)
  qed
qed

lemma delivered_lookup:
  assumes "distinct (map dl_allocationId ds)" and "d \<in> set ds"
  shows "map_of (map (\<lambda>d. (dl_allocationId d, int_of (dl_deliveredUnits d))) ds) (dl_allocationId d) =
    Some (int_of (dl_deliveredUnits d))"
  using assms by (intro map_of_is_SomeI) (auto simp: o_def)

lemma package_settlement_Inr:
  "computePackagePartialCreditSettlement as ds = Inr k \<longleftrightarrow> package_evidence_fits as ds \<and>
     (\<exists>ps. settle_allocations (map (\<lambda>d. (dl_allocationId d, int_of (dl_deliveredUnits d))) ds) as = Inr ps \<and>
        k = \<lparr> kt_allocations = ps,
              kt_reservedCredits = sum_list (map (\<lambda>(_, p). ps_reservedCredits p) ps),
              kt_settledCredits = sum_list (map (\<lambda>(_, p). ps_settledCredits p) ps),
              kt_refundCredits = sum_list (map (\<lambda>(_, p). ps_refundCredits p) ps) \<rparr>)"
  unfolding evidence_fits_iff computePackagePartialCreditSettlement_def
  by (auto simp: r_bind_Inr_iff r_bind_unit_Inr collect_delivered_Inr)

lemma settlement_sums:
  assumes "list_all2 (\<lambda>a ip. \<exists>du. computePartialCreditSettlement (pk_deliveryUnits a) du (pk_creditCost a)
      (pk_failureRefundsCredits a) = Inr (snd ip)) as ps"
  shows "sum_list (map (\<lambda>(_, p). ps_reservedCredits p) ps) = sum_list (map (\<lambda>a. int_of (pk_creditCost a)) as) \<and>
    sum_list (map (\<lambda>(_, p). ps_settledCredits p) ps) + sum_list (map (\<lambda>(_, p). ps_refundCredits p) ps) =
      sum_list (map (\<lambda>a. int_of (pk_creditCost a)) as) \<and>
    0 \<le> sum_list (map (\<lambda>(_, p). ps_settledCredits p) ps) \<and> 0 \<le> sum_list (map (\<lambda>(_, p). ps_refundCredits p) ps)"
  using assms
proof (induction rule: list_all2_induct)
  case (Cons a as ip ps)
  then obtain du where du: "computePartialCreditSettlement (pk_deliveryUnits a) du (pk_creditCost a)
      (pk_failureRefundsCredits a) = Inr (snd ip)" by blast
  then have "ps_reservedCredits (snd ip) = int_of (pk_creditCost a)"
    by (simp add: partial_settlement_Inr Let_def)
  with partial_settlement_split [OF du] Cons.IH show ?case by (cases ip) auto
qed simp

lemma package_evidence:
  assumes "package_evidence_fits as ds" and "d \<in> set ds"
  shows "map_of (map (\<lambda>d. (dl_allocationId d, int_of (dl_deliveredUnits d))) ds) (dl_allocationId d) =
      Some (int_of (dl_deliveredUnits d)) \<and>
    dl_deliveredUnits d = JInt (int_of (dl_deliveredUnits d)) \<and> 0 \<le> int_of (dl_deliveredUnits d)"
  using assms delivered_lookup [of ds d]
  by (simp add: package_evidence_fits_def isPackagePartialDeliveryBasis_def number_isSafeInteger_iff)

lemma package_settlement_total:
  assumes fits: "package_evidence_fits as ds"
  shows "\<exists>ps. settle_allocations (map (\<lambda>d. (dl_allocationId d, int_of (dl_deliveredUnits d))) ds) as = Inr ps"
proof (rule settle_allocations_total)
  fix a
  assume a: "a \<in> set as"
  with fits show "allocation_valid a" by (simp add: package_evidence_fits_def)
  from fits a have "pk_allocationId a \<in> dl_allocationId ` set ds" by (simp add: package_evidence_fits_def)
  then obtain d where d: "d \<in> set ds" "pk_allocationId a = dl_allocationId d" by auto
  from fits a d have "int_of (dl_deliveredUnits d) \<le> int_of (pk_deliveryUnits a)"
    by (simp add: package_evidence_fits_def)
  with package_evidence [OF fits d(1)] d(2)
  show "\<exists>n. map_of (map (\<lambda>d. (dl_allocationId d, int_of (dl_deliveredUnits d))) ds) (pk_allocationId a) = Some n \<and>
      0 \<le> n \<and> n \<le> int_of (pk_deliveryUnits a)" by auto
qed

lemma package_settlement_split:
  assumes "computePackagePartialCreditSettlement as ds = Inr k"
  shows "kt_reservedCredits k = sum_list (map (\<lambda>a. int_of (pk_creditCost a)) as) \<and>
    kt_settledCredits k + kt_refundCredits k = kt_reservedCredits k \<and> 0 \<le> kt_settledCredits k \<and> 0 \<le> kt_refundCredits k"
proof -
  let ?del = "map (\<lambda>d. (dl_allocationId d, int_of (dl_deliveredUnits d))) ds"
  from assms obtain ps where ps: "settle_allocations ?del as = Inr ps"
    "kt_reservedCredits k = sum_list (map (\<lambda>(_, p). ps_reservedCredits p) ps)"
    "kt_settledCredits k = sum_list (map (\<lambda>(_, p). ps_settledCredits p) ps)"
    "kt_refundCredits k = sum_list (map (\<lambda>(_, p). ps_refundCredits p) ps)"
    by (auto simp: package_settlement_Inr)
  have "list_all2 (\<lambda>a ip. \<exists>du. computePartialCreditSettlement (pk_deliveryUnits a) du (pk_creditCost a)
      (pk_failureRefundsCredits a) = Inr (snd ip)) as ps"
    using ps(1) unfolding settle_allocations_Inr by (rule list_all2_mono) blast
  from settlement_sums [OF this] ps show ?thesis by simp
qed

text \<open>
  A package is settled allocation by allocation. The settlement of a package succeeds exactly when the
  delivery evidence fits the frozen allocations; then it holds, in the order of the allocations, the
  settlement of each allocation with its own price, its own policy and its own delivered units, its totals
  are the sums over the allocations, and charged and returned credits add up to the frozen credit costs.
\<close>

theorem package_settled_by_allocation:
  "((\<exists>k. computePackagePartialCreditSettlement as ds = Inr k) \<longleftrightarrow> package_evidence_fits as ds) \<and>
   (\<forall>k. computePackagePartialCreditSettlement as ds = Inr k \<longrightarrow>
     list_all2 (settles_alone ds) as (kt_allocations k) \<and>
     kt_reservedCredits k = sum_list (map (\<lambda>a. int_of (pk_creditCost a)) as) \<and>
     kt_settledCredits k + kt_refundCredits k = kt_reservedCredits k \<and>
     0 \<le> kt_settledCredits k \<and> 0 \<le> kt_refundCredits k)"
proof (rule conjI [OF _ allI [OF impI]])
  let ?del = "map (\<lambda>d. (dl_allocationId d, int_of (dl_deliveredUnits d))) ds"
  show "(\<exists>k. computePackagePartialCreditSettlement as ds = Inr k) \<longleftrightarrow> package_evidence_fits as ds"
    using package_settlement_total by (auto simp: package_settlement_Inr)
  fix k
  assume k: "computePackagePartialCreditSettlement as ds = Inr k"
  then obtain ps where fits: "package_evidence_fits as ds" and ps: "settle_allocations ?del as = Inr ps"
    "kt_allocations k = ps" by (auto simp: package_settlement_Inr)
  have "list_all2 (settles_alone ds) as ps"
    using ps(1) unfolding settle_allocations_Inr
    by (rule list_all2_mono) (auto simp: settles_alone_def dest!: package_evidence [OF fits] split: option.splits)
  with package_settlement_split [OF k] ps(2)
  show "list_all2 (settles_alone ds) as (kt_allocations k) \<and>
     kt_reservedCredits k = sum_list (map (\<lambda>a. int_of (pk_creditCost a)) as) \<and>
     kt_settledCredits k + kt_refundCredits k = kt_reservedCredits k \<and>
     0 \<le> kt_settledCredits k \<and> 0 \<le> kt_refundCredits k" by simp
qed

definition sample_package :: "package_allocation list" where
  "sample_package = [\<lparr>pk_allocationId = ''note'', pk_deliveryUnits = JInt 6, pk_creditCost = JInt 100, pk_failureRefundsCredits = True\<rparr>,
     \<lparr>pk_allocationId = ''video'', pk_deliveryUnits = JInt 1, pk_creditCost = JInt 300, pk_failureRefundsCredits = False\<rparr>]"

definition sample_delivery :: "delivered_allocation list" where
  "sample_delivery = [\<lparr>dl_allocationId = ''video'', dl_deliveredUnits = JInt 0\<rparr>, \<lparr>dl_allocationId = ''note'', dl_deliveredUnits = JInt 5\<rparr>]"

theorem package_settled_by_allocation_witness:
  "\<exists>k. computePackagePartialCreditSettlement sample_package sample_delivery = Inr k \<and>
     kt_reservedCredits k = 400 \<and> kt_settledCredits k + kt_refundCredits k = 400"
proof -
  have "package_evidence_fits sample_package sample_delivery" by code_simp
  then obtain k where k: "computePackagePartialCreditSettlement sample_package sample_delivery = Inr k"
    using package_settled_by_allocation [of sample_package sample_delivery] by blast
  moreover have "sum_list (map (\<lambda>a. int_of (pk_creditCost a)) sample_package) = 400" by (simp add: sample_package_def)
  ultimately show ?thesis using package_settled_by_allocation [of sample_package sample_delivery] by auto
qed

end
