(* ===== verification/ProviderCost.thy ===== *)
theory ProviderCost
  imports Complex_Main ProductUsage
begin

text \<open>
  Attempt-level supply costs, \<^verbatim>\<open>product-billing/provider-cost-snapshot.ts\<close>: the frozen snapshot of one provider
  attempt, the cost the platform absorbs, and \<^verbatim>\<open>MemoryProviderCostSnapshotStore\<close>, which merges a
  second snapshot of an attempt into the first. Prices and costs are finite numbers, taken as exact
  rationals; \<^verbatim>\<open>undefined\<close> is \<open>None\<close>, and where \<^verbatim>\<open>null\<close> is told apart from it, it is \<open>Some None\<close>.
\<close>

section \<open>Data\<close>

datatype evidence_kind = Provider_usage | Provider_bill | Media_duration | Evidence_estimated | Evidence_unknown
datatype payer = Platform | Workspace_byok
datatype billing_status = Known | Externally_billed | Billing_unknown | Billing_estimated
datatype failover_kind = Same_model_channel | Model_substitution

record failover_event =
  fo_kind :: failover_kind
  fo_fromCatalogModelId :: string
  fo_toCatalogModelId :: string
  fo_fromDeploymentId :: string
  fo_toDeploymentId :: string
  fo_fromExecutionChannelId :: "string option"
  fo_toExecutionChannelId :: "string option"
  fo_fromPriceRevision :: string
  fo_toPriceRevision :: string
  fo_degradationSurfaces :: "string list"

text \<open>What a caller tells about the cost of an attempt, without the identity of the attempt.\<close>

record provider_cost_input =
  pc_supplierPriceRevision :: string
  pc_billingMode :: billing_mode
  pc_unitPriceMicros :: rat
  pc_currency :: string
  pc_unit :: string
  pc_estimatedCostMicros :: "rat option"
  pc_observedCostMicros :: "rat option option"
  pc_usageQuantity :: "rat option"
  pc_usageUnit :: "string option"
  pc_evidence :: "string option"
  pc_evidenceKind :: "evidence_kind option"
  pc_supplyCostDeltaMicros :: "rat option"
  pc_failover :: "failover_event option"
  pc_payer :: "payer option"

record cost_snapshot =
  cs_attemptId :: string
  cs_taskId :: string
  cs_deploymentId :: string
  cs_supplierPriceRevision :: string
  cs_billingMode :: billing_mode
  cs_unitPriceMicros :: rat
  cs_currency :: string
  cs_unit :: string
  cs_estimatedCostMicros :: "rat option"
  cs_observedCostMicros :: "rat option option"
  cs_usageQuantity :: "rat option"
  cs_usageUnit :: "string option"
  cs_evidence :: "string option"
  cs_evidenceKind :: evidence_kind
  cs_supplyCostDeltaMicros :: "rat option"
  cs_failover :: "failover_event option"
  cs_payer :: payer
  cs_billingStatus :: billing_status

record cost_store =
  st_byAttempt :: "(string, cost_snapshot) js_map"
  st_byTask :: "(string, string list) js_map"

definition empty_cost_store :: cost_store where
  "empty_cost_store = \<lparr>st_byAttempt = [], st_byTask = []\<rparr>"

section \<open>Operations\<close>

definition isTrustedUsageEvidence :: "evidence_kind \<Rightarrow> bool" where
  "isTrustedUsageEvidence kind \<longleftrightarrow> kind \<in> {Provider_usage, Provider_bill, Media_duration}"

definition cost_billing_status :: "evidence_kind \<Rightarrow> rat option option \<Rightarrow> billing_status" where
  "cost_billing_status kind observed =
     (if kind = Evidence_unknown then Billing_unknown
      else if isTrustedUsageEvidence kind \<and> observed \<noteq> None \<and> observed \<noteq> Some None then Known
      else if kind = Evidence_estimated then Billing_estimated
      else Billing_unknown)"

definition buildProviderCostSnapshot ::
    "string \<Rightarrow> string \<Rightarrow> string \<Rightarrow> provider_cost_input \<Rightarrow> cost_snapshot result" where
  "buildProviderCostSnapshot attemptId taskId deploymentId inp =
     r_bind (check (\<not> blank attemptId \<and> \<not> blank taskId \<and> \<not> blank deploymentId)
               (P1DomainError INVALID_STATE
                  ''ProviderCostSnapshot requires attemptId, taskId, and deploymentId.'')) (\<lambda>_.
     r_bind (check (\<not> blank (pc_supplierPriceRevision inp))
               (P1DomainError INVALID_STATE ''ProviderCostSnapshot requires supplierPriceRevision.'')) (\<lambda>_.
       let evidenceKind = (case pc_evidenceKind inp of None \<Rightarrow> Evidence_estimated | Some k \<Rightarrow> k)
       in Inr \<lparr> cs_attemptId = attemptId, cs_taskId = taskId, cs_deploymentId = deploymentId,
                cs_supplierPriceRevision = pc_supplierPriceRevision inp, cs_billingMode = pc_billingMode inp,
                cs_unitPriceMicros = pc_unitPriceMicros inp, cs_currency = pc_currency inp, cs_unit = pc_unit inp,
                cs_estimatedCostMicros = pc_estimatedCostMicros inp,
                cs_observedCostMicros = pc_observedCostMicros inp, cs_usageQuantity = pc_usageQuantity inp,
                cs_usageUnit = pc_usageUnit inp, cs_evidence = pc_evidence inp, cs_evidenceKind = evidenceKind,
                cs_supplyCostDeltaMicros = pc_supplyCostDeltaMicros inp, cs_failover = pc_failover inp,
                cs_payer = (case pc_payer inp of None \<Rightarrow> Platform | Some y \<Rightarrow> y),
                cs_billingStatus = cost_billing_status evidenceKind (pc_observedCostMicros inp) \<rparr>))"

definition absorbOverproductionToSupplyCost :: "cost_snapshot \<Rightarrow> rat \<Rightarrow> cost_snapshot result" where
  "absorbOverproductionToSupplyCost snapshot overproductionCostMicros =
     r_bind (check (overproductionCostMicros \<ge> 0)
               (P1DomainError INVALID_STATE
                  ''overproductionCostMicros must be a finite non-negative number.'')) (\<lambda>_.
       Inr (snapshot\<lparr>cs_supplyCostDeltaMicros :=
         Some ((case cs_supplyCostDeltaMicros snapshot of None \<Rightarrow> 0 | Some d \<Rightarrow> d) + overproductionCostMicros)\<rparr>))"

text \<open>A defined field of the second snapshot of an attempt replaces that field of the first.\<close>

definition newer :: "'a option \<Rightarrow> 'a option \<Rightarrow> 'a option" where
  "newer old new = (case new of None \<Rightarrow> old | Some v \<Rightarrow> Some v)"

definition merge_cost :: "cost_snapshot \<Rightarrow> cost_snapshot \<Rightarrow> cost_snapshot" where
  "merge_cost existing snapshot =
     existing
       \<lparr> cs_observedCostMicros := newer (cs_observedCostMicros existing) (cs_observedCostMicros snapshot),
         cs_usageQuantity := newer (cs_usageQuantity existing) (cs_usageQuantity snapshot),
         cs_usageUnit := newer (cs_usageUnit existing) (cs_usageUnit snapshot),
         cs_evidence := newer (cs_evidence existing) (cs_evidence snapshot),
         cs_supplyCostDeltaMicros := newer (cs_supplyCostDeltaMicros existing) (cs_supplyCostDeltaMicros snapshot),
         cs_billingStatus := cs_billingStatus snapshot,
         cs_evidenceKind := cs_evidenceKind snapshot \<rparr>"

definition save_cost :: "cost_snapshot \<Rightarrow> (cost_store, cost_snapshot) op" where
  "save_cost snapshot s =
     (case map_of (st_byAttempt s) (cs_attemptId snapshot) of
        Some existing \<Rightarrow>
          guarded (check (cs_taskId existing = cs_taskId snapshot \<and> cs_deploymentId existing = cs_deploymentId snapshot \<and>
                          cs_supplierPriceRevision existing = cs_supplierPriceRevision snapshot)
                     (P1DomainError IDEMPOTENCY_CONFLICT
                        (''ProviderCostSnapshot '' @ cs_attemptId snapshot @ '' already exists with different facts.'')))
            (\<lambda>_ s. let merged = merge_cost existing snapshot
                   in (Inr merged, s\<lparr>st_byAttempt := map_set (cs_attemptId snapshot) merged (st_byAttempt s)\<rparr>)) s
      | None \<Rightarrow>
          (Inr snapshot,
           s\<lparr> st_byAttempt := map_set (cs_attemptId snapshot) snapshot (st_byAttempt s),
             st_byTask := map_set (cs_taskId snapshot)
               ((case map_of (st_byTask s) (cs_taskId snapshot) of None \<Rightarrow> [] | Some ids \<Rightarrow> ids) @ [cs_attemptId snapshot])
               (st_byTask s) \<rparr>))"

definition get_cost :: "cost_store \<Rightarrow> string \<Rightarrow> cost_snapshot option" where
  "get_cost s attemptId = map_of (st_byAttempt s) attemptId"

definition listForTask :: "cost_store \<Rightarrow> string \<Rightarrow> cost_snapshot list" where
  "listForTask s taskId =
     List.map_filter (map_of (st_byAttempt s))
       (case map_of (st_byTask s) taskId of None \<Rightarrow> [] | Some ids \<Rightarrow> ids)"

end
