(* ===== verification/ProductQuote.thy ===== *)
theory ProductQuote
  imports ProviderCost
begin

text \<open>
  The quote of a task, \<^verbatim>\<open>product-billing/quote-service.ts\<close> (\<^verbatim>\<open>ProductQuoteService\<close>): quote, confirm, reserve,
  dispatch, settle or fail, over the in-memory usage ledger and provider cost store it creates by
  default, with the arithmetic of \<^verbatim>\<open>product-billing/quote-math.ts\<close> and the data of
  \<^verbatim>\<open>packages/contracts/src/product-quote.ts\<close>.

  Rates, seconds and amounts are doubles in the code; here they are exact rationals, and \<open>NaN\<close> where the code
  asks whether a number is finite. The clock is read once per call: every method takes the instant
  \<open>now\<close>, as the text \<^verbatim>\<open>toISOString\<close> gives. The digests of \<^verbatim>\<open>node:crypto\<close> are parameters: \<open>sha\<close> of the text that is
  hashed and \<open>facts_sha\<close> of the facts whose JSON text is hashed.
\<close>

section \<open>Quote arithmetic\<close>

datatype js_double = Finite rat | NaN

definition applyBillableSecondsRules :: "rat \<Rightarrow> rat option \<Rightarrow> rat option \<Rightarrow> rat" where
  "applyBillableSecondsRules rawSeconds minChargeSeconds roundingStepSeconds =
     (let minimum = (case minChargeSeconds of None \<Rightarrow> 0 | Some m \<Rightarrow> m);
          step = (case roundingStepSeconds of None \<Rightarrow> 1 | Some s \<Rightarrow> s);
          floored = max rawSeconds minimum
      in if step \<le> 1 then floored else of_int \<lceil>floored / step\<rceil> * step)"

definition computeProductAmount :: "billing_mode \<Rightarrow> rat \<Rightarrow> rat option \<Rightarrow> rat" where
  "computeProductAmount billingMode unitRate billableSeconds =
     (if billingMode = Per_request then unitRate
      else unitRate * (case billableSeconds of None \<Rightarrow> 0 | Some s \<Rightarrow> s))"

text \<open>\<^verbatim>\<open>Math.round\<close>: halves round up.\<close>

definition js_round :: "rat \<Rightarrow> int" where
  "js_round x = \<lfloor>x + 1 / 2\<rfloor>"

section \<open>Data\<close>

datatype quote_status =
    Quoted | Quote_confirmed | Quote_reserved | Quote_dispatched | Quote_settled | Quote_refunded | Quote_failed

fun quote_status_name :: "quote_status \<Rightarrow> string" where
  "quote_status_name Quoted = ''quoted''"
| "quote_status_name Quote_confirmed = ''confirmed''"
| "quote_status_name Quote_reserved = ''reserved''"
| "quote_status_name Quote_dispatched = ''dispatched''"
| "quote_status_name Quote_settled = ''settled''"
| "quote_status_name Quote_refunded = ''refunded''"
| "quote_status_name Quote_failed = ''failed''"

datatype carrier = Note_carrier | Copy_carrier | Media_carrier

record quote_allocation = package_allocation +
  qa_carrier :: carrier
  qa_operation :: string
  qa_modelId :: string
  qa_modelRevision :: string
  qa_routeSnapshotRef :: string
  qa_rightsRevisionRefs :: "string list"

record package_contract =
  pk_contractHash :: string
  pk_allocations :: "quote_allocation list"

text \<open>The text of a formula: the caller's, or the rate written out.\<close>

datatype formula_text = Formula string | Rate_per_request rat | Rate_per_second rat

record build_quote_input =
  bi_quoteId :: string
  bi_catalogModelId :: string
  bi_operation :: "string option"
  bi_catalogModelRevision :: "string option"
  bi_quotePolicyRevision :: string
  bi_submissionContractHash :: "string option"
  bi_submissionPromptHash :: "string option"
  bi_submissionReferenceAssetsHash :: "string option"
  bi_submissionInputAssetsHash :: "string option"
  bi_billingMode :: billing_mode
  bi_creditCost :: "js_number option"
  bi_failureRefundsCredits :: "bool option"
  bi_debitUnits :: "input_units option"
  bi_outputCount :: "js_number option"
  bi_packageContract :: "package_contract option"
  bi_outputLabel :: "string option"
  bi_unitRate :: js_double
  bi_currency :: "string option"
  bi_formulaExpression :: "string option"
  bi_targetSeconds :: "js_double option"
  bi_minChargeSeconds :: "rat option"
  bi_roundingStepSeconds :: "rat option"
  bi_routeSnapshotRef :: "string option"
  bi_frozenCandidateDeploymentIds :: "string list option"
  bi_workspaceId :: "string option"
  bi_taskId :: "string option"
  bi_authorizedCeiling :: "rat option"
  bi_expiresAt :: "string option"

text \<open>The part of a snapshot that is written once, when the quote is built.\<close>

record quote_terms =
  qt_quoteId :: string
  qt_revision :: string
  qt_workspaceId :: "string option"
  qt_catalogModelId :: string
  qt_operation :: "string option"
  qt_catalogModelRevision :: "string option"
  qt_quotePolicyRevision :: string
  qt_submissionContractHash :: "string option"
  qt_submissionPromptHash :: "string option"
  qt_submissionReferenceAssetsHash :: "string option"
  qt_submissionInputAssetsHash :: "string option"
  qt_extraConfirmThreshold :: rat
  qt_billingMode :: billing_mode
  qt_creditCost :: "int option"
  qt_debitUnits :: "input_units option"
  qt_failureRefundsCredits :: "bool option"
  qt_outputCount :: "int option"
  qt_packageContract :: "package_contract option"
  qt_outputLabel :: "string option"
  qt_unitRate :: rat
  qt_currency :: "string option"
  qt_expression :: formula_text
  qt_targetSeconds :: "js_double option"
  qt_quotedSeconds :: "rat option"
  qt_minChargeSeconds :: "rat option"
  qt_roundingStepSeconds :: "rat option"
  qt_routeSnapshotRef :: "string option"
  qt_frozenCandidateDeploymentIds :: "string list option"
  qt_createdAt :: string
  qt_expiresAt :: "string option"

record quote = quote_terms +
  q_taskId :: "string option"
  q_confirmedAmount :: "rat option"
  q_authorizedCeiling :: "rat option"
  q_billedSeconds :: "rat option"
  q_settlementStatus :: "settlement_kind option"
  q_lifecycleStatus :: quote_status
  q_settledAmount :: "rat option"
  q_refundedAmount :: "rat option"
  q_platformAbsorbedAmount :: "rat option"
  q_confirmedAt :: "string option"
  q_reservedAt :: "string option"
  q_settledAt :: "string option"

text \<open>The service with the ledger and the store its constructor creates.\<close>

record quote_service =
  qs_quotes :: "(string, quote) js_map"
  qs_taskIndex :: "(string, string) js_map"
  qs_usage :: usage_ledger
  qs_costs :: cost_store

definition empty_quote_service :: quote_service where
  "empty_quote_service = \<lparr>qs_quotes = [], qs_taskIndex = [], qs_usage = empty_usage_ledger, qs_costs = empty_cost_store\<rparr>"

definition on_usage :: "(usage_ledger, 'a) op \<Rightarrow> (quote_service, 'a) op" where
  "on_usage work s = (case work (qs_usage s) of (r, u) \<Rightarrow> (r, s\<lparr>qs_usage := u\<rparr>))"

definition on_costs :: "(cost_store, 'a) op \<Rightarrow> (quote_service, 'a) op" where
  "on_costs work s = (case work (qs_costs s) of (r, c) \<Rightarrow> (r, s\<lparr>qs_costs := c\<rparr>))"

definition put_quote :: "quote \<Rightarrow> quote_service \<Rightarrow> quote_service" where
  "put_quote q s = s\<lparr>qs_quotes := map_set (qt_quoteId q) q (qs_quotes s)\<rparr>"

definition requireQuote :: "string \<Rightarrow> quote_service \<Rightarrow> quote result" where
  "requireQuote quoteId s =
     (case map_of (qs_quotes s) quoteId of
        Some q \<Rightarrow> Inr q
      | None \<Rightarrow> Inl (P1DomainError NOT_FOUND (''Quote '' @ quoteId @ '' was not found.'')))"

section \<open>Checks\<close>

definition assertProductUsageUnitQuantity :: "js_number \<Rightarrow> string \<Rightarrow> unit result" where
  "assertProductUsageUnitQuantity quantity field =
     check (number_isSafeInteger quantity \<and> int_of quantity \<ge> 1)
       (P1DomainError INVALID_STATE (field @ '' must be a positive integer product usage quantity.''))"

fun units_loop :: "input_units \<Rightarrow> usage_resource list \<Rightarrow> unit result" where
  "units_loop [] resources = Inr ()"
| "units_loop (u # us) resources =
     r_bind (assertProductUsageUnitQuantity (pu_quantity u) (resource_name (pu_resource u) @ '' quantity'')) (\<lambda>_.
     r_bind (check (pu_resource u \<notin> set resources)
               (P1DomainError INVALID_STATE ''Product usage reserve requires one quantity per product resource.'')) (\<lambda>_.
       units_loop us (pu_resource u # resources)))"

definition assertProductUsageUnits :: "input_units \<Rightarrow> unit result" where
  "assertProductUsageUnits us =
     r_bind (check (us \<noteq> [])
               (P1DomainError INVALID_STATE ''Product usage reserve requires at least one product resource.'')) (\<lambda>_.
       units_loop us [])"

text \<open>The carrier of an allocation is one of the three by its type.\<close>

definition carrier_allocation_ok :: "quote_allocation \<Rightarrow> string list \<Rightarrow> bool" where
  "carrier_allocation_ok a ids \<longleftrightarrow>
     \<not> blank (pk_allocationId a) \<and> pk_allocationId a \<notin> set ids \<and>
     number_isSafeInteger (pk_deliveryUnits a) \<and> int_of (pk_deliveryUnits a) \<ge> 1 \<and>
     number_isSafeInteger (pk_creditCost a) \<and> int_of (pk_creditCost a) \<ge> 0 \<and>
     \<not> blank (qa_operation a) \<and> \<not> blank (qa_modelId a) \<and> \<not> blank (qa_modelRevision a) \<and>
     \<not> blank (qa_routeSnapshotRef a) \<and> qa_rightsRevisionRefs a \<noteq> [] \<and>
     \<not> (\<exists>reference \<in> set (qa_rightsRevisionRefs a). blank reference)"

fun package_totals :: "quote_allocation list \<Rightarrow> string list \<Rightarrow> int \<Rightarrow> int \<Rightarrow> (int \<times> int) result" where
  "package_totals [] ids totalDeliveryUnits totalCreditCost = Inr (totalDeliveryUnits, totalCreditCost)"
| "package_totals (a # as) ids totalDeliveryUnits totalCreditCost =
     r_bind (check (carrier_allocation_ok a ids)
               (P1DomainError INVALID_STATE ''Package quote contains an invalid carrier allocation.'')) (\<lambda>_.
       package_totals as (pk_allocationId a # ids) (totalDeliveryUnits + int_of (pk_deliveryUnits a))
         (totalCreditCost + int_of (pk_creditCost a)))"

definition assertPackageQuoteTotals :: "build_quote_input \<Rightarrow> unit result" where
  "assertPackageQuoteTotals inp =
     (case bi_packageContract inp of
        None \<Rightarrow> Inr ()
      | Some contract \<Rightarrow>
          r_bind (check (\<not> blank (pk_contractHash contract) \<and> pk_allocations contract \<noteq> [])
                    (P1DomainError INVALID_STATE
                       ''Package quote requires a server contract hash and at least one allocation.'')) (\<lambda>_.
          r_bind (package_totals (pk_allocations contract) [] 0 0) (\<lambda>(units, credits).
            check (is_safe units \<and> is_safe credits \<and> bi_outputCount inp = Some (JInt units) \<and>
                   bi_creditCost inp = Some (JInt credits))
              (P1DomainError INVALID_STATE
                 ''Package quote outputCount and creditCost must equal the allocation totals.''))))"

section \<open>Building a quote\<close>

type_synonym hashed_facts =
  "(billing_mode \<times> string \<times> string option \<times> js_number option \<times> input_units option) \<times>
   (bool option \<times> string option \<times> rat option \<times> js_number option \<times> string option) \<times>
   (string option \<times> package_contract option \<times> string \<times> string option \<times> string option) \<times>
   (string option \<times> string option \<times> rat option \<times> js_double option \<times> js_double)"

definition revision_facts :: "build_quote_input \<Rightarrow> hashed_facts" where
  "revision_facts inp =
     ((bi_billingMode inp, bi_catalogModelId inp, bi_catalogModelRevision inp, bi_creditCost inp, bi_debitUnits inp),
      (bi_failureRefundsCredits inp, bi_expiresAt inp, bi_minChargeSeconds inp, bi_outputCount inp, bi_outputLabel inp),
      (bi_operation inp, bi_packageContract inp, bi_quotePolicyRevision inp, bi_submissionContractHash inp,
       bi_submissionPromptHash inp),
      (bi_submissionReferenceAssetsHash inp, bi_submissionInputAssetsHash inp, bi_roundingStepSeconds inp,
       bi_targetSeconds inp, bi_unitRate inp))"

definition revisionFor :: "(hashed_facts \<Rightarrow> string) \<Rightarrow> build_quote_input \<Rightarrow> string" where
  "revisionFor facts_sha inp = take 16 (facts_sha (revision_facts inp))"

definition usageIdFor :: "(string \<Rightarrow> string) \<Rightarrow> string \<Rightarrow> string \<Rightarrow> string" where
  "usageIdFor sha taskId quoteId = ''product-usage-'' @ take 20 (sha (taskId @ '':'' @ quoteId))"

text \<open>\<^verbatim>\<open>Number.EPSILON\<close> is \<open>2 ^ -52\<close>.\<close>

definition extraConfirmThresholdFor :: "string \<Rightarrow> rat" where
  "extraConfirmThresholdFor quotePolicyRevision =
     (if quotePolicyRevision = ''quote.policy@1'' then 20 else 1 / 2 ^ 52)"

definition invalid :: "string \<Rightarrow> js_error" where
  "invalid message = P1DomainError INVALID_STATE message"

fun double_ok :: "(rat \<Rightarrow> bool) \<Rightarrow> js_double \<Rightarrow> bool" where
  "double_ok P (Finite x) = P x"
| "double_ok P NaN = False"

fun rat_of :: "js_double \<Rightarrow> rat" where
  "rat_of (Finite x) = x"
| "rat_of NaN = 0"

definition build_checks :: "build_quote_input \<Rightarrow> unit result" where
  "build_checks inp =
     r_bind (check (\<not> blank (bi_quoteId inp) \<and> \<not> blank (bi_catalogModelId inp))
               (invalid ''quoteId and catalogModelId are required.'')) (\<lambda>_.
     r_bind (check (\<not> blank (bi_quotePolicyRevision inp)) (invalid ''quotePolicyRevision is required.'')) (\<lambda>_.
     r_bind (check (double_ok (\<lambda>x. x \<ge> 0) (bi_unitRate inp))
               (invalid ''unitRate must be a finite non-negative number.'')) (\<lambda>_.
     r_bind (check (case bi_outputCount inp of None \<Rightarrow> True | Some n \<Rightarrow> number_isSafeInteger n \<and> int_of n \<ge> 1)
               (invalid ''outputCount must be a positive integer.'')) (\<lambda>_.
     r_bind (check (case bi_outputLabel inp of None \<Rightarrow> True | Some l \<Rightarrow> \<not> blank l)
               (invalid ''outputLabel must be a non-empty string.'')) (\<lambda>_.
     r_bind (case bi_debitUnits inp of None \<Rightarrow> Inr () | Some us \<Rightarrow> assertProductUsageUnits us) (\<lambda>_.
     r_bind (check (case bi_creditCost inp of None \<Rightarrow> True | Some c \<Rightarrow> number_isSafeInteger c \<and> int_of c \<ge> 1)
               (invalid ''creditCost must be a positive integer.'')) (\<lambda>_.
     r_bind (assertPackageQuoteTotals inp) (\<lambda>_.
       check (bi_billingMode inp = Per_output_second \<longrightarrow>
                (case bi_targetSeconds inp of None \<Rightarrow> False | Some t \<Rightarrow> double_ok (\<lambda>x. x > 0) t))
         (invalid ''per_output_second quotes require positive targetSeconds.'')))))))))"

definition quoted_seconds :: "build_quote_input \<Rightarrow> rat option" where
  "quoted_seconds inp =
     (if bi_billingMode inp = Per_output_second
      then Some (applyBillableSecondsRules (case bi_targetSeconds inp of None \<Rightarrow> 0 | Some t \<Rightarrow> rat_of t)
             (bi_minChargeSeconds inp) (bi_roundingStepSeconds inp))
      else None)"

definition quote_snapshot ::
    "(hashed_facts \<Rightarrow> string) \<Rightarrow> string \<Rightarrow> build_quote_input \<Rightarrow> rat \<Rightarrow> rat \<Rightarrow> quote" where
  "quote_snapshot facts_sha now inp confirmedAmount authorizedCeiling =
     \<lparr> qt_quoteId = bi_quoteId inp, qt_revision = revisionFor facts_sha inp,
       qt_workspaceId = truthy (bi_workspaceId inp), qt_catalogModelId = bi_catalogModelId inp,
       qt_operation = truthy (bi_operation inp), qt_catalogModelRevision = truthy (bi_catalogModelRevision inp),
       qt_quotePolicyRevision = bi_quotePolicyRevision inp,
       qt_submissionContractHash = truthy (bi_submissionContractHash inp),
       qt_submissionPromptHash = truthy (bi_submissionPromptHash inp),
       qt_submissionReferenceAssetsHash = truthy (bi_submissionReferenceAssetsHash inp),
       qt_submissionInputAssetsHash = truthy (bi_submissionInputAssetsHash inp),
       qt_extraConfirmThreshold = extraConfirmThresholdFor (bi_quotePolicyRevision inp),
       qt_billingMode = bi_billingMode inp, qt_creditCost = map_option int_of (bi_creditCost inp),
       qt_debitUnits = bi_debitUnits inp, qt_failureRefundsCredits = bi_failureRefundsCredits inp,
       qt_outputCount = map_option int_of (bi_outputCount inp), qt_packageContract = bi_packageContract inp,
       qt_outputLabel = map_option trim (truthy (bi_outputLabel inp)), qt_unitRate = rat_of (bi_unitRate inp),
       qt_currency = truthy (bi_currency inp),
       qt_expression = (case bi_formulaExpression inp of
           Some e \<Rightarrow> Formula e
         | None \<Rightarrow> if bi_billingMode inp = Per_request then Rate_per_request (rat_of (bi_unitRate inp))
                   else Rate_per_second (rat_of (bi_unitRate inp))),
       qt_targetSeconds = bi_targetSeconds inp, qt_quotedSeconds = quoted_seconds inp,
       qt_minChargeSeconds = bi_minChargeSeconds inp, qt_roundingStepSeconds = bi_roundingStepSeconds inp,
       qt_routeSnapshotRef = truthy (bi_routeSnapshotRef inp),
       qt_frozenCandidateDeploymentIds = bi_frozenCandidateDeploymentIds inp,
       qt_createdAt = now, qt_expiresAt = truthy (bi_expiresAt inp),
       q_taskId = truthy (bi_taskId inp), q_confirmedAmount = Some confirmedAmount,
       q_authorizedCeiling = Some authorizedCeiling, q_billedSeconds = None, q_settlementStatus = None,
       q_lifecycleStatus = Quoted, q_settledAmount = None, q_refundedAmount = None,
       q_platformAbsorbedAmount = None, q_confirmedAt = None, q_reservedAt = None, q_settledAt = None \<rparr>"

definition buildQuote ::
    "(hashed_facts \<Rightarrow> string) \<Rightarrow> string \<Rightarrow> build_quote_input \<Rightarrow> (quote_service, quote) op" where
  "buildQuote facts_sha now inp =
     guarded (build_checks inp) (\<lambda>_ s.
       case map_of (qs_quotes s) (bi_quoteId inp) of
         Some existing \<Rightarrow>
           if qt_revision existing \<noteq> revisionFor facts_sha inp
           then (Inl (P1DomainError IDEMPOTENCY_CONFLICT
                   (''Quote '' @ bi_quoteId inp @ '' already exists with different facts.'')), s)
           else (Inr existing, s)
       | None \<Rightarrow>
           let confirmedAmount = computeProductAmount (bi_billingMode inp) (rat_of (bi_unitRate inp)) (quoted_seconds inp);
               authorizedCeiling = (case bi_authorizedCeiling inp of None \<Rightarrow> confirmedAmount | Some c \<Rightarrow> c)
           in guarded (check (\<not> authorizedCeiling < confirmedAmount)
                         (invalid ''authorizedCeiling cannot be below confirmed amount.'')) (\<lambda>_.
              guarded (check (case truthy (bi_expiresAt inp) of None \<Rightarrow> True | Some e \<Rightarrow> \<not> date_le e now)
                         (invalid ''Quote expiry must be in the future.'')) (\<lambda>_ s.
                let snapshot = quote_snapshot facts_sha now inp confirmedAmount authorizedCeiling
                in (Inr snapshot, put_quote snapshot s))) s)"

definition getQuote :: "quote_service \<Rightarrow> string \<Rightarrow> quote option" where
  "getQuote s quoteId = map_of (qs_quotes s) quoteId"

definition getQuoteByTask :: "quote_service \<Rightarrow> string \<Rightarrow> quote option" where
  "getQuoteByTask s taskId =
     (case truthy (map_of (qs_taskIndex s) taskId) of None \<Rightarrow> None | Some quoteId \<Rightarrow> getQuote s quoteId)"

text \<open>The memory ledger has a \<^verbatim>\<open>restore\<close>, so its absence is no case here.\<close>

fun save_costs :: "cost_snapshot list \<Rightarrow> (quote_service, unit) op" where
  "save_costs [] s = (Inr (), s)"
| "save_costs (c # cs) s = op_bind (on_costs (save_cost c)) (\<lambda>_. save_costs cs) s"

definition restoreState ::
    "quote \<Rightarrow> product_usage option \<Rightarrow> cost_snapshot list \<Rightarrow> (quote_service, unit) op" where
  "restoreState q usage costs s =
     (let s1 = put_quote q s;
          s2 = (case truthy (q_taskId q) of None \<Rightarrow> s1
                | Some t \<Rightarrow> s1\<lparr>qs_taskIndex := map_set t (qt_quoteId q) (qs_taskIndex s1)\<rparr>);
          s3 = (case usage of None \<Rightarrow> s2 | Some u \<Rightarrow> s2\<lparr>qs_usage := restore u (qs_usage s2)\<rparr>)
      in save_costs costs s3)"

section \<open>Confirm and reserve\<close>

record confirm_input =
  ci_quoteId :: string
  ci_taskId :: string
  ci_authorizedCeiling :: "rat option"

definition first_of :: "'a option \<Rightarrow> 'a option \<Rightarrow> 'a option" where
  "first_of a b = (case a of Some v \<Rightarrow> Some v | None \<Rightarrow> b)"

definition with_default :: "'a \<Rightarrow> 'a option \<Rightarrow> 'a" where
  "with_default d v = (case v of Some x \<Rightarrow> x | None \<Rightarrow> d)"

definition confirmed_quote :: "string \<Rightarrow> confirm_input \<Rightarrow> quote \<Rightarrow> quote" where
  "confirmed_quote now inp q =
     (let cap = with_default 0 (first_of (ci_authorizedCeiling inp)
                      (first_of (q_authorizedCeiling q) (q_confirmedAmount q)))
      in q\<lparr> q_taskId := Some (ci_taskId inp),
            q_confirmedAmount := Some (with_default cap (q_confirmedAmount q)),
            q_authorizedCeiling := Some cap,
            q_lifecycleStatus := Quote_confirmed, q_confirmedAt := Some now \<rparr>)"

definition confirm :: "string \<Rightarrow> confirm_input \<Rightarrow> (quote_service, quote) op" where
  "confirm now inp s =
     guarded (requireQuote (ci_quoteId inp) s) (\<lambda>q.
     guarded (check (\<not> blank (ci_taskId inp)) (invalid ''taskId is required to confirm.'')) (\<lambda>_.
     guarded (check (case truthy (q_taskId q) of None \<Rightarrow> True | Some t \<Rightarrow> t = ci_taskId inp)
                (P1DomainError IDEMPOTENCY_CONFLICT
                   (''Quote '' @ ci_quoteId inp @ '' is already bound to task '' @ with_default [] (q_taskId q) @ ''.''))) (\<lambda>_ s.
       if q_taskId q = Some (ci_taskId inp) \<and> q_lifecycleStatus q \<noteq> Quoted then (Inr q, s)
       else
         guarded (check (q_lifecycleStatus q = Quoted \<or> q_lifecycleStatus q = Quote_confirmed)
                    (invalid (''Quote '' @ ci_quoteId inp @ '' cannot confirm from status '' @
                              quote_status_name (q_lifecycleStatus q) @ ''.''))) (\<lambda>_.
         guarded (check (case truthy (map_of (qs_taskIndex s) (ci_taskId inp)) of
                           None \<Rightarrow> True | Some other \<Rightarrow> other = ci_quoteId inp)
                    (P1DomainError IDEMPOTENCY_CONFLICT
                       (''Task '' @ ci_taskId inp @ '' already has a confirmed quote.''))) (\<lambda>_ s.
           if q_lifecycleStatus q = Quote_confirmed \<and> q_taskId q = Some (ci_taskId inp) then (Inr q, s)
           else let next_quote = confirmed_quote now inp q
                in (Inr next_quote,
                    s\<lparr>qs_quotes := map_set (ci_quoteId inp) next_quote (qs_quotes s),
                      qs_taskIndex := map_set (ci_taskId inp) (ci_quoteId inp) (qs_taskIndex s)\<rparr>)))
           s))) s"

record reserve_quote_input =
  rq_quoteId :: string
  rq_units :: input_units
  rq_usageId :: "string option"

definition last_quantity :: "input_units \<Rightarrow> usage_resource \<Rightarrow> js_number option" where
  "last_quantity us r = map_of (rev (map (\<lambda>u. (pu_resource u, pu_quantity u)) us)) r"

definition sameProductUsageUnits :: "input_units \<Rightarrow> input_units \<Rightarrow> bool" where
  "sameProductUsageUnits left right \<longleftrightarrow> length left = length right \<and>
     (\<forall>u \<in> set left. number_isInteger (pu_quantity u) \<and> last_quantity right (pu_resource u) = Some (pu_quantity u))"

definition reserved_units_check :: "reserve_quote_input \<Rightarrow> quote \<Rightarrow> unit result" where
  "reserved_units_check inp q =
     (if qt_creditCost q \<noteq> None
      then check (rq_units inp = [])
             (invalid (''Credit quote '' @ rq_quoteId inp @ '' must not reserve legacy product units.''))
      else r_bind (assertProductUsageUnits (rq_units inp)) (\<lambda>_.
             check (case qt_debitUnits q of None \<Rightarrow> True | Some us \<Rightarrow> sameProductUsageUnits us (rq_units inp))
               (invalid (''Quote '' @ rq_quoteId inp @ '' reservation does not match the frozen debit preview.''))))"

definition reserve_request ::
    "(string \<Rightarrow> string) \<Rightarrow> string \<Rightarrow> reserve_quote_input \<Rightarrow> quote \<Rightarrow> string \<Rightarrow> string \<Rightarrow> reserve_usage_input" where
  "reserve_request sha now inp q taskId workspaceId =
     \<lparr> ri_id = with_default (usageIdFor sha taskId (qt_quoteId q)) (rq_usageId inp), ri_taskId = taskId,
       ri_workspaceId = workspaceId, ri_quoteId = qt_quoteId q, ri_units = Some (rq_units inp),
       ri_credits = map_option JInt (qt_creditCost q), ri_quantity = None,
       ri_billingMode = qt_billingMode q, ri_resource = None, ri_createdAt = now \<rparr>"

definition mark_reserved :: "string \<Rightarrow> quote \<Rightarrow> product_usage \<Rightarrow> (quote_service, quote \<times> product_usage) op" where
  "mark_reserved now q usage s =
     (if q_lifecycleStatus q = Quote_confirmed
      then let next_quote = q\<lparr>q_lifecycleStatus := Quote_reserved, q_reservedAt := Some now\<rparr>
           in (Inr (next_quote, usage), put_quote next_quote s)
      else (Inr (q, usage), s))"

definition reserveQuote ::
    "(string \<Rightarrow> string) \<Rightarrow> string \<Rightarrow> reserve_quote_input \<Rightarrow> (quote_service, quote \<times> product_usage) op" where
  "reserveQuote sha now inp s =
     guarded (requireQuote (rq_quoteId inp) s) (\<lambda>q.
     guarded (check (q_lifecycleStatus q \<in> {Quote_confirmed, Quote_reserved, Quote_dispatched, Quote_settled})
                (invalid (''Quote '' @ rq_quoteId inp @ '' must be confirmed before reserve.''))) (\<lambda>_.
       case (truthy (q_taskId q), truthy (qt_workspaceId q)) of
         (Some taskId, Some workspaceId) \<Rightarrow>
           guarded (reserved_units_check inp q) (\<lambda>_.
           op_bind (on_usage (reserve (reserve_request sha now inp q taskId workspaceId))) (mark_reserved now q))
       | _ \<Rightarrow> (\<lambda>s. (Inl (invalid ''Confirmed quote requires taskId and workspaceId for reserve.''), s)))) s"

section \<open>Repricing a reservation\<close>

record replace_quote_input =
  rp_previousQuoteId :: string
  rp_previousQuoteRevision :: string
  rp_successor :: build_quote_input
  rp_taskId :: string
  rp_usageId :: string

definition released_quote :: "string \<Rightarrow> quote \<Rightarrow> quote" where
  "released_quote now q =
     q\<lparr> q_taskId := None, q_settlementStatus := Some Reconciled, q_lifecycleStatus := Quote_refunded,
        q_settledAmount := Some 0,
        q_refundedAmount := Some (with_default 0 (first_of (q_authorizedCeiling q)
          (first_of (q_confirmedAmount q) (map_option of_int (qt_creditCost q))))),
        q_settledAt := Some now \<rparr>"

text \<open>
  \<^verbatim>\<open>previous.workspaceId!\<close> of a reserved quote is defined; the empty text stands for an absent one.
\<close>

definition replaceReservedQuote ::
    "(hashed_facts \<Rightarrow> string) \<Rightarrow> string \<Rightarrow> replace_quote_input \<Rightarrow>
     (quote_service, quote \<times> quote \<times> product_usage) op" where
  "replaceReservedQuote facts_sha now inp s =
     guarded (requireQuote (rp_previousQuoteId inp) s) (\<lambda>previous s.
     guarded (check (qt_revision previous = rp_previousQuoteRevision inp \<and> q_taskId previous = Some (rp_taskId inp) \<and>
                     q_lifecycleStatus previous = Quote_reserved \<and>
                     (case getByTask (qs_usage s) (rp_taskId inp) of
                        None \<Rightarrow> False
                      | Some usage \<Rightarrow> pr_status usage = Reserved \<and> pr_quoteId usage = qt_quoteId previous \<and>
                                      pr_id usage = rp_usageId inp))
                (P1DomainError IDEMPOTENCY_CONFLICT
                   ''Plan reprice requires the exact current reserved quote and usage.'')) (\<lambda>_.
     guarded (check (bi_workspaceId (rp_successor inp) = qt_workspaceId previous)
                (invalid ''Successor quote must stay inside the current workspace.'')) (\<lambda>_.
     op_bind (buildQuote facts_sha now (rp_successor inp)) (\<lambda>successor s.
       let released = released_quote now previous;
           s1 = (put_quote released s)\<lparr>qs_taskIndex := map_delete (rp_taskId inp) (qs_taskIndex s)\<rparr>
       in op_bind (confirm now \<lparr>ci_quoteId = qt_quoteId successor, ci_taskId = rp_taskId inp, ci_authorizedCeiling = None\<rparr>)
            (\<lambda>confirmed.
          op_bind (on_usage (replaceReservation
              \<lparr> ri_id = rp_usageId inp, ri_taskId = rp_taskId inp,
                ri_workspaceId = with_default [] (qt_workspaceId previous), ri_quoteId = qt_quoteId confirmed,
                ri_units = Some (if qt_creditCost confirmed \<noteq> None then [] else with_default [] (qt_debitUnits confirmed)),
                ri_credits = map_option JInt (qt_creditCost confirmed), ri_quantity = None,
                ri_billingMode = qt_billingMode confirmed, ri_resource = None, ri_createdAt = now,
                ri_expectedQuoteId = qt_quoteId previous \<rparr>)) (\<lambda>usage s.
            let reserved = confirmed\<lparr>q_lifecycleStatus := Quote_reserved, q_reservedAt := Some now\<rparr>
            in (Inr (released, reserved, usage), put_quote reserved s))) s1))) s) s"

section \<open>Dispatch\<close>

record dispatch_input =
  di_quoteId :: string
  di_deploymentId :: string
  di_attemptId :: string
  di_providerCost :: "provider_cost_input option"

record fallback_input = dispatch_input +
  di_supplyCostDeltaMicros :: "rat option"

definition assertCandidateAllowed :: "quote \<Rightarrow> string \<Rightarrow> unit result" where
  "assertCandidateAllowed q deploymentId =
     check (case qt_frozenCandidateDeploymentIds q of
              None \<Rightarrow> True | Some frozen \<Rightarrow> frozen = [] \<or> deploymentId \<in> set frozen)
       (invalid (''Deployment '' @ deploymentId @ '' is outside the frozen fallback candidate set.''))"

definition mark_dispatched :: "quote \<Rightarrow> cost_snapshot option \<Rightarrow> (quote_service, quote \<times> cost_snapshot option) op" where
  "mark_dispatched q cost s =
     (if q_lifecycleStatus q = Quote_reserved
      then let next_quote = q\<lparr>q_lifecycleStatus := Quote_dispatched\<rparr> in (Inr (next_quote, cost), put_quote next_quote s)
      else (Inr (q, cost), s))"

definition record_cost ::
    "string \<Rightarrow> string \<Rightarrow> string \<Rightarrow> provider_cost_input \<Rightarrow> (quote_service, cost_snapshot option) op" where
  "record_cost attemptId taskId deploymentId cost =
     guarded (buildProviderCostSnapshot attemptId taskId deploymentId cost) (\<lambda>snapshot.
     op_bind (on_costs (save_cost snapshot)) (\<lambda>saved s. (Inr (Some saved), s)))"

definition dispatch :: "dispatch_input \<Rightarrow> (quote_service, quote \<times> cost_snapshot option) op" where
  "dispatch inp s =
     guarded (requireQuote (di_quoteId inp) s) (\<lambda>q.
     guarded (check (q_lifecycleStatus q = Quote_reserved \<or> q_lifecycleStatus q = Quote_dispatched)
                (invalid (''Quote '' @ di_quoteId inp @ '' must be reserved before dispatch.''))) (\<lambda>_.
     guarded (assertCandidateAllowed q (di_deploymentId inp)) (\<lambda>_.
     op_bind (case (di_providerCost inp, truthy (q_taskId q)) of
                (Some cost, Some taskId) \<Rightarrow> record_cost (di_attemptId inp) taskId (di_deploymentId inp) cost
              | _ \<Rightarrow> (\<lambda>s. (Inr None, s)))
       (mark_dispatched q)))) s"

definition fallback_cost :: "quote \<Rightarrow> fallback_input \<Rightarrow> provider_cost_input" where
  "fallback_cost q inp =
     (let cost = with_default
            \<lparr> pc_supplierPriceRevision = ''fallback-unknown'', pc_billingMode = qt_billingMode q,
              pc_unitPriceMicros = 0, pc_currency = with_default ''CNY'' (qt_currency q), pc_unit = ''request'',
              pc_estimatedCostMicros = None, pc_observedCostMicros = None, pc_usageQuantity = None,
              pc_usageUnit = None, pc_evidence = None, pc_evidenceKind = None, pc_supplyCostDeltaMicros = None,
              pc_failover = None, pc_payer = None \<rparr>
            (di_providerCost inp)
      in cost\<lparr>pc_supplyCostDeltaMicros := newer (pc_supplyCostDeltaMicros cost) (di_supplyCostDeltaMicros inp)\<rparr>)"

definition fallbackDispatch :: "fallback_input \<Rightarrow> (quote_service, quote \<times> cost_snapshot option) op" where
  "fallbackDispatch inp s =
     guarded (requireQuote (di_quoteId inp) s) (\<lambda>q.
     guarded (check (q_lifecycleStatus q = Quote_dispatched \<or> q_lifecycleStatus q = Quote_reserved)
                (invalid (''Fallback requires a reserved/dispatched quote (got '' @
                          quote_status_name (q_lifecycleStatus q) @ '').''))) (\<lambda>_.
     guarded (assertCandidateAllowed q (di_deploymentId inp)) (\<lambda>_ s.
       case truthy (q_taskId q) of
         None \<Rightarrow> mark_dispatched q None s
       | Some taskId \<Rightarrow>
           guarded (check (case getByTask (qs_usage s) taskId of None \<Rightarrow> False | Some usage \<Rightarrow> pr_status usage = Reserved)
                      (invalid ''Fallback cannot re-charge product usage; expected a single reserved entry.'')) (\<lambda>_.
           op_bind (record_cost (di_attemptId inp) taskId (di_deploymentId inp) (fallback_cost q inp))
             (mark_dispatched q)) s))) s"

section \<open>Settlement\<close>

record partial_basis =
  pb_totalUnits :: js_number
  pb_deliveredUnits :: js_number

datatype trusted_usage =
    Seconds_evidence evidence_kind js_double
  | Units_evidence input_units

record settle_quote_input =
  sq_quoteId :: string
  sq_trustedUsage :: "trusted_usage option"
  sq_attemptId :: "string option"
  sq_overproductionUnitCostMicros :: "rat option"
  sq_partialDelivery :: "partial_basis option"
  sq_packagePartialDelivery :: "delivered_allocation list option"

definition quote_ceiling :: "quote \<Rightarrow> rat" where
  "quote_ceiling q = with_default 0 (first_of (q_authorizedCeiling q) (q_confirmedAmount q))"

definition contract_allocations :: "package_contract \<Rightarrow> package_allocation list" where
  "contract_allocations c = map package_allocation.truncate (pk_allocations c)"

text \<open>The lifecycle of a closed quote: nothing charged reads as refunded.\<close>

definition closed_status :: "rat \<Rightarrow> quote_status" where
  "closed_status amount = (if amount = 0 then Quote_refunded else Quote_settled)"

definition closed_quote :: "string \<Rightarrow> quote \<Rightarrow> quote_status \<Rightarrow> settlement_kind \<Rightarrow> rat \<Rightarrow> rat \<Rightarrow> quote" where
  "closed_quote now q status settlementStatus settledAmount refundedAmount =
     q\<lparr> q_settlementStatus := Some settlementStatus, q_lifecycleStatus := status,
        q_settledAmount := Some settledAmount, q_refundedAmount := Some refundedAmount, q_settledAt := Some now \<rparr>"

definition close_quote :: "quote \<Rightarrow> product_usage \<Rightarrow> (quote_service, quote \<times> product_usage) op" where
  "close_quote next_quote usage s = (Inr (next_quote, usage), put_quote next_quote s)"

text \<open>What partial evidence makes of a credit reservation: the credits returned and the credits kept.\<close>

record credit_outcome =
  co_refundCredits :: int
  co_settledCredits :: "int option"
  co_reconciled :: bool

definition zero_delivered :: "package_settlement option \<Rightarrow> settle_quote_input \<Rightarrow> bool" where
  "zero_delivered packagePartial inp \<longleftrightarrow>
     (case packagePartial of
        Some k \<Rightarrow> sum_list (map (\<lambda>(_, p). ps_deliveredUnits p) (kt_allocations k)) = 0
      | None \<Rightarrow> (case sq_partialDelivery inp of None \<Rightarrow> False | Some b \<Rightarrow> pb_deliveredUnits b = JInt 0))"

definition credit_outcome_of :: "quote \<Rightarrow> int \<Rightarrow> settle_quote_input \<Rightarrow> credit_outcome result" where
  "credit_outcome_of q creditCost inp =
     r_bind (check (\<not> (qt_packageContract q \<noteq> None \<and> sq_partialDelivery inp \<noteq> None))
               (invalid (''Package quote '' @ qt_quoteId q @ '' requires allocation-keyed partial delivery evidence.''))) (\<lambda>_.
     r_bind (check (\<not> (qt_packageContract q = None \<and> sq_packagePartialDelivery inp \<noteq> None))
               (invalid (''Single quote '' @ qt_quoteId q @ '' cannot settle package partial delivery evidence.''))) (\<lambda>_.
     r_bind (case (qt_packageContract q, sq_packagePartialDelivery inp) of
               (Some c, Some ds) \<Rightarrow>
                 r_bind (computePackagePartialCreditSettlement (contract_allocations c) ds) (\<lambda>k. Inr (Some k))
             | _ \<Rightarrow> Inr None) (\<lambda>packagePartial.
     r_bind (check (\<not> zero_delivered packagePartial inp)
               (invalid (''Quote '' @ qt_quoteId q @
                         '' delivered zero units and must settle through the failure path.''))) (\<lambda>_.
     r_bind (case sq_partialDelivery inp of
               None \<Rightarrow> Inr None
             | Some b \<Rightarrow>
                 r_bind (computePartialCreditSettlement (pb_totalUnits b) (pb_deliveredUnits b) (JInt creditCost)
                   (qt_failureRefundsCredits q = Some True)) (\<lambda>p. Inr (Some p))) (\<lambda>part.
       Inr (case packagePartial of
              Some k \<Rightarrow> \<lparr> co_refundCredits = kt_refundCredits k, co_settledCredits = Some (kt_settledCredits k),
                          co_reconciled = True \<rparr>
            | None \<Rightarrow>
                (case part of
                   Some p \<Rightarrow> \<lparr> co_refundCredits = ps_refundCredits p, co_settledCredits = Some (ps_settledCredits p),
                               co_reconciled = True \<rparr>
                 | None \<Rightarrow> \<lparr> co_refundCredits = 0, co_settledCredits = None, co_reconciled = False \<rparr>)))))))"

definition credit_settle_input :: "string \<Rightarrow> string \<Rightarrow> int \<Rightarrow> settlement_kind \<Rightarrow> settle_usage_input" where
  "credit_settle_input now taskId refundCredits settlementStatus =
     \<lparr> se_taskId = taskId, se_settledUnits = Some [], se_settledQuantity = None,
       se_refundCredits = (if refundCredits > 0 then Some (JInt refundCredits) else None),
       se_settlementStatus = settlementStatus, se_updatedAt = now \<rparr>"

definition credit_amount :: "rat \<Rightarrow> int \<Rightarrow> int option \<Rightarrow> rat" where
  "credit_amount cap creditCost settledCredits =
     (case settledCredits of
        Some c \<Rightarrow> if creditCost > 0 then of_int (js_round (cap * of_int c / of_int creditCost)) else cap
      | None \<Rightarrow> cap)"

definition settle_credit_quote ::
    "string \<Rightarrow> quote \<Rightarrow> string \<Rightarrow> int \<Rightarrow> settle_quote_input \<Rightarrow> (quote_service, quote \<times> product_usage) op" where
  "settle_credit_quote now q taskId creditCost inp =
     guarded (credit_outcome_of q creditCost inp) (\<lambda>outcome.
     let settlementStatus = (if co_reconciled outcome then Reconciled else Estimated);
         settledAmount = credit_amount (quote_ceiling q) creditCost (co_settledCredits outcome)
     in op_bind (on_usage (settle (credit_settle_input now taskId (co_refundCredits outcome) settlementStatus)))
          (close_quote (closed_quote now q (closed_status settledAmount) settlementStatus settledAmount
                         (quote_ceiling q - settledAmount))))"

definition reconcileTrustedProductUsageUnits :: "units \<Rightarrow> input_units \<Rightarrow> input_units result" where
  "reconcileTrustedProductUsageUnits reservedUnits trustedUnits =
     r_bind (check (\<not> (\<exists>u \<in> set trustedUnits. \<not> (\<exists>r \<in> set reservedUnits. pu_resource r = pu_resource u)))
               (invalid ''Trusted product usage contains an unreserved resource.'')) (\<lambda>_.
       Inr (map (\<lambda>r. \<lparr> pu_resource = pu_resource r,
                       pu_quantity = JInt (case last_quantity trustedUnits (pu_resource r) of
                           None \<Rightarrow> pu_quantity r | Some t \<Rightarrow> min (pu_quantity r) (int_of t)) \<rparr>) reservedUnits))"

text \<open>What trusted evidence makes of a reservation in units.\<close>

record unit_outcome =
  uo_settlementStatus :: settlement_kind
  uo_settledAmount :: rat
  uo_refundedAmount :: rat
  uo_absorbedAmount :: rat
  uo_billedSeconds :: "rat option"
  uo_units :: input_units

fun trusted_seconds :: "trusted_usage option \<Rightarrow> rat option" where
  "trusted_seconds (Some (Seconds_evidence kind (Finite x))) =
     (if isTrustedUsageEvidence kind \<and> x \<ge> 0 then Some x else None)"
| "trusted_seconds _ = None"

definition quote_billable_seconds :: "quote \<Rightarrow> rat \<Rightarrow> rat" where
  "quote_billable_seconds q seconds =
     applyBillableSecondsRules seconds (qt_minChargeSeconds q) (qt_roundingStepSeconds q)"

definition one_video_unit :: "units \<Rightarrow> string \<Rightarrow> unit result" where
  "one_video_unit us message =
     check (case us of [u] \<Rightarrow> pu_resource u = Video | _ \<Rightarrow> False) (invalid message)"

definition seconds_outcome :: "quote \<Rightarrow> units \<Rightarrow> int \<Rightarrow> rat \<Rightarrow> unit_outcome result" where
  "seconds_outcome q reservedUnits reservedQuantity seconds =
     r_bind (one_video_unit reservedUnits ''Per-second settlement requires one video product usage unit.'') (\<lambda>_.
       let billableSeconds = quote_billable_seconds q seconds;
           rawAmount = computeProductAmount Per_output_second (qt_unitRate q) (Some billableSeconds);
           cap = quote_ceiling q
       in Inr \<lparr> uo_settlementStatus = Reconciled,
                uo_settledAmount = (if rawAmount \<le> cap then rawAmount else cap),
                uo_refundedAmount = (if rawAmount \<le> cap then cap - rawAmount else 0),
                uo_absorbedAmount = (if rawAmount \<le> cap then 0 else rawAmount - cap),
                uo_billedSeconds = Some billableSeconds,
                uo_units = [\<lparr>pu_resource = Video, pu_quantity = JInt (min reservedQuantity \<lceil>billableSeconds\<rceil>)\<rparr>] \<rparr>)"

definition unit_outcome_of :: "quote \<Rightarrow> product_usage \<Rightarrow> settle_quote_input \<Rightarrow> unit_outcome result" where
  "unit_outcome_of q reservedUsage inp =
     r_bind (reservedProductUsageUnits reservedUsage) (\<lambda>reservedUnits.
       let cap = quote_ceiling q;
           confirmed = min cap (with_default cap (q_confirmedAmount q));
           kept = \<lparr> uo_settlementStatus = Estimated, uo_settledAmount = cap, uo_refundedAmount = 0,
                    uo_absorbedAmount = 0, uo_billedSeconds = None, uo_units = as_input reservedUnits \<rparr>
       in case sq_trustedUsage inp of
            Some (Units_evidence trustedUnits) \<Rightarrow>
              r_bind (assertProductUsageUnits trustedUnits) (\<lambda>_.
              r_bind (reconcileTrustedProductUsageUnits reservedUnits trustedUnits) (\<lambda>us.
                Inr (kept\<lparr>uo_settlementStatus := Reconciled, uo_settledAmount := confirmed, uo_units := us\<rparr>)))
          | evidence \<Rightarrow>
              (case trusted_seconds evidence of
                 None \<Rightarrow> Inr (kept\<lparr>uo_settlementStatus := (if evidence = None then Estimated else Unknown)\<rparr>)
               | Some seconds \<Rightarrow>
                   if qt_billingMode q = Per_request
                   then Inr (kept\<lparr>uo_settlementStatus := Reconciled, uo_settledAmount := confirmed\<rparr>)
                   else seconds_outcome q reservedUnits (pr_reservedQuantity reservedUsage) seconds))"

definition absorb_overproduction :: "settle_quote_input \<Rightarrow> rat \<Rightarrow> (quote_service, unit) op" where
  "absorb_overproduction inp absorbed s =
     (case (if absorbed > 0 then truthy (sq_attemptId inp) else None) of
        None \<Rightarrow> (Inr (), s)
      | Some attemptId \<Rightarrow>
          (case get_cost (qs_costs s) attemptId of
             None \<Rightarrow> (Inr (), s)
           | Some existing \<Rightarrow>
               guarded (absorbOverproductionToSupplyCost existing
                   (absorbed * with_default (cs_unitPriceMicros existing) (sq_overproductionUnitCostMicros inp)))
                 (\<lambda>snapshot. op_bind (on_costs (save_cost snapshot)) (\<lambda>_ s. (Inr (), s))) s))"

definition settle_unit_quote ::
    "string \<Rightarrow> quote \<Rightarrow> string \<Rightarrow> product_usage \<Rightarrow> settle_quote_input \<Rightarrow> (quote_service, quote \<times> product_usage) op" where
  "settle_unit_quote now q taskId reservedUsage inp =
     guarded (unit_outcome_of q reservedUsage inp) (\<lambda>outcome.
     op_bind (absorb_overproduction inp (uo_absorbedAmount outcome)) (\<lambda>_.
     op_bind (on_usage (settle
         \<lparr> se_taskId = taskId, se_settledUnits = Some (uo_units outcome), se_settledQuantity = None,
           se_refundCredits = None, se_settlementStatus = uo_settlementStatus outcome, se_updatedAt = now \<rparr>))
       (close_quote
         ((closed_quote now q (closed_status (uo_settledAmount outcome)) (uo_settlementStatus outcome)
             (uo_settledAmount outcome) (uo_refundedAmount outcome))
          \<lparr> q_billedSeconds := newer (q_billedSeconds q) (uo_billedSeconds outcome),
            q_platformAbsorbedAmount := (if uo_absorbedAmount outcome > 0 then Some (uo_absorbedAmount outcome)
                                         else q_platformAbsorbedAmount q) \<rparr>))))"

definition settleQuote :: "string \<Rightarrow> settle_quote_input \<Rightarrow> (quote_service, quote \<times> product_usage) op" where
  "settleQuote now inp s =
     guarded (requireQuote (sq_quoteId inp) s) (\<lambda>q.
     guarded (check (q_lifecycleStatus q \<in> {Quote_dispatched, Quote_reserved, Quote_settled})
                (invalid (''Quote '' @ sq_quoteId inp @ '' cannot settle from status '' @
                          quote_status_name (q_lifecycleStatus q) @ ''.''))) (\<lambda>_ s.
       case truthy (q_taskId q) of
         None \<Rightarrow> (Inl (invalid ''Quote taskId is required for settle.''), s)
       | Some taskId \<Rightarrow>
           (case getByTask (qs_usage s) taskId of
              None \<Rightarrow>
                (Inl (P1DomainError NOT_FOUND
                   ((if q_lifecycleStatus q = Quote_settled then ''Settled quote '' else ''Quote '') @
                    sq_quoteId inp @ '' is missing product usage.'')), s)
            | Some usage \<Rightarrow>
                if q_lifecycleStatus q = Quote_settled then (Inr (q, usage), s)
                else (case qt_creditCost q of
                        Some creditCost \<Rightarrow> settle_credit_quote now q taskId creditCost inp s
                      | None \<Rightarrow> settle_unit_quote now q taskId usage inp s)))) s"

section \<open>Failure\<close>

record fail_input =
  fi_quoteId :: string
  fi_trustedUsage :: "trusted_usage option"
  fi_forceCreditRefund :: "bool option"

text \<open>A package of which nothing was delivered.\<close>

definition nothing_delivered :: "package_contract \<Rightarrow> delivered_allocation list" where
  "nothing_delivered c =
     map (\<lambda>a. \<lparr>dl_allocationId = pk_allocationId a, dl_deliveredUnits = JInt 0\<rparr>) (pk_allocations c)"

definition fail_credit_quote ::
    "string \<Rightarrow> quote \<Rightarrow> string \<Rightarrow> int \<Rightarrow> fail_input \<Rightarrow> (quote_service, quote \<times> product_usage) op" where
  "fail_credit_quote now q taskId creditCost inp =
     (let cap = quote_ceiling q; force = (fi_forceCreditRefund inp = Some True)
      in case (if force then None else qt_packageContract q) of
           Some c \<Rightarrow>
             guarded (computePackagePartialCreditSettlement (contract_allocations c) (nothing_delivered c)) (\<lambda>k.
             let settledAmount = credit_amount cap creditCost (Some (kt_settledCredits k))
             in op_bind (on_usage (settle (credit_settle_input now taskId (kt_refundCredits k) Reconciled)))
                  (close_quote (closed_quote now q (closed_status settledAmount) Reconciled settledAmount
                                 (cap - settledAmount))))
         | None \<Rightarrow>
             if force \<or> qt_failureRefundsCredits q = Some True
             then op_bind (on_usage (refund \<lparr> rf_taskId = taskId, rf_remainingUnits = Some [],
                              rf_remainingQuantity = None, rf_updatedAt = now \<rparr>))
                    (close_quote (closed_quote now q Quote_refunded Reconciled 0 cap))
             else op_bind (on_usage (settle (credit_settle_input now taskId 0 Reconciled)))
                    (close_quote (closed_quote now q Quote_settled Reconciled cap 0)))"

text \<open>
  The units and the amount a failed task still owes. Seconds that are no number leave a quantity that
  is none, which the ledger refuses.
\<close>

definition fail_outcome_of :: "quote \<Rightarrow> product_usage \<Rightarrow> trusted_usage option \<Rightarrow> unit_outcome result" where
  "fail_outcome_of q reservedUsage evidence =
     (let cap = quote_ceiling q;
          released = \<lparr> uo_settlementStatus = Reconciled, uo_settledAmount = 0, uo_refundedAmount = cap,
                       uo_absorbedAmount = 0, uo_billedSeconds = None, uo_units = [] \<rparr>
      in case evidence of
           None \<Rightarrow> Inr released
         | Some (Units_evidence trustedUnits) \<Rightarrow>
             r_bind (assertProductUsageUnits trustedUnits) (\<lambda>_.
             r_bind (reservedProductUsageUnits reservedUsage) (\<lambda>reservedUnits.
             r_bind (reconcileTrustedProductUsageUnits reservedUnits trustedUnits) (\<lambda>us.
               let amount = min cap (with_default cap (q_confirmedAmount q))
               in Inr (released\<lparr>uo_settledAmount := amount, uo_refundedAmount := cap - amount, uo_units := us\<rparr>))))
         | Some (Seconds_evidence kind seconds) \<Rightarrow>
             if isTrustedUsageEvidence kind
             then (if qt_billingMode q = Per_output_second
                   then r_bind (reservedProductUsageUnits reservedUsage) (\<lambda>reservedUnits.
                        r_bind (one_video_unit reservedUnits ''Per-second refund requires one video product usage unit.'') (\<lambda>_.
                          case seconds of
                            NaN \<Rightarrow> Inr (released\<lparr>uo_units := [\<lparr>pu_resource = Video, pu_quantity = JNonInt\<rparr>]\<rparr>)
                          | Finite x \<Rightarrow>
                              let billableSeconds = quote_billable_seconds q x;
                                  amount = min cap (computeProductAmount Per_output_second (qt_unitRate q) (Some billableSeconds))
                              in Inr (released
                                   \<lparr> uo_settledAmount := amount, uo_refundedAmount := cap - amount,
                                     uo_billedSeconds := Some billableSeconds,
                                     uo_units := [\<lparr>pu_resource = Video, pu_quantity =
                                       JInt (min (pr_reservedQuantity reservedUsage) \<lceil>billableSeconds\<rceil>)\<rparr>] \<rparr>)))
                   else Inr released)
             else Inr (released\<lparr>uo_settlementStatus := Unknown\<rparr>))"

definition fail_unit_quote ::
    "string \<Rightarrow> quote \<Rightarrow> string \<Rightarrow> product_usage \<Rightarrow> fail_input \<Rightarrow> (quote_service, quote \<times> product_usage) op" where
  "fail_unit_quote now q taskId reservedUsage inp =
     guarded (fail_outcome_of q reservedUsage (fi_trustedUsage inp)) (\<lambda>outcome.
     op_bind (on_usage (refund \<lparr> rf_taskId = taskId, rf_remainingUnits = Some (uo_units outcome),
                  rf_remainingQuantity = None, rf_updatedAt = now \<rparr>))
       (close_quote
         ((closed_quote now q (closed_status (uo_settledAmount outcome)) (uo_settlementStatus outcome)
             (uo_settledAmount outcome) (uo_refundedAmount outcome))
          \<lparr> q_billedSeconds := newer (q_billedSeconds q) (uo_billedSeconds outcome) \<rparr>)))"

definition failAndRefund :: "string \<Rightarrow> fail_input \<Rightarrow> (quote_service, quote \<times> product_usage) op" where
  "failAndRefund now inp s =
     guarded (requireQuote (fi_quoteId inp) s) (\<lambda>q s.
       case truthy (q_taskId q) of
         None \<Rightarrow> (Inl (invalid ''Quote taskId is required for fail/refund.''), s)
       | Some taskId \<Rightarrow>
           (case getByTask (qs_usage s) taskId of
              None \<Rightarrow>
                (Inl (P1DomainError NOT_FOUND (''Quote '' @ fi_quoteId inp @ '' is missing product usage.'')), s)
            | Some usage \<Rightarrow>
                if q_lifecycleStatus q = Quote_settled \<or> q_lifecycleStatus q = Quote_refunded then (Inr (q, usage), s)
                else (case qt_creditCost q of
                        Some creditCost \<Rightarrow> fail_credit_quote now q taskId creditCost inp s
                      | None \<Rightarrow> fail_unit_quote now q taskId usage inp s))) s"

section \<open>Reads\<close>

definition listProviderCosts :: "quote_service \<Rightarrow> string \<Rightarrow> cost_snapshot list" where
  "listProviderCosts s taskId = listForTask (qs_costs s) taskId"

definition getUsage :: "quote_service \<Rightarrow> string \<Rightarrow> product_usage option" where
  "getUsage s taskId = getByTask (qs_usage s) taskId"

text \<open>A quantity of units is an integer; seconds that are not one are no quantity.\<close>

definition js_number_of :: "js_double \<Rightarrow> js_number" where
  "js_number_of x = (case x of NaN \<Rightarrow> JNonInt | Finite r \<Rightarrow> if of_int \<lfloor>r\<rfloor> = r then JInt \<lfloor>r\<rfloor> else JNonInt)"

definition quote_quantity :: "quote \<Rightarrow> js_number" where
  "quote_quantity q =
     (if qt_billingMode q = Per_output_second
      then (case qt_quotedSeconds q of
              Some s \<Rightarrow> js_number_of (Finite s)
            | None \<Rightarrow> (case qt_targetSeconds q of None \<Rightarrow> JNonInt | Some t \<Rightarrow> js_number_of t))
      else JInt (with_default 1 (qt_outputCount q)))"

definition productUsageUnitsForQuote :: "quote \<Rightarrow> usage_resource option \<Rightarrow> input_units result" where
  "productUsageUnitsForQuote q legacyResource =
     (if qt_creditCost q \<noteq> None then Inr []
      else case qt_debitUnits q of
             Some us \<Rightarrow> r_bind (assertProductUsageUnits us) (\<lambda>_. Inr us)
           | None \<Rightarrow>
               r_bind (assertProductUsageUnitQuantity (quote_quantity q) ''quote product usage quantity'') (\<lambda>_.
                 Inr [\<lparr> pu_resource = with_default (if qt_billingMode q = Per_output_second then Video else Copy) legacyResource,
                        pu_quantity = quote_quantity q \<rparr>]))"

text \<open>What leaves the server: the snapshot without its routing, its contract and its input hashes.\<close>

definition toPublicProductQuoteSnapshot :: "quote \<Rightarrow> quote" where
  "toPublicProductQuoteSnapshot q =
     q\<lparr> qt_submissionPromptHash := None, qt_submissionReferenceAssetsHash := None, qt_submissionInputAssetsHash := None,
        qt_packageContract := None, qt_routeSnapshotRef := None, qt_frozenCandidateDeploymentIds := None \<rparr>"

end
