(* ===== verification/ProductQuoteCorrect.thy ===== *)
theory ProductQuoteCorrect
  imports ProductQuote ProductUsageCorrect
begin

text \<open>
  Lemmas on the quote service: the invariant that ties quotes, the task index and the usage ledger
  together, the abstract lifecycle its calls refine, and that every operation keeps both.
\<close>

section \<open>Lifecycle\<close>

text \<open>
  The abstract lifecycle: a quote is confirmed, reserved, dispatched and closed, in that order; a
  failure report closes it from any of these statuses and from quoted, and a closed quote is final.
\<close>

inductive lifecycle :: "quote_status \<Rightarrow> quote_status \<Rightarrow> bool" where
  confirm_edge: "lifecycle Quoted Quote_confirmed"
| reserve_edge: "lifecycle Quote_confirmed Quote_reserved"
| dispatch_edge: "lifecycle Quote_reserved Quote_dispatched"
| settle_edge: "x \<in> {Quoted, Quote_confirmed, Quote_reserved, Quote_dispatched} \<Longrightarrow> lifecycle x Quote_settled"
| refund_edge: "x \<in> {Quoted, Quote_confirmed, Quote_reserved, Quote_dispatched} \<Longrightarrow> lifecycle x Quote_refunded"

inductive_simps lifecycle_iff: "lifecycle x y"

definition open_status :: "quote_status \<Rightarrow> bool" where
  "open_status x \<longleftrightarrow> x \<in> {Quote_confirmed, Quote_reserved, Quote_dispatched}"

definition closed :: "quote_status \<Rightarrow> bool" where
  "closed x \<longleftrightarrow> x = Quote_settled \<or> x = Quote_refunded"

definition holds_reservation :: "quote_status \<Rightarrow> bool" where
  "holds_reservation x \<longleftrightarrow> x = Quote_reserved \<or> x = Quote_dispatched"

lemma status_simps [simp]:
  "open_status Quote_confirmed" "open_status Quote_reserved" "open_status Quote_dispatched"
  "\<not> open_status Quoted" "\<not> open_status Quote_settled" "\<not> open_status Quote_refunded"
  "closed Quote_settled" "closed Quote_refunded" "\<not> closed Quoted" "\<not> closed Quote_confirmed"
  "\<not> closed Quote_reserved" "\<not> closed Quote_dispatched"
  "holds_reservation Quote_reserved" "holds_reservation Quote_dispatched" "\<not> holds_reservation Quoted"
  "\<not> holds_reservation Quote_confirmed" "\<not> holds_reservation Quote_settled" "\<not> holds_reservation Quote_refunded"
  by (simp_all add: open_status_def closed_def holds_reservation_def)

text \<open>The calls of the service by the quotes they name, and the moves each of them may make.\<close>

datatype quote_call =
    Build_call
  | Confirm_call string
  | Reserve_call string
  | Replace_call string string
  | Dispatch_call string
  | Settle_call string
  | Fail_call string

fun call_move :: "quote_call \<Rightarrow> string \<Rightarrow> quote_status \<Rightarrow> quote_status \<Rightarrow> bool" where
  "call_move Build_call k x y = False"
| "call_move (Confirm_call i) k x y \<longleftrightarrow> k = i \<and> x = Quoted \<and> y = Quote_confirmed"
| "call_move (Reserve_call i) k x y \<longleftrightarrow> k = i \<and> x = Quote_confirmed \<and> y = Quote_reserved"
| "call_move (Replace_call i j) k x y \<longleftrightarrow>
     k = i \<and> x = Quote_reserved \<and> y = Quote_refunded \<or>
     k = j \<and> x = Quoted \<and> y \<in> {Quote_confirmed, Quote_reserved}"
| "call_move (Dispatch_call i) k x y \<longleftrightarrow> k = i \<and> x = Quote_reserved \<and> y = Quote_dispatched"
| "call_move (Settle_call i) k x y \<longleftrightarrow> k = i \<and> holds_reservation x \<and> closed y"
| "call_move (Fail_call i) k x y \<longleftrightarrow> k = i \<and> (x = Quoted \<or> open_status x) \<and> closed y"

text \<open>
  What a call may do to the stored quotes: leave each as it is or make one of its moves \<open>E\<close>, with the
  terms as built.
\<close>

definition quotes_move ::
    "(string \<Rightarrow> quote_status \<Rightarrow> quote_status \<Rightarrow> bool) \<Rightarrow> quote_service \<Rightarrow> quote_service \<Rightarrow> bool" where
  "quotes_move E s s' \<longleftrightarrow>
     (\<forall>k q. map_of (qs_quotes s) k = Some q \<longrightarrow>
        (\<exists>q'. map_of (qs_quotes s') k = Some q' \<and> quote_terms.truncate q' = quote_terms.truncate q \<and>
              (q' = q \<or> E k (q_lifecycleStatus q) (q_lifecycleStatus q'))))"

lemma quotes_move_same: "qs_quotes s' = qs_quotes s \<Longrightarrow> quotes_move E s s'"
  by (auto simp: quotes_move_def)

lemma quotes_moveD:
  "quotes_move E s s' \<Longrightarrow> map_of (qs_quotes s) k = Some q \<Longrightarrow>
   \<exists>q'. map_of (qs_quotes s') k = Some q' \<and> quote_terms.truncate q' = quote_terms.truncate q \<and>
     (q' = q \<or> E k (q_lifecycleStatus q) (q_lifecycleStatus q'))"
  by (simp add: quotes_move_def)

lemma quotes_move_trans:
  assumes "quotes_move E s s'" and "quotes_move F s' s''"
    and "\<And>k x y. E k x y \<Longrightarrow> G k x y" and "\<And>k x y. F k x y \<Longrightarrow> G k x y"
    and "\<And>k x y z. E k x y \<Longrightarrow> F k y z \<Longrightarrow> G k x z"
  shows "quotes_move G s s''"
  unfolding quotes_move_def
proof (intro allI impI)
  fix k q
  assume q: "map_of (qs_quotes s) k = Some q"
  obtain q' where q': "map_of (qs_quotes s') k = Some q'" "quote_terms.truncate q' = quote_terms.truncate q"
    "q' = q \<or> E k (q_lifecycleStatus q) (q_lifecycleStatus q')"
    using quotes_moveD [OF assms(1) q] by blast
  obtain q'' where "map_of (qs_quotes s'') k = Some q''" "quote_terms.truncate q'' = quote_terms.truncate q'"
    "q'' = q' \<or> F k (q_lifecycleStatus q') (q_lifecycleStatus q'')"
    using quotes_moveD [OF assms(2) q'(1)] by blast
  with q'(2,3) assms(3-5) show "\<exists>q''. map_of (qs_quotes s'') k = Some q'' \<and>
      quote_terms.truncate q'' = quote_terms.truncate q \<and>
      (q'' = q \<or> G k (q_lifecycleStatus q) (q_lifecycleStatus q''))"
    by metis
qed

lemma quotes_move_mono: "quotes_move E s s' \<Longrightarrow> (\<And>k x y. E k x y \<Longrightarrow> G k x y) \<Longrightarrow> quotes_move G s s'"
  by (fastforce simp: quotes_move_def)

lemma quotes_move_from:
  assumes "quotes_move E s s'"
    and "\<And>k q y. map_of (qs_quotes s) k = Some q \<Longrightarrow> E k (q_lifecycleStatus q) y \<Longrightarrow> G k (q_lifecycleStatus q) y"
  shows "quotes_move G s s'"
  using assms by (fastforce simp: quotes_move_def)

lemma quotes_move_put:
  assumes "map_of (qs_quotes s) k = Some q" and "qs_quotes s' = map_set k q' (qs_quotes s)"
    and "quote_terms.truncate q' = quote_terms.truncate q"
    and "E k (q_lifecycleStatus q) (q_lifecycleStatus q')"
  shows "quotes_move E s s'"
  using assms by (auto simp: quotes_move_def)

lemma quotes_move_new:
  "map_of (qs_quotes s) k = None \<Longrightarrow> qs_quotes s' = map_set k q' (qs_quotes s) \<Longrightarrow> quotes_move E s s'"
  by (auto simp: quotes_move_def)

section \<open>The service invariant\<close>

text \<open>
  The usage record of a task belongs to a quote; in the strict reading it is also the open reservation
  of the quote, which holds as long as no failure is reported for a quote that was never confirmed.
\<close>

definition reservation_of :: "bool \<Rightarrow> quote \<Rightarrow> product_usage \<Rightarrow> bool" where
  "reservation_of strict q u \<longleftrightarrow> (strict \<longrightarrow> pr_status u = Reserved) \<and> pr_quoteId u = qt_quoteId q \<and>
     pr_reservedCredits u = qt_creditCost q"

text \<open>
  The price of a quote: positive credits where it has any, and for a package the sum of its allocations.
\<close>

definition terms_ok :: "'a quote_terms_scheme \<Rightarrow> bool" where
  "terms_ok q \<longleftrightarrow>
     (case qt_creditCost q of None \<Rightarrow> True | Some c \<Rightarrow> 1 \<le> c \<and> is_safe c) \<and>
     (case qt_packageContract q of None \<Rightarrow> True
      | Some k \<Rightarrow> qt_creditCost q = Some (sum_list (map (\<lambda>a. int_of (pk_creditCost a)) (pk_allocations k))))"

lemma truncate_fields:
  assumes "quote_terms.truncate q' = quote_terms.truncate q"
  shows "qt_quoteId q' = qt_quoteId q" and "qt_creditCost q' = qt_creditCost q" and "terms_ok q' = terms_ok q"
proof -
  show "qt_quoteId q' = qt_quoteId q" using assms by (simp add: quote_terms.truncate_def)
  show credit: "qt_creditCost q' = qt_creditCost q" using assms by (simp add: quote_terms.truncate_def)
  have "qt_packageContract q' = qt_packageContract q" using assms by (simp add: quote_terms.truncate_def)
  with credit show "terms_ok q' = terms_ok q" unfolding terms_ok_def by (auto split: option.splits)
qed

lemma terms_ok_update [simp]:
  "terms_ok (q\<lparr>q_lifecycleStatus := x\<rparr>) = terms_ok q"
  "terms_ok (q\<lparr>q_reservedAt := y\<rparr>) = terms_ok q"
  by (rule truncate_fields(3); simp add: quote_terms.truncate_def)+

text \<open>
  A task whose reservation is used up: its record was settled or refunded. A quote that was failed
  without having been confirmed leaves such a task behind.
\<close>

definition spent :: "quote_service \<Rightarrow> string \<Rightarrow> bool" where
  "spent s t \<longleftrightarrow> (\<exists>u. getByTask (qs_usage s) t = Some u \<and> pr_status u \<noteq> Reserved)"

definition quote_ok :: "bool \<Rightarrow> quote_service \<Rightarrow> string \<Rightarrow> quote \<Rightarrow> bool" where
  "quote_ok strict s k q \<longleftrightarrow> qt_quoteId q = k \<and> k \<noteq> [] \<and> terms_ok q \<and> q_lifecycleStatus q \<noteq> Quote_failed \<and>
     (open_status (q_lifecycleStatus q) \<longrightarrow>
        (\<exists>t. q_taskId q = Some t \<and> t \<noteq> [] \<and> map_of (qs_taskIndex s) t = Some k)) \<and>
     (closed (q_lifecycleStatus q) \<longrightarrow>
        (\<forall>t. q_taskId q = Some t \<longrightarrow> map_of (qs_taskIndex s) t = Some k \<or> \<not> strict \<and> spent s t)) \<and>
     (holds_reservation (q_lifecycleStatus q) \<longrightarrow>
        (\<exists>t u. q_taskId q = Some t \<and> getByTask (qs_usage s) t = Some u \<and> reservation_of strict q u))"

definition usage_backed :: "quote_service \<Rightarrow> bool" where
  "usage_backed s \<longleftrightarrow>
     (\<forall>t u. getByTask (qs_usage s) t = Some u \<longrightarrow>
        (\<exists>q. map_of (qs_quotes s) (pr_quoteId u) = Some q \<and>
             q_lifecycleStatus q \<noteq> Quoted \<and> q_lifecycleStatus q \<noteq> Quote_confirmed))"

definition service_ok :: "bool \<Rightarrow> quote_service \<Rightarrow> bool" where
  "service_ok strict s \<longleftrightarrow> usage_ledger_ok (qs_usage s) \<and> usage_backed s \<and>
     (\<forall>k q. map_of (qs_quotes s) k = Some q \<longrightarrow> quote_ok strict s k q)"

lemma service_okD:
  "service_ok strict s \<Longrightarrow> map_of (qs_quotes s) k = Some q \<Longrightarrow> quote_ok strict s k q"
  by (simp add: service_ok_def)

lemma quote_ok_frame:
  assumes "quote_ok strict s j x"
    and "\<And>t. map_of (qs_taskIndex s) t = Some j \<Longrightarrow> map_of (qs_taskIndex s') t = Some j"
    and "\<And>t. spent s t \<Longrightarrow> spent s' t"
    and "holds_reservation (q_lifecycleStatus x) \<Longrightarrow>
      \<exists>t u. q_taskId x = Some t \<and> getByTask (qs_usage s') t = Some u \<and> reservation_of strict x u"
  shows "quote_ok strict s' j x"
  using assms unfolding quote_ok_def by blast

lemma quote_ok_closedI:
  assumes "closed (q_lifecycleStatus x)" and "qt_quoteId x = k" and "k \<noteq> []" and "terms_ok x"
    and "\<And>t. q_taskId x = Some t \<Longrightarrow> map_of (qs_taskIndex s) t = Some k \<or> \<not> strict \<and> spent s t"
  shows "quote_ok strict s k x"
  using assms by (auto simp: quote_ok_def closed_def open_status_def holds_reservation_def)

lemma quote_ok_held:
  "quote_ok strict s k q \<Longrightarrow> holds_reservation (q_lifecycleStatus q) \<Longrightarrow>
   \<exists>t u. q_taskId q = Some t \<and> getByTask (qs_usage s) t = Some u \<and> reservation_of strict q u \<and>
     map_of (qs_taskIndex s) t = Some k"
  by (auto simp: quote_ok_def holds_reservation_def open_status_def)

lemma quote_ok_open:
  "quote_ok strict s k q \<Longrightarrow> open_status (q_lifecycleStatus q) \<Longrightarrow> q_taskId q = Some t \<Longrightarrow>
   map_of (qs_taskIndex s) t = Some k \<and> t \<noteq> []"
  by (auto simp: quote_ok_def)

text \<open>The invariant looks at three of the four parts of the service.\<close>

lemma service_ok_cong:
  assumes "qs_quotes s' = qs_quotes s" and "qs_taskIndex s' = qs_taskIndex s" and "qs_usage s' = qs_usage s"
  shows "service_ok strict s' = service_ok strict s"
  using assms by (simp add: service_ok_def usage_backed_def quote_ok_def spent_def)

definition sound_call ::
    "bool \<Rightarrow> (string \<Rightarrow> quote_status \<Rightarrow> quote_status \<Rightarrow> bool) \<Rightarrow> quote_service \<Rightarrow> quote_service \<Rightarrow> bool" where
  "sound_call strict E s s' \<longleftrightarrow> service_ok strict s' \<and> quotes_move E s s'"

lemma sound_same: "service_ok strict s \<Longrightarrow> sound_call strict E s s"
  by (simp add: sound_call_def quotes_move_same)

lemma sound_costs: "service_ok strict s \<Longrightarrow> sound_call strict E s (s\<lparr>qs_costs := c\<rparr>)"
  using service_ok_cong [of "s\<lparr>qs_costs := c\<rparr>" s] by (simp add: sound_call_def quotes_move_same)

lemma sound_trans:
  assumes "sound_call strict E s s'" and "sound_call strict F s' s''"
    and "\<And>k x y. E k x y \<Longrightarrow> G k x y" and "\<And>k x y. F k x y \<Longrightarrow> G k x y"
    and "\<And>k x y z. E k x y \<Longrightarrow> F k y z \<Longrightarrow> G k x z"
  shows "sound_call strict G s s''"
  using assms quotes_move_trans [of E s s' F s'' G] by (simp add: sound_call_def)

lemma sound_mono:
  "sound_call strict E s s' \<Longrightarrow> (\<And>k x y. E k x y \<Longrightarrow> G k x y) \<Longrightarrow> sound_call strict G s s'"
  unfolding sound_call_def using quotes_move_mono by blast

lemma sound_from:
  assumes "sound_call strict E s s'"
    and "\<And>k q y. map_of (qs_quotes s) k = Some q \<Longrightarrow> E k (q_lifecycleStatus q) y \<Longrightarrow> G k (q_lifecycleStatus q) y"
  shows "sound_call strict G s s'"
  using assms quotes_move_from unfolding sound_call_def by blast

lemma sound_after_same:
  assumes "qs_quotes s' = qs_quotes s" and "sound_call strict E s' s''"
  shows "sound_call strict E s s''"
  using assms by (simp add: sound_call_def quotes_move_def)

lemma sound_guarded:
  assumes "service_ok strict s" and "\<And>a. r = Inr a \<Longrightarrow> sound_call strict E s (snd (f a s))"
  shows "sound_call strict E s (snd (guarded r f s))"
  using assms by (cases r) (auto simp: sound_same)

lemma sound_op_bind:
  assumes "sound_call strict E s (snd (m s))" and "\<And>a s'. m s = (Inr a, s') \<Longrightarrow> sound_call strict E s (snd (f a s'))"
  shows "sound_call strict E s (snd (op_bind m f s))"
  using assms by (cases "m s"; cases "fst (m s)") (auto simp: op_bind_def)

lemma sound_on_costs: "service_ok strict s \<Longrightarrow> sound_call strict E s (snd (on_costs work s))"
  by (auto simp: on_costs_def sound_costs split: prod.splits)

lemma requireQuote_Inr [simp]: "requireQuote k s = Inr q \<longleftrightarrow> map_of (qs_quotes s) k = Some q"
  by (auto simp: requireQuote_def split: option.splits)

lemma put_quote_fields [simp]:
  "qs_quotes (put_quote q s) = map_set (qt_quoteId q) q (qs_quotes s)"
  "qs_taskIndex (put_quote q s) = qs_taskIndex s"
  "qs_usage (put_quote q s) = qs_usage s"
  by (simp_all add: put_quote_def)

lemma truthy_Some [simp]: "truthy x = Some y \<longleftrightarrow> x = Some y \<and> y \<noteq> []"
  by (auto simp: truthy_def split: option.splits)

lemma truthy_None [simp]: "truthy x = None \<longleftrightarrow> x = None \<or> x = Some []"
  by (auto simp: truthy_def split: option.splits)

lemma truthy_nonempty: "y \<noteq> [] \<Longrightarrow> truthy (Some y) = Some y"
  by simp

text \<open>Writing a quote with the same terms and task keeps the others as they were.\<close>

lemma quote_ok_cong:
  "qs_taskIndex s' = qs_taskIndex s \<Longrightarrow> qs_usage s' = qs_usage s \<Longrightarrow> quote_ok strict s' k q = quote_ok strict s k q"
  by (simp add: quote_ok_def spent_def)

lemma put_quote_ok:
  assumes "service_ok strict s" and "map_of (qs_quotes s) k = Some q" and "qt_quoteId q' = k"
    and "quote_ok strict s k q'" and "q_lifecycleStatus q' \<noteq> Quoted \<and> q_lifecycleStatus q' \<noteq> Quote_confirmed"
  shows "service_ok strict (put_quote q' s)"
  using assms
  by (auto simp: service_ok_def usage_backed_def quote_ok_cong [of "put_quote q' s" s] split: if_splits)

section \<open>Charges\<close>

text \<open>The quotes a charge may close: an open one, and a quoted one where reservations are not tied to quotes.\<close>

definition closable :: "bool \<Rightarrow> quote_status \<Rightarrow> bool" where
  "closable strict x \<longleftrightarrow> open_status x \<or> \<not> strict \<and> x = Quoted"

text \<open>
  The contract of a call that charges or returns the reservation of one task: it touches the record of that
  task only, keeps the quote the record belongs to and the credits it was reserved for, and fails without a
  trace when there is none.
\<close>

locale task_charge =
  fixes work :: "(usage_ledger, product_usage) op"
    and task :: string
  assumes other_tasks: "k \<noteq> task \<Longrightarrow> getByTask (snd (work u)) k = getByTask u k"
    and keeps_ledger: "usage_ledger_ok u \<Longrightarrow> usage_ledger_ok (snd (work u))"
    and keeps_quote: "getByTask u task = Some r \<Longrightarrow>
      \<exists>r'. getByTask (snd (work u)) task = Some r' \<and> pr_quoteId r' = pr_quoteId r \<and>
        pr_reservedCredits r' = pr_reservedCredits r"
    and uses_up: "work u = (Inr a, u') \<Longrightarrow> \<exists>r. getByTask u' task = Some r \<and> pr_status r \<noteq> Reserved"
    and fails_clean: "work u = (Inl e, u') \<Longrightarrow> u' = u"
    and needs_record: "getByTask u task = None \<Longrightarrow> \<exists>e. work u = (Inl e, u)"
begin

lemma backed_after:
  assumes "service_ok strict s" and "map_of (qs_quotes s) k = Some q" and "closed (q_lifecycleStatus q')"
  shows "usage_backed (put_quote q' (s\<lparr>qs_usage := snd (work (qs_usage s))\<rparr>))"
proof -
  have "\<exists>u0. getByTask (qs_usage s) t = Some u0 \<and> pr_quoteId u = pr_quoteId u0"
    if "getByTask (snd (work (qs_usage s))) t = Some u" for t u
  proof (cases "t = task")
    case True
    show ?thesis
    proof (cases "getByTask (qs_usage s) task")
      case None
      then obtain e where "work (qs_usage s) = (Inl e, qs_usage s)" using needs_record by blast
      with that True None show ?thesis by simp
    next
      case (Some r)
      from keeps_quote [OF this] that True Some show ?thesis by auto
    qed
  next
    case False
    with that other_tasks [OF False] show ?thesis by auto
  qed
  with assms show ?thesis
    by (fastforce simp: service_ok_def usage_backed_def closed_def split: if_splits)
qed

lemma stays_spent:
  assumes "spent s t" and "work (qs_usage s) = (Inr a, u')"
  shows "spent (s\<lparr>qs_usage := u'\<rparr>) t"
proof (cases "t = task")
  case True
  with uses_up [OF assms(2)] show ?thesis by (simp add: spent_def)
next
  case False
  with other_tasks [OF False, of "qs_usage s"] assms show ?thesis by (simp add: spent_def)
qed

lemma closes_quote:
  assumes ok: "service_ok strict s" and q: "map_of (qs_quotes s) k = Some q" "q_taskId q = Some task"
    and opened: "closable strict (q_lifecycleStatus q)"
    and q': "quote_terms.truncate q' = quote_terms.truncate q" "q_taskId q' = q_taskId q" "closed (q_lifecycleStatus q')"
    and move: "E k (q_lifecycleStatus q) (q_lifecycleStatus q')"
    and run: "work (qs_usage s) = (Inr a, u')"
  shows "sound_call strict E s (put_quote q' (s\<lparr>qs_usage := u'\<rparr>))" (is "sound_call strict E s ?s'")
proof -
  have k: "qt_quoteId q = k" "map_of (qs_taskIndex s) task = Some k \<or> \<not> strict" "k \<noteq> []"
    using service_okD [OF ok q(1)] quote_ok_open [OF service_okD [OF ok q(1)] _ q(2)] opened
    by (auto simp: quote_ok_def closable_def)
  have id': "qt_quoteId q' = k" using truncate_fields(1) [OF q'(1)] k(1) by simp
  have terms: "terms_ok q'" using truncate_fields(3) [OF q'(1)] service_okD [OF ok q(1)] by (simp add: quote_ok_def)
  have spent: "spent ?s' task" "\<And>t. spent s t \<Longrightarrow> spent ?s' t"
    using uses_up [OF run] stays_spent [OF _ run] by (simp_all add: spent_def)
  have "quote_ok strict ?s' k' x" if x: "map_of (qs_quotes ?s') k' = Some x" for k' x
  proof (cases "k' = k")
    case True
    with x id' have "x = q'" by simp
    with True id' terms q'(2,3) q(2) k(2,3) spent(1) show ?thesis
      by (intro quote_ok_closedI) auto
  next
    case False
    with x id' have old: "quote_ok strict s k' x" using service_okD [OF ok] by simp
    have "\<exists>t u. q_taskId x = Some t \<and> getByTask u' t = Some u \<and> reservation_of strict x u"
      if held: "holds_reservation (q_lifecycleStatus x)"
    proof -
      from old held obtain t u where t: "q_taskId x = Some t" "getByTask (qs_usage s) t = Some u"
        "reservation_of strict x u" "map_of (qs_taskIndex s) t = Some k'"
        using quote_ok_held by blast
      show ?thesis
      proof (cases "t = task")
        case True
        with k(2) t(4) False have "\<not> strict" by auto
        with keeps_quote [of "qs_usage s" u] True t run show ?thesis by (auto simp: reservation_of_def)
      next
        case False
        with t other_tasks [OF False, of "qs_usage s"] run show ?thesis by auto
      qed
    qed
    with spent(2) show ?thesis by (intro quote_ok_frame [OF old]) simp_all
  qed
  moreover have "usage_backed ?s'" using backed_after [OF ok q(1) q'(3)] run by simp
  moreover have "usage_ledger_ok (qs_usage ?s')" using ok keeps_ledger [of "qs_usage s"] run by (simp add: service_ok_def)
  ultimately have "service_ok strict ?s'" by (simp add: service_ok_def)
  moreover have "quotes_move E s ?s'"
    by (rule quotes_move_put [where E = E, OF q(1) _ q'(1) move]) (simp add: id')
  ultimately show ?thesis by (simp add: sound_call_def)
qed

lemma charge_and_close:
  assumes "service_ok strict s" and "map_of (qs_quotes s) k = Some q" and "q_taskId q = Some task"
    and "closable strict (q_lifecycleStatus q)" and "quote_terms.truncate q' = quote_terms.truncate q"
    and "q_taskId q' = q_taskId q" and "closed (q_lifecycleStatus q')"
    and "E k (q_lifecycleStatus q) (q_lifecycleStatus q')"
  shows "sound_call strict E s (snd (op_bind (on_usage work) (close_quote q') s))"
proof (cases "work (qs_usage s)")
  case (Pair r u')
  show ?thesis
  proof (cases r)
    case (Inl e)
    then have "u' = qs_usage s" using Pair fails_clean by simp
    with Pair Inl sound_same [OF assms(1)] show ?thesis by (simp add: op_bind_def on_usage_def)
  next
    case (Inr a)
    with Pair closes_quote [of strict s k q q' E a u'] assms show ?thesis
      by (simp add: op_bind_def on_usage_def close_quote_def)
  qed
qed

end

lemma settle_frame: "k \<noteq> se_taskId inp \<Longrightarrow> getByTask (snd (settle inp u)) k = getByTask u k"
  by (simp add: settle_def guarded_def getByTask_def store_usage_def Let_def split: option.splits sum.splits)

lemma settle_record:
  assumes "settle inp u = (x, u')"
  shows "u' = u \<or> (\<exists>r st rf p. getByTask u (se_taskId inp) = Some r \<and> x = Inr (settled_record r inp st rf p) \<and>
    u' = store_usage (se_taskId inp) (settled_record r inp st rf p) u)"
  using assms
  by (auto simp: settle_def guarded_def getByTask_def Let_def split: option.splits sum.splits if_splits)

lemma refund_frame: "k \<noteq> rf_taskId inp \<Longrightarrow> getByTask (snd (refund inp u)) k = getByTask u k"
  by (simp add: refund_def guarded_def getByTask_def store_usage_def Let_def split: option.splits sum.splits)

lemma refund_record:
  assumes "refund inp u = (x, u')"
  shows "u' = u \<or> (\<exists>r st rf. getByTask u (rf_taskId inp) = Some r \<and> x = Inr (refunded_record r inp st rf) \<and>
    u' = store_usage (rf_taskId inp) (refunded_record r inp st rf) u)"
  using assms
  by (auto simp: refund_def guarded_def getByTask_def Let_def split: option.splits sum.splits if_splits)

lemma getByTask_store [simp]: "getByTask (store_usage k r u) t = (if t = k then Some r else getByTask u t)"
  by (simp add: getByTask_def store_usage_def)

lemma settled_status_closed [simp]: "settled_status r c n m \<noteq> Reserved"
  by (simp add: settled_status_def)

lemma settle_uses_up:
  "settle inp u = (Inr a, u') \<Longrightarrow> \<exists>r. getByTask u' (se_taskId inp) = Some r \<and> pr_status r \<noteq> Reserved"
  by (auto simp: settle_def guarded_def getByTask_def [symmetric] Let_def settled_record_def is_settled_iff
      split: option.splits sum.splits if_splits)

lemma refund_uses_up:
  "refund inp u = (Inr a, u') \<Longrightarrow> \<exists>r. getByTask u' (rf_taskId inp) = Some r \<and> pr_status r \<noteq> Reserved"
  by (auto simp: refund_def guarded_def getByTask_def [symmetric] Let_def refunded_record_def is_settled_iff
      split: option.splits sum.splits if_splits)

interpretation settle_charge: task_charge "settle inp" "se_taskId inp" for inp
proof
  fix u k r a e u'
  show "k \<noteq> se_taskId inp \<Longrightarrow> getByTask (snd (settle inp u)) k = getByTask u k" by (rule settle_frame)
  show "usage_ledger_ok u \<Longrightarrow> usage_ledger_ok (snd (settle inp u))"
    using settle_writes usage_write_ok by blast
  show "getByTask u (se_taskId inp) = Some r \<Longrightarrow>
      \<exists>r'. getByTask (snd (settle inp u)) (se_taskId inp) = Some r' \<and> pr_quoteId r' = pr_quoteId r \<and>
        pr_reservedCredits r' = pr_reservedCredits r"
    using settle_record [of inp u] by (cases "settle inp u") (auto simp: settled_record_def)
  show "settle inp u = (Inr a, u') \<Longrightarrow> \<exists>r. getByTask u' (se_taskId inp) = Some r \<and> pr_status r \<noteq> Reserved"
    by (rule settle_uses_up)
  show "settle inp u = (Inl e, u') \<Longrightarrow> u' = u" using settle_record [of inp u] by auto
  show "getByTask u (se_taskId inp) = None \<Longrightarrow> \<exists>e. settle inp u = (Inl e, u)"
    by (simp add: settle_def getByTask_def)
qed

interpretation refund_charge: task_charge "refund inp" "rf_taskId inp" for inp
proof
  fix u k r a e u'
  show "k \<noteq> rf_taskId inp \<Longrightarrow> getByTask (snd (refund inp u)) k = getByTask u k" by (rule refund_frame)
  show "usage_ledger_ok u \<Longrightarrow> usage_ledger_ok (snd (refund inp u))"
    using refund_writes usage_write_ok by blast
  show "getByTask u (rf_taskId inp) = Some r \<Longrightarrow>
      \<exists>r'. getByTask (snd (refund inp u)) (rf_taskId inp) = Some r' \<and> pr_quoteId r' = pr_quoteId r \<and>
        pr_reservedCredits r' = pr_reservedCredits r"
    using refund_record [of inp u] by (cases "refund inp u") (auto simp: refunded_record_def Let_def)
  show "refund inp u = (Inr a, u') \<Longrightarrow> \<exists>r. getByTask u' (rf_taskId inp) = Some r \<and> pr_status r \<noteq> Reserved"
    by (rule refund_uses_up)
  show "refund inp u = (Inl e, u') \<Longrightarrow> u' = u" using refund_record [of inp u] by auto
  show "getByTask u (rf_taskId inp) = None \<Longrightarrow> \<exists>e. refund inp u = (Inl e, u)"
    by (simp add: refund_def getByTask_def)
qed

section \<open>Every operation is sound\<close>

lemma closed_quote_fields [simp]:
  "q_taskId (closed_quote now q x k a b) = q_taskId q"
  "q_lifecycleStatus (closed_quote now q x k a b) = x"
  "quote_terms.truncate (closed_quote now q x k a b) = quote_terms.truncate q"
  by (simp_all add: closed_quote_def quote_terms.truncate_def)

lemma truncate_settlement_fields [simp]:
  "quote_terms.truncate (q\<lparr>q_billedSeconds := b\<rparr>) = quote_terms.truncate q"
  "quote_terms.truncate (q\<lparr>q_platformAbsorbedAmount := c\<rparr>) = quote_terms.truncate q"
  "quote_terms.truncate (q\<lparr>q_lifecycleStatus := x\<rparr>) = quote_terms.truncate q"
  "quote_terms.truncate (q\<lparr>q_reservedAt := d\<rparr>) = quote_terms.truncate q"
  by (simp_all add: quote_terms.truncate_def)

lemma closed_status_closed [simp]: "closed (closed_status a)"
  by (simp add: closed_status_def)

lemma credit_settle_input_task [simp]: "se_taskId (credit_settle_input now t c k) = t"
  by (simp add: credit_settle_input_def)

lemma absorb_sound: "service_ok strict s \<Longrightarrow> sound_call strict E s (snd (absorb_overproduction inp a s))"
  unfolding absorb_overproduction_def
  by (auto simp: sound_same split: option.splits intro!: sound_guarded sound_op_bind sound_on_costs)
    (metis sound_on_costs snd_conv)

lemma absorb_keeps:
  "absorb_overproduction inp a s = (Inr x, s') \<Longrightarrow>
   qs_quotes s' = qs_quotes s \<and> qs_taskIndex s' = qs_taskIndex s \<and> qs_usage s' = qs_usage s"
  by (auto simp: absorb_overproduction_def guarded_Inr op_bind_Inr on_costs_def split: option.splits if_splits prod.splits)

lemma settle_credit_sound:
  assumes "service_ok strict s" and "map_of (qs_quotes s) k = Some q" and "q_taskId q = Some t"
    and "closable strict (q_lifecycleStatus q)" and "\<And>x. closed x \<Longrightarrow> E k (q_lifecycleStatus q) x"
  shows "sound_call strict E s (snd (settle_credit_quote now q t c inp s))"
  unfolding settle_credit_quote_def Let_def
  using assms by (auto intro!: sound_guarded settle_charge.charge_and_close)

lemma settle_unit_sound:
  assumes "service_ok strict s" and "map_of (qs_quotes s) k = Some q" and "q_taskId q = Some t"
    and "closable strict (q_lifecycleStatus q)" and "\<And>x. closed x \<Longrightarrow> E k (q_lifecycleStatus q) x"
  shows "sound_call strict E s (snd (settle_unit_quote now q t u inp s))"
  unfolding settle_unit_quote_def
proof (intro sound_guarded [OF assms(1)] sound_op_bind)
  fix outcome a s'
  assume "absorb_overproduction inp (uo_absorbedAmount outcome) s = (Inr a, s')"
  moreover from this have "service_ok strict s'"
    using absorb_sound [OF assms(1), of E inp "uo_absorbedAmount outcome"] by (simp add: sound_call_def)
  ultimately show "sound_call strict E s (snd (op_bind (on_usage (settle
         \<lparr> se_taskId = t, se_settledUnits = Some (uo_units outcome), se_settledQuantity = None,
           se_refundCredits = None, se_settlementStatus = uo_settlementStatus outcome, se_updatedAt = now \<rparr>))
       (close_quote
         ((closed_quote now q (closed_status (uo_settledAmount outcome)) (uo_settlementStatus outcome)
             (uo_settledAmount outcome) (uo_refundedAmount outcome))
          \<lparr> q_billedSeconds := newer (q_billedSeconds q) (uo_billedSeconds outcome),
            q_platformAbsorbedAmount := (if uo_absorbedAmount outcome > 0 then Some (uo_absorbedAmount outcome)
                                         else q_platformAbsorbedAmount q) \<rparr>)) s'))"
    using assms absorb_keeps
    by (intro sound_after_same [of s' s] settle_charge.charge_and_close [where k = k and q = q]) auto
qed (auto intro: absorb_sound assms(1))

lemma settleQuote_sound:
  assumes "service_ok strict s"
  shows "sound_call strict (call_move (Settle_call (sq_quoteId inp))) s (snd (settleQuote now inp s))"
  unfolding settleQuote_def
  using assms
  by (intro sound_guarded)
    (auto simp: sound_same closable_def open_status_def holds_reservation_def split: option.splits
      intro!: settle_credit_sound settle_unit_sound)

lemma fail_credit_sound:
  assumes "service_ok strict s" and "map_of (qs_quotes s) k = Some q" and "q_taskId q = Some t"
    and "closable strict (q_lifecycleStatus q)" and "\<And>x. closed x \<Longrightarrow> E k (q_lifecycleStatus q) x"
  shows "sound_call strict E s (snd (fail_credit_quote now q t c inp s))"
  unfolding fail_credit_quote_def Let_def
  using assms refund_charge.charge_and_close [OF assms(1,2) _ assms(4), of "\<lparr> rf_taskId = t, rf_remainingUnits = Some [],
                              rf_remainingQuantity = None, rf_updatedAt = now \<rparr>" _ E]
  by (auto split: option.splits intro!: sound_guarded settle_charge.charge_and_close)

lemma fail_unit_sound:
  assumes "service_ok strict s" and "map_of (qs_quotes s) k = Some q" and "q_taskId q = Some t"
    and "closable strict (q_lifecycleStatus q)" and "\<And>x. closed x \<Longrightarrow> E k (q_lifecycleStatus q) x"
  shows "sound_call strict E s (snd (fail_unit_quote now q t u inp s))"
  unfolding fail_unit_quote_def
  using assms by (intro sound_guarded refund_charge.charge_and_close [where k = k and q = q]) auto

text \<open>A failed quote is expected to have been confirmed; the service itself does not ask for it.\<close>

lemma failAndRefund_sound:
  assumes "service_ok strict s"
    and "\<And>q. strict \<Longrightarrow> map_of (qs_quotes s) (fi_quoteId inp) = Some q \<Longrightarrow> q_lifecycleStatus q \<noteq> Quoted"
  shows "sound_call strict (call_move (Fail_call (fi_quoteId inp))) s (snd (failAndRefund now inp s))"
proof -
  have opened: "closable strict (q_lifecycleStatus q)" "q_lifecycleStatus q = Quoted \<or> open_status (q_lifecycleStatus q)"
    if "map_of (qs_quotes s) (fi_quoteId inp) = Some q" "q_lifecycleStatus q \<noteq> Quote_settled"
      "q_lifecycleStatus q \<noteq> Quote_refunded" for q
    using that assms(2) service_okD [OF assms(1)]
    by (cases "q_lifecycleStatus q"; auto simp: closable_def open_status_def quote_ok_def)+
  show ?thesis
    unfolding failAndRefund_def using assms(1)
    by (auto simp: sound_same opened split: option.splits intro!: sound_guarded fail_credit_sound fail_unit_sound)
qed

section \<open>Dispatch, build, confirm, reserve\<close>

lemma mark_dispatched_sound:
  assumes "service_ok strict s" and "map_of (qs_quotes s) k = Some q" and "holds_reservation (q_lifecycleStatus q)"
    and "E k Quote_reserved Quote_dispatched"
  shows "sound_call strict E s (snd (mark_dispatched q c s))"
proof (cases "q_lifecycleStatus q = Quote_reserved")
  case True
  let ?q = "q\<lparr>q_lifecycleStatus := Quote_dispatched\<rparr>"
  have ok: "quote_ok strict s k q" by (rule service_okD [OF assms(1,2)])
  then have "quote_ok strict s k ?q" "qt_quoteId ?q = k"
    using True by (auto simp: quote_ok_def open_status_def holds_reservation_def reservation_of_def)
  with assms(1,2) have "service_ok strict (put_quote ?q s)" by (intro put_quote_ok) auto
  moreover have "quotes_move E s (put_quote ?q s)"
    using True ok assms(4) by (intro quotes_move_put [OF assms(2), of _ ?q]) (auto simp: quote_ok_def)
  ultimately show ?thesis using True by (simp add: mark_dispatched_def sound_call_def Let_def)
next
  case False
  with assms(1) show ?thesis by (simp add: mark_dispatched_def sound_same)
qed

lemma record_cost_only_costs: "\<exists>c'. snd (record_cost a t d c s) = s\<lparr>qs_costs := c'\<rparr>"
proof -
  have "\<exists>c'. s = s\<lparr>qs_costs := c'\<rparr>" by (rule exI [of _ "qs_costs s"]) simp
  then show ?thesis
    by (auto simp: record_cost_def guarded_def op_bind_def on_costs_def split: sum.splits prod.splits)
qed

lemma record_and_dispatch_sound:
  assumes "service_ok strict s" and "map_of (qs_quotes s) k = Some q" and "holds_reservation (q_lifecycleStatus q)"
    and "E k Quote_reserved Quote_dispatched"
  shows "sound_call strict E s (snd (op_bind (record_cost a t d c) (mark_dispatched q) s))"
proof (rule sound_op_bind)
  obtain c' where c': "snd (record_cost a t d c s) = s\<lparr>qs_costs := c'\<rparr>" using record_cost_only_costs by blast
  with sound_costs [OF assms(1)] show "sound_call strict E s (snd (record_cost a t d c s))" by simp
  fix x s'
  assume "record_cost a t d c s = (Inr x, s')"
  with c' have s': "s' = s\<lparr>qs_costs := c'\<rparr>" by simp
  have "service_ok strict s'" using sound_costs [OF assms(1), of E c'] by (simp add: s' sound_call_def)
  then show "sound_call strict E s (snd (mark_dispatched q x s'))"
    using assms(2-4) by (intro sound_after_same [of s' s] mark_dispatched_sound) (simp_all add: s')
qed

lemma dispatch_sound:
  assumes "service_ok strict s"
  shows "sound_call strict (call_move (Dispatch_call (di_quoteId inp))) s (snd (dispatch inp s))"
  unfolding dispatch_def
proof (intro sound_guarded [OF assms], goal_cases)
  case (1 q u v)
  then have "holds_reservation (q_lifecycleStatus q)" by (auto simp: holds_reservation_def)
  with 1 assms record_and_dispatch_sound [OF assms] mark_dispatched_sound [OF assms] show ?case
    by (auto simp: op_bind_def split: option.splits)
qed

lemma fallbackDispatch_sound:
  assumes "service_ok strict s"
  shows "sound_call strict (call_move (Dispatch_call (di_quoteId inp))) s (snd (fallbackDispatch inp s))"
  unfolding fallbackDispatch_def
proof (intro sound_guarded [OF assms], goal_cases)
  case (1 q u v)
  then have "holds_reservation (q_lifecycleStatus q)" by (auto simp: holds_reservation_def)
  with 1 assms record_and_dispatch_sound [OF assms] mark_dispatched_sound [OF assms] show ?case
    by (auto simp: sound_same split: option.splits)
qed

lemma quote_snapshot_fields [simp]:
  "qt_quoteId (quote_snapshot sha now inp a c) = bi_quoteId inp"
  "q_lifecycleStatus (quote_snapshot sha now inp a c) = Quoted"
  by (simp_all add: quote_snapshot_def)

lemma build_checks_quoteId: "build_checks inp = Inr x \<Longrightarrow> bi_quoteId inp \<noteq> []"
  by (auto simp: build_checks_def blank_iff split: if_splits)

lemma package_totals_sum:
  "package_totals as ids u c = Inr (u', c') \<Longrightarrow> c' = c + sum_list (map (\<lambda>a. int_of (pk_creditCost a)) as)"
proof (induction as arbitrary: ids u c)
  case (Cons a as)
  from Cons.prems Cons.IH [of "pk_allocationId a # ids" "u + int_of (pk_deliveryUnits a)" "c + int_of (pk_creditCost a)"]
  show ?case by (simp add: add.assoc split: if_splits)
qed simp

lemma build_checks_terms: "build_checks inp = Inr x \<Longrightarrow> terms_ok (quote_snapshot sha now inp a c)"
  by (auto simp: build_checks_def terms_ok_def quote_snapshot_def assertPackageQuoteTotals_def r_bind_Inr_iff
      r_bind_unit_Inr number_isSafeInteger_iff split: if_splits option.splits dest!: package_totals_sum)

lemma new_quote_ok:
  assumes "service_ok strict s" and "map_of (qs_quotes s) (qt_quoteId q) = None" and "q_lifecycleStatus q = Quoted"
    and "qt_quoteId q \<noteq> []" and "terms_ok q"
  shows "service_ok strict (put_quote q s)"
proof -
  have "usage_backed (put_quote q s)"
    using assms(1,2) unfolding service_ok_def usage_backed_def by fastforce
  moreover have "quote_ok strict (put_quote q s) k x" if "map_of (qs_quotes (put_quote q s)) k = Some x" for k x
    using that assms service_okD [OF assms(1), of k x]
    by (cases "k = qt_quoteId q") (simp_all add: quote_ok_cong [of "put_quote q s" s], simp add: quote_ok_def)
  ultimately show ?thesis using assms(1) by (simp add: service_ok_def)
qed

lemma buildQuote_sound:
  assumes "service_ok strict s"
  shows "sound_call strict E s (snd (buildQuote sha now inp s))"
proof -
  have new: "sound_call strict E s (put_quote (quote_snapshot sha now inp a c) s)"
    if "build_checks inp = Inr x" "map_of (qs_quotes s) (bi_quoteId inp) = None" for x a c
    using that assms build_checks_quoteId [OF that(1)] build_checks_terms [OF that(1)]
    by (auto simp: sound_call_def intro!: new_quote_ok quotes_move_new [where k = "bi_quoteId inp"])
  show ?thesis
    unfolding buildQuote_def Let_def
    by (intro sound_guarded [OF assms]) (auto simp: sound_same [OF assms] split: option.splits intro!: sound_guarded [OF assms] new)
qed

lemma buildQuote_quoted:
  "buildQuote sha now inp s = (Inr q, s') \<Longrightarrow>
   qs_taskIndex s' = qs_taskIndex s \<and> qs_usage s' = qs_usage s \<and> (\<forall>k x. map_of (qs_quotes s) k = Some x \<longrightarrow> map_of (qs_quotes s') k = Some x) \<and>
   map_of (qs_quotes s') (bi_quoteId inp) = Some q"
  by (auto simp: buildQuote_def guarded_Inr guarded_unit_Inr Let_def split: option.splits if_splits)

section \<open>Confirm, reserve, reprice\<close>

lemma confirmed_quote_fields [simp]:
  "q_taskId (confirmed_quote now inp q) = Some (ci_taskId inp)"
  "q_lifecycleStatus (confirmed_quote now inp q) = Quote_confirmed"
  "quote_terms.truncate (confirmed_quote now inp q) = quote_terms.truncate q"
  "qt_quoteId (confirmed_quote now inp q) = qt_quoteId q"
  "qt_creditCost (confirmed_quote now inp q) = qt_creditCost q"
  by (simp_all add: confirmed_quote_def Let_def quote_terms.truncate_def)

definition bind_task :: "quote \<Rightarrow> string \<Rightarrow> string \<Rightarrow> quote_service \<Rightarrow> quote_service" where
  "bind_task q k t s = s\<lparr>qs_quotes := map_set k q (qs_quotes s), qs_taskIndex := map_set t k (qs_taskIndex s)\<rparr>"

lemma confirm_cases:
  assumes "confirm now inp s = (x, s')" and "service_ok strict s"
  shows "s' = s \<and> (\<forall>q. x = Inr q \<longrightarrow> map_of (qs_quotes s) (ci_quoteId inp) = Some q \<and>
        q_taskId q = Some (ci_taskId inp) \<and> q_lifecycleStatus q \<noteq> Quoted) \<or>
    (\<exists>q. map_of (qs_quotes s) (ci_quoteId inp) = Some q \<and> q_lifecycleStatus q = Quoted \<and> ci_taskId inp \<noteq> [] \<and>
      (map_of (qs_taskIndex s) (ci_taskId inp) \<in> {None, Some [], Some (ci_quoteId inp)}) \<and>
      x = Inr (confirmed_quote now inp q) \<and>
      s' = bind_task (confirmed_quote now inp q) (ci_quoteId inp) (ci_taskId inp) s)"
proof (cases "map_of (qs_quotes s) (ci_quoteId inp)")
  case None
  with assms(1) show ?thesis by (auto simp: confirm_def requireQuote_def)
next
  case (Some q)
  have "\<exists>t. q_taskId q = Some t \<and> t \<noteq> []" if "q_lifecycleStatus q = Quote_confirmed"
    using service_okD [OF assms(2) Some] that by (auto simp: quote_ok_def)
  moreover have "ci_taskId inp \<noteq> []" if "\<not> blank (ci_taskId inp)" using that by (auto simp: blank_iff)
  ultimately show ?thesis using assms(1) Some
    by (cases "q_taskId q"; cases "map_of (qs_taskIndex s) (ci_taskId inp)")
      (auto simp: confirm_def requireQuote_def guarded_def check_def bind_task_def Let_def truthy_def
        split: if_splits)
qed

lemma bind_task_sound:
  assumes "service_ok strict s" and "map_of (qs_quotes s) k = Some q" and "q_lifecycleStatus q = Quoted" and "t \<noteq> []"
    and "map_of (qs_taskIndex s) t \<in> {None, Some [], Some k}"
    and "quote_terms.truncate q' = quote_terms.truncate q" and "q_taskId q' = Some t"
    and "q_lifecycleStatus q' = Quote_confirmed" and "E k Quoted Quote_confirmed"
  shows "sound_call strict E s (bind_task q' k t s)" (is "sound_call strict E s ?s'")
proof -
  have k: "qt_quoteId q = k" "k \<noteq> []" "terms_ok q" using service_okD [OF assms(1,2)] by (auto simp: quote_ok_def)
  have "quote_ok strict ?s' j x" if x: "map_of (qs_quotes ?s') j = Some x" for j x
  proof (cases "j = k")
    case True
    with x have "x = q'" by (simp add: bind_task_def)
    with True assms(4,7,8) k truncate_fields(1,3) [OF assms(6)] show ?thesis
      by (simp add: quote_ok_def bind_task_def holds_reservation_def closed_def)
  next
    case False
    with x have old: "quote_ok strict s j x" using service_okD [OF assms(1)] by (simp add: bind_task_def)
    have "j \<noteq> []" using old by (simp add: quote_ok_def)
    with False assms(5) have "map_of (qs_taskIndex ?s') t' = Some j" if "map_of (qs_taskIndex s) t' = Some j" for t'
      using that by (auto simp: bind_task_def)
    with quote_ok_held [OF old] show ?thesis
      by (intro quote_ok_frame [OF old]) (auto simp: bind_task_def spent_def)
  qed
  moreover have "usage_backed ?s'"
    using assms(1-3) unfolding service_ok_def usage_backed_def bind_task_def by fastforce
  ultimately have "service_ok strict ?s'" using assms(1) by (simp add: service_ok_def bind_task_def)
  moreover have "quotes_move E s ?s'"
    using assms(3,6,8,9) by (intro quotes_move_put [OF assms(2), of _ q']) (auto simp: bind_task_def)
  ultimately show ?thesis by (simp add: sound_call_def)
qed

lemma confirm_sound:
  assumes "service_ok strict s"
  shows "sound_call strict (call_move (Confirm_call (ci_quoteId inp))) s (snd (confirm now inp s))"
proof (cases "confirm now inp s")
  case (Pair x s')
  from confirm_cases [OF Pair assms] Pair show ?thesis
    by (auto simp: sound_same [OF assms] intro!: bind_task_sound [OF assms])
qed

lemma reserve_cases:
  assumes "reserve inp u = (x, u')"
  shows "u' = u \<and> (\<forall>r. x = Inr r \<longrightarrow> getByTask u (ri_taskId inp) = Some r \<and> pr_quoteId r = ri_quoteId inp) \<or>
    (\<exists>r. getByTask u (ri_taskId inp) = None \<and> x = Inr r \<and> u' = store_usage (ri_taskId inp) r u \<and>
      pr_status r = Reserved \<and> pr_quoteId r = ri_quoteId inp \<and> pr_reservedCredits r = map_option int_of (ri_credits inp))"
  using assms
  by (auto simp: reserve_def guarded_def getByTask_def Let_def new_usage_def split: option.splits sum.splits if_splits)

text \<open>The first usage record of a task, filed for a quote that holds it from now on.\<close>

lemma store_reservation_sound:
  assumes ok: "service_ok strict s" and q: "map_of (qs_quotes s) k = Some q" "q_taskId q = Some t"
    and opened: "open_status (q_lifecycleStatus q)"
    and free: "\<And>j x. j \<noteq> k \<Longrightarrow> map_of (qs_quotes s) j = Some x \<Longrightarrow> q_taskId x = Some t \<Longrightarrow> \<not> holds_reservation (q_lifecycleStatus x)"
    and unspent: "\<not> spent s t" and u: "usage_ledger_ok (store_usage t r (qs_usage s))" "reservation_of strict q r"
    and q': "quote_terms.truncate q' = quote_terms.truncate q" "q_taskId q' = q_taskId q" "q_lifecycleStatus q' = Quote_reserved"
    and move: "q_lifecycleStatus q = Quote_confirmed" "E k Quote_confirmed Quote_reserved"
  shows "sound_call strict E s (put_quote q' (s\<lparr>qs_usage := store_usage t r (qs_usage s)\<rparr>))" (is "sound_call strict E s ?s'")
proof -
  have k: "qt_quoteId q = k" "k \<noteq> []" "map_of (qs_taskIndex s) t = Some k" "t \<noteq> []"
    using service_okD [OF ok q(1)] q(2) opened by (auto simp: quote_ok_def open_status_def)
  have id': "qt_quoteId q' = k" "qt_creditCost q' = qt_creditCost q" "terms_ok q'"
    using truncate_fields [OF q'(1)] k(1) service_okD [OF ok q(1)] by (simp_all add: quote_ok_def)
  have "quote_ok strict ?s' j x" if x: "map_of (qs_quotes ?s') j = Some x" for j x
  proof (cases "j = k")
    case True
    with x id' have "x = q'" by simp
    with True id' k q' q(2) u(2) show ?thesis by (simp add: quote_ok_def reservation_of_def closed_def)
  next
    case False
    with x id' have x': "map_of (qs_quotes s) j = Some x" by simp
    with service_okD [OF ok] have old: "quote_ok strict s j x" by blast
    have "\<exists>t' v. q_taskId x = Some t' \<and> getByTask (qs_usage ?s') t' = Some v \<and> reservation_of strict x v"
      if held: "holds_reservation (q_lifecycleStatus x)"
    proof -
      from old held obtain t' v where v: "q_taskId x = Some t'" "getByTask (qs_usage s) t' = Some v" "reservation_of strict x v"
        by (auto simp: quote_ok_def)
      with free [OF False x'] held have "t' \<noteq> t" by blast
      with v show ?thesis by simp
    qed
    moreover have "spent ?s' t'" if "spent s t'" for t'
      using that unspent by (cases "t' = t") (simp_all add: spent_def)
    ultimately show ?thesis by (intro quote_ok_frame [OF old]) simp_all
  qed
  moreover have "usage_backed ?s'" unfolding usage_backed_def
  proof (intro allI impI)
    fix t' v
    assume "getByTask (qs_usage ?s') t' = Some v"
    then have "v = r \<or> getByTask (qs_usage s) t' = Some v" by (simp split: if_splits)
    moreover have "pr_quoteId r = k" using u(2) k(1) by (simp add: reservation_of_def)
    moreover have "\<exists>x. map_of (qs_quotes s) (pr_quoteId v) = Some x \<and> q_lifecycleStatus x \<noteq> Quoted \<and>
        q_lifecycleStatus x \<noteq> Quote_confirmed" if "getByTask (qs_usage s) t' = Some v"
      using ok that unfolding service_ok_def usage_backed_def by blast
    ultimately show "\<exists>x. map_of (qs_quotes ?s') (pr_quoteId v) = Some x \<and> q_lifecycleStatus x \<noteq> Quoted \<and>
        q_lifecycleStatus x \<noteq> Quote_confirmed"
      using q'(3) by (cases "pr_quoteId v = k") (auto simp: id')
  qed
  ultimately have "service_ok strict ?s'" using u(1) by (simp add: service_ok_def)
  moreover have "quotes_move E s ?s'"
    using q' move by (intro quotes_move_put [OF q(1), of _ q']) (auto simp: id')
  ultimately show ?thesis by (simp add: sound_call_def)
qed

section \<open>Reserving and repricing\<close>

lemma store_first_ok:
  assumes "service_ok strict s" and "getByTask (qs_usage s) t = None" and "usage_ledger_ok (store_usage t r (qs_usage s))"
    and "map_of (qs_quotes s) (pr_quoteId r) = Some q" and "q_lifecycleStatus q \<noteq> Quoted"
    and "q_lifecycleStatus q \<noteq> Quote_confirmed"
  shows "service_ok strict (s\<lparr>qs_usage := store_usage t r (qs_usage s)\<rparr>)" (is "service_ok strict ?s'")
proof -
  have "quote_ok strict ?s' k x" if "map_of (qs_quotes s) k = Some x" for k x
  proof -
    have old: "quote_ok strict s k x" using service_okD [OF assms(1) that] .
    then have "\<exists>t' v. q_taskId x = Some t' \<and> getByTask (qs_usage ?s') t' = Some v \<and> reservation_of strict x v"
      if "holds_reservation (q_lifecycleStatus x)"
      using that assms(2) by (fastforce simp: quote_ok_def)
    moreover have "spent ?s' t'" if "spent s t'" for t'
      using that assms(2) by (cases "t' = t") (simp_all add: spent_def)
    ultimately show ?thesis by (intro quote_ok_frame [OF old]) simp_all
  qed
  moreover have "usage_backed ?s'"
    using assms unfolding service_ok_def usage_backed_def by auto
  ultimately show ?thesis using assms(3) by (simp add: service_ok_def)
qed

lemma credits_round_trip: "map_option int_of (map_option JInt c) = c"
  by (cases c) simp_all

lemma request_fields:
  "ri_taskId (reserve_request sha now inp q t w) = t"
  "ri_quoteId (reserve_request sha now inp q t w) = qt_quoteId q"
  "map_option int_of (ri_credits (reserve_request sha now inp q t w)) = qt_creditCost q"
  by (simp_all add: reserve_request_def credits_round_trip)

text \<open>A reservation that finds its record returns it; the quote of that record was reserved before.\<close>

lemma reserve_found_sound:
  assumes ok: "service_ok strict s" and q: "map_of (qs_quotes s) k = Some q"
    and found: "\<And>r. y = Inr r \<Longrightarrow> getByTask (qs_usage s) t = Some r \<and> pr_quoteId r = qt_quoteId q"
    and call: "on_usage work s = (y, s)"
  shows "sound_call strict E s (snd (op_bind (on_usage work) (mark_reserved now q) s))"
proof (cases y)
  case (Inl e)
  with call sound_same [OF ok] show ?thesis by (simp add: op_bind_def)
next
  case (Inr r)
  have "qt_quoteId q = k" using service_okD [OF ok q] by (simp add: quote_ok_def)
  with found [OF Inr] ok q have "q_lifecycleStatus q \<noteq> Quote_confirmed"
    unfolding service_ok_def usage_backed_def by fastforce
  with call Inr sound_same [OF ok] show ?thesis by (simp add: op_bind_def mark_reserved_def)
qed

lemma reserve_new_sound:
  assumes ok: "service_ok strict s" and q: "map_of (qs_quotes s) k = Some q" "q_taskId q = Some t" "q_lifecycleStatus q \<noteq> Quoted"
    and none: "getByTask (qs_usage s) t = None" and led: "usage_ledger_ok (store_usage t r (qs_usage s))"
    and move: "E k Quote_confirmed Quote_reserved" and r: "pr_status r = Reserved" "pr_quoteId r = qt_quoteId q" "pr_reservedCredits r = qt_creditCost q"
  shows "sound_call strict E s (snd (mark_reserved now q r (s\<lparr>qs_usage := store_usage t r (qs_usage s)\<rparr>)))"
proof (cases "q_lifecycleStatus q = Quote_confirmed")
  case True
  let ?q = "q\<lparr>q_lifecycleStatus := Quote_reserved, q_reservedAt := Some now\<rparr>"
  have "sound_call strict E s (put_quote ?q (s\<lparr>qs_usage := store_usage t r (qs_usage s)\<rparr>))"
  proof (rule store_reservation_sound [where E = E, OF ok q(1,2) _ _ _ led _ _ _ _ True move])
    show "open_status (q_lifecycleStatus q)" using True by (simp add: open_status_def)
    show "\<not> spent s t" using none by (simp add: spent_def)
    show "reservation_of strict q r" using r by (simp add: reservation_of_def)
    fix j x
    assume "map_of (qs_quotes s) j = Some x" "q_taskId x = Some t"
    with service_okD [OF ok] none show "\<not> holds_reservation (q_lifecycleStatus x)"
      by (fastforce simp: quote_ok_def)
  qed simp_all
  with True show ?thesis by (simp add: mark_reserved_def Let_def)
next
  case False
  have "qt_quoteId q = k" using service_okD [OF ok q(1)] by (simp add: quote_ok_def)
  with False q none led r(2) ok have "service_ok strict (s\<lparr>qs_usage := store_usage t r (qs_usage s)\<rparr>)"
    by (intro store_first_ok [where q = q]) auto
  with False show ?thesis by (simp add: mark_reserved_def sound_call_def quotes_move_same)
qed

lemma reserve_call_sound:
  assumes ok: "service_ok strict s" and q: "map_of (qs_quotes s) k = Some q" "q_taskId q = Some t" "q_lifecycleStatus q \<noteq> Quoted"
    and move: "E k Quote_confirmed Quote_reserved"
  shows "sound_call strict E s (snd (op_bind (on_usage (reserve (reserve_request sha now inp q t w))) (mark_reserved now q) s))"
proof -
  let ?i = "reserve_request sha now inp q t w"
  obtain y u' where y: "reserve ?i (qs_usage s) = (y, u')" by (cases "reserve ?i (qs_usage s)")
  from reserve_cases [OF y] show ?thesis
  proof (elim disjE conjE exE, goal_cases)
    case 1
    then show ?case
      using y by (intro reserve_found_sound [OF ok q(1), of y t]) (auto simp: request_fields on_usage_def)
  next
    case (2 r)
    have "usage_ledger_ok (store_usage t r (qs_usage s))"
      using reserve_writes [of "qs_usage s" ?i] usage_write_ok ok 2(3) y by (auto simp: service_ok_def request_fields)
    with 2 have "sound_call strict E s (snd (mark_reserved now q r (s\<lparr>qs_usage := store_usage t r (qs_usage s)\<rparr>)))"
      by (intro reserve_new_sound [where E = E, OF ok q _ _ move]) (simp_all add: request_fields)
    with y 2 show ?case by (simp add: op_bind_def on_usage_def request_fields)
  qed
qed

lemma reserveQuote_sound:
  assumes ok: "service_ok strict s"
  shows "sound_call strict (call_move (Reserve_call (rq_quoteId inp))) s (snd (reserveQuote sha now inp s))"
  unfolding reserveQuote_def
proof (intro sound_guarded [OF ok], goal_cases)
  case (1 q x)
  then have q: "map_of (qs_quotes s) (rq_quoteId inp) = Some q" "q_lifecycleStatus q \<noteq> Quoted" by auto
  show ?case
    using sound_same [OF ok] reserve_call_sound [OF ok q(1) _ q(2), of _ "call_move (Reserve_call (rq_quoteId inp))"]
    by (auto split: option.splits intro!: sound_guarded [OF ok])
qed

text \<open>Releasing a reserved quote gives its task up; the record of the task keeps pointing to it.\<close>

lemma released_quote_fields [simp]:
  "q_taskId (released_quote now q) = None"
  "q_lifecycleStatus (released_quote now q) = Quote_refunded"
  "quote_terms.truncate (released_quote now q) = quote_terms.truncate q"
  "qt_quoteId (released_quote now q) = qt_quoteId q"
  by (simp_all add: released_quote_def quote_terms.truncate_def)

lemma release_sound:
  assumes ok: "service_ok strict s" and q: "map_of (qs_quotes s) k = Some q" "q_taskId q = Some t"
    and held: "holds_reservation (q_lifecycleStatus q)"
    and move: "E k (q_lifecycleStatus q) Quote_refunded"
  shows "sound_call strict E s ((put_quote (released_quote now q) s)\<lparr>qs_taskIndex := map_delete t (qs_taskIndex s)\<rparr>)"
    (is "sound_call strict E s ?s'")
proof -
  have k: "qt_quoteId q = k" "k \<noteq> []" "map_of (qs_taskIndex s) t = Some k" "terms_ok (released_quote now q)"
    using service_okD [OF ok q(1)] quote_ok_held [OF service_okD [OF ok q(1)] held] q(2)
    by (auto simp: quote_ok_def truncate_fields(3) [of "released_quote now q" q])
  have "quote_ok strict ?s' j x" if x: "map_of (qs_quotes ?s') j = Some x" for j x
  proof (cases "j = k")
    case True
    with x k have "x = released_quote now q" by simp
    with True k show ?thesis by (intro quote_ok_closedI) simp_all
  next
    case False
    with x k have old: "quote_ok strict s j x" using service_okD [OF ok] by simp
    have "map_of (qs_taskIndex ?s') t' = Some j" if "map_of (qs_taskIndex s) t' = Some j" for t'
      using that False k(3) by auto
    with quote_ok_held [OF old] show ?thesis by (intro quote_ok_frame [OF old]) (auto simp: spent_def)
  qed
  moreover have "usage_backed ?s'"
    using ok k(1) unfolding service_ok_def usage_backed_def by auto
  ultimately have "service_ok strict ?s'" using ok by (simp add: service_ok_def)
  moreover have "quotes_move E s ?s'"
    using move by (intro quotes_move_put [OF q(1), of _ "released_quote now q"]) (simp_all add: k)
  ultimately show ?thesis by (simp add: sound_call_def)
qed

lemma replaceReservation_cases:
  assumes "replaceReservation inp u = (x, u')"
  shows "u' = u \<and> (\<exists>e. x = Inl e) \<or>
    (\<exists>r r0. x = Inr r \<and> getByTask u (ri_taskId inp) = Some r0 \<and> pr_status r0 = Reserved \<and> u' = store_usage (ri_taskId inp) r u \<and> pr_status r = Reserved \<and> pr_quoteId r = ri_quoteId inp \<and>
      pr_reservedCredits r = map_option int_of (ri_credits inp))"
  using assms
  by (auto simp: replaceReservation_def guarded_def getByTask_def Let_def new_usage_def split: option.splits sum.splits if_splits)

lemma swap_reservation_sound:
  assumes ok: "service_ok strict s" and q: "map_of (qs_quotes s) k = Some q" "q_taskId q = Some t"
    "q_lifecycleStatus q = Quote_confirmed"
    and move: "E k Quote_confirmed Quote_reserved" and inp: "ri_taskId inp = t" "ri_quoteId inp = qt_quoteId q" "map_option int_of (ri_credits inp) = qt_creditCost q"
  shows "sound_call strict E s (snd (op_bind (on_usage (replaceReservation inp)) (\<lambda>usage s.
     (Inr (f usage), put_quote (q\<lparr>q_lifecycleStatus := Quote_reserved, q_reservedAt := Some now\<rparr>) s)) s))"
proof -
  obtain y u' where y: "replaceReservation inp (qs_usage s) = (y, u')" by (cases "replaceReservation inp (qs_usage s)")
  have k: "qt_quoteId q = k" "map_of (qs_taskIndex s) t = Some k"
    using service_okD [OF ok q(1)] q quote_ok_open [OF service_okD [OF ok q(1)], of t]
    by (auto simp: quote_ok_def)
  from replaceReservation_cases [OF y] show ?thesis
  proof (elim disjE conjE exE, goal_cases)
    case (1 e)
    with y sound_same [OF ok] show ?case by (simp add: op_bind_def on_usage_def)
  next
    case (2 r r0)
    have led: "usage_ledger_ok (store_usage t r (qs_usage s))"
      using replaceReservation_writes [of "qs_usage s" inp] usage_write_ok ok 2 y inp(1) by (auto simp: service_ok_def)
    have "sound_call strict E s (put_quote (q\<lparr>q_lifecycleStatus := Quote_reserved, q_reservedAt := Some now\<rparr>)
        (s\<lparr>qs_usage := store_usage t r (qs_usage s)\<rparr>))"
    proof (rule store_reservation_sound [where E = E, OF ok q(1,2) _ _ _ led _ _ _ _ q(3) move])
      show "open_status (q_lifecycleStatus q)" using q(3) by (simp add: open_status_def)
      show "\<not> spent s t" using 2 inp(1) by (simp add: spent_def)
      show "reservation_of strict q r" using 2 inp by (simp add: reservation_of_def)
      fix j x
      assume "j \<noteq> k" "map_of (qs_quotes s) j = Some x" "q_taskId x = Some t"
      with service_okD [OF ok] k(2) show "\<not> holds_reservation (q_lifecycleStatus x)"
        by (fastforce simp: quote_ok_def holds_reservation_def)
    qed simp_all
    with y 2 inp(1) show ?case by (simp add: op_bind_def on_usage_def)
  qed
qed

section \<open>Reachable services\<close>

lemma sound_op_bind_step:
  assumes "sound_call strict E s (snd (m s))"
    and "\<And>a s'. m s = (Inr a, s') \<Longrightarrow> sound_call strict E s s' \<Longrightarrow> sound_call strict F s' (snd (f a s'))"
    and "\<And>k x y. E k x y \<Longrightarrow> G k x y" and "\<And>k x y. F k x y \<Longrightarrow> G k x y"
    and "\<And>k x y z. E k x y \<Longrightarrow> F k y z \<Longrightarrow> G k x z"
  shows "sound_call strict G s (snd (op_bind m f s))"
proof (rule sound_op_bind)
  show "sound_call strict G s (snd (m s))" using assms(1,3) by (rule sound_mono)
  fix a s'
  assume m: "m s = (Inr a, s')"
  with assms(1) have s': "sound_call strict E s s'" by simp
  from sound_trans [OF s' assms(2) [OF m s'] assms(3-5)] show "sound_call strict G s (snd (f a s'))" .
qed

lemma confirm_after_release:
  assumes "service_ok strict s" and "map_of (qs_taskIndex s) t = None" and "\<not> spent s t"
    and "confirm now \<lparr>ci_quoteId = k, ci_taskId = t, ci_authorizedCeiling = c\<rparr> s = (Inr q, s')"
  shows "map_of (qs_quotes s') k = Some q \<and> q_taskId q = Some t \<and> q_lifecycleStatus q = Quote_confirmed \<and>
    (\<exists>x. map_of (qs_quotes s) k = Some x \<and> q_lifecycleStatus x = Quoted)"
proof -
  have False if "map_of (qs_quotes s) k = Some q" "q_taskId q = Some t" "q_lifecycleStatus q \<noteq> Quoted"
    using service_okD [OF assms(1) that(1)] assms(2,3) that(2,3)
    by (cases "q_lifecycleStatus q") (auto simp: quote_ok_def open_status_def closed_def)
  with confirm_cases [OF assms(4,1)] show ?thesis by (auto simp: bind_task_def)
qed

text \<open>The second half of a replacement: the successor is confirmed for the released task and reserved.\<close>

lemma reserve_successor_sound:
  assumes ok: "service_ok strict s" and free: "map_of (qs_taskIndex s) t = None" "\<not> spent s t"
    and swap: "\<And>c s'. service_ok strict s' \<Longrightarrow> map_of (qs_quotes s') k = Some c \<Longrightarrow> q_taskId c = Some t \<Longrightarrow>
      q_lifecycleStatus c = Quote_confirmed \<Longrightarrow> sound_call strict (call_move (Reserve_call k)) s' (snd (f c s'))"
  shows "sound_call strict (\<lambda>j x y. j = k \<and> x = Quoted \<and> y \<in> {Quote_confirmed, Quote_reserved}) s
    (snd (op_bind (confirm now \<lparr>ci_quoteId = k, ci_taskId = t, ci_authorizedCeiling = a\<rparr>) f s))"
    (is "sound_call strict ?G s (snd (op_bind ?m f s))")
proof (rule sound_op_bind)
  have first: "sound_call strict (call_move (Confirm_call k)) s (snd (?m s))"
    using confirm_sound [OF ok, of "\<lparr>ci_quoteId = k, ci_taskId = t, ci_authorizedCeiling = a\<rparr>" now] by simp
  then show "sound_call strict ?G s (snd (?m s))"
    by (rule sound_mono) auto
  fix c s'
  assume c: "?m s = (Inr c, s')"
  note facts = confirm_after_release [OF ok free c]
  from c first have s': "sound_call strict (call_move (Confirm_call k)) s s'" by simp
  then have "sound_call strict (call_move (Reserve_call k)) s' (snd (f c s'))"
    using facts by (intro swap) (simp_all add: sound_call_def)
  then have "sound_call strict (\<lambda>j x y. j = k \<and> (x = Quoted \<or> x = Quote_confirmed) \<and> y \<in> {Quote_confirmed, Quote_reserved})
      s (snd (f c s'))"
    by (rule sound_trans [OF s']) auto
  then show "sound_call strict ?G s (snd (f c s'))"
    by (rule sound_from) (use facts in auto)
qed

lemma replaceReservedQuote_sound:
  assumes ok: "service_ok strict s"
  shows "sound_call strict (call_move (Replace_call (rp_previousQuoteId inp) (bi_quoteId (rp_successor inp)))) s
    (snd (replaceReservedQuote facts_sha now inp s))" (is "sound_call strict ?G s _")
  unfolding replaceReservedQuote_def
proof (intro sound_guarded [OF ok] sound_op_bind_step [where E = "call_move Build_call" and F = ?G], goal_cases)
  case (1 p x y)
  show ?case by (rule buildQuote_sound [OF ok])
next
  case (2 p x y b s1)
  let ?t = "rp_taskId inp" and ?new = "bi_quoteId (rp_successor inp)"
  have p: "map_of (qs_quotes s) (rp_previousQuoteId inp) = Some p" "q_taskId p = Some ?t"
    "q_lifecycleStatus p = Quote_reserved" "\<not> spent s ?t" using 2(1,2) by (auto simp: spent_def split: option.splits)
  have s1: "service_ok strict s1" "map_of (qs_quotes s1) (rp_previousQuoteId inp) = Some p"
    "map_of (qs_quotes s1) ?new = Some b" "\<not> spent s1 ?t"
    using 2(5) buildQuote_quoted [OF 2(4)] p(1,4) by (auto simp: sound_call_def spent_def)
  have b: "qt_quoteId b = ?new" using service_okD [OF s1(1,3)] by (simp add: quote_ok_def)
  define s2 where "s2 = (put_quote (released_quote now p) s1)\<lparr>qs_taskIndex := map_delete ?t (qs_taskIndex s1)\<rparr>"
  have s2: "sound_call strict (\<lambda>k x y. k = rp_previousQuoteId inp \<and> x = Quote_reserved \<and> y = Quote_refunded) s1 s2"
    unfolding s2_def by (rule release_sound [OF s1(1,2) p(2)]) (simp_all add: p(3) holds_reservation_def)
  then have ok2: "service_ok strict s2" by (simp add: sound_call_def)
  have free: "map_of (qs_taskIndex s2) ?t = None" "\<not> spent s2 ?t" using s1(4) by (simp_all add: s2_def spent_def)
  show ?case unfolding Let_def s2_def [symmetric] b
  proof (rule sound_trans [OF s2 reserve_successor_sound [OF ok2 free]])
    fix c s3
    assume "service_ok strict s3" "map_of (qs_quotes s3) ?new = Some c" "q_taskId c = Some ?t"
      "q_lifecycleStatus c = Quote_confirmed"
    then show "sound_call strict (call_move (Reserve_call ?new)) s3 (snd (op_bind (on_usage (replaceReservation
              \<lparr> ri_id = rp_usageId inp, ri_taskId = ?t,
                ri_workspaceId = with_default [] (qt_workspaceId p), ri_quoteId = qt_quoteId c,
                ri_units = Some (if qt_creditCost c \<noteq> None then [] else with_default [] (qt_debitUnits c)),
                ri_credits = map_option JInt (qt_creditCost c), ri_quantity = None,
                ri_billingMode = qt_billingMode c, ri_resource = None, ri_createdAt = now,
                ri_expectedQuoteId = qt_quoteId p \<rparr>)) (\<lambda>usage s.
            (Inr (released_quote now p, c\<lparr>q_lifecycleStatus := Quote_reserved, q_reservedAt := Some now\<rparr>, usage),
             put_quote (c\<lparr>q_lifecycleStatus := Quote_reserved, q_reservedAt := Some now\<rparr>) s)) s3))"
      by (intro swap_reservation_sound [where k = ?new and t = ?t]) (simp_all add: credits_round_trip)
  qed auto
qed (auto simp: closed_def)

text \<open>
  A call of the service, successful or not, with any clock and any digest. \<open>allowed\<close> restricts the
  failure reports of a run: all of them, or those for a quote that was confirmed.
\<close>

inductive quote_step ::
    "(fail_input \<Rightarrow> quote_service \<Rightarrow> bool) \<Rightarrow> quote_call \<Rightarrow> quote_service \<Rightarrow> quote_service \<Rightarrow> bool"
  for allowed where
  build_step: "quote_step allowed Build_call s (snd (buildQuote facts_sha now b s))"
| confirm_step: "quote_step allowed (Confirm_call (ci_quoteId c)) s (snd (confirm now c s))"
| reserve_step: "quote_step allowed (Reserve_call (rq_quoteId r)) s (snd (reserveQuote sha now r s))"
| replace_step: "quote_step allowed (Replace_call (rp_previousQuoteId p) (bi_quoteId (rp_successor p))) s
    (snd (replaceReservedQuote facts_sha now p s))"
| dispatch_step: "quote_step allowed (Dispatch_call (di_quoteId d)) s (snd (dispatch d s))"
| fallback_step: "quote_step allowed (Dispatch_call (di_quoteId f)) s (snd (fallbackDispatch f s))"
| settle_step: "quote_step allowed (Settle_call (sq_quoteId i)) s (snd (settleQuote now i s))"
| fail_step: "allowed j s \<Longrightarrow> quote_step allowed (Fail_call (fi_quoteId j)) s (snd (failAndRefund now j s))"

inductive quote_run ::
    "(fail_input \<Rightarrow> quote_service \<Rightarrow> bool) \<Rightarrow> quote_service \<Rightarrow> quote_service \<Rightarrow> bool"
  for allowed where
  quote_refl: "quote_run allowed s s"
| quote_next: "quote_run allowed s s1 \<Longrightarrow> quote_step allowed call s1 s2 \<Longrightarrow> quote_run allowed s s2"

definition any_failure :: "fail_input \<Rightarrow> quote_service \<Rightarrow> bool" where
  "any_failure j s = True"

definition confirmed_failure :: "fail_input \<Rightarrow> quote_service \<Rightarrow> bool" where
  "confirmed_failure j s \<longleftrightarrow>
     (case getQuote s (fi_quoteId j) of None \<Rightarrow> True | Some q \<Rightarrow> q_lifecycleStatus q \<noteq> Quoted)"

lemma quote_step_sound:
  assumes "quote_step allowed call s s'" and "service_ok strict s" and "strict \<Longrightarrow> allowed = confirmed_failure"
  shows "sound_call strict (call_move call) s s'"
  using assms(1)
proof (cases rule: quote_step.cases)
  case (fail_step j now)
  then show ?thesis
    using assms(3) by (auto simp: confirmed_failure_def getQuote_def intro!: failAndRefund_sound [OF assms(2)])
qed (simp_all add: assms(2) buildQuote_sound confirm_sound reserveQuote_sound replaceReservedQuote_sound
      dispatch_sound fallbackDispatch_sound settleQuote_sound)

lemma empty_service_ok: "service_ok strict empty_quote_service"
  by (simp add: service_ok_def empty_quote_service_def empty_usage_ledger_def usage_ledger_ok_def usage_backed_def getByTask_def)

lemma quote_run_ok:
  "quote_run allowed s s' \<Longrightarrow> service_ok strict s \<Longrightarrow> (strict \<Longrightarrow> allowed = confirmed_failure) \<Longrightarrow> service_ok strict s'"
proof (induction rule: quote_run.induct)
  case (quote_next s s1 call s2)
  then show ?case using quote_step_sound [OF quote_next.hyps(2), of strict] by (simp add: sound_call_def)
qed

lemma quote_reachable_ok: "quote_run any_failure empty_quote_service s \<Longrightarrow> service_ok False s"
  using quote_run_ok [OF _ empty_service_ok, of any_failure s False] by simp

lemma quote_reachable_strict: "quote_run confirmed_failure empty_quote_service s \<Longrightarrow> service_ok True s"
  using quote_run_ok [OF _ empty_service_ok, of confirmed_failure s True] by simp

text \<open>A run with restricted failure reports is a run.\<close>

lemma quote_run_any: "quote_run allowed s s' \<Longrightarrow> quote_run any_failure s s'"
proof (induction rule: quote_run.induct)
  case (quote_next s s1 call s2)
  have "quote_step any_failure call s1 s2"
    using quote_next.hyps(2) by cases (auto intro: quote_step.intros simp: any_failure_def)
  with quote_next.IH show ?case by (rule quote_run.quote_next)
qed (rule quote_refl)

end
