(* ===== verification/ProductQuoteProps.thy ===== *)
theory ProductQuoteProps
  imports ProductQuoteCorrect ProductUsageProps
begin

text \<open>
  Properties of the quote service: the lifecycle its calls refine, one open quote per task backed by one
  reservation, how a settlement charges, and that it happens once.
\<close>

section \<open>The lifecycle\<close>


lemma call_move_not_closed: "call_move call k x y \<Longrightarrow> \<not> closed x"
  by (cases call) (auto simp: open_status_def closed_def holds_reservation_def)


text \<open>A credit quote of six pages at ten credits each, settled with five pages delivered.\<close>

definition sample_build :: build_quote_input where
  "sample_build =
     \<lparr> bi_quoteId = ''q1'', bi_catalogModelId = ''model'', bi_operation = Some ''note'', bi_catalogModelRevision = None,
       bi_quotePolicyRevision = ''quote.policy@1'', bi_submissionContractHash = None, bi_submissionPromptHash = None,
       bi_submissionReferenceAssetsHash = None, bi_submissionInputAssetsHash = None, bi_billingMode = Per_request,
       bi_creditCost = Some (JInt 60), bi_failureRefundsCredits = Some True, bi_debitUnits = None,
       bi_outputCount = Some (JInt 6), bi_packageContract = None, bi_outputLabel = None, bi_unitRate = Finite 60,
       bi_currency = None, bi_formulaExpression = None, bi_targetSeconds = None, bi_minChargeSeconds = None,
       bi_roundingStepSeconds = None, bi_routeSnapshotRef = None, bi_frozenCandidateDeploymentIds = Some [''d1''],
       bi_workspaceId = Some ''w1'', bi_taskId = None, bi_authorizedCeiling = None, bi_expiresAt = None \<rparr>"

definition sample_confirm :: confirm_input where
  "sample_confirm = \<lparr>ci_quoteId = ''q1'', ci_taskId = ''t1'', ci_authorizedCeiling = None\<rparr>"

definition sample_quote_reserve :: reserve_quote_input where
  "sample_quote_reserve = \<lparr>rq_quoteId = ''q1'', rq_units = [], rq_usageId = Some ''u1''\<rparr>"

definition sample_now :: string where "sample_now = ''2026-01-01T00:00:00.000Z''"

definition sample_quote_settle :: settle_quote_input where
  "sample_quote_settle = \<lparr>sq_quoteId = ''q1'', sq_trustedUsage = None, sq_attemptId = None,
     sq_overproductionUnitCostMicros = None,
     sq_partialDelivery = Some \<lparr>pb_totalUnits = JInt 6, pb_deliveredUnits = JInt 5\<rparr>, sq_packagePartialDelivery = None\<rparr>"

definition sample_service :: quote_service where
  "sample_service =
     snd (reserveQuote id sample_now sample_quote_reserve
       (snd (confirm sample_now sample_confirm
         (snd (buildQuote (\<lambda>_. ''revision'') sample_now sample_build empty_quote_service)))))"

lemma sample_service_run: "quote_run allowed empty_quote_service sample_service"
  unfolding sample_service_def
  by (meson build_step confirm_step reserve_step quote_run.intros)

lemmas sample_service_reachable = sample_service_run [of any_failure]

lemma sample_service_quote:
  "case getQuote sample_service ''q1'' of None \<Rightarrow> False
   | Some q \<Rightarrow> q_lifecycleStatus q = Quote_reserved \<and> qt_creditCost q = Some 60 \<and> q_taskId q = Some ''t1'' \<and>
       quote_ceiling q = 60 \<and> qt_failureRefundsCredits q = Some True \<and> qt_packageContract q = None \<and> qt_quoteId q = ''q1''"
  by code_simp


text \<open>Over whole runs: a stored quote stays stored with its terms, and a closed one stays as it is.\<close>

lemma quotes_stay:
  assumes "quote_run any_failure s s'" and "quote_run any_failure empty_quote_service s" and "getQuote s k = Some q"
  shows "\<exists>q'. getQuote s' k = Some q' \<and> quote_terms.truncate q' = quote_terms.truncate q \<and>
    (closed (q_lifecycleStatus q) \<longrightarrow> q' = q)"
  using assms
proof (induction rule: quote_run.induct)
  case (quote_next s s1 call s2)
  then obtain q1 where q1: "getQuote s1 k = Some q1" "quote_terms.truncate q1 = quote_terms.truncate q"
    "closed (q_lifecycleStatus q) \<longrightarrow> q1 = q" by blast
  have "service_ok False s1"
    using quote_run_ok [OF quote_next.hyps(1) quote_reachable_ok [OF quote_next.prems(1)]] by simp
  from quotes_moveD [of "call_move call" s1 s2 k q1] quote_step_sound [OF quote_next.hyps(2) this] q1
  show ?case by (auto simp: sound_call_def getQuote_def dest: call_move_not_closed)
qed simp

section \<open>One quote, one reservation\<close>



section \<open>What a settlement charges\<close>

lemma js_round_int [simp]: "js_round (of_int m) = m"
  by (simp add: js_round_def floor_eq_iff)

lemma js_round_mono: "x \<le> y \<Longrightarrow> js_round x \<le> js_round y"
  by (simp add: js_round_def floor_mono)

lemma credit_outcome_cases:
  assumes "credit_outcome_of q c inp = Inr outcome"
  obtains (package) x ds m where "qt_packageContract q = Some x"
      "computePackagePartialCreditSettlement (contract_allocations x) ds = Inr m"
      "co_refundCredits outcome = kt_refundCredits m" "co_settledCredits outcome = Some (kt_settledCredits m)"
  | (single) tu du pol p where "computePartialCreditSettlement tu du (JInt c) pol = Inr p"
      "co_refundCredits outcome = ps_refundCredits p" "co_settledCredits outcome = Some (ps_settledCredits p)"
  | (no_evidence) "co_refundCredits outcome = 0" "co_settledCredits outcome = None"
  using assms
  by (cases "qt_packageContract q"; cases "sq_packagePartialDelivery inp"; cases "sq_partialDelivery inp")
    (auto simp: credit_outcome_of_def r_bind_Inr_iff split: if_splits)

lemma credit_outcome_bounds:
  assumes "credit_outcome_of q c inp = Inr outcome" and "terms_ok q" and "qt_creditCost q = Some c"
  shows "0 \<le> co_refundCredits outcome \<and> co_refundCredits outcome \<le> c \<and>
    co_settledCredits outcome \<in> {None, Some (c - co_refundCredits outcome)} \<and>
    (co_settledCredits outcome = None \<longrightarrow> co_refundCredits outcome = 0)"
proof -
  have package: "kt_settledCredits m + kt_refundCredits m = c \<and> 0 \<le> kt_settledCredits m \<and> 0 \<le> kt_refundCredits m"
    if "qt_packageContract q = Some x" "computePackagePartialCreditSettlement (contract_allocations x) ds = Inr m" for x ds m
    using package_settlement_split [OF that(2)] that(1) assms(2,3)
    by (simp add: terms_ok_def contract_allocations_def o_def package_allocation.truncate_def)
  have single: "ps_settledCredits p + ps_refundCredits p = c \<and> 0 \<le> ps_settledCredits p \<and> 0 \<le> ps_refundCredits p"
    if "computePartialCreditSettlement tu du (JInt c) pol = Inr p" for tu du pol p
    using partial_settlement_split [OF that] that by (simp add: partial_settlement_Inr Let_def)
  have "1 \<le> c" using assms(2,3) by (simp add: terms_ok_def)
  with assms(1) show ?thesis
    by (cases rule: credit_outcome_cases) (auto dest: package single)
qed

lemma credit_amount_bounds:
  assumes "0 \<le> m" and "m \<le> c" and "1 \<le> c" and "0 \<le> cap" and "cap \<in> \<int>"
  shows "0 \<le> credit_amount cap c (Some m) \<and> credit_amount cap c (Some m) \<le> cap"
proof -
  obtain z where z: "cap = of_int z" using assms(5) by (auto elim: Ints_cases)
  have "cap * of_int m / of_int c \<le> of_int z"
    using assms(1-4) z by (simp add: pos_divide_le_eq mult_left_mono)
  then have "js_round (cap * of_int m / of_int c) \<le> z" using js_round_mono by fastforce
  moreover have "0 \<le> cap * of_int m / (of_int c :: rat)" using assms by simp
  then have "0 \<le> js_round (cap * of_int m / of_int c)" by (simp add: js_round_def)
  ultimately show ?thesis using assms(3) z by (simp add: credit_amount_def)
qed

lemma credit_amount_near:
  assumes "0 \<le> m" and "m \<le> c" and "1 \<le> c" and "0 \<le> cap"
  shows "0 \<le> credit_amount cap c (Some m) \<and> credit_amount cap c (Some m) \<le> cap + 1 / 2"
proof -
  let ?x = "cap * of_int m / (of_int c :: rat)"
  have "?x \<le> cap" using assms by (simp add: pos_divide_le_eq mult_left_mono)
  moreover have "0 \<le> ?x" using assms by simp
  then have "0 \<le> js_round ?x" by (simp add: js_round_def)
  moreover have "of_int (js_round ?x) \<le> ?x + 1 / 2" unfolding js_round_def by (rule of_int_floor_le)
  ultimately show ?thesis using assms(3) by (simp add: credit_amount_def)
qed

lemma credit_amount_priced: "1 \<le> c \<Longrightarrow> credit_amount (of_int c) c (Some m) = of_int m"
  by (simp add: credit_amount_def)

definition within_ceiling :: "quote \<Rightarrow> unit_outcome \<Rightarrow> bool" where
  "within_ceiling q x \<longleftrightarrow> uo_settledAmount x \<le> quote_ceiling q \<and> 0 \<le> uo_refundedAmount x \<and>
     uo_settledAmount x + uo_refundedAmount x \<le> quote_ceiling q"

lemma seconds_outcome_bounds: "seconds_outcome q us n secs = Inr x \<Longrightarrow> within_ceiling q x"
  by (auto simp: seconds_outcome_def r_bind_unit_Inr Let_def within_ceiling_def)

lemma unit_outcome_bounds:
  assumes "unit_outcome_of q u inp = Inr x"
  shows "within_ceiling q x"
proof (cases "sq_trustedUsage inp")
  case None
  with assms show ?thesis by (auto simp: unit_outcome_of_def r_bind_Inr_iff Let_def within_ceiling_def)
next
  case (Some evidence)
  show ?thesis
  proof (cases evidence)
    case (Units_evidence us)
    with assms Some show ?thesis
      by (auto simp: unit_outcome_of_def r_bind_Inr_iff Let_def within_ceiling_def)
  next
    case (Seconds_evidence kind secs)
    with assms Some show ?thesis
      by (cases "trusted_seconds (Some (Seconds_evidence kind secs))")
        (auto simp: unit_outcome_of_def r_bind_Inr_iff Let_def within_ceiling_def dest: seconds_outcome_bounds
          split: if_splits)
  qed
qed

section \<open>Settling an open quote\<close>

lemma closed_quote_amounts [simp]:
  "q_settledAmount (closed_quote now q x k a b) = Some a"
  "q_refundedAmount (closed_quote now q x k a b) = Some b"
  "qt_quoteId (closed_quote now q x k a b) = qt_quoteId q"
  by (simp_all add: closed_quote_def)

lemma on_usage_Inr:
  "on_usage work s = (Inr a, s') \<longleftrightarrow> (\<exists>w. work (qs_usage s) = (Inr a, w) \<and> s' = s\<lparr>qs_usage := w\<rparr>)"
  by (auto simp: on_usage_def split: prod.splits)

lemma charged_usage:
  assumes "usage_ledger_ok (qs_usage s)"
    and "op_bind (on_usage (settle i)) (close_quote x) s = (Inr (q', u), s')"
  shows "q' = x \<and> getUsage s' (se_taskId i) = Some u \<and> getQuote s' (qt_quoteId x) = Some x"
proof -
  from assms(2) obtain w where w: "settle i (qs_usage s) = (Inr u, w)" "q' = x" "s' = put_quote x (s\<lparr>qs_usage := w\<rparr>)"
    by (auto simp: op_bind_Inr on_usage_Inr close_quote_def)
  with settle_stored [OF assms(1) w(1)] show ?thesis by (simp add: getUsage_def getByTask_def getQuote_def)
qed

text \<open>The amounts a settlement writes, for a quote in credits and for one in units.\<close>

definition settled_amounts :: "quote \<Rightarrow> settle_quote_input \<Rightarrow> rat \<Rightarrow> rat \<Rightarrow> bool" where
  "settled_amounts q inp a b \<longleftrightarrow>
     (case qt_creditCost q of
        Some c \<Rightarrow> (\<exists>outcome. credit_outcome_of q c inp = Inr outcome \<and>
           a = credit_amount (quote_ceiling q) c (co_settledCredits outcome) \<and> b = quote_ceiling q - a)
      | None \<Rightarrow> (\<exists>u x. unit_outcome_of q u inp = Inr x \<and> a = uo_settledAmount x \<and> b = uo_refundedAmount x))"

lemma settle_credit_result:
  assumes "usage_ledger_ok (qs_usage s)" and "qt_creditCost q = Some c"
    and "settle_credit_quote now q t c inp s = (Inr (q', u), s')"
  shows "\<exists>a b. settled_amounts q inp a b \<and> getUsage s' t = Some u \<and> getQuote s' (qt_quoteId q) = Some q' \<and>
    q_taskId q' = q_taskId q \<and> q_lifecycleStatus q' = closed_status a \<and> q_settledAmount q' = Some a \<and>
    q_refundedAmount q' = Some b"
proof -
  from assms(3) obtain outcome where o: "credit_outcome_of q c inp = Inr outcome" and
    call: "op_bind (on_usage (settle (credit_settle_input now t (co_refundCredits outcome)
        (if co_reconciled outcome then Reconciled else Estimated))))
      (close_quote (closed_quote now q (closed_status (credit_amount (quote_ceiling q) c (co_settledCredits outcome)))
        (if co_reconciled outcome then Reconciled else Estimated)
        (credit_amount (quote_ceiling q) c (co_settledCredits outcome))
        (quote_ceiling q - credit_amount (quote_ceiling q) c (co_settledCredits outcome)))) s = (Inr (q', u), s')"
    by (auto simp: settle_credit_quote_def guarded_Inr Let_def)
  from charged_usage [OF assms(1) call] o assms(2) show ?thesis
    by (auto simp: settled_amounts_def)
qed

lemma settle_unit_result:
  assumes "usage_ledger_ok (qs_usage s)" and "qt_creditCost q = None"
    and "settle_unit_quote now q t v inp s = (Inr (q', u), s')"
  shows "\<exists>a b. settled_amounts q inp a b \<and> getUsage s' t = Some u \<and> getQuote s' (qt_quoteId q) = Some q' \<and>
    q_taskId q' = q_taskId q \<and> q_lifecycleStatus q' = closed_status a \<and> q_settledAmount q' = Some a \<and>
    q_refundedAmount q' = Some b"
proof -
  define i where "i x = \<lparr> se_taskId = t, se_settledUnits = Some (uo_units x), se_settledQuantity = None,
           se_refundCredits = None, se_settlementStatus = uo_settlementStatus x, se_updatedAt = now \<rparr>" for x :: unit_outcome
  define y where "y x = (closed_quote now q (closed_status (uo_settledAmount x)) (uo_settlementStatus x)
             (uo_settledAmount x) (uo_refundedAmount x))
          \<lparr> q_billedSeconds := newer (q_billedSeconds q) (uo_billedSeconds x),
            q_platformAbsorbedAmount := (if uo_absorbedAmount x > 0 then Some (uo_absorbedAmount x)
                                         else q_platformAbsorbedAmount q) \<rparr>" for x :: unit_outcome
  from assms(3) obtain x z s1 where x: "unit_outcome_of q v inp = Inr x" and
    s1: "absorb_overproduction inp (uo_absorbedAmount x) s = (Inr z, s1)" and
    call: "op_bind (on_usage (settle (i x))) (close_quote (y x)) s1 = (Inr (q', u), s')"
    unfolding i_def y_def by (auto simp: settle_unit_quote_def guarded_Inr op_bind_Inr [of "absorb_overproduction _ _"])
  have "usage_ledger_ok (qs_usage s1)" using absorb_keeps [OF s1] assms(1) by simp
  from charged_usage [OF this call] x assms(2) show ?thesis
    by (auto simp: settled_amounts_def i_def y_def)
qed

lemma settleQuote_open:
  assumes ok: "service_ok strict s" and q: "map_of (qs_quotes s) (sq_quoteId inp) = Some q"
    and held: "holds_reservation (q_lifecycleStatus q)" and call: "settleQuote now inp s = (Inr (q', u), s')"
  shows "\<exists>t a b. q_taskId q = Some t \<and> t \<noteq> [] \<and> settled_amounts q inp a b \<and> getUsage s' t = Some u \<and>
    getQuote s' (sq_quoteId inp) = Some q' \<and> q_taskId q' = Some t \<and> q_lifecycleStatus q' = closed_status a \<and>
    q_settledAmount q' = Some a \<and> q_refundedAmount q' = Some b"
proof -
  from service_okD [OF ok q] held obtain t where t: "q_taskId q = Some t" "t \<noteq> []" "qt_quoteId q = sq_quoteId inp"
    by (auto simp: quote_ok_def holds_reservation_def)
  have led: "usage_ledger_ok (qs_usage s)" using ok by (simp add: service_ok_def)
  show ?thesis
  proof (cases "qt_creditCost q")
    case (Some c)
    with call q t held have "settle_credit_quote now q t c inp s = (Inr (q', u), s')"
      by (auto simp: settleQuote_def requireQuote_def truthy_def holds_reservation_def guarded_Inr split: option.splits)
    from settle_credit_result [OF led Some this] t show ?thesis by auto
  next
    case None
    with call q t held obtain v where "settle_unit_quote now q t v inp s = (Inr (q', u), s')"
      by (auto simp: settleQuote_def requireQuote_def truthy_def holds_reservation_def guarded_Inr split: option.splits)
    from settle_unit_result [OF led None this] t show ?thesis by auto
  qed
qed

section \<open>The properties of a settlement\<close>

text \<open>
  C31. Charges against the authorized ceiling. A settlement of a reserved or dispatched quote never
  charges and returns more than the ceiling together. A quote in units is charged at most its ceiling
  and returned what is not negative. A quote in credits is charged and returned exactly its ceiling
  together; with a ceiling that is not negative the charge is not negative either, and it exceeds the
  ceiling by at most the half credit that rounding can add to a fractional ceiling, while against a
  whole ceiling the charge stays within it and the return is not negative.
\<close>

theorem settle_within_ceiling:
  assumes "quote_run any_failure empty_quote_service s" and "getQuote s (sq_quoteId inp) = Some q"
    and "q_lifecycleStatus q \<in> {Quote_reserved, Quote_dispatched}"
    and "settleQuote now inp s = (Inr (q', u), s')"
  shows "\<exists>a b. q_settledAmount q' = Some a \<and> q_refundedAmount q' = Some b \<and> a + b \<le> quote_ceiling q \<and>
    (qt_creditCost q = None \<longrightarrow> a \<le> quote_ceiling q \<and> 0 \<le> b) \<and>
    (qt_creditCost q \<noteq> None \<longrightarrow> a + b = quote_ceiling q \<and>
       (0 \<le> quote_ceiling q \<longrightarrow> 0 \<le> a \<and> a \<le> quote_ceiling q + 1 / 2 \<and>
          (quote_ceiling q \<in> \<int> \<longrightarrow> a \<le> quote_ceiling q \<and> 0 \<le> b)))"
proof -
  have ok: "service_ok False s" by (rule quote_reachable_ok [OF assms(1)])
  have q: "map_of (qs_quotes s) (sq_quoteId inp) = Some q" "holds_reservation (q_lifecycleStatus q)"
    using assms(2,3) by (auto simp: getQuote_def holds_reservation_def)
  have terms: "terms_ok q" using service_okD [OF ok q(1)] by (simp add: quote_ok_def)
  from settleQuote_open [OF ok q assms(4)] obtain a b where
    ab: "settled_amounts q inp a b" "q_settledAmount q' = Some a" "q_refundedAmount q' = Some b" by blast
  show ?thesis
  proof (cases "qt_creditCost q")
    case None
    with ab show ?thesis by (auto simp: settled_amounts_def dest!: unit_outcome_bounds simp: within_ceiling_def)
  next
    case (Some c)
    have c: "1 \<le> c" using terms Some by (simp add: terms_ok_def)
    from ab(1) Some obtain outcome where o: "credit_outcome_of q c inp = Inr outcome"
      "a = credit_amount (quote_ceiling q) c (co_settledCredits outcome)" "b = quote_ceiling q - a"
      by (auto simp: settled_amounts_def)
    note bounds = credit_outcome_bounds [OF o(1) terms Some]
    have "0 \<le> a \<and> a \<le> quote_ceiling q + 1 / 2" if "0 \<le> quote_ceiling q"
      using bounds credit_amount_near [of "c - co_refundCredits outcome" c] c that o(2)
      by (auto simp: credit_amount_def)
    moreover have "a \<le> quote_ceiling q" if "0 \<le> quote_ceiling q" "quote_ceiling q \<in> \<int>"
      using bounds credit_amount_bounds [of "c - co_refundCredits outcome" c] c that o(2)
      by (auto simp: credit_amount_def)
    ultimately show ?thesis using ab(2,3) o(3) Some by simp
  qed
qed

lemma sample_settle_runs:
  "case fst (settleQuote sample_now sample_quote_settle sample_service) of Inl _ \<Rightarrow> False
   | Inr (q', u) \<Rightarrow> q_settledAmount q' = Some 50 \<and> pr_settledCredits u = Some 50"
  by code_simp

theorem settle_within_ceiling_witness:
  "\<exists>q' u s' b. settleQuote sample_now sample_quote_settle sample_service = (Inr (q', u), s') \<and>
     q_settledAmount q' = Some 50 \<and> q_refundedAmount q' = Some b \<and> 50 + b = 60"
proof -
  obtain q where q: "getQuote sample_service (sq_quoteId sample_quote_settle) = Some q"
    "q_lifecycleStatus q = Quote_reserved" "quote_ceiling q = 60" "qt_creditCost q = Some 60"
    using sample_service_quote by (auto simp: sample_quote_settle_def split: option.splits)
  obtain q' u s' where run: "settleQuote sample_now sample_quote_settle sample_service = (Inr (q', u), s')"
    "q_settledAmount q' = Some 50"
    using sample_settle_runs
    by (cases "settleQuote sample_now sample_quote_settle sample_service") (auto split: sum.splits)
  from settle_within_ceiling [OF sample_service_reachable q(1) _ run(1)] q run(2)
  obtain b where "q_refundedAmount q' = Some b" "50 + b = 60" by auto
  with run show ?thesis by blast
qed

text \<open>
  The half credit is real: a quote in credits whose rate, and so whose ceiling, is a half is charged one
  when everything is delivered, and half a credit below zero is returned.
\<close>

definition half_build :: build_quote_input where
  "half_build = sample_build\<lparr>bi_unitRate := Finite (1 / 2)\<rparr>"

lemma half_ceiling_overcharged:
  "let s = snd (reserveQuote id sample_now sample_quote_reserve
       (snd (confirm sample_now sample_confirm
         (snd (buildQuote (\<lambda>_. ''revision'') sample_now half_build empty_quote_service)))));
     full = sample_quote_settle\<lparr>sq_partialDelivery := Some \<lparr>pb_totalUnits = JInt 6, pb_deliveredUnits = JInt 6\<rparr>\<rparr>
   in case fst (settleQuote sample_now full s) of Inl _ \<Rightarrow> False
      | Inr (q, u) \<Rightarrow> q_authorizedCeiling q = Some (1 / 2) \<and> q_settledAmount q = Some 1 \<and> q_refundedAmount q = Some (- 1 / 2)"
  by code_simp

lemma credit_settle_succeeds:
  assumes "usage_balanced r" and "getByTask u t = Some r" and "pr_status r = Reserved"
    and "pr_reservedCredits r = Some c" and "is_safe c" and "0 \<le> n" and "n \<le> c"
  shows "\<exists>r' u'. settle (credit_settle_input now t n k) u = (Inr r', u') \<and>
    pr_refundedCredits r' = Some n \<and> pr_settledCredits r' = Some (c - n) \<and> getByTask u' t = Some r'"
proof -
  obtain us where us: "reservedProductUsageUnits r = Inr us" "units_ok us" "pr_reservedQuantity r = totalUnits us"
    using reserved_units_read [OF assms(1)] by blast
  have n: "resolvePartialRefundCredits r (credit_settle_input now t n k) = Inr n"
    using assms(4-7) by (auto simp: resolvePartialRefundCredits_def credit_settle_input_def is_safe_def MAX_SAFE_INTEGER_def)
  have "assertUnitsWithin [] us m = Inr ()" for m
    using us(2) by (simp add: assertUnitsWithin_def)
  moreover have "totalUnits [] \<le> pr_reservedQuantity r"
    using totalUnits_nonneg [OF us(2)] us(3) by (simp add: totalUnits_def [of "[]"])
  moreover have "normalizeUnits [] m = Inr []" for m by (simp add: normalizeUnits_def)
  moreover have "se_settledUnits (credit_settle_input now t n k) = Some []" by (simp add: credit_settle_input_def)
  moreover have "\<not> is_settled r" using assms(3) by (simp add: is_settled_iff)
  ultimately show ?thesis
    using assms(2,4) us(1) n
    by (auto simp: settle_def getByTask_def input_units_or_def Let_def settled_record_def store_usage_def)
qed

text \<open>
  A credit quote settles as quoted. In a state reached without a failure report for a quote that was
  never confirmed, settling a reserved or dispatched quote in
  credits succeeds whenever the evidence of what was delivered is accepted, without evidence too; the
  usage record of the task then keeps and returns the credits that the partial settlement computed, which
  add up to the price; where the ceiling is that price, as the server quotes it, the amounts on
  the quote are those credits.
\<close>

theorem credit_quote_settles:
  assumes "quote_run confirmed_failure empty_quote_service s" and "getQuote s (sq_quoteId inp) = Some q"
    and "q_lifecycleStatus q \<in> {Quote_reserved, Quote_dispatched}"
    and "qt_creditCost q = Some c" and "credit_outcome_of q c inp = Inr outcome"
  shows "\<exists>q' u s' t. settleQuote now inp s = (Inr (q', u), s') \<and> q_taskId q = Some t \<and> getUsage s' t = Some u \<and>
    pr_refundedCredits u = Some (co_refundCredits outcome) \<and>
    pr_settledCredits u = Some (c - co_refundCredits outcome) \<and>
    co_settledCredits outcome \<in> {None, Some (c - co_refundCredits outcome)} \<and>
    (quote_ceiling q = of_int c \<longrightarrow> q_settledAmount q' = Some (of_int (c - co_refundCredits outcome)) \<and>
       q_refundedAmount q' = Some (of_int (co_refundCredits outcome)))"
proof -
  have ok: "service_ok True s" by (rule quote_reachable_strict [OF assms(1)])
  have q: "map_of (qs_quotes s) (sq_quoteId inp) = Some q" using assms(2) by (simp add: getQuote_def)
  from service_okD [OF ok q] assms(3) obtain t r where t: "q_taskId q = Some t" "t \<noteq> []" "terms_ok q"
    and r: "getByTask (qs_usage s) t = Some r" "pr_status r = Reserved" "pr_reservedCredits r = Some c"
    using assms(4) by (auto simp: quote_ok_def reservation_of_def)
  have c: "1 \<le> c" "is_safe c" using t(3) assms(4) by (simp_all add: terms_ok_def)
  have bal: "usage_balanced r" using ledger_ok_getD [of "qs_usage s" t r] ok r(1)
    by (simp add: service_ok_def getByTask_def)
  note bounds = credit_outcome_bounds [OF assms(5) t(3) assms(4)]
  from credit_settle_succeeds [OF bal r c(2), of "co_refundCredits outcome" now
      "if co_reconciled outcome then Reconciled else Estimated"] bounds
  obtain r' u' where run: "settle (credit_settle_input now t (co_refundCredits outcome)
      (if co_reconciled outcome then Reconciled else Estimated)) (qs_usage s) = (Inr r', u')"
    "pr_refundedCredits r' = Some (co_refundCredits outcome)"
    "pr_settledCredits r' = Some (c - co_refundCredits outcome)" "getByTask u' t = Some r'" by auto
  have "credit_amount (of_int c) c (co_settledCredits outcome) = of_int (c - co_refundCredits outcome)"
    using bounds c(1) js_round_int [of "c - co_refundCredits outcome"]
    by (auto simp: credit_amount_def simp del: js_round_int)
  with run show ?thesis
    using q t assms(3-5) r(1) bounds
    by (auto simp: settleQuote_def requireQuote_def truthy_nonempty settle_credit_quote_def Let_def op_bind_def
        on_usage_def close_quote_def getUsage_def closed_quote_def)
qed

theorem credit_quote_settles_witness:
  "\<exists>q' u s'. settleQuote sample_now sample_quote_settle sample_service = (Inr (q', u), s') \<and>
     pr_settledCredits u = Some 50 \<and> pr_refundedCredits u = Some 10 \<and>
     q_settledAmount q' = Some 50 \<and> q_refundedAmount q' = Some 10"
proof -
  obtain q where q: "getQuote sample_service (sq_quoteId sample_quote_settle) = Some q"
    "q_lifecycleStatus q = Quote_reserved" "quote_ceiling q = 60" "qt_creditCost q = Some 60"
    "qt_failureRefundsCredits q = Some True" "qt_packageContract q = None"
    using sample_service_quote by (auto simp: sample_quote_settle_def split: option.splits)
  obtain p where p: "computePartialCreditSettlement (JInt 6) (JInt 5) (JInt 60) True = Inr p"
    "ps_settledCredits p = 50" "ps_refundCredits p = 10"
    by (simp add: partial_settlement_Inr isPartialDeliveryBasis_def is_safe_def MAX_SAFE_INTEGER_def round_div_def Let_def)
  with q have "credit_outcome_of q 60 sample_quote_settle =
      Inr \<lparr>co_refundCredits = 10, co_settledCredits = Some 50, co_reconciled = True\<rparr>"
    by (simp add: credit_outcome_of_def sample_quote_settle_def zero_delivered_def)
  from credit_quote_settles [OF sample_service_run q(1) _ q(4) this, of sample_now] q(2,3)
  show ?thesis by auto
qed

text \<open>
  A task is charged once through its quote. After a successful settlement of a reserved or dispatched
  quote, settling it again, at any time and with any evidence, changes nothing: it returns the same quote
  and usage record when the settlement charged something, and is refused as \<^verbatim>\<open>INVALID_STATE\<close> when the amount
  came out as zero and the quote therefore reads as refunded. A failure report after it changes nothing
  either and returns the settled facts.
\<close>

theorem settle_quote_once:
  assumes "quote_run any_failure empty_quote_service s" and "getQuote s (sq_quoteId inp) = Some q"
    and "q_lifecycleStatus q \<in> {Quote_reserved, Quote_dispatched}"
    and "settleQuote now inp s = (Inr (q', u), s')"
    and "sq_quoteId again = sq_quoteId inp" and "fi_quoteId failure = sq_quoteId inp"
  shows "settleQuote later again s' =
      (if q_settledAmount q' = Some 0
       then Inl (P1DomainError INVALID_STATE (''Quote '' @ sq_quoteId inp @ '' cannot settle from status refunded.''))
       else Inr (q', u), s') \<and>
    failAndRefund later failure s' = (Inr (q', u), s')"
proof -
  have "map_of (qs_quotes s) (sq_quoteId inp) = Some q" "holds_reservation (q_lifecycleStatus q)"
    using assms(2,3) by (auto simp: getQuote_def holds_reservation_def)
  from settleQuote_open [OF quote_reachable_ok [OF assms(1)] this assms(4)] obtain t a where
    r: "t \<noteq> []" "getUsage s' t = Some u" "getQuote s' (sq_quoteId inp) = Some q'" "q_taskId q' = Some t"
      "q_lifecycleStatus q' = closed_status a" "q_settledAmount q' = Some a" by blast
  then have "settleQuote later again s' =
      (if a = 0
       then Inl (P1DomainError INVALID_STATE (''Quote '' @ sq_quoteId inp @ '' cannot settle from status refunded.''))
       else Inr (q', u), s')"
    using assms(5)
    by (simp add: settleQuote_def requireQuote_def getQuote_def getUsage_def truthy_nonempty closed_status_def invalid_def)
  moreover have "failAndRefund later failure s' = (Inr (q', u), s')"
    using r assms(6)
    by (simp add: failAndRefund_def requireQuote_def getQuote_def getUsage_def truthy_nonempty closed_status_def)
  ultimately show ?thesis using r(6) by simp
qed

theorem settle_quote_once_witness:
  "\<exists>r s'. settleQuote sample_now sample_quote_settle sample_service = (r, s') \<and>
     settleQuote ''2026-02-01T00:00:00.000Z'' sample_quote_settle s' = (r, s')"
proof -
  obtain q where q: "getQuote sample_service (sq_quoteId sample_quote_settle) = Some q" "q_lifecycleStatus q = Quote_reserved"
    using sample_service_quote by (auto simp: sample_quote_settle_def split: option.splits)
  obtain q' u s' where run: "settleQuote sample_now sample_quote_settle sample_service = (Inr (q', u), s')"
    "q_settledAmount q' = Some 50"
    using sample_settle_runs
    by (cases "settleQuote sample_now sample_quote_settle sample_service") (auto split: sum.splits)
  from settle_quote_once [OF sample_service_reachable q(1) _ run(1) refl, of
      "\<lparr>fi_quoteId = sq_quoteId sample_quote_settle, fi_trustedUsage = None, fi_forceCreditRefund = None\<rparr>"] q(2) run
  show ?thesis by simp
qed

section \<open>A failure report for another quote\<close>

definition force_refund :: "string \<Rightarrow> fail_input" where
  "force_refund k = \<lparr>fi_quoteId = k, fi_trustedUsage = None, fi_forceCreditRefund = Some True\<rparr>"

lemma full_refund_succeeds:
  assumes "usage_balanced r" and "getByTask u t = Some r" and "pr_status r = Reserved"
    and "pr_reservedCredits r = Some c"
  shows "\<exists>r' u'. refund \<lparr>rf_taskId = t, rf_remainingUnits = Some [], rf_remainingQuantity = None, rf_updatedAt = now\<rparr> u = (Inr r', u') \<and>
    pr_status r' = Refunded \<and> pr_quoteId r' = pr_quoteId r \<and> pr_refundedCredits r' = Some c \<and> getByTask u' t = Some r'"
proof -
  obtain us where us: "reservedProductUsageUnits r = Inr us" "units_ok us" "pr_reservedQuantity r = totalUnits us"
    using reserved_units_read [OF assms(1)] by blast
  have "pr_settledUnits r = Some []" using assms(1,3) by (simp add: usage_balanced_def nothing_settled_def)
  then have settled: "settledProductUsageUnits r = Inr []"
    by (simp add: settledProductUsageUnits_def stored_units_def as_input_def normalizeUnits_def)
  have zero: "totalUnits [] = 0" by (simp add: totalUnits_def)
  have q: "0 \<le> pr_reservedQuantity r" using us totalUnits_nonneg by simp
  have split: "refund_credits_split r 0 = Some (0, c)"
    using assms(4) q by (auto simp: refund_credits_split_def round_div_zero)
  have "assertUnitsWithin [] us m = Inr ()" "normalizeUnits [] m = Inr []" for m
    by (simp_all add: assertUnitsWithin_def normalizeUnits_def)
  with assms(2,3) us(1) settled zero q split show ?thesis
    by (simp add: refund_def getByTask_def input_units_or_def is_settled_iff refunded_record_def store_usage_def Let_def)
qed

text \<open>
  A failure report is not tied to the reservation it releases. A quote that was only built for a
  task, in credits, and never confirmed, releases by a forced failure report the credits the task
  holds under whatever other quote: the usage record of that quote is refunded in full, while its
  quote keeps its status.
\<close>

theorem foreign_quote_releases_reservation:
  assumes "quote_run any_failure empty_quote_service s" and "getQuote s k = Some q" and "q_lifecycleStatus q = Quoted"
    and "q_taskId q = Some t" and "t \<noteq> []" and "qt_creditCost q \<noteq> None"
    and "getUsage s t = Some u" and "pr_status u = Reserved" and "pr_reservedCredits u = Some c"
  shows "\<exists>r s' u'. failAndRefund now (force_refund k) s = (Inr r, s') \<and> getUsage s' t = Some u' \<and>
    pr_quoteId u' = pr_quoteId u \<and> pr_quoteId u \<noteq> k \<and> pr_status u' = Refunded \<and> pr_refundedCredits u' = Some c \<and>
    getQuote s' (pr_quoteId u) = getQuote s (pr_quoteId u)"
proof -
  have ok: "service_ok False s" by (rule quote_reachable_ok [OF assms(1)])
  have q: "map_of (qs_quotes s) k = Some q" "qt_quoteId q = k"
    using assms(2) service_okD [OF ok, of k q] by (auto simp: getQuote_def quote_ok_def)
  have u: "getByTask (qs_usage s) t = Some u" using assms(7) by (simp add: getUsage_def)
  with ok have bal: "usage_balanced u" using ledger_ok_getD [of "qs_usage s" t u] by (simp add: service_ok_def getByTask_def)
  from ok u q(1) assms(3) have other: "pr_quoteId u \<noteq> k" unfolding service_ok_def usage_backed_def by fastforce
  from full_refund_succeeds [OF bal u assms(8,9), of now] show ?thesis
    using q u other assms(3-6)
    by (auto simp: failAndRefund_def force_refund_def requireQuote_def truthy_nonempty fail_credit_quote_def op_bind_def
        on_usage_def close_quote_def getUsage_def getQuote_def)
qed

definition foreign_build :: build_quote_input where
  "foreign_build = sample_build\<lparr>bi_quoteId := ''q2'', bi_taskId := Some ''t1''\<rparr>"

definition foreign_service :: quote_service where
  "foreign_service = snd (buildQuote (\<lambda>_. ''revision'') sample_now foreign_build sample_service)"

lemma foreign_service_reachable: "quote_run any_failure empty_quote_service foreign_service"
  unfolding foreign_service_def using sample_service_reachable by (rule quote_next) (rule build_step)

lemma foreign_service_facts:
  "case (getQuote foreign_service ''q2'', getUsage foreign_service ''t1'') of
     (Some q, Some u) \<Rightarrow> q_lifecycleStatus q = Quoted \<and> q_taskId q = Some ''t1'' \<and> qt_creditCost q = Some 60 \<and>
       pr_status u = Reserved \<and> pr_reservedCredits u = Some 60 \<and> pr_quoteId u = ''q1''
   | _ \<Rightarrow> False"
  by code_simp

theorem foreign_quote_releases_reservation_witness:
  "\<exists>r s' u'. failAndRefund sample_now (force_refund ''q2'') foreign_service = (Inr r, s') \<and>
     getUsage s' ''t1'' = Some u' \<and> pr_quoteId u' = ''q1'' \<and> pr_status u' = Refunded \<and> pr_refundedCredits u' = Some 60"
proof -
  obtain q u where f: "getQuote foreign_service ''q2'' = Some q" "getUsage foreign_service ''t1'' = Some u"
    "q_lifecycleStatus q = Quoted" "q_taskId q = Some ''t1''" "qt_creditCost q = Some 60" "pr_status u = Reserved"
    "pr_reservedCredits u = Some 60" "pr_quoteId u = ''q1''"
    using foreign_service_facts by (auto split: option.splits)
  from foreign_quote_releases_reservation [OF foreign_service_reachable f(1,3,4) _ _ f(2,6,7), of sample_now] f(5,8)
  show ?thesis by auto
qed

end
