(* ===== verification/Redemption.thy ===== *)
theory Redemption
  imports JsMap CreditLedger GrantLot
begin

text \<open>
  Redemption codes of \<^verbatim>\<open>foundation/redemption.ts\<close>: the in-memory store of codes with its command
  log, and the application service that creates, voids and redeems them. A redemption grants
  either one lot of the credit ledger or one grant lot per resource; the store only sees a grant
  callback, here an operation on the state \<open>'g\<close> of whatever ledger the callback writes.
  \<^verbatim>\<open>withLock\<close> serialises the methods of the store, so each of them is one step of the state. The
  digest of \<^verbatim>\<open>node:crypto\<close> is an argument of the definitions that use it.
\<close>

section \<open>Data\<close>

datatype code_status = Active | Redeemed | Voided | Expired

record redemption_code =
  rd_id :: string
  rd_code :: string
  rd_status :: code_status
  rd_grants :: "(usage_resource \<times> js_number) list"
  rd_credits :: "js_number option"
  rd_expiresAt :: "string option"
  rd_revision :: int
  rd_createdAt :: string
  rd_createdBy :: string
  rd_voidedAt :: "string option"
  rd_redeemedAt :: "string option"
  rd_redeemedWorkspaceId :: "string option"
  rd_redeemedByUserId :: "string option"
  rd_grantTransactionId :: "string option"
  rd_creditGrantTransactionId :: "string option"
  rd_batchId :: "string option"

record create_code_input =
  ci_code :: string
  ci_grants :: "(usage_resource \<times> js_number) list"
  ci_credits :: "js_number option"
  ci_expiresAt :: "string option"
  ci_batchId :: "string option"
  ci_createdBy :: string
  ci_createdAt :: "string option"

record granted =
  gr_grantTransactionId :: string
  gr_grantTransactions :: "grant_lot_tx list"
  gr_creditGrant :: "credit_lot option"

record redeem_result =
  rr_code :: redemption_code
  rr_grantTransactions :: "grant_lot_tx list"
  rr_creditGrant :: "credit_lot option"

record redeem_input =
  ri_code :: string
  ri_workspaceId :: string
  ri_userId :: string
  ri_correlationId :: string

record void_input =
  vi_code :: string
  vi_expectedRevision :: int
  vi_voidedAt :: string

record command_identity =
  cm_scope :: string
  cm_idempotencyKey :: string

record store_command =
  sc_identity :: command_identity
  sc_payloadHash :: string

text \<open>The recorded result of a command is \<^verbatim>\<open>unknown\<close> to the store: what \<^verbatim>\<open>create\<close> or \<^verbatim>\<open>voidCode\<close> returned.\<close>

datatype command_result = Created "redemption_code list" | Void_result redemption_code

record redemption_store =
  rs_byCode :: "(string, redemption_code) js_map"
  rs_commandResults :: "(string \<times> string, string \<times> command_result) js_map"

definition empty_redemption_store :: redemption_store where
  "empty_redemption_store = \<lparr>rs_byCode = [], rs_commandResults = []\<rparr>"

section \<open>Argument checks\<close>

text \<open>The character class \<^verbatim>\<open>[A-Z0-9_-]\<close>.\<close>

definition code_char :: "char \<Rightarrow> bool" where
  "code_char c =
     (let n = char_code c in (65 \<le> n \<and> n \<le> 90) \<or> (48 \<le> n \<and> n \<le> 57) \<or> n = 95 \<or> n = 45)"

definition normalizeCode :: "string \<Rightarrow> string result" where
  "normalizeCode code =
     (let normalized = to_upper (trim code)
      in if 4 \<le> length normalized \<and> length normalized \<le> 64 \<and> list_all code_char normalized
         then Inr normalized
         else Inl (P1DomainError INVALID_STATE
                ''Redemption code must be 4-64 letters, numbers, hyphens, or underscores.''))"

fun assert_grant_entries :: "(usage_resource \<times> js_number) list \<Rightarrow> unit result" where
  "assert_grant_entries [] = Inr ()"
| "assert_grant_entries ((resource, amount) # rest) =
     r_bind (check (resource \<in> set USAGE_RESOURCES)
               (P1DomainError INVALID_STATE
                  (''Unknown redemption grant resource '' @ resource_name resource @ ''.'')))
       (\<lambda>_. r_bind (check (number_isInteger amount \<and> int_of amount > 0)
                     (P1DomainError INVALID_STATE
                        (''Grant amount for '' @ resource_name resource @ '' must be a positive integer.'')))
       (\<lambda>_. assert_grant_entries rest))"

definition assertGrants :: "(usage_resource \<times> js_number) list \<Rightarrow> unit result" where
  "assertGrants grants =
     r_bind (check (grants \<noteq> [])
               (P1DomainError INVALID_STATE ''Redemption grants require at least one resource amount.''))
       (\<lambda>_. assert_grant_entries grants)"

definition assertCodeCredits :: "js_number option \<Rightarrow> unit result" where
  "assertCodeCredits credits =
     check (case credits of None \<Rightarrow> False | Some c \<Rightarrow> number_isSafeInteger c \<and> int_of c > 0)
       (P1DomainError INVALID_STATE ''Redemption credits must be a positive integer.'')"

section \<open>The store\<close>

definition put_code :: "string \<Rightarrow> redemption_code \<Rightarrow> redemption_store \<Rightarrow> redemption_store" where
  "put_code key c s = s\<lparr>rs_byCode := map_set key c (rs_byCode s)\<rparr>"

text \<open>
  The command log. \<^verbatim>\<open>JSON.stringify\<close> of the array \<open>[scope, idempotencyKey]\<close> is a key for the pair.
\<close>

definition executeCommand ::
    "store_command option \<Rightarrow> (redemption_store, command_result) op \<Rightarrow> (redemption_store, command_result) op" where
  "executeCommand command execute s =
     (case command of
        None \<Rightarrow> execute s
      | Some cmd \<Rightarrow>
          let key = (cm_scope (sc_identity cmd), cm_idempotencyKey (sc_identity cmd))
          in case map_of (rs_commandResults s) key of
               Some (payloadHash, existing) \<Rightarrow>
                 if payloadHash \<noteq> sc_payloadHash cmd
                 then (Inl (P1DomainError IDEMPOTENCY_CONFLICT
                        ''Redemption command key was reused with a different payload.''), s)
                 else (Inr existing, s)
             | None \<Rightarrow>
                 (case execute s of
                    (Inl e, s') \<Rightarrow> (Inl e, s')
                  | (Inr result, s') \<Rightarrow>
                      (Inr result,
                       s'\<lparr>rs_commandResults :=
                            map_set key (sc_payloadHash cmd, result) (rs_commandResults s')\<rparr>)))"

fun normalize_all :: "redemption_code list \<Rightarrow> string list result" where
  "normalize_all [] = Inr []"
| "normalize_all (c # cs) =
     r_bind (normalizeCode (rd_code c)) (\<lambda>k. r_bind (normalize_all cs) (\<lambda>ks. Inr (k # ks)))"

definition createUnlocked :: "redemption_code list \<Rightarrow> (redemption_store, command_result) op" where
  "createUnlocked codes =
     guarded (normalize_all codes) (\<lambda>keys.
     guarded (check (distinct keys)
                (P1DomainError IDEMPOTENCY_CONFLICT ''Redemption batch contains duplicate codes.'')) (\<lambda>_ s.
       case find (\<lambda>key. map_of (rs_byCode s) key \<noteq> None) keys of
         Some key \<Rightarrow>
           (Inl (P1DomainError IDEMPOTENCY_CONFLICT
              (''Redemption code '' @ key @ '' already exists.'')), s)
       | None \<Rightarrow>
           (Inr (Created codes), fold (\<lambda>(key, c). put_code key c) (zip keys codes) s)))"

definition create ::
    "redemption_code list \<Rightarrow> store_command option \<Rightarrow> (redemption_store, command_result) op" where
  "create codes command = executeCommand command (createUnlocked codes)"

definition code_due :: "string \<Rightarrow> redemption_code \<Rightarrow> bool" where
  "code_due now c \<longleftrightarrow>
     rd_status c = Active \<and> (case rd_expiresAt c of None \<Rightarrow> False | Some e \<Rightarrow> date_le e now)"

definition expire_code :: "redemption_code \<Rightarrow> redemption_code" where
  "expire_code c = c\<lparr>rd_status := Expired, rd_revision := rd_revision c + 1\<rparr>"

definition expireDue :: "string \<Rightarrow> (redemption_store, nat) op" where
  "expireDue now =
     guarded (assert_timestamp now ''now'') (\<lambda>_ s.
       (Inr (length (filter (code_due now) (map snd (rs_byCode s)))),
        s\<lparr>rs_byCode := map (\<lambda>(k, c). (k, if code_due now c then expire_code c else c)) (rs_byCode s)\<rparr>))"

definition getByCode :: "redemption_store \<Rightarrow> string \<Rightarrow> redemption_code option result" where
  "getByCode s code = r_bind (normalizeCode code) (\<lambda>key. Inr (map_of (rs_byCode s) key))"

definition list_codes ::
    "redemption_store \<Rightarrow> string option \<Rightarrow> code_status option \<Rightarrow> redemption_code list" where
  "list_codes s batchId status =
     filter (\<lambda>c. (case truthy batchId of None \<Rightarrow> True | Some b \<Rightarrow> rd_batchId c = Some b) \<and>
                 (case status of None \<Rightarrow> True | Some st \<Rightarrow> rd_status c = st))
       (map snd (rs_byCode s))"

definition voidCodeUnlocked :: "void_input \<Rightarrow> (redemption_store, command_result) op" where
  "voidCodeUnlocked inp =
     guarded (normalizeCode (vi_code inp)) (\<lambda>key s.
       case map_of (rs_byCode s) key of
         None \<Rightarrow> (Inl (P1DomainError NOT_FOUND ''Redemption code was not found.''), s)
       | Some current \<Rightarrow>
           if rd_revision current \<noteq> vi_expectedRevision inp
           then (Inl (P1DomainError IDEMPOTENCY_CONFLICT ''Redemption code revision conflict.''), s)
           else if rd_status current = Redeemed
           then (Inl (P1DomainError INVALID_STATE ''A redeemed code cannot be voided.''), s)
           else if rd_status current = Voided then (Inr (Void_result current), s)
           else let c = current\<lparr>rd_status := Voided, rd_voidedAt := Some (vi_voidedAt inp),
                                rd_revision := rd_revision current + 1\<rparr>
                in (Inr (Void_result c), put_code key c s))"

definition voidCode :: "void_input \<Rightarrow> store_command option \<Rightarrow> (redemption_store, command_result) op" where
  "voidCode inp command = executeCommand command (voidCodeUnlocked inp)"

subsection \<open>Redeeming\<close>

type_synonym 'g grant_callback = "redemption_code \<Rightarrow> ('g, granted) op"

definition missing_callback :: js_error where
  "missing_callback =
     P1DomainError INVALID_STATE ''Memory redemption requires an application grant callback.''"

definition redeem_result_of :: "redemption_code \<Rightarrow> granted \<Rightarrow> redeem_result" where
  "redeem_result_of c g =
     \<lparr>rr_code = c, rr_grantTransactions = gr_grantTransactions g, rr_creditGrant = gr_creditGrant g\<rparr>"

text \<open>The repeated redemption by the workspace that redeemed the code: the grant must be the recorded one.\<close>

definition redeem_again ::
    "redemption_code \<Rightarrow> redeem_input \<Rightarrow> 'g grant_callback option \<Rightarrow> (redemption_store \<times> 'g, redeem_result) op" where
  "redeem_again current inp cb sg =
     (if rd_redeemedWorkspaceId current \<noteq> Some (ri_workspaceId inp)
      then (Inl (P1DomainError INVALID_STATE ''Redemption code was already redeemed.''), sg)
      else case cb of
             None \<Rightarrow> (Inl missing_callback, sg)
           | Some f \<Rightarrow>
               (case f current (snd sg) of
                  (Inl e, g') \<Rightarrow> (Inl e, (fst sg, g'))
                | (Inr granted, g') \<Rightarrow>
                    let persisted = (case gr_creditGrant granted of
                                       Some _ \<Rightarrow> rd_creditGrantTransactionId current
                                     | None \<Rightarrow> rd_grantTransactionId current)
                    in if Some (gr_grantTransactionId granted) \<noteq> persisted
                       then (Inl (P1DomainError INVALID_STATE
                              ''Redeemed code grant transaction does not match persisted state.''),
                             (fst sg, g'))
                       else (Inr (redeem_result_of current granted), (fst sg, g'))))"

definition reserve_code :: "redeem_input \<Rightarrow> string \<Rightarrow> redemption_code \<Rightarrow> redemption_code" where
  "reserve_code inp now c =
     c\<lparr>rd_status := Redeemed, rd_redeemedAt := Some now,
       rd_redeemedWorkspaceId := Some (ri_workspaceId inp),
       rd_redeemedByUserId := Some (ri_userId inp), rd_revision := rd_revision c + 1\<rparr>"

definition record_grant :: "granted \<Rightarrow> redemption_code \<Rightarrow> redemption_code" where
  "record_grant g c =
     (case gr_creditGrant g of
        Some _ \<Rightarrow> c\<lparr>rd_creditGrantTransactionId := Some (gr_grantTransactionId g)\<rparr>
      | None \<Rightarrow> c\<lparr>rd_grantTransactionId := Some (gr_grantTransactionId g)\<rparr>)"

text \<open>
  The first redemption: the code is reserved as redeemed before the grant runs, and put back as it
  was when the grant throws.
\<close>

definition redeem_first ::
    "string \<Rightarrow> redemption_code \<Rightarrow> redeem_input \<Rightarrow> string \<Rightarrow> 'g grant_callback \<Rightarrow>
     (redemption_store \<times> 'g, redeem_result) op" where
  "redeem_first key current inp now f sg =
     (let reserved = reserve_code inp now current;
          s1 = put_code key reserved (fst sg)
      in case f reserved (snd sg) of
           (Inl e, g') \<Rightarrow> (Inl e, (put_code key current s1, g'))
         | (Inr granted, g') \<Rightarrow>
             let c = record_grant granted reserved
             in (Inr (redeem_result_of c granted), (put_code key c s1, g')))"

fun status_name :: "code_status \<Rightarrow> string" where
  "status_name Active = ''active''"
| "status_name Redeemed = ''redeemed''"
| "status_name Voided = ''voided''"
| "status_name Expired = ''expired''"

definition redeemUnlocked ::
    "redeem_input \<Rightarrow> string \<Rightarrow> 'g grant_callback option \<Rightarrow> (redemption_store \<times> 'g, redeem_result) op" where
  "redeemUnlocked inp now cb =
     guarded (normalizeCode (ri_code inp)) (\<lambda>key sg.
       case map_of (rs_byCode (fst sg)) key of
         None \<Rightarrow> (Inl (P1DomainError NOT_FOUND ''Redemption code was not found.''), sg)
       | Some current \<Rightarrow>
           if rd_status current = Redeemed then redeem_again current inp cb sg
           else if rd_status current = Voided
           then (Inl (P1DomainError INVALID_STATE ''Redemption code is voided.''), sg)
           else if (case truthy (rd_expiresAt current) of None \<Rightarrow> False | Some e \<Rightarrow> date_le e now)
           then (Inl (P1DomainError INVALID_STATE ''Redemption code is expired.''),
                 (put_code key (expire_code current) (fst sg), snd sg))
           else if rd_status current \<noteq> Active
           then (Inl (P1DomainError INVALID_STATE
                  (''Redemption code is '' @ status_name (rd_status current) @ ''.'')), sg)
           else case cb of
                  None \<Rightarrow> (Inl missing_callback, sg)
                | Some f \<Rightarrow> redeem_first key current inp now f sg)"

definition redeemAtomic ::
    "redeem_input \<Rightarrow> string \<Rightarrow> 'g grant_callback option \<Rightarrow> (redemption_store \<times> 'g, redeem_result) op" where
  "redeemAtomic inp now cb = redeemUnlocked inp now cb"

section \<open>The application service\<close>

text \<open>
  What a command hashes: the two objects the service passes to \<^verbatim>\<open>JSON.stringify\<close>. The argument
  \<open>payload_digest\<close> stands for the SHA-256 digest of that text, \<open>digest\<close> for the digest of a string.
\<close>

record create_payload =
  cp_batchId :: "string option"
  cp_code :: string
  cp_createdAt :: "string option"
  cp_createdBy :: string
  cp_expiresAt :: "string option"
  cp_grants :: "(usage_resource \<times> js_number) list"
  cp_credits :: "js_number option"

datatype command_payload = Create_payload create_payload | Void_payload string int

definition sorted_grants :: "(usage_resource \<times> js_number) list \<Rightarrow> (usage_resource \<times> js_number) list" where
  "sorted_grants =
     js_sort (\<lambda>l r. Some (locale_compare (resource_name (fst l)) (resource_name (fst r))))"

definition create_payload_of :: "create_code_input \<Rightarrow> string \<Rightarrow> command_payload" where
  "create_payload_of inp code =
     Create_payload \<lparr>cp_batchId = ci_batchId inp, cp_code = code, cp_createdAt = ci_createdAt inp,
                     cp_createdBy = ci_createdBy inp, cp_expiresAt = ci_expiresAt inp,
                     cp_grants = sorted_grants (ci_grants inp), cp_credits = ci_credits inp\<rparr>"

definition store_command_of ::
    "(command_payload \<Rightarrow> string) \<Rightarrow> command_identity option \<Rightarrow> command_payload \<Rightarrow> store_command option" where
  "store_command_of payload_digest command payload =
     map_option (\<lambda>c. \<lparr>sc_identity = c, sc_payloadHash = payload_digest payload\<rparr>) command"

definition assert_code_input :: "bool \<Rightarrow> create_code_input \<Rightarrow> unit result" where
  "assert_code_input credit_mode inp =
     (if credit_mode
      then r_bind (assertCodeCredits (ci_credits inp))
             (\<lambda>_. check (ci_grants inp = [])
                (P1DomainError INVALID_STATE
                   ''Credit redemption codes cannot grant legacy resource buckets.''))
      else r_bind (assertGrants (ci_grants inp))
             (\<lambda>_. check (ci_credits inp = None)
                (P1DomainError INVALID_STATE ''Legacy redemption codes cannot grant credits.'')))"

definition assert_code_expiry :: "string option \<Rightarrow> string \<Rightarrow> unit result" where
  "assert_code_expiry expiresAt now =
     (case expiresAt of
        None \<Rightarrow> Inr ()
      | Some e \<Rightarrow>
          r_bind (assert_timestamp e ''expiresAt'')
            (\<lambda>_. check (\<not> date_le e now)
               (P1DomainError INVALID_STATE
                  ''Redemption expiration must be after its creation time.'')))"

definition new_code :: "(string \<Rightarrow> string) \<Rightarrow> create_code_input \<Rightarrow> string \<Rightarrow> string \<Rightarrow> redemption_code" where
  "new_code digest inp code now =
     \<lparr> rd_id = ''rc-'' @ take 20 (digest (code @ '':'' @ now)), rd_code = code, rd_status = Active,
       rd_grants = ci_grants inp, rd_credits = ci_credits inp, rd_expiresAt = ci_expiresAt inp,
       rd_revision = 1, rd_createdAt = now, rd_createdBy = ci_createdBy inp, rd_voidedAt = None,
       rd_redeemedAt = None, rd_redeemedWorkspaceId = None, rd_redeemedByUserId = None,
       rd_grantTransactionId = None, rd_creditGrantTransactionId = None,
       rd_batchId = truthy (ci_batchId inp) \<rparr>"

text \<open>\<open>credit_mode\<close> says whether the service was built with a credit ledger; \<open>clock\<close> is its clock's reading.\<close>

definition createCodes ::
    "(string \<Rightarrow> string) \<Rightarrow> (command_payload \<Rightarrow> string) \<Rightarrow> bool \<Rightarrow> string \<Rightarrow> create_code_input \<Rightarrow>
     command_identity option \<Rightarrow> (redemption_store, command_result) op" where
  "createCodes digest payload_digest credit_mode clock inp command =
     guarded (assert_code_input credit_mode inp) (\<lambda>_.
     guarded (normalizeCode (ci_code inp)) (\<lambda>code.
       let now = (case ci_createdAt inp of None \<Rightarrow> clock | Some t \<Rightarrow> t)
       in guarded (assert_timestamp now ''createdAt'') (\<lambda>_.
          guarded (assert_code_expiry (ci_expiresAt inp) now) (\<lambda>_.
            create [new_code digest inp code now]
              (store_command_of payload_digest command (create_payload_of inp code))))))"

definition service_voidCode ::
    "(command_payload \<Rightarrow> string) \<Rightarrow> string \<Rightarrow> string \<Rightarrow> js_number \<Rightarrow> command_identity option \<Rightarrow>
     (redemption_store, command_result) op" where
  "service_voidCode payload_digest clock code expectedRevision command =
     guarded (check (number_isInteger expectedRevision \<and> int_of expectedRevision \<ge> 1)
                (P1DomainError INVALID_STATE ''expectedRevision must be a positive integer.'')) (\<lambda>_.
       let inp = \<lparr>vi_code = code, vi_expectedRevision = int_of expectedRevision, vi_voidedAt = clock\<rparr>
       in case command of
            None \<Rightarrow> voidCode inp None
          | Some c \<Rightarrow>
              guarded (normalizeCode code) (\<lambda>key.
                voidCode inp (store_command_of payload_digest (Some c)
                  (Void_payload key (int_of expectedRevision)))))"

definition creditRedemptionLotId :: "(string \<Rightarrow> string) \<Rightarrow> string \<Rightarrow> string \<Rightarrow> string" where
  "creditRedemptionLotId digest codeId ws =
     ''credit-redeem-'' @ take 24 (digest (codeId @ '':'' @ ws))"

definition redemption_grant_key :: "string \<Rightarrow> string \<Rightarrow> string" where
  "redemption_grant_key codeId ws = ''grant:redemption:'' @ codeId @ '':'' @ ws"

definition credit_redemption_input ::
    "(string \<Rightarrow> string) \<Rightarrow> redeem_input \<Rightarrow> string \<Rightarrow> redemption_code \<Rightarrow> grant_credits_input" where
  "credit_redemption_input digest inp now c =
     \<lparr> gc_id = creditRedemptionLotId digest (rd_id c) (ri_workspaceId inp),
       gc_workspaceId = ri_workspaceId inp,
       gc_credits = (case rd_credits c of None \<Rightarrow> JNonInt | Some n \<Rightarrow> n), gc_expirationDate = None,
       gc_transactionType = REDEMPTION_CODE, gc_sourceRef = Some (rd_id c),
       gc_createdAt = (case rd_redeemedAt c of None \<Rightarrow> now | Some t \<Rightarrow> t),
       gc_actorId = Some (ri_userId inp), gc_correlationId = Some (ri_correlationId inp),
       gc_grantIdempotencyKey = Some (redemption_grant_key (rd_id c) (ri_workspaceId inp)) \<rparr>"

text \<open>The grant callback over a credit ledger: the port is the only way it reaches the ledger.\<close>

definition credit_callback ::
    "(string \<Rightarrow> string) \<Rightarrow> (grant_credits_input \<Rightarrow> ('g, credit_lot) op) \<Rightarrow> redeem_input \<Rightarrow> string \<Rightarrow>
     'g grant_callback" where
  "credit_callback digest port inp now c =
     guarded (assertCodeCredits (rd_credits c)) (\<lambda>_ g.
       case port (credit_redemption_input digest inp now c) g of
         (Inl e, g') \<Rightarrow> (Inl e, g')
       | (Inr lot, g') \<Rightarrow>
           (Inr \<lparr>gr_grantTransactionId = ''credit-grant:'' @ cl_id lot, gr_grantTransactions = [],
                 gr_creditGrant = Some lot\<rparr>, g'))"

definition redeem_credit ::
    "(string \<Rightarrow> string) \<Rightarrow> (grant_credits_input \<Rightarrow> ('g, credit_lot) op) \<Rightarrow> redeem_input \<Rightarrow> string \<Rightarrow>
     (redemption_store \<times> 'g, redeem_result) op" where
  "redeem_credit digest port inp now =
     redeemAtomic inp now (Some (credit_callback digest port inp now))"

subsection \<open>Redeeming resource allowance\<close>

definition redemption_lot_input ::
    "(string \<Rightarrow> string) \<Rightarrow> redeem_input \<Rightarrow> string \<Rightarrow> redemption_code \<Rightarrow> usage_resource \<Rightarrow> js_number \<Rightarrow>
     grant_lot_input" where
  "redemption_lot_input digest inp now c resource amount =
     \<lparr> gi_id = ''lot-redeem-'' @
         take 24 (digest (rd_id c @ '':'' @ ri_workspaceId inp @ '':'' @ resource_name resource)),
       gi_workspaceId = ri_workspaceId inp, gi_resource = resource, gi_amount = amount,
       gi_expirationDate = None, gi_transactionType = GRANT REDEMPTION_CODE,
       gi_sourceRef = Some (rd_id c), gi_supplyPoolId = None, gi_grantSource = None,
       gi_grantIdempotencyKey = None, gi_actorId = Some (ri_userId inp),
       gi_correlationId = Some (ri_correlationId inp),
       gi_createdAt = (case rd_redeemedAt c of None \<Rightarrow> now | Some t \<Rightarrow> t) \<rparr>"

definition redemption_txs :: "string \<Rightarrow> string \<Rightarrow> grant_lot_ledger \<Rightarrow> grant_lot_tx list" where
  "redemption_txs ws lotId g =
     filter (\<lambda>t. gt_lotId t = lotId \<and> gt_transactionType t = GRANT REDEMPTION_CODE)
       (GrantLot.listTransactions g ws)"

text \<open>The loop over the resources: the granted transactions and the identifier of the first of them.\<close>

fun grant_resources ::
    "(string \<Rightarrow> string) \<Rightarrow> redeem_input \<Rightarrow> string \<Rightarrow> redemption_code \<Rightarrow>
     (usage_resource \<times> js_number) list \<Rightarrow> grant_lot_tx list \<Rightarrow> string \<Rightarrow>
     (grant_lot_ledger, grant_lot_tx list \<times> string) op" where
  "grant_resources digest inp now c [] txs primary g = (Inr (txs, primary), g)"
| "grant_resources digest inp now c ((resource, amount) # rest) txs primary g =
     (if amount = JInt 0 then grant_resources digest inp now c rest txs primary g
      else let gi = redemption_lot_input digest inp now c resource amount
           in case GrantLot.grant gi g of
                (Inl e, g') \<Rightarrow> (Inl e, g')
              | (Inr _, g') \<Rightarrow>
                  let new = redemption_txs (ri_workspaceId inp) (gi_id gi) g'
                  in grant_resources digest inp now c rest (txs @ new)
                       (if primary = [] then (case new of [] \<Rightarrow> [] | t # _ \<Rightarrow> gt_id t) else primary) g')"

definition lots_callback ::
    "(string \<Rightarrow> string) \<Rightarrow> redeem_input \<Rightarrow> string \<Rightarrow> grant_lot_ledger grant_callback" where
  "lots_callback digest inp now c g =
     (case grant_resources digest inp now c (rd_grants c) [] [] g of
        (Inl e, g') \<Rightarrow> (Inl e, g')
      | (Inr (txs, primary), g') \<Rightarrow>
          if primary = []
          then (Inl (P1DomainError INVALID_STATE ''Redemption grant produced no transactions.''), g')
          else (Inr \<lparr>gr_grantTransactionId = primary, gr_grantTransactions = txs,
                     gr_creditGrant = None\<rparr>, g'))"

text \<open>
  \<^verbatim>\<open>runAtomically\<close> of the grant-lot ledger around the redemption: when it throws, the ledger is put
  back, while the store keeps what the redemption wrote to it.
\<close>

definition ledger_runAtomically ::
    "(redemption_store \<times> grant_lot_ledger, 'a) op \<Rightarrow> (redemption_store \<times> grant_lot_ledger, 'a) op" where
  "ledger_runAtomically work sg =
     (case work sg of
        (Inl e, (s', _)) \<Rightarrow> (Inl e, (s', snd sg))
      | (Inr a, sg') \<Rightarrow> (Inr a, sg'))"

definition redeem_lots ::
    "(string \<Rightarrow> string) \<Rightarrow> redeem_input \<Rightarrow> string \<Rightarrow>
     (redemption_store \<times> grant_lot_ledger, redeem_result) op" where
  "redeem_lots digest inp now =
     ledger_runAtomically (redeemAtomic inp now (Some (lots_callback digest inp now)))"

text \<open>A service without a ledger of either kind refuses to redeem.\<close>

datatype redemption_mode = Credit_mode | Lot_mode | No_ledger

definition redeem ::
    "redemption_mode \<Rightarrow> (string \<Rightarrow> string) \<Rightarrow> redeem_input \<Rightarrow> string \<Rightarrow>
     (redemption_store \<times> credit_ledger \<times> grant_lot_ledger, redeem_result) op" where
  "redeem mode digest inp now s =
     (case s of (st, credits, lots) \<Rightarrow>
        (case mode of
           Credit_mode \<Rightarrow>
             (case redeem_credit digest CreditLedger.grant inp now (st, credits) of
                (r, (st', credits')) \<Rightarrow> (r, (st', credits', lots)))
         | Lot_mode \<Rightarrow>
             (case redeem_lots digest inp now (st, lots) of
                (r, (st', lots')) \<Rightarrow> (r, (st', credits, lots')))
         | No_ledger \<Rightarrow>
             (Inl (P1DomainError INVALID_STATE ''Redemption requires an atomic grant-lot ledger.''), s)))"

end
