(* ===== verification/RedemptionCorrect.thy ===== *)
theory RedemptionCorrect
  imports Redemption CreditLedgerCorrect GrantLotCorrect
begin

text \<open>
  Lemmas on the redemption store: what normalisation accepts, the life of a code over every call of
  the store, the command log, the contract the store needs from a grant port, stated as a locale
  and met by \<^const>\<open>CreditLedger.grant\<close>, and the joint invariant of the store and the credit ledger.
\<close>

section \<open>Normal form of a code\<close>

lemma normalizeCode_Inr:
  "normalizeCode s = Inr k \<longleftrightarrow>
     k = to_upper (trim s) \<and> 4 \<le> length k \<and> length k \<le> 64 \<and> list_all code_char k"
  by (auto simp: normalizeCode_def Let_def)

lemma code_char_no_ws: "code_char c \<Longrightarrow> \<not> is_ws c"
  by (auto simp: code_char_def is_ws_def Let_def)

lemma code_char_upper: "code_char c \<Longrightarrow> upper_char c = c"
  by (auto simp: code_char_def upper_char_def Let_def)

lemma dropWhile_none: "\<forall>c \<in> set s. \<not> P c \<Longrightarrow> dropWhile P s = s"
  by (cases s) auto

lemma trim_no_ws: "\<forall>c \<in> set s. \<not> is_ws c \<Longrightarrow> trim s = s"
  by (simp add: trim_def dropWhile_none)

lemma normalizeCode_idem:
  assumes "normalizeCode s = Inr k"
  shows "normalizeCode k = Inr k"
proof -
  have k: "4 \<le> length k" "length k \<le> 64" "\<forall>c \<in> set k. code_char c"
    using assms by (auto simp: normalizeCode_Inr list_all_iff)
  then have "trim k = k" "to_upper k = k"
    by (simp_all add: trim_no_ws code_char_no_ws to_upper_def code_char_upper map_idI)
  with k show ?thesis by (simp add: normalizeCode_def Let_def list_all_iff)
qed

section \<open>One entry of the store\<close>

lemma put_code_simps [simp]:
  "rs_byCode (put_code k c s) = map_set k c (rs_byCode s)"
  "rs_commandResults (put_code k c s) = rs_commandResults s"
  by (simp_all add: put_code_def)

lemma put_code_same: "map_of (rs_byCode s) k = Some c \<Longrightarrow> put_code k c (put_code k c' s) = s"
  by (simp add: put_code_def map_set_twice map_set_same)

lemma map_of_expireDue:
  "map_of (map (\<lambda>(k, c). (k, f c)) m) k = map_option f (map_of m k)"
  by (induction m) auto

lemma fold_put_code:
  "length ks = length cs \<Longrightarrow> distinct ks \<Longrightarrow>
    map_of (rs_byCode (fold (\<lambda>(k, c). put_code k c) (zip ks cs) s)) k =
      (case map_of (zip ks cs) k of None \<Rightarrow> map_of (rs_byCode s) k | Some c \<Rightarrow> Some c)"
proof (induction ks cs arbitrary: s rule: list_induct2)
  case (Cons k' ks c cs)
  show ?case
  proof (cases "k = k'")
    case True
    with Cons.prems Cons.hyps have "map_of (zip ks cs) k = None" by (simp add: map_of_zip_is_None)
    with Cons.IH Cons.prems True show ?thesis by simp
  next
    case False
    with Cons.IH Cons.prems show ?thesis by (cases "map_of (zip ks cs) k") simp_all
  qed
qed simp

lemma normalize_all_length: "normalize_all cs = Inr ks \<Longrightarrow> length ks = length cs"
  by (induction cs arbitrary: ks) (auto simp: r_bind_Inr_iff)

lemma executeCommand_cases:
  assumes "executeCommand command work s = (r, s')"
  obtains (log) e where "s' = s" "r = Inl e"
  | (replay) cmd h x where "s' = s" "r = Inr x" "command = Some cmd"
      "map_of (rs_commandResults s) (cm_scope (sc_identity cmd), cm_idempotencyKey (sc_identity cmd)) =
         Some (h, x)" "h = sc_payloadHash cmd"
  | (run) s1 where "work s = (r, s1)" "rs_byCode s' = rs_byCode s1"
      "\<And>e. r = Inl e \<Longrightarrow> s' = s1"
  using assms
  by (cases "work s"; cases "fst (work s)")
    (auto simp: executeCommand_def Let_def split: option.splits if_splits prod.splits)

section \<open>The life of a code\<close>

text \<open>
  One call of the store, beside a ledger state that its grant callbacks write and that anything
  else may change in between. The store has no other writer, and its lock makes every call one step.
\<close>

inductive store_step :: "redemption_store \<times> 'g \<Rightarrow> redemption_store \<times> 'g \<Rightarrow> bool" where
  store_create: "create codes command s = (r, s') \<Longrightarrow> store_step (s, g) (s', g)"
| store_void: "voidCode inp command s = (r, s') \<Longrightarrow> store_step (s, g) (s', g)"
| store_expire: "expireDue now s = (r, s') \<Longrightarrow> store_step (s, g) (s', g)"
| store_redeem: "redeemAtomic inp now cb (s, g) = (r, sg') \<Longrightarrow> store_step (s, g) sg'"
| store_other: "store_step (s, g) (s, g')"

text \<open>What a code was created with.\<close>

definition code_facts where
  "code_facts c = (rd_id c, rd_code c, rd_grants c, rd_credits c, rd_expiresAt c, rd_createdAt c,
     rd_createdBy c, rd_batchId c)"

fun status_next :: "code_status \<Rightarrow> code_status \<Rightarrow> bool" where
  "status_next Active _ = True"
| "status_next Expired s = (s = Expired \<or> s = Voided)"
| "status_next s s' = (s = s')"

text \<open>The later version of a code: redeemed and voided are final, and every change counts a revision.\<close>

definition later_code :: "redemption_code \<Rightarrow> redemption_code \<Rightarrow> bool" where
  "later_code c c' \<longleftrightarrow>
     code_facts c' = code_facts c \<and> status_next (rd_status c) (rd_status c') \<and>
     (c' = c \<or> rd_revision c < rd_revision c' \<and> rd_status c \<in> {Active, Expired})"

lemma later_code_refl [simp]: "later_code c c"
  by (cases "rd_status c") (simp_all add: later_code_def)

lemma status_next_trans: "status_next a b \<Longrightarrow> status_next b c \<Longrightarrow> status_next a c"
  by (cases a; cases b; cases c) auto

lemma later_code_trans: "later_code a b \<Longrightarrow> later_code b c \<Longrightarrow> later_code a c"
  unfolding later_code_def by (auto intro: status_next_trans)

definition codes_later :: "redemption_store \<Rightarrow> redemption_store \<Rightarrow> bool" where
  "codes_later s s' \<longleftrightarrow>
     (\<forall>k c. map_of (rs_byCode s) k = Some c \<longrightarrow>
        (\<exists>c'. map_of (rs_byCode s') k = Some c' \<and> later_code c c'))"

lemma codes_later_refl [simp]: "codes_later s s"
  by (auto simp: codes_later_def)

lemma codes_later_same: "rs_byCode s' = rs_byCode s \<Longrightarrow> codes_later s s'"
  by (auto simp: codes_later_def)

lemma codes_later_put:
  "map_of (rs_byCode s) k = Some c \<Longrightarrow> later_code c c' \<Longrightarrow> codes_later s (put_code k c' s)"
  by (auto simp: codes_later_def)

lemma createUnlocked_result:
  assumes "createUnlocked codes s = (r, s')"
  obtains (error) e where "r = Inl e" "s' = s"
  | (ok) keys where "normalize_all codes = Inr keys" "distinct keys" "r = Inr (Created codes)"
      "\<forall>k \<in> set keys. map_of (rs_byCode s) k = None"
      "s' = fold (\<lambda>(k, c). put_code k c) (zip keys codes) s"
proof (cases "normalize_all codes")
  case (Inl e)
  with assms error show thesis by (auto simp: createUnlocked_def)
next
  case (Inr keys)
  show thesis
  proof (cases "distinct keys")
    case False
    with assms Inr error show thesis by (auto simp: createUnlocked_def)
  next
    case True
    show thesis
    proof (cases "find (\<lambda>key. map_of (rs_byCode s) key \<noteq> None) keys")
      case None
      then have new: "\<forall>k \<in> set keys. map_of (rs_byCode s) k = None" by (simp add: find_None_iff)
      from None Inr True assms have "r = Inr (Created codes)"
        "s' = fold (\<lambda>(k, c). put_code k c) (zip keys codes) s"
        by (simp_all add: createUnlocked_def)
      with Inr True new show thesis by (intro ok)
    next
      case (Some k)
      with Inr True assms error show thesis by (auto simp: createUnlocked_def)
    qed
  qed
qed

lemma createUnlocked_later:
  assumes "createUnlocked codes s = (r, s')"
  shows "codes_later s s'"
  using assms
proof (cases rule: createUnlocked_result)
  case (ok keys)
  have "map_of (rs_byCode s') k = Some c" if c: "map_of (rs_byCode s) k = Some c" for k c
  proof -
    have "k \<notin> set keys" using ok(4) c by auto
    then have "map_of (zip keys codes) k = None"
      using normalize_all_length [OF ok(1)] by (simp add: map_of_zip_is_None)
    with c fold_put_code [OF normalize_all_length [OF ok(1)] ok(2)] ok(5) show ?thesis by simp
  qed
  then show ?thesis by (auto simp: codes_later_def)
qed simp

lemma voidCodeUnlocked_result:
  assumes "voidCodeUnlocked inp s = (r, s')"
  obtains (same) "s' = s"
  | (voided) key c where "normalizeCode (vi_code inp) = Inr key" "map_of (rs_byCode s) key = Some c"
      "rd_revision c = vi_expectedRevision inp" "rd_status c \<in> {Active, Expired}"
      "s' = put_code key (c\<lparr>rd_status := Voided, rd_voidedAt := Some (vi_voidedAt inp),
                            rd_revision := rd_revision c + 1\<rparr>) s"
proof (cases "normalizeCode (vi_code inp)")
  case (Inl e)
  with assms same show thesis by (auto simp: voidCodeUnlocked_def)
next
  case (Inr key)
  show thesis
  proof (cases "map_of (rs_byCode s) key")
    case None
    with assms Inr same show thesis by (simp add: voidCodeUnlocked_def)
  next
    case (Some c)
    show thesis
    proof (cases "rd_revision c = vi_expectedRevision inp \<and> rd_status c \<in> {Active, Expired}")
      case True
      with assms Inr Some voided show thesis by (auto simp: voidCodeUnlocked_def Let_def)
    next
      case False
      then have "rd_revision c \<noteq> vi_expectedRevision inp \<or> rd_status c = Redeemed \<or> rd_status c = Voided"
        by (cases "rd_status c") auto
      with assms Inr Some same show thesis by (auto simp: voidCodeUnlocked_def split: if_splits)
    qed
  qed
qed

lemma later_expire: "rd_status c = Active \<or> rd_status c = Expired \<Longrightarrow> later_code c (expire_code c)"
  by (auto simp: later_code_def expire_code_def code_facts_def)

lemma later_redeem:
  assumes "rd_status c = Active"
  shows "later_code c (record_grant x (reserve_code inp now c))"
  using assms by (simp add: later_code_def reserve_code_def code_facts_def record_grant_def split: option.splits)

text \<open>The outcomes of a redemption: nothing happens to the store, a lapsed code is marked, or the code is redeemed.\<close>

lemma redeemAtomic_result:
  assumes "redeemAtomic inp now cb (s, g) = (r, (s', g'))"
  obtains (refused) e where "r = Inl e" "s' = s" "g' = g"
  | (grant_failed) f c e where "cb = Some f" "f c g = (Inl e, g')" "r = Inl e" "s' = s"
  | (lapsed) key c e where "normalizeCode (ri_code inp) = Inr key" "map_of (rs_byCode s) key = Some c"
      "rd_status c = Active \<or> rd_status c = Expired" "truthy (rd_expiresAt c) = Some e" "date_le e now"
      "r = Inl (P1DomainError INVALID_STATE ''Redemption code is expired.'')"
      "s' = put_code key (expire_code c) s" "g' = g"
  | (again) key c f x where "normalizeCode (ri_code inp) = Inr key" "map_of (rs_byCode s) key = Some c"
      "rd_status c = Redeemed" "rd_redeemedWorkspaceId c = Some (ri_workspaceId inp)" "cb = Some f"
      "f c g = (Inr x, g')" "s' = s"
      "\<And>y. r = Inr y \<Longrightarrow> y = redeem_result_of c x"
  | (first) key c f x where "normalizeCode (ri_code inp) = Inr key" "map_of (rs_byCode s) key = Some c"
      "rd_status c = Active" "\<not> (\<exists>e. truthy (rd_expiresAt c) = Some e \<and> date_le e now)" "cb = Some f"
      "f (reserve_code inp now c) g = (Inr x, g')"
      "r = Inr (redeem_result_of (record_grant x (reserve_code inp now c)) x)"
      "s' = put_code key (record_grant x (reserve_code inp now c)) s"
proof (cases "normalizeCode (ri_code inp)")
  case (Inl e)
  with assms refused show thesis by (auto simp: redeemAtomic_def redeemUnlocked_def)
next
  case (Inr key)
  show thesis
  proof (cases "map_of (rs_byCode s) key")
    case None
    with assms Inr refused show thesis by (auto simp: redeemAtomic_def redeemUnlocked_def)
  next
    case (Some c)
    show thesis
    proof (cases "rd_status c")
      case Redeemed
      with assms Inr Some show thesis
        by (auto simp: redeemAtomic_def redeemUnlocked_def redeem_again_def Let_def
            split: if_splits option.splits prod.splits sum.splits
            intro: refused grant_failed again)
    next
      case Voided
      with assms Inr Some refused show thesis by (auto simp: redeemAtomic_def redeemUnlocked_def)
    next
      case Expired
      show thesis
      proof (cases "\<exists>e. truthy (rd_expiresAt c) = Some e \<and> date_le e now")
        case True
        then obtain e where e: "truthy (rd_expiresAt c) = Some e" "date_le e now" by blast
        with Expired assms Inr Some
        have "r = Inl (P1DomainError INVALID_STATE ''Redemption code is expired.'')"
          "s' = put_code key (expire_code c) s" "g' = g"
          by (auto simp: redeemAtomic_def redeemUnlocked_def)
        with Expired Inr Some e show thesis by (intro lapsed) simp_all
      next
        case False
        with Expired assms Inr Some
        have "(Inl (P1DomainError INVALID_STATE ''Redemption code is expired.''), (s, g)) = (r, (s', g'))"
          by (auto simp: redeemAtomic_def redeemUnlocked_def split: option.splits)
        with refused show thesis by auto
      qed
    next
      case Active
      show thesis
      proof (cases "\<exists>e. truthy (rd_expiresAt c) = Some e \<and> date_le e now")
        case True
        then obtain e where e: "truthy (rd_expiresAt c) = Some e" "date_le e now" by blast
        with Active assms Inr Some
        have "r = Inl (P1DomainError INVALID_STATE ''Redemption code is expired.'')"
          "s' = put_code key (expire_code c) s" "g' = g"
          by (auto simp: redeemAtomic_def redeemUnlocked_def)
        with Active Inr Some e show thesis by (intro lapsed) simp_all
      next
        case False
        have restored: "put_code key c (put_code key c' s) = s" for c'
          by (rule put_code_same [OF Some])
        have twice: "put_code key c' (put_code key c'' s) = put_code key c' s" for c' c''
          by (simp add: put_code_def map_set_twice)
        from False Active assms Inr Some restored twice show thesis
          by (auto simp: redeemAtomic_def redeemUnlocked_def redeem_first_def Let_def
              split: option.splits if_splits prod.splits sum.splits
              intro: refused grant_failed first)
      qed
    qed
  qed
qed

lemma store_step_later: "store_step s s' \<Longrightarrow> codes_later (fst s) (fst s')"
proof (induction rule: store_step.induct)
  case (store_create codes command s r s' g)
  then show ?case unfolding create_def
    by (cases rule: executeCommand_cases) (auto dest: createUnlocked_later simp: codes_later_def)
next
  case (store_void inp command s r s' g)
  then show ?case unfolding voidCode_def
  proof (cases rule: executeCommand_cases)
    case (run s1)
    from run(1) have "codes_later s s1"
    proof (cases rule: voidCodeUnlocked_result)
      case (voided key c)
      then show ?thesis
        by (auto intro!: codes_later_put simp: later_code_def code_facts_def)
    qed simp
    with run(2) show ?thesis by (simp add: codes_later_def)
  qed simp_all
next
  case (store_expire now s r s' g)
  then show ?case
    by (cases "assert_timestamp now ''now''")
      (auto simp: expireDue_def codes_later_def map_of_expireDue code_due_def intro!: later_expire)
next
  case (store_redeem inp now cb s g r sg')
  then have "redeemAtomic inp now cb (s, g) = (r, (fst sg', snd sg'))" by simp
  then show ?case
    by (cases rule: redeemAtomic_result) (auto intro!: codes_later_put later_expire later_redeem)
qed simp

lemma codes_later_trans: "codes_later a b \<Longrightarrow> codes_later b c \<Longrightarrow> codes_later a c"
  unfolding codes_later_def by (metis later_code_trans)

lemma store_run_later: "store_step\<^sup>*\<^sup>* s s' \<Longrightarrow> codes_later (fst s) (fst s')"
  by (induction rule: rtranclp_induct) (auto intro: codes_later_trans store_step_later)

section \<open>The command log\<close>

definition command_key :: "store_command \<Rightarrow> string \<times> string" where
  "command_key cmd = (cm_scope (sc_identity cmd), cm_idempotencyKey (sc_identity cmd))"

lemma executeCommand_recorded:
  "executeCommand (Some cmd) work s = (Inr x, s') \<Longrightarrow>
    map_of (rs_commandResults s') (command_key cmd) = Some (sc_payloadHash cmd, x)"
  by (auto simp: executeCommand_def command_key_def Let_def split: option.splits if_splits prod.splits sum.splits)

definition log_grows :: "redemption_store \<Rightarrow> redemption_store \<Rightarrow> bool" where
  "log_grows s s' \<longleftrightarrow>
     (\<forall>k v. map_of (rs_commandResults s) k = Some v \<longrightarrow> map_of (rs_commandResults s') k = Some v)"

lemma executeCommand_log:
  assumes "executeCommand command work s = (r, s')"
    and "\<And>y s1. work s = (y, s1) \<Longrightarrow> rs_commandResults s1 = rs_commandResults s"
  shows "log_grows s s'"
  using assms
  by (cases "work s"; cases "fst (work s)")
    (auto simp: executeCommand_def log_grows_def Let_def split: option.splits if_splits prod.splits)

lemma fold_put_log: "rs_commandResults (fold (\<lambda>(k, c). put_code k c) ps s) = rs_commandResults s"
  by (induction ps arbitrary: s) auto

lemma store_step_log: "store_step s s' \<Longrightarrow> log_grows (fst s) (fst s')"
proof (induction rule: store_step.induct)
  case (store_create codes command s r s' g)
  then have "log_grows s s'" unfolding create_def
    by (rule executeCommand_log) (auto elim!: createUnlocked_result simp: fold_put_log)
  then show ?case by simp
next
  case (store_void inp command s r s' g)
  then have "log_grows s s'" unfolding voidCode_def
    by (rule executeCommand_log) (auto elim!: voidCodeUnlocked_result)
  then show ?case by simp
next
  case (store_expire now s r s' g)
  then show ?case by (auto simp: expireDue_def guarded_def log_grows_def split: sum.splits)
next
  case (store_redeem inp now cb s g r sg')
  then have "redeemAtomic inp now cb (s, g) = (r, (fst sg', snd sg'))" by simp
  then show ?case by (cases rule: redeemAtomic_result) (auto simp: log_grows_def)
qed (simp add: log_grows_def)

lemma store_run_log: "store_step\<^sup>*\<^sup>* s s' \<Longrightarrow> log_grows (fst s) (fst s')"
  by (induction rule: rtranclp_induct) (auto simp: log_grows_def dest!: store_step_log)

section \<open>The grant port\<close>

text \<open>
  What the redemption relies on from the ledger behind its port: a refused grant changes nothing,
  and a granted one is found again by the same request, whatever the ledger does in between.
\<close>

locale redemption_grants =
  fixes port :: "grant_credits_input \<Rightarrow> ('g, credit_lot) op"
    and ok :: "'g \<Rightarrow> bool"
    and evolves :: "'g \<Rightarrow> 'g \<Rightarrow> bool"
  assumes port_error: "port i g = (Inl e, g') \<Longrightarrow> g' = g"
    and port_keeps: "ok g \<Longrightarrow> port i g = (r, g') \<Longrightarrow> ok g'"
    and port_again: "ok g \<Longrightarrow> port i g = (Inr lot, g1) \<Longrightarrow> gc_sourceRef i \<noteq> Some [] \<Longrightarrow>
      evolves g1 g2 \<Longrightarrow> same_grant_request i j \<Longrightarrow>
      \<exists>lot'. port j g2 = (Inr lot', g2) \<and> lot_facts lot' = lot_facts lot"
begin

lemma callback_error: "credit_callback digest port inp now c g = (Inl e, g') \<Longrightarrow> g' = g"
  by (auto simp: credit_callback_def guarded_def split: sum.splits prod.splits dest: port_error)

lemma callback_ok:
  assumes "credit_callback digest port inp now c g = (Inr x, g')"
  obtains lot where "assertCodeCredits (rd_credits c) = Inr ()"
    "port (credit_redemption_input digest inp now c) g = (Inr lot, g')"
    "x = \<lparr>gr_grantTransactionId = ''credit-grant:'' @ cl_id lot, gr_grantTransactions = [],
          gr_creditGrant = Some lot\<rparr>"
  using assms by (auto simp: credit_callback_def guarded_def split: sum.splits prod.splits)

text \<open>Once granted, the callback of a later request for the same code finds the lot.\<close>

lemma callback_again:
  assumes "ok g" and "credit_callback digest port inp now c g = (Inr x, g1)"
    and "rd_id c \<noteq> []" and "evolves g1 g2"
    and "same_grant_request (credit_redemption_input digest inp now c)
           (credit_redemption_input digest inp' now' c')"
    and "rd_credits c' = rd_credits c"
  obtains y where "credit_callback digest port inp' now' c' g2 = (Inr y, g2)"
    "gr_grantTransactionId y = gr_grantTransactionId x"
    "map_option lot_facts (gr_creditGrant y) = map_option lot_facts (gr_creditGrant x)"
    "gr_creditGrant y \<noteq> None" "gr_creditGrant x \<noteq> None"
proof -
  from assms(2) obtain lot where lot: "assertCodeCredits (rd_credits c) = Inr ()"
    "port (credit_redemption_input digest inp now c) g = (Inr lot, g1)"
    "x = \<lparr>gr_grantTransactionId = ''credit-grant:'' @ cl_id lot, gr_grantTransactions = [],
          gr_creditGrant = Some lot\<rparr>"
    by (rule callback_ok)
  have "gc_sourceRef (credit_redemption_input digest inp now c) \<noteq> Some []"
    using assms(3) by (simp add: credit_redemption_input_def)
  from port_again [OF assms(1) lot(2) this assms(4,5)] obtain lot' where
    lot': "port (credit_redemption_input digest inp' now' c') g2 = (Inr lot', g2)"
    "lot_facts lot' = lot_facts lot" by blast
  then have "cl_id lot' = cl_id lot" by (simp add: lot_facts_def)
  with lot lot' assms(6) have "credit_callback digest port inp' now' c' g2 =
      (Inr \<lparr>gr_grantTransactionId = ''credit-grant:'' @ cl_id lot, gr_grantTransactions = [],
            gr_creditGrant = Some lot'\<rparr>, g2)"
    by (simp add: credit_callback_def)
  from that [OF this] lot(3) lot'(2) show thesis by simp
qed

text \<open>
  A code whose redemption succeeded stays redeemed: the same workspace gets its result again and
  every other workspace is refused, and neither changes the store or the ledger.
\<close>

lemma redeem_once:
  assumes g: "ok g" and wf: "\<And>k c. map_of (rs_byCode s) k = Some c \<Longrightarrow>
      rd_id c \<noteq> [] \<and> (rd_status c = Redeemed \<longrightarrow> rd_redeemedAt c \<noteq> None)"
    and first: "redeem_credit digest port inp now (s, g) = (Inr x, (s1, g1))"
    and later: "codes_later s1 s2" "evolves g1 g2"
    and code: "normalizeCode (ri_code inp') = normalizeCode (ri_code inp)"
  shows "if ri_workspaceId inp' = ri_workspaceId inp
    then \<exists>y. redeem_credit digest port inp' now' (s2, g2) = (Inr y, (s2, g2)) \<and>
           rr_code y = rr_code x \<and>
           map_option lot_facts (rr_creditGrant y) = map_option lot_facts (rr_creditGrant x)
    else redeem_credit digest port inp' now' (s2, g2) =
           (Inl (P1DomainError INVALID_STATE ''Redemption code was already redeemed.''), (s2, g2))"
proof -
  let ?cb = "credit_callback digest port"
  obtain key c z k where stored: "normalizeCode (ri_code inp) = Inr key"
      "map_of (rs_byCode s1) key = Some c" "rd_status c = Redeemed"
      "rd_redeemedWorkspaceId c = Some (ri_workspaceId inp)" "x = redeem_result_of c z"
    and called: "?cb inp now k g = (Inr z, g1)" "rd_id k = rd_id c" "rd_credits k = rd_credits c"
      "rd_id k \<noteq> []" "rd_redeemedAt k = rd_redeemedAt c" "rd_redeemedAt c \<noteq> None"
    and recorded: "gr_creditGrant z \<noteq> None \<Longrightarrow> rd_creditGrantTransactionId c = Some (gr_grantTransactionId z)"
  proof -
    from first have "redeemAtomic inp now (Some (?cb inp now)) (s, g) = (Inr x, (s1, g1))"
      by (simp add: redeem_credit_def)
    then show thesis
    proof (cases rule: redeemAtomic_result)
      case (again key c f z)
      with wf [OF again(2)] first that [of key c z c] show thesis
        by (auto simp: redeem_credit_def redeemAtomic_def redeemUnlocked_def redeem_again_def Let_def
            split: if_splits option.splits)
    next
      case (first key c f z)
      with wf [OF first(2)] that [of key "record_grant z (reserve_code inp now c)" z "reserve_code inp now c"]
      show thesis by (auto simp: record_grant_def reserve_code_def split: option.splits)
    qed auto
  qed
  from later(1) stored(2,3) have now2: "map_of (rs_byCode s2) key = Some c"
    by (force simp: codes_later_def later_code_def)
  show ?thesis
  proof (cases "ri_workspaceId inp' = ri_workspaceId inp")
    case False
    with now2 stored code show ?thesis
      by (simp add: redeem_credit_def redeemAtomic_def redeemUnlocked_def redeem_again_def)
  next
    case True
    have same: "same_grant_request (credit_redemption_input digest inp now k)
        (credit_redemption_input digest inp' now' c)"
      using True called by (auto simp: same_grant_request_def credit_redemption_input_def)
    from callback_again [OF g called(1,4) later(2) same] called(3) obtain y where y:
      "?cb inp' now' c g2 = (Inr y, g2)" "gr_grantTransactionId y = gr_grantTransactionId z"
      "map_option lot_facts (gr_creditGrant y) = map_option lot_facts (gr_creditGrant z)"
      "gr_creditGrant y \<noteq> None" "gr_creditGrant z \<noteq> None" by metis
    with True now2 stored code recorded have
      "redeem_credit digest port inp' now' (s2, g2) = (Inr (redeem_result_of c y), (s2, g2))"
      by (auto simp: redeem_credit_def redeemAtomic_def redeemUnlocked_def redeem_again_def Let_def)
    with True stored(5) y(3) show ?thesis by (simp add: redeem_result_of_def)
  qed
qed

text \<open>A redemption reaches the port at most once.\<close>

lemma redeem_port:
  assumes "redeem_credit digest port inp now (s, g) = (r, (s', g'))"
  shows "g' = g \<or> (\<exists>i lot. port i g = (Inr lot, g'))"
proof -
  have cb: "g' = g \<or> (\<exists>i lot. port i g = (Inr lot, g'))"
    if "credit_callback digest port inp now c g = (y, g')" for c y
    using that by (cases y) (auto dest: callback_error elim: callback_ok)
  from assms have "redeemAtomic inp now (Some (credit_callback digest port inp now)) (s, g) = (r, (s', g'))"
    by (simp add: redeem_credit_def)
  then show ?thesis by (cases rule: redeemAtomic_result) (auto dest: cb)
qed

end

text \<open>The credit ledger meets the contract.\<close>

lemma grant_Inl: "CreditLedger.grant inp s = (Inl e, s') \<Longrightarrow> s' = s"
  by (erule CreditLedgerCorrect.grant_result) auto

interpretation redemption_port: redemption_grants CreditLedger.grant credit_inv "credit_run any_refund"
  by unfold_locales (blast intro: grant_Inl CreditLedgerCorrect.grant_keeps_inv grant_again)+

section \<open>Codes and lots together\<close>

text \<open>
  The system of a store in credit mode and its ledger: the administrator's calls, the expiry job,
  redemptions by anybody, and everything else that writes the ledger. The identifier of a code is
  a truncated digest; a created code has an identifier no other code has. Only redemptions grant
  lots of the type \<^const>\<open>REDEMPTION_CODE\<close>.
\<close>

inductive redemption_step ::
    "(string \<Rightarrow> string) \<Rightarrow> (command_payload \<Rightarrow> string) \<Rightarrow>
     redemption_store \<times> credit_ledger \<Rightarrow> redemption_store \<times> credit_ledger \<Rightarrow> bool"
  for digest payload_digest where
  sys_create: "createCodes digest payload_digest True clock inp cmd s = (r, s') \<Longrightarrow>
    distinct (map (rd_id \<circ> snd) (rs_byCode s')) \<Longrightarrow>
    redemption_step digest payload_digest (s, g) (s', g)"
| sys_void: "service_voidCode payload_digest clock code revision cmd s = (r, s') \<Longrightarrow>
    redemption_step digest payload_digest (s, g) (s', g)"
| sys_expire: "expireDue now s = (r, s') \<Longrightarrow> redemption_step digest payload_digest (s, g) (s', g)"
| sys_redeem: "redeem_credit digest CreditLedger.grant inp now (s, g) = (r, sg') \<Longrightarrow>
    redemption_step digest payload_digest (s, g) sg'"
| sys_grant: "CreditLedger.grant i g = (r, g') \<Longrightarrow> gc_transactionType i \<noteq> REDEMPTION_CODE \<Longrightarrow>
    redemption_step digest payload_digest (s, g) (s, g')"
| sys_move: "credit_movement g g' \<Longrightarrow> redemption_step digest payload_digest (s, g) (s, g')"

abbreviation redemption_run where
  "redemption_run digest payload_digest \<equiv> (redemption_step digest payload_digest)\<^sup>*\<^sup>*"

definition redemption_start :: "redemption_store \<times> credit_ledger" where
  "redemption_start = (empty_redemption_store, empty_credit_ledger)"

definition code_wf :: "redemption_code \<Rightarrow> bool" where
  "code_wf c \<longleftrightarrow> rd_id c \<noteq> [] \<and> (\<exists>n. rd_credits c = Some (JInt n) \<and> is_safe n \<and> 0 < n) \<and>
     (rd_status c = Redeemed \<longrightarrow> rd_redeemedAt c \<noteq> None \<and> rd_redeemedWorkspaceId c \<noteq> None)"

definition store_wf :: "redemption_store \<Rightarrow> bool" where
  "store_wf s \<longleftrightarrow>
     distinct (map fst (rs_byCode s)) \<and> distinct (map (rd_id \<circ> snd) (rs_byCode s)) \<and>
     (\<forall>c \<in> snd ` set (rs_byCode s). code_wf c)"

definition code_credits :: "redemption_code \<Rightarrow> int" where
  "code_credits c = (case rd_credits c of None \<Rightarrow> 0 | Some n \<Rightarrow> int_of n)"

text \<open>The lot a redeemed code stands for, in the terms of \<^const>\<open>lot_facts\<close>.\<close>

definition code_lot where
  "code_lot digest c =
     (let ws = the (rd_redeemedWorkspaceId c)
      in (ws, creditRedemptionLotId digest (rd_id c) ws, code_credits c, None :: string option,
          REDEMPTION_CODE, Some (rd_id c), trim (redemption_grant_key (rd_id c) ws),
          the (rd_redeemedAt c)))"

definition redeemed_codes :: "redemption_store \<Rightarrow> redemption_code list" where
  "redeemed_codes s = filter (\<lambda>c. rd_status c = Redeemed) (map snd (rs_byCode s))"

definition redemption_lots :: "credit_ledger \<Rightarrow> credit_lot list" where
  "redemption_lots g = filter (\<lambda>l. cl_transactionType l = REDEMPTION_CODE) (cs_lots g)"

text \<open>The redemption lots of the ledger are exactly the lots of the redeemed codes.\<close>

definition redemption_inv :: "(string \<Rightarrow> string) \<Rightarrow> redemption_store \<times> credit_ledger \<Rightarrow> bool" where
  "redemption_inv digest sg \<longleftrightarrow>
     store_wf (fst sg) \<and> credit_inv (snd sg) \<and>
     mset (map lot_facts (redemption_lots (snd sg))) =
       mset (map (code_lot digest) (redeemed_codes (fst sg)))"

lemma redemption_inv_start: "redemption_inv digest redemption_start"
  by (simp add: redemption_inv_def redemption_start_def store_wf_def empty_redemption_store_def
      redemption_lots_def redeemed_codes_def credit_inv_empty) (simp add: empty_credit_ledger_def)

subsection \<open>The store under its map operations\<close>

lemma mset_map_set:
  "map_of m k = Some c \<Longrightarrow> distinct (map fst m) \<Longrightarrow>
    add_mset c (mset (map snd (map_set k c' m))) = add_mset c' (mset (map snd m))"
proof (induction m)
  case (Cons p m)
  then show ?case
    by (cases p) (auto split: if_splits simp: add_mset_commute dest: map_of_SomeD)
qed simp

lemma snd_map_set: "snd ` set (map_set k c m) \<subseteq> insert c (snd ` set m)"
  using set_map_set [of k c m] by force

lemma map_id_map_set:
  "map_of m k = Some c \<Longrightarrow> f c' = f c \<Longrightarrow> map (f \<circ> snd) (map_set k c' m) = map (f \<circ> snd) m"
  by (induction m) auto

lemma store_wf_put:
  assumes "store_wf s" and "map_of (rs_byCode s) k = Some c" and "rd_id c' = rd_id c" and "code_wf c'"
  shows "store_wf (put_code k c' s)"
proof -
  have "\<forall>x \<in> snd ` set (map_set k c' (rs_byCode s)). code_wf x"
  proof
    fix x assume "x \<in> snd ` set (map_set k c' (rs_byCode s))"
    with snd_map_set [of k c' "rs_byCode s"] have "x = c' \<or> x \<in> snd ` set (rs_byCode s)" by blast
    with assms show "code_wf x" by (auto simp: store_wf_def)
  qed
  with assms map_id_map_set [of "rs_byCode s" k c rd_id c'] show ?thesis
    by (simp add: store_wf_def distinct_map_set)
qed

lemma redeemed_put:
  assumes "store_wf s" and "map_of (rs_byCode s) k = Some c" and "rd_status c \<noteq> Redeemed"
  shows "mset (redeemed_codes (put_code k c' s)) =
    (if rd_status c' = Redeemed then {#c'#} else {#}) + mset (redeemed_codes s)"
proof -
  have "add_mset c (mset (map snd (map_set k c' (rs_byCode s)))) = add_mset c' (mset (map snd (rs_byCode s)))"
    using assms by (intro mset_map_set) (auto simp: store_wf_def)
  then have "filter_mset (\<lambda>c. rd_status c = Redeemed) (add_mset c (mset (map snd (map_set k c' (rs_byCode s))))) =
      filter_mset (\<lambda>c. rd_status c = Redeemed) (add_mset c' (mset (map snd (rs_byCode s))))" by simp
  with assms(3) show ?thesis by (simp add: redeemed_codes_def mset_filter)
qed

lemma store_wf_code: "store_wf s \<Longrightarrow> map_of (rs_byCode s) k = Some c \<Longrightarrow> code_wf c"
  by (force simp: store_wf_def dest: map_of_SomeD)

lemma store_wf_same_id:
  assumes "store_wf s" and "(k, c) \<in> set (rs_byCode s)" "(k', c') \<in> set (rs_byCode s)" "rd_id c = rd_id c'"
  shows "c = c'"
proof -
  have "inj_on (rd_id \<circ> snd) (set (rs_byCode s))"
    using assms(1) by (simp add: store_wf_def distinct_map)
  from inj_onD [OF this _ assms(2,3)] assms(4) show ?thesis by simp
qed

subsection \<open>Every step keeps the invariant\<close>

lemma createCodes_result:
  assumes "createCodes digest payload_digest True clock inp cmd s = (r, s')"
  obtains (same) "rs_byCode s' = rs_byCode s"
  | (new) k c where "map_of (rs_byCode s) k = None" "rs_byCode s' = rs_byCode s @ [(k, c)]"
      "rd_status c = Active" "code_wf c"
proof (cases "\<exists>e. r = Inl e \<and> s' = s")
  case True
  with same show thesis by blast
next
  case False
  with assms obtain code now command where ok: "assertCodeCredits (ci_credits inp) = Inr ()"
      "create [new_code digest inp code now] command s = (r, s')"
    by (auto simp: createCodes_def assert_code_input_def guarded_def r_bind_def Let_def
        split: sum.splits if_splits)
  from ok(2) show thesis unfolding create_def
  proof (cases rule: executeCommand_cases)
    case (run s1)
    from run(1) show thesis
    proof (cases rule: createUnlocked_result)
      case (error e)
      with run(2) same show thesis by simp
    next
      case (ok keys)
      then obtain key where "keys = [key]" by (auto simp: r_bind_def split: sum.splits)
      with ok run(2) have "rs_byCode s' = map_set key (new_code digest inp code now) (rs_byCode s)"
        "map_of (rs_byCode s) key = None" by simp_all
      moreover have "code_wf (new_code digest inp code now)"
        using \<open>assertCodeCredits (ci_credits inp) = Inr ()\<close>
        by (auto simp: code_wf_def new_code_def assertCodeCredits_def number_isSafeInteger_iff
            split: option.splits)
      ultimately show thesis
        by (intro new [of key "new_code digest inp code now"])
          (auto simp: map_set_fresh map_of_eq_None_iff new_code_def)
    qed
  qed (use same in auto)
qed

lemma redemption_inv_create:
  assumes "createCodes digest payload_digest True clock inp cmd s = (r, s')"
    and "distinct (map (rd_id \<circ> snd) (rs_byCode s'))" and "redemption_inv digest (s, g)"
  shows "redemption_inv digest (s', g)"
  using assms(1)
proof (cases rule: createCodes_result)
  case same
  with assms(3) show ?thesis by (simp add: redemption_inv_def store_wf_def redeemed_codes_def)
next
  case (new k c)
  with assms(2,3) show ?thesis
    by (simp add: redemption_inv_def store_wf_def redeemed_codes_def map_of_eq_None_iff)
qed

lemma redemption_inv_void:
  assumes "service_voidCode payload_digest clock code revision cmd s = (r, s')"
    and inv: "redemption_inv digest (s, g)"
  shows "redemption_inv digest (s', g)"
proof (cases "s' = s")
  case True
  with inv show ?thesis by simp
next
  case False
  with assms(1) obtain inp command where "voidCode inp command s = (r, s')"
    by (auto simp: service_voidCode_def guarded_def Let_def split: option.splits sum.splits)
  then have "rs_byCode s' = rs_byCode s \<or>
      (\<exists>k c. map_of (rs_byCode s) k = Some c \<and> rd_status c \<noteq> Redeemed \<and>
        rs_byCode s' = rs_byCode (put_code k (c\<lparr>rd_status := Voided, rd_voidedAt := Some (vi_voidedAt inp),
                                                rd_revision := rd_revision c + 1\<rparr>) s))"
    unfolding voidCode_def
  proof (cases rule: executeCommand_cases)
    case (run s1)
    from run(1) show ?thesis
    proof (cases rule: voidCodeUnlocked_result)
      case (voided key c)
      with run(2) show ?thesis by (intro disjI2 exI [of _ key] exI [of _ c]) auto
    qed (simp add: run(2))
  qed simp_all
  then show ?thesis
  proof (elim disjE exE conjE)
    fix k and c :: redemption_code
    let ?c = "c\<lparr>rd_status := Voided, rd_voidedAt := Some (vi_voidedAt inp), rd_revision := rd_revision c + 1\<rparr>"
    assume c: "map_of (rs_byCode s) k = Some c" "rd_status c \<noteq> Redeemed"
      and s': "rs_byCode s' = rs_byCode (put_code k ?c s)"
    have wf: "store_wf s" using inv by (simp add: redemption_inv_def)
    have "store_wf (put_code k ?c s)"
      using store_wf_code [OF wf c(1)] by (intro store_wf_put [OF wf c(1)]) (simp_all add: code_wf_def)
    with inv redeemed_put [OF wf c, of ?c] s' show ?thesis
      by (simp add: redemption_inv_def store_wf_def redeemed_codes_def)
  qed (use inv in \<open>simp add: redemption_inv_def store_wf_def redeemed_codes_def\<close>)
qed

lemma redeemed_expire:
  "filter (\<lambda>c. rd_status c = Redeemed)
     (map snd (map (\<lambda>(k, c). (k, if code_due now c then expire_code c else c)) m)) =
   filter (\<lambda>c. rd_status c = Redeemed) (map snd m)"
  by (induction m) (auto simp: code_due_def expire_code_def split: if_splits)

lemma code_wf_expire: "code_wf c \<Longrightarrow> code_wf (expire_code c)"
  by (simp add: code_wf_def expire_code_def)

lemma redemption_inv_expire:
  assumes "expireDue now s = (r, s')" and inv: "redemption_inv digest (s, g)"
  shows "redemption_inv digest (s', g)"
proof (cases "s' = s")
  case False
  let ?f = "\<lambda>(k, c). (k, if code_due now c then expire_code c else c)"
  have s': "rs_byCode s' = map ?f (rs_byCode s)"
    using assms(1) False by (auto simp: expireDue_def guarded_def split: sum.splits)
  have m: "map fst (map ?f m) = map fst m" "map (rd_id \<circ> snd) (map ?f m) = map (rd_id \<circ> snd) m" for m
    by (induction m) (auto simp: expire_code_def)
  have "\<forall>c \<in> snd ` set (map ?f (rs_byCode s)). code_wf c"
    using inv by (auto simp: redemption_inv_def store_wf_def code_wf_expire)
  then have "store_wf s'"
    using inv unfolding redemption_inv_def store_wf_def s' m by simp
  moreover have "redeemed_codes s' = redeemed_codes s"
    by (simp only: redeemed_codes_def s' redeemed_expire)
  ultimately show ?thesis using inv by (simp add: redemption_inv_def)
qed (use inv in simp)

lemma redemption_lots_of_facts:
  "map lot_facts (cs_lots g') = map lot_facts (cs_lots g) @ zs \<Longrightarrow>
   map lot_facts (redemption_lots g') =
     map lot_facts (redemption_lots g) @
     filter (\<lambda>(_, _, _, _, ty, _). ty = REDEMPTION_CODE) zs"
proof -
  let ?P = "\<lambda>(_, _, _, _, ty, _). ty = REDEMPTION_CODE"
  have "map lot_facts (redemption_lots h) = filter ?P (map lot_facts (cs_lots h))" for h
    by (simp add: redemption_lots_def filter_map o_def lot_facts_def)
  then show "map lot_facts (cs_lots g') = map lot_facts (cs_lots g) @ zs \<Longrightarrow> ?thesis" by simp
qed

lemma redemption_inv_move:
  assumes "credit_movement g g'" and "redemption_inv digest (s, g)"
  shows "redemption_inv digest (s, g')"
  using assms credit_movement_keeps_inv [OF assms(1)] credit_movement_facts [OF assms(1)]
    redemption_lots_of_facts [of g' g "[]"]
  by (simp add: redemption_inv_def)

lemma redemption_inv_grant:
  assumes "CreditLedger.grant i g = (r, g')" and "gc_transactionType i \<noteq> REDEMPTION_CODE"
    and inv: "redemption_inv digest (s, g)"
  shows "redemption_inv digest (s, g')"
  using assms(1)
proof (cases rule: CreditLedgerCorrect.grant_result)
  case (fresh key)
  then have "redemption_lots g' = redemption_lots g"
    using assms(2) by (simp add: redemption_lots_def new_credit_lot_def)
  with inv CreditLedgerCorrect.grant_keeps_inv [OF _ assms(1)] show ?thesis
    by (simp add: redemption_inv_def)
qed (use inv in auto)

lemma trim_prefix: "p \<noteq> [] \<Longrightarrow> \<forall>c \<in> set p. \<not> is_ws c \<Longrightarrow> \<exists>t. trim (p @ s) = p @ t"
proof -
  assume p: "p \<noteq> []" "\<forall>c \<in> set p. \<not> is_ws c"
  then have "dropWhile is_ws (p @ s) = p @ s" by (cases p) simp_all
  moreover have "\<exists>t. rev (dropWhile is_ws (rev s @ rev p)) = p @ t"
    using p by (cases "\<forall>c \<in> set s. is_ws c")
      (auto simp: dropWhile_append dropWhile_none split: if_splits)
  ultimately show ?thesis by (simp add: trim_def)
qed

lemma redemption_key:
  "normalizeCreditGrantIdempotencyKey l (Some (redemption_grant_key i ws)) =
     Inr (trim (redemption_grant_key i ws))"
proof -
  have "\<exists>t. trim (grant_prefix @ (''redemption:'' @ i @ '':'' @ ws)) = grant_prefix @ t"
    by (rule trim_prefix) (simp_all add: grant_prefix_def is_ws_code)
  then obtain t where t: "trim (redemption_grant_key i ws) = grant_prefix @ t"
    by (auto simp: redemption_grant_key_def grant_prefix_def)
  then have "\<not> starts_with consume_prefix (trim (redemption_grant_key i ws))"
    by (simp add: starts_with_iff grant_prefix_def consume_prefix_def)
  with t show ?thesis
    by (simp add: normalizeCreditGrantIdempotencyKey_def Let_def) (simp add: grant_prefix_def)
qed

lemma new_lot_facts:
  assumes "rd_redeemedAt c \<noteq> None" and "rd_redeemedWorkspaceId c = Some (ri_workspaceId inp)"
    and "code_wf c"
  shows "lot_facts (new_credit_lot (credit_redemption_input digest inp now c)
      (trim (redemption_grant_key (rd_id c) (ri_workspaceId inp)))) = code_lot digest c"
  using assms
  by (auto simp: lot_facts_def new_credit_lot_def credit_redemption_input_def code_lot_def Let_def
      code_credits_def code_wf_def truthy_def)

lemma code_lot_record [simp]: "code_lot digest (record_grant x c) = code_lot digest c"
  by (simp add: code_lot_def record_grant_def code_credits_def Let_def split: option.splits)

lemma record_grant_simps [simp]:
  "rd_id (record_grant x c) = rd_id c" "rd_status (record_grant x c) = rd_status c"
  "code_wf (record_grant x c) = code_wf c"
  by (simp_all add: record_grant_def code_wf_def split: option.splits)

lemma redemption_lot_set:
  "redemption_inv digest (s, g) \<Longrightarrow>
    set (map lot_facts (redemption_lots g)) = set (map (code_lot digest) (redeemed_codes s))"
  by (rule mset_eq_setD) (simp only: redemption_inv_def fst_conv snd_conv)

text \<open>A redemption lot of a code in the ledger means that the code is redeemed.\<close>

lemma redeemed_of_lot:
  assumes inv: "redemption_inv digest (s, g)" and l: "l \<in> set (cs_lots g)"
    and facts: "cl_transactionType l = REDEMPTION_CODE" "cl_sourceRef l = Some i"
    and c: "(k, c) \<in> set (rs_byCode s)" "rd_id c = i"
  shows "rd_status c = Redeemed"
proof -
  have "lot_facts l \<in> set (map lot_facts (redemption_lots g))"
    using l facts(1) by (auto simp: redemption_lots_def)
  also note redemption_lot_set [OF inv]
  finally obtain c' k' where c': "(k', c') \<in> set (rs_byCode s)" "rd_status c' = Redeemed"
      "lot_facts l = code_lot digest c'"
    by (auto simp: redeemed_codes_def)
  then have "rd_id c' = i" using facts(2) by (simp add: lot_facts_def code_lot_def Let_def)
  with inv c c' store_wf_same_id [of s k c k' c'] show ?thesis by (simp add: redemption_inv_def)
qed

lemma lot_of_redeemed:
  assumes inv: "redemption_inv digest (s, g)" and c: "(k, c) \<in> set (rs_byCode s)" "rd_status c = Redeemed"
  obtains l where "l \<in> set (cs_lots g)" "lot_facts l = code_lot digest c"
proof -
  have "code_lot digest c \<in> set (map (code_lot digest) (redeemed_codes s))"
    using c by (force simp: redeemed_codes_def)
  also note redemption_lot_set [OF inv, symmetric]
  finally show thesis using that by (auto simp: redemption_lots_def)
qed

lemma redemption_inv_redeem:
  assumes "redeem_credit digest CreditLedger.grant inp now (s, g) = (r, (s', g'))"
    and inv: "redemption_inv digest (s, g)"
  shows "redemption_inv digest (s', g')"
proof -
  let ?cb = "credit_callback digest CreditLedger.grant inp now"
  have wf: "store_wf s" and cinv: "credit_inv g" using inv by (simp_all add: redemption_inv_def)
  from assms(1) have "redeemAtomic inp now (Some ?cb) (s, g) = (r, (s', g'))"
    by (simp add: redeem_credit_def)
  then show ?thesis
  proof (cases rule: redeemAtomic_result)
    case refused
    with inv show ?thesis by simp
  next
    case (grant_failed f c e)
    with inv redemption_port.callback_error [of digest inp now c g e g'] show ?thesis by simp
  next
    case (lapsed k c e)
    have "store_wf (put_code k (expire_code c) s)"
      using store_wf_code [OF wf lapsed(2)] by (intro store_wf_put [OF wf lapsed(2)])
        (simp_all add: code_wf_expire, simp add: expire_code_def)
    moreover have "rd_status c \<noteq> Redeemed" "rd_status (expire_code c) \<noteq> Redeemed"
      using lapsed(3) by (auto simp: expire_code_def)
    ultimately show ?thesis
      using inv lapsed(7,8) redeemed_put [OF wf lapsed(2), of "expire_code c"]
      by (simp add: redemption_inv_def)
  next
    case (again k c f x)
    from again(6) again(5) have "?cb c g = (Inr x, g')" by simp
    then obtain lot where grant: "CreditLedger.grant (credit_redemption_input digest inp now c) g = (Inr lot, g')"
      by (rule redemption_port.callback_ok)
    obtain l where l: "l \<in> set (cs_lots g)" "lot_facts l = code_lot digest c"
      using lot_of_redeemed [OF inv map_of_SomeD [OF again(2)] again(3)] by blast
    from grant have "g' = g"
    proof (cases rule: CreditLedgerCorrect.grant_result)
      case (fresh key)
      have "cl_workspaceId l = ri_workspaceId inp"
        "cl_id l = creditRedemptionLotId digest (rd_id c) (ri_workspaceId inp)"
        using l(2) again(4) by (simp_all add: lot_facts_def code_lot_def Let_def)
      with fresh(3) l(1) show ?thesis by (simp add: credit_redemption_input_def)
    qed simp_all
    with inv again(7) show ?thesis by simp
  next
    case (first k c f x)
    let ?c = "reserve_code inp now c"
    have cwf: "code_wf ?c" using store_wf_code [OF wf first(2)]
      by (simp add: code_wf_def reserve_code_def)
    have c: "rd_id ?c = rd_id c" "rd_status ?c = Redeemed" "rd_redeemedAt ?c \<noteq> None"
        "rd_redeemedWorkspaceId ?c = Some (ri_workspaceId inp)"
      by (simp_all add: reserve_code_def)
    from first(5,6) have "?cb ?c g = (Inr x, g')" by simp
    then obtain lot where grant:
        "CreditLedger.grant (credit_redemption_input digest inp now ?c) g = (Inr lot, g')"
      by (rule redemption_port.callback_ok)
    from grant have lots: "mset (map lot_facts (redemption_lots g')) =
        add_mset (code_lot digest ?c) (mset (map lot_facts (redemption_lots g)))"
    proof (cases rule: CreditLedgerCorrect.grant_result)
      case replay
      have "gc_sourceRef (credit_redemption_input digest inp now ?c) \<noteq> Some []"
        using cwf by (simp add: credit_redemption_input_def code_wf_def)
      from grant_found [OF grant this] have "cl_transactionType lot = REDEMPTION_CODE"
        "cl_sourceRef lot = Some (rd_id c)"
        by (auto simp: sameCreditGrantFacts_def credit_redemption_input_def c)
      with replay redeemed_of_lot [OF inv, of lot "rd_id c" k c] map_of_SomeD [OF first(2)] first(3)
      show ?thesis by simp
    next
      case (fresh key)
      have "key = trim (redemption_grant_key (rd_id ?c) (ri_workspaceId inp))"
        using fresh(2) redemption_key by (simp add: credit_redemption_input_def)
      with fresh(5) new_lot_facts [OF c(3,4) cwf, of digest now] show ?thesis
        by (simp add: redemption_lots_def new_credit_lot_def credit_redemption_input_def)
    qed simp_all
    have "store_wf s'" unfolding first(8)
      using cwf c(1) by (intro store_wf_put [OF wf first(2)]) simp_all
    moreover have "credit_inv g'" by (rule CreditLedgerCorrect.grant_keeps_inv [OF cinv grant])
    moreover have "mset (redeemed_codes s') = {#record_grant x ?c#} + mset (redeemed_codes s)"
      using redeemed_put [OF wf first(2), of "record_grant x ?c"] first(3,8) c(2) by simp
    ultimately show ?thesis using lots inv by (simp add: redemption_inv_def)
  qed
qed

lemma redemption_step_keeps:
  "redemption_step digest payload_digest a b \<Longrightarrow> redemption_inv digest a \<Longrightarrow> redemption_inv digest b"
proof (induction rule: redemption_step.induct)
  case (sys_redeem inp now s g r sg')
  then show ?case using redemption_inv_redeem [of digest inp now s g r "fst sg'" "snd sg'"] by simp
qed (auto intro: redemption_inv_create redemption_inv_void redemption_inv_expire redemption_inv_grant
      redemption_inv_move)

lemma redemption_run_inv:
  "redemption_run digest payload_digest redemption_start sg \<Longrightarrow> redemption_inv digest sg"
  by (induction rule: rtranclp_induct) (auto intro: redemption_step_keeps redemption_inv_start)

text \<open>A run of the system is a run of its parts.\<close>

lemma redemption_step_parts:
  "redemption_step digest payload_digest a b \<Longrightarrow>
    codes_later (fst a) (fst b) \<and> credit_run any_refund (snd a) (snd b)"
proof (induction rule: redemption_step.induct)
  case (sys_create clock inp cmd s r s' g)
  then have "rs_byCode s' = rs_byCode s \<or> (\<exists>codes command. create codes command s = (r, s'))"
    by (auto simp: createCodes_def guarded_def Let_def split: sum.splits)
  then show ?case
    using store_step_later [OF store_create, of _ _ s r s' "()"]
    by (auto intro: codes_later_same run_refl)
next
  case (sys_void clock code revision cmd s r s' g)
  then have "s' = s \<or> (\<exists>inp command. voidCode inp command s = (r, s'))"
    by (auto simp: service_voidCode_def guarded_def Let_def split: option.splits sum.splits)
  then show ?case
    using store_step_later [OF store_void, of _ _ s r s' "()"] by (auto intro: run_refl)
next
  case (sys_expire now s r s' g)
  then show ?case using store_step_later [OF store_expire, of now s r s' "()"] by (auto intro: run_refl)
next
  case (sys_redeem inp now s g r sg')
  then have "store_step (s, g) sg'" unfolding redeem_credit_def by (rule store_redeem)
  then have "codes_later s (fst sg')" using store_step_later by fastforce
  moreover from sys_redeem redemption_port.redeem_port [of digest inp now s g r "fst sg'" "snd sg'"]
  have "credit_run any_refund g (snd sg')"
    by (auto intro: run_refl run_step [OF run_refl step_grant])
  ultimately show ?case by simp
next
  case (sys_grant i g r g' s)
  then show ?case by (auto intro: run_step [OF run_refl step_grant])
next
  case (sys_move g g' s)
  then have "credit_step any_refund g g'"
    by (cases rule: credit_movement.cases) (auto intro: credit_step.intros simp: any_refund_def)
  then show ?case by (auto intro: run_step [OF run_refl])
qed

lemma redemption_run_parts:
  "redemption_run digest payload_digest a b \<Longrightarrow>
    codes_later (fst a) (fst b) \<and> credit_run any_refund (snd a) (snd b)"
proof (induction rule: rtranclp_induct)
  case (step b c)
  with redemption_step_parts [OF step.hyps(2)] show ?case
    by (auto intro: codes_later_trans credit_run_trans)
qed (simp add: run_refl)

section \<open>Granting resource allowance\<close>

definition redemption_lot_of :: "redeem_input \<Rightarrow> redemption_code \<Rightarrow> usage_resource \<times> js_number \<Rightarrow> grant_lot \<Rightarrow> bool" where
  "redemption_lot_of inp c p l \<longleftrightarrow>
     gl_workspaceId l = ri_workspaceId inp \<and> gl_resource l = fst p \<and>
     JInt (gl_originalAmount l) = snd p \<and> gl_transactionType l = GRANT REDEMPTION_CODE \<and>
     gl_sourceRef l = Some (rd_id c)"

lemma grant_lot_stored:
  assumes "GrantLot.grant gi g = (Inr l, g')" and "gi_sourceRef gi \<noteq> Some []"
  shows "l \<in> set (gs_lots g') \<and> gl_workspaceId l = gi_workspaceId gi \<and>
    gl_resource l = gi_resource gi \<and> JInt (gl_originalAmount l) = gi_amount gi \<and>
    gl_transactionType l = gi_transactionType gi \<and> gl_sourceRef l = gi_sourceRef gi \<and>
    (\<exists>new. gs_lots g' = gs_lots g @ new)"
proof -
  have int: "JInt (int_of (gi_amount gi)) = gi_amount gi"
    if "assertGrantLotGrantInput gi = Inr ()"
    using that by (auto simp: assertGrantLotGrantInput_def number_isInteger_iff split: if_splits)
  from assms int show ?thesis
    by (auto simp: GrantLot.grant_def guarded_def Let_def same_grant_def new_grant_lot_def present_def
        add_tx_def find_Some_iff split: sum.splits option.splits if_splits)
qed

lemma grant_resources_ok:
  assumes "grant_resources digest inp now c grants txs primary g = (Inr z, g')" and "rd_id c \<noteq> []"
  shows "(\<exists>new. gs_lots g' = gs_lots g @ new) \<and>
    (\<forall>p \<in> set grants. snd p \<noteq> JInt 0 \<longrightarrow> (\<exists>l \<in> set (gs_lots g'). redemption_lot_of inp c p l))"
  using assms(1)
proof (induction grants arbitrary: txs primary g)
  case (Cons p grants)
  obtain resource amount where p: "p = (resource, amount)" by (cases p)
  show ?case
  proof (cases "amount = JInt 0")
    case True
    with Cons p show ?thesis by simp
  next
    case False
    let ?gi = "redemption_lot_input digest inp now c resource amount"
    from False Cons.prems p obtain l g1 txs' primary' where run: "GrantLot.grant ?gi g = (Inr l, g1)"
        "grant_resources digest inp now c grants txs' primary' g1 = (Inr z, g')"
      by (auto simp: Let_def split: prod.splits sum.splits)
    have "gi_sourceRef ?gi \<noteq> Some []" using assms(2) by (simp add: redemption_lot_input_def)
    from grant_lot_stored [OF run(1) this] have l: "l \<in> set (gs_lots g1)" "redemption_lot_of inp c p l"
      "\<exists>new. gs_lots g1 = gs_lots g @ new"
      by (simp_all add: redemption_lot_of_def redemption_lot_input_def p)
    with Cons.IH [OF run(2)] show ?thesis by auto
  qed
qed simp

lemma lots_callback_ok:
  assumes "lots_callback digest inp now c g = (Inr x, g')" and "rd_id c \<noteq> []"
  shows "gr_creditGrant x = None \<and> (\<exists>new. gs_lots g' = gs_lots g @ new) \<and>
    (\<forall>p \<in> set (rd_grants c). snd p \<noteq> JInt 0 \<longrightarrow> (\<exists>l \<in> set (gs_lots g'). redemption_lot_of inp c p l))"
  using assms grant_resources_ok [of digest inp now c "rd_grants c" "[]" "[]" g _ g']
  by (auto simp: lots_callback_def split: prod.splits sum.splits if_splits)

end
