(* ===== verification/RedemptionProps.thy ===== *)
theory RedemptionProps
  imports RedemptionCorrect
begin

text \<open>
  The properties of the redemption codes: their life, redemption exactly once by one workspace, the
  agreement of codes and credit lots, the atomic redemption of resource allowance, the command log,
  and the spelling of a code.
\<close>

section \<open>Sample calls\<close>

definition sample_digest :: "string \<Rightarrow> string" where
  "sample_digest s = rev s"

definition sample_payload_digest :: "command_payload \<Rightarrow> string" where
  "sample_payload_digest p = (case p of Create_payload c \<Rightarrow> cp_code c | Void_payload k _ \<Rightarrow> k)"

definition sample_code :: "string option \<Rightarrow> create_code_input" where
  "sample_code expiry =
     \<lparr> ci_code = '' gift-1 '', ci_grants = [], ci_credits = Some (JInt 30), ci_expiresAt = expiry,
       ci_batchId = None, ci_createdBy = ''admin'', ci_createdAt = None \<rparr>"

definition sample_redeem :: "string \<Rightarrow> redeem_input" where
  "sample_redeem ws =
     \<lparr>ri_code = ''Gift-1'', ri_workspaceId = ws, ri_userId = ''u'', ri_correlationId = ''c''\<rparr>"

definition t_created :: string where "t_created = ''2026-01-01T00:00:00.000Z''"
definition t_later :: string where "t_later = ''2026-02-01T00:00:00.000Z''"

definition sample_command :: "command_identity option" where
  "sample_command = Some \<lparr>cm_scope = ''admin'', cm_idempotencyKey = ''k1''\<rparr>"

definition sample_store :: redemption_store where
  "sample_store = snd (createCodes sample_digest sample_payload_digest True t_created
     (sample_code None) sample_command empty_redemption_store)"

definition sample_redeemed :: "redemption_store \<times> credit_ledger" where
  "sample_redeemed = snd (redeem_credit sample_digest CreditLedger.grant (sample_redeem ''w'') t_later
     (sample_store, empty_credit_ledger))"

lemma sample_store_run:
  "redemption_run sample_digest sample_payload_digest redemption_start (sample_store, empty_credit_ledger)"
proof -
  have "distinct (map (rd_id \<circ> snd) (rs_byCode sample_store))" by code_simp
  then show ?thesis
    unfolding redemption_start_def sample_store_def
    by (intro r_into_rtranclp sys_create [OF prod.collapse [symmetric]])
qed

lemma sample_redeemed_run:
  "redemption_run sample_digest sample_payload_digest redemption_start sample_redeemed"
  unfolding sample_redeemed_def
  by (rule rtranclp.rtrancl_into_rtrancl [OF sample_store_run])
    (rule sys_redeem [OF prod.collapse [symmetric]])

section \<open>Properties\<close>

text \<open>
  C32. The life of a code. Whatever the store does (creations, voids, the expiry job, redemptions with
  any grant callback), a code it holds is never removed and keeps the facts it was created with; it
  only moves from active to redeemed, voided or expired, and from expired to voided; a redeemed or
  voided code never changes again; and a code with an unchanged revision is unchanged.
\<close>

theorem code_lifecycle:
  assumes "store_step\<^sup>*\<^sup>* (s, g) (s', g')" and "map_of (rs_byCode s) k = Some c"
  shows "\<exists>c'. map_of (rs_byCode s') k = Some c' \<and> code_facts c' = code_facts c \<and>
    status_next (rd_status c) (rd_status c') \<and>
    (rd_status c = Redeemed \<or> rd_status c = Voided \<longrightarrow> c' = c) \<and>
    rd_revision c \<le> rd_revision c' \<and> (rd_revision c' = rd_revision c \<longrightarrow> c' = c)"
  using store_run_later [OF assms(1)] assms(2)
  by (fastforce simp: codes_later_def later_code_def)

theorem code_lifecycle_witness:
  "case map_of (rs_byCode (fst sample_redeemed)) ''GIFT-1'' of
     None \<Rightarrow> False
   | Some c \<Rightarrow> rd_status c = Redeemed \<and>
       (\<exists>c'. map_of (rs_byCode (snd (expireDue t_later (fst sample_redeemed)))) ''GIFT-1'' = Some c' \<and> c' = c)"
proof -
  let ?s = "snd (expireDue t_later (fst sample_redeemed))"
  have c: "case map_of (rs_byCode (fst sample_redeemed)) ''GIFT-1'' of
      None \<Rightarrow> False | Some c \<Rightarrow> rd_status c = Redeemed" by code_simp
  have run: "store_step\<^sup>*\<^sup>* (fst sample_redeemed, ()) (?s, ())"
    by (intro r_into_rtranclp store_expire [OF prod.collapse [symmetric]])
  show ?thesis
    using c code_lifecycle [OF run, of "''GIFT-1''"]
    by (cases "map_of (rs_byCode (fst sample_redeemed)) ''GIFT-1''") auto
qed

text \<open>
  C17. A code is redeemed once, by one workspace. After a successful redemption, and after any further
  calls of the store and the ledger, the same workspace redeeming the code again gets the same code
  and the same lot, any other workspace is refused, and neither changes the store or the ledger.
\<close>

theorem redeem_exactly_once:
  assumes "redemption_run digest payload_digest redemption_start (s, g)"
    and "redeem_credit digest CreditLedger.grant inp now (s, g) = (Inr x, sg1)"
    and "redemption_run digest payload_digest sg1 (s2, g2)"
    and "normalizeCode (ri_code inp') = normalizeCode (ri_code inp)"
  shows "if ri_workspaceId inp' = ri_workspaceId inp
    then \<exists>y. redeem_credit digest CreditLedger.grant inp' now' (s2, g2) = (Inr y, (s2, g2)) \<and>
           rr_code y = rr_code x \<and>
           map_option lot_facts (rr_creditGrant y) = map_option lot_facts (rr_creditGrant x)
    else redeem_credit digest CreditLedger.grant inp' now' (s2, g2) =
           (Inl (P1DomainError INVALID_STATE ''Redemption code was already redeemed.''), (s2, g2))"
proof -
  obtain s1 g1 where sg1: "sg1 = (s1, g1)" by (cases sg1)
  have inv: "redemption_inv digest (s, g)" by (rule redemption_run_inv [OF assms(1)])
  have wf: "rd_id c \<noteq> [] \<and> (rd_status c = Redeemed \<longrightarrow> rd_redeemedAt c \<noteq> None)"
    if "map_of (rs_byCode s) k = Some c" for k c
    using inv store_wf_code [OF _ that] by (simp add: redemption_inv_def code_wf_def)
  have "codes_later s1 s2" and "credit_run any_refund g1 g2"
    using redemption_run_parts [OF assms(3)] by (simp_all add: sg1)
  with inv show ?thesis
    by (intro redemption_port.redeem_once [OF _ wf assms(2) [unfolded sg1] _ _ assms(4)])
      (simp_all add: redemption_inv_def)
qed

theorem redeem_exactly_once_witness:
  "redeem_credit sample_digest CreditLedger.grant (sample_redeem ''v'') t_later sample_redeemed =
     (Inl (P1DomainError INVALID_STATE ''Redemption code was already redeemed.''), sample_redeemed)"
proof -
  have ok: "case redeem_credit sample_digest CreditLedger.grant (sample_redeem ''w'') t_later
      (sample_store, empty_credit_ledger) of (Inl e, _) \<Rightarrow> False | (Inr x, _) \<Rightarrow> True" by code_simp
  then obtain x where x: "redeem_credit sample_digest CreditLedger.grant (sample_redeem ''w'') t_later
      (sample_store, empty_credit_ledger) = (Inr x, sample_redeemed)"
    by (auto simp: sample_redeemed_def split: prod.splits sum.splits)
  obtain s g where sg: "sample_redeemed = (s, g)" by (cases sample_redeemed)
  have "redemption_run sample_digest sample_payload_digest sample_redeemed (s, g)" by (simp add: sg)
  from redeem_exactly_once [OF sample_store_run x this, of "sample_redeem ''v''" t_later]
  show ?thesis by (simp add: sg sample_redeem_def)
qed

text \<open>
  C2. Codes and credit lots agree. In every reachable state, while nobody else grants redemption lots,
  the redemption lots of the ledger are exactly those of the redeemed codes: one lot per redeemed
  code, in the workspace that redeemed it, for the credits of the code; a code that is not redeemed
  has none. So the credits redemptions granted are the credits of the redeemed codes.
\<close>

theorem redemption_lots_match_codes:
  assumes "redemption_run digest payload_digest redemption_start (s, g)"
  shows "mset (map lot_facts (redemption_lots g)) = mset (map (code_lot digest) (redeemed_codes s)) \<and>
    sum_list (map cl_originalCredits (redemption_lots g)) = sum_list (map code_credits (redeemed_codes s))"
proof
  show facts: "mset (map lot_facts (redemption_lots g)) = mset (map (code_lot digest) (redeemed_codes s))"
    using redemption_run_inv [OF assms] by (simp only: redemption_inv_def fst_conv snd_conv)
  let ?n = "\<lambda>(_, _, n, _). n"
  have "sum_list (map cl_originalCredits (redemption_lots g)) =
      sum_mset (image_mset ?n (mset (map lot_facts (redemption_lots g))))"
    by (simp add: lot_facts_def sum_mset_sum_list [symmetric] multiset.map_comp o_def)
  also have "\<dots> = sum_mset (image_mset ?n (mset (map (code_lot digest) (redeemed_codes s))))"
    by (simp only: facts)
  also have "\<dots> = sum_list (map code_credits (redeemed_codes s))"
    by (simp add: code_lot_def Let_def sum_mset_sum_list [symmetric] multiset.map_comp o_def)
  finally show "sum_list (map cl_originalCredits (redemption_lots g)) =
      sum_list (map code_credits (redeemed_codes s))" .
qed

theorem redemption_lots_match_codes_witness:
  "sum_list (map cl_originalCredits (redemption_lots (snd sample_redeemed))) = 30"
proof -
  have "sum_list (map code_credits (redeemed_codes (fst sample_redeemed))) = 30" by code_simp
  with redemption_lots_match_codes [of sample_digest sample_payload_digest "fst sample_redeemed"
      "snd sample_redeemed"] sample_redeemed_run
  show ?thesis by simp
qed

text \<open>
  A created code is found under every spelling of it. When the service creates a code, looking
  up any text with the same normal form returns the code as created: active, in its first revision,
  with the credits, grants and expiry of the request. The stored text is a normal form: it
  normalises to itself.
\<close>

theorem created_code_roundtrip:
  assumes "createCodes digest payload_digest credit_mode clock inp None s = (Inr res, s')"
    and "normalizeCode spelling = normalizeCode (ci_code inp)"
  shows "\<exists>c. res = Created [c] \<and> getByCode s' spelling = Inr (Some c) \<and>
    normalizeCode (rd_code c) = Inr (rd_code c) \<and> getByCode s' (rd_code c) = Inr (Some c) \<and>
    rd_status c = Active \<and> rd_revision c = 1 \<and> rd_credits c = ci_credits inp \<and>
    rd_grants c = ci_grants inp \<and> rd_expiresAt c = ci_expiresAt inp"
proof -
  from assms(1) obtain code now where code: "normalizeCode (ci_code inp) = Inr code"
      "createUnlocked [new_code digest inp code now] s = (Inr res, s')"
    by (auto simp: createCodes_def create_def store_command_of_def executeCommand_def guarded_def Let_def
        split: sum.splits)
  have norm: "normalizeCode code = Inr code" by (rule normalizeCode_idem [OF code(1)])
  from code(2) show ?thesis
  proof (cases rule: createUnlocked_result)
    case (ok keys)
    then have "keys = [code]" using norm by (simp add: new_code_def)
    with ok have "map_of (rs_byCode s') code = Some (new_code digest inp code now)" by simp
    with ok(3) norm code(1) assms(2) show ?thesis by (simp add: getByCode_def new_code_def)
  qed simp
qed

theorem created_code_roundtrip_witness:
  "case createCodes sample_digest sample_payload_digest True t_created (sample_code None) None
      empty_redemption_store of
     (Inl e, _) \<Rightarrow> False
   | (Inr res, s') \<Rightarrow> (\<exists>c. res = Created [c] \<and> getByCode s' ''gIFT-1'' = Inr (Some c))"
proof -
  let ?run = "createCodes sample_digest sample_payload_digest True t_created (sample_code None) None
      empty_redemption_store"
  have ok: "case ?run of (Inl e, _) \<Rightarrow> False | (Inr res, _) \<Rightarrow> True" by code_simp
  have same: "normalizeCode ''gIFT-1'' = normalizeCode (ci_code (sample_code None))" by code_simp
  obtain res s' where run: "?run = (Inr res, s')" using ok by (auto split: prod.splits sum.splits)
  from created_code_roundtrip [OF run same] show ?thesis by (auto simp: run)
qed

text \<open>
  The redemption of resource allowance is all or nothing. A redemption that throws leaves the
  grant-lot ledger as it was, whatever resources it had granted before, and the store too, but for
  the mark on a code found lapsed. A redemption that succeeds has, for every resource of the code with an amount, a
  lot of that amount in the workspace, granted as a redemption of this code, and only appended lots.
\<close>

theorem redeem_lots_all_or_nothing:
  assumes "redeem_lots digest inp now (s, g) = (r, (s', g'))"
    and "\<And>k c. map_of (rs_byCode s) k = Some c \<Longrightarrow> rd_id c \<noteq> []"
  shows "case r of
      Inl e \<Rightarrow> g' = g \<and> (s' = s \<or> (\<exists>k c. map_of (rs_byCode s) k = Some c \<and>
                 s' = put_code k (expire_code c) s \<and> rd_status c \<noteq> Redeemed))
    | Inr x \<Rightarrow> (\<exists>new. gs_lots g' = gs_lots g @ new) \<and>
        (\<forall>p \<in> set (rd_grants (rr_code x)). snd p \<noteq> JInt 0 \<longrightarrow>
           (\<exists>l \<in> set (gs_lots g'). redemption_lot_of inp (rr_code x) p l))"
proof -
  let ?cb = "lots_callback digest inp now"
  from assms(1) obtain g1 where run: "redeemAtomic inp now (Some ?cb) (s, g) = (r, (s', g1))"
      "g' = (case r of Inl e \<Rightarrow> g | Inr x \<Rightarrow> g1)"
    by (auto simp: redeem_lots_def ledger_runAtomically_def split: prod.splits sum.splits)
  from run(1) show ?thesis
  proof (cases rule: redeemAtomic_result)
    case (again k c f x)
    with run lots_callback_ok [of digest inp now c g x g1] assms(2) [of k c] show ?thesis
      by (cases r) (auto simp: redeem_result_of_def)
  next
    case (first k c f x)
    have "\<not> rd_id c = []" using assms(2) [OF first(2)] by simp
    with first run lots_callback_ok [of digest inp now "reserve_code inp now c" g x g1] show ?thesis
      by (simp add: redeem_result_of_def reserve_code_def record_grant_def redemption_lot_of_def
          split: option.splits)
  qed (use run in auto)
qed

definition sample_lot_store :: redemption_store where
  "sample_lot_store = snd (createCodes sample_digest sample_payload_digest False t_created
     ((sample_code None)\<lparr>ci_grants := [(Image, JInt 3), (Copy, JInt 5)], ci_credits := None\<rparr>) None
     empty_redemption_store)"

theorem redeem_lots_all_or_nothing_witness:
  "case redeem_lots sample_digest (sample_redeem ''w'') t_later (sample_lot_store, empty_grant_lot_ledger) of
     (Inl e, _) \<Rightarrow> False
   | (Inr x, (s', g')) \<Rightarrow>
       rd_grants (rr_code x) = [(Image, JInt 3), (Copy, JInt 5)] \<and>
       (\<exists>l \<in> set (gs_lots g'). redemption_lot_of (sample_redeem ''w'') (rr_code x) (Copy, JInt 5) l)"
proof -
  let ?run = "redeem_lots sample_digest (sample_redeem ''w'') t_later (sample_lot_store, empty_grant_lot_ledger)"
  have ok: "case ?run of (Inl e, _) \<Rightarrow> False
      | (Inr x, _) \<Rightarrow> rd_grants (rr_code x) = [(Image, JInt 3), (Copy, JInt 5)]" by code_simp
  have "list_all (\<lambda>(k, c). rd_id c \<noteq> []) (rs_byCode sample_lot_store)" by code_simp
  then have ids: "rd_id c \<noteq> []" if "map_of (rs_byCode sample_lot_store) k = Some c" for k c
    using map_of_SomeD [OF that] by (auto simp: list_all_iff)
  obtain x s' g' where run: "?run = (Inr x, (s', g'))" using ok by (auto split: prod.splits sum.splits)
  from redeem_lots_all_or_nothing [OF run ids] ok show ?thesis by (auto simp: run)
qed

text \<open>
  A command takes effect once. After a command of the store succeeded, and after anything
  else the store does, a call under the same scope and key runs nothing: with the same payload hash
  it returns the recorded result, with another one it is refused.
\<close>

theorem command_takes_effect_once:
  assumes "executeCommand (Some cmd) work s = (Inr res, s1)"
    and "store_step\<^sup>*\<^sup>* (s1, g1) (s2, g2)" and "command_key cmd' = command_key cmd"
  shows "executeCommand (Some cmd') work' s2 =
    (if sc_payloadHash cmd' = sc_payloadHash cmd then (Inr res, s2)
     else (Inl (P1DomainError IDEMPOTENCY_CONFLICT
            ''Redemption command key was reused with a different payload.''), s2))"
proof -
  have "map_of (rs_commandResults s2) (command_key cmd) = Some (sc_payloadHash cmd, res)"
    using store_run_log [OF assms(2)] executeCommand_recorded [OF assms(1)]
    by (cases "command_key cmd") (simp add: log_grows_def)
  with assms(3) show ?thesis by (auto simp: executeCommand_def command_key_def Let_def)
qed

theorem command_takes_effect_once_witness:
  "let inp = sample_code None
   in case createCodes sample_digest sample_payload_digest True t_created inp sample_command
             empty_redemption_store of
        (Inl e, _) \<Rightarrow> False
      | (Inr res, s1) \<Rightarrow>
          createCodes sample_digest sample_payload_digest True t_later inp sample_command s1 = (Inr res, s1)"
proof -
  let ?inp = "sample_code None"
  let ?run = "\<lambda>t. createCodes sample_digest sample_payload_digest True t ?inp sample_command"
  let ?cmd = "\<lparr>sc_identity = \<lparr>cm_scope = ''admin'', cm_idempotencyKey = ''k1''\<rparr>,
    sc_payloadHash = ''GIFT-1''\<rparr>"
  have ok: "case ?run t_created empty_redemption_store of (Inl e, _) \<Rightarrow> False | (Inr res, _) \<Rightarrow> True"
    by code_simp
  then obtain res s1 where run: "?run t_created empty_redemption_store = (Inr res, s1)"
    by (auto split: prod.splits sum.splits)
  have checks: "assert_code_input True ?inp = Inr ()" "normalizeCode (ci_code ?inp) = Inr ''GIFT-1''"
    "ci_createdAt ?inp = None" "assert_timestamp t_created ''createdAt'' = Inr ()"
    "assert_timestamp t_later ''createdAt'' = Inr ()" "ci_expiresAt ?inp = None"
    by code_simp+
  have unfold: "?run t = executeCommand (Some ?cmd)
      (createUnlocked [new_code sample_digest ?inp ''GIFT-1'' t])" if "t = t_created \<or> t = t_later" for t
    using that checks
    by (auto simp: createCodes_def guarded_def assert_code_expiry_def create_def store_command_of_def
        sample_command_def sample_payload_digest_def create_payload_of_def fun_eq_iff)
  have first: "executeCommand (Some ?cmd)
      (createUnlocked [new_code sample_digest ?inp ''GIFT-1'' t_created]) empty_redemption_store = (Inr res, s1)"
    using run unfold [of t_created] by simp
  from command_takes_effect_once [OF first rtranclp.rtrancl_refl [of store_step "(s1, ())"], of ?cmd]
  show ?thesis using run unfold [of t_later] by (simp add: Let_def)
qed

text \<open>
  An attempt to redeem a lapsed code takes its revision away from the administrator. Every
  attempt on a code whose expiry has passed fails, by whichever workspace, and counts its revision
  up, also when the code is marked as expired already; so a void with the revision read before the
  attempt is refused as a conflict, though such a code may be voided.
\<close>

theorem lapsed_attempt_defeats_void:
  assumes "normalizeCode (ri_code inp) = Inr key" and "map_of (rs_byCode s) key = Some c"
    and "rd_status c = Active \<or> rd_status c = Expired"
    and "rd_expiresAt c = Some e" and "e \<noteq> []" and "date_le e now"
  shows "let s' = put_code key (expire_code c) s
    in redeemAtomic inp now cb (s, g) =
         (Inl (P1DomainError INVALID_STATE ''Redemption code is expired.''), (s', g)) \<and>
       voidCode \<lparr>vi_code = ri_code inp, vi_expectedRevision = rd_revision c, vi_voidedAt = now\<rparr> None s' =
         (Inl (P1DomainError IDEMPOTENCY_CONFLICT ''Redemption code revision conflict.''), s')"
  using assms
  by (auto simp: redeemAtomic_def redeemUnlocked_def truthy_def Let_def voidCode_def executeCommand_def
      voidCodeUnlocked_def expire_code_def)

theorem lapsed_attempt_defeats_void_witness:
  "\<exists>e s'. voidCode \<lparr>vi_code = ''Gift-1'', vi_expectedRevision = 1, vi_voidedAt = t_later\<rparr> None
     (fst (snd (redeemAtomic (sample_redeem ''w'') t_later None
       (snd (createCodes sample_digest sample_payload_digest True t_created
          (sample_code (Some t_later)) None empty_redemption_store), ())))) = (Inl e, s')"
proof -
  let ?s = "snd (createCodes sample_digest sample_payload_digest True t_created
    (sample_code (Some t_later)) None empty_redemption_store)"
  have "case map_of (rs_byCode ?s) ''GIFT-1'' of None \<Rightarrow> False
      | Some c \<Rightarrow> rd_status c = Active \<and> rd_expiresAt c = Some t_later \<and> rd_revision c = 1"
    by code_simp
  then obtain c where c: "map_of (rs_byCode ?s) ''GIFT-1'' = Some c" "rd_status c = Active"
      "rd_expiresAt c = Some t_later" "rd_revision c = 1"
    by (auto split: option.splits)
  have k: "normalizeCode (ri_code (sample_redeem ''w'')) = Inr ''GIFT-1''" by code_simp
  have t: "t_later \<noteq> []" "date_le t_later t_later" by code_simp+
  show ?thesis
    using lapsed_attempt_defeats_void [OF k c(1) _ c(3) t, of None "()"] c(2,4)
    by (auto simp: Let_def sample_redeem_def)
qed

end
