(* ===== verification/FairQueue.thy ===== *)
theory FairQueue
  imports JsMap Domain
begin

text \<open>
  The fair queue of one supply account, \<^verbatim>\<open>entitlement-pools/fair-queue.ts\<close>: waiting requests of
  several product accounts, served by weighted fair share. The state of \<^verbatim>\<open>SupplyAccountFairQueue\<close>
  is the waiting array, the accounts served last (oldest first) and the map of their counts.
  Priorities and counts are integers; their products are exact while they stay below \<open>2 ^ 53\<close>.
\<close>

section \<open>Data\<close>

definition FAIR_QUEUE_SERVICE_TURN_WINDOW :: int where
  "FAIR_QUEUE_SERVICE_TURN_WINDOW = 256"

record fair_queue_entry =
  fe_requestId :: string
  fe_productAccountId :: string
  fe_workspaceId :: string
  fe_queuePriority :: int
  fe_enqueuedAt :: string

record enqueue_input =
  eq_requestId :: string
  eq_productAccountId :: string
  eq_workspaceId :: string
  eq_queuePriority :: js_number
  eq_enqueuedAt :: string

datatype dequeue_result = Queue_empty | Dequeued fair_queue_entry

record fair_queue =
  fq_supplyAccountId :: string
  fq_waiting :: "fair_queue_entry list"
  fq_serviceCounts :: "(string, int) js_map"
  fq_recentServed :: "string list"
  fq_maxRecentServed :: int

definition new_fair_queue :: "string \<Rightarrow> js_number option \<Rightarrow> fair_queue result" where
  "new_fair_queue supplyAccountId maxRecentServed =
     (let window = (case maxRecentServed of None \<Rightarrow> JInt FAIR_QUEUE_SERVICE_TURN_WINDOW | Some w \<Rightarrow> w)
      in r_bind (check (number_isInteger window \<and> int_of window > 0)
                  (P1DomainError INVALID_STATE ''maxRecentServed must be a positive integer.''))
           (\<lambda>_. Inr \<lparr>fq_supplyAccountId = supplyAccountId, fq_waiting = [], fq_serviceCounts = [],
                     fq_recentServed = [], fq_maxRecentServed = int_of window\<rparr>))"

section \<open>Order\<close>

definition service_count :: "(string, int) js_map \<Rightarrow> string \<Rightarrow> int" where
  "service_count counts a = (case map_of counts a of None \<Rightarrow> 0 | Some n \<Rightarrow> n)"

definition compareFairQueueOrder ::
    "(string, int) js_map \<Rightarrow> fair_queue_entry \<Rightarrow> fair_queue_entry \<Rightarrow> int option" where
  "compareFairQueueOrder counts l r =
     (let leftWeight = fe_queuePriority l + 1;
          rightWeight = fe_queuePriority r + 1;
          leftNextCount = service_count counts (fe_productAccountId l) + 1;
          rightNextCount = service_count counts (fe_productAccountId r) + 1;
          normalizedComparison = leftNextCount * rightWeight - rightNextCount * leftWeight
      in if normalizedComparison \<noteq> 0 then Some normalizedComparison
         else if fe_queuePriority l \<noteq> fe_queuePriority r
         then Some (fe_queuePriority r - fe_queuePriority l)
         else case num_sub (date_parse (fe_enqueuedAt l)) (date_parse (fe_enqueuedAt r)) of
                None \<Rightarrow> None
              | Some byTime \<Rightarrow>
                  if byTime \<noteq> 0 then Some byTime
                  else Some (locale_compare (fe_requestId l) (fe_requestId r)))"

definition before :: "(string, int) js_map \<Rightarrow> fair_queue_entry \<Rightarrow> fair_queue_entry \<Rightarrow> bool" where
  "before counts l r = (case compareFairQueueOrder counts l r of None \<Rightarrow> False | Some d \<Rightarrow> d < 0)"

section \<open>Operations\<close>

definition enqueue :: "enqueue_input \<Rightarrow> (fair_queue, fair_queue_entry) op" where
  "enqueue inp =
     guarded (check (\<not> blank (eq_requestId inp) \<and> \<not> blank (eq_productAccountId inp) \<and>
                     \<not> blank (eq_workspaceId inp))
                (P1DomainError INVALID_STATE
                   ''Fair queue entry requires requestId, productAccountId, and workspaceId.'')) (\<lambda>_.
     guarded (check (number_isInteger (eq_queuePriority inp) \<and> int_of (eq_queuePriority inp) \<ge> 0)
                (P1DomainError INVALID_STATE ''queuePriority must be a non-negative integer.'')) (\<lambda>_ q.
       if list_ex (\<lambda>e. fe_requestId e = eq_requestId inp) (fq_waiting q)
       then (Inl (P1DomainError IDEMPOTENCY_CONFLICT
              (''Fair queue already holds request '' @ eq_requestId inp @ ''.'')), q)
       else let entry = \<lparr>fe_requestId = eq_requestId inp,
                         fe_productAccountId = eq_productAccountId inp,
                         fe_workspaceId = eq_workspaceId inp,
                         fe_queuePriority = int_of (eq_queuePriority inp),
                         fe_enqueuedAt = eq_enqueuedAt inp\<rparr>
            in (Inr entry, q\<lparr>fq_waiting := fq_waiting q @ [entry]\<rparr>)))"

definition queue_size :: "fair_queue \<Rightarrow> nat" where
  "queue_size q = length (fq_waiting q)"

definition listWaiting :: "fair_queue \<Rightarrow> fair_queue_entry list" where
  "listWaiting q = fq_waiting q"

definition recentServiceSampleSize :: "fair_queue \<Rightarrow> nat" where
  "recentServiceSampleSize q = length (fq_recentServed q)"

definition snapshotServiceCounts :: "fair_queue \<Rightarrow> (string, int) js_map" where
  "snapshotServiceCounts q = fq_serviceCounts q"

text \<open>The scan for the best index: a later entry replaces the best one only when it is before it.\<close>

fun scan_best :: "('e \<Rightarrow> 'e \<Rightarrow> bool) \<Rightarrow> 'e list \<Rightarrow> nat list \<Rightarrow> nat \<Rightarrow> nat" where
  "scan_best ahead w [] best = best"
| "scan_best ahead w (i # is) best =
     scan_best ahead w is (if ahead (w ! i) (w ! best) then i else best)"

text \<open>The loop that shrinks the window to its size, oldest service first.\<close>

fun shrink_window :: "int \<Rightarrow> string list \<Rightarrow> (string, int) js_map \<Rightarrow> string list \<times> (string, int) js_map" where
  "shrink_window window [] counts = ([], counts)"
| "shrink_window window (oldest # recent) counts =
     (if int (length (oldest # recent)) > window
      then if oldest = [] then (recent, counts)
           else let n = (case map_of counts oldest of None \<Rightarrow> 1 | Some c \<Rightarrow> c) - 1
                in shrink_window window recent
                     (if n \<le> 0 then map_delete oldest counts else map_set oldest n counts)
      else (oldest # recent, counts))"

definition recordService :: "string \<Rightarrow> fair_queue \<Rightarrow> fair_queue" where
  "recordService a q =
     (let counts = map_set a (service_count (fq_serviceCounts q) a + 1) (fq_serviceCounts q);
          (recent, counts') = shrink_window (fq_maxRecentServed q) (fq_recentServed q @ [a]) counts
      in q\<lparr>fq_serviceCounts := counts', fq_recentServed := recent\<rparr>)"

definition remove_at :: "nat \<Rightarrow> 'a list \<Rightarrow> 'a list" where
  "remove_at i xs = take i xs @ drop (Suc i) xs"

definition dequeue :: "fair_queue \<Rightarrow> dequeue_result \<times> fair_queue" where
  "dequeue q =
     (if fq_waiting q = [] then (Queue_empty, q)
      else let w = fq_waiting q;
               i = scan_best (before (fq_serviceCounts q)) w [1..<length w] 0
           in (Dequeued (w ! i),
               recordService (fe_productAccountId (w ! i)) (q\<lparr>fq_waiting := remove_at i w\<rparr>)))"

fun drain_loop :: "nat \<Rightarrow> (string, int) js_map \<Rightarrow> fair_queue \<Rightarrow> (string, int) js_map \<times> fair_queue" where
  "drain_loop 0 counts q = (counts, q)"
| "drain_loop (Suc n) counts q =
     (case dequeue q of
        (Queue_empty, q') \<Rightarrow> (counts, q')
      | (Dequeued e, q') \<Rightarrow>
          drain_loop n (map_set (fe_productAccountId e)
            (service_count counts (fe_productAccountId e) + 1) counts) q')"

definition drainServiceCounts :: "nat \<Rightarrow> fair_queue \<Rightarrow> (string, int) js_map \<times> fair_queue" where
  "drainServiceCounts maxDequeues q = drain_loop maxDequeues [] q"

end
