(* ===== verification/FairQueueCorrect.thy ===== *)
theory FairQueueCorrect
  imports FairQueue Complex_Main
begin

text \<open>
  Lemmas and properties of the fair queue: the window of recent services and its counts, the entry
  a dequeue serves, and when an account is, or is not, served while others keep the queue busy.
\<close>

section \<open>The scan finds a least entry\<close>

text \<open>
  A scan only needs that its test agrees with a key as far as it goes: an entry ahead of another
  has no greater key, and an entry with a smaller key is ahead.
\<close>

locale scan_order =
  fixes ahead :: "'e \<Rightarrow> 'e \<Rightarrow> bool"
    and key :: "'e \<Rightarrow> 'k::linorder"
    and ok :: "'e \<Rightarrow> bool"
  assumes ahead_le: "ok x \<Longrightarrow> ok y \<Longrightarrow> ahead x y \<Longrightarrow> key x \<le> key y"
    and less_ahead: "ok x \<Longrightarrow> ok y \<Longrightarrow> key x < key y \<Longrightarrow> ahead x y"
begin

lemma scan_least:
  assumes "best < length w" and "\<forall>i \<in> set is. i < length w" and "\<forall>x \<in> set w. ok x"
  shows "scan_best ahead w is best < length w \<and>
    (\<forall>i \<in> insert best (set is). key (w ! scan_best ahead w is best) \<le> key (w ! i))"
  using assms
proof (induction "is" arbitrary: best)
  case (Cons i rest)
  let ?b = "if ahead (w ! i) (w ! best) then i else best"
  have ok: "ok (w ! i)" "ok (w ! best)" using Cons.prems by auto
  have "key (w ! ?b) \<le> key (w ! i) \<and> key (w ! ?b) \<le> key (w ! best)"
    using ahead_le [OF ok] less_ahead [OF ok] by (cases "ahead (w ! i) (w ! best)") (auto simp: not_less [symmetric])
  moreover have "?b < length w" using Cons.prems by simp
  from Cons.IH [OF this] Cons.prems
  have "scan_best ahead w rest ?b < length w"
    "\<forall>j \<in> insert ?b (set rest). key (w ! scan_best ahead w rest ?b) \<le> key (w ! j)" by auto
  ultimately show ?case by (auto intro: order_trans)
qed simp

lemma scan_all:
  assumes "w \<noteq> []" and "\<forall>x \<in> set w. ok x"
  shows "scan_best ahead w [1..<length w] 0 < length w \<and>
    (\<forall>x \<in> set w. key (w ! scan_best ahead w [1..<length w] 0) \<le> key x)"
proof -
  have all: "insert 0 (set [1..<length w]) = {..<length w}" using assms(1) by (auto simp: neq_Nil_conv)
  have "\<forall>i \<in> set [1..<length w]. i < length w" by simp
  from scan_least [OF _ this assms(2), of 0] assms(1)
  have "scan_best ahead w [1..<length w] 0 < length w"
    "\<forall>i \<in> insert 0 (set [1..<length w]). key (w ! scan_best ahead w [1..<length w] 0) \<le> key (w ! i)"
    by blast+
  then show ?thesis unfolding all by (metis in_set_conv_nth lessThan_iff)
qed

end

text \<open>
  The share of an entry: its next count over its weight, then the priority. It decides the order
  except for ties, which the time of arrival and the request break when the times parse.
\<close>

definition share_key :: "(string, int) js_map \<Rightarrow> fair_queue_entry \<Rightarrow> rat \<times> int" where
  "share_key counts e =
     (of_int (service_count counts (fe_productAccountId e) + 1) / of_int (fe_queuePriority e + 1),
      - fe_queuePriority e)"

definition arrival_key :: "fair_queue_entry \<Rightarrow> int \<times> (nat list \<times> nat list)" where
  "arrival_key e = (the (date_parse (fe_enqueuedAt e)), collation_key (fe_requestId e))"

lemma of_int_div_less: "0 < b \<Longrightarrow> 0 < d \<Longrightarrow> of_int a / of_int b < (of_int c / of_int d :: rat) \<longleftrightarrow> a * d < c * b"
  by (simp add: divide_simps mult.commute flip: of_int_mult)

lemma of_int_div_eq: "0 < b \<Longrightarrow> 0 < d \<Longrightarrow> of_int a / of_int b = (of_int c / of_int d :: rat) \<longleftrightarrow> a * d = c * b"
  by (simp add: divide_simps mult.commute flip: of_int_mult)

lemma before_iff:
  assumes "0 \<le> fe_queuePriority l" "0 \<le> fe_queuePriority r"
  shows "before counts l r \<longleftrightarrow> share_key counts l < share_key counts r \<or>
    share_key counts l = share_key counts r \<and>
      (case num_sub (date_parse (fe_enqueuedAt l)) (date_parse (fe_enqueuedAt r)) of
         None \<Rightarrow> False
       | Some d \<Rightarrow> d < 0 \<or> d = 0 \<and> locale_compare (fe_requestId l) (fe_requestId r) < 0)"
proof -
  let ?c = "\<lambda>e. service_count counts (fe_productAccountId e) + 1"
  let ?p = "\<lambda>e. fe_queuePriority e + 1"
  have pos: "0 < ?p l" "0 < ?p r" using assms by simp_all
  show ?thesis
    using of_int_div_less [OF pos, of "?c l" "?c r"] of_int_div_eq [OF pos, of "?c l" "?c r"]
    by (auto simp: before_def compareFairQueueOrder_def share_key_def Let_def less_prod_def
        split: option.splits)
qed

definition full_key :: "(string, int) js_map \<Rightarrow> fair_queue_entry \<Rightarrow> (rat \<times> int) \<times> int \<times> (nat list \<times> nat list)" where
  "full_key counts e = (share_key counts e, arrival_key e)"

definition entry_ok :: "fair_queue_entry \<Rightarrow> bool" where
  "entry_ok e \<longleftrightarrow> 0 \<le> fe_queuePriority e \<and> date_parse (fe_enqueuedAt e) \<noteq> None"

lemma before_full_iff:
  assumes "entry_ok x" "entry_ok y"
  shows "before counts x y \<longleftrightarrow> full_key counts x < full_key counts y"
proof -
  obtain a b where ab: "date_parse (fe_enqueuedAt x) = Some a" "date_parse (fe_enqueuedAt y) = Some b"
    using assms by (auto simp: entry_ok_def)
  then show ?thesis
    using assms locale_compare_ge_iff [of "fe_requestId x" "fe_requestId y"]
    by (auto simp: before_iff entry_ok_def arrival_key_def full_key_def not_le [symmetric])
qed

interpretation share: scan_order "before counts" "share_key counts" "\<lambda>e. 0 \<le> fe_queuePriority e"
  for counts
  by unfold_locales (auto simp: before_iff)

interpretation arrival: scan_order "before counts" "full_key counts" entry_ok
  for counts
  by unfold_locales (auto simp: before_full_iff)

section \<open>The window of recent services\<close>

definition last_n :: "nat \<Rightarrow> 'a list \<Rightarrow> 'a list" where
  "last_n n xs = drop (length xs - n) xs"

lemma last_n_snoc:
  "0 < n \<Longrightarrow> last_n n (xs @ [x]) = (if n \<le> length (last_n n xs) then tl (last_n n xs) @ [x] else last_n n xs @ [x])"
  by (auto simp: last_n_def Suc_diff_le drop_Suc tl_drop [symmetric] not_le)

lemma shrink_window_id:
  "int (length recent) \<le> window \<Longrightarrow> shrink_window window recent counts = (recent, counts)"
  by (cases recent) auto

lemma service_count_set [simp]:
  "service_count (map_set a n counts) b = (if b = a then n else service_count counts b)"
  by (simp add: service_count_def)

lemma service_count_delete [simp]:
  "service_count (map_delete a counts) b = (if b = a then 0 else service_count counts b)"
  by (simp add: service_count_def)

text \<open>The counts are those of the window, whose accounts have names.\<close>

definition counts_ok :: "string list \<Rightarrow> (string, int) js_map \<Rightarrow> bool" where
  "counts_ok recent counts \<longleftrightarrow>
     [] \<notin> set recent \<and> (\<forall>a. service_count counts a = int (count_list recent a))"

lemma shrink_window_one:
  assumes "counts_ok (oldest # recent) counts" and "int (length recent) = window"
  shows "\<exists>counts'. shrink_window window (oldest # recent) counts = (recent, counts') \<and> counts_ok recent counts'"
proof -
  let ?n = "(case map_of counts oldest of None \<Rightarrow> 1 | Some c \<Rightarrow> c) - 1"
  let ?counts = "if ?n \<le> 0 then map_delete oldest counts else map_set oldest ?n counts"
  have count: "service_count counts oldest = int (count_list recent oldest) + 1"
    using assms(1) by (simp add: counts_ok_def)
  then have n: "?n = int (count_list recent oldest)"
    by (auto simp: service_count_def split: option.splits)
  have "shrink_window window (oldest # recent) counts = shrink_window window recent ?counts"
    using assms by (auto simp: counts_ok_def Let_def)
  then have "shrink_window window (oldest # recent) counts = (recent, ?counts)"
    using assms(2) shrink_window_id [of recent window ?counts] by simp
  moreover have "counts_ok recent ?counts"
    using assms(1) unfolding n by (auto simp: counts_ok_def)
  ultimately show ?thesis by blast
qed

text \<open>The state of a queue that served the accounts of a history.\<close>

definition queue_inv :: "string list \<Rightarrow> fair_queue \<Rightarrow> bool" where
  "queue_inv history q \<longleftrightarrow>
     0 < fq_maxRecentServed q \<and>
     fq_recentServed q = last_n (nat (fq_maxRecentServed q)) history \<and>
     counts_ok (fq_recentServed q) (fq_serviceCounts q) \<and>
     distinct (map fe_requestId (fq_waiting q)) \<and>
     (\<forall>e \<in> set (fq_waiting q). 0 \<le> fe_queuePriority e \<and> fe_productAccountId e \<noteq> [])"

lemma new_fair_queue_inv: "new_fair_queue i w = Inr q \<Longrightarrow> queue_inv [] q"
  by (auto simp: new_fair_queue_def r_bind_Inr_iff Let_def queue_inv_def last_n_def counts_ok_def
      service_count_def split: if_splits)

lemma recordService_inv:
  assumes inv: "queue_inv history q" and a: "a \<noteq> []"
  shows "queue_inv (history @ [a]) (recordService a q)"
proof -
  let ?w = "fq_maxRecentServed q"
  let ?counts = "map_set a (service_count (fq_serviceCounts q) a + 1) (fq_serviceCounts q)"
  let ?recent = "fq_recentServed q @ [a]"
  have pos: "0 < ?w" and recent: "fq_recentServed q = last_n (nat ?w) history"
    using inv by (simp_all add: queue_inv_def)
  have ok: "counts_ok ?recent ?counts"
    using inv a by (auto simp: queue_inv_def counts_ok_def)
  have len: "int (length (fq_recentServed q)) \<le> ?w" using pos by (simp add: recent last_n_def)
  have "\<exists>counts'. shrink_window ?w ?recent ?counts = (last_n (nat ?w) (history @ [a]), counts') \<and>
      counts_ok (last_n (nat ?w) (history @ [a])) counts'"
  proof (cases "int (length (fq_recentServed q)) = ?w")
    case True
    then obtain x xs where x: "fq_recentServed q = x # xs" using pos by (cases "fq_recentServed q") auto
    have "nat ?w = length (last_n (nat ?w) history)" using True recent by simp
    then have last: "last_n (nat ?w) (history @ [a]) = xs @ [a]"
      using last_n_snoc [of "nat ?w" history a] pos x recent by simp
    show ?thesis
      using shrink_window_one [of x "xs @ [a]" ?counts ?w] ok True x by (simp add: last)
  next
    case False
    with len have "int (length ?recent) \<le> ?w" by simp
    moreover have "length (fq_recentServed q) < nat ?w" using False len by linarith
    then have "\<not> nat ?w \<le> length (last_n (nat ?w) history)" unfolding recent by simp
    then have "last_n (nat ?w) (history @ [a]) = ?recent"
      using last_n_snoc [of "nat ?w" history a] pos recent by simp
    ultimately show ?thesis using ok shrink_window_id [of ?recent ?w ?counts] by simp
  qed
  with inv show ?thesis by (auto simp: recordService_def queue_inv_def Let_def)
qed

lemma queue_inv_waiting:
  "queue_inv history q \<Longrightarrow> distinct (map fe_requestId w) \<Longrightarrow>
    \<forall>e \<in> set w. 0 \<le> fe_queuePriority e \<and> fe_productAccountId e \<noteq> [] \<Longrightarrow>
    queue_inv history (q\<lparr>fq_waiting := w\<rparr>)"
  by (auto simp: queue_inv_def)

lemma enqueue_result:
  assumes "enqueue inp q = (r, q')"
  obtains (refused) e where "r = Inl e" "q' = q"
  | (queued) x where "r = Inr x" "q' = q\<lparr>fq_waiting := fq_waiting q @ [x]\<rparr>"
      "fe_requestId x = eq_requestId inp" "fe_productAccountId x = eq_productAccountId inp"
      "eq_queuePriority inp = JInt (fe_queuePriority x)" "0 \<le> fe_queuePriority x"
      "fe_productAccountId x \<noteq> []" "fe_requestId x \<notin> fe_requestId ` set (fq_waiting q)"
proof (cases "\<exists>e. r = Inl e \<and> q' = q")
  case False
  let ?x = "\<lparr>fe_requestId = eq_requestId inp, fe_productAccountId = eq_productAccountId inp,
    fe_workspaceId = eq_workspaceId inp, fe_queuePriority = int_of (eq_queuePriority inp),
    fe_enqueuedAt = eq_enqueuedAt inp\<rparr>"
  from False assms have run: "r = Inr ?x" "q' = q\<lparr>fq_waiting := fq_waiting q @ [?x]\<rparr>"
    and ok: "\<not> blank (eq_productAccountId inp)" "number_isInteger (eq_queuePriority inp)"
      "0 \<le> int_of (eq_queuePriority inp)"
      "\<not> list_ex (\<lambda>e. fe_requestId e = eq_requestId inp) (fq_waiting q)"
    by (auto simp: enqueue_def Let_def split: if_splits)
  from ok(1) have "eq_productAccountId inp \<noteq> []" by (auto simp: blank_iff)
  with run ok show thesis
    by (intro queued [of ?x]) (auto simp: number_isInteger_iff list_ex_iff)
qed (use refused in blast)

lemma enqueue_inv:
  assumes "queue_inv history q"
  shows "queue_inv history (snd (enqueue inp q))"
proof -
  obtain r q' where run: "enqueue inp q = (r, q')" by (cases "enqueue inp q")
  then have "queue_inv history q'"
    by (cases rule: enqueue_result) (use assms in \<open>auto simp: queue_inv_def\<close>)
  with run show ?thesis by simp
qed

lemma remove_at_split: "i < length xs \<Longrightarrow> xs = take i xs @ xs ! i # drop (Suc i) xs"
  by (rule id_take_nth_drop)

lemma set_remove_at: "set (remove_at i xs) \<subseteq> set xs"
  by (auto simp: remove_at_def dest: in_set_takeD in_set_dropD)

lemma mset_remove_at:
  assumes "i < length xs"
  shows "add_mset (xs ! i) (mset (remove_at i xs)) = mset xs"
proof -
  have "mset xs = mset (take i xs @ xs ! i # drop (Suc i) xs)"
    using remove_at_split [OF assms] by simp
  then show ?thesis by (simp add: remove_at_def)
qed

lemma dequeue_result:
  assumes "dequeue q = (r, q')" and inv: "queue_inv history q"
  obtains (empty) "r = Queue_empty" "q' = q" "fq_waiting q = []"
  | (served) e where "r = Dequeued e" "e \<in> set (fq_waiting q)"
      "\<forall>x \<in> set (fq_waiting q). share_key (fq_serviceCounts q) e \<le> share_key (fq_serviceCounts q) x"
      "queue_inv (history @ [fe_productAccountId e]) q'"
      "add_mset e (mset (fq_waiting q')) = mset (fq_waiting q)"
      "fq_maxRecentServed q' = fq_maxRecentServed q"
      "(\<forall>x \<in> set (fq_waiting q). date_parse (fe_enqueuedAt x) \<noteq> None) \<Longrightarrow>
         \<forall>x \<in> set (fq_waiting q). \<not> before (fq_serviceCounts q) x e"
proof (cases "fq_waiting q = []")
  case True
  with assms(1) empty show thesis by (simp add: dequeue_def)
next
  case False
  let ?w = "fq_waiting q"
  let ?i = "scan_best (before (fq_serviceCounts q)) ?w [1..<length ?w] 0"
  let ?q = "q\<lparr>fq_waiting := remove_at ?i ?w\<rparr>"
  have prio: "\<forall>x \<in> set ?w. 0 \<le> fe_queuePriority x" using inv by (simp add: queue_inv_def)
  from share.scan_all [OF False prio] have i: "?i < length ?w"
    and least: "\<forall>x \<in> set ?w. share_key (fq_serviceCounts q) (?w ! ?i) \<le> share_key (fq_serviceCounts q) x"
    by auto
  have run: "r = Dequeued (?w ! ?i)" "q' = recordService (fe_productAccountId (?w ! ?i)) ?q"
    using assms(1) False by (auto simp: dequeue_def Let_def)
  have "mset (map fe_requestId (?w ! ?i # remove_at ?i ?w)) = mset (map fe_requestId ?w)"
    unfolding mset_map using mset_remove_at [OF i] by simp
  then have "distinct (map fe_requestId (?w ! ?i # remove_at ?i ?w))"
    using inv mset_eq_imp_distinct_iff unfolding queue_inv_def by blast
  then have "distinct (map fe_requestId (remove_at ?i ?w))" by simp
  then have "queue_inv history ?q"
    using inv set_remove_at [of ?i ?w] by (intro queue_inv_waiting) (auto simp: queue_inv_def)
  moreover have "fe_productAccountId (?w ! ?i) \<noteq> []" using inv i by (simp add: queue_inv_def)
  ultimately have "queue_inv (history @ [fe_productAccountId (?w ! ?i)]) q'"
    unfolding run(2) by (rule recordService_inv)
  moreover have "fq_waiting q' = remove_at ?i ?w" "fq_maxRecentServed q' = fq_maxRecentServed q"
    unfolding run(2) by (auto simp: recordService_def Let_def split: prod.splits)
  moreover have "\<forall>x \<in> set ?w. \<not> before (fq_serviceCounts q) x (?w ! ?i)"
    if dates: "\<forall>x \<in> set ?w. date_parse (fe_enqueuedAt x) \<noteq> None"
  proof
    fix x assume x: "x \<in> set ?w"
    have ok: "\<forall>x \<in> set ?w. entry_ok x" using prio dates by (simp add: entry_ok_def)
    with arrival.scan_all [OF False ok] x
    have "full_key (fq_serviceCounts q) (?w ! ?i) \<le> full_key (fq_serviceCounts q) x" by blast
    with ok x i show "\<not> before (fq_serviceCounts q) x (?w ! ?i)" by (simp add: before_full_iff)
  qed
  ultimately show thesis using i least mset_remove_at [OF i] run(1) by (intro served [of "?w ! ?i"]) auto
qed

section \<open>Runs of the queue\<close>

text \<open>A sequence of calls, and the entries its dequeues serve.\<close>

datatype queue_op = Enq enqueue_input | Deq

fun queue_run :: "queue_op list \<Rightarrow> fair_queue \<Rightarrow> fair_queue_entry list \<times> fair_queue" where
  "queue_run [] q = ([], q)"
| "queue_run (Enq inp # ops) q = queue_run ops (snd (enqueue inp q))"
| "queue_run (Deq # ops) q =
     (case dequeue q of
        (Queue_empty, q') \<Rightarrow> queue_run ops q'
      | (Dequeued e, q') \<Rightarrow> (let (es, q'') = queue_run ops q' in (e # es, q'')))"

fun dequeues :: "queue_op list \<Rightarrow> nat" where
  "dequeues [] = 0"
| "dequeues (Enq _ # ops) = dequeues ops"
| "dequeues (Deq # ops) = Suc (dequeues ops)"

lemma enqueue_window [simp]: "fq_maxRecentServed (snd (enqueue inp q)) = fq_maxRecentServed q"
proof -
  obtain r q' where run: "enqueue inp q = (r, q')" by (cases "enqueue inp q")
  then have "fq_maxRecentServed q' = fq_maxRecentServed q" by (cases rule: enqueue_result) auto
  with run show ?thesis by simp
qed

lemma queue_run_inv:
  "queue_run ops q = (es, q') \<Longrightarrow> queue_inv history q \<Longrightarrow>
    queue_inv (history @ map fe_productAccountId es) q' \<and> fq_maxRecentServed q' = fq_maxRecentServed q"
proof (induction ops arbitrary: q es history)
  case (Cons x ops)
  show ?case
  proof (cases x)
    case (Enq inp)
    with Cons enqueue_inv show ?thesis by fastforce
  next
    case Deq
    obtain r q1 where d: "dequeue q = (r, q1)" by (cases "dequeue q")
    from d Cons.prems(2) show ?thesis
    proof (cases rule: dequeue_result)
      case empty
      with Deq d Cons show ?thesis by simp
    next
      case (served e)
      with Deq d Cons.prems obtain es' where es: "es = e # es'" "queue_run ops q1 = (es', q')"
        by (auto split: prod.splits)
      from Cons.IH [OF es(2) served(4)] served(6) es(1) show ?thesis by simp
    qed
  qed
qed simp

section \<open>When a waiting account is served\<close>

definition beats :: "string list \<Rightarrow> fair_queue_entry \<Rightarrow> fair_queue_entry \<Rightarrow> bool" where
  "beats recent x e \<longleftrightarrow>
     int (count_list recent (fe_productAccountId x) + 1) * (fe_queuePriority e + 1) \<le>
     int (count_list recent (fe_productAccountId e) + 1) * (fe_queuePriority x + 1)"

lemma share_le_beats:
  assumes "share_key counts x \<le> share_key counts e" and "0 \<le> fe_queuePriority x" "0 \<le> fe_queuePriority e"
    and "\<And>a. service_count counts a = int (count_list recent a)"
  shows "beats recent x e"
proof -
  let ?n = "\<lambda>e. int (count_list recent (fe_productAccountId e) + 1)"
  let ?p = "\<lambda>e. fe_queuePriority e + 1"
  have "fst (share_key counts x) \<le> fst (share_key counts e)"
    using assms(1) by (auto simp: less_eq_prod_def)
  then have "of_int (?n x) / of_int (?p x) \<le> (of_int (?n e) / of_int (?p e) :: rat)"
    by (simp add: share_key_def assms(4) add.commute)
  then have "\<not> of_int (?n e) / of_int (?p e) < (of_int (?n x) / of_int (?p x) :: rat)" by simp
  then show ?thesis
    using of_int_div_less [of "?p e" "?p x" "?n e" "?n x"] assms(2,3) by (simp add: beats_def)
qed

text \<open>
  While an entry waits and its account is not served, no dequeue finds the queue empty, and every
  entry served had at least as good a claim.
\<close>

lemma served_beats:
  assumes "queue_inv history q" and "x \<in> set (fq_waiting q)" and "e \<in> set (fq_waiting q)"
    and "share_key (fq_serviceCounts q) x \<le> share_key (fq_serviceCounts q) e"
  shows "beats (last_n (nat (fq_maxRecentServed q)) history) x e"
proof (rule share_le_beats [OF assms(4)])
  show "0 \<le> fe_queuePriority x" "0 \<le> fe_queuePriority e"
    using assms(1-3) by (simp_all add: queue_inv_def)
  show "service_count (fq_serviceCounts q) a =
      int (count_list (last_n (nat (fq_maxRecentServed q)) history) a)" for a
    using assms(1) by (metis queue_inv_def counts_ok_def)
qed

text \<open>Within an account the higher priority goes first.\<close>

lemma beats_same_account:
  assumes "beats recent x e" and "fe_productAccountId x = fe_productAccountId e"
  shows "fe_queuePriority e \<le> fe_queuePriority x"
proof -
  have "int (count_list recent (fe_productAccountId e) + 1) * (fe_queuePriority e + 1)
      \<le> int (count_list recent (fe_productAccountId e) + 1) * (fe_queuePriority x + 1)"
    using assms by (simp add: beats_def)
  then show ?thesis by (subst (asm) mult_le_cancel_left_pos) simp_all
qed

lemma first_of_account:
  assumes "queue_run ops q = (es, q')" and "queue_inv history q" and "e \<in> set (fq_waiting q)"
    and "fe_productAccountId e \<in> fe_productAccountId ` set es"
  shows "\<exists>x \<in> set es. fe_productAccountId x = fe_productAccountId e \<and> fe_queuePriority e \<le> fe_queuePriority x"
  using assms
proof (induction ops arbitrary: q es history)
  case (Cons y ops)
  show ?case
  proof (cases y)
    case (Enq inp)
    obtain r q1 where run: "enqueue inp q = (r, q1)" by (cases "enqueue inp q")
    then have "e \<in> set (fq_waiting q1)"
      by (cases rule: enqueue_result) (use Cons.prems(3) in auto)
    moreover have "queue_inv history q1" using enqueue_inv [OF Cons.prems(2), of inp] run by simp
    ultimately show ?thesis using Cons.IH [of q1 es history] Cons.prems(1,4) Enq run by simp
  next
    case Deq
    obtain r q1 where d: "dequeue q = (r, q1)" by (cases "dequeue q")
    from d Cons.prems(2) show ?thesis
    proof (cases rule: dequeue_result)
      case empty
      with Cons.prems(3) show ?thesis by simp
    next
      case (served x)
      with Deq d Cons.prems(1) obtain es' where es: "es = x # es'" "queue_run ops q1 = (es', q')"
        by (auto split: prod.splits)
      show ?thesis
      proof (cases "fe_productAccountId x = fe_productAccountId e")
        case True
        have "beats (last_n (nat (fq_maxRecentServed q)) history) x e"
          by (rule served_beats [OF Cons.prems(2) served(2) Cons.prems(3)]) (use served(3) Cons.prems(3) in blast)
        with beats_same_account True es(1) show ?thesis by auto
      next
        case False
        have "set (fq_waiting q) = insert x (set (fq_waiting q1))"
          using arg_cong [OF served(5), of set_mset] by simp
        with False Cons.prems(3) have "e \<in> set (fq_waiting q1)" by auto
        moreover have "fe_productAccountId e \<in> fe_productAccountId ` set es'" using Cons.prems(4) False es(1) by simp
        ultimately show ?thesis using Cons.IH [OF es(2) served(4)] es(1) by auto
      qed
    qed
  qed
qed simp

lemma unserved_run:
  assumes "queue_run ops q = (es, q')" and "queue_inv history q" and "e \<in> set (fq_waiting q)"
    and "fe_productAccountId e \<notin> fe_productAccountId ` set es"
    and "\<forall>x \<in> set (fq_waiting q). ok x"
    and "\<forall>inp. Enq inp \<in> set ops \<longrightarrow> (\<forall>x. fe_productAccountId x = eq_productAccountId inp \<longrightarrow>
           JInt (fe_queuePriority x) = eq_queuePriority inp \<longrightarrow> ok x)"
  shows "length es = dequeues ops \<and> (\<forall>i < length es. ok (es ! i) \<and>
    beats (last_n (nat (fq_maxRecentServed q)) (history @ map fe_productAccountId (take i es))) (es ! i) e)"
  using assms
proof (induction ops arbitrary: q es history)
  case (Cons y ops)
  show ?case
  proof (cases y)
    case (Enq inp)
    obtain r q1 where run: "enqueue inp q = (r, q1)" by (cases "enqueue inp q")
    then have "e \<in> set (fq_waiting q1) \<and> (\<forall>x \<in> set (fq_waiting q1). ok x)"
    proof (cases rule: enqueue_result)
      case (queued x)
      with Cons.prems(6) Enq have "ok x" by auto
      with queued Cons.prems(3,5) show ?thesis by simp
    qed (use Cons.prems in simp)
    moreover have "queue_inv history q1" "fq_maxRecentServed q1 = fq_maxRecentServed q"
      using enqueue_inv [OF Cons.prems(2), of inp] enqueue_window [of inp q] run by simp_all
    ultimately show ?thesis
      using Cons.IH [of q1 es history] Cons.prems Enq run by simp
  next
    case Deq
    obtain r q1 where d: "dequeue q = (r, q1)" by (cases "dequeue q")
    from d Cons.prems(2) show ?thesis
    proof (cases rule: dequeue_result)
      case empty
      with Cons.prems(3) show ?thesis by simp
    next
      case (served x)
      with Deq d Cons.prems(1) obtain es' where es: "es = x # es'" "queue_run ops q1 = (es', q')"
        by (auto split: prod.splits)
      have "x \<noteq> e" using Cons.prems(4) es by auto
      have "set (fq_waiting q) = insert x (set (fq_waiting q1))"
        using arg_cong [OF served(5), of set_mset] by simp
      with \<open>x \<noteq> e\<close> Cons.prems(3) have e1: "e \<in> set (fq_waiting q1)"
        and sub: "set (fq_waiting q1) \<subseteq> set (fq_waiting q)" by auto
      have first: "beats (last_n (nat (fq_maxRecentServed q)) history) x e"
        by (rule served_beats [OF Cons.prems(2) served(2) Cons.prems(3)]) (use served(3) Cons.prems(3) in blast)
      have acc: "fe_productAccountId e \<notin> fe_productAccountId ` set es'"
        using Cons.prems(4) es(1) by simp
      have ok1: "\<forall>x \<in> set (fq_waiting q1). ok x" using Cons.prems(5) sub by blast
      have enq: "\<forall>inp. Enq inp \<in> set ops \<longrightarrow> (\<forall>x. fe_productAccountId x = eq_productAccountId inp \<longrightarrow>
          JInt (fe_queuePriority x) = eq_queuePriority inp \<longrightarrow> ok x)"
        using Cons.prems(6) by simp
      have rest: "length es' = dequeues ops \<and> (\<forall>i < length es'. ok (es' ! i) \<and>
          beats (last_n (nat (fq_maxRecentServed q))
            ((history @ [fe_productAccountId x]) @ map fe_productAccountId (take i es'))) (es' ! i) e)"
        using Cons.IH [OF es(2) served(4) e1 acc ok1 enq] served(6) by simp
      show ?thesis
      proof (intro conjI allI impI)
        show "length es = dequeues (y # ops)" using rest es(1) Deq by simp
        fix i assume i: "i < length es"
        show "ok (es ! i)" using rest es(1) i Cons.prems(5) served(2) by (cases i) auto
        show "beats (last_n (nat (fq_maxRecentServed q)) (history @ map fe_productAccountId (take i es)))
            (es ! i) e"
          using rest es(1) i first by (cases i) auto
      qed
    qed
  qed
qed simp

lemma last_n_take:
  "n \<le> i \<Longrightarrow> i \<le> length xs \<Longrightarrow> last_n n (ys @ take i xs) = take n (drop (i - n) xs)"
  by (simp add: last_n_def take_drop add.commute)

lemma count_take_last:
  assumes "a \<in> set xs"
  obtains t where "t < length xs" "xs ! t = a" "count_list xs a = count_list (take t xs) a + 1"
proof -
  obtain ys zs where xs: "xs = ys @ a # zs" "a \<notin> set zs" using split_list_last [OF assms] by blast
  then have "count_list zs a = 0" by (simp add: count_list_0_iff)
  with xs show thesis by (intro that [of "length ys"]) simp_all
qed

text \<open>
  The counting argument. In a sequence of services in which the services that follow the first
  \<open>n\<close> each find their account served at most \<open>lim a - 1\<close> times in the last \<open>n\<close>, the accounts of
  \<open>n\<close> consecutive services cannot have limits that add up to less than \<open>n\<close>.
\<close>

lemma window_limits:
  fixes lim :: "string \<Rightarrow> nat"
  assumes len: "2 * n \<le> length xs" and fin: "finite S" and sub: "set xs \<subseteq> S"
    and step: "\<And>i. n \<le> i \<Longrightarrow> i < length xs \<Longrightarrow>
      (count_list (take n (drop (i - n) xs)) (xs ! i) + 1) * q \<le> lim (xs ! i)"
  shows "n * q \<le> sum lim S"
proof -
  let ?w = "take n (drop n xs)"
  have lenw: "length ?w = n" using len by simp
  have bound: "count_list ?w a * q \<le> lim a" for a
  proof (cases "a \<in> set ?w")
    case False
    then have "count_list ?w a = 0" by (simp add: count_list_0_iff)
    then show ?thesis by simp
  next
    case True
    then obtain t where t: "t < n" "?w ! t = a" "count_list ?w a = count_list (take t ?w) a + 1"
      using count_take_last lenw by metis
    have "take n (drop t xs) = take (n - t) (drop t xs) @ take t ?w"
    proof -
      have "take n (drop t xs) = take (n - t) (drop t xs) @ drop (n - t) (take n (drop t xs))"
        by (metis append_take_drop_id min.absorb_iff2 diff_le_self take_take min.commute)
      also have "drop (n - t) (take n (drop t xs)) = take t ?w"
        using t(1) by (simp add: drop_take min_def)
      finally show ?thesis .
    qed
    then have "count_list (take t ?w) a \<le> count_list (take n (drop t xs)) a" by simp
    then have "count_list ?w a * q \<le> (count_list (take n (drop t xs)) a + 1) * q" using t(3) by simp
    also have "\<dots> \<le> lim a" using step [of "n + t"] t(1,2) len by simp
    finally show ?thesis .
  qed
  have "set ?w \<subseteq> S" using sub by (meson set_take_subset set_drop_subset subset_trans)
  then have "sum (count_list ?w) S = n" using sum_count_set [OF _ fin] lenw by metis
  then have "n * q = sum (count_list ?w) S * q" by simp
  also have "\<dots> = (\<Sum>a\<in>S. count_list ?w a * q)" by (rule sum_distrib_right)
  also have "\<dots> \<le> sum lim S" by (intro sum_mono bound)
  finally show ?thesis .
qed

end
