(* ===== verification/FairQueueProps.thy ===== *)
theory FairQueueProps
  imports FairQueueCorrect
begin

text \<open>The properties of the fair queue of a supply account.\<close>

section \<open>Sample calls\<close>

definition sample_entry :: "string \<Rightarrow> string \<Rightarrow> int \<Rightarrow> enqueue_input" where
  "sample_entry r a p =
     \<lparr> eq_requestId = r, eq_productAccountId = a, eq_workspaceId = ''w'', eq_queuePriority = JInt p,
       eq_enqueuedAt = ''2026-01-01T00:00:00.000Z'' \<rparr>"

definition sample_queue :: "js_number option \<Rightarrow> fair_queue" where
  "sample_queue w = \<lparr>fq_supplyAccountId = ''s'', fq_waiting = [], fq_serviceCounts = [],
     fq_recentServed = [], fq_maxRecentServed = (case w of None \<Rightarrow> 256 | Some n \<Rightarrow> int_of n)\<rparr>"

lemma sample_new:
  "new_fair_queue ''s'' (Some (JInt 2)) = Inr (sample_queue (Some (JInt 2)))"
  "new_fair_queue ''s'' None = Inr (sample_queue None)"
  by (simp_all add: new_fair_queue_def sample_queue_def FAIR_QUEUE_SERVICE_TURN_WINDOW_def)

definition sample_ops :: "queue_op list" where
  "sample_ops = [Enq (sample_entry ''r1'' ''a'' 0), Enq (sample_entry ''r2'' ''b'' 0),
     Enq (sample_entry ''r3'' ''a'' 0), Deq, Deq, Deq]"

section \<open>Properties\<close>

text \<open>
  C33. The window of services. After any calls on a new queue, the recorded services are the last
  \<open>maxRecentServed\<close> accounts the dequeues served, the count of every account is its number of
  occurrences among them, so history never grows past the window, and no two waiting entries
  share a request.
\<close>

theorem fair_queue_window:
  assumes "new_fair_queue i w = Inr q0" and "queue_run ops q0 = (es, q)"
  shows "fq_recentServed q = last_n (nat (fq_maxRecentServed q0)) (map fe_productAccountId es) \<and>
    (\<forall>a. service_count (fq_serviceCounts q) a = int (count_list (fq_recentServed q) a)) \<and>
    int (length (fq_recentServed q)) \<le> fq_maxRecentServed q0 \<and>
    distinct (map fe_requestId (fq_waiting q))"
proof -
  have "queue_inv (map fe_productAccountId es) q \<and> fq_maxRecentServed q = fq_maxRecentServed q0"
    using queue_run_inv [OF assms(2) new_fair_queue_inv [OF assms(1)]] by simp
  then show ?thesis by (auto simp: queue_inv_def counts_ok_def last_n_def)
qed

theorem fair_queue_window_witness:
  "fq_recentServed (snd (queue_run sample_ops (sample_queue (Some (JInt 2))))) = [''b'', ''a'']"
proof -
  have "last_n 2 (map fe_productAccountId (fst (queue_run sample_ops (sample_queue (Some (JInt 2)))))) =
      [''b'', ''a'']" by code_simp
  with fair_queue_window [OF sample_new(1) prod.collapse [symmetric], of sample_ops]
  show ?thesis by (simp add: sample_queue_def)
qed

text \<open>
  A dequeue serves the first entry of the fair order. On a queue reached from a new one whose
  waiting entries carry timestamps that parse, a dequeue of a non-empty queue serves an entry that no
  waiting entry precedes under \<^verbatim>\<open>compareFairQueueOrder\<close>, removes it and no other, and counts one
  service of its account; it finds nothing exactly when nothing waits.
\<close>

theorem dequeue_serves_first:
  assumes "new_fair_queue i w = Inr q0" and "queue_run ops q0 = (es, q)"
    and "\<forall>x \<in> set (fq_waiting q). date_parse (fe_enqueuedAt x) \<noteq> None"
  shows "case fst (dequeue q) of
      Queue_empty \<Rightarrow> fq_waiting q = [] \<and> snd (dequeue q) = q
    | Dequeued e \<Rightarrow> e \<in> set (fq_waiting q) \<and>
        (\<forall>x \<in> set (fq_waiting q). \<not> before (fq_serviceCounts q) x e) \<and>
        add_mset e (mset (fq_waiting (snd (dequeue q)))) = mset (fq_waiting q) \<and>
        fq_recentServed (snd (dequeue q)) =
          last_n (nat (fq_maxRecentServed q0)) (map fe_productAccountId es @ [fe_productAccountId e])"
proof -
  have inv: "queue_inv (map fe_productAccountId es) q" and w: "fq_maxRecentServed q = fq_maxRecentServed q0"
    using queue_run_inv [OF assms(2) new_fair_queue_inv [OF assms(1)]] by simp_all
  obtain r q' where run: "dequeue q = (r, q')" by (cases "dequeue q")
  from run inv show ?thesis
  proof (cases rule: dequeue_result)
    case empty
    with run show ?thesis by simp
  next
    case (served e)
    from served(7) [OF assms(3)] served(1,2,4-6) w run show ?thesis
      by (simp add: queue_inv_def)
  qed
qed

theorem dequeue_serves_first_witness:
  "\<exists>e. fst (dequeue (snd (queue_run (butlast sample_ops) (sample_queue (Some (JInt 2)))))) = Dequeued e \<and>
     fe_requestId e = ''r3''"
proof -
  let ?q = "snd (queue_run (butlast sample_ops) (sample_queue (Some (JInt 2))))"
  have w: "map fe_requestId (fq_waiting ?q) = [''r3'']"
    "list_all (\<lambda>x. date_parse (fe_enqueuedAt x) \<noteq> None) (fq_waiting ?q)" by code_simp+
  then have dates: "\<forall>x \<in> set (fq_waiting ?q). date_parse (fe_enqueuedAt x) \<noteq> None"
    by (simp only: list_all_iff)
  from dequeue_serves_first [OF sample_new(1) prod.collapse [symmetric] dates] w(1) show ?thesis
    by (cases "fst (dequeue ?q)") auto
qed

text \<open>A window in which an account is not served holds few services of each other account.\<close>

lemma unserved_window_limit:
  fixes wt :: "string \<Rightarrow> nat" and e :: fair_queue_entry
  assumes unserved: "fe_productAccountId e \<notin> fe_productAccountId ` set es"
    and len: "2 * W \<le> length es" and "finite S" and pos: "0 \<le> fe_queuePriority e"
    and served: "\<And>i. i < length es \<Longrightarrow> fe_productAccountId (es ! i) \<in> S \<and>
      fe_queuePriority (es ! i) + 1 \<le> int (wt (fe_productAccountId (es ! i))) \<and>
      beats (last_n W (served @ map fe_productAccountId (take i es))) (es ! i) e"
  shows "W * nat (fe_queuePriority e + 1) \<le> sum wt S"
proof (rule window_limits)
  let ?A = "map fe_productAccountId es" and ?q = "nat (fe_queuePriority e + 1)"
  show "2 * W \<le> length ?A" using len by simp
  show "set ?A \<subseteq> S" using served by (auto simp: in_set_conv_nth)
  fix i assume i: "W \<le> i" "i < length ?A"
  let ?win = "take W (drop (i - W) ?A)"
  have win: "last_n W (served @ map fe_productAccountId (take i es)) = ?win"
    using last_n_take [of W i ?A served] i by (simp add: take_map)
  have "count_list ?win (fe_productAccountId e) = 0"
    unfolding count_list_0_iff using unserved by (metis in_set_dropD in_set_takeD list.set_map)
  moreover have "fe_productAccountId (es ! i) \<noteq> fe_productAccountId e"
    using unserved i by (metis imageI length_map nth_mem)
  ultimately have "int (count_list ?win (?A ! i) + 1) * (fe_queuePriority e + 1) \<le> int (wt (?A ! i))"
    using served [of i] i unfolding win by (simp add: beats_def)
  then have "int ((count_list ?win (?A ! i) + 1) * ?q) \<le> int (wt (?A ! i))"
    using pos by (simp add: distrib_right)
  then show "(count_list ?win (?A ! i) + 1) * ?q \<le> wt (?A ! i)" by (simp only: of_nat_le_iff)
qed (use assms(3) in simp)

text \<open>
  C34. A waiting account is served. Let an entry wait, and let \<open>wt\<close> bound priority plus one of every
  entry of the other accounts, which are among a finite set \<open>S\<close>. If the bounds add up to less than the
  window times the entry's own weight, its account is served within two windows of dequeues, with this
  entry or one of at least its priority, whatever is enqueued in between. The bound on the sum is
  needed: accounts that together weigh more can starve another one (\<open>busy_accounts_starve\<close>).
\<close>

theorem waiting_account_is_served:
  fixes wt :: "string \<Rightarrow> nat"
  assumes "new_fair_queue i w = Inr q0" and "queue_run ops0 q0 = (es0, q)"
    and "e \<in> set (fq_waiting q)" and "finite S"
    and "\<forall>x \<in> set (fq_waiting q). fe_productAccountId x \<noteq> fe_productAccountId e \<longrightarrow>
           fe_productAccountId x \<in> S \<and> fe_queuePriority x + 1 \<le> int (wt (fe_productAccountId x))"
    and "\<forall>inp. Enq inp \<in> set ops \<longrightarrow> eq_productAccountId inp \<noteq> fe_productAccountId e \<longrightarrow>
           eq_productAccountId inp \<in> S \<and>
           int_of (eq_queuePriority inp) + 1 \<le> int (wt (eq_productAccountId inp))"
    and "int (sum wt S) < fq_maxRecentServed q0 * (fe_queuePriority e + 1)"
    and "queue_run ops q = (es, q')" and "2 * fq_maxRecentServed q0 \<le> int (dequeues ops)"
  shows "\<exists>x \<in> set es. fe_productAccountId x = fe_productAccountId e \<and> fe_queuePriority e \<le> fe_queuePriority x"
proof (rule first_of_account [OF assms(8) _ assms(3)])
  show "queue_inv (map fe_productAccountId es0) q"
    using queue_run_inv [OF assms(2) new_fair_queue_inv [OF assms(1)]] by simp
  show "fe_productAccountId e \<in> fe_productAccountId ` set es"
  proof (rule ccontr)
    assume unserved: "fe_productAccountId e \<notin> fe_productAccountId ` set es"
    let ?W = "nat (fq_maxRecentServed q)" and ?q = "nat (fe_queuePriority e + 1)"
    define ok :: "fair_queue_entry \<Rightarrow> bool" where "ok x \<longleftrightarrow> fe_productAccountId x \<noteq> fe_productAccountId e \<longrightarrow>
      fe_productAccountId x \<in> S \<and> fe_queuePriority x + 1 \<le> int (wt (fe_productAccountId x))" for x
    have inv: "queue_inv (map fe_productAccountId es0) q" and W: "fq_maxRecentServed q = fq_maxRecentServed q0"
      using queue_run_inv [OF assms(2) new_fair_queue_inv [OF assms(1)]] by simp_all
    have pos: "0 < fq_maxRecentServed q" "0 \<le> fe_queuePriority e"
      using inv assms(3) by (simp_all add: queue_inv_def)
    have waiting: "\<forall>x \<in> set (fq_waiting q). ok x" using assms(5) by (simp add: ok_def)
    have coming: "\<forall>inp. Enq inp \<in> set ops \<longrightarrow> (\<forall>x. fe_productAccountId x = eq_productAccountId inp \<longrightarrow>
        JInt (fe_queuePriority x) = eq_queuePriority inp \<longrightarrow> ok x)"
    proof (intro allI impI)
      fix inp and x :: fair_queue_entry
      assume inp: "Enq inp \<in> set ops" "fe_productAccountId x = eq_productAccountId inp"
        "JInt (fe_queuePriority x) = eq_queuePriority inp"
      then have "int_of (eq_queuePriority inp) = fe_queuePriority x" by (metis int_of.simps(1))
      with assms(6) inp(1,2) show "ok x" by (auto simp: ok_def)
    qed
    from unserved_run [OF assms(8) inv assms(3) unserved waiting coming]
    have len: "length es = dequeues ops"
      and served: "\<And>i. i < length es \<Longrightarrow> ok (es ! i) \<and>
        beats (last_n ?W (map fe_productAccountId es0 @ map fe_productAccountId (take i es))) (es ! i) e"
      by auto
    have "fe_productAccountId (es ! i) \<noteq> fe_productAccountId e" if "i < length es" for i
      using unserved that by (metis imageI nth_mem)
    with served have "?W * ?q \<le> sum wt S"
      using assms(9) len pos(1) W
      by (intro unserved_window_limit [OF unserved _ assms(4) pos(2), of ?W _ "map fe_productAccountId es0"])
        (auto simp: ok_def)
    then have "int (?W * ?q) \<le> int (sum wt S)" by (simp only: of_nat_le_iff)
    with assms(7) pos W show False by simp
  qed
qed

theorem waiting_account_is_served_witness:
  "''b'' \<in> fe_productAccountId ` set (fst (queue_run [Deq, Deq, Enq (sample_entry ''r4'' ''a'' 0), Deq, Deq]
     (snd (queue_run (take 3 sample_ops) (sample_queue (Some (JInt 2)))))))"
proof -
  let ?q = "snd (queue_run (take 3 sample_ops) (sample_queue (Some (JInt 2))))"
  let ?ops = "[Deq, Deq, Enq (sample_entry ''r4'' ''a'' 0), Deq, Deq]"
  let ?e = "\<lparr>fe_requestId = ''r2'', fe_productAccountId = ''b'', fe_workspaceId = ''w'',
    fe_queuePriority = 0, fe_enqueuedAt = ''2026-01-01T00:00:00.000Z''\<rparr>"
  have w: "fq_waiting ?q = [?e\<lparr>fe_requestId := ''r1'', fe_productAccountId := ''a''\<rparr>, ?e,
      ?e\<lparr>fe_requestId := ''r3'', fe_productAccountId := ''a''\<rparr>]" by code_simp
  have e: "?e \<in> set (fq_waiting ?q)" unfolding w by simp
  have others: "\<forall>x \<in> set (fq_waiting ?q). fe_productAccountId x \<noteq> fe_productAccountId ?e \<longrightarrow>
      fe_productAccountId x \<in> {''a''} \<and> fe_queuePriority x + 1 \<le> int ((\<lambda>_. 1) (fe_productAccountId x))"
    unfolding w by simp
  have "\<exists>x \<in> set (fst (queue_run ?ops ?q)). fe_productAccountId x = fe_productAccountId ?e \<and>
      fe_queuePriority ?e \<le> fe_queuePriority x"
    by (rule waiting_account_is_served [OF sample_new(1) prod.collapse [symmetric] e _ others _ _
          prod.collapse [symmetric]])
      (auto simp: sample_entry_def sample_queue_def)
  then show ?thesis by force
qed

text \<open>Some account of a set has at most the average share of the window.\<close>

lemma rarely_served_account:
  assumes "queue_inv hist s" and "finite S" and "S \<noteq> {}"
  shows "\<exists>a \<in> S. int (count_list (fq_recentServed s) a) \<le> fq_maxRecentServed s div int (card S)"
proof (rule ccontr)
  let ?n = "\<lambda>a. count_list (fq_recentServed s) a" and ?k = "fq_maxRecentServed s div int (card S)"
  assume "\<not> ?thesis"
  then have "int (card S) * (?k + 1) \<le> (\<Sum>a\<in>S. int (?n a))"
    using sum_bounded_below [of S "?k + 1" "\<lambda>a. int (?n a)"] by force
  also have "\<dots> = int (\<Sum>a\<in>S. ?n a)" by simp
  also have "(\<Sum>a\<in>S. ?n a) \<le> (\<Sum>a\<in>S \<union> set (fq_recentServed s). ?n a)"
    using assms(2) by (intro sum_mono2) auto
  also have "\<dots> = length (fq_recentServed s)" using assms(2) by (intro sum_count_set) auto
  also have "int (length (fq_recentServed s)) \<le> fq_maxRecentServed s"
    using assms(1) by (auto simp: queue_inv_def last_n_def)
  finally have "int (card S) * (?k + 1) \<le> fq_maxRecentServed s" by simp
  moreover have "0 < int (card S)" using assms(2,3) by (simp add: card_gt_0_iff)
  then have "fq_maxRecentServed s mod int (card S) < int (card S)" by (rule pos_mod_bound)
  then have "fq_maxRecentServed s < int (card S) * (?k + 1)"
    unfolding distrib_left mult_1_right
    using mult_div_mod_eq [of "int (card S)" "fq_maxRecentServed s"] by linarith
  ultimately show False by simp
qed

text \<open>
  Busy accounts starve a waiting one. In any state the queue reaches, let the accounts of a set
  of \<open>k\<close> each have a waiting entry of priority at least \<open>p\<close>. If \<open>p + 1\<close> is at least \<open>q + 1\<close> times one
  more than the window divided by \<open>k\<close>, the next dequeue serves no entry of a priority up to \<open>q < p\<close>.
  So while those accounts keep requests waiting, such an entry waits for ever: with the default
  window, three accounts of the highest priority an administrator may configure, 100, shut out an
  account of priority 0. The class says a continuously waiting low-priority account still advances.
\<close>

theorem busy_accounts_starve:
  assumes "new_fair_queue i w = Inr q0" and "queue_run ops q0 = (es, s)"
    and "finite S" and "S \<noteq> {}"
    and "\<forall>a \<in> S. \<exists>x \<in> set (fq_waiting s). fe_productAccountId x = a \<and> p \<le> fe_queuePriority x"
    and "0 \<le> q" and "q < p"
    and "(fq_maxRecentServed q0 div int (card S) + 1) * (q + 1) \<le> p + 1"
  shows "\<exists>x s'. dequeue s = (Dequeued x, s') \<and> q < fe_queuePriority x"
proof -
  let ?n = "\<lambda>a. count_list (fq_recentServed s) a"
  let ?k = "fq_maxRecentServed q0 div int (card S)"
  have inv: "queue_inv (map fe_productAccountId es) s" and W: "fq_maxRecentServed s = fq_maxRecentServed q0"
    using queue_run_inv [OF assms(2) new_fair_queue_inv [OF assms(1)]] by simp_all
  have counts: "service_count (fq_serviceCounts s) a = int (?n a)" for a
    using inv by (simp add: queue_inv_def counts_ok_def)
  have prio: "\<forall>x \<in> set (fq_waiting s). 0 \<le> fe_queuePriority x" using inv by (simp add: queue_inv_def)
  have "\<exists>a \<in> S. int (?n a) \<le> ?k"
    using rarely_served_account [OF inv assms(3,4)] unfolding W .
  then obtain a x where a: "int (?n a) \<le> ?k" and x: "x \<in> set (fq_waiting s)"
      "fe_productAccountId x = a" "p \<le> fe_queuePriority x"
    using assms(5) by blast
  have lower: "share_key (fq_serviceCounts s) x < share_key (fq_serviceCounts s) y"
    if y: "y \<in> set (fq_waiting s)" "fe_queuePriority y \<le> q" for y
  proof -
    let ?c = "int (?n (fe_productAccountId y))"
    have "(int (?n a) + 1) * (fe_queuePriority y + 1) \<le> (?k + 1) * (q + 1)"
      using a y(2) prio y(1) by (intro mult_mono) auto
    also have "\<dots> \<le> fe_queuePriority x + 1" using assms(8) x(3) by simp
    also have "\<dots> \<le> (?c + 1) * (fe_queuePriority x + 1)"
      using prio x(1) mult_right_mono [of 1 "?c + 1" "fe_queuePriority x + 1"] by simp
    finally have "\<not> (?c + 1) * (fe_queuePriority x + 1) < (int (?n a) + 1) * (fe_queuePriority y + 1)" by simp
    then have "of_int (int (?n a) + 1) / of_int (fe_queuePriority x + 1) \<le>
        (of_int (?c + 1) / of_int (fe_queuePriority y + 1) :: rat)"
      using of_int_div_less [of "fe_queuePriority y + 1" "fe_queuePriority x + 1" "?c + 1" "int (?n a) + 1"]
        prio x(1) y(1) by (simp add: not_less)
    moreover have "fe_queuePriority y < fe_queuePriority x" using y(2) x(3) assms(7) by simp
    ultimately show ?thesis using x(2) by (auto simp: share_key_def counts less_prod_def)
  qed
  obtain r s' where run: "dequeue s = (r, s')" by (cases "dequeue s")
  from run inv show ?thesis
  proof (cases rule: dequeue_result)
    case empty
    with x show ?thesis by simp
  next
    case (served e)
    with lower [of e] x(1) have "q < fe_queuePriority e" by (auto simp: not_le [symmetric])
    with run served(1) show ?thesis by blast
  qed
qed

definition starving_ops :: "queue_op list" where
  "starving_ops = [Enq (sample_entry ''r0'' ''low'' 0), Enq (sample_entry ''r1'' ''a'' 100),
     Enq (sample_entry ''r2'' ''b'' 100), Enq (sample_entry ''r3'' ''c'' 100)]"

theorem busy_accounts_starve_witness:
  "\<exists>x s'. dequeue (snd (queue_run starving_ops (sample_queue None))) = (Dequeued x, s') \<and>
     0 < fe_queuePriority x"
proof -
  let ?s = "snd (queue_run starving_ops (sample_queue None))"
  have "list_all (\<lambda>a. list_ex (\<lambda>x. fe_productAccountId x = a \<and> 100 \<le> fe_queuePriority x) (fq_waiting ?s))
      [''a'', ''b'', ''c'']" by code_simp
  then have busy: "\<forall>a \<in> {''a'', ''b'', ''c''}. \<exists>x \<in> set (fq_waiting ?s). fe_productAccountId x = a \<and>
      100 \<le> fe_queuePriority x"
    by (simp add: list_ex_iff)
  show ?thesis
    by (rule busy_accounts_starve [OF sample_new(2) prod.collapse [symmetric] _ _ busy])
      (simp_all add: sample_queue_def)
qed

end
