(* ===== verification/Entitlement.thy ===== *)
theory Entitlement
  imports JsMap Domain
begin

text \<open>
  Entitlements of \<^verbatim>\<open>entitlement-pools\<close>: the versioned policy of a plan (\<^verbatim>\<open>policy-revision.ts\<close>), the
  append-only allocations of an account (\<^verbatim>\<open>account-allocation.ts\<close>), the effective entitlement five
  layers compute from them (\<^verbatim>\<open>effective-entitlement.ts\<close>), the boundary of a model selection and the
  projection a user may see (\<^verbatim>\<open>dual-truth.ts\<close>). A JavaScript \<^verbatim>\<open>Set\<close> is a list without repetitions in
  insertion order; the clock is an argument, in milliseconds where the code compares it and as text
  where it stores it. The numbers of policies, limits and preferences are integers.
\<close>

section \<open>Data\<close>

datatype quality_tier = Auto | Quality | Balanced
datatype overage_mode = Block | Allow_metered | Auto_top_up
datatype plan_tier = Trial | Starter | Growth | Pro
datatype support_label = Standard | Priority
datatype rate_label = Standard_rate | Elevated_rate

record validity_window =
  vw_validFrom :: "string option"
  vw_validUntil :: "string option"

record add_on =
  ao_purchaseId :: string
  ao_resource :: usage_resource
  ao_quantity :: int

record auto_top_up =
  at_enabled :: bool
  at_monthlyCapMicros :: int
  at_spentThisMonthMicros :: int

record entitlement_policy =
  ep_revision :: string
  ep_tier :: plan_tier
  ep_storageMb :: "int option"
  ep_allowance :: "usage_resource \<Rightarrow> int"
  ep_concurrencyLimit :: int
  ep_queuePriority :: int
  ep_supportLabel :: support_label
  ep_addOns :: "add_on list"
  ep_autoTopUp :: auto_top_up
  ep_allowedCatalogModelIds :: "string list option"
  ep_allowedQualityTiers :: "quality_tier list option"
  ep_availableSupplyPoolIds :: "string list option"
  ep_overage :: "overage_mode option"
  ep_validity :: "validity_window option"

text \<open>The extension fields with their defaults filled in.\<close>

record policy_extension =
  px_allowedCatalogModelIds :: "string list"
  px_allowedQualityTiers :: "quality_tier list"
  px_availableSupplyPoolIds :: "string list"
  px_overage :: overage_mode
  px_validity :: validity_window

definition DEFAULT_ENTITLEMENT_POLICY_EXTENSION :: policy_extension where
  "DEFAULT_ENTITLEMENT_POLICY_EXTENSION =
     \<lparr> px_allowedCatalogModelIds = [], px_allowedQualityTiers = [Auto, Quality, Balanced],
       px_availableSupplyPoolIds = [], px_overage = Block,
       px_validity = \<lparr>vw_validFrom = None, vw_validUntil = None\<rparr> \<rparr>"

definition or_default :: "'a option \<Rightarrow> 'a \<Rightarrow> 'a" where
  "or_default v d = (case v of None \<Rightarrow> d | Some x \<Rightarrow> x)"

definition normalizeProductEntitlementPolicy :: "entitlement_policy \<Rightarrow> policy_extension" where
  "normalizeProductEntitlementPolicy p =
     (let d = DEFAULT_ENTITLEMENT_POLICY_EXTENSION
      in \<lparr> px_allowedCatalogModelIds = or_default (ep_allowedCatalogModelIds p) (px_allowedCatalogModelIds d),
           px_allowedQualityTiers = or_default (ep_allowedQualityTiers p) (px_allowedQualityTiers d),
           px_availableSupplyPoolIds = or_default (ep_availableSupplyPoolIds p) (px_availableSupplyPoolIds d),
           px_overage = or_default (ep_overage p) (px_overage d),
           px_validity = or_default (ep_validity p) (px_validity d) \<rparr>)"

datatype allocation_kind = Grant_kind | Restrict_kind

datatype allocation_source =
    Campaign | Support_compensation | Enterprise_contract | Canary | Risk_control | Temporary_ban
  | Account_override

datatype allocation_target =
    Catalog_model string
  | Quality_tier quality_tier
  | Supply_pool string
  | Allowance usage_resource
  | Concurrency
  | Queue_priority

text \<open>The amount of a delta is a number the store checks, then an integer.\<close>

datatype 'n allocation_delta = Delta 'n | Cap 'n | Set_enabled bool

datatype allocation_status = Alloc_active | Alloc_expired | Alloc_rolled_back

record account_allocation =
  aa_id :: string
  aa_accountId :: string
  aa_workspaceId :: string
  aa_kind :: allocation_kind
  aa_target :: allocation_target
  aa_delta :: "int allocation_delta"
  aa_source :: allocation_source
  aa_reason :: string
  aa_actorId :: string
  aa_startsAt :: string
  aa_endsAt :: "string option"
  aa_status :: allocation_status
  aa_rolledBackAt :: "string option"
  aa_correlationId :: string
  aa_createdAt :: string

record grant_allocation_input =
  ga_accountId :: string
  ga_workspaceId :: string
  ga_kind :: allocation_kind
  ga_target :: allocation_target
  ga_delta :: "js_number allocation_delta"
  ga_source :: allocation_source
  ga_reason :: string
  ga_actorId :: string
  ga_startsAt :: string
  ga_endsAt :: "string option"
  ga_correlationId :: string

datatype entitlement_layer =
    Platform_hard_limit | Plan_policy | Account_override_layer | Campaign_grant | Request_preference

record hard_limits =
  hl_maxConcurrency :: int
  hl_maxQueuePriority :: int
  hl_maxAllowance :: "usage_resource \<Rightarrow> int"
  hl_deniedCatalogModelIds :: "string list"
  hl_deniedSupplyPoolIds :: "string list"
  hl_deniedQualityTiers :: "quality_tier list"

record request_preferences =
  rp_preferredCatalogModelIds :: "string list option"
  rp_preferredQualityTier :: "quality_tier list option"
  rp_preferredSupplyPoolIds :: "string list option"
  rp_preferredConcurrency :: "int option"
  rp_preferredQueuePriority :: "int option"

record entitlement_sources =
  so_allowance :: entitlement_layer
  so_concurrencyLimit :: entitlement_layer
  so_queuePriority :: entitlement_layer
  so_catalogModels :: entitlement_layer
  so_qualityTiers :: entitlement_layer
  so_supplyPools :: entitlement_layer

record effective_entitlement =
  ee_tier :: plan_tier
  ee_planPolicyRevision :: string
  ee_allowance :: "usage_resource \<Rightarrow> int"
  ee_concurrencyLimit :: int
  ee_queuePriority :: int
  ee_supportLabel :: support_label
  ee_allowedCatalogModelIds :: "string list"
  ee_allowedQualityTiers :: "quality_tier list"
  ee_availableSupplyPoolIds :: "string list"
  ee_overage :: overage_mode
  ee_validity :: validity_window
  ee_sources :: entitlement_sources
  ee_appliedAllocationIds :: "string list"

section \<open>Allocations of an account\<close>

record allocation_store =
  as_allocations :: "account_allocation list"
  as_seq :: nat

definition empty_allocation_store :: allocation_store where
  "empty_allocation_store = \<lparr>as_allocations = [], as_seq = 0\<rparr>"

definition assertDelta :: "allocation_kind \<Rightarrow> js_number allocation_delta \<Rightarrow> unit result" where
  "assertDelta kind delta =
     (let bad = (\<lambda>b m. check (\<not> b) (P1DomainError INVALID_STATE m));
          integral = (\<lambda>n. bad (\<not> number_isInteger n)
            ''AccountAllocation delta/cap amount must be an integer.'')
      in case delta of
           Set_enabled _ \<Rightarrow> Inr ()
         | Delta n \<Rightarrow>
             r_bind (integral n) (\<lambda>_.
             r_bind (bad (kind = Grant_kind \<and> int_of n \<le> 0) ''Grant delta must be a positive integer.'') (\<lambda>_.
             bad (kind = Restrict_kind \<and> int_of n \<ge> 0) ''Restrict delta must be a negative integer.''))
         | Cap n \<Rightarrow>
             r_bind (integral n) (\<lambda>_.
             bad (int_of n < 0) ''Allocation cap must be a non-negative integer.''))"

fun checked_delta :: "js_number allocation_delta \<Rightarrow> int allocation_delta" where
  "checked_delta (Delta n) = Delta (int_of n)"
| "checked_delta (Cap n) = Cap (int_of n)"
| "checked_delta (Set_enabled b) = Set_enabled b"

definition assert_allocation_dates :: "grant_allocation_input \<Rightarrow> unit result" where
  "assert_allocation_dates inp =
     r_bind (check (date_parse (ga_startsAt inp) \<noteq> None)
               (P1DomainError INVALID_STATE ''AccountAllocation startsAt must be a valid ISO timestamp.''))
       (\<lambda>_. case ga_endsAt inp of
              None \<Rightarrow> Inr ()
            | Some e \<Rightarrow>
                check (date_parse e \<noteq> None \<and> \<not> date_le e (ga_startsAt inp))
                  (P1DomainError INVALID_STATE ''AccountAllocation endsAt must be after startsAt.''))"

definition new_allocation :: "grant_allocation_input \<Rightarrow> nat \<Rightarrow> string \<Rightarrow> account_allocation" where
  "new_allocation inp seq clock =
     \<lparr> aa_id = ''allocation:'' @ show_nat seq, aa_accountId = ga_accountId inp,
       aa_workspaceId = ga_workspaceId inp, aa_kind = ga_kind inp, aa_target = ga_target inp,
       aa_delta = checked_delta (ga_delta inp), aa_source = ga_source inp, aa_reason = ga_reason inp,
       aa_actorId = ga_actorId inp, aa_startsAt = ga_startsAt inp, aa_endsAt = ga_endsAt inp,
       aa_status = Alloc_active, aa_rolledBackAt = None, aa_correlationId = ga_correlationId inp,
       aa_createdAt = clock \<rparr>"

definition append_allocation ::
    "string \<Rightarrow> grant_allocation_input \<Rightarrow> (allocation_store, account_allocation) op" where
  "append_allocation clock inp =
     guarded (check (\<not> blank (ga_accountId inp) \<and> \<not> blank (ga_workspaceId inp))
                (P1DomainError INVALID_STATE
                   ''AccountAllocation requires accountId and target workspaceId.'')) (\<lambda>_.
     guarded (check (\<not> blank (ga_reason inp) \<and> \<not> blank (ga_actorId inp))
                (P1DomainError INVALID_STATE
                   ''AccountAllocation requires actor and reason for audit.'')) (\<lambda>_.
     guarded (assertDelta (ga_kind inp) (ga_delta inp)) (\<lambda>_.
     guarded (assert_allocation_dates inp) (\<lambda>_ s.
       let a = new_allocation inp (Suc (as_seq s)) clock
       in (Inr a, s\<lparr>as_allocations := as_allocations s @ [a], as_seq := Suc (as_seq s)\<rparr>)))))"

definition rollback_allocation ::
    "string \<Rightarrow> string \<Rightarrow> (allocation_store, account_allocation) op" where
  "rollback_allocation clock allocationId s =
     (case find_index (\<lambda>a. aa_id a = allocationId) (as_allocations s) of
        None \<Rightarrow> (Inl (P1DomainError NOT_FOUND ''AccountAllocation was not found.''), s)
      | Some i \<Rightarrow>
          let a = as_allocations s ! i
          in if aa_status a = Alloc_rolled_back then (Inr a, s)
             else let a' = a\<lparr>aa_status := Alloc_rolled_back, aa_rolledBackAt := Some clock\<rparr>
                  in (Inr a', s\<lparr>as_allocations := (as_allocations s)[i := a']\<rparr>))"

text \<open>One round of the loop of \<^verbatim>\<open>listActive\<close>: the allocation as it is left, and whether it is active.\<close>

definition visit_allocation ::
    "string \<Rightarrow> string \<Rightarrow> int \<Rightarrow> account_allocation \<Rightarrow> account_allocation \<times> bool" where
  "visit_allocation accountId ws now a =
     (if aa_accountId a \<noteq> accountId \<or> aa_workspaceId a \<noteq> ws then (a, False)
      else if aa_status a = Alloc_rolled_back then (a, False)
      else if num_lt (Some now) (date_parse (aa_startsAt a)) then (a, False)
      else if (case aa_endsAt a of None \<Rightarrow> False | Some e \<Rightarrow> num_le (date_parse e) (Some now))
      then (a\<lparr>aa_status := Alloc_expired\<rparr>, False)
      else (a, aa_status a \<noteq> Alloc_expired))"

definition listActive ::
    "string \<Rightarrow> string \<Rightarrow> int \<Rightarrow> allocation_store \<Rightarrow> account_allocation list \<times> allocation_store" where
  "listActive accountId ws now s =
     (let visited = map (visit_allocation accountId ws now) (as_allocations s)
      in (map fst (filter snd visited), s\<lparr>as_allocations := map fst visited\<rparr>))"

definition listAll :: "string option \<Rightarrow> allocation_store \<Rightarrow> account_allocation list" where
  "listAll accountId s =
     (case truthy accountId of
        None \<Rightarrow> as_allocations s
      | Some i \<Rightarrow> filter (\<lambda>a. aa_accountId a = i) (as_allocations s))"

section \<open>The effective entitlement\<close>

definition DEFAULT_PLATFORM_HARD_LIMITS :: hard_limits where
  "DEFAULT_PLATFORM_HARD_LIMITS =
     \<lparr> hl_maxConcurrency = 32, hl_maxQueuePriority = 100,
       hl_maxAllowance = (\<lambda>r. case r of Audio \<Rightarrow> 10000 | Copy \<Rightarrow> 100000 | Image \<Rightarrow> 50000 | Video \<Rightarrow> 20000),
       hl_deniedCatalogModelIds = [], hl_deniedSupplyPoolIds = [], hl_deniedQualityTiers = [] \<rparr>"

definition isLive :: "int \<Rightarrow> account_allocation \<Rightarrow> bool" where
  "isLive now a =
     (if aa_status a = Alloc_rolled_back \<or> aa_status a = Alloc_expired then False
      else if \<not> num_le (date_parse (aa_startsAt a)) (Some now) then False
      else case aa_endsAt a of
             None \<Rightarrow> True
           | Some e \<Rightarrow> num_lt (Some now) (date_parse e))"

definition applyNumber :: "int \<Rightarrow> int allocation_delta \<Rightarrow> allocation_kind \<Rightarrow> int" where
  "applyNumber current delta kind =
     (case delta of
        Set_enabled _ \<Rightarrow> if kind = Restrict_kind then 0 else current
      | Cap n \<Rightarrow> min current n
      | Delta n \<Rightarrow> max 0 (current + n))"

definition set_add :: "'a \<Rightarrow> 'a list \<Rightarrow> 'a list" where
  "set_add x xs = (if x \<in> set xs then xs else xs @ [x])"

definition set_remove :: "'a \<Rightarrow> 'a list \<Rightarrow> 'a list" where
  "set_remove x xs = filter (\<lambda>y. y \<noteq> x) xs"

definition new_set :: "'a list \<Rightarrow> 'a list" where
  "new_set xs = foldl (\<lambda>s x. set_add x s) [] xs"

definition applySet :: "'a list \<Rightarrow> 'a \<Rightarrow> int allocation_delta \<Rightarrow> allocation_kind \<Rightarrow> 'a list" where
  "applySet current value delta kind =
     (if kind = Restrict_kind \<or> delta = Set_enabled False then set_remove value current
      else set_add value current)"

text \<open>The local variables the layers update.\<close>

record ent_state =
  es_allowance :: "usage_resource \<Rightarrow> int"
  es_concurrencyLimit :: int
  es_queuePriority :: int
  es_catalogModels :: "string list"
  es_qualityTiers :: "quality_tier list"
  es_supplyPools :: "string list"
  es_layers :: entitlement_sources
  es_applied :: "string list"

definition apply_allocation :: "entitlement_layer \<Rightarrow> account_allocation \<Rightarrow> ent_state \<Rightarrow> ent_state" where
  "apply_allocation layer a s0 =
     (let s = s0\<lparr>es_applied := es_applied s0 @ [aa_id a]\<rparr>; d = aa_delta a; k = aa_kind a
      in case aa_target a of
           Allowance r \<Rightarrow>
             s\<lparr>es_allowance := (es_allowance s)(r := applyNumber (es_allowance s r) d k),
               es_layers := es_layers s\<lparr>so_allowance := layer\<rparr>\<rparr>
         | Concurrency \<Rightarrow>
             s\<lparr>es_concurrencyLimit := applyNumber (es_concurrencyLimit s) d k,
               es_layers := es_layers s\<lparr>so_concurrencyLimit := layer\<rparr>\<rparr>
         | Queue_priority \<Rightarrow>
             s\<lparr>es_queuePriority := applyNumber (es_queuePriority s) d k,
               es_layers := es_layers s\<lparr>so_queuePriority := layer\<rparr>\<rparr>
         | Catalog_model m \<Rightarrow>
             s\<lparr>es_catalogModels := applySet (es_catalogModels s) m d k,
               es_layers := es_layers s\<lparr>so_catalogModels := layer\<rparr>\<rparr>
         | Quality_tier t \<Rightarrow>
             s\<lparr>es_qualityTiers := applySet (es_qualityTiers s) t d k,
               es_layers := es_layers s\<lparr>so_qualityTiers := layer\<rparr>\<rparr>
         | Supply_pool p \<Rightarrow>
             s\<lparr>es_supplyPools := applySet (es_supplyPools s) p d k,
               es_layers := es_layers s\<lparr>so_supplyPools := layer\<rparr>\<rparr>)"

text \<open>Grants first, then restricts.\<close>

definition applyNumeric :: "account_allocation list \<Rightarrow> entitlement_layer \<Rightarrow> ent_state \<Rightarrow> ent_state" where
  "applyNumeric allocations layer s =
     fold (apply_allocation layer)
       (filter (\<lambda>a. aa_kind a = Grant_kind) allocations @ filter (\<lambda>a. aa_kind a = Restrict_kind) allocations) s"

definition plan_state :: "entitlement_policy \<Rightarrow> ent_state" where
  "plan_state p =
     (let x = normalizeProductEntitlementPolicy p
      in \<lparr> es_allowance = ep_allowance p, es_concurrencyLimit = ep_concurrencyLimit p,
           es_queuePriority = ep_queuePriority p,
           es_catalogModels = new_set (px_allowedCatalogModelIds x),
           es_qualityTiers = new_set (px_allowedQualityTiers x),
           es_supplyPools = new_set (px_availableSupplyPoolIds x),
           es_layers = \<lparr>so_allowance = Plan_policy, so_concurrencyLimit = Plan_policy,
             so_queuePriority = Plan_policy, so_catalogModels = Plan_policy,
             so_qualityTiers = Plan_policy, so_supplyPools = Plan_policy\<rparr>,
           es_applied = [] \<rparr>)"

text \<open>A preference narrows a set, unless nothing would be left.\<close>

definition narrow :: "'a list option \<Rightarrow> 'a list \<Rightarrow> 'a list option" where
  "narrow preferred current =
     (case preferred of
        None \<Rightarrow> None
      | Some ids \<Rightarrow>
          let narrowed = filter (\<lambda>x. x \<in> set ids) current
          in if narrowed = [] then None else Some narrowed)"

definition apply_preferences :: "request_preferences \<Rightarrow> ent_state \<Rightarrow> ent_state" where
  "apply_preferences prefs s0 =
     (let s1 = (case narrow (rp_preferredCatalogModelIds prefs) (es_catalogModels s0) of
                  None \<Rightarrow> s0
                | Some xs \<Rightarrow> s0\<lparr>es_catalogModels := xs,
                                es_layers := es_layers s0\<lparr>so_catalogModels := Request_preference\<rparr>\<rparr>);
          s2 = (case narrow (rp_preferredQualityTier prefs) (es_qualityTiers s1) of
                  None \<Rightarrow> s1
                | Some xs \<Rightarrow> s1\<lparr>es_qualityTiers := xs,
                                es_layers := es_layers s1\<lparr>so_qualityTiers := Request_preference\<rparr>\<rparr>);
          s3 = (case narrow (rp_preferredSupplyPoolIds prefs) (es_supplyPools s2) of
                  None \<Rightarrow> s2
                | Some xs \<Rightarrow> s2\<lparr>es_supplyPools := xs,
                                es_layers := es_layers s2\<lparr>so_supplyPools := Request_preference\<rparr>\<rparr>);
          s4 = (case rp_preferredConcurrency prefs of
                  None \<Rightarrow> s3
                | Some n \<Rightarrow>
                    if n > 0 \<and> n < es_concurrencyLimit s3
                    then s3\<lparr>es_concurrencyLimit := n,
                            es_layers := es_layers s3\<lparr>so_concurrencyLimit := Request_preference\<rparr>\<rparr>
                    else s3)
      in case rp_preferredQueuePriority prefs of
           None \<Rightarrow> s4
         | Some n \<Rightarrow>
             if n \<ge> 0 \<and> n < es_queuePriority s4
             then s4\<lparr>es_queuePriority := n,
                     es_layers := es_layers s4\<lparr>so_queuePriority := Request_preference\<rparr>\<rparr>
             else s4)"

definition clamp_allowance :: "hard_limits \<Rightarrow> usage_resource \<Rightarrow> ent_state \<Rightarrow> ent_state" where
  "clamp_allowance hard r s0 =
     (let s1 = (if es_allowance s0 r > hl_maxAllowance hard r
                then s0\<lparr>es_allowance := (es_allowance s0)(r := hl_maxAllowance hard r),
                        es_layers := es_layers s0\<lparr>so_allowance := Platform_hard_limit\<rparr>\<rparr>
                else s0)
      in if es_allowance s1 r < 0 then s1\<lparr>es_allowance := (es_allowance s1)(r := 0)\<rparr> else s1)"

definition clamp_concurrency :: "hard_limits \<Rightarrow> ent_state \<Rightarrow> ent_state" where
  "clamp_concurrency hard s0 =
     (let s1 = (if es_concurrencyLimit s0 > hl_maxConcurrency hard
                then s0\<lparr>es_concurrencyLimit := hl_maxConcurrency hard,
                        es_layers := es_layers s0\<lparr>so_concurrencyLimit := Platform_hard_limit\<rparr>\<rparr>
                else s0)
      in if es_concurrencyLimit s1 < 1 then s1\<lparr>es_concurrencyLimit := 1\<rparr> else s1)"

definition clamp_queue :: "hard_limits \<Rightarrow> ent_state \<Rightarrow> ent_state" where
  "clamp_queue hard s0 =
     (let s1 = (if es_queuePriority s0 > hl_maxQueuePriority hard
                then s0\<lparr>es_queuePriority := hl_maxQueuePriority hard,
                        es_layers := es_layers s0\<lparr>so_queuePriority := Platform_hard_limit\<rparr>\<rparr>
                else s0)
      in if es_queuePriority s1 < 0 then s1\<lparr>es_queuePriority := 0\<rparr> else s1)"

text \<open>\<^verbatim>\<open>delete\<close> of the denied identifiers, with the layer moved when one was in the set.\<close>

definition deny_models :: "string list \<Rightarrow> ent_state \<Rightarrow> ent_state" where
  "deny_models denied s0 =
     fold (\<lambda>d s. if d \<in> set (es_catalogModels s)
                 then s\<lparr>es_catalogModels := set_remove d (es_catalogModels s),
                        es_layers := es_layers s\<lparr>so_catalogModels := Platform_hard_limit\<rparr>\<rparr>
                 else s) denied s0"

definition deny_tiers :: "quality_tier list \<Rightarrow> ent_state \<Rightarrow> ent_state" where
  "deny_tiers denied s0 =
     fold (\<lambda>d s. if d \<in> set (es_qualityTiers s)
                 then s\<lparr>es_qualityTiers := set_remove d (es_qualityTiers s),
                        es_layers := es_layers s\<lparr>so_qualityTiers := Platform_hard_limit\<rparr>\<rparr>
                 else s) denied s0"

definition deny_pools :: "string list \<Rightarrow> ent_state \<Rightarrow> ent_state" where
  "deny_pools denied s0 =
     fold (\<lambda>d s. if d \<in> set (es_supplyPools s)
                 then s\<lparr>es_supplyPools := set_remove d (es_supplyPools s),
                        es_layers := es_layers s\<lparr>so_supplyPools := Platform_hard_limit\<rparr>\<rparr>
                 else s) denied s0"

definition clamp_hard :: "hard_limits \<Rightarrow> ent_state \<Rightarrow> ent_state" where
  "clamp_hard hard s =
     deny_pools (hl_deniedSupplyPoolIds hard)
       (deny_tiers (hl_deniedQualityTiers hard)
         (deny_models (hl_deniedCatalogModelIds hard)
           (clamp_queue hard (clamp_concurrency hard (fold (clamp_allowance hard) USAGE_RESOURCES s)))))"

definition sortQualityTiers :: "quality_tier list \<Rightarrow> quality_tier list" where
  "sortQualityTiers tiers = filter (\<lambda>t. t \<in> set tiers) [Auto, Balanced, Quality]"

record entitlement_input =
  ei_planPolicy :: entitlement_policy
  ei_platformHardLimits :: "hard_limits option"
  ei_accountOverrides :: "account_allocation list"
  ei_campaignGrants :: "account_allocation list"
  ei_requestPreferences :: "request_preferences option"
  ei_now :: int

definition no_preferences :: request_preferences where
  "no_preferences = \<lparr>rp_preferredCatalogModelIds = None, rp_preferredQualityTier = None,
     rp_preferredSupplyPoolIds = None, rp_preferredConcurrency = None, rp_preferredQueuePriority = None\<rparr>"

definition layered_state :: "entitlement_input \<Rightarrow> ent_state" where
  "layered_state inp =
     (let now = ei_now inp;
          overrides = filter (isLive now) (ei_accountOverrides inp);
          campaigns = filter (isLive now) (ei_campaignGrants inp)
      in applyNumeric overrides Account_override_layer
           (applyNumeric campaigns Campaign_grant (plan_state (ei_planPolicy inp))))"

definition effective_of :: "entitlement_policy \<Rightarrow> ent_state \<Rightarrow> effective_entitlement" where
  "effective_of plan s =
     (let x = normalizeProductEntitlementPolicy plan
      in \<lparr> ee_tier = ep_tier plan, ee_planPolicyRevision = ep_revision plan,
           ee_allowance = es_allowance s, ee_concurrencyLimit = es_concurrencyLimit s,
           ee_queuePriority = es_queuePriority s, ee_supportLabel = ep_supportLabel plan,
           ee_allowedCatalogModelIds = js_sort str_compare (es_catalogModels s),
           ee_allowedQualityTiers = sortQualityTiers (es_qualityTiers s),
           ee_availableSupplyPoolIds = js_sort str_compare (es_supplyPools s),
           ee_overage = px_overage x, ee_validity = px_validity x, ee_sources = es_layers s,
           ee_appliedAllocationIds = new_set (es_applied s) \<rparr>)"

definition computeEffectiveEntitlement :: "entitlement_input \<Rightarrow> effective_entitlement" where
  "computeEffectiveEntitlement inp =
     (let hard = or_default (ei_platformHardLimits inp) DEFAULT_PLATFORM_HARD_LIMITS;
          prefs = or_default (ei_requestPreferences inp) no_preferences
      in effective_of (ei_planPolicy inp) (clamp_hard hard (apply_preferences prefs (layered_state inp))))"

datatype entitlement_surface =
    S_allowance | S_concurrencyLimit | S_queuePriority | S_catalogModels | S_qualityTiers
  | S_supplyPools | S_overage

definition previewEffectiveEntitlementChange ::
    "entitlement_input \<Rightarrow> entitlement_input \<Rightarrow>
     effective_entitlement \<times> effective_entitlement \<times> entitlement_surface list" where
  "previewEffectiveEntitlementChange b a =
     (let before = computeEffectiveEntitlement b; after = computeEffectiveEntitlement a;
          changed = (\<lambda>surface same. if same then [] else [surface])
      in (before, after,
          changed S_allowance (map (ee_allowance before) USAGE_RESOURCES = map (ee_allowance after) USAGE_RESOURCES) @
          changed S_concurrencyLimit (ee_concurrencyLimit before = ee_concurrencyLimit after) @
          changed S_queuePriority (ee_queuePriority before = ee_queuePriority after) @
          changed S_catalogModels (ee_allowedCatalogModelIds before = ee_allowedCatalogModelIds after) @
          changed S_qualityTiers (ee_allowedQualityTiers before = ee_allowedQualityTiers after) @
          changed S_supplyPools (ee_availableSupplyPoolIds before = ee_availableSupplyPoolIds after) @
          changed S_overage (ee_overage before = ee_overage after)))"

end
