(* ===== verification/EntitlementCorrect.thy ===== *)
theory EntitlementCorrect
  imports Entitlement
begin

text \<open>
  Lemmas on the effective entitlement and on the allocations of an account: what the layers keep of
  the sets, what the hard limits enforce, and which allocations a listing returns.
\<close>

section \<open>Sets\<close>

lemma set_add_simps [simp]: "set (set_add x xs) = insert x (set xs)" "distinct xs \<Longrightarrow> distinct (set_add x xs)"
  by (auto simp: set_add_def)

lemma set_remove_simps [simp]: "set (set_remove x xs) = set xs - {x}" "distinct xs \<Longrightarrow> distinct (set_remove x xs)"
  by (auto simp: set_remove_def)

lemma new_set_simps [simp]: "set (new_set xs) = set xs" "distinct (new_set xs)"
proof -
  have "set (foldl (\<lambda>s x. set_add x s) ys xs) = set ys \<union> set xs \<and>
      (distinct ys \<longrightarrow> distinct (foldl (\<lambda>s x. set_add x s) ys xs))" for ys
    by (induction xs arbitrary: ys) auto
  from this [of "[]"] show "set (new_set xs) = set xs" "distinct (new_set xs)"
    by (simp_all add: new_set_def)
qed

lemma applySet_distinct: "distinct xs \<Longrightarrow> distinct (applySet xs x d k)"
  by (simp add: applySet_def)

definition sets_distinct :: "ent_state \<Rightarrow> bool" where
  "sets_distinct s \<longleftrightarrow>
     distinct (es_catalogModels s) \<and> distinct (es_qualityTiers s) \<and> distinct (es_supplyPools s)"

lemma sets_distinct_plan: "sets_distinct (plan_state p)"
  by (simp add: sets_distinct_def plan_state_def Let_def)

lemma sets_distinct_apply: "sets_distinct s \<Longrightarrow> sets_distinct (apply_allocation layer a s)"
  by (cases "aa_target a") (simp_all add: sets_distinct_def apply_allocation_def Let_def applySet_distinct)

lemma fold_keeps: "(\<And>x s. P s \<Longrightarrow> P (f x s)) \<Longrightarrow> P s \<Longrightarrow> P (fold f xs s)"
  by (induction xs arbitrary: s) auto

lemma sets_distinct_layers: "sets_distinct (layered_state inp)"
  unfolding layered_state_def Let_def applyNumeric_def
  by (intro fold_keeps [where P = sets_distinct] sets_distinct_apply sets_distinct_plan)

lemma preferences_fields:
  "es_catalogModels (apply_preferences prefs s) =
     or_default (narrow (rp_preferredCatalogModelIds prefs) (es_catalogModels s)) (es_catalogModels s)"
  "es_qualityTiers (apply_preferences prefs s) =
     or_default (narrow (rp_preferredQualityTier prefs) (es_qualityTiers s)) (es_qualityTiers s)"
  "es_supplyPools (apply_preferences prefs s) =
     or_default (narrow (rp_preferredSupplyPoolIds prefs) (es_supplyPools s)) (es_supplyPools s)"
  by (simp_all add: apply_preferences_def Let_def or_default_def split: option.splits)

lemma or_narrow:
  "distinct xs \<Longrightarrow> distinct (or_default (narrow p xs) xs)"
  "set (or_default (narrow p xs) xs) \<subseteq> set xs"
  by (auto simp: or_default_def narrow_def Let_def split: option.splits)

lemma preferences_sets:
  "sets_distinct s \<Longrightarrow> sets_distinct (apply_preferences prefs s)"
  "set (es_catalogModels (apply_preferences prefs s)) \<subseteq> set (es_catalogModels s)"
  "set (es_qualityTiers (apply_preferences prefs s)) \<subseteq> set (es_qualityTiers s)"
  "set (es_supplyPools (apply_preferences prefs s)) \<subseteq> set (es_supplyPools s)"
  by (simp_all add: sets_distinct_def preferences_fields or_narrow)

section \<open>Hard limits\<close>

lemma clamp_allowance_simps [simp]:
  "es_catalogModels (clamp_allowance h r s) = es_catalogModels s"
  "es_qualityTiers (clamp_allowance h r s) = es_qualityTiers s"
  "es_supplyPools (clamp_allowance h r s) = es_supplyPools s"
  "es_applied (clamp_allowance h r s) = es_applied s"
  "es_concurrencyLimit (clamp_allowance h r s) = es_concurrencyLimit s"
  "es_queuePriority (clamp_allowance h r s) = es_queuePriority s"
  "es_allowance (clamp_allowance h r s) =
     (es_allowance s)(r := max 0 (min (es_allowance s r) (hl_maxAllowance h r)))"
  by (auto simp: clamp_allowance_def Let_def fun_eq_iff min_def max_def)

lemma clamp_allowances:
  fixes h :: hard_limits
  defines "c \<equiv> \<lambda>s. fold (clamp_allowance h) USAGE_RESOURCES s"
  shows "es_catalogModels (c s) = es_catalogModels s" "es_qualityTiers (c s) = es_qualityTiers s"
    "es_supplyPools (c s) = es_supplyPools s" "es_concurrencyLimit (c s) = es_concurrencyLimit s"
    "es_queuePriority (c s) = es_queuePriority s" "es_applied (c s) = es_applied s"
    "es_allowance (c s) r = max 0 (min (es_allowance s r) (hl_maxAllowance h r))"
  by (cases r; simp add: c_def USAGE_RESOURCES_def)+

lemma clamp_concurrency_simps [simp]:
  "es_catalogModels (clamp_concurrency h s) = es_catalogModels s"
  "es_qualityTiers (clamp_concurrency h s) = es_qualityTiers s"
  "es_supplyPools (clamp_concurrency h s) = es_supplyPools s"
  "es_applied (clamp_concurrency h s) = es_applied s"
  "es_allowance (clamp_concurrency h s) = es_allowance s"
  "es_queuePriority (clamp_concurrency h s) = es_queuePriority s"
  "es_concurrencyLimit (clamp_concurrency h s) = max 1 (min (es_concurrencyLimit s) (hl_maxConcurrency h))"
  by (auto simp: clamp_concurrency_def Let_def min_def max_def)

lemma clamp_queue_simps [simp]:
  "es_catalogModels (clamp_queue h s) = es_catalogModels s"
  "es_qualityTiers (clamp_queue h s) = es_qualityTiers s"
  "es_supplyPools (clamp_queue h s) = es_supplyPools s"
  "es_applied (clamp_queue h s) = es_applied s"
  "es_allowance (clamp_queue h s) = es_allowance s"
  "es_concurrencyLimit (clamp_queue h s) = es_concurrencyLimit s"
  "es_queuePriority (clamp_queue h s) = max 0 (min (es_queuePriority s) (hl_maxQueuePriority h))"
  by (auto simp: clamp_queue_def Let_def min_def max_def)

lemma deny_models_simps [simp]:
  "set (es_catalogModels (deny_models ds s)) = set (es_catalogModels s) - set ds"
  "es_qualityTiers (deny_models ds s) = es_qualityTiers s"
  "es_supplyPools (deny_models ds s) = es_supplyPools s"
  "es_applied (deny_models ds s) = es_applied s"
  "es_allowance (deny_models ds s) = es_allowance s"
  "es_concurrencyLimit (deny_models ds s) = es_concurrencyLimit s"
  "es_queuePriority (deny_models ds s) = es_queuePriority s"
  "distinct (es_catalogModels s) \<Longrightarrow> distinct (es_catalogModels (deny_models ds s))"
  by (induction ds arbitrary: s) (auto simp: deny_models_def)

lemma deny_tiers_simps [simp]:
  "es_catalogModels (deny_tiers ds s) = es_catalogModels s"
  "set (es_qualityTiers (deny_tiers ds s)) = set (es_qualityTiers s) - set ds"
  "es_supplyPools (deny_tiers ds s) = es_supplyPools s"
  "es_applied (deny_tiers ds s) = es_applied s"
  "es_allowance (deny_tiers ds s) = es_allowance s"
  "es_concurrencyLimit (deny_tiers ds s) = es_concurrencyLimit s"
  "es_queuePriority (deny_tiers ds s) = es_queuePriority s"
  "distinct (es_qualityTiers s) \<Longrightarrow> distinct (es_qualityTiers (deny_tiers ds s))"
  by (induction ds arbitrary: s) (auto simp: deny_tiers_def)

lemma deny_pools_simps [simp]:
  "es_catalogModels (deny_pools ds s) = es_catalogModels s"
  "es_qualityTiers (deny_pools ds s) = es_qualityTiers s"
  "set (es_supplyPools (deny_pools ds s)) = set (es_supplyPools s) - set ds"
  "es_applied (deny_pools ds s) = es_applied s"
  "es_allowance (deny_pools ds s) = es_allowance s"
  "es_concurrencyLimit (deny_pools ds s) = es_concurrencyLimit s"
  "es_queuePriority (deny_pools ds s) = es_queuePriority s"
  "distinct (es_supplyPools s) \<Longrightarrow> distinct (es_supplyPools (deny_pools ds s))"
  by (induction ds arbitrary: s) (auto simp: deny_pools_def)

text \<open>The result in terms of the state the layers leave.\<close>

lemma effective_fields:
  fixes inp :: entitlement_input
  defines "h \<equiv> or_default (ei_platformHardLimits inp) DEFAULT_PLATFORM_HARD_LIMITS"
    and "s \<equiv> apply_preferences (or_default (ei_requestPreferences inp) no_preferences) (layered_state inp)"
    and "e \<equiv> computeEffectiveEntitlement inp"
  shows "ee_allowance e r = max 0 (min (es_allowance s r) (hl_maxAllowance h r))"
    and "ee_concurrencyLimit e = max 1 (min (es_concurrencyLimit s) (hl_maxConcurrency h))"
    and "ee_queuePriority e = max 0 (min (es_queuePriority s) (hl_maxQueuePriority h))"
    and "set (ee_allowedCatalogModelIds e) = set (es_catalogModels s) - set (hl_deniedCatalogModelIds h)"
    and "set (ee_allowedQualityTiers e) = set (es_qualityTiers s) - set (hl_deniedQualityTiers h)"
    and "set (ee_availableSupplyPoolIds e) = set (es_supplyPools s) - set (hl_deniedSupplyPoolIds h)"
    and "sets_distinct s \<Longrightarrow> distinct (ee_allowedCatalogModelIds e)"
    and "distinct (ee_allowedQualityTiers e)"
    and "sets_distinct s \<Longrightarrow> distinct (ee_availableSupplyPoolIds e)"
proof -
  have tiers: "set (sortQualityTiers ts) = set ts" "distinct (sortQualityTiers ts)" for ts
  proof -
    have "t \<in> set [Auto, Balanced, Quality]" for t by (cases t) auto
    then show "set (sortQualityTiers ts) = set ts"
      unfolding sortQualityTiers_def set_filter by blast
    show "distinct (sortQualityTiers ts)" by (auto simp: sortQualityTiers_def)
  qed
  note defs = e_def s_def h_def computeEffectiveEntitlement_def effective_of_def Let_def clamp_hard_def
    clamp_allowances tiers sets_distinct_def
  show "ee_allowance e r = max 0 (min (es_allowance s r) (hl_maxAllowance h r))"
    "ee_concurrencyLimit e = max 1 (min (es_concurrencyLimit s) (hl_maxConcurrency h))"
    "ee_queuePriority e = max 0 (min (es_queuePriority s) (hl_maxQueuePriority h))"
    "set (ee_allowedCatalogModelIds e) = set (es_catalogModels s) - set (hl_deniedCatalogModelIds h)"
    "set (ee_allowedQualityTiers e) = set (es_qualityTiers s) - set (hl_deniedQualityTiers h)"
    "set (ee_availableSupplyPoolIds e) = set (es_supplyPools s) - set (hl_deniedSupplyPoolIds h)"
    "sets_distinct s \<Longrightarrow> distinct (ee_allowedCatalogModelIds e)"
    "distinct (ee_allowedQualityTiers e)"
    "sets_distinct s \<Longrightarrow> distinct (ee_availableSupplyPoolIds e)"
    by (simp_all add: defs)
qed

section \<open>Restricts come last\<close>

definition restricts :: "allocation_target \<Rightarrow> account_allocation \<Rightarrow> bool" where
  "restricts t a \<longleftrightarrow> aa_kind a = Restrict_kind \<and> aa_target a = t"

text \<open>What a state allows of a target that is a member of a set.\<close>

fun state_allows :: "allocation_target \<Rightarrow> ent_state \<Rightarrow> bool" where
  "state_allows (Catalog_model m) s = (m \<in> set (es_catalogModels s))"
| "state_allows (Quality_tier t) s = (t \<in> set (es_qualityTiers s))"
| "state_allows (Supply_pool p) s = (p \<in> set (es_supplyPools s))"
| "state_allows _ s = True"

definition set_target :: "allocation_target \<Rightarrow> bool" where
  "set_target t \<longleftrightarrow> (case t of Catalog_model _ \<Rightarrow> True | Quality_tier _ \<Rightarrow> True | Supply_pool _ \<Rightarrow> True | _ \<Rightarrow> False)"

lemma restrict_removes:
  "restricts t a \<Longrightarrow> set_target t \<Longrightarrow> \<not> state_allows t (apply_allocation layer a s)"
  by (cases t) (simp_all add: restricts_def apply_allocation_def Let_def applySet_def set_target_def)

lemma restrict_never_adds:
  "aa_kind a = Restrict_kind \<Longrightarrow> set_target t \<Longrightarrow> \<not> state_allows t s \<Longrightarrow>
    \<not> state_allows t (apply_allocation layer a s)"
  by (cases t; cases "aa_target a")
    (simp_all add: apply_allocation_def Let_def applySet_def set_target_def)

lemma restricts_remove:
  assumes "set_target t" and "\<forall>a \<in> set as. aa_kind a = Restrict_kind" and "\<exists>a \<in> set as. restricts t a"
  shows "\<not> state_allows t (fold (apply_allocation layer) as s)"
  using assms(2,3)
proof (induction "as" arbitrary: s)
  case (Cons a as)
  have keep: "\<not> state_allows t (fold (apply_allocation layer) as s')" if "\<not> state_allows t s'" for s'
    using that Cons.prems(1)
  proof (induction "as" arbitrary: s')
      case (Cons b as)
      then have "\<not> state_allows t (apply_allocation layer b s')"
        using restrict_never_adds [of b t s' layer] assms(1) by simp
      with Cons show ?case by simp
    qed simp
  show ?case
  proof (cases "restricts t a")
    case True
    with keep restrict_removes [OF True assms(1)] show ?thesis by simp
  next
    case False
    with Cons show ?thesis by simp
  qed
qed simp

lemma override_restricts:
  assumes "set_target t" and "a \<in> set (ei_accountOverrides inp)" and "isLive (ei_now inp) a"
    and "restricts t a"
  shows "\<not> state_allows t (layered_state inp)"
  unfolding layered_state_def Let_def applyNumeric_def fold_append o_apply
  using assms by (intro restricts_remove) (auto simp: restricts_def)

lemma preferences_never_add:
  "set_target t \<Longrightarrow> \<not> state_allows t s \<Longrightarrow> \<not> state_allows t (apply_preferences prefs s)"
  using preferences_sets(2-4) [of prefs s] by (cases t) (auto simp: set_target_def)

section \<open>Listing allocations\<close>

text \<open>
  The dates of a stored allocation parse, its amount has the sign of its kind, and a rolled-back one
  carries the time of its rollback.
\<close>

definition delta_ok :: "allocation_kind \<Rightarrow> int allocation_delta \<Rightarrow> bool" where
  "delta_ok k d \<longleftrightarrow>
     (case d of
        Delta n \<Rightarrow> (if k = Grant_kind then n > 0 else n < 0)
      | Cap n \<Rightarrow> n \<ge> 0
      | Set_enabled _ \<Rightarrow> True)"

lemma assertDelta_ok: "assertDelta k d = Inr () \<Longrightarrow> delta_ok k (checked_delta d)"
  by (cases k; cases d)
    (auto simp: assertDelta_def delta_ok_def Let_def r_bind_def check_def split: if_splits sum.splits)

definition allocation_ok :: "account_allocation \<Rightarrow> bool" where
  "allocation_ok a \<longleftrightarrow>
     delta_ok (aa_kind a) (aa_delta a) \<and>
     date_parse (aa_startsAt a) \<noteq> None \<and> (\<forall>e. aa_endsAt a = Some e \<longrightarrow> date_parse e \<noteq> None) \<and>
     (aa_status a = Alloc_rolled_back \<longleftrightarrow> aa_rolledBackAt a \<noteq> None)"

definition allocations_ok :: "allocation_store \<Rightarrow> bool" where
  "allocations_ok s \<longleftrightarrow>
     (\<forall>a \<in> set (as_allocations s). allocation_ok a) \<and>
     map aa_id (as_allocations s) = map (\<lambda>n. ''allocation:'' @ show_nat n) [1..<Suc (as_seq s)]"

inductive allocation_step :: "allocation_store \<Rightarrow> allocation_store \<Rightarrow> bool" where
  alloc_append: "append_allocation clock inp s = (r, s') \<Longrightarrow> allocation_step s s'"
| alloc_rollback: "rollback_allocation clock i s = (r, s') \<Longrightarrow> allocation_step s s'"
| alloc_list: "listActive accountId ws now s = (r, s') \<Longrightarrow> allocation_step s s'"

lemma visit_allocation_ok: "allocation_ok a \<Longrightarrow> allocation_ok (fst (visit_allocation accountId ws now a))"
  by (auto simp: visit_allocation_def allocation_ok_def split: option.splits)

lemma visit_allocation_id: "aa_id (fst (visit_allocation accountId ws now a)) = aa_id a"
  by (simp add: visit_allocation_def)

text \<open>The listing is the filter of the live allocations of the account in the workspace.\<close>

lemma visit_allocation_active:
  assumes "allocation_ok a"
  shows "snd (visit_allocation accountId ws now a) \<longleftrightarrow>
      aa_accountId a = accountId \<and> aa_workspaceId a = ws \<and> isLive now a"
    and "snd (visit_allocation accountId ws now a) \<Longrightarrow> fst (visit_allocation accountId ws now a) = a"
proof -
  obtain x where x: "date_parse (aa_startsAt a) = Some x" using assms by (auto simp: allocation_ok_def)
  have "snd (visit_allocation accountId ws now a) \<longleftrightarrow>
      aa_accountId a = accountId \<and> aa_workspaceId a = ws \<and> isLive now a"
  proof (cases "aa_endsAt a")
    case None
    with x show ?thesis by (cases "aa_status a") (auto simp: visit_allocation_def isLive_def)
  next
    case (Some e)
    then obtain y where "date_parse e = Some y" using assms by (auto simp: allocation_ok_def)
    with x Some show ?thesis by (cases "aa_status a") (auto simp: visit_allocation_def isLive_def)
  qed
  then show "snd (visit_allocation accountId ws now a) \<longleftrightarrow>
      aa_accountId a = accountId \<and> aa_workspaceId a = ws \<and> isLive now a" .
  show "snd (visit_allocation accountId ws now a) \<Longrightarrow> fst (visit_allocation accountId ws now a) = a"
    by (auto simp: visit_allocation_def split: if_splits)
qed

lemma listActive_filter:
  assumes "\<forall>a \<in> set (as_allocations s). allocation_ok a"
  shows "fst (listActive accountId ws now s) =
    filter (\<lambda>a. aa_accountId a = accountId \<and> aa_workspaceId a = ws \<and> isLive now a) (as_allocations s)"
proof -
  have "map fst (filter snd (map (visit_allocation accountId ws now) as)) =
      filter (\<lambda>a. aa_accountId a = accountId \<and> aa_workspaceId a = ws \<and> isLive now a) as"
    if "\<forall>a \<in> set as. allocation_ok a" for "as"
    using that visit_allocation_active by (induction "as") auto
  with assms show ?thesis by (simp add: listActive_def Let_def)
qed

lemma allocation_step_ok: "allocation_step s s' \<Longrightarrow> allocations_ok s \<Longrightarrow> allocations_ok s'"
proof (induction rule: allocation_step.induct)
  case (alloc_append clock inp s r s')
  show ?case
  proof (cases "s' = s")
    case False
    with alloc_append.hyps have dates: "assert_allocation_dates inp = Inr ()"
      and delta: "assertDelta (ga_kind inp) (ga_delta inp) = Inr ()"
      and s': "s' = s\<lparr>as_allocations := as_allocations s @ [new_allocation inp (Suc (as_seq s)) clock],
        as_seq := Suc (as_seq s)\<rparr>"
      by (auto simp: append_allocation_def guarded_def Let_def split: if_splits sum.splits)
    from dates assertDelta_ok [OF delta] have "allocation_ok (new_allocation inp (Suc (as_seq s)) clock)"
      by (auto simp: allocation_ok_def new_allocation_def assert_allocation_dates_def split: if_splits)
    with alloc_append.prems show ?thesis
      by (auto simp: allocations_ok_def s' new_allocation_def)
  qed (use alloc_append in simp)
next
  case (alloc_rollback clock i s r s')
  show ?case
  proof (cases "s' = s")
    case False
    with alloc_rollback.hyps obtain k where k: "find_index (\<lambda>a. aa_id a = i) (as_allocations s) = Some k"
      and s': "s' = s\<lparr>as_allocations := (as_allocations s)[k := (as_allocations s ! k)
        \<lparr>aa_status := Alloc_rolled_back, aa_rolledBackAt := Some clock\<rparr>]\<rparr>"
      by (auto simp: rollback_allocation_def Let_def split: option.splits if_splits)
    let ?a = "as_allocations s ! k"
    let ?a' = "?a\<lparr>aa_status := Alloc_rolled_back, aa_rolledBackAt := Some clock\<rparr>"
    have "k < length (as_allocations s)" using find_index_SomeD [OF k] by simp
    then have "?a \<in> set (as_allocations s)" by simp
    then have "allocation_ok ?a'"
      using alloc_rollback.prems by (simp add: allocations_ok_def allocation_ok_def)
    then have "\<forall>a \<in> set ((as_allocations s)[k := ?a']). allocation_ok a"
      using alloc_rollback.prems set_update_subset_insert [of "as_allocations s" k ?a']
      unfolding allocations_ok_def by blast
    moreover have "map aa_id ((as_allocations s)[k := ?a']) = map aa_id (as_allocations s)"
      by (rule map_update_same) simp
    ultimately show ?thesis
      using alloc_rollback.prems unfolding allocations_ok_def s' by simp
  qed (use alloc_rollback in simp)
next
  case (alloc_list accountId ws now s r s')
  then have s': "s' = s\<lparr>as_allocations := map (fst \<circ> visit_allocation accountId ws now) (as_allocations s)\<rparr>"
    by (auto simp: listActive_def Let_def)
  with alloc_list.prems show ?case
    by (auto simp: allocations_ok_def visit_allocation_ok visit_allocation_id o_def)
qed

lemma empty_allocations_ok: "allocations_ok empty_allocation_store"
  by (simp add: allocations_ok_def empty_allocation_store_def)

lemma allocation_run_ok: "allocation_step\<^sup>*\<^sup>* empty_allocation_store s \<Longrightarrow> allocations_ok s"
  by (induction rule: rtranclp_induct) (auto intro: allocation_step_ok empty_allocations_ok)

section \<open>Restricted numbers\<close>

text \<open>The number a state, and an entitlement, gives a target that is no member of a set.\<close>

fun state_number :: "allocation_target \<Rightarrow> ent_state \<Rightarrow> int" where
  "state_number (Allowance r) s = es_allowance s r"
| "state_number Concurrency s = es_concurrencyLimit s"
| "state_number Queue_priority s = es_queuePriority s"
| "state_number _ s = 0"

text \<open>The bound a restrict sets, when its delta is no difference.\<close>

fun delta_bound :: "int allocation_delta \<Rightarrow> int" where
  "delta_bound (Cap n) = n"
| "delta_bound (Set_enabled _) = 0"
| "delta_bound (Delta _) = 0"

lemma restrict_number_keeps:
  "aa_kind a = Restrict_kind \<Longrightarrow> delta_ok Restrict_kind (aa_delta a) \<Longrightarrow> 0 \<le> B \<Longrightarrow> state_number t s \<le> B \<Longrightarrow>
    state_number t (apply_allocation layer a s) \<le> B"
  by (cases t; cases "aa_target a"; cases "aa_delta a")
    (auto simp: apply_allocation_def Let_def applyNumber_def delta_ok_def)

lemma restricts_keep:
  "\<forall>a \<in> set as. aa_kind a = Restrict_kind \<and> delta_ok Restrict_kind (aa_delta a) \<Longrightarrow> 0 \<le> B \<Longrightarrow>
    state_number t s \<le> B \<Longrightarrow> state_number t (fold (apply_allocation layer) as s) \<le> B"
  by (induction "as" arbitrary: s) (simp_all add: restrict_number_keeps)

lemma restrict_number_bounds:
  "restricts t a \<Longrightarrow> \<not> set_target t \<Longrightarrow> \<forall>n. aa_delta a \<noteq> Delta n \<Longrightarrow>
    state_number t (apply_allocation layer a s) \<le> delta_bound (aa_delta a)"
  by (cases t; cases "aa_delta a")
    (auto simp: restricts_def set_target_def apply_allocation_def Let_def applyNumber_def)

lemma restricts_bound:
  assumes "\<forall>a \<in> set as. aa_kind a = Restrict_kind \<and> delta_ok Restrict_kind (aa_delta a)" and "a \<in> set as"
    and "restricts t a" and "\<not> set_target t" and "\<forall>n. aa_delta a \<noteq> Delta n"
  shows "state_number t (fold (apply_allocation layer) as s) \<le> delta_bound (aa_delta a)"
  using assms(1,2)
proof (induction "as" arbitrary: s)
  case (Cons b as)
  have B: "0 \<le> delta_bound (aa_delta a)"
    using Cons.prems by (cases "aa_delta a") (auto simp: delta_ok_def)
  show ?case
  proof (cases "a \<in> set as")
    case False
    then have "b = a" using Cons.prems by simp
    then have "state_number t (apply_allocation layer b s) \<le> delta_bound (aa_delta a)"
      using restrict_number_bounds assms by blast
    then have "state_number t (fold (apply_allocation layer) as (apply_allocation layer b s))
        \<le> delta_bound (aa_delta a)"
      using Cons.prems(1) B by (intro restricts_keep) simp_all
    then show ?thesis by simp
  qed (use Cons in simp)
qed simp

lemma override_bounds:
  assumes "a \<in> set (ei_accountOverrides inp)" and "isLive (ei_now inp) a"
    and "\<forall>b \<in> set (ei_accountOverrides inp). delta_ok (aa_kind b) (aa_delta b)"
    and "restricts t a" and "\<not> set_target t" and "\<forall>n. aa_delta a \<noteq> Delta n"
  shows "state_number t (layered_state inp) \<le> delta_bound (aa_delta a)"
  unfolding layered_state_def Let_def applyNumeric_def fold_append o_apply
  using assms by (intro restricts_bound) (auto simp: restricts_def)

text \<open>What the live restricts of a target take off its number, and the number they take it off.\<close>

definition restrict_deltas :: "allocation_target \<Rightarrow> account_allocation list \<Rightarrow> int" where
  "restrict_deltas t as =
     sum_list (map (\<lambda>a. case aa_delta a of Delta n \<Rightarrow> n | _ \<Rightarrow> 0) (filter (restricts t) as))"

definition granted_state :: "entitlement_input \<Rightarrow> ent_state" where
  "granted_state inp =
     fold (apply_allocation Account_override_layer)
       (filter (\<lambda>a. aa_kind a = Grant_kind) (filter (isLive (ei_now inp)) (ei_accountOverrides inp)))
       (applyNumeric (filter (isLive (ei_now inp)) (ei_campaignGrants inp)) Campaign_grant
         (plan_state (ei_planPolicy inp)))"

lemma restrict_deltas_Cons:
  "restrict_deltas t (a # as) =
    (if restricts t a then (case aa_delta a of Delta n \<Rightarrow> n | _ \<Rightarrow> 0) else 0) + restrict_deltas t as"
  by (simp add: restrict_deltas_def)

lemma restrict_deltas_nonpos:
  "\<forall>a \<in> set as. delta_ok (aa_kind a) (aa_delta a) \<Longrightarrow> restrict_deltas t as \<le> 0"
  by (induction "as") (auto simp: restrict_deltas_Cons restricts_def delta_ok_def restrict_deltas_def [of t "[]"]
      split: allocation_delta.splits)

lemma restrict_takes:
  assumes "aa_kind a = Restrict_kind"
  shows "state_number t (apply_allocation layer a s) \<le>
    max 0 (state_number t s + (if restricts t a then (case aa_delta a of Delta n \<Rightarrow> n | _ \<Rightarrow> 0) else 0))"
  using assms
  by (cases t; cases "aa_target a"; cases "aa_delta a")
    (auto simp: apply_allocation_def Let_def applyNumber_def restricts_def)

lemma restricts_take:
  assumes "\<forall>a \<in> set as. aa_kind a = Restrict_kind \<and> delta_ok Restrict_kind (aa_delta a)"
  shows "state_number t (fold (apply_allocation layer) as s) \<le> max 0 (state_number t s + restrict_deltas t as)"
  using assms
proof (induction "as" arbitrary: s)
  case (Cons a as)
  have "restrict_deltas t as \<le> 0" using Cons.prems by (intro restrict_deltas_nonpos) simp
  moreover have "state_number t (fold (apply_allocation layer) (a # as) s)
      \<le> max 0 (state_number t (apply_allocation layer a s) + restrict_deltas t as)"
    using Cons by simp
  ultimately show ?case
    using restrict_takes [of a t layer s] Cons.prems by (simp add: restrict_deltas_Cons)
qed (simp add: restrict_deltas_def)

lemma override_deltas:
  assumes "\<forall>b \<in> set (ei_accountOverrides inp). isLive (ei_now inp) b"
    and "\<forall>b \<in> set (ei_accountOverrides inp). delta_ok (aa_kind b) (aa_delta b)"
  shows "state_number t (layered_state inp) \<le>
    max 0 (state_number t (granted_state inp) + restrict_deltas t (ei_accountOverrides inp))"
proof -
  let ?rs = "filter (\<lambda>a. aa_kind a = Restrict_kind) (ei_accountOverrides inp)"
  have live: "filter (isLive (ei_now inp)) (ei_accountOverrides inp) = ei_accountOverrides inp"
    using assms(1) by (simp add: filter_id_conv)
  have "restrict_deltas t (filter (\<lambda>a. aa_kind a = Restrict_kind) as) = restrict_deltas t as" for "as"
    by (induction "as") (simp_all add: restrict_deltas_Cons restrict_deltas_def [of t "[]"] restricts_def)
  moreover have "layered_state inp = fold (apply_allocation Account_override_layer) ?rs (granted_state inp)"
    by (simp only: layered_state_def granted_state_def Let_def applyNumeric_def [of "ei_accountOverrides inp"]
        fold_append o_apply live)
  moreover have "\<forall>b \<in> set ?rs. aa_kind b = Restrict_kind \<and> delta_ok Restrict_kind (aa_delta b)"
    using assms(2) by auto
  ultimately show ?thesis using restricts_take [of ?rs] by metis
qed

lemma preferences_numbers: "state_number t (apply_preferences prefs s) \<le> state_number t s"
  by (cases t) (simp_all add: apply_preferences_def Let_def split: option.splits)

text \<open>What an entitlement allows of a member target, gives a number target, and the least it gives.\<close>

fun entitlement_allows :: "allocation_target \<Rightarrow> effective_entitlement \<Rightarrow> bool" where
  "entitlement_allows (Catalog_model m) e = (m \<in> set (ee_allowedCatalogModelIds e))"
| "entitlement_allows (Quality_tier t) e = (t \<in> set (ee_allowedQualityTiers e))"
| "entitlement_allows (Supply_pool p) e = (p \<in> set (ee_availableSupplyPoolIds e))"
| "entitlement_allows _ e = True"

fun entitlement_number :: "allocation_target \<Rightarrow> effective_entitlement \<Rightarrow> int" where
  "entitlement_number (Allowance r) e = ee_allowance e r"
| "entitlement_number Concurrency e = ee_concurrencyLimit e"
| "entitlement_number Queue_priority e = ee_queuePriority e"
| "entitlement_number _ e = 0"

fun least_number :: "allocation_target \<Rightarrow> int" where
  "least_number Concurrency = 1"
| "least_number _ = 0"

lemma entitlement_allows_layers:
  assumes "set_target t" and "\<not> state_allows t (layered_state inp)"
  shows "\<not> entitlement_allows t (computeEffectiveEntitlement inp)"
  using assms(1) preferences_never_add [OF assms] by (cases t) (auto simp: effective_fields set_target_def)

lemma clamp_bounds:
  fixes k :: int
  shows "k \<le> max k (min x m)" "max k (min x m) \<le> max k m" "x \<le> B \<Longrightarrow> max k (min x m) \<le> max k B"
  by auto

lemma entitlement_number_layers:
  assumes "\<not> set_target t" and "state_number t (layered_state inp) \<le> B"
  shows "entitlement_number t (computeEffectiveEntitlement inp) \<le> max (least_number t) B"
proof -
  let ?s = "apply_preferences (or_default (ei_requestPreferences inp) no_preferences) (layered_state inp)"
  have le: "state_number t ?s \<le> B"
    using preferences_numbers assms(2) by (rule order_trans)
  show ?thesis
  proof (cases t)
    case (Allowance r)
    with le show ?thesis by (simp add: effective_fields clamp_bounds del: max.bounded_iff)
  next
    case Concurrency
    with le show ?thesis by (simp add: effective_fields clamp_bounds del: max.bounded_iff)
  next
    case Queue_priority
    with le show ?thesis by (simp add: effective_fields clamp_bounds del: max.bounded_iff)
  qed (use assms(1) in \<open>simp_all add: set_target_def\<close>)
qed

section \<open>Rolled-back allocations\<close>

text \<open>What a step keeps of the allocations already there: their identifiers, and their rollback.\<close>

definition allocations_kept :: "allocation_store \<Rightarrow> allocation_store \<Rightarrow> bool" where
  "allocations_kept s s' \<longleftrightarrow>
     length (as_allocations s) \<le> length (as_allocations s') \<and>
     (\<forall>i < length (as_allocations s).
        aa_id (as_allocations s' ! i) = aa_id (as_allocations s ! i) \<and>
        (aa_status (as_allocations s ! i) = Alloc_rolled_back \<longrightarrow>
          aa_status (as_allocations s' ! i) = Alloc_rolled_back))"

lemma allocation_step_kept: "allocation_step s s' \<Longrightarrow> allocations_kept s s'"
proof (induction rule: allocation_step.induct)
  case (alloc_append clock inp s r s')
  then show ?case
    by (auto simp: append_allocation_def guarded_def Let_def allocations_kept_def nth_append
        split: if_splits sum.splits)
next
  case (alloc_rollback clock i s r s')
  then show ?case
    by (auto simp: rollback_allocation_def Let_def allocations_kept_def nth_list_update
        dest!: find_index_SomeD split: option.splits if_splits)
next
  case (alloc_list accountId ws now s r s')
  then show ?case
    by (auto simp: listActive_def Let_def allocations_kept_def visit_allocation_def)
qed

lemma allocation_run_kept: "allocation_step\<^sup>*\<^sup>* s s' \<Longrightarrow> allocations_kept s s'"
proof (induction rule: rtranclp_induct)
  case (step t u)
  from allocation_step_kept [OF step.hyps(2)] step.IH show ?case
    by (force simp: allocations_kept_def)
qed (simp add: allocations_kept_def)

lemma allocation_ids_distinct: "allocations_ok s \<Longrightarrow> distinct (map aa_id (as_allocations s))"
  by (auto simp: allocations_ok_def distinct_map inj_on_def show_nat_inj simp del: upt_Suc)

lemma rolled_back_stays:
  assumes "allocations_ok s'" and "allocations_kept s s'" and "a \<in> set (as_allocations s)"
    and "aa_status a = Alloc_rolled_back" and "b \<in> set (as_allocations s')" and "aa_id b = aa_id a"
  shows "aa_status b = Alloc_rolled_back"
proof -
  from assms(3) obtain i where i: "i < length (as_allocations s)" "as_allocations s ! i = a"
    by (auto simp: in_set_conv_nth)
  from assms(5) obtain j where j: "j < length (as_allocations s')" "as_allocations s' ! j = b"
    by (auto simp: in_set_conv_nth)
  have "aa_id (as_allocations s' ! i) = aa_id a" "i < length (as_allocations s')"
    using assms(2) i by (auto simp: allocations_kept_def)
  then have "i = j"
    using allocation_ids_distinct [OF assms(1)] j assms(6)
    by (simp add: distinct_conv_nth) (metis nth_map)
  with assms(2,4) i j show ?thesis by (auto simp: allocations_kept_def)
qed

end
