(* ===== verification/EntitlementProps.thy ===== *)
theory EntitlementProps
  imports EntitlementCorrect
begin

text \<open>
  The properties of the entitlements: what the platform's hard limits guarantee, that a restrict of
  an account wins over every grant and preference, and what a listing of the allocations returns.
\<close>

section \<open>Hard limits\<close>

text \<open>
  C35. Whatever the plan, the allocations and the preferences say, the effective entitlement stays
  within the platform's hard limits: every allowance and the queue priority lie between zero and
  their maximum, the concurrency between one and its maximum, no denied catalogue model, quality
  tier or supply pool is allowed, and no identifier is listed twice.
\<close>

theorem entitlement_within_hard_limits:
  "let h = or_default (ei_platformHardLimits inp) DEFAULT_PLATFORM_HARD_LIMITS;
       e = computeEffectiveEntitlement inp
   in 0 \<le> ee_allowance e r \<and> ee_allowance e r \<le> max 0 (hl_maxAllowance h r) \<and>
      1 \<le> ee_concurrencyLimit e \<and> ee_concurrencyLimit e \<le> max 1 (hl_maxConcurrency h) \<and>
      0 \<le> ee_queuePriority e \<and> ee_queuePriority e \<le> max 0 (hl_maxQueuePriority h) \<and>
      set (ee_allowedCatalogModelIds e) \<inter> set (hl_deniedCatalogModelIds h) = {} \<and>
      set (ee_allowedQualityTiers e) \<inter> set (hl_deniedQualityTiers h) = {} \<and>
      set (ee_availableSupplyPoolIds e) \<inter> set (hl_deniedSupplyPoolIds h) = {} \<and>
      distinct (ee_allowedCatalogModelIds e) \<and> distinct (ee_allowedQualityTiers e) \<and>
      distinct (ee_availableSupplyPoolIds e)"
  unfolding Let_def
  by (intro conjI effective_fields(7,9) [OF preferences_sets(1) [OF sets_distinct_layers]] effective_fields(8))
    (simp_all add: effective_fields(1-6) clamp_bounds Diff_Int_distrib2 del: max.bounded_iff)

section \<open>Restricts\<close>

text \<open>
  C5. Restricts win. Take any state of the allocation store that its operations can reach, a live
  restrict of an account in a workspace, and the allocations the store lists for them as overrides.
  Whatever the plan, the campaign grants, the other overrides and the preferences are, a restricted
  catalogue model, quality tier or supply pool is not in the effective entitlement. For an allowance,
  the concurrency or the queue priority, a restrict with a cap, or one that switches it off, bounds the
  number by that cap or by zero; a restrict by a negative amount does not bound it, but the amounts of
  all such live restricts together are taken off what the plan and every grant add up to. The number is
  never below the least value the platform gives.
\<close>

theorem restrict_wins:
  assumes "allocation_step\<^sup>*\<^sup>* empty_allocation_store s"
    and "a \<in> set (as_allocations s)" and "aa_accountId a = accountId" and "aa_workspaceId a = ws"
    and "isLive (ei_now inp) a" and "aa_kind a = Restrict_kind"
    and "ei_accountOverrides inp = fst (listActive accountId ws (ei_now inp) s)"
  shows "(set_target (aa_target a) \<longrightarrow>
      \<not> entitlement_allows (aa_target a) (computeEffectiveEntitlement inp)) \<and>
    (\<not> set_target (aa_target a) \<longrightarrow>
      ((\<forall>n. aa_delta a \<noteq> Delta n) \<longrightarrow>
        entitlement_number (aa_target a) (computeEffectiveEntitlement inp)
          \<le> max (least_number (aa_target a)) (delta_bound (aa_delta a))) \<and>
      entitlement_number (aa_target a) (computeEffectiveEntitlement inp)
        \<le> max (least_number (aa_target a))
            (state_number (aa_target a) (granted_state inp) +
             restrict_deltas (aa_target a) (ei_accountOverrides inp)))"
proof -
  have ok: "\<forall>b \<in> set (as_allocations s). allocation_ok b"
    using allocation_run_ok [OF assms(1)] by (simp add: allocations_ok_def)
  note listed = listActive_filter [OF ok, of accountId ws "ei_now inp"]
  have mem: "a \<in> set (ei_accountOverrides inp)" using assms listed by simp
  have live: "\<forall>b \<in> set (ei_accountOverrides inp). isLive (ei_now inp) b" using assms(7) listed by simp
  have deltas: "\<forall>b \<in> set (ei_accountOverrides inp). delta_ok (aa_kind b) (aa_delta b)"
    using ok assms(7) listed by (simp add: allocation_ok_def)
  have r: "restricts (aa_target a) a" using assms(6) by (simp add: restricts_def)
  have "0 \<le> least_number (aa_target a)" by (cases "aa_target a") simp_all
  then show ?thesis
    using entitlement_allows_layers override_restricts [OF _ mem assms(5) r]
      entitlement_number_layers override_bounds [OF mem assms(5) deltas r]
      entitlement_number_layers [OF _ override_deltas [OF live deltas, of "aa_target a"]]
    by (auto simp: max.absorb2 max.left_commute max_def split: if_splits)
qed

definition sample_policy :: entitlement_policy where
  "sample_policy =
     \<lparr> ep_revision = ''p1'', ep_tier = Growth, ep_storageMb = None, ep_allowance = (\<lambda>r. 10),
       ep_concurrencyLimit = 4, ep_queuePriority = 5, ep_supportLabel = Standard, ep_addOns = [],
       ep_autoTopUp = \<lparr>at_enabled = False, at_monthlyCapMicros = 0, at_spentThisMonthMicros = 0\<rparr>,
       ep_allowedCatalogModelIds = Some [''m1'', ''m2''], ep_allowedQualityTiers = None,
       ep_availableSupplyPoolIds = None, ep_overage = None, ep_validity = None \<rparr>"

definition sample_restrict :: grant_allocation_input where
  "sample_restrict =
     \<lparr> ga_accountId = ''acct'', ga_workspaceId = ''ws'', ga_kind = Restrict_kind,
       ga_target = Catalog_model ''m1'', ga_delta = Set_enabled False, ga_source = Risk_control,
       ga_reason = ''abuse'', ga_actorId = ''ops'', ga_startsAt = ''2026-01-01T00:00:00Z'',
       ga_endsAt = None, ga_correlationId = ''c1'' \<rparr>"

definition restricted_store :: allocation_store where
  "restricted_store = snd (append_allocation ''2026-01-01T00:00:00Z'' sample_restrict empty_allocation_store)"

definition sample_entitlement_input :: "int \<Rightarrow> entitlement_input" where
  "sample_entitlement_input now =
     \<lparr> ei_planPolicy = sample_policy, ei_platformHardLimits = None,
       ei_accountOverrides = fst (listActive ''acct'' ''ws'' now restricted_store),
       ei_campaignGrants = [], ei_requestPreferences = None, ei_now = now \<rparr>"

definition sample_allocation :: account_allocation where
  "sample_allocation = new_allocation sample_restrict 1 ''2026-01-01T00:00:00Z''"

lemma restricted_store_run: "allocation_step\<^sup>*\<^sup>* empty_allocation_store restricted_store"
  unfolding restricted_store_def by (intro r_into_rtranclp alloc_append) (rule prod.collapse [symmetric])

lemma restricted_store_allocations: "as_allocations restricted_store = [sample_allocation]"
  by code_simp

lemma restrict_wins_witness:
  "\<not> entitlement_allows (Catalog_model ''m1'')
       (computeEffectiveEntitlement (sample_entitlement_input 1770000000000))"
proof -
  have "aa_target sample_allocation = Catalog_model ''m1''" "set_target (Catalog_model ''m1'')"
    "isLive 1770000000000 sample_allocation" "aa_kind sample_allocation = Restrict_kind"
    "aa_accountId sample_allocation = ''acct''" "aa_workspaceId sample_allocation = ''ws''"
    by code_simp+
  then show ?thesis
    using restrict_wins [of restricted_store sample_allocation "''acct''" "''ws''"
      "sample_entitlement_input 1770000000000"] restricted_store_run
    by (simp add: restricted_store_allocations sample_entitlement_input_def)
qed

text \<open>
  In every reachable state of the allocation store a listing returns exactly the allocations of
  the account in the workspace that are live at that instant, in the order they were appended, and
  afterwards an allocation that was rolled back is listed at no later state.
\<close>

theorem listing_is_exact:
  assumes "allocation_step\<^sup>*\<^sup>* empty_allocation_store s"
  shows "fst (listActive accountId ws now s) =
      filter (\<lambda>a. aa_accountId a = accountId \<and> aa_workspaceId a = ws \<and> isLive now a) (as_allocations s) \<and>
    (allocation_step\<^sup>*\<^sup>* s s' \<and> a \<in> set (as_allocations s) \<and> aa_status a = Alloc_rolled_back \<longrightarrow>
      aa_id a \<notin> aa_id ` set (fst (listActive accountId ws now s')))"
proof -
  have listed: "fst (listActive accountId ws now t) =
      filter (\<lambda>a. aa_accountId a = accountId \<and> aa_workspaceId a = ws \<and> isLive now a) (as_allocations t)"
    if "allocation_step\<^sup>*\<^sup>* empty_allocation_store t" for t
    using allocation_run_ok [OF that] by (intro listActive_filter) (simp add: allocations_ok_def)
  have "aa_id a \<notin> aa_id ` set (fst (listActive accountId ws now s'))"
    if run: "allocation_step\<^sup>*\<^sup>* s s'" and a: "a \<in> set (as_allocations s)" "aa_status a = Alloc_rolled_back"
  proof -
    from assms run have run': "allocation_step\<^sup>*\<^sup>* empty_allocation_store s'" by (rule rtranclp_trans)
    show ?thesis
      using rolled_back_stays [OF allocation_run_ok [OF run'] allocation_run_kept [OF run] a]
      by (auto simp: listed [OF run'] isLive_def)
  qed
  with listed [OF assms] show ?thesis by blast
qed

lemma listing_is_exact_witness: "fst (listActive ''acct'' ''ws'' 1770000000000 restricted_store) = [sample_allocation]"
proof -
  have "isLive 1770000000000 sample_allocation" "aa_accountId sample_allocation = ''acct''"
    "aa_workspaceId sample_allocation = ''ws''"
    by code_simp+
  with listing_is_exact [OF restricted_store_run, of "''acct''" "''ws''" 1770000000000]
  show ?thesis by (simp add: restricted_store_allocations)
qed

end
