(* ===== verification/PolicyRevision.thy ===== *)
theory PolicyRevision
  imports Entitlement
begin

text \<open>
  The registry of plan policies (\<^verbatim>\<open>policy-revision.ts\<close>), the boundary of a model selection
  (\<^verbatim>\<open>model-selection-boundary.ts\<close>) and the product-side projection (\<^verbatim>\<open>dual-truth.ts\<close>). The published
  head of a tier is an object of the tier's history: here the position of that object, so that a
  write through the head is a write to the history.
\<close>

section \<open>The registry\<close>

record policy_body =
  pb_tier :: plan_tier
  pb_allowance :: "usage_resource \<Rightarrow> int"
  pb_concurrencyLimit :: int
  pb_queuePriority :: int
  pb_supportLabel :: support_label
  pb_rateLabel :: rate_label
  pb_extension :: policy_extension

datatype policy_stage = Draft | Published | Superseded | Rolled_back

record policy_revision =
  pr_id :: string
  pr_tier :: plan_tier
  pr_body :: policy_body
  pr_revision :: nat
  pr_stage :: policy_stage
  pr_actorId :: string
  pr_reason :: string
  pr_correlationId :: string
  pr_createdAt :: string
  pr_rolledBackToRevision :: "nat option"

record policy_registry =
  pg_byTier :: "(plan_tier, policy_revision list) js_map"
  pg_publishedHead :: "(plan_tier, nat) js_map"
  pg_seq :: nat

definition empty_policy_registry :: policy_registry where
  "empty_policy_registry = \<lparr>pg_byTier = [], pg_publishedHead = [], pg_seq = 0\<rparr>"

record policy_command =
  pc_tier :: plan_tier
  pc_actorId :: string
  pc_reason :: string
  pc_correlationId :: string
  pc_expectedPublishedRevision :: "nat option"

fun tier_name :: "plan_tier \<Rightarrow> string" where
  "tier_name Trial = ''trial''"
| "tier_name Starter = ''starter''"
| "tier_name Growth = ''growth''"
| "tier_name Pro = ''pro''"

definition tier_history :: "policy_registry \<Rightarrow> plan_tier \<Rightarrow> policy_revision list" where
  "tier_history s tier = (case map_of (pg_byTier s) tier of None \<Rightarrow> [] | Some h \<Rightarrow> h)"

definition head_revision :: "policy_registry \<Rightarrow> plan_tier \<Rightarrow> policy_revision option" where
  "head_revision s tier = map_option (\<lambda>i. tier_history s tier ! i) (map_of (pg_publishedHead s) tier)"

definition set_history :: "plan_tier \<Rightarrow> policy_revision list \<Rightarrow> policy_registry \<Rightarrow> policy_registry" where
  "set_history tier h s = s\<lparr>pg_byTier := map_set tier h (pg_byTier s)\<rparr>"

definition assertCas :: "policy_registry \<Rightarrow> plan_tier \<Rightarrow> nat option \<Rightarrow> unit result" where
  "assertCas s tier expected =
     check (map_option pr_revision (head_revision s tier) = expected)
       (P1DomainError IDEMPOTENCY_CONFLICT
          ''EntitlementPolicy published head changed before the command could be applied.'')"

definition policy_revision_id :: "plan_tier \<Rightarrow> nat \<Rightarrow> string" where
  "policy_revision_id tier seq = ''entitlement-policy:'' @ tier_name tier @ '':r'' @ show_nat seq"

definition new_revision ::
    "policy_command \<Rightarrow> policy_body \<Rightarrow> nat \<Rightarrow> policy_stage \<Rightarrow> nat option \<Rightarrow> string \<Rightarrow> policy_revision" where
  "new_revision cmd body seq stage target clock =
     \<lparr> pr_id = policy_revision_id (pc_tier cmd) seq, pr_tier = pc_tier cmd, pr_body = body,
       pr_revision = seq, pr_stage = stage, pr_actorId = pc_actorId cmd, pr_reason = pc_reason cmd,
       pr_correlationId = pc_correlationId cmd, pr_createdAt = clock,
       pr_rolledBackToRevision = target \<rparr>"

definition draft_policy ::
    "string \<Rightarrow> policy_command \<Rightarrow> policy_body \<Rightarrow> (policy_registry, policy_revision) op" where
  "draft_policy clock cmd body s =
     guarded (assertCas s (pc_tier cmd) (pc_expectedPublishedRevision cmd)) (\<lambda>_.
     guarded (check (pb_tier body = pc_tier cmd)
                (P1DomainError INVALID_STATE
                   ''EntitlementPolicy body tier must match the draft tier.'')) (\<lambda>_ s.
       let seq = Suc (pg_seq s);
           revision = new_revision cmd body seq Draft None clock
       in (Inr revision,
           set_history (pc_tier cmd) (tier_history s (pc_tier cmd) @ [revision]) (s\<lparr>pg_seq := seq\<rparr>)))) s"

text \<open>The previous head, when there is one, is marked superseded in the history it belongs to.\<close>

definition supersede_head :: "plan_tier \<Rightarrow> policy_registry \<Rightarrow> policy_registry" where
  "supersede_head tier s =
     (case map_of (pg_publishedHead s) tier of
        None \<Rightarrow> s
      | Some i \<Rightarrow>
          let h = tier_history s tier
          in set_history tier (h[i := (h ! i)\<lparr>pr_stage := Superseded\<rparr>]) s)"

definition publish_policy ::
    "policy_command \<Rightarrow> string \<Rightarrow> (policy_registry, policy_revision) op" where
  "publish_policy cmd revisionId s =
     guarded (assertCas s (pc_tier cmd) (pc_expectedPublishedRevision cmd)) (\<lambda>_ s.
       case find_index (\<lambda>r. pr_id r = revisionId) (tier_history s (pc_tier cmd)) of
         None \<Rightarrow> (Inl (P1DomainError NOT_FOUND ''EntitlementPolicy revision was not found.''), s)
       | Some i \<Rightarrow>
           if pr_stage (tier_history s (pc_tier cmd) ! i) \<noteq> Draft
           then (Inl (P1DomainError INVALID_STATE
                  ''Only draft EntitlementPolicy revisions can be published.''), s)
           else let s1 = supersede_head (pc_tier cmd) s;
                    h = tier_history s1 (pc_tier cmd);
                    published = (h ! i)\<lparr>pr_stage := Published, pr_actorId := pc_actorId cmd,
                                       pr_reason := pc_reason cmd,
                                       pr_correlationId := pc_correlationId cmd\<rparr>;
                    s2 = set_history (pc_tier cmd) (h[i := published]) s1
                in (Inr published,
                    s2\<lparr>pg_publishedHead := map_set (pc_tier cmd) i (pg_publishedHead s2)\<rparr>)) s"

definition rollback_policy ::
    "string \<Rightarrow> policy_command \<Rightarrow> nat \<Rightarrow> (policy_registry, policy_revision) op" where
  "rollback_policy clock cmd targetRevision s =
     guarded (assertCas s (pc_tier cmd) (pc_expectedPublishedRevision cmd)) (\<lambda>_ s.
       case find (\<lambda>r. pr_revision r = targetRevision \<and>
                     (pr_stage r = Published \<or> pr_stage r = Superseded \<or> pr_stage r = Rolled_back))
              (tier_history s (pc_tier cmd)) of
         None \<Rightarrow> (Inl (P1DomainError NOT_FOUND ''EntitlementPolicy target revision was not found.''), s)
       | Some target \<Rightarrow>
           let s1 = supersede_head (pc_tier cmd) s;
               seq = Suc (pg_seq s1);
               rolled = (new_revision cmd (pr_body target) seq Rolled_back (Some (pr_revision target)) clock)
                          \<lparr>pr_stage := Published\<rparr>;
               h = tier_history s1 (pc_tier cmd);
               s2 = set_history (pc_tier cmd) (h @ [rolled]) (s1\<lparr>pg_seq := seq\<rparr>)
           in (Inr rolled,
               s2\<lparr>pg_publishedHead := map_set (pc_tier cmd) (length h) (pg_publishedHead s2)\<rparr>)) s"

definition getPublished :: "policy_registry \<Rightarrow> plan_tier \<Rightarrow> policy_revision option" where
  "getPublished s tier = head_revision s tier"

definition policy_history :: "policy_registry \<Rightarrow> plan_tier \<Rightarrow> policy_revision list" where
  "policy_history s tier = tier_history s tier"

definition projectPlanPolicy :: "policy_registry \<Rightarrow> plan_tier \<Rightarrow> policy_body option" where
  "projectPlanPolicy s tier = map_option pr_body (getPublished s tier)"

section \<open>Model selection\<close>

datatype selection_request = Fixed_model "string option" | Auto_model "quality_tier option"

record selection_boundary =
  sb_auto :: bool
  sb_fixedCatalogModelId :: "string option"
  sb_maySelectCatalogModel :: bool
  sb_maySelectDeployment :: bool
  sb_qualityTier :: "quality_tier option"

definition resolveModelSelectionBoundary :: "selection_request \<Rightarrow> selection_boundary result" where
  "resolveModelSelectionBoundary request =
     (case request of
        Fixed_model m \<Rightarrow>
          let catalogModelId = (case m of None \<Rightarrow> [] | Some x \<Rightarrow> trim x)
          in if catalogModelId = []
             then Inl (P1DomainError INVALID_STATE ''Fixed model selection requires catalogModelId.'')
             else Inr \<lparr>sb_auto = False, sb_fixedCatalogModelId = Some catalogModelId,
                       sb_maySelectCatalogModel = False, sb_maySelectDeployment = True,
                       sb_qualityTier = None\<rparr>
      | Auto_model tier \<Rightarrow>
          Inr \<lparr>sb_auto = True, sb_fixedCatalogModelId = None, sb_maySelectCatalogModel = True,
               sb_maySelectDeployment = True, sb_qualityTier = Some (or_default tier Auto)\<rparr>)"

section \<open>The product-side projection\<close>

text \<open>An \<^verbatim>\<open>unknown\<close> value as the guard walks it: leaves, arrays and objects with ordered keys.\<close>

datatype js_value =
    JLeaf
  | JArray "js_value list"
  | JObject "(string \<times> js_value) list"

definition UPSTREAM_RESOURCE_KEYS :: "string list" where
  "UPSTREAM_RESOURCE_KEYS =
     [''upstreamToken'', ''upstreamAccountId'', ''upstreamAccount'', ''gatewayBalance'',
      ''providerToken'', ''providerApiKey'', ''credentialSecret'', ''rpmLimit'', ''tpmLimit'',
      ''providerBalance'']"

definition isUpstreamKey :: "string \<Rightarrow> bool" where
  "isUpstreamKey key \<longleftrightarrow> key \<in> set UPSTREAM_RESOURCE_KEYS"

fun collectUpstreamKeys :: "string \<Rightarrow> js_value \<Rightarrow> string list"
  and collect_items :: "string \<Rightarrow> nat \<Rightarrow> js_value list \<Rightarrow> string list"
  and collect_entries :: "string \<Rightarrow> (string \<times> js_value) list \<Rightarrow> string list" where
  "collectUpstreamKeys path JLeaf = []"
| "collectUpstreamKeys path (JArray xs) = collect_items path 0 xs"
| "collectUpstreamKeys path (JObject kvs) = collect_entries path kvs"
| "collect_items path i [] = []"
| "collect_items path i (x # xs) =
     collectUpstreamKeys (path @ ''['' @ show_nat i @ '']'') x @ collect_items path (Suc i) xs"
| "collect_entries path [] = []"
| "collect_entries path ((key, child) # kvs) =
     (let childPath = (if path = [] then key else path @ ''.'' @ key)
      in (if isUpstreamKey key then [childPath] else collectUpstreamKeys childPath child) @
         collect_entries path kvs)"

fun join_comma :: "string list \<Rightarrow> string" where
  "join_comma [] = []"
| "join_comma [x] = x"
| "join_comma (x # y # xs) = x @ '', '' @ join_comma (y # xs)"

definition assertNoUpstreamResources :: "js_value \<Rightarrow> unit result" where
  "assertNoUpstreamResources v =
     (let offenders = collectUpstreamKeys [] v
      in check (offenders = [])
           (P1DomainError INVALID_STATE
              (''Product-side entitlement projection must not include upstream resources: '' @
               join_comma offenders)))"

definition wouldAssignUpstreamResourceToUser :: "(string \<times> js_value) list \<Rightarrow> bool" where
  "wouldAssignUpstreamResourceToUser assignment \<longleftrightarrow> collectUpstreamKeys [] (JObject assignment) \<noteq> []"

record product_projection =
  pj_tier :: plan_tier
  pj_revision :: string
  pj_allowedCatalogModelIds :: "string list"
  pj_allowedQualityTiers :: "quality_tier list"
  pj_allowance :: "usage_resource \<Rightarrow> int"
  pj_overage :: overage_mode
  pj_concurrencyLimit :: int
  pj_queuePriority :: int
  pj_availableSupplyPoolIds :: "string list"
  pj_auto_catalog_and_deployment :: bool

text \<open>The object the projection is, with the keys the source gives it.\<close>

definition projection_value :: "product_projection \<Rightarrow> js_value" where
  "projection_value p =
     (let ids = (\<lambda>xs. JArray (map (\<lambda>_. JLeaf) xs))
      in JObject
        [(''entitlement'', JObject [(''tier'', JLeaf), (''revision'', JLeaf),
            (''allowedCatalogModelIds'', ids (pj_allowedCatalogModelIds p)),
            (''allowedQualityTiers'', JArray (map (\<lambda>_. JLeaf) (pj_allowedQualityTiers p)))]),
         (''usageAllowance'', JObject
            [(''allowance'', JObject (map (\<lambda>r. (resource_name r, JLeaf)) USAGE_RESOURCES)),
             (''overage'', JObject [(''mode'', JLeaf)])]),
         (''concurrencyPolicy'', JObject [(''concurrencyLimit'', JLeaf), (''queuePriority'', JLeaf)]),
         (''routePolicy'', JObject
            [(''availableSupplyPoolIds'', ids (pj_availableSupplyPoolIds p)),
             (''selectionBoundary'', JLeaf)])])"

definition projectProductSideEntitlement ::
    "effective_entitlement \<Rightarrow> selection_boundary \<Rightarrow> product_projection result" where
  "projectProductSideEntitlement e b =
     (let p = \<lparr> pj_tier = ee_tier e, pj_revision = ee_planPolicyRevision e,
                pj_allowedCatalogModelIds = ee_allowedCatalogModelIds e,
                pj_allowedQualityTiers = ee_allowedQualityTiers e, pj_allowance = ee_allowance e,
                pj_overage = ee_overage e, pj_concurrencyLimit = ee_concurrencyLimit e,
                pj_queuePriority = ee_queuePriority e,
                pj_availableSupplyPoolIds = ee_availableSupplyPoolIds e,
                pj_auto_catalog_and_deployment = sb_maySelectCatalogModel b \<rparr>
      in r_bind (assertNoUpstreamResources (projection_value p)) (\<lambda>_. Inr p))"

end
