(* ===== verification/PolicyRevisionProps.thy ===== *)
theory PolicyRevisionProps
  imports PolicyRevision
begin

text \<open>
  The properties of the policy registry: one published revision per tier, which is its head, and a
  rollback that restores the policy of any revision ever published; and of the projection, whose
  guard finds an upstream key wherever it is.
\<close>

section \<open>The registry\<close>

inductive registry_step :: "policy_registry \<Rightarrow> policy_registry \<Rightarrow> bool" where
  step_draft: "draft_policy clock cmd body s = (r, s') \<Longrightarrow> registry_step s s'"
| step_publish: "publish_policy cmd revisionId s = (r, s') \<Longrightarrow> registry_step s s'"
| step_rollback: "rollback_policy clock cmd targetRevision s = (r, s') \<Longrightarrow> registry_step s s'"

abbreviation registry_run :: "policy_registry \<Rightarrow> policy_registry \<Rightarrow> bool" where
  "registry_run \<equiv> registry_step\<^sup>*\<^sup>*"

definition revision_ok :: "plan_tier \<Rightarrow> nat \<Rightarrow> policy_revision \<Rightarrow> bool" where
  "revision_ok t seq r \<longleftrightarrow>
     pr_revision r \<le> seq \<and> pr_tier r = t \<and> pb_tier (pr_body r) = t \<and>
     pr_id r = policy_revision_id t (pr_revision r) \<and> pr_stage r \<noteq> Rolled_back"

text \<open>A history under a head: the head is the one published revision, revision numbers increase.\<close>

definition history_ok :: "plan_tier \<Rightarrow> nat \<Rightarrow> policy_revision list \<Rightarrow> nat option \<Rightarrow> bool" where
  "history_ok t seq h pos \<longleftrightarrow>
     sorted_wrt (<) (map pr_revision h) \<and> (\<forall>r \<in> set h. revision_ok t seq r) \<and>
     (\<forall>i < length h. pr_stage (h ! i) = Published \<longleftrightarrow> pos = Some i) \<and>
     (\<forall>i. pos = Some i \<longrightarrow> i < length h)"

definition registry_ok :: "policy_registry \<Rightarrow> bool" where
  "registry_ok s \<longleftrightarrow> (\<forall>t. history_ok t (pg_seq s) (tier_history s t) (map_of (pg_publishedHead s) t))"

lemma tier_history_set [simp]:
  "tier_history (set_history t h s) t' = (if t' = t then h else tier_history s t')"
  "pg_publishedHead (set_history t h s) = pg_publishedHead s" "pg_seq (set_history t h s) = pg_seq s"
  by (simp_all add: tier_history_def set_history_def)

lemma tier_history_update [simp]:
  "tier_history (s\<lparr>pg_seq := n\<rparr>) t = tier_history s t"
  "tier_history (s\<lparr>pg_publishedHead := m\<rparr>) t = tier_history s t"
  by (simp_all add: tier_history_def)

lemma revision_ok_mono: "revision_ok t seq r \<Longrightarrow> seq \<le> seq' \<Longrightarrow> revision_ok t seq' r"
  by (auto simp: revision_ok_def)

lemma history_ok_mono: "history_ok t seq h pos \<Longrightarrow> seq \<le> seq' \<Longrightarrow> history_ok t seq' h pos"
  by (auto simp: history_ok_def intro: revision_ok_mono)

lemma history_ok_append:
  assumes "history_ok t seq h pos" and "pr_revision r = Suc seq" and "revision_ok t (Suc seq) r"
    and "if pr_stage r = Published then pos = None \<and> pos' = Some (length h) else pos' = pos"
  shows "history_ok t (Suc seq) (h @ [r]) pos'"
proof -
  have "\<forall>x \<in> set h. pr_revision x < Suc seq"
    using assms(1) by (auto simp: history_ok_def revision_ok_def)
  moreover have "revision_ok t (Suc seq) x" if "x \<in> set h" for x
    using assms(1) that by (auto simp: history_ok_def intro: revision_ok_mono)
  ultimately show ?thesis
    using assms by (auto simp: history_ok_def sorted_wrt_append nth_append less_Suc_eq split: if_splits)
qed

lemma history_ok_update:
  assumes "history_ok t seq h pos" and "k < length h"
    and "pr_revision r = pr_revision (h ! k)" and "revision_ok t seq r"
    and "\<forall>i < length h. i \<noteq> k \<longrightarrow> (pos = Some i) = (pos' = Some i)"
    and "pr_stage r = Published \<longleftrightarrow> pos' = Some k" and "\<forall>i. pos' = Some i \<longrightarrow> i < length h"
  shows "history_ok t seq (h[k := r]) pos'"
proof -
  have "map pr_revision (h[k := r]) = map pr_revision h"
    using assms(2,3) by (simp add: map_update list_update_same_conv)
  moreover have "\<forall>x \<in> set (h[k := r]). revision_ok t seq x"
    using assms(1,4) set_update_subset_insert [of h k r] by (auto simp: history_ok_def)
  ultimately show ?thesis
    using assms by (auto simp: history_ok_def nth_list_update)
qed

text \<open>What superseding the head does: the tier is left without a published revision.\<close>

lemma supersede_head_simps [simp]:
  "pg_publishedHead (supersede_head t s) = pg_publishedHead s" "pg_seq (supersede_head t s) = pg_seq s"
  "t' \<noteq> t \<Longrightarrow> tier_history (supersede_head t s) t' = tier_history s t'"
  "length (tier_history (supersede_head t s) t') = length (tier_history s t')"
  by (auto simp: supersede_head_def Let_def split: option.splits)

lemma supersede_head_ok:
  assumes "registry_ok s"
  shows "history_ok t (pg_seq s) (tier_history (supersede_head t s) t) None"
proof (cases "map_of (pg_publishedHead s) t")
  case None
  then show ?thesis using assms [unfolded registry_ok_def, rule_format, of t] by (simp add: supersede_head_def)
next
  case (Some i)
  have ok: "history_ok t (pg_seq s) (tier_history s t) (Some i)"
    using assms [unfolded registry_ok_def, rule_format, of t] Some by simp
  then have "i < length (tier_history s t)" by (simp add: history_ok_def)
  moreover from this have "revision_ok t (pg_seq s) (tier_history s t ! i)"
    using ok by (simp add: history_ok_def)
  ultimately show ?thesis
    using Some ok
    by (auto simp: supersede_head_def Let_def revision_ok_def intro!: history_ok_update [OF ok])
qed

text \<open>The three commands that succeed, as the state they leave.\<close>

lemma draft_policy_cases:
  assumes "draft_policy clock cmd body s = (r, s')"
  obtains "s' = s"
  | "pb_tier body = pc_tier cmd"
    "s' = set_history (pc_tier cmd) (tier_history s (pc_tier cmd) @
        [new_revision cmd body (Suc (pg_seq s)) Draft None clock]) (s\<lparr>pg_seq := Suc (pg_seq s)\<rparr>)"
  using assms by (auto simp: draft_policy_def guarded_def Let_def check_def split: if_splits sum.splits)

definition published_draft :: "policy_command \<Rightarrow> policy_revision \<Rightarrow> policy_revision" where
  "published_draft cmd r =
     r\<lparr>pr_stage := Published, pr_actorId := pc_actorId cmd, pr_reason := pc_reason cmd,
       pr_correlationId := pc_correlationId cmd\<rparr>"

lemma publish_policy_cases:
  assumes "publish_policy cmd revisionId s = (r, s')"
  obtains "s' = s"
  | i where "i < length (tier_history s (pc_tier cmd))" "pr_stage (tier_history s (pc_tier cmd) ! i) = Draft"
    "s' = (let s1 = supersede_head (pc_tier cmd) s; h = tier_history s1 (pc_tier cmd);
               s2 = set_history (pc_tier cmd) (h[i := published_draft cmd (h ! i)]) s1
           in s2\<lparr>pg_publishedHead := map_set (pc_tier cmd) i (pg_publishedHead s2)\<rparr>)"
proof (cases "assertCas s (pc_tier cmd) (pc_expectedPublishedRevision cmd)")
  case (Inr u)
  note step = assms [unfolded publish_policy_def guarded_def Inr sum.case]
  show ?thesis
  proof (cases "find_index (\<lambda>r. pr_id r = revisionId) (tier_history s (pc_tier cmd))")
    case (Some i)
    show ?thesis
    proof (cases "pr_stage (tier_history s (pc_tier cmd) ! i) = Draft")
      case True
      with step Some have "s' = (let s1 = supersede_head (pc_tier cmd) s; h = tier_history s1 (pc_tier cmd);
          s2 = set_history (pc_tier cmd) (h[i := published_draft cmd (h ! i)]) s1
        in s2\<lparr>pg_publishedHead := map_set (pc_tier cmd) i (pg_publishedHead s2)\<rparr>)"
        by (simp add: Let_def published_draft_def)
      with True find_index_SomeD [OF Some] show ?thesis by (intro that(2) [of i]) simp_all
    next
      case False
      with step Some have "s' = s" by simp
      then show ?thesis by (rule that(1))
    qed
  next
    case None
    with step have "s' = s" by simp
    then show ?thesis by (rule that(1))
  qed
next
  case (Inl e)
  with assms have "s' = s" by (simp add: publish_policy_def guarded_def)
  then show ?thesis by (rule that(1))
qed

definition rolled_revision :: "string \<Rightarrow> policy_command \<Rightarrow> policy_revision \<Rightarrow> nat \<Rightarrow> policy_revision" where
  "rolled_revision clock cmd target seq =
     (new_revision cmd (pr_body target) seq Rolled_back (Some (pr_revision target)) clock)\<lparr>pr_stage := Published\<rparr>"

definition rolled_registry :: "string \<Rightarrow> policy_command \<Rightarrow> policy_revision \<Rightarrow> policy_registry \<Rightarrow> policy_registry" where
  "rolled_registry clock cmd target s =
     (let s1 = supersede_head (pc_tier cmd) s; h = tier_history s1 (pc_tier cmd);
          s2 = set_history (pc_tier cmd) (h @ [rolled_revision clock cmd target (Suc (pg_seq s1))])
                 (s1\<lparr>pg_seq := Suc (pg_seq s1)\<rparr>)
      in s2\<lparr>pg_publishedHead := map_set (pc_tier cmd) (length h) (pg_publishedHead s2)\<rparr>)"

lemma rollback_policy_cases:
  assumes "rollback_policy clock cmd n s = (r, s')"
  obtains "s' = s"
  | target where "target \<in> set (tier_history s (pc_tier cmd))" "s' = rolled_registry clock cmd target s"
proof (cases "assertCas s (pc_tier cmd) (pc_expectedPublishedRevision cmd)")
  case (Inr u)
  note step = assms [unfolded rollback_policy_def guarded_def Inr sum.case]
  show ?thesis
  proof (cases "find (\<lambda>r. pr_revision r = n \<and>
      (pr_stage r = Published \<or> pr_stage r = Superseded \<or> pr_stage r = Rolled_back)) (tier_history s (pc_tier cmd))")
    case (Some target)
    then have "target \<in> set (tier_history s (pc_tier cmd))" by (auto simp: find_Some_iff)
    moreover have "s' = rolled_registry clock cmd target s"
      using step Some by (simp add: Let_def rolled_registry_def rolled_revision_def)
    ultimately show ?thesis by (rule that(2))
  next
    case None
    with step have "s' = s" by simp
    then show ?thesis by (rule that(1))
  qed
next
  case (Inl e)
  with assms have "s' = s" by (simp add: rollback_policy_def guarded_def)
  then show ?thesis by (rule that(1))
qed

lemma registry_step_ok:
  assumes "registry_step s s'" and "registry_ok s"
  shows "registry_ok s'"
  using assms(1)
proof cases
  case (step_draft clock cmd body r)
  then show ?thesis
  proof (cases rule: draft_policy_cases)
    case 2
    show ?thesis
      unfolding registry_ok_def
    proof
      fix t
      have "history_ok t (pg_seq s) (tier_history s t) (map_of (pg_publishedHead s) t)"
        using assms(2) by (simp add: registry_ok_def)
      with 2 show "history_ok t (pg_seq s') (tier_history s' t) (map_of (pg_publishedHead s') t)"
        by (auto intro: history_ok_mono history_ok_append simp: new_revision_def revision_ok_def)
    qed
  qed (use assms(2) in simp)
next
  case (step_publish cmd i r)
  then show ?thesis
  proof (cases rule: publish_policy_cases)
    case (2 k)
    let ?t = "pc_tier cmd" and ?h = "tier_history (supersede_head (pc_tier cmd) s) (pc_tier cmd)"
    have h: "history_ok ?t (pg_seq s) ?h None" by (rule supersede_head_ok [OF assms(2)])
    have k: "k < length ?h" using 2(1) by simp
    with h have "revision_ok ?t (pg_seq s) (?h ! k)" by (simp add: history_ok_def)
    with h k have "history_ok ?t (pg_seq s) (?h[k := published_draft cmd (?h ! k)]) (Some k)"
      by (intro history_ok_update [OF h k]) (auto simp: published_draft_def revision_ok_def)
    with assms(2) show ?thesis by (simp add: registry_ok_def 2(3) Let_def)
  qed (use assms(2) in simp)
next
  case (step_rollback clock cmd n r)
  then show ?thesis
  proof (cases rule: rollback_policy_cases)
    case (2 target)
    let ?t = "pc_tier cmd" and ?h = "tier_history (supersede_head (pc_tier cmd) s) (pc_tier cmd)"
    have h: "history_ok ?t (pg_seq s) ?h None" by (rule supersede_head_ok [OF assms(2)])
    have "pb_tier (pr_body target) = ?t"
      using assms(2) 2(1) by (auto simp: registry_ok_def history_ok_def revision_ok_def)
    with h have "history_ok ?t (Suc (pg_seq s))
        (?h @ [rolled_revision clock cmd target (Suc (pg_seq s))]) (Some (length ?h))"
      by (intro history_ok_append [OF h])
        (auto simp: rolled_revision_def new_revision_def revision_ok_def)
    with assms(2) show ?thesis
      by (auto simp: registry_ok_def 2(2) rolled_registry_def Let_def intro: history_ok_mono)
  qed (use assms(2) in simp)
qed

lemma empty_registry_ok: "registry_ok empty_policy_registry"
  by (simp add: registry_ok_def history_ok_def empty_policy_registry_def tier_history_def)

lemma registry_run_ok: "registry_run empty_policy_registry s \<Longrightarrow> registry_ok s"
  by (induction rule: rtranclp_induct) (auto intro: registry_step_ok empty_registry_ok)

text \<open>What the commands keep of a revision: its facts, and that it was published once.\<close>

definition was_published :: "policy_revision \<Rightarrow> bool" where
  "was_published r \<longleftrightarrow> pr_stage r = Published \<or> pr_stage r = Superseded \<or> pr_stage r = Rolled_back"

definition revision_kept :: "policy_revision \<Rightarrow> policy_revision \<Rightarrow> bool" where
  "revision_kept r r' \<longleftrightarrow>
     pr_id r' = pr_id r \<and> pr_revision r' = pr_revision r \<and> pr_body r' = pr_body r \<and>
     pr_rolledBackToRevision r' = pr_rolledBackToRevision r \<and> (was_published r \<longrightarrow> was_published r')"

definition history_kept :: "policy_revision list \<Rightarrow> policy_revision list \<Rightarrow> bool" where
  "history_kept h h' \<longleftrightarrow> (\<exists>xs ys. h' = xs @ ys \<and> list_all2 revision_kept h xs)"

lemma revision_kept_refl [simp]: "revision_kept r r"
  by (simp add: revision_kept_def)

lemma history_kept_refl [simp]: "history_kept h h"
  unfolding history_kept_def by (intro exI [of _ h] exI [of _ "[]"]) (simp add: list_all2_refl)

lemma history_kept_append: "history_kept h h' \<Longrightarrow> history_kept h (h' @ ys)"
  unfolding history_kept_def by (metis append.assoc)

lemma history_kept_update: "k < length h \<Longrightarrow> revision_kept (h ! k) r \<Longrightarrow> history_kept h (h[k := r])"
  unfolding history_kept_def
  by (intro exI [of _ "h[k := r]"] exI [of _ "[]"]) (auto simp: list_all2_conv_all_nth nth_list_update)

lemma history_kept_trans: "history_kept h h' \<Longrightarrow> history_kept h' h'' \<Longrightarrow> history_kept h h''"
proof -
  assume "history_kept h h'" and "history_kept h' h''"
  then obtain xs ys zs us where *: "h' = xs @ ys" "list_all2 revision_kept h xs"
    "h'' = zs @ us" "list_all2 revision_kept h' zs"
    by (auto simp: history_kept_def)
  then obtain as bs where "zs = as @ bs" "list_all2 revision_kept xs as"
    by (auto simp: list_all2_append1)
  moreover have "list_all2 revision_kept h as"
    by (rule list_all2_trans [OF _ *(2) \<open>list_all2 revision_kept xs as\<close>]) (auto simp: revision_kept_def)
  ultimately show ?thesis using * by (auto simp: history_kept_def)
qed

lemma supersede_head_kept:
  assumes "registry_ok s"
  shows "history_kept (tier_history s t) (tier_history (supersede_head t s) t)"
proof (cases "map_of (pg_publishedHead s) t")
  case (Some i)
  have "history_ok t (pg_seq s) (tier_history s t) (Some i)"
    using assms [unfolded registry_ok_def, rule_format, of t] Some by simp
  then have "i < length (tier_history s t)" by (simp add: history_ok_def)
  with Some show ?thesis
    by (auto simp: supersede_head_def Let_def revision_kept_def was_published_def intro!: history_kept_update)
qed (simp add: supersede_head_def)

lemma registry_step_kept:
  assumes "registry_step s s'" and "registry_ok s"
  shows "history_kept (tier_history s t) (tier_history s' t)"
  using assms(1)
proof cases
  case (step_draft clock cmd body r)
  then show ?thesis by (cases rule: draft_policy_cases) (auto intro: history_kept_append)
next
  case (step_publish cmd i r)
  then show ?thesis
  proof (cases rule: publish_policy_cases)
    case (2 k)
    show ?thesis
    proof (cases "t = pc_tier cmd")
      case True
      have "history_kept (tier_history (supersede_head t s) t)
          ((tier_history (supersede_head t s) t)[k := published_draft cmd (tier_history (supersede_head t s) t ! k)])"
        using 2(1) True
        by (intro history_kept_update) (simp_all add: revision_kept_def published_draft_def was_published_def)
      with supersede_head_kept [OF assms(2), of t] True 2(3) show ?thesis
        by (auto simp: Let_def intro: history_kept_trans)
    qed (simp add: 2(3) Let_def)
  qed simp
next
  case (step_rollback clock cmd n r)
  then show ?thesis
  proof (cases rule: rollback_policy_cases)
    case (2 target)
    show ?thesis
      using supersede_head_kept [OF assms(2), of t]
      by (auto simp: 2(2) rolled_registry_def Let_def intro: history_kept_append)
  qed simp
qed

lemma registry_run_kept:
  assumes "registry_run s s'" and "registry_ok s"
  shows "history_kept (tier_history s t) (tier_history s' t) \<and> registry_ok s'"
  using assms(1)
proof (induction rule: rtranclp_induct)
  case (step u v)
  then show ?case using registry_step_kept registry_step_ok history_kept_trans by blast
qed (simp add: assms(2))

lemma history_revision_unique:
  assumes "history_ok t seq h pos" and "r \<in> set h" and "r' \<in> set h" and "pr_revision r = pr_revision r'"
  shows "r = r'"
proof -
  have "distinct (map pr_revision h)"
    using assms(1) strict_sorted_iff by (auto simp: history_ok_def)
  with assms(2-4) show ?thesis by (metis distinct_map inj_onD)
qed

lemma head_in_history:
  assumes "registry_ok s" and "getPublished s t = Some r"
  shows "r \<in> set (tier_history s t)" "pr_stage r = Published"
proof -
  from assms(2) obtain i where i: "map_of (pg_publishedHead s) t = Some i" "r = tier_history s t ! i"
    by (auto simp: getPublished_def head_revision_def)
  then have "history_ok t (pg_seq s) (tier_history s t) (Some i)"
    using assms(1) [unfolded registry_ok_def, rule_format, of t] by simp
  with i show "r \<in> set (tier_history s t)" "pr_stage r = Published" by (auto simp: history_ok_def)
qed

lemma history_kept_member:
  assumes "history_kept h h'" and "r \<in> set h"
  obtains r' where "r' \<in> set h'" "revision_kept r r'"
proof -
  from assms obtain xs ys where xs: "h' = xs @ ys" "list_all2 revision_kept h xs" by (auto simp: history_kept_def)
  with assms(2) obtain r' where "r' \<in> set xs" "revision_kept r r'"
    by (metis in_set_conv_nth list_all2_conv_all_nth)
  with xs that show ?thesis by auto
qed

lemma rolled_registry_head:
  "getPublished (rolled_registry clock cmd target s) (pc_tier cmd) =
     Some (rolled_revision clock cmd target (Suc (pg_seq s)))"
  by (simp add: getPublished_def head_revision_def rolled_registry_def Let_def nth_append)

text \<open>
  In every state of the policy registry that its commands reach, also the ones that throw, each
  tier has at most one published revision, and that one is its head; revision numbers and identifiers
  are unique within a tier; every body is of its tier; and although the type has a stage for it, no
  revision is ever stored as rolled back: a rollback leaves a published one.
\<close>

theorem one_published_policy_per_tier:
  assumes "registry_run empty_policy_registry s" and "r \<in> set (policy_history s t)"
  shows "(pr_stage r = Published \<longleftrightarrow> getPublished s t = Some r) \<and>
    (\<forall>r' \<in> set (policy_history s t). pr_revision r' = pr_revision r \<or> pr_id r' = pr_id r \<longrightarrow> r' = r) \<and>
    pb_tier (pr_body r) = t \<and> pr_stage r \<noteq> Rolled_back"
proof -
  note ok = registry_run_ok [OF assms(1)]
  have h: "history_ok t (pg_seq s) (tier_history s t) (map_of (pg_publishedHead s) t)"
    using ok by (simp add: registry_ok_def)
  have r: "r \<in> set (tier_history s t)" using assms(2) by (simp add: policy_history_def)
  then obtain i where i: "i < length (tier_history s t)" "r = tier_history s t ! i"
    by (auto simp: in_set_conv_nth)
  have "getPublished s t = Some r" if "pr_stage r = Published"
    using h i that by (simp add: history_ok_def getPublished_def head_revision_def)
  moreover have "pr_stage r = Published" if "getPublished s t = Some r"
    by (rule head_in_history(2) [OF ok that])
  moreover have "r' = r" if "r' \<in> set (tier_history s t)" "pr_revision r' = pr_revision r \<or> pr_id r' = pr_id r" for r'
  proof -
    have "pr_revision r' = pr_revision r"
      using that h r by (auto simp: history_ok_def revision_ok_def policy_revision_id_def dest!: bspec show_nat_inj)
    with history_revision_unique [OF h] that(1) r show ?thesis by blast
  qed
  ultimately show ?thesis
    using h r unfolding policy_history_def history_ok_def revision_ok_def by blast
qed

text \<open>
  C36. A rollback restores. Once a policy has been the published one of its tier, then whatever
  commands follow, rolling back to its revision with the current head as the expected one succeeds,
  publishes exactly the body it had, under a new revision that names the old one.
\<close>

theorem rollback_restores_policy:
  assumes "registry_run empty_policy_registry s" and "getPublished s t = Some r" and "registry_run s s'"
    and "pc_tier cmd = t" and "pc_expectedPublishedRevision cmd = map_option pr_revision (getPublished s' t)"
  shows "\<exists>r' s''. rollback_policy clock cmd (pr_revision r) s' = (Inr r', s'') \<and>
    getPublished s'' t = Some r' \<and> projectPlanPolicy s'' t = projectPlanPolicy s t \<and>
    pr_rolledBackToRevision r' = Some (pr_revision r) \<and> pr_revision r' = Suc (pg_seq s')"
proof -
  note ok = registry_run_ok [OF assms(1)]
  have kept: "history_kept (tier_history s t) (tier_history s' t)" and ok': "registry_ok s'"
    using registry_run_kept [OF assms(3) ok] by blast+
  obtain k where k: "k \<in> set (tier_history s' t)" "revision_kept r k"
    using history_kept_member [OF kept head_in_history(1) [OF ok assms(2)]] .
  let ?P = "\<lambda>x. pr_revision x = pr_revision r \<and>
    (pr_stage x = Published \<or> pr_stage x = Superseded \<or> pr_stage x = Rolled_back)"
  have "?P k" using k(2) head_in_history(2) [OF ok assms(2)] by (auto simp: revision_kept_def was_published_def)
  then obtain target where target: "find ?P (tier_history s' t) = Some target"
    using k(1) by (cases "find ?P (tier_history s' t)") (auto simp: find_None_iff)
  then have "target \<in> set (tier_history s' t)" "pr_revision target = pr_revision r"
    by (auto simp: find_Some_iff)
  moreover have "history_ok t (pg_seq s') (tier_history s' t) (map_of (pg_publishedHead s') t)"
    using ok' by (simp add: registry_ok_def)
  moreover have "pr_revision k = pr_revision r" using k(2) by (simp add: revision_kept_def)
  ultimately have "target = k" using history_revision_unique k(1) by metis
  with k(2) have body: "pr_body target = pr_body r" "pr_revision target = pr_revision r"
    by (simp_all add: revision_kept_def)
  have cas: "assertCas s' t (pc_expectedPublishedRevision cmd) = Inr ()"
    using assms(5) by (simp add: assertCas_def getPublished_def)
  have "rollback_policy clock cmd (pr_revision r) s' =
      (Inr (rolled_revision clock cmd target (Suc (pg_seq s'))), rolled_registry clock cmd target s')"
    using cas target assms(4)
    by (simp add: rollback_policy_def guarded_def Let_def rolled_revision_def rolled_registry_def)
  with rolled_registry_head [of clock cmd target s'] assms(2,4) body show ?thesis
    by (simp add: projectPlanPolicy_def rolled_revision_def new_revision_def)
qed

definition sample_body :: "int \<Rightarrow> policy_body" where
  "sample_body n =
     \<lparr> pb_tier = Growth, pb_allowance = (\<lambda>_. n), pb_concurrencyLimit = 4, pb_queuePriority = 5,
       pb_supportLabel = Standard, pb_rateLabel = Standard_rate,
       pb_extension = DEFAULT_ENTITLEMENT_POLICY_EXTENSION \<rparr>"

definition sample_policy_command :: "nat option \<Rightarrow> policy_command" where
  "sample_policy_command expected =
     \<lparr>pc_tier = Growth, pc_actorId = ''ops'', pc_reason = ''r'', pc_correlationId = ''c'',
      pc_expectedPublishedRevision = expected\<rparr>"

definition first_published :: policy_registry where
  "first_published =
     snd (publish_policy (sample_policy_command None) ''entitlement-policy:growth:r1''
       (snd (draft_policy ''t1'' (sample_policy_command None) (sample_body 10) empty_policy_registry)))"

definition second_published :: policy_registry where
  "second_published =
     snd (publish_policy (sample_policy_command (Some 1)) ''entitlement-policy:growth:r2''
       (snd (draft_policy ''t2'' (sample_policy_command (Some 1)) (sample_body 20) first_published)))"

lemma sample_runs: "registry_run empty_policy_registry first_published" "registry_run first_published second_published"
proof -
  have step: "registry_step s (snd (publish_policy cmd i s))" "registry_step s (snd (draft_policy clock cmd body s))"
    for s cmd i clock body
    by (rule step_publish step_draft; rule prod.collapse [symmetric])+
  show "registry_run empty_policy_registry first_published" "registry_run first_published second_published"
    unfolding first_published_def second_published_def by (meson step r_into_rtranclp rtranclp.rtrancl_into_rtrancl)+
qed

definition first_policy :: policy_revision where
  "first_policy = published_draft (sample_policy_command None) (new_revision (sample_policy_command None) (sample_body 10) 1 Draft None ''t1'')"

lemma policy_samples:
  "policy_history first_published Growth = [first_policy]" "getPublished first_published Growth = Some first_policy"
proof -
  have s: "show_nat (Suc 0) = ''1''" by code_simp
  show "policy_history first_published Growth = [first_policy]" "getPublished first_published Growth = Some first_policy"
    by (simp_all add: first_published_def first_policy_def sample_policy_command_def sample_body_def policy_history_def
        draft_policy_def publish_policy_def guarded_def assertCas_def check_def head_revision_def getPublished_def
        empty_policy_registry_def tier_history_def set_history_def policy_revision_id_def new_revision_def
        supersede_head_def published_draft_def Let_def s)
qed

lemma one_published_policy_per_tier_witness: "getPublished first_published Growth = Some first_policy"
  using one_published_policy_per_tier [OF sample_runs(1), of first_policy Growth]
  by (simp add: policy_samples(1) first_policy_def published_draft_def)

lemma rollback_restores_policy_witness:
  "\<exists>r' s''. rollback_policy ''t3'' (sample_policy_command (Some 2)) 1 second_published = (Inr r', s'') \<and>
    projectPlanPolicy s'' Growth = Some (sample_body 10)"
proof -
  have "map_option pr_revision (getPublished second_published Growth) = Some 2" by code_simp
  moreover have "pr_revision first_policy = 1" "pr_body first_policy = sample_body 10"
    by (simp_all add: first_policy_def published_draft_def new_revision_def)
  ultimately show ?thesis
    using rollback_restores_policy [OF sample_runs(1) policy_samples(2) sample_runs(2), of "sample_policy_command (Some 2)" "''t3''"]
    by (auto simp: sample_policy_command_def projectPlanPolicy_def policy_samples(2))
qed

section \<open>The product-side projection\<close>

text \<open>The keys of a value, at any depth.\<close>

fun value_keys :: "js_value \<Rightarrow> string set" where
  "value_keys JLeaf = {}"
| "value_keys (JArray xs) = (\<Union>x \<in> set xs. value_keys x)"
| "value_keys (JObject kvs) = (\<Union>p \<in> set kvs. insert (fst p) (value_keys (snd p)))"

lemma collect_nothing:
  "collectUpstreamKeys path v = [] \<longleftrightarrow> (\<forall>k \<in> value_keys v. \<not> isUpstreamKey k)"
  "collect_items path i xs = [] \<longleftrightarrow> (\<forall>x \<in> set xs. \<forall>k \<in> value_keys x. \<not> isUpstreamKey k)"
  "collect_entries path kvs = [] \<longleftrightarrow>
     (\<forall>p \<in> set kvs. \<not> isUpstreamKey (fst p) \<and> (\<forall>k \<in> value_keys (snd p). \<not> isUpstreamKey k))"
  by (induction path v and path i xs and path kvs
      rule: collectUpstreamKeys_collect_items_collect_entries.induct) (auto simp: Let_def)

text \<open>
  The guard of the product-side projection is exact: it accepts a value if and only if no object
  in it, however deep, has the key of an upstream resource. It therefore never throws on the
  projection the code builds, whatever the effective entitlement holds, and what it returns carries
  the fields of the entitlement.
\<close>

theorem projection_guard_exact:
  "(assertNoUpstreamResources v = Inr () \<longleftrightarrow> (\<forall>k \<in> value_keys v. \<not> isUpstreamKey k)) \<and>
   (wouldAssignUpstreamResourceToUser kvs \<longleftrightarrow> (\<exists>k \<in> value_keys (JObject kvs). isUpstreamKey k)) \<and>
   (\<exists>p. projectProductSideEntitlement e b = Inr p \<and> pj_allowance p = ee_allowance e \<and>
      pj_availableSupplyPoolIds p = ee_availableSupplyPoolIds e \<and>
      (\<forall>k \<in> value_keys (projection_value p). \<not> isUpstreamKey k))"
proof -
  have guard: "assertNoUpstreamResources v = Inr () \<longleftrightarrow> (\<forall>k \<in> value_keys v. \<not> isUpstreamKey k)" for v
    by (simp add: assertNoUpstreamResources_def Let_def check_def collect_nothing(1))
  have clean: "\<forall>k \<in> value_keys (projection_value p). \<not> isUpstreamKey k" for p
  proof -
    have "isUpstreamKey (resource_name r) = False" for r
      by (cases r) (simp_all add: isUpstreamKey_def UPSTREAM_RESOURCE_KEYS_def)
    then show ?thesis
      by (auto simp: projection_value_def Let_def isUpstreamKey_def UPSTREAM_RESOURCE_KEYS_def)
  qed
  have "\<exists>p. projectProductSideEntitlement e b = Inr p \<and> pj_allowance p = ee_allowance e \<and>
      pj_availableSupplyPoolIds p = ee_availableSupplyPoolIds e"
    using guard [of "projection_value p" for p] clean
    by (simp add: projectProductSideEntitlement_def Let_def r_bind_def del: value_keys.simps)
  moreover have "wouldAssignUpstreamResourceToUser kvs \<longleftrightarrow> (\<exists>k \<in> value_keys (JObject kvs). isUpstreamKey k)"
    using collect_nothing(1) [of "[]" "JObject kvs"] unfolding wouldAssignUpstreamResourceToUser_def by blast
  ultimately show ?thesis using guard clean by blast
qed

end
