(* ===== verification/SupplyPool.thy ===== *)
theory SupplyPool
  imports Entitlement Complex_Main
begin

text \<open>
  Supply pools, \<^verbatim>\<open>entitlement-pools/supply-pool.ts\<close>, and their three-layer capacity gate,
  \<^verbatim>\<open>three-layer-capacity.ts\<close>. A pool is shared, or dedicated to the workspaces of a contract. The
  state of \<^verbatim>\<open>SupplyPoolRegistry\<close> is its map of pools; that of \<^verbatim>\<open>ThreeLayerCapacityGate\<close> the leases, the
  counter of generated lease identifiers, the limits of single product accounts and the two rate
  windows, oldest first. The clock's readings are arguments, in milliseconds and as text.
\<close>

section \<open>Limits\<close>

text \<open>
  The optional numbers of a capacity: the concurrencies are checked, the rates only have to be
  numbers. A rate is a finite number here.
\<close>

record supply_limits =
  sl_concurrency :: "js_number option"
  sl_rpm :: "rat option"
  sl_tpm :: "rat option"

record product_limits =
  pl_concurrency :: "js_number option"
  pl_queuePriority :: "rat option"

record supply_capacity_limits =
  cap_supplyAccount :: "supply_limits option"
  cap_productAccount :: "product_limits option"
  cap_systemTotal :: "js_number option option"

record three_layer_limits =
  tl_supplyConcurrency :: int
  tl_rpm :: "rat option"
  tl_tpm :: "rat option"
  tl_productConcurrency :: int
  tl_queuePriority :: "rat option"
  tl_systemConcurrency :: int

definition assertPositiveInt :: "js_number \<Rightarrow> string \<Rightarrow> unit result" where
  "assertPositiveInt v field =
     check (number_isInteger v \<and> int_of v > 0)
       (P1DomainError INVALID_STATE (field @ '' must be a positive integer.''))"

definition normalizeThreeLayerLimits :: "supply_capacity_limits \<Rightarrow> three_layer_limits result" where
  "normalizeThreeLayerLimits limits =
     (case (Option.bind (cap_supplyAccount limits) sl_concurrency,
            Option.bind (cap_productAccount limits) pl_concurrency,
            Option.bind (cap_systemTotal limits) (\<lambda>c. c)) of
        (Some s, Some p, Some t) \<Rightarrow>
          r_bind (assertPositiveInt s ''supplyAccount.concurrency'') (\<lambda>_.
          r_bind (assertPositiveInt p ''productAccount.concurrency'') (\<lambda>_.
          r_bind (assertPositiveInt t ''systemTotal.concurrency'') (\<lambda>_.
            Inr \<lparr> tl_supplyConcurrency = int_of s,
                  tl_rpm = Option.bind (cap_supplyAccount limits) sl_rpm,
                  tl_tpm = Option.bind (cap_supplyAccount limits) sl_tpm,
                  tl_productConcurrency = int_of p,
                  tl_queuePriority = Option.bind (cap_productAccount limits) pl_queuePriority,
                  tl_systemConcurrency = int_of t \<rparr>)))
      | _ \<Rightarrow> Inl (P1DomainError INVALID_STATE
          ''Three-layer capacity requires supplyAccount, productAccount, and systemTotal concurrency.''))"

section \<open>The capacity gate\<close>

datatype capacity_layer = Supply_account | Product_account | System_total

record capacity_lease =
  le_leaseId :: string
  le_supplyAccountId :: string
  le_productAccountId :: string
  le_workspaceId :: string
  le_acquiredAt :: string

text \<open>A rejection carries its layer, the use and the limit; the message only renders them.\<close>

datatype capacity_decision =
    Admitted capacity_lease
  | Rejected capacity_layer rat rat

record capacity_gate =
  cg_supplyAccountId :: string
  cg_limits :: three_layer_limits
  cg_leases :: "(string, capacity_lease) js_map"
  cg_seq :: nat
  cg_productLimits :: "(string, int) js_map"
  cg_admitTimestamps :: "int list"
  cg_tokenAdmits :: "(int \<times> int) list"

definition new_capacity_gate :: "string \<Rightarrow> supply_capacity_limits \<Rightarrow> capacity_gate result" where
  "new_capacity_gate supplyAccountId limits =
     r_bind (normalizeThreeLayerLimits limits) (\<lambda>l.
       Inr \<lparr> cg_supplyAccountId = supplyAccountId, cg_limits = l, cg_leases = [], cg_seq = 0,
             cg_productLimits = [], cg_admitTimestamps = [], cg_tokenAdmits = [] \<rparr>)"

definition setProductAccountLimit :: "string \<Rightarrow> js_number \<Rightarrow> (capacity_gate, unit) op" where
  "setProductAccountLimit productAccountId concurrency =
     guarded (assertPositiveInt concurrency ''productAccount.concurrency'') (\<lambda>_ g.
       (Inr (), g\<lparr>cg_productLimits :=
                   map_set productAccountId (int_of concurrency) (cg_productLimits g)\<rparr>))"

definition getLimits :: "capacity_gate \<Rightarrow> three_layer_limits" where
  "getLimits g = cg_limits g"

definition RPM_WINDOW_MS :: int where "RPM_WINDOW_MS = 60000"

definition pruneRateWindows :: "int \<Rightarrow> capacity_gate \<Rightarrow> capacity_gate" where
  "pruneRateWindows nowMs g =
     (let cutoff = nowMs - RPM_WINDOW_MS
      in g\<lparr>cg_admitTimestamps := dropWhile (\<lambda>t. t \<le> cutoff) (cg_admitTimestamps g),
           cg_tokenAdmits := dropWhile (\<lambda>p. fst p \<le> cutoff) (cg_tokenAdmits g)\<rparr>)"

definition countSupplyInUse :: "capacity_gate \<Rightarrow> int" where
  "countSupplyInUse g = int (length (cg_leases g))"

definition countProductInUse :: "capacity_gate \<Rightarrow> string \<Rightarrow> int" where
  "countProductInUse g a =
     int (length (filter (\<lambda>l. le_productAccountId l = a) (map snd (cg_leases g))))"

definition product_limit :: "capacity_gate \<Rightarrow> string \<Rightarrow> int" where
  "product_limit g a =
     (case map_of (cg_productLimits g) a of None \<Rightarrow> tl_productConcurrency (cg_limits g) | Some n \<Rightarrow> n)"

text \<open>\<open>ac_tokens\<close> is a finite estimate; any other one counts as absent.\<close>

record acquire_input =
  ac_productAccountId :: string
  ac_workspaceId :: string
  ac_leaseId :: "string option"
  ac_tokens :: "rat option"

definition request_tokens :: "acquire_input \<Rightarrow> int option" where
  "request_tokens inp = map_option (\<lambda>t. max 0 \<lfloor>t\<rfloor>) (ac_tokens inp)"

definition admitted_tokens :: "capacity_gate \<Rightarrow> int" where
  "admitted_tokens g = sum_list (map snd (cg_tokenAdmits g))"

text \<open>The rate checks prune the windows before they look at them, also when they then reject.\<close>

definition check_rpm :: "int \<Rightarrow> capacity_gate \<Rightarrow> capacity_decision option \<times> capacity_gate" where
  "check_rpm nowMs g =
     (case tl_rpm (cg_limits g) of
        None \<Rightarrow> (None, g)
      | Some limit \<Rightarrow>
          let g' = pruneRateWindows nowMs g;
              inUse = of_nat (length (cg_admitTimestamps g'))
          in (if inUse \<ge> limit then Some (Rejected Supply_account inUse limit) else None, g'))"

definition check_tpm :: "int \<Rightarrow> acquire_input \<Rightarrow> capacity_gate \<Rightarrow> capacity_decision option \<times> capacity_gate" where
  "check_tpm nowMs inp g =
     (case (tl_tpm (cg_limits g), request_tokens inp) of
        (Some limit, Some tokens) \<Rightarrow>
          let g' = pruneRateWindows nowMs g;
              inUse = admitted_tokens g'
          in (if of_int (inUse + tokens) > limit then Some (Rejected Supply_account (of_int inUse) limit) else None, g')
      | _ \<Rightarrow> (None, g))"

definition grant_lease :: "int \<Rightarrow> string \<Rightarrow> acquire_input \<Rightarrow> (capacity_gate, capacity_decision) op" where
  "grant_lease nowMs acquiredAt inp g0 =
     (let (leaseId, g) = (case ac_leaseId inp of
                            Some i \<Rightarrow> (i, g0)
                          | None \<Rightarrow> (''lease:'' @ show_nat (Suc (cg_seq g0)), g0\<lparr>cg_seq := Suc (cg_seq g0)\<rparr>));
          lease = \<lparr>le_leaseId = leaseId, le_supplyAccountId = cg_supplyAccountId g,
                   le_productAccountId = ac_productAccountId inp,
                   le_workspaceId = ac_workspaceId inp, le_acquiredAt = acquiredAt\<rparr>
      in if map_of (cg_leases g) leaseId \<noteq> None
         then (Inl (P1DomainError IDEMPOTENCY_CONFLICT
                (''Capacity lease '' @ leaseId @ '' already exists.'')), g)
         else (Inr (Admitted lease),
               g\<lparr>cg_leases := map_set leaseId lease (cg_leases g),
                 cg_admitTimestamps :=
                   cg_admitTimestamps g @ (case tl_rpm (cg_limits g) of None \<Rightarrow> [] | Some _ \<Rightarrow> [nowMs]),
                 cg_tokenAdmits :=
                   cg_tokenAdmits g @ (case (tl_tpm (cg_limits g), request_tokens inp) of
                                         (Some _, Some t) \<Rightarrow> [(nowMs, t)]
                                       | _ \<Rightarrow> [])\<rparr>))"

definition tryAcquire :: "int \<Rightarrow> string \<Rightarrow> acquire_input \<Rightarrow> (capacity_gate, capacity_decision) op" where
  "tryAcquire nowMs acquiredAt inp =
     guarded (check (\<not> blank (ac_productAccountId inp) \<and> \<not> blank (ac_workspaceId inp))
                (P1DomainError INVALID_STATE
                   ''Capacity acquire requires productAccountId and workspaceId.'')) (\<lambda>_ g.
       if countSupplyInUse g \<ge> tl_supplyConcurrency (cg_limits g)
       then (Inr (Rejected Supply_account (of_int (countSupplyInUse g))
                    (of_int (tl_supplyConcurrency (cg_limits g)))), g)
       else case check_rpm nowMs g of
         (Some d, g1) \<Rightarrow> (Inr d, g1)
       | (None, g1) \<Rightarrow>
           (case check_tpm nowMs inp g1 of
              (Some d, g2) \<Rightarrow> (Inr d, g2)
            | (None, g2) \<Rightarrow>
                if countSupplyInUse g2 \<ge> tl_systemConcurrency (cg_limits g2)
                then (Inr (Rejected System_total (of_int (countSupplyInUse g2))
                             (of_int (tl_systemConcurrency (cg_limits g2)))), g2)
                else if countProductInUse g2 (ac_productAccountId inp) \<ge> product_limit g2 (ac_productAccountId inp)
                then (Inr (Rejected Product_account
                             (of_int (countProductInUse g2 (ac_productAccountId inp)))
                             (of_int (product_limit g2 (ac_productAccountId inp)))), g2)
                else grant_lease nowMs acquiredAt inp g2))"

definition release :: "string \<Rightarrow> capacity_gate \<Rightarrow> bool \<times> capacity_gate" where
  "release leaseId g =
     (map_of (cg_leases g) leaseId \<noteq> None, g\<lparr>cg_leases := map_delete leaseId (cg_leases g)\<rparr>)"

record capacity_snapshot =
  sn_supplyAccountId :: string
  sn_supplyAccountInUse :: int
  sn_supplyAccountLimit :: int
  sn_productAccounts :: "(string \<times> int \<times> int) list"
  sn_systemTotalInUse :: int
  sn_systemTotalLimit :: int

definition leases_by_product :: "capacity_gate \<Rightarrow> (string, int) js_map" where
  "leases_by_product g =
     fold (\<lambda>l m. map_set (le_productAccountId l)
             ((case map_of m (le_productAccountId l) of None \<Rightarrow> 0 | Some n \<Rightarrow> n) + 1) m)
       (map snd (cg_leases g)) []"

definition snapshot :: "capacity_gate \<Rightarrow> capacity_snapshot" where
  "snapshot g =
     \<lparr> sn_supplyAccountId = cg_supplyAccountId g,
       sn_supplyAccountInUse = countSupplyInUse g,
       sn_supplyAccountLimit = tl_supplyConcurrency (cg_limits g),
       sn_productAccounts = map (\<lambda>(a, n). (a, n, product_limit g a)) (leases_by_product g),
       sn_systemTotalInUse = int (length (cg_leases g)),
       sn_systemTotalLimit = tl_systemConcurrency (cg_limits g) \<rparr>"

definition effectiveUpstreamCeiling :: "capacity_gate \<Rightarrow> int" where
  "effectiveUpstreamCeiling g =
     min (tl_supplyConcurrency (cg_limits g)) (tl_systemConcurrency (cg_limits g))"

section \<open>Pools\<close>

datatype data_class = Public | Contains_face | Pii | Medical | Medical_health

text \<open>What a dedicated pool adds to a shared one.\<close>

record dedicated_terms =
  dt_contractRef :: string
  dt_authorizedWorkspaceIds :: "string list option"
  dt_regionRestriction :: "string list option"
  dt_dataClassRestriction :: "data_class list option"
  dt_exclusiveBilling :: "bool option"
  dt_reservedCapacity :: "supply_capacity_limits option"

record supply_pool =
  sp_id :: string
  sp_displayName :: string
  sp_credentialAccountIds :: "string list"
  sp_deploymentIds :: "string list"
  sp_capacity :: "supply_capacity_limits option"
  sp_revisionId :: string
  sp_dedicated :: "dedicated_terms option"

type_synonym pool_registry = "(string, supply_pool) js_map"

definition assertRegisterBase :: "supply_pool \<Rightarrow> unit result" where
  "assertRegisterBase p =
     r_bind (check (\<not> blank (sp_id p) \<and> \<not> blank (sp_displayName p))
               (P1DomainError INVALID_STATE ''SupplyPool requires id and displayName.''))
       (\<lambda>_. r_bind (check (sp_credentialAccountIds p \<noteq> [])
                     (P1DomainError INVALID_STATE
                        ''SupplyPool requires at least one CredentialAccount binding.''))
       (\<lambda>_. r_bind (check (sp_deploymentIds p \<noteq> [])
                     (P1DomainError INVALID_STATE
                        ''SupplyPool requires at least one Deployment binding.''))
       (\<lambda>_. check (\<not> blank (sp_revisionId p))
              (P1DomainError INVALID_STATE ''SupplyPool requires revisionId.''))))"

definition register_pool :: "supply_pool \<Rightarrow> (pool_registry, supply_pool) op" where
  "register_pool p pools =
     (if map_of pools (sp_id p) \<noteq> None
      then (Inl (P1DomainError IDEMPOTENCY_CONFLICT (''SupplyPool '' @ sp_id p @ '' already exists.'')), pools)
      else (Inr p, map_set (sp_id p) p pools))"

definition registerShared :: "supply_pool \<Rightarrow> (pool_registry, supply_pool) op" where
  "registerShared inp =
     guarded (assertRegisterBase inp) (\<lambda>_. register_pool (inp\<lparr>sp_dedicated := None\<rparr>))"

definition registerDedicated :: "supply_pool \<Rightarrow> dedicated_terms \<Rightarrow> (pool_registry, supply_pool) op" where
  "registerDedicated inp terms =
     guarded (assertRegisterBase inp) (\<lambda>_.
     guarded (check (\<not> blank (dt_contractRef terms))
                (P1DomainError INVALID_STATE ''DedicatedSupplyPool requires contractRef.'')) (\<lambda>_.
     guarded (check (or_default (dt_authorizedWorkspaceIds terms) [] \<noteq> [])
                (P1DomainError INVALID_STATE
                   ''DedicatedSupplyPool requires at least one authorized workspace.'')) (\<lambda>_.
       register_pool (inp\<lparr>sp_dedicated := Some terms\<rparr>))))"

definition get_pool :: "pool_registry \<Rightarrow> string \<Rightarrow> supply_pool option" where
  "get_pool pools i = map_of pools i"

text \<open>The kind filter: shared pools are those without dedicated terms.\<close>

definition list_pools :: "pool_registry \<Rightarrow> bool option \<Rightarrow> supply_pool list" where
  "list_pools pools dedicated =
     filter (\<lambda>p. case dedicated of None \<Rightarrow> True | Some d \<Rightarrow> (sp_dedicated p \<noteq> None) = d) (map snd pools)"

definition pool_grant :: "string \<Rightarrow> string \<Rightarrow> string \<Rightarrow> account_allocation \<Rightarrow> bool" where
  "pool_grant poolId ws accountId a \<longleftrightarrow>
     aa_status a = Alloc_active \<and> aa_accountId a = accountId \<and> aa_workspaceId a = ws \<and>
     aa_target a = Supply_pool poolId \<and> aa_kind a = Grant_kind \<and>
     (case aa_delta a of Set_enabled b \<Rightarrow> b | _ \<Rightarrow> True)"

definition isWorkspaceAuthorizedForPool ::
    "pool_registry \<Rightarrow> string \<Rightarrow> string \<Rightarrow> string \<Rightarrow> account_allocation list \<Rightarrow> bool" where
  "isWorkspaceAuthorizedForPool pools poolId ws accountId allocations \<longleftrightarrow>
     (case map_of pools poolId of
        None \<Rightarrow> False
      | Some pool \<Rightarrow>
          (case sp_dedicated pool of
             None \<Rightarrow> True
           | Some terms \<Rightarrow>
               ws \<in> set (or_default (dt_authorizedWorkspaceIds terms) []) \<or>
               list_ex (pool_grant poolId ws accountId) allocations))"

record resolve_input =
  rz_preferredPoolId :: string
  rz_fallbackPoolId :: "string option"
  rz_preferredUnavailable :: bool
  rz_contractEntitlementAuthorized :: bool
  rz_dataPolicyAuthorized :: bool
  rz_allocations :: "account_allocation list"
  rz_workspace :: string
  rz_accountId :: string
  rz_dataClasses :: "data_class list"

datatype denial = POOL_NOT_FOUND | DEDICATED_NOT_AUTHORIZED | CROSS_KIND_FALLBACK_DENIED | DATA_CLASS_RESTRICTED
datatype resolve_via = Preferred | Authorized_fallback
datatype resolve_result = Resolved supply_pool resolve_via | Denied denial

definition authorizeWorkspace :: "pool_registry \<Rightarrow> supply_pool \<Rightarrow> resolve_input \<Rightarrow> denial option" where
  "authorizeWorkspace pools pool inp =
     (if \<not> isWorkspaceAuthorizedForPool pools (sp_id pool) (rz_workspace inp) (rz_accountId inp)
            (rz_allocations inp)
      then Some DEDICATED_NOT_AUTHORIZED
      else case sp_dedicated pool of
             None \<Rightarrow> None
           | Some terms \<Rightarrow>
               let restricted = or_default (dt_dataClassRestriction terms) []
               in if restricted \<noteq> [] \<and> list_ex (\<lambda>c. c \<notin> set restricted) (rz_dataClasses inp)
                  then Some DATA_CLASS_RESTRICTED else None)"

definition same_kind :: "supply_pool \<Rightarrow> supply_pool \<Rightarrow> bool" where
  "same_kind p q \<longleftrightarrow> (sp_dedicated p = None) = (sp_dedicated q = None)"

definition resolve :: "pool_registry \<Rightarrow> resolve_input \<Rightarrow> resolve_result" where
  "resolve pools inp =
     (case map_of pools (rz_preferredPoolId inp) of
        None \<Rightarrow> Denied POOL_NOT_FOUND
      | Some preferred \<Rightarrow>
          (case authorizeWorkspace pools preferred inp of
             Some d \<Rightarrow> Denied d
           | None \<Rightarrow>
               if \<not> rz_preferredUnavailable inp then Resolved preferred Preferred
               else case truthy (rz_fallbackPoolId inp) of
                 None \<Rightarrow> Denied CROSS_KIND_FALLBACK_DENIED
               | Some fallbackId \<Rightarrow>
                   (case map_of pools fallbackId of
                      None \<Rightarrow> Denied POOL_NOT_FOUND
                    | Some fallback \<Rightarrow>
                        (case authorizeWorkspace pools fallback inp of
                           Some d \<Rightarrow> Denied d
                         | None \<Rightarrow>
                             if \<not> same_kind preferred fallback \<and>
                                \<not> (rz_contractEntitlementAuthorized inp \<and> rz_dataPolicyAuthorized inp)
                             then Denied CROSS_KIND_FALLBACK_DENIED
                             else Resolved fallback Authorized_fallback))))"

end
