(* ===== verification/SupplyPoolProps.thy ===== *)
theory SupplyPoolProps
  imports SupplyPool
begin

text \<open>
  The properties of supply pools: the capacity gate never holds more leases than its layers allow,
  its rate windows bound the admissions and the tokens of every minute, a lease given back leaves the
  gate as it was but for the windows, and a pool is resolved only for those who may use it.
\<close>

section \<open>Calls of the gate\<close>

text \<open>What the three checks of \<^const>\<open>tryAcquire\<close> leave alone.\<close>

lemma pruneRateWindows_simps [simp]:
  "cg_leases (pruneRateWindows n g) = cg_leases g" "cg_limits (pruneRateWindows n g) = cg_limits g"
  "cg_seq (pruneRateWindows n g) = cg_seq g" "cg_productLimits (pruneRateWindows n g) = cg_productLimits g"
  "cg_supplyAccountId (pruneRateWindows n g) = cg_supplyAccountId g"
  by (simp_all add: pruneRateWindows_def Let_def)

definition same_leases :: "capacity_gate \<Rightarrow> capacity_gate \<Rightarrow> bool" where
  "same_leases g g' \<longleftrightarrow>
     cg_leases g' = cg_leases g \<and> cg_limits g' = cg_limits g \<and> cg_seq g' = cg_seq g \<and>
     cg_productLimits g' = cg_productLimits g \<and> cg_supplyAccountId g' = cg_supplyAccountId g"

text \<open>The windows are untouched or pruned at the instant of the call.\<close>

definition pruned :: "int \<Rightarrow> capacity_gate \<Rightarrow> capacity_gate \<Rightarrow> bool" where
  "pruned n g g' \<longleftrightarrow> same_leases g g' \<and> (g' = g \<or> g' = pruneRateWindows n g)"

lemma check_rpm_pruned: "check_rpm n g = (d, g') \<Longrightarrow> pruned n g g'"
  by (auto simp: check_rpm_def pruned_def same_leases_def Let_def split: option.splits)

lemma prune_twice: "pruneRateWindows n (pruneRateWindows n g) = pruneRateWindows n g"
  by (simp add: pruneRateWindows_def Let_def dropWhile_idem)

lemma check_tpm_pruned: "check_tpm n inp g = (d, g') \<Longrightarrow> pruned n g g'"
  by (auto simp: check_tpm_def pruned_def same_leases_def Let_def split: option.splits)

lemma pruned_trans: "pruned n g g' \<Longrightarrow> pruned n g' g'' \<Longrightarrow> pruned n g g''"
  unfolding pruned_def same_leases_def using prune_twice by metis

text \<open>What an admission found, and what it left.\<close>

definition lease_id :: "acquire_input \<Rightarrow> capacity_gate \<Rightarrow> string" where
  "lease_id inp g = (case ac_leaseId inp of Some i \<Rightarrow> i | None \<Rightarrow> ''lease:'' @ show_nat (Suc (cg_seq g)))"

definition rate_entry :: "int \<Rightarrow> capacity_gate \<Rightarrow> int list" where
  "rate_entry n g = (case tl_rpm (cg_limits g) of None \<Rightarrow> [] | Some _ \<Rightarrow> [n])"

definition token_entry :: "int \<Rightarrow> acquire_input \<Rightarrow> capacity_gate \<Rightarrow> (int \<times> int) list" where
  "token_entry n inp g =
     (case (tl_tpm (cg_limits g), request_tokens inp) of (Some _, Some t) \<Rightarrow> [(n, t)] | _ \<Rightarrow> [])"

text \<open>
  A call that admits: the gate \<open>p\<close> it grants in has had its windows pruned as far as the limits need
  it, the uses are below every limit, and the lease is new.
\<close>

definition admits :: "int \<Rightarrow> acquire_input \<Rightarrow> capacity_gate \<Rightarrow> capacity_gate \<Rightarrow> capacity_lease \<Rightarrow> capacity_gate \<Rightarrow> bool" where
  "admits n inp g p l g' \<longleftrightarrow>
     pruned n g p \<and>
     countSupplyInUse g < effectiveUpstreamCeiling g \<and>
     countProductInUse g (ac_productAccountId inp) < product_limit g (ac_productAccountId inp) \<and>
     (\<forall>limit. tl_rpm (cg_limits g) = Some limit \<longrightarrow>
        p = pruneRateWindows n g \<and> of_nat (length (cg_admitTimestamps p)) < limit) \<and>
     (\<forall>limit t. tl_tpm (cg_limits g) = Some limit \<and> request_tokens inp = Some t \<longrightarrow>
        p = pruneRateWindows n g \<and> of_int (admitted_tokens p + t) \<le> limit) \<and>
     map_of (cg_leases g) (le_leaseId l) = None \<and> le_leaseId l = lease_id inp g \<and>
     le_supplyAccountId l = cg_supplyAccountId g \<and>
     le_productAccountId l = ac_productAccountId inp \<and> le_workspaceId l = ac_workspaceId inp \<and>
     g' = p\<lparr>cg_seq := (if ac_leaseId inp = None then Suc (cg_seq g) else cg_seq g),
            cg_leases := map_set (le_leaseId l) l (cg_leases g),
            cg_admitTimestamps := cg_admitTimestamps p @ rate_entry n g,
            cg_tokenAdmits := cg_tokenAdmits p @ token_entry n inp g\<rparr>"

lemma grant_lease_result:
  assumes "grant_lease n acquiredAt inp p = (r, g')"
  shows "(\<exists>e. r = Inl e \<and> g' = (if ac_leaseId inp = None then p\<lparr>cg_seq := Suc (cg_seq p)\<rparr> else p)) \<or>
    (\<exists>l. r = Inr (Admitted l) \<and> map_of (cg_leases p) (le_leaseId l) = None \<and> le_leaseId l = lease_id inp p \<and>
       le_supplyAccountId l = cg_supplyAccountId p \<and>
       le_productAccountId l = ac_productAccountId inp \<and> le_workspaceId l = ac_workspaceId inp \<and>
       g' = p\<lparr>cg_seq := (if ac_leaseId inp = None then Suc (cg_seq p) else cg_seq p),
            cg_leases := map_set (le_leaseId l) l (cg_leases p),
            cg_admitTimestamps := cg_admitTimestamps p @ rate_entry n p,
            cg_tokenAdmits := cg_tokenAdmits p @ token_entry n inp p\<rparr>)"
  using assms
  by (cases "ac_leaseId inp")
    (auto simp: grant_lease_def Let_def lease_id_def rate_entry_def token_entry_def split: if_splits)

text \<open>A call admits, or leaves the leases alone.\<close>

lemma pruned_counts:
  assumes "pruned n g p"
  shows "countSupplyInUse p = countSupplyInUse g" "countProductInUse p a = countProductInUse g a"
    "product_limit p a = product_limit g a" "cg_limits p = cg_limits g" "cg_seq p = cg_seq g"
    "cg_leases p = cg_leases g" "cg_supplyAccountId p = cg_supplyAccountId g" "lease_id inp p = lease_id inp g"
    "rate_entry m p = rate_entry m g" "token_entry m inp p = token_entry m inp g"
  using assms
  by (simp_all add: pruned_def same_leases_def countSupplyInUse_def countProductInUse_def product_limit_def
      lease_id_def rate_entry_def token_entry_def split: option.split)

lemma checks_pass:
  assumes "check_rpm n g = (None, g1)" and "check_tpm n inp g1 = (None, g2)"
  shows "(\<forall>limit. tl_rpm (cg_limits g) = Some limit \<longrightarrow>
        g2 = pruneRateWindows n g \<and> of_nat (length (cg_admitTimestamps g2)) < limit)"
    and "(\<forall>limit t. tl_tpm (cg_limits g) = Some limit \<and> request_tokens inp = Some t \<longrightarrow>
        g2 = pruneRateWindows n g \<and> of_int (admitted_tokens g2 + t) \<le> limit)"
proof -
  have "g1 = g \<or> g1 = pruneRateWindows n g"
    using check_rpm_pruned [OF assms(1)] by (simp add: pruned_def)
  with assms show "(\<forall>limit. tl_rpm (cg_limits g) = Some limit \<longrightarrow>
        g2 = pruneRateWindows n g \<and> of_nat (length (cg_admitTimestamps g2)) < limit)"
    by (auto simp: check_rpm_def check_tpm_def Let_def prune_twice not_le split: option.splits if_splits)
  from \<open>g1 = g \<or> g1 = pruneRateWindows n g\<close> assms(2)
  show "(\<forall>limit t. tl_tpm (cg_limits g) = Some limit \<and> request_tokens inp = Some t \<longrightarrow>
        g2 = pruneRateWindows n g \<and> of_int (admitted_tokens g2 + t) \<le> limit)"
    by (auto simp: check_tpm_def Let_def prune_twice not_less split: option.splits if_splits)
qed

lemma tryAcquire_result:
  assumes "tryAcquire n acquiredAt inp g = (r, g')"
  shows "(\<exists>p l. r = Inr (Admitted l) \<and> admits n inp g p l g') \<or>
    ((\<forall>l. r \<noteq> Inr (Admitted l)) \<and> (\<exists>p k. pruned n g p \<and> g' = p\<lparr>cg_seq := k\<rparr>))"
proof -
  have refused: ?thesis if "pruned n g g'" and "\<forall>l. r \<noteq> Inr (Admitted l)"
    using that by (intro disjI2 conjI exI [of _ g'] exI [of _ "cg_seq g'"]) simp_all
  have self: "pruned n g g" by (simp add: pruned_def same_leases_def)
  obtain d1 g1 where rpm: "check_rpm n g = (d1, g1)" by force
  obtain d2 g2 where tpm: "check_tpm n inp g1 = (d2, g2)" by force
  have p1: "pruned n g g1" by (rule check_rpm_pruned [OF rpm])
  have p2: "pruned n g g2" by (rule pruned_trans [OF p1 check_tpm_pruned [OF tpm]])
  have rej: "d1 \<noteq> Some (Admitted l)" "d2 \<noteq> Some (Admitted l)" for l
    using rpm tpm by (auto simp: check_rpm_def check_tpm_def Let_def split: option.splits if_splits)
  note step = assms [unfolded tryAcquire_def guarded_def rpm tpm]
  consider (guard) "blank (ac_productAccountId inp) \<or> blank (ac_workspaceId inp)"
    | (full) "\<not> blank (ac_productAccountId inp)" "\<not> blank (ac_workspaceId inp)"
        "countSupplyInUse g \<ge> tl_supplyConcurrency (cg_limits g)"
    | (asked) "\<not> blank (ac_productAccountId inp)" "\<not> blank (ac_workspaceId inp)"
        "countSupplyInUse g < tl_supplyConcurrency (cg_limits g)"
    by fastforce
  then show ?thesis
  proof cases
    case guard
    with step have "g' = g" "\<forall>l. r \<noteq> Inr (Admitted l)" by (auto simp: check_def)
    with self show ?thesis by (intro refused) simp_all
  next
    case full
    with step have "g' = g" "\<forall>l. r \<noteq> Inr (Admitted l)" by (auto simp: check_def)
    with self show ?thesis by (intro refused) simp_all
  next
    case asked
    note step2 = step [unfolded check_def, simplified asked if_True sum.case not_le, simplified]
    show ?thesis
    proof (cases d1)
      case (Some d)
      with step2 asked rej(1) have "g' = g1" "\<forall>l. r \<noteq> Inr (Admitted l)" by auto
      with p1 show ?thesis by (intro refused) simp_all
    next
      case d1: None
      show ?thesis
      proof (cases d2)
        case (Some d)
        with step2 asked d1 rej(2) tpm have "g' = g2" "\<forall>l. r \<noteq> Inr (Admitted l)" by auto
        with p2 show ?thesis by (intro refused) simp_all
      next
        case d2: None
        show ?thesis
        proof (cases "countSupplyInUse g2 \<ge> tl_systemConcurrency (cg_limits g2) \<or>
            countProductInUse g2 (ac_productAccountId inp) \<ge> product_limit g2 (ac_productAccountId inp)")
          case True
          with step2 asked d1 d2 tpm have "g' = g2" "\<forall>l. r \<noteq> Inr (Admitted l)" by (auto split: if_splits)
          with p2 show ?thesis by (intro refused) simp_all
        next
          case False
          with step2 asked d1 d2 tpm have grant: "grant_lease n acquiredAt inp g2 = (r, g')" by simp
          note p = pruned_counts [OF p2]
          have below: "countSupplyInUse g < effectiveUpstreamCeiling g"
            "countProductInUse g (ac_productAccountId inp) < product_limit g (ac_productAccountId inp)"
            using False asked p by (simp_all add: effectiveUpstreamCeiling_def)
          from grant_lease_result [OF grant] show ?thesis
          proof (elim disjE exE conjE)
            fix l
            assume l: "r = Inr (Admitted l)" "map_of (cg_leases g2) (le_leaseId l) = None" "le_leaseId l = lease_id inp g2"
              "le_supplyAccountId l = cg_supplyAccountId g2"
              "le_productAccountId l = ac_productAccountId inp" "le_workspaceId l = ac_workspaceId inp"
              "g' = g2\<lparr>cg_seq := (if ac_leaseId inp = None then Suc (cg_seq g2) else cg_seq g2),
                 cg_leases := map_set (le_leaseId l) l (cg_leases g2),
                 cg_admitTimestamps := cg_admitTimestamps g2 @ rate_entry n g2,
                 cg_tokenAdmits := cg_tokenAdmits g2 @ token_entry n inp g2\<rparr>"
            have "admits n inp g g2 l g'"
              unfolding admits_def
              by (intro conjI p2 below checks_pass [OF rpm [unfolded d1] tpm [unfolded d2]])
                (use l(2) in \<open>simp_all add: l(3-7) p [symmetric]\<close>)
            with l(1) show ?thesis by blast
          next
            fix e
            assume "r = Inl e" "g' = (if ac_leaseId inp = None then g2\<lparr>cg_seq := Suc (cg_seq g2)\<rparr> else g2)"
            then have "g' = g2\<lparr>cg_seq := cg_seq g'\<rparr>" by (auto split: if_splits)
            with p2 \<open>r = Inl e\<close> show ?thesis by blast
          qed
        qed
      qed
    qed
  qed
qed

section \<open>Rate windows\<close>

text \<open>The weight of a history of dated entries in the minute that ends at an instant.\<close>

definition window_sum :: "int \<Rightarrow> (int \<times> int) list \<Rightarrow> int" where
  "window_sum T h = sum_list (map snd (filter (\<lambda>p. T - RPM_WINDOW_MS < fst p \<and> fst p \<le> T) h))"

text \<open>A list of entries tracks a history when it has the entries of the current minute.\<close>

definition tracks :: "int \<Rightarrow> (int \<times> int) list \<Rightarrow> (int \<times> int) list \<Rightarrow> bool" where
  "tracks n h ts \<longleftrightarrow>
     sorted (map fst ts) \<and> (\<forall>p \<in> set h. fst p \<le> n \<and> 0 \<le> snd p) \<and> (\<forall>p \<in> set ts. fst p \<le> n) \<and>
     filter (\<lambda>p. n - RPM_WINDOW_MS < fst p) ts = filter (\<lambda>p. n - RPM_WINDOW_MS < fst p) h"

definition prune :: "int \<Rightarrow> (int \<times> int) list \<Rightarrow> (int \<times> int) list" where
  "prune n ts = dropWhile (\<lambda>p. fst p \<le> n - RPM_WINDOW_MS) ts"

lemma filter_later:
  fixes a b :: int
  assumes "a \<le> b" and "filter (\<lambda>p. a < fst p) xs = filter (\<lambda>p. a < fst p) ys"
  shows "filter (\<lambda>p. b < fst p) xs = filter (\<lambda>p. b < fst p) ys"
proof -
  have "filter (\<lambda>p. b < fst p) zs = filter (\<lambda>p. b < fst p) (filter (\<lambda>p. a < fst p) zs)" for zs :: "(int \<times> 'a) list"
    using assms(1) by (auto intro: filter_cong)
  with assms(2) show ?thesis by metis
qed

lemma tracks_later: "tracks n h ts \<Longrightarrow> n \<le> m \<Longrightarrow> tracks m h ts"
  unfolding tracks_def using filter_later [of "n - RPM_WINDOW_MS" "m - RPM_WINDOW_MS" ts h] by force

lemma prune_filter: "sorted (map fst ts) \<Longrightarrow> prune n ts = filter (\<lambda>p. n - RPM_WINDOW_MS < fst p) ts"
proof (induction ts)
  case (Cons p ts)
  then show ?case
    by (cases "fst p \<le> n - RPM_WINDOW_MS") (force simp: prune_def not_le intro!: filter_True [symmetric])+
qed (simp add: prune_def)

lemma tracks_prune: "tracks n h ts \<Longrightarrow> tracks n h (prune n ts)"
proof -
  assume t: "tracks n h ts"
  then have p: "prune n ts = filter (\<lambda>p. n - RPM_WINDOW_MS < fst p) ts"
    by (intro prune_filter) (simp add: tracks_def)
  from t show ?thesis unfolding p using sorted_filter [of fst ts "\<lambda>p. n - RPM_WINDOW_MS < fst p"] by (auto simp: tracks_def)
qed

lemma tracks_push: "tracks n h ts \<Longrightarrow> 0 \<le> k \<Longrightarrow> tracks n (h @ [(n, k)]) (ts @ [(n, k)])"
  by (auto simp: tracks_def sorted_append)

lemma window_sum_push:
  "window_sum T (h @ [(n, k)]) = window_sum T h + (if T - RPM_WINDOW_MS < n \<and> n \<le> T then k else 0)"
  by (simp add: window_sum_def)

lemma sum_filter_mono:
  "\<forall>p \<in> set h. 0 \<le> snd p \<Longrightarrow> (\<And>p. P p \<Longrightarrow> Q p) \<Longrightarrow>
    sum_list (map snd (filter P h)) \<le> sum_list (map snd (filter Q (h :: (int \<times> int) list)))"
  by (induction h) (auto intro: order_trans)

text \<open>An entry that fits into what the pruned list holds fits into every minute.\<close>

lemma window_bound_push:
  assumes "tracks n h ts" and "\<forall>T. window_sum T h \<le> B" and "sum_list (map snd (prune n ts)) + k \<le> B"
    and "0 \<le> k"
  shows "window_sum T (h @ [(n, k)]) \<le> B"
proof (cases "T - RPM_WINDOW_MS < n \<and> n \<le> T")
  case True
  have "window_sum T h \<le> sum_list (map snd (filter (\<lambda>p. n - RPM_WINDOW_MS < fst p) h))"
    unfolding window_sum_def using assms(1) True by (intro sum_filter_mono) (auto simp: tracks_def)
  also have "\<dots> = sum_list (map snd (prune n ts))"
    using assms(1) prune_filter [of ts n] by (simp add: tracks_def)
  finally show ?thesis using assms(3) True by (simp add: window_sum_push)
qed (use assms(2) in \<open>auto simp: window_sum_push\<close>)

section \<open>Runs of the gate\<close>

text \<open>
  A run under a clock that does not go back, with the history of its admissions: their instants and
  the tokens they declared.
\<close>

definition admission_entry :: "int \<Rightarrow> acquire_input \<Rightarrow> capacity_decision result \<Rightarrow> (int \<times> int option) list" where
  "admission_entry n inp r = (case r of Inr (Admitted _) \<Rightarrow> [(n, request_tokens inp)] | _ \<Rightarrow> [])"

inductive gate_run :: "int \<Rightarrow> (int \<times> int option) list \<Rightarrow> capacity_gate \<Rightarrow> bool" where
  run_start: "new_capacity_gate account limits = Inr g \<Longrightarrow> gate_run n [] g"
| run_acquire: "gate_run n h g \<Longrightarrow> n \<le> m \<Longrightarrow> tryAcquire m acquiredAt inp g = (r, g') \<Longrightarrow>
    gate_run m (h @ admission_entry m inp r) g'"
| run_release: "gate_run n h g \<Longrightarrow> release i g = (b, g') \<Longrightarrow> gate_run n h g'"
| run_limit: "gate_run n h g \<Longrightarrow> setProductAccountLimit a k g = (u, g') \<Longrightarrow> gate_run n h g'"

definition rate_history :: "(int \<times> int option) list \<Rightarrow> (int \<times> int) list" where
  "rate_history h = map (\<lambda>p. (fst p, 1)) h"

definition token_history :: "(int \<times> int option) list \<Rightarrow> (int \<times> int) list" where
  "token_history h = concat (map (\<lambda>p. case snd p of None \<Rightarrow> [] | Some k \<Rightarrow> [(fst p, k)]) h)"

lemma history_append [simp]:
  "rate_history (h @ h') = rate_history h @ rate_history h'"
  "token_history (h @ h') = token_history h @ token_history h'"
  by (simp_all add: rate_history_def token_history_def)

definition dated :: "int list \<Rightarrow> (int \<times> int) list" where
  "dated ts = map (\<lambda>t. (t, 1)) ts"

definition leases_ok :: "capacity_gate \<Rightarrow> bool" where
  "leases_ok g \<longleftrightarrow>
     distinct (map fst (cg_leases g)) \<and>
     (\<forall>p \<in> set (cg_leases g). le_leaseId (snd p) = fst p \<and> le_supplyAccountId (snd p) = cg_supplyAccountId g) \<and>
     countSupplyInUse g \<le> max 0 (effectiveUpstreamCeiling g)"

definition rates_ok :: "int \<Rightarrow> (int \<times> int option) list \<Rightarrow> capacity_gate \<Rightarrow> bool" where
  "rates_ok n h g \<longleftrightarrow>
     (\<forall>l. tl_rpm (cg_limits g) = Some l \<longrightarrow>
        tracks n (rate_history h) (dated (cg_admitTimestamps g)) \<and>
        (\<forall>T. window_sum T (rate_history h) \<le> max 0 \<lceil>l\<rceil>)) \<and>
     (\<forall>l. tl_tpm (cg_limits g) = Some l \<longrightarrow>
        tracks n (token_history h) (cg_tokenAdmits g) \<and>
        (\<forall>T. window_sum T (token_history h) \<le> max 0 \<lfloor>l\<rfloor>))"

lemma prune_windows:
  "dated (cg_admitTimestamps (pruneRateWindows n g)) = prune n (dated (cg_admitTimestamps g))"
  "cg_tokenAdmits (pruneRateWindows n g) = prune n (cg_tokenAdmits g)"
  by (simp_all add: pruneRateWindows_def Let_def prune_def dated_def dropWhile_map o_def)

lemma rates_ok_pruned:
  assumes "rates_ok n h g" and "n \<le> m" and "pruned m g p"
  shows "rates_ok m h p"
proof -
  have "rates_ok m h g" using assms(1,2) by (auto simp: rates_ok_def intro: tracks_later)
  with assms(3) show ?thesis
    by (auto simp: pruned_def rates_ok_def prune_windows intro: tracks_prune)
qed

lemma rates_ok_admit:
  assumes "rates_ok n h g" and "n \<le> m" and "admits m inp g p l g'"
  shows "rates_ok m (h @ [(m, request_tokens inp)]) g'"
proof -
  from assms(3) have p: "pruned m g p" by (simp add: admits_def)
  have ok: "rates_ok m h g" using assms(1,2) by (auto simp: rates_ok_def intro: tracks_later)
  have okp: "rates_ok m h p" by (rule rates_ok_pruned [OF assms(1,2) p])
  have limits: "cg_limits p = cg_limits g" "cg_limits g' = cg_limits g"
    using assms(3) pruned_counts(4) [OF p] by (simp_all add: admits_def)
  show ?thesis
    unfolding rates_ok_def limits
  proof (intro conjI allI impI)
    fix lim assume lim: "tl_rpm (cg_limits g) = Some lim"
    have g': "dated (cg_admitTimestamps g') = dated (cg_admitTimestamps p) @ [(m, 1)]"
      using assms(3) lim by (simp add: admits_def rate_entry_def dated_def)
    have t: "tracks m (rate_history h) (dated (cg_admitTimestamps p))"
      using okp lim limits by (simp add: rates_ok_def)
    then show "tracks m (rate_history (h @ [(m, request_tokens inp)])) (dated (cg_admitTimestamps g'))"
      by (simp add: g' rate_history_def tracks_push)
    fix T
    have "of_nat (length (cg_admitTimestamps p)) < lim" "p = pruneRateWindows m g"
      using assms(3) lim unfolding admits_def by blast+
    then have "int (length (cg_admitTimestamps p)) + 1 \<le> \<lceil>lim\<rceil>"
      using less_ceiling_iff [of "int (length (cg_admitTimestamps p))" lim] by simp
    moreover have "sum_list (map snd (dated xs)) = int (length xs)" for xs
      by (induction xs) (simp_all add: dated_def)
    ultimately have fit: "sum_list (map snd (prune m (dated (cg_admitTimestamps g)))) + 1 \<le> max 0 \<lceil>lim\<rceil>"
      using \<open>p = pruneRateWindows m g\<close> prune_windows(1) [of m g] by (metis max.coboundedI2)
    show "window_sum T (rate_history (h @ [(m, request_tokens inp)])) \<le> max 0 \<lceil>lim\<rceil>"
      using window_bound_push [OF _ _ fit, of "rate_history h" T] ok lim
      by (simp add: rates_ok_def rate_history_def)
  next
    fix lim assume lim: "tl_tpm (cg_limits g) = Some lim"
    have t: "tracks m (token_history h) (cg_tokenAdmits p)" "\<forall>T. window_sum T (token_history h) \<le> max 0 \<lfloor>lim\<rfloor>"
      using okp lim limits by (simp_all add: rates_ok_def)
    have g': "cg_tokenAdmits g' = cg_tokenAdmits p @ token_history [(m, request_tokens inp)]"
      using assms(3) lim by (auto simp: admits_def token_entry_def token_history_def split: option.splits)
    have nonneg: "0 \<le> k" if "request_tokens inp = Some k" for k
      using that by (auto simp: request_tokens_def)
    show "tracks m (token_history (h @ [(m, request_tokens inp)])) (cg_tokenAdmits g')"
      using t(1) nonneg by (cases "request_tokens inp") (simp_all add: g' token_history_def tracks_push)
    fix T
    show "window_sum T (token_history (h @ [(m, request_tokens inp)])) \<le> max 0 \<lfloor>lim\<rfloor>"
    proof (cases "request_tokens inp")
      case None
      with t show ?thesis by (simp add: token_history_def)
    next
      case (Some k)
      with assms(3) lim have "of_int (admitted_tokens p + k) \<le> lim" "p = pruneRateWindows m g"
        unfolding admits_def by blast+
      then have "sum_list (map snd (prune m (cg_tokenAdmits g))) + k \<le> max 0 \<lfloor>lim\<rfloor>"
        by (metis admitted_tokens_def prune_windows(2) le_floor_iff max.coboundedI2)
      then show ?thesis
        using window_bound_push [of m "token_history h" "cg_tokenAdmits g" _ k T] ok lim nonneg [OF Some] Some
        by (simp add: rates_ok_def token_history_def)
    qed
  qed
qed

text \<open>The leases: what admissions, releases and limits of single accounts keep.\<close>

lemma admits_facts:
  assumes "admits m inp g p l g'"
  shows "pruned m g p" and "le_leaseId l \<notin> fst ` set (cg_leases g)"
    and "cg_leases g' = cg_leases g @ [(le_leaseId l, l)]" and "cg_leases g' = map_set (le_leaseId l) l (cg_leases g)"
    and "cg_supplyAccountId g' = cg_supplyAccountId g" and "cg_limits g' = cg_limits g"
    and "product_limit g' a = product_limit g a" and "countSupplyInUse g < effectiveUpstreamCeiling g"
    and "countProductInUse g (ac_productAccountId inp) < product_limit g (ac_productAccountId inp)"
    and "le_supplyAccountId l = cg_supplyAccountId g" and "le_productAccountId l = ac_productAccountId inp"
proof -
  show p: "pruned m g p" using assms by (simp add: admits_def)
  have "map_of (cg_leases g) (le_leaseId l) = None" using assms unfolding admits_def by blast
  then show fresh: "le_leaseId l \<notin> fst ` set (cg_leases g)" by (simp add: map_of_eq_None_iff)
  show "cg_leases g' = map_set (le_leaseId l) l (cg_leases g)" using assms by (simp add: admits_def)
  then show "cg_leases g' = cg_leases g @ [(le_leaseId l, l)]" by (simp add: map_set_fresh [OF fresh])
  show "cg_supplyAccountId g' = cg_supplyAccountId g" "cg_limits g' = cg_limits g"
    "product_limit g' a = product_limit g a"
    using assms pruned_counts(3,4,7) [OF p]
    by (simp_all add: admits_def product_limit_def cong: option.case_cong)
  show "countSupplyInUse g < effectiveUpstreamCeiling g"
    "countProductInUse g (ac_productAccountId inp) < product_limit g (ac_productAccountId inp)"
    "le_supplyAccountId l = cg_supplyAccountId g" "le_productAccountId l = ac_productAccountId inp"
    using assms by (simp_all add: admits_def)
qed

lemma leases_ok_admit:
  assumes "leases_ok g" and "admits m inp g p l g'"
  shows "leases_ok g'"
  using assms(1) admits_facts [OF assms(2)]
  by (auto simp: leases_ok_def countSupplyInUse_def effectiveUpstreamCeiling_def)

lemma leases_ok_release: "leases_ok g \<Longrightarrow> leases_ok (snd (release i g))"
proof -
  assume ok: "leases_ok g"
  have "int (length (map_delete i (cg_leases g))) \<le> countSupplyInUse g"
    by (simp add: countSupplyInUse_def map_delete_def)
  with ok show ?thesis
    by (auto simp: leases_ok_def release_def countSupplyInUse_def effectiveUpstreamCeiling_def keys_map_delete
        intro: order_trans) (auto simp: map_delete_def)
qed

lemma leases_ok_pruned: "leases_ok g \<Longrightarrow> pruned m g p \<Longrightarrow> leases_ok (p\<lparr>cg_seq := k\<rparr>)"
  by (simp add: leases_ok_def countSupplyInUse_def effectiveUpstreamCeiling_def pruned_def same_leases_def)

lemma rates_ok_fields:
  "cg_limits g' = cg_limits g \<Longrightarrow> cg_admitTimestamps g' = cg_admitTimestamps g \<Longrightarrow>
    cg_tokenAdmits g' = cg_tokenAdmits g \<Longrightarrow> rates_ok n h g' = rates_ok n h g"
  by (simp add: rates_ok_def)

lemma setProductAccountLimit_cases:
  assumes "setProductAccountLimit a k g = (u, g')"
  obtains "g' = g" | m where "g' = g\<lparr>cg_productLimits := m\<rparr>"
  using assms by (auto simp: setProductAccountLimit_def guarded_def split: sum.splits)

lemma gate_run_ok: "gate_run n h g \<Longrightarrow> leases_ok g \<and> rates_ok n h g"
proof (induction rule: gate_run.induct)
  case (run_start account limits g n)
  then have "cg_leases g = []" "cg_admitTimestamps g = []" "cg_tokenAdmits g = []"
    by (auto simp: new_capacity_gate_def r_bind_def split: sum.splits)
  then show ?case
    by (simp add: leases_ok_def rates_ok_def tracks_def rate_history_def token_history_def dated_def
        window_sum_def countSupplyInUse_def)
next
  case (run_acquire n h g m acquiredAt inp r g')
  from tryAcquire_result [OF run_acquire.hyps(3)] show ?case
  proof (elim disjE exE conjE)
    fix p l
    assume "r = Inr (Admitted l)" and a: "admits m inp g p l g'"
    then show ?thesis
      using run_acquire.IH rates_ok_admit [OF _ run_acquire.hyps(2) a] leases_ok_admit [OF _ a]
      by (simp add: admission_entry_def)
  next
    fix p k
    assume r: "\<forall>l. r \<noteq> Inr (Admitted l)" and p: "pruned m g p" and g': "g' = p\<lparr>cg_seq := k\<rparr>"
    have "admission_entry m inp r = []"
      using r by (auto simp: admission_entry_def split: sum.splits capacity_decision.splits)
    then show ?thesis
      using run_acquire.IH leases_ok_pruned [OF _ p] rates_ok_pruned [OF _ run_acquire.hyps(2) p] g'
        rates_ok_fields [of g' p m h] by simp
  qed
next
  case (run_release n h g i b g')
  then have g': "g' = snd (release i g)" by simp
  with run_release.IH leases_ok_release [of g i] rates_ok_fields [of g' g n h] show ?case
    by (simp add: release_def)
next
  case (run_limit n h g a k u g')
  from run_limit.hyps(2) show ?case
    by (cases rule: setProductAccountLimit_cases)
      (use run_limit.IH in \<open>auto simp: leases_ok_def rates_ok_def countSupplyInUse_def effectiveUpstreamCeiling_def\<close>)
qed

lemma gate_run_limits_positive: "gate_run n h g \<Longrightarrow> 0 < effectiveUpstreamCeiling g"
proof (induction rule: gate_run.induct)
  case (run_start account limits g n)
  then show ?case
    by (auto simp: new_capacity_gate_def normalizeThreeLayerLimits_def assertPositiveInt_def check_def r_bind_def
        effectiveUpstreamCeiling_def split: sum.splits option.splits if_splits)
next
  case (run_acquire n h g m acquiredAt inp r g')
  from tryAcquire_result [OF run_acquire.hyps(3)] run_acquire.IH show ?case
    by (auto simp: admits_def pruned_def same_leases_def effectiveUpstreamCeiling_def)
next
  case (run_release n h g i b g')
  then show ?case by (auto simp: release_def effectiveUpstreamCeiling_def)
next
  case (run_limit n h g a k u g')
  from run_limit.hyps(2) run_limit.IH show ?case
    by (cases rule: setProductAccountLimit_cases) (auto simp: effectiveUpstreamCeiling_def)
qed

section \<open>Properties of the gate\<close>

text \<open>
  C3. The capacity gate never admits beyond its layers. After any calls of a gate, the leases held
  are at most its upstream ceiling, each is filed under its own identifier and belongs to the supply
  account of the gate; and a call that admits a lease found the product account, which holds one
  lease more afterwards, below the limit in force for it.
\<close>

theorem capacity_never_exceeded:
  assumes "gate_run n h g"
  shows "countSupplyInUse g \<le> effectiveUpstreamCeiling g \<and>
    (\<forall>i l. map_of (cg_leases g) i = Some l \<longrightarrow> le_leaseId l = i \<and> le_supplyAccountId l = cg_supplyAccountId g) \<and>
    (\<forall>m acquiredAt inp l g'. tryAcquire m acquiredAt inp g = (Inr (Admitted l), g') \<longrightarrow>
       countProductInUse g' (ac_productAccountId inp) = countProductInUse g (ac_productAccountId inp) + 1 \<and>
       countProductInUse g' (ac_productAccountId inp) \<le> product_limit g' (ac_productAccountId inp) \<and>
       map_of (cg_leases g') (le_leaseId l) = Some l)"
proof (intro conjI allI impI)
  have ok: "leases_ok g" using gate_run_ok [OF assms] by blast
  then show "countSupplyInUse g \<le> effectiveUpstreamCeiling g"
    using gate_run_limits_positive [OF assms] by (simp add: leases_ok_def)
  show "le_leaseId l = i" "le_supplyAccountId l = cg_supplyAccountId g" if "map_of (cg_leases g) i = Some l" for i l
    using ok map_of_SomeD [OF that] by (auto simp: leases_ok_def)
  fix m acquiredAt inp l g'
  assume "tryAcquire m acquiredAt inp g = (Inr (Admitted l), g')"
  from tryAcquire_result [OF this] obtain p where a: "admits m inp g p l g'" by auto
  note a = admits_facts [OF a]
  show count: "countProductInUse g' (ac_productAccountId inp) = countProductInUse g (ac_productAccountId inp) + 1"
    by (simp add: countProductInUse_def a(3,11))
  show "countProductInUse g' (ac_productAccountId inp) \<le> product_limit g' (ac_productAccountId inp)"
    using a(9) by (simp add: count a(7))
  show "map_of (cg_leases g') (le_leaseId l) = Some l" by (simp add: a(4))
qed

text \<open>
  C19. The rate limits hold in every minute. Under a clock that does not go back, the admissions of a
  gate with a limit of requests per minute are in every window of sixty seconds at most that limit,
  rounded up, and the tokens declared by the admissions at most the limit of tokens per minute,
  rounded down, whatever was released or rejected in between.
\<close>

theorem rate_limits_hold_in_every_minute:
  assumes "gate_run n h g"
  shows "(\<forall>l. tl_rpm (cg_limits g) = Some l \<longrightarrow>
      int (length (filter (\<lambda>p. T - RPM_WINDOW_MS < fst p \<and> fst p \<le> T) h)) \<le> max 0 \<lceil>l\<rceil>) \<and>
    (\<forall>l. tl_tpm (cg_limits g) = Some l \<longrightarrow>
      sum_list (map (\<lambda>p. or_default (snd p) 0) (filter (\<lambda>p. T - RPM_WINDOW_MS < fst p \<and> fst p \<le> T) h))
        \<le> max 0 \<lfloor>l\<rfloor>)"
proof -
  have "rates_ok n h g" using gate_run_ok [OF assms] by blast
  moreover have "window_sum T (rate_history h) =
      int (length (filter (\<lambda>p. T - RPM_WINDOW_MS < fst p \<and> fst p \<le> T) h))"
    by (induction h) (simp_all add: window_sum_def rate_history_def)
  moreover have "window_sum T (token_history h) =
      sum_list (map (\<lambda>p. or_default (snd p) 0) (filter (\<lambda>p. T - RPM_WINDOW_MS < fst p \<and> fst p \<le> T) h))"
    by (induction h) (auto simp: window_sum_def token_history_def or_default_def split: option.splits)
  ultimately show ?thesis unfolding rates_ok_def by metis
qed

text \<open>
  Giving a lease undone undoes the admission. In every reachable gate, releasing the lease a call
  has just admitted succeeds once and leaves the leases as they were before the call, so that all
  three layers are free again; the rate windows still count the admission, and a second release
  finds nothing.
\<close>

theorem release_undoes_acquire:
  assumes "gate_run n h g" and "tryAcquire m acquiredAt inp g = (Inr (Admitted l), g')"
  shows "\<exists>g''. release (le_leaseId l) g' = (True, g'') \<and> cg_leases g'' = cg_leases g \<and>
    countSupplyInUse g'' = countSupplyInUse g \<and> countProductInUse g'' a = countProductInUse g a \<and>
    cg_admitTimestamps g'' = cg_admitTimestamps g' \<and> cg_tokenAdmits g'' = cg_tokenAdmits g' \<and>
    release (le_leaseId l) g'' = (False, g'')"
proof -
  from tryAcquire_result [OF assms(2)] obtain p where "admits m inp g p l g'" by auto
  then have fresh: "map_of (cg_leases g) (le_leaseId l) = None"
    and leases: "cg_leases g' = map_set (le_leaseId l) l (cg_leases g)"
    using admits_facts(2,4) by (auto simp: map_of_eq_None_iff)
  let ?g = "g'\<lparr>cg_leases := map_delete (le_leaseId l) (cg_leases g')\<rparr>"
  have undone: "cg_leases ?g = cg_leases g"
    using map_delete_set_fresh [OF fresh] by (simp add: leases)
  have "release (le_leaseId l) g' = (True, ?g)" by (simp add: release_def leases)
  moreover have "release (le_leaseId l) ?g = (False, ?g)"
    using fresh map_delete_absent [OF fresh] undone by (simp add: release_def)
  ultimately show ?thesis
    using undone by (intro exI [of _ ?g]) (simp add: countSupplyInUse_def countProductInUse_def)
qed

definition sample_limits :: supply_capacity_limits where
  "sample_limits =
     \<lparr> cap_supplyAccount = Some \<lparr>sl_concurrency = Some (JInt 2), sl_rpm = Some 1, sl_tpm = Some 100\<rparr>,
       cap_productAccount = Some \<lparr>pl_concurrency = Some (JInt 2), pl_queuePriority = None\<rparr>,
       cap_systemTotal = Some (Some (JInt 10)) \<rparr>"

definition sample_acquire :: acquire_input where
  "sample_acquire = \<lparr>ac_productAccountId = ''acct'', ac_workspaceId = ''ws'', ac_leaseId = None, ac_tokens = Some 60\<rparr>"

definition empty_gate :: capacity_gate where
  "empty_gate =
     \<lparr> cg_supplyAccountId = ''supply'',
       cg_limits = \<lparr>tl_supplyConcurrency = 2, tl_rpm = Some 1, tl_tpm = Some 100, tl_productConcurrency = 2,
                    tl_queuePriority = None, tl_systemConcurrency = 10\<rparr>,
       cg_leases = [], cg_seq = 0, cg_productLimits = [], cg_admitTimestamps = [], cg_tokenAdmits = [] \<rparr>"

definition sample_lease :: capacity_lease where
  "sample_lease = \<lparr>le_leaseId = ''lease:1'', le_supplyAccountId = ''supply'', le_productAccountId = ''acct'',
     le_workspaceId = ''ws'', le_acquiredAt = ''t1''\<rparr>"

definition busy_gate :: capacity_gate where
  "busy_gate = snd (tryAcquire 1000 ''t1'' sample_acquire empty_gate)"

lemma empty_gate_run: "gate_run 0 [] empty_gate"
  by (rule run_start [of "''supply''" sample_limits])
    (simp add: new_capacity_gate_def normalizeThreeLayerLimits_def sample_limits_def empty_gate_def
      assertPositiveInt_def check_def r_bind_def)

lemma busy_gate_step: "tryAcquire 1000 ''t1'' sample_acquire empty_gate = (Inr (Admitted sample_lease), busy_gate)"
  unfolding busy_gate_def by (rule prod_eqI) (code_simp, simp)

lemma busy_gate_run: "gate_run 1000 [(1000, Some 60)] busy_gate"
proof -
  have "request_tokens sample_acquire = Some 60" by code_simp
  then show ?thesis
    using run_acquire [OF empty_gate_run _ busy_gate_step] by (simp add: admission_entry_def)
qed

lemma capacity_never_exceeded_witness:
  "countSupplyInUse busy_gate \<le> effectiveUpstreamCeiling busy_gate \<and>
   countProductInUse busy_gate ''acct'' \<le> product_limit busy_gate ''acct''"
proof -
  have "ac_productAccountId sample_acquire = ''acct''" by (simp add: sample_acquire_def)
  then show ?thesis
    using capacity_never_exceeded [OF busy_gate_run] capacity_never_exceeded [OF empty_gate_run] busy_gate_step
    by metis
qed

lemma rate_limits_hold_in_every_minute_witness:
  "int (length (filter (\<lambda>p. 59000 - RPM_WINDOW_MS < fst p \<and> fst p \<le> 59000) [(1000 :: int, Some (60 :: int))])) \<le> 1"
proof -
  have "cg_limits busy_gate = cg_limits empty_gate"
    using tryAcquire_result [OF busy_gate_step] admits_facts(6) by auto
  then have "tl_rpm (cg_limits busy_gate) = Some 1" by (simp add: empty_gate_def)
  then show ?thesis
    using rate_limits_hold_in_every_minute [OF busy_gate_run, of 59000] by (auto simp del: filter.simps)
qed

lemma release_undoes_acquire_witness:
  "\<exists>g''. release ''lease:1'' busy_gate = (True, g'') \<and> countSupplyInUse g'' = 0"
proof -
  have "le_leaseId sample_lease = ''lease:1''" "countSupplyInUse empty_gate = 0"
    by (simp_all add: sample_lease_def empty_gate_def countSupplyInUse_def)
  then show ?thesis using release_undoes_acquire [OF empty_gate_run busy_gate_step] by metis
qed

section \<open>Snapshots\<close>

lemma leases_by_product_count:
  "map_of (fold (\<lambda>l m. map_set (le_productAccountId l)
      ((case map_of m (le_productAccountId l) of None \<Rightarrow> 0 | Some n \<Rightarrow> n) + 1) m) ls m0) a =
   (let k = int (length (filter (\<lambda>l. le_productAccountId l = a) ls))
    in if k = 0 then map_of m0 a else Some (k + (case map_of m0 a of None \<Rightarrow> 0 | Some n \<Rightarrow> n)))"
  by (induction ls arbitrary: m0) (auto simp: Let_def)

lemma distinct_fold_map_set: "distinct (map fst m) \<Longrightarrow> distinct (map fst (fold (\<lambda>l m. map_set (k l) (v l m) m) ls m))"
  by (induction ls arbitrary: m) (simp_all add: distinct_map_set)

text \<open>The snapshot lists every product account that holds leases once, with its use and its limit.\<close>

lemma snapshot_counts:
  "distinct (map fst (sn_productAccounts (snapshot g)))"
  "(a, k, limit) \<in> set (sn_productAccounts (snapshot g)) \<longleftrightarrow>
     k = countProductInUse g a \<and> 0 < k \<and> limit = product_limit g a"
proof -
  have d: "distinct (map fst (leases_by_product g))"
    unfolding leases_by_product_def by (rule distinct_fold_map_set) simp
  then show "distinct (map fst (sn_productAccounts (snapshot g)))"
    by (simp add: snapshot_def o_def split_def)
  have "(a, k) \<in> set (leases_by_product g) \<longleftrightarrow> map_of (leases_by_product g) a = Some k"
    using d by (rule map_of_distinct_iff)
  also have "\<dots> \<longleftrightarrow> k = countProductInUse g a \<and> 0 < k"
    by (auto simp: leases_by_product_def leases_by_product_count Let_def countProductInUse_def)
  finally show "(a, k, limit) \<in> set (sn_productAccounts (snapshot g)) \<longleftrightarrow>
     k = countProductInUse g a \<and> 0 < k \<and> limit = product_limit g a"
    by (auto simp: snapshot_def)
qed

section \<open>Pools\<close>

inductive pool_step :: "pool_registry \<Rightarrow> pool_registry \<Rightarrow> bool" where
  pool_shared: "registerShared inp s = (r, s') \<Longrightarrow> pool_step s s'"
| pool_dedicated: "registerDedicated inp terms s = (r, s') \<Longrightarrow> pool_step s s'"

text \<open>A registered pool is filed under its identifier; a dedicated one has someone to serve.\<close>

definition pools_ok :: "pool_registry \<Rightarrow> bool" where
  "pools_ok pools \<longleftrightarrow>
     (\<forall>i p. map_of pools i = Some p \<longrightarrow>
        sp_id p = i \<and> sp_credentialAccountIds p \<noteq> [] \<and> sp_deploymentIds p \<noteq> [] \<and>
        (\<forall>t. sp_dedicated p = Some t \<longrightarrow> or_default (dt_authorizedWorkspaceIds t) [] \<noteq> []))"

lemma assertRegisterBase_ok:
  "assertRegisterBase p = Inr u \<Longrightarrow> sp_credentialAccountIds p \<noteq> [] \<and> sp_deploymentIds p \<noteq> []"
  by (auto simp: assertRegisterBase_def r_bind_def check_def split: if_splits)

lemma register_pool_ok:
  assumes "register_pool p s = (r, s')" and "pools_ok s"
    and "sp_credentialAccountIds p \<noteq> []" and "sp_deploymentIds p \<noteq> []"
    and "\<forall>t. sp_dedicated p = Some t \<longrightarrow> or_default (dt_authorizedWorkspaceIds t) [] \<noteq> []"
  shows "pools_ok s'"
  using assms by (auto simp: register_pool_def pools_ok_def split: if_splits)

lemma pool_step_ok: "pool_step s s' \<Longrightarrow> pools_ok s \<Longrightarrow> pools_ok s'"
proof (induction rule: pool_step.induct)
  case (pool_shared inp s r s')
  show ?case
  proof (cases "assertRegisterBase inp")
    case (Inr u)
    with pool_shared.hyps have reg: "register_pool (inp\<lparr>sp_dedicated := None\<rparr>) s = (r, s')"
      by (simp add: registerShared_def guarded_def)
    from assertRegisterBase_ok [OF Inr] pool_shared.prems show ?thesis
      by (simp add: register_pool_ok [OF reg])
  qed (use pool_shared in \<open>simp add: registerShared_def guarded_def\<close>)
next
  case (pool_dedicated inp terms s r s')
  show ?case
  proof (cases "assertRegisterBase inp")
    case (Inr u)
    note step = pool_dedicated.hyps [unfolded registerDedicated_def guarded_def Inr sum.case]
    show ?thesis
    proof (cases "\<not> blank (dt_contractRef terms) \<and> or_default (dt_authorizedWorkspaceIds terms) [] \<noteq> []")
      case True
      with step have reg: "register_pool (inp\<lparr>sp_dedicated := Some terms\<rparr>) s = (r, s')" by (simp add: check_def)
      from True assertRegisterBase_ok [OF Inr] pool_dedicated.prems show ?thesis
        by (simp add: register_pool_ok [OF reg])
    next
      case False
      with step have "s' = s" by (auto simp: check_def split: if_splits)
      with pool_dedicated.prems show ?thesis by simp
    qed
  qed (use pool_dedicated in \<open>simp add: registerDedicated_def guarded_def\<close>)
qed

lemma pool_run_ok: "pool_step\<^sup>*\<^sup>* [] s \<Longrightarrow> pools_ok s"
  by (induction rule: rtranclp_induct) (auto intro: pool_step_ok simp: pools_ok_def [of "[]"])

text \<open>Who may use a pool: everyone a shared one, the contract and its explicit grants a dedicated one.\<close>

definition may_use :: "supply_pool \<Rightarrow> resolve_input \<Rightarrow> bool" where
  "may_use p inp \<longleftrightarrow>
     (\<forall>terms. sp_dedicated p = Some terms \<longrightarrow>
        (rz_workspace inp \<in> set (or_default (dt_authorizedWorkspaceIds terms) []) \<or>
         (\<exists>a \<in> set (rz_allocations inp). pool_grant (sp_id p) (rz_workspace inp) (rz_accountId inp) a)) \<and>
        (or_default (dt_dataClassRestriction terms) [] = [] \<or>
         set (rz_dataClasses inp) \<subseteq> set (or_default (dt_dataClassRestriction terms) [])))"

lemma authorizeWorkspace_may_use:
  assumes "pools_ok pools" and "map_of pools i = Some p"
  shows "authorizeWorkspace pools p inp = None \<longleftrightarrow> may_use p inp"
proof -
  have "map_of pools (sp_id p) = Some p" using assms by (auto simp: pools_ok_def)
  then show ?thesis
    by (cases "sp_dedicated p")
      (auto simp: authorizeWorkspace_def isWorkspaceAuthorizedForPool_def may_use_def Let_def list_ex_iff)
qed

text \<open>
  A pool is resolved exactly for those who may use it. In every reachable registry: the
  preferred pool is returned if and only if it is registered, available and the workspace may use it
  (a shared pool, or a dedicated one whose contract names the workspace or for which the account
  holds an active grant, and whose data classes admit the request); a fallback is returned if and only
  if the preferred pool may be used but is unavailable, the fallback may be used, and either it is of
  the same kind or both the contract and the data policy authorize the crossing. In particular a
  workspace that may not use the preferred pool never gets another one.
\<close>

theorem pool_resolution_exact:
  assumes "pool_step\<^sup>*\<^sup>* [] pools"
  shows "(resolve pools inp = Resolved p Preferred \<longleftrightarrow>
      map_of pools (rz_preferredPoolId inp) = Some p \<and> may_use p inp \<and> \<not> rz_preferredUnavailable inp) \<and>
    (resolve pools inp = Resolved p Authorized_fallback \<longleftrightarrow>
      (\<exists>q i. map_of pools (rz_preferredPoolId inp) = Some q \<and> may_use q inp \<and> rz_preferredUnavailable inp \<and>
         truthy (rz_fallbackPoolId inp) = Some i \<and> map_of pools i = Some p \<and> may_use p inp \<and>
         (same_kind q p \<or> rz_contractEntitlementAuthorized inp \<and> rz_dataPolicyAuthorized inp)))"
proof -
  note ok = authorizeWorkspace_may_use [OF pool_run_ok [OF assms]]
  show ?thesis
  proof (cases "map_of pools (rz_preferredPoolId inp)")
    case None
    then show ?thesis by (simp add: resolve_def)
  next
    case (Some q)
    show ?thesis
    proof (cases "authorizeWorkspace pools q inp")
      case (Some d)
      with \<open>map_of pools (rz_preferredPoolId inp) = Some q\<close> ok [of "rz_preferredPoolId inp" q inp] show ?thesis
        by (auto simp: resolve_def)
    next
      case None
      with Some ok [of "rz_preferredPoolId inp" q inp] have q: "may_use q inp" by simp
      show ?thesis
      proof (cases "rz_preferredUnavailable inp")
        case False
        with Some None q show ?thesis by (auto simp: resolve_def)
      next
        case True
        note now = True Some None q
        show ?thesis
        proof (cases "Option.bind (truthy (rz_fallbackPoolId inp)) (map_of pools)")
          case None
          with now show ?thesis by (auto simp: resolve_def bind_eq_None_conv split: option.splits)
        next
          case (Some f)
          then obtain i where f: "truthy (rz_fallbackPoolId inp) = Some i" "map_of pools i = Some f"
            by (auto simp: bind_eq_Some_conv)
          with now ok [OF f(2), of inp] show ?thesis
            by (cases "authorizeWorkspace pools f inp") (auto simp: resolve_def)
        qed
      qed
    qed
  qed
qed

definition sample_pool :: "string \<Rightarrow> supply_pool" where
  "sample_pool i =
     \<lparr> sp_id = i, sp_displayName = ''pool'', sp_credentialAccountIds = [''c''], sp_deploymentIds = [''d''],
       sp_capacity = None, sp_revisionId = ''r'', sp_dedicated = None \<rparr>"

definition sample_terms :: dedicated_terms where
  "sample_terms =
     \<lparr> dt_contractRef = ''contract'', dt_authorizedWorkspaceIds = Some [''ws1''], dt_regionRestriction = None,
       dt_dataClassRestriction = Some [Public], dt_exclusiveBilling = None, dt_reservedCapacity = None \<rparr>"

definition sample_pools :: pool_registry where
  "sample_pools = snd (registerDedicated (sample_pool ''own'') sample_terms (snd (registerShared (sample_pool ''all'') [])))"

definition sample_request :: "string \<Rightarrow> resolve_input" where
  "sample_request ws =
     \<lparr> rz_preferredPoolId = ''own'', rz_fallbackPoolId = Some ''all'', rz_preferredUnavailable = False,
       rz_contractEntitlementAuthorized = False, rz_dataPolicyAuthorized = False, rz_allocations = [],
       rz_workspace = ws, rz_accountId = ''acct'', rz_dataClasses = [Public] \<rparr>"

lemma sample_pools_run: "pool_step\<^sup>*\<^sup>* [] sample_pools"
proof -
  have "pool_step s (snd (registerShared p s))" "pool_step s (snd (registerDedicated p t s))" for s p t
    by (rule pool_shared pool_dedicated; rule prod.collapse [symmetric])+
  then show ?thesis unfolding sample_pools_def by (meson r_into_rtranclp rtranclp.rtrancl_into_rtrancl)
qed

lemma pool_resolution_exact_witness:
  "resolve sample_pools (sample_request ''ws1'') = Resolved (sample_pool ''own''\<lparr>sp_dedicated := Some sample_terms\<rparr>) Preferred \<and>
   (\<forall>p via. resolve sample_pools (sample_request ''ws2'') \<noteq> Resolved p via)"
proof -
  let ?own = "sample_pool ''own''\<lparr>sp_dedicated := Some sample_terms\<rparr>"
  have own: "map_of sample_pools ''own'' = Some ?own" by code_simp
  have use: "may_use ?own (sample_request ''ws1'')" "\<not> may_use ?own (sample_request ''ws2'')"
    by (simp_all add: may_use_def sample_terms_def sample_request_def or_default_def)
  have fields: "rz_preferredPoolId (sample_request ws) = ''own''" "\<not> rz_preferredUnavailable (sample_request ws)" for ws
    by (simp_all add: sample_request_def)
  have "resolve sample_pools (sample_request ''ws1'') = Resolved ?own Preferred"
    using pool_resolution_exact [OF sample_pools_run, of "sample_request ''ws1''" ?own] own use(1) fields by auto
  moreover have "resolve sample_pools (sample_request ''ws2'') \<noteq> Resolved p via" for p via
    using pool_resolution_exact [OF sample_pools_run, of "sample_request ''ws2''" p] own use(2) fields by (cases via) auto
  ultimately show ?thesis by blast
qed

end
