(* ===== verification/Admission.thy ===== *)
theory Admission
  imports PolicyRevision SupplyPool
begin

text \<open>
  The admission of a provider attempt, \<^verbatim>\<open>entitlement-pools/model-supply-admission.ts\<close>: it reads the
  product policy of the workspace, the published plan policy, the active allocations and the pools,
  computes the effective entitlement, selects a supply pool and asks the capacity port for a lease.
  The readers are PostgreSQL repositories: what they return is an argument. The capacity port is an
  operation on a state \<open>'g\<close> of its own; its rejection is known here by its code. The clock is read
  for the entitlement and again for the validity and the lease.
\<close>

section \<open>Data\<close>

record admission_options =
  op_defaultSupplyPoolId :: string
  op_leaseTtlMs :: int
  op_defaultSupplyAccountConcurrency :: int
  op_defaultSystemConcurrency :: int
  op_capacityQueueWaitMs :: int
  op_creditMeteringEnabled :: bool

definition default_options :: admission_options where
  "default_options =
     \<lparr> op_defaultSupplyPoolId = ''pool-shared-default'', op_leaseTtlMs = 15 * 60 * 1000,
       op_defaultSupplyAccountConcurrency = 32, op_defaultSystemConcurrency = 256,
       op_capacityQueueWaitMs = 30000, op_creditMeteringEnabled = False \<rparr>"

text \<open>What the admission reads of the attempt: its submission, snapshot, model and deployment.\<close>

record admit_input =
  ad_workspaceId :: string
  ad_actorId :: string
  ad_operation :: string
  ad_auto :: bool
  ad_profile :: "quality_tier option"
  ad_dataClass :: "data_class list"
  ad_attemptId :: string
  ad_credentialAccountId :: "string option"
  ad_dataPolicyRevisionId :: "string option"
  ad_modelId :: string
  ad_deploymentId :: string
  ad_deploymentRegion :: string
  ad_lifecycleLease :: bool

record lease_request =
  lr_leaseId :: string
  lr_supplyAccountId :: string
  lr_productAccountId :: string
  lr_workspaceId :: string
  lr_limits :: supply_capacity_limits
  lr_productAccountLimit :: int
  lr_acquiredAt :: string
  lr_expiresAt :: string
  lr_now :: string

record fair_request =
  fr_queueRequestId :: string
  fr_queuePriority :: int
  fr_maxWaitMs :: int

datatype port_decision = Port_admitted string | Port_rejected string

record ('g) capacity_port =
  pt_tryAcquire :: "lease_request \<Rightarrow> ('g, port_decision) op"
  pt_tryAcquireFair :: "(lease_request \<Rightarrow> fair_request \<Rightarrow> ('g, port_decision) op) option"
  pt_reacquireFair :: "(string \<Rightarrow> string \<Rightarrow> string \<Rightarrow> int \<Rightarrow> ('g, port_decision option) op) option"
  pt_renew :: "(string \<Rightarrow> string \<Rightarrow> string \<Rightarrow> ('g, bool) op) option"
  pt_release :: "string \<Rightarrow> ('g, bool) op"

record admitted_attempt =
  am_leaseId :: string
  am_supplyPoolId :: string
  am_entitlementPolicyRevision :: string
  am_appliedAllocationIds :: "string list"

datatype admission_code =
    ENTITLEMENT_POLICY_UNAVAILABLE | ENTITLEMENT_POLICY_INACTIVE | CATALOG_MODEL_NOT_ENTITLED
  | RESOURCE_NOT_ENTITLED | QUALITY_TIER_NOT_ENTITLED | SUPPLY_POOL_NOT_ENTITLED
  | ADMISSION_CROSS_KIND_FALLBACK_DENIED | SUPPLY_ACCOUNT_UNAVAILABLE | PORT_CODE string

datatype admission_decision = Attempt_admitted admitted_attempt | Attempt_rejected admission_code

section \<open>Steps of the decision\<close>

definition resourceForOperation :: "string \<Rightarrow> usage_resource" where
  "resourceForOperation operation =
     (if starts_with ''image.'' operation then Image
      else if starts_with ''video.'' operation then Video
      else if starts_with ''audio.'' operation then Audio
      else Copy)"

definition policyFromPublishedRevision ::
    "entitlement_policy \<Rightarrow> policy_revision option \<Rightarrow> entitlement_policy" where
  "policyFromPublishedRevision p published =
     (case published of
        None \<Rightarrow> p
      | Some r \<Rightarrow>
          let b = pr_body r; x = pb_extension b
          in p\<lparr> ep_revision := pr_id r, ep_tier := pb_tier b, ep_allowance := pb_allowance b,
                ep_concurrencyLimit := pb_concurrencyLimit b, ep_queuePriority := pb_queuePriority b,
                ep_supportLabel := pb_supportLabel b,
                ep_allowedCatalogModelIds := Some (px_allowedCatalogModelIds x),
                ep_allowedQualityTiers := Some (px_allowedQualityTiers x),
                ep_availableSupplyPoolIds := Some (px_availableSupplyPoolIds x),
                ep_overage := Some (px_overage x), ep_validity := Some (px_validity x) \<rparr>)"

definition isExplicitlyRestricted :: "account_allocation list \<Rightarrow> (account_allocation \<Rightarrow> bool) \<Rightarrow> bool" where
  "isExplicitlyRestricted allocations P \<longleftrightarrow> list_ex (\<lambda>a. aa_kind a = Restrict_kind \<and> P a) allocations"

text \<open>A configured concurrency that is no integer is \<^verbatim>\<open>NaN\<close> here, which \<^verbatim>\<open>Math.min\<close> passes on.\<close>

definition capacityLimits :: "supply_pool \<Rightarrow> int \<Rightarrow> int \<Rightarrow> int \<Rightarrow> supply_capacity_limits" where
  "capacityLimits pool productConcurrency supplyDefault systemDefault =
     (let configured = (case Option.bind (sp_dedicated pool) dt_reservedCapacity of
                          Some c \<Rightarrow> Some c
                        | None \<Rightarrow> sp_capacity pool);
          supply = Option.bind configured cap_supplyAccount;
          product = Option.bind configured cap_productAccount
      in \<lparr> cap_supplyAccount = Some
             \<lparr> sl_concurrency = Some (or_default (Option.bind supply sl_concurrency) (JInt supplyDefault)),
               sl_rpm = Option.bind supply sl_rpm, sl_tpm = Option.bind supply sl_tpm \<rparr>,
           cap_productAccount = Some
             \<lparr> pl_concurrency = Some
                 (case or_default (Option.bind product pl_concurrency) (JInt productConcurrency) of
                    JInt n \<Rightarrow> JInt (min productConcurrency n)
                  | JNonInt \<Rightarrow> JNonInt),
               pl_queuePriority = Option.bind product pl_queuePriority \<rparr>,
           cap_systemTotal = Some (Some (or_default
             (Option.bind (Option.bind configured cap_systemTotal) (\<lambda>c. c)) (JInt systemDefault))) \<rparr>)"

definition admission_entitlement ::
    "entitlement_policy \<Rightarrow> policy_revision option \<Rightarrow> account_allocation list \<Rightarrow> admit_input \<Rightarrow> int \<Rightarrow>
     effective_entitlement" where
  "admission_entitlement product_policy published allocations inp now =
     computeEffectiveEntitlement
       \<lparr> ei_planPolicy = policyFromPublishedRevision product_policy published,
         ei_platformHardLimits = None,
         ei_accountOverrides = filter (\<lambda>a. aa_source a \<noteq> Campaign) allocations,
         ei_campaignGrants = filter (\<lambda>a. aa_source a = Campaign) allocations,
         ei_requestPreferences =
           (if ad_auto inp
            then Some (no_preferences\<lparr>rp_preferredQualityTier := Some [or_default (ad_profile inp) Auto]\<rparr>)
            else None),
         ei_now = now \<rparr>"

definition outside_validity :: "validity_window \<Rightarrow> int \<Rightarrow> bool" where
  "outside_validity v now \<longleftrightarrow>
     (case truthy (vw_validFrom v) of None \<Rightarrow> False | Some f \<Rightarrow> num_lt (Some now) (date_parse f)) \<or>
     (case truthy (vw_validUntil v) of None \<Rightarrow> False | Some u \<Rightarrow> num_le (date_parse u) (Some now))"

definition targets_model :: "string \<Rightarrow> account_allocation \<Rightarrow> bool" where
  "targets_model m a \<longleftrightarrow> aa_target a = Catalog_model m"

definition targets_pool :: "string \<Rightarrow> account_allocation \<Rightarrow> bool" where
  "targets_pool p a \<longleftrightarrow> aa_target a = Supply_pool p"

definition grants_pool :: "account_allocation list \<Rightarrow> string \<Rightarrow> bool" where
  "grants_pool allocations p \<longleftrightarrow> list_ex (\<lambda>a. aa_kind a = Grant_kind \<and> targets_pool p a) allocations"

text \<open>The checks before a pool is chosen, in order.\<close>

definition entitlement_rejection ::
    "admission_options \<Rightarrow> effective_entitlement \<Rightarrow> account_allocation list \<Rightarrow> admit_input \<Rightarrow> int \<Rightarrow>
     admission_code option" where
  "entitlement_rejection opts e allocations inp now =
     (if outside_validity (ee_validity e) now then Some ENTITLEMENT_POLICY_INACTIVE
      else if isExplicitlyRestricted allocations (targets_model (ad_modelId inp)) \<or>
              ee_allowedCatalogModelIds e \<noteq> [] \<and> ad_modelId inp \<notin> set (ee_allowedCatalogModelIds e)
      then Some CATALOG_MODEL_NOT_ENTITLED
      else if \<not> op_creditMeteringEnabled opts \<and> ee_allowance e (resourceForOperation (ad_operation inp)) \<le> 0
      then Some RESOURCE_NOT_ENTITLED
      else if ad_auto inp \<and> ee_allowedQualityTiers e \<noteq> [] \<and>
              or_default (ad_profile inp) Auto \<notin> set (ee_allowedQualityTiers e)
      then Some QUALITY_TIER_NOT_ENTITLED
      else None)"

definition pool_entitled ::
    "effective_entitlement \<Rightarrow> account_allocation list \<Rightarrow> admit_input \<Rightarrow> supply_pool \<Rightarrow> bool" where
  "pool_entitled e allocations inp pool \<longleftrightarrow>
     ad_deploymentId inp \<in> set (sp_deploymentIds pool) \<and>
     (ee_availableSupplyPoolIds e = [] \<or> sp_id pool \<in> set (ee_availableSupplyPoolIds e)) \<and>
     \<not> isExplicitlyRestricted allocations (targets_pool (sp_id pool))"

definition requested_classes :: "admit_input \<Rightarrow> data_class list" where
  "requested_classes inp = (if ad_dataClass inp = [] then [Public] else ad_dataClass inp)"

definition dedicated_eligible ::
    "account_allocation list \<Rightarrow> admit_input \<Rightarrow> supply_pool \<Rightarrow> dedicated_terms \<Rightarrow> bool" where
  "dedicated_eligible allocations inp pool terms \<longleftrightarrow>
     (ad_workspaceId inp \<in> set (or_default (dt_authorizedWorkspaceIds terms) []) \<or>
      grants_pool allocations (sp_id pool)) \<and>
     (let regions = or_default (dt_regionRestriction terms) []
      in regions = [] \<or> ad_deploymentRegion inp \<in> set regions) \<and>
     (let classes = or_default (dt_dataClassRestriction terms) []
      in classes = [] \<or> list_all (\<lambda>c. c \<in> set classes) (requested_classes inp))"

definition pool_eligible :: "account_allocation list \<Rightarrow> admit_input \<Rightarrow> supply_pool \<Rightarrow> bool" where
  "pool_eligible allocations inp pool \<longleftrightarrow>
     (case truthy (ad_credentialAccountId inp) of
        None \<Rightarrow> True
      | Some c \<Rightarrow> c \<in> set (sp_credentialAccountIds pool)) \<and>
     (case sp_dedicated pool of
        None \<Rightarrow> True
      | Some terms \<Rightarrow> dedicated_eligible allocations inp pool terms)"

text \<open>\<^verbatim>\<open>find\<close> of the default pool, or else the first.\<close>

definition prefer_default :: "string \<Rightarrow> supply_pool list \<Rightarrow> supply_pool option" where
  "prefer_default i pools =
     (case find (\<lambda>p. sp_id p = i) pools of
        Some p \<Rightarrow> Some p
      | None \<Rightarrow> (case pools of [] \<Rightarrow> None | p # _ \<Rightarrow> Some p))"

definition select_pool ::
    "admission_options \<Rightarrow> effective_entitlement \<Rightarrow> account_allocation list \<Rightarrow> supply_pool list \<Rightarrow>
     admit_input \<Rightarrow> admission_code + supply_pool" where
  "select_pool opts e allocations pools inp =
     (let entitled = filter (pool_entitled e allocations inp) pools;
          eligible = filter (pool_eligible allocations inp) entitled
      in case prefer_default (op_defaultSupplyPoolId opts) eligible of
           None \<Rightarrow> Inl SUPPLY_POOL_NOT_ENTITLED
         | Some pool \<Rightarrow>
             (case prefer_default (op_defaultSupplyPoolId opts) entitled of
                None \<Rightarrow> Inr pool
              | Some preferred \<Rightarrow>
                  if \<not> same_kind preferred pool \<and>
                     \<not> (grants_pool allocations (sp_id pool) \<and> truthy (ad_dataPolicyRevisionId inp) \<noteq> None)
                  then Inl ADMISSION_CROSS_KIND_FALLBACK_DENIED
                  else Inr pool))"

definition supply_account_of :: "admit_input \<Rightarrow> supply_pool \<Rightarrow> string option" where
  "supply_account_of inp pool =
     truthy (case ad_credentialAccountId inp of
               Some c \<Rightarrow> Some c
             | None \<Rightarrow> (case sp_credentialAccountIds pool of [] \<Rightarrow> None | c # _ \<Rightarrow> Some c))"

definition capacity_identity :: "admit_input \<Rightarrow> supply_pool \<Rightarrow> string \<Rightarrow> string" where
  "capacity_identity inp pool supplyAccountId =
     ad_attemptId inp @ '':'' @ ad_deploymentId inp @ '':'' @ sp_id pool @ '':'' @ supplyAccountId @
     '':'' @ ad_actorId inp"

definition lease_request_of ::
    "admission_options \<Rightarrow> effective_entitlement \<Rightarrow> admit_input \<Rightarrow> supply_pool \<Rightarrow> string \<Rightarrow> int \<Rightarrow> lease_request" where
  "lease_request_of opts e inp pool supplyAccountId now =
     \<lparr> lr_leaseId = ''capacity:'' @ (if ad_lifecycleLease inp then ad_attemptId inp
                                    else capacity_identity inp pool supplyAccountId),
       lr_supplyAccountId = supplyAccountId, lr_productAccountId = ad_actorId inp,
       lr_workspaceId = ad_workspaceId inp,
       lr_limits = capacityLimits pool (ee_concurrencyLimit e)
         (op_defaultSupplyAccountConcurrency opts) (op_defaultSystemConcurrency opts),
       lr_productAccountLimit = ee_concurrencyLimit e,
       lr_acquiredAt = to_iso_string now, lr_expiresAt = to_iso_string (now + op_leaseTtlMs opts),
       lr_now = to_iso_string now \<rparr>"

definition ask_port ::
    "'g capacity_port \<Rightarrow> admission_options \<Rightarrow> effective_entitlement \<Rightarrow> admit_input \<Rightarrow> supply_pool \<Rightarrow> string \<Rightarrow>
     lease_request \<Rightarrow> ('g, port_decision) op" where
  "ask_port port opts e inp pool supplyAccountId request =
     (case pt_tryAcquireFair port of
        Some fair \<Rightarrow>
          fair request \<lparr>fr_queueRequestId = ''capacity-queue:'' @ capacity_identity inp pool supplyAccountId,
                        fr_queuePriority = ee_queuePriority e,
                        fr_maxWaitMs = op_capacityQueueWaitMs opts\<rparr>
      | None \<Rightarrow> pt_tryAcquire port request)"

definition admit ::
    "'g capacity_port \<Rightarrow> admission_options \<Rightarrow> entitlement_policy option \<Rightarrow>
     (plan_tier \<Rightarrow> policy_revision option) \<Rightarrow> account_allocation list \<Rightarrow> supply_pool list \<Rightarrow>
     int \<Rightarrow> int \<Rightarrow> admit_input \<Rightarrow> ('g, admission_decision) op" where
  "admit port opts product_policy published allocations pools entitlement_now now inp g =
     (case product_policy of
        None \<Rightarrow> (Inr (Attempt_rejected ENTITLEMENT_POLICY_UNAVAILABLE), g)
      | Some p \<Rightarrow>
          let e = admission_entitlement p (published (ep_tier p)) allocations inp entitlement_now
          in case entitlement_rejection opts e allocations inp now of
               Some code \<Rightarrow> (Inr (Attempt_rejected code), g)
             | None \<Rightarrow>
                 (case select_pool opts e allocations pools inp of
                    Inl code \<Rightarrow> (Inr (Attempt_rejected code), g)
                  | Inr pool \<Rightarrow>
                      (case supply_account_of inp pool of
                         None \<Rightarrow> (Inr (Attempt_rejected SUPPLY_ACCOUNT_UNAVAILABLE), g)
                       | Some account \<Rightarrow>
                           let request = lease_request_of opts e inp pool account now
                           in case ask_port port opts e inp pool account request g of
                                (Inl err, g') \<Rightarrow> (Inl err, g')
                              | (Inr (Port_rejected code), g') \<Rightarrow>
                                  (Inr (Attempt_rejected (PORT_CODE code)), g')
                              | (Inr (Port_admitted leaseId), g') \<Rightarrow>
                                  (Inr (Attempt_admitted
                                     \<lparr>am_leaseId = leaseId, am_supplyPoolId = sp_id pool,
                                      am_entitlementPolicyRevision = ee_planPolicyRevision e,
                                      am_appliedAllocationIds = ee_appliedAllocationIds e\<rparr>), g'))))"

definition release_attempt :: "'g capacity_port \<Rightarrow> string \<Rightarrow> ('g, unit) op" where
  "release_attempt port leaseId = op_bind (pt_release port leaseId) (\<lambda>_ g. (Inr (), g))"

definition renew_attempt :: "'g capacity_port \<Rightarrow> admission_options \<Rightarrow> int \<Rightarrow> string \<Rightarrow> ('g, bool) op" where
  "renew_attempt port opts now leaseId g =
     (case pt_renew port of
        None \<Rightarrow> (Inr False, g)
      | Some renew \<Rightarrow> renew leaseId (to_iso_string (now + op_leaseTtlMs opts)) (to_iso_string now) g)"

definition reacquire_attempt :: "'g capacity_port \<Rightarrow> admission_options \<Rightarrow> int \<Rightarrow> string \<Rightarrow> ('g, bool) op" where
  "reacquire_attempt port opts now leaseId g =
     (case pt_reacquireFair port of
        None \<Rightarrow> (Inr False, g)
      | Some reacquire \<Rightarrow>
          (case reacquire leaseId (to_iso_string (now + op_leaseTtlMs opts)) (to_iso_string now)
                  (op_capacityQueueWaitMs opts) g of
             (Inl e, g') \<Rightarrow> (Inl e, g')
           | (Inr d, g') \<Rightarrow>
               (Inr (case d of Some (Port_admitted _) \<Rightarrow> True | _ \<Rightarrow> False), g')))"

end
