(* ===== verification/AdmissionProps.thy ===== *)
theory AdmissionProps
  imports Admission EntitlementCorrect
begin

text \<open>
  The properties of the admission of provider attempts: the capacity port is only asked for attempts
  the entitlement, the allocations and the pool allow; a restrict keeps an attempt away from it; and
  three things the checks do that the entitlements do not mean.
\<close>

section \<open>What an admitted attempt has passed\<close>

lemma prefer_default_member: "prefer_default i xs = Some p \<Longrightarrow> p \<in> set xs"
  by (auto simp: prefer_default_def find_Some_iff split: option.splits list.splits)

lemma select_pool_member:
  assumes "select_pool opts e allocations pools inp = Inr pool"
  shows "pool \<in> set pools" "pool_entitled e allocations inp pool" "pool_eligible allocations inp pool"
proof -
  have "prefer_default (op_defaultSupplyPoolId opts)
      (filter (pool_eligible allocations inp) (filter (pool_entitled e allocations inp) pools)) = Some pool"
    using assms by (auto simp: select_pool_def Let_def split: option.splits if_splits)
  from prefer_default_member [OF this]
  show "pool \<in> set pools" "pool_entitled e allocations inp pool" "pool_eligible allocations inp pool" by auto
qed

text \<open>
  The port was asked: everything before it passed, for one entitlement and one pool. The decision is
  the answer of the port.
\<close>

definition asked_port ::
    "'g capacity_port \<Rightarrow> admission_options \<Rightarrow> entitlement_policy option \<Rightarrow>
     (plan_tier \<Rightarrow> policy_revision option) \<Rightarrow> account_allocation list \<Rightarrow> supply_pool list \<Rightarrow>
     int \<Rightarrow> int \<Rightarrow> admit_input \<Rightarrow> 'g \<Rightarrow> admission_decision result \<Rightarrow> 'g \<Rightarrow> effective_entitlement \<Rightarrow>
     supply_pool \<Rightarrow> lease_request \<Rightarrow> bool" where
  "asked_port port opts product_policy published allocations pools entitlement_now now inp g r g' e pool request \<longleftrightarrow>
     (\<exists>p account d.
        product_policy = Some p \<and> e = admission_entitlement p (published (ep_tier p)) allocations inp entitlement_now \<and>
        entitlement_rejection opts e allocations inp now = None \<and>
        select_pool opts e allocations pools inp = Inr pool \<and> supply_account_of inp pool = Some account \<and>
        request = lease_request_of opts e inp pool account now \<and>
        ask_port port opts e inp pool account request g = (d, g') \<and>
        (\<forall>a. r = Inr (Attempt_admitted a) \<longrightarrow> d = Inr (Port_admitted (am_leaseId a)) \<and> am_supplyPoolId a = sp_id pool))"

lemma admit_asks:
  assumes "admit port opts product_policy published allocations pools t now inp g = (r, g')"
    and "g' \<noteq> g \<or> (\<exists>a. r = Inr (Attempt_admitted a))"
  shows "\<exists>e pool request.
    asked_port port opts product_policy published allocations pools t now inp g r g' e pool request"
proof (cases product_policy)
  case (Some p)
  let ?e = "admission_entitlement p (published (ep_tier p)) allocations inp t"
  note step = assms(1) [unfolded admit_def Some option.case Let_def]
  show ?thesis
  proof (cases "entitlement_rejection opts ?e allocations inp now")
    case None
    note rej = None
    show ?thesis
    proof (cases "select_pool opts ?e allocations pools inp")
      case (Inr pool)
      show ?thesis
      proof (cases "supply_account_of inp pool")
        case (Some account)
        let ?request = "lease_request_of opts ?e inp pool account now"
        obtain d g1 where ask: "ask_port port opts ?e inp pool account ?request g = (d, g1)" by force
        have "g' = g1 \<and> (\<forall>a. r = Inr (Attempt_admitted a) \<longrightarrow>
            d = Inr (Port_admitted (am_leaseId a)) \<and> am_supplyPoolId a = sp_id pool)"
          using step rej Inr Some ask by (auto split: sum.splits port_decision.splits)
        then show ?thesis
          unfolding asked_port_def using \<open>product_policy = Some p\<close> rej Inr Some ask by blast
      qed (use step rej Inr assms(2) in auto)
    qed (use step rej assms(2) in auto)
  qed (use step assms(2) in auto)
qed (use assms in \<open>auto simp: admit_def\<close>)

lemma entitlement_rejection_None:
  assumes "entitlement_rejection opts e allocations inp now = None"
  shows "\<not> outside_validity (ee_validity e) now"
    and "\<not> isExplicitlyRestricted allocations (targets_model (ad_modelId inp))"
    and "ee_allowedCatalogModelIds e = [] \<or> ad_modelId inp \<in> set (ee_allowedCatalogModelIds e)"
    and "op_creditMeteringEnabled opts \<or> 0 < ee_allowance e (resourceForOperation (ad_operation inp))"
    and "ad_auto inp \<longrightarrow> ee_allowedQualityTiers e = [] \<or> or_default (ad_profile inp) Auto \<in> set (ee_allowedQualityTiers e)"
  using assms by (auto simp: entitlement_rejection_def split: if_splits)

text \<open>
  C16. The capacity port is asked only for an attempt that is entitled, whatever it then answers. If an
  admission changes the state of the port, or admits the attempt, then the workspace has a policy
  within its validity, the model and the resource are allowed by the effective entitlement and not
  restricted, and one of the pools was chosen that holds the deployment, is among the available pools,
  is not restricted, has the credential the attempt asks for and, when it is dedicated, serves the
  workspace by contract or by grant, in the region and for the data classes of the attempt. The lease
  asked for is bounded by the effective concurrency, which lies between one and the platform's limit.
\<close>

theorem port_asked_only_when_entitled:
  assumes "admit port opts product_policy published allocations pools t now inp g = (r, g')"
    and "g' \<noteq> g \<or> (\<exists>a. r = Inr (Attempt_admitted a))"
  shows "\<exists>e pool request.
    asked_port port opts product_policy published allocations pools t now inp g r g' e pool request \<and>
    \<not> outside_validity (ee_validity e) now \<and>
    (ee_allowedCatalogModelIds e = [] \<or> ad_modelId inp \<in> set (ee_allowedCatalogModelIds e)) \<and>
    (op_creditMeteringEnabled opts \<or> 0 < ee_allowance e (resourceForOperation (ad_operation inp))) \<and>
    pool \<in> set pools \<and> ad_deploymentId inp \<in> set (sp_deploymentIds pool) \<and>
    (ee_availableSupplyPoolIds e = [] \<or> sp_id pool \<in> set (ee_availableSupplyPoolIds e)) \<and>
    (\<forall>a \<in> set allocations. aa_kind a = Restrict_kind \<longrightarrow>
       aa_target a \<noteq> Catalog_model (ad_modelId inp) \<and> aa_target a \<noteq> Supply_pool (sp_id pool)) \<and>
    (\<forall>c. truthy (ad_credentialAccountId inp) = Some c \<longrightarrow> c \<in> set (sp_credentialAccountIds pool)) \<and>
    (\<forall>terms. sp_dedicated pool = Some terms \<longrightarrow> dedicated_eligible allocations inp pool terms) \<and>
    lr_productAccountLimit request = ee_concurrencyLimit e \<and>
    1 \<le> ee_concurrencyLimit e \<and> ee_concurrencyLimit e \<le> 32"
proof -
  obtain e pool request where asked:
    "asked_port port opts product_policy published allocations pools t now inp g r g' e pool request"
    using admit_asks [OF assms] by blast
  then obtain p account where e: "e = admission_entitlement p (published (ep_tier p)) allocations inp t"
    and rej: "entitlement_rejection opts e allocations inp now = None"
    and sel: "select_pool opts e allocations pools inp = Inr pool"
    and request: "request = lease_request_of opts e inp pool account now"
    unfolding asked_port_def by blast
  note pool = select_pool_member [OF sel] and passed = entitlement_rejection_None [OF rej]
  have "1 \<le> ee_concurrencyLimit e" "ee_concurrencyLimit e \<le> 32"
    unfolding e admission_entitlement_def effective_fields
    by (simp_all add: or_default_def DEFAULT_PLATFORM_HARD_LIMITS_def)
  moreover have "lr_productAccountLimit request = ee_concurrencyLimit e"
    by (simp add: request lease_request_of_def)
  moreover have "\<forall>a \<in> set allocations. aa_kind a = Restrict_kind \<longrightarrow>
       aa_target a \<noteq> Catalog_model (ad_modelId inp) \<and> aa_target a \<noteq> Supply_pool (sp_id pool)"
    using passed(2) pool(2)
    by (auto simp: isExplicitlyRestricted_def pool_entitled_def targets_model_def targets_pool_def list_ex_iff)
  moreover have "\<forall>c. truthy (ad_credentialAccountId inp) = Some c \<longrightarrow> c \<in> set (sp_credentialAccountIds pool)"
    "\<forall>terms. sp_dedicated pool = Some terms \<longrightarrow> dedicated_eligible allocations inp pool terms"
    using pool(3) by (auto simp: pool_eligible_def)
  moreover have "ad_deploymentId inp \<in> set (sp_deploymentIds pool)"
    "ee_availableSupplyPoolIds e = [] \<or> sp_id pool \<in> set (ee_availableSupplyPoolIds e)"
    using pool(2) by (auto simp: pool_entitled_def)
  ultimately show ?thesis using asked passed(1,3,4) pool(1) by blast
qed

text \<open>
  A restrict of the account store reaches the admission. When the allocations of an admission are
  what the store, in any state it can reach, lists for the actor in the workspace, and a live restrict
  of theirs names the model of the attempt, then the attempt is rejected and the port is not touched;
  when it names a supply pool, no attempt is admitted in that pool.
\<close>

theorem restrict_blocks_admission:
  assumes "allocation_step\<^sup>*\<^sup>* empty_allocation_store s"
    and "a \<in> set (as_allocations s)" and "aa_accountId a = ad_actorId inp" and "aa_workspaceId a = ad_workspaceId inp"
    and "isLive t a" and "aa_kind a = Restrict_kind"
    and "admit port opts product_policy published (fst (listActive (ad_actorId inp) (ad_workspaceId inp) t s)) pools
           t now inp g = (r, g')"
  shows "(aa_target a = Catalog_model (ad_modelId inp) \<longrightarrow> g' = g \<and> (\<exists>code. r = Inr (Attempt_rejected code))) \<and>
    (\<forall>q d. aa_target a = Supply_pool q \<and> r = Inr (Attempt_admitted d) \<longrightarrow> am_supplyPoolId d \<noteq> q)"
proof -
  let ?as = "fst (listActive (ad_actorId inp) (ad_workspaceId inp) t s)"
  have "\<forall>b \<in> set (as_allocations s). allocation_ok b"
    using allocation_run_ok [OF assms(1)] by (simp add: allocations_ok_def)
  from listActive_filter [OF this, of "ad_actorId inp" "ad_workspaceId inp" t] have a: "a \<in> set ?as"
    using assms(2-5) by simp
  have "g' = g \<and> (\<exists>code. r = Inr (Attempt_rejected code))" if "aa_target a = Catalog_model (ad_modelId inp)"
  proof -
    have "isExplicitlyRestricted ?as (targets_model (ad_modelId inp))"
      using a assms(6) that by (auto simp: isExplicitlyRestricted_def targets_model_def list_ex_iff)
    then have rejected: "\<exists>code. entitlement_rejection opts e ?as inp now = Some code" for e
      using entitlement_rejection_None(2) [of opts e ?as inp now] by blast
    show ?thesis
    proof (cases product_policy)
      case (Some p)
      with rejected [of "admission_entitlement p (published (ep_tier p)) ?as inp t"] assms(7) show ?thesis
        by (auto simp: admit_def Let_def)
    qed (use assms(7) in \<open>auto simp: admit_def\<close>)
  qed
  moreover have "am_supplyPoolId d \<noteq> q" if target: "aa_target a = Supply_pool q" and d: "r = Inr (Attempt_admitted d)" for q d
  proof -
    obtain e pool where "select_pool opts e ?as pools inp = Inr pool" "am_supplyPoolId d = sp_id pool"
      using admit_asks [OF assms(7)] d unfolding asked_port_def by blast
    with select_pool_member(2) a assms(6) target show ?thesis
      by (fastforce simp: pool_entitled_def isExplicitlyRestricted_def targets_pool_def list_ex_iff)
  qed
  ultimately show ?thesis by blast
qed

section \<open>Empty filters\<close>

text \<open>The catalogue filter and the quality tiers of an admission under one allocation, no published policy.\<close>

lemma no_platform_denials [simp]:
  "hl_deniedCatalogModelIds DEFAULT_PLATFORM_HARD_LIMITS = []" "hl_deniedQualityTiers DEFAULT_PLATFORM_HARD_LIMITS = []"
  "hl_deniedSupplyPoolIds DEFAULT_PLATFORM_HARD_LIMITS = []"
  by (simp_all add: DEFAULT_PLATFORM_HARD_LIMITS_def)

lemma one_allocation_layers:
  fixes p prefs t
  defines "ei \<equiv> \<lambda>as. \<lparr> ei_planPolicy = p, ei_platformHardLimits = None,
         ei_accountOverrides = filter (\<lambda>a. aa_source a \<noteq> Campaign) as,
         ei_campaignGrants = filter (\<lambda>a. aa_source a = Campaign) as,
         ei_requestPreferences = prefs, ei_now = t \<rparr>"
  assumes "isLive t a"
  shows "layered_state (ei []) = plan_state p"
    and "\<exists>layer. layered_state (ei [a]) = apply_allocation layer a (plan_state p)"
  using assms(2) unfolding ei_def
  by (cases "aa_kind a"; cases "aa_source a = Campaign";
      auto simp: layered_state_def Let_def applyNumeric_def)+

lemma singleton_list: "distinct xs \<Longrightarrow> set xs = {x} \<Longrightarrow> xs = [x]"
  by (cases xs; cases "tl xs") auto

lemma narrow_singleton: "set xs = {q} \<Longrightarrow> set (or_default (narrow ids xs) xs) = {q}"
  by (auto simp: or_default_def narrow_def Let_def filter_empty_conv split: option.splits)

lemma admission_sets:
  assumes "ep_allowedCatalogModelIds p = models" and "ep_allowedQualityTiers p = tiers" and "isLive t a"
  shows "set (ee_allowedCatalogModelIds (admission_entitlement p None [] inp t)) = set (or_default models [])"
    and "aa_target a = Catalog_model m \<Longrightarrow> aa_kind a = Grant_kind \<Longrightarrow> aa_delta a \<noteq> Set_enabled False \<Longrightarrow>
      set (ee_allowedCatalogModelIds (admission_entitlement p None [a] inp t)) = insert m (set (or_default models []))"
    and "aa_target a = Quality_tier q \<Longrightarrow> aa_kind a = Restrict_kind \<Longrightarrow> set (or_default tiers [Auto, Quality, Balanced]) = {q} \<Longrightarrow>
      ee_allowedQualityTiers (admission_entitlement p None [a] inp t) = []"
    and "set (or_default tiers [Auto, Quality, Balanced]) = {q} \<Longrightarrow>
      ee_allowedQualityTiers (admission_entitlement p None [] inp t) = [q]"
proof -
  let ?prefs = "if ad_auto inp then Some (no_preferences\<lparr>rp_preferredQualityTier := Some [or_default (ad_profile inp) Auto]\<rparr>) else None"
  have models: "es_catalogModels (apply_preferences (or_default ?prefs no_preferences) u) = es_catalogModels u" for u
    by (simp add: preferences_fields or_default_def no_preferences_def narrow_def)
  note plan = plan_state_def normalizeProductEntitlementPolicy_def DEFAULT_ENTITLEMENT_POLICY_EXTENSION_def
  note eff = admission_entitlement_def policyFromPublishedRevision_def effective_fields
  note layers = one_allocation_layers [OF assms(3), of p ?prefs]
  show "set (ee_allowedCatalogModelIds (admission_entitlement p None [] inp t)) = set (or_default models [])"
    using layers(1) models assms(1) by (simp add: eff or_default_def [of None] plan Let_def)
  show "set (ee_allowedCatalogModelIds (admission_entitlement p None [a] inp t)) = insert m (set (or_default models []))"
    if "aa_target a = Catalog_model m" "aa_kind a = Grant_kind" "aa_delta a \<noteq> Set_enabled False"
    using layers(2) models assms(1) that
    by (auto simp: eff or_default_def [of None] plan Let_def apply_allocation_def applySet_def)
  show "ee_allowedQualityTiers (admission_entitlement p None [a] inp t) = []"
    if "aa_target a = Quality_tier q" "aa_kind a = Restrict_kind" "set (or_default tiers [Auto, Quality, Balanced]) = {q}"
  proof -
    obtain layer where l: "layered_state \<lparr> ei_planPolicy = p, ei_platformHardLimits = None,
         ei_accountOverrides = filter (\<lambda>a. aa_source a \<noteq> Campaign) [a],
         ei_campaignGrants = filter (\<lambda>a. aa_source a = Campaign) [a],
         ei_requestPreferences = ?prefs, ei_now = t \<rparr> = apply_allocation layer a (plan_state p)"
      using layers(2) by blast
    have "set (es_qualityTiers (apply_allocation layer a (plan_state p))) = {}"
      using that assms(2) by (simp add: apply_allocation_def applySet_def Let_def plan)
    then have "set (es_qualityTiers (apply_preferences prefs (apply_allocation layer a (plan_state p)))) = {}" for prefs
      using preferences_sets(3) [of prefs "apply_allocation layer a (plan_state p)"] by simp
    then have "set (ee_allowedQualityTiers (admission_entitlement p None [a] inp t)) = {}"
      unfolding eff option.case entitlement_input.select_convs l by simp
    then show ?thesis by simp
  qed
  show "ee_allowedQualityTiers (admission_entitlement p None [] inp t) = [q]"
    if "set (or_default tiers [Auto, Quality, Balanced]) = {q}"
  proof (rule singleton_list)
    show "distinct (ee_allowedQualityTiers (admission_entitlement p None [] inp t))"
      unfolding admission_entitlement_def by (rule effective_fields(8))
    have "set (es_qualityTiers (plan_state p)) = {q}"
      using that assms(2) by (simp add: plan Let_def)
    then show "set (ee_allowedQualityTiers (admission_entitlement p None [] inp t)) = {q}"
      unfolding eff option.case entitlement_input.select_convs layers(1)
      by (simp add: or_default_def [of None] preferences_fields narrow_singleton)
  qed
qed

text \<open>
  Granting a model takes the others away. An empty list of catalogue models means that every model
  is allowed; but a live grant of one model turns the empty list into a list of one, so that an attempt
  with any other model, which is not refused for its model without the grant, is refused with it.
\<close>

theorem model_grant_locks_out_others:
  assumes "or_default (ep_allowedCatalogModelIds p) [] = []" and "isLive t a"
    and "aa_target a = Catalog_model m" and "aa_kind a = Grant_kind" and "aa_delta a \<noteq> Set_enabled False"
    and "ad_modelId inp \<noteq> m" and "\<not> outside_validity (px_validity (normalizeProductEntitlementPolicy p)) now"
  shows "entitlement_rejection opts (admission_entitlement p None [a] inp t) [a] inp now = Some CATALOG_MODEL_NOT_ENTITLED \<and>
    entitlement_rejection opts (admission_entitlement p None [] inp t) [] inp now \<noteq> Some CATALOG_MODEL_NOT_ENTITLED"
proof -
  note sets = admission_sets [where p = p, OF refl refl assms(2)]
  have "set (ee_allowedCatalogModelIds (admission_entitlement p None [a] inp t)) = {m}"
    using sets(2) [OF assms(3-5)] assms(1) by simp
  then have "ad_modelId inp \<notin> set (ee_allowedCatalogModelIds (admission_entitlement p None [a] inp t)) \<and>
      ee_allowedCatalogModelIds (admission_entitlement p None [a] inp t) \<noteq> []"
    using assms(6) by force
  moreover have "ee_validity (admission_entitlement p None [a] inp t) = px_validity (normalizeProductEntitlementPolicy p)"
    by (simp add: admission_entitlement_def policyFromPublishedRevision_def computeEffectiveEntitlement_def
        effective_of_def Let_def)
  moreover have "ee_allowedCatalogModelIds (admission_entitlement p None [] inp t) = []"
    using sets(1) [where inp = inp] assms(1) by simp
  ultimately show ?thesis
    using assms(7) by (simp add: entitlement_rejection_def isExplicitlyRestricted_def)
qed

text \<open>
  Restricting the last quality tier opens all of them. When a plan allows one quality tier and a live
  restrict takes it away, the list of allowed tiers is empty, and an empty list is not checked: no attempt
  is refused for its quality tier any more, whatever tier it asks for, the restricted one included.
\<close>

theorem last_tier_restrict_opens_all:
  assumes "set (or_default (ep_allowedQualityTiers p) [Auto, Quality, Balanced]) = {q}" and "isLive t a"
    and "aa_target a = Quality_tier q" and "aa_kind a = Restrict_kind"
  shows "ee_allowedQualityTiers (admission_entitlement p None [] inp t) = [q] \<and>
    ee_allowedQualityTiers (admission_entitlement p None [a] inp t) = [] \<and>
    entitlement_rejection opts (admission_entitlement p None [a] inp t) [a] inp now \<noteq> Some QUALITY_TIER_NOT_ENTITLED"
  using admission_sets(3) [OF refl refl assms(2,3,4,1)] admission_sets(4) [OF refl refl assms(2,1)]
  by (simp add: entitlement_rejection_def)

text \<open>
  A grant that is switched off still opens a dedicated pool. For a workspace its contract does not
  name, \<^const>\<open>isWorkspaceAuthorizedForPool\<close> refuses the pool under a grant of the pool with
  \<open>enabled: false\<close>; the admission does not look at the delta of the grant and selects the pool.
\<close>

theorem disabled_grant_opens_dedicated_pool:
  assumes "aa_kind a = Grant_kind" and "aa_target a = Supply_pool (sp_id pool)" and "aa_delta a = Set_enabled False"
    and "sp_dedicated pool = Some terms" and "ad_workspaceId inp \<notin> set (or_default (dt_authorizedWorkspaceIds terms) [])"
    and "or_default (dt_regionRestriction terms) [] = []" and "or_default (dt_dataClassRestriction terms) [] = []"
    and "ad_deploymentId inp \<in> set (sp_deploymentIds pool)" and "truthy (ad_credentialAccountId inp) = None"
    and "ee_availableSupplyPoolIds e = []"
  shows "\<not> isWorkspaceAuthorizedForPool [(sp_id pool, pool)] (sp_id pool) (ad_workspaceId inp) accountId [a] \<and>
    select_pool opts e [a] [pool] inp = Inr pool"
proof -
  have entitled: "pool_entitled e [a] inp pool"
    using assms by (simp add: pool_entitled_def isExplicitlyRestricted_def)
  have "grants_pool [a] (sp_id pool)"
    using assms by (simp add: grants_pool_def targets_pool_def)
  then have eligible: "pool_eligible [a] inp pool"
    using assms by (simp add: pool_eligible_def dedicated_eligible_def)
  have "prefer_default i [pool] = Some pool" for i by (simp add: prefer_default_def)
  then have "select_pool opts e [a] [pool] inp = Inr pool"
    using entitled eligible by (simp add: select_pool_def same_kind_def)
  moreover have "\<not> isWorkspaceAuthorizedForPool [(sp_id pool, pool)] (sp_id pool) (ad_workspaceId inp) accountId [a]"
    using assms by (simp add: isWorkspaceAuthorizedForPool_def pool_grant_def)
  ultimately show ?thesis by blast
qed

section \<open>Witnesses\<close>

definition demo_policy :: entitlement_policy where
  "demo_policy =
     \<lparr> ep_revision = ''p1'', ep_tier = Growth, ep_storageMb = None, ep_allowance = (\<lambda>r. 10),
       ep_concurrencyLimit = 4, ep_queuePriority = 5, ep_supportLabel = Standard, ep_addOns = [],
       ep_autoTopUp = \<lparr>at_enabled = False, at_monthlyCapMicros = 0, at_spentThisMonthMicros = 0\<rparr>,
       ep_allowedCatalogModelIds = None, ep_allowedQualityTiers = Some [Quality],
       ep_availableSupplyPoolIds = None, ep_overage = None, ep_validity = None \<rparr>"

definition demo_grant :: "allocation_kind \<Rightarrow> allocation_target \<Rightarrow> js_number allocation_delta \<Rightarrow> grant_allocation_input" where
  "demo_grant k target d =
     \<lparr> ga_accountId = ''acct'', ga_workspaceId = ''ws'', ga_kind = k, ga_target = target, ga_delta = d,
       ga_source = Support_compensation, ga_reason = ''r'', ga_actorId = ''ops'',
       ga_startsAt = ''2026-01-01T00:00:00Z'', ga_endsAt = None, ga_correlationId = ''c1'' \<rparr>"

definition demo_allocation :: "allocation_kind \<Rightarrow> allocation_target \<Rightarrow> bool \<Rightarrow> account_allocation" where
  "demo_allocation k target b = new_allocation (demo_grant k target (Set_enabled b)) 1 ''2026-01-01T00:00:00Z''"

definition demo_now :: int where "demo_now = 1770000000000"

definition demo_input :: admit_input where
  "demo_input =
     \<lparr> ad_workspaceId = ''ws'', ad_actorId = ''acct'', ad_operation = ''image.generate'', ad_auto = False,
       ad_profile = None, ad_dataClass = [], ad_attemptId = ''at1'', ad_credentialAccountId = None,
       ad_dataPolicyRevisionId = None, ad_modelId = ''m1'', ad_deploymentId = ''d'',
       ad_deploymentRegion = ''eu'', ad_lifecycleLease = False \<rparr>"

definition demo_pool :: supply_pool where
  "demo_pool =
     \<lparr> sp_id = ''own'', sp_displayName = ''pool'', sp_credentialAccountIds = [''c''], sp_deploymentIds = [''d''],
       sp_capacity = None, sp_revisionId = ''r'', sp_dedicated = None \<rparr>"

definition demo_terms :: dedicated_terms where
  "demo_terms =
     \<lparr> dt_contractRef = ''contract'', dt_authorizedWorkspaceIds = Some [''ws1''], dt_regionRestriction = None,
       dt_dataClassRestriction = None, dt_exclusiveBilling = None, dt_reservedCapacity = None \<rparr>"

text \<open>A port that grants every lease and counts them.\<close>

definition demo_port :: "nat capacity_port" where
  "demo_port =
     \<lparr> pt_tryAcquire = (\<lambda>request n. (Inr (Port_admitted (lr_leaseId request)), Suc n)),
       pt_tryAcquireFair = None, pt_reacquireFair = None, pt_renew = None,
       pt_release = (\<lambda>i n. (Inr True, n - 1)) \<rparr>"

lemma demo_allocation_fields [simp]:
  "aa_kind (demo_allocation k target b) = k" "aa_target (demo_allocation k target b) = target"
  "aa_delta (demo_allocation k target b) = Set_enabled b" "aa_accountId (demo_allocation k target b) = ''acct''"
  "aa_workspaceId (demo_allocation k target b) = ''ws''"
  by (simp_all add: demo_allocation_def new_allocation_def demo_grant_def)

lemma demo_allocation_live: "isLive demo_now (demo_allocation k target b)"
proof -
  have "date_parse ''2026-01-01T00:00:00Z'' = Some 1767225600000" by code_simp
  then show ?thesis
    by (simp add: isLive_def demo_allocation_def new_allocation_def demo_grant_def demo_now_def)
qed

lemma demo_valid: "\<not> outside_validity (px_validity (normalizeProductEntitlementPolicy demo_policy)) now"
  by (simp add: truthy_def outside_validity_def normalizeProductEntitlementPolicy_def demo_policy_def or_default_def
      DEFAULT_ENTITLEMENT_POLICY_EXTENSION_def)

lemma port_asked_only_when_entitled_witness:
  "\<exists>e pool request.
     asked_port demo_port default_options (Some demo_policy) (\<lambda>_. None) [] [demo_pool] demo_now demo_now demo_input 0
       (fst (admit demo_port default_options (Some demo_policy) (\<lambda>_. None) [] [demo_pool] demo_now demo_now demo_input 0))
       1 e pool request \<and> pool = demo_pool"
proof -
  let ?r = "admit demo_port default_options (Some demo_policy) (\<lambda>_. None) [] [demo_pool] demo_now demo_now demo_input 0"
  have "snd ?r = 1" by code_simp
  then have "?r = (fst ?r, 1)" by (simp add: prod_eq_iff)
  from port_asked_only_when_entitled [OF this] show ?thesis by auto
qed

definition demo_store :: "allocation_target \<Rightarrow> allocation_store" where
  "demo_store target = snd (append_allocation ''2026-01-01T00:00:00Z''
     (demo_grant Restrict_kind target (Set_enabled False)) empty_allocation_store)"

lemma demo_store_run: "allocation_step\<^sup>*\<^sup>* empty_allocation_store (demo_store target)"
  unfolding demo_store_def by (intro r_into_rtranclp alloc_append) (rule prod.collapse [symmetric])

lemma restrict_blocks_admission_witness:
  "snd (admit demo_port default_options (Some demo_policy) (\<lambda>_. None)
     (fst (listActive ''acct'' ''ws'' demo_now (demo_store (Catalog_model ''m1'')))) [demo_pool] demo_now demo_now
     demo_input 0) = 0"
proof -
  have "as_allocations (demo_store (Catalog_model ''m1'')) = [demo_allocation Restrict_kind (Catalog_model ''m1'') False]"
    by code_simp
  then show ?thesis
    using restrict_blocks_admission [OF demo_store_run [of "Catalog_model ''m1''"],
        of "demo_allocation Restrict_kind (Catalog_model ''m1'') False" demo_input demo_now demo_port default_options
          "Some demo_policy" "\<lambda>_. None" "[demo_pool]" demo_now 0 _ _, OF _ _ _ _ _ prod.collapse [symmetric]]
      demo_allocation_live
    by (simp add: demo_input_def)
qed

lemma model_grant_locks_out_others_witness:
  "entitlement_rejection default_options
     (admission_entitlement demo_policy None [demo_allocation Grant_kind (Catalog_model ''m2'') True] demo_input demo_now)
     [demo_allocation Grant_kind (Catalog_model ''m2'') True] demo_input demo_now = Some CATALOG_MODEL_NOT_ENTITLED"
  using model_grant_locks_out_others [of demo_policy demo_now "demo_allocation Grant_kind (Catalog_model ''m2'') True"
      "''m2''" demo_input demo_now] demo_allocation_live demo_valid
  by (simp add: demo_policy_def demo_input_def or_default_def)

lemma last_tier_restrict_opens_all_witness:
  "ee_allowedQualityTiers (admission_entitlement demo_policy None
     [demo_allocation Restrict_kind (Quality_tier Quality) False] demo_input demo_now) = []"
  using last_tier_restrict_opens_all [of demo_policy Quality demo_now
      "demo_allocation Restrict_kind (Quality_tier Quality) False"] demo_allocation_live
  by (simp add: demo_policy_def or_default_def)

lemma disabled_grant_opens_dedicated_pool_witness:
  "select_pool default_options
     (admission_entitlement demo_policy None [] demo_input demo_now)
     [demo_allocation Grant_kind (Supply_pool ''own'') False] [demo_pool\<lparr>sp_dedicated := Some demo_terms\<rparr>] demo_input =
   Inr (demo_pool\<lparr>sp_dedicated := Some demo_terms\<rparr>)"
proof -
  have "ee_availableSupplyPoolIds (admission_entitlement demo_policy None [] demo_input demo_now) = []" by code_simp
  then show ?thesis
    using disabled_grant_opens_dedicated_pool [of "demo_allocation Grant_kind (Supply_pool ''own'') False"
        "demo_pool\<lparr>sp_dedicated := Some demo_terms\<rparr>" demo_terms demo_input]
    by (simp add: demo_pool_def demo_terms_def demo_input_def or_default_def truthy_def)
qed

end
