(* ===== verification/PaymentMapping.thy ===== *)
theory PaymentMapping
  imports Entitlement BillingCycle
begin

text \<open>
  The mapping from provider products to plans, \<^verbatim>\<open>foundation/payment-mapping.ts\<close>: the tier a payment
  buys, from the mappings of the administrator, a catalogue of known prices or the interval alone;
  the strict mapping of Waffo subscriptions, which has to be complete before it answers; and the
  billing period of a provider's facts. The clock is an argument, a \<^verbatim>\<open>Date\<close> its time value.
\<close>

section \<open>Data\<close>

datatype payment_interval =
  I_single_month | I_monthly | I_yearly | I_month | I_year | I_lifetime | I_one_time | I_any

datatype payment_provider = Waffo

record product_mapping =
  pm_paymentProductId :: string
  pm_interval :: "payment_interval option"
  pm_tier :: plan_tier

datatype price_hint = Hint payment_interval | Subscription

record resolve_tier_input =
  rt_paymentProductId :: string
  rt_interval :: "payment_interval option"
  rt_config :: "product_mapping list option"
  rt_defaultPriceCatalog :: "(string, price_hint) js_map option"
  rt_paymentProvider :: "payment_provider option"

section \<open>Tier of a payment\<close>

fun default_interval_tier :: "payment_interval \<Rightarrow> plan_tier option" where
  "default_interval_tier I_month = Some Growth"
| "default_interval_tier I_year = Some Growth"
| "default_interval_tier I_single_month = Some Growth"
| "default_interval_tier I_monthly = Some Growth"
| "default_interval_tier I_yearly = Some Growth"
| "default_interval_tier I_lifetime = Some Pro"
| "default_interval_tier I_one_time = Some Pro"
| "default_interval_tier I_any = None"

definition defaultTierForInterval :: "payment_interval option \<Rightarrow> plan_tier" where
  "defaultTierForInterval interval =
     (case interval of
        None \<Rightarrow> Growth
      | Some I_any \<Rightarrow> Growth
      | Some i \<Rightarrow> (case default_interval_tier i of None \<Rightarrow> Growth | Some t \<Rightarrow> t))"

text \<open>Every value of the enumeration passes the run-time membership test; a missing one means any.\<close>

definition normalizeInterval :: "payment_interval option \<Rightarrow> payment_interval" where
  "normalizeInterval v = (case v of None \<Rightarrow> I_any | Some i \<Rightarrow> i)"

definition WAFFO_INTERVALS :: "payment_interval list" where
  "WAFFO_INTERVALS = [I_single_month, I_monthly, I_yearly]"

definition isWaffoInterval :: "payment_interval option \<Rightarrow> bool" where
  "isWaffoInterval v \<longleftrightarrow> list_ex (\<lambda>i. Some i = v) WAFFO_INTERVALS"

definition invalidWaffoPaymentMapping :: js_error where
  "invalidWaffoPaymentMapping =
     P1DomainError INVALID_STATE
       ''Waffo payment mapping must exactly match the complete subscription catalog.''"

text \<open>
  The loop over the Waffo rows, with the set of plan periods (the text \<^verbatim>\<open>tier:interval\<close>, here the
  pair) and the set of product identifiers seen so far; \<open>None\<close> when it returns early.
\<close>

fun waffo_loop ::
    "product_mapping list \<Rightarrow> (plan_tier \<times> payment_interval option) list \<Rightarrow> string list \<Rightarrow>
       (plan_tier \<times> payment_interval option) list option" where
  "waffo_loop [] planPeriods productIds = Some planPeriods"
| "waffo_loop (m # ms) planPeriods productIds =
     (if blank (pm_paymentProductId m) then None
      else if (pm_tier m, pm_interval m) \<in> set planPeriods \<or> pm_paymentProductId m \<in> set productIds
      then None
      else waffo_loop ms (planPeriods @ [(pm_tier m, pm_interval m)])
             (productIds @ [pm_paymentProductId m]))"

definition isCompleteWaffoMapping :: "product_mapping list \<Rightarrow> bool" where
  "isCompleteWaffoMapping mappings =
     (let waffoMappings = filter (\<lambda>m. isWaffoInterval (pm_interval m)) mappings
      in if length waffoMappings \<noteq> 9 then False
         else case waffo_loop waffoMappings [] [] of
                None \<Rightarrow> False
              | Some planPeriods \<Rightarrow>
                  length planPeriods = 9 \<and>
                  list_all (\<lambda>tier. list_all (\<lambda>interval. (tier, Some interval) \<in> set planPeriods)
                    WAFFO_INTERVALS) [Starter, Growth, Pro])"

definition mappings_of :: "resolve_tier_input \<Rightarrow> product_mapping list" where
  "mappings_of inp = (case rt_config inp of None \<Rightarrow> [] | Some ms \<Rightarrow> ms)"

definition resolveStrictWaffoPaymentTier :: "resolve_tier_input \<Rightarrow> string \<Rightarrow> plan_tier result" where
  "resolveStrictWaffoPaymentTier inp productId =
     r_bind (check (productId \<noteq> [] \<and> isWaffoInterval (rt_interval inp)) invalidWaffoPaymentMapping) (\<lambda>_.
     r_bind (check (isCompleteWaffoMapping (mappings_of inp)) invalidWaffoPaymentMapping) (\<lambda>_.
       case find (\<lambda>m. trim (pm_paymentProductId m) = productId \<and> pm_interval m = rt_interval inp)
              (mappings_of inp) of
         None \<Rightarrow> Inl invalidWaffoPaymentMapping
       | Some m \<Rightarrow> Inr (pm_tier m)))"

definition hinted_interval :: "price_hint \<Rightarrow> payment_interval \<Rightarrow> payment_interval" where
  "hinted_interval hint interval =
     (case hint of Subscription \<Rightarrow> (if interval = I_year then I_year else I_month) | Hint i \<Rightarrow> i)"

definition resolvePaymentTier :: "resolve_tier_input \<Rightarrow> plan_tier result" where
  "resolvePaymentTier inp =
     (let productId = trim (rt_paymentProductId inp);
          interval = normalizeInterval (rt_interval inp);
          row_interval = (\<lambda>m. normalizeInterval (Some (or_default (pm_interval m) I_any)))
      in if rt_paymentProvider inp = Some Waffo then resolveStrictWaffoPaymentTier inp productId
         else if productId = [] then Inr Growth
         else case find (\<lambda>m. pm_paymentProductId m = productId \<and> row_interval m = interval) (mappings_of inp) of
                Some exact \<Rightarrow> Inr (pm_tier exact)
              | None \<Rightarrow>
         (case find (\<lambda>m. pm_paymentProductId m = productId \<and> row_interval m = I_any) (mappings_of inp) of
                Some anyMatch \<Rightarrow> Inr (pm_tier anyMatch)
              | None \<Rightarrow>
         (case (case rt_defaultPriceCatalog inp of None \<Rightarrow> None | Some c \<Rightarrow> map_of c productId) of
                Some hint \<Rightarrow> Inr (defaultTierForInterval (Some (hinted_interval hint interval)))
              | None \<Rightarrow> Inr (defaultTierForInterval (Some interval)))))"

section \<open>Catalogue from the environment\<close>

record price_env =
  pv_monthly :: "string option"
  pv_yearly :: "string option"
  pv_lifetime :: "string option"
  pv_extraGrowth :: "string list option"
  pv_extraPro :: "string list option"

definition catalog_add :: "payment_interval \<Rightarrow> string option \<Rightarrow> (string, price_hint) js_map \<Rightarrow> (string, price_hint) js_map" where
  "catalog_add hint v catalog =
     (case v of
        None \<Rightarrow> catalog
      | Some x \<Rightarrow> if blank x then catalog else map_set (trim x) (Hint hint) catalog)"

definition defaultPriceCatalogFromEnv :: "price_env \<Rightarrow> (string, price_hint) js_map" where
  "defaultPriceCatalogFromEnv env =
     (let months = fold (catalog_add I_month)
                     (pv_monthly env # map Some (case pv_extraGrowth env of None \<Rightarrow> [] | Some xs \<Rightarrow> xs)) [];
          years = catalog_add I_year (pv_yearly env) months
      in fold (catalog_add I_lifetime)
           (pv_lifetime env # map Some (case pv_extraPro env of None \<Rightarrow> [] | Some xs \<Rightarrow> xs)) years)"

section \<open>Billing period\<close>

datatype period_strategy = Calendar_month | Fixed_days | Provider_period

record billing_period =
  bp_periodId :: string
  bp_periodStartsAt :: string
  bp_periodEndsAt :: string
  bp_periodStrategy :: period_strategy

record provider_period_input =
  pr_interval :: "payment_interval option"
  pr_periodStartsAt :: "string option"
  pr_periodEndsAt :: "string option"

definition parseIso :: "string option \<Rightarrow> int option" where
  "parseIso v = (case truthy v of None \<Rightarrow> None | Some x \<Rightarrow> date_parse x)"

definition startOfUtcMonth :: "int \<Rightarrow> int option" where
  "startOfUtcMonth t = date_utc (utc_year t) (utc_month t) 1 0 0 0 0"

text \<open>The end the interval gives a period that starts at a valid date.\<close>

definition period_end :: "payment_interval \<Rightarrow> int \<Rightarrow> int option" where
  "period_end interval starts =
     (if interval = I_year \<or> interval = I_yearly
      then date_utc (utc_year starts + 1) (utc_month starts) (utc_date starts) (utc_hours starts)
             (utc_minutes starts) (utc_seconds starts) (utc_ms starts)
      else if interval = I_lifetime \<or> interval = I_one_time
      then date_utc (utc_year starts + 100) (utc_month starts) (utc_date starts) 0 0 0 0
      else date_utc (utc_year starts) (utc_month starts + 1) 1 0 0 0 0)"

definition provider_period :: "int option \<Rightarrow> int option \<Rightarrow> billing_period result" where
  "provider_period starts ends =
     r_bind (toISOString starts) (\<lambda>s.
     r_bind (toISOString ends) (\<lambda>e.
       Inr \<lparr> bp_periodId = ''provider-'' @ take 10 s @ ''-'' @ take 10 e,
             bp_periodStartsAt = s, bp_periodEndsAt = e, bp_periodStrategy = Provider_period \<rparr>))"

text \<open>
  The clock is read once for a missing start and again for the calendar month. A \<^verbatim>\<open>Date\<close> that the
  start of a month puts before the representable range is invalid, and so is every date made of it.
\<close>

definition billingPeriodFromProvider :: "int \<Rightarrow> int \<Rightarrow> provider_period_input \<Rightarrow> billing_period result" where
  "billingPeriodFromProvider clock1 clock2 inp =
     (let starts = (case parseIso (pr_periodStartsAt inp) of None \<Rightarrow> startOfUtcMonth clock1 | Some t \<Rightarrow> Some t);
          interval = normalizeInterval (pr_interval inp)
      in case parseIso (pr_periodEndsAt inp) of
           Some ends \<Rightarrow> provider_period starts (Some ends)
         | None \<Rightarrow>
             (let ends = (case starts of None \<Rightarrow> None | Some t \<Rightarrow> period_end interval t)
              in if interval \<notin> {I_year, I_yearly, I_lifetime, I_one_time} \<and>
                    truthy (pr_periodStartsAt inp) = None
                 then r_bind (toISOString (startOfUtcMonth clock2)) (\<lambda>monthStart.
                      r_bind (toISOString ends) (\<lambda>e.
                        Inr \<lparr> bp_periodId = take 7 monthStart, bp_periodStartsAt = monthStart,
                              bp_periodEndsAt = e, bp_periodStrategy = Calendar_month \<rparr>))
                 else provider_period starts ends))"

end
