(* ===== verification/PaymentMappingProps.thy ===== *)
theory PaymentMappingProps
  imports PaymentMapping
begin

text \<open>
  The properties of the payment mapping: a complete Waffo mapping sells each plan for each period
  under one product and settles exactly these products; identifiers that only differ in
  surrounding blanks defeat that. A billing period computed from an interval is not empty.
\<close>

section \<open>The strict mapping\<close>

abbreviation plan_period :: "product_mapping \<Rightarrow> plan_tier \<times> payment_interval option" where
  "plan_period m \<equiv> (pm_tier m, pm_interval m)"

lemma waffo_loop_result:
  "distinct pp \<Longrightarrow> distinct ids \<Longrightarrow>
   waffo_loop ms pp ids = Some ps \<longleftrightarrow>
     ps = pp @ map plan_period ms \<and> distinct (pp @ map plan_period ms) \<and>
     distinct (ids @ map pm_paymentProductId ms) \<and> (\<forall>m \<in> set ms. \<not> blank (pm_paymentProductId m))"
  by (induction ms arbitrary: pp ids) auto

definition sold_plan_periods :: "(plan_tier \<times> payment_interval option) list" where
  "sold_plan_periods =
     concat (map (\<lambda>t. map (\<lambda>i. (t, Some i)) WAFFO_INTERVALS) [Starter, Growth, Pro])"

lemma sold_plan_periods_facts: "distinct sold_plan_periods" "length sold_plan_periods = 9"
  by (simp_all add: sold_plan_periods_def WAFFO_INTERVALS_def)

lemma isWaffoInterval_iff: "isWaffoInterval v \<longleftrightarrow> (\<exists>i \<in> set WAFFO_INTERVALS. v = Some i)"
  by (auto simp: isWaffoInterval_def list_ex_iff)

lemma sold_plan_period_iff:
  "(t, v) \<in> set sold_plan_periods \<longleftrightarrow> t \<noteq> Trial \<and> isWaffoInterval v"
  by (cases t) (auto simp: sold_plan_periods_def isWaffoInterval_iff)

lemma complete_mapping_iff:
  fixes ms :: "product_mapping list"
  defines "rows \<equiv> filter (\<lambda>m. isWaffoInterval (pm_interval m)) ms"
  shows "isCompleteWaffoMapping ms \<longleftrightarrow>
    distinct (map plan_period rows) \<and> set (map plan_period rows) = set sold_plan_periods \<and>
    distinct (map pm_paymentProductId rows) \<and> (\<forall>m \<in> set rows. \<not> blank (pm_paymentProductId m))"
    (is "_ \<longleftrightarrow> ?R")
proof -
  have all: "list_all (\<lambda>t. list_all (\<lambda>i. (t, Some i) \<in> set ps) WAFFO_INTERVALS) [Starter, Growth, Pro] =
      (set sold_plan_periods \<subseteq> set ps)" for ps
    by (auto simp: sold_plan_periods_def list_all_iff)
  have eq: "isCompleteWaffoMapping ms \<longleftrightarrow> length rows = 9 \<and>
      distinct (map plan_period rows) \<and> distinct (map pm_paymentProductId rows) \<and>
      (\<forall>m \<in> set rows. \<not> blank (pm_paymentProductId m)) \<and> set sold_plan_periods \<subseteq> set (map plan_period rows)"
  proof (cases "waffo_loop rows [] []")
    case None
    then show ?thesis
      using waffo_loop_result [of "[]" "[]" rows "map plan_period rows"]
      unfolding isCompleteWaffoMapping_def rows_def [symmetric] Let_def by auto
  next
    case (Some ps)
    then have "ps = map plan_period rows" "distinct (map plan_period rows)"
      "distinct (map pm_paymentProductId rows)" "\<forall>m \<in> set rows. \<not> blank (pm_paymentProductId m)"
      using waffo_loop_result [of "[]" "[]" rows ps] by auto
    with Some show ?thesis
      unfolding isCompleteWaffoMapping_def rows_def [symmetric] Let_def by (simp only: option.case all length_map) auto
  qed
  have card9: "set (map plan_period rows) = set sold_plan_periods"
    if "length rows = 9" "distinct (map plan_period rows)" "set sold_plan_periods \<subseteq> set (map plan_period rows)"
  proof -
    have "card (set (map plan_period rows)) = 9" using that(1,2) by (simp only: distinct_card length_map)
    moreover have "card (set sold_plan_periods) = 9" by (simp only: distinct_card sold_plan_periods_facts)
    ultimately show ?thesis
      using card_subset_eq [OF _ that(3)] by (simp only: List.finite_set)
  qed
  have len9: "length rows = 9" if "distinct (map plan_period rows)" "set (map plan_period rows) = set sold_plan_periods"
  proof -
    have "length (map plan_period rows) = card (set sold_plan_periods)" using that by (simp only: distinct_card flip: that(2))
    then show ?thesis by (simp only: distinct_card sold_plan_periods_facts length_map)
  qed
  show ?thesis
  proof
    assume "isCompleteWaffoMapping ms"
    with eq card9 show ?R by blast
  next
    assume ?R
    with eq len9 show "isCompleteWaffoMapping ms" by blast
  qed
qed

definition waffo_request :: "product_mapping list \<Rightarrow> string \<Rightarrow> payment_interval option \<Rightarrow> resolve_tier_input" where
  "waffo_request ms productId interval =
     \<lparr> rt_paymentProductId = productId, rt_interval = interval, rt_config = Some ms,
       rt_defaultPriceCatalog = None, rt_paymentProvider = Some Waffo \<rparr>"

lemma resolve_waffo:
  "resolvePaymentTier (waffo_request ms productId interval) = Inr t \<longleftrightarrow>
     trim productId \<noteq> [] \<and> isWaffoInterval interval \<and> isCompleteWaffoMapping ms \<and>
     (\<exists>m. find (\<lambda>m. trim (pm_paymentProductId m) = trim productId \<and> pm_interval m = interval) ms = Some m \<and> t = pm_tier m)"
  by (auto simp: resolvePaymentTier_def waffo_request_def resolveStrictWaffoPaymentTier_def mappings_of_def
      Let_def split: option.splits)

lemma distinct_map_eq: "distinct (map f xs) \<Longrightarrow> x \<in> set xs \<Longrightarrow> y \<in> set xs \<Longrightarrow> f x = f y \<Longrightarrow> x = y"
  by (auto simp: distinct_map inj_on_def)

lemma settles_by_mapping:
  assumes "\<forall>m \<in> set ms. trim (pm_paymentProductId m) = pm_paymentProductId m"
  shows "resolvePaymentTier (waffo_request ms productId interval) = Inr t \<longleftrightarrow>
      isCompleteWaffoMapping ms \<and> isWaffoInterval interval \<and>
      (\<exists>m \<in> set ms. pm_paymentProductId m = trim productId \<and> plan_period m = (t, interval))" (is "?L \<longleftrightarrow> ?R")
proof
  assume ?L
  then obtain m where m: "isWaffoInterval interval" "isCompleteWaffoMapping ms" "t = pm_tier m"
    "find (\<lambda>m. trim (pm_paymentProductId m) = trim productId \<and> pm_interval m = interval) ms = Some m"
    by (auto simp: resolve_waffo)
  with assms show ?R by (auto simp: find_Some_iff intro!: bexI [of _ m])
next
  let ?rows = "filter (\<lambda>m. isWaffoInterval (pm_interval m)) ms"
  let ?P = "\<lambda>m. trim (pm_paymentProductId m) = trim productId \<and> pm_interval m = interval"
  assume ?R
  then obtain m where m: "isCompleteWaffoMapping ms" "isWaffoInterval interval" "m \<in> set ms"
    "pm_paymentProductId m = trim productId" "pm_interval m = interval" "pm_tier m = t" by auto
  have ids: "distinct (map pm_paymentProductId ?rows)" "\<forall>m \<in> set ?rows. \<not> blank (pm_paymentProductId m)"
    using m(1) by (simp_all add: complete_mapping_iff)
  have "?P m" using m assms by metis
  then obtain m' where m': "find ?P ms = Some m'"
    using m(3) by (cases "find ?P ms") (auto simp: find_None_iff)
  then have "m' \<in> set ms" "pm_interval m' = interval" "pm_paymentProductId m' = trim productId"
    using assms by (auto simp: find_Some_iff)
  then have "m' = m" using m ids(1) by (intro distinct_map_eq [OF ids(1)]) auto
  moreover have "trim productId \<noteq> []" using ids(2) m assms by (force simp: blank_def)
  ultimately show ?L using m m' by (auto simp: resolve_waffo)
qed

lemma complete_mapping_rows:
  assumes "isCompleteWaffoMapping ms" "isWaffoInterval interval"
  shows "if t = Trial then \<forall>m \<in> set ms. plan_period m \<noteq> (t, interval)
    else \<exists>!m. m \<in> set ms \<and> plan_period m = (t, interval)"
proof -
  let ?rows = "filter (\<lambda>m. isWaffoInterval (pm_interval m)) ms"
  have periods: "distinct (map plan_period ?rows)" "set (map plan_period ?rows) = set sold_plan_periods"
    using assms(1) by (simp_all add: complete_mapping_iff)
  have row: "(t, interval) \<in> set sold_plan_periods \<longleftrightarrow> (\<exists>m \<in> set ms. plan_period m = (t, interval))"
    unfolding periods(2) [symmetric] using assms(2) by force
  have "m = m'" if "m \<in> set ms" "m' \<in> set ms" "plan_period m = (t, interval)" "plan_period m' = (t, interval)" for m m'
    using that assms(2) by (intro distinct_map_eq [OF periods(1)]) auto
  note unique = this
  show ?thesis
  proof (cases "t = Trial")
    case True
    with row show ?thesis by (simp add: sold_plan_period_iff)
  next
    case False
    with row assms(2) have "\<exists>m. m \<in> set ms \<and> plan_period m = (t, interval)"
      by (auto simp: sold_plan_period_iff)
    with unique False show ?thesis by auto
  qed
qed

text \<open>
  C37. A Waffo payment settles exactly by the administrator's complete catalogue. When the stored
  product identifiers carry no surrounding blanks, a payment for a product and an interval resolves
  to a tier if and only if the mapping is complete and has that row; and a complete mapping has
  exactly one row for each paid plan in each of the three periods, and none for the trial plan.
\<close>

theorem waffo_mapping_exact:
  assumes "\<forall>m \<in> set ms. trim (pm_paymentProductId m) = pm_paymentProductId m"
  shows "(resolvePaymentTier (waffo_request ms productId interval) = Inr t \<longleftrightarrow>
      isCompleteWaffoMapping ms \<and> isWaffoInterval interval \<and>
      (\<exists>m \<in> set ms. pm_paymentProductId m = trim productId \<and> plan_period m = (t, interval))) \<and>
    (isCompleteWaffoMapping ms \<longrightarrow> isWaffoInterval interval \<longrightarrow>
      (if t = Trial then \<forall>m \<in> set ms. plan_period m \<noteq> (t, interval)
       else \<exists>!m. m \<in> set ms \<and> plan_period m = (t, interval)))"
  using settles_by_mapping [OF assms] complete_mapping_rows by blast

text \<open>A complete catalogue, and one whose identifiers differ in a trailing blank only.\<close>

definition sample_row :: "string \<Rightarrow> plan_tier \<times> payment_interval \<Rightarrow> product_mapping" where
  "sample_row productId p = \<lparr>pm_paymentProductId = productId, pm_interval = Some (snd p), pm_tier = fst p\<rparr>"

definition sample_mapping :: "product_mapping list" where
  "sample_mapping = map2 sample_row [''p1'', ''p2'', ''p3'', ''p4'', ''p5'', ''p6'', ''p7'', ''p8'', ''p9'']
     [(Starter, I_single_month), (Starter, I_monthly), (Starter, I_yearly),
      (Growth, I_single_month), (Growth, I_monthly), (Growth, I_yearly),
      (Pro, I_single_month), (Pro, I_monthly), (Pro, I_yearly)]"

definition padded_mapping :: "product_mapping list" where
  "padded_mapping = sample_mapping[7 := sample_row ''p2 '' (Pro, I_monthly)]"

theorem waffo_mapping_exact_witness:
  "resolvePaymentTier (waffo_request sample_mapping '' p5 '' (Some I_monthly)) = Inr Growth"
proof -
  have trimmed: "\<forall>m \<in> set sample_mapping. trim (pm_paymentProductId m) = pm_paymentProductId m" by code_simp
  have complete: "isCompleteWaffoMapping sample_mapping" "isWaffoInterval (Some I_monthly)"
    "\<exists>m \<in> set sample_mapping. pm_paymentProductId m = trim '' p5 '' \<and> plan_period m = (Growth, Some I_monthly)"
    by code_simp+
  with waffo_mapping_exact [OF trimmed, of "'' p5 ''" "Some I_monthly" Growth] show ?thesis by blast
qed

text \<open>
  The hypothesis is what the schema of the configuration key guarantees, which trims the identifiers.
  Without it the mapping is not exact: the completeness check compares product identifiers as stored, the settlement compares them
  trimmed: a catalogue that sells one plan under \<^verbatim>\<open>p2\<close> and another under \<^verbatim>\<open>p2\<close> with a trailing blank, for
  the same period, counts as complete, and a payment for the second product buys the first plan.
\<close>

lemma padded_product_buys_other_plan:
  "isCompleteWaffoMapping padded_mapping \<and>
   padded_mapping ! 7 = \<lparr>pm_paymentProductId = ''p2 '', pm_interval = Some I_monthly, pm_tier = Pro\<rparr> \<and>
   resolvePaymentTier (waffo_request padded_mapping (pm_paymentProductId (padded_mapping ! 7)) (Some I_monthly)) = Inr Starter"
proof (intro conjI)
  show "isCompleteWaffoMapping padded_mapping" by code_simp
  show "padded_mapping ! 7 = \<lparr>pm_paymentProductId = ''p2 '', pm_interval = Some I_monthly, pm_tier = Pro\<rparr>" by code_simp
  show "resolvePaymentTier (waffo_request padded_mapping (pm_paymentProductId (padded_mapping ! 7)) (Some I_monthly)) = Inr Starter"
    by code_simp
qed

end
