(* ===== verification/CreditPlan.thy ===== *)
theory CreditPlan
  imports CycleScheduler Entitlement
begin

text \<open>
  The plan catalogue of credit billing and the rights a plan gives: \<^verbatim>\<open>credit-plan-catalog.ts\<close> with
  its opening values from \<^verbatim>\<open>contracts/credit-plan-config.ts\<close>, the checks \<^verbatim>\<open>contracts/billing-balance.ts\<close>
  makes of a published catalogue, the current paid subscription and the policy it resolves to
  (\<^verbatim>\<open>credit-entitlement-policy.ts\<close>), the composite policy and the opening entitlement of a generation
  (\<^verbatim>\<open>foundation/entitlement-policy.ts\<close>). The sources behind a port are passed as the value they
  answer, the clock as an argument. Credits, prices and coefficients are unchecked numbers, because
  the code converts or checks them; the other numbers of a catalogue are integers.
\<close>

section \<open>Data\<close>

record plan_offer =
  po_id :: plan_tier
  po_credits :: js_number
  po_monthlyPriceMicros :: js_number
  po_storageMb :: int
  po_concurrencyLimit :: int
  po_queuePriority :: int
  po_supportLabel :: support_label

record cycle_coefficients =
  co_monthly :: js_number
  co_single_month :: js_number
  co_yearly :: js_number

record reference_outputs =
  ro_copy :: int
  ro_image :: int
  ro_video :: int

record add_on_offer =
  ad_id :: string
  ad_credits :: int
  ad_amountMicros :: int
  ad_expireDays :: int

record plan_catalog =
  pc_plans :: "plan_offer list"
  pc_addOns :: "add_on_offer list"
  pc_cycleCoefficientBasisPoints :: cycle_coefficients
  pc_published :: "plan_tier \<Rightarrow> reference_outputs"
  pc_trialEnabled :: bool

record cycle_price =
  cp_amountMicros :: int
  cp_cycle :: plan_interval

record public_offer =
  pb_id :: plan_tier
  pb_credits :: js_number
  pb_concurrencyLimit :: int
  pb_cyclePrices :: "cycle_price list"
  pb_monthlyPriceMicros :: js_number
  pb_referenceOutputs :: reference_outputs

record public_catalog =
  pk_addOns :: "add_on_offer list"
  pk_plans :: "public_offer list"

section \<open>Prices\<close>

definition CREDIT_PLAN_BILLING_CYCLES :: "plan_interval list" where
  "CREDIT_PLAN_BILLING_CYCLES = [Single_month, Monthly, Yearly]"

definition MAX_CREDIT_PLAN_CONCURRENCY :: nat where
  "MAX_CREDIT_PLAN_CONCURRENCY = 100"

definition creditPlanConcurrencyTiers :: "nat list" where
  "creditPlanConcurrencyTiers = map (\<lambda>index. index + 1) [0..<MAX_CREDIT_PLAN_CONCURRENCY]"

text \<open>\<^verbatim>\<open>BigInt\<close> throws on a number that is not integral; its division rounds towards zero.\<close>

fun big_int :: "js_number \<Rightarrow> int result" where
  "big_int (JInt n) = Inr n"
| "big_int JNonInt = Inl (JsError ''The number cannot be converted to a BigInt because it is not an integer'')"

definition big_div :: "int \<Rightarrow> int \<Rightarrow> int" where
  "big_div a b = sgn a * sgn b * (\<bar>a\<bar> div \<bar>b\<bar>)"

fun coefficient :: "cycle_coefficients \<Rightarrow> plan_interval \<Rightarrow> js_number" where
  "coefficient c Single_month = co_single_month c"
| "coefficient c Monthly = co_monthly c"
| "coefficient c Yearly = co_yearly c"

text \<open>The result is converted back with \<^verbatim>\<open>Number\<close>, which is exact below \<open>2 ^ 53\<close>.\<close>

definition creditPlanCheckoutAmountMicros ::
    "js_number \<Rightarrow> plan_interval \<Rightarrow> cycle_coefficients \<Rightarrow> int result" where
  "creditPlanCheckoutAmountMicros monthlyPriceMicros cycle coefficients =
     (let months = (if cycle = Yearly then 12 else 1)
      in r_bind (big_int monthlyPriceMicros) (\<lambda>price.
         r_bind (big_int (coefficient coefficients cycle)) (\<lambda>c.
           let numerator = price * months * c;
               microsPerCurrencyUnit = 1000000;
               denominator = 10000 * microsPerCurrencyUnit
           in Inr (big_div (numerator + big_div denominator 2) denominator * microsPerCurrencyUnit))))"

section \<open>The public catalogue\<close>

text \<open>The integer checks of the schema library: integral, safe, with a lower bound.\<close>

definition schema_int :: "int \<Rightarrow> js_number \<Rightarrow> bool" where
  "schema_int least n \<longleftrightarrow> number_isSafeInteger n \<and> least \<le> int_of n"

definition publicPlanAddOnOfferSchema :: "add_on_offer \<Rightarrow> bool" where
  "publicPlanAddOnOfferSchema a \<longleftrightarrow>
     schema_int 0 (JInt (ad_amountMicros a)) \<and> schema_int 1 (JInt (ad_credits a)) \<and>
     schema_int 1 (JInt (ad_expireDays a)) \<and> ad_id a \<noteq> []"

definition publicPlanReferenceOutputsSchema :: "reference_outputs \<Rightarrow> bool" where
  "publicPlanReferenceOutputsSchema r \<longleftrightarrow>
     schema_int 0 (JInt (ro_copy r)) \<and> schema_int 0 (JInt (ro_image r)) \<and> schema_int 0 (JInt (ro_video r))"

definition publicPlanCyclePriceSchema :: "cycle_price \<Rightarrow> bool" where
  "publicPlanCyclePriceSchema p \<longleftrightarrow> schema_int 0 (JInt (cp_amountMicros p))"

definition publicPlanOfferSchema :: "public_offer \<Rightarrow> bool" where
  "publicPlanOfferSchema p \<longleftrightarrow>
     schema_int 1 (pb_credits p) \<and> schema_int 1 (JInt (pb_concurrencyLimit p)) \<and>
     list_all publicPlanCyclePriceSchema (pb_cyclePrices p) \<and> length (pb_cyclePrices p) = 3 \<and>
     schema_int 0 (pb_monthlyPriceMicros p) \<and>
     publicPlanReferenceOutputsSchema (pb_referenceOutputs p)"

definition publicPlanCatalogSchema :: "public_catalog \<Rightarrow> bool" where
  "publicPlanCatalogSchema c \<longleftrightarrow>
     list_all publicPlanAddOnOfferSchema (pk_addOns c) \<and> list_all publicPlanOfferSchema (pk_plans c)"

fun r_map :: "('a \<Rightarrow> 'b result) \<Rightarrow> 'a list \<Rightarrow> 'b list result" where
  "r_map f [] = Inr []"
| "r_map f (x # xs) = r_bind (f x) (\<lambda>y. r_bind (r_map f xs) (\<lambda>ys. Inr (y # ys)))"

definition public_cycle_prices :: "plan_offer \<Rightarrow> cycle_coefficients \<Rightarrow> cycle_price list result" where
  "public_cycle_prices plan coefficients =
     r_map (\<lambda>cycle.
       r_bind (creditPlanCheckoutAmountMicros (po_monthlyPriceMicros plan) cycle coefficients)
         (\<lambda>amount. Inr \<lparr>cp_amountMicros = amount, cp_cycle = cycle\<rparr>)) CREDIT_PLAN_BILLING_CYCLES"

definition public_plan_offer :: "plan_catalog \<Rightarrow> plan_offer \<Rightarrow> public_offer result" where
  "public_plan_offer catalog plan =
     r_bind (public_cycle_prices plan (pc_cycleCoefficientBasisPoints catalog)) (\<lambda>prices.
       Inr \<lparr> pb_id = po_id plan, pb_credits = po_credits plan,
             pb_concurrencyLimit = po_concurrencyLimit plan, pb_cyclePrices = prices,
             pb_monthlyPriceMicros = po_monthlyPriceMicros plan,
             pb_referenceOutputs = pc_published catalog (po_id plan) \<rparr>)"

text \<open>The parse throws the schema library's error.\<close>

definition toPublicCreditPlanCatalog :: "plan_catalog \<Rightarrow> public_catalog result" where
  "toPublicCreditPlanCatalog catalog =
     r_bind (r_map (public_plan_offer catalog) (pc_plans catalog)) (\<lambda>plans.
       let view = \<lparr>pk_addOns = pc_addOns catalog, pk_plans = plans\<rparr>
       in r_bind (check (publicPlanCatalogSchema view) (JsError ''ZodError'')) (\<lambda>_. Inr view))"

definition readPublicCreditPlanCatalog ::
    "public_catalog option \<Rightarrow> plan_catalog \<Rightarrow> public_catalog result" where
  "readPublicCreditPlanCatalog publicView catalog =
     (case publicView of Some v \<Rightarrow> Inr v | None \<Rightarrow> toPublicCreditPlanCatalog catalog)"

section \<open>Opening values\<close>

fun default_offer :: "plan_tier \<Rightarrow> plan_offer" where
  "default_offer Trial =
     \<lparr> po_id = Trial, po_credits = JInt 100, po_monthlyPriceMicros = JInt 0, po_storageMb = 512,
       po_concurrencyLimit = 1, po_queuePriority = 1, po_supportLabel = Standard \<rparr>"
| "default_offer plan_tier.Starter =
     \<lparr> po_id = plan_tier.Starter, po_credits = JInt 500, po_monthlyPriceMicros = JInt 231183288,
       po_storageMb = 1024, po_concurrencyLimit = 1, po_queuePriority = 1, po_supportLabel = Standard \<rparr>"
| "default_offer plan_tier.Growth =
     \<lparr> po_id = plan_tier.Growth, po_credits = JInt 1300, po_monthlyPriceMicros = JInt 579700809,
       po_storageMb = 5120, po_concurrencyLimit = 4, po_queuePriority = 5, po_supportLabel = Priority \<rparr>"
| "default_offer plan_tier.Pro =
     \<lparr> po_id = plan_tier.Pro, po_credits = JInt 2800, po_monthlyPriceMicros = JInt 1044390836,
       po_storageMb = 20480, po_concurrencyLimit = 8, po_queuePriority = 10, po_supportLabel = Priority \<rparr>"

definition default_add_ons :: "add_on_offer list" where
  "default_add_ons =
     [\<lparr>ad_id = ''credits-100'', ad_credits = 100, ad_amountMicros = 57000000, ad_expireDays = 7\<rparr>,
      \<lparr>ad_id = ''credits-300'', ad_credits = 300, ad_amountMicros = 161000000, ad_expireDays = 7\<rparr>,
      \<lparr>ad_id = ''credits-1000'', ad_credits = 1000, ad_amountMicros = 498000000, ad_expireDays = 7\<rparr>]"

fun default_reference_outputs :: "plan_tier \<Rightarrow> reference_outputs" where
  "default_reference_outputs Trial = \<lparr>ro_copy = 100, ro_image = 20, ro_video = 2\<rparr>"
| "default_reference_outputs plan_tier.Starter = \<lparr>ro_copy = 500, ro_image = 100, ro_video = 10\<rparr>"
| "default_reference_outputs plan_tier.Growth = \<lparr>ro_copy = 1300, ro_image = 260, ro_video = 26\<rparr>"
| "default_reference_outputs plan_tier.Pro = \<lparr>ro_copy = 2800, ro_image = 560, ro_video = 56\<rparr>"

definition DEFAULT_CREDIT_PLAN_CATALOG :: plan_catalog where
  "DEFAULT_CREDIT_PLAN_CATALOG =
     \<lparr> pc_plans = map default_offer [Trial, plan_tier.Starter, plan_tier.Growth, plan_tier.Pro],
       pc_addOns = default_add_ons,
       pc_cycleCoefficientBasisPoints =
         \<lparr>co_monthly = JInt 9000, co_single_month = JInt 10000, co_yearly = JInt 7500\<rparr>,
       pc_published = default_reference_outputs, pc_trialEnabled = True \<rparr>"

definition creditPlanConfigKey :: "string \<Rightarrow> string" where
  "creditPlanConfigKey plan = ''plan.credits.'' @ plan"

section \<open>The current paid subscription\<close>

text \<open>The methods of \<^verbatim>\<open>Array\<close> with a callback that may throw.\<close>

fun r_filter :: "('a \<Rightarrow> bool result) \<Rightarrow> 'a list \<Rightarrow> 'a list result" where
  "r_filter f [] = Inr []"
| "r_filter f (x # xs) =
     r_bind (f x) (\<lambda>b. r_bind (r_filter f xs) (\<lambda>ys. Inr (if b then x # ys else ys)))"

definition hasCurrentPaidRights :: "credit_subscription \<Rightarrow> int \<Rightarrow> bool result" where
  "hasCurrentPaidRights subscription now =
     (if su_status subscription = Past_due
      then Inr (case truthy (su_pastDueAt subscription) of
                  None \<Rightarrow> False
                | Some d \<Rightarrow>
                    num_lt (Some now)
                      (map_option (\<lambda>t. t + CREDIT_SUBSCRIPTION_GRACE_PERIOD_MS) (date_parse d)))
      else if su_status subscription \<noteq> Active \<or> su_paidThroughCycle subscription < 1 then Inr False
      else r_bind (currentCreditSubscriptionCycle subscription (to_iso_string now))
             (\<lambda>cycle. Inr (cycle \<noteq> None)))"

definition latest_updated_first :: "credit_subscription comparator" where
  "latest_updated_first l r =
     Some (let byUpdate = locale_compare (su_updatedAt r) (su_updatedAt l)
           in if byUpdate \<noteq> 0 then byUpdate else locale_compare (su_id r) (su_id l))"

definition currentPaidCreditSubscription ::
    "credit_subscription list \<Rightarrow> int \<Rightarrow> credit_subscription option result" where
  "currentPaidCreditSubscription subscriptions now =
     r_bind (r_filter (\<lambda>x. hasCurrentPaidRights x now) subscriptions) (\<lambda>rights.
       Inr (case js_sort latest_updated_first rights of [] \<Rightarrow> None | x # _ \<Rightarrow> Some x))"

fun tier_of_paid :: "paid_tier \<Rightarrow> plan_tier" where
  "tier_of_paid paid_tier.Starter = plan_tier.Starter"
| "tier_of_paid paid_tier.Growth = plan_tier.Growth"
| "tier_of_paid paid_tier.Pro = plan_tier.Pro"

text \<open>
  The cycle whose tier counts: of a past-due subscription the last paid one. The code asserts that
  an active subscription with paid rights has a current cycle; without one it would read a field of
  \<^verbatim>\<open>null\<close>.
\<close>

definition rights_cycle :: "credit_subscription \<Rightarrow> int \<Rightarrow> int result" where
  "rights_cycle subscription now =
     (if su_status subscription = Past_due then Inr (max 0 (su_paidThroughCycle subscription - 1))
      else r_bind (currentCreditSubscriptionCycle subscription (to_iso_string now)) (\<lambda>cycle.
             case cycle of
               None \<Rightarrow> Inl (JsError ''Cannot read properties of null'')
             | Some c \<Rightarrow> Inr (cy_cycleIndex c)))"

definition entitled_tier :: "credit_subscription option \<Rightarrow> int \<Rightarrow> plan_tier result" where
  "entitled_tier subscription now =
     (case subscription of
        None \<Rightarrow> Inr Trial
      | Some x \<Rightarrow> r_bind (rights_cycle x now) (\<lambda>i. Inr (tier_of_paid (creditSubscriptionTierForCycle x i))))"

definition entitlement_revision :: "credit_subscription option \<Rightarrow> string \<Rightarrow> string" where
  "entitlement_revision subscription ws =
     (case subscription of
        Some x \<Rightarrow> ''credit-entitlement:'' @ su_id x @ '':'' @ su_updatedAt x
      | None \<Rightarrow> ''credit-entitlement:default:'' @ ws)"

definition plan_policy :: "plan_offer \<Rightarrow> string \<Rightarrow> plan_tier \<Rightarrow> entitlement_policy" where
  "plan_policy plan revision tier =
     \<lparr> ep_revision = revision, ep_tier = tier, ep_storageMb = Some (po_storageMb plan),
       ep_allowance = (\<lambda>_. 0), ep_concurrencyLimit = po_concurrencyLimit plan,
       ep_queuePriority = po_queuePriority plan, ep_supportLabel = po_supportLabel plan,
       ep_addOns = [],
       ep_autoTopUp = \<lparr>at_enabled = False, at_monthlyCapMicros = 0, at_spentThisMonthMicros = 0\<rparr>,
       ep_allowedCatalogModelIds = None, ep_allowedQualityTiers = None,
       ep_availableSupplyPoolIds = None, ep_overage = None, ep_validity = None \<rparr>"

definition resolve_credit_policy ::
    "plan_catalog \<Rightarrow> subscription_store \<Rightarrow> int \<Rightarrow> string \<Rightarrow> entitlement_policy option result" where
  "resolve_credit_policy catalog st now ws =
     r_bind (currentPaidCreditSubscription (listForWorkspace st ws) now) (\<lambda>subscription.
     r_bind (entitled_tier subscription now) (\<lambda>tier.
       Inr (map_option (\<lambda>plan. plan_policy plan (entitlement_revision subscription ws) tier)
              (find (\<lambda>p. po_id p = tier) (pc_plans catalog)))))"

section \<open>The composite policy\<close>

datatype foundation_plan_state = Plan_none | Plan_active | Plan_expired

record entitlement_supplement =
  es_revision :: string
  es_policy :: "entitlement_policy option"
  es_planState :: foundation_plan_state
  es_addOns :: "add_on list"
  es_autoTopUp :: auto_top_up

definition ends_with :: "string \<Rightarrow> string \<Rightarrow> bool" where
  "ends_with suffix s \<longleftrightarrow> length suffix \<le> length s \<and> drop (length s - length suffix) s = suffix"

definition fill_extension :: "entitlement_policy \<Rightarrow> entitlement_policy" where
  "fill_extension p =
     (let x = normalizeProductEntitlementPolicy p
      in p\<lparr> ep_allowedCatalogModelIds := Some (px_allowedCatalogModelIds x),
            ep_allowedQualityTiers := Some (px_allowedQualityTiers x),
            ep_availableSupplyPoolIds := Some (px_availableSupplyPoolIds x),
            ep_overage := Some (px_overage x), ep_validity := Some (px_validity x) \<rparr>)"

definition composite_base ::
    "bool option \<Rightarrow> entitlement_policy option \<Rightarrow> entitlement_supplement \<Rightarrow> entitlement_policy option" where
  "composite_base allowFoundationPlan productPolicy supplement =
     (let productIsBootstrap =
            (case productPolicy of None \<Rightarrow> False | Some p \<Rightarrow> ends_with '':bootstrap'' (ep_revision p));
          foundationPlan =
            (if map_option ep_tier (es_policy supplement) = Some Trial \<or> allowFoundationPlan = Some True
             then es_policy supplement else None)
      in if productPolicy \<noteq> None \<and> \<not> productIsBootstrap then productPolicy
         else if es_planState supplement = Plan_expired then None
         else case foundationPlan of Some p \<Rightarrow> Some p | None \<Rightarrow> productPolicy)"

definition resolve_composite_policy ::
    "bool option \<Rightarrow> bool option \<Rightarrow> entitlement_policy option \<Rightarrow> entitlement_supplement \<Rightarrow>
       entitlement_policy option" where
  "resolve_composite_policy allowFoundationPlan allowFoundationSupplements productPolicy supplement =
     (case composite_base allowFoundationPlan productPolicy supplement of
        None \<Rightarrow> None
      | Some base \<Rightarrow>
          (let useFoundationSupplements = (allowFoundationSupplements = Some True)
           in Some (fill_extension (base\<lparr>
                ep_addOns := (if useFoundationSupplements then es_addOns supplement else ep_addOns base),
                ep_autoTopUp := (if useFoundationSupplements then es_autoTopUp supplement else ep_autoTopUp base),
                ep_revision := ''composite:'' @ ep_revision base @ '':'' @
                  (if useFoundationSupplements then es_revision supplement
                   else ''foundation-supplements-disabled'') \<rparr>))))"

section \<open>The opening entitlement of a generation\<close>

record opening_entitlement =
  oe_id :: string
  oe_amount :: int
  oe_reason :: string

fun join_with :: "string \<Rightarrow> string list \<Rightarrow> string" where
  "join_with sep [] = []"
| "join_with sep [x] = x"
| "join_with sep (x # y # ys) = x @ sep @ join_with sep (y # ys)"

fun plan_tier_name :: "plan_tier \<Rightarrow> string" where
  "plan_tier_name Trial = ''trial''"
| "plan_tier_name plan_tier.Starter = ''starter''"
| "plan_tier_name plan_tier.Growth = ''growth''"
| "plan_tier_name plan_tier.Pro = ''pro''"

definition unique_add_ons :: "usage_resource \<Rightarrow> add_on list \<Rightarrow> (string, add_on) js_map" where
  "unique_add_ons resource addOns =
     fold (\<lambda>a. map_set (ao_purchaseId a) a) (filter (\<lambda>a. ao_resource a = resource) addOns) []"

definition opening_reason :: "entitlement_policy \<Rightarrow> (string, add_on) js_map \<Rightarrow> int \<Rightarrow> int \<Rightarrow> string" where
  "opening_reason policy uniqueAddOns planAllowance addOnQuantity =
     join_with '';''
       [''plan_opening:'' @ plan_tier_name (ep_tier policy) @ '':'' @ ep_revision policy,
        ''plan_allowance='' @ show_int planAllowance,
        ''addons='' @ (let ids = join_with '','' (js_sort str_compare (map fst uniqueAddOns))
                       in if ids = [] then ''none'' else ids),
        ''addon_quantity='' @ show_int addOnQuantity,
        ''auto_top_up='' @ (if at_enabled (ep_autoTopUp policy) then ''owner_enabled'' else ''disabled''),
        ''monthly_cap_micros='' @ show_int (at_monthlyCapMicros (ep_autoTopUp policy))]"

definition resolveGenerationOpeningEntitlement ::
    "entitlement_policy option \<Rightarrow> usage_resource \<Rightarrow> opening_entitlement option" where
  "resolveGenerationOpeningEntitlement resolved resource =
     (case resolved of
        None \<Rightarrow> None
      | Some policy \<Rightarrow>
          (let uniqueAddOns = unique_add_ons resource (ep_addOns policy);
               addOnQuantity = sum_list (map (\<lambda>(k, a). ao_quantity a) uniqueAddOns);
               planAllowance = ep_allowance policy resource;
               amount = planAllowance + addOnQuantity
           in if amount \<le> 0 then None
              else Some \<lparr> oe_id = ''opening:'' @ ep_revision policy @ '':'' @ resource_name resource,
                          oe_amount = amount,
                          oe_reason = opening_reason policy uniqueAddOns planAllowance addOnQuantity \<rparr>))"

section \<open>Frozen settlement authority\<close>

datatype frozen_billing_period = Billing_monthly | Billing_yearly

text \<open>
  The currency and the provider have one value each in the type and are left out; the product
  identifier and the plan revision are trimmed by the parse.
\<close>

record settlement_authority =
  fa_amountMicros :: js_number
  fa_billingPeriod :: frozen_billing_period
  fa_credits :: js_number
  fa_paymentMappingRevision :: js_number
  fa_period :: plan_interval
  fa_planRevision :: string
  fa_tier :: paid_tier
  fa_paymentProductId :: string

definition matchingFrozenBillingPeriod :: "settlement_authority \<Rightarrow> bool" where
  "matchingFrozenBillingPeriod a \<longleftrightarrow>
     fa_billingPeriod a = (if fa_period a = Yearly then Billing_yearly else Billing_monthly)"

definition frozenPlanSettlementAuthoritySchema :: "settlement_authority \<Rightarrow> settlement_authority option" where
  "frozenPlanSettlementAuthoritySchema a =
     (if schema_int 1 (fa_amountMicros a) \<and> schema_int 1 (fa_credits a) \<and>
         schema_int 1 (fa_paymentMappingRevision a) \<and> \<not> blank (fa_planRevision a) \<and>
         \<not> blank (fa_paymentProductId a) \<and> matchingFrozenBillingPeriod a
      then Some (a\<lparr>fa_planRevision := trim (fa_planRevision a),
                   fa_paymentProductId := trim (fa_paymentProductId a)\<rparr>)
      else None)"

end
