(* ===== verification/CreditPlanProps.thy ===== *)
theory CreditPlanProps
  imports CreditPlan
begin

text \<open>
  The properties of plans and paid rights: the checkout price is the rounded product of its factors,
  a published catalogue is well-formed, paid rights last exactly for the paid cycles and the grace
  period, the tier of a workspace is the one of its latest paid subscription, and the opening
  entitlement counts every purchase once.
\<close>

section \<open>Prices\<close>

lemma big_div_nonneg: "0 \<le> a \<Longrightarrow> 0 < b \<Longrightarrow> big_div a b = a div b"
  by (cases "a = 0") (simp_all add: big_div_def sgn_if)

lemma big_int_Inr [simp]: "big_int v = Inr n \<longleftrightarrow> v = JInt n"
  by (cases v) auto

text \<open>
  The checkout price is the price of the months times the coefficient, rounded to the nearest
  whole unit of the currency, halves up: for a price and a coefficient that are not negative, the
  amount is a whole number of units within half a unit of the exact product.
\<close>

theorem checkout_amount_rounds:
  assumes "creditPlanCheckoutAmountMicros (JInt p) cycle cs = Inr amount"
    and "coefficient cs cycle = JInt c" and "0 \<le> p" and "0 \<le> c"
  shows "1000000 dvd amount \<and> 0 \<le> amount \<and>
    (let exact = p * (if cycle = Yearly then 12 else 1) * c
     in 10000 * amount \<le> exact + 10000 * 500000 \<and> exact < 10000 * amount + 10000 * 500000)"
proof -
  define n where "n = p * (if cycle = Yearly then 12 else 1) * c"
  have n: "0 \<le> n" using assms(3,4) by (simp add: n_def)
  have half: "big_div 10000000000 2 = 5000000000" by (simp add: big_div_def)
  have amount: "amount = (n + 5000000000) div 10000000000 * 1000000"
    using assms(1,2) n by (simp add: creditPlanCheckoutAmountMicros_def n_def half big_div_nonneg Let_def)
  define q where "q = (n + 5000000000) div 10000000000"
  have "0 \<le> q" "10000000000 * q \<le> n + 5000000000" "n + 5000000000 < 10000000000 * q + 10000000000"
    using n by (simp_all add: q_def)
  then show ?thesis unfolding amount n_def [symmetric] q_def [symmetric] Let_def by simp
qed

theorem checkout_amount_rounds_witness:
  "creditPlanCheckoutAmountMicros (JInt 231183288) Yearly
     (pc_cycleCoefficientBasisPoints DEFAULT_CREDIT_PLAN_CATALOG) = Inr 2081000000 \<and>
   10000 * 2081000000 \<le> 231183288 * 12 * 7500 + 10000 * (500000 :: int)"
proof -
  have run: "creditPlanCheckoutAmountMicros (JInt 231183288) Yearly
     (pc_cycleCoefficientBasisPoints DEFAULT_CREDIT_PLAN_CATALOG) = Inr 2081000000"
    and co: "coefficient (pc_cycleCoefficientBasisPoints DEFAULT_CREDIT_PLAN_CATALOG) Yearly = JInt 7500"
    by code_simp+
  from checkout_amount_rounds [OF run co] run show ?thesis by (simp add: Let_def)
qed

lemma r_map_Inr:
  "r_map f xs = Inr ys \<longleftrightarrow> length ys = length xs \<and> (\<forall>i < length xs. f (xs ! i) = Inr (ys ! i))"
proof (induction xs arbitrary: ys)
  case Nil
  then show ?case by auto
next
  case (Cons x xs)
  then show ?case
    by (cases ys) (auto simp: r_bind_Inr_iff nth_Cons split: nat.splits)
qed

lemma public_cycle_prices_Inr:
  assumes "public_cycle_prices plan cs = Inr prices"
  shows "map cp_cycle prices = CREDIT_PLAN_BILLING_CYCLES"
    and "\<forall>p \<in> set prices.
      creditPlanCheckoutAmountMicros (po_monthlyPriceMicros plan) (cp_cycle p) cs = Inr (cp_amountMicros p)"
  using assms by (auto simp: public_cycle_prices_def CREDIT_PLAN_BILLING_CYCLES_def r_bind_Inr_iff)

lemma checkout_amount_whole: "creditPlanCheckoutAmountMicros v cycle cs = Inr amount \<Longrightarrow> 1000000 dvd amount"
  by (auto simp: creditPlanCheckoutAmountMicros_def r_bind_Inr_iff Let_def)

definition publishable_offer :: "plan_catalog \<Rightarrow> plan_offer \<Rightarrow> public_offer \<Rightarrow> bool" where
  "publishable_offer catalog plan p \<longleftrightarrow>
     pb_id p = po_id plan \<and> pb_credits p = po_credits plan \<and>
     (\<exists>n. po_credits plan = JInt n \<and> 1 \<le> n \<and> n \<le> MAX_SAFE_INTEGER) \<and>
     (\<exists>m. po_monthlyPriceMicros plan = JInt m \<and> 0 \<le> m \<and> m \<le> MAX_SAFE_INTEGER) \<and>
     1 \<le> pb_concurrencyLimit p \<and> map cp_cycle (pb_cyclePrices p) = [Single_month, Monthly, Yearly] \<and>
     (\<forall>c \<in> set (pb_cyclePrices p). 0 \<le> cp_amountMicros c \<and> cp_amountMicros c \<le> MAX_SAFE_INTEGER \<and>
        1000000 dvd cp_amountMicros c)"

lemma schema_int_iff: "schema_int k v \<longleftrightarrow> (\<exists>n. v = JInt n \<and> is_safe n \<and> k \<le> n)"
  by (cases v) (auto simp: schema_int_def)

lemma public_plan_offer_publishable:
  assumes "public_plan_offer catalog plan = Inr p" "publicPlanOfferSchema p"
  shows "publishable_offer catalog plan p"
proof -
  obtain prices where prices: "public_cycle_prices plan (pc_cycleCoefficientBasisPoints catalog) = Inr prices"
    and p: "p = \<lparr> pb_id = po_id plan, pb_credits = po_credits plan,
             pb_concurrencyLimit = po_concurrencyLimit plan, pb_cyclePrices = prices,
             pb_monthlyPriceMicros = po_monthlyPriceMicros plan,
             pb_referenceOutputs = pc_published catalog (po_id plan) \<rparr>"
    using assms(1) by (auto simp: public_plan_offer_def r_bind_Inr_iff)
  have schema: "schema_int 1 (po_credits plan)" "schema_int 1 (JInt (po_concurrencyLimit plan))"
    "\<forall>c \<in> set prices. schema_int 0 (JInt (cp_amountMicros c))" "schema_int 0 (po_monthlyPriceMicros plan)"
    using assms(2) by (simp_all add: publicPlanOfferSchema_def publicPlanCyclePriceSchema_def list_all_iff p)
  have "\<forall>c \<in> set prices. 1000000 dvd cp_amountMicros c"
    using public_cycle_prices_Inr(2) [OF prices] checkout_amount_whole by blast
  with schema public_cycle_prices_Inr(1) [OF prices] show ?thesis
    by (auto simp: publishable_offer_def p schema_int_iff is_safe_def CREDIT_PLAN_BILLING_CYCLES_def)
qed

text \<open>
  A published catalogue is well-formed: it lists the add-ons and, in order, exactly the plans of
  the catalogue, each with a positive amount of credits, at least one task at a time and one price
  for each of the three billing cycles, a safe integer that is a whole number of currency units.
\<close>

theorem published_catalog_well_formed:
  assumes "toPublicCreditPlanCatalog catalog = Inr view"
  shows "pk_addOns view = pc_addOns catalog \<and>
    list_all2 (publishable_offer catalog) (pc_plans catalog) (pk_plans view)"
proof -
  obtain plans where plans: "r_map (public_plan_offer catalog) (pc_plans catalog) = Inr plans"
    and view: "view = \<lparr>pk_addOns = pc_addOns catalog, pk_plans = plans\<rparr>"
    and schema: "publicPlanCatalogSchema view"
    using assms by (auto simp: toPublicCreditPlanCatalog_def r_bind_Inr_iff Let_def split: if_splits)
  then show ?thesis
    by (auto simp: list_all2_conv_all_nth r_map_Inr publicPlanCatalogSchema_def list_all_length
        intro: public_plan_offer_publishable)
qed

definition default_view :: public_catalog where
  "default_view = (case toPublicCreditPlanCatalog DEFAULT_CREDIT_PLAN_CATALOG of Inr v \<Rightarrow> v)"

theorem published_catalog_well_formed_witness:
  "list_all2 (publishable_offer DEFAULT_CREDIT_PLAN_CATALOG) (pc_plans DEFAULT_CREDIT_PLAN_CATALOG)
     (pk_plans default_view) \<and> length (pk_plans default_view) = 4"
proof -
  have run: "toPublicCreditPlanCatalog DEFAULT_CREDIT_PLAN_CATALOG = Inr default_view"
    and len: "length (pk_plans default_view) = 4" by code_simp+
  from published_catalog_well_formed [OF run] len show ?thesis by blast
qed

section \<open>Paid rights\<close>

lemma current_cycle_window:
  assumes "date_parse anchorAt = Some a" "anchor_ok a" "date_parse asOf = Some now"
    and "current_cycle anchorAt paid asOf = Inr c"
  shows "c \<noteq> None \<longleftrightarrow> 1 \<le> paid \<and> a \<le> now \<and> now < cycle_start a paid"
proof -
  obtain cs where cs: "due_loop anchorAt now 0 (nat paid) = Inr cs"
    and c: "c = (if cs \<noteq> [] \<and> num_lt (Some now) (date_parse (cy_endsAt (last cs))) then Some (last cs) else None)"
    using assms(3,4) by (auto simp: current_cycle_def due_cycles_def r_bind_Inr_iff)
  note r = due_loop_result [OF cs]
  show ?thesis
  proof (cases "cs = []")
    case True
    have "\<not> (1 \<le> paid \<and> a \<le> now)"
    proof
      assume paid: "1 \<le> paid \<and> a \<le> now"
      then obtain d where d: "creditSubscriptionCycle anchorAt (JInt 0) = Inr d"
        "num_lt (Some now) (date_parse (cy_startsAt d))" using r True by auto
      with creditSubscriptionCycle_Inr(5) [OF d(1) assms(1,2)] paid show False by simp
    qed
    with True c show ?thesis by auto
  next
    case False
    define k where "k = int (length cs) - 1"
    have idx: "map cy_cycleIndex cs = map int [0..<length cs]" using r by simp
    have last_index: "cy_cycleIndex (last cs) = k"
      using False arg_cong [OF idx, of last] by (simp add: last_map k_def of_nat_diff Suc_leI)
    have in_cs: "last cs \<in> set cs" using False by simp
    have cyc: "creditSubscriptionCycle anchorAt (JInt k) = Inr (last cs)"
      "\<not> num_lt (Some now) (date_parse (cy_startsAt (last cs)))"
      using r in_cs last_index by auto
    note ends = creditSubscriptionCycle_Inr [OF cyc(1) assms(1,2)]
    have started: "cycle_start a k \<le> now" using cyc(2) ends(5) by simp
    have "a \<le> cycle_start a k" using cycle_start_le [of 0 k a] ends(1) by simp
    with started have after: "a \<le> now" by simp
    have k: "k < paid"
    proof -
      have "length cs \<le> nat paid" "0 < length cs" using r False by simp_all
      then have "0 < nat paid" by (rule order.strict_trans2 [rotated])
      then have "int (nat paid) = paid" by simp
      with \<open>length cs \<le> nat paid\<close> show ?thesis unfolding k_def by linarith
    qed
    have "now < cycle_start a (k + 1) \<longleftrightarrow> now < cycle_start a paid"
    proof (cases "k + 1 = paid")
      case False
      then have "length cs < nat paid" using k ends(1) by (simp add: k_def)
      then obtain d where d: "creditSubscriptionCycle anchorAt (JInt (k + 1)) = Inr d"
        "num_lt (Some now) (date_parse (cy_startsAt d))" using r by (auto simp: k_def)
      have "now < cycle_start a (k + 1)" using creditSubscriptionCycle_Inr(5) [OF d(1) assms(1,2)] d(2) by simp
      moreover have "cycle_start a (k + 1) \<le> cycle_start a paid" using k by (intro cycle_start_le) simp
      ultimately show ?thesis by simp
    qed simp
    with c False ends(6) after k ends(1) show ?thesis by auto
  qed
qed

lemma num_lt_Some: "num_lt (Some a) v \<longleftrightarrow> (\<exists>b. v = Some b \<and> a < b)"
  by (cases v) auto

text \<open>
  Paid rights last exactly as long as they were paid for: an active subscription has them from
  its anchor to the end of its last paid cycle, a past-due one for seven days from the moment it fell
  due, a cancelled one never.
\<close>

theorem paid_rights_window:
  assumes "date_parse (su_anchorAt x) = Some a" and "anchor_ok a" and "time_clip now = Some now"
    and "hasCurrentPaidRights x now = Inr rights"
  shows "rights \<longleftrightarrow>
    (case su_status x of
       Active \<Rightarrow> 1 \<le> su_paidThroughCycle x \<and> a \<le> now \<and> now < cycle_start a (su_paidThroughCycle x)
     | Past_due \<Rightarrow> (\<exists>d t. su_pastDueAt x = Some d \<and> date_parse d = Some t \<and> now < t + 7 * ms_per_day)
     | Cancelled \<Rightarrow> False)"
proof (cases "su_status x")
  case Active
  then show ?thesis
    using assms(4) current_cycle_window [OF assms(1,2) date_parse_to_iso [OF assms(3)], of "su_paidThroughCycle x"]
    by (auto simp: hasCurrentPaidRights_def currentCreditSubscriptionCycle_def r_bind_Inr_iff split: if_splits)
next
  case Past_due
  have empty: "date_parse [] = None" by code_simp
  from Past_due show ?thesis
    using assms(4)
    by (auto simp: hasCurrentPaidRights_def truthy_def CREDIT_SUBSCRIPTION_GRACE_PERIOD_MS_def ms_per_day_def empty
        num_lt_Some split: option.splits if_splits)
next
  case Cancelled
  then show ?thesis using assms(4) by (simp add: hasCurrentPaidRights_def)
qed

definition sample_paid :: "string \<Rightarrow> string \<Rightarrow> paid_tier \<Rightarrow> int \<Rightarrow> credit_subscription" where
  "sample_paid subscriptionId updatedAt tier paid =
     \<lparr> su_id = subscriptionId, su_workspaceId = ''w'', su_tier = tier, su_interval = Monthly,
       su_pendingTier = None, su_pendingInterval = None, su_pendingEffectiveCycle = None,
       su_scheduledChanges = [], su_grantCycleOffset = 0, su_grantLineageId = subscriptionId,
       su_anchorAt = ''2026-01-31T08:00:00.000Z'', su_paidThroughCycle = paid, su_status = Active,
       su_pastDueAt = None, su_cancelledAt = None, su_createdAt = ''2026-01-31T08:00:00.000Z'',
       su_updatedAt = updatedAt, su_settlementStatus = None \<rparr>"

definition ten_days_later :: int where "ten_days_later = 1770710400000"

theorem paid_rights_window_witness:
  "hasCurrentPaidRights (sample_paid ''sub'' ''2026-01-31T08:00:00.000Z'' paid_tier.Growth 1) ten_days_later = Inr True \<and>
   ten_days_later < cycle_start 1769846400000 1"
proof -
  let ?x = "sample_paid ''sub'' ''2026-01-31T08:00:00.000Z'' paid_tier.Growth 1"
  have run: "date_parse (su_anchorAt ?x) = Some 1769846400000" "anchor_ok 1769846400000"
    "time_clip ten_days_later = Some ten_days_later" "hasCurrentPaidRights ?x ten_days_later = Inr True"
    by code_simp+
  from paid_rights_window [OF run] run(4) show ?thesis by (simp add: sample_paid_def)
qed

lemma r_filter_Inr:
  "r_filter f xs = Inr ys \<longleftrightarrow> (\<forall>x \<in> set xs. \<exists>b. f x = Inr b) \<and> ys = filter (\<lambda>x. f x = Inr True) xs"
proof (induction xs arbitrary: ys)
  case (Cons x xs)
  then show ?case by (cases "f x") (auto simp: r_bind_Inr_iff)
qed auto

interpretation latest_order: js_comparator latest_updated_first "\<lambda>_. True"
proof
  have le: "cmp_le latest_updated_first x y \<longleftrightarrow>
      (collation_key (su_updatedAt y), collation_key (su_id y)) \<le> (collation_key (su_updatedAt x), collation_key (su_id x))" for x y
  proof -
    have zero: "locale_compare v w = 0 \<longleftrightarrow> collation_key v = collation_key w" for v w
      by (auto simp: locale_compare_def Let_def)
    have neg: "locale_compare v w < 0 \<longleftrightarrow> collation_key v < collation_key w" for v w
      using zero [of v w] locale_compare_le_iff [of v w] by (auto simp: order.order_iff_strict)
    show ?thesis
      by (auto simp: cmp_le_def latest_updated_first_def Let_def less_eq_prod_simp zero neg locale_compare_le_iff
          order.order_iff_strict)
  qed
  show "cmp_le latest_updated_first x y \<or> cmp_le latest_updated_first y x" for x y
    unfolding le by (rule linear)
  show "cmp_le latest_updated_first x y \<Longrightarrow> cmp_le latest_updated_first y z \<Longrightarrow> cmp_le latest_updated_first x z" for x y z
    unfolding le by (rule order_trans)
qed

text \<open>The subscription chosen: one with paid rights, of these the one updated last.\<close>

lemma current_paid_is_latest:
  assumes "currentPaidCreditSubscription xs now = Inr c"
  shows "case c of
      None \<Rightarrow> \<forall>x \<in> set xs. hasCurrentPaidRights x now = Inr False
    | Some x \<Rightarrow> x \<in> set xs \<and> hasCurrentPaidRights x now = Inr True \<and>
        (\<forall>y \<in> set xs. hasCurrentPaidRights y now = Inr True \<longrightarrow> locale_compare (su_updatedAt y) (su_updatedAt x) \<le> 0)"
proof -
  let ?ys = "filter (\<lambda>x. hasCurrentPaidRights x now = Inr True) xs"
  have total: "\<forall>x \<in> set xs. \<exists>b. hasCurrentPaidRights x now = Inr b"
    and c: "c = (case js_sort latest_updated_first ?ys of [] \<Rightarrow> None | x # _ \<Rightarrow> Some x)"
    using assms by (auto simp: currentPaidCreditSubscription_def r_bind_Inr_iff r_filter_Inr)
  have set: "set (js_sort latest_updated_first ?ys) = set ?ys" by simp
  show ?thesis
  proof (cases "js_sort latest_updated_first ?ys")
    case Nil
    then have "?ys = []" by (metis length_0_conv length_js_sort)
    then have "hasCurrentPaidRights x now = Inr False" if "x \<in> set xs" for x
      using total that by (force simp: filter_empty_conv)
    with Nil c show ?thesis by simp
  next
    case (Cons x rest)
    have "sorted_wrt (cmp_le latest_updated_first) (x # rest)"
      using latest_order.sort_sorted [of ?ys] Cons by simp
    then have "cmp_le latest_updated_first x y" if "y \<in> set ?ys" for y
      using that set Cons latest_order.cmp_total [of x x] by (auto simp: Cons)
    moreover have "locale_compare (su_updatedAt y) (su_updatedAt x) \<le> 0" if "cmp_le latest_updated_first x y" for y
      using that by (auto simp: cmp_le_def latest_updated_first_def Let_def split: if_splits)
    ultimately show ?thesis using Cons c set by auto
  qed
qed

text \<open>
  The policy of a workspace follows its paid rights: without any it is the trial plan's, with some
  it is the plan of the subscription updated last among those that have them, at the tier this
  subscription holds in its current cycle, or in its last paid one while it is past due. The
  resolution fails only when the rights of a subscription cannot be computed.
\<close>

theorem paid_rights_decide_tier:
  assumes "resolve_credit_policy catalog st now ws = Inr policy"
  defines "mine \<equiv> set (listForWorkspace st ws)" and "paid \<equiv> (\<lambda>x. hasCurrentPaidRights x now = Inr True)"
  shows "(\<forall>x \<in> mine. \<not> paid x) \<and>
      policy = map_option (\<lambda>plan. plan_policy plan (''credit-entitlement:default:'' @ ws) Trial)
        (find (\<lambda>p. po_id p = Trial) (pc_plans catalog)) \<or>
    (\<exists>x i. x \<in> mine \<and> paid x \<and>
      (\<forall>y \<in> mine. paid y \<longrightarrow> locale_compare (su_updatedAt y) (su_updatedAt x) \<le> 0) \<and>
      rights_cycle x now = Inr i \<and>
      policy = map_option (\<lambda>plan. plan_policy plan (''credit-entitlement:'' @ su_id x @ '':'' @ su_updatedAt x)
          (tier_of_paid (creditSubscriptionTierForCycle x i)))
        (find (\<lambda>p. po_id p = tier_of_paid (creditSubscriptionTierForCycle x i)) (pc_plans catalog)))"
proof -
  obtain c tier where c: "currentPaidCreditSubscription (listForWorkspace st ws) now = Inr c"
    and tier: "entitled_tier c now = Inr tier"
    and policy: "policy = map_option (\<lambda>plan. plan_policy plan (entitlement_revision c ws) tier)
      (find (\<lambda>p. po_id p = tier) (pc_plans catalog))"
    using assms(1) by (auto simp: resolve_credit_policy_def r_bind_Inr_iff)
  show ?thesis
  proof (cases c)
    case None
    then show ?thesis
      using current_paid_is_latest [OF c] tier policy
      by (auto simp: entitled_tier_def entitlement_revision_def mine_def paid_def)
  next
    case (Some x)
    then obtain i where "rights_cycle x now = Inr i" "tier = tier_of_paid (creditSubscriptionTierForCycle x i)"
      using tier by (auto simp: entitled_tier_def r_bind_Inr_iff)
    then show ?thesis
      using current_paid_is_latest [OF c] policy Some
      by (auto simp: entitlement_revision_def mine_def paid_def)
  qed
qed

definition two_paid_store :: subscription_store where
  "two_paid_store =
     \<lparr> ss_subscriptions = [(''old'', sample_paid ''old'' ''2026-01-31T08:00:00.000Z'' paid_tier.Starter 1),
         (''new'', sample_paid ''new'' ''2026-02-02T08:00:00.000Z'' paid_tier.Pro 1)],
       ss_paymentEvents = [], ss_paidPeriods = [] \<rparr>"

theorem paid_rights_decide_tier_witness:
  "\<exists>policy x. resolve_credit_policy DEFAULT_CREDIT_PLAN_CATALOG two_paid_store ten_days_later ''w'' = Inr (Some policy) \<and>
     ep_tier policy = plan_tier.Pro \<and> x \<in> set (listForWorkspace two_paid_store ''w'') \<and>
     hasCurrentPaidRights x ten_days_later = Inr True"
proof -
  have current: "currentPaidCreditSubscription (listForWorkspace two_paid_store ''w'') ten_days_later =
      Inr (Some (sample_paid ''new'' ''2026-02-02T08:00:00.000Z'' paid_tier.Pro 1))"
    and tier: "entitled_tier (Some (sample_paid ''new'' ''2026-02-02T08:00:00.000Z'' paid_tier.Pro 1)) ten_days_later = Inr plan_tier.Pro"
    by code_simp+
  let ?policy = "plan_policy (default_offer plan_tier.Pro)
    (entitlement_revision (Some (sample_paid ''new'' ''2026-02-02T08:00:00.000Z'' paid_tier.Pro 1)) ''w'') plan_tier.Pro"
  have found: "find (\<lambda>p. po_id p = plan_tier.Pro) (pc_plans DEFAULT_CREDIT_PLAN_CATALOG) = Some (default_offer plan_tier.Pro)"
    by code_simp
  have run: "resolve_credit_policy DEFAULT_CREDIT_PLAN_CATALOG two_paid_store ten_days_later ''w'' = Inr (Some ?policy)"
    by (simp add: resolve_credit_policy_def current tier found)
  have tier_policy: "ep_tier ?policy = plan_tier.Pro" by (simp add: plan_policy_def)
  have trial: "Some ?policy \<noteq> map_option (\<lambda>plan. plan_policy plan r Trial) v" for r v
    by (cases v) (auto simp: plan_policy_def)
  show ?thesis
    using paid_rights_decide_tier [OF run] run trial tier_policy by blast
qed

lemma paid_rights_have_cycle: "hasCurrentPaidRights x now = Inr True \<Longrightarrow> \<exists>i. rights_cycle x now = Inr i"
  by (cases "currentCreditSubscriptionCycle x (to_iso_string now)")
    (auto simp: hasCurrentPaidRights_def rights_cycle_def split: if_splits)

section \<open>The opening entitlement\<close>

lemma fold_map_set_keys:
  "set (map fst (fold (\<lambda>a. map_set (f a) a) xs m)) = fst ` set m \<union> f ` set xs \<and>
   (distinct (map fst m) \<longrightarrow> distinct (map fst (fold (\<lambda>a. map_set (f a) a) xs m)))"
proof (induction xs arbitrary: m)
  case (Cons a xs)
  have "set (map fst (map_set (f a) a m)) = insert (f a) (fst ` set m)" by (auto simp: keys_map_set)
  with Cons.IH [of "map_set (f a) a m"] show ?case by (auto simp: distinct_map_set)
qed simp

lemma map_of_fold_map_set:
  "map_of (fold (\<lambda>a. map_set (f a) a) xs m) k =
     (let found = filter (\<lambda>a. f a = k) xs in if found = [] then map_of m k else Some (last found))"
  by (induction xs arbitrary: m) (auto simp: Let_def)

lemma sum_over_keys:
  "distinct (map fst m) \<Longrightarrow> sum_list (map (\<lambda>(k, a). q a) m) = (\<Sum>k \<in> set (map fst m). q (the (map_of m k)))"
proof (induction m)
  case (Cons e m)
  obtain k a where e: "e = (k, a)" by (cases e)
  have "(\<Sum>j \<in> set (map fst m). q (the (map_of (e # m) j))) = (\<Sum>j \<in> set (map fst m). q (the (map_of m j)))"
    using Cons.prems by (intro sum.cong) (auto simp: e)
  with Cons show ?case by (simp add: e)
qed simp

text \<open>
  The opening entitlement counts every purchase once: its amount is the allowance of the plan plus,
  for each purchase of the resource, the quantity of its last add-on, however often the purchase is
  listed; and there is no opening entitlement exactly when this amount is not positive.
\<close>

theorem opening_counts_each_purchase_once:
  fixes policy :: entitlement_policy and resource :: usage_resource
  defines "mine \<equiv> filter (\<lambda>a. ao_resource a = resource) (ep_addOns policy)"
  defines "amount \<equiv> ep_allowance policy resource +
    (\<Sum>purchase \<in> ao_purchaseId ` set mine. ao_quantity (last (filter (\<lambda>a. ao_purchaseId a = purchase) mine)))"
  shows "map_option oe_amount (resolveGenerationOpeningEntitlement (Some policy) resource) =
    (if amount \<le> 0 then None else Some amount)"
proof -
  let ?m = "unique_add_ons resource (ep_addOns policy)"
  have m: "?m = fold (\<lambda>a. map_set (ao_purchaseId a) a) mine []" by (simp add: unique_add_ons_def mine_def)
  have keys: "set (map fst ?m) = ao_purchaseId ` set mine" "distinct (map fst ?m)"
    using fold_map_set_keys [of ao_purchaseId mine "[]"] by (simp_all add: m)
  have "sum_list (map (\<lambda>(k, a). ao_quantity a) ?m) =
      (\<Sum>k \<in> ao_purchaseId ` set mine. ao_quantity (the (map_of ?m k)))"
    using sum_over_keys [OF keys(2)] keys(1) by simp
  also have "\<dots> = (\<Sum>k \<in> ao_purchaseId ` set mine. ao_quantity (last (filter (\<lambda>a. ao_purchaseId a = k) mine)))"
    by (intro sum.cong) (auto simp: m map_of_fold_map_set Let_def filter_empty_conv)
  finally show ?thesis
    by (simp add: resolveGenerationOpeningEntitlement_def amount_def Let_def)
qed

text \<open>
  An expired plan grants nothing: without a product policy of its own, or with a bootstrap one, a
  workspace whose foundation plan has expired has no composite policy.
\<close>

lemma expired_plan_grants_nothing:
  "es_planState supplement = Plan_expired \<Longrightarrow>
     (\<And>p. productPolicy = Some p \<Longrightarrow> ends_with '':bootstrap'' (ep_revision p)) \<Longrightarrow>
     resolve_composite_policy allowPlan allowSupplements productPolicy supplement = None"
  by (cases productPolicy) (auto simp: resolve_composite_policy_def composite_base_def Let_def)

end
