(* ===== verification/CreditBilling.thy ===== *)
theory CreditBilling
  imports CreditPlan PaymentMapping
begin

text \<open>
  The credit billing service, \<^verbatim>\<open>credit-billing/credit-billing-service.ts\<close>: trial and add-on grants,
  the settlement of a payment event in each of its lifecycles, and the balance and billing views.
  The state is the credit ledger beside the subscription store. The sources of plans and payment
  mappings are passed as the value they answer, the clock as the time value each call of it reads,
  the digest of \<^verbatim>\<open>node:crypto\<close> as a function of the facts the code puts into its argument.
\<close>

section \<open>Data\<close>

datatype payment_lifecycle =
  Activate | Renew | Resume | Uncancel_at_period_end | Past_due_payment | Cancel_at_period_end | Expire

fun lifecycle_name :: "payment_lifecycle \<Rightarrow> string" where
  "lifecycle_name Activate = ''activate''"
| "lifecycle_name Renew = ''renew''"
| "lifecycle_name Resume = ''resume''"
| "lifecycle_name Uncancel_at_period_end = ''uncancel_at_period_end''"
| "lifecycle_name Past_due_payment = ''past_due''"
| "lifecycle_name Cancel_at_period_end = ''cancel_at_period_end''"
| "lifecycle_name Expire = ''expire''"

record p1_context =
  cx_workspaceId :: string
  cx_userId :: string
  cx_correlationId :: string

text \<open>The fields that may be \<^verbatim>\<open>null\<close> or missing are optional; the code treats both alike.\<close>

record settlement_input =
  pay_lifecycle :: payment_lifecycle
  pay_paymentEventId :: string
  pay_paymentProductId :: string
  pay_paymentProvider :: "payment_provider option"
  pay_interval :: "payment_interval option"
  pay_periodStartsAt :: "string option"
  pay_subscriptionId :: "string option"
  pay_providerOccurredAt :: "string option"
  pay_settlementAuthority :: "settlement_authority option"

type_synonym billing_state = "credit_ledger \<times> subscription_store"

definition on_ledger :: "(credit_ledger, 'a) op \<Rightarrow> (billing_state, 'a) op" where
  "on_ledger m st = (let (r, l) = m (fst st) in (r, (l, snd st)))"

definition on_store :: "(subscription_store, 'a) op \<Rightarrow> (billing_state, 'a) op" where
  "on_store m st = (let (r, s) = m (snd st) in (r, (fst st, s)))"

section \<open>Checks and conversions\<close>

definition assertText :: "string \<Rightarrow> string \<Rightarrow> unit result" where
  "assertText value field =
     check (\<not> blank value) (P1DomainError INVALID_STATE (field @ '' is required.''))"

definition creditInterval :: "payment_interval option \<Rightarrow> plan_interval" where
  "creditInterval interval =
     (if interval = Some I_year \<or> interval = Some I_yearly then Yearly
      else if interval = Some I_one_time \<or> interval = Some I_single_month then Single_month
      else Monthly)"

definition paidCycleCoverage :: "plan_interval \<Rightarrow> int" where
  "paidCycleCoverage interval = (if interval = Yearly then 12 else 1)"

fun paid_tier_name :: "plan_tier \<Rightarrow> paid_tier option" where
  "paid_tier_name Trial = None"
| "paid_tier_name plan_tier.Starter = Some paid_tier.Starter"
| "paid_tier_name plan_tier.Growth = Some paid_tier.Growth"
| "paid_tier_name plan_tier.Pro = Some paid_tier.Pro"

definition paidCoverageForPlan ::
    "plan_catalog \<Rightarrow> paid_tier \<Rightarrow> plan_interval \<Rightarrow> js_number coverage result" where
  "paidCoverageForPlan catalog tier interval =
     (let bad = P1DomainError INVALID_STATE
                  (''Credit plan '' @ tier_name tier @ '' must provide a positive integer credit amount.'')
      in case find (\<lambda>p. po_id p = tier_of_paid tier) (pc_plans catalog) of
           None \<Rightarrow> Inl bad
         | Some plan \<Rightarrow>
             r_bind (check (number_isSafeInteger (po_credits plan) \<and> int_of (po_credits plan) > 0) bad) (\<lambda>_.
               Inr \<lparr>cov_creditsPerCycle = po_credits plan, cov_interval = interval, cov_tier = tier\<rparr>))"

fun planRank :: "paid_tier \<Rightarrow> int" where
  "planRank paid_tier.Starter = 1"
| "planRank paid_tier.Growth = 2"
| "planRank paid_tier.Pro = 3"

fun interval_of_plan :: "plan_interval \<Rightarrow> payment_interval" where
  "interval_of_plan Single_month = I_single_month"
| "interval_of_plan Monthly = I_monthly"
| "interval_of_plan Yearly = I_yearly"

definition frozenSettlementAuthority :: "settlement_input \<Rightarrow> settlement_authority option result" where
  "frozenSettlementAuthority inp =
     (case pay_settlementAuthority inp of
        None \<Rightarrow> Inr None
      | Some authority \<Rightarrow>
          (let mismatch = P1DomainError INVALID_STATE
                            ''Payment facts do not match the frozen settlement authority.''
           in case frozenPlanSettlementAuthoritySchema authority of
                None \<Rightarrow> Inl mismatch
              | Some parsed \<Rightarrow>
                  r_bind (check (pay_paymentProvider inp = Some Waffo \<and>
                                 fa_paymentProductId parsed = pay_paymentProductId inp \<and>
                                 Some (interval_of_plan (fa_period parsed)) = pay_interval inp) mismatch)
                    (\<lambda>_. Inr (Some parsed))))"

definition requested_id :: "settlement_input \<Rightarrow> string" where
  "requested_id inp = (case pay_subscriptionId inp of None \<Rightarrow> [] | Some x \<Rightarrow> trim x)"

definition subscriptionForPayment :: "credit_subscription list \<Rightarrow> settlement_input \<Rightarrow> credit_subscription option" where
  "subscriptionForPayment subscriptions inp =
     (if requested_id inp = [] then None
      else find (\<lambda>x. su_id x = requested_id inp) subscriptions)"

definition subscriptionIdFor :: "settlement_input \<Rightarrow> string result" where
  "subscriptionIdFor inp =
     r_bind (check (requested_id inp \<noteq> []) (P1DomainError INVALID_STATE ''subscriptionId is required.''))
       (\<lambda>_. Inr (requested_id inp))"

definition assertExistingSubscription ::
    "credit_subscription option \<Rightarrow> payment_lifecycle \<Rightarrow> credit_subscription result" where
  "assertExistingSubscription active lifecycle =
     (case active of
        None \<Rightarrow> Inl (P1DomainError NOT_FOUND
          (''Credit subscription '' @ lifecycle_name lifecycle @ '' cannot settle before activation.''))
      | Some x \<Rightarrow> Inr x)"

definition ignoredStale :: "credit_subscription \<Rightarrow> credit_subscription" where
  "ignoredStale x = withSettlementStatus x Ignored_stale"

definition staleTerminalPeriod ::
    "subscription_store \<Rightarrow> string \<Rightarrow> settlement_input \<Rightarrow> bool \<Rightarrow> bool result" where
  "staleTerminalPeriod st subscriptionId inp allowEqualPeriod =
     (case truthy (pay_periodStartsAt inp) of
        None \<Rightarrow> Inr False
      | Some starts \<Rightarrow>
          (case truthy (latestPaidPeriodStartsAt st subscriptionId) of
             None \<Rightarrow> Inr False
           | Some latest \<Rightarrow>
               (case date_parse starts of
                  None \<Rightarrow> Inl (P1DomainError INVALID_STATE ''periodStartsAt must be an ISO timestamp.'')
                | Some t \<Rightarrow>
                    Inr (if allowEqualPeriod then str_less (to_iso_string t) latest
                         else \<not> str_less latest (to_iso_string t)))))"

section \<open>Payload hashes\<close>

datatype hashed_lifecycle = Paid_period | Named payment_lifecycle

record settlement_facts =
  hf_workspaceId :: string
  hf_lifecycle :: hashed_lifecycle
  hf_paymentProductId :: string
  hf_interval :: "payment_interval option"
  hf_periodStartsAt :: "string option"
  hf_subscriptionId :: "string option"
  hf_settlementAuthority :: "settlement_authority option"

definition paidPeriodLifecycle :: "payment_lifecycle \<Rightarrow> hashed_lifecycle" where
  "paidPeriodLifecycle lifecycle =
     (if lifecycle = Activate \<or> lifecycle = Renew then Paid_period else Named lifecycle)"

definition paymentSettlementHash ::
    "(settlement_facts \<Rightarrow> string) \<Rightarrow> string \<Rightarrow> settlement_input \<Rightarrow> bool \<Rightarrow> bool \<Rightarrow> string" where
  "paymentSettlementHash digest ws inp normalizePaidPeriodLifecycle includeSettlementAuthority =
     digest \<lparr> hf_workspaceId = ws,
       hf_lifecycle = (if normalizePaidPeriodLifecycle then paidPeriodLifecycle (pay_lifecycle inp)
                       else Named (pay_lifecycle inp)),
       hf_paymentProductId = pay_paymentProductId inp, hf_interval = pay_interval inp,
       hf_periodStartsAt = pay_periodStartsAt inp,
       hf_subscriptionId = map_option trim (pay_subscriptionId inp),
       hf_settlementAuthority = (if includeSettlementAuthority then pay_settlementAuthority inp else None) \<rparr>"

definition legacyWaffoPaymentSettlementHashes ::
    "(settlement_facts \<Rightarrow> string) \<Rightarrow> string \<Rightarrow> settlement_input \<Rightarrow> string list" where
  "legacyWaffoPaymentSettlementHashes digest ws inp =
     (if pay_paymentProvider inp \<noteq> Some Waffo \<or> pay_lifecycle inp \<notin> {Activate, Renew} \<or> requested_id inp = []
      then []
      else let h = (\<lambda>lifecycle. paymentSettlementHash digest ws (inp\<lparr>pay_lifecycle := lifecycle\<rparr>) False False)
           in if h Activate = h Renew then [h Activate] else [h Activate, h Renew])"

section \<open>Settling a payment\<close>

definition paid_period ::
    "string \<Rightarrow> string \<Rightarrow> plan_interval \<Rightarrow> js_number coverage \<Rightarrow> string \<Rightarrow> paid_period_input" where
  "paid_period subscriptionId startsAt interval coverage now =
     \<lparr> pp_subscriptionId = subscriptionId, pp_periodStartsAt = startsAt,
       pp_coverageCycles = JInt (paidCycleCoverage interval), pp_coverage = Some coverage, pp_at = now \<rparr>"

definition opening_input ::
    "p1_context \<Rightarrow> string \<Rightarrow> paid_tier \<Rightarrow> plan_interval \<Rightarrow> string \<Rightarrow> int option \<Rightarrow> string \<Rightarrow> subscription_input" where
  "opening_input ctx subscriptionId tier interval anchorAt grantCycleOffset now =
     \<lparr> si_id = subscriptionId, si_workspaceId = cx_workspaceId ctx, si_tier = tier, si_interval = interval,
       si_pendingTier = None, si_pendingInterval = None, si_pendingEffectiveCycle = None,
       si_scheduledChanges = None, si_grantCycleOffset = grantCycleOffset, si_grantLineageId = None,
       si_anchorAt = anchorAt, si_paidThroughCycle = JInt (paidCycleCoverage interval), si_status = None,
       si_pastDueAt = None, si_cancelledAt = None, si_createdAt = Some now, si_updatedAt = Some now \<rparr>"

definition openSubscription ::
    "p1_context \<Rightarrow> string \<Rightarrow> paid_tier \<Rightarrow> plan_interval \<Rightarrow> js_number coverage \<Rightarrow> string \<Rightarrow> int option \<Rightarrow> string \<Rightarrow>
       (subscription_store, credit_subscription) op" where
  "openSubscription ctx subscriptionId tier interval coverage anchorAt grantCycleOffset now =
     op_bind (upsert (opening_input ctx subscriptionId tier interval anchorAt grantCycleOffset now)) (\<lambda>subscription.
     op_bind (recordInitialPaidPeriod (paid_period (su_id subscription) anchorAt interval coverage now)) (\<lambda>_ s.
       (Inr subscription, s)))"

definition change_to :: "string \<Rightarrow> paid_tier \<Rightarrow> plan_interval \<Rightarrow> int \<Rightarrow> string \<Rightarrow> change_input" where
  "change_to subscriptionId tier interval effectiveCycle now =
     \<lparr> ch_subscriptionId = subscriptionId, ch_tier = tier, ch_interval = interval,
       ch_effectiveCycle = JInt effectiveCycle, ch_at = now \<rparr>"

definition in_future :: "string \<Rightarrow> string \<Rightarrow> bool" where
  "in_future startsAt now \<longleftrightarrow> num_lt (date_parse now) (date_parse startsAt)"

text \<open>The check that a payment for a period has the terms the subscription froze for its cycle.\<close>

definition matches_frozen_terms ::
    "credit_subscription \<Rightarrow> string \<Rightarrow> string \<Rightarrow> paid_tier \<Rightarrow> plan_interval \<Rightarrow> unit result" where
  "matches_frozen_terms active startsAt what tier interval =
     r_bind (creditSubscriptionCycleIndexAt (su_anchorAt active) startsAt) (\<lambda>cycle.
       check (tier = creditSubscriptionTierForCycle active cycle \<and>
              interval = creditSubscriptionIntervalForCycle active cycle)
         (P1DomainError INVALID_STATE
            (''Credit '' @ what @ '' does not match the frozen credit subscription tier and interval.'')))"

definition current_cycle_index :: "credit_subscription \<Rightarrow> string \<Rightarrow> int result" where
  "current_cycle_index active now =
     r_bind (currentCreditSubscriptionCycle active now) (\<lambda>cycle.
       Inr (case cycle of Some c \<Rightarrow> cy_cycleIndex c | None \<Rightarrow> max 0 (su_paidThroughCycle active - 1)))"

subsection \<open>The lifecycles of an existing subscription\<close>

definition unless_stale ::
    "credit_subscription \<Rightarrow> settlement_input \<Rightarrow> bool \<Rightarrow> (subscription_store, credit_subscription) op \<Rightarrow>
       (subscription_store, credit_subscription) op" where
  "unless_stale active inp allowEqualPeriod work s =
     guarded (staleTerminalPeriod s (su_id active) inp allowEqualPeriod)
       (\<lambda>stale. if stale then (\<lambda>s. (Inr (ignoredStale active), s)) else work) s"

definition settle_past_due ::
    "settlement_input \<Rightarrow> credit_subscription option \<Rightarrow> string \<Rightarrow> (subscription_store, credit_subscription) op" where
  "settle_past_due inp active now =
     guarded (assertExistingSubscription active (pay_lifecycle inp)) (\<lambda>x.
     guarded (assertText (orElse (pay_periodStartsAt inp) []) ''periodStartsAt'') (\<lambda>_.
       unless_stale x inp (pay_providerOccurredAt inp \<noteq> None) (markPastDue (su_id x) now)))"

definition settle_cancel_at_period_end ::
    "settlement_input \<Rightarrow> credit_subscription option \<Rightarrow> paid_tier \<Rightarrow> plan_interval \<Rightarrow> string \<Rightarrow>
       (subscription_store, credit_subscription) op" where
  "settle_cancel_at_period_end inp active currentTier currentInterval now =
     guarded (assertExistingSubscription active (pay_lifecycle inp)) (\<lambda>x.
       unless_stale x inp True
         (scheduleChange (change_to (su_id x) currentTier currentInterval (su_paidThroughCycle x) now)))"

definition settle_expire ::
    "settlement_input \<Rightarrow> credit_subscription option \<Rightarrow> string \<Rightarrow> (subscription_store, credit_subscription) op" where
  "settle_expire inp active now =
     guarded (assertExistingSubscription active (pay_lifecycle inp)) (\<lambda>x.
       unless_stale x inp False (cancel (su_id x) now))"

definition settle_resume ::
    "settlement_input \<Rightarrow> credit_subscription option \<Rightarrow> paid_tier \<Rightarrow> plan_interval \<Rightarrow> js_number coverage \<Rightarrow> string \<Rightarrow>
       (subscription_store, credit_subscription) op" where
  "settle_resume inp active tier interval coverage now =
     (case active of
        None \<Rightarrow> (\<lambda>s. (Inl (P1DomainError NOT_FOUND ''Credit subscription cannot resume before activation.''), s))
      | Some x \<Rightarrow>
          guarded (check (su_status x = Past_due)
             (P1DomainError INVALID_STATE ''Only a past-due credit subscription can resume after payment.'')) (\<lambda>_.
          guarded (assertText (orElse (pay_periodStartsAt inp) []) ''periodStartsAt'') (\<lambda>_.
            let startsAt = orElse (pay_periodStartsAt inp) []
            in guarded (check (\<not> in_future startsAt now)
                 (DeferredCreditPaymentEvent ''Credit resume is waiting for its paid billing period to start.'')) (\<lambda>_.
               unless_stale x inp False
                 (guarded (matches_frozen_terms x startsAt ''resume'' tier interval) (\<lambda>_.
                  op_bind (recordPaidPeriod (paid_period (su_id x) startsAt interval coverage now)) (\<lambda>paid.
                    if su_status paid = Past_due then resume (su_id x) now else (\<lambda>s. (Inr paid, s)))))))))"

definition settle_uncancel ::
    "settlement_input \<Rightarrow> credit_subscription option \<Rightarrow> string \<Rightarrow> (subscription_store, credit_subscription) op" where
  "settle_uncancel inp active now =
     guarded (assertExistingSubscription active (pay_lifecycle inp)) (\<lambda>x. uncancel (su_id x) now)"

definition settle_renew ::
    "settlement_input \<Rightarrow> credit_subscription option \<Rightarrow> plan_interval \<Rightarrow> paid_tier \<Rightarrow> plan_interval \<Rightarrow>
       js_number coverage \<Rightarrow> string \<Rightarrow> (subscription_store, credit_subscription) op" where
  "settle_renew inp active currentInterval tier interval coverage now =
     (case active of
        None \<Rightarrow> (\<lambda>s. (Inl (P1DomainError NOT_FOUND ''Credit subscription cannot renew before activation.''), s))
      | Some x \<Rightarrow>
          guarded (check (\<not> (currentInterval = Single_month \<and> su_pendingInterval x = None))
             (P1DomainError INVALID_STATE ''A single-month credit subscription has no renewable coverage.'')) (\<lambda>_.
          guarded (assertText (orElse (pay_periodStartsAt inp) []) ''periodStartsAt'') (\<lambda>_.
            let startsAt = orElse (pay_periodStartsAt inp) []
            in guarded (check (\<not> in_future startsAt now)
                 (DeferredCreditPaymentEvent ''Credit renewal is waiting for its billing period to start.'')) (\<lambda>_.
               guarded (matches_frozen_terms x startsAt ''renewal'' tier interval) (\<lambda>_.
                 recordPaidPeriod (paid_period (su_id x) startsAt interval coverage now))))))"

subsection \<open>Activation\<close>

definition replacement_waits :: js_error where
  "replacement_waits = DeferredCreditPaymentEvent ''Credit replacement is waiting for its billing period to start.''"

definition pay_replacement ::
    "string \<Rightarrow> credit_subscription \<Rightarrow> paid_tier \<Rightarrow> plan_interval \<Rightarrow> js_number coverage \<Rightarrow> string \<Rightarrow>
       (subscription_store, credit_subscription) op" where
  "pay_replacement startsAt active tier interval coverage now =
     guarded (check (\<not> in_future startsAt now) replacement_waits) (\<lambda>_.
     guarded (matches_frozen_terms active startsAt ''replacement'' tier interval) (\<lambda>_.
       recordPaidPeriod (paid_period (su_id active) startsAt interval coverage now)))"

text \<open>
  A new subscription of the same or a lower rank takes over the active one: the lower tier or the
  other interval starts with the first cycle that is not paid yet. When its period has not started,
  the event is deferred after these writes.
\<close>

definition replace_subscription ::
    "credit_subscription \<Rightarrow> plan_interval \<Rightarrow> string \<Rightarrow> paid_tier \<Rightarrow> plan_interval \<Rightarrow> js_number coverage \<Rightarrow>
       int \<Rightarrow> string \<Rightarrow> string \<Rightarrow> (subscription_store, credit_subscription) op" where
  "replace_subscription active currentInterval requestedId tier interval coverage comparison anchorAt now =
     (let deferred = in_future anchorAt now; effectiveCycle = su_paidThroughCycle active
      in op_bind (replaceSubscription \<lparr>rs_sourceSubscriptionId = su_id active,
                                       rs_targetSubscriptionId = requestedId, rs_at = now\<rparr>) (\<lambda>replacement.
         if comparison < 0 \<or> interval \<noteq> currentInterval
         then op_bind (scheduleChange (change_to (su_id replacement) tier interval effectiveCycle now)) (\<lambda>scheduled.
              guarded (check (\<not> deferred) replacement_waits) (\<lambda>_.
                recordPaidPeriod (paid_period (su_id scheduled) anchorAt interval coverage now)))
         else op_bind (recordPaidPeriod (paid_period (su_id replacement) anchorAt interval coverage now)) (\<lambda>paid.
              guarded (check (\<not> deferred) replacement_waits) (\<lambda>_ s. (Inr paid, s)))))"

text \<open>A higher tier starts at once: the credits of the old plan expire with its subscription.\<close>

definition upgrade_subscription ::
    "p1_context \<Rightarrow> credit_subscription \<Rightarrow> string \<Rightarrow> paid_tier \<Rightarrow> plan_interval \<Rightarrow> js_number coverage \<Rightarrow>
       string \<Rightarrow> string \<Rightarrow> (billing_state, credit_subscription) op" where
  "upgrade_subscription ctx active requestedId tier interval coverage anchorAt now =
     op_bind (on_ledger (expireSubscriptionLots
       \<lparr> xs_workspaceId = cx_workspaceId ctx, xs_subscriptionId = su_grantLineageId active,
         xs_actorId = cx_userId ctx, xs_correlationId = cx_correlationId ctx, xs_createdAt = now \<rparr>)) (\<lambda>_.
     on_store
       (op_bind (cancel (su_id active) now) (\<lambda>_.
          openSubscription ctx requestedId tier interval coverage anchorAt
            (Some (if su_id active \<noteq> requestedId then 0
                   else su_grantCycleOffset active + su_paidThroughCycle active)) now)))"

definition settle_activation ::
    "p1_context \<Rightarrow> settlement_input \<Rightarrow> credit_subscription option \<Rightarrow> credit_subscription option \<Rightarrow> paid_tier \<Rightarrow>
       plan_interval \<Rightarrow> paid_tier \<Rightarrow> plan_interval \<Rightarrow> js_number coverage \<Rightarrow> string \<Rightarrow> string \<Rightarrow>
       (billing_state, credit_subscription) op" where
  "settle_activation ctx inp requested active currentTier currentInterval tier interval coverage anchorAt now =
     (case active of
        None \<Rightarrow>
          guarded (subscriptionIdFor inp) (\<lambda>requestedId.
            on_store (openSubscription ctx requestedId tier interval coverage anchorAt None now))
      | Some x \<Rightarrow>
          if requested \<noteq> None \<and> su_grantLineageId x \<noteq> su_id x \<and> truthy (pay_periodStartsAt inp) \<noteq> None
          then on_store (pay_replacement (orElse (pay_periodStartsAt inp) []) x tier interval coverage now)
          else
            guarded (subscriptionIdFor inp) (\<lambda>requestedId.
              let comparison = planRank tier - planRank currentTier;
                  replacesSubscription = (su_id x \<noteq> requestedId)
              in if replacesSubscription \<and> comparison \<le> 0
                 then on_store (replace_subscription x currentInterval requestedId tier interval coverage
                                  comparison anchorAt now)
                 else if comparison > 0 \<or> replacesSubscription
                 then upgrade_subscription ctx x requestedId tier interval coverage anchorAt now
                 else on_store (scheduleChange
                        (change_to (su_id x) tier interval (su_paidThroughCycle x) now))))"

subsection \<open>The event\<close>

text \<open>
  The subscription an event is about: the one it names, or on activation the workspace's first one
  that is not cancelled.
\<close>

definition active_subscription ::
    "settlement_input \<Rightarrow> credit_subscription list \<Rightarrow> credit_subscription option" where
  "active_subscription inp subscriptions =
     (case subscriptionForPayment subscriptions inp of
        Some x \<Rightarrow> Some x
      | None \<Rightarrow> (if pay_lifecycle inp = Activate then find (\<lambda>x. su_status x \<noteq> Cancelled) subscriptions
                 else None))"

text \<open>The terms of the current cycle; they are only read for an existing subscription.\<close>

definition current_terms ::
    "credit_subscription option \<Rightarrow> string \<Rightarrow> paid_tier \<Rightarrow> plan_interval \<Rightarrow> (paid_tier \<times> plan_interval) result" where
  "current_terms active now tier interval =
     (case active of
        None \<Rightarrow> Inr (tier, interval)
      | Some x \<Rightarrow> r_bind (current_cycle_index x now) (\<lambda>i.
          Inr (creditSubscriptionTierForCycle x i, creditSubscriptionIntervalForCycle x i)))"

definition settlePaymentEvent ::
    "p1_context \<Rightarrow> settlement_input \<Rightarrow> paid_tier \<Rightarrow> js_number coverage \<Rightarrow> string \<Rightarrow>
       (billing_state, credit_subscription) op" where
  "settlePaymentEvent ctx inp tier coverage now st =
     (let anchorAt = orElse (pay_periodStartsAt inp) now;
          interval = creditInterval (pay_interval inp);
          subscriptions = listForWorkspace (snd st) (cx_workspaceId ctx);
          requested = subscriptionForPayment subscriptions inp;
          active = active_subscription inp subscriptions
      in guarded (current_terms active now tier interval) (\<lambda>(currentTier, currentInterval).
           case pay_lifecycle inp of
             Past_due_payment \<Rightarrow> on_store (settle_past_due inp active now)
           | Cancel_at_period_end \<Rightarrow>
               on_store (settle_cancel_at_period_end inp active currentTier currentInterval now)
           | Expire \<Rightarrow> on_store (settle_expire inp active now)
           | Resume \<Rightarrow> on_store (settle_resume inp active tier interval coverage now)
           | Uncancel_at_period_end \<Rightarrow> on_store (settle_uncancel inp active now)
           | Renew \<Rightarrow> on_store (settle_renew inp active currentInterval tier interval coverage now)
           | Activate \<Rightarrow>
               settle_activation ctx inp requested active currentTier currentInterval tier interval coverage
                 anchorAt now) st)"

definition settlement_tier ::
    "product_mapping list option \<Rightarrow> settlement_input \<Rightarrow> settlement_authority option \<Rightarrow> paid_tier result" where
  "settlement_tier config inp frozen =
     r_bind (case frozen of
               Some a \<Rightarrow> Inr (tier_of_paid (fa_tier a))
             | None \<Rightarrow> resolvePaymentTier
                 \<lparr> rt_paymentProductId = pay_paymentProductId inp, rt_interval = pay_interval inp,
                   rt_config = config, rt_defaultPriceCatalog = None,
                   rt_paymentProvider = pay_paymentProvider inp \<rparr>) (\<lambda>tier.
       case paid_tier_name tier of
         None \<Rightarrow> Inl (P1DomainError INVALID_STATE ''Payment cannot grant the trial credit plan.'')
       | Some paid \<Rightarrow> Inr paid)"

definition settlement_coverage ::
    "plan_catalog \<Rightarrow> settlement_input \<Rightarrow> settlement_authority option \<Rightarrow> paid_tier \<Rightarrow> js_number coverage result" where
  "settlement_coverage catalog inp frozen tier =
     (let interval = creditInterval (pay_interval inp)
      in case frozen of
           Some a \<Rightarrow> Inr \<lparr>cov_creditsPerCycle = fa_credits a, cov_interval = interval, cov_tier = tier\<rparr>
         | None \<Rightarrow> paidCoverageForPlan catalog tier interval)"

definition settlement_event ::
    "(settlement_facts \<Rightarrow> string) \<Rightarrow> p1_context \<Rightarrow> settlement_input \<Rightarrow> string \<Rightarrow> payment_event_input" where
  "settlement_event digest ctx inp now =
     \<lparr> pi_workspaceId = cx_workspaceId ctx, pi_paymentEventId = pay_paymentEventId inp,
       pi_payloadHash = paymentSettlementHash digest (cx_workspaceId ctx) inp True True,
       pi_compatiblePayloadHashes = Some (legacyWaffoPaymentSettlementHashes digest (cx_workspaceId ctx) inp),
       pi_createdAt = now \<rparr>"

definition settlePayment ::
    "(settlement_facts \<Rightarrow> string) \<Rightarrow> product_mapping list option \<Rightarrow> plan_catalog \<Rightarrow> int \<Rightarrow> p1_context \<Rightarrow>
       settlement_input \<Rightarrow> (billing_state, credit_subscription option) op" where
  "settlePayment digest config catalog clock ctx inp =
     guarded (assertText (pay_paymentEventId inp) ''paymentEventId'') (\<lambda>_.
     guarded (assertText (pay_paymentProductId inp) ''paymentProductId'') (\<lambda>_.
     guarded (assertText (orElse (pay_subscriptionId inp) []) ''subscriptionId'') (\<lambda>_.
     guarded (frozenSettlementAuthority inp) (\<lambda>frozen.
     guarded (settlement_tier config inp frozen) (\<lambda>tier.
       let now = to_iso_string clock
       in withPaymentEvent (settlement_event digest ctx inp now)
            (guarded (settlement_coverage catalog inp frozen tier) (\<lambda>coverage.
             op_bind (settlePaymentEvent ctx inp tier coverage now) (\<lambda>x st. (Inr (Some x), st)))))))))"

section \<open>Balance and billing views\<close>

record merchant_balance =
  mb_projection :: credit_balance
  mb_soonestExpiringLot :: "(int \<times> string) option"

definition soonest_first :: "credit_lot comparator" where
  "soonest_first l r =
     (let parsed = (\<lambda>x. case cl_expirationDate x of None \<Rightarrow> None | Some d \<Rightarrow> date_parse d);
          byExpiry = num_sub (parsed l) (parsed r)
      in if byExpiry = Some 0 then Some (locale_compare (cl_id l) (cl_id r)) else byExpiry)"

definition expiring_lots :: "credit_lot list \<Rightarrow> string \<Rightarrow> credit_lot list" where
  "expiring_lots lots asOf =
     filter (\<lambda>l. cl_remainingCredits l > 0 \<and>
                 (case cl_expirationDate l of
                    None \<Rightarrow> False | Some d \<Rightarrow> num_lt (date_parse asOf) (date_parse d))) lots"

definition balance :: "credit_ledger \<Rightarrow> int \<Rightarrow> string \<Rightarrow> merchant_balance" where
  "balance l clock ws =
     (let asOf = to_iso_string clock;
          (lots, projection) = readBalanceSnapshot l ws asOf
      in \<lparr> mb_projection = projection,
           mb_soonestExpiringLot =
             (case js_sort soonest_first (expiring_lots lots asOf) of
                [] \<Rightarrow> None
              | lot # _ \<Rightarrow> map_option (\<lambda>d. (cl_remainingCredits lot, d)) (cl_expirationDate lot)) \<rparr>)"

record billing_summary =
  bs_creditsThisPeriod :: int
  bs_interval :: plan_interval
  bs_periodEndsAt :: string
  bs_tier :: paid_tier

definition billingFromLots ::
    "subscription_store \<Rightarrow> int \<Rightarrow> string \<Rightarrow> credit_lot list \<Rightarrow> billing_summary option result" where
  "billingFromLots s clock ws lots =
     r_bind (currentPaidCreditSubscription (listForWorkspace s ws) clock) (\<lambda>current.
       case current of
         None \<Rightarrow> Inr None
       | Some subscription \<Rightarrow>
           r_bind (currentCreditSubscriptionCycle subscription (to_iso_string clock)) (\<lambda>currentCycle.
           let cycleIndex = (case currentCycle of
                               Some c \<Rightarrow> cy_cycleIndex c
                             | None \<Rightarrow> max 0 (su_paidThroughCycle subscription - 1))
           in r_bind (paidCoverageForCycle s (su_id subscription) (JInt cycleIndex)) (\<lambda>coverage.
              let grantKey = creditSubscriptionGrantKey (su_grantLineageId subscription)
                               (su_grantCycleOffset subscription + cycleIndex);
                  issuedLot = find (\<lambda>l. cl_grantIdempotencyKey l = grantKey) lots
              in case (case issuedLot of
                         Some l \<Rightarrow> Some (cl_originalCredits l)
                       | None \<Rightarrow> map_option cov_creditsPerCycle coverage) of
                   None \<Rightarrow> Inr None
                 | Some credits \<Rightarrow>
                     r_bind (case currentCycle of
                               Some c \<Rightarrow> Inr (cy_endsAt c)
                             | None \<Rightarrow> r_bind (creditSubscriptionCycle (su_anchorAt subscription) (JInt cycleIndex))
                                         (\<lambda>c. Inr (cy_endsAt c))) (\<lambda>ends.
                       Inr (Some \<lparr> bs_creditsThisPeriod = credits,
                                   bs_interval = (case coverage of
                                      Some c \<Rightarrow> cov_interval c
                                    | None \<Rightarrow> creditSubscriptionIntervalForCycle subscription cycleIndex),
                                   bs_periodEndsAt = ends,
                                   bs_tier = (case coverage of
                                      Some c \<Rightarrow> cov_tier c
                                    | None \<Rightarrow> creditSubscriptionTierForCycle subscription cycleIndex) \<rparr>)))))"

definition billing :: "int \<Rightarrow> string \<Rightarrow> billing_state \<Rightarrow> billing_summary option result" where
  "billing clock ws st = billingFromLots (snd st) clock ws (listLots (fst st) ws)"

text \<open>\<^verbatim>\<open>detail\<close> with a ledger that has the optional transaction reader.\<close>

definition detail ::
    "int \<Rightarrow> string \<Rightarrow> billing_state \<Rightarrow> (billing_summary option \<times> credit_lot list \<times> credit_tx list) result" where
  "detail clock ws st =
     (let transactions = listTransactions (fst st) ws; lots = listLots (fst st) ws
      in r_bind (billingFromLots (snd st) clock ws lots) (\<lambda>summary. Inr (summary, lots, transactions)))"

section \<open>Trial and add-on grants\<close>

definition trial_grant :: "p1_context \<Rightarrow> js_number \<Rightarrow> string \<Rightarrow> grant_credits_input" where
  "trial_grant ctx credits createdAt =
     \<lparr> gc_id = ''trial:'' @ cx_workspaceId ctx, gc_workspaceId = cx_workspaceId ctx, gc_credits = credits,
       gc_expirationDate = None, gc_transactionType = REGISTER_GIFT, gc_sourceRef = Some ''trial'',
       gc_createdAt = createdAt, gc_actorId = Some (cx_userId ctx),
       gc_correlationId = Some (cx_correlationId ctx),
       gc_grantIdempotencyKey = Some (''grant:trial:'' @ cx_workspaceId ctx) \<rparr>"

text \<open>The clock is read for the grant and again for the balance.\<close>

definition grantTrial ::
    "plan_catalog \<Rightarrow> int \<Rightarrow> int \<Rightarrow> p1_context \<Rightarrow> (credit_ledger, merchant_balance) op" where
  "grantTrial catalog clock1 clock2 ctx l =
     (if \<not> pc_trialEnabled catalog then (Inr (balance l clock1 (cx_workspaceId ctx)), l)
      else case find (\<lambda>p. po_id p = Trial) (pc_plans catalog) of
             None \<Rightarrow> (Inl (P1DomainError INVALID_STATE ''Trial credit plan is not configured.''), l)
           | Some trial \<Rightarrow>
               guarded (check (number_isSafeInteger (po_credits trial) \<and> int_of (po_credits trial) > 0)
                 (P1DomainError INVALID_STATE ''Trial credits must be a positive integer.'')) (\<lambda>_.
               op_bind (CreditLedger.grant (trial_grant ctx (po_credits trial) (to_iso_string clock1))) (\<lambda>_ l'.
                 (Inr (balance l' clock2 (cx_workspaceId ctx)), l'))) l)"

record add_on_input =
  gd_offerId :: string
  gd_paymentEventId :: string
  gd_credits :: js_number
  gd_expireDays :: js_number

definition add_on_grant :: "p1_context \<Rightarrow> add_on_input \<Rightarrow> string \<Rightarrow> string \<Rightarrow> grant_credits_input" where
  "add_on_grant ctx inp createdAt expirationDate =
     \<lparr> gc_id = ''package:'' @ gd_paymentEventId inp, gc_workspaceId = cx_workspaceId ctx,
       gc_credits = gd_credits inp, gc_expirationDate = Some expirationDate,
       gc_transactionType = PURCHASE_PACKAGE, gc_sourceRef = Some (gd_offerId inp),
       gc_createdAt = createdAt, gc_actorId = Some (cx_userId ctx),
       gc_correlationId = Some (cx_correlationId ctx),
       gc_grantIdempotencyKey = Some (''grant:package:'' @ gd_paymentEventId inp) \<rparr>"

definition grantAddOn :: "int \<Rightarrow> int \<Rightarrow> p1_context \<Rightarrow> add_on_input \<Rightarrow> (credit_ledger, credit_lot) op" where
  "grantAddOn clock1 clock2 ctx inp =
     guarded (assertText (gd_offerId inp) ''offerId'') (\<lambda>_.
     guarded (assertText (gd_paymentEventId inp) ''paymentEventId'') (\<lambda>_.
     guarded (check (number_isSafeInteger (gd_credits inp) \<and> int_of (gd_credits inp) > 0)
       (P1DomainError INVALID_STATE ''credits must be a positive integer.'')) (\<lambda>_.
     guarded (check (number_isSafeInteger (gd_expireDays inp) \<and> int_of (gd_expireDays inp) > 0)
       (P1DomainError INVALID_STATE ''expireDays must be a positive integer.'')) (\<lambda>_.
     guarded (toISOString (time_clip (clock2 + int_of (gd_expireDays inp) * ms_per_day))) (\<lambda>expirationDate.
       CreditLedger.grant (add_on_grant ctx inp (to_iso_string clock1) expirationDate))))))"

end
