(* ===== verification/CreditBillingCorrect.thy ===== *)
theory CreditBillingCorrect
  imports CreditBilling
begin

text \<open>
  Every way a settlement can end, with a result, a deferral or an error, leaves the ledger and the
  subscription store in a sound state. The predicate \<open>keeps\<close> says this of one method, with a rule for
  each way methods are composed; the methods of the store keep its invariant even when they throw,
  provided the instant they stamp is a date.
\<close>

section \<open>Methods that keep an invariant whatever they answer\<close>

definition keeps :: "('s \<Rightarrow> bool) \<Rightarrow> ('s, 'a) op \<Rightarrow> bool" where
  "keeps P m \<longleftrightarrow> (\<forall>s. P s \<longrightarrow> P (snd (m s)))"

named_theorems keeps_rules \<open>composition rules of methods that keep an invariant\<close>

lemma keepsI: "(\<And>s x s'. P s \<Longrightarrow> m s = (x, s') \<Longrightarrow> P s') \<Longrightarrow> keeps P m"
  by (simp add: keeps_def prod_eq_iff)

lemma keepsD: "keeps P m \<Longrightarrow> P s \<Longrightarrow> m s = (x, s') \<Longrightarrow> P s'"
  by (auto simp: keeps_def dest: spec [of _ s])

lemma keeps_return [keeps_rules]: "keeps P (\<lambda>s. (x, s))"
  by (simp add: keeps_def)

lemma keeps_guarded [keeps_rules]: "(\<And>a. r = Inr a \<Longrightarrow> keeps P (f a)) \<Longrightarrow> keeps P (guarded r f)"
  by (cases r) (simp_all add: keeps_def)

lemma keeps_op_bind [keeps_rules]:
  "keeps P m \<Longrightarrow> (\<And>a s s'. m s = (Inr a, s') \<Longrightarrow> keeps P (f a)) \<Longrightarrow> keeps P (op_bind m f)"
  unfolding keeps_def op_bind_def by (fastforce split: prod.splits sum.splits)

lemma keeps_if [keeps_rules]: "(b \<Longrightarrow> keeps P m) \<Longrightarrow> (\<not> b \<Longrightarrow> keeps P m') \<Longrightarrow> keeps P (if b then m else m')"
  by simp

lemma keeps_option [keeps_rules]:
  "(v = None \<Longrightarrow> keeps P m) \<Longrightarrow> (\<And>x. v = Some x \<Longrightarrow> keeps P (f x)) \<Longrightarrow>
   keeps P (case v of None \<Rightarrow> m | Some x \<Rightarrow> f x)"
  by (cases v) simp_all

text \<open>A method whose guards read the state.\<close>

lemma keeps_state: "(\<And>s. keeps P (m s)) \<Longrightarrow> keeps P (\<lambda>s. m s s)"
  by (simp add: keeps_def)

section \<open>The store\<close>

lemma store_ok_put:
  assumes "store_ok s" "subscription_ok x" "su_id x = k"
  shows "store_ok (put_subscription k x s)"
  using assms unfolding store_ok_def by (auto simp: distinct_map_set)

lemma store_ok_period:
  assumes "store_ok s" "period_ok p"
  shows "store_ok (put_period key p s)"
  using assms set_map_set [of key p "ss_paidPeriods s"] unfolding store_ok_def by fastforce

lemma store_ok_subscription: "store_ok s \<Longrightarrow> map_of (ss_subscriptions s) k = Some x \<Longrightarrow> su_id x = k \<and> subscription_ok x"
  by (simp add: store_ok_def)

lemma stamp_Inl: "date_parse at = Some t \<Longrightarrow> stamp k y at s \<noteq> (Inl e, s')"
  by (simp add: stamp_def Let_def)

lemma failing_call_changes_nothing:
  assumes "date_parse at = Some t"
  shows "resume k at s = (Inl e, s') \<Longrightarrow> s' = s"
    and "uncancel k at s = (Inl e, s') \<Longrightarrow> s' = s"
    and "markPastDue k at s = (Inl e, s') \<Longrightarrow> s' = s"
    and "cancel k at s = (Inl e, s') \<Longrightarrow> s' = s"
    and "ch_at cinp = at \<Longrightarrow> scheduleChange cinp s = (Inl e, s') \<Longrightarrow> s' = s"
    and "replaceSubscription rinp s = (Inl e, s') \<Longrightarrow> s' = s"
    and "upsert uinp s = (Inl e, s') \<Longrightarrow> s' = s"
  using assms stamp_Inl [OF assms]
  by (auto simp: resume_def uncancel_def markPastDue_def cancel_def cancel_now_def scheduleChange_def
      replaceSubscription_def upsert_def guarded_def Let_def split: sum.splits if_splits option.splits)

lemma keeps_store:
  assumes "\<And>r s s'. store_ok s \<Longrightarrow> m s = (Inr r, s') \<Longrightarrow> store_ok s'"
    and "\<And>e s s'. m s = (Inl e, s') \<Longrightarrow> s' = s"
  shows "keeps store_ok m"
  by (rule keepsI) (metis assms sum.exhaust)

lemma keeps_sound_call:
  assumes "\<And>r s s'. m s = (Inr r, s') \<Longrightarrow> sound_update s s'"
    and "\<And>e s s'. m s = (Inl e, s') \<Longrightarrow> s' = s"
  shows "keeps store_ok m"
  by (rule keeps_store) (use assms sound_update_store_ok in blast)+

lemma keeps_store_calls [keeps_rules]:
  assumes "date_parse at = Some t"
  shows "keeps store_ok (resume k at)" "keeps store_ok (uncancel k at)" "keeps store_ok (markPastDue k at)"
    "keeps store_ok (cancel k at)"
    "ch_at cinp = at \<Longrightarrow> keeps store_ok (scheduleChange cinp)"
proof -
  note same = failing_call_changes_nothing [OF assms]
  show "keeps store_ok (resume k at)" by (rule keeps_sound_call [OF resume_sound same(1)])
  show "keeps store_ok (uncancel k at)" by (rule keeps_sound_call [OF uncancel_sound same(2)])
  show "keeps store_ok (markPastDue k at)" by (rule keeps_sound_call [OF markPastDue_sound same(3)])
  show "keeps store_ok (cancel k at)" by (rule keeps_sound_call [OF cancel_sound same(4)])
  show "ch_at cinp = at \<Longrightarrow> keeps store_ok (scheduleChange cinp)"
    by (rule keeps_sound_call [OF scheduleChange_sound same(5)])
qed

lemma keeps_replace [keeps_rules]: "keeps store_ok (replaceSubscription rinp)"
proof (rule keeps_store)
  show "replaceSubscription rinp s = (Inr r, s') \<Longrightarrow> store_ok s \<Longrightarrow> store_ok s'" for s r s' by (rule replace_store_ok)
  show "replaceSubscription rinp s = (Inl e, s') \<Longrightarrow> s' = s" for s e s'
    by (auto simp: replaceSubscription_def guarded_def Let_def split: sum.splits)
qed

lemma keeps_upsert [keeps_rules]: "keeps store_ok (upsert uinp)"
proof (rule keeps_store)
  show "upsert uinp s = (Inr r, s') \<Longrightarrow> store_ok s \<Longrightarrow> store_ok s'" for s r s' by (rule upsert_store_ok)
  show "upsert uinp s = (Inl e, s') \<Longrightarrow> s' = s" for s e s'
    by (auto simp: upsert_def guarded_def Let_def split: sum.splits)
qed

lemma recordPaidCoverage_error: "date_parse at = Some t \<Longrightarrow> recordPaidCoverage k n at s = (Inl e, s') \<Longrightarrow> s' = s"
  by (auto simp: recordPaidCoverage_def guarded_def stamp_Inl split: sum.splits if_splits)

lemma keeps_recordPaidPeriod [keeps_rules]: "keeps store_ok (recordPaidPeriod inp)"
proof (rule keepsI)
  fix s x s' assume s: "store_ok s" and run: "recordPaidPeriod inp s = (x, s')"
  show "store_ok s'"
  proof (cases x)
    case (Inr r)
    with run have "sound_update s s'" using recordPaidPeriod_sound by simp
    then show ?thesis by (rule sound_update_store_ok [OF _ s])
  next
    case (Inl e)
    have iso_ok: "\<exists>t. date_parse w = Some t" if "iso v = Inr w" for v w using iso_parses [OF that] by blast
    have "s' = s \<or> (\<exists>key p. paidPeriodFacts inp = Inr p \<and> s' = put_period key p s)"
      using run Inl iso_ok
      by (auto simp: recordPaidPeriod_def guarded_def Let_def split: sum.splits if_splits option.splits
          dest: recordPaidCoverage_error)
    with s show ?thesis by (auto intro: store_ok_period dest: paidPeriodFacts_ok)
  qed
qed

lemma keeps_recordInitialPaidPeriod [keeps_rules]: "keeps store_ok (recordInitialPaidPeriod inp)"
proof (rule keepsI)
  fix s x s' assume s: "store_ok s" and run: "recordInitialPaidPeriod inp s = (x, s')"
  show "store_ok s'"
  proof (cases x)
    case (Inr r)
    with run have "sound_update s s'" using recordInitialPaidPeriod_sound by simp
    then show ?thesis by (rule sound_update_store_ok [OF _ s])
  next
    case (Inl e)
    have "s' = s \<or> (\<exists>key p. paidPeriodFacts inp = Inr p \<and> s' = put_period key p s)"
      using run Inl
      by (auto simp: recordInitialPaidPeriod_def guarded_def op_bind_def Let_def split: sum.splits option.splits prod.splits)
    with s show ?thesis by (auto intro: store_ok_period dest: paidPeriodFacts_ok)
  qed
qed

section \<open>The service\<close>

definition billing_inv :: "billing_state \<Rightarrow> bool" where
  "billing_inv st \<longleftrightarrow> credit_inv (fst st) \<and> store_ok (snd st)"

lemma keeps_on_store [keeps_rules]: "keeps store_ok m \<Longrightarrow> keeps billing_inv (on_store m)"
  by (simp add: keeps_def billing_inv_def on_store_def split_def Let_def)

lemma keeps_on_ledger [keeps_rules]: "keeps credit_inv m \<Longrightarrow> keeps billing_inv (on_ledger m)"
  by (simp add: keeps_def billing_inv_def on_ledger_def split_def Let_def)

lemma keeps_expireSubscriptionLots [keeps_rules]: "keeps credit_inv (expireSubscriptionLots inp)"
  by (simp add: keeps_def expireSubscriptionLots_keeps)

lemma keeps_openSubscription [keeps_rules]: "keeps store_ok (openSubscription ctx k tier interval coverage a offset n)"
  unfolding openSubscription_def by (intro keeps_rules)

lemma keeps_unless_stale [keeps_rules]: "keeps store_ok m \<Longrightarrow> keeps store_ok (unless_stale x inp b m)"
  unfolding unless_stale_def by (rule keeps_state) (intro keeps_rules, simp_all)

lemma ch_at_change_to [simp]: "ch_at (change_to k tier interval n at) = at"
  by (simp add: change_to_def)

lemma keeps_lifecycles:
  assumes "date_parse now = Some t"
  shows "keeps store_ok (settle_past_due inp active now)"
    and "keeps store_ok (settle_cancel_at_period_end inp active tier0 interval0 now)"
    and "keeps store_ok (settle_expire inp active now)"
    and "keeps store_ok (settle_resume inp active tier interval coverage now)"
    and "keeps store_ok (settle_uncancel inp active now)"
    and "keeps store_ok (settle_renew inp active interval0 tier interval coverage now)"
proof -
  note calls = keeps_store_calls [OF assms]
  show "keeps store_ok (settle_past_due inp active now)"
    unfolding settle_past_due_def by (intro keeps_rules calls)
  show "keeps store_ok (settle_cancel_at_period_end inp active tier0 interval0 now)"
    unfolding settle_cancel_at_period_end_def by (intro keeps_rules calls ch_at_change_to)
  show "keeps store_ok (settle_expire inp active now)"
    unfolding settle_expire_def by (intro keeps_rules calls)
  show "keeps store_ok (settle_resume inp active tier interval coverage now)"
    unfolding settle_resume_def Let_def by (intro keeps_rules calls)
  show "keeps store_ok (settle_uncancel inp active now)"
    unfolding settle_uncancel_def by (intro keeps_rules calls)
  show "keeps store_ok (settle_renew inp active interval0 tier interval coverage now)"
    unfolding settle_renew_def Let_def by (intro keeps_rules calls)
qed

lemma keeps_activation:
  assumes "date_parse now = Some t"
  shows "keeps billing_inv (settle_activation ctx inp requested active tier0 interval0 tier interval coverage anchorAt now)"
proof -
  note calls = keeps_store_calls [OF assms]
  have pay: "keeps store_ok (pay_replacement startsAt x tier interval coverage now)" for startsAt x
    unfolding pay_replacement_def by (intro keeps_rules calls)
  have replace: "keeps store_ok (replace_subscription x interval0 k tier interval coverage comparison anchorAt now)" for x k comparison
    unfolding replace_subscription_def Let_def by (intro keeps_rules calls ch_at_change_to)
  have upgrade: "keeps billing_inv (upgrade_subscription ctx x k tier interval coverage anchorAt now)" for x k
    unfolding upgrade_subscription_def by (intro keeps_rules calls)
  show ?thesis
    unfolding settle_activation_def Let_def by (intro keeps_rules calls pay replace upgrade ch_at_change_to)
qed

lemma keeps_settlePaymentEvent:
  assumes "date_parse now = Some t"
  shows "keeps billing_inv (settlePaymentEvent ctx inp tier coverage now)"
proof -
  note parts = keeps_on_store [OF keeps_lifecycles(1) [OF assms]] keeps_on_store [OF keeps_lifecycles(2) [OF assms]]
    keeps_on_store [OF keeps_lifecycles(3) [OF assms]] keeps_on_store [OF keeps_lifecycles(4) [OF assms]]
    keeps_on_store [OF keeps_lifecycles(5) [OF assms]] keeps_on_store [OF keeps_lifecycles(6) [OF assms]]
    keeps_activation [OF assms]
  show ?thesis
    unfolding settlePaymentEvent_def Let_def
    by (rule keeps_state, rule keeps_guarded) (simp add: parts split: payment_lifecycle.split prod.split)
qed

lemma keeps_withPaymentEvent:
  assumes "keeps billing_inv operation"
  shows "keeps billing_inv (withPaymentEvent inp operation)"
proof (rule keepsI)
  fix st x st' assume st: "billing_inv st" and run: "withPaymentEvent inp operation st = (x, st')"
  have event: "billing_inv (l, put_payment_event key e s) \<longleftrightarrow> billing_inv (l, s)" for l key e s
    by (simp add: billing_inv_def put_payment_event_def store_ok_def)
  have "keeps billing_inv (settle_payment_event inp operation)"
    unfolding settle_payment_event_def
  proof (rule keeps_guarded, rule keepsI)
    fix u st x st'
    assume st: "billing_inv st" and run: "(let key = payment_event_key inp
       in case map_of (ss_paymentEvents (snd st)) key of
            Some existing \<Rightarrow>
              guarded (assertPaymentEventFacts (pe_payloadHash existing) (pi_payloadHash inp)
                         (pi_compatiblePayloadHashes inp)) (\<lambda>_ st.
                (Inr (map_option (\<lambda>x. withSettlementStatus x Duplicate) (pe_result existing)), st)) st
          | None \<Rightarrow>
              op_bind operation (\<lambda>result st1.
                let recorded = settled_result result
                in (Inr recorded,
                    (fst st1, put_payment_event key
                       \<lparr>pe_payloadHash = pi_payloadHash inp, pe_result = recorded\<rparr> (snd st1)))) st) = (x, st')"
    have op: "billing_inv (snd (operation st))" using assms st unfolding keeps_def by blast
    show "billing_inv st'"
    proof (cases "map_of (ss_paymentEvents (snd st)) (payment_event_key inp)")
      case None
      with run op show ?thesis
        by (auto simp: op_bind_def event Let_def split: prod.splits sum.splits)
    next
      case (Some existing)
      with run st show ?thesis by (auto simp: guarded_def Let_def split: sum.splits)
    qed
  qed
  then have "billing_inv (snd (settle_payment_event inp operation st))" using st unfolding keeps_def by blast
  then show "billing_inv st'"
    using run by (auto simp: withPaymentEvent_def split: prod.splits sum.splits js_error.splits)
qed

text \<open>
  C6. However a settlement ends, with a result, a deferral or an error, the state it leaves is sound:
  the credit ledger conserves the credits of every lot and the subscription store keeps its
  invariant, so that a half-done settlement never leaves a subscription whose status, dates, plan
  changes or paid cycles contradict each other.
\<close>

theorem settlement_keeps_invariants:
  assumes "credit_inv (fst st)" and "store_ok (snd st)" and "time_clip clock = Some clock"
    and "settlePayment digest config catalog clock ctx inp st = (outcome, st')"
  shows "credit_inv (fst st') \<and> store_ok (snd st')"
proof -
  have now: "date_parse (to_iso_string clock) = Some clock" by (rule date_parse_to_iso [OF assms(3)])
  have "keeps billing_inv (settlePayment digest config catalog clock ctx inp)"
    unfolding settlePayment_def Let_def
    by (intro keeps_guarded keeps_withPaymentEvent keeps_op_bind keeps_return keeps_settlePaymentEvent [OF now])
  from keepsD [OF this _ assms(4)] assms(1,2) show ?thesis by (simp add: billing_inv_def)
qed

end
