(* ===== verification/CreditBillingProps.thy ===== *)
theory CreditBillingProps
  imports CreditBillingCorrect
begin

text \<open>
  The properties of the credit billing service: an event settles once even when an activation is
  delivered again as a renewal, a late cancellation ends nothing, an upgrade expires exactly the
  credits of the old plan, a renewal is taken only for the terms its cycle froze, the trial is granted
  once, the view of the balance names the lot that expires next; and the in-memory store keeps a
  scheduled downgrade through an upgrade.
\<close>

section \<open>Samples\<close>

definition sample_digest :: "settlement_facts \<Rightarrow> string" where
  "sample_digest facts =
     ''0123456789abcdef0123456789abcdef0123456789abcdef0123456789abcde'' @
     (if hf_lifecycle facts = Paid_period then ''f'' else ''0'')"

definition sample_ctx :: p1_context where
  "sample_ctx = \<lparr>cx_workspaceId = ''w'', cx_userId = ''u'', cx_correlationId = ''c''\<rparr>"

definition sample_payment :: "payment_lifecycle \<Rightarrow> string \<Rightarrow> string \<Rightarrow> settlement_input" where
  "sample_payment lifecycle event startsAt =
     \<lparr> pay_lifecycle = lifecycle, pay_paymentEventId = event, pay_paymentProductId = ''price'',
       pay_paymentProvider = None, pay_interval = Some I_monthly, pay_periodStartsAt = Some startsAt,
       pay_subscriptionId = Some ''sub'', pay_providerOccurredAt = None, pay_settlementAuthority = None \<rparr>"

definition jan31 :: string where "jan31 = ''2026-01-31T08:00:00.000Z''"

definition sample_clock :: int where "sample_clock = 1770710400000"

definition no_state :: billing_state where
  "no_state = (empty_credit_ledger, empty_subscription_store)"

definition sample_settle :: "payment_lifecycle \<Rightarrow> string \<Rightarrow> string \<Rightarrow> (billing_state, credit_subscription option) op" where
  "sample_settle lifecycle event startsAt =
     settlePayment sample_digest None DEFAULT_CREDIT_PLAN_CATALOG sample_clock sample_ctx
       (sample_payment lifecycle event startsAt)"

definition opened_state :: billing_state where
  "opened_state = snd (sample_settle Activate ''evt'' jan31 no_state)"

lemma sample_activation:
  "\<exists>x. sample_settle Activate ''evt'' jan31 no_state = (Inr (Some x), opened_state) \<and>
     su_settlementStatus x = Some Applied \<and> su_tier x = paid_tier.Growth"
proof -
  have "case fst (sample_settle Activate ''evt'' jan31 no_state) of
      Inr (Some x) \<Rightarrow> su_settlementStatus x = Some Applied \<and> su_tier x = paid_tier.Growth | _ \<Rightarrow> False"
    by code_simp
  then show ?thesis
    unfolding opened_state_def by (auto split: sum.splits option.splits simp: prod_eq_iff)
qed

section \<open>Exactly once\<close>

lemma withSettlementStatus_twice [simp]:
  "withSettlementStatus (withSettlementStatus x a) b = withSettlementStatus x b"
  by (simp add: withSettlementStatus_def)

lemma assertPaymentEventInput_same:
  assumes "assertPaymentEventInput ev = Inr ()" "date_parse (pi_createdAt ev') \<noteq> None"
    and "pi_workspaceId ev' = pi_workspaceId ev" "pi_paymentEventId ev' = pi_paymentEventId ev"
    and "pi_payloadHash ev' = pi_payloadHash ev" "pi_compatiblePayloadHashes ev' = pi_compatiblePayloadHashes ev"
  shows "assertPaymentEventInput ev' = Inr ()"
  using assms by (auto simp: assertPaymentEventInput_def r_bind_Inr_iff date_Inr_iff split: if_splits)

lemma withPaymentEvent_replay:
  assumes "withPaymentEvent ev operation st = (Inr (Some r), st1)"
    and "map_of (ss_paymentEvents (snd st2)) (payment_event_key ev) = map_of (ss_paymentEvents (snd st1)) (payment_event_key ev)"
    and "date_parse (pi_createdAt ev') \<noteq> None"
    and same: "pi_workspaceId ev' = pi_workspaceId ev" "pi_paymentEventId ev' = pi_paymentEventId ev"
      "pi_payloadHash ev' = pi_payloadHash ev" "pi_compatiblePayloadHashes ev' = pi_compatiblePayloadHashes ev"
  shows "withPaymentEvent ev' operation' st2 = (Inr (Some (withSettlementStatus r Duplicate)), st2)"
proof -
  have run: "settle_payment_event ev operation st = (Inr (Some r), st1)"
    using assms(1) by (auto simp: withPaymentEvent_def split: prod.splits sum.splits js_error.splits)
  have ok: "assertPaymentEventInput ev = Inr ()"
    using run by (auto simp: settle_payment_event_def guarded_Inr)
  have ok': "assertPaymentEventInput ev' = Inr ()"
    by (rule assertPaymentEventInput_same [OF ok assms(3) same])
  have key: "payment_event_key ev' = payment_event_key ev" by (simp add: payment_event_key_def same)
  have "\<exists>e x. map_of (ss_paymentEvents (snd st1)) (payment_event_key ev) = Some e \<and>
      assertPaymentEventFacts (pe_payloadHash e) (pi_payloadHash ev) (pi_compatiblePayloadHashes ev) = Inr () \<and>
      pe_result e = Some x \<and> withSettlementStatus x Duplicate = withSettlementStatus r Duplicate"
  proof (cases "map_of (ss_paymentEvents (snd st)) (payment_event_key ev)")
    case None
    with run ok show ?thesis
      by (auto simp: settle_payment_event_def op_bind_Inr put_payment_event_def assertPaymentEventFacts_def Let_def)
  next
    case (Some e)
    with run ok show ?thesis
      by (auto simp: settle_payment_event_def guarded_Inr)
  qed
  then show ?thesis
    using ok' assms(2) by (auto simp: withPaymentEvent_def settle_payment_event_def key same)
qed

lemma settlement_facts_of_period:
  assumes "paidPeriodLifecycle lifecycle = paidPeriodLifecycle (pay_lifecycle inp)"
  shows "paymentSettlementHash digest ws (inp\<lparr>pay_lifecycle := lifecycle\<rparr>) True True = paymentSettlementHash digest ws inp True True"
    and "legacyWaffoPaymentSettlementHashes digest ws (inp\<lparr>pay_lifecycle := lifecycle\<rparr>) = legacyWaffoPaymentSettlementHashes digest ws inp"
proof -
  show "paymentSettlementHash digest ws (inp\<lparr>pay_lifecycle := lifecycle\<rparr>) True True = paymentSettlementHash digest ws inp True True"
    using assms by (simp add: paymentSettlementHash_def)
  have "lifecycle \<in> {Activate, Renew} \<longleftrightarrow> pay_lifecycle inp \<in> {Activate, Renew}"
    using assms by (auto simp: paidPeriodLifecycle_def split: if_splits)
  then show "legacyWaffoPaymentSettlementHashes digest ws (inp\<lparr>pay_lifecycle := lifecycle\<rparr>) = legacyWaffoPaymentSettlementHashes digest ws inp"
    by (simp add: legacyWaffoPaymentSettlementHashes_def requested_id_def paymentSettlementHash_def cong: if_cong)
qed

text \<open>
  C7. A paid period settles once: after a payment was settled, delivering the same facts again, as an
  activation or as a renewal, at any later time, with any plan catalogue and in any state that still
  knows the event, writes nothing and answers with the recorded subscription marked as a duplicate.
\<close>

theorem payment_settles_once:
  assumes "settlePayment digest config catalog clock ctx inp st = (Inr (Some r), st1)"
    and "map_of (ss_paymentEvents (snd st2)) (cx_workspaceId ctx @ nul @ pay_paymentEventId inp) =
      map_of (ss_paymentEvents (snd st1)) (cx_workspaceId ctx @ nul @ pay_paymentEventId inp)"
    and "paidPeriodLifecycle lifecycle = paidPeriodLifecycle (pay_lifecycle inp)"
    and "time_clip clock' = Some clock'"
  shows "settlePayment digest config catalog' clock' ctx (inp\<lparr>pay_lifecycle := lifecycle\<rparr>) st2 =
    (Inr (Some (withSettlementStatus r Duplicate)), st2)"
proof -
  let ?inp = "inp\<lparr>pay_lifecycle := lifecycle\<rparr>"
  obtain frozen tier operation where
    texts: "assertText (pay_paymentEventId inp) ''paymentEventId'' = Inr ()"
      "assertText (pay_paymentProductId inp) ''paymentProductId'' = Inr ()"
      "assertText (orElse (pay_subscriptionId inp) []) ''subscriptionId'' = Inr ()"
    and frozen: "frozenSettlementAuthority inp = Inr frozen" and tier: "settlement_tier config inp frozen = Inr tier"
    and run: "withPaymentEvent (settlement_event digest ctx inp (to_iso_string clock)) operation st = (Inr (Some r), st1)"
    using assms(1) by (auto simp: settlePayment_def guarded_Inr Let_def)
  have same: "frozenSettlementAuthority ?inp = Inr frozen" "settlement_tier config ?inp frozen = Inr tier"
    using frozen tier by (simp_all add: frozenSettlementAuthority_def settlement_tier_def cong: option.case_cong)
  have key: "payment_event_key (settlement_event digest ctx inp (to_iso_string clock)) =
      cx_workspaceId ctx @ nul @ pay_paymentEventId inp"
    by (simp add: payment_event_key_def settlement_event_def)
  have now: "date_parse (to_iso_string clock') = Some clock'" by (rule date_parse_to_iso [OF assms(4)])
  have "withPaymentEvent (settlement_event digest ctx ?inp (to_iso_string clock')) operation' st2 =
      (Inr (Some (withSettlementStatus r Duplicate)), st2)" for operation'
    by (rule withPaymentEvent_replay [OF run assms(2) [folded key]])
      (simp_all add: now settlement_event_def settlement_facts_of_period [OF assms(3)])
  then show ?thesis using texts same by (simp add: settlePayment_def Let_def)
qed

theorem payment_settles_once_witness:
  "\<exists>r. sample_settle Activate ''evt'' jan31 no_state = (Inr (Some r), opened_state) \<and>
     settlePayment sample_digest None DEFAULT_CREDIT_PLAN_CATALOG (sample_clock + 1) sample_ctx
       ((sample_payment Activate ''evt'' jan31)\<lparr>pay_lifecycle := Renew\<rparr>) opened_state =
     (Inr (Some (withSettlementStatus r Duplicate)), opened_state)"
proof -
  obtain r where r: "sample_settle Activate ''evt'' jan31 no_state = (Inr (Some r), opened_state)"
    using sample_activation by blast
  have clock: "time_clip (sample_clock + 1) = Some (sample_clock + 1)" by code_simp
  have kind: "paidPeriodLifecycle Renew = paidPeriodLifecycle (pay_lifecycle (sample_payment Activate ''evt'' jan31))"
    by code_simp
  from payment_settles_once [OF r [unfolded sample_settle_def] refl kind clock] r show ?thesis by blast
qed

section \<open>Late and early events\<close>

lemma on_store_Inr: "on_store m st = (x, st') \<longleftrightarrow> m (snd st) = (x, snd st') \<and> fst st' = fst st"
  by (auto simp: on_store_def Let_def split_def prod_eq_iff)

lemma on_ledger_Inr: "on_ledger m st = (x, st') \<longleftrightarrow> m (fst st) = (x, fst st') \<and> snd st' = snd st"
  by (auto simp: on_ledger_def Let_def split_def prod_eq_iff)

text \<open>A result of a fresh event comes from the operation, which the store records and marks.\<close>

lemma settlePayment_fresh:
  assumes "settlePayment digest config catalog clock ctx inp st = (Inr (Some r), st')"
    and "map_of (ss_paymentEvents (snd st)) (cx_workspaceId ctx @ nul @ pay_paymentEventId inp) = None"
  obtains tier coverage x st1 e where
    "settlePaymentEvent ctx inp tier coverage (to_iso_string clock) st = (Inr x, st1)"
    "Some r = settled_result (Some x)"
    "st' = (fst st1, put_payment_event (cx_workspaceId ctx @ nul @ pay_paymentEventId inp) e (snd st1))"
    "settlement_tier config inp None = Inr tier \<or> pay_settlementAuthority inp \<noteq> None"
proof -
  let ?ev = "settlement_event digest ctx inp (to_iso_string clock)"
  obtain frozen tier where frozen: "frozenSettlementAuthority inp = Inr frozen" "settlement_tier config inp frozen = Inr tier"
    and run: "withPaymentEvent ?ev (guarded (settlement_coverage catalog inp frozen tier) (\<lambda>coverage.
             op_bind (settlePaymentEvent ctx inp tier coverage (to_iso_string clock)) (\<lambda>x st. (Inr (Some x), st)))) st =
        (Inr (Some r), st')"
    using assms(1) by (auto simp: settlePayment_def guarded_Inr Let_def)
  have key: "payment_event_key ?ev = cx_workspaceId ctx @ nul @ pay_paymentEventId inp"
    by (simp add: payment_event_key_def settlement_event_def)
  from run have "settle_payment_event ?ev (guarded (settlement_coverage catalog inp frozen tier) (\<lambda>coverage.
             op_bind (settlePaymentEvent ctx inp tier coverage (to_iso_string clock)) (\<lambda>x st. (Inr (Some x), st)))) st =
        (Inr (Some r), st')"
    by (auto simp: withPaymentEvent_def split: prod.splits sum.splits js_error.splits)
  then obtain coverage x st1 where
    "settlePaymentEvent ctx inp tier coverage (to_iso_string clock) st = (Inr x, st1)"
    "Some r = settled_result (Some x)"
    "st' = (fst st1, put_payment_event (payment_event_key ?ev) \<lparr>pe_payloadHash = pi_payloadHash ?ev, pe_result = Some r\<rparr> (snd st1))"
    using assms(2) by (auto simp: settle_payment_event_def guarded_Inr op_bind_Inr key Let_def)
  moreover have "settlement_tier config inp None = Inr tier \<or> pay_settlementAuthority inp \<noteq> None"
    using frozen by (cases "pay_settlementAuthority inp") (auto simp: frozenSettlementAuthority_def)
  ultimately show thesis using that unfolding key by blast
qed

definition stale_period :: "settlement_input \<Rightarrow> string \<Rightarrow> string \<Rightarrow> bool" where
  "stale_period inp starts latest \<longleftrightarrow>
     (if pay_lifecycle inp = Expire \<or> pay_lifecycle inp = Past_due_payment \<and> pay_providerOccurredAt inp = None
      then \<not> str_less latest starts else str_less starts latest)"

text \<open>
  C39. A late cancellation ends nothing: a failed payment, a cancellation or an expiry that reports a
  period older than the newest paid one (for an expiry, and for a failed payment without a provider
  time, also that period itself) leaves the ledger, the subscriptions and the paid periods as they
  were, and is answered as ignored.
\<close>

theorem late_cancellation_is_ignored:
  assumes "settlePayment digest config catalog clock ctx inp st = (Inr (Some r), st')"
    and "map_of (ss_paymentEvents (snd st)) (cx_workspaceId ctx @ nul @ pay_paymentEventId inp) = None"
    and "pay_lifecycle inp \<in> {Past_due_payment, Cancel_at_period_end, Expire}"
    and "subscriptionForPayment (listForWorkspace (snd st) (cx_workspaceId ctx)) inp = Some x"
    and "pay_periodStartsAt inp = Some starts" and "date_parse starts = Some t"
    and "latestPaidPeriodStartsAt (snd st) (su_id x) = Some latest" and "latest \<noteq> []"
    and "stale_period inp (to_iso_string t) latest"
  shows "r = withSettlementStatus x Ignored_stale \<and> fst st' = fst st \<and>
    ss_subscriptions (snd st') = ss_subscriptions (snd st) \<and> ss_paidPeriods (snd st') = ss_paidPeriods (snd st)"
proof -
  obtain tier coverage y st1 e where run: "settlePaymentEvent ctx inp tier coverage (to_iso_string clock) st = (Inr y, st1)"
    and r: "Some r = settled_result (Some y)"
    and st': "st' = (fst st1, put_payment_event (cx_workspaceId ctx @ nul @ pay_paymentEventId inp) e (snd st1))"
    using settlePayment_fresh [OF assms(1,2)] by metis
  have active: "active_subscription inp (listForWorkspace (snd st) (cx_workspaceId ctx)) = Some x"
    using assms(4) by (simp add: active_subscription_def)
  have nonempty: "starts \<noteq> []"
  proof
    assume "starts = []"
    then have "date_parse [] = Some t" using assms(6) by simp
    moreover have "date_parse [] = None" by code_simp
    ultimately show False by simp
  qed
  have stale: "staleTerminalPeriod (snd st) (su_id x) inp
      (pay_lifecycle inp = Cancel_at_period_end \<or> pay_lifecycle inp = Past_due_payment \<and> pay_providerOccurredAt inp \<noteq> None) = Inr True"
    using assms(3,5-9) nonempty by (auto simp: staleTerminalPeriod_def truthy_def stale_period_def)
  have skip: "unless_stale x inp b m (snd st) = (Inr (ignoredStale x), snd st)"
    if "staleTerminalPeriod (snd st) (su_id x) inp b = Inr True" for b and m :: "(subscription_store, credit_subscription) op"
    using that by (simp add: unless_stale_def)
  have "y = ignoredStale x \<and> fst st1 = fst st \<and> snd st1 = snd st"
    using run assms(3) stale skip
    by (auto simp: settlePaymentEvent_def active guarded_Inr on_store_Inr settle_past_due_def
        settle_cancel_at_period_end_def settle_expire_def assertExistingSubscription_def Let_def split: prod.splits)
  with r st' show ?thesis
    by (auto simp: settled_result_def ignoredStale_def withSettlementStatus_def put_payment_event_def)
qed

lemma coverage_frame:
  "j \<noteq> k \<Longrightarrow> map_of (ss_subscriptions (snd (recordPaidCoverage k n at s))) j = map_of (ss_subscriptions s) j"
  by (auto simp: recordPaidCoverage_def stamp_def guarded_def put_subscription_def Let_def split: sum.splits)

lemma period_frame:
  assumes "recordPaidPeriod inp s = (Inr r, s')" and "j \<noteq> pp_subscriptionId inp"
  shows "map_of (ss_subscriptions s') j = map_of (ss_subscriptions s) j"
  using assms(1)
proof (cases rule: recordPaidPeriod_cases)
  case (3 x start at p n s1)
  have "map_of (ss_subscriptions s1) j = map_of (ss_subscriptions s) j" using 3 by (simp add: put_period_def)
  moreover have "map_of (ss_subscriptions s') j = map_of (ss_subscriptions s1) j"
    using 3(11) coverage_frame [OF assms(2), of "JInt n" at s1] by (auto split: if_splits)
  ultimately show ?thesis by simp
qed auto

text \<open>
  C38. A renewal is taken only for the terms its cycle froze: it succeeds only for the workspace's own
  named subscription, for a period that has started, and with the tier and the interval this
  subscription has in the cycle the period falls into; the ledger and every other subscription are
  untouched, and the subscription keeps its identity and never loses a paid cycle.
\<close>

theorem renewal_matches_frozen_terms:
  assumes "settlePaymentEvent ctx inp tier coverage now st = (Inr r, st')" and "pay_lifecycle inp = Renew"
  shows "fst st' = fst st \<and>
    (\<exists>x cycle. subscriptionForPayment (listForWorkspace (snd st) (cx_workspaceId ctx)) inp = Some x \<and>
      \<not> in_future (orElse (pay_periodStartsAt inp) []) now \<and>
      creditSubscriptionCycleIndexAt (su_anchorAt x) (orElse (pay_periodStartsAt inp) []) = Inr cycle \<and>
      tier = creditSubscriptionTierForCycle x cycle \<and>
      creditInterval (pay_interval inp) = creditSubscriptionIntervalForCycle x cycle \<and>
      (\<exists>y. map_of (ss_subscriptions (snd st)) (su_id x) = Some y \<and>
           (\<exists>y'. map_of (ss_subscriptions (snd st')) (su_id x) = Some y' \<and> evolves y y')) \<and>
      (\<forall>k. k \<noteq> su_id x \<longrightarrow>
         map_of (ss_subscriptions (snd st')) k = map_of (ss_subscriptions (snd st)) k))"
proof -
  let ?subs = "listForWorkspace (snd st) (cx_workspaceId ctx)" and ?starts = "orElse (pay_periodStartsAt inp) []"
  have active: "active_subscription inp ?subs = subscriptionForPayment ?subs inp"
    using assms(2) by (auto simp: active_subscription_def split: option.splits)
  obtain interval0 where run: "on_store (settle_renew inp (subscriptionForPayment ?subs inp) interval0 tier
      (creditInterval (pay_interval inp)) coverage now) st = (Inr r, st')"
    using assms by (auto simp: settlePaymentEvent_def active guarded_Inr Let_def)
  obtain x cycle where x: "subscriptionForPayment ?subs inp = Some x" "\<not> in_future ?starts now"
    "creditSubscriptionCycleIndexAt (su_anchorAt x) ?starts = Inr cycle"
    "tier = creditSubscriptionTierForCycle x cycle"
    "creditInterval (pay_interval inp) = creditSubscriptionIntervalForCycle x cycle"
    and paid: "recordPaidPeriod (paid_period (su_id x) ?starts (creditInterval (pay_interval inp)) coverage now) (snd st) = (Inr r, snd st')"
    and ledger: "fst st' = fst st"
    using run
    by (auto simp: on_store_Inr settle_renew_def guarded_Inr matches_frozen_terms_def r_bind_Inr_iff Let_def
        split: option.splits if_splits)
  obtain y where y: "map_of (ss_subscriptions (snd st)) (su_id x) = Some y"
    using paid by (cases rule: recordPaidPeriod_cases) (auto simp: paid_period_def)
  have "\<exists>y'. map_of (ss_subscriptions (snd st')) (su_id x) = Some y' \<and> evolves y y'"
    by (rule sub_call_evolves [OF call_period [OF paid] y])
  moreover have "map_of (ss_subscriptions (snd st')) k = map_of (ss_subscriptions (snd st)) k" if "k \<noteq> su_id x" for k
    using that by (intro period_frame [OF paid]) (simp add: paid_period_def)
  ultimately show ?thesis using x ledger y by blast
qed

definition expired_state :: billing_state where
  "expired_state = snd (sample_settle Expire ''evt2'' jan31 opened_state)"

theorem late_cancellation_is_ignored_witness:
  "\<exists>r. sample_settle Expire ''evt2'' jan31 opened_state = (Inr (Some r), expired_state) \<and>
     su_settlementStatus r = Some Ignored_stale \<and>
     ss_subscriptions (snd expired_state) = ss_subscriptions (snd opened_state)"
proof -
  let ?inp = "sample_payment Expire ''evt2'' jan31"
  have "case fst (sample_settle Expire ''evt2'' jan31 opened_state) of Inr (Some x) \<Rightarrow> True | _ \<Rightarrow> False"
    by code_simp
  then obtain r where run: "sample_settle Expire ''evt2'' jan31 opened_state = (Inr (Some r), expired_state)"
    unfolding expired_state_def by (auto split: sum.splits option.splits simp: prod_eq_iff)
  have "case subscriptionForPayment (listForWorkspace (snd opened_state) (cx_workspaceId sample_ctx)) ?inp of
      Some x \<Rightarrow> latestPaidPeriodStartsAt (snd opened_state) (su_id x) = Some jan31 | None \<Rightarrow> False"
    by code_simp
  then obtain x where x: "subscriptionForPayment (listForWorkspace (snd opened_state) (cx_workspaceId sample_ctx)) ?inp = Some x"
    "latestPaidPeriodStartsAt (snd opened_state) (su_id x) = Some jan31"
    by (auto split: option.splits)
  have facts: "map_of (ss_paymentEvents (snd opened_state)) (cx_workspaceId sample_ctx @ nul @ pay_paymentEventId ?inp) = None"
    "pay_lifecycle ?inp \<in> {Past_due_payment, Cancel_at_period_end, Expire}" "pay_periodStartsAt ?inp = Some jan31"
    "date_parse jan31 = Some 1769846400000" "jan31 \<noteq> []" "stale_period ?inp (to_iso_string 1769846400000) jan31"
    by code_simp+
  from late_cancellation_is_ignored [OF run [unfolded sample_settle_def] facts(1,2) x(1) facts(3,4) x(2) facts(5,6)] run
  show ?thesis by (auto simp: withSettlementStatus_def)
qed

definition growth_coverage :: "js_number coverage" where
  "growth_coverage = \<lparr>cov_creditsPerCycle = JInt 1300, cov_interval = Monthly, cov_tier = paid_tier.Growth\<rparr>"

definition feb28 :: string where "feb28 = ''2026-02-28T08:00:00.000Z''"
definition mar1 :: string where "mar1 = ''2026-03-01T00:00:00.000Z''"

theorem renewal_matches_frozen_terms_witness:
  "\<exists>r st' x cycle. settlePaymentEvent sample_ctx (sample_payment Renew ''evt3'' feb28) paid_tier.Growth growth_coverage mar1
     opened_state = (Inr r, st') \<and> creditSubscriptionCycleIndexAt (su_anchorAt x) feb28 = Inr cycle \<and>
     creditSubscriptionTierForCycle x cycle = paid_tier.Growth"
proof -
  let ?inp = "sample_payment Renew ''evt3'' feb28"
  have "case fst (settlePaymentEvent sample_ctx ?inp paid_tier.Growth growth_coverage mar1 opened_state) of
      Inr x \<Rightarrow> True | _ \<Rightarrow> False" by code_simp
  then obtain r where run: "settlePaymentEvent sample_ctx ?inp paid_tier.Growth growth_coverage mar1 opened_state =
      (Inr r, snd (settlePaymentEvent sample_ctx ?inp paid_tier.Growth growth_coverage mar1 opened_state))"
    by (auto split: sum.splits simp: prod_eq_iff)
  have renew: "pay_lifecycle ?inp = Renew" "orElse (pay_periodStartsAt ?inp) [] = feb28"
    by (simp_all add: sample_payment_def orElse_def)
  from renewal_matches_frozen_terms [OF run renew(1)] run show ?thesis unfolding renew(2) by metis
qed

section \<open>Upgrades\<close>

lemma expireSubscriptionLots_lots:
  "cs_lots (snd (expireSubscriptionLots inp s)) =
     map (\<lambda>l. if cl_workspaceId l = xs_workspaceId inp \<and> cl_transactionType l = SUBSCRIPTION_RENEWAL \<and>
                cl_sourceRef l = Some (xs_subscriptionId inp) \<and> cl_remainingCredits l > 0
              then zero_lot l else l) (cs_lots s)"
proof -
  let ?is = "indices_where (\<lambda>l. cl_workspaceId l = xs_workspaceId inp \<and> cl_transactionType l = SUBSCRIPTION_RENEWAL \<and>
    cl_sourceRef l = Some (xs_subscriptionId inp) \<and> cl_remainingCredits l > 0) (cs_lots s)"
  have "distinct ?is" "\<forall>i \<in> set ?is. i < length (cs_lots s)" by (auto simp: set_indices_where)
  note closed = expire_refs_closed [OF this]
  show ?thesis
    unfolding expireSubscriptionLots_def Let_def split_def snd_conv
  proof (rule nth_equalityI)
    let ?mk = "expire_credit_tx ''credit-expire-subscription:'' ''expire-subscription:''
                 (xs_workspaceId inp) (xs_actorId inp) (xs_correlationId inp) (xs_createdAt inp)"
    show "length (cs_lots (snd (expire_refs ?mk ?is s))) = length (map (\<lambda>l. if cl_workspaceId l = xs_workspaceId inp \<and> cl_transactionType l = SUBSCRIPTION_RENEWAL \<and>
                cl_sourceRef l = Some (xs_subscriptionId inp) \<and> cl_remainingCredits l > 0
              then zero_lot l else l) (cs_lots s))" by (simp add: closed)
    fix i assume "i < length (cs_lots (snd (expire_refs ?mk ?is s)))"
    then have i: "i < length (cs_lots s)" using closed by simp
    have "cs_lots (snd (expire_refs ?mk ?is s)) ! i = (if i \<in> set ?is then zero_lot (cs_lots s ! i) else cs_lots s ! i)"
      using closed i by blast
    also have "\<dots> = map (\<lambda>l. if cl_workspaceId l = xs_workspaceId inp \<and> cl_transactionType l = SUBSCRIPTION_RENEWAL \<and>
                cl_sourceRef l = Some (xs_subscriptionId inp) \<and> cl_remainingCredits l > 0
              then zero_lot l else l) (cs_lots s) ! i"
      unfolding set_indices_where nth_map [OF i] using i by simp
    finally show "cs_lots (snd (expire_refs ?mk ?is s)) ! i = map (\<lambda>l. if cl_workspaceId l = xs_workspaceId inp \<and> cl_transactionType l = SUBSCRIPTION_RENEWAL \<and>
                cl_sourceRef l = Some (xs_subscriptionId inp) \<and> cl_remainingCredits l > 0
              then zero_lot l else l) (cs_lots s) ! i" .
  qed
qed

lemma cancel_now_result:
  assumes "cancel_now k x at s = (Inr r, s')"
  shows "map_of (ss_subscriptions s') k = Some r \<and> su_status r = Cancelled"
  using assms by (cases "iso at") (simp_all add: cancel_now_def stamp_def Let_def, clarsimp)

lemma cancel_result:
  assumes "cancel k at s = (Inr r, s')"
  shows "map_of (ss_subscriptions s') k = Some r \<and> su_status r = Cancelled"
proof -
  obtain x where x: "map_of (ss_subscriptions s) k = Some x"
    and run: "(if su_status x \<noteq> Cancelled then cancel_now k x at s else (Inr x, s)) = (Inr r, s')"
    using assms by (simp only: cancel_def guarded_Inr require_Inr) blast
  show ?thesis
  proof (cases "su_status x = Cancelled")
    case True
    with run x show ?thesis by simp
  next
    case False
    with run cancel_now_result show ?thesis by simp
  qed
qed

lemma upgrade_subscription_runs:
  assumes "upgrade_subscription ctx x k tier interval coverage anchorAt now st = (Inr r, st')"
  shows "\<exists>s2 c. fst st' = snd (expireSubscriptionLots
       \<lparr> xs_workspaceId = cx_workspaceId ctx, xs_subscriptionId = su_grantLineageId x,
         xs_actorId = cx_userId ctx, xs_correlationId = cx_correlationId ctx, xs_createdAt = now \<rparr> (fst st)) \<and>
    cancel (su_id x) now (snd st) = (Inr c, s2) \<and>
    openSubscription ctx k tier interval coverage anchorAt
      (Some (if su_id x \<noteq> k then 0 else su_grantCycleOffset x + su_paidThroughCycle x)) now s2 = (Inr r, snd st')"
  using assms unfolding upgrade_subscription_def op_bind_Inr on_ledger_Inr on_store_Inr
  by (metis snd_conv)

lemma upsert_result:
  assumes "upsert inp s = (Inr r, s')"
  shows "s' = put_subscription (si_id inp) r s \<and> su_id r = si_id inp \<and> su_tier r = si_tier inp \<and>
    su_interval r = si_interval inp \<and> su_status r = orElse (si_status inp) Active \<and>
    su_paidThroughCycle r = int_of (si_paidThroughCycle inp)"
proof -
  have built: "built_subscription inp (map_of (ss_subscriptions s) (si_id inp)) = Inr r"
    and s': "s' = put_subscription (si_id inp) r s"
    using assms by (auto simp: upsert_def guarded_Inr Let_def split: if_splits)
  have "su_id r = si_id inp \<and> su_tier r = si_tier inp \<and> su_interval r = si_interval inp \<and>
      su_status r = orElse (si_status inp) Active \<and> su_paidThroughCycle r = int_of (si_paidThroughCycle inp)"
    using built unfolding built_subscription_def r_bind_Inr_iff Let_def by (elim exE conjE) (simp only: sum.inject, clarsimp)
  with s' show ?thesis by simp
qed

lemma openSubscription_result:
  assumes "openSubscription ctx k tier interval coverage anchorAt offset now s = (Inr r, s')"
  shows "(\<exists>y. map_of (ss_subscriptions s') k = Some y \<and> su_tier y = tier \<and> su_interval y = interval \<and>
      su_status y = Active \<and> paidCycleCoverage interval \<le> su_paidThroughCycle y) \<and>
    (\<forall>j. j \<noteq> k \<longrightarrow> map_of (ss_subscriptions s') j = map_of (ss_subscriptions s) j)"
proof -
  obtain s1 y where up: "upsert (opening_input ctx k tier interval anchorAt offset now) s = (Inr r, s1)"
    and paid: "recordInitialPaidPeriod (paid_period (su_id r) anchorAt interval coverage now) s1 = (Inr y, s')"
    using assms by (auto simp: openSubscription_def op_bind_Inr)
  have r: "s1 = put_subscription k r s" "su_id r = k" "su_tier r = tier" "su_interval r = interval" "su_status r = Active"
    "su_paidThroughCycle r = paidCycleCoverage interval"
    using upsert_result [OF up] by (simp_all add: opening_input_def orElse_def)
  obtain x s2 n where x: "map_of (ss_subscriptions s1) k = Some x" and s2: "s2 = s1 \<or> (\<exists>key p. s2 = put_period key p s1)"
    and y: "y = x\<lparr>su_paidThroughCycle := max (su_paidThroughCycle x) n\<rparr>" and s': "s' = put_subscription k y s2"
    using paid by (rule recordInitialPaidPeriod_cases) (simp add: paid_period_def r(2), blast)
  have "x = r" using x r(1) by simp
  moreover have "ss_subscriptions s2 = ss_subscriptions s1" using s2 by auto
  ultimately show ?thesis using r y s' by simp
qed
lemma upgraded_activation:
  assumes "settle_activation ctx inp requested (Some x) current currentInterval tier interval coverage anchorAt now st =
      (Inr r, st')"
    and "\<not> (requested \<noteq> None \<and> su_grantLineageId x \<noteq> su_id x \<and> truthy (pay_periodStartsAt inp) \<noteq> None)"
    and "planRank tier > planRank current"
  shows "upgrade_subscription ctx x (requested_id inp) tier interval coverage anchorAt now st = (Inr r, st')"
proof -
  from assms(1) have act: "guarded (subscriptionIdFor inp) (\<lambda>requestedId.
      if su_id x \<noteq> requestedId \<and> planRank tier - planRank current \<le> 0
      then on_store (replace_subscription x currentInterval requestedId tier interval coverage
             (planRank tier - planRank current) anchorAt now)
      else if planRank tier - planRank current > 0 \<or> su_id x \<noteq> requestedId
      then upgrade_subscription ctx x requestedId tier interval coverage anchorAt now
      else on_store (scheduleChange (change_to (su_id x) tier interval (su_paidThroughCycle x) now))) st = (Inr r, st')"
    unfolding settle_activation_def option.case Let_def if_not_P [OF assms(2)] .
  have rank: "\<not> planRank tier - planRank current \<le> 0" "planRank tier - planRank current > 0"
    using assms(3) by simp_all
  from act obtain k where k: "subscriptionIdFor inp = Inr k"
    "upgrade_subscription ctx x k tier interval coverage anchorAt now st = (Inr r, st')"
    unfolding guarded_Inr by (simp only: rank simp_thms if_True if_False) blast
  moreover have "k = requested_id inp" using k(1) by (simp add: subscriptionIdFor_def split: if_splits)
  ultimately show ?thesis by simp
qed

text \<open>
  An activation that names a subscription which took over the lineage of another, for a billing period,
  is the payment of that replacement and no upgrade.
\<close>

definition pays_replacement :: "settlement_input \<Rightarrow> credit_subscription list \<Rightarrow> credit_subscription \<Rightarrow> bool" where
  "pays_replacement inp subscriptions x \<longleftrightarrow>
     subscriptionForPayment subscriptions inp \<noteq> None \<and> su_grantLineageId x \<noteq> su_id x \<and>
     truthy (pay_periodStartsAt inp) \<noteq> None"

text \<open>
  C8. An upgrade takes effect at once and costs exactly the old plan's credits: when an activation with
  a higher tier than the current one settles, the lots of the old subscription's grant lineage, its own
  or one it took over, are emptied and every other lot, such as a purchased package, is untouched; the
  paid subscription is active with the new tier and interval and at least the cycles it paid for, and
  the old one, if another, is cancelled. The one activation of a higher tier that is no upgrade is the
  payment of a replacement: it settles only with the tier and the interval frozen for the cycle of its
  period, and leaves the ledger as it is.
\<close>

theorem upgrade_expires_old_plan:
  assumes "settlePaymentEvent ctx inp tier coverage now st = (Inr r, st')" and "pay_lifecycle inp = Activate"
    and "active_subscription inp (listForWorkspace (snd st) (cx_workspaceId ctx)) = Some x"
    and "current_cycle_index x now = Inr i"
    and "planRank tier > planRank (creditSubscriptionTierForCycle x i)"
  shows "if pays_replacement inp (listForWorkspace (snd st) (cx_workspaceId ctx)) x
    then fst st' = fst st \<and>
      (\<exists>cycle. creditSubscriptionCycleIndexAt (su_anchorAt x) (orElse (pay_periodStartsAt inp) []) = Inr cycle \<and>
         tier = creditSubscriptionTierForCycle x cycle \<and>
         creditInterval (pay_interval inp) = creditSubscriptionIntervalForCycle x cycle)
    else cs_lots (fst st') =
      map (\<lambda>l. if cl_workspaceId l = cx_workspaceId ctx \<and> cl_transactionType l = SUBSCRIPTION_RENEWAL \<and>
                 cl_sourceRef l = Some (su_grantLineageId x) \<and> cl_remainingCredits l > 0
               then zero_lot l else l) (cs_lots (fst st)) \<and>
      (\<exists>y. map_of (ss_subscriptions (snd st')) (requested_id inp) = Some y \<and> su_tier y = tier \<and>
         su_interval y = creditInterval (pay_interval inp) \<and> su_status y = Active \<and>
         paidCycleCoverage (creditInterval (pay_interval inp)) \<le> su_paidThroughCycle y) \<and>
      (su_id x \<noteq> requested_id inp \<longrightarrow>
         (\<exists>old. map_of (ss_subscriptions (snd st')) (su_id x) = Some old \<and> su_status old = Cancelled))"
proof -
  let ?subs = "listForWorkspace (snd st) (cx_workspaceId ctx)" and ?interval = "creditInterval (pay_interval inp)"
  from assms(1) have act: "settle_activation ctx inp (subscriptionForPayment ?subs inp)
      (Some x) (creditSubscriptionTierForCycle x i) (creditSubscriptionIntervalForCycle x i) tier
      ?interval coverage (orElse (pay_periodStartsAt inp) now) now st = (Inr r, st')"
    unfolding settlePaymentEvent_def Let_def assms(2,3) current_terms_def option.case assms(4) r_bind_simps guarded_simps
      prod.case payment_lifecycle.case .
  show ?thesis
  proof (cases "pays_replacement inp ?subs x")
    case True
    then have "subscriptionForPayment ?subs inp \<noteq> None \<and> su_grantLineageId x \<noteq> su_id x \<and>
        truthy (pay_periodStartsAt inp) \<noteq> None" by (simp add: pays_replacement_def)
    with act have "on_store (pay_replacement (orElse (pay_periodStartsAt inp) []) x tier ?interval coverage now) st = (Inr r, st')"
      unfolding settle_activation_def option.case by (simp only: if_True simp_thms)
    then have "fst st' = fst st \<and>
      (\<exists>cycle. creditSubscriptionCycleIndexAt (su_anchorAt x) (orElse (pay_periodStartsAt inp) []) = Inr cycle \<and>
         tier = creditSubscriptionTierForCycle x cycle \<and> ?interval = creditSubscriptionIntervalForCycle x cycle)"
      by (auto simp: on_store_Inr pay_replacement_def guarded_Inr matches_frozen_terms_def r_bind_Inr_iff Let_def
          split: if_splits)
    with True show ?thesis by simp
  next
    case False
    then have upgrade: "\<not> (subscriptionForPayment ?subs inp \<noteq> None \<and> su_grantLineageId x \<noteq> su_id x \<and>
        truthy (pay_periodStartsAt inp) \<noteq> None)" by (simp add: pays_replacement_def)
    from upgraded_activation [OF act upgrade assms(5)] obtain anchorAt where
      "upgrade_subscription ctx x (requested_id inp) tier ?interval coverage anchorAt now st = (Inr r, st')" by blast
    then obtain s2 c where lots: "fst st' = snd (expireSubscriptionLots
         \<lparr> xs_workspaceId = cx_workspaceId ctx, xs_subscriptionId = su_grantLineageId x,
           xs_actorId = cx_userId ctx, xs_correlationId = cx_correlationId ctx, xs_createdAt = now \<rparr> (fst st))"
      and cancel: "cancel (su_id x) now (snd st) = (Inr c, s2)"
      and opened: "openSubscription ctx (requested_id inp) tier ?interval coverage anchorAt
        (Some (if su_id x \<noteq> requested_id inp then 0 else su_grantCycleOffset x + su_paidThroughCycle x)) now s2 = (Inr r, snd st')"
      using upgrade_subscription_runs by blast
    have "cs_lots (fst st') =
        map (\<lambda>l. if cl_workspaceId l = cx_workspaceId ctx \<and> cl_transactionType l = SUBSCRIPTION_RENEWAL \<and>
                   cl_sourceRef l = Some (su_grantLineageId x) \<and> cl_remainingCredits l > 0
                 then zero_lot l else l) (cs_lots (fst st))"
      unfolding lots expireSubscriptionLots_lots by simp
    moreover note openSubscription_result [OF opened] cancel_result [OF cancel]
    ultimately show ?thesis using False by auto
  qed
qed

definition upgrade_now :: string where "upgrade_now = ''2026-02-15T08:00:00.000Z''"

definition pro_coverage :: "js_number coverage" where
  "pro_coverage = \<lparr>cov_creditsPerCycle = JInt 4000, cov_interval = Monthly, cov_tier = paid_tier.Pro\<rparr>"

theorem upgrade_expires_old_plan_witness:
  "\<exists>r st'. settlePaymentEvent sample_ctx (sample_payment Activate ''evt4'' upgrade_now) paid_tier.Pro pro_coverage
     upgrade_now opened_state = (Inr r, st') \<and>
     (\<exists>y. map_of (ss_subscriptions (snd st')) ''sub'' = Some y \<and> su_tier y = paid_tier.Pro \<and> su_status y = Active)"
proof -
  let ?inp = "sample_payment Activate ''evt4'' upgrade_now"
  let ?m = "settlePaymentEvent sample_ctx ?inp paid_tier.Pro pro_coverage upgrade_now opened_state"
  have "case fst ?m of Inr x \<Rightarrow> True | _ \<Rightarrow> False" by code_simp
  then obtain r where run: "?m = (Inr r, snd ?m)" by (auto split: sum.splits simp: prod_eq_iff)
  have "case active_subscription ?inp (listForWorkspace (snd opened_state) (cx_workspaceId sample_ctx)) of
      Some x \<Rightarrow> su_grantLineageId x = su_id x \<and> current_cycle_index x upgrade_now = Inr 0 \<and>
        planRank paid_tier.Pro > planRank (creditSubscriptionTierForCycle x 0) | None \<Rightarrow> False" by code_simp
  then obtain x where x: "active_subscription ?inp (listForWorkspace (snd opened_state) (cx_workspaceId sample_ctx)) = Some x"
    "current_cycle_index x upgrade_now = Inr 0"
    "planRank paid_tier.Pro > planRank (creditSubscriptionTierForCycle x 0)"
    and own: "su_grantLineageId x = su_id x"
    by (auto split: option.splits)
  have inp: "pay_lifecycle ?inp = Activate" "requested_id ?inp = ''sub''" by code_simp+
  have "\<not> pays_replacement ?inp (listForWorkspace (snd opened_state) (cx_workspaceId sample_ctx)) x"
    using own by (simp add: pays_replacement_def)
  from upgrade_expires_old_plan [OF run inp(1) x, unfolded if_not_P [OF this] inp(2)] obtain y where
    "map_of (ss_subscriptions (snd (snd ?m))) ''sub'' = Some y" "su_tier y = paid_tier.Pro" "su_status y = Active"
    by blast
  with run show ?thesis by blast
qed

text \<open>
  The in-memory store keeps a scheduled downgrade through an upgrade of the same subscription, which
  the Postgres store clears: the second cycle of the upgraded plan is the old downgrade's, and the
  renewal that the customer pays for the new plan is refused.
\<close>

definition downgraded_state :: billing_state where
  "downgraded_state = snd (settlePaymentEvent sample_ctx (sample_payment Activate ''evt5'' upgrade_now) paid_tier.Starter
     \<lparr>cov_creditsPerCycle = JInt 600, cov_interval = Monthly, cov_tier = paid_tier.Starter\<rparr> upgrade_now opened_state)"

definition upgraded_state :: billing_state where
  "upgraded_state = snd (settlePaymentEvent sample_ctx (sample_payment Activate ''evt4'' upgrade_now) paid_tier.Pro
     pro_coverage upgrade_now downgraded_state)"

definition mar15 :: string where "mar15 = ''2026-03-15T08:00:00.000Z''"

lemma upgrade_keeps_downgrade:
  "case (map_of (ss_subscriptions (snd upgraded_state)) ''sub'',
         fst (settlePaymentEvent sample_ctx (sample_payment Renew ''evt6'' mar15) paid_tier.Pro pro_coverage
           ''2026-03-16T00:00:00.000Z'' upgraded_state)) of
     (Some x, Inl (P1DomainError INVALID_STATE _)) \<Rightarrow>
       su_tier x = paid_tier.Pro \<and> su_status x = Active \<and> creditSubscriptionTierForCycle x 1 = paid_tier.Starter
   | _ \<Rightarrow> False"
  by code_simp

section \<open>Trial\<close>

lemma grant_existing:
  assumes "normalizeCreditGrantIdempotencyKey (gc_id inp) (gc_grantIdempotencyKey inp) = Inr key"
    and "find (grant_match inp key) (cs_lots s) = Some lot"
  shows "snd (CreditLedger.grant inp s) = s"
  using assms
  by (cases "assertGrantInput inp") (simp_all add: CreditLedger.grant_def grant_match_def [abs_def])

text \<open>
  C40. The trial is granted once per workspace: after a trial grant that was answered, asking again,
  by any user of the workspace, at any time, under any plan catalogue, such as one with another
  number of trial credits, and after any grants, charges, refunds and expiries, changes no lot and no
  transaction.
\<close>

theorem trial_granted_once:
  assumes "credit_inv s" and "pc_trialEnabled catalog"
    and "grantTrial catalog clock1 clock2 ctx s = (Inr b, s1)"
    and "credit_run allowed s1 s2" and "cx_workspaceId ctx' = cx_workspaceId ctx"
  shows "snd (grantTrial catalog' clock1' clock2' ctx' s2) = s2"
proof -
  obtain n lot where grant: "CreditLedger.grant (trial_grant ctx n (to_iso_string clock1)) s = (Inr lot, s1)"
    using assms(2,3)
    by (auto simp: grantTrial_def guarded_def op_bind_def split: option.splits sum.splits if_splits prod.splits)
  let ?inp = "trial_grant ctx n (to_iso_string clock1)"
  have "gc_sourceRef ?inp \<noteq> Some []" by (simp add: trial_grant_def)
  from grant_found [OF grant this] obtain key where
    key: "normalizeCreditGrantIdempotencyKey (gc_id ?inp) (gc_grantIdempotencyKey ?inp) = Inr key"
    and found: "find (grant_match ?inp key) (cs_lots s1) = Some lot" by blast
  obtain rest where "map lot_facts (cs_lots s2) = map lot_facts (cs_lots s1) @ rest"
    using credit_run_facts [OF assms(4) grant_keeps_inv [OF assms(1) grant]] by blast
  moreover have "grant_match ?inp key x = grant_match ?inp key y" if "lot_facts x = lot_facts y" for x y
    using that by (simp add: grant_match_def lot_facts_def)
  ultimately obtain lot' where lot': "find (grant_match ?inp key) (cs_lots s2) = Some lot'"
    using find_same_facts [OF _ _ found] by blast
  have again: "snd (CreditLedger.grant (trial_grant ctx' n at) s2) = s2" for n at
  proof (rule grant_existing)
    show "normalizeCreditGrantIdempotencyKey (gc_id (trial_grant ctx' n at)) (gc_grantIdempotencyKey (trial_grant ctx' n at)) = Inr key"
      using key by (simp add: trial_grant_def assms(5))
    have "grant_match (trial_grant ctx' n at) key = grant_match ?inp key"
      by (simp add: grant_match_def trial_grant_def fun_eq_iff assms(5))
    then show "find (grant_match (trial_grant ctx' n at) key) (cs_lots s2) = Some lot'" using lot' by simp
  qed
  show ?thesis
    using again by (auto simp: grantTrial_def guarded_def op_bind_def split: option.splits sum.splits prod.splits)
      (metis snd_conv)+
qed

definition trial_state :: credit_ledger where
  "trial_state = snd (grantTrial DEFAULT_CREDIT_PLAN_CATALOG sample_clock sample_clock sample_ctx empty_credit_ledger)"

theorem trial_granted_once_witness:
  "length (cs_lots trial_state) = 1 \<and>
   snd (grantTrial DEFAULT_CREDIT_PLAN_CATALOG (sample_clock + 1) (sample_clock + 1)
     (sample_ctx\<lparr>cx_userId := ''v''\<rparr>) trial_state) = trial_state"
proof -
  have enabled: "pc_trialEnabled DEFAULT_CREDIT_PLAN_CATALOG" by code_simp
  have "case fst (grantTrial DEFAULT_CREDIT_PLAN_CATALOG sample_clock sample_clock sample_ctx empty_credit_ledger) of
      Inr x \<Rightarrow> True | _ \<Rightarrow> False" by code_simp
  then obtain b where run: "grantTrial DEFAULT_CREDIT_PLAN_CATALOG sample_clock sample_clock sample_ctx empty_credit_ledger =
      (Inr b, trial_state)"
    unfolding trial_state_def by (auto split: sum.splits simp: prod_eq_iff)
  have "length (cs_lots trial_state) = 1" by code_simp
  moreover have "cx_workspaceId (sample_ctx\<lparr>cx_userId := ''v''\<rparr>) = cx_workspaceId sample_ctx" by simp
  ultimately show ?thesis
    using trial_granted_once [OF credit_inv_empty enabled run run_refl [of "\<lambda>_ _. True"]] by blast
qed

section \<open>Invariants at a sample\<close>

theorem settlement_keeps_invariants_witness:
  "credit_inv (fst opened_state) \<and> store_ok (snd opened_state)"
proof -
  have clock: "time_clip sample_clock = Some sample_clock" by code_simp
  have empty: "credit_inv (fst no_state)" "store_ok (snd no_state)"
    by (simp_all add: no_state_def credit_inv_empty store_ok_empty)
  from settlement_keeps_invariants [OF empty clock, of sample_digest None DEFAULT_CREDIT_PLAN_CATALOG sample_ctx
      "sample_payment Activate ''evt'' jan31"] sample_activation
  show ?thesis unfolding sample_settle_def by blast
qed

end
