(* ===== verification/Foundation.thy ===== *)
theory Foundation
  imports ProviderCost CreditPlan PaymentMapping
begin

text \<open>
  The store behind the foundation services: the usage, entitlement and generation records of
  \<^verbatim>\<open>foundation/domain.ts\<close> and the in-memory repository of \<^verbatim>\<open>foundation/memory-repository.ts\<close>, with its
  idempotent execution of a command and the claims of module commands. The promise chain of a
  workspace serialises its commands, so a call is one step. The value of a command is \<open>'v\<close>; the
  relation facts and cutover records of the repository, which no service modelled here reads, are
  left out, as is the optional billing record of a usage event. The clock and \<^verbatim>\<open>randomUUID\<close> are
  arguments.
\<close>

section \<open>Contexts\<close>

datatype product_role = Admin_role | Owner_role | Operator_role | Reviewer_role
datatype context_actor = Role_actor product_role | Worker_actor | Payment_actor

record actor_context =
  ax_workspaceId :: string
  ax_userId :: string
  ax_correlationId :: string
  ax_actor :: "context_actor option"

section \<open>Usage events\<close>

datatype usage_action = U_reserve | U_commit | U_refund | U_expire | U_adjust | U_compensate

record usage_event =
  ue_id :: string
  ue_workspaceId :: string
  ue_resource :: usage_resource
  ue_action :: usage_action
  ue_amount :: rat
  ue_reservationId :: "string option"
  ue_reason :: string
  ue_actorId :: string
  ue_correlationId :: string
  ue_createdAt :: string

record usage_projection =
  up_allowance :: rat
  up_reserved :: rat
  up_committed :: rat
  up_released :: rat
  up_available :: rat

text \<open>\<^verbatim>\<open>Record<UsageResource, T>\<close>.\<close>

record 'a per_resource =
  of_copy :: 'a
  of_image :: 'a
  of_video :: 'a
  of_audio :: 'a

fun at_resource :: "'a per_resource \<Rightarrow> usage_resource \<Rightarrow> 'a" where
  "at_resource x Copy = of_copy x"
| "at_resource x Image = of_image x"
| "at_resource x Video = of_video x"
| "at_resource x Audio = of_audio x"

definition for_resources :: "(usage_resource \<Rightarrow> 'a) \<Rightarrow> 'a per_resource" where
  "for_resources f = \<lparr>of_copy = f Copy, of_image = f Image, of_video = f Video, of_audio = f Audio\<rparr>"

lemma at_for_resources [simp]: "at_resource (for_resources f) r = f r"
  by (cases r) (simp_all add: for_resources_def)

section \<open>Entitlement events\<close>

record product_plan_policy =
  pl_revision :: string
  pl_tier :: plan_tier
  pl_periodId :: string
  pl_periodStartsAt :: string
  pl_periodEndsAt :: string
  pl_periodStrategy :: "period_strategy option"
  pl_allowance :: "js_number per_resource"
  pl_concurrencyLimit :: js_number
  pl_queuePriority :: js_number
  pl_supportLabel :: support_label

record top_up_package =
  tp_quantity :: js_number
  tp_amountMicros :: js_number
  tp_currency :: string

text \<open>The entries of \<^verbatim>\<open>packages\<close> in their order, a value may be \<^verbatim>\<open>undefined\<close>.\<close>

record auto_top_up_configuration =
  ac_enabled :: bool
  ac_monthlyCapMicros :: js_number
  ac_packages :: "(usage_resource, top_up_package option) js_map"

record purchase_facts =
  pu_paymentEventId :: string
  pu_purchaseId :: string
  pu_resource :: usage_resource
  pu_quantity :: js_number
  pu_amountMicros :: js_number
  pu_currency :: string

record event_base =
  eb_id :: string
  eb_workspaceId :: string
  eb_actorId :: string
  eb_correlationId :: string
  eb_createdAt :: string

text \<open>The payment identifier of a pending top-up is its \<^verbatim>\<open>paymentIntentId\<close>; the last text is the month.\<close>

datatype entitlement_event =
    Plan_activated event_base string product_plan_policy "string option"
  | Plan_expired_event event_base string product_plan_policy
  | Add_on_purchased event_base purchase_facts
  | Auto_top_up_configured event_base auto_top_up_configuration
  | Auto_top_up_pending event_base purchase_facts string
  | Auto_top_up_purchased event_base purchase_facts string

fun event_facts :: "entitlement_event \<Rightarrow> event_base" where
  "event_facts (Plan_activated b _ _ _) = b"
| "event_facts (Plan_expired_event b _ _) = b"
| "event_facts (Add_on_purchased b _) = b"
| "event_facts (Auto_top_up_configured b _) = b"
| "event_facts (Auto_top_up_pending b _ _) = b"
| "event_facts (Auto_top_up_purchased b _ _) = b"

text \<open>\<^verbatim>\<open>'paymentEventId' in event\<close>.\<close>

fun paid_by :: "entitlement_event \<Rightarrow> string option" where
  "paid_by (Plan_activated _ i _ _) = Some i"
| "paid_by (Add_on_purchased _ p) = Some (pu_paymentEventId p)"
| "paid_by (Auto_top_up_purchased _ p _) = Some (pu_paymentEventId p)"
| "paid_by _ = None"

definition REGISTER_GIFT_GRANT_KEY :: string where
  "REGISTER_GIFT_GRANT_KEY = ''REGISTER_GIFT''"

fun register_gift :: "entitlement_event \<Rightarrow> bool" where
  "register_gift (Plan_activated _ _ _ k) = (k = Some REGISTER_GIFT_GRANT_KEY)"
| "register_gift _ = False"

section \<open>Generation records\<close>

datatype generation_data_class = D_public | D_contains_face | D_pii | D_medical
datatype supply_region = Region_cn | Region_global
datatype credential_mode = Credential_platform | Credential_byok_strict
datatype activation_status = Documented | Recorded | Live_verified
datatype selection_mode = Fixed_model | Llm_auto
datatype source_kind = Official_direct | Upstream_reseller | Workspace_byok_source | Third_party_proxy

record route_candidate =
  rc_catalogModelId :: string
  rc_deploymentId :: string
  rc_region :: supply_region
  rc_credentialMode :: credential_mode
  rc_credentialVersion :: string
  rc_providerModel :: "string option"
  rc_endpointRevision :: "string option"
  rc_executionChannelId :: "string option"
  rc_accountIdentity :: "string option"
  rc_endpointFingerprint :: "string option"
  rc_dataPolicyRevisionId :: "string option"
  rc_lifecycleRevision :: "string option"
  rc_policyRevision :: "string option"
  rc_priceRevision :: "string option"
  rc_unitPriceMicros :: "rat option"
  rc_currency :: "string option"
  rc_unit :: "string option"
  rc_fallbackRank :: "rat option"
  rc_activationStatus :: "activation_status option"

record route_snapshot =
  rt_id :: string
  rt_workspaceId :: string
  rt_catalogRevision :: string
  rt_policyRevision :: string
  rt_priceRevision :: string
  rt_requestedCatalogModelId :: string
  rt_selectionMode :: selection_mode
  rt_dataClass :: generation_data_class
  rt_dataClasses :: "generation_data_class list option"
  rt_fallbackConsent :: bool
  rt_maxAttempts :: "rat option"
  rt_fallbackAuthorized :: "bool option"
  rt_allowedCandidates :: "route_candidate list"
  rt_dataPolicyRevisionId :: "string option"
  rt_sourceKind :: "source_kind option"
  rt_retryOwner :: "string option"
  rt_providerRetryDisabled :: bool
  rt_createdAt :: string

datatype job_status = J_queued | J_running | J_waiting | J_completed | J_failed | J_cancel_requested | J_cancelled | J_unknown

text \<open>A result is a record of unknown values; the code compares the one of \<^verbatim>\<open>jobId\<close> with a text and stores the rest.\<close>

datatype unknown_value = Text_value string | Other_value string

type_synonym generation_result = "(string, unknown_value) js_map"

record generation_job =
  gj_id :: string
  gj_workspaceId :: string
  gj_operation :: usage_resource
  gj_routeSnapshotId :: string
  gj_usageReservationId :: string
  gj_status :: job_status
  gj_createdBy :: string
  gj_correlationId :: string
  gj_result :: "generation_result option"
  gj_createdAt :: string
  gj_updatedAt :: string

datatype acceptance = Acc_pending | Rejected_before_accept | Accepted | Acceptance_unknown
datatype attempt_status = Att_pending | Att_submitted | Att_completed | Att_failed

record provider_attempt =
  pa_id :: string
  pa_workspaceId :: string
  pa_jobId :: string
  pa_ordinal :: nat
  pa_deploymentId :: string
  pa_acceptance :: acceptance
  pa_providerTaskRef :: "string option"
  pa_status :: attempt_status
  pa_createdAt :: string
  pa_updatedAt :: string

datatype cost_stage = Cost_estimated | Cost_observed | Cost_reconciled | Cost_adjusted
datatype cost_billing = Cost_known | Cost_externally_billed | Cost_unknown

text \<open>The amount may be \<^verbatim>\<open>null\<close>.\<close>

record provider_cost_event =
  ce_id :: string
  ce_workspaceId :: string
  ce_attemptId :: string
  ce_stage :: cost_stage
  ce_amountMicros :: "js_number option"
  ce_currency :: string
  ce_unit :: string
  ce_evidence :: string
  ce_payer :: payer
  ce_billingStatus :: "cost_billing option"
  ce_actorId :: string
  ce_correlationId :: string
  ce_createdAt :: string
  ce_snapshot :: "cost_snapshot option"

text \<open>The size is \<^verbatim>\<open>NaN\<close> when it is \<open>None\<close>.\<close>

record owned_asset =
  oa_id :: string
  oa_workspaceId :: string
  oa_jobId :: string
  oa_attemptId :: string
  oa_objectKey :: string
  oa_sha256 :: string
  oa_sizeBytes :: "rat option"
  oa_mediaType :: string
  oa_storageRevision :: "string option"
  oa_createdAt :: string

section \<open>The repository\<close>

record command_audit =
  au_workspaceId :: string
  au_idempotencyKey :: string
  au_payloadHash :: string
  au_actorId :: string
  au_correlationId :: string
  au_createdAt :: string

text \<open>A completed command has its \<^verbatim>\<open>value\<close>.\<close>

datatype 'v module_status = Module_pending | Module_completed 'v

record 'v module_command =
  mc_payloadHash :: string
  mc_status :: "'v module_status"
  mc_claimToken :: "string option"
  mc_leaseExpiresAt :: "string option"

record 'v foundation =
  fs_memberships :: "(string, product_role) js_map"
  fs_usageEvents :: "usage_event list"
  fs_routeSnapshots :: "(string, route_snapshot) js_map"
  fs_generationJobs :: "(string, generation_job) js_map"
  fs_attempts :: "(string, provider_attempt) js_map"
  fs_providerCosts :: "provider_cost_event list"
  fs_entitlementEvents :: "entitlement_event list"
  fs_assets :: "(string, owned_asset) js_map"
  fs_commandResults :: "(string, string \<times> 'v) js_map"
  fs_moduleCommands :: "(string, 'v module_command) js_map"
  fs_commandAudits :: "command_audit list"

definition empty_foundation :: "'v foundation" where
  "empty_foundation =
     \<lparr> fs_memberships = [], fs_usageEvents = [], fs_routeSnapshots = [], fs_generationJobs = [],
       fs_attempts = [], fs_providerCosts = [], fs_entitlementEvents = [], fs_assets = [],
       fs_commandResults = [], fs_moduleCommands = [], fs_commandAudits = [] \<rparr>"

text \<open>\<^verbatim>\<open>`${workspaceId}:${id}`\<close>.\<close>

definition scoped :: "string \<Rightarrow> string \<Rightarrow> string" where
  "scoped ws i = ws @ '':'' @ i"

definition grantMembership :: "string \<Rightarrow> string \<Rightarrow> product_role \<Rightarrow> 'v foundation \<Rightarrow> 'v foundation" where
  "grantMembership ws user role s =
     s\<lparr>fs_memberships := map_set (scoped ws user) role (fs_memberships s)\<rparr>"

definition grantOwner :: "string \<Rightarrow> string \<Rightarrow> 'v foundation \<Rightarrow> 'v foundation" where
  "grantOwner ws user = grantMembership ws user Owner_role"

definition getWorkspaceRole :: "actor_context \<Rightarrow> 'v foundation \<Rightarrow> product_role option" where
  "getWorkspaceRole ctx s = map_of (fs_memberships s) (scoped (ax_workspaceId ctx) (ax_userId ctx))"

definition is_owner :: "actor_context \<Rightarrow> 'v foundation \<Rightarrow> bool" where
  "is_owner ctx s \<longleftrightarrow> getWorkspaceRole ctx s = Some Owner_role"

subsection \<open>Idempotent commands\<close>

text \<open>
  The state a failed command leaves: the copies taken before it, except for the tables no command
  writes.
\<close>

definition rolled_back :: "'v foundation \<Rightarrow> 'v foundation \<Rightarrow> 'v foundation" where
  "rolled_back before after =
     before\<lparr> fs_memberships := fs_memberships after, fs_commandResults := fs_commandResults after,
             fs_moduleCommands := fs_moduleCommands after \<rparr>"

text \<open>The command runs on the store and on whatever else it reaches, which no rollback touches.\<close>

definition executeIdempotent ::
    "int \<Rightarrow> actor_context \<Rightarrow> string \<Rightarrow> string \<Rightarrow> ('v foundation \<times> 'p, 'v) op \<Rightarrow>
       ('v foundation \<times> 'p, bool \<times> 'v) op" where
  "executeIdempotent clock ctx idempotencyKey hash action st =
     (let key = scoped (ax_workspaceId ctx) idempotencyKey
      in case map_of (fs_commandResults (fst st)) key of
           Some (h, v) \<Rightarrow>
             guarded (check (h = hash) (P1DomainError IDEMPOTENCY_CONFLICT
                        ''Idempotency key was reused with a different payload.'')) (\<lambda>_ st.
               (Inr (True, v), st)) st
         | None \<Rightarrow>
             (case action st of
                (Inl e, (s, p)) \<Rightarrow> (Inl e, (rolled_back (fst st) s, p))
              | (Inr v, (s, p)) \<Rightarrow>
                  (Inr (False, v),
                   (s\<lparr> fs_commandAudits := fs_commandAudits s @
                          [\<lparr> au_workspaceId = ax_workspaceId ctx, au_idempotencyKey = idempotencyKey,
                             au_payloadHash = hash, au_actorId = ax_userId ctx,
                             au_correlationId = ax_correlationId ctx,
                             au_createdAt = to_iso_string clock \<rparr>],
                        fs_commandResults := map_set key (hash, v) (fs_commandResults s) \<rparr>, p))))"

subsection \<open>Module commands\<close>

datatype 'v claim_decision = Replay_command 'v | Command_in_progress | Execute_command string

definition lease_until :: "int \<Rightarrow> int \<Rightarrow> string result" where
  "lease_until now leaseMs = toISOString (time_clip (now + leaseMs))"

definition claimModuleCommand ::
    "int \<Rightarrow> int \<Rightarrow> string \<Rightarrow> actor_context \<Rightarrow> string \<Rightarrow> string \<Rightarrow> ('v foundation, 'v claim_decision) op" where
  "claimModuleCommand leaseMs now token ctx idempotencyKey hash s =
     (let key = scoped (ax_workspaceId ctx) idempotencyKey
      in case map_of (fs_moduleCommands s) key of
           Some existing \<Rightarrow>
             guarded (check (mc_payloadHash existing = hash) (P1DomainError IDEMPOTENCY_CONFLICT
                        ''Idempotency key was reused with a different payload.'')) (\<lambda>_ s.
               case mc_status existing of
                 Module_completed v \<Rightarrow> (Inr (Replay_command v), s)
               | Module_pending \<Rightarrow>
                   if (case truthy (mc_leaseExpiresAt existing) of
                         None \<Rightarrow> False | Some t \<Rightarrow> num_lt (Some now) (date_parse t))
                   then (Inr Command_in_progress, s)
                   else guarded (lease_until now leaseMs) (\<lambda>expires s.
                          (Inr (Execute_command token),
                           s\<lparr>fs_moduleCommands := map_set key
                               (existing\<lparr>mc_claimToken := Some token, mc_leaseExpiresAt := Some expires\<rparr>)
                               (fs_moduleCommands s)\<rparr>)) s) s
         | None \<Rightarrow>
             guarded (lease_until now leaseMs) (\<lambda>expires s.
               (Inr (Execute_command token),
                s\<lparr>fs_moduleCommands := map_set key
                    \<lparr> mc_payloadHash = hash, mc_status = Module_pending, mc_claimToken = Some token,
                      mc_leaseExpiresAt = Some expires \<rparr>
                    (fs_moduleCommands s)\<rparr>)) s)"

definition claimed_command :: "'v foundation \<Rightarrow> string \<Rightarrow> string \<Rightarrow> string \<Rightarrow> 'v module_command result" where
  "claimed_command s key hash token =
     (case map_of (fs_moduleCommands s) key of
        Some existing \<Rightarrow>
          r_bind (check (mc_payloadHash existing = hash \<and> mc_status existing = Module_pending \<and>
                         mc_claimToken existing = Some token)
            (P1DomainError INVALID_STATE ''Module command claim was not found.'')) (\<lambda>_. Inr existing)
      | None \<Rightarrow> Inl (P1DomainError INVALID_STATE ''Module command claim was not found.''))"

definition completeModuleCommand ::
    "int \<Rightarrow> actor_context \<Rightarrow> string \<Rightarrow> string \<Rightarrow> string \<Rightarrow> 'v \<Rightarrow> ('v foundation, unit) op" where
  "completeModuleCommand clock ctx idempotencyKey hash token v s =
     (let key = scoped (ax_workspaceId ctx) idempotencyKey
      in guarded (claimed_command s key hash token) (\<lambda>_ s.
           (Inr (),
            s\<lparr> fs_moduleCommands := map_set key
                 \<lparr> mc_payloadHash = hash, mc_status = Module_completed v, mc_claimToken = None,
                   mc_leaseExpiresAt = None \<rparr> (fs_moduleCommands s),
               fs_commandAudits := fs_commandAudits s @
                 [\<lparr> au_workspaceId = ax_workspaceId ctx, au_idempotencyKey = idempotencyKey,
                    au_payloadHash = hash, au_actorId = ax_userId ctx,
                    au_correlationId = ax_correlationId ctx, au_createdAt = to_iso_string clock \<rparr>] \<rparr>)) s)"

definition renewModuleCommand ::
    "int \<Rightarrow> int \<Rightarrow> actor_context \<Rightarrow> string \<Rightarrow> string \<Rightarrow> string \<Rightarrow> ('v foundation, unit) op" where
  "renewModuleCommand leaseMs now ctx idempotencyKey hash token s =
     (let key = scoped (ax_workspaceId ctx) idempotencyKey
      in guarded (claimed_command s key hash token) (\<lambda>existing.
         guarded (lease_until now leaseMs) (\<lambda>expires s.
           (Inr (), s\<lparr>fs_moduleCommands := map_set key
                        (existing\<lparr>mc_leaseExpiresAt := Some expires\<rparr>) (fs_moduleCommands s)\<rparr>))) s)"

definition abandonModuleCommand ::
    "actor_context \<Rightarrow> string \<Rightarrow> string \<Rightarrow> string \<Rightarrow> 'v foundation \<Rightarrow> 'v foundation" where
  "abandonModuleCommand ctx idempotencyKey hash token s =
     (let key = scoped (ax_workspaceId ctx) idempotencyKey
      in case claimed_command s key hash token of
           Inr _ \<Rightarrow> s\<lparr>fs_moduleCommands := map_delete key (fs_moduleCommands s)\<rparr>
         | Inl _ \<Rightarrow> s)"

subsection \<open>Tables\<close>

definition appendUsageRecord :: "usage_event \<Rightarrow> ('v foundation, unit) op" where
  "appendUsageRecord ev s =
     guarded (check (\<not> list_ex (\<lambda>x. ue_workspaceId x = ue_workspaceId ev \<and> ue_id x = ue_id ev) (fs_usageEvents s))
       (P1DomainError INVALID_STATE ''Usage event already exists.'')) (\<lambda>_ s.
         (Inr (), s\<lparr>fs_usageEvents := fs_usageEvents s @ [ev]\<rparr>)) s"

definition listUsageEvents :: "'v foundation \<Rightarrow> string \<Rightarrow> usage_resource \<Rightarrow> usage_event list" where
  "listUsageEvents s ws r = filter (\<lambda>x. ue_workspaceId x = ws \<and> ue_resource x = r) (fs_usageEvents s)"

definition insertRouteSnapshot :: "route_snapshot \<Rightarrow> ('v foundation, unit) op" where
  "insertRouteSnapshot x s =
     (let key = scoped (rt_workspaceId x) (rt_id x)
      in guarded (check (map_of (fs_routeSnapshots s) key = None)
           (P1DomainError INVALID_STATE ''Route snapshot already exists.'')) (\<lambda>_ s.
             (Inr (), s\<lparr>fs_routeSnapshots := map_set key x (fs_routeSnapshots s)\<rparr>)) s)"

definition insertGenerationJob :: "generation_job \<Rightarrow> ('v foundation, unit) op" where
  "insertGenerationJob x s =
     (let key = scoped (gj_workspaceId x) (gj_id x)
      in guarded (check (map_of (fs_generationJobs s) key = None)
           (P1DomainError INVALID_STATE ''Generation job already exists.'')) (\<lambda>_ s.
             (Inr (), s\<lparr>fs_generationJobs := map_set key x (fs_generationJobs s)\<rparr>)) s)"

definition updateGenerationJob :: "generation_job \<Rightarrow> ('v foundation, unit) op" where
  "updateGenerationJob x s =
     (let key = scoped (gj_workspaceId x) (gj_id x)
      in guarded (check (map_of (fs_generationJobs s) key \<noteq> None)
           (P1DomainError NOT_FOUND ''Generation job was not found.'')) (\<lambda>_ s.
             (Inr (), s\<lparr>fs_generationJobs := map_set key x (fs_generationJobs s)\<rparr>)) s)"

definition insertProviderAttempt :: "provider_attempt \<Rightarrow> ('v foundation, unit) op" where
  "insertProviderAttempt x s =
     (let key = scoped (pa_workspaceId x) (pa_id x)
      in guarded (check (map_of (fs_attempts s) key = None)
           (P1DomainError INVALID_STATE ''Provider attempt already exists.'')) (\<lambda>_ s.
             (Inr (), s\<lparr>fs_attempts := map_set key x (fs_attempts s)\<rparr>)) s)"

definition listProviderAttempts :: "'v foundation \<Rightarrow> string \<Rightarrow> string \<Rightarrow> provider_attempt list" where
  "listProviderAttempts s ws jobId =
     filter (\<lambda>x. pa_workspaceId x = ws \<and> pa_jobId x = jobId) (map snd (fs_attempts s))"

definition updateProviderAttempt :: "provider_attempt \<Rightarrow> ('v foundation, unit) op" where
  "updateProviderAttempt x s =
     (let key = scoped (pa_workspaceId x) (pa_id x)
      in guarded (check (map_of (fs_attempts s) key \<noteq> None)
           (P1DomainError NOT_FOUND ''Provider attempt was not found.'')) (\<lambda>_ s.
             (Inr (), s\<lparr>fs_attempts := map_set key x (fs_attempts s)\<rparr>)) s)"

definition appendCostRecord :: "provider_cost_event \<Rightarrow> ('v foundation, unit) op" where
  "appendCostRecord ev s =
     guarded (check (\<not> list_ex (\<lambda>x. ce_workspaceId x = ce_workspaceId ev \<and> ce_id x = ce_id ev) (fs_providerCosts s))
       (P1DomainError INVALID_STATE ''Provider cost event already exists.'')) (\<lambda>_ s.
         (Inr (), s\<lparr>fs_providerCosts := fs_providerCosts s @ [ev]\<rparr>)) s"

definition insertOwnedAsset :: "owned_asset \<Rightarrow> ('v foundation, unit) op" where
  "insertOwnedAsset x s =
     (let key = scoped (oa_workspaceId x) (oa_id x)
      in guarded (check (map_of (fs_assets s) key = None)
           (P1DomainError INVALID_STATE ''Owned asset already exists.'')) (\<lambda>_ s.
             (Inr (), s\<lparr>fs_assets := map_set key x (fs_assets s)\<rparr>)) s)"

definition appendProductEntitlementEvent :: "entitlement_event \<Rightarrow> ('v foundation, unit) op" where
  "appendProductEntitlementEvent ev s =
     (let ws = eb_workspaceId (event_facts ev);
          mine = (\<lambda>x. eb_workspaceId (event_facts x) = ws)
      in guarded (check (\<not> list_ex (\<lambda>x. mine x \<and> eb_id (event_facts x) = eb_id (event_facts ev))
                          (fs_entitlementEvents s))
           (P1DomainError INVALID_STATE ''Product entitlement event already exists.'')) (\<lambda>_.
         guarded (check (paid_by ev = None \<or>
                         \<not> list_ex (\<lambda>x. mine x \<and> paid_by x = paid_by ev) (fs_entitlementEvents s))
           (P1DomainError INVALID_STATE ''Payment event already activated an entitlement.'')) (\<lambda>_.
         guarded (check (\<not> (register_gift ev \<and> list_ex (\<lambda>x. mine x \<and> register_gift x) (fs_entitlementEvents s)))
           (P1DomainError INVALID_STATE ''Register gift already activated an entitlement.'')) (\<lambda>_ s.
           (Inr (), s\<lparr>fs_entitlementEvents := fs_entitlementEvents s @ [ev]\<rparr>)))) s)"

definition listProductEntitlementEvents :: "'v foundation \<Rightarrow> string \<Rightarrow> entitlement_event list" where
  "listProductEntitlementEvents s ws = filter (\<lambda>x. eb_workspaceId (event_facts x) = ws) (fs_entitlementEvents s)"

section \<open>The usage projection\<close>

fun usage_terminal :: "usage_action \<Rightarrow> bool" where
  "usage_terminal U_commit = True"
| "usage_terminal U_refund = True"
| "usage_terminal U_expire = True"
| "usage_terminal _ = False"

text \<open>The \<^verbatim>\<open>Map\<close> of terminal events by reservation: the last one of a reservation wins.\<close>

definition usage_terminals :: "usage_event list \<Rightarrow> (string option, usage_event) js_map" where
  "usage_terminals events =
     fold (\<lambda>x. map_set (ue_reservationId x) x) (filter (\<lambda>x. usage_terminal (ue_action x)) events) []"

definition count_reserve ::
    "(string option, usage_event) js_map \<Rightarrow> usage_event \<Rightarrow> rat \<times> rat \<times> rat \<Rightarrow> rat \<times> rat \<times> rat" where
  "count_reserve terminals x acc =
     (let (reserved, committed, released) = acc
      in if ue_action x \<noteq> U_reserve \<or> truthy (ue_reservationId x) = None then acc
         else case map_of terminals (ue_reservationId x) of
                Some t \<Rightarrow>
                  if ue_action t = U_commit
                  then (reserved, committed + ue_amount t, released + max 0 (ue_amount x - ue_amount t))
                  else (reserved, committed, released + ue_amount x)
              | None \<Rightarrow> (reserved + ue_amount x, committed, released))"

definition projectUsage :: "usage_event list \<Rightarrow> usage_projection" where
  "projectUsage events =
     (let allowance = sum_list (map ue_amount
            (filter (\<lambda>x. ue_action x = U_adjust \<or> ue_action x = U_compensate) events));
          (reserved, committed, released) = fold (count_reserve (usage_terminals events)) events (0, 0, 0)
      in \<lparr> up_allowance = allowance, up_reserved = reserved, up_committed = committed,
           up_released = released, up_available = max 0 (allowance - reserved - committed) \<rparr>)"

end
