(* ===== verification/GenerationLedger.thy ===== *)
theory GenerationLedger
  imports Foundation
begin

text \<open>
  The usage and generation commands of \<^verbatim>\<open>foundation/application-service.ts\<close>: reserving and settling the
  usage of a workspace, freezing the route of a generation job, recording its provider attempts and
  their outcome. Each command is one idempotent execution over the repository. The hash of a payload
  is a function of the payload, the clock one instant per call. The audit of a command has an instant
  of its own, since the repository reads \<^verbatim>\<open>new Date()\<close>. The values the commands return are one
  datatype, because the repository keeps them in one table; those of the entitlement service are the
  type parameter.
\<close>

section \<open>Inputs and values\<close>

record append_usage_input =
  su_eventId :: string
  su_resource :: usage_resource
  su_action :: usage_action
  su_amount :: "rat option"
  su_reservationId :: "string option"
  su_reason :: string

record opening_grant =
  og_id :: string
  og_amount :: "rat option"
  og_reason :: string

text \<open>A route snapshot of an input lacks the workspace and the instant; they are set by the command.\<close>

record start_generation_input =
  sg_jobId :: string
  sg_operation :: usage_resource
  sg_usageReservationId :: string
  sg_routeSnapshot :: route_snapshot

record checkpoint_input =
  cp_jobId :: string
  cp_operation :: usage_resource
  cp_usageReservationId :: string
  cp_usageAmount :: js_number
  cp_openingEntitlement :: "opening_grant option"
  cp_routeSnapshot :: route_snapshot
  cp_attemptId :: string
  cp_deploymentId :: string

record attempt_input =
  ai_id :: string
  ai_jobId :: string
  ai_deploymentId :: string

text \<open>The acceptance is never \<^verbatim>\<open>pending\<close>.\<close>

datatype acceptance_evidence = Ev_rejected | Ev_accepted | Ev_unknown

fun acceptance_of :: "acceptance_evidence \<Rightarrow> acceptance" where
  "acceptance_of Ev_rejected = Rejected_before_accept"
| "acceptance_of Ev_accepted = Accepted"
| "acceptance_of Ev_unknown = Acceptance_unknown"

record acceptance_input =
  ri_attemptId :: string
  ri_acceptance :: acceptance_evidence
  ri_providerTaskRef :: "string option"

record cost_facts =
  cf_id :: string
  cf_attemptId :: string
  cf_stage :: cost_stage
  cf_amountMicros :: "js_number option"
  cf_currency :: string
  cf_unit :: string
  cf_evidence :: string
  cf_payer :: payer
  cf_billingStatus :: "cost_billing option"
  cf_snapshot :: "cost_snapshot option"

record asset_receipt =
  ar_id :: string
  ar_jobId :: string
  ar_attemptId :: string
  ar_objectKey :: string
  ar_sha256 :: string
  ar_sizeBytes :: "rat option"
  ar_mediaType :: string
  ar_storageRevision :: "string option"

datatype provider_outcome =
    Outcome_completed "asset_receipt option"
  | Outcome_retryable string
  | Outcome_failed string
  | Outcome_unknown string

record outcome_input =
  oi_attemptId :: string
  oi_acceptance :: acceptance_evidence
  oi_providerTaskRef :: "string option"
  oi_providerCost :: cost_facts
  oi_result :: generation_result
  oi_outcome :: provider_outcome

datatype ledger_payload =
    P_usage append_usage_input
  | P_start start_generation_input
  | P_checkpoint checkpoint_input
  | P_attempt attempt_input
  | P_acceptance acceptance_input
  | P_cost cost_facts
  | P_outcome outcome_input
  | P_asset asset_receipt
  | P_reason string string

datatype compensation_kind = Kind_refund | Kind_already_released | Kind_compensate

datatype 'v command_value =
    V_usage usage_event
  | V_job generation_job
  | V_checkpoint generation_job provider_attempt
  | V_attempt provider_attempt
  | V_cost provider_cost_event
  | V_outcome generation_job provider_attempt "owned_asset option"
  | V_asset owned_asset
  | V_compensation compensation_kind rat
  | V_true
  | V_entitlement 'v

type_synonym 'v ledger_action = "('v command_value foundation, 'v command_value) op"
type_synonym ('v, 'p) ledger_op = "('v command_value foundation \<times> 'p, 'v command_value) op"

section \<open>Running on the store\<close>

definition on_foundation :: "('v foundation, 'a) op \<Rightarrow> ('v foundation \<times> 'p, 'a) op" where
  "on_foundation m st = (let (r, s) = m (fst st) in (r, (s, snd st)))"

text \<open>A command with its value, without the flag that tells a replay.\<close>

definition run_command ::
    "int \<Rightarrow> actor_context \<Rightarrow> string \<Rightarrow> string \<Rightarrow> ('v foundation \<times> 'p, 'v) op \<Rightarrow> ('v foundation \<times> 'p, 'v) op" where
  "run_command clock ctx key hash action =
     op_bind (executeIdempotent clock ctx key hash action) (\<lambda>result st. (Inr (snd result), st))"

section \<open>Authorization and lookups\<close>

definition authorizeOwner :: "actor_context \<Rightarrow> 'v foundation \<Rightarrow> unit result" where
  "authorizeOwner ctx s = check (is_owner ctx s) (P1DomainError NOT_FOUND ''Workspace resource was not found.'')"

definition authorizeGenerationLedgerAccess :: "actor_context \<Rightarrow> 'v foundation \<Rightarrow> unit result" where
  "authorizeGenerationLedgerAccess ctx s =
     (if ax_actor ctx = Some Worker_actor then Inr () else authorizeOwner ctx s)"

definition authorizeWorkspaceMember :: "actor_context \<Rightarrow> 'v foundation \<Rightarrow> unit result" where
  "authorizeWorkspaceMember ctx s =
     (if ax_actor ctx \<in> {Some (Role_actor Admin_role), Some Worker_actor, Some Payment_actor} then Inr ()
      else case getWorkspaceRole ctx s of
             None \<Rightarrow> Inl (P1DomainError NOT_FOUND ''Workspace resource was not found.'')
           | Some role \<Rightarrow>
               check (case ax_actor ctx of None \<Rightarrow> True | Some a \<Rightarrow> a = Role_actor role)
                 (P1DomainError FORBIDDEN ''The supplied workspace role does not match the membership.''))"

definition requireJob :: "string \<Rightarrow> string \<Rightarrow> 'v foundation \<Rightarrow> generation_job result" where
  "requireJob ws jobId s =
     (case map_of (fs_generationJobs s) (scoped ws jobId) of
        None \<Rightarrow> Inl (P1DomainError NOT_FOUND ''Generation job was not found.'')
      | Some j \<Rightarrow> Inr j)"

definition requireSnapshot :: "string \<Rightarrow> string \<Rightarrow> 'v foundation \<Rightarrow> route_snapshot result" where
  "requireSnapshot ws snapshotId s =
     (case map_of (fs_routeSnapshots s) (scoped ws snapshotId) of
        None \<Rightarrow> Inl (P1DomainError NOT_FOUND ''Route snapshot was not found.'')
      | Some x \<Rightarrow> Inr x)"

definition requireAttempt :: "string \<Rightarrow> string \<Rightarrow> 'v foundation \<Rightarrow> provider_attempt result" where
  "requireAttempt ws attemptId s =
     (case map_of (fs_attempts s) (scoped ws attemptId) of
        None \<Rightarrow> Inl (P1DomainError NOT_FOUND ''Provider attempt was not found.'')
      | Some x \<Rightarrow> Inr x)"

definition zero_value_prefix :: string where "zero_value_prefix = ''zero-value-usage:''"

definition isZeroValueUsageReservation :: "string \<Rightarrow> bool" where
  "isZeroValueUsageReservation reservationId = starts_with zero_value_prefix reservationId"

definition reservation_of :: "usage_event list \<Rightarrow> string \<Rightarrow> usage_event option" where
  "reservation_of events reservationId =
     find (\<lambda>x. ue_action x = U_reserve \<and> ue_reservationId x = Some reservationId) events"

definition terminal_of :: "usage_event list \<Rightarrow> string \<Rightarrow> usage_event option" where
  "terminal_of events reservationId =
     find (\<lambda>x. ue_reservationId x = Some reservationId \<and> usage_terminal (ue_action x)) events"

section \<open>Usage\<close>

definition usage_record ::
    "actor_context \<Rightarrow> string \<Rightarrow> string \<Rightarrow> usage_resource \<Rightarrow> usage_action \<Rightarrow> rat \<Rightarrow> string option \<Rightarrow> string \<Rightarrow> usage_event" where
  "usage_record ctx now_text i r action amount reservationId reason =
     \<lparr> ue_id = i, ue_workspaceId = ax_workspaceId ctx, ue_resource = r, ue_action = action, ue_amount = amount,
       ue_reservationId = reservationId, ue_reason = reason, ue_actorId = ax_userId ctx,
       ue_correlationId = ax_correlationId ctx, ue_createdAt = now_text \<rparr>"

definition assert_usage_amount :: "append_usage_input \<Rightarrow> rat result" where
  "assert_usage_amount inp =
     (case su_amount inp of
        None \<Rightarrow> Inl (P1DomainError INVALID_STATE ''Usage amount must be a finite non-zero number.'')
      | Some a \<Rightarrow>
          r_bind (check (a \<noteq> 0)
            (P1DomainError INVALID_STATE ''Usage amount must be a finite non-zero number.'')) (\<lambda>_.
          r_bind (check (su_action inp = U_adjust \<or> 0 \<le> a)
            (P1DomainError INVALID_STATE ''Usage amount must be positive.'')) (\<lambda>_. Inr a)))"

definition assert_reserve :: "usage_event list \<Rightarrow> string option \<Rightarrow> rat \<Rightarrow> unit result" where
  "assert_reserve events reservationId a =
     r_bind (check (truthy reservationId \<noteq> None) (P1DomainError INVALID_STATE ''A reservation id is required.'')) (\<lambda>_.
     r_bind (check (\<not> list_ex (\<lambda>x. ue_reservationId x = reservationId) events)
       (P1DomainError INVALID_STATE ''Reservation already exists.'')) (\<lambda>_.
       check (a \<le> up_available (projectUsage events))
         (P1DomainError INSUFFICIENT_ENTITLEMENT ''Insufficient product usage allowance.'')))"

text \<open>The terminal event that already ends the reservation, if it is of the same action.\<close>

definition assert_terminal ::
    "usage_event list \<Rightarrow> usage_action \<Rightarrow> string option \<Rightarrow> rat \<Rightarrow> usage_event option result" where
  "assert_terminal events action reservationId a =
     (case truthy reservationId of
        None \<Rightarrow> Inl (P1DomainError INVALID_STATE ''A reservation id is required.'')
      | Some i \<Rightarrow>
          r_bind (check (case reservation_of events i of
                           None \<Rightarrow> False
                         | Some reservation \<Rightarrow>
                             if action = U_commit then 0 \<le> a \<and> a \<le> ue_amount reservation
                             else ue_amount reservation = a)
            (P1DomainError INVALID_STATE ''Reservation does not match the terminal event.'')) (\<lambda>_.
          case terminal_of events i of
            None \<Rightarrow> Inr None
          | Some t \<Rightarrow>
              r_bind (check (ue_action t = action)
                (P1DomainError INVALID_STATE ''Reservation already has another terminal result.'')) (\<lambda>_.
                Inr (Some t))))"

definition append_usage :: "int \<Rightarrow> actor_context \<Rightarrow> append_usage_input \<Rightarrow> 'v ledger_action" where
  "append_usage now ctx inp s =
     guarded (authorizeOwner ctx s) (\<lambda>_.
     guarded (assert_usage_amount inp) (\<lambda>a s.
       let events = listUsageEvents s (ax_workspaceId ctx) (su_resource inp);
           ev = usage_record ctx (to_iso_string now) (su_eventId inp) (su_resource inp) (su_action inp) a
                  (su_reservationId inp) (su_reason inp)
       in guarded (if su_action inp = U_reserve then assert_reserve events (su_reservationId inp) a else Inr ()) (\<lambda>_.
          guarded (if usage_terminal (su_action inp)
                   then assert_terminal events (su_action inp) (su_reservationId inp) a else Inr None) (\<lambda>ended.
            case ended of
              Some t \<Rightarrow> (\<lambda>s. (Inr (V_usage t), s))
            | None \<Rightarrow> op_bind (appendUsageRecord ev) (\<lambda>_ s. (Inr (V_usage ev), s)))) s)) s"

definition appendUsageEvent ::
    "(ledger_payload \<Rightarrow> string) \<Rightarrow> int \<Rightarrow> int \<Rightarrow> actor_context \<Rightarrow> append_usage_input \<Rightarrow> string \<Rightarrow> ('v, 'p) ledger_op" where
  "appendUsageEvent hash now audit ctx inp key =
     run_command audit ctx key (hash (P_usage inp)) (on_foundation (append_usage now ctx inp))"

definition getUsageProjection ::
    "actor_context \<Rightarrow> usage_resource \<Rightarrow> 'v foundation \<Rightarrow> usage_projection result" where
  "getUsageProjection ctx r s =
     r_bind (authorizeWorkspaceMember ctx s) (\<lambda>_. Inr (projectUsage (listUsageEvents s (ax_workspaceId ctx) r)))"

text \<open>
  The end of a job's reservation: commit when it was delivered, refund when it failed. \<^verbatim>\<open>null\<close> when
  the reservation is worth nothing and does not exist.
\<close>

definition settleUsageReservation ::
    "actor_context \<Rightarrow> generation_job \<Rightarrow> bool \<Rightarrow> string \<Rightarrow> string \<Rightarrow> ('v foundation, usage_event option) op" where
  "settleUsageReservation ctx job commit reason createdAt s =
     (let events = listUsageEvents s (ax_workspaceId ctx) (gj_operation job);
          action = (if commit then U_commit else U_refund)
      in case reservation_of events (gj_usageReservationId job) of
           None \<Rightarrow>
             if isZeroValueUsageReservation (gj_usageReservationId job) then (Inr None, s)
             else (Inl (P1DomainError INVALID_STATE ''Usage reservation was not found.''), s)
         | Some reservation \<Rightarrow>
             (case terminal_of events (gj_usageReservationId job) of
                Some t \<Rightarrow>
                  guarded (check (ue_action t = action)
                    (P1DomainError INVALID_STATE ''Usage reservation already has another terminal result.''))
                    (\<lambda>_ s. (Inr (Some t), s)) s
              | None \<Rightarrow>
                  (let ev = usage_record ctx createdAt
                              (''job:'' @ gj_id job @ (if commit then '':commit'' else '':refund''))
                              (gj_operation job) action (ue_amount reservation)
                              (Some (gj_usageReservationId job)) reason
                   in op_bind (appendUsageRecord ev) (\<lambda>_ s. (Inr (Some ev), s)) s)))"

section \<open>Routes\<close>

definition validateRouteSnapshot :: "route_snapshot \<Rightarrow> unit result" where
  "validateRouteSnapshot x =
     r_bind (check (rt_allowedCandidates x \<noteq> [])
       (P1DomainError INVALID_STATE ''A route snapshot needs at least one candidate.'')) (\<lambda>_.
     r_bind (check (rt_dataClass x = D_public \<or> \<not> list_ex (\<lambda>c. rc_region c \<noteq> Region_cn) (rt_allowedCandidates x))
       (P1DomainError INVALID_STATE ''Sensitive generation data cannot use a foreign deployment.'')) (\<lambda>_.
       check (rt_selectionMode x \<noteq> Fixed_model \<or>
              \<not> list_ex (\<lambda>c. rc_catalogModelId c \<noteq> rt_requestedCatalogModelId x) (rt_allowedCandidates x))
         (P1DomainError INVALID_STATE ''A fixed route can only contain equivalent deployments.'')))"

definition sameFrozenRoute :: "route_snapshot \<Rightarrow> route_snapshot \<Rightarrow> bool" where
  "sameFrozenRoute l r \<longleftrightarrow> l\<lparr>rt_createdAt := []\<rparr> = r\<lparr>rt_createdAt := []\<rparr>"

definition frozen_route :: "actor_context \<Rightarrow> string \<Rightarrow> route_snapshot \<Rightarrow> route_snapshot" where
  "frozen_route ctx now_text x = x\<lparr>rt_workspaceId := ax_workspaceId ctx, rt_createdAt := now_text\<rparr>"

definition new_job ::
    "actor_context \<Rightarrow> string \<Rightarrow> string \<Rightarrow> usage_resource \<Rightarrow> string \<Rightarrow> string \<Rightarrow> job_status \<Rightarrow> generation_job" where
  "new_job ctx now_text i operation snapshotId reservationId status =
     \<lparr> gj_id = i, gj_workspaceId = ax_workspaceId ctx, gj_operation = operation, gj_routeSnapshotId = snapshotId,
       gj_usageReservationId = reservationId, gj_status = status, gj_createdBy = ax_userId ctx,
       gj_correlationId = ax_correlationId ctx, gj_result = None, gj_createdAt = now_text, gj_updatedAt = now_text \<rparr>"

definition new_attempt :: "actor_context \<Rightarrow> string \<Rightarrow> string \<Rightarrow> string \<Rightarrow> nat \<Rightarrow> string \<Rightarrow> provider_attempt" where
  "new_attempt ctx now_text i jobId ordinal deploymentId =
     \<lparr> pa_id = i, pa_workspaceId = ax_workspaceId ctx, pa_jobId = jobId, pa_ordinal = ordinal,
       pa_deploymentId = deploymentId, pa_acceptance = Acc_pending, pa_providerTaskRef = None,
       pa_status = Att_pending, pa_createdAt = now_text, pa_updatedAt = now_text \<rparr>"

section \<open>Generation\<close>

definition start_generation :: "int \<Rightarrow> actor_context \<Rightarrow> start_generation_input \<Rightarrow> 'v ledger_action" where
  "start_generation now ctx inp s =
     guarded (authorizeGenerationLedgerAccess ctx s) (\<lambda>_.
     guarded (validateRouteSnapshot (sg_routeSnapshot inp)) (\<lambda>_ s.
       let usage = listUsageEvents s (ax_workspaceId ctx) (sg_operation inp);
           now_text = to_iso_string now;
           snapshot = frozen_route ctx now_text (sg_routeSnapshot inp);
           job = new_job ctx now_text (sg_jobId inp) (sg_operation inp) (rt_id snapshot) (sg_usageReservationId inp) J_queued
       in guarded (check (reservation_of usage (sg_usageReservationId inp) \<noteq> None \<and>
                          terminal_of usage (sg_usageReservationId inp) = None)
            (P1DomainError INVALID_STATE ''An active usage reservation is required.'')) (\<lambda>_.
          op_bind (insertRouteSnapshot snapshot) (\<lambda>_.
          op_bind (insertGenerationJob job) (\<lambda>_ s. (Inr (V_job job), s)))) s)) s"

definition startGeneration ::
    "(ledger_payload \<Rightarrow> string) \<Rightarrow> int \<Rightarrow> int \<Rightarrow> actor_context \<Rightarrow> start_generation_input \<Rightarrow> string \<Rightarrow> ('v, 'p) ledger_op" where
  "startGeneration hash now audit ctx inp key =
     run_command audit ctx key (hash (P_start inp)) (on_foundation (start_generation now ctx inp))"

definition preflightGenerationCheckpoint ::
    "actor_context \<Rightarrow> route_snapshot \<Rightarrow> string \<Rightarrow> 'v foundation \<Rightarrow> unit result" where
  "preflightGenerationCheckpoint ctx snapshot deploymentId s =
     r_bind (authorizeGenerationLedgerAccess ctx s) (\<lambda>_.
     r_bind (validateRouteSnapshot snapshot) (\<lambda>_.
       check (list_ex (\<lambda>c. rc_deploymentId c = deploymentId) (rt_allowedCandidates snapshot))
         (P1DomainError INVALID_STATE ''Deployment is outside the frozen route.'')))"

text \<open>The opening entitlement of a workspace that has no usage of the resource yet.\<close>

definition open_entitlement :: "int \<Rightarrow> actor_context \<Rightarrow> checkpoint_input \<Rightarrow> ('v foundation, unit) op" where
  "open_entitlement now ctx inp s =
     (case cp_openingEntitlement inp of
        None \<Rightarrow> (Inr (), s)
      | Some opening \<Rightarrow>
          if listUsageEvents s (ax_workspaceId ctx) (cp_operation inp) = [] \<and>
             (case og_amount opening of None \<Rightarrow> False | Some a \<Rightarrow> 0 < a)
          then (let a = (case og_amount opening of None \<Rightarrow> 0 | Some a \<Rightarrow> a)
                in guarded (check (a = of_int (floor a))
                     (P1DomainError INVALID_STATE ''Opening entitlement must be an integer.'')) (\<lambda>_.
                     appendUsageRecord (usage_record ctx (to_iso_string now) (og_id opening) (cp_operation inp)
                       U_adjust a None (og_reason opening))) s)
          else (Inr (), s))"

definition reserve_for_checkpoint :: "int \<Rightarrow> actor_context \<Rightarrow> checkpoint_input \<Rightarrow> ('v foundation, unit) op" where
  "reserve_for_checkpoint now ctx inp s =
     (let usage = listUsageEvents s (ax_workspaceId ctx) (cp_operation inp);
          amount = of_int (int_of (cp_usageAmount inp));
          reservation = reservation_of usage (cp_usageReservationId inp)
      in guarded (check (terminal_of usage (cp_usageReservationId inp) = None)
           (P1DomainError INVALID_STATE ''Generation reservation is already terminal.'')) (\<lambda>_.
         guarded (check (case reservation of None \<Rightarrow> True | Some x \<Rightarrow> ue_amount x = amount)
           (P1DomainError INVALID_STATE ''Generation reservation amount does not match.'')) (\<lambda>_.
           if reservation = None \<and> 0 < amount
           then guarded (check (amount \<le> up_available (projectUsage usage))
                  (P1DomainError INSUFFICIENT_ENTITLEMENT ''Insufficient product usage allowance.'')) (\<lambda>_.
                  appendUsageRecord (usage_record ctx (to_iso_string now)
                    (''job:'' @ cp_jobId inp @ '':reserve'') (cp_operation inp) U_reserve amount
                    (Some (cp_usageReservationId inp)) ''generation_dispatch_checkpoint''))
           else (\<lambda>s. (Inr (), s)))) s)"

definition checkpoint_attempt :: "int \<Rightarrow> actor_context \<Rightarrow> checkpoint_input \<Rightarrow> 'v ledger_action" where
  "checkpoint_attempt now ctx inp s =
     guarded (authorizeGenerationLedgerAccess ctx s) (\<lambda>_.
     guarded (validateRouteSnapshot (cp_routeSnapshot inp)) (\<lambda>_.
     guarded (check (number_isInteger (cp_usageAmount inp) \<and> 0 \<le> int_of (cp_usageAmount inp))
       (P1DomainError INVALID_STATE ''Generation usage amount must be a non-negative integer.'')) (\<lambda>_.
     op_bind (open_entitlement now ctx inp) (\<lambda>_.
     op_bind (reserve_for_checkpoint now ctx inp) (\<lambda>_.
     guarded (check (list_ex (\<lambda>c. rc_deploymentId c = cp_deploymentId inp) (rt_allowedCandidates (cp_routeSnapshot inp)))
       (P1DomainError INVALID_STATE ''Deployment is outside the frozen route.'')) (\<lambda>_ s.
       let now_text = to_iso_string now;
           proposed = frozen_route ctx now_text (cp_routeSnapshot inp);
           existing = map_of (fs_routeSnapshots s) (scoped (ax_workspaceId ctx) (rt_id proposed));
           snapshot = (case existing of Some x \<Rightarrow> x | None \<Rightarrow> proposed);
           job = new_job ctx now_text (cp_jobId inp) (cp_operation inp) (rt_id snapshot) (cp_usageReservationId inp) J_running;
           attempt = new_attempt ctx now_text (cp_attemptId inp) (gj_id job) 1 (cp_deploymentId inp)
       in guarded (check (case existing of None \<Rightarrow> True | Some x \<Rightarrow> sameFrozenRoute x proposed)
            (P1DomainError INVALID_STATE ''RouteSnapshot id conflicts with different frozen routing facts.'')) (\<lambda>_.
          op_bind (if existing = None then insertRouteSnapshot snapshot else (\<lambda>s. (Inr (), s))) (\<lambda>_.
          op_bind (insertGenerationJob job) (\<lambda>_.
          op_bind (insertProviderAttempt attempt) (\<lambda>_ s. (Inr (V_checkpoint job attempt), s))))) s)))))) s"

text \<open>The command with the flag that tells a replay, so that no caller dispatches twice.\<close>

definition checkpointGenerationAttempt ::
    "(ledger_payload \<Rightarrow> string) \<Rightarrow> int \<Rightarrow> int \<Rightarrow> actor_context \<Rightarrow> checkpoint_input \<Rightarrow> string \<Rightarrow>
       ('v command_value foundation \<times> 'p, bool \<times> 'v command_value) op" where
  "checkpointGenerationAttempt hash now audit ctx inp key =
     executeIdempotent audit ctx key (hash (P_checkpoint (inp\<lparr>cp_openingEntitlement := None\<rparr>)))
       (on_foundation (checkpoint_attempt now ctx inp))"

section \<open>Provider attempts\<close>

definition checkpoint_provider_attempt :: "int \<Rightarrow> actor_context \<Rightarrow> attempt_input \<Rightarrow> 'v ledger_action" where
  "checkpoint_provider_attempt now ctx inp s =
     guarded (authorizeGenerationLedgerAccess ctx s) (\<lambda>_.
     guarded (requireJob (ax_workspaceId ctx) (ai_jobId inp) s) (\<lambda>job.
     guarded (check (gj_status job \<notin> {J_completed, J_cancelled, J_failed})
       (P1DomainError INVALID_STATE ''Generation job is terminal.'')) (\<lambda>_.
     guarded (requireSnapshot (ax_workspaceId ctx) (gj_routeSnapshotId job) s) (\<lambda>snapshot s.
       let candidate = find (\<lambda>c. rc_deploymentId c = ai_deploymentId inp) (rt_allowedCandidates snapshot);
           attempts = listProviderAttempts s (ax_workspaceId ctx) (gj_id job);
           previous = (if attempts = [] then None else Some (last attempts));
           now_text = to_iso_string now;
           attempt = new_attempt ctx now_text (ai_id inp) (gj_id job) (length attempts + 1) (ai_deploymentId inp)
       in guarded (check (candidate \<noteq> None)
            (P1DomainError INVALID_STATE ''Deployment is outside the frozen route.'')) (\<lambda>_.
          guarded (check (\<not> (rt_selectionMode snapshot = Fixed_model \<and>
                             map_option rc_catalogModelId candidate \<noteq> Some (rt_requestedCatalogModelId snapshot)))
            (P1DomainError INVALID_STATE ''A fixed model cannot cross CatalogModel.'')) (\<lambda>_.
          guarded (check (length attempts < 2)
            (P1DomainError INVALID_STATE ''Automatic attempt limit reached.'')) (\<lambda>_.
          guarded (check (case previous of None \<Rightarrow> True | Some x \<Rightarrow> pa_acceptance x = Rejected_before_accept)
            (P1DomainError INVALID_STATE ''Accepted or unknown work must be recovered, not replayed.'')) (\<lambda>_.
          guarded (check (previous = None \<or> rt_fallbackConsent snapshot)
            (P1DomainError INVALID_STATE ''The frozen route does not authorize fallback.'')) (\<lambda>_.
          op_bind (insertProviderAttempt attempt) (\<lambda>_.
          op_bind (updateGenerationJob (job\<lparr>gj_status := J_running, gj_updatedAt := now_text\<rparr>)) (\<lambda>_ s.
            (Inr (V_attempt attempt), s)))))))) s)))) s"

definition checkpointProviderAttempt ::
    "(ledger_payload \<Rightarrow> string) \<Rightarrow> int \<Rightarrow> int \<Rightarrow> actor_context \<Rightarrow> attempt_input \<Rightarrow> string \<Rightarrow>
       ('v command_value foundation \<times> 'p, bool \<times> 'v command_value) op" where
  "checkpointProviderAttempt hash now audit ctx inp key =
     executeIdempotent audit ctx key (hash (P_attempt inp)) (on_foundation (checkpoint_provider_attempt now ctx inp))"

definition startProviderAttempt ::
    "(ledger_payload \<Rightarrow> string) \<Rightarrow> int \<Rightarrow> int \<Rightarrow> actor_context \<Rightarrow> attempt_input \<Rightarrow> string \<Rightarrow> ('v, 'p) ledger_op" where
  "startProviderAttempt hash now audit ctx inp key =
     op_bind (checkpointProviderAttempt hash now audit ctx inp key) (\<lambda>result st. (Inr (snd result), st))"

definition record_acceptance :: "int \<Rightarrow> actor_context \<Rightarrow> acceptance_input \<Rightarrow> 'v ledger_action" where
  "record_acceptance now ctx inp s =
     guarded (authorizeGenerationLedgerAccess ctx s) (\<lambda>_.
     guarded (requireAttempt (ax_workspaceId ctx) (ri_attemptId inp) s) (\<lambda>attempt.
       if pa_acceptance attempt \<noteq> Acc_pending
       then guarded (check (pa_acceptance attempt = acceptance_of (ri_acceptance inp) \<and>
                            pa_providerTaskRef attempt = ri_providerTaskRef inp)
              (P1DomainError INVALID_STATE ''Provider acceptance evidence is immutable.'')) (\<lambda>_ s.
              (Inr (V_attempt attempt), s))
       else (let updated = attempt\<lparr> pa_acceptance := acceptance_of (ri_acceptance inp),
                                    pa_providerTaskRef := ri_providerTaskRef inp,
                                    pa_status := (if ri_acceptance inp = Ev_rejected then Att_failed else Att_submitted),
                                    pa_updatedAt := to_iso_string now \<rparr>
             in op_bind (updateProviderAttempt updated) (\<lambda>_ s. (Inr (V_attempt updated), s))))) s"

definition recordAttemptAcceptance ::
    "(ledger_payload \<Rightarrow> string) \<Rightarrow> int \<Rightarrow> int \<Rightarrow> actor_context \<Rightarrow> acceptance_input \<Rightarrow> string \<Rightarrow> ('v, 'p) ledger_op" where
  "recordAttemptAcceptance hash now audit ctx inp key =
     run_command audit ctx key (hash (P_acceptance inp)) (on_foundation (record_acceptance now ctx inp))"

definition validateProviderCostAmount :: "cost_facts \<Rightarrow> unit result" where
  "validateProviderCostAmount c =
     (case cf_billingStatus c of
        Some b \<Rightarrow>
          if b = Cost_known then check (case cf_amountMicros c of Some (JInt n) \<Rightarrow> 0 \<le> n | _ \<Rightarrow> False)
            (P1DomainError INVALID_STATE ''Known provider cost must be non-negative integer micros.'')
          else check (cf_amountMicros c = None)
            (P1DomainError INVALID_STATE ''Externally billed or unknown provider cost must not fabricate an amount.'')
      | None \<Rightarrow> check (case cf_amountMicros c of Some (JInt n) \<Rightarrow> 0 \<le> n | _ \<Rightarrow> False)
            (P1DomainError INVALID_STATE ''Known provider cost must be non-negative integer micros.''))"

definition cost_record :: "actor_context \<Rightarrow> string \<Rightarrow> cost_facts \<Rightarrow> provider_cost_event" where
  "cost_record ctx now_text c =
     \<lparr> ce_id = cf_id c, ce_workspaceId = ax_workspaceId ctx, ce_attemptId = cf_attemptId c, ce_stage = cf_stage c,
       ce_amountMicros = cf_amountMicros c, ce_currency = cf_currency c, ce_unit = cf_unit c,
       ce_evidence = cf_evidence c, ce_payer = cf_payer c, ce_billingStatus = cf_billingStatus c,
       ce_actorId = ax_userId ctx, ce_correlationId = ax_correlationId ctx, ce_createdAt = now_text,
       ce_snapshot = cf_snapshot c \<rparr>"

definition append_cost :: "int \<Rightarrow> actor_context \<Rightarrow> cost_facts \<Rightarrow> 'v ledger_action" where
  "append_cost now ctx inp s =
     guarded (authorizeGenerationLedgerAccess ctx s) (\<lambda>_.
     guarded (requireAttempt (ax_workspaceId ctx) (cf_attemptId inp) s) (\<lambda>_.
     guarded (validateProviderCostAmount inp) (\<lambda>_.
       let ev = cost_record ctx (to_iso_string now) inp
       in op_bind (appendCostRecord ev) (\<lambda>_ s. (Inr (V_cost ev), s))))) s"

definition appendProviderCost ::
    "(ledger_payload \<Rightarrow> string) \<Rightarrow> int \<Rightarrow> int \<Rightarrow> actor_context \<Rightarrow> cost_facts \<Rightarrow> string \<Rightarrow> ('v, 'p) ledger_op" where
  "appendProviderCost hash now audit ctx inp key =
     run_command audit ctx key (hash (P_cost inp)) (on_foundation (append_cost now ctx inp))"

section \<open>Outcomes\<close>

definition assertMonotonicProviderOutcome :: "generation_job \<Rightarrow> provider_outcome \<Rightarrow> unit result" where
  "assertMonotonicProviderOutcome job outcome =
     r_bind (check (gj_status job \<notin> {J_completed, J_failed, J_cancelled})
       (P1DomainError INVALID_STATE ''A terminal generation job cannot accept another provider settlement.'')) (\<lambda>_.
       check (gj_status job \<noteq> J_unknown \<or>
              (case outcome of Outcome_completed _ \<Rightarrow> True | Outcome_failed _ \<Rightarrow> True | _ \<Rightarrow> False))
         (P1DomainError INVALID_STATE ''An unknown generation job can advance only to a terminal outcome.''))"

definition hex_digit :: "char \<Rightarrow> bool" where
  "hex_digit c = (let n = char_code c in 48 \<le> n \<and> n \<le> 57 \<or> 97 \<le> n \<and> n \<le> 102 \<or> 65 \<le> n \<and> n \<le> 70)"

text \<open>What both deliveries check of a receipt: the key is the workspace's, the digest well-formed, the size positive.\<close>

definition verified_receipt :: "actor_context \<Rightarrow> asset_receipt \<Rightarrow> bool" where
  "verified_receipt ctx r \<longleftrightarrow>
     starts_with (ax_workspaceId ctx @ ''/'') (ar_objectKey r) \<and>
     length (ar_sha256 r) = 64 \<and> list_all hex_digit (ar_sha256 r) \<and>
     \<not> (case ar_sizeBytes r of None \<Rightarrow> False | Some n \<Rightarrow> n \<le> 0)"

definition asset_record :: "actor_context \<Rightarrow> string \<Rightarrow> asset_receipt \<Rightarrow> owned_asset" where
  "asset_record ctx now_text r =
     \<lparr> oa_id = ar_id r, oa_workspaceId = ax_workspaceId ctx, oa_jobId = ar_jobId r, oa_attemptId = ar_attemptId r,
       oa_objectKey = ar_objectKey r, oa_sha256 = ar_sha256 r, oa_sizeBytes = ar_sizeBytes r,
       oa_mediaType = ar_mediaType r, oa_storageRevision = ar_storageRevision r, oa_createdAt = now_text \<rparr>"

definition outcome_receipt ::
    "actor_context \<Rightarrow> string \<Rightarrow> generation_job \<Rightarrow> provider_attempt \<Rightarrow> provider_outcome \<Rightarrow> owned_asset option result" where
  "outcome_receipt ctx now_text job attempt outcome =
     (case outcome of
        Outcome_completed (Some r) \<Rightarrow>
          r_bind (check (ar_jobId r = gj_id job \<and> ar_attemptId r = pa_id attempt \<and> verified_receipt ctx r)
            (P1DomainError INVALID_STATE ''A verified workspace-owned asset receipt is required.'')) (\<lambda>_.
            Inr (Some (asset_record ctx now_text r)))
      | Outcome_completed None \<Rightarrow>
          r_bind (check (gj_operation job = Copy)
            (P1DomainError INVALID_STATE ''Media delivery requires an owned asset receipt.'')) (\<lambda>_. Inr None)
      | _ \<Rightarrow> Inr None)"

definition acceptance_admissible :: "provider_attempt \<Rightarrow> outcome_input \<Rightarrow> bool" where
  "acceptance_admissible attempt inp =
     (let taskReferenceConflicts = (truthy (pa_providerTaskRef attempt) \<noteq> None \<and>
            truthy (oi_providerTaskRef inp) \<noteq> None \<and> pa_providerTaskRef attempt \<noteq> oi_providerTaskRef inp);
          resolvesUnknownAcceptance = (pa_acceptance attempt = Acceptance_unknown \<and>
            oi_acceptance inp \<noteq> Ev_unknown \<and> \<not> taskReferenceConflicts);
          repeatsAcceptanceEvidence = (pa_acceptance attempt = acceptance_of (oi_acceptance inp) \<and>
            \<not> taskReferenceConflicts)
      in pa_acceptance attempt = Acc_pending \<or> resolvesUnknownAcceptance \<or> repeatsAcceptanceEvidence)"

fun outcome_attempt_status :: "provider_outcome \<Rightarrow> attempt_status" where
  "outcome_attempt_status (Outcome_completed _) = Att_completed"
| "outcome_attempt_status (Outcome_failed _) = Att_failed"
| "outcome_attempt_status (Outcome_retryable _) = Att_failed"
| "outcome_attempt_status (Outcome_unknown _) = Att_submitted"

fun outcome_job_status :: "provider_outcome \<Rightarrow> job_status" where
  "outcome_job_status (Outcome_completed _) = J_completed"
| "outcome_job_status (Outcome_failed _) = J_failed"
| "outcome_job_status (Outcome_retryable _) = J_running"
| "outcome_job_status (Outcome_unknown _) = J_unknown"

definition settle_outcome_usage ::
    "actor_context \<Rightarrow> string \<Rightarrow> generation_job \<Rightarrow> owned_asset option \<Rightarrow> provider_outcome \<Rightarrow> ('v foundation, unit) op" where
  "settle_outcome_usage ctx now_text job asset outcome =
     (case outcome of
        Outcome_completed _ \<Rightarrow>
          op_bind (settleUsageReservation ctx job True
            (if asset \<noteq> None then ''owned_asset_delivered'' else ''copy_output_delivered'') now_text) (\<lambda>_ s. (Inr (), s))
      | Outcome_failed reason \<Rightarrow>
          op_bind (settleUsageReservation ctx job False reason now_text) (\<lambda>_ s. (Inr (), s))
      | _ \<Rightarrow> (\<lambda>s. (Inr (), s)))"

definition assert_outcome :: "provider_attempt \<Rightarrow> generation_job \<Rightarrow> outcome_input \<Rightarrow> unit result" where
  "assert_outcome attempt job inp =
     r_bind (check (map_of (oi_result inp) ''jobId'' = Some (Text_value (gj_id job)))
       (P1DomainError INVALID_STATE ''Generation result does not belong to the checkpointed job.'')) (\<lambda>_.
     r_bind (assertMonotonicProviderOutcome job (oi_outcome inp)) (\<lambda>_.
     r_bind (check (acceptance_admissible attempt inp)
       (P1DomainError INVALID_STATE ''Provider acceptance evidence is immutable.'')) (\<lambda>_.
     r_bind (validateProviderCostAmount (oi_providerCost inp)) (\<lambda>_.
     r_bind (check (case oi_outcome inp of Outcome_completed _ \<Rightarrow> oi_acceptance inp = Ev_accepted | _ \<Rightarrow> True)
       (P1DomainError INVALID_STATE ''Completed delivery requires accepted provider evidence.'')) (\<lambda>_.
       check (case oi_outcome inp of Outcome_unknown _ \<Rightarrow> oi_acceptance inp \<noteq> Ev_rejected | _ \<Rightarrow> True)
         (P1DomainError INVALID_STATE ''A rejected request cannot have unknown delivery.''))))))"

definition settle_outcome :: "int \<Rightarrow> actor_context \<Rightarrow> outcome_input \<Rightarrow> 'v ledger_action" where
  "settle_outcome now ctx inp s =
     guarded (authorizeGenerationLedgerAccess ctx s) (\<lambda>_.
     guarded (requireAttempt (ax_workspaceId ctx) (oi_attemptId inp) s) (\<lambda>attempt.
     guarded (requireJob (ax_workspaceId ctx) (pa_jobId attempt) s) (\<lambda>job.
     guarded (assert_outcome attempt job inp) (\<lambda>_.
       let now_text = to_iso_string now;
           updatedAttempt = attempt\<lparr> pa_acceptance := acceptance_of (oi_acceptance inp),
             pa_providerTaskRef := (if truthy (oi_providerTaskRef inp) \<noteq> None then oi_providerTaskRef inp
                                    else pa_providerTaskRef attempt),
             pa_status := outcome_attempt_status (oi_outcome inp), pa_updatedAt := now_text \<rparr>;
           updatedJob = job\<lparr> gj_status := outcome_job_status (oi_outcome inp),
             gj_result := Some (oi_result inp), gj_updatedAt := now_text \<rparr>
       in op_bind (appendCostRecord (cost_record ctx now_text (oi_providerCost inp))) (\<lambda>_.
          guarded (outcome_receipt ctx now_text job attempt (oi_outcome inp)) (\<lambda>asset.
          op_bind (case asset of None \<Rightarrow> (\<lambda>s. (Inr (), s)) | Some a \<Rightarrow> insertOwnedAsset a) (\<lambda>_.
          op_bind (updateProviderAttempt updatedAttempt) (\<lambda>_.
          op_bind (settle_outcome_usage ctx now_text job asset (oi_outcome inp)) (\<lambda>_.
          op_bind (updateGenerationJob updatedJob) (\<lambda>_ s.
            (Inr (V_outcome updatedJob updatedAttempt asset), s))))))))))) s"

definition settleProviderOutcome ::
    "(ledger_payload \<Rightarrow> string) \<Rightarrow> int \<Rightarrow> int \<Rightarrow> actor_context \<Rightarrow> outcome_input \<Rightarrow> string \<Rightarrow> ('v, 'p) ledger_op" where
  "settleProviderOutcome hash now audit ctx inp key =
     run_command audit ctx key (hash (P_outcome inp)) (on_foundation (settle_outcome now ctx inp))"

definition record_asset :: "int \<Rightarrow> actor_context \<Rightarrow> asset_receipt \<Rightarrow> 'v ledger_action" where
  "record_asset now ctx inp s =
     guarded (authorizeGenerationLedgerAccess ctx s) (\<lambda>_.
     guarded (requireJob (ax_workspaceId ctx) (ar_jobId inp) s) (\<lambda>job.
     guarded (case map_of (fs_attempts s) (scoped (ax_workspaceId ctx) (ar_attemptId inp)) of
                Some x \<Rightarrow> if pa_jobId x = gj_id job \<and> pa_acceptance x = Accepted then Inr x
                  else Inl (P1DomainError INVALID_STATE ''An accepted attempt is required for asset delivery.'')
              | None \<Rightarrow> Inl (P1DomainError INVALID_STATE ''An accepted attempt is required for asset delivery.'')) (\<lambda>attempt.
     guarded (check (verified_receipt ctx inp)
       (P1DomainError INVALID_STATE ''A verified workspace-owned asset receipt is required.'')) (\<lambda>_.
       let now_text = to_iso_string now; asset = asset_record ctx now_text inp
       in op_bind (insertOwnedAsset asset) (\<lambda>_.
          op_bind (updateProviderAttempt (attempt\<lparr>pa_status := Att_completed, pa_updatedAt := now_text\<rparr>)) (\<lambda>_.
          op_bind (updateGenerationJob (job\<lparr>gj_status := J_completed, gj_updatedAt := now_text\<rparr>)) (\<lambda>_ s.
            let usage = listUsageEvents s (ax_workspaceId ctx) (gj_operation job);
                reservation = reservation_of usage (gj_usageReservationId job)
            in guarded (check (reservation \<noteq> None \<or> isZeroValueUsageReservation (gj_usageReservationId job))
                 (P1DomainError INVALID_STATE ''Usage reservation was not found.'')) (\<lambda>_.
               op_bind (case terminal_of usage (gj_usageReservationId job) of
                   Some t \<Rightarrow> guarded (check (ue_action t = U_commit)
                     (P1DomainError INVALID_STATE ''Usage reservation was already released.'')) (\<lambda>_ s. (Inr (), s))
                 | None \<Rightarrow>
                     (case reservation of
                        None \<Rightarrow> (\<lambda>s. (Inr (), s))
                      | Some x \<Rightarrow> appendUsageRecord (usage_record ctx now_text (''asset:'' @ oa_id asset @ '':commit'')
                          (gj_operation job) U_commit (ue_amount x) (Some (gj_usageReservationId job))
                          ''owned_asset_delivered''))) (\<lambda>_ s. (Inr (V_asset asset), s))) s))))))) s"

definition recordAssetReceipt ::
    "(ledger_payload \<Rightarrow> string) \<Rightarrow> int \<Rightarrow> int \<Rightarrow> actor_context \<Rightarrow> asset_receipt \<Rightarrow> string \<Rightarrow> ('v, 'p) ledger_op" where
  "recordAssetReceipt hash now audit ctx inp key =
     run_command audit ctx key (hash (P_asset inp)) (on_foundation (record_asset now ctx inp))"

definition settle_failure :: "int \<Rightarrow> actor_context \<Rightarrow> string \<Rightarrow> string \<Rightarrow> 'v ledger_action" where
  "settle_failure now ctx jobId reason s =
     guarded (authorizeGenerationLedgerAccess ctx s) (\<lambda>_.
     guarded (requireJob (ax_workspaceId ctx) jobId s) (\<lambda>job.
     guarded (check (gj_status job \<notin> {J_completed, J_cancelled})
       (P1DomainError INVALID_STATE ''A delivered or cancelled job cannot fail.'')) (\<lambda>_ s.
       let events = listUsageEvents s (ax_workspaceId ctx) (gj_operation job);
           reservation = reservation_of events (gj_usageReservationId job);
           terminal = terminal_of events (gj_usageReservationId job);
           now_text = to_iso_string now;
           failed = job\<lparr>gj_status := J_failed, gj_updatedAt := now_text\<rparr>
       in guarded (check (reservation \<noteq> None \<or> isZeroValueUsageReservation (gj_usageReservationId job))
            (P1DomainError INVALID_STATE ''Usage reservation was not found.'')) (\<lambda>_.
          guarded (check (case terminal of None \<Rightarrow> True | Some t \<Rightarrow> ue_action t = U_refund)
            (P1DomainError INVALID_STATE ''Usage reservation already has another terminal result.'')) (\<lambda>_.
          op_bind (case (terminal, reservation) of
                     (None, Some x) \<Rightarrow> appendUsageRecord (usage_record ctx now_text (''job:'' @ gj_id job @ '':refund'')
                       (gj_operation job) U_refund (ue_amount x) (Some (gj_usageReservationId job)) reason)
                   | _ \<Rightarrow> (\<lambda>s. (Inr (), s))) (\<lambda>_.
          op_bind (updateGenerationJob failed) (\<lambda>_ s. (Inr (V_job failed), s))))) s))) s"

definition settleGenerationFailure ::
    "(ledger_payload \<Rightarrow> string) \<Rightarrow> int \<Rightarrow> int \<Rightarrow> actor_context \<Rightarrow> string \<Rightarrow> string \<Rightarrow> string \<Rightarrow> ('v, 'p) ledger_op" where
  "settleGenerationFailure hash now audit ctx jobId reason key =
     run_command audit ctx key (hash (P_reason jobId reason)) (on_foundation (settle_failure now ctx jobId reason))"

definition compensate_usage :: "int \<Rightarrow> actor_context \<Rightarrow> string \<Rightarrow> string \<Rightarrow> 'v ledger_action" where
  "compensate_usage now ctx jobId reason s =
     guarded (authorizeGenerationLedgerAccess ctx s) (\<lambda>_.
     guarded (requireJob (ax_workspaceId ctx) jobId s) (\<lambda>job s.
       let events = listUsageEvents s (ax_workspaceId ctx) (gj_operation job);
           record = (\<lambda>i action amount. usage_record ctx (to_iso_string now) i (gj_operation job) action amount
             (Some (gj_usageReservationId job)) reason)
       in case reservation_of events (gj_usageReservationId job) of
            None \<Rightarrow>
              if isZeroValueUsageReservation (gj_usageReservationId job)
              then (Inr (V_compensation Kind_already_released 0), s)
              else (Inl (P1DomainError INVALID_STATE ''Usage reservation was not found.''), s)
          | Some reservation \<Rightarrow>
              (case terminal_of events (gj_usageReservationId job) of
                 None \<Rightarrow>
                   op_bind (appendUsageRecord (record (''job:'' @ gj_id job @ '':refund'') U_refund (ue_amount reservation)))
                     (\<lambda>_ s. (Inr (V_compensation Kind_refund (ue_amount reservation)), s)) s
               | Some t \<Rightarrow>
                   if ue_action t \<noteq> U_commit then (Inr (V_compensation Kind_already_released 0), s)
                   else (let i = ''job:'' @ gj_id job @ '':compensate:'' @ reason
                         in case find (\<lambda>x. ue_id x = i) events of
                              Some x \<Rightarrow> (Inr (V_compensation Kind_compensate (ue_amount x)), s)
                            | None \<Rightarrow>
                                op_bind (appendUsageRecord (record i U_compensate (ue_amount reservation)))
                                  (\<lambda>_ s. (Inr (V_compensation Kind_compensate (ue_amount reservation)), s)) s)))) s"

definition compensateCommittedUsage ::
    "(ledger_payload \<Rightarrow> string) \<Rightarrow> int \<Rightarrow> int \<Rightarrow> actor_context \<Rightarrow> string \<Rightarrow> string \<Rightarrow> string \<Rightarrow> ('v, 'p) ledger_op" where
  "compensateCommittedUsage hash now audit ctx jobId reason key =
     run_command audit ctx key (hash (P_reason jobId reason)) (on_foundation (compensate_usage now ctx jobId reason))"

section \<open>Reads\<close>

definition getGenerationJob :: "actor_context \<Rightarrow> string \<Rightarrow> 'v foundation \<Rightarrow> generation_job result" where
  "getGenerationJob ctx jobId s =
     r_bind (authorizeGenerationLedgerAccess ctx s) (\<lambda>_. requireJob (ax_workspaceId ctx) jobId s)"

definition getRouteSnapshot :: "actor_context \<Rightarrow> string \<Rightarrow> 'v foundation \<Rightarrow> route_snapshot result" where
  "getRouteSnapshot ctx snapshotId s =
     r_bind (authorizeGenerationLedgerAccess ctx s) (\<lambda>_. requireSnapshot (ax_workspaceId ctx) snapshotId s)"

definition getProviderAttempt :: "actor_context \<Rightarrow> string \<Rightarrow> 'v foundation \<Rightarrow> provider_attempt result" where
  "getProviderAttempt ctx attemptId s =
     r_bind (authorizeGenerationLedgerAccess ctx s) (\<lambda>_. requireAttempt (ax_workspaceId ctx) attemptId s)"

definition getOwnedAsset :: "actor_context \<Rightarrow> string \<Rightarrow> 'v foundation \<Rightarrow> owned_asset result" where
  "getOwnedAsset ctx assetId s =
     r_bind (authorizeGenerationLedgerAccess ctx s) (\<lambda>_.
       case map_of (fs_assets s) (scoped (ax_workspaceId ctx) assetId) of
         None \<Rightarrow> Inl (P1DomainError NOT_FOUND ''Owned asset was not found.'')
       | Some x \<Rightarrow> Inr x)"

definition listProviderCosts :: "actor_context \<Rightarrow> string \<Rightarrow> 'v foundation \<Rightarrow> provider_cost_event list result" where
  "listProviderCosts ctx attemptId s =
     r_bind (authorizeGenerationLedgerAccess ctx s) (\<lambda>_.
       Inr (filter (\<lambda>x. ce_workspaceId x = ax_workspaceId ctx \<and> ce_attemptId x = attemptId) (fs_providerCosts s)))"

definition listCommandAudits :: "actor_context \<Rightarrow> 'v foundation \<Rightarrow> command_audit list result" where
  "listCommandAudits ctx s =
     r_bind (authorizeOwner ctx s) (\<lambda>_. Inr (filter (\<lambda>x. au_workspaceId x = ax_workspaceId ctx) (fs_commandAudits s)))"

end
