(* ===== verification/GenerationLedgerCorrect.thy ===== *)
theory GenerationLedgerCorrect
  imports GenerationLedger
begin

text \<open>
  The invariants of the generation ledger: the tables are keyed by workspace and identifier, the
  attempts of a job are numbered and every one but the last was rejected before the provider took
  it, and a finished job has ended its reservation the matching way. The commands are characterised
  by their effect on the tables; a failed command is rolled back.
\<close>

section \<open>Keys\<close>

definition plain :: "string \<Rightarrow> bool" where
  "plain ws \<longleftrightarrow> CHR '':'' \<notin> set ws"

lemma append_colon_eq:
  "CHR '':'' \<notin> set xs \<Longrightarrow> CHR '':'' \<notin> set ys \<Longrightarrow> xs @ CHR '':'' # as = ys @ CHR '':'' # bs \<longleftrightarrow> xs = ys \<and> as = bs"
proof (induction xs arbitrary: ys)
  case Nil
  then show ?case by (cases ys) auto
next
  case (Cons x xs)
  then show ?case by (cases ys) auto
qed

lemma scoped_eq: "plain ws \<Longrightarrow> plain ws' \<Longrightarrow> scoped ws i = scoped ws' i' \<longleftrightarrow> ws = ws' \<and> i = i'"
  by (simp add: scoped_def plain_def append_colon_eq)

section \<open>The tables\<close>

lemma appendUsageRecord_Inr:
  "appendUsageRecord ev s = (Inr u, s') \<Longrightarrow> s' = s\<lparr>fs_usageEvents := fs_usageEvents s @ [ev]\<rparr>"
  by (simp add: appendUsageRecord_def split: if_splits)

lemma appendCostRecord_Inr:
  "appendCostRecord ev s = (Inr u, s') \<Longrightarrow> s' = s\<lparr>fs_providerCosts := fs_providerCosts s @ [ev]\<rparr>"
  by (simp add: appendCostRecord_def split: if_splits)

lemma insertOwnedAsset_Inr:
  "insertOwnedAsset x s = (Inr u, s') \<Longrightarrow> s' = s\<lparr>fs_assets := map_set (scoped (oa_workspaceId x) (oa_id x)) x (fs_assets s)\<rparr>"
  by (simp add: insertOwnedAsset_def Let_def split: if_splits)

lemma insertRouteSnapshot_Inr:
  "insertRouteSnapshot x s = (Inr u, s') \<Longrightarrow>
    s' = s\<lparr>fs_routeSnapshots := map_set (scoped (rt_workspaceId x) (rt_id x)) x (fs_routeSnapshots s)\<rparr>"
  by (simp add: insertRouteSnapshot_def Let_def split: if_splits)

lemma insertGenerationJob_Inr:
  "insertGenerationJob x s = (Inr u, s') \<Longrightarrow>
    map_of (fs_generationJobs s) (scoped (gj_workspaceId x) (gj_id x)) = None \<and>
    s' = s\<lparr>fs_generationJobs := map_set (scoped (gj_workspaceId x) (gj_id x)) x (fs_generationJobs s)\<rparr>"
  by (simp add: insertGenerationJob_def Let_def split: if_splits)

lemma updateGenerationJob_Inr:
  "updateGenerationJob x s = (Inr u, s') \<Longrightarrow>
    s' = s\<lparr>fs_generationJobs := map_set (scoped (gj_workspaceId x) (gj_id x)) x (fs_generationJobs s)\<rparr>"
  by (simp add: updateGenerationJob_def Let_def split: if_splits)

lemma insertProviderAttempt_Inr:
  "insertProviderAttempt x s = (Inr u, s') \<Longrightarrow>
    map_of (fs_attempts s) (scoped (pa_workspaceId x) (pa_id x)) = None \<and>
    s' = s\<lparr>fs_attempts := map_set (scoped (pa_workspaceId x) (pa_id x)) x (fs_attempts s)\<rparr>"
  by (simp add: insertProviderAttempt_def Let_def split: if_splits)

lemma updateProviderAttempt_Inr:
  "updateProviderAttempt x s = (Inr u, s') \<Longrightarrow>
    s' = s\<lparr>fs_attempts := map_set (scoped (pa_workspaceId x) (pa_id x)) x (fs_attempts s)\<rparr>"
  by (simp add: updateProviderAttempt_def Let_def split: if_splits)

lemma requireJob_Inr [simp]:
  "requireJob ws i s = Inr j \<longleftrightarrow> map_of (fs_generationJobs s) (scoped ws i) = Some j"
  by (auto simp: requireJob_def split: option.splits)

lemma requireAttempt_Inr [simp]:
  "requireAttempt ws i s = Inr x \<longleftrightarrow> map_of (fs_attempts s) (scoped ws i) = Some x"
  by (auto simp: requireAttempt_def split: option.splits)

lemmas table_ops = appendUsageRecord_Inr appendCostRecord_Inr insertOwnedAsset_Inr insertRouteSnapshot_Inr
  insertGenerationJob_Inr updateGenerationJob_Inr insertProviderAttempt_Inr updateProviderAttempt_Inr

lemma table_usage [simp]:
  "appendCostRecord c s = (Inr u, s') \<Longrightarrow> fs_usageEvents s' = fs_usageEvents s"
  "insertOwnedAsset a s = (Inr u, s') \<Longrightarrow> fs_usageEvents s' = fs_usageEvents s"
  "insertRouteSnapshot x s = (Inr u, s') \<Longrightarrow> fs_usageEvents s' = fs_usageEvents s"
  "insertGenerationJob j s = (Inr u, s') \<Longrightarrow> fs_usageEvents s' = fs_usageEvents s"
  "updateGenerationJob j s = (Inr u, s') \<Longrightarrow> fs_usageEvents s' = fs_usageEvents s"
  "insertProviderAttempt y s = (Inr u, s') \<Longrightarrow> fs_usageEvents s' = fs_usageEvents s"
  "updateProviderAttempt y s = (Inr u, s') \<Longrightarrow> fs_usageEvents s' = fs_usageEvents s"
  by (auto dest!: table_ops)

section \<open>Usage events of a reservation\<close>

lemma listUsageEvents_append:
  "listUsageEvents (s\<lparr>fs_usageEvents := fs_usageEvents s @ [ev]\<rparr>) ws r =
     listUsageEvents s ws r @ (if ue_workspaceId ev = ws \<and> ue_resource ev = r then [ev] else [])"
  by (simp add: listUsageEvents_def)

lemma terminal_of_extend:
  assumes "fs_usageEvents s' = fs_usageEvents s @ evs" and "terminal_of (listUsageEvents s ws r) i = Some t"
  shows "terminal_of (listUsageEvents s' ws r) i = Some t"
  using assms by (simp add: listUsageEvents_def terminal_of_def find_append)

text \<open>Events of the repository are only added.\<close>

definition extends :: "'v foundation \<Rightarrow> 'v foundation \<Rightarrow> bool" where
  "extends s s' \<longleftrightarrow> (\<exists>evs. fs_usageEvents s' = fs_usageEvents s @ evs)"

lemma extends_refl [simp]: "fs_usageEvents s' = fs_usageEvents s \<Longrightarrow> extends s s'"
  by (simp add: extends_def)

lemma extends_trans: "extends s s1 \<Longrightarrow> extends s1 s2 \<Longrightarrow> extends s s2"
  by (auto simp: extends_def)

section \<open>The invariants\<close>

definition keyed :: "'v foundation \<Rightarrow> bool" where
  "keyed s \<longleftrightarrow> distinct (map fst (fs_attempts s)) \<and>
     (\<forall>(k, x) \<in> set (fs_attempts s). plain (pa_workspaceId x) \<and> k = scoped (pa_workspaceId x) (pa_id x) \<and>
        map_of (fs_generationJobs s) (scoped (pa_workspaceId x) (pa_jobId x)) \<noteq> None) \<and>
     (\<forall>k j. map_of (fs_generationJobs s) k = Some j \<longrightarrow>
        plain (gj_workspaceId j) \<and> k = scoped (gj_workspaceId j) (gj_id j))"

definition in_order :: "provider_attempt list \<Rightarrow> bool" where
  "in_order as \<longleftrightarrow> length as \<le> 2 \<and> map pa_ordinal as = [1..<Suc (length as)] \<and>
     (\<forall>x \<in> set (butlast as). pa_acceptance x = Rejected_before_accept)"

definition dispatched_in_order :: "'v foundation \<Rightarrow> bool" where
  "dispatched_in_order s \<longleftrightarrow> (\<forall>ws i. in_order (listProviderAttempts s ws i))"

definition ended_as :: "'v foundation \<Rightarrow> generation_job \<Rightarrow> usage_action \<Rightarrow> bool" where
  "ended_as s j a \<longleftrightarrow> isZeroValueUsageReservation (gj_usageReservationId j) \<or>
     (\<exists>t. terminal_of (listUsageEvents s (gj_workspaceId j) (gj_operation j)) (gj_usageReservationId j) = Some t \<and>
          ue_action t = a)"

definition job_settled :: "'v foundation \<Rightarrow> generation_job \<Rightarrow> bool" where
  "job_settled s j \<longleftrightarrow>
     (gj_status j = J_completed \<longrightarrow> ended_as s j U_commit) \<and> (gj_status j = J_failed \<longrightarrow> ended_as s j U_refund)"

definition jobs_settled :: "'v foundation \<Rightarrow> bool" where
  "jobs_settled s \<longleftrightarrow> (\<forall>k j. map_of (fs_generationJobs s) k = Some j \<longrightarrow> job_settled s j)"

definition generation_inv :: "'v foundation \<Rightarrow> bool" where
  "generation_inv s \<longleftrightarrow> keyed s \<and> dispatched_in_order s \<and> jobs_settled s"

lemma ended_as_extends: "extends s s' \<Longrightarrow> ended_as s j a \<Longrightarrow> ended_as s' j a"
  unfolding ended_as_def extends_def using terminal_of_extend by blast

lemma job_settled_extends: "extends s s' \<Longrightarrow> job_settled s j \<Longrightarrow> job_settled s' j"
  unfolding job_settled_def using ended_as_extends by blast

lemma keyed_job:
  assumes "keyed s" and "map_of (fs_generationJobs s) (scoped ws i) = Some j" and "plain ws"
  shows "gj_workspaceId j = ws" and "gj_id j = i"
proof -
  have "plain (gj_workspaceId j)" "scoped ws i = scoped (gj_workspaceId j) (gj_id j)"
    using assms(1,2) unfolding keyed_def by blast+
  then show "gj_workspaceId j = ws" "gj_id j = i" using assms(3) by (simp_all add: scoped_eq)
qed

lemma keyed_attempt:
  assumes "keyed s" and "map_of (fs_attempts s) (scoped ws i) = Some x" and "plain ws"
  shows "pa_workspaceId x = ws" and "pa_id x = i"
proof -
  have "(scoped ws i, x) \<in> set (fs_attempts s)" using assms(2) by (rule map_of_SomeD)
  then have "plain (pa_workspaceId x)" "scoped ws i = scoped (pa_workspaceId x) (pa_id x)"
    using assms(1) unfolding keyed_def by blast+
  then show "pa_workspaceId x = ws" "pa_id x = i" using assms(3) by (simp_all add: scoped_eq)
qed

lemma keyed_entry:
  assumes "keyed s" and "(k, x) \<in> set (fs_attempts s)"
  shows "plain (pa_workspaceId x)" "k = scoped (pa_workspaceId x) (pa_id x)"
    "map_of (fs_generationJobs s) (scoped (pa_workspaceId x) (pa_jobId x)) \<noteq> None"
  using assms unfolding keyed_def by blast+

section \<open>Changes of the job and attempt tables\<close>

text \<open>A job is stored: a new one, or one that only moved on.\<close>

lemma store_job:
  assumes "generation_inv s" and "extends s s'" and "job_settled s' j" and "plain (gj_workspaceId j)"
    and "fs_attempts s' = fs_attempts s"
    and "fs_generationJobs s' = map_set (scoped (gj_workspaceId j) (gj_id j)) j (fs_generationJobs s)"
  shows "generation_inv s'"
proof -
  have "keyed s'"
    using assms(1,4) unfolding generation_inv_def keyed_def assms(5,6) by (auto split: if_splits)
  moreover have "jobs_settled s'"
    using assms(1,3) job_settled_extends [OF assms(2)] unfolding generation_inv_def jobs_settled_def assms(6)
    by (auto split: if_splits)
  moreover have "dispatched_in_order s'"
    using assms(1) unfolding generation_inv_def dispatched_in_order_def listProviderAttempts_def assms(5) by blast
  ultimately show ?thesis by (simp add: generation_inv_def)
qed

text \<open>An attempt is updated: its evidence of a rejection is never taken back.\<close>

definition moved_on :: "provider_attempt \<Rightarrow> provider_attempt \<Rightarrow> bool" where
  "moved_on x y \<longleftrightarrow> pa_workspaceId y = pa_workspaceId x \<and> pa_jobId y = pa_jobId x \<and> pa_id y = pa_id x \<and>
     pa_ordinal y = pa_ordinal x \<and>
     (pa_acceptance x = Rejected_before_accept \<longrightarrow> pa_acceptance y = Rejected_before_accept)"

lemma moved_on_refl [simp]: "moved_on x x"
  by (simp add: moved_on_def)

lemma map_set_all2:
  assumes "map_of m k = Some x" and "R x y" and "\<And>z. R z z"
  shows "list_all2 R (map snd m) (map snd (map_set k y m))"
  using assms(1)
proof (induction m)
  case Nil
  then show ?case by simp
next
  case (Cons p m)
  have "list_all2 R zs zs" for zs using assms(3) by (simp add: list_all2_refl)
  then show ?case using Cons assms(2,3) by (cases p) (auto split: if_splits)
qed

lemma list_all2_filter:
  assumes "list_all2 R xs ys" and "\<And>x y. R x y \<Longrightarrow> P x = P y"
  shows "list_all2 R (filter P xs) (filter P ys)"
  using assms(1) by (induction rule: list_all2_induct) (auto dest: assms(2))

lemma in_order_moved:
  assumes "list_all2 moved_on xs ys" and "in_order xs"
  shows "in_order ys"
proof -
  have len: "length ys = length xs" using assms(1) by (simp add: list_all2_lengthD)
  have nth: "moved_on (xs ! i) (ys ! i)" if "i < length xs" for i
    using assms(1) that by (rule list_all2_nthD)
  have "map pa_ordinal ys = map pa_ordinal xs"
    using nth len by (intro nth_equalityI) (simp_all add: moved_on_def)
  moreover have "pa_acceptance y = Rejected_before_accept" if y: "y \<in> set (butlast ys)" for y
  proof -
    obtain i where i: "i < length ys - 1" "y = ys ! i"
      using y by (auto simp: in_set_conv_nth nth_butlast)
    then have "xs ! i \<in> set (butlast xs)" using len by (auto simp: in_set_conv_nth nth_butlast intro!: exI [of _ i])
    then show ?thesis using assms(2) nth [of i] i len unfolding in_order_def moved_on_def by auto
  qed
  ultimately show ?thesis using assms(2) len by (simp add: in_order_def)
qed

lemma store_attempt:
  assumes "generation_inv s" and "map_of (fs_attempts s) k = Some x" and "moved_on x y" and "extends s s'"
    and "fs_attempts s' = map_set k y (fs_attempts s)" and "fs_generationJobs s' = fs_generationJobs s"
  shows "generation_inv s'"
proof -
  have kx: "(k, x) \<in> set (fs_attempts s)" using assms(2) by (rule map_of_SomeD)
  note entry = keyed_entry [OF _ kx]
  have keyed: "keyed s" using assms(1) by (simp add: generation_inv_def)
  have "(k, y) = (scoped (pa_workspaceId y) (pa_id y), y) \<and> plain (pa_workspaceId y) \<and>
      map_of (fs_generationJobs s) (scoped (pa_workspaceId y) (pa_jobId y)) \<noteq> None"
    using entry [OF keyed] assms(3) by (simp add: moved_on_def)
  then have "keyed s'"
    using keyed set_map_set [of k y "fs_attempts s"] unfolding keyed_def assms(5,6)
    by (auto simp: distinct_map_set)
  moreover have "jobs_settled s'"
    using assms(1) job_settled_extends [OF assms(4)] unfolding generation_inv_def jobs_settled_def assms(6) by blast
  moreover have "in_order (listProviderAttempts s' ws i)" for ws i
  proof (rule in_order_moved)
    show "list_all2 moved_on (listProviderAttempts s ws i) (listProviderAttempts s' ws i)"
      unfolding listProviderAttempts_def assms(5)
      by (rule list_all2_filter [OF map_set_all2 [where R = moved_on, OF assms(2,3) moved_on_refl]]) (auto simp: moved_on_def)
    show "in_order (listProviderAttempts s ws i)"
      using assms(1) by (simp add: generation_inv_def dispatched_in_order_def)
  qed
  ultimately show ?thesis by (simp add: generation_inv_def dispatched_in_order_def)
qed

text \<open>A new attempt follows those of its job.\<close>

lemma add_attempt:
  assumes "generation_inv s" and "map_of (fs_attempts s) (scoped (pa_workspaceId y) (pa_id y)) = None"
    and "plain (pa_workspaceId y)"
    and "map_of (fs_generationJobs s) (scoped (pa_workspaceId y) (pa_jobId y)) \<noteq> None"
    and "in_order (listProviderAttempts s (pa_workspaceId y) (pa_jobId y) @ [y])" and "extends s s'"
    and "fs_attempts s' = map_set (scoped (pa_workspaceId y) (pa_id y)) y (fs_attempts s)"
    and "fs_generationJobs s' = fs_generationJobs s"
  shows "generation_inv s'"
proof -
  have append: "fs_attempts s' = fs_attempts s @ [(scoped (pa_workspaceId y) (pa_id y), y)]"
    unfolding assms(7) by (rule map_set_fresh) (metis assms(2) map_of_eq_None_iff)
  have "keyed s'"
    using assms(1,2,3,4) unfolding generation_inv_def keyed_def append assms(8) map_of_eq_None_iff by auto
  moreover have "jobs_settled s'"
    using assms(1) job_settled_extends [OF assms(6)] unfolding generation_inv_def jobs_settled_def assms(8) by blast
  moreover have "in_order (listProviderAttempts s' ws i)" for ws i
    using assms(1,5) unfolding listProviderAttempts_def append generation_inv_def dispatched_in_order_def by auto
  ultimately show ?thesis by (simp add: generation_inv_def dispatched_in_order_def)
qed

text \<open>Nothing but events, costs, assets, routes and the log of commands.\<close>

definition quiet :: "'v foundation \<Rightarrow> 'v foundation \<Rightarrow> bool" where
  "quiet s s' \<longleftrightarrow> extends s s' \<and> fs_attempts s' = fs_attempts s \<and> fs_generationJobs s' = fs_generationJobs s"

lemma quiet_refl [simp]: "quiet s s"
  by (simp add: quiet_def)

lemma quiet_trans: "quiet s s1 \<Longrightarrow> quiet s1 s2 \<Longrightarrow> quiet s s2"
  by (auto simp: quiet_def intro: extends_trans)

lemma quiet_inv:
  assumes "quiet s s'" and "generation_inv s"
  shows "generation_inv s'"
proof -
  have tables: "fs_attempts s' = fs_attempts s" "fs_generationJobs s' = fs_generationJobs s" and ext: "extends s s'"
    using assms(1) by (simp_all add: quiet_def)
  have "keyed s'" using assms(2) unfolding generation_inv_def keyed_def tables by blast
  moreover have "dispatched_in_order s'"
    using assms(2) unfolding generation_inv_def dispatched_in_order_def listProviderAttempts_def tables by blast
  moreover have "jobs_settled s'"
    using assms(2) job_settled_extends [OF ext] unfolding generation_inv_def jobs_settled_def tables by blast
  ultimately show ?thesis by (simp add: generation_inv_def)
qed

lemma job_settled_jobs [simp]: "job_settled (s\<lparr>fs_generationJobs := m\<rparr>) j = job_settled s j"
  by (simp add: job_settled_def ended_as_def listUsageEvents_def)

lemma quiet_ops:
  "appendUsageRecord ev s = (Inr u, s') \<Longrightarrow> quiet s s'"
  "appendCostRecord c s = (Inr u, s') \<Longrightarrow> quiet s s'"
  "insertOwnedAsset a s = (Inr u, s') \<Longrightarrow> quiet s s'"
  "insertRouteSnapshot x s = (Inr u, s') \<Longrightarrow> quiet s s'"
  by (auto dest!: table_ops simp: quiet_def extends_def)

section \<open>The commands\<close>

lemma append_usage_quiet:
  "append_usage now ctx inp s = (Inr v, s') \<Longrightarrow> quiet s s'"
  unfolding append_usage_def guarded_Inr op_bind_Inr Let_def
  by (elim exE conjE) (auto split: option.splits simp: op_bind_Inr intro: quiet_ops)

lemma open_entitlement_quiet: "open_entitlement now ctx inp s = (Inr u, s') \<Longrightarrow> quiet s s'"
  by (auto simp: open_entitlement_def Let_def split: option.splits if_splits intro: quiet_ops)

lemma reserve_quiet: "reserve_for_checkpoint now ctx inp s = (Inr u, s') \<Longrightarrow> quiet s s'"
  by (auto simp: reserve_for_checkpoint_def Let_def split: option.splits if_splits intro: quiet_ops)

lemma new_job_settled: "status \<noteq> J_completed \<Longrightarrow> status \<noteq> J_failed \<Longrightarrow> job_settled s (new_job ctx t i r x u status)"
  by (simp add: job_settled_def new_job_def)

lemma new_job_facts [simp]:
  "gj_workspaceId (new_job ctx t i r x u status) = ax_workspaceId ctx" "gj_id (new_job ctx t i r x u status) = i"
  by (simp_all add: new_job_def)

lemma new_attempt_facts [simp]:
  "pa_workspaceId (new_attempt ctx t i j n d) = ax_workspaceId ctx" "pa_id (new_attempt ctx t i j n d) = i"
  "pa_jobId (new_attempt ctx t i j n d) = j" "pa_ordinal (new_attempt ctx t i j n d) = n"
  by (simp_all add: new_attempt_def)

lemma insert_job_keeps:
  assumes "generation_inv s" and "insertGenerationJob j s = (Inr u, s')" and "job_settled s j" and "plain (gj_workspaceId j)"
  shows "generation_inv s'"
proof -
  note run = insertGenerationJob_Inr [OF assms(2)]
  then have "extends s s'" by simp
  then show ?thesis
    using assms(1,3,4) run job_settled_extends by (intro store_job [of s s' j]) auto
qed

lemma start_keeps:
  assumes "generation_inv s" and "plain (ax_workspaceId ctx)" and "start_generation now ctx inp s = (Inr v, s')"
  shows "generation_inv s'"
proof -
  obtain s1 where "insertRouteSnapshot (frozen_route ctx (to_iso_string now) (sg_routeSnapshot inp)) s = (Inr (), s1)"
    and job: "insertGenerationJob (new_job ctx (to_iso_string now) (sg_jobId inp) (sg_operation inp)
      (rt_id (frozen_route ctx (to_iso_string now) (sg_routeSnapshot inp))) (sg_usageReservationId inp) J_queued) s1 = (Inr (), s')"
    using assms(3) unfolding start_generation_def guarded_Inr op_bind_Inr Let_def by auto
  then have "generation_inv s1" using quiet_inv [OF quiet_ops(4)] assms(1) by blast
  from insert_job_keeps [OF this job] show ?thesis using assms(2) by (simp add: new_job_settled)
qed

lemma no_job_no_attempts:
  assumes "generation_inv s" and "map_of (fs_generationJobs s) (scoped ws i) = None"
  shows "listProviderAttempts s ws i = []"
proof -
  have none: False if "(k, x) \<in> set (fs_attempts s)" "pa_workspaceId x = ws" "pa_jobId x = i" for k x
    using keyed_entry(3) [OF _ that(1)] that(2,3) assms by (auto simp: generation_inv_def)
  show ?thesis unfolding listProviderAttempts_def filter_empty_conv by (auto dest: none)
qed

lemma add_attempt_op:
  assumes "generation_inv s" and "insertProviderAttempt y s = (Inr u, s')" and "plain (pa_workspaceId y)"
    and "map_of (fs_generationJobs s) (scoped (pa_workspaceId y) (pa_jobId y)) \<noteq> None"
    and "in_order (listProviderAttempts s (pa_workspaceId y) (pa_jobId y) @ [y])"
  shows "generation_inv s'"
  using insertProviderAttempt_Inr [OF assms(2)] assms(1,3-5) by (intro add_attempt [of s y s']) auto

lemma checkpoint_keeps:
  assumes "generation_inv s" and "plain (ax_workspaceId ctx)" and "checkpoint_attempt now ctx inp s = (Inr v, s')"
  shows "generation_inv s'"
proof -
  let ?t = "to_iso_string now" and ?ws = "ax_workspaceId ctx"
  obtain s1 s2 s3 s4 snapshot where "open_entitlement now ctx inp s = (Inr (), s1)"
    and "reserve_for_checkpoint now ctx inp s1 = (Inr (), s2)" and "quiet s2 s3"
    and job: "insertGenerationJob (new_job ctx ?t (cp_jobId inp) (cp_operation inp) snapshot
      (cp_usageReservationId inp) J_running) s3 = (Inr (), s4)"
    and attempt: "insertProviderAttempt (new_attempt ctx ?t (cp_attemptId inp) (cp_jobId inp) 1 (cp_deploymentId inp)) s4 = (Inr (), s')"
    using assms(3) unfolding checkpoint_attempt_def guarded_Inr op_bind_Inr Let_def
    by (elim exE conjE) (simp split: if_splits option.splits; blast intro: quiet_ops quiet_refl)
  then have "quiet s s3" by (meson open_entitlement_quiet reserve_quiet quiet_trans)
  then have s3: "generation_inv s3" using quiet_inv assms(1) by blast
  have s4: "generation_inv s4" by (rule insert_job_keeps [OF s3 job]) (simp_all add: new_job_settled assms(2))
  have none: "map_of (fs_generationJobs s3) (scoped ?ws (cp_jobId inp)) = None"
    and same: "fs_attempts s4 = fs_attempts s3" "map_of (fs_generationJobs s4) (scoped ?ws (cp_jobId inp)) \<noteq> None"
    using insertGenerationJob_Inr [OF job] by auto
  have "listProviderAttempts s4 ?ws (cp_jobId inp) = []"
    using no_job_no_attempts [OF s3 none] same(1) by (simp add: listProviderAttempts_def)
  then show ?thesis
    using assms(2) same(2) by (intro add_attempt_op [OF s4 attempt]) (simp_all add: in_order_def)
qed

lemma update_job_keeps:
  assumes "generation_inv s" and "updateGenerationJob j s = (Inr u, s')" and "job_settled s j" and "plain (gj_workspaceId j)"
  shows "generation_inv s'"
proof -
  note run = updateGenerationJob_Inr [OF assms(2)]
  then have "extends s s'" by simp
  then show ?thesis
    using assms(1,3,4) run job_settled_extends by (intro store_job [of s s' j]) auto
qed

lemma in_order_next:
  assumes "in_order as" and "length as < 2" and "as = [] \<or> pa_acceptance (last as) = Rejected_before_accept"
    and "pa_ordinal y = length as + 1"
  shows "in_order (as @ [y])"
proof -
  have "\<forall>x \<in> set as. pa_acceptance x = Rejected_before_accept"
  proof (cases as rule: rev_cases)
    case (snoc xs x)
    with assms(1,3) show ?thesis by (auto simp: in_order_def)
  qed simp
  with assms show ?thesis by (simp add: in_order_def)
qed

lemma provider_attempt_keeps:
  assumes "generation_inv s" and "plain (ax_workspaceId ctx)"
    and "checkpoint_provider_attempt now ctx inp s = (Inr v, s')"
  shows "generation_inv s'"
proof -
  let ?ws = "ax_workspaceId ctx" and ?t = "to_iso_string now"
  obtain job s1 where job: "map_of (fs_generationJobs s) (scoped ?ws (ai_jobId inp)) = Some job"
    and few: "length (listProviderAttempts s ?ws (gj_id job)) < 2"
    and rejected: "listProviderAttempts s ?ws (gj_id job) = [] \<or>
      pa_acceptance (last (listProviderAttempts s ?ws (gj_id job))) = Rejected_before_accept"
    and attempt: "insertProviderAttempt (new_attempt ctx ?t (ai_id inp) (gj_id job)
      (length (listProviderAttempts s ?ws (gj_id job)) + 1) (ai_deploymentId inp)) s = (Inr (), s1)"
    and update: "updateGenerationJob (job\<lparr>gj_status := J_running, gj_updatedAt := ?t\<rparr>) s1 = (Inr (), s')"
    using assms(3) unfolding checkpoint_provider_attempt_def guarded_Inr op_bind_Inr Let_def
    by (elim exE conjE) (auto split: if_splits option.splits)
  have keyed: "keyed s" using assms(1) by (simp add: generation_inv_def)
  note ids = keyed_job [OF keyed job assms(2)]
  have "in_order (listProviderAttempts s ?ws (gj_id job))"
    using assms(1) by (simp add: generation_inv_def dispatched_in_order_def)
  from in_order_next [OF this few rejected, of "new_attempt ctx ?t (ai_id inp) (gj_id job)
      (length (listProviderAttempts s ?ws (gj_id job)) + 1) (ai_deploymentId inp)"]
  have "generation_inv s1"
    using job ids assms(2) by (intro add_attempt_op [OF assms(1) attempt]) simp_all
  then show ?thesis
    using ids assms(2) by (intro update_job_keeps [OF _ update]) (simp_all add: job_settled_def)
qed

lemma update_attempt_keeps:
  assumes "generation_inv s" and "map_of (fs_attempts s) (scoped ws i) = Some x" and "plain ws"
    and "updateProviderAttempt y s = (Inr u, s')" and "moved_on x y"
  shows "generation_inv s'"
proof -
  have "scoped (pa_workspaceId y) (pa_id y) = scoped ws i"
    using keyed_attempt [OF _ assms(2,3)] assms(1,5) by (simp add: generation_inv_def moved_on_def)
  then show ?thesis
    using updateProviderAttempt_Inr [OF assms(4)] by (intro store_attempt [OF assms(1,2,5)]) simp_all
qed

lemma acceptance_keeps:
  assumes "generation_inv s" and "plain (ax_workspaceId ctx)" and "record_acceptance now ctx inp s = (Inr v, s')"
  shows "generation_inv s'"
proof -
  obtain x where x: "map_of (fs_attempts s) (scoped (ax_workspaceId ctx) (ri_attemptId inp)) = Some x"
    and run: "s' = s \<or> pa_acceptance x = Acc_pending \<and> (\<exists>a r w t. updateProviderAttempt
      (x\<lparr>pa_acceptance := a, pa_providerTaskRef := r, pa_status := w, pa_updatedAt := t\<rparr>) s = (Inr (), s'))"
    using assms(3) unfolding record_acceptance_def guarded_Inr Let_def
    by (elim exE conjE) (simp split: if_splits add: op_bind_Inr; blast)
  from run show ?thesis
  proof
    assume "pa_acceptance x = Acc_pending \<and> (\<exists>a r w t. updateProviderAttempt
      (x\<lparr>pa_acceptance := a, pa_providerTaskRef := r, pa_status := w, pa_updatedAt := t\<rparr>) s = (Inr (), s'))"
    then obtain y where y: "updateProviderAttempt y s = (Inr (), s')" "moved_on x y"
      unfolding moved_on_def by fastforce
    show ?thesis by (rule update_attempt_keeps [OF assms(1) x assms(2) y])
  qed (use assms(1) in simp)
qed

lemma append_cost_quiet: "append_cost now ctx inp s = (Inr v, s') \<Longrightarrow> quiet s s'"
  unfolding append_cost_def guarded_Inr op_bind_Inr Let_def by (elim exE conjE) (auto intro: quiet_ops)

text \<open>Ending a reservation, and what it leaves.\<close>

lemma terminal_of_last:
  "terminal_of es i = None \<Longrightarrow> usage_terminal (ue_action e) \<Longrightarrow> ue_reservationId e = Some i \<Longrightarrow>
   terminal_of (es @ [e]) i = Some e"
  by (simp add: terminal_of_def find_append)

lemma usage_record_facts [simp]:
  "ue_workspaceId (usage_record ctx t i r a n u why) = ax_workspaceId ctx"
  "ue_resource (usage_record ctx t i r a n u why) = r" "ue_action (usage_record ctx t i r a n u why) = a"
  "ue_reservationId (usage_record ctx t i r a n u why) = u" "ue_amount (usage_record ctx t i r a n u why) = n"
  "ue_id (usage_record ctx t i r a n u why) = i"
  by (simp_all add: usage_record_def)

lemma append_terminal:
  assumes "appendUsageRecord (usage_record ctx t i (gj_operation j) a n (Some (gj_usageReservationId j)) why) s = (Inr u, s')"
    and "terminal_of (listUsageEvents s (ax_workspaceId ctx) (gj_operation j)) (gj_usageReservationId j) = None"
    and "usage_terminal a" and "gj_workspaceId j = ax_workspaceId ctx"
  shows "ended_as s' j a"
proof -
  have "terminal_of (listUsageEvents s' (ax_workspaceId ctx) (gj_operation j)) (gj_usageReservationId j) =
      Some (usage_record ctx t i (gj_operation j) a n (Some (gj_usageReservationId j)) why)"
    unfolding appendUsageRecord_Inr [OF assms(1)] listUsageEvents_append
    using terminal_of_last [OF assms(2)] assms(3) by simp
  then show ?thesis using assms(4) by (simp add: ended_as_def)
qed

text \<open>Where a terminal event exists it is the expected one, otherwise one is appended with the reserved amount.\<close>

definition end_reservation ::
    "actor_context \<Rightarrow> generation_job \<Rightarrow> usage_action \<Rightarrow> 'v foundation \<Rightarrow> 'v foundation \<Rightarrow> bool" where
  "end_reservation ctx j a s s' \<longleftrightarrow>
     (let es = listUsageEvents s (ax_workspaceId ctx) (gj_operation j); i = gj_usageReservationId j
      in s' = s \<and> (isZeroValueUsageReservation i \<or> (\<exists>t. terminal_of es i = Some t \<and> ue_action t = a)) \<or>
         terminal_of es i = None \<and>
         (\<exists>k x why u t. reservation_of es i = Some x \<and>
            appendUsageRecord (usage_record ctx t k (gj_operation j) a (ue_amount x) (Some i) why) s = (Inr u, s')))"

lemma end_reservation_ends:
  assumes "end_reservation ctx j a s s'" and "gj_workspaceId j = ax_workspaceId ctx" and "usage_terminal a"
  shows "quiet s s' \<and> ended_as s' j a"
  using assms(1) unfolding end_reservation_def Let_def
proof (elim disjE conjE exE)
  fix k x why u t
  assume none: "terminal_of (listUsageEvents s (ax_workspaceId ctx) (gj_operation j)) (gj_usageReservationId j) = None"
    and run: "appendUsageRecord (usage_record ctx t k (gj_operation j) a (ue_amount x) (Some (gj_usageReservationId j)) why) s = (Inr u, s')"
  show ?thesis using append_terminal [OF run none assms(3,2)] quiet_ops(1) [OF run] by simp
qed (use assms(2) in \<open>auto simp: ended_as_def\<close>)

lemma settle_reservation_end:
  assumes "settleUsageReservation ctx j commit why t s = (Inr r, s')"
  shows "end_reservation ctx j (if commit then U_commit else U_refund) s s'"
  using assms unfolding settleUsageReservation_def end_reservation_def Let_def
  by (simp split: option.splits if_splits add: op_bind_Inr; blast)

lemma settle_reservation:
  assumes "settleUsageReservation ctx j commit why t s = (Inr r, s')" and "gj_workspaceId j = ax_workspaceId ctx"
  shows "quiet s s' \<and> ended_as s' j (if commit then U_commit else U_refund)"
  using end_reservation_ends [OF settle_reservation_end [OF assms(1)] assms(2)] by simp

lemma ended_job: "ended_as s (j\<lparr>gj_status := st, gj_result := r, gj_updatedAt := t\<rparr>) a = ended_as s j a"
  "ended_as s (j\<lparr>gj_status := st, gj_updatedAt := t\<rparr>) a = ended_as s j a"
  by (simp_all add: ended_as_def)

lemma settle_outcome_usage_ends:
  assumes "settle_outcome_usage ctx t j asset outcome s = (Inr u, s')" and "gj_workspaceId j = ax_workspaceId ctx"
  shows "quiet s s' \<and> job_settled s' (j\<lparr>gj_status := outcome_job_status outcome, gj_result := r, gj_updatedAt := t\<rparr>)"
  using assms
  by (cases outcome) (auto simp: settle_outcome_usage_def op_bind_Inr job_settled_def ended_job dest!: settle_reservation)

lemma settle_outcome_runs:
  assumes "settle_outcome now ctx inp s = (Inr v, s')"
  shows "\<exists>x job s1 asset s2 s3 s4 a r.
    map_of (fs_attempts s) (scoped (ax_workspaceId ctx) (oi_attemptId inp)) = Some x \<and>
    map_of (fs_generationJobs s) (scoped (ax_workspaceId ctx) (pa_jobId x)) = Some job \<and>
    assert_outcome x job inp = Inr () \<and>
    appendCostRecord (cost_record ctx (to_iso_string now) (oi_providerCost inp)) s = (Inr (), s1) \<and>
    (s2 = s1 \<or> (\<exists>a. insertOwnedAsset a s1 = (Inr (), s2))) \<and>
    updateProviderAttempt (x\<lparr>pa_acceptance := acceptance_of (oi_acceptance inp), pa_providerTaskRef := r,
      pa_status := a, pa_updatedAt := to_iso_string now\<rparr>) s2 = (Inr (), s3) \<and>
    settle_outcome_usage ctx (to_iso_string now) job asset (oi_outcome inp) s3 = (Inr (), s4) \<and>
    updateGenerationJob (job\<lparr>gj_status := outcome_job_status (oi_outcome inp), gj_result := Some (oi_result inp),
      gj_updatedAt := to_iso_string now\<rparr>) s4 = (Inr (), s')"
  using assms unfolding settle_outcome_def guarded_Inr op_bind_Inr Let_def
  by (elim exE conjE) (simp split: option.splits; blast)

lemma settle_outcome_keeps:
  assumes "generation_inv s" and "plain (ax_workspaceId ctx)" and "settle_outcome now ctx inp s = (Inr v, s')"
  shows "generation_inv s'"
proof -
  let ?t = "to_iso_string now" and ?ws = "ax_workspaceId ctx"
  obtain x job s1 asset s2 s3 s4 a r where
    x: "map_of (fs_attempts s) (scoped ?ws (oi_attemptId inp)) = Some x"
    and job: "map_of (fs_generationJobs s) (scoped ?ws (pa_jobId x)) = Some job"
    and ok: "assert_outcome x job inp = Inr ()"
    and q: "appendCostRecord (cost_record ctx ?t (oi_providerCost inp)) s = (Inr (), s1)"
      "s2 = s1 \<or> (\<exists>a. insertOwnedAsset a s1 = (Inr (), s2))"
    and attempt: "updateProviderAttempt (x\<lparr>pa_acceptance := acceptance_of (oi_acceptance inp), pa_providerTaskRef := r,
      pa_status := a, pa_updatedAt := ?t\<rparr>) s2 = (Inr (), s3)"
    and usage: "settle_outcome_usage ctx ?t job asset (oi_outcome inp) s3 = (Inr (), s4)"
    and update: "updateGenerationJob (job\<lparr>gj_status := outcome_job_status (oi_outcome inp),
      gj_result := Some (oi_result inp), gj_updatedAt := ?t\<rparr>) s4 = (Inr (), s')"
    using settle_outcome_runs [OF assms(3)] by blast
  have keyed: "keyed s" using assms(1) by (simp add: generation_inv_def)
  have "quiet s1 s2" using q(2) quiet_ops(3) by auto
  then have q2: "quiet s s2" by (rule quiet_trans [OF quiet_ops(2) [OF q(1)]])
  have admissible: "acceptance_admissible x inp"
    using ok unfolding assert_outcome_def r_bind_unit_Inr check_Inr_iff by blast
  have "moved_on x (x\<lparr>pa_acceptance := acceptance_of (oi_acceptance inp), pa_providerTaskRef := r, pa_status := a, pa_updatedAt := ?t\<rparr>)"
    using admissible by (auto simp: moved_on_def acceptance_admissible_def Let_def)
  moreover have "map_of (fs_attempts s2) (scoped ?ws (oi_attemptId inp)) = Some x" using x q2 by (simp add: quiet_def)
  ultimately have "generation_inv s3"
    using update_attempt_keeps [OF quiet_inv [OF q2 assms(1)] _ assms(2) attempt] by blast
  moreover have ws: "gj_workspaceId job = ?ws" using keyed_job [OF keyed job assms(2)] by simp
  note ends = settle_outcome_usage_ends [OF usage ws, of "Some (oi_result inp)"]
  ultimately have "generation_inv s4" using quiet_inv by blast
  then show ?thesis using ends ws assms(2) by (intro update_job_keeps [OF _ update]) simp_all
qed

lemma record_asset_runs:
  assumes "record_asset now ctx inp s = (Inr v, s')"
  shows "\<exists>job x s1 s2 s3.
    map_of (fs_generationJobs s) (scoped (ax_workspaceId ctx) (ar_jobId inp)) = Some job \<and>
    map_of (fs_attempts s) (scoped (ax_workspaceId ctx) (ar_attemptId inp)) = Some x \<and>
    insertOwnedAsset (asset_record ctx (to_iso_string now) inp) s = (Inr (), s1) \<and>
    updateProviderAttempt (x\<lparr>pa_status := Att_completed, pa_updatedAt := to_iso_string now\<rparr>) s1 = (Inr (), s2) \<and>
    updateGenerationJob (job\<lparr>gj_status := J_completed, gj_updatedAt := to_iso_string now\<rparr>) s2 = (Inr (), s3) \<and>
    end_reservation ctx job U_commit s3 s'"
  using assms unfolding record_asset_def guarded_Inr op_bind_Inr Let_def end_reservation_def
  by (elim exE conjE) (simp split: option.splits if_splits; blast)

lemma complete_job:
  assumes "generation_inv s" and "updateGenerationJob (j\<lparr>gj_status := st, gj_updatedAt := t\<rparr>) s = (Inr u, s1)"
    and "quiet s1 s'" and "plain (gj_workspaceId j)" and "job_settled s' (j\<lparr>gj_status := st, gj_updatedAt := t\<rparr>)"
  shows "generation_inv s'"
proof -
  have "fs_usageEvents s1 = fs_usageEvents s" "fs_attempts s1 = fs_attempts s"
    using updateGenerationJob_Inr [OF assms(2)] by simp_all
  then have "extends s s'" "fs_attempts s' = fs_attempts s"
    using assms(3) by (auto simp: quiet_def extends_def)
  then show ?thesis
    using updateGenerationJob_Inr [OF assms(2)] assms(3-5)
    by (intro store_job [OF assms(1), where j = "j\<lparr>gj_status := st, gj_updatedAt := t\<rparr>"]) (auto simp: quiet_def)
qed

lemma record_asset_keeps:
  assumes "generation_inv s" and "plain (ax_workspaceId ctx)" and "record_asset now ctx inp s = (Inr v, s')"
  shows "generation_inv s'"
proof -
  let ?t = "to_iso_string now" and ?ws = "ax_workspaceId ctx"
  obtain job x s1 s2 s3 where
    job: "map_of (fs_generationJobs s) (scoped ?ws (ar_jobId inp)) = Some job"
    and x: "map_of (fs_attempts s) (scoped ?ws (ar_attemptId inp)) = Some x"
    and asset: "insertOwnedAsset (asset_record ctx ?t inp) s = (Inr (), s1)"
    and attempt: "updateProviderAttempt (x\<lparr>pa_status := Att_completed, pa_updatedAt := ?t\<rparr>) s1 = (Inr (), s2)"
    and update: "updateGenerationJob (job\<lparr>gj_status := J_completed, gj_updatedAt := ?t\<rparr>) s2 = (Inr (), s3)"
    and ends: "end_reservation ctx job U_commit s3 s'"
    using record_asset_runs [OF assms(3)] by blast
  have ws: "gj_workspaceId job = ?ws" using keyed_job [OF _ job assms(2)] assms(1) by (simp add: generation_inv_def)
  have q: "quiet s s1" by (rule quiet_ops(3) [OF asset])
  then have "map_of (fs_attempts s1) (scoped ?ws (ar_attemptId inp)) = Some x" using x by (simp add: quiet_def)
  then have "generation_inv s2"
    by (rule update_attempt_keeps [OF quiet_inv [OF q assms(1)] _ assms(2) attempt]) (simp add: moved_on_def)
  moreover have ended: "quiet s3 s'" "ended_as s' job U_commit" using end_reservation_ends [OF ends ws] by simp_all
  moreover have "plain (gj_workspaceId job)" using ws assms(2) by simp
  moreover have "job_settled s' (job\<lparr>gj_status := J_completed, gj_updatedAt := ?t\<rparr>)"
    using ended(2) by (simp add: job_settled_def ended_job)
  ultimately show ?thesis using complete_job [OF _ update] by blast
qed

lemma settle_failure_runs:
  assumes "settle_failure now ctx i why s = (Inr v, s')"
  shows "\<exists>job s1. map_of (fs_generationJobs s) (scoped (ax_workspaceId ctx) i) = Some job \<and>
    end_reservation ctx job U_refund s s1 \<and>
    updateGenerationJob (job\<lparr>gj_status := J_failed, gj_updatedAt := to_iso_string now\<rparr>) s1 = (Inr (), s')"
  using assms unfolding settle_failure_def guarded_Inr op_bind_Inr Let_def end_reservation_def
  by (elim exE conjE) (simp split: option.splits if_splits; blast)

lemma settle_failure_keeps:
  assumes "generation_inv s" and "plain (ax_workspaceId ctx)" and "settle_failure now ctx i why s = (Inr v, s')"
  shows "generation_inv s'"
proof -
  obtain job s1 where job: "map_of (fs_generationJobs s) (scoped (ax_workspaceId ctx) i) = Some job"
    and ends: "end_reservation ctx job U_refund s s1"
    and update: "updateGenerationJob (job\<lparr>gj_status := J_failed, gj_updatedAt := to_iso_string now\<rparr>) s1 = (Inr (), s')"
    using settle_failure_runs [OF assms(3)] by blast
  have ws: "gj_workspaceId job = ax_workspaceId ctx"
    using keyed_job [OF _ job assms(2)] assms(1) by (simp add: generation_inv_def)
  have "quiet s s1 \<and> ended_as s1 job U_refund" using end_reservation_ends [OF ends ws] by simp
  then show ?thesis
    using quiet_inv [OF _ assms(1)] ws assms(2) by (intro update_job_keeps [OF _ update]) (simp_all add: job_settled_def ended_job)
qed

lemma compensate_quiet: "compensate_usage now ctx i why s = (Inr v, s') \<Longrightarrow> quiet s s'"
  unfolding compensate_usage_def guarded_Inr Let_def
  by (elim exE conjE) (auto simp: op_bind_Inr split: option.splits if_splits intro: quiet_ops)

section \<open>Runs\<close>

text \<open>
  The commands of the service for a context, and a step of the repository: one idempotent execution
  of a command, whatever it answers, or a change of the memberships. The workspace identifiers hold
  no colon, so that the keys of the tables are unambiguous.
\<close>

inductive ledger_command :: "actor_context \<Rightarrow> 'v ledger_action \<Rightarrow> bool" where
  "ledger_command ctx (append_usage now ctx i1)"
| "ledger_command ctx (start_generation now ctx i2)"
| "ledger_command ctx (checkpoint_attempt now ctx i3)"
| "ledger_command ctx (checkpoint_provider_attempt now ctx i4)"
| "ledger_command ctx (record_acceptance now ctx i5)"
| "ledger_command ctx (append_cost now ctx i6)"
| "ledger_command ctx (settle_outcome now ctx i7)"
| "ledger_command ctx (record_asset now ctx i8)"
| "ledger_command ctx (settle_failure now ctx job why)"
| "ledger_command ctx (compensate_usage now ctx job why)"

inductive ledger_step :: "'v command_value foundation \<Rightarrow> 'v command_value foundation \<Rightarrow> bool" where
  ledger_execute: "ledger_command ctx m \<Longrightarrow> plain (ax_workspaceId ctx) \<Longrightarrow>
    executeIdempotent clock ctx key hash (on_foundation m) (s, ()) = (r, (s', ())) \<Longrightarrow> ledger_step s s'"
| ledger_membership: "ledger_step s (grantMembership ws user role s)"

lemma command_keeps:
  assumes "ledger_command ctx m" and "plain (ax_workspaceId ctx)" and "generation_inv s" and "m s = (Inr v, s')"
  shows "generation_inv s'"
  using assms
  by (cases rule: ledger_command.cases)
    (blast intro: quiet_inv [OF append_usage_quiet] start_keeps checkpoint_keeps provider_attempt_keeps acceptance_keeps
      quiet_inv [OF append_cost_quiet] settle_outcome_keeps record_asset_keeps settle_failure_keeps
      quiet_inv [OF compensate_quiet])+

lemma execute_cases:
  assumes "executeIdempotent clock ctx key hash (on_foundation m) (s, p) = (r, (s', p'))"
  shows "(\<exists>e s1. m s = (Inl e, s1) \<and> s' = rolled_back s s1) \<or> s' = s \<or>
    (\<exists>v s1 log results. m s = (Inr v, s1) \<and> s' = s1\<lparr>fs_commandAudits := log, fs_commandResults := results\<rparr>)"
  using assms unfolding executeIdempotent_def Let_def on_foundation_def
  by (auto split: option.splits prod.splits sum.splits if_splits)

lemma ledger_step_keeps:
  assumes "ledger_step s s'" and "generation_inv s"
  shows "generation_inv s'"
  using assms(1)
proof (cases rule: ledger_step.cases)
  case (ledger_execute ctx m clock key hash r)
  have log: "generation_inv (s1\<lparr>fs_commandAudits := a, fs_commandResults := b\<rparr>)" if "generation_inv s1"
    for s1 :: "'a command_value foundation" and a b
    by (rule quiet_inv [OF _ that]) (simp add: quiet_def)
  have rolled: "generation_inv (rolled_back s s1)" for s1
    by (rule quiet_inv [OF _ assms(2)]) (simp add: quiet_def rolled_back_def)
  from execute_cases [OF ledger_execute(3)] command_keeps [OF ledger_execute(1,2) assms(2)] log rolled assms(2)
  show ?thesis by blast
next
  case (ledger_membership ws user role)
  then have "quiet s s'" by (simp add: grantMembership_def quiet_def)
  then show ?thesis using assms(2) by (rule quiet_inv)
qed

lemma generation_inv_empty: "generation_inv empty_foundation"
  by (simp add: generation_inv_def keyed_def dispatched_in_order_def jobs_settled_def empty_foundation_def
      listProviderAttempts_def in_order_def)

lemma ledger_run_inv: "ledger_step\<^sup>*\<^sup>* empty_foundation s \<Longrightarrow> generation_inv s"
  by (induction rule: rtranclp_induct) (auto intro: generation_inv_empty ledger_step_keeps)

end
