(* ===== verification/GenerationUsage.thy ===== *)
theory GenerationUsage
  imports GenerationLedgerCorrect
begin

text \<open>
  The usage of a workspace and resource under the commands of the generation ledger: one reservation
  per identifier, and a terminal event only for a reservation and for an amount it holds; so that the
  projection splits what was reserved into what is held, what was used and what was given back.
\<close>

section \<open>Well-formed usage\<close>

definition usage_ok :: "usage_event list \<Rightarrow> bool" where
  "usage_ok es \<longleftrightarrow>
     distinct (map ue_reservationId (filter (\<lambda>x. ue_action x = U_reserve) es)) \<and>
     (\<forall>x \<in> set es. ue_action x = U_reserve \<longrightarrow> 0 < ue_amount x) \<and>
     (\<forall>t \<in> set es. usage_terminal (ue_action t) \<longrightarrow>
        (\<exists>x \<in> set es. ue_action x = U_reserve \<and> ue_reservationId x = ue_reservationId t \<and>
           0 \<le> ue_amount t \<and> ue_amount t \<le> ue_amount x))"

definition admitted :: "usage_event list \<Rightarrow> usage_event \<Rightarrow> bool" where
  "admitted es ev \<longleftrightarrow>
     (ue_action ev = U_reserve \<longrightarrow> 0 < ue_amount ev \<and>
        (\<forall>x \<in> set es. ue_action x = U_reserve \<longrightarrow> ue_reservationId x \<noteq> ue_reservationId ev)) \<and>
     (usage_terminal (ue_action ev) \<longrightarrow>
        (\<exists>x \<in> set es. ue_action x = U_reserve \<and> ue_reservationId x = ue_reservationId ev \<and>
           0 \<le> ue_amount ev \<and> ue_amount ev \<le> ue_amount x))"

lemma usage_ok_append: "usage_ok es \<Longrightarrow> admitted es ev \<Longrightarrow> usage_ok (es @ [ev])"
  unfolding usage_ok_def admitted_def by (auto simp: image_iff)

definition usage_wf :: "'v foundation \<Rightarrow> bool" where
  "usage_wf s \<longleftrightarrow> (\<forall>ws r. usage_ok (listUsageEvents s ws r))"

lemma usage_wf_same: "fs_usageEvents s' = fs_usageEvents s \<Longrightarrow> usage_wf s' = usage_wf s"
  by (simp add: usage_wf_def listUsageEvents_def)

lemma usage_wf_append:
  assumes "usage_wf s" and "appendUsageRecord ev s = (Inr u, s')"
    and "admitted (listUsageEvents s (ue_workspaceId ev) (ue_resource ev)) ev"
  shows "usage_wf s'"
proof -
  have "usage_ok (listUsageEvents s ws r @ (if ue_workspaceId ev = ws \<and> ue_resource ev = r then [ev] else []))" for ws r
    using assms(1,3) usage_ok_append by (auto simp: usage_wf_def)
  then show ?thesis
    unfolding usage_wf_def appendUsageRecord_Inr [OF assms(2)] listUsageEvents_append by blast
qed

lemma reservation_of_Some:
  "reservation_of es i = Some x \<Longrightarrow> x \<in> set es \<and> ue_action x = U_reserve \<and> ue_reservationId x = Some i"
  unfolding reservation_of_def by (auto simp: find_Some_iff)

lemma reservation_of_None:
  "reservation_of es i = None \<Longrightarrow> x \<in> set es \<Longrightarrow> ue_action x = U_reserve \<Longrightarrow> ue_reservationId x \<noteq> Some i"
  unfolding reservation_of_def by (auto simp: find_None_iff)

section \<open>The commands keep it\<close>

lemma append_usage_wf:
  assumes "usage_wf s" and "append_usage now ctx inp s = (Inr v, s')"
  shows "usage_wf s'"
proof -
  let ?es = "listUsageEvents s (ax_workspaceId ctx) (su_resource inp)"
  obtain a ended u where a: "assert_usage_amount inp = Inr a"
    and reserve: "(if su_action inp = U_reserve then assert_reserve ?es (su_reservationId inp) a else Inr ()) = Inr u"
    and terminal: "(if usage_terminal (su_action inp) then assert_terminal ?es (su_action inp) (su_reservationId inp) a
      else Inr None) = Inr ended"
    and run: "(case ended of
              Some t \<Rightarrow> (\<lambda>s. (Inr (V_usage t), s))
            | None \<Rightarrow> op_bind (appendUsageRecord (usage_record ctx (to_iso_string now) (su_eventId inp) (su_resource inp)
                (su_action inp) a (su_reservationId inp) (su_reason inp))) (\<lambda>_ s. (Inr (V_usage (usage_record ctx
                (to_iso_string now) (su_eventId inp) (su_resource inp) (su_action inp) a (su_reservationId inp)
                (su_reason inp))), s))) s = (Inr v, s')"
    using assms(2) unfolding append_usage_def guarded_Inr Let_def by (elim exE conjE) blast
  show ?thesis
  proof (cases ended)
    case (Some t)
    with run assms(1) show ?thesis by simp
  next
    case None
    with run obtain u where append: "appendUsageRecord (usage_record ctx (to_iso_string now) (su_eventId inp)
        (su_resource inp) (su_action inp) a (su_reservationId inp) (su_reason inp)) s = (Inr u, s')"
      by (auto simp: op_bind_Inr)
    have pos: "a \<noteq> 0" "su_action inp = U_adjust \<or> 0 \<le> a"
      using a by (auto simp: assert_usage_amount_def split: option.splits if_splits)
    have "admitted ?es (usage_record ctx (to_iso_string now) (su_eventId inp) (su_resource inp) (su_action inp) a
        (su_reservationId inp) (su_reason inp))"
      unfolding admitted_def usage_record_facts
    proof (intro conjI impI)
      assume "su_action inp = U_reserve"
      from reserve this pos show "0 < a"
        "\<forall>x \<in> set ?es. ue_action x = U_reserve \<longrightarrow> ue_reservationId x \<noteq> su_reservationId inp"
        by (auto simp: assert_reserve_def list_ex_iff split: if_splits)
    next
      assume t: "usage_terminal (su_action inp)"
      from terminal this obtain i x where "su_reservationId inp = Some i" "reservation_of ?es i = Some x"
        "if su_action inp = U_commit then 0 \<le> a \<and> a \<le> ue_amount x else ue_amount x = a"
        by (auto simp: assert_terminal_def truthy_def split: option.splits if_splits)
      with pos t reservation_of_Some [of ?es i x] show "\<exists>x \<in> set ?es. ue_action x = U_reserve \<and>
          ue_reservationId x = su_reservationId inp \<and> 0 \<le> a \<and> a \<le> ue_amount x"
        by (auto split: if_splits)
    qed
    then show ?thesis using usage_wf_append [OF assms(1) append] by simp
  qed
qed

lemma end_reservation_wf:
  assumes "usage_wf s" and "end_reservation ctx j a s s'" and "usage_terminal a"
  shows "usage_wf s'"
  using assms(2) unfolding end_reservation_def Let_def
proof (elim disjE conjE exE)
  fix k x why u t
  let ?es = "listUsageEvents s (ax_workspaceId ctx) (gj_operation j)"
  assume x: "reservation_of ?es (gj_usageReservationId j) = Some x"
    and run: "appendUsageRecord (usage_record ctx t k (gj_operation j) a (ue_amount x) (Some (gj_usageReservationId j)) why) s = (Inr u, s')"
  note found = reservation_of_Some [OF x]
  then have "0 < ue_amount x" using assms(1) unfolding usage_wf_def usage_ok_def by blast
  then have "admitted ?es (usage_record ctx t k (gj_operation j) a (ue_amount x) (Some (gj_usageReservationId j)) why)"
    using found assms(3) unfolding admitted_def by auto
  then show ?thesis using usage_wf_append [OF assms(1) run] by simp
qed (use assms(1) in blast)+

lemma open_entitlement_wf:
  assumes "usage_wf s" and "open_entitlement now ctx inp s = (Inr u, s')"
  shows "usage_wf s'"
proof -
  have "s' = s \<or> (\<exists>a i why u. appendUsageRecord (usage_record ctx (to_iso_string now) i (cp_operation inp) U_adjust a None why) s = (Inr u, s'))"
    using assms(2) by (auto simp: open_entitlement_def Let_def split: option.splits if_splits)
  then show ?thesis
    using assms(1) by (auto intro: usage_wf_append simp: admitted_def)
qed

lemma reserve_for_checkpoint_wf:
  assumes "usage_wf s" and "reserve_for_checkpoint now ctx inp s = (Inr u, s')"
  shows "usage_wf s'"
proof -
  let ?es = "listUsageEvents s (ax_workspaceId ctx) (cp_operation inp)"
  have "s' = s \<or> reservation_of ?es (cp_usageReservationId inp) = None \<and> (\<exists>a i why u. 0 < a \<and>
      appendUsageRecord (usage_record ctx (to_iso_string now) i (cp_operation inp) U_reserve a
        (Some (cp_usageReservationId inp)) why) s = (Inr u, s'))"
    using assms(2) by (auto simp: reserve_for_checkpoint_def Let_def split: option.splits if_splits)
  then show ?thesis
  proof (elim disjE conjE exE)
    fix a i why u
    assume none: "reservation_of ?es (cp_usageReservationId inp) = None" and a: "(0::rat) < a"
      and run: "appendUsageRecord (usage_record ctx (to_iso_string now) i (cp_operation inp) U_reserve a
        (Some (cp_usageReservationId inp)) why) s = (Inr u, s')"
    have "admitted ?es (usage_record ctx (to_iso_string now) i (cp_operation inp) U_reserve a (Some (cp_usageReservationId inp)) why)"
      using a reservation_of_None [OF none] unfolding admitted_def by auto
    then show ?thesis using usage_wf_append [OF assms(1) run] by simp
  qed (use assms(1) in simp)
qed

lemma start_usage: "start_generation now ctx inp s = (Inr v, s') \<Longrightarrow> fs_usageEvents s' = fs_usageEvents s"
  unfolding start_generation_def guarded_Inr op_bind_Inr Let_def by (elim exE conjE) auto

lemma checkpoint_wf:
  assumes "usage_wf s" and "checkpoint_attempt now ctx inp s = (Inr v, s')"
  shows "usage_wf s'"
proof -
  obtain s1 s2 where "open_entitlement now ctx inp s = (Inr (), s1)" "reserve_for_checkpoint now ctx inp s1 = (Inr (), s2)"
    "fs_usageEvents s' = fs_usageEvents s2"
    using assms(2) unfolding checkpoint_attempt_def guarded_Inr op_bind_Inr Let_def
    by (elim exE conjE) (auto split: if_splits)
  then show ?thesis using open_entitlement_wf reserve_for_checkpoint_wf usage_wf_same assms(1) by metis
qed

lemma provider_attempt_usage:
  "checkpoint_provider_attempt now ctx inp s = (Inr v, s') \<Longrightarrow> fs_usageEvents s' = fs_usageEvents s"
  unfolding checkpoint_provider_attempt_def guarded_Inr op_bind_Inr Let_def by (elim exE conjE) auto

lemma acceptance_usage: "record_acceptance now ctx inp s = (Inr v, s') \<Longrightarrow> fs_usageEvents s' = fs_usageEvents s"
  unfolding record_acceptance_def guarded_Inr Let_def
  by (elim exE conjE) (auto simp: op_bind_Inr split: if_splits)

lemma append_cost_usage: "append_cost now ctx inp s = (Inr v, s') \<Longrightarrow> fs_usageEvents s' = fs_usageEvents s"
  unfolding append_cost_def guarded_Inr op_bind_Inr Let_def by (elim exE conjE) auto

lemma settle_outcome_wf:
  assumes "usage_wf s" and "settle_outcome now ctx inp s = (Inr v, s')"
  shows "usage_wf s'"
proof -
  obtain x job s1 asset s2 s3 s4 a r where
    "appendCostRecord (cost_record ctx (to_iso_string now) (oi_providerCost inp)) s = (Inr (), s1)"
      "s2 = s1 \<or> (\<exists>a. insertOwnedAsset a s1 = (Inr (), s2))"
    and attempt: "updateProviderAttempt (x\<lparr>pa_acceptance := acceptance_of (oi_acceptance inp), pa_providerTaskRef := r,
      pa_status := a, pa_updatedAt := to_iso_string now\<rparr>) s2 = (Inr (), s3)"
    and usage: "settle_outcome_usage ctx (to_iso_string now) job asset (oi_outcome inp) s3 = (Inr (), s4)"
    and update: "updateGenerationJob (job\<lparr>gj_status := outcome_job_status (oi_outcome inp),
      gj_result := Some (oi_result inp), gj_updatedAt := to_iso_string now\<rparr>) s4 = (Inr (), s')"
    using settle_outcome_runs [OF assms(2)] by blast
  then have "fs_usageEvents s2 = fs_usageEvents s" by auto
  then have "usage_wf s3" using assms(1) usage_wf_same table_usage(7) [OF attempt] by metis
  then have "usage_wf s4"
    using usage settle_reservation_end end_reservation_wf
    by (cases "oi_outcome inp") (fastforce simp: settle_outcome_usage_def op_bind_Inr)+
  then show ?thesis using usage_wf_same [OF table_usage(5) [OF update]] by simp
qed

lemma record_asset_wf:
  assumes "usage_wf s" and "record_asset now ctx inp s = (Inr v, s')"
  shows "usage_wf s'"
proof -
  obtain job s3 where "fs_usageEvents s3 = fs_usageEvents s" "end_reservation ctx job U_commit s3 s'"
    using record_asset_runs [OF assms(2)] table_usage by metis
  then show ?thesis using assms(1) usage_wf_same [of s3 s] end_reservation_wf [of s3 ctx job U_commit s'] by simp
qed

lemma settle_failure_wf:
  assumes "usage_wf s" and "settle_failure now ctx i why s = (Inr v, s')"
  shows "usage_wf s'"
proof -
  obtain job s1 where "end_reservation ctx job U_refund s s1" "fs_usageEvents s' = fs_usageEvents s1"
    using settle_failure_runs [OF assms(2)] table_usage by metis
  then show ?thesis using assms(1) usage_wf_same [of s' s1] end_reservation_wf [of s ctx job U_refund s1] by simp
qed

lemma compensate_wf:
  assumes "usage_wf s" and "compensate_usage now ctx i why s = (Inr v, s')"
  shows "usage_wf s'"
proof -
  obtain job where "s' = s \<or> end_reservation ctx job U_refund s s' \<or>
      (\<exists>k n w u. appendUsageRecord (usage_record ctx (to_iso_string now) k (gj_operation job) U_compensate n w why) s = (Inr u, s'))"
    using assms(2) unfolding compensate_usage_def guarded_Inr Let_def end_reservation_def
    by (elim exE conjE) (simp split: option.splits if_splits add: op_bind_Inr; blast)
  then show ?thesis
    using assms(1) by (auto intro: usage_wf_append end_reservation_wf simp: admitted_def)
qed

lemma command_wf:
  assumes "ledger_command ctx m" and "usage_wf s" and "m s = (Inr v, s')"
  shows "usage_wf s'"
  using assms(1)
proof (cases rule: ledger_command.cases)
  case (2 now inp)
  then show ?thesis using assms(2,3) start_usage usage_wf_same by blast
next
  case (4 now inp)
  then show ?thesis using assms(2,3) provider_attempt_usage usage_wf_same by blast
next
  case (5 now inp)
  then show ?thesis using assms(2,3) acceptance_usage usage_wf_same by blast
next
  case (6 now inp)
  then show ?thesis using assms(2,3) append_cost_usage usage_wf_same by blast
next
  case (1 now inp)
  then show ?thesis using assms(2,3) append_usage_wf by blast
next
  case (3 now inp)
  then show ?thesis using assms(2,3) checkpoint_wf by blast
next
  case (7 now inp)
  then show ?thesis using assms(2,3) settle_outcome_wf by blast
next
  case (8 now inp)
  then show ?thesis using assms(2,3) record_asset_wf by blast
next
  case (9 now job why)
  then show ?thesis using assms(2,3) settle_failure_wf by blast
next
  case (10 now job why)
  then show ?thesis using assms(2,3) compensate_wf by blast
qed

lemma ledger_step_wf:
  assumes "ledger_step s s'" and "usage_wf s"
  shows "usage_wf s'"
  using assms(1)
proof (cases rule: ledger_step.cases)
  case (ledger_execute ctx m clock key hash r)
  have "usage_wf (rolled_back s s1)" for s1
    using assms(2) usage_wf_same [of "rolled_back s s1" s] by (simp add: rolled_back_def)
  moreover have "usage_wf (s1\<lparr>fs_commandAudits := a, fs_commandResults := b\<rparr>)" if "usage_wf s1"
    for s1 :: "'a command_value foundation" and a b
    using that usage_wf_same [of "s1\<lparr>fs_commandAudits := a, fs_commandResults := b\<rparr>" s1] by simp
  ultimately show ?thesis
    using execute_cases [OF ledger_execute(3)] command_wf [OF ledger_execute(1) assms(2)] assms(2) by blast
next
  case (ledger_membership ws user role)
  then show ?thesis using assms(2) usage_wf_same [of s' s] by (simp add: grantMembership_def)
qed

lemma usage_wf_empty: "usage_wf empty_foundation"
  by (simp add: usage_wf_def listUsageEvents_def empty_foundation_def usage_ok_def)

lemma ledger_run_wf: "ledger_step\<^sup>*\<^sup>* empty_foundation s \<Longrightarrow> usage_wf s"
  by (induction rule: rtranclp_induct) (auto intro: usage_wf_empty ledger_step_wf)

section \<open>The projection splits the reservations\<close>

text \<open>The reservations that count are those with an identifier.\<close>

definition counted :: "usage_event \<Rightarrow> bool" where
  "counted x \<longleftrightarrow> ue_action x = U_reserve \<and> truthy (ue_reservationId x) \<noteq> None"

lemma map_of_fold_set:
  "map_of (fold (\<lambda>x. map_set (f x) x) xs m) k = Some v \<Longrightarrow> v \<in> set xs \<and> f v = k \<or> map_of m k = Some v"
  by (induction xs arbitrary: m) (fastforce split: if_splits)+

lemma usage_terminals_Some:
  "map_of (usage_terminals es) k = Some t \<Longrightarrow> t \<in> set es \<and> usage_terminal (ue_action t) \<and> ue_reservationId t = k"
  unfolding usage_terminals_def by (drule map_of_fold_set) auto

lemma one_reservation:
  assumes "usage_ok es" and "x \<in> set es" and "y \<in> set es" and "ue_action x = U_reserve" and "ue_action y = U_reserve"
    and "ue_reservationId x = ue_reservationId y"
  shows "x = y"
  using assms by (auto simp: usage_ok_def distinct_map dest: inj_onD)

lemma terminal_within:
  assumes "usage_ok es" and "x \<in> set es" and "ue_action x = U_reserve"
    and "map_of (usage_terminals es) (ue_reservationId x) = Some t"
  shows "0 \<le> ue_amount t" and "ue_amount t \<le> ue_amount x"
proof -
  note t = usage_terminals_Some [OF assms(4)]
  then obtain y where y: "y \<in> set es" "ue_action y = U_reserve" "ue_reservationId y = ue_reservationId x"
    "0 \<le> ue_amount t" "ue_amount t \<le> ue_amount y"
    using assms(1) unfolding usage_ok_def by metis
  with one_reservation [OF assms(1,2) y(1) assms(3) y(2)] show "0 \<le> ue_amount t" "ue_amount t \<le> ue_amount x" by simp_all
qed

lemma count_reserve_fold:
  assumes "\<And>x t. x \<in> set xs \<Longrightarrow> ue_action x = U_reserve \<Longrightarrow> 0 < ue_amount x"
    and "\<And>x t. x \<in> set xs \<Longrightarrow> ue_action x = U_reserve \<Longrightarrow> map_of terminals (ue_reservationId x) = Some t \<Longrightarrow>
      0 \<le> ue_amount t \<and> ue_amount t \<le> ue_amount x"
    and "fold (count_reserve terminals) xs (a, b, c) = (a', b', c')"
  shows "a' + b' + c' = a + b + c + sum_list (map ue_amount (filter counted xs)) \<and> a \<le> a' \<and> b \<le> b' \<and> c \<le> c'"
  using assms
proof (induction xs arbitrary: a b c)
  case Nil
  then show ?case by simp
next
  case (Cons x xs)
  obtain a1 b1 c1 where one: "count_reserve terminals x (a, b, c) = (a1, b1, c1)" by (cases "count_reserve terminals x (a, b, c)")
  have "a1 + b1 + c1 = a + b + c + (if counted x then ue_amount x else 0) \<and> a \<le> a1 \<and> b \<le> b1 \<and> c \<le> c1"
    using one Cons.prems(1) [of x] Cons.prems(2) [of x]
    by (auto simp: count_reserve_def counted_def split: if_splits option.splits)
  moreover have "a' + b' + c' = a1 + b1 + c1 + sum_list (map ue_amount (filter counted xs)) \<and> a1 \<le> a' \<and> b1 \<le> b' \<and> c1 \<le> c'"
    using Cons.prems one by (intro Cons.IH) auto
  ultimately show ?case by (auto split: if_splits)
qed

lemma projection_splits:
  assumes "usage_ok es"
  defines "p \<equiv> projectUsage es"
  shows "up_reserved p + up_committed p + up_released p = sum_list (map ue_amount (filter counted es)) \<and>
    0 \<le> up_reserved p \<and> 0 \<le> up_committed p \<and> 0 \<le> up_released p"
proof -
  obtain a b c where f: "fold (count_reserve (usage_terminals es)) es (0, 0, 0) = (a, b, c)"
    by (cases "fold (count_reserve (usage_terminals es)) es (0, 0, 0)")
  have "a + b + c = 0 + 0 + 0 + sum_list (map ue_amount (filter counted es)) \<and> 0 \<le> a \<and> 0 \<le> b \<and> 0 \<le> c"
    by (rule count_reserve_fold [OF _ _ f]) (use assms(1) terminal_within [OF assms(1)] in \<open>auto simp: usage_ok_def\<close>)
  then show ?thesis by (simp add: p_def projectUsage_def f Let_def)
qed

end
