(* ===== verification/GenerationLedgerProps.thy ===== *)
theory GenerationLedgerProps
  imports GenerationUsage
begin

text \<open>
  The properties of the generation ledger: a job is dispatched again only after a rejection, a
  delivered job is paid and a failed one is not, reservations are split exactly, a checkpoint takes
  effect once; and a compensation gives back more than was charged.
\<close>

section \<open>Sample runs\<close>

definition ledger_exec ::
    "actor_context \<Rightarrow> string \<Rightarrow> 'v ledger_action \<Rightarrow> 'v command_value foundation \<Rightarrow> 'v command_value foundation" where
  "ledger_exec ctx key m s = fst (snd (executeIdempotent 0 ctx key key (on_foundation m) (s, ())))"

lemma ledger_exec_step:
  assumes "ledger_command ctx m" and "plain (ax_workspaceId ctx)"
  shows "ledger_step s (ledger_exec ctx key m s)"
proof (rule ledger_execute [OF assms])
  let ?x = "executeIdempotent 0 ctx key key (on_foundation m) (s, ())"
  show "executeIdempotent 0 ctx key key (on_foundation m) (s, ()) = (fst ?x, (ledger_exec ctx key m s, ()))"
    by (simp add: ledger_exec_def prod_eq_iff)
qed

lemma ledger_exec_run:
  assumes "ledger_step\<^sup>*\<^sup>* s0 s" and "ledger_command ctx m" and "plain (ax_workspaceId ctx)"
  shows "ledger_step\<^sup>*\<^sup>* s0 (ledger_exec ctx key m s)"
  using assms(1) ledger_exec_step [OF assms(2,3)] by (rule rtranclp.rtrancl_into_rtrancl)

definition sample_owner :: actor_context where
  "sample_owner = \<lparr>ax_workspaceId = ''w'', ax_userId = ''u'', ax_correlationId = ''c'', ax_actor = None\<rparr>"

definition sample_candidate :: "string \<Rightarrow> route_candidate" where
  "sample_candidate d =
     \<lparr> rc_catalogModelId = ''m'', rc_deploymentId = d, rc_region = Region_cn, rc_credentialMode = Credential_platform,
       rc_credentialVersion = ''1'', rc_providerModel = None, rc_endpointRevision = None, rc_executionChannelId = None,
       rc_accountIdentity = None, rc_endpointFingerprint = None, rc_dataPolicyRevisionId = None,
       rc_lifecycleRevision = None, rc_policyRevision = None, rc_priceRevision = None, rc_unitPriceMicros = None,
       rc_currency = None, rc_unit = None, rc_fallbackRank = None, rc_activationStatus = None \<rparr>"

definition sample_route :: route_snapshot where
  "sample_route =
     \<lparr> rt_id = ''route'', rt_workspaceId = [], rt_catalogRevision = ''1'', rt_policyRevision = ''1'',
       rt_priceRevision = ''1'', rt_requestedCatalogModelId = ''m'', rt_selectionMode = Fixed_model,
       rt_dataClass = D_public, rt_dataClasses = None, rt_fallbackConsent = True, rt_maxAttempts = None,
       rt_fallbackAuthorized = None, rt_allowedCandidates = [sample_candidate ''d1'', sample_candidate ''d2''],
       rt_dataPolicyRevisionId = None, rt_sourceKind = None, rt_retryOwner = None, rt_providerRetryDisabled = False,
       rt_createdAt = [] \<rparr>"

definition sample_cost :: "string \<Rightarrow> string \<Rightarrow> cost_facts" where
  "sample_cost i attempt =
     \<lparr> cf_id = i, cf_attemptId = attempt, cf_stage = Cost_observed, cf_amountMicros = Some (JInt 5), cf_currency = ''CNY'',
       cf_unit = ''call'', cf_evidence = ''bill'', cf_payer = Platform, cf_billingStatus = None, cf_snapshot = None \<rparr>"

definition sample_usage :: "string \<Rightarrow> usage_action \<Rightarrow> rat \<Rightarrow> string option \<Rightarrow> append_usage_input" where
  "sample_usage i a n r =
     \<lparr> su_eventId = i, su_resource = Copy, su_action = a, su_amount = Some n, su_reservationId = r, su_reason = ''why'' \<rparr>"

definition sample_checkpoint :: checkpoint_input where
  "sample_checkpoint =
     \<lparr> cp_jobId = ''job'', cp_operation = Copy, cp_usageReservationId = ''res'', cp_usageAmount = JInt 4,
       cp_openingEntitlement = Some \<lparr>og_id = ''opening'', og_amount = Some 10, og_reason = ''plan''\<rparr>,
       cp_routeSnapshot = sample_route, cp_attemptId = ''a1'', cp_deploymentId = ''d1'' \<rparr>"

definition sample_outcome :: "string \<Rightarrow> acceptance_evidence \<Rightarrow> provider_outcome \<Rightarrow> outcome_input" where
  "sample_outcome attempt evidence outcome =
     \<lparr> oi_attemptId = attempt, oi_acceptance = evidence, oi_providerTaskRef = None,
       oi_providerCost = sample_cost (''cost'' @ attempt) attempt, oi_result = [(''jobId'', Text_value ''job'')],
       oi_outcome = outcome \<rparr>"

text \<open>A checkpoint, a rejected first attempt, a second attempt that delivers.\<close>

definition owner_state :: "unit command_value foundation" where
  "owner_state = grantMembership ''w'' ''u'' Owner_role empty_foundation"

definition delivered_state :: "unit command_value foundation" where
  "delivered_state =
     ledger_exec sample_owner ''k4'' (settle_outcome 4 sample_owner (sample_outcome ''a2'' Ev_accepted (Outcome_completed None)))
      (ledger_exec sample_owner ''k3'' (checkpoint_provider_attempt 3 sample_owner
          \<lparr>ai_id = ''a2'', ai_jobId = ''job'', ai_deploymentId = ''d2''\<rparr>)
       (ledger_exec sample_owner ''k2'' (settle_outcome 2 sample_owner (sample_outcome ''a1'' Ev_rejected (Outcome_retryable ''busy'')))
        (ledger_exec sample_owner ''k1'' (checkpoint_attempt 1 sample_owner sample_checkpoint) owner_state)))"

lemma plain_sample: "plain (ax_workspaceId sample_owner)"
  by (simp add: plain_def sample_owner_def)

lemma owner_state_run: "ledger_step\<^sup>*\<^sup>* empty_foundation owner_state"
  unfolding owner_state_def by (rule r_into_rtranclp) (rule ledger_membership)

lemma delivered_state_run: "ledger_step\<^sup>*\<^sup>* empty_foundation delivered_state"
  unfolding delivered_state_def
  by (intro ledger_exec_run owner_state_run plain_sample ledger_command.intros)

section \<open>Dispatch\<close>

text \<open>
  C11. A job is dispatched again only after a rejection: in every state the commands reach, a job has at
  most two provider attempts, numbered in their order, and every one but the last was rejected before
  the provider took it. So no two attempts of a job are ever under way, and work that was accepted or
  whose acceptance is unknown is never sent a second time.
\<close>

theorem dispatched_again_only_after_rejection:
  fixes ws jobId :: string
  assumes "ledger_step\<^sup>*\<^sup>* empty_foundation s"
  defines "attempts \<equiv> listProviderAttempts s ws jobId"
  shows "length attempts \<le> 2 \<and> map pa_ordinal attempts = [1..<Suc (length attempts)] \<and>
    (\<forall>x \<in> set (butlast attempts). pa_acceptance x = Rejected_before_accept)"
  using ledger_run_inv [OF assms(1)]
  unfolding attempts_def generation_inv_def dispatched_in_order_def in_order_def by blast

theorem dispatched_again_only_after_rejection_witness:
  "map pa_acceptance (listProviderAttempts delivered_state ''w'' ''job'') = [Rejected_before_accept, Accepted] \<and>
   map pa_ordinal (listProviderAttempts delivered_state ''w'' ''job'') = [1, 2]"
proof -
  have "map pa_acceptance (listProviderAttempts delivered_state ''w'' ''job'') = [Rejected_before_accept, Accepted]"
    by code_simp
  moreover from this have "length (listProviderAttempts delivered_state ''w'' ''job'') = 2"
    by (metis length_map length_Cons list.size(3) numeral_2_eq_2)
  ultimately show ?thesis
    using dispatched_again_only_after_rejection [OF delivered_state_run, of "''w''" "''job''"]
    by (simp add: numeral_2_eq_2)
qed

section \<open>Payment\<close>

text \<open>
  C12. A delivered job is paid and a failed one is not: in every state the commands reach, the reservation
  of a completed job has been committed and the one of a failed job refunded, unless it is of the
  kind that is worth nothing.
\<close>

theorem finished_jobs_are_settled:
  assumes "ledger_step\<^sup>*\<^sup>* empty_foundation s" and "map_of (fs_generationJobs s) k = Some j"
    and "gj_status j \<in> {J_completed, J_failed}" and "\<not> isZeroValueUsageReservation (gj_usageReservationId j)"
  shows "\<exists>t. terminal_of (listUsageEvents s (gj_workspaceId j) (gj_operation j)) (gj_usageReservationId j) = Some t \<and>
    ue_action t = (if gj_status j = J_completed then U_commit else U_refund)"
  using ledger_run_inv [OF assms(1)] assms(2-4)
  unfolding generation_inv_def jobs_settled_def job_settled_def ended_as_def by auto

theorem finished_jobs_are_settled_witness:
  "\<exists>t. terminal_of (listUsageEvents delivered_state ''w'' Copy) ''res'' = Some t \<and> ue_action t = U_commit"
proof -
  have "case map_of (fs_generationJobs delivered_state) ''w:job'' of
      Some j \<Rightarrow> gj_status j = J_completed \<and> gj_usageReservationId j = ''res'' \<and> gj_workspaceId j = ''w'' \<and> gj_operation j = Copy
    | None \<Rightarrow> False" by code_simp
  then obtain j where j: "map_of (fs_generationJobs delivered_state) ''w:job'' = Some j" "gj_status j = J_completed"
    "gj_usageReservationId j = ''res''" "gj_workspaceId j = ''w''" "gj_operation j = Copy"
    by (auto split: option.splits)
  have "\<not> isZeroValueUsageReservation ''res''" by code_simp
  with finished_jobs_are_settled [OF delivered_state_run j(1)] j show ?thesis by simp
qed

text \<open>
  C10. The usage projection splits the reservations: in every state the commands reach, what is reserved,
  committed and released of a resource adds up to exactly the amounts that were reserved, and none of
  the three is negative; so no unit is used and given back at once.
\<close>

theorem usage_splits_reservations:
  fixes ws :: string and resource :: usage_resource
  assumes "ledger_step\<^sup>*\<^sup>* empty_foundation s"
  defines "events \<equiv> listUsageEvents s ws resource"
  defines "p \<equiv> projectUsage events"
  shows "up_reserved p + up_committed p + up_released p = sum_list (map ue_amount (filter counted events)) \<and>
    0 \<le> up_reserved p \<and> 0 \<le> up_committed p \<and> 0 \<le> up_released p"
  using projection_splits ledger_run_wf [OF assms(1)] unfolding p_def events_def usage_wf_def by blast

theorem usage_splits_reservations_witness:
  "up_reserved (projectUsage (listUsageEvents delivered_state ''w'' Copy)) +
   up_committed (projectUsage (listUsageEvents delivered_state ''w'' Copy)) +
   up_released (projectUsage (listUsageEvents delivered_state ''w'' Copy)) = 4"
proof -
  have "sum_list (map ue_amount (filter counted (listUsageEvents delivered_state ''w'' Copy))) = 4" by code_simp
  with usage_splits_reservations [OF delivered_state_run, of "''w''" Copy] show ?thesis by simp
qed

section \<open>Exactly once\<close>

text \<open>No command writes the results of commands or the entitlement events or removes usage, whatever it answers.\<close>

definition kept_tables :: "'v foundation \<Rightarrow> 'v foundation \<Rightarrow> bool" where
  "kept_tables s0 s \<longleftrightarrow> fs_commandResults s = fs_commandResults s0 \<and> fs_entitlementEvents s = fs_entitlementEvents s0 \<and>
     set (fs_usageEvents s0) \<subseteq> set (fs_usageEvents s)"

lemma kept_tables_refl: "kept_tables s s"
  by (simp add: kept_tables_def)

definition same_results :: "'v foundation \<Rightarrow> 'a \<times> 'v foundation \<Rightarrow> bool" where
  "same_results R p \<longleftrightarrow> kept_tables R (snd p)"

named_theorems results_rules \<open>where the results of commands stay the same\<close>

lemma results_value [results_rules]: "kept_tables R s \<Longrightarrow> same_results R (r, s)"
  by (simp add: same_results_def)

lemma results_guarded [results_rules]:
  "kept_tables R s \<Longrightarrow> (\<And>a. same_results R (f a s)) \<Longrightarrow> same_results R (guarded r f s)"
  by (cases r) (simp_all add: same_results_def)

lemma results_op_bind [results_rules]:
  assumes "same_results R (m s)" and "\<And>a s1. kept_tables R s1 \<Longrightarrow> same_results R (f a s1)"
  shows "same_results R (op_bind m f s)"
  using assms unfolding op_bind_def same_results_def by (cases "m s"; cases "fst (m s)") auto

lemma results_if [results_rules]:
  "same_results R x \<Longrightarrow> same_results R y \<Longrightarrow> same_results R (if b then x else y)"
  "same_results R (m s) \<Longrightarrow> same_results R (m' s) \<Longrightarrow> same_results R ((if b then m else m') s)"
  by simp_all

lemma results_option [results_rules]:
  "same_results R x \<Longrightarrow> (\<And>y. same_results R (f y)) \<Longrightarrow> same_results R (case v of None \<Rightarrow> x | Some y \<Rightarrow> f y)"
  "same_results R (m s) \<Longrightarrow> (\<And>y. same_results R (g y s)) \<Longrightarrow>
   same_results R ((case v of None \<Rightarrow> m | Some y \<Rightarrow> g y) s)"
  by (cases v; simp)+

lemma results_usage [results_rules]: "kept_tables R s \<Longrightarrow> same_results R (appendUsageRecord ev s)"
  unfolding appendUsageRecord_def by (intro results_rules) (auto simp: kept_tables_def)

lemma results_cost [results_rules]: "kept_tables R s \<Longrightarrow> same_results R (appendCostRecord c s)"
  unfolding appendCostRecord_def by (intro results_rules) (simp_all add: kept_tables_def)

lemma results_asset [results_rules]: "kept_tables R s \<Longrightarrow> same_results R (insertOwnedAsset x s)"
  unfolding insertOwnedAsset_def Let_def by (intro results_rules) (simp_all add: kept_tables_def)

lemma results_route [results_rules]: "kept_tables R s \<Longrightarrow> same_results R (insertRouteSnapshot rt s)"
  unfolding insertRouteSnapshot_def Let_def by (intro results_rules) (simp_all add: kept_tables_def)

lemma results_job [results_rules]:
  "kept_tables R s \<Longrightarrow> same_results R (insertGenerationJob j s)"
  "kept_tables R s \<Longrightarrow> same_results R (updateGenerationJob j s)"
  unfolding insertGenerationJob_def updateGenerationJob_def Let_def by (intro results_rules; simp add: kept_tables_def)+

lemma results_attempt [results_rules]:
  "kept_tables R s \<Longrightarrow> same_results R (insertProviderAttempt y s)"
  "kept_tables R s \<Longrightarrow> same_results R (updateProviderAttempt y s)"
  unfolding insertProviderAttempt_def updateProviderAttempt_def Let_def by (intro results_rules; simp add: kept_tables_def)+

lemma results_parts [results_rules]:
  "kept_tables R s \<Longrightarrow> same_results R (open_entitlement now ctx cp s)"
  "kept_tables R s \<Longrightarrow> same_results R (reserve_for_checkpoint now ctx cp s)"
  "kept_tables R s \<Longrightarrow> same_results R (settleUsageReservation ctx j commit why t s)"
  unfolding open_entitlement_def reserve_for_checkpoint_def settleUsageReservation_def Let_def
  by (intro results_rules; assumption)+

lemma results_outcome [results_rules]:
  "kept_tables R s \<Longrightarrow> same_results R (settle_outcome_usage ctx t j asset outcome s)"
  unfolding settle_outcome_usage_def by (cases outcome; simp only: provider_outcome.case; intro results_rules; assumption)

lemma results_append_usage: "same_results s (append_usage now ctx i1 s)"
  unfolding append_usage_def Let_def by (intro results_rules; (assumption | rule kept_tables_refl))

lemma results_start: "same_results s (start_generation now ctx i2 s)"
  unfolding start_generation_def Let_def by (intro results_rules; (assumption | rule kept_tables_refl))

lemma results_checkpoint: "same_results s (checkpoint_attempt now ctx i3 s)"
  unfolding checkpoint_attempt_def Let_def by (intro results_rules; (assumption | rule kept_tables_refl))

lemma results_provider_attempt: "same_results s (checkpoint_provider_attempt now ctx i4 s)"
  unfolding checkpoint_provider_attempt_def Let_def by (intro results_rules; (assumption | rule kept_tables_refl))

lemma results_acceptance: "same_results s (record_acceptance now ctx i5 s)"
  unfolding record_acceptance_def Let_def by (intro results_rules; (assumption | rule kept_tables_refl))

lemma results_append_cost: "same_results s (append_cost now ctx i6 s)"
  unfolding append_cost_def Let_def by (intro results_rules; (assumption | rule kept_tables_refl))

lemma results_settle_outcome: "same_results s (settle_outcome now ctx i7 s)"
  unfolding settle_outcome_def Let_def by (intro results_rules; (assumption | rule kept_tables_refl))

lemma results_record_asset: "same_results s (record_asset now ctx i8 s)"
  unfolding record_asset_def Let_def by (intro results_rules; (assumption | rule kept_tables_refl))

lemma results_settle_failure: "same_results s (settle_failure now ctx job why s)"
  unfolding settle_failure_def Let_def prod.case by (intro results_rules; (assumption | rule kept_tables_refl))

lemma results_compensate: "same_results s (compensate_usage now ctx job why s)"
  unfolding compensate_usage_def Let_def by (intro results_rules; (assumption | rule kept_tables_refl))

lemmas command_results = results_append_usage results_start results_checkpoint results_provider_attempt
  results_acceptance results_append_cost results_settle_outcome results_record_asset results_settle_failure
  results_compensate

lemma ledger_command_results: "ledger_command ctx m \<Longrightarrow> kept_tables s (snd (m s))"
  by (cases rule: ledger_command.cases, assumption) (simp_all only: command_results [unfolded same_results_def])

lemma ledger_step_results:
  assumes "ledger_step s s'" and "map_of (fs_commandResults s) key = Some v"
  shows "map_of (fs_commandResults s') key = Some v"
  using assms(1)
proof (cases rule: ledger_step.cases)
  case (ledger_execute ctx m clock k hash r)
  have "fs_commandResults (snd (m s)) = fs_commandResults s"
    using ledger_command_results [OF ledger_execute(1)] by (simp add: kept_tables_def)
  with ledger_execute(3) assms(2) show ?thesis
    unfolding executeIdempotent_def Let_def on_foundation_def
    by (auto simp: rolled_back_def split: option.splits prod.splits sum.splits if_splits)
next
  case (ledger_membership ws user role)
  with assms(2) show ?thesis by (simp add: grantMembership_def)
qed

lemma ledger_step_entitlements:
  assumes "ledger_step s s'"
  shows "fs_entitlementEvents s' = fs_entitlementEvents s \<and> set (fs_usageEvents s) \<subseteq> set (fs_usageEvents s')"
  using assms
proof (cases rule: ledger_step.cases)
  case (ledger_execute ctx m clock k hash r)
  have "kept_tables s (snd (m s))" by (rule ledger_command_results [OF ledger_execute(1)])
  with execute_cases [OF ledger_execute(3)] show ?thesis by (auto simp: rolled_back_def kept_tables_def)
qed (simp add: grantMembership_def)

lemma ledger_run_results:
  "ledger_step\<^sup>*\<^sup>* s s' \<Longrightarrow> map_of (fs_commandResults s) key = Some v \<Longrightarrow> map_of (fs_commandResults s') key = Some v"
  by (induction rule: rtranclp_induct) (auto intro: ledger_step_results)

text \<open>
  C9. A checkpoint is taken once: after a checkpoint that was carried out, the same request under the same
  key, in any later state, at any time and whatever opening entitlement the caller computed meanwhile,
  changes nothing and is answered with the recorded job and attempt and marked as a replay, so that
  the caller does not dispatch again.
\<close>

theorem checkpoint_taken_once:
  assumes "checkpointGenerationAttempt hash now audit ctx inp key (s, ()) = (Inr (False, v), (s1, ()))"
    and "ledger_step\<^sup>*\<^sup>* s1 s2"
  shows "checkpointGenerationAttempt hash now' audit' ctx (inp\<lparr>cp_openingEntitlement := opening\<rparr>) key (s2, ()) =
    (Inr (True, v), (s2, ()))"
proof -
  let ?h = "hash (P_checkpoint (inp\<lparr>cp_openingEntitlement := None\<rparr>))"
  have "map_of (fs_commandResults s1) (scoped (ax_workspaceId ctx) key) = Some (?h, v)"
    using assms(1) unfolding checkpointGenerationAttempt_def executeIdempotent_def Let_def
    by (auto split: option.splits prod.splits sum.splits if_splits)
  from ledger_run_results [OF assms(2) this] show ?thesis
    by (simp add: checkpointGenerationAttempt_def executeIdempotent_def Let_def)
qed

definition sample_hash :: "ledger_payload \<Rightarrow> string" where
  "sample_hash p = ''0''"

theorem checkpoint_taken_once_witness:
  "\<exists>v s1. checkpointGenerationAttempt sample_hash 1 1 sample_owner sample_checkpoint ''k1'' (owner_state, ()) =
     (Inr (False, v), (s1, ())) \<and>
   checkpointGenerationAttempt sample_hash 2 2 sample_owner (sample_checkpoint\<lparr>cp_openingEntitlement := None\<rparr>) ''k1'' (s1, ()) =
     (Inr (True, v), (s1, ()))"
proof -
  let ?m = "checkpointGenerationAttempt sample_hash 1 1 sample_owner sample_checkpoint ''k1'' (owner_state, ())"
  have "case fst ?m of Inr (b, v) \<Rightarrow> \<not> b | _ \<Rightarrow> False" by code_simp
  then obtain v where "?m = (Inr (False, v), (fst (snd ?m), ()))"
    by (auto split: sum.splits prod.splits simp: prod_eq_iff)
  from checkpoint_taken_once [OF this rtranclp.rtrancl_refl] this show ?thesis by blast
qed

section \<open>Compensation\<close>

text \<open>
  A compensation gives back the whole reservation, also when less was committed, and does so once
  more for every other reason: after a grant of 10, a reservation of 10 of which 4 were committed and
  two compensations, 26 are available.
\<close>

definition sample_job :: start_generation_input where
  "sample_job = \<lparr>sg_jobId = ''job'', sg_operation = Copy, sg_usageReservationId = ''res'', sg_routeSnapshot = sample_route\<rparr>"

definition compensated_state :: "unit command_value foundation" where
  "compensated_state =
     ledger_exec sample_owner ''k6'' (compensate_usage 6 sample_owner ''job'' ''label'')
     (ledger_exec sample_owner ''k5'' (compensate_usage 5 sample_owner ''job'' ''compose'')
      (ledger_exec sample_owner ''k4'' (append_usage 4 sample_owner (sample_usage ''e3'' U_commit 4 (Some ''res'')))
       (ledger_exec sample_owner ''k3'' (start_generation 3 sample_owner sample_job)
        (ledger_exec sample_owner ''k2'' (append_usage 2 sample_owner (sample_usage ''e2'' U_reserve 10 (Some ''res'')))
         (ledger_exec sample_owner ''k1'' (append_usage 1 sample_owner (sample_usage ''e1'' U_adjust 10 None)) owner_state)))))"

lemma compensation_exceeds_commit:
  "up_committed (projectUsage (listUsageEvents compensated_state ''w'' Copy)) = 4 \<and>
   up_available (projectUsage (listUsageEvents compensated_state ''w'' Copy)) = 26"
  by code_simp

end
