(* ===== verification/PlanEntitlement.thy ===== *)
theory PlanEntitlement
  imports GenerationLedger
begin

text \<open>
  The service of product entitlements, \<^verbatim>\<open>foundation/entitlement-service.ts\<close>: plans with their period,
  add-ons, and automatic top-ups within the monthly cap of the owner. A command is an idempotent
  execution over the foundation store, whose usage events carry the allowances. The digest of a text and of
  a payload are functions, the payment port is a pair of operations on a state of its own. A command
  reads the clock of the service at one instant and \<^verbatim>\<open>new Date()\<close> at another.
\<close>

section \<open>Inputs and values\<close>

record entitlement_projection =
  pj_workspaceId :: string
  pj_plan :: "product_plan_policy option"
  pj_concurrencyLimit :: js_number
  pj_queuePriority :: js_number
  pj_supportLabel :: support_label
  pj_usage :: "usage_projection per_resource"
  pj_addOns :: "int per_resource"
  pj_addOnPurchases :: "purchase_facts list"
  pj_autoTopUp :: auto_top_up_configuration
  pj_month :: string
  pj_spentThisMonthMicros :: int

record plan_activation =
  pn_paymentEventId :: string
  pn_policy :: product_plan_policy
  pn_grantKey :: "string option"

record top_up_input =
  tu_resource :: usage_resource
  tu_requiredAvailable :: js_number
  tu_month :: "string option"

record prepare_input =
  pp_workspaceId :: string
  pp_idempotencyKey :: string
  pp_amountMicros :: int
  pp_currency :: string
  pp_resource :: usage_resource
  pp_quantity :: int

datatype prepared_payment = Payment_prepared string | Payment_declined string

record settle_input =
  sl_workspaceId :: string
  sl_idempotencyKey :: string
  sl_paymentEventId :: string
  sl_entitlementEventId :: string

text \<open>A settlement carries the purchase and its month.\<close>

datatype entitlement_value =
    E_projection entitlement_projection
  | E_top_up entitlement_projection "(settle_input \<times> purchase_facts \<times> string) option"

datatype entitlement_payload =
    Q_plan plan_activation
  | Q_add_on purchase_facts
  | Q_configure auto_top_up_configuration
  | Q_top_up top_up_input string
  | Q_purchase purchase_facts string
  | Q_expire string
  | Q_supplement "add_on list" auto_top_up

type_synonym entitlement_store = "entitlement_value command_value foundation"
type_synonym 'a entitlement_op = "(entitlement_store, 'a) op"
type_synonym ('p, 'a) service_op = "(entitlement_store \<times> 'p, 'a) op"

abbreviation V_projection :: "entitlement_projection \<Rightarrow> entitlement_value command_value" where
  "V_projection p \<equiv> V_entitlement (E_projection p)"

section \<open>Validation\<close>

definition invalid :: "string \<Rightarrow> js_error" where
  "invalid message = P1DomainError INVALID_STATE message"

definition requireNonEmpty :: "string \<Rightarrow> string \<Rightarrow> unit result" where
  "requireNonEmpty v field = check (\<not> blank v) (invalid (field @ '' must not be empty.''))"

definition natural :: "js_number \<Rightarrow> bool" where
  "natural n \<longleftrightarrow> number_isInteger n \<and> 0 \<le> int_of n"

fun validate_allowances :: "js_number per_resource \<Rightarrow> usage_resource list \<Rightarrow> unit result" where
  "validate_allowances allowance [] = Inr ()"
| "validate_allowances allowance (r # rs) =
     r_bind (check (natural (at_resource allowance r))
       (invalid (''Plan '' @ resource_name r @ '' allowance must be a non-negative integer.''))) (\<lambda>_.
       validate_allowances allowance rs)"

definition validatePlan :: "product_plan_policy \<Rightarrow> unit result" where
  "validatePlan p =
     r_bind (requireNonEmpty (pl_revision p) ''plan revision'') (\<lambda>_.
     r_bind (requireNonEmpty (pl_periodId p) ''plan period'') (\<lambda>_.
     r_bind (check (pl_tier p = Trial \<longrightarrow> pl_periodStrategy p = Some Fixed_days)
       (invalid ''Trial plans require the fixed_days period strategy.'')) (\<lambda>_.
     r_bind (check (pl_tier p \<noteq> Trial \<longrightarrow> pl_periodStrategy p \<noteq> Some Fixed_days)
       (invalid ''Only trial plans may use the fixed_days period strategy.'')) (\<lambda>_.
     r_bind (check (num_lt (date_parse (pl_periodStartsAt p)) (date_parse (pl_periodEndsAt p)))
       (invalid ''Plan period is invalid.'')) (\<lambda>_.
     r_bind (validate_allowances (pl_allowance p) USAGE_RESOURCES) (\<lambda>_.
       check (natural (pl_concurrencyLimit p) \<and> int_of (pl_concurrencyLimit p) \<noteq> 0 \<and> natural (pl_queuePriority p))
         (invalid ''Plan concurrency and queue priority are invalid.'')))))))"

definition validatePurchase :: "purchase_facts \<Rightarrow> unit result" where
  "validatePurchase x =
     r_bind (requireNonEmpty (pu_paymentEventId x) ''paymentEventId'') (\<lambda>_.
     r_bind (requireNonEmpty (pu_purchaseId x) ''purchaseId'') (\<lambda>_.
     r_bind (requireNonEmpty (pu_currency x) ''currency'') (\<lambda>_.
     r_bind (check (number_isInteger (pu_quantity x) \<and> 0 < int_of (pu_quantity x))
       (invalid ''Purchase quantity must be a positive integer.'')) (\<lambda>_.
       check (natural (pu_amountMicros x))
         (invalid ''Purchase amount must be non-negative integer micros.'')))))"

fun validate_packages :: "(usage_resource \<times> top_up_package option) list \<Rightarrow> unit result" where
  "validate_packages [] = Inr ()"
| "validate_packages ((r, None) # xs) = Inl (invalid ''Automatic top-up resource is invalid.'')"
| "validate_packages ((r, Some d) # xs) =
     r_bind (validatePurchase \<lparr>pu_paymentEventId = ''configuration'', pu_purchaseId = ''configuration'',
       pu_resource = r, pu_quantity = tp_quantity d, pu_amountMicros = tp_amountMicros d,
       pu_currency = tp_currency d\<rparr>) (\<lambda>_. validate_packages xs)"

definition validateAutoTopUp :: "auto_top_up_configuration \<Rightarrow> unit result" where
  "validateAutoTopUp c =
     r_bind (check (natural (ac_monthlyCapMicros c))
       (invalid ''Automatic top-up monthly cap must be non-negative integer micros.'')) (\<lambda>_.
     r_bind (validate_packages (ac_packages c)) (\<lambda>_.
       check (\<not> (ac_enabled c \<and> ac_packages c = []))
         (invalid ''Enabled automatic top-up requires at least one package.'')))"

definition digit :: "char \<Rightarrow> bool" where
  "digit c \<longleftrightarrow> digit_value c \<noteq> None"

definition month_text :: "string \<Rightarrow> bool" where
  "month_text v \<longleftrightarrow>
     (case v of
        [a, b, c, d, e, f, g] \<Rightarrow>
          digit a \<and> digit b \<and> digit c \<and> digit d \<and> e = CHR ''-'' \<and>
          (f = CHR ''0'' \<and> digit g \<and> g \<noteq> CHR ''0'' \<or> f = CHR ''1'' \<and> g \<in> {CHR ''0'', CHR ''1'', CHR ''2''})
      | _ \<Rightarrow> False)"

definition validateMonth :: "string \<Rightarrow> unit result" where
  "validateMonth v = check (month_text v) (invalid ''Month must use YYYY-MM.'')"

definition currentMonth :: "int \<Rightarrow> string" where
  "currentMonth now = take 7 (to_iso_string now)"

section \<open>Reading the events\<close>

fun activated_plan :: "entitlement_event \<Rightarrow> (string \<times> product_plan_policy) option" where
  "activated_plan (Plan_activated b _ p _) = Some (eb_id b, p)"
| "activated_plan _ = None"

fun configured_top_up :: "entitlement_event \<Rightarrow> auto_top_up_configuration option" where
  "configured_top_up (Auto_top_up_configured _ c) = Some c"
| "configured_top_up _ = None"

definition last_of :: "'a list \<Rightarrow> 'a option" where
  "last_of xs = (if xs = [] then None else Some (last xs))"

definition latestPlan :: "entitlement_event list \<Rightarrow> (string \<times> product_plan_policy) option" where
  "latestPlan events = last_of (List.map_filter activated_plan events)"

definition expiry_recorded :: "string \<Rightarrow> entitlement_event list \<Rightarrow> bool" where
  "expiry_recorded planEventId events =
     list_ex (\<lambda>x. case x of Plan_expired_event _ i _ \<Rightarrow> i = planEventId | _ \<Rightarrow> False) events"

definition period_ended :: "int \<Rightarrow> product_plan_policy \<Rightarrow> bool" where
  "period_ended now p = num_le (date_parse (pl_periodEndsAt p)) (Some now)"

definition activePlanEvent :: "int \<Rightarrow> entitlement_event list \<Rightarrow> (string \<times> product_plan_policy) option" where
  "activePlanEvent now events =
     (case latestPlan events of
        None \<Rightarrow> None
      | Some (i, p) \<Rightarrow> if expiry_recorded i events \<or> period_ended now p then None else Some (i, p))"

definition EMPTY_AUTO_TOP_UP :: auto_top_up_configuration where
  "EMPTY_AUTO_TOP_UP = \<lparr>ac_enabled = False, ac_monthlyCapMicros = JInt 0, ac_packages = []\<rparr>"

definition latestAutoTopUp :: "entitlement_event list \<Rightarrow> auto_top_up_configuration" where
  "latestAutoTopUp events = or_default (last_of (List.map_filter configured_top_up events)) EMPTY_AUTO_TOP_UP"

definition package_for :: "auto_top_up_configuration \<Rightarrow> usage_resource \<Rightarrow> top_up_package option" where
  "package_for c r = (case map_of (ac_packages c) r of Some d \<Rightarrow> d | None \<Rightarrow> None)"

definition paidEvent :: "entitlement_event list \<Rightarrow> string \<Rightarrow> entitlement_event option" where
  "paidEvent events paymentEventId = find (\<lambda>x. paid_by x = Some paymentEventId) events"

fun paidPurchase :: "entitlement_event \<Rightarrow> (purchase_facts \<times> string option) option" where
  "paidPurchase (Add_on_purchased _ p) = Some (p, None)"
| "paidPurchase (Auto_top_up_purchased _ p m) = Some (p, Some m)"
| "paidPurchase _ = None"

fun spend_in :: "string \<Rightarrow> entitlement_event \<Rightarrow> int" where
  "spend_in month (Auto_top_up_purchased _ p m) = (if m = month then int_of (pu_amountMicros p) else 0)"
| "spend_in month _ = 0"

definition autoTopUpSpend :: "entitlement_event list \<Rightarrow> string \<Rightarrow> int" where
  "autoTopUpSpend events month = sum_list (map (spend_in month) events)"

fun purchased_id :: "entitlement_event \<Rightarrow> string option" where
  "purchased_id (Auto_top_up_purchased _ p _) = Some (pu_purchaseId p)"
| "purchased_id _ = None"

fun pending_in :: "string \<Rightarrow> string list \<Rightarrow> entitlement_event \<Rightarrow> int" where
  "pending_in month ended (Auto_top_up_pending _ p m) =
     (if m = month \<and> pu_purchaseId p \<notin> set ended then int_of (pu_amountMicros p) else 0)"
| "pending_in month ended _ = 0"

text \<open>What a month is bound to: its purchases, and the pending ones that no purchase has activated.\<close>

definition autoTopUpCapCommitment :: "entitlement_event list \<Rightarrow> string \<Rightarrow> string option \<Rightarrow> int" where
  "autoTopUpCapCommitment events month activatingPurchaseId =
     (let purchasedIds = List.map_filter purchased_id events;
          ended = (case activatingPurchaseId of None \<Rightarrow> purchasedIds | Some i \<Rightarrow> i # purchasedIds)
      in autoTopUpSpend events month + sum_list (map (pending_in month ended) events))"

definition add_on_purchases :: "entitlement_event list \<Rightarrow> purchase_facts list" where
  "add_on_purchases events = List.map_filter (\<lambda>x. case x of Add_on_purchased _ p \<Rightarrow> Some p | _ \<Rightarrow> None) events"

section \<open>The projection\<close>

definition projectionFromStore :: "string \<Rightarrow> string \<Rightarrow> int \<Rightarrow> 'v foundation \<Rightarrow> entitlement_projection" where
  "projectionFromStore ws month now s =
     (let events = listProductEntitlementEvents s ws;
          plan = map_option snd (activePlanEvent now events);
          expiredLatest = (if activePlanEvent now events = None then latestPlan events else None);
          purchases = add_on_purchases events;
          usage = (\<lambda>r.
            let projected = projectUsage (listUsageEvents s ws r)
            in case expiredLatest of
                 None \<Rightarrow> projected
               | Some (i, p) \<Rightarrow>
                   if expiry_recorded i events then projected
                   else (let adjusted = max 0 (up_allowance projected - of_int (int_of (at_resource (pl_allowance p) r)));
                             consumed = up_reserved projected + up_committed projected - up_released projected
                         in projected\<lparr>up_allowance := adjusted, up_available := max 0 (adjusted - consumed)\<rparr>))
      in \<lparr> pj_workspaceId = ws, pj_plan = plan,
           pj_concurrencyLimit = (case plan of None \<Rightarrow> JInt 1 | Some p \<Rightarrow> pl_concurrencyLimit p),
           pj_queuePriority = (case plan of None \<Rightarrow> JInt 0 | Some p \<Rightarrow> pl_queuePriority p),
           pj_supportLabel = (case plan of None \<Rightarrow> Standard | Some p \<Rightarrow> pl_supportLabel p),
           pj_usage = for_resources usage,
           pj_addOns = for_resources (\<lambda>r.
             sum_list (map (\<lambda>x. int_of (pu_quantity x)) (filter (\<lambda>x. pu_resource x = r) purchases))),
           pj_addOnPurchases = purchases, pj_autoTopUp = latestAutoTopUp events, pj_month = month,
           pj_spentThisMonthMicros = autoTopUpSpend events month \<rparr>)"

definition answer_projection :: "string \<Rightarrow> string \<Rightarrow> int \<Rightarrow> entitlement_value command_value entitlement_op" where
  "answer_projection ws month now s = (Inr (V_projection (projectionFromStore ws month now s)), s)"

section \<open>Allowances\<close>

fun for_each :: "('a \<Rightarrow> ('s, unit) op) \<Rightarrow> 'a list \<Rightarrow> ('s, unit) op" where
  "for_each f [] s = (Inr (), s)"
| "for_each f (x # xs) s = op_bind (f x) (\<lambda>_. for_each f xs) s"

definition new_event :: "actor_context \<Rightarrow> string \<Rightarrow> string \<Rightarrow> event_base" where
  "new_event ctx i now_text =
     \<lparr> eb_id = i, eb_workspaceId = ax_workspaceId ctx, eb_actorId = ax_userId ctx,
       eb_correlationId = ax_correlationId ctx, eb_createdAt = now_text \<rparr>"

definition allowance_adjustment :: "event_base \<Rightarrow> usage_resource \<Rightarrow> rat \<Rightarrow> string \<Rightarrow> usage_event" where
  "allowance_adjustment b r amount reason =
     \<lparr> ue_id = eb_id b @ '':'' @ resource_name r @ '':allowance'', ue_workspaceId = eb_workspaceId b,
       ue_resource = r, ue_action = U_adjust, ue_amount = amount, ue_reservationId = None, ue_reason = reason,
       ue_actorId = eb_actorId b, ue_correlationId = eb_correlationId b, ue_createdAt = eb_createdAt b \<rparr>"

definition appendAllowanceAdjustment ::
    "event_base \<Rightarrow> usage_resource \<Rightarrow> rat \<Rightarrow> string \<Rightarrow> ('v foundation, unit) op" where
  "appendAllowanceAdjustment b r amount reason = appendUsageRecord (allowance_adjustment b r amount reason)"

definition plan_reason :: "string \<Rightarrow> product_plan_policy \<Rightarrow> string" where
  "plan_reason prefix p = prefix @ '':'' @ plan_tier_name (pl_tier p) @ '':'' @ pl_revision p @ '':'' @ pl_periodId p"

definition adjust_unless_zero ::
    "event_base \<Rightarrow> string \<Rightarrow> (usage_resource \<Rightarrow> 'v foundation \<Rightarrow> rat) \<Rightarrow> usage_resource \<Rightarrow> ('v foundation, unit) op" where
  "adjust_unless_zero b reason amount r s =
     (if amount r s \<noteq> 0 then appendAllowanceAdjustment b r (amount r s) reason s else (Inr (), s))"

text \<open>The end of the latest plan, once its period is over, and the removal of its allowance.\<close>

definition ensureExpiredPlansRecorded ::
    "(string \<Rightarrow> string) \<Rightarrow> int \<Rightarrow> actor_context \<Rightarrow> entitlement_event list \<Rightarrow> ('v foundation, entitlement_event list) op" where
  "ensureExpiredPlansRecorded digest now ctx events s =
     (case latestPlan events of
        None \<Rightarrow> (Inr events, s)
      | Some (i, p) \<Rightarrow>
          if expiry_recorded i events \<or> \<not> period_ended now p then (Inr events, s)
          else (let b = new_event ctx (''plan-expired-'' @ take 24 (digest i)) (to_iso_string now)
                in op_bind (appendProductEntitlementEvent (Plan_expired_event b i p)) (\<lambda>_.
                   op_bind (for_each (adjust_unless_zero b (plan_reason ''plan_expired'' p)
                       (\<lambda>r _. - of_int (int_of (at_resource (pl_allowance p) r)))) USAGE_RESOURCES) (\<lambda>_ s.
                     (Inr (listProductEntitlementEvents s (ax_workspaceId ctx)), s))) s))"

fun split_semicolon :: "string \<Rightarrow> string list" where
  "split_semicolon [] = [[]]"
| "split_semicolon (c # cs) =
     (if c = CHR '';'' then [] # split_semicolon cs
      else case split_semicolon cs of [] \<Rightarrow> [[c]] | x # xs \<Rightarrow> (c # x) # xs)"

definition plan_allowance_text :: string where
  "plan_allowance_text = ''plan_allowance=''"

text \<open>The first segment that is \<^verbatim>\<open>plan_allowance=\<close> with digits.\<close>

definition explicit_allowance :: "string \<Rightarrow> nat option" where
  "explicit_allowance reason =
     (let n = length plan_allowance_text
      in map_option (\<lambda>x. digits_value (drop n x))
           (find (\<lambda>x. starts_with plan_allowance_text x \<and> drop n x \<noteq> [] \<and> list_all digit (drop n x))
             (split_semicolon reason)))"

definition text_includes :: "string \<Rightarrow> string \<Rightarrow> bool" where
  "text_includes p s = list_ex (\<lambda>i. starts_with p (drop i s)) [0..<Suc (length s)]"

definition existingPlanOpeningAllowance :: "string \<Rightarrow> usage_resource \<Rightarrow> 'v foundation \<Rightarrow> rat" where
  "existingPlanOpeningAllowance ws r s =
     sum_list (map (\<lambda>x. case explicit_allowance (ue_reason x) of
                          Some n \<Rightarrow> of_nat n
                        | None \<Rightarrow> if text_includes ''addons=none'' (ue_reason x) then ue_amount x else 0)
       (filter (\<lambda>x. ue_action x = U_adjust \<and> starts_with ''plan_opening:'' (ue_reason x)) (listUsageEvents s ws r)))"

definition periodCommittedUsage :: "string \<Rightarrow> usage_resource \<Rightarrow> product_plan_policy \<Rightarrow> 'v foundation \<Rightarrow> rat" where
  "periodCommittedUsage ws r p s =
     (let events = listUsageEvents s ws r;
          terminals = usage_terminals events
      in sum_list (map ue_amount (filter (\<lambda>x.
           ue_action x = U_reserve \<and> truthy (ue_reservationId x) \<noteq> None \<and>
           \<not> num_lt (date_parse (ue_createdAt x)) (date_parse (pl_periodStartsAt p)) \<and>
           \<not> num_le (date_parse (pl_periodEndsAt p)) (date_parse (ue_createdAt x)) \<and>
           map_option ue_action (map_of terminals (ue_reservationId x)) = Some U_commit) events)))"

text \<open>
  The change of a resource's allowance by a plan: against the plan it replaces, whose committed usage is
  carried into another period; against a plan that has expired; or against an opening of older code.
\<close>

definition plan_change ::
    "string \<Rightarrow> product_plan_policy \<Rightarrow> product_plan_policy option \<Rightarrow> product_plan_policy option \<Rightarrow>
       usage_resource \<Rightarrow> 'v foundation \<Rightarrow> rat" where
  "plan_change ws p previous previousExpired r s =
     (let allowance = (\<lambda>q. of_int (int_of (at_resource (pl_allowance q) r)));
          carried = (\<lambda>q. min (allowance q) (periodCommittedUsage ws r q s))
      in case (previous, previousExpired) of
           (Some q, _) \<Rightarrow>
             if pl_periodId q = pl_periodId p then allowance p - allowance q
             else allowance p - allowance q + carried q
         | (None, Some q) \<Rightarrow> allowance p + carried q
         | (None, None) \<Rightarrow> allowance p - existingPlanOpeningAllowance ws r s)"

section \<open>Plans\<close>

definition authorizePlanWriter :: "actor_context \<Rightarrow> 'v foundation \<Rightarrow> unit result" where
  "authorizePlanWriter ctx s = (if ax_actor ctx = Some Payment_actor then Inr () else authorizeOwner ctx s)"

definition bound_elsewhere :: js_error where
  "bound_elsewhere = P1DomainError IDEMPOTENCY_CONFLICT ''Payment event is already bound to another entitlement.''"

definition grant_plan ::
    "(string \<Rightarrow> string) \<Rightarrow> int \<Rightarrow> actor_context \<Rightarrow> plan_activation \<Rightarrow> entitlement_event list \<Rightarrow> ('v foundation, unit) op" where
  "grant_plan digest now ctx inp events s =
     (let p = pn_policy inp;
          previous = map_option snd (activePlanEvent now events);
          previousExpired =
            (if previous \<noteq> None then None
             else case latestPlan events of
                    None \<Rightarrow> None
                  | Some (i, q) \<Rightarrow> if expiry_recorded i events then Some q else None);
          b = new_event ctx (''plan-'' @ take 28 (digest (pn_paymentEventId inp))) (to_iso_string now)
      in op_bind (appendProductEntitlementEvent (Plan_activated b (pn_paymentEventId inp) p (truthy (pn_grantKey inp)))) (\<lambda>_.
           for_each (adjust_unless_zero b (plan_reason ''plan'' p)
             (plan_change (ax_workspaceId ctx) p previous previousExpired)) USAGE_RESOURCES) s)"

definition activate_plan ::
    "(string \<Rightarrow> string) \<Rightarrow> int \<Rightarrow> actor_context \<Rightarrow> plan_activation \<Rightarrow> entitlement_value command_value entitlement_op" where
  "activate_plan digest now ctx inp s =
     (let project = answer_projection (ax_workspaceId ctx) (currentMonth now) now
      in guarded (authorizePlanWriter ctx s) (\<lambda>_.
         op_bind (ensureExpiredPlansRecorded digest now ctx (listProductEntitlementEvents s (ax_workspaceId ctx))) (\<lambda>events.
           if pn_grantKey inp = Some REGISTER_GIFT_GRANT_KEY \<and> list_ex register_gift events then project
           else case paidEvent events (pn_paymentEventId inp) of
                  Some x \<Rightarrow>
                    guarded (check (map_option snd (activated_plan x) = Some (pn_policy inp)) bound_elsewhere) (\<lambda>_. project)
                | None \<Rightarrow> op_bind (grant_plan digest now ctx inp events) (\<lambda>_. project))) s)"

text \<open>A public command: validation, then the idempotent execution whose value is answered.\<close>

definition entitlement_command ::
    "int \<Rightarrow> actor_context \<Rightarrow> string \<Rightarrow> string \<Rightarrow> entitlement_value command_value entitlement_op \<Rightarrow>
       ('p, entitlement_value command_value) service_op" where
  "entitlement_command clock ctx key hash action = run_command clock ctx key hash (on_foundation action)"

definition activatePlan ::
    "(string \<Rightarrow> string) \<Rightarrow> (entitlement_payload \<Rightarrow> string) \<Rightarrow> int \<Rightarrow> int \<Rightarrow> actor_context \<Rightarrow> plan_activation \<Rightarrow> string \<Rightarrow>
       ('p, entitlement_value command_value) service_op" where
  "activatePlan digest hash now clock ctx inp key =
     guarded (validatePlan (pn_policy inp)) (\<lambda>_.
     guarded (requireNonEmpty (pn_paymentEventId inp) ''paymentEventId'') (\<lambda>_.
       entitlement_command clock ctx key (hash (Q_plan inp)) (activate_plan digest now ctx inp)))"

section \<open>Add-ons\<close>

definition record_add_on ::
    "(string \<Rightarrow> string) \<Rightarrow> int \<Rightarrow> int \<Rightarrow> actor_context \<Rightarrow> purchase_facts \<Rightarrow> entitlement_value command_value entitlement_op" where
  "record_add_on digest now clock ctx inp s =
     (let ws = ax_workspaceId ctx;
          project = answer_projection ws (currentMonth now) now;
          b = new_event ctx (''addon-'' @ take 28 (digest (pu_paymentEventId inp))) (to_iso_string clock)
      in guarded (authorizeOwner ctx s) (\<lambda>_.
           case paidEvent (listProductEntitlementEvents s ws) (pu_paymentEventId inp) of
             Some x \<Rightarrow> guarded (check (paidPurchase x = Some (inp, None)) bound_elsewhere) (\<lambda>_. project)
           | None \<Rightarrow>
               op_bind (appendProductEntitlementEvent (Add_on_purchased b inp)) (\<lambda>_.
               op_bind (appendAllowanceAdjustment b (pu_resource inp) (of_int (int_of (pu_quantity inp)))
                 (''add_on:'' @ pu_purchaseId inp @ '':payment:'' @ pu_paymentEventId inp)) (\<lambda>_. project))) s)"

definition recordAddOnPurchase ::
    "(string \<Rightarrow> string) \<Rightarrow> (entitlement_payload \<Rightarrow> string) \<Rightarrow> int \<Rightarrow> int \<Rightarrow> actor_context \<Rightarrow> purchase_facts \<Rightarrow> string \<Rightarrow>
       ('p, entitlement_value command_value) service_op" where
  "recordAddOnPurchase digest hash now clock ctx inp key =
     guarded (validatePurchase inp) (\<lambda>_.
       entitlement_command clock ctx key (hash (Q_add_on inp)) (record_add_on digest now clock ctx inp))"

section \<open>Automatic top-ups\<close>

definition configure_top_up ::
    "(string \<Rightarrow> string) \<Rightarrow> int \<Rightarrow> int \<Rightarrow> actor_context \<Rightarrow> auto_top_up_configuration \<Rightarrow> string \<Rightarrow>
       entitlement_value command_value entitlement_op" where
  "configure_top_up digest now clock ctx c key s =
     guarded (authorizeOwner ctx s) (\<lambda>_.
     op_bind (appendProductEntitlementEvent (Auto_top_up_configured
         (new_event ctx (''auto-config-'' @ take 28 (digest key)) (to_iso_string clock)) c)) (\<lambda>_.
       answer_projection (ax_workspaceId ctx) (currentMonth now) now)) s"

definition configureAutoTopUp ::
    "(string \<Rightarrow> string) \<Rightarrow> (entitlement_payload \<Rightarrow> string) \<Rightarrow> int \<Rightarrow> int \<Rightarrow> actor_context \<Rightarrow> auto_top_up_configuration \<Rightarrow>
       string \<Rightarrow> ('p, entitlement_value command_value) service_op" where
  "configureAutoTopUp digest hash now clock ctx c key =
     guarded (validateAutoTopUp c) (\<lambda>_.
       entitlement_command clock ctx key (hash (Q_configure c)) (configure_top_up digest now clock ctx c key))"

definition not_enabled :: js_error where
  "not_enabled = invalid ''Owner has not enabled automatic top-up for this resource.''"

definition over_cap :: js_error where
  "over_cap = invalid ''Automatic top-up would exceed the Owner monthly cap.''"

definition appendAutoTopUpPurchase ::
    "(string \<Rightarrow> string) \<Rightarrow> int \<Rightarrow> actor_context \<Rightarrow> purchase_facts \<Rightarrow> string \<Rightarrow> entitlement_event list \<Rightarrow> ('v foundation, unit) op" where
  "appendAutoTopUpPurchase digest clock ctx inp month events =
     (let c = latestAutoTopUp events; q = int_of (pu_quantity inp); a = int_of (pu_amountMicros inp);
          b = new_event ctx (''auto-purchase-'' @ take 24 (digest (pu_paymentEventId inp))) (to_iso_string clock)
      in guarded (case package_for c (pu_resource inp) of
                    Some d \<Rightarrow> if ac_enabled c then Inr d else Inl not_enabled
                  | None \<Rightarrow> Inl not_enabled) (\<lambda>d.
         guarded (check (q mod int_of (tp_quantity d) = 0 \<and>
                         a = (q div int_of (tp_quantity d)) * int_of (tp_amountMicros d))
           (invalid ''Automatic top-up does not match the Owner-approved package.'')) (\<lambda>_.
         guarded (check (autoTopUpCapCommitment events month (Some (pu_purchaseId inp)) + a \<le> int_of (ac_monthlyCapMicros c))
           over_cap) (\<lambda>_.
         op_bind (appendProductEntitlementEvent (Auto_top_up_purchased b inp month)) (\<lambda>_.
           appendAllowanceAdjustment b (pu_resource inp) (of_int q)
             (''auto_top_up:'' @ pu_purchaseId inp @ '':payment:'' @ pu_paymentEventId inp))))))"

definition record_top_up ::
    "(string \<Rightarrow> string) \<Rightarrow> int \<Rightarrow> int \<Rightarrow> actor_context \<Rightarrow> purchase_facts \<Rightarrow> string \<Rightarrow>
       entitlement_value command_value entitlement_op" where
  "record_top_up digest now clock ctx inp month s =
     (let ws = ax_workspaceId ctx; events = listProductEntitlementEvents s ws
      in guarded (authorizeOwner ctx s) (\<lambda>_.
           case paidEvent events (pu_paymentEventId inp) of
             Some x \<Rightarrow> guarded (check (paidPurchase x = Some (inp, Some month)) bound_elsewhere) (\<lambda>_.
               answer_projection ws month now)
           | None \<Rightarrow> op_bind (appendAutoTopUpPurchase digest clock ctx inp month events) (\<lambda>_.
               answer_projection ws month now)) s)"

definition recordAutoTopUpPurchase ::
    "(string \<Rightarrow> string) \<Rightarrow> (entitlement_payload \<Rightarrow> string) \<Rightarrow> int \<Rightarrow> int \<Rightarrow> actor_context \<Rightarrow> purchase_facts \<Rightarrow> string \<Rightarrow>
       string \<Rightarrow> ('p, entitlement_value command_value) service_op" where
  "recordAutoTopUpPurchase digest hash now clock ctx inp month key =
     guarded (validatePurchase inp) (\<lambda>_.
     guarded (validateMonth month) (\<lambda>_.
       entitlement_command clock ctx key (hash (Q_purchase inp month)) (record_top_up digest now clock ctx inp month)))"

text \<open>The number of packages that cover the deficit.\<close>

definition packages_needed :: "rat \<Rightarrow> rat \<Rightarrow> top_up_package \<Rightarrow> int" where
  "packages_needed required available d = \<lceil>(required - available) / of_int (int_of (tp_quantity d))\<rceil>"

definition pending_top_up ::
    "(prepare_input \<Rightarrow> ('p, prepared_payment) op) \<Rightarrow> (string \<Rightarrow> string) \<Rightarrow> int \<Rightarrow> actor_context \<Rightarrow> string \<Rightarrow> string \<Rightarrow>
       usage_resource \<Rightarrow> top_up_package \<Rightarrow> int \<Rightarrow> ('p, settle_input \<times> purchase_facts \<times> string) service_op" where
  "pending_top_up prepare digest clock ctx key month r d n st =
     (let ws = ax_workspaceId ctx;
          request = \<lparr> pp_workspaceId = ws, pp_idempotencyKey = key, pp_amountMicros = n * int_of (tp_amountMicros d),
            pp_currency = tp_currency d, pp_resource = r, pp_quantity = n * int_of (tp_quantity d) \<rparr>;
          (answer, port) = prepare request (snd st)
      in case answer of
           Inl e \<Rightarrow> (Inl e, (fst st, port))
         | Inr (Payment_declined reason) \<Rightarrow> (Inl (invalid reason), (fst st, port))
         | Inr (Payment_prepared paymentEventId) \<Rightarrow>
             (let b = new_event ctx (''auto-pending-'' @ take 24 (digest paymentEventId)) (to_iso_string clock);
                  purchase = \<lparr> pu_paymentEventId = paymentEventId, pu_purchaseId = ''auto-'' @ take 24 (digest key),
                    pu_resource = r, pu_quantity = JInt (pp_quantity request),
                    pu_amountMicros = JInt (pp_amountMicros request), pu_currency = tp_currency d \<rparr>;
                  settlement = \<lparr> sl_workspaceId = ws, sl_idempotencyKey = key, sl_paymentEventId = paymentEventId,
                    sl_entitlementEventId = eb_id b \<rparr>
              in op_bind (on_foundation (appendProductEntitlementEvent (Auto_top_up_pending b purchase month))) (\<lambda>_ st.
                   (Inr (settlement, purchase, month), st)) (fst st, port)))"

definition prepare_top_up ::
    "(prepare_input \<Rightarrow> ('p, prepared_payment) op) \<Rightarrow> (string \<Rightarrow> string) \<Rightarrow> int \<Rightarrow> int \<Rightarrow> actor_context \<Rightarrow>
       usage_resource \<Rightarrow> int \<Rightarrow> string \<Rightarrow> string \<Rightarrow> ('p, entitlement_value command_value) service_op" where
  "prepare_top_up prepare digest now clock ctx r required month key st =
     (let ws = ax_workspaceId ctx;
          projection = projectionFromStore ws month now (fst st);
          available = up_available (at_resource (pj_usage projection) r);
          c = pj_autoTopUp projection
      in guarded (authorizeOwner ctx (fst st)) (\<lambda>_.
           if of_int required \<le> available then (\<lambda>st. (Inr (V_entitlement (E_top_up projection None)), st))
           else
             guarded (case package_for c r of
                        Some d \<Rightarrow> if ac_enabled c then Inr d else Inl not_enabled
                      | None \<Rightarrow> Inl not_enabled) (\<lambda>d.
             let n = packages_needed (of_int required) available d
             in guarded (check (autoTopUpCapCommitment (listProductEntitlementEvents (fst st) ws) month None +
                       n * int_of (tp_amountMicros d) \<le> int_of (ac_monthlyCapMicros c)) over_cap) (\<lambda>_.
                op_bind (pending_top_up prepare digest clock ctx key month r d n) (\<lambda>settlement st.
                  (Inr (V_entitlement (E_top_up projection (Some settlement))), st))))) st)"

definition on_port :: "('p, 'a) op \<Rightarrow> ('p, 'a) service_op" where
  "on_port m st = (let (r, port) = m (snd st) in (r, (fst st, port)))"

definition autoTopUp ::
    "((prepare_input \<Rightarrow> ('p, prepared_payment) op) \<times> (settle_input \<Rightarrow> ('p, unit) op)) option \<Rightarrow>
       (string \<Rightarrow> string) \<Rightarrow> (entitlement_payload \<Rightarrow> string) \<Rightarrow> int \<Rightarrow> int \<Rightarrow> actor_context \<Rightarrow> top_up_input \<Rightarrow> string \<Rightarrow>
       ('p, entitlement_value command_value) service_op" where
  "autoTopUp payments digest hash now clock ctx inp key =
     guarded (check (number_isInteger (tu_requiredAvailable inp) \<and> 0 < int_of (tu_requiredAvailable inp))
       (invalid ''Required available usage must be a positive integer.'')) (\<lambda>_.
     guarded (case payments of
                None \<Rightarrow> Inl (invalid ''No automatic top-up payment adapter is configured.'')
              | Some p \<Rightarrow> Inr p) (\<lambda>(prepare, settle).
     let month = or_default (tu_month inp) (currentMonth now)
     in guarded (validateMonth month) (\<lambda>_.
        op_bind (run_command clock ctx key (hash (Q_top_up inp month))
            (prepare_top_up prepare digest now clock ctx (tu_resource inp) (int_of (tu_requiredAvailable inp)) month key)) (\<lambda>v.
          case v of
            V_entitlement (E_top_up projection (Some (settlement, purchase, m))) \<Rightarrow>
              op_bind (on_port (settle settlement)) (\<lambda>_.
                recordAutoTopUpPurchase digest hash now clock ctx purchase m (key @ '':activate''))
          | V_entitlement (E_top_up projection None) \<Rightarrow> (\<lambda>st. (Inr (V_projection projection), st))
          | _ \<Rightarrow> (\<lambda>st. (Inr v, st))))))"

section \<open>Reads that record the end of a plan\<close>

definition record_expiry :: "(string \<Rightarrow> string) \<Rightarrow> int \<Rightarrow> actor_context \<Rightarrow> entitlement_value command_value entitlement_op" where
  "record_expiry digest now ctx s =
     op_bind (ensureExpiredPlansRecorded digest now ctx (listProductEntitlementEvents s (ax_workspaceId ctx))) (\<lambda>_ s.
       (Inr V_true, s)) s"

definition record_expiry_by_owner ::
    "(string \<Rightarrow> string) \<Rightarrow> int \<Rightarrow> actor_context \<Rightarrow> entitlement_value command_value entitlement_op" where
  "record_expiry_by_owner digest now ctx s = guarded (authorizeOwner ctx s) (\<lambda>_. record_expiry digest now ctx) s"

definition unrecorded_end :: "int \<Rightarrow> entitlement_event list \<Rightarrow> string option" where
  "unrecorded_end now events =
     (case latestPlan events of
        None \<Rightarrow> None
      | Some (i, p) \<Rightarrow> if \<not> expiry_recorded i events \<and> period_ended now p then Some i else None)"

text \<open>The end of the plan is recorded if the store takes it; the projection is right either way.\<close>

definition expired_by_owner ::
    "(string \<Rightarrow> string) \<Rightarrow> (entitlement_payload \<Rightarrow> string) \<Rightarrow> int \<Rightarrow> int \<Rightarrow> actor_context \<Rightarrow>
       entitlement_store \<times> 'p \<Rightarrow> entitlement_store \<times> 'p" where
  "expired_by_owner digest hash now clock ctx st =
     (case unrecorded_end now (listProductEntitlementEvents (fst st) (ax_workspaceId ctx)) of
        None \<Rightarrow> st
      | Some i \<Rightarrow>
          snd (entitlement_command clock ctx (''plan-expire:'' @ i) (hash (Q_expire (''plan-expire:'' @ i)))
            (record_expiry_by_owner digest now ctx) st))"

definition project_service :: "string \<Rightarrow> string \<Rightarrow> int \<Rightarrow> ('p, entitlement_projection) service_op" where
  "project_service ws month now st = (Inr (projectionFromStore ws month now (fst st)), st)"

definition project_expired ::
    "(string \<Rightarrow> string) \<Rightarrow> (entitlement_payload \<Rightarrow> string) \<Rightarrow> int \<Rightarrow> int \<Rightarrow> actor_context \<Rightarrow> string \<Rightarrow>
       ('p, entitlement_projection) service_op" where
  "project_expired digest hash now clock ctx month st =
     project_service (ax_workspaceId ctx) month now (expired_by_owner digest hash now clock ctx st)"

definition getProjection ::
    "(string \<Rightarrow> string) \<Rightarrow> (entitlement_payload \<Rightarrow> string) \<Rightarrow> int \<Rightarrow> int \<Rightarrow> actor_context \<Rightarrow> string option \<Rightarrow>
       ('p, entitlement_projection) service_op" where
  "getProjection digest hash now clock ctx month st =
     guarded (authorizeOwner ctx (fst st)) (\<lambda>_.
       project_expired digest hash now clock ctx (or_default month (currentMonth now))) st"

definition expireEndedPlanForExecution ::
    "(string \<Rightarrow> string) \<Rightarrow> (entitlement_payload \<Rightarrow> string) \<Rightarrow> int \<Rightarrow> int \<Rightarrow> string \<Rightarrow> ('p, unit) service_op" where
  "expireEndedPlanForExecution digest hash now clock ws st =
     (case unrecorded_end now (listProductEntitlementEvents (fst st) ws) of
        None \<Rightarrow> (Inr (), st)
      | Some i \<Rightarrow>
          (let key = ''plan-expire:'' @ i;
               ctx = \<lparr> ax_workspaceId = ws, ax_userId = ''system-entitlement-expiry'', ax_correlationId = key,
                 ax_actor = Some Worker_actor \<rparr>
           in op_bind (entitlement_command clock ctx key (hash (Q_expire key)) (record_expiry digest now ctx)) (\<lambda>_ st.
                (Inr (), st)) st))"

definition supplement_of ::
    "(entitlement_payload \<Rightarrow> string) \<Rightarrow> entitlement_event list \<Rightarrow> entitlement_projection \<Rightarrow> entitlement_supplement" where
  "supplement_of hash events projection =
     (let addOns = map (\<lambda>x. \<lparr>ao_purchaseId = pu_purchaseId x, ao_resource = pu_resource x, ao_quantity = int_of (pu_quantity x)\<rparr>)
            (pj_addOnPurchases projection);
          topUp = \<lparr> at_enabled = ac_enabled (pj_autoTopUp projection),
            at_monthlyCapMicros = int_of (ac_monthlyCapMicros (pj_autoTopUp projection)),
            at_spentThisMonthMicros = pj_spentThisMonthMicros projection \<rparr>
      in \<lparr> es_revision = ''foundation-supplement:'' @ hash (Q_supplement addOns topUp),
           es_policy = map_option (\<lambda>p. fill_extension
             \<lparr> ep_revision = pl_revision p, ep_tier = pl_tier p, ep_storageMb = None,
               ep_allowance = (\<lambda>r. int_of (at_resource (pl_allowance p) r)),
               ep_concurrencyLimit = int_of (pl_concurrencyLimit p), ep_queuePriority = int_of (pl_queuePriority p),
               ep_supportLabel = pl_supportLabel p, ep_addOns = addOns, ep_autoTopUp = topUp,
               ep_allowedCatalogModelIds = None, ep_allowedQualityTiers = None, ep_availableSupplyPoolIds = None,
               ep_overage = None,
               ep_validity = Some \<lparr>vw_validFrom = Some (pl_periodStartsAt p), vw_validUntil = Some (pl_periodEndsAt p)\<rparr> \<rparr>)
             (pj_plan projection),
           es_planState = (if pj_plan projection \<noteq> None then Plan_active
             else if list_ex (\<lambda>x. activated_plan x \<noteq> None) events then Plan_expired else Plan_none),
           es_addOns = addOns, es_autoTopUp = topUp \<rparr>)"

definition resolveSupplement ::
    "(string \<Rightarrow> string) \<Rightarrow> (entitlement_payload \<Rightarrow> string) \<Rightarrow> int \<Rightarrow> int \<Rightarrow> string \<Rightarrow> ('p, entitlement_supplement) service_op" where
  "resolveSupplement digest hash now clock ws =
     op_bind (expireEndedPlanForExecution digest hash now clock ws) (\<lambda>_ st.
       (Inr (supplement_of hash (listProductEntitlementEvents (fst st) ws)
          (projectionFromStore ws (currentMonth now) now (fst st))), st))"

definition resolve_entitlement ::
    "(string \<Rightarrow> string) \<Rightarrow> (entitlement_payload \<Rightarrow> string) \<Rightarrow> int \<Rightarrow> int \<Rightarrow> string \<Rightarrow>
       ('p, entitlement_policy option) service_op" where
  "resolve_entitlement digest hash now clock ws =
     op_bind (resolveSupplement digest hash now clock ws) (\<lambda>x st. (Inr (es_policy x), st))"

section \<open>The recorded payment port\<close>

record recorded_port =
  rp_prepared :: "(string, prepare_input) js_map"
  rp_settled :: "(string, settle_input) js_map"
  rp_declineReason :: "string option"
  rp_settlementFailure :: "string option"

definition empty_port :: recorded_port where
  "empty_port = \<lparr>rp_prepared = [], rp_settled = [], rp_declineReason = None, rp_settlementFailure = None\<rparr>"

definition declineNext :: "string \<Rightarrow> recorded_port \<Rightarrow> recorded_port" where
  "declineNext reason s = s\<lparr>rp_declineReason := Some reason\<rparr>"

definition failNextSettlement :: "string \<Rightarrow> recorded_port \<Rightarrow> recorded_port" where
  "failNextSettlement reason s = s\<lparr>rp_settlementFailure := Some reason\<rparr>"

definition recorded_payment :: "(string \<Rightarrow> string) \<Rightarrow> string \<Rightarrow> string" where
  "recorded_payment digest key = ''recorded-payment-'' @ take 24 (digest key)"

definition prepareLocal :: "(string \<Rightarrow> string) \<Rightarrow> prepare_input \<Rightarrow> (recorded_port, prepared_payment) op" where
  "prepareLocal digest inp s =
     (let key = scoped (pp_workspaceId inp) (pp_idempotencyKey inp)
      in guarded (check (case map_of (rp_prepared s) key of None \<Rightarrow> True | Some x \<Rightarrow> x = inp)
           (P1DomainError IDEMPOTENCY_CONFLICT ''Auto top-up payment key was reused with another quote.'')) (\<lambda>_ s.
           case truthy (rp_declineReason s) of
             Some reason \<Rightarrow> (Inr (Payment_declined reason), s\<lparr>rp_declineReason := None\<rparr>)
           | None \<Rightarrow> (Inr (Payment_prepared (recorded_payment digest key)),
                      s\<lparr>rp_prepared := map_set key inp (rp_prepared s)\<rparr>)) s)"

definition settle_payment :: "(string \<Rightarrow> string) \<Rightarrow> settle_input \<Rightarrow> (recorded_port, unit) op" where
  "settle_payment digest inp s =
     (let key = scoped (sl_workspaceId inp) (sl_idempotencyKey inp)
      in guarded (check (sl_paymentEventId inp = recorded_payment digest key \<and> \<not> blank (sl_entitlementEventId inp))
           (invalid ''Automatic top-up payment cannot settle before its entitlement.'')) (\<lambda>_ s.
           case truthy (rp_settlementFailure s) of
             Some reason \<Rightarrow> (Inl (JsError reason), s\<lparr>rp_settlementFailure := None\<rparr>)
           | None \<Rightarrow> (Inr (), s\<lparr>rp_settled := map_set key inp (rp_settled s)\<rparr>)) s)"

definition charges :: "recorded_port \<Rightarrow> prepare_input list" where
  "charges s = List.map_filter (\<lambda>(key, _). map_of (rp_prepared s) key) (rp_settled s)"

definition settlements :: "recorded_port \<Rightarrow> settle_input list" where
  "settlements s = map snd (rp_settled s)"

end
