(* ===== verification/PlanEntitlementCorrect.thy ===== *)
theory PlanEntitlementCorrect
  imports PlanEntitlement GenerationLedgerProps
begin

text \<open>
  What every run of the entitlement service keeps. The locale names what an invariant of the store has to
  survive, the actions of the service one by one; its lemma is the induction over the public methods,
  over the commands of the generation ledger between them and over whatever the payment port does. It is
  interpreted by the cap of the top-ups and by the grants of the payments.
\<close>

section \<open>Steps of the service\<close>

definition keeps :: "(entitlement_store \<Rightarrow> bool) \<Rightarrow> ('p, 'a) service_op \<Rightarrow> bool" where
  "keeps I m \<longleftrightarrow> (\<forall>s p. I s \<longrightarrow> I (fst (snd (m (s, p)))))"

inductive service_step :: "entitlement_store \<times> 'p \<Rightarrow> entitlement_store \<times> 'p \<Rightarrow> bool" where
  plan_step: "service_step st (snd (activatePlan digest hash now clock ctx i1 key st))"
| add_on_step: "service_step st (snd (recordAddOnPurchase digest hash now clock ctx i2 key st))"
| configure_step: "service_step st (snd (configureAutoTopUp digest hash now clock ctx c key st))"
| top_up_step: "service_step st (snd (autoTopUp payments digest hash now clock ctx i3 key st))"
| purchase_step: "service_step st (snd (recordAutoTopUpPurchase digest hash now clock ctx i2 month key st))"
| projection_step: "service_step st (snd (getProjection digest hash now clock ctx m st))"
| supplement_step: "service_step st (snd (resolveSupplement digest hash now clock ws st))"
| resolve_step: "service_step st (snd (resolve_entitlement digest hash now clock ws st))"
| ledger_step_of: "ledger_step s s' \<Longrightarrow> service_step (s, p) (s', p)"
| port_step: "service_step (s, p) (s, p')"

text \<open>
  The actions an invariant has to survive. The amounts of a configuration and of a purchase have been
  validated where the action runs.
\<close>

locale entitlement_invariant =
  fixes I :: "entitlement_store \<Rightarrow> bool"
  assumes same: "fs_entitlementEvents s' = fs_entitlementEvents s \<Longrightarrow> fs_usageEvents s' = fs_usageEvents s \<Longrightarrow> I s \<Longrightarrow> I s'"
    and ledger: "ledger_step s s' \<Longrightarrow> I s \<Longrightarrow> I s'"
    and expiry: "ensureExpiredPlansRecorded digest now ctx (listProductEntitlementEvents s (ax_workspaceId ctx)) s = (Inr es, s') \<Longrightarrow>
      I s \<Longrightarrow> I s'"
    and grant: "grant_plan digest now ctx i1 es s = (Inr u, s') \<Longrightarrow> I s \<Longrightarrow> I s'"
    and add_on: "record_add_on digest now clock ctx i2 s = (Inr v, s') \<Longrightarrow> I s \<Longrightarrow> I s'"
    and configure: "validateAutoTopUp c = Inr () \<Longrightarrow> configure_top_up digest now clock ctx c key s = (Inr v, s') \<Longrightarrow> I s \<Longrightarrow> I s'"
    and purchase: "appendAutoTopUpPurchase digest clock ctx i2 month (listProductEntitlementEvents s (ax_workspaceId ctx)) s = (Inr u, s') \<Longrightarrow>
      I s \<Longrightarrow> I s'"
    and pending: "\<lbrakk>appendProductEntitlementEvent (Auto_top_up_pending b x month) s = (Inr u, s'); eb_workspaceId b = ws;
      package_for (latestAutoTopUp (listProductEntitlementEvents s ws)) r = Some d;
      available < required; pu_amountMicros x = JInt (packages_needed required available d * int_of (tp_amountMicros d));
      autoTopUpCapCommitment (listProductEntitlementEvents s ws) month None + int_of (pu_amountMicros x) \<le>
        int_of (ac_monthlyCapMicros (latestAutoTopUp (listProductEntitlementEvents s ws))); I s\<rbrakk> \<Longrightarrow> I s'"
begin

lemma service_value [intro]: "keeps I (\<lambda>st. (f st, st))"
  by (simp add: keeps_def)

lemma service_run: "keeps I m \<Longrightarrow> I (fst st) \<Longrightarrow> I (fst (snd (m st)))"
  by (cases st) (simp add: keeps_def)

lemma service_Pair [intro]: "keeps I (Pair r)"
  by (simp add: keeps_def)

lemma service_guarded [intro]: "(\<And>a. keeps I (f a)) \<Longrightarrow> keeps I (guarded r f)"
  unfolding keeps_def by (cases r) simp_all

lemma service_op_bind [intro]:
  assumes "keeps I m" and "\<And>a. keeps I (f a)"
  shows "keeps I (op_bind m f)"
  unfolding keeps_def op_bind_def
proof (intro allI impI)
  fix s p
  assume "I s"
  then have first: "I (fst (snd (m (s, p))))" using assms(1) by (simp add: keeps_def)
  obtain r s1 p1 where m: "m (s, p) = (r, (s1, p1))" by (cases "m (s, p)") auto
  show "I (fst (snd (case m (s, p) of (Inl e, s') \<Rightarrow> (Inl e, s') | (Inr a, s') \<Rightarrow> f a s')))"
    using first assms(2) m by (cases r) (simp_all add: keeps_def)
qed

lemma service_execute:
  assumes "\<And>s p v s' p'. action (s, p) = (Inr v, (s', p')) \<Longrightarrow> I s \<Longrightarrow> I s'"
  shows "keeps I (executeIdempotent clock ctx key hash action)"
  unfolding keeps_def
proof (intro allI impI)
  fix s :: entitlement_store and p
  assume inv: "I s"
  obtain r s1 p1 where run: "action (s, p) = (r, (s1, p1))" by (cases "action (s, p)") auto
  have rolled: "I (rolled_back s s1)" by (rule same [OF _ _ inv]) (simp_all add: rolled_back_def)
  show "I (fst (snd (executeIdempotent clock ctx key hash action (s, p))))"
  proof (cases r)
    case (Inl e)
    with run rolled inv show ?thesis
      by (auto simp: executeIdempotent_def Let_def split: option.splits)
  next
    case (Inr v)
    then have "I s1" using assms run inv by blast
    then have "I (s1\<lparr>fs_commandAudits := a, fs_commandResults := b\<rparr>)" for a b
      by (rule same [rotated 2]) simp_all
    with Inr run inv show ?thesis
      by (auto simp: executeIdempotent_def Let_def split: option.splits)
  qed
qed

lemma service_command:
  assumes "\<And>s v s'. action s = (Inr v, s') \<Longrightarrow> I s \<Longrightarrow> I s'"
  shows "keeps I (entitlement_command clock ctx key hash action)"
  unfolding entitlement_command_def run_command_def
proof (intro service_op_bind service_value service_execute)
  fix s p v s' p'
  assume "on_foundation action (s, p) = (Inr v, (s', p'))" and "I s"
  then show "I s'" using assms by (auto simp: on_foundation_def split: prod.splits)
qed

lemma activate_keeps: "activate_plan digest now ctx inp s = (Inr v, s') \<Longrightarrow> I s \<Longrightarrow> I s'"
  unfolding activate_plan_def Let_def guarded_Inr op_bind_Inr
  by (elim exE conjE)
    (auto simp: answer_projection_def op_bind_Inr split: if_splits option.splits dest: expiry grant)

lemma record_top_up_keeps: "record_top_up digest now clock ctx inp month s = (Inr v, s') \<Longrightarrow> I s \<Longrightarrow> I s'"
  unfolding record_top_up_def Let_def guarded_Inr
  by (elim exE conjE) (auto simp: answer_projection_def op_bind_Inr split: option.splits if_splits dest: purchase)

lemma record_expiry_keeps: "record_expiry digest now ctx s = (Inr v, s') \<Longrightarrow> I s \<Longrightarrow> I s'"
  unfolding record_expiry_def op_bind_Inr by (auto dest: expiry)

lemma record_expiry_by_owner_keeps: "record_expiry_by_owner digest now ctx s = (Inr v, s') \<Longrightarrow> I s \<Longrightarrow> I s'"
  unfolding record_expiry_by_owner_def guarded_Inr by (auto dest: record_expiry_keeps)

lemma prepare_keeps:
  assumes "prepare_top_up prepare digest now clock ctx r required month key (s, p) = (Inr v, (s', p'))" and "I s"
  shows "I s'"
proof -
  let ?ws = "ax_workspaceId ctx" and ?c = "latestAutoTopUp (listProductEntitlementEvents s (ax_workspaceId ctx))"
  define available where "available = up_available (at_resource (pj_usage (projectionFromStore ?ws month now s)) r)"
  have config: "pj_autoTopUp (projectionFromStore ?ws month now s) = ?c"
    by (simp add: projectionFromStore_def Let_def)
  show ?thesis
  proof (cases "of_int required \<le> available")
    case True
    with assms show ?thesis
      unfolding prepare_top_up_def Let_def guarded_Inr fst_conv available_def [symmetric] by auto
  next
    case False
    with assms(1) obtain d x where d: "package_for ?c r = Some d"
      and cap: "autoTopUpCapCommitment (listProductEntitlementEvents s ?ws) month None +
        packages_needed (of_int required) available d * int_of (tp_amountMicros d) \<le> int_of (ac_monthlyCapMicros ?c)"
      and run: "pending_top_up prepare digest clock ctx key month r d (packages_needed (of_int required) available d) (s, p) =
        (Inr x, (s', p'))"
      unfolding prepare_top_up_def Let_def guarded_Inr fst_conv available_def [symmetric] config
      by (auto simp: guarded_Inr op_bind_Inr split: option.splits if_splits)
    from run obtain b y u where append: "appendProductEntitlementEvent (Auto_top_up_pending b y month) s = (Inr u, s')"
      and ws: "eb_workspaceId b = ?ws"
      and amount: "pu_amountMicros y = JInt (packages_needed (of_int required) available d * int_of (tp_amountMicros d))"
      unfolding pending_top_up_def Let_def
      by (auto simp: op_bind_Inr on_foundation_def new_event_def split: prod.splits sum.splits prepared_payment.splits)
    have "available < of_int required" using False by simp
    from pending [OF append ws d this amount _ assms(2)] cap amount show ?thesis by simp
  qed
qed

lemma service_activatePlan: "keeps I (activatePlan digest hash now clock ctx inp key)"
  unfolding activatePlan_def by (intro service_guarded service_command) (rule activate_keeps)

lemma service_addOn: "keeps I (recordAddOnPurchase digest hash now clock ctx inp key)"
  unfolding recordAddOnPurchase_def by (intro service_guarded service_command) (rule add_on)

lemma service_configure: "keeps I (configureAutoTopUp digest hash now clock ctx c key)"
proof (cases "validateAutoTopUp c")
  case (Inl e)
  then show ?thesis by (simp add: configureAutoTopUp_def keeps_def)
next
  case (Inr u)
  then have "validateAutoTopUp c = Inr ()" by simp
  then show ?thesis
    unfolding configureAutoTopUp_def by (intro service_guarded service_command) (rule configure)
qed

lemma service_purchase: "keeps I (recordAutoTopUpPurchase digest hash now clock ctx inp month key)"
  unfolding recordAutoTopUpPurchase_def by (intro service_guarded service_command) (rule record_top_up_keeps)

lemma service_port [intro]: "keeps I (on_port m)"
  unfolding keeps_def on_port_def by (simp add: split_beta)

lemma service_top_up: "keeps I (autoTopUp payments digest hash now clock ctx inp key)"
  unfolding autoTopUp_def Let_def
proof (intro service_guarded, split prod.split, intro allI impI service_guarded service_op_bind, unfold run_command_def)
  fix prepare settle u
  show "keeps I (op_bind (executeIdempotent clock ctx key (hash (Q_top_up inp (or_default (tu_month inp) (currentMonth now))))
      (prepare_top_up prepare digest now clock ctx (tu_resource inp) (int_of (tu_requiredAvailable inp))
        (or_default (tu_month inp) (currentMonth now)) key)) (\<lambda>result st. (Inr (snd result), st)))"
    by (intro service_op_bind service_value service_execute) (rule prepare_keeps)
next
  fix prepare settle u v
  show "keeps I (case v of
      V_entitlement (E_top_up projection (Some (settlement, purchase, m))) \<Rightarrow>
        op_bind (on_port (settle settlement)) (\<lambda>_.
          recordAutoTopUpPurchase digest hash now clock ctx purchase m (key @ '':activate''))
    | V_entitlement (E_top_up projection None) \<Rightarrow> (\<lambda>st. (Inr (V_projection projection), st))
    | _ \<Rightarrow> (\<lambda>st. (Inr v, st)))"
    by (auto split: command_value.split entitlement_value.split option.split intro: service_port service_purchase)
qed

lemma service_expiry: "keeps I (entitlement_command clock ctx key hash (record_expiry digest now ctx))"
  by (rule service_command) (rule record_expiry_keeps)

lemma service_expiry_by_owner: "keeps I (entitlement_command clock ctx key hash (record_expiry_by_owner digest now ctx))"
  by (rule service_command) (rule record_expiry_by_owner_keeps)

lemma service_projection: "keeps I (getProjection digest hash now clock ctx month :: ('p, entitlement_projection) service_op)"
  unfolding keeps_def
proof (intro allI impI)
  fix s and p :: 'p
  assume inv: "I s"
  then have after: "I (fst (snd (entitlement_command clock ctx key h (record_expiry_by_owner digest now ctx) (s, p))))" for key h
    by (intro service_run [OF service_expiry_by_owner]) simp
  have "I (fst (expired_by_owner digest hash now clock ctx (s, p)))"
    using inv after unfolding expired_by_owner_def fst_conv
    by (cases "unrecorded_end now (listProductEntitlementEvents s (ax_workspaceId ctx))") simp_all
  then show "I (fst (snd (getProjection digest hash now clock ctx month (s, p))))"
    using inv by (cases "authorizeOwner ctx s") (simp_all add: getProjection_def project_expired_def project_service_def)
qed

lemma service_expire_ended: "keeps I (expireEndedPlanForExecution digest hash now clock ws :: ('p, unit) service_op)"
  unfolding keeps_def
proof (intro allI impI)
  fix s and p :: 'p
  assume inv: "I s"
  then have after: "I (fst (snd (op_bind (entitlement_command clock ctx key h (record_expiry digest now ctx))
      (\<lambda>_ st. (Inr (), st)) (s, p))))" for ctx key h
    by (intro service_run [OF service_op_bind [OF service_expiry service_value]]) simp
  show "I (fst (snd (expireEndedPlanForExecution digest hash now clock ws (s, p))))"
    using inv after unfolding expireEndedPlanForExecution_def Let_def fst_conv
    by (cases "unrecorded_end now (listProductEntitlementEvents s ws)") simp_all
qed

lemma service_supplement: "keeps I (resolveSupplement digest hash now clock ws)"
  unfolding resolveSupplement_def by (intro service_op_bind service_expire_ended service_value)

lemma service_resolve: "keeps I (resolve_entitlement digest hash now clock ws)"
  unfolding resolve_entitlement_def by (intro service_op_bind service_supplement service_value)

lemma step_keeps:
  assumes "service_step st st'" and "I (fst st)"
  shows "I (fst st')"
  using assms(1)
proof (cases rule: service_step.cases)
  case plan_step
  then show ?thesis using service_run [OF service_activatePlan assms(2)] by simp
next
  case add_on_step
  then show ?thesis using service_run [OF service_addOn assms(2)] by simp
next
  case configure_step
  then show ?thesis using service_run [OF service_configure assms(2)] by simp
next
  case top_up_step
  then show ?thesis using service_run [OF service_top_up assms(2)] by simp
next
  case purchase_step
  then show ?thesis using service_run [OF service_purchase assms(2)] by simp
next
  case projection_step
  then show ?thesis using service_run [OF service_projection assms(2)] by simp
next
  case supplement_step
  then show ?thesis using service_run [OF service_supplement assms(2)] by simp
next
  case resolve_step
  then show ?thesis using service_run [OF service_resolve assms(2)] by simp
next
  case ledger_step_of
  then show ?thesis using ledger assms(2) by simp
next
  case port_step
  then show ?thesis using assms(2) by simp
qed

lemma run_keeps: "service_step\<^sup>*\<^sup>* st st' \<Longrightarrow> I (fst st) \<Longrightarrow> I (fst st')"
  by (induction rule: rtranclp_induct) (auto intro: step_keeps)

end

end
