(* ===== verification/PlanEntitlementProps.thy ===== *)
theory PlanEntitlementProps
  imports PlanEntitlementCorrect
begin

text \<open>
  What the entitlement service promises: the top-ups of a month stay within the largest cap the owner
  ever set, a payment grants once and what it bought is in the allowance; and where it does not keep
  what a customer would expect.
\<close>

section \<open>The events of a store\<close>

lemma map_filter_append: "List.map_filter f (xs @ ys) = List.map_filter f xs @ List.map_filter f ys"
  by (simp add: List.map_filter_def)

lemma map_filter_one [simp]: "List.map_filter f [x] = (case f x of None \<Rightarrow> [] | Some y \<Rightarrow> [y])"
  by (simp add: List.map_filter_def split: option.split)

lemma appendProductEntitlementEvent_Inr:
  assumes "appendProductEntitlementEvent ev s = (Inr u, s')"
  shows "s' = s\<lparr>fs_entitlementEvents := fs_entitlementEvents s @ [ev]\<rparr>"
    and "paid_by ev \<noteq> None \<Longrightarrow> \<forall>x \<in> set (listProductEntitlementEvents s (eb_workspaceId (event_facts ev))). paid_by x \<noteq> paid_by ev"
    and "register_gift ev \<Longrightarrow> \<forall>x \<in> set (listProductEntitlementEvents s (eb_workspaceId (event_facts ev))). \<not> register_gift x"
  using assms unfolding appendProductEntitlementEvent_def listProductEntitlementEvents_def
  by (auto simp: Let_def list_ex_iff split: if_splits)

lemma list_append_event [simp]:
  "listProductEntitlementEvents (s\<lparr>fs_entitlementEvents := fs_entitlementEvents s @ [ev]\<rparr>) ws =
     listProductEntitlementEvents s ws @ (if eb_workspaceId (event_facts ev) = ws then [ev] else [])"
  by (simp add: listProductEntitlementEvents_def)

lemma new_event_facts [simp]: "eb_workspaceId (new_event ctx i t) = ax_workspaceId ctx" "eb_id (new_event ctx i t) = i"
  by (simp_all add: new_event_def)

text \<open>Adjusting the usage appends usage events only.\<close>

definition only_usage :: "'v foundation \<Rightarrow> 'v foundation \<Rightarrow> bool" where
  "only_usage s s' \<longleftrightarrow> fs_entitlementEvents s' = fs_entitlementEvents s \<and> set (fs_usageEvents s) \<subseteq> set (fs_usageEvents s')"

lemma only_usage_refl [simp]: "only_usage s s"
  by (simp add: only_usage_def)

lemma only_usage_append: "appendUsageRecord ev s = (Inr u, s') \<Longrightarrow> only_usage s s'"
  by (auto simp: only_usage_def dest!: appendUsageRecord_Inr)

lemma only_usage_adjust: "adjust_unless_zero b why amount r s = (Inr u, s') \<Longrightarrow> only_usage s s'"
  by (auto simp: adjust_unless_zero_def appendAllowanceAdjustment_def split: if_splits intro: only_usage_append)

lemma only_usage_each:
  "for_each (adjust_unless_zero b why amount) rs s = (Inr u, s') \<Longrightarrow> only_usage s s'"
proof (induction rs arbitrary: s)
  case Nil
  then show ?case by simp
next
  case (Cons r rs)
  then obtain v s1 where "only_usage s s1" "only_usage s1 s'"
    by (auto simp: op_bind_Inr dest!: only_usage_adjust)
  then show ?case by (auto simp: only_usage_def)
qed

text \<open>What each action appends.\<close>

lemma expiry_runs:
  assumes "ensureExpiredPlansRecorded digest now ctx es s = (Inr es', s')"
  shows "s' = s \<or> (\<exists>i t j p s1. appendProductEntitlementEvent (Plan_expired_event (new_event ctx i t) j p) s = (Inr (), s1) \<and>
    only_usage s1 s')"
proof (cases "latestPlan es")
  case None
  with assms show ?thesis by (simp add: ensureExpiredPlansRecorded_def)
next
  case (Some x)
  obtain i p where x: "x = (i, p)" by (cases x)
  show ?thesis
  proof (cases "expiry_recorded i es \<or> \<not> period_ended now p")
    case True
    with assms Some x show ?thesis by (simp add: ensureExpiredPlansRecorded_def)
  next
    case False
    with assms Some x show ?thesis
      unfolding ensureExpiredPlansRecorded_def Let_def
      by (simp add: op_bind_Inr) (blast dest: only_usage_each)
  qed
qed

lemma grant_runs:
  assumes "grant_plan digest now ctx inp es s = (Inr u, s')"
  shows "\<exists>i t k s1. appendProductEntitlementEvent (Plan_activated (new_event ctx i t) (pn_paymentEventId inp) (pn_policy inp) k) s =
    (Inr (), s1) \<and> only_usage s1 s'"
  using assms unfolding grant_plan_def Let_def op_bind_Inr by (simp, elim exE conjE) (blast dest: only_usage_each)

lemma add_on_runs:
  assumes "record_add_on digest now clock ctx inp s = (Inr v, s')"
  shows "s' = s \<or> (\<exists>i t s1 why. appendProductEntitlementEvent (Add_on_purchased (new_event ctx i t) inp) s = (Inr (), s1) \<and>
    appendUsageRecord (allowance_adjustment (new_event ctx i t) (pu_resource inp) (of_int (int_of (pu_quantity inp))) why) s1 =
      (Inr (), s'))"
proof (cases "paidEvent (listProductEntitlementEvents s (ax_workspaceId ctx)) (pu_paymentEventId inp)")
  case None
  with assms show ?thesis
    unfolding record_add_on_def Let_def guarded_Inr answer_projection_def appendAllowanceAdjustment_def
    by (simp add: op_bind_Inr) blast
next
  case Some
  with assms show ?thesis
    unfolding record_add_on_def Let_def guarded_Inr answer_projection_def by (simp split: if_splits)
qed

lemma configure_runs:
  assumes "configure_top_up digest now clock ctx c key s = (Inr v, s')"
  shows "\<exists>i t. appendProductEntitlementEvent (Auto_top_up_configured (new_event ctx i t) c) s = (Inr (), s')"
  using assms unfolding configure_top_up_def guarded_Inr op_bind_Inr answer_projection_def by (simp, elim exE conjE) blast

lemma purchase_runs:
  assumes "appendAutoTopUpPurchase digest clock ctx inp month es s = (Inr u, s')"
  shows "\<exists>d i t s1 why. package_for (latestAutoTopUp es) (pu_resource inp) = Some d \<and>
    autoTopUpCapCommitment es month (Some (pu_purchaseId inp)) + int_of (pu_amountMicros inp) \<le>
      int_of (ac_monthlyCapMicros (latestAutoTopUp es)) \<and>
    appendProductEntitlementEvent (Auto_top_up_purchased (new_event ctx i t) inp month) s = (Inr (), s1) \<and>
    appendUsageRecord (allowance_adjustment (new_event ctx i t) (pu_resource inp) (of_int (int_of (pu_quantity inp))) why) s1 =
      (Inr (), s')"
proof -
  let ?c = "latestAutoTopUp es"
  obtain d where d: "package_for ?c (pu_resource inp) = Some d"
    using assms unfolding appendAutoTopUpPurchase_def Let_def guarded_Inr
    by (cases "package_for ?c (pu_resource inp)") simp_all
  show ?thesis
    using assms d unfolding appendAutoTopUpPurchase_def Let_def guarded_Inr appendAllowanceAdjustment_def
    by (simp add: op_bind_Inr) blast
qed

section \<open>The monthly cap\<close>

definition configurations :: "entitlement_event list \<Rightarrow> auto_top_up_configuration list" where
  "configurations es = List.map_filter configured_top_up es"

definition largest_cap :: "entitlement_event list \<Rightarrow> int" where
  "largest_cap es = foldr max (map (\<lambda>c. int_of (ac_monthlyCapMicros c)) (configurations es)) 0"

lemma foldr_max_append: "foldr max (xs @ ys) (a::int) = foldr max xs (foldr max ys a)"
  by (induction xs) simp_all

lemma foldr_max_ge: "x \<in> set xs \<Longrightarrow> x \<le> foldr max xs (a::int)" "a \<le> foldr max xs a"
  by (induction xs) auto

lemma foldr_max_mono: "a \<le> b \<Longrightarrow> foldr max xs (a::int) \<le> foldr max xs b"
  by (induction xs) auto

lemma largest_cap_append: "largest_cap es \<le> largest_cap (es @ [e])"
  by (simp add: largest_cap_def configurations_def map_filter_append foldr_max_append foldr_max_mono foldr_max_ge(2))

lemma latest_configuration:
  "latestAutoTopUp es = EMPTY_AUTO_TOP_UP \<or> latestAutoTopUp es \<in> set (configurations es)"
  by (simp add: latestAutoTopUp_def last_of_def or_default_def configurations_def)

lemma latest_cap_le: "int_of (ac_monthlyCapMicros (latestAutoTopUp es)) \<le> largest_cap es"
  using latest_configuration [of es] foldr_max_ge unfolding largest_cap_def
  by (auto simp: EMPTY_AUTO_TOP_UP_def)

fun pending_amount :: "entitlement_event \<Rightarrow> int" where
  "pending_amount (Auto_top_up_pending _ p _) = int_of (pu_amountMicros p)"
| "pending_amount _ = 0"

definition within_cap :: "entitlement_event list \<Rightarrow> bool" where
  "within_cap es \<longleftrightarrow>
     (\<forall>c \<in> set (configurations es). validateAutoTopUp c = Inr ()) \<and>
     (\<forall>e \<in> set es. 0 \<le> pending_amount e) \<and>
     (\<forall>m. autoTopUpCapCommitment es m None \<le> largest_cap es)"

lemma pending_in_bounds: "0 \<le> pending_amount e \<Longrightarrow> 0 \<le> pending_in m ended e \<and> pending_in m ended e \<le> pending_amount e"
  by (cases e) auto

lemma pending_in_mono: "set ended \<subseteq> set ended' \<Longrightarrow> 0 \<le> pending_amount e \<Longrightarrow> pending_in m ended' e \<le> pending_in m ended e"
  by (cases e) auto

lemma pending_sum_mono:
  assumes "set ended \<subseteq> set ended'" and "\<forall>e \<in> set es. 0 \<le> pending_amount e"
  shows "sum_list (map (pending_in m ended') es) \<le> sum_list (map (pending_in m ended) es)"
  using assms pending_in_mono by (intro sum_list_mono) auto

lemma pending_in_cong: "set ended = set ended' \<Longrightarrow> pending_in m ended = pending_in m ended'"
  by (rule ext, case_tac x) auto

lemma purchased_id_append:
  "List.map_filter purchased_id (es @ [e]) = List.map_filter purchased_id es @ (case purchased_id e of None \<Rightarrow> [] | Some i \<Rightarrow> [i])"
  by (cases "purchased_id e") (simp_all add: map_filter_append)

text \<open>An event adds its spend and what it reserves; a purchase ends what is pending under its identifier.\<close>

lemma commitment_append:
  assumes "purchased_id e = None"
  shows "autoTopUpCapCommitment (es @ [e]) m None = autoTopUpCapCommitment es m None + spend_in m e +
    pending_in m (List.map_filter purchased_id es) e"
  using assms by (simp add: autoTopUpCapCommitment_def autoTopUpSpend_def purchased_id_append Let_def)

lemma commitment_purchase:
  "autoTopUpCapCommitment (es @ [Auto_top_up_purchased b p month]) m None =
     autoTopUpCapCommitment es m (Some (pu_purchaseId p)) + (if month = m then int_of (pu_amountMicros p) else 0)"
proof -
  have "pending_in m (List.map_filter purchased_id es @ [pu_purchaseId p]) =
      pending_in m (pu_purchaseId p # List.map_filter purchased_id es)"
    by (rule pending_in_cong) auto
  then show ?thesis
    by (simp add: autoTopUpCapCommitment_def autoTopUpSpend_def purchased_id_append Let_def)
qed

lemma commitment_activating:
  "\<forall>e \<in> set es. 0 \<le> pending_amount e \<Longrightarrow> autoTopUpCapCommitment es m (Some i) \<le> autoTopUpCapCommitment es m None"
  unfolding autoTopUpCapCommitment_def Let_def by (auto intro!: pending_sum_mono)

lemma within_cap_other:
  assumes "within_cap es" and "purchased_id e = None" and "configured_top_up e = None" and "pending_amount e = 0"
  shows "within_cap (es @ [e])"
proof -
  have "spend_in m e = 0" for m using assms(2) by (cases e) auto
  moreover have "pending_in m ended e = 0" for m ended
    using pending_in_bounds [of e m ended] assms(4) by simp
  moreover have "configurations (es @ [e]) = configurations es"
    using assms(3) by (simp add: configurations_def map_filter_append)
  ultimately show ?thesis
    using assms(1,4) commitment_append [OF assms(2)] by (simp add: within_cap_def largest_cap_def)
qed

lemma within_cap_configured:
  assumes "within_cap es" and "validateAutoTopUp c = Inr ()"
  shows "within_cap (es @ [Auto_top_up_configured b c])"
proof -
  let ?e = "Auto_top_up_configured b c"
  have "configurations (es @ [?e]) = configurations es @ [c]"
    by (simp add: configurations_def map_filter_append)
  moreover have "autoTopUpCapCommitment (es @ [?e]) m None \<le> largest_cap (es @ [?e])" for m
    using assms(1) commitment_append [of ?e es m] largest_cap_append [of es ?e]
    by (auto simp: within_cap_def intro: order_trans)
  ultimately show ?thesis using assms by (auto simp: within_cap_def)
qed

lemma within_cap_pending:
  assumes "within_cap es" and "0 \<le> int_of (pu_amountMicros p)"
    and "autoTopUpCapCommitment es month None + int_of (pu_amountMicros p) \<le> int_of (ac_monthlyCapMicros (latestAutoTopUp es))"
  shows "within_cap (es @ [Auto_top_up_pending b p month])"
proof -
  let ?e = "Auto_top_up_pending b p month"
  have "configurations (es @ [?e]) = configurations es"
    by (simp add: configurations_def map_filter_append)
  moreover have "autoTopUpCapCommitment (es @ [?e]) m None \<le> largest_cap es" for m
  proof (cases "m = month")
    case True
    have "pending_in m (List.map_filter purchased_id es) ?e \<le> int_of (pu_amountMicros p)" using assms(2) by simp
    with True assms(3) latest_cap_le [of es] commitment_append [of ?e es m] show ?thesis by simp
  next
    case False
    with assms(1) commitment_append [of ?e es m] show ?thesis by (simp add: within_cap_def)
  qed
  ultimately show ?thesis using assms(1,2) by (simp add: within_cap_def largest_cap_def)
qed

lemma within_cap_purchase:
  assumes "within_cap es"
    and "autoTopUpCapCommitment es month (Some (pu_purchaseId p)) + int_of (pu_amountMicros p) \<le>
      int_of (ac_monthlyCapMicros (latestAutoTopUp es))"
  shows "within_cap (es @ [Auto_top_up_purchased b p month])"
proof -
  let ?e = "Auto_top_up_purchased b p month"
  have "configurations (es @ [?e]) = configurations es"
    by (simp add: configurations_def map_filter_append)
  moreover have "autoTopUpCapCommitment (es @ [?e]) m None \<le> largest_cap es" for m
  proof (cases "m = month")
    case True
    with assms(2) latest_cap_le [of es] commitment_purchase [of es b p month m] show ?thesis by simp
  next
    case False
    have "autoTopUpCapCommitment es m (Some (pu_purchaseId p)) \<le> autoTopUpCapCommitment es m None"
      using assms(1) by (intro commitment_activating) (simp add: within_cap_def)
    moreover have "autoTopUpCapCommitment es m None \<le> largest_cap es" using assms(1) by (simp add: within_cap_def)
    ultimately show ?thesis using False commitment_purchase [of es b p month m] by simp
  qed
  ultimately show ?thesis using assms(1) by (simp add: within_cap_def largest_cap_def)
qed

lemma validated_package:
  assumes "validateAutoTopUp c = Inr ()" and "package_for c r = Some d"
  shows "0 < int_of (tp_quantity d) \<and> 0 \<le> int_of (tp_amountMicros d)"
proof -
  have "map_of (ac_packages c) r = Some (Some d)"
    using assms(2) by (auto simp: package_for_def split: option.splits)
  then have "(r, Some d) \<in> set (ac_packages c)" by (rule map_of_SomeD)
  moreover have "validate_packages (ac_packages c) = Inr ()"
    using assms(1) by (simp add: validateAutoTopUp_def r_bind_unit_Inr split: if_splits)
  moreover have "validate_packages xs = Inr () \<Longrightarrow> (r, Some d) \<in> set xs \<Longrightarrow>
      0 < int_of (tp_quantity d) \<and> 0 \<le> int_of (tp_amountMicros d)" for xs
    by (induction xs rule: validate_packages.induct)
      (auto simp: r_bind_unit_Inr validatePurchase_def natural_def split: if_splits)
  ultimately show ?thesis by blast
qed

lemma packages_needed_pos:
  assumes "available < required" and "0 < int_of (tp_quantity d)"
  shows "0 < packages_needed required available d"
  using assms by (simp add: packages_needed_def)

definition caps_kept :: "'v foundation \<Rightarrow> bool" where
  "caps_kept s \<longleftrightarrow> (\<forall>ws. within_cap (listProductEntitlementEvents s ws))"

lemma caps_kept_same: "fs_entitlementEvents s' = fs_entitlementEvents s \<Longrightarrow> caps_kept s' = caps_kept s"
  by (simp add: caps_kept_def listProductEntitlementEvents_def)

lemma caps_kept_append:
  assumes "appendProductEntitlementEvent ev s = (Inr u, s')" and "caps_kept s"
    and "within_cap (listProductEntitlementEvents s (eb_workspaceId (event_facts ev))) \<Longrightarrow>
      within_cap (listProductEntitlementEvents s (eb_workspaceId (event_facts ev)) @ [ev])"
  shows "caps_kept s'"
  using assms(2,3) unfolding caps_kept_def appendProductEntitlementEvent_Inr(1) [OF assms(1)] list_append_event by simp

lemma caps_kept_other:
  assumes "appendProductEntitlementEvent ev s = (Inr u, s')" and "caps_kept s"
    and "purchased_id ev = None" and "configured_top_up ev = None" and "pending_amount ev = 0"
  shows "caps_kept s'"
  by (rule caps_kept_append [OF assms(1,2)]) (rule within_cap_other [OF _ assms(3-5)])

lemma pending_within_cap:
  assumes "within_cap es" and "package_for (latestAutoTopUp es) r = Some d" and "available < required"
    and "pu_amountMicros x = JInt (packages_needed required available d * int_of (tp_amountMicros d))"
    and "autoTopUpCapCommitment es month None + int_of (pu_amountMicros x) \<le> int_of (ac_monthlyCapMicros (latestAutoTopUp es))"
  shows "within_cap (es @ [Auto_top_up_pending b x month])"
proof -
  have "latestAutoTopUp es \<noteq> EMPTY_AUTO_TOP_UP" using assms(2) by (auto simp: package_for_def EMPTY_AUTO_TOP_UP_def)
  then have "validateAutoTopUp (latestAutoTopUp es) = Inr ()"
    using assms(1) latest_configuration [of es] by (auto simp: within_cap_def)
  then have price: "0 < int_of (tp_quantity d)" "0 \<le> int_of (tp_amountMicros d)"
    using validated_package [OF _ assms(2)] by simp_all
  have "0 \<le> int_of (pu_amountMicros x)"
    using assms(4) price(2) less_imp_le [OF packages_needed_pos [OF assms(3) price(1)]] by simp
  then show ?thesis by (rule within_cap_pending [OF assms(1) _ assms(5)])
qed

lemma caps_kept_then_usage:
  assumes "appendProductEntitlementEvent ev s = (Inr u, s1)" and "caps_kept s" and "only_usage s1 s'"
    and "purchased_id ev = None" and "configured_top_up ev = None" and "pending_amount ev = 0"
  shows "caps_kept s'"
  using caps_kept_other [OF assms(1,2,4-6)] assms(3) caps_kept_same unfolding only_usage_def by blast

interpretation cap: entitlement_invariant caps_kept
proof unfold_locales
  fix s s' :: entitlement_store
  assume "fs_entitlementEvents s' = fs_entitlementEvents s" and "caps_kept s"
  then show "caps_kept s'" using caps_kept_same by blast
next
  fix s s' :: entitlement_store
  assume "ledger_step s s'" and "caps_kept s"
  then show "caps_kept s'" using ledger_step_entitlements caps_kept_same by blast
next
  fix digest now ctx es and s s' :: entitlement_store
  assume run: "ensureExpiredPlansRecorded digest now ctx (listProductEntitlementEvents s (ax_workspaceId ctx)) s = (Inr es, s')"
    and inv: "caps_kept s"
  from expiry_runs [OF run] show "caps_kept s'"
    by (elim disjE exE conjE) (simp add: inv, rule caps_kept_then_usage [OF _ inv], assumption+, simp_all)
next
  fix digest now ctx i1 es u and s s' :: entitlement_store
  assume run: "grant_plan digest now ctx i1 es s = (Inr u, s')" and inv: "caps_kept s"
  from grant_runs [OF run] show "caps_kept s'"
    by (elim exE conjE) (rule caps_kept_then_usage [OF _ inv], assumption+, simp_all)
next
  fix digest now clock ctx i2 v and s s' :: entitlement_store
  assume run: "record_add_on digest now clock ctx i2 s = (Inr v, s')" and inv: "caps_kept s"
  from add_on_runs [OF run] show "caps_kept s'"
    by (elim disjE exE conjE)
      (simp add: inv, rule caps_kept_then_usage [OF _ inv], assumption, erule only_usage_append, simp_all)
next
  fix c digest now clock ctx key v and s s' :: entitlement_store
  assume valid: "validateAutoTopUp c = Inr ()" and run: "configure_top_up digest now clock ctx c key s = (Inr v, s')"
    and inv: "caps_kept s"
  obtain i t where "appendProductEntitlementEvent (Auto_top_up_configured (new_event ctx i t) c) s = (Inr (), s')"
    using configure_runs [OF run] by blast
  then show "caps_kept s'" by (rule caps_kept_append [OF _ inv]) (rule within_cap_configured [OF _ valid])
next
  fix digest clock ctx i2 month u and s s' :: entitlement_store
  assume run: "appendAutoTopUpPurchase digest clock ctx i2 month (listProductEntitlementEvents s (ax_workspaceId ctx)) s = (Inr u, s')"
    and inv: "caps_kept s"
  obtain i t s1 ev where cap: "autoTopUpCapCommitment (listProductEntitlementEvents s (ax_workspaceId ctx)) month (Some (pu_purchaseId i2)) +
      int_of (pu_amountMicros i2) \<le> int_of (ac_monthlyCapMicros (latestAutoTopUp (listProductEntitlementEvents s (ax_workspaceId ctx))))"
    and append: "appendProductEntitlementEvent (Auto_top_up_purchased (new_event ctx i t) i2 month) s = (Inr (), s1)"
    and usage: "appendUsageRecord ev s1 = (Inr (), s')"
    using purchase_runs [OF run] by blast
  have "caps_kept s1"
    by (rule caps_kept_append [OF append inv]) (simp add: within_cap_purchase cap)
  then show "caps_kept s'" using appendUsageRecord_Inr [OF usage] caps_kept_same [of s' s1] by simp
next
  fix b x month u ws r d available required and s s' :: entitlement_store
  assume append: "appendProductEntitlementEvent (Auto_top_up_pending b x month) s = (Inr u, s')" and ws: "eb_workspaceId b = ws"
    and rest: "package_for (latestAutoTopUp (listProductEntitlementEvents s ws)) r = Some d" "available < required"
      "pu_amountMicros x = JInt (packages_needed required available d * int_of (tp_amountMicros d))"
      "autoTopUpCapCommitment (listProductEntitlementEvents s ws) month None + int_of (pu_amountMicros x) \<le>
        int_of (ac_monthlyCapMicros (latestAutoTopUp (listProductEntitlementEvents s ws)))"
    and inv: "caps_kept s"
  show "caps_kept s'"
    using ws by (intro caps_kept_append [OF append inv]) (simp add: pending_within_cap [OF _ rest])
qed

lemma caps_kept_empty: "caps_kept empty_foundation"
  by (simp add: caps_kept_def listProductEntitlementEvents_def empty_foundation_def within_cap_def
      autoTopUpCapCommitment_def autoTopUpSpend_def largest_cap_def configurations_def map_filter_simps)

section \<open>Payments\<close>

text \<open>What a purchase bought is one of the adjustments of the usage.\<close>

definition adjusted_by :: "usage_event list \<Rightarrow> event_base \<Rightarrow> purchase_facts \<Rightarrow> bool" where
  "adjusted_by us b p \<longleftrightarrow>
     list_ex (\<lambda>u. u\<lparr>ue_reason := []\<rparr> = allowance_adjustment b (pu_resource p) (of_int (int_of (pu_quantity p))) []) us"

fun in_allowance :: "usage_event list \<Rightarrow> entitlement_event \<Rightarrow> bool" where
  "in_allowance us (Add_on_purchased b p) = adjusted_by us b p"
| "in_allowance us (Auto_top_up_purchased b p _) = adjusted_by us b p"
| "in_allowance us _ = True"

definition paid_once :: "entitlement_event list \<Rightarrow> bool" where
  "paid_once es \<longleftrightarrow> distinct (List.map_filter paid_by es) \<and> length (filter register_gift es) \<le> 1"

definition payments_kept :: "'v foundation \<Rightarrow> bool" where
  "payments_kept s \<longleftrightarrow> (\<forall>ws. paid_once (listProductEntitlementEvents s ws)) \<and>
     (\<forall>e \<in> set (fs_entitlementEvents s). in_allowance (fs_usageEvents s) e)"

lemma adjusted_by_mono: "set us \<subseteq> set us' \<Longrightarrow> adjusted_by us b p \<Longrightarrow> adjusted_by us' b p"
  unfolding adjusted_by_def list_ex_iff by blast

lemma in_allowance_mono: "set us \<subseteq> set us' \<Longrightarrow> in_allowance us e \<Longrightarrow> in_allowance us' e"
  by (cases e) (auto intro: adjusted_by_mono)

lemma payments_kept_usage:
  assumes "fs_entitlementEvents s' = fs_entitlementEvents s" and "set (fs_usageEvents s) \<subseteq> set (fs_usageEvents s')"
    and "payments_kept s"
  shows "payments_kept s'"
  using assms in_allowance_mono [OF assms(2)] unfolding payments_kept_def listProductEntitlementEvents_def by simp

lemma paid_once_append:
  assumes "appendProductEntitlementEvent ev s = (Inr u, s')" and "\<forall>ws. paid_once (listProductEntitlementEvents s ws)"
  shows "paid_once (listProductEntitlementEvents s' ws)"
proof (cases "eb_workspaceId (event_facts ev) = ws")
  case True
  let ?es = "listProductEntitlementEvents s ws"
  have once: "paid_once ?es" using assms(2) by blast
  have "i \<notin> set (List.map_filter paid_by ?es)" if "paid_by ev = Some i" for i
    using appendProductEntitlementEvent_Inr(2) [OF assms(1)] True that by (auto simp: List.map_filter_def)
  then have "distinct (List.map_filter paid_by (?es @ [ev]))"
    using once by (auto simp: paid_once_def map_filter_append split: option.split)
  moreover have "filter register_gift ?es = []" if "register_gift ev"
    using appendProductEntitlementEvent_Inr(3) [OF assms(1) that] True by (simp add: filter_empty_conv)
  then have "length (filter register_gift (?es @ [ev])) \<le> 1"
    using once by (cases "register_gift ev") (simp_all add: paid_once_def)
  ultimately show ?thesis
    using True unfolding appendProductEntitlementEvent_Inr(1) [OF assms(1)] list_append_event paid_once_def by simp
next
  case False
  then show ?thesis using assms(2) unfolding appendProductEntitlementEvent_Inr(1) [OF assms(1)] by simp
qed

lemma payments_kept_other:
  assumes "appendProductEntitlementEvent ev s = (Inr u, s1)" and "payments_kept s" and "only_usage s1 s'"
    and "in_allowance (fs_usageEvents s') ev"
  shows "payments_kept s'"
proof -
  have events: "fs_entitlementEvents s' = fs_entitlementEvents s @ [ev]" "set (fs_usageEvents s) \<subseteq> set (fs_usageEvents s')"
    using assms(3) unfolding only_usage_def appendProductEntitlementEvent_Inr(1) [OF assms(1)] by simp_all
  have "listProductEntitlementEvents s' ws = listProductEntitlementEvents s1 ws" for ws
    using assms(3) by (simp add: only_usage_def listProductEntitlementEvents_def)
  then have "\<forall>ws. paid_once (listProductEntitlementEvents s' ws)"
    using paid_once_append [OF assms(1)] assms(2) by (simp add: payments_kept_def)
  then show ?thesis
    using events assms(2,4) in_allowance_mono [OF events(2)] by (auto simp: payments_kept_def)
qed

lemma adjusted_after:
  assumes "appendUsageRecord (allowance_adjustment b (pu_resource p) (of_int (int_of (pu_quantity p))) why) s = (Inr u, s')"
  shows "adjusted_by (fs_usageEvents s') b p"
  using appendUsageRecord_Inr [OF assms] by (simp add: adjusted_by_def allowance_adjustment_def)

interpretation payments: entitlement_invariant payments_kept
proof unfold_locales
  fix s s' :: entitlement_store
  assume "fs_entitlementEvents s' = fs_entitlementEvents s" and "fs_usageEvents s' = fs_usageEvents s" and "payments_kept s"
  then show "payments_kept s'" using payments_kept_usage [of s' s] by simp
next
  fix s s' :: entitlement_store
  assume "ledger_step s s'" and "payments_kept s"
  then show "payments_kept s'" using ledger_step_entitlements payments_kept_usage by blast
next
  fix digest now ctx es and s s' :: entitlement_store
  assume run: "ensureExpiredPlansRecorded digest now ctx (listProductEntitlementEvents s (ax_workspaceId ctx)) s = (Inr es, s')"
    and inv: "payments_kept s"
  from expiry_runs [OF run] show "payments_kept s'"
    by (elim disjE exE conjE) (simp add: inv, rule payments_kept_other [OF _ inv], assumption+, simp)
next
  fix digest now ctx i1 es u and s s' :: entitlement_store
  assume run: "grant_plan digest now ctx i1 es s = (Inr u, s')" and inv: "payments_kept s"
  from grant_runs [OF run] show "payments_kept s'"
    by (elim exE conjE) (rule payments_kept_other [OF _ inv], assumption+, simp)
next
  fix digest now clock ctx i2 v and s s' :: entitlement_store
  assume run: "record_add_on digest now clock ctx i2 s = (Inr v, s')" and inv: "payments_kept s"
  from add_on_runs [OF run] show "payments_kept s'"
    by (elim disjE exE conjE)
      (simp add: inv, rule payments_kept_other [OF _ inv], assumption, erule only_usage_append, simp add: adjusted_after)
next
  fix c digest now clock ctx key v and s s' :: entitlement_store
  assume run: "configure_top_up digest now clock ctx c key s = (Inr v, s')" and inv: "payments_kept s"
  from configure_runs [OF run] show "payments_kept s'"
    by (elim exE) (rule payments_kept_other [OF _ inv], assumption, simp_all)
next
  fix digest clock ctx i2 month u and s s' :: entitlement_store
  assume run: "appendAutoTopUpPurchase digest clock ctx i2 month (listProductEntitlementEvents s (ax_workspaceId ctx)) s = (Inr u, s')"
    and inv: "payments_kept s"
  from purchase_runs [OF run] show "payments_kept s'"
    by (elim exE conjE)
      (rule payments_kept_other [OF _ inv], assumption, erule only_usage_append, simp add: adjusted_after)
next
  fix b x month u ws r d available required and s s' :: entitlement_store
  assume append: "appendProductEntitlementEvent (Auto_top_up_pending b x month) s = (Inr u, s')" and inv: "payments_kept s"
  then show "payments_kept s'" by (intro payments_kept_other [OF append inv]) simp_all
qed

lemma payments_kept_empty: "payments_kept empty_foundation"
  by (simp add: payments_kept_def paid_once_def listProductEntitlementEvents_def empty_foundation_def map_filter_simps)

section \<open>Properties\<close>

text \<open>A run in which an owner buys an add-on of 5, sets a cap of 300 and tops up another 5 for 120.\<close>

definition sample_digest :: "string \<Rightarrow> string" where
  "sample_digest i = i"

definition payload_digest :: "entitlement_payload \<Rightarrow> string" where
  "payload_digest p = ''0''"

definition sample_term :: "string \<Rightarrow> string \<Rightarrow> string \<Rightarrow> product_plan_policy" where
  "sample_term period starts ends =
     \<lparr> pl_revision = ''r1'', pl_tier = Starter, pl_periodId = period, pl_periodStartsAt = starts, pl_periodEndsAt = ends,
       pl_periodStrategy = Some Calendar_month, pl_allowance = for_resources (\<lambda>r. JInt (if r = Copy then 10 else 0)),
       pl_concurrencyLimit = JInt 1, pl_queuePriority = JInt 0, pl_supportLabel = Standard \<rparr>"

definition january :: product_plan_policy where
  "january = sample_term ''p1'' ''2026-01-01T00:00:00.000Z'' ''2026-02-01T00:00:00.000Z''"

definition february :: product_plan_policy where
  "february = sample_term ''p2'' ''2026-02-01T00:00:00.000Z'' ''2026-03-01T00:00:00.000Z''"

definition jan_5 :: int where "jan_5 = 1767571200000"
definition feb_6 :: int where "feb_6 = 1770336000000"

definition sample_packages :: auto_top_up_configuration where
  "sample_packages = \<lparr> ac_enabled = True, ac_monthlyCapMicros = JInt 300,
     ac_packages = [(Copy, Some \<lparr>tp_quantity = JInt 5, tp_amountMicros = JInt 120, tp_currency = ''USD''\<rparr>)] \<rparr>"

definition sample_port :: "((prepare_input \<Rightarrow> (recorded_port, prepared_payment) op) \<times> (settle_input \<Rightarrow> (recorded_port, unit) op)) option" where
  "sample_port = Some (prepareLocal sample_digest, settle_payment sample_digest)"

definition planned_state :: "product_plan_policy \<Rightarrow> int \<Rightarrow> string \<Rightarrow> entitlement_store \<times> recorded_port \<Rightarrow> entitlement_store \<times> recorded_port" where
  "planned_state p now key st = snd (activatePlan sample_digest payload_digest now now sample_owner
     \<lparr>pn_paymentEventId = key, pn_policy = p, pn_grantKey = None\<rparr> key st)"

definition owner_service :: "entitlement_store \<times> recorded_port" where
  "owner_service = (grantMembership ''w'' ''u'' Owner_role empty_foundation, empty_port)"

definition buy_add_on :: "int \<Rightarrow> string \<Rightarrow> (recorded_port, entitlement_value command_value) service_op" where
  "buy_add_on now key = recordAddOnPurchase sample_digest payload_digest now now sample_owner
     \<lparr> pu_paymentEventId = key, pu_purchaseId = key, pu_resource = Copy, pu_quantity = JInt 5, pu_amountMicros = JInt 100,
       pu_currency = ''USD'' \<rparr> key"

definition topped_state :: "entitlement_store \<times> recorded_port" where
  "topped_state =
     snd (autoTopUp sample_port sample_digest payload_digest jan_5 jan_5 sample_owner
       \<lparr>tu_resource = Copy, tu_requiredAvailable = JInt 7, tu_month = None\<rparr> ''k3''
      (snd (configureAutoTopUp sample_digest payload_digest jan_5 jan_5 sample_owner sample_packages ''k2''
        (snd (buy_add_on jan_5 ''k1'' owner_service)))))"

lemma topped_state_run: "service_step\<^sup>*\<^sup>* (empty_foundation, empty_port) topped_state"
proof -
  have "ledger_step empty_foundation (fst owner_service)"
    by (simp add: owner_service_def ledger_membership)
  then have "service_step (empty_foundation, empty_port) owner_service"
    using ledger_step_of [of empty_foundation "fst owner_service" empty_port] by (simp add: owner_service_def)
  note start = r_into_rtranclp [of service_step, OF this]
  have bought: "service_step owner_service (snd (buy_add_on jan_5 ''k1'' owner_service))"
    unfolding buy_add_on_def by (rule add_on_step)
  show ?thesis
    unfolding topped_state_def
    by (rule rtranclp.rtrancl_into_rtrancl [OF rtranclp.rtrancl_into_rtrancl [OF
          rtranclp.rtrancl_into_rtrancl [OF start bought] configure_step] top_up_step])
qed

text \<open>
  C13. The top-ups of a month stay within the owner's cap: in every state that the service, the generation
  ledger and any payment port reach, what a workspace has bought and what is pending of a month is at
  most the largest monthly cap its owner ever configured, and nothing where none was.
\<close>

theorem top_ups_stay_within_cap:
  assumes "service_step\<^sup>*\<^sup>* (empty_foundation, port) st"
  shows "autoTopUpCapCommitment (listProductEntitlementEvents (fst st) ws) month None \<le>
    largest_cap (listProductEntitlementEvents (fst st) ws)"
proof -
  have "caps_kept (fst st)" using cap.run_keeps [OF assms] caps_kept_empty by simp
  then show ?thesis by (simp add: caps_kept_def within_cap_def)
qed

theorem top_ups_stay_within_cap_witness:
  "autoTopUpCapCommitment (listProductEntitlementEvents (fst topped_state) ''w'') ''2026-01'' None \<le>
     largest_cap (listProductEntitlementEvents (fst topped_state) ''w'') \<and>
   autoTopUpSpend (listProductEntitlementEvents (fst topped_state) ''w'') ''2026-01'' = 120"
proof -
  have "autoTopUpSpend (listProductEntitlementEvents (fst topped_state) ''w'') ''2026-01'' = 120" by code_simp
  with top_ups_stay_within_cap [OF topped_state_run, of "''w''" "''2026-01''"] show ?thesis by blast
qed

text \<open>
  C14. A payment grants once: in every state the service reaches, the entitlement events of a workspace name
  each payment at most once and hold at most one register gift, and what an add-on or a top-up bought is
  one of the adjustments of the usage.
\<close>

theorem payments_grant_once:
  assumes "service_step\<^sup>*\<^sup>* (empty_foundation, port) st"
  shows "distinct (List.map_filter paid_by (listProductEntitlementEvents (fst st) ws)) \<and>
    length (filter register_gift (listProductEntitlementEvents (fst st) ws)) \<le> 1 \<and>
    list_all (in_allowance (fs_usageEvents (fst st))) (fs_entitlementEvents (fst st))"
proof -
  have "payments_kept (fst st)" using payments.run_keeps [OF assms] payments_kept_empty by simp
  then show ?thesis by (simp add: payments_kept_def paid_once_def list_all_iff)
qed

theorem payments_grant_once_witness:
  "distinct (List.map_filter paid_by (listProductEntitlementEvents (fst topped_state) ''w'')) \<and>
   List.map_filter paid_by (listProductEntitlementEvents (fst topped_state) ''w'') = [''k1'', ''recorded-payment-w:k3'']"
proof -
  have "List.map_filter paid_by (listProductEntitlementEvents (fst topped_state) ''w'') = [''k1'', ''recorded-payment-w:k3'']"
    by code_simp
  with payments_grant_once [OF topped_state_run, of "''w''"] show ?thesis by blast
qed

section \<open>Faults\<close>

definition used_state :: "rat \<Rightarrow> usage_action \<Rightarrow> rat \<Rightarrow> entitlement_store \<times> recorded_port \<Rightarrow> entitlement_store \<times> recorded_port" where
  "used_state reserved action amount st =
     (let use = (\<lambda>i a n. snd \<circ> appendUsageEvent (\<lambda>_. ''0'') jan_5 jan_5 sample_owner (sample_usage i a n (Some ''res'')) i)
      in use ''e2'' action amount (use ''e1'' U_reserve reserved st))"

definition copy_usage :: "entitlement_projection \<Rightarrow> rat \<times> rat \<times> rat" where
  "copy_usage p = (let u = at_resource (pj_usage p) Copy in (up_allowance u, up_committed u, up_available u))"

fun shown_usage :: "('p, entitlement_value command_value) service_op \<Rightarrow> entitlement_store \<times> 'p \<Rightarrow> (rat \<times> rat \<times> rat) option" where
  "shown_usage m st = (case fst (m st) of Inr (V_entitlement (E_projection p)) \<Rightarrow> Some (copy_usage p) | _ \<Rightarrow> None)"

definition read_projection :: "int \<Rightarrow> (recorded_port, entitlement_projection) service_op" where
  "read_projection now = getProjection sample_digest payload_digest now now sample_owner None"

text \<open>
  An add-on bought after a plan that was used up has ended is not usable: the end of the plan takes its
  allowance back but leaves its committed usage, which then counts against the add-on.
\<close>

lemma add_on_after_end_unusable:
  "shown_usage (buy_add_on feb_6 ''a1'')
     (snd (read_projection feb_6 (used_state 10 U_commit 10 (planned_state january jan_5 ''k1'' owner_service)))) =
   Some (5, 10, 0)"
  by code_simp

text \<open>
  A new period carries the reserved amount of committed work instead of the committed one: with 1 of a
  reservation of 10 committed in January, February starts with 19 available under a plan of 10.
\<close>

lemma new_period_carries_reservation:
  "map_sum (\<lambda>_. ()) copy_usage (fst (read_projection feb_6
     (planned_state february feb_6 ''k2'' (used_state 10 U_commit 1 (planned_state january jan_5 ''k1'' owner_service))))) =
   Inr (20, 1, 19)"
  by code_simp

text \<open>
  While the end of a plan is not recorded, the projection subtracts what was released once more: after
  5 were reserved and given back in January, an add-on of 5 is shown as 10 available.
\<close>

lemma unrecorded_end_counts_released:
  "shown_usage (buy_add_on feb_6 ''a1'') (used_state 5 U_refund 5 (planned_state january jan_5 ''k1'' owner_service)) =
     Some (5, 0, 10)"
  by code_simp

end
