(* ===== verification/Spec2Isabelle.thy ===== *)
theory Spec2Isabelle
  imports CreditLedgerProps GrantLotCorrect CreditSubscriptionProps CycleSchedulerProps ProductUsageProps ProductQuoteProps
    RedemptionProps FairQueueProps EntitlementProps PolicyRevisionProps SupplyPoolProps AdmissionProps PaymentMappingProps
    CreditPlanProps CreditBillingProps GenerationLedgerProps PlanEntitlementProps
begin

text \<open>
  Verification of the billing and entitlement core of the repository: the code under
  \<^verbatim>\<open>src/apps/core/src/p1\<close> that decides what a workspace owns, what it may use, what a task is charged and
  what it gets back.

  \<^bold>\<open>The program.\<close> A workspace receives credits and counted allowances in lots that expire. A subscription
  is paid in periods; a scheduler grants the credits of every calendar cycle that has begun and is paid for.
  A task is quoted, confirmed, reserved, dispatched and settled; the quote service writes one usage record per
  task, returns the credits of work that was not delivered, and keeps the cost of the supply side apart.
  The billing service turns the payment events of a provider into activations, renewals, upgrades,
  downgrades and cancellations of a subscription, each once. The foundation ledger reserves the usage of a
  generation job, freezes its route, records its provider attempts and ends its reservation with the outcome; the
  entitlement service grants plans, add-ons and automatic top-ups as adjustments of the same usage.
  Redemption codes turn into lots of either ledger. Plan policies, account allocations and request
  preferences add up to an effective entitlement under the platform's hard limits; the admission of a
  provider attempt checks it, chooses a supply pool and asks for a lease of the pool's capacity, for which
  the requests of many accounts queue fairly.
  Every component has an in-memory implementation that holds the rules, and a Postgres adapter that replays
  the same rules inside a transaction; the models are of the in-memory classes.

  \<^bold>\<open>Theories and sources.\<close> Each model theory has the records, the pure functions and one definition per method,
  in the order of its file; its lemmas and properties are in the theories after the colon.

    \<^item> \<open>Prelude\<close>, \<open>JsMap\<close>, \<open>JsText\<close>, \<open>JsDate\<close>: the JavaScript the code uses. A method is a function from the state
      to a result and a new state, and keeps what it wrote before it threw; \<^verbatim>\<open>Array.sort\<close> is the stable insertion
      sort over a comparator that may return \<^verbatim>\<open>NaN\<close>; a \<^verbatim>\<open>Map\<close> keeps the order of insertion; \<^verbatim>\<open>trim\<close>,
      \<^verbatim>\<open>localeCompare\<close>, \<^verbatim>\<open>Date.parse\<close>, \<^verbatim>\<open>Date.UTC\<close> and \<^verbatim>\<open>toISOString\<close> are written out.
    \<^item> \<open>Domain\<close>: the vocabulary of \<^verbatim>\<open>foundation/domain.ts\<close> and the first-expiring-first-out order of lots.
    \<^item> \<open>CreditLedger\<close> (\<^verbatim>\<open>credit-billing/credit-ledger.ts\<close>): grants, consumption, refunds and expiry of credits:
      \<open>CreditLedgerCorrect\<close>, \<open>CreditLedgerProps\<close>.
    \<^item> \<open>GrantLot\<close> (\<^verbatim>\<open>foundation/grant-lot.ts\<close>): the same for counted allowances, with the repair of the remaining
      amounts, the reconciliation to a lower plan and the migration of a legacy balance: \<open>GrantLotCorrect\<close>.
    \<^item> \<open>BillingCycle\<close>, \<open>CreditSubscription\<close>, \<open>CycleScheduler\<close>
      (\<^verbatim>\<open>credit-billing/credit-subscription-scheduler.ts\<close>): calendar cycles, the subscription store with its paid
      periods and payment events, and the scheduler over the interface of a ledger: \<open>CreditSubscriptionCorrect\<close>,
      \<open>CreditSubscriptionProps\<close>, \<open>CycleSchedulerProps\<close>.
    \<^item> \<open>ProductUsage\<close> (\<^verbatim>\<open>product-billing/product-usage-ledger.ts\<close>, \<^verbatim>\<open>partial-delivery-settlement.ts\<close>): the usage record
      of a task and the settlement of partly delivered work: \<open>ProductUsageCorrect\<close>, \<open>ProductUsageProps\<close>.
    \<^item> \<open>ProviderCost\<close> (\<^verbatim>\<open>product-billing/provider-cost-snapshot.ts\<close>) and \<open>ProductQuote\<close>
      (\<^verbatim>\<open>product-billing/quote-service.ts\<close>, \<^verbatim>\<open>quote-math.ts\<close>, \<^verbatim>\<open>packages/contracts/src/product-quote.ts\<close>): the life of a
      quote: \<open>ProductQuoteCorrect\<close>, \<open>ProductQuoteProps\<close>.
    \<^item> \<open>Redemption\<close> (\<^verbatim>\<open>foundation/redemption.ts\<close>): the store of codes with its command log and the service that
      creates, voids and redeems them against the two ledgers: \<open>RedemptionCorrect\<close>, \<open>RedemptionProps\<close>.
    \<^item> \<open>FairQueue\<close> (\<^verbatim>\<open>entitlement-pools/fair-queue.ts\<close>): the weighted queue of a supply account and its sliding
      window of service turns: \<open>FairQueueCorrect\<close>, \<open>FairQueueProps\<close>.
    \<^item> \<open>Entitlement\<close> (\<^verbatim>\<open>entitlement-pools/contracts.ts\<close>, \<^verbatim>\<open>account-allocation.ts\<close>, \<^verbatim>\<open>effective-entitlement.ts\<close>,
      \<^verbatim>\<open>foundation/entitlement-policy.ts\<close>): the allocations of an account and the layers of the effective
      entitlement: \<open>EntitlementCorrect\<close>, \<open>EntitlementProps\<close>.
    \<^item> \<open>PolicyRevision\<close> (\<^verbatim>\<open>entitlement-pools/policy-revision.ts\<close>, \<^verbatim>\<open>model-selection-boundary.ts\<close>,
      \<^verbatim>\<open>dual-truth.ts\<close>): drafting, publishing and rolling back plan policies, and the projection a user may see:
      \<open>PolicyRevisionProps\<close>.
    \<^item> \<open>SupplyPool\<close> (\<^verbatim>\<open>entitlement-pools/supply-pool.ts\<close>, \<^verbatim>\<open>three-layer-capacity.ts\<close>): pools, who may use them, and the
      capacity gate with its leases and rate windows: \<open>SupplyPoolProps\<close>.
    \<^item> \<open>Admission\<close> (\<^verbatim>\<open>entitlement-pools/model-supply-admission.ts\<close>): the decision on a provider attempt, over the
      four theories before it: \<open>AdmissionProps\<close>.
    \<^item> \<open>PaymentMapping\<close> (\<^verbatim>\<open>foundation/payment-mapping.ts\<close>): from a payment product and its interval to a plan,
      with the strict table of one provider, and the billing period a provider reports: \<open>PaymentMappingProps\<close>.
    \<^item> \<open>CreditPlan\<close> (\<^verbatim>\<open>credit-billing/credit-plan-catalog.ts\<close>, \<^verbatim>\<open>credit-entitlement-policy.ts\<close>,
      \<^verbatim>\<open>packages/contracts/src/credit-plan-config.ts\<close>, \<^verbatim>\<open>billing-balance.ts\<close>, and the composite policy and the
      opening entitlement of \<^verbatim>\<open>foundation/entitlement-policy.ts\<close>): prices, the published catalogue, the paid
      rights of a workspace and the policy they give: \<open>CreditPlanProps\<close>.
    \<^item> \<open>CreditBilling\<close> (\<^verbatim>\<open>credit-billing/credit-billing-service.ts\<close>): the service that settles payment events over
      the credit ledger and the subscription store, grants trials and add-ons, and reads the balance. Its
      state is the pair of the two; \<open>on_ledger\<close> and \<open>on_store\<close> run a call on its half:
      \<open>CreditBillingCorrect\<close>, \<open>CreditBillingProps\<close>.
    \<^item> \<open>Foundation\<close> (\<^verbatim>\<open>foundation/domain.ts\<close>, \<^verbatim>\<open>foundation/memory-repository.ts\<close>): the records of usage, routes,
      jobs, attempts, costs and assets, their store with its idempotent execution and the claims of module
      commands, and the usage projection.
    \<^item> \<open>GenerationLedger\<close> (\<^verbatim>\<open>foundation/application-service.ts\<close>): the usage and generation commands, each an
      idempotent execution over the store: \<open>GenerationLedgerCorrect\<close>, \<open>GenerationUsage\<close>, \<open>GenerationLedgerProps\<close>.
      A step of the ledger is any of its commands, by any context, or a change of the memberships.
    \<^item> \<open>PlanEntitlement\<close> (\<^verbatim>\<open>foundation/entitlement-service.ts\<close>): plans with their period and its end, add-ons,
      automatic top-ups with their payment port, the projection and the supplement of the policy:
      \<open>PlanEntitlementCorrect\<close>, \<open>PlanEntitlementProps\<close>. A step of the service is any of its methods, a step of
      the ledger, or any change of the payment port.

  \<^bold>\<open>Interfaces.\<close> \<open>js_comparator\<close> states the laws under which the sort sorts, and is interpreted by the order of
  lots and of units. \<open>credit_grant_port\<close> is what the scheduler relies on from a ledger, and is interpreted by the
  credit ledger. \<open>task_charge\<close> is what the quote service relies on from a call that charges or returns the
  reservation of one task, and is interpreted by the settlement and the refund of the usage ledger.
  \<open>redemption_grants\<close> is what a redemption relies on from a ledger that grants once per key, and is interpreted by
  the credit ledger. \<open>scan_order\<close> is the order under which a linear scan finds the least entry, and is
  interpreted by the shares and by the arrival of the fair queue. \<open>entitlement_invariant\<close> is what an invariant
  of the foundation store has to survive to hold throughout the entitlement service, and is interpreted by
  the cap of the top-ups and by the grants of the payments.

  \<^bold>\<open>What the lemmas show.\<close>

    \<^item> Ledgers: credits are conserved up to what overdrawn lots lack, and lots agree with their transactions, in
      every reachable state; no lot is overdrawn while refunds are full ones or the first of their operation; a
      consumption, a grant and a refund happen once, a consumption drains the lots that expire first and is
      refused exactly when the live lots do not hold enough; the repair of an allowance is idempotent and entitlements
      never grow.
    \<^item> Subscriptions: cycles tile the time from the anchor, the searches for a cycle terminate with it, paid
      periods and payment events take effect once, the store keeps its invariant, and no call, one that throws
      included, takes a paid cycle back or revives a cancelled subscription; the scheduler grants every due
      cycle, a second run changes nothing, and reconciliation reports exactly what is missing.
    \<^item> Billing: every outcome of a settlement leaves ledger and store sound, an event settles once although an
      activation may come back as a renewal, an upgrade empties exactly the lots of the old plan's lineage, a renewal is taken
      only for the terms its cycle froze, a late cancellation ends nothing, the trial is granted once; paid
      rights last exactly for the paid cycles or the grace period and decide the plan; the price at checkout is
      rounded to the nearest unit; a strict mapping is total and unambiguous.
    \<^item> Tasks: a usage record splits its reservation exactly into charge and return, a package is settled
      allocation by allocation; every call moves the quotes it names along its own edge of an abstract lifecycle,
      an open quote is the only one of its task and owns its usage record, which is its open reservation unless a
      failure was reported for a quote that was never confirmed; a settlement stays within the ceiling, up to
      rounding for a ceiling that is no whole number of credits, and it happens once.
    \<^item> Generation: a checkpoint is carried out once, a job is dispatched again only after a rejection and at most
      once more, a finished job has ended its reservation accordingly, and the projection of the usage splits
      what was reserved.
    \<^item> Product entitlements: the top-ups of a month, bought and pending, stay within the largest cap the owner set;
      a payment grants once and what it bought is in the allowance.
    \<^item> Redemption: a code moves forward along its statuses and is redeemed once, by one workspace; the redemption
      lots of the ledger are those of the redeemed codes; a redemption of allowances is all or nothing; a command
      takes effect once.
    \<^item> Entitlements: the effective entitlement stays within the hard limits and a live restrict of the account
      store wins over every grant and preference (a restrict by a difference is taken off their sum), up to the
      admission of an attempt; one policy is published per
      tier and a rollback restores any that ever was; the capacity port is asked only for entitled attempts.
    \<^item> Supply: the leases of a gate stay within its layers and its rates within every minute, a release undoes an
      acquisition, pools are resolved exactly for those who may use them; the fair queue keeps its window and
      serves a waiting account within two windows when the others weigh little enough, but can keep a low-priority
      one waiting for ever.
    \<^item> Faults of the entitlements: restricting the last quality tier opens all tiers, granting one model takes the
      others away, and a grant that is switched off opens a dedicated pool.
    \<^item> Faults of the ledgers: a second, smaller refund of credits overdraws a lot; a failing subscription call leaves half of
      its writes; a quote that was only built can release the reservation of another; a
      ceiling of half a credit is charged as a whole one; the in-memory store carries a
      scheduled downgrade through an upgrade, after which the renewal of the new plan is refused; the compensation
      of a job gives back more than was committed, and again for every other reason.
    \<^item> Faults of the product entitlements: an add-on bought after a plan that was used up has ended is not usable, a
      new period carries the reserved amount of committed work, and the projection of a plan whose end is not
      recorded credits released work again.

  \<^bold>\<open>Numbers and bounds.\<close> Numbers the code checks to be integers are \<open>int\<close>; sums of safe integers are taken as
  exact, which they are below \<open>2 ^ 53\<close>, and rounded quotients while the numerator stays below \<open>2 ^ 52\<close>. Rates,
  seconds, amounts and supply costs are exact rationals, with \<open>NaN\<close> where the code asks whether they are finite.
  A date is an integer of milliseconds within the range of a \<^verbatim>\<open>Date\<close>, \<open>None\<close> outside it; a cycle index that
  yields a date is at most 24000000, which bounds the forward search, and the loop over due cycles ends with the
  last paid cycle. Policies, limits, allocations and queue priorities are integers, the optional rates of a capacity
  rationals. No definition uses fuel.

  \<^bold>\<open>Parameters.\<close> The plan catalogue, the payment mappings, and the digests of
  \<^verbatim>\<open>node:crypto\<close> (payload hashes of a payment, revision and usage identifiers of a quote) are arguments, as are the
  hash of a command's payload and the digests of identifiers in the entitlement service, whose payment port is a pair
  of operations on a state of its own. Each reading of the clock is an argument; the clock of the quote service is one
  instant per call, that of a generation command one instant and the one of its audit. The capacity port of the admission is an operation on a state of its own, what the admission
  reads from its repositories is an argument.

  \<^bold>\<open>Not modelled.\<close> The Postgres repositories and SQL migrations of the components (the same rules behind queries);
  the promise queues that serialise calls, which the sequence of calls stands for; \<^verbatim>\<open>structuredClone\<close>, since
  values are copies; the relation facts, cutovers and registered modules of the foundation service and the billing
  part of its usage events; most schemas of the contracts package; and the agent harness, model supply, operations, skills and web application,
  which consume the billing core through the interfaces above.
\<close>

end
